(* ===== verification/Prelude.thy ===== *)
theory Prelude
  imports Main "HOL-Library.Word" "HOL-Library.Char_ord" "HOL-Library.List_Lexorder"
begin

text \<open>
  Shared vocabulary of the development: the result type of fallible Rust code, saturating
  arithmetic on the unsigned machine integers the sources use, a first-match search with
  in-place update (the shape of \<open>iter_mut().find(..)\<close>), and the generic list lemmas the
  component theories rest on. Nothing here models a line of the repository by itself.
\<close>

named_theorems rust_std \<open>unfolding rules for the modelled part of the Rust standard library\<close>
named_theorems wf_intros \<open>invariant preservation rules\<close>

section \<open>Results\<close>

text \<open>\<open>Result<T, E>\<close> is \<open>'e + 'a\<close>, with \<open>Inl\<close> for \<open>Err\<close>; \<open>rbind\<close> is the \<open>?\<close> operator.\<close>

fun rbind :: "'e + 'a \<Rightarrow> ('a \<Rightarrow> 'e + 'b) \<Rightarrow> 'e + 'b" where
  "rbind (Inl e) f = Inl e"
| "rbind (Inr x) f = f x"

definition ok_or :: "'e \<Rightarrow> 'a option \<Rightarrow> 'e + 'a" where
  "ok_or e x = (case x of None \<Rightarrow> Inl e | Some v \<Rightarrow> Inr v)"

lemma rbind_Inr_iff: "rbind m f = Inr y \<longleftrightarrow> (\<exists>x. m = Inr x \<and> f x = Inr y)"
  by (cases m) auto

lemma rbind_Inl_iff: "rbind m f = Inl e \<longleftrightarrow> m = Inl e \<or> (\<exists>x. m = Inr x \<and> f x = Inl e)"
  by (cases m) auto

lemma ok_or_simps [simp]: "ok_or e None = Inl e" "ok_or e (Some v) = Inr v"
  by (simp_all add: ok_or_def)

lemma ok_or_Inr_iff [simp]: "ok_or e x = Inr v \<longleftrightarrow> x = Some v"
  by (cases x) auto

lemma rbind_cong [fundef_cong]:
  "m = m' \<Longrightarrow> (\<And>x. m' = Inr x \<Longrightarrow> f x = f' x) \<Longrightarrow> rbind m f = rbind m' f'"
  by (cases m') auto

section \<open>Saturating unsigned arithmetic\<close>

text \<open>
  Timestamps, counters and byte sizes are unsigned 32- or 64-bit values. They are kept as
  \<open>nat\<close>, with the saturation of \<open>saturating_add\<close> and \<open>saturating_mul\<close> written out;
  \<open>saturating_sub\<close> is exactly the truncated subtraction of \<open>nat\<close>.
\<close>

definition u32_max :: nat where "u32_max = 2 ^ 32 - 1"
definition u64_max :: nat where "u64_max = 2 ^ 64 - 1"

definition sat_add :: "nat \<Rightarrow> nat \<Rightarrow> nat \<Rightarrow> nat" where
  "sat_add hi a b = min (a + b) hi"

definition sat_mul :: "nat \<Rightarrow> nat \<Rightarrow> nat \<Rightarrow> nat" where
  "sat_mul hi a b = min (a * b) hi"

definition checked_mul :: "nat \<Rightarrow> nat \<Rightarrow> nat \<Rightarrow> nat option" where
  "checked_mul hi a b = (if a * b \<le> hi then Some (a * b) else None)"

lemma u64_max_value: "u64_max = 18446744073709551615"
  by (simp add: u64_max_def)

lemma u32_max_value: "u32_max = 4294967295"
  by (simp add: u32_max_def)

lemma sat_add_le [simp]: "sat_add hi a b \<le> hi"
  by (simp add: sat_add_def)

lemma sat_mul_le [simp]: "sat_mul hi a b \<le> hi"
  by (simp add: sat_mul_def)

lemma sat_add_exact: "a + b \<le> hi \<Longrightarrow> sat_add hi a b = a + b"
  by (simp add: sat_add_def)

lemma sat_mul_exact: "a * b \<le> hi \<Longrightarrow> sat_mul hi a b = a * b"
  by (simp add: sat_mul_def)

lemma sat_add_ge: "a \<le> hi \<Longrightarrow> a \<le> sat_add hi a b"
  by (simp add: sat_add_def)

lemma sat_mul_mono: "b \<le> c \<Longrightarrow> sat_mul hi a b \<le> sat_mul hi a c"
  unfolding sat_mul_def by (intro min.mono mult_le_mono) auto

lemma checked_mul_Some_iff: "checked_mul hi a b = Some c \<longleftrightarrow> c = a * b \<and> a * b \<le> hi"
  by (auto simp: checked_mul_def)

section \<open>Association lists searched from the front\<close>

text \<open>
  \<open>iter().find(|(k, _)| k == key)\<close> is \<open>map_of\<close>; \<open>iter_mut().find(..)\<close> followed by an
  assignment rewrites the first match only.
\<close>

fun set_first :: "'k \<Rightarrow> 'v \<Rightarrow> ('k \<times> 'v) list \<Rightarrow> ('k \<times> 'v) list" where
  "set_first k v [] = []"
| "set_first k v ((k', v') # xs) =
     (if k' = k then (k', v) # xs else (k', v') # set_first k v xs)"

lemma keys_set_first [simp]: "map fst (set_first k v xs) = map fst xs"
  by (induction k v xs rule: set_first.induct) auto

lemma length_set_first [simp]: "length (set_first k v xs) = length xs"
  by (induction k v xs rule: set_first.induct) auto

lemma key_set_set_first [simp]: "fst ` set (set_first k v xs) = fst ` set xs"
  by (metis keys_set_first set_map)

lemma map_of_set_first:
  "map_of (set_first k v xs) k' =
     (if k' = k \<and> map_of xs k \<noteq> None then Some v else map_of xs k')"
  by (induction k v xs rule: set_first.induct) auto

lemma map_of_retain:
  "map_of (filter (\<lambda>(k', _). k' \<noteq> k) xs) = (map_of xs)(k := None)"
  by (induction xs) auto

section \<open>Lists\<close>

fun remdups_step :: "'a list \<Rightarrow> 'a \<Rightarrow> 'a list" where
  "remdups_step xs x = (if x \<in> set xs then xs else xs @ [x])"

lemma foldl_remdups_step:
  "distinct acc \<Longrightarrow>
     distinct (foldl remdups_step acc xs) \<and> set (foldl remdups_step acc xs) = set acc \<union> set xs"
  by (induction xs arbitrary: acc) auto

lemma takeWhile_dropWhile_filter:
  "sorted_wrt (\<lambda>a b. P b \<longrightarrow> P a) xs \<Longrightarrow> dropWhile P xs = filter (\<lambda>x. \<not> P x) xs"
  by (induction xs) (auto intro!: filter_True [symmetric])

lemma filter_takeWhile_antitone:
  "sorted_wrt (\<lambda>a b. P b \<longrightarrow> P a) xs \<Longrightarrow> takeWhile P xs = filter P xs"
  by (induction xs) (auto simp: filter_empty_conv)

end
