(* ===== verification/Rust_Str.thy ===== *)
theory Rust_Str
  imports Prelude
begin

text \<open>
  The part of Rust's string library the sources call. A \<open>str\<close> is the list of its UTF-8
  bytes, \<open>string\<close> in HOL (an Isabelle \<open>char\<close> is an 8-bit value), so \<open>len()\<close> is
  \<open>length\<close> and the derived order of \<open>String\<close> is the lexicographic order of bytes.
  Scanners that compare with ASCII characters behave the same on bytes and on scalar values,
  because every byte of a multi-byte sequence is at least 128. Only white space needs care:
  \<open>str::trim\<close> and \<open>split_whitespace\<close> use the Unicode property, whose members outside
  ASCII take two or three bytes.
\<close>

section \<open>Bytes and character classes\<close>

definition byte :: "char \<Rightarrow> nat" where
  "byte c = of_char c"

definition is_ascii :: "char \<Rightarrow> bool" where
  "is_ascii c \<longleftrightarrow> byte c < 128"

definition is_ascii_digit :: "char \<Rightarrow> bool" where
  "is_ascii_digit c \<longleftrightarrow> 48 \<le> byte c \<and> byte c \<le> 57"

definition is_ascii_lowercase :: "char \<Rightarrow> bool" where
  "is_ascii_lowercase c \<longleftrightarrow> 97 \<le> byte c \<and> byte c \<le> 122"

definition is_ascii_uppercase :: "char \<Rightarrow> bool" where
  "is_ascii_uppercase c \<longleftrightarrow> 65 \<le> byte c \<and> byte c \<le> 90"

definition is_ascii_alphabetic :: "char \<Rightarrow> bool" where
  "is_ascii_alphabetic c \<longleftrightarrow> is_ascii_lowercase c \<or> is_ascii_uppercase c"

definition is_ascii_alphanumeric :: "char \<Rightarrow> bool" where
  "is_ascii_alphanumeric c \<longleftrightarrow> is_ascii_alphabetic c \<or> is_ascii_digit c"

definition to_ascii_lower :: "char \<Rightarrow> char" where
  "to_ascii_lower c = (if is_ascii_uppercase c then char_of (byte c + 32) else c)"

lemmas char_class_defs [rust_std] =
  is_ascii_def is_ascii_digit_def is_ascii_lowercase_def is_ascii_uppercase_def
  is_ascii_alphabetic_def is_ascii_alphanumeric_def byte_def

lemma byte_less [simp]: "byte c < 256"
  by (simp add: byte_def)

lemma byte_inject [simp]: "byte c = byte d \<longleftrightarrow> c = d"
  by (simp add: byte_def)

lemma is_ascii_alphanumeric_ascii: "is_ascii_alphanumeric c \<Longrightarrow> is_ascii c"
  by (auto simp: rust_std)

section \<open>White space\<close>

text \<open>The ASCII members of \<open>White_Space\<close>, then the two- and three-byte ones.\<close>

definition ws1 :: "char \<Rightarrow> bool" where
  "ws1 c \<longleftrightarrow> (9 \<le> byte c \<and> byte c \<le> 13) \<or> byte c = 32"

definition ws2 :: "char \<Rightarrow> char \<Rightarrow> bool" where
  "ws2 c d \<longleftrightarrow> byte c = 194 \<and> (byte d = 133 \<or> byte d = 160)"

definition ws3 :: "char \<Rightarrow> char \<Rightarrow> char \<Rightarrow> bool" where
  "ws3 c d e \<longleftrightarrow>
     (byte c = 225 \<and> byte d = 154 \<and> byte e = 128) \<or>
     (byte c = 226 \<and> byte d = 128 \<and>
        ((128 \<le> byte e \<and> byte e \<le> 138) \<or> byte e = 168 \<or> byte e = 169 \<or> byte e = 175)) \<or>
     (byte c = 226 \<and> byte d = 129 \<and> byte e = 159) \<or>
     (byte c = 227 \<and> byte d = 128 \<and> byte e = 128)"

fun trim_by :: "(char \<Rightarrow> bool) \<Rightarrow> (char \<Rightarrow> char \<Rightarrow> bool) \<Rightarrow> (char \<Rightarrow> char \<Rightarrow> char \<Rightarrow> bool)
    \<Rightarrow> string \<Rightarrow> string" where
  "trim_by p q r (c # d # e # s) =
     (if p c then trim_by p q r (d # e # s)
      else if q c d then trim_by p q r (e # s)
      else if r c d e then trim_by p q r s else c # d # e # s)"
| "trim_by p q r [c, d] = (if p c then trim_by p q r [d] else if q c d then [] else [c, d])"
| "trim_by p q r [c] = (if p c then [] else [c])"
| "trim_by p q r [] = []"

definition trim_start :: "string \<Rightarrow> string" where
  "trim_start = trim_by ws1 ws2 ws3"

definition trim_end :: "string \<Rightarrow> string" where
  "trim_end s = rev (trim_by ws1 (\<lambda>d c. ws2 c d) (\<lambda>e d c. ws3 c d e) (rev s))"

definition trim :: "string \<Rightarrow> string" where
  "trim s = trim_end (trim_start s)"

text \<open>A byte that can neither be nor belong to a white-space character.\<close>

definition solid :: "char \<Rightarrow> bool" where
  "solid c \<longleftrightarrow> is_ascii c \<and> \<not> ws1 c"

lemma solid_not_ws:
  assumes "solid c"
  shows "\<not> ws1 c" "\<not> ws2 c d" "\<not> ws3 c d e" "\<not> ws2 d c" "\<not> ws3 e d c"
  using assms by (auto simp: solid_def is_ascii_def ws2_def ws3_def)

lemma trim_by_solid:
  "\<not> p c \<Longrightarrow> (\<And>d. \<not> q c d) \<Longrightarrow> (\<And>d e. \<not> r c d e) \<Longrightarrow> trim_by p q r (c # s) = c # s"
  by (cases s rule: remdups_adj.cases) auto

lemma trim_start_solid: "solid c \<Longrightarrow> trim_start (c # s) = c # s"
  unfolding trim_start_def by (rule trim_by_solid) (auto simp: solid_not_ws)

lemma trim_end_solid: "solid c \<Longrightarrow> trim_end (s @ [c]) = s @ [c]"
  unfolding trim_end_def
  using trim_by_solid [of ws1 c "\<lambda>d c. ws2 c d" "\<lambda>e d c. ws3 c d e" "rev s"]
  by (simp add: solid_not_ws)

lemma trim_Nil [simp]: "trim [] = []"
  by (simp add: trim_def trim_start_def trim_end_def)

lemma trim_solid_ends:
  assumes "s \<noteq> []" "solid (hd s)" "solid (last s)"
  shows "trim s = s"
proof -
  have "trim_start s = s"
    using assms(1,2) by (cases s) (simp_all add: trim_start_solid)
  moreover have "trim_end s = s"
    using assms(1,3) trim_end_solid [of "last s" "butlast s"] by simp
  ultimately show ?thesis by (simp add: trim_def)
qed

lemma trim_solid: "list_all solid s \<Longrightarrow> trim s = s"
  by (cases "s = []") (auto simp: list_all_iff intro!: trim_solid_ends)

lemma is_ascii_alphanumeric_solid: "is_ascii_alphanumeric c \<Longrightarrow> solid c"
  by (auto simp: solid_def ws1_def rust_std)

lemma trim_by_suffix: "\<exists>u. s = u @ trim_by p q r s"
proof (induction p q r s rule: trim_by.induct)
  case (1 p q r c d e s)
  consider "p c" | "\<not> p c" "q c d" | "\<not> p c" "\<not> q c d" "r c d e"
    | "\<not> p c" "\<not> q c d" "\<not> r c d e"
    by blast
  then show ?case
  proof cases
    case 1
    then show ?thesis using "1.IH"(1) by (metis append_Cons trim_by.simps(1))
  next
    case 2
    then show ?thesis using "1.IH"(2) by (metis append_Cons trim_by.simps(1))
  next
    case 3
    then show ?thesis using "1.IH"(3) by (metis append_Cons trim_by.simps(1))
  next
    case 4
    then show ?thesis by simp
  qed
qed auto

lemma trim_is_slice: "\<exists>u v. s = u @ trim s @ v"
proof -
  obtain u where u: "s = u @ trim_start s"
    using trim_by_suffix unfolding trim_start_def by blast
  obtain v where "rev (trim_start s) = v @ rev (trim s)"
    using trim_by_suffix [of "rev (trim_start s)"] unfolding trim_def trim_end_def
    by (metis rev_rev_ident)
  then have "trim_start s = trim s @ rev v"
    by (metis rev_append rev_rev_ident)
  with u show ?thesis by metis
qed

lemma trim_set: "set (trim s) \<subseteq> set s"
  using trim_is_slice [of s] by (metis Un_iff set_append subsetI)

lemma trim_length: "length (trim s) \<le> length s"
  using trim_is_slice [of s] by (metis length_append le_add1 le_add2 order_trans)

text \<open>\<open>split_whitespace\<close>: the maximal runs of non-white-space.\<close>

definition flush :: "string \<Rightarrow> string list \<Rightarrow> string list" where
  "flush acc ps = (if acc = [] then ps else rev acc # ps)"

fun split_ws_aux :: "string \<Rightarrow> string \<Rightarrow> string list" where
  "split_ws_aux acc (c # d # e # s) =
     (if ws1 c then flush acc (split_ws_aux [] (d # e # s))
      else if ws2 c d then flush acc (split_ws_aux [] (e # s))
      else if ws3 c d e then flush acc (split_ws_aux [] s)
      else split_ws_aux (c # acc) (d # e # s))"
| "split_ws_aux acc [c, d] =
     (if ws1 c then flush acc (split_ws_aux [] [d])
      else if ws2 c d then flush acc []
      else split_ws_aux (c # acc) [d])"
| "split_ws_aux acc [c] = (if ws1 c then flush acc [] else flush (c # acc) [])"
| "split_ws_aux acc [] = flush acc []"

definition split_whitespace :: "string \<Rightarrow> string list" where
  "split_whitespace s = split_ws_aux [] s"

section \<open>Splitting\<close>

fun split_once :: "char \<Rightarrow> string \<Rightarrow> (string \<times> string) option" where
  "split_once c [] = None"
| "split_once c (x # s) =
     (if x = c then Some ([], s)
      else (case split_once c s of None \<Rightarrow> None | Some (a, b) \<Rightarrow> Some (x # a, b)))"

lemma split_once_SomeD: "split_once c s = Some (a, b) \<Longrightarrow> s = a @ c # b \<and> c \<notin> set a"
  by (induction s arbitrary: a) (auto split: if_splits option.splits)

lemma split_once_first [simp]: "c \<notin> set a \<Longrightarrow> split_once c (a @ c # b) = Some (a, b)"
  by (induction a) auto

lemma split_once_Some_iff: "split_once c s = Some (a, b) \<longleftrightarrow> s = a @ c # b \<and> c \<notin> set a"
  using split_once_SomeD by auto

lemma split_once_None_iff: "split_once c s = None \<longleftrightarrow> c \<notin> set s"
  by (metis option.exhaust prod.exhaust split_once_Some_iff split_list_first in_set_conv_decomp)

text \<open>\<open>split(c)\<close>: always at least one piece.\<close>

fun split_char :: "char \<Rightarrow> string \<Rightarrow> string list" where
  "split_char c [] = [[]]"
| "split_char c (x # s) =
     (if x = c then [] # split_char c s
      else (case split_char c s of [] \<Rightarrow> [[x]] | p # ps \<Rightarrow> (x # p) # ps))"

lemma split_char_nonempty [simp]: "split_char c s \<noteq> []"
  by (induction s) (auto split: list.split)

lemma hd_split_char: "hd (split_char c s) = takeWhile (\<lambda>x. x \<noteq> c) s"
  by (induction s) (auto split: list.split simp: hd_conv_nth)

text \<open>
  \<open>lines()\<close>: pieces ended by a line feed, each without it and without one carriage return
  before it; a last piece with no line feed is kept as it is, and an empty one is dropped.
\<close>

definition strip_cr :: "string \<Rightarrow> string" where
  "strip_cr s = (if s \<noteq> [] \<and> last s = CHR 0x0D then butlast s else s)"

fun lines_aux :: "string \<Rightarrow> string \<Rightarrow> string list" where
  "lines_aux acc [] = (if acc = [] then [] else [rev acc])"
| "lines_aux acc (c # s) =
     (if c = CHR 0x0A then strip_cr (rev acc) # lines_aux [] s else lines_aux (c # acc) s)"

definition str_lines :: "string \<Rightarrow> string list" where
  "str_lines s = lines_aux [] s"

definition strip_suffix :: "string \<Rightarrow> string \<Rightarrow> string option" where
  "strip_suffix p s =
     (if length p \<le> length s \<and> drop (length s - length p) s = p
      then Some (take (length s - length p) s) else None)"

definition strip_prefix :: "string \<Rightarrow> string \<Rightarrow> string option" where
  "strip_prefix p s = (if take (length p) s = p then Some (drop (length p) s) else None)"

lemma strip_suffix_Some_iff: "strip_suffix p s = Some t \<longleftrightarrow> s = t @ p"
proof
  assume "strip_suffix p s = Some t"
  then show "s = t @ p"
    by (auto simp: strip_suffix_def split: if_splits) (metis append_take_drop_id)
qed (simp add: strip_suffix_def)

lemma strip_prefix_Some_iff: "strip_prefix p s = Some t \<longleftrightarrow> s = p @ t"
proof
  assume "strip_prefix p s = Some t"
  then show "s = p @ t"
    by (auto simp: strip_prefix_def split: if_splits) (metis append_take_drop_id)
qed (simp add: strip_prefix_def)

lemma strip_suffix_append [simp]: "strip_suffix p (t @ p) = Some t"
  by (simp add: strip_suffix_Some_iff)

text \<open>\<open>starts_with\<close> and \<open>ends_with\<close> a character.\<close>

definition starts_with_char :: "char \<Rightarrow> string \<Rightarrow> bool" where
  "starts_with_char c s \<longleftrightarrow> (case s of [] \<Rightarrow> False | x # _ \<Rightarrow> x = c)"

definition ends_with_char :: "char \<Rightarrow> string \<Rightarrow> bool" where
  "ends_with_char c s \<longleftrightarrow> s \<noteq> [] \<and> last s = c"

lemma starts_with_char_simps [simp]:
  "starts_with_char c [] = False" "starts_with_char c (x # s) = (x = c)"
  by (simp_all add: starts_with_char_def)

section \<open>Decimal numbers\<close>

fun dec_value_aux :: "nat \<Rightarrow> string \<Rightarrow> nat" where
  "dec_value_aux n [] = n"
| "dec_value_aux n (c # s) = dec_value_aux (10 * n + (byte c - 48)) s"

definition dec_value :: "string \<Rightarrow> nat" where
  "dec_value s = dec_value_aux 0 s"

text \<open>
  \<open>str::parse\<close> into an unsigned integer with largest value \<open>hi\<close>: an optional plus sign,
  then at least one digit, and no overflow.
\<close>

definition parse_uint :: "nat \<Rightarrow> string \<Rightarrow> nat option" where
  "parse_uint hi s =
     (let d = (case s of [] \<Rightarrow> [] | c # t \<Rightarrow> if c = CHR ''+'' then t else s)
      in if d = [] \<or> \<not> list_all is_ascii_digit d then None
         else if dec_value d \<le> hi then Some (dec_value d) else None)"

text \<open>\<open>to_string()\<close> of an unsigned integer.\<close>

fun show_nat :: "nat \<Rightarrow> string" where
  "show_nat n =
     (if n < 10 then [char_of (48 + n)] else show_nat (n div 10) @ [char_of (48 + n mod 10)])"

declare show_nat.simps [simp del]

lemma byte_char_of [simp]: "n < 256 \<Longrightarrow> byte (char_of n) = n"
  by (simp add: byte_def)

lemma dec_value_aux_snoc: "dec_value_aux n (s @ [c]) = 10 * dec_value_aux n s + (byte c - 48)"
  by (induction s arbitrary: n) auto

lemma dec_value_show_nat: "dec_value (show_nat n) = n"
proof (induction n rule: show_nat.induct)
  case (1 n)
  then show ?case
    by (cases "n < 10")
       (simp_all add: show_nat.simps [of n] dec_value_def dec_value_aux_snoc)
qed

lemma show_nat_digits: "show_nat n \<noteq> [] \<and> list_all is_ascii_digit (show_nat n)"
proof (induction n rule: show_nat.induct)
  case (1 n)
  then show ?case
    by (cases "n < 10") (simp_all add: show_nat.simps [of n] is_ascii_digit_def)
qed

lemma parse_uint_le: "parse_uint hi s = Some n \<Longrightarrow> n \<le> hi"
  by (auto simp: parse_uint_def Let_def split: if_splits)

lemma parse_uint_show_nat: "parse_uint hi (show_nat n) = (if n \<le> hi then Some n else None)"
proof -
  obtain c s where cs: "show_nat n = c # s"
    using show_nat_digits [of n] by (cases "show_nat n") auto
  moreover have "c \<noteq> CHR ''+''"
    using show_nat_digits [of n] cs by (auto simp: rust_std)
  ultimately show ?thesis
    using show_nat_digits [of n] dec_value_show_nat [of n] by (simp add: parse_uint_def)
qed

section \<open>UTF-8\<close>

definition is_cont :: "char \<Rightarrow> bool" where
  "is_cont c \<longleftrightarrow> 128 \<le> byte c \<and> byte c \<le> 191"

text \<open>The second byte of a three- or four-byte sequence (no surrogates, no overlong forms).\<close>

definition second3 :: "char \<Rightarrow> char \<Rightarrow> bool" where
  "second3 a b \<longleftrightarrow>
     (if byte a = 224 then 160 \<le> byte b \<and> byte b \<le> 191
      else if byte a = 237 then 128 \<le> byte b \<and> byte b \<le> 159 else is_cont b)"

definition second4 :: "char \<Rightarrow> char \<Rightarrow> bool" where
  "second4 a b \<longleftrightarrow>
     (if byte a = 240 then 144 \<le> byte b \<and> byte b \<le> 191
      else if byte a = 244 then 128 \<le> byte b \<and> byte b \<le> 143 else is_cont b)"

fun utf8_valid :: "string \<Rightarrow> bool" where
  "utf8_valid (a # b # c # d # s) =
     (if is_ascii a then utf8_valid (b # c # d # s)
      else if 194 \<le> byte a \<and> byte a \<le> 223 then is_cont b \<and> utf8_valid (c # d # s)
      else if 224 \<le> byte a \<and> byte a \<le> 239
        then second3 a b \<and> is_cont c \<and> utf8_valid (d # s)
      else 240 \<le> byte a \<and> byte a \<le> 244 \<and> second4 a b \<and> is_cont c \<and> is_cont d \<and> utf8_valid s)"
| "utf8_valid [a, b, c] =
     (if is_ascii a then utf8_valid [b, c]
      else if 194 \<le> byte a \<and> byte a \<le> 223 then is_cont b \<and> utf8_valid [c]
      else 224 \<le> byte a \<and> byte a \<le> 239 \<and> second3 a b \<and> is_cont c)"
| "utf8_valid [a, b] =
     (if is_ascii a then utf8_valid [b] else 194 \<le> byte a \<and> byte a \<le> 223 \<and> is_cont b)"
| "utf8_valid [a] = is_ascii a"
| "utf8_valid [] = True"

definition is_char_boundary :: "string \<Rightarrow> nat \<Rightarrow> bool" where
  "is_char_boundary s i \<longleftrightarrow>
     i = 0 \<or> i = length s \<or> (i < length s \<and> \<not> is_cont (s ! i))"

lemma utf8_valid_ascii: "list_all is_ascii s \<Longrightarrow> utf8_valid s"
  by (induction s rule: utf8_valid.induct) auto

text \<open>The equations of \<open>utf8_valid\<close> by the width of the first character.\<close>

lemma utf8_valid_1: "is_ascii a \<Longrightarrow> utf8_valid (a # s) = utf8_valid s"
  by (cases s; cases "tl s"; cases "tl (tl s)") auto

lemma utf8_valid_2:
  "\<not> is_ascii a \<Longrightarrow> byte a \<le> 223 \<Longrightarrow> utf8_valid (a # b # s) \<longleftrightarrow> 194 \<le> byte a \<and> is_cont b \<and> utf8_valid s"
  by (cases s; cases "tl s") auto

lemma utf8_valid_3:
  "\<not> is_ascii a \<Longrightarrow> 224 \<le> byte a \<Longrightarrow> byte a \<le> 239 \<Longrightarrow>
     utf8_valid (a # b # c # s) \<longleftrightarrow> second3 a b \<and> is_cont c \<and> utf8_valid s"
  by (cases s) auto

lemma utf8_valid_4:
  "\<not> is_ascii a \<Longrightarrow> 240 \<le> byte a \<Longrightarrow>
     utf8_valid (a # b # c # d # s) \<longleftrightarrow> byte a \<le> 244 \<and> second4 a b \<and> is_cont c \<and> is_cont d \<and> utf8_valid s"
  by auto

lemma second3_cont: "second3 a b \<Longrightarrow> is_cont b"
  by (auto simp: second3_def is_cont_def split: if_splits)

lemma second4_cont: "second4 a b \<Longrightarrow> is_cont b"
  by (auto simp: second4_def is_cont_def split: if_splits)

text \<open>A valid text is empty or a character of one to four bytes followed by a valid text.\<close>

lemma utf8_valid_cases:
  assumes "utf8_valid s" "s \<noteq> []"
  obtains w t where "s = w @ t" "w \<noteq> []" "utf8_valid t" "\<forall>c \<in> set (tl w). is_cont c"
    "\<And>u. utf8_valid (w @ u) = utf8_valid u"
proof -
  obtain a r where s: "s = a # r" using assms(2) by (cases s) auto
  consider "is_ascii a" | "\<not> is_ascii a" "byte a \<le> 223" | "\<not> is_ascii a" "224 \<le> byte a" "byte a \<le> 239"
    | "\<not> is_ascii a" "240 \<le> byte a" by linarith
  then show ?thesis
  proof cases
    case 1
    then show ?thesis using that [of "[a]" r] assms(1) by (simp add: s utf8_valid_1)
  next
    case 2
    with assms(1) obtain b t where r: "r = b # t" by (cases r) (auto simp: s)
    show ?thesis using that [of "[a, b]" t] assms(1) 2 by (simp add: s r utf8_valid_2)
  next
    case 3
    with assms(1) obtain b c t where r: "r = b # c # t"
      by (cases r; cases "tl r") (auto simp: s)
    show ?thesis using that [of "[a, b, c]" t] assms(1) 3 by (auto simp: s r utf8_valid_3 dest: second3_cont)
  next
    case 4
    with assms(1) obtain b c d t where r: "r = b # c # d # t"
      by (cases r; cases "tl r"; cases "tl (tl r)") (auto simp: s)
    show ?thesis using that [of "[a, b, c, d]" t] assms(1) 4 by (auto simp: s r dest: second4_cont)
  qed
qed

lemma utf8_valid_append: "utf8_valid s \<Longrightarrow> utf8_valid (s @ t) = utf8_valid t"
proof (induction "length s" arbitrary: s rule: less_induct)
  case less
  show ?case
  proof (cases "s = []")
    case False
    from utf8_valid_cases [OF less.prems False] obtain w r where
      "s = w @ r" "w \<noteq> []" "utf8_valid r" "\<And>u. utf8_valid (w @ u) = utf8_valid u" by metis
    with less.hyps [of r] show ?thesis by simp
  qed simp
qed

lemma utf8_valid_take:
  "utf8_valid s \<Longrightarrow> is_char_boundary s i \<Longrightarrow> utf8_valid (take i s)"
proof (induction "length s" arbitrary: s i rule: less_induct)
  case less
  show ?case
  proof (cases "s = [] \<or> i = 0")
    case False
    from utf8_valid_cases [OF less.prems(1)] False obtain w r where
      w: "s = w @ r" "w \<noteq> []" "utf8_valid r" "\<forall>c \<in> set (tl w). is_cont c"
        "\<And>u. utf8_valid (w @ u) = utf8_valid u" by metis
    have "\<not> i < length w"
    proof
      assume "i < length w"
      then have "s ! i \<in> set (tl w)" using False w(1,2)
        by (auto simp: nth_append nth_Cons' neq_Nil_conv split: if_splits)
      moreover have "i \<noteq> length s" using \<open>i < length w\<close> w(1) by simp
      ultimately show False using less.prems(2) False w(4) by (simp add: is_char_boundary_def)
    qed
    moreover from this have "is_char_boundary r (i - length w)"
      using less.prems(2) False w(1) by (auto simp: is_char_boundary_def nth_append)
    ultimately show ?thesis using less.hyps [of r "i - length w"] w by simp
  qed auto
qed

text \<open>
  \<open>while end > 0 && !text.is_char_boundary(end) { end -= 1 }\<close>, the loop the sources write out
  before they cut a text.
\<close>

fun floor_boundary :: "string \<Rightarrow> nat \<Rightarrow> nat" where
  "floor_boundary s 0 = 0"
| "floor_boundary s (Suc n) = (if is_char_boundary s (Suc n) then Suc n else floor_boundary s n)"

lemma floor_boundary_le: "floor_boundary s n \<le> n"
  by (induction n) auto

lemma floor_boundary_ok: "is_char_boundary s (floor_boundary s n)"
  by (induction n) (auto simp: is_char_boundary_def)

lemma floor_boundary_greatest:
  "is_char_boundary s i \<Longrightarrow> i \<le> n \<Longrightarrow> i \<le> floor_boundary s n"
  by (induction n) (auto simp: le_Suc_eq)

lemma utf8_valid_cut: "utf8_valid s \<Longrightarrow> utf8_valid (take (floor_boundary s n) s)"
  by (simp add: utf8_valid_take floor_boundary_ok)

end
