(* ===== verification/Unit_Name.thy ===== *)
theory Unit_Name
  imports Rust_Str
begin

text \<open>
  The identity of a unit (\<open>rinit-core/src/unit/mod.rs\<close>) and template expansion
  (\<open>rinit-core/src/unit/template.rs\<close>): \<open>UnitName::parse\<close> with its charset, suffix and
  length rules, the questions about template instances, and \<open>substitute\<close>. The invariant
  \<open>wf_unit_name\<close> is what \<open>parse\<close> establishes and every other component relies on.
\<close>

section \<open>Unit types and names\<close>

datatype UnitType = Service | Target

definition type_suffix :: "UnitType \<Rightarrow> string" where
  "type_suffix t = (case t of Service \<Rightarrow> ''.service'' | Target \<Rightarrow> ''.target'')"

definition type_display :: "UnitType \<Rightarrow> string" where
  "type_display t = (case t of Service \<Rightarrow> ''service'' | Target \<Rightarrow> ''target'')"

definition MAX_UNIT_NAME_BYTES :: nat where
  "MAX_UNIT_NAME_BYTES = 255"

datatype UnitName = UnitName (canonical: string) (unit_type: UnitType)

text \<open>The derived \<open>Ord\<close>: the canonical name first, then the type in declaration order.\<close>

instantiation UnitType :: linorder
begin

definition less_UnitType :: "UnitType \<Rightarrow> UnitType \<Rightarrow> bool" where
  "less_UnitType a b \<longleftrightarrow> a = Service \<and> b = Target"

definition less_eq_UnitType :: "UnitType \<Rightarrow> UnitType \<Rightarrow> bool" where
  "less_eq_UnitType a b \<longleftrightarrow> a = Service \<or> b = Target"

instance
proof
  fix x y z :: UnitType
  show "(x < y) = (x \<le> y \<and> \<not> y \<le> x)" "x \<le> x" "x \<le> y \<or> y \<le> x"
    by (cases x; cases y; simp add: less_UnitType_def less_eq_UnitType_def)+
  show "x \<le> y \<Longrightarrow> y \<le> z \<Longrightarrow> x \<le> z" "x \<le> y \<Longrightarrow> y \<le> x \<Longrightarrow> x = y"
    by (cases x; cases y; cases z; simp add: less_eq_UnitType_def)+
qed

end

instantiation UnitName :: linorder
begin

definition less_UnitName :: "UnitName \<Rightarrow> UnitName \<Rightarrow> bool" where
  "less_UnitName a b \<longleftrightarrow>
     canonical a < canonical b \<or> (canonical a = canonical b \<and> unit_type a < unit_type b)"

definition less_eq_UnitName :: "UnitName \<Rightarrow> UnitName \<Rightarrow> bool" where
  "less_eq_UnitName a b \<longleftrightarrow>
     canonical a < canonical b \<or> (canonical a = canonical b \<and> unit_type a \<le> unit_type b)"

instance
  by standard
     (auto simp: less_UnitName_def less_eq_UnitName_def intro: UnitName.expand)

end

text \<open>The one \<open>CoreError\<close> variant \<open>UnitName::parse\<close> produces.\<close>

datatype CoreError = InvalidUnitName string

definition is_unit_name_char :: "char \<Rightarrow> bool" where
  "is_unit_name_char b \<longleftrightarrow> is_ascii_alphanumeric b \<or> b \<in> set '':_.@-''"

definition is_valid_unit_name :: "string \<Rightarrow> bool" where
  "is_valid_unit_name s \<longleftrightarrow> (if s = [] then False else list_all is_unit_name_char s)"

definition parse_unit_name :: "string \<Rightarrow> CoreError + UnitName" where
  "parse_unit_name raw =
     (let nm = trim raw in
      if \<not> is_valid_unit_name nm then Inl (InvalidUnitName nm)
      else rbind
        (case strip_suffix (type_suffix Service) nm of
           Some st \<Rightarrow>
             if st = [] then Inl (InvalidUnitName nm) else Inr (nm, Service)
         | None \<Rightarrow>
             (case strip_suffix (type_suffix Target) nm of
                Some st \<Rightarrow>
                  if st = [] then Inl (InvalidUnitName nm) else Inr (nm, Target)
              | None \<Rightarrow> Inr (nm @ type_suffix Service, Service)))
        (\<lambda>(canon, t).
           if length canon > MAX_UNIT_NAME_BYTES then Inl (InvalidUnitName canon)
           else Inr (UnitName canon t)))"

definition stem :: "UnitName \<Rightarrow> string" where
  "stem n = (case strip_suffix (type_suffix (unit_type n)) (canonical n) of
      Some s \<Rightarrow> s | None \<Rightarrow> canonical n)"

definition instance_of :: "UnitName \<Rightarrow> string option" where
  "instance_of n = (case split_once (CHR ''@'') (stem n) of
      None \<Rightarrow> None | Some (_, i) \<Rightarrow> if i \<noteq> [] then Some i else None)"

definition is_template :: "UnitName \<Rightarrow> bool" where
  "is_template n \<longleftrightarrow> CHR ''@'' \<in> set (stem n) \<and> instance_of n = None"

definition template_of :: "UnitName \<Rightarrow> UnitName option" where
  "template_of n = (case split_once (CHR ''@'') (stem n) of
      None \<Rightarrow> None
    | Some (p, i) \<Rightarrow>
        if i = [] then None
        else (case parse_unit_name (p @ ''@'' @ type_suffix (unit_type n)) of
                Inl _ \<Rightarrow> None | Inr t \<Rightarrow> Some t))"

definition name_prefix :: "UnitName \<Rightarrow> string" where
  "name_prefix n = (case split_once (CHR ''@'') (stem n) of
      None \<Rightarrow> stem n | Some (p, _) \<Rightarrow> p)"

text \<open>
  \<open>template::substitute\<close>: what the loop appends to its output for the remaining characters,
  \<open>None\<close> where it returns early.
\<close>

fun expand :: "string \<Rightarrow> UnitName \<Rightarrow> string \<Rightarrow> string option" where
  "expand inst n [] = Some []"
| "expand inst n (c # s) =
     (if c \<noteq> CHR ''%'' then map_option (append [c]) (expand inst n s)
      else (case s of
              [] \<Rightarrow> None
            | d # t \<Rightarrow>
                if d = CHR ''i'' then map_option (append inst) (expand inst n t)
                else if d = CHR ''n'' then map_option (append (canonical n)) (expand inst n t)
                else if d = CHR ''p'' then map_option (append (name_prefix n)) (expand inst n t)
                else if d = CHR ''%'' then map_option (append ''%'') (expand inst n t)
                else None))"

definition substitute :: "string \<Rightarrow> UnitName \<Rightarrow> string option" where
  "substitute txt n = (case instance_of n of None \<Rightarrow> None | Some i \<Rightarrow> expand i n txt)"

section \<open>The name invariant\<close>

definition wf_unit_name :: "UnitName \<Rightarrow> bool" where
  "wf_unit_name n \<longleftrightarrow>
     list_all is_unit_name_char (canonical n) \<and> length (canonical n) \<le> MAX_UNIT_NAME_BYTES \<and>
     (\<exists>s. s \<noteq> [] \<and> canonical n = s @ type_suffix (unit_type n))"

lemma is_unit_name_char_solid: "is_unit_name_char c \<Longrightarrow> solid c"
  by (auto simp: is_unit_name_char_def solid_def ws1_def rust_std)

lemma unit_name_chars_trim: "list_all is_unit_name_char s \<Longrightarrow> trim s = s"
  by (rule trim_solid) (auto simp: list_all_iff is_unit_name_char_solid)

lemma type_suffix_chars: "list_all is_unit_name_char (type_suffix t)"
  by (cases t) (auto simp: type_suffix_def is_unit_name_char_def rust_std)

lemma suffixes_differ: "a @ ''.service'' \<noteq> b @ ''.target''"
proof
  assume "a @ ''.service'' = b @ ''.target''"
  then have "last (a @ ''.service'') = last (b @ ''.target'')" by (rule arg_cong)
  then show False by simp
qed

lemma parse_unit_name_suffixed:
  assumes "list_all is_unit_name_char s" "s \<noteq> []"
    and "length s + length (type_suffix t) \<le> MAX_UNIT_NAME_BYTES"
  shows "parse_unit_name (s @ type_suffix t) = Inr (UnitName (s @ type_suffix t) t)"
proof -
  have ok: "list_all is_unit_name_char (s @ type_suffix t)"
    using assms(1) type_suffix_chars by simp
  have no: "strip_suffix (type_suffix Service) (s @ type_suffix Target) \<noteq> Some x" for x
    using suffixes_differ [of x s] by (simp add: strip_suffix_Some_iff type_suffix_def)
  show ?thesis
    using assms ok no
    by (cases t)
       (auto simp: parse_unit_name_def unit_name_chars_trim is_valid_unit_name_def Let_def
          split: option.split)
qed

lemma parse_unit_name_wf: "parse_unit_name raw = Inr n \<Longrightarrow> wf_unit_name n"
  using type_suffix_chars [of Service]
  by (auto simp: parse_unit_name_def wf_unit_name_def is_valid_unit_name_def Let_def
        rbind_Inr_iff strip_suffix_Some_iff split: if_splits option.splits)
     (metis list_all_append)+

lemma wf_unit_name_iff_parse: "wf_unit_name n \<longleftrightarrow> parse_unit_name (canonical n) = Inr n"
proof
  assume "wf_unit_name n"
  then show "parse_unit_name (canonical n) = Inr n"
    unfolding wf_unit_name_def using parse_unit_name_suffixed
    by (cases n) auto
qed (rule parse_unit_name_wf)

lemma wf_stem: "wf_unit_name n \<Longrightarrow> stem n \<noteq> [] \<and> canonical n = stem n @ type_suffix (unit_type n)"
  unfolding wf_unit_name_def stem_def by auto

lemma wf_canonical_bounds:
  "wf_unit_name n \<Longrightarrow> 0 < length (canonical n) \<and> length (canonical n) \<le> MAX_UNIT_NAME_BYTES"
  by (auto simp: wf_unit_name_def)

lemma wf_canonical_ascii: "wf_unit_name n \<Longrightarrow> list_all is_ascii (canonical n)"
  unfolding wf_unit_name_def list_all_iff
  using is_unit_name_char_solid solid_def by blast

lemma wf_canonical_inject: "wf_unit_name m \<Longrightarrow> wf_unit_name n \<Longrightarrow> canonical m = canonical n \<Longrightarrow> m = n"
  by (metis Inr_inject wf_unit_name_iff_parse)

section \<open>Templates\<close>

lemma stem_suffixed: "stem (UnitName (s @ type_suffix t) t) = s"
  by (simp add: stem_def)

lemma template_of_instance:
  assumes "wf_unit_name n" and "stem n = p @ CHR ''@'' # i" and "CHR ''@'' \<notin> set p" and "i \<noteq> []"
  shows "template_of n = Some (UnitName ((p @ ''@'') @ type_suffix (unit_type n)) (unit_type n))"
proof -
  have "canonical n = (p @ CHR ''@'' # i) @ type_suffix (unit_type n)"
    using wf_stem [OF assms(1)] assms(2) by simp
  then have "parse_unit_name ((p @ ''@'') @ type_suffix (unit_type n)) =
      Inr (UnitName ((p @ ''@'') @ type_suffix (unit_type n)) (unit_type n))"
    using assms(1) by (intro parse_unit_name_suffixed) (auto simp: wf_unit_name_def)
  then show ?thesis
    using assms(2-4) by (simp add: template_of_def)
qed

lemma expand_append:
  "expand i n a = Some x \<Longrightarrow> expand i n (a @ b) = map_option (append x) (expand i n b)"
proof (induction i n a arbitrary: x rule: expand.induct)
  case (1 i n)
  then show ?case by (simp add: option.map_id0 [unfolded id_def])
next
  case (2 i n c s)
  show ?case
  proof (cases "c = CHR ''%''")
    case False
    then obtain y where "expand i n s = Some y" "x = c # y"
      using "2.prems" by auto
    with "2.IH"(1) False show ?thesis by (simp add: option.map_comp comp_def)
  next
    case True
    then obtain d t where s: "s = d # t"
      using "2.prems" by (cases s) auto
    with True "2.prems" obtain w y where y: "expand i n t = Some y" "x = w @ y"
      and w: "\<And>z. expand i n (c # d # z) = map_option (append w) (expand i n z)"
      by (auto split: if_splits)
    have "expand i n (t @ b) = map_option (append y) (expand i n b)"
      using "2.IH"(2-) True s y "2.prems" by (auto split: if_splits)
    with w [of "t @ b"] y s show ?thesis by (simp add: option.map_comp comp_def)
  qed
qed

lemma substitute_Some_iff:
  "substitute txt n = Some out \<longleftrightarrow> (\<exists>i. instance_of n = Some i \<and> expand i n txt = Some out)"
  by (auto simp: substitute_def split: option.split)

section \<open>Properties\<close>

text \<open>
  A canonical name read back by \<open>UnitName::parse\<close> is the same unit: whatever text
  was parsed, the name that results is a fixed point of the parser, keeps its type, and fits the
  255-byte limit of the control protocol.
\<close>

theorem parse_unit_name_idempotent:
  assumes "parse_unit_name raw = Inr n"
  shows "parse_unit_name (canonical n) = Inr n \<and>
    length (canonical n) \<le> MAX_UNIT_NAME_BYTES \<and>
    (\<exists>s. s \<noteq> [] \<and> canonical n = s @ type_suffix (unit_type n))"
  using parse_unit_name_wf [OF assms] wf_unit_name_iff_parse [of n]
  by (simp_all add: wf_unit_name_def)

theorem parse_unit_name_idempotent_witness:
  "parse_unit_name ''  dbus '' = Inr (UnitName ''dbus.service'' Service) \<and>
   parse_unit_name ''dbus.service'' = Inr (UnitName ''dbus.service'' Service)"
proof -
  have h: "parse_unit_name ''  dbus '' = Inr (UnitName ''dbus.service'' Service)"
    by code_simp
  show ?thesis using h parse_unit_name_idempotent [OF h] by simp
qed

text \<open>
  Every instance name has its template: a name accepted by \<open>UnitName::parse\<close> with an
  instance part has a \<open>template()\<close>, which is itself a template of the same type with the same
  \<open>%p\<close> prefix and no instance, and a name with no instance has none.
\<close>

theorem template_of_parsed:
  assumes "parse_unit_name raw = Inr n"
  shows "case instance_of n of
      None \<Rightarrow> template_of n = None
    | Some i \<Rightarrow> (\<exists>t. template_of n = Some t \<and> is_template t \<and> instance_of t = None \<and>
        name_prefix t = name_prefix n \<and> unit_type t = unit_type n \<and> wf_unit_name t \<and>
        canonical n = name_prefix n @ ''@'' @ i @ type_suffix (unit_type n))"
proof (cases "split_once (CHR ''@'') (stem n)")
  case None
  then show ?thesis by (simp add: instance_of_def template_of_def)
next
  case (Some pi)
  then obtain p i where pi: "split_once (CHR ''@'') (stem n) = Some (p, i)" by (cases pi) auto
  then have st: "stem n = p @ CHR ''@'' # i" "CHR ''@'' \<notin> set p"
    by (simp_all add: split_once_Some_iff)
  note wf = parse_unit_name_wf [OF assms]
  let ?t = "UnitName ((p @ ''@'') @ type_suffix (unit_type n)) (unit_type n)"
  have stt: "stem ?t = p @ ''@''" by (rule stem_suffixed)
  show ?thesis
  proof (cases "i = []")
    case True
    with pi show ?thesis by (simp add: instance_of_def template_of_def)
  next
    case False
    have "template_of n = Some ?t" by (rule template_of_instance [OF wf st False])
    moreover from this have "wf_unit_name ?t"
      by (auto simp: template_of_def pi False intro: parse_unit_name_wf split: sum.splits)
    ultimately show ?thesis
      using False st stt wf_stem [OF wf]
      by (simp add: instance_of_def is_template_def name_prefix_def)
  qed
qed

theorem template_of_parsed_witness:
  "\<exists>n. parse_unit_name ''worker@1.service'' = Inr n \<and> template_of n \<noteq> None"
proof -
  have h: "parse_unit_name ''worker@1.service'' = Inr (UnitName ''worker@1.service'' Service)"
    by code_simp
  have "instance_of (UnitName ''worker@1.service'' Service) = Some ''1''" by code_simp
  with template_of_parsed [OF h] h show ?thesis by auto
qed

text \<open>
  Template expansion is compositional and strict: after a prefix that expands, each of
  the four specifiers contributes exactly its replacement and expansion goes on behind it, while any
  other character after a \<open>%\<close>, or none at all, refuses the whole text.
\<close>

theorem substitute_compositional:
  assumes "instance_of n = Some i" and "substitute a n = Some x"
  shows "substitute (a @ ''%i'' @ b) n = map_option (\<lambda>y. x @ i @ y) (substitute b n) \<and>
    substitute (a @ ''%n'' @ b) n = map_option (\<lambda>y. x @ canonical n @ y) (substitute b n) \<and>
    substitute (a @ ''%p'' @ b) n = map_option (\<lambda>y. x @ name_prefix n @ y) (substitute b n) \<and>
    substitute (a @ ''%%'' @ b) n = map_option (\<lambda>y. x @ ''%'' @ y) (substitute b n) \<and>
    substitute (a @ ''%'') n = None \<and>
    (\<forall>d. d \<notin> set ''inp%'' \<longrightarrow> substitute (a @ CHR ''%'' # d # b) n = None)"
proof -
  have ex: "expand i n a = Some x"
    using assms by (simp add: substitute_def)
  show ?thesis
    using assms(1) by (simp add: substitute_def expand_append [OF ex] option.map_comp comp_def)
qed

theorem substitute_compositional_witness:
  "substitute (''-'' @ ''%i'' @ ''-%p'') (UnitName ''w@7.service'' Service) = Some ''-7-w''"
proof -
  let ?n = "UnitName ''w@7.service'' Service"
  have h: "instance_of ?n = Some ''7''" "substitute ''-'' ?n = Some ''-''" by code_simp+
  have "substitute ''-%p'' ?n = Some ''-w''" by code_simp
  with substitute_compositional [OF h] show ?thesis by simp
qed

end
