(* ===== verification/Unit_Config.thy ===== *)
theory Unit_Config
  imports Unit_Name
begin

text \<open>
  The unit-file data model (\<open>rinit-core/src/unit/config.rs\<close>): the directive value types with
  their parsers and the \<open>UnitConfig\<close> record with the defaults of \<open>UnitConfig::new\<close>. Record
  fields keep the source's names; \<open>name\<close> and \<open>kind\<close> carry the prefix \<open>cfg_\<close>. The unsigned
  integer fields are \<open>nat\<close>; the parsers establish that they fit their width.
\<close>

section \<open>Directive values\<close>

datatype ServiceKind = Simple | Oneshot | Notify | Forking

definition service_kind_parse :: "string \<Rightarrow> ServiceKind option" where
  "service_kind_parse s =
     (if s = ''simple'' then Some Simple
      else if s = ''oneshot'' then Some Oneshot
      else if s = ''notify'' then Some Notify
      else if s = ''forking'' then Some Forking
      else None)"

datatype RestartPolicy = No | Always | OnSuccess | OnFailure | OnAbnormal

definition restart_policy_parse :: "string \<Rightarrow> RestartPolicy option" where
  "restart_policy_parse s =
     (if s = ''no'' then Some No
      else if s = ''always'' then Some Always
      else if s = ''on-success'' then Some OnSuccess
      else if s = ''on-failure'' then Some OnFailure
      else if s = ''on-abnormal'' then Some OnAbnormal
      else None)"

datatype ExecCommand = ExecCommand (argv: "string list")

definition exec_empty :: ExecCommand where
  "exec_empty = ExecCommand []"

definition exec_is_empty :: "ExecCommand \<Rightarrow> bool" where
  "exec_is_empty c \<longleftrightarrow> argv c = []"

datatype SizeBytes = SizeBytes (size_bytes: nat)

text \<open>\<open>strip_suffix([upper, lower])\<close>: one trailing character out of two.\<close>

definition strip_suffix2 :: "char \<Rightarrow> char \<Rightarrow> string \<Rightarrow> string option" where
  "strip_suffix2 u l s = (if s \<noteq> [] \<and> (last s = u \<or> last s = l) then Some (butlast s) else None)"

definition size_scale :: "string \<Rightarrow> string \<times> nat" where
  "size_scale s =
     (case strip_suffix2 (CHR ''K'') (CHR ''k'') s of Some rest \<Rightarrow> (rest, 1024)
      | None \<Rightarrow> (case strip_suffix2 (CHR ''M'') (CHR ''m'') s of Some rest \<Rightarrow> (rest, 1024 * 1024)
      | None \<Rightarrow> (case strip_suffix2 (CHR ''G'') (CHR ''g'') s of
          Some rest \<Rightarrow> (rest, 1024 * 1024 * 1024)
      | None \<Rightarrow> (s, 1))))"

definition size_parse :: "string \<Rightarrow> SizeBytes option" where
  "size_parse raw =
     (let s = trim raw in
      if s = [] then None
      else let (ds, scale) = size_scale s; d = trim ds in
        if d = [] \<or> \<not> list_all is_ascii_digit d then None
        else (case parse_uint u64_max d of
                None \<Rightarrow> None
              | Some v \<Rightarrow> map_option SizeBytes (checked_mul u64_max v scale)))"

datatype CpuQuota = Percent nat | QuotaPeriod nat nat

definition cpu_quota_parse :: "string \<Rightarrow> CpuQuota option" where
  "cpu_quota_parse raw =
     (let s = trim raw in
      case strip_suffix ''%'' s of
        Some p \<Rightarrow>
          (let pct = trim p in
           if pct = [] \<or> \<not> list_all is_ascii_digit pct then None
           else (case parse_uint u32_max pct of
                   None \<Rightarrow> None
                 | Some v \<Rightarrow> if v > 0 \<and> v \<le> 100 then Some (Percent v) else None))
      | None \<Rightarrow>
          (case split_whitespace s of
             q # p # rest \<Rightarrow>
               (case parse_uint u64_max q of
                  None \<Rightarrow> None
                | Some quota \<Rightarrow>
                    (case parse_uint u64_max p of
                       None \<Rightarrow> None
                     | Some period \<Rightarrow>
                         if rest \<noteq> [] \<or> quota = 0 \<or> period = 0 then None
                         else Some (QuotaPeriod quota period)))
           | _ \<Rightarrow> None))"

datatype Cap = Cap (cap_name: string)

definition cap_parse :: "string \<Rightarrow> Cap option" where
  "cap_parse raw =
     (let s = trim raw;
          nm = (case strip_prefix ''CAP_'' s of Some r \<Rightarrow> r
                | None \<Rightarrow> (case strip_prefix ''cap_'' s of Some r \<Rightarrow> r | None \<Rightarrow> s))
      in if nm = [] then None
         else let norm = map to_ascii_lower nm in
           if \<not> list_all (\<lambda>b. is_ascii_lowercase b \<or> is_ascii_digit b \<or> b = CHR ''_'') norm
           then None else Some (Cap norm))"

section \<open>Dependencies and the unit configuration\<close>

record Dependencies =
  requires :: "UnitName list"
  wants :: "UnitName list"
  after :: "UnitName list"
  before :: "UnitName list"
  conflicts :: "UnitName list"

definition no_dependencies :: Dependencies where
  "no_dependencies = \<lparr>requires = [], wants = [], after = [], before = [], conflicts = []\<rparr>"

definition all_referenced :: "Dependencies \<Rightarrow> UnitName list" where
  "all_referenced d =
     foldl (foldl remdups_step) [] [requires d, wants d, after d, before d, conflicts d]"

record UnitConfig =
  cfg_name :: UnitName
  cfg_kind :: UnitType
  description :: string
  documentation :: string
  deps :: Dependencies
  service_kind :: ServiceKind
  exec_start :: ExecCommand
  exec_start_pre :: "ExecCommand list"
  exec_start_post :: "ExecCommand list"
  exec_stop :: ExecCommand
  socket_activate :: "string option"
  idle_timeout_sec :: nat
  sockets :: "string list"
  needs_socket :: "string list"
  tty_path :: "string option"
  tty_reset :: bool
  pid_file :: "string option"
  restart :: RestartPolicy
  restart_sec :: nat
  start_limit_burst :: nat
  start_limit_interval_sec :: nat
  timeout_start_sec :: nat
  timeout_stop_sec :: nat
  cfg_user :: string
  cfg_group :: string
  no_new_privileges :: bool
  capability_bounding_set :: "Cap list option"
  ambient_capabilities :: "Cap list option"
  cfg_environment :: "(string \<times> string) list"
  environment_file :: string
  working_directory :: string
  health_check :: ExecCommand
  health_interval_sec :: nat
  health_timeout_sec :: nat
  health_restart_on_failure :: bool
  cgroup_memory_max :: "SizeBytes option"
  cgroup_memory_high :: "SizeBytes option"
  cgroup_cpu_max :: "CpuQuota option"
  cgroup_tasks_max :: "nat option"

definition new_config :: "UnitName \<Rightarrow> UnitConfig" where
  "new_config n = \<lparr>
     cfg_name = n,
     cfg_kind = unit_type n,
     description = [],
     documentation = [],
     deps = no_dependencies,
     service_kind = Simple,
     exec_start = exec_empty,
     exec_start_pre = [],
     exec_start_post = [],
     exec_stop = exec_empty,
     socket_activate = None,
     idle_timeout_sec = 0,
     sockets = [],
     needs_socket = [],
     tty_path = None,
     tty_reset = True,
     pid_file = None,
     restart = No,
     restart_sec = 2,
     start_limit_burst = 5,
     start_limit_interval_sec = 10,
     timeout_start_sec = 30,
     timeout_stop_sec = 10,
     cfg_user = [],
     cfg_group = [],
     no_new_privileges = False,
     capability_bounding_set = None,
     ambient_capabilities = None,
     cfg_environment = [],
     environment_file = [],
     working_directory = ''/'',
     health_check = exec_empty,
     health_interval_sec = 30,
     health_timeout_sec = 10,
     health_restart_on_failure = False,
     cgroup_memory_max = None,
     cgroup_memory_high = None,
     cgroup_cpu_max = None,
     cgroup_tasks_max = None\<rparr>"

definition is_target :: "UnitConfig \<Rightarrow> bool" where
  "is_target c \<longleftrightarrow> cfg_kind c = Target"

text \<open>
  \<open>core::time::Duration\<close> is a whole number of nanoseconds. \<open>restart_delay\<close> is
  \<open>Duration::from_secs\<close> of the field.
\<close>

type_synonym duration = nat

definition from_secs :: "nat \<Rightarrow> duration" where
  "from_secs s = s * 1000000000"

definition from_millis :: "nat \<Rightarrow> duration" where
  "from_millis m = m * 1000000"

definition as_secs :: "duration \<Rightarrow> nat" where
  "as_secs d = d div 1000000000"

definition subsec_millis :: "duration \<Rightarrow> nat" where
  "subsec_millis d = (d mod 1000000000) div 1000000"

definition restart_delay :: "UnitConfig \<Rightarrow> duration" where
  "restart_delay c = from_secs (restart_sec c)"

definition spawns_process :: "UnitConfig \<Rightarrow> bool" where
  "spawns_process c \<longleftrightarrow> cfg_kind c = Service"

section \<open>Lemmas\<close>

lemma spawns_process_iff: "spawns_process c \<longleftrightarrow> \<not> is_target c"
  by (cases "cfg_kind c") (simp_all add: spawns_process_def is_target_def)

lemma all_referenced_set:
  "distinct (all_referenced d) \<and>
   set (all_referenced d) =
     set (requires d) \<union> set (wants d) \<union> set (after d) \<union> set (before d) \<union> set (conflicts d)"
  using foldl_remdups_step [of "[]"] by (auto simp: all_referenced_def foldl_remdups_step)

lemma digits_not_suffix:
  "list_all is_ascii_digit d \<Longrightarrow> d \<noteq> [] \<Longrightarrow> \<not> is_ascii_digit u \<Longrightarrow> \<not> is_ascii_digit l \<Longrightarrow>
     strip_suffix2 u l d = None"
  by (auto simp: strip_suffix2_def list_all_iff)

lemma size_scale_letter:
  "c \<in> set ''KkMmGg'' \<Longrightarrow> size_scale (d @ [c]) =
     (d, if c \<in> set ''Kk'' then 1024 else if c \<in> set ''Mm'' then 1048576 else 1073741824)"
  by (auto simp: size_scale_def strip_suffix2_def)

lemma size_scale_digits:
  "list_all is_ascii_digit d \<Longrightarrow> d \<noteq> [] \<Longrightarrow> size_scale d = (d, 1)"
  by (simp add: size_scale_def digits_not_suffix rust_std)

lemma is_ascii_digit_solid: "is_ascii_digit c \<Longrightarrow> solid c"
  by (simp add: is_ascii_alphanumeric_solid is_ascii_alphanumeric_def)

lemma trim_digits: "list_all is_ascii_digit d \<Longrightarrow> trim d = d"
  by (rule trim_solid) (auto simp: list_all_iff is_ascii_digit_solid)

section \<open>Properties\<close>

text \<open>
  A byte size written as a decimal count with an optional \<open>K\<close>, \<open>M\<close> or \<open>G\<close> suffix
  (either case) is parsed to the count times the power of 1024, and is refused exactly when the
  count or the product does not fit in 64 bits; it never wraps.
\<close>

theorem size_parse_exact:
  "size_parse (show_nat n) = (if n \<le> u64_max then Some (SizeBytes n) else None) \<and>
   (c \<in> set ''KkMmGg'' \<longrightarrow>
     size_parse (show_nat n @ [c]) =
       (let scale = (if c \<in> set ''Kk'' then 2 ^ 10 else if c \<in> set ''Mm'' then 2 ^ 20 else 2 ^ 30)
        in if n \<le> u64_max \<and> n * scale \<le> u64_max then Some (SizeBytes (n * scale)) else None))"
proof -
  have d: "list_all is_ascii_digit (show_nat n)" "show_nat n \<noteq> []"
    using show_nat_digits by auto
  note p = parse_uint_show_nat [of u64_max n]
  have plain: "size_parse (show_nat n) = (if n \<le> u64_max then Some (SizeBytes n) else None)"
    using d p by (simp add: size_parse_def trim_digits size_scale_digits checked_mul_def)
  have letter: "size_parse (show_nat n @ [c]) =
       (let scale = (if c \<in> set ''Kk'' then 2 ^ 10 else if c \<in> set ''Mm'' then 2 ^ 20 else 2 ^ 30)
        in if n \<le> u64_max \<and> n * scale \<le> u64_max then Some (SizeBytes (n * scale)) else None)"
    if c: "c \<in> set ''KkMmGg''"
  proof -
    have "solid c" using c by (auto simp: solid_def ws1_def rust_std)
    then have t: "trim (show_nat n @ [c]) = show_nat n @ [c]"
      using d by (intro trim_solid) (auto simp: list_all_iff is_ascii_digit_solid)
    define sc :: nat where
      "sc = (if c \<in> set ''Kk'' then 2 ^ 10 else if c \<in> set ''Mm'' then 2 ^ 20 else 2 ^ 30)"
    have s: "size_scale (show_nat n @ [c]) = (show_nat n, sc)"
      using size_scale_letter [OF c] by (simp add: sc_def)
    show ?thesis
      unfolding sc_def [symmetric] size_parse_def t Let_def s prod.case trim_digits [OF d(1)] p
      using d by (simp add: checked_mul_def)
  qed
  show ?thesis using plain letter by blast
qed

theorem size_parse_exact_witness:
  "CHR ''M'' \<in> set ''KkMmGg'' \<and> size_parse (show_nat 32 @ ''M'') = Some (SizeBytes 33554432)"
  using size_parse_exact [of 32 "CHR ''M''"] by (simp add: u64_max_value Let_def)

end
