(* ===== verification/BTree_Map.thy ===== *)
theory BTree_Map
  imports Prelude
begin

text \<open>
  \<open>BTreeMap\<close> as an association list in strictly ascending key order: \<open>get\<close> is \<open>map_of\<close>,
  \<open>put\<close> is \<open>insert\<close>, \<open>remove_key\<close> is \<open>remove\<close>, \<open>modify\<close> is an assignment through \<open>get_mut\<close>, and
  \<open>sweep\<close> is a loop over \<open>iter_mut\<close> whose body also threads a state. \<open>find_map\<close> is the iterator
  method of that name. The lemmas carry the proofs about the maps of the service manager.
\<close>

fun put :: "'k::linorder \<Rightarrow> 'v \<Rightarrow> ('k \<times> 'v) list \<Rightarrow> ('k \<times> 'v) list" where
  "put k v [] = [(k, v)]"
| "put k v ((k', v') # xs) =
     (if k = k' then (k, v) # xs else if k < k' then (k, v) # (k', v') # xs
      else (k', v') # put k v xs)"

definition remove_key :: "'k \<Rightarrow> ('k \<times> 'v) list \<Rightarrow> ('k \<times> 'v) list" where
  "remove_key k xs = filter (\<lambda>(k', _). k' \<noteq> k) xs"

definition modify :: "'k \<Rightarrow> ('v \<Rightarrow> 'v) \<Rightarrow> ('k \<times> 'v) list \<Rightarrow> ('k \<times> 'v) list" where
  "modify k f xs = map (\<lambda>(k', v). (k', if k' = k then f v else v)) xs"

fun sweep :: "('k \<Rightarrow> 'v \<Rightarrow> 's \<Rightarrow> 'v \<times> 's) \<Rightarrow> ('k \<times> 'v) list \<Rightarrow> 's \<Rightarrow> ('k \<times> 'v) list \<times> 's" where
  "sweep f [] s = ([], s)"
| "sweep f ((k, v) # xs) s =
     (let (v', s') = f k v s; (xs', s'') = sweep f xs s' in ((k, v') # xs', s''))"

fun find_map :: "('a \<Rightarrow> 'b option) \<Rightarrow> 'a list \<Rightarrow> 'b option" where
  "find_map f [] = None"
| "find_map f (x # xs) = (case f x of Some y \<Rightarrow> Some y | None \<Rightarrow> find_map f xs)"

definition ordered_keys :: "('k::linorder \<times> 'v) list \<Rightarrow> bool" where
  "ordered_keys xs \<longleftrightarrow> sorted_wrt (<) (map fst xs)"

section \<open>Insertion and removal\<close>

lemma map_of_put [simp]: "map_of (put k v xs) = (map_of xs)(k \<mapsto> v)"
  by (induction k v xs rule: put.induct) (auto simp: fun_eq_iff)

lemma set_put_subset: "set (put k v xs) \<subseteq> insert (k, v) (set xs)"
  by (induction k v xs rule: put.induct) auto

lemma keys_put: "fst ` set (put k v xs) = insert k (fst ` set xs)"
  by (induction k v xs rule: put.induct) auto

lemma sorted_put: "sorted_wrt (<) (map fst xs) \<Longrightarrow> sorted_wrt (<) (map fst (put k v xs))"
proof (induction k v xs rule: put.induct)
  case (2 k v k' v' xs)
  have "\<forall>y \<in> set (put k v xs). k' < fst y" if "k' < k"
    using "2.prems" that keys_put [of k v xs] by (metis (no_types, lifting) image_iff insert_iff
        list.simps(9) set_map sorted_wrt.simps(2) fst_conv imageI)
  with 2 show ?case by (auto simp: not_less_iff_gr_or_eq)
qed simp

lemma ordered_put [simp]: "ordered_keys xs \<Longrightarrow> ordered_keys (put k v xs)"
  by (simp add: ordered_keys_def sorted_put)

lemma ordered_Nil [simp]: "ordered_keys []"
  by (simp add: ordered_keys_def)

lemma map_of_remove_key [simp]: "map_of (remove_key k xs) = (map_of xs)(k := None)"
  unfolding remove_key_def by (rule map_of_retain)

lemma ordered_filter [simp]: "ordered_keys xs \<Longrightarrow> ordered_keys (filter P xs)"
  by (induction xs) (auto simp: ordered_keys_def)

lemma ordered_remove_key [simp]: "ordered_keys xs \<Longrightarrow> ordered_keys (remove_key k xs)"
  by (simp add: remove_key_def)

lemma ordered_distinct: "ordered_keys xs \<Longrightarrow> distinct (map fst xs)"
  by (simp add: ordered_keys_def strict_sorted_iff)

lemma map_of_filter_values:
  "distinct (map fst xs) \<Longrightarrow> map_of (filter (\<lambda>(k, v). P v) xs) k =
     (case map_of xs k of Some v \<Rightarrow> if P v then Some v else None | None \<Rightarrow> None)"
  by (induction xs) (auto split: option.splits simp: map_of_eq_None_iff dest: map_of_SomeD)

section \<open>Updates in place\<close>

lemma map_of_modify: "map_of (modify k f xs) k' =
     (if k' = k then map_option f (map_of xs k) else map_of xs k')"
  by (induction xs) (auto simp: modify_def)

lemma keys_modify [simp]: "map fst (modify k f xs) = map fst xs"
  by (induction xs) (auto simp: modify_def)

lemma ordered_modify [simp]: "ordered_keys (modify k f xs) = ordered_keys xs"
  by (simp add: ordered_keys_def)

lemma modify_absent: "map_of xs k = None \<Longrightarrow> modify k f xs = xs"
  by (induction xs) (auto simp: modify_def split: if_splits)

lemma set_modify:
  "distinct (map fst xs) \<Longrightarrow> (k', v') \<in> set (modify k f xs) \<Longrightarrow>
     (k', v') \<in> set xs \<and> k' \<noteq> k \<or> k' = k \<and> (\<exists>v. (k, v) \<in> set xs \<and> v' = f v)"
  by (auto simp: modify_def split: if_splits)

section \<open>Loops over a map\<close>

lemma keys_sweep [simp]: "map fst (fst (sweep f xs s)) = map fst xs"
  by (induction xs arbitrary: s) (auto simp: split_beta Let_def)

lemma ordered_sweep [simp]: "ordered_keys (fst (sweep f xs s)) = ordered_keys xs"
  by (simp add: ordered_keys_def)

lemma sweep_value:
  "(k, v') \<in> set (fst (sweep f xs s)) \<Longrightarrow> \<exists>v s'. (k, v) \<in> set xs \<and> v' = fst (f k v s')"
proof (induction xs arbitrary: s)
  case (Cons x xs)
  obtain k0 v0 where x: "x = (k0, v0)" by (cases x)
  from Cons.prems consider "k = k0" "v' = fst (f k0 v0 s)"
    | "(k, v') \<in> set (fst (sweep f xs (snd (f k0 v0 s))))"
    by (auto simp: x split_beta Let_def)
  then show ?case
  proof cases
    case 1
    then show ?thesis by (auto simp: x)
  next
    case 2
    from Cons.IH [OF this] show ?thesis by auto
  qed
qed simp

lemma sweep_lookup:
  "map_of (fst (sweep f xs s)) k = None \<longleftrightarrow> map_of xs k = None"
  using keys_sweep [of f xs s] by (simp add: map_of_eq_None_iff flip: set_map)

lemma sweep_state_inv:
  assumes "\<And>k v s. P s \<Longrightarrow> P (snd (f k v s))" and "P s"
  shows "P (snd (sweep f xs s))"
  using assms(2) by (induction xs arbitrary: s) (auto simp: split_beta Let_def assms(1))

text \<open>What one entry becomes, and the state in which its turn comes.\<close>

fun sweep_before :: "('k \<Rightarrow> 'v \<Rightarrow> 's \<Rightarrow> 'v \<times> 's) \<Rightarrow> ('k \<times> 'v) list \<Rightarrow> 's \<Rightarrow> 'k \<Rightarrow> 's" where
  "sweep_before f [] s k = s"
| "sweep_before f ((k', v) # xs) s k = (if k' = k then s else sweep_before f xs (snd (f k' v s)) k)"

lemma map_of_sweep:
  "map_of (fst (sweep f xs s)) k = map_option (\<lambda>v. fst (f k v (sweep_before f xs s k))) (map_of xs k)"
  by (induction xs arbitrary: s) (auto simp: split_beta Let_def)

section \<open>First match\<close>

lemma find_map_SomeD:
  "find_map f xs = Some y \<Longrightarrow> \<exists>x \<in> set xs. f x = Some y"
  by (induction xs) (auto split: option.splits)

lemma find_map_None_iff: "find_map f xs = None \<longleftrightarrow> (\<forall>x \<in> set xs. f x = None)"
  by (induction xs) (auto split: option.splits)

lemma find_map_append:
  "find_map f (xs @ ys) = (case find_map f xs of Some y \<Rightarrow> Some y | None \<Rightarrow> find_map f ys)"
  by (induction xs) (auto split: option.splits)

end
