(* ===== verification/Privileges.thy ===== *)
theory Privileges
  imports Unit_Config BTree_Map
begin

text \<open>
  The privilege drop of a service: the lookups in \<open>/etc/passwd\<close> and \<open>/etc/group\<close>
  (\<open>rinit-core/src/users.rs\<close>), the ordered plan of steps (\<open>rinit-core/src/unit/sandbox.rs\<close>),
  the capability table (\<open>rinit-runtime/src/syscall/cred.rs\<close>) and the resolution of \<open>User=\<close>,
  \<open>Group=\<close> and the capability directives into a plan (\<open>rinit/src/sandbox.rs\<close>). Ids are 32-bit
  values kept as \<open>nat\<close>. Reading a database is a parameter of \<open>resolve\<close>.
\<close>

section \<open>The user and group databases\<close>

definition passwd_row :: "string \<Rightarrow> string \<Rightarrow> (nat \<times> nat) option" where
  "passwd_row nm line =
     (case split_char (CHR '':'') line of
        f1 # _ # f3 # f4 # _ \<Rightarrow>
          if f1 \<noteq> nm then None
          else (case parse_uint u32_max (trim f3) of
                  None \<Rightarrow> None
                | Some uid \<Rightarrow>
                    (case parse_uint u32_max (trim f4) of
                       None \<Rightarrow> None
                     | Some gid \<Rightarrow> Some (uid, gid)))
      | _ \<Rightarrow> None)"

definition passwd_ids :: "string \<Rightarrow> string \<Rightarrow> (nat \<times> nat) option" where
  "passwd_ids contents nm =
     (if nm = [] then None else find_map (passwd_row nm) (str_lines contents))"

definition passwd_uid :: "string \<Rightarrow> string \<Rightarrow> nat option" where
  "passwd_uid contents nm = map_option fst (passwd_ids contents nm)"

text \<open>The gid of a row that lists \<open>nm\<close> as a member.\<close>

definition member_gid :: "string \<Rightarrow> string \<Rightarrow> nat option" where
  "member_gid nm line =
     (case split_char (CHR '':'') line of
        _ # _ # f3 # rest \<Rightarrow>
          (case parse_uint u32_max (trim f3) of
             None \<Rightarrow> None
           | Some gid \<Rightarrow>
               let members = (case rest of [] \<Rightarrow> [] | f4 # _ \<Rightarrow> f4)
               in if list_ex (\<lambda>m. trim m = nm) (split_char (CHR '','') members) then Some gid else None)
      | _ \<Rightarrow> None)"

definition push_gid :: "string \<Rightarrow> nat list \<Rightarrow> string \<Rightarrow> nat list" where
  "push_gid nm gids line =
     (case member_gid nm line of
        None \<Rightarrow> gids
      | Some gid \<Rightarrow> if gid \<in> set gids then gids else gids @ [gid])"

definition supplementary_gids :: "string \<Rightarrow> string \<Rightarrow> nat list" where
  "supplementary_gids contents nm =
     (if nm = [] then [] else foldl (push_gid nm) [] (str_lines contents))"

definition id_row :: "string \<Rightarrow> string \<Rightarrow> nat option" where
  "id_row nm line =
     (case split_char (CHR '':'') line of
        f1 # _ # f3 # _ \<Rightarrow> if f1 \<noteq> nm then None else parse_uint u32_max (trim f3)
      | _ \<Rightarrow> None)"

definition id_of :: "string \<Rightarrow> string \<Rightarrow> nat option" where
  "id_of contents nm = (if nm = [] then None else find_map (id_row nm) (str_lines contents))"

definition group_gid :: "string \<Rightarrow> string \<Rightarrow> nat option" where
  "group_gid contents nm = id_of contents nm"

section \<open>The plan\<close>

datatype SandboxStep =
  NoNewPrivs | KeepCapabilities | SetInheritable | SetBoundingSet | SetGroup | SetGroups | SetUser
| RaiseAmbient

fun step_rank :: "SandboxStep \<Rightarrow> nat" where
  "step_rank NoNewPrivs = 0"
| "step_rank KeepCapabilities = 1"
| "step_rank SetInheritable = 2"
| "step_rank SetBoundingSet = 3"
| "step_rank SetGroup = 4"
| "step_rank SetGroups = 5"
| "step_rank SetUser = 6"
| "step_rank RaiseAmbient = 7"

text \<open>The derived \<open>Ord\<close> of a field-less enum is the order of declaration.\<close>

instantiation SandboxStep :: linorder
begin

definition less_SandboxStep :: "SandboxStep \<Rightarrow> SandboxStep \<Rightarrow> bool" where
  "less_SandboxStep a b \<longleftrightarrow> step_rank a < step_rank b"

definition less_eq_SandboxStep :: "SandboxStep \<Rightarrow> SandboxStep \<Rightarrow> bool" where
  "less_eq_SandboxStep a b \<longleftrightarrow> step_rank a \<le> step_rank b"

instance
proof
  fix x y :: SandboxStep
  show "x \<le> y \<Longrightarrow> y \<le> x \<Longrightarrow> x = y"
    by (cases x; cases y; simp add: less_eq_SandboxStep_def)
qed (auto simp: less_SandboxStep_def less_eq_SandboxStep_def)

end

record Sandbox =
  sb_uid :: nat
  sb_gid :: nat
  sb_groups :: "nat list option"
  sb_no_new_privileges :: bool
  sb_bounding_set :: "nat list option"
  sb_ambient :: "nat list option"

definition inherit_sandbox :: Sandbox where
  "inherit_sandbox = \<lparr>sb_uid = 0, sb_gid = 0, sb_groups = None, sb_no_new_privileges = False,
     sb_bounding_set = None, sb_ambient = None\<rparr>"

definition steps :: "Sandbox \<Rightarrow> SandboxStep list" where
  "steps sb =
     (if sb_no_new_privileges sb then [NoNewPrivs] else [])
     @ (if sb_ambient sb \<noteq> None then [KeepCapabilities, SetInheritable] else [])
     @ (if sb_bounding_set sb \<noteq> None then [SetBoundingSet] else [])
     @ (if sb_gid sb \<noteq> 0 then [SetGroup] else [])
     @ (if sb_groups sb \<noteq> None then [SetGroups] else [])
     @ (if sb_uid sb \<noteq> 0 then [SetUser] else [])
     @ (if sb_ambient sb \<noteq> None then [RaiseAmbient] else [])"

definition is_inherited :: "Sandbox \<Rightarrow> bool" where
  "is_inherited sb \<longleftrightarrow> \<not> sb_no_new_privileges sb \<and> sb_ambient sb = None \<and> sb_bounding_set sb = None
     \<and> sb_gid sb = 0 \<and> sb_groups sb = None \<and> sb_uid sb = 0"

definition drops_privileges :: "Sandbox \<Rightarrow> bool" where
  "drops_privileges sb \<longleftrightarrow> sb_uid sb \<noteq> 0 \<or> sb_gid sb \<noteq> 0"

section \<open>Errors of the runtime layer\<close>

text \<open>
  \<open>SyscallError\<close> without its context, and the variants of \<open>RuntimeError\<close> the modelled code
  builds; an \<open>io::Error\<close> is its errno or the kind and message it was made with.
\<close>

datatype IoError = OsError int | IoCustom string string

datatype RuntimeError = RtSyscall string int | RtIo string IoError

definition ENOENT :: int where "ENOENT = 2"

definition lookup_error :: "string \<Rightarrow> RuntimeError" where
  "lookup_error what = RtSyscall what ENOENT"

section \<open>Resolution\<close>

definition CAPABILITY_NAMES :: "(string \<times> nat) list" where
  "CAPABILITY_NAMES = zip
     [''chown'', ''dac_override'', ''dac_read_search'', ''fowner'', ''fsetid'', ''kill'', ''setgid'',
      ''setuid'', ''setpcap'', ''linux_immutable'', ''net_bind_service'', ''net_broadcast'',
      ''net_admin'', ''net_raw'', ''ipc_lock'', ''ipc_owner'', ''sys_module'', ''sys_rawio'',
      ''sys_chroot'', ''sys_ptrace'', ''sys_pacct'', ''sys_admin'', ''sys_boot'', ''sys_nice'',
      ''sys_resource'', ''sys_time'', ''sys_tty_config'', ''mknod'', ''lease'', ''audit_write'',
      ''audit_control'', ''setfcap'', ''mac_override'', ''mac_admin'', ''syslog'', ''wake_alarm'',
      ''block_suspend'', ''audit_read'', ''perfmon'', ''bpf'', ''checkpoint_restore''] [0..<41]"

definition capability_number :: "string \<Rightarrow> nat option" where
  "capability_number nm = map_of CAPABILITY_NAMES nm"

fun cap_numbers :: "Cap list \<Rightarrow> string \<Rightarrow> RuntimeError + nat list" where
  "cap_numbers [] what = Inr []"
| "cap_numbers (c # cs) what =
     rbind (ok_or (lookup_error what) (capability_number (cap_name c))) (\<lambda>n.
       rbind (cap_numbers cs what) (\<lambda>ns. Inr (n # ns)))"

definition resolve_caps :: "Cap list option \<Rightarrow> string \<Rightarrow> RuntimeError + nat list option" where
  "resolve_caps names what = (case names of
      None \<Rightarrow> Inr None
    | Some cs \<Rightarrow> rbind (cap_numbers cs what) (\<lambda>ns. Inr (Some ns)))"

datatype User = Root | UserId nat | Named string nat nat

definition classify :: "string \<Rightarrow> string \<Rightarrow> RuntimeError + User" where
  "classify user passwd =
     (if user = [] then Inr Root
      else (case parse_uint u32_max user of
              Some i \<Rightarrow> Inr (UserId i)
            | None \<Rightarrow>
                rbind (ok_or (lookup_error ''User= lookup'') (passwd_ids passwd user))
                  (\<lambda>(uid, gid). Inr (Named user uid gid))))"

definition user_uid :: "User \<Rightarrow> nat" where
  "user_uid u = (case u of Root \<Rightarrow> 0 | UserId i \<Rightarrow> i | Named _ uid _ \<Rightarrow> uid)"

definition user_gid :: "User \<Rightarrow> nat" where
  "user_gid u = (case u of Root \<Rightarrow> 0 | UserId i \<Rightarrow> i | Named _ _ gid \<Rightarrow> gid)"

definition resolve_gid :: "string \<Rightarrow> User \<Rightarrow> string \<Rightarrow> RuntimeError + nat" where
  "resolve_gid grp user groups =
     (if grp = [] then Inr (user_gid user)
      else (case parse_uint u32_max grp of
              Some i \<Rightarrow> Inr i
            | None \<Rightarrow> ok_or (lookup_error ''Group= lookup'') (group_gid groups grp)))"

definition group_list :: "User \<Rightarrow> nat \<Rightarrow> string \<Rightarrow> nat list option" where
  "group_list user gid groups = (case user of
      Root \<Rightarrow> None
    | UserId _ \<Rightarrow> Some [gid]
    | Named nm _ _ \<Rightarrow>
        let gids = supplementary_gids groups nm
        in Some (if gid \<in> set gids then gids else gids @ [gid]))"

definition resolve_from :: "UnitConfig \<Rightarrow> string \<Rightarrow> string \<Rightarrow> RuntimeError + Sandbox" where
  "resolve_from cfg passwd groups =
     rbind (classify (trim (cfg_user cfg)) passwd) (\<lambda>user.
     rbind (resolve_gid (trim (cfg_group cfg)) user groups) (\<lambda>gid.
     rbind (resolve_caps (capability_bounding_set cfg) ''CapabilityBoundingSet='') (\<lambda>bset.
     rbind (resolve_caps (ambient_capabilities cfg) ''AmbientCapabilities='') (\<lambda>amb.
       Inr \<lparr>sb_uid = user_uid user, sb_gid = gid, sb_groups = group_list user gid groups,
            sb_no_new_privileges = no_new_privileges cfg, sb_bounding_set = bset,
            sb_ambient = amb\<rparr>))))"

definition is_name :: "string \<Rightarrow> bool" where
  "is_name s \<longleftrightarrow> trim s \<noteq> [] \<and> parse_uint u32_max (trim s) = None"

definition needs_user_database :: "UnitConfig \<Rightarrow> bool" where
  "needs_user_database cfg \<longleftrightarrow> is_name (cfg_user cfg) \<or> is_name (cfg_group cfg)"

definition PASSWD :: string where "PASSWD = ''/etc/passwd''"
definition GROUP_DB :: string where "GROUP_DB = ''/etc/group''"

text \<open>\<open>read_db path\<close> stands for \<open>std::fs::read_to_string\<close>.\<close>

definition resolve :: "(string \<Rightarrow> IoError + string) \<Rightarrow> UnitConfig \<Rightarrow> RuntimeError + Sandbox" where
  "resolve read_db cfg =
     (let read = (\<lambda>path what. case read_db path of Inl e \<Rightarrow> Inl (RtIo what e) | Inr s \<Rightarrow> Inr s) in
      if \<not> needs_user_database cfg then resolve_from cfg [] []
      else
        rbind (if parse_uint u32_max (trim (cfg_user cfg)) \<noteq> None then Inr []
               else read PASSWD ''read /etc/passwd'') (\<lambda>passwd.
        rbind (read GROUP_DB ''read /etc/group'') (\<lambda>groups.
          resolve_from cfg passwd groups)))"

section \<open>The plan is ordered\<close>

lemma sandbox_step_less [simp]: "a < b \<longleftrightarrow> step_rank a < step_rank b" for a b :: SandboxStep
  by (simp add: less_SandboxStep_def)

lemma steps_sorted: "sorted_wrt (<) (steps sb)"
  by (simp add: steps_def)

lemma steps_empty_iff: "steps sb = [] \<longleftrightarrow> is_inherited sb"
  by (auto simp: steps_def is_inherited_def)

lemma SetGroups_in_steps: "SetGroups \<in> set (steps sb) \<longleftrightarrow> sb_groups sb \<noteq> None"
  by (auto simp: steps_def)

lemma SetUser_in_steps: "SetUser \<in> set (steps sb) \<longleftrightarrow> sb_uid sb \<noteq> 0"
  by (auto simp: steps_def)

section \<open>Group lists\<close>

definition listed_gids :: "string \<Rightarrow> string \<Rightarrow> nat set" where
  "listed_gids groups nm = {g. \<exists>line \<in> set (str_lines groups). member_gid nm line = Some g}"

lemma push_gid_fold:
  "distinct acc \<Longrightarrow> distinct (foldl (push_gid nm) acc ls)
     \<and> set (foldl (push_gid nm) acc ls) = set acc \<union> {g. \<exists>l \<in> set ls. member_gid nm l = Some g}"
proof (induction ls arbitrary: acc)
  case (Cons l ls)
  have "distinct (push_gid nm acc l)"
    "set (push_gid nm acc l) = set acc \<union> {g. member_gid nm l = Some g}"
    using Cons.prems by (auto simp: push_gid_def split: option.splits)
  with Cons.IH [of "push_gid nm acc l"] show ?case by auto
qed simp

lemma supplementary_gids_spec:
  "nm \<noteq> [] \<Longrightarrow> distinct (supplementary_gids groups nm)
     \<and> set (supplementary_gids groups nm) = listed_gids groups nm"
  using push_gid_fold [of "[]" nm "str_lines groups"]
  by (simp add: supplementary_gids_def listed_gids_def)

lemma classify_cases:
  assumes "classify user passwd = Inr u" "user \<noteq> []"
  shows "(\<exists>i. u = UserId i \<and> parse_uint u32_max user = Some i)
    \<or> (\<exists>uid gid. u = Named user uid gid \<and> passwd_ids passwd user = Some (uid, gid))"
  using assms by (auto simp: classify_def rbind_Inr_iff split: option.splits)

definition web_unit :: UnitConfig where
  "web_unit = (new_config (UnitName ''web.service'' Service))\<lparr>cfg_user := ''www'', no_new_privileges := True\<rparr>"

lemma demo_numbers:
  "parse_uint u32_max ''www'' = None" "parse_uint u32_max ''33'' = Some 33"
  "parse_uint u32_max ''34'' = Some 34" "parse_uint u32_max ''4'' = Some 4"
  by (simp_all add: parse_uint_def u32_max_value dec_value_def rust_std)

lemma demo_lookups:
  "trim ''www'' = ''www''" "trim ''33'' = ''33''" "trim ''34'' = ''34''" "trim ''4'' = ''4''"
  "trim [] = []" "trim ''joe'' = ''joe''"
  "str_lines ''www:x:33:34:::'' = [''www:x:33:34:::'']"
  "str_lines ''adm:x:4:www,joe'' = [''adm:x:4:www,joe'']"
  by code_simp+

text \<open>
  A unit that names a user never keeps the supplementary groups of process 1: its
  plan replaces the group list by one that holds the primary group and otherwise only groups whose
  rows list the user, without repeats, and the plan does so before the user is changed and in the
  order that the kernel requires (each step of lower rank first).
\<close>

theorem resolved_user_drops_groups:
  assumes "resolve_from cfg passwd groups = Inr sb" and "trim (cfg_user cfg) \<noteq> []"
  shows "\<exists>gs. sb_groups sb = Some gs \<and> sb_gid sb \<in> set gs \<and> distinct gs
     \<and> set gs \<subseteq> insert (sb_gid sb) (listed_gids groups (trim (cfg_user cfg)))
     \<and> SetGroups \<in> set (steps sb) \<and> sorted_wrt (<) (steps sb)"
proof -
  from assms(1) obtain user where u: "classify (trim (cfg_user cfg)) passwd = Inr user"
    and g: "sb_groups sb = group_list user (sb_gid sb) groups"
    by (auto simp: resolve_from_def rbind_Inr_iff)
  have "\<exists>gs. sb_groups sb = Some gs \<and> sb_gid sb \<in> set gs \<and> distinct gs
     \<and> set gs \<subseteq> insert (sb_gid sb) (listed_gids groups (trim (cfg_user cfg)))"
    using classify_cases [OF u assms(2)] supplementary_gids_spec [OF assms(2), of groups] g
    by (auto simp: group_list_def Let_def)
  then show ?thesis using steps_sorted SetGroups_in_steps by auto
qed

theorem resolved_user_drops_groups_witness:
  "\<exists>sb gs. resolve_from web_unit ''www:x:33:34:::'' ''adm:x:4:www,joe'' = Inr sb
     \<and> sb_groups sb = Some gs \<and> set gs \<subseteq> {34, 4} \<and> steps sb = [NoNewPrivs, SetGroup, SetGroups, SetUser]"
proof -
  have r: "resolve_from web_unit ''www:x:33:34:::'' ''adm:x:4:www,joe'' =
    Inr \<lparr>sb_uid = 33, sb_gid = 34, sb_groups = Some [4, 34], sb_no_new_privileges = True,
         sb_bounding_set = None, sb_ambient = None\<rparr>"
    by (simp add: resolve_from_def classify_def demo_lookups demo_numbers web_unit_def new_config_def passwd_ids_def
        passwd_row_def resolve_gid_def user_gid_def user_uid_def resolve_caps_def group_list_def
        supplementary_gids_def push_gid_def member_gid_def)
  have u: "trim (cfg_user web_unit) \<noteq> []" by (simp add: web_unit_def demo_lookups)
  show ?thesis using resolved_user_drops_groups [OF r u] r by (auto simp: steps_def)
qed

section \<open>Failing closed\<close>

lemma find_map_row:
  assumes "\<forall>l \<in> set pre. f l = None" "f row = Some v"
  shows "find_map f (pre @ row # post) = Some v"
  using assms by (simp add: find_map_append find_map_None_iff [symmetric])

text \<open>
  A user or group that the databases do not know fails the resolution; it never falls back to the
  identity of process 1.
\<close>

lemma resolve_unknown_user:
  assumes "is_name (cfg_user cfg)" "passwd_ids passwd (trim (cfg_user cfg)) = None"
  shows "resolve_from cfg passwd groups = Inl (lookup_error ''User= lookup'')"
  using assms by (simp add: resolve_from_def classify_def is_name_def)

lemma resolve_uid:
  assumes "resolve_from cfg passwd groups = Inr sb"
  shows "sb_uid sb = (if trim (cfg_user cfg) = [] then 0
     else (case parse_uint u32_max (trim (cfg_user cfg)) of Some i \<Rightarrow> i
           | None \<Rightarrow> the (passwd_uid passwd (trim (cfg_user cfg)))))"
  using assms by (auto simp: resolve_from_def rbind_Inr_iff classify_def user_uid_def passwd_uid_def
      split: option.splits if_splits)

end
