(* ===== verification/Os.thy ===== *)
theory Os
  imports Privileges
begin

text \<open>
  The boundary to the operating system and the wrappers rinit puts around it
  (\<open>rinit-runtime/src/syscall/process.rs\<close>, \<open>rinit/src/deadline.rs\<close>, \<open>rinit/src/service.rs\<close>).

  The kernel and the file system are parameters: a \<open>Kernel\<close> answers every call as an arbitrary
  function of the calls made so far, so nothing is assumed about its state. The calls themselves
  are recorded newest first in a \<open>trace\<close>, which every modelled operation takes and returns; claims
  about what rinit does to the outside world are claims about traces. Console messages are not
  recorded. Process ids, file descriptors and errnos are \<open>int\<close>, an \<open>Instant\<close> is its number of
  nanoseconds.
\<close>

type_synonym pid = int
type_synonym fd = int
type_synonym instant = nat

record SpawnRequest =
  sp_argv :: "string list"
  sp_env :: "string list"
  sp_cwd :: "string option"
  sp_output :: "fd option"
  sp_listen_fd :: "fd option"
  sp_sandbox :: "Sandbox option"
  sp_procs :: "string option"
  sp_tty :: "(string \<times> bool) option"

datatype Syscall =
  Now | Kill pid int | Getpgid pid | ProcStats
| StatFile string | OpenFile string | Fstat string | ReadUpTo string nat | ReadText string
| CreateDir string | PathExists string | RemoveDir string | WriteFile string string
| Spawn SpawnRequest
| CreateDirAll string | RemoveFile string | Umask nat | BindDatagram string | BindListener string
| SetMode string nat | Chown string nat nat | Pipe | SetNonblocking fd
| ExecReport pid | CancelSpawn pid
| TryClone fd | WdOpen string | WdSetTimeout int | WdGetTimeout | WdWrite char

text \<open>What the task that waits for a child's \<open>execve\<close> has reported so far.\<close>

datatype SpawnReport = ReportEmpty | ReportClosed | Reported "RuntimeError + pid"

type_synonym trace = "Syscall list"

record Kernel =
  k_self :: pid
  k_euid :: nat
  k_now :: "trace \<Rightarrow> instant"
  k_kill :: "trace \<Rightarrow> pid \<Rightarrow> int \<Rightarrow> int option"
  k_getpgid :: "trace \<Rightarrow> pid \<Rightarrow> int + pid"
  k_proc_stats :: "trace \<Rightarrow> (pid \<times> string) list option"
  k_stat :: "trace \<Rightarrow> string \<Rightarrow> int + bool"
  k_open :: "trace \<Rightarrow> string \<Rightarrow> int option"
  k_fstat :: "trace \<Rightarrow> string \<Rightarrow> int + bool \<times> nat"
  k_read :: "trace \<Rightarrow> string \<Rightarrow> nat \<Rightarrow> int + string"
  k_read_text :: "trace \<Rightarrow> string \<Rightarrow> IoError + string"
  k_create_dir :: "trace \<Rightarrow> string \<Rightarrow> int option"
  k_exists :: "trace \<Rightarrow> string \<Rightarrow> bool"
  k_remove_dir :: "trace \<Rightarrow> string \<Rightarrow> int option"
  k_write_file :: "trace \<Rightarrow> string \<Rightarrow> string \<Rightarrow> int option"
  k_spawn :: "trace \<Rightarrow> SpawnRequest \<Rightarrow> RuntimeError + pid"
  k_create_dir_all :: "trace \<Rightarrow> string \<Rightarrow> int option"
  k_remove_file :: "trace \<Rightarrow> string \<Rightarrow> int option"
  k_umask :: "trace \<Rightarrow> nat \<Rightarrow> nat"
  k_bind_datagram :: "trace \<Rightarrow> string \<Rightarrow> int option"
  k_bind_listener :: "trace \<Rightarrow> string \<Rightarrow> IoError + fd"
  k_chmod :: "trace \<Rightarrow> string \<Rightarrow> nat \<Rightarrow> int option"
  k_chown :: "trace \<Rightarrow> string \<Rightarrow> nat \<Rightarrow> nat \<Rightarrow> int option"
  k_pipe :: "trace \<Rightarrow> int + fd \<times> fd"
  k_set_nonblocking :: "trace \<Rightarrow> fd \<Rightarrow> (string \<times> int) option"
  k_exec_report :: "trace \<Rightarrow> pid \<Rightarrow> SpawnReport"
  k_try_clone :: "trace \<Rightarrow> fd \<Rightarrow> int option"
  k_wd_open :: "trace \<Rightarrow> string \<Rightarrow> int option"
  k_wd_set_timeout :: "trace \<Rightarrow> int \<Rightarrow> int + int"
  k_wd_get_timeout :: "trace \<Rightarrow> int + int"
  k_wd_write :: "trace \<Rightarrow> char \<Rightarrow> int option"

definition ESRCH :: int where "ESRCH = 3"
definition EBUSY :: int where "EBUSY = 16"
definition EINVAL :: int where "EINVAL = 22"
definition ENOTEMPTY :: int where "ENOTEMPTY = 39"
definition SIGKILL :: int where "SIGKILL = 9"
definition SIGTERM :: int where "SIGTERM = 15"

section \<open>Numbers and paths\<close>

text \<open>\<open>str::parse\<close> into a signed 32-bit integer.\<close>

definition parse_i32 :: "string \<Rightarrow> int option" where
  "parse_i32 s = (case s of
      [] \<Rightarrow> None
    | c # t \<Rightarrow>
        if c = CHR ''-'' then
          (if t = [] \<or> \<not> list_all is_ascii_digit t then None
           else if dec_value t \<le> 2 ^ 31 then Some (- int (dec_value t)) else None)
        else map_option int (parse_uint (2 ^ 31 - 1) s))"

text \<open>\<open>Path::join\<close> of a relative or absolute second part.\<close>

definition path_join :: "string \<Rightarrow> string \<Rightarrow> string" where
  "path_join d p = (if starts_with_char (CHR ''/'') p \<or> d = [] then p
     else if ends_with_char (CHR ''/'') d then d @ p else d @ ''/'' @ p)"

section \<open>Signals\<close>

text \<open>\<open>None\<close> is \<open>Ok(())\<close>, otherwise the errno.\<close>

definition sys_kill :: "Kernel \<Rightarrow> pid \<Rightarrow> int \<Rightarrow> trace \<Rightarrow> int option \<times> trace" where
  "sys_kill K p s tr = (k_kill K tr p s, Kill p s # tr)"

definition sys_getpgid :: "Kernel \<Rightarrow> pid \<Rightarrow> trace \<Rightarrow> (int + pid) \<times> trace" where
  "sys_getpgid K p tr = (k_getpgid K tr p, Getpgid p # tr)"

definition kill :: "Kernel \<Rightarrow> pid \<Rightarrow> int \<Rightarrow> trace \<Rightarrow> int option \<times> trace" where
  "kill K p s tr = (if p \<le> 1 then (Some EINVAL, tr) else sys_kill K p s tr)"

definition kill_process_group :: "Kernel \<Rightarrow> pid \<Rightarrow> int \<Rightarrow> trace \<Rightarrow> int option \<times> trace" where
  "kill_process_group K p s tr =
     (if p \<le> 1 then (Some EINVAL, tr)
      else case sys_getpgid K p tr of
        (Inl e, tr1) \<Rightarrow> (Some e, tr1)
      | (Inr g, tr1) \<Rightarrow> sys_kill K (if g = p then - p else p) s tr1)"

definition kill_group :: "Kernel \<Rightarrow> pid \<Rightarrow> int \<Rightarrow> trace \<Rightarrow> int option \<times> trace" where
  "kill_group K g s tr = (if g \<le> 1 then (Some EINVAL, tr) else sys_kill K (- g) s tr)"

definition group_alive :: "Kernel \<Rightarrow> pid \<Rightarrow> trace \<Rightarrow> bool \<times> trace" where
  "group_alive K g tr =
     (if g \<le> 1 then (False, tr) else let (r, tr1) = sys_kill K (- g) 0 tr in (r = None, tr1))"

text \<open>Field 5 of \<open>/proc/<pid>/stat\<close>, read after the last closing parenthesis.\<close>

definition after_last_paren :: "string \<Rightarrow> string option" where
  "after_last_paren s =
     (if CHR 0x29 \<in> set s then Some (rev (takeWhile (\<lambda>c. c \<noteq> CHR 0x29) (rev s))) else None)"

definition stat_pgrp :: "string \<Rightarrow> pid option" where
  "stat_pgrp s = (case after_last_paren s of
      None \<Rightarrow> None
    | Some rest \<Rightarrow> (case split_whitespace rest of _ # _ # g # _ \<Rightarrow> parse_i32 g | _ \<Rightarrow> None))"

definition group_has_other_members :: "Kernel \<Rightarrow> pid \<Rightarrow> pid \<Rightarrow> trace \<Rightarrow> bool \<times> trace" where
  "group_has_other_members K g except tr =
     (if g \<le> 1 then (False, tr)
      else let (r, tr1) = sys_kill K (- g) 0 tr in
        if r = Some ESRCH then (False, tr1)
        else (case k_proc_stats K tr1 of
                None \<Rightarrow> False
              | Some es \<Rightarrow> list_ex (\<lambda>(p, s). p \<noteq> except \<and> stat_pgrp s = Some g) es,
              ProcStats # tr1))"

text \<open>\<open>signal_process\<close> of the unit manager.\<close>

definition signal_process :: "Kernel \<Rightarrow> pid \<Rightarrow> int \<Rightarrow> trace \<Rightarrow> int option \<times> trace" where
  "signal_process K p s tr =
     (if p \<le> 1 \<or> p = k_self K then (Some EINVAL, tr) else kill_process_group K p s tr)"

section \<open>Deadlines\<close>

definition read_clock :: "Kernel \<Rightarrow> trace \<Rightarrow> instant \<times> trace" where
  "read_clock K tr = (k_now K tr, Now # tr)"

definition MAX_TIMEOUT :: duration where
  "MAX_TIMEOUT = from_secs (2 ^ 40)"

text \<open>The largest \<open>Instant\<close>: a signed 64-bit number of seconds.\<close>

definition INSTANT_LIMIT :: instant where
  "INSTANT_LIMIT = from_secs (2 ^ 63)"

definition clamp :: "duration \<Rightarrow> duration" where
  "clamp t = min t MAX_TIMEOUT"

definition after_duration :: "Kernel \<Rightarrow> duration \<Rightarrow> trace \<Rightarrow> instant \<times> trace" where
  "after_duration K t tr =
     (let (now, tr1) = read_clock K tr in
      (if now + clamp t < INSTANT_LIMIT then now + clamp t else now, tr1))"

definition after_secs :: "Kernel \<Rightarrow> nat \<Rightarrow> trace \<Rightarrow> instant \<times> trace" where
  "after_secs K secs tr = after_duration K (from_secs secs) tr"

section \<open>Launching\<close>

definition SERVICE_ENV :: "string list" where
  "SERVICE_ENV = [''PATH=/sbin:/usr/sbin:/bin:/usr/bin'', ''HOME=/'', ''TERM=linux'']"

definition cstring :: "string \<Rightarrow> string \<Rightarrow> RuntimeError + string" where
  "cstring what s = (if CHR 0x00 \<in> set s then Inl (RtSyscall what EINVAL) else Inr s)"

fun cstrings :: "string \<Rightarrow> string list \<Rightarrow> RuntimeError + string list" where
  "cstrings what [] = Inr []"
| "cstrings what (s # ss) =
     rbind (cstring what s) (\<lambda>c. rbind (cstrings what ss) (\<lambda>cs. Inr (c # cs)))"

definition prepare :: "string list \<Rightarrow> string list \<Rightarrow> string option
    \<Rightarrow> RuntimeError + string list \<times> string list \<times> string option" where
  "prepare args env cwd =
     rbind (cstrings ''service argv'' args) (\<lambda>a.
       if a = [] then Inl (RtIo ''service argv'' (IoCustom ''InvalidInput'' ''empty command''))
       else rbind (cstrings ''service env'' env) (\<lambda>e.
         rbind (case cwd of None \<Rightarrow> Inr None
                | Some d \<Rightarrow> rbind (cstring ''working directory'' d) (\<lambda>c. Inr (Some c))) (\<lambda>c.
           Inr (a, e, c))))"

definition cpath :: "string \<Rightarrow> RuntimeError + string" where
  "cpath p = (if CHR 0x00 \<in> set p
     then Inl (RtIo ''cgroup.procs path'' (IoCustom ''InvalidInput'' ''interior NUL byte''))
     else Inr p)"

record ChildPlacement =
  cp_procs :: "string option"
  cp_tty :: "(string \<times> bool) option"
  cp_listen_fd :: "fd option"

definition no_placement :: ChildPlacement where
  "no_placement = \<lparr>cp_procs = None, cp_tty = None, cp_listen_fd = None\<rparr>"

text \<open>
  The request \<open>begin_spawn_service_in_group\<close> makes: the fast path carries no sandbox and is taken
  when the child has nothing to do between fork and exec.
\<close>

definition spawn_request :: "string list \<Rightarrow> string list \<Rightarrow> string option \<Rightarrow> fd option \<Rightarrow> Sandbox
    \<Rightarrow> ChildPlacement \<Rightarrow> RuntimeError + SpawnRequest" where
  "spawn_request args env cwd output sandbox place =
     rbind (prepare args env cwd) (\<lambda>(a, e, c).
     rbind (case cp_procs place of None \<Rightarrow> Inr None | Some p \<Rightarrow> rbind (cpath p) (\<lambda>q. Inr (Some q)))
       (\<lambda>procs. Inr
         \<lparr>sp_argv = a, sp_env = e, sp_cwd = c, sp_output = output, sp_listen_fd = cp_listen_fd place,
          sp_sandbox = (if is_inherited sandbox \<and> procs = None \<and> cp_tty place = None
                          \<and> cp_listen_fd place = None then None else Some sandbox),
          sp_procs = procs, sp_tty = cp_tty place\<rparr>))"

datatype SpawnBegin = Ready pid | Pending pid

definition begin_spawn_service_in_group :: "Kernel \<Rightarrow> string list \<Rightarrow> string list \<Rightarrow> string option
    \<Rightarrow> fd option \<Rightarrow> Sandbox \<Rightarrow> ChildPlacement \<Rightarrow> trace \<Rightarrow> (RuntimeError + SpawnBegin) \<times> trace" where
  "begin_spawn_service_in_group K args env cwd output sandbox place tr =
     (case spawn_request args env cwd output sandbox place of
        Inl e \<Rightarrow> (Inl e, tr)
      | Inr rq \<Rightarrow>
          (map_sum id (if sp_sandbox rq = None then Ready else Pending) (k_spawn K tr rq), Spawn rq # tr))"

fun begun_pid :: "SpawnBegin \<Rightarrow> pid" where
  "begun_pid (Ready p) = p"
| "begun_pid (Pending p) = p"

definition spawn_service_in_group_detached :: "Kernel \<Rightarrow> string list \<Rightarrow> string list \<Rightarrow> string option
    \<Rightarrow> fd option \<Rightarrow> Sandbox \<Rightarrow> ChildPlacement \<Rightarrow> trace \<Rightarrow> (RuntimeError + pid) \<times> trace" where
  "spawn_service_in_group_detached K args env cwd output sandbox place tr =
     apfst (map_sum id begun_pid) (begin_spawn_service_in_group K args env cwd output sandbox place tr)"

text \<open>\<open>sandbox::resolve\<close> with the databases read through the kernel.\<close>

definition read_text :: "Kernel \<Rightarrow> string \<Rightarrow> trace \<Rightarrow> (IoError + string) \<times> trace" where
  "read_text K path tr = (k_read_text K tr path, ReadText path # tr)"

definition resolve_sandbox :: "Kernel \<Rightarrow> UnitConfig \<Rightarrow> trace \<Rightarrow> (RuntimeError + Sandbox) \<times> trace" where
  "resolve_sandbox K cfg tr =
     (if \<not> needs_user_database cfg then (resolve_from cfg [] [], tr)
      else
        let (passwd, tr1) = (if parse_uint u32_max (trim (cfg_user cfg)) \<noteq> None then (Inr [], tr)
                             else read_text K PASSWD tr) in
        case passwd of
          Inl e \<Rightarrow> (Inl (RtIo ''read /etc/passwd'' e), tr1)
        | Inr pw \<Rightarrow>
            (let (groups, tr2) = read_text K GROUP_DB tr1 in
             case groups of
               Inl e \<Rightarrow> (Inl (RtIo ''read /etc/group'' e), tr2)
             | Inr gr \<Rightarrow> (resolve_from cfg pw gr, tr2)))"

section \<open>What a trace may hold\<close>

text \<open>
  A trace is harmless when every signal in it addresses a single process other than process 1, or
  a process group other than its own: \<open>kill\<close> with 0, 1 or -1 would reach the caller's group, init
  or everything.
\<close>

definition harmless :: "trace \<Rightarrow> bool" where
  "harmless tr \<longleftrightarrow> (\<forall>p s. Kill p s \<in> set tr \<longrightarrow> 1 < \<bar>p\<bar>)"

named_theorems os_defs \<open>definitions of the system-call wrappers\<close>

lemma harmless_Nil [simp]: "harmless []"
  by (simp add: harmless_def)

lemma harmless_Kill [simp]: "harmless (Kill p s # tr) \<longleftrightarrow> 1 < \<bar>p\<bar> \<and> harmless tr"
  by (auto simp: harmless_def)

lemma harmless_Cons [simp]: "(\<And>p s. c \<noteq> Kill p s) \<Longrightarrow> harmless (c # tr) \<longleftrightarrow> harmless tr"
  by (auto simp: harmless_def)

lemma harmless_kill [simp]: "harmless (snd (kill K p s tr)) \<longleftrightarrow> harmless tr"
  by (simp add: kill_def sys_kill_def)

lemma harmless_kill_process_group [simp]:
  "harmless (snd (kill_process_group K p s tr)) \<longleftrightarrow> harmless tr"
  by (simp add: kill_process_group_def sys_kill_def sys_getpgid_def split: sum.split)

lemma harmless_kill_group [simp]: "harmless (snd (kill_group K g s tr)) \<longleftrightarrow> harmless tr"
  by (simp add: kill_group_def sys_kill_def)

lemma harmless_group_alive [simp]: "harmless (snd (group_alive K g tr)) \<longleftrightarrow> harmless tr"
  by (simp add: group_alive_def sys_kill_def)

lemma harmless_group_has_other_members [simp]:
  "harmless (snd (group_has_other_members K g p tr)) \<longleftrightarrow> harmless tr"
  by (simp add: group_has_other_members_def sys_kill_def)

lemma harmless_signal_process [simp]: "harmless (snd (signal_process K p s tr)) \<longleftrightarrow> harmless tr"
  by (simp add: signal_process_def)

lemma harmless_read_clock [simp]: "harmless (snd (read_clock K tr)) \<longleftrightarrow> harmless tr"
  by (simp add: read_clock_def)

lemma harmless_after_duration [simp]: "harmless (snd (after_duration K d tr)) \<longleftrightarrow> harmless tr"
  by (simp add: after_duration_def read_clock_def)

lemma harmless_after_secs [simp]: "harmless (snd (after_secs K n tr)) \<longleftrightarrow> harmless tr"
  by (simp add: after_secs_def)

lemma harmless_read_text [simp]: "harmless (snd (read_text K p tr)) \<longleftrightarrow> harmless tr"
  by (simp add: read_text_def)

lemma harmless_spawn [simp]:
  "harmless (snd (begin_spawn_service_in_group K a e c out sb pl tr)) \<longleftrightarrow> harmless tr"
  by (simp add: begin_spawn_service_in_group_def split: sum.split)

lemma harmless_spawn_detached [simp]:
  "harmless (snd (spawn_service_in_group_detached K a e c out sb pl tr)) \<longleftrightarrow> harmless tr"
  by (simp add: spawn_service_in_group_detached_def)

lemma harmless_resolve_sandbox [simp]: "harmless (snd (resolve_sandbox K cfg tr)) \<longleftrightarrow> harmless tr"
  by (simp add: resolve_sandbox_def read_text_def split: sum.split)

section \<open>Deadlines cannot overflow\<close>

text \<open>
  A concrete kernel for examples: signals succeed, every child leads its own group, no file exists
  and the clock advances by a second per call.
\<close>

definition calm_kernel :: Kernel where
  "calm_kernel = \<lparr>k_self = 1, k_euid = 0, k_now = (\<lambda>tr. from_secs (length tr)),
     k_kill = (\<lambda>tr p s. None), k_getpgid = (\<lambda>tr p. Inr p), k_proc_stats = (\<lambda>tr. Some []),
     k_stat = (\<lambda>tr p. Inl ENOENT), k_open = (\<lambda>tr p. Some ENOENT), k_fstat = (\<lambda>tr p. Inl ENOENT),
     k_read = (\<lambda>tr p n. Inl ENOENT), k_read_text = (\<lambda>tr p. Inl (OsError ENOENT)),
     k_create_dir = (\<lambda>tr p. None), k_exists = (\<lambda>tr p. False), k_remove_dir = (\<lambda>tr p. None),
     k_write_file = (\<lambda>tr p v. None), k_spawn = (\<lambda>tr rq. Inr (100 + int (length tr))),
     k_create_dir_all = (\<lambda>tr p. None), k_remove_file = (\<lambda>tr p. None), k_umask = (\<lambda>tr n. 18),
     k_bind_datagram = (\<lambda>tr p. None), k_bind_listener = (\<lambda>tr p. Inr 3), k_chmod = (\<lambda>tr p n. None),
     k_chown = (\<lambda>tr p u g. None), k_pipe = (\<lambda>tr. Inr (3, 4)), k_set_nonblocking = (\<lambda>tr f. None),
     k_exec_report = (\<lambda>tr p. Reported (Inr p)), k_try_clone = (\<lambda>tr f. None),
     k_wd_open = (\<lambda>tr p. None), k_wd_set_timeout = (\<lambda>tr n. Inr n), k_wd_get_timeout = (\<lambda>tr. Inr 30),
     k_wd_write = (\<lambda>tr c. None)\<rparr>"

text \<open>
  A deadline computed from any timeout a unit file can hold is never in the past, is
  at most the cap away from the clock, and stays within the range of \<open>Instant\<close>; below the cap, and
  while the clock itself is far from its limit, it is exact.
\<close>

theorem after_secs_bounds:
  assumes "k_now K tr < INSTANT_LIMIT"
  shows "k_now K tr \<le> fst (after_secs K n tr) \<and> fst (after_secs K n tr) < INSTANT_LIMIT
     \<and> fst (after_secs K n tr) \<le> k_now K tr + MAX_TIMEOUT
     \<and> (n \<le> 2 ^ 40 \<longrightarrow> k_now K tr < from_secs (2 ^ 62) \<longrightarrow>
          fst (after_secs K n tr) = k_now K tr + from_secs n)"
  using assms
  by (auto simp: after_secs_def after_duration_def read_clock_def clamp_def Let_def MAX_TIMEOUT_def
      INSTANT_LIMIT_def from_secs_def)

theorem after_secs_bounds_witness:
  "fst (after_secs calm_kernel 30 [Now, Now]) = 32000000000"
proof -
  have "k_now calm_kernel [Now, Now] < INSTANT_LIMIT"
    by (simp add: calm_kernel_def INSTANT_LIMIT_def from_secs_def)
  from after_secs_bounds [OF this, of 30] show ?thesis
    by (simp add: calm_kernel_def from_secs_def)
qed

end
