(* ===== verification/Cgroup_Ops.thy ===== *)
theory Cgroup_Ops
  imports Os
begin

text \<open>
  Control groups: which files the limits of a unit become (\<open>rinit-core/src/unit/cgroup.rs\<close>), the
  attribute reads and writes (\<open>rinit-runtime/src/syscall/cgroup.rs\<close>) and the policy around them -
  degrade, fail, keep or remove (\<open>rinit/src/cgroup.rs\<close>).
\<close>

section \<open>Limits\<close>

definition CG_GROUP :: string where "CG_GROUP = ''rinit''"
definition DEFAULT_PERIOD_US :: nat where "DEFAULT_PERIOD_US = 100000"
definition WANTED_CONTROLLERS :: "string list" where
  "WANTED_CONTROLLERS = [''cpu'', ''memory'', ''pids'']"

record CgroupLimits =
  cl_cpu_max :: "CpuQuota option"
  cl_memory_max :: "SizeBytes option"
  cl_memory_high :: "SizeBytes option"
  cl_tasks_max :: "nat option"

definition limits_from_config :: "UnitConfig \<Rightarrow> CgroupLimits" where
  "limits_from_config cfg = \<lparr>cl_cpu_max = cgroup_cpu_max cfg, cl_memory_max = cgroup_memory_max cfg,
     cl_memory_high = cgroup_memory_high cfg, cl_tasks_max = cgroup_tasks_max cfg\<rparr>"

definition limits_is_empty :: "CgroupLimits \<Rightarrow> bool" where
  "limits_is_empty l \<longleftrightarrow> cl_cpu_max l = None \<and> cl_memory_max l = None \<and> cl_memory_high l = None
     \<and> cl_tasks_max l = None"

definition cpu_max_value :: "CpuQuota \<Rightarrow> string" where
  "cpu_max_value q = (case q of
      Percent p \<Rightarrow> show_nat (p * (DEFAULT_PERIOD_US div 100)) @ '' '' @ show_nat DEFAULT_PERIOD_US
    | QuotaPeriod quota period \<Rightarrow> show_nat quota @ '' '' @ show_nat period)"

definition limit_files :: "CgroupLimits \<Rightarrow> (string \<times> string \<times> string) list" where
  "limit_files l =
     (case cl_cpu_max l of None \<Rightarrow> [] | Some q \<Rightarrow> [(''cpu'', ''cpu.max'', cpu_max_value q)])
     @ (case cl_memory_max l of None \<Rightarrow> []
        | Some m \<Rightarrow> [(''memory'', ''memory.max'', show_nat (size_bytes m))])
     @ (case cl_memory_high l of None \<Rightarrow> []
        | Some m \<Rightarrow> [(''memory'', ''memory.high'', show_nat (size_bytes m))])
     @ (case cl_tasks_max l of None \<Rightarrow> [] | Some n \<Rightarrow> [(''pids'', ''pids.max'', show_nat n)])"

definition cgroup_path_for :: "UnitName \<Rightarrow> string" where
  "cgroup_path_for u = CG_GROUP @ ''/'' @ canonical u"

definition has_controller :: "string \<Rightarrow> string \<Rightarrow> bool" where
  "has_controller available nm \<longleftrightarrow> list_ex (\<lambda>c. c = nm) (split_whitespace available)"

fun plus_names :: "string list \<Rightarrow> string \<Rightarrow> string" where
  "plus_names [] line = line"
| "plus_names (nm # rest) line =
     plus_names rest (line @ (if line = [] then [] else '' '') @ ''+'' @ nm)"

definition controllers_to_enable :: "string \<Rightarrow> string option" where
  "controllers_to_enable available =
     (let names = filter (has_controller available) WANTED_CONTROLLERS
      in if names = [] then None else Some (plus_names names []))"

section \<open>Attribute files\<close>

definition CGROUP_ROOT :: string where "CGROUP_ROOT = ''/sys/fs/cgroup''"
definition CONTROLLERS :: string where "CONTROLLERS = ''cgroup.controllers''"
definition SUBTREE_CONTROL :: string where "SUBTREE_CONTROL = ''cgroup.subtree_control''"
definition PROCS :: string where "PROCS = ''cgroup.procs''"
definition EVENTS :: string where "EVENTS = ''cgroup.events''"
definition MEMORY_EVENTS :: string where "MEMORY_EVENTS = ''memory.events''"

text \<open>\<open>SyscallError::from_io\<close>: the errno, or 0 when the error has none.\<close>

definition io_errno :: "IoError \<Rightarrow> int" where
  "io_errno e = (case e of OsError n \<Rightarrow> n | IoCustom _ _ \<Rightarrow> 0)"

definition cg_is_v2 :: "Kernel \<Rightarrow> string \<Rightarrow> trace \<Rightarrow> bool \<times> trace" where
  "cg_is_v2 K dir tr = (let (r, tr1) = read_text K (path_join dir CONTROLLERS) tr in (isl r = False, tr1))"

definition cg_read_controllers :: "Kernel \<Rightarrow> string \<Rightarrow> trace \<Rightarrow> (int + string) \<times> trace" where
  "cg_read_controllers K dir tr =
     (let (r, tr1) = read_text K (path_join dir CONTROLLERS) tr
      in (map_sum io_errno id r, tr1))"

definition cg_write_file :: "Kernel \<Rightarrow> string \<Rightarrow> string \<Rightarrow> trace \<Rightarrow> int option \<times> trace" where
  "cg_write_file K path v tr = (k_write_file K tr path v, WriteFile path v # tr)"

definition cg_enable_controllers :: "Kernel \<Rightarrow> string \<Rightarrow> string \<Rightarrow> trace \<Rightarrow> int option \<times> trace" where
  "cg_enable_controllers K dir line tr = cg_write_file K (path_join dir SUBTREE_CONTROL) line tr"

definition cg_create :: "Kernel \<Rightarrow> string \<Rightarrow> trace \<Rightarrow> int option \<times> trace" where
  "cg_create K dir tr = (k_create_dir K tr dir, CreateDir dir # tr)"

definition LIMIT_FILES :: "string list" where
  "LIMIT_FILES = [''cpu.max'', ''memory.max'', ''memory.high'', ''pids.max'']"

definition cg_write_limit :: "Kernel \<Rightarrow> string \<Rightarrow> string \<Rightarrow> string \<Rightarrow> trace
    \<Rightarrow> (RuntimeError option) \<times> trace" where
  "cg_write_limit K dir file v tr =
     (if file \<notin> set LIMIT_FILES then (Some (RtSyscall ''cgroup limit'' EINVAL), tr)
      else let (r, tr1) = cg_write_file K (path_join dir file) v tr
        in (map_option (RtSyscall (''cgroup '' @ file)) r, tr1))"

definition cg_processes :: "Kernel \<Rightarrow> string \<Rightarrow> trace \<Rightarrow> (int + pid list) \<times> trace" where
  "cg_processes K dir tr =
     (let (r, tr1) = read_text K (path_join dir PROCS) tr in
      (map_sum io_errno (\<lambda>body. List.map_filter parse_i32 (split_whitespace body)) r, tr1))"

text \<open>The verdict of \<open>cgroup.events\<close>: the first line that starts with \<open>populated\<close> decides.\<close>

definition populated_in :: "string \<Rightarrow> int + bool" where
  "populated_in body =
     (case find_map (strip_prefix ''populated'') (str_lines body) of
        None \<Rightarrow> Inl EINVAL
      | Some v \<Rightarrow> if trim v = ''0'' then Inr False else if trim v = ''1'' then Inr True else Inl EINVAL)"

definition cg_is_populated :: "Kernel \<Rightarrow> string \<Rightarrow> trace \<Rightarrow> (int + bool) \<times> trace" where
  "cg_is_populated K dir tr =
     (let (r, tr1) = read_text K (path_join dir EVENTS) tr in
      (case r of Inl e \<Rightarrow> Inl (io_errno e) | Inr body \<Rightarrow> populated_in body, tr1))"

definition oom_kill_line :: "string \<Rightarrow> nat option" where
  "oom_kill_line line = (case split_whitespace line of
      k # v # _ \<Rightarrow> if k = ''oom_kill'' then parse_uint u64_max v else None
    | _ \<Rightarrow> None)"

definition cg_oom_kills :: "Kernel \<Rightarrow> string \<Rightarrow> trace \<Rightarrow> (int + nat option) \<times> trace" where
  "cg_oom_kills K dir tr =
     (let (r, tr1) = read_text K (path_join dir MEMORY_EVENTS) tr in
      (case r of
         Inl e \<Rightarrow> if e = OsError ENOENT then Inr None else Inl (io_errno e)
       | Inr body \<Rightarrow> Inr (find_map oom_kill_line (str_lines body)), tr1))"

definition cg_remove :: "Kernel \<Rightarrow> string \<Rightarrow> trace \<Rightarrow> int option \<times> trace" where
  "cg_remove K dir tr = (k_remove_dir K tr dir, RemoveDir dir # tr)"

section \<open>Policy\<close>

record Cgroup =
  cg_root :: "string option"

definition cgroup_disabled :: Cgroup where "cgroup_disabled = \<lparr>cg_root = None\<rparr>"
definition cgroup_at :: "string \<Rightarrow> Cgroup" where "cgroup_at r = \<lparr>cg_root = Some r\<rparr>"
definition cgroup_is_enabled :: "Cgroup \<Rightarrow> bool" where "cgroup_is_enabled c \<longleftrightarrow> cg_root c \<noteq> None"

definition cgroup_dir :: "Cgroup \<Rightarrow> UnitName \<Rightarrow> string option" where
  "cgroup_dir c u = map_option (\<lambda>r. path_join r (cgroup_path_for u)) (cg_root c)"

text \<open>
  The limits are written one by one: a missing controller or attribute skips the limit, any other
  failure fails the start. The second component lists the files that took effect.
\<close>

fun write_limits :: "Kernel \<Rightarrow> string \<Rightarrow> string \<Rightarrow> (string \<times> string \<times> string) list \<Rightarrow> string list
    \<Rightarrow> trace \<Rightarrow> (RuntimeError + string list) \<times> trace" where
  "write_limits K dir available [] applied tr = (Inr applied, tr)"
| "write_limits K dir available ((controller, file, v) # rest) applied tr =
     (if \<not> has_controller available controller then write_limits K dir available rest applied tr
      else let (r, tr1) = cg_write_limit K dir file v tr in
        case r of
          None \<Rightarrow> write_limits K dir available rest (applied @ [file]) tr1
        | Some (RtSyscall what e) \<Rightarrow>
            if e = ENOENT then write_limits K dir available rest applied tr1
            else (Inl (RtSyscall what e), tr1)
        | Some e \<Rightarrow> (Inl e, tr1))"

definition cgroup_setup :: "Kernel \<Rightarrow> Cgroup \<Rightarrow> UnitName \<Rightarrow> CgroupLimits \<Rightarrow> trace
    \<Rightarrow> (RuntimeError + string option) \<times> trace" where
  "cgroup_setup K c u limits tr = (case cgroup_dir c u of
      None \<Rightarrow> (Inr None, tr)
    | Some dir \<Rightarrow>
        if limits_is_empty limits then (Inr None, tr)
        else
          (let (made, tr1) = cg_create K dir tr in
           if made \<noteq> None then (Inr None, tr1)
           else let (avail, tr2) = cg_read_controllers K dir tr1 in
             (case avail of
                Inl _ \<Rightarrow> (Inr None, tr2)
              | Inr available \<Rightarrow>
                  (case write_limits K dir available (limit_files limits) [] tr2 of
                     (Inl e, tr3) \<Rightarrow> (Inl e, tr3)
                   | (Inr applied, tr3) \<Rightarrow>
                       if applied = [] then (Inr None, snd (cg_remove K dir tr3))
                       else (Inr (Some (path_join dir PROCS)), tr3)))))"

definition cgroup_oom_kills :: "Kernel \<Rightarrow> Cgroup \<Rightarrow> UnitName \<Rightarrow> trace \<Rightarrow> nat option \<times> trace" where
  "cgroup_oom_kills K c u tr = (case cgroup_dir c u of
      None \<Rightarrow> (None, tr)
    | Some dir \<Rightarrow>
        let (r, tr1) = cg_oom_kills K dir tr in (case r of Inl _ \<Rightarrow> None | Inr n \<Rightarrow> n, tr1))"

definition cgroup_members :: "Kernel \<Rightarrow> Cgroup \<Rightarrow> UnitName \<Rightarrow> trace \<Rightarrow> pid list option \<times> trace" where
  "cgroup_members K c u tr = (case cgroup_dir c u of
      None \<Rightarrow> (None, tr)
    | Some dir \<Rightarrow>
        let (r, tr1) = cg_processes K dir tr in
        (case r of Inl _ \<Rightarrow> None | Inr ps \<Rightarrow> Some ps, tr1))"

fun signal_pids :: "Kernel \<Rightarrow> int \<Rightarrow> pid list \<Rightarrow> trace \<Rightarrow> trace" where
  "signal_pids K s [] tr = tr"
| "signal_pids K s (p # ps) tr =
     signal_pids K s ps (if p \<le> 1 then tr else snd (kill K p s tr))"

definition signal_members :: "Kernel \<Rightarrow> Cgroup \<Rightarrow> UnitName \<Rightarrow> int \<Rightarrow> trace \<Rightarrow> trace" where
  "signal_members K c u s tr = (case cgroup_dir c u of
      None \<Rightarrow> tr
    | Some dir \<Rightarrow>
        let (r, tr1) = cg_processes K dir tr in
        (case r of Inl _ \<Rightarrow> tr1 | Inr ps \<Rightarrow> signal_pids K s ps tr1))"

definition cgroup_cleanup :: "Kernel \<Rightarrow> Cgroup \<Rightarrow> UnitName \<Rightarrow> trace \<Rightarrow> trace" where
  "cgroup_cleanup K c u tr = (case cgroup_dir c u of
      None \<Rightarrow> tr
    | Some dir \<Rightarrow>
        let tr1 = PathExists dir # tr in
        if \<not> k_exists K tr dir then tr1
        else let (r, tr2) = cg_is_populated K dir tr1 in
          (case r of
             Inr False \<Rightarrow> snd (cg_remove K dir tr2)
           | Inr True \<Rightarrow> snd (cg_processes K dir tr2)
           | Inl _ \<Rightarrow> tr2))"

definition enable_controllers :: "Kernel \<Rightarrow> string \<Rightarrow> trace \<Rightarrow> trace" where
  "enable_controllers K dir tr =
     (let (r, tr1) = cg_read_controllers K dir tr in
      case r of
        Inl _ \<Rightarrow> tr1
      | Inr available \<Rightarrow>
          (case controllers_to_enable available of
             None \<Rightarrow> tr1
           | Some line \<Rightarrow> snd (cg_enable_controllers K dir line tr1)))"

definition cgroup_prepare :: "Kernel \<Rightarrow> bool \<Rightarrow> string option \<Rightarrow> trace \<Rightarrow> Cgroup \<times> trace" where
  "cgroup_prepare K skip_mounts root tr =
     (if root = None \<and> skip_mounts then (cgroup_disabled, tr)
      else let dir = (case root of Some r \<Rightarrow> r | None \<Rightarrow> CGROUP_ROOT);
               (v2, tr1) = cg_is_v2 K dir tr in
        if \<not> v2 then (cgroup_disabled, tr1)
        else let tr2 = enable_controllers K dir tr1;
                 grp = path_join dir CG_GROUP;
                 (made, tr3) = cg_create K grp tr2 in
          if made \<noteq> None then (cgroup_disabled, tr3)
          else (cgroup_at dir, enable_controllers K grp tr3))"

section \<open>Traces of the cgroup operations\<close>

lemma harmless_cg_reads [simp]:
  "harmless (snd (cg_is_v2 K d tr)) = harmless tr"
  "harmless (snd (cg_read_controllers K d tr)) = harmless tr"
  "harmless (snd (cg_processes K d tr)) = harmless tr"
  "harmless (snd (cg_is_populated K d tr)) = harmless tr"
  "harmless (snd (cg_oom_kills K d tr)) = harmless tr"
  by (simp_all add: cg_is_v2_def cg_read_controllers_def cg_processes_def cg_is_populated_def
      cg_oom_kills_def split_beta Let_def)

lemma harmless_cg_writes [simp]:
  "harmless (snd (cg_write_file K p v tr)) = harmless tr"
  "harmless (snd (cg_enable_controllers K d v tr)) = harmless tr"
  "harmless (snd (cg_create K d tr)) = harmless tr"
  "harmless (snd (cg_remove K d tr)) = harmless tr"
  "harmless (snd (cg_write_limit K d f v tr)) = harmless tr"
  by (simp_all add: cg_write_file_def cg_enable_controllers_def cg_create_def cg_remove_def
      cg_write_limit_def split_beta Let_def)

lemma harmless_write_limits [simp]:
  "harmless (snd (write_limits K d a fs acc tr)) = harmless tr"
proof (induction fs arbitrary: acc tr)
  case (Cons x rest)
  obtain controller nm v where x: "x = (controller, nm, v)" by (cases x) auto
  show ?case
    by (simp add: x Cons.IH split_beta Let_def split: option.split RuntimeError.split)
qed simp

lemma harmless_cgroup_setup [simp]: "harmless (snd (cgroup_setup K c u l tr)) = harmless tr"
proof -
  have "harmless tr3 = harmless tr2"
    if "write_limits K d a fs [] tr2 = (r, tr3)" for d a fs tr2 r tr3
    using harmless_write_limits [of K d a fs "[]" tr2] that by simp
  then show ?thesis
    by (simp add: cgroup_setup_def split_beta Let_def split: option.split sum.split prod.split)
qed

lemma harmless_cgroup_oom_kills [simp]: "harmless (snd (cgroup_oom_kills K c u tr)) = harmless tr"
  by (simp add: cgroup_oom_kills_def split_beta Let_def split: option.split)

lemma harmless_cgroup_members [simp]: "harmless (snd (cgroup_members K c u tr)) = harmless tr"
  by (simp add: cgroup_members_def split_beta Let_def split: option.split)

lemma harmless_signal_pids [simp]: "harmless (signal_pids K s ps tr) = harmless tr"
  by (induction K s ps tr rule: signal_pids.induct) simp_all

lemma harmless_signal_members [simp]: "harmless (signal_members K c u s tr) = harmless tr"
  by (simp add: signal_members_def split_beta Let_def split: option.split sum.split)

lemma harmless_cgroup_cleanup [simp]: "harmless (cgroup_cleanup K c u tr) = harmless tr"
  by (simp add: cgroup_cleanup_def split_beta Let_def split: option.split sum.split bool.split)

end
