(* ===== verification/Unit_State.thy ===== *)
theory Unit_State
  imports Unit_Config
begin

text \<open>
  The unit lifecycle (\<open>rinit-core/src/unit/state/unit_state.rs\<close> and \<open>transition.rs\<close>): the
  states, how a process can end, what \<open>Restart=\<close> makes of it, the transition table with the side
  effect it returns, and \<open>drive\<close>, which runs the table over a sequence of events. A locale states
  the counting argument that lifts a bound on one step to every run; the table is an instance.
\<close>

section \<open>States and exits\<close>

datatype FailedReason = StartFailure | StartLimitHit

datatype UnitState =
  Inactive | Starting | Active | ActiveExited | Deactivating | RestartWait | Failed FailedReason

definition is_satisfied :: "UnitState \<Rightarrow> bool" where
  "is_satisfied s \<longleftrightarrow> s = Active \<or> s = ActiveExited"

definition is_live :: "UnitState \<Rightarrow> bool" where
  "is_live s \<longleftrightarrow> s = Active \<or> s = Starting \<or> s = RestartWait"

definition state_as_str :: "UnitState \<Rightarrow> string" where
  "state_as_str s = (case s of
      Inactive \<Rightarrow> ''inactive''
    | Starting \<Rightarrow> ''starting''
    | Active \<Rightarrow> ''active''
    | ActiveExited \<Rightarrow> ''active (exited)''
    | Deactivating \<Rightarrow> ''deactivating''
    | RestartWait \<Rightarrow> ''restart-wait''
    | Failed StartFailure \<Rightarrow> ''failed''
    | Failed StartLimitHit \<Rightarrow> ''failed (start-limit)'')"

datatype ExitOutcome = Success | Failure int | Signalled int | TimedOut

definition is_failure :: "ExitOutcome \<Rightarrow> bool" where
  "is_failure o' \<longleftrightarrow> o' \<noteq> Success"

definition is_abnormal :: "ExitOutcome \<Rightarrow> bool" where
  "is_abnormal o' \<longleftrightarrow> (case o' of Signalled _ \<Rightarrow> True | TimedOut \<Rightarrow> True | _ \<Rightarrow> False)"

definition wants_restart :: "RestartPolicy \<Rightarrow> ExitOutcome \<Rightarrow> bool" where
  "wants_restart p o' = (case p of
      No \<Rightarrow> False
    | Always \<Rightarrow> True
    | OnSuccess \<Rightarrow> o' = Success
    | OnFailure \<Rightarrow> is_failure o'
    | OnAbnormal \<Rightarrow> is_abnormal o')"

section \<open>Events, effects and the transition table\<close>

datatype Event =
  Start | StartUpComplete | StartUpFailed | Exit ExitOutcome | Stop | StopComplete
| BackoffElapsed | StartLimitTripped | ResetFailed

datatype Effect =
  NoEffect | SpawnProcess | SendStopSignal | ScheduleBackoff duration
| CancelBackoffAndStart | CancelBackoffAndStop | ClearStartLimitAndStart

record Transition =
  tr_from :: UnitState
  tr_to :: UnitState
  tr_effect :: Effect

datatype TransitionError = NotAllowed UnitState Event

text \<open>The big \<open>match (state, event)\<close>; \<open>None\<close> stands for the cells that return \<open>not_allowed()\<close>.\<close>

definition transition_cell ::
    "UnitState \<Rightarrow> Event \<Rightarrow> RestartPolicy \<Rightarrow> ServiceKind \<Rightarrow> (UnitState \<times> Effect) option" where
  "transition_cell s e policy kind = (case s of
      Inactive \<Rightarrow> (case e of
          Start \<Rightarrow> Some (Starting, SpawnProcess)
        | Stop \<Rightarrow> Some (Inactive, NoEffect)
        | _ \<Rightarrow> None)
    | Starting \<Rightarrow> (case e of
          Start \<Rightarrow> Some (Starting, NoEffect)
        | StartUpComplete \<Rightarrow> (case kind of
              Oneshot \<Rightarrow> Some (ActiveExited, NoEffect)
            | _ \<Rightarrow> Some (Active, NoEffect))
        | StartUpFailed \<Rightarrow> Some (Failed StartFailure, NoEffect)
        | Stop \<Rightarrow> Some (Deactivating, SendStopSignal)
        | _ \<Rightarrow> None)
    | Active \<Rightarrow> (case e of
          Start \<Rightarrow> Some (Active, NoEffect)
        | Exit outcome \<Rightarrow>
            if wants_restart policy outcome then Some (RestartWait, ScheduleBackoff 0)
            else if outcome = Success then Some (Inactive, NoEffect)
            else Some (Failed StartFailure, NoEffect)
        | Stop \<Rightarrow> Some (Deactivating, SendStopSignal)
        | _ \<Rightarrow> None)
    | ActiveExited \<Rightarrow> (case e of
          Start \<Rightarrow> Some (ActiveExited, NoEffect)
        | Stop \<Rightarrow> Some (Inactive, NoEffect)
        | _ \<Rightarrow> None)
    | Deactivating \<Rightarrow> (case e of
          StopComplete \<Rightarrow> Some (Inactive, NoEffect)
        | _ \<Rightarrow> None)
    | RestartWait \<Rightarrow> (case e of
          BackoffElapsed \<Rightarrow> Some (Starting, SpawnProcess)
        | StartLimitTripped \<Rightarrow> Some (Failed StartLimitHit, NoEffect)
        | Start \<Rightarrow> Some (Starting, CancelBackoffAndStart)
        | Stop \<Rightarrow> Some (Deactivating, CancelBackoffAndStop)
        | _ \<Rightarrow> None)
    | Failed _ \<Rightarrow> (case e of
          Start \<Rightarrow> Some (Starting, ClearStartLimitAndStart)
        | ResetFailed \<Rightarrow> Some (Inactive, NoEffect)
        | Stop \<Rightarrow> Some (Inactive, NoEffect)
        | _ \<Rightarrow> None))"

definition transition ::
    "UnitState \<Rightarrow> Event \<Rightarrow> RestartPolicy \<Rightarrow> ServiceKind \<Rightarrow> TransitionError + Transition" where
  "transition s e policy kind = (case transition_cell s e policy kind of
      None \<Rightarrow> Inl (NotAllowed s e)
    | Some (s', eff) \<Rightarrow> Inr \<lparr>tr_from = s, tr_to = s', tr_effect = eff\<rparr>)"

fun drive ::
    "UnitState \<Rightarrow> Event list \<Rightarrow> RestartPolicy \<Rightarrow> ServiceKind
      \<Rightarrow> TransitionError + (UnitState \<times> Effect list)" where
  "drive s [] policy kind = Inr (s, [])"
| "drive s (e # es) policy kind =
     rbind (transition s e policy kind) (\<lambda>t.
       rbind (drive (tr_to t) es policy kind) (\<lambda>(s', effs). Inr (s', tr_effect t # effs)))"

section \<open>Runs of a partial transition function\<close>

text \<open>
  A machine with output whose steps may be refused, and a potential: if one step never gains more
  than it pays plus what the potential releases, no run does. \<open>run\<close> stops at the first refusal.
\<close>

locale counted_machine =
  fixes step :: "'s \<Rightarrow> 'e \<Rightarrow> ('s \<times> 'o) option"
    and gain :: "'o \<Rightarrow> nat"
    and pay :: "'s \<Rightarrow> 'e \<Rightarrow> nat"
    and potential :: "'s \<Rightarrow> nat"
  assumes step_pays: "step s e = Some (s', out) \<Longrightarrow> gain out + potential s \<le> pay s e + potential s'"
begin

fun run :: "'s \<Rightarrow> 'e list \<Rightarrow> ('s \<times> 'o list \<times> nat) option" where
  "run s [] = Some (s, [], 0)"
| "run s (e # es) = (case step s e of
      None \<Rightarrow> None
    | Some (s', out) \<Rightarrow> (case run s' es of
        None \<Rightarrow> None
      | Some (t, outs, paid) \<Rightarrow> Some (t, out # outs, pay s e + paid)))"

lemma run_pays:
  "run s es = Some (t, outs, paid) \<Longrightarrow> sum_list (map gain outs) + potential s \<le> paid + potential t"
proof (induction es arbitrary: s outs paid)
  case (Cons e es)
  from Cons.prems obtain s' out outs' paid' where
    st: "step s e = Some (s', out)" and rn: "run s' es = Some (t, outs', paid')"
    and eqs: "outs = out # outs'" "paid = pay s e + paid'"
    by (auto split: option.splits)
  show ?case using step_pays [OF st] Cons.IH [OF rn] eqs by simp
qed simp

end

text \<open>
  For the lifecycle: the gain of a step is the process it makes the caller spawn, its price is the
  end of a process the event reports, and the potential is one in the states that own a process.
\<close>

definition spawns :: "Effect \<Rightarrow> bool" where
  "spawns e \<longleftrightarrow> e = SpawnProcess \<or> e = CancelBackoffAndStart \<or> e = ClearStartLimitAndStart"

definition ends_process :: "ServiceKind \<Rightarrow> UnitState \<Rightarrow> Event \<Rightarrow> bool" where
  "ends_process kind s e \<longleftrightarrow>
     (case e of Exit _ \<Rightarrow> True | StartUpFailed \<Rightarrow> True | StopComplete \<Rightarrow> True
      | StartUpComplete \<Rightarrow> kind = Oneshot | _ \<Rightarrow> False)"

definition owns_process :: "UnitState \<Rightarrow> bool" where
  "owns_process s \<longleftrightarrow> s = Starting \<or> s = Active \<or> s = Deactivating"

lemma transition_cell_balance:
  "transition_cell s e policy kind = Some (s', eff) \<Longrightarrow>
     of_bool (spawns eff) + of_bool (owns_process s) \<le>
       (of_bool (ends_process kind s e) + of_bool (owns_process s') :: nat)"
  by (cases s; cases e)
     (auto simp: transition_cell_def spawns_def ends_process_def owns_process_def
        split: ServiceKind.splits if_splits)

interpretation lifecycle: counted_machine
  "\<lambda>s e. transition_cell s e policy kind" "\<lambda>eff. of_bool (spawns eff)"
  "\<lambda>s e. of_bool (ends_process kind s e)" "\<lambda>s. of_bool (owns_process s)"
  for policy kind
  by unfold_locales (rule transition_cell_balance)

text \<open>What the events of a run end, along the states they meet.\<close>

fun ended :: "UnitState \<Rightarrow> Event list \<Rightarrow> RestartPolicy \<Rightarrow> ServiceKind \<Rightarrow> nat" where
  "ended s [] policy kind = 0"
| "ended s (e # es) policy kind = (case transition_cell s e policy kind of
      None \<Rightarrow> 0
    | Some (s', _) \<Rightarrow> of_bool (ends_process kind s e) + ended s' es policy kind)"

lemma transition_Inr_iff:
  "transition s e policy kind = Inr t \<longleftrightarrow>
     transition_cell s e policy kind = Some (tr_to t, tr_effect t) \<and> tr_from t = s"
  by (cases t) (auto simp: transition_def split: option.split)

lemma drive_run:
  "drive s es policy kind = Inr (s', effs) \<Longrightarrow>
     lifecycle.run policy kind s es = Some (s', effs, ended s es policy kind)"
proof (induction es arbitrary: s effs)
  case (Cons e es)
  from Cons.prems obtain t effs' where t: "transition s e policy kind = Inr t"
    and d: "drive (tr_to t) es policy kind = Inr (s', effs')" and "effs = tr_effect t # effs'"
    by (auto simp: rbind_Inr_iff)
  with Cons.IH [OF d] show ?case by (simp add: transition_Inr_iff)
qed simp

lemma transition_No_policy:
  "transition_cell s e No kind = Some (s', eff) \<Longrightarrow> s \<noteq> RestartWait \<Longrightarrow>
     s' \<noteq> RestartWait \<and> (\<forall>d. eff \<noteq> ScheduleBackoff d) \<and> (spawns eff \<longrightarrow> e = Start)"
  by (cases s; cases e)
     (auto simp: transition_cell_def spawns_def wants_restart_def split: ServiceKind.splits if_splits)

section \<open>Properties\<close>

text \<open>
  Property C28. One process per unit: along every legal run of the transition table from a state that
  owns no process, the number of process spawns the table asks for is at most the number of process
  ends the events reported, plus one if the unit is left in a state that owns a process. A second
  process is therefore never asked for while the first is unaccounted for.
\<close>

theorem drive_spawns_bounded:
  assumes "drive s es policy kind = Inr (s', effs)" and "\<not> owns_process s"
  shows "length (filter spawns effs) \<le> ended s es policy kind + (if owns_process s' then 1 else 0)"
proof -
  have "sum_list (map (\<lambda>eff. of_bool (spawns eff)) effs) = length (filter spawns effs)"
    by (induction effs) auto
  with lifecycle.run_pays [OF drive_run [OF assms(1)]] assms(2) show ?thesis
    by (auto split: if_splits)
qed

theorem drive_spawns_bounded_witness:
  "\<exists>s' effs. drive Inactive [Start, StartUpComplete, Exit (Failure 1), BackoffElapsed] OnFailure Simple
       = Inr (s', effs) \<and> owns_process s' \<and> length (filter spawns effs) = 2 \<and>
     length (filter spawns effs) \<le>
       ended Inactive [Start, StartUpComplete, Exit (Failure 1), BackoffElapsed] OnFailure Simple + 1"
proof -
  let ?effs = "[SpawnProcess, NoEffect, ScheduleBackoff 0, SpawnProcess]"
  have h: "drive Inactive [Start, StartUpComplete, Exit (Failure 1), BackoffElapsed] OnFailure Simple
      = Inr (Starting, ?effs)"
    by (simp add: transition_def transition_cell_def wants_restart_def is_failure_def)
  have o: "\<not> owns_process Inactive" "owns_process Starting" by (simp_all add: owns_process_def)
  have "length (filter spawns ?effs) = 2" by (simp add: spawns_def)
  with drive_spawns_bounded [OF h o(1)] h o(2) show ?thesis by auto
qed

text \<open>
  A unit with \<open>Restart=no\<close> is never restarted behind the operator's back: from any
  state other than a pending restart, no event sequence reaches the restart wait, arms a backoff,
  or spawns more processes than there were explicit start requests.
\<close>

theorem drive_no_restart:
  assumes "drive s es No kind = Inr (s', effs)" and "s \<noteq> RestartWait"
  shows "s' \<noteq> RestartWait \<and> (\<forall>d. ScheduleBackoff d \<notin> set effs) \<and>
    length (filter spawns effs) \<le> count_list es Start"
  using assms
proof (induction es arbitrary: s effs)
  case (Cons e es)
  from Cons.prems(1) obtain t effs' where t: "transition s e No kind = Inr t"
    and d: "drive (tr_to t) es No kind = Inr (s', effs')" and effs: "effs = tr_effect t # effs'"
    by (auto simp: rbind_Inr_iff)
  from t have "tr_to t \<noteq> RestartWait \<and> (\<forall>d. tr_effect t \<noteq> ScheduleBackoff d) \<and>
      (spawns (tr_effect t) \<longrightarrow> e = Start)"
    by (intro transition_No_policy [OF _ Cons.prems(2), where kind = kind]) (simp add: transition_Inr_iff)
  with Cons.IH [OF d] effs show ?case by (auto, metis+)
qed simp

theorem drive_no_restart_witness:
  "\<exists>s' effs. drive Inactive [Start, StartUpComplete, Exit TimedOut] No Simple = Inr (s', effs) \<and>
     s' \<noteq> RestartWait \<and> length (filter spawns effs) \<le> 1"
proof -
  have h: "drive Inactive [Start, StartUpComplete, Exit TimedOut] No Simple
      = Inr (Failed StartFailure, [SpawnProcess, NoEffect, NoEffect])"
    by (simp add: transition_def transition_cell_def wants_restart_def)
  show ?thesis using h drive_no_restart [OF h] by auto
qed

text \<open>
  Every unit can be brought to rest: from each state, whatever the policy and the type,
  at most two events out of a stop request and its completion lead to \<open>Inactive\<close>, and none of their
  effects spawns a process.
\<close>

theorem every_state_can_stop:
  "\<exists>es effs. length es \<le> 2 \<and> set es \<subseteq> {Stop, StopComplete} \<and>
     drive s es policy kind = Inr (Inactive, effs) \<and> filter spawns effs = []"
proof -
  have stop2: "\<exists>effs. drive s [Stop, StopComplete] policy kind = Inr (Inactive, effs) \<and> filter spawns effs = []"
    if "s \<in> {Active, Starting, RestartWait}"
    using that by (auto simp: transition_def transition_cell_def spawns_def)
  have stop1: "\<exists>effs. drive s [Stop] policy kind = Inr (Inactive, effs) \<and> filter spawns effs = []"
    if "s \<notin> {Active, Starting, RestartWait, Deactivating}"
    using that by (cases s) (auto simp: transition_def transition_cell_def spawns_def)
  have "drive Deactivating [StopComplete] policy kind = Inr (Inactive, [NoEffect])"
    by (simp add: transition_def transition_cell_def)
  then have stop0: "\<exists>effs. drive s [StopComplete] policy kind = Inr (Inactive, effs) \<and> filter spawns effs = []"
    if "s = Deactivating"
    using that by (auto simp: spawns_def)
  show ?thesis
  proof (cases "s \<in> {Active, Starting, RestartWait}")
    case True
    then show ?thesis using stop2 by (intro exI [of _ "[Stop, StopComplete]"]) auto
  next
    case False
    then show ?thesis using stop1 stop0
      by (cases "s = Deactivating") (auto intro: exI [of _ "[Stop]"] exI [of _ "[StopComplete]"])
  qed
qed

end
