(* ===== verification/Job_Queue.thy ===== *)
theory Job_Queue
  imports Unit_State "HOL-Library.Multiset"
begin

text \<open>
  The job queue (\<open>rinit-core/src/unit/job.rs\<close>): target-state requests, the merge rule "priority
  first, timestamp second", and \<open>reconcile\<close>, which turns a target and an actual state into an
  effect. The locale \<open>target_store\<close> is the contract a client of the queue relies on; the queue's
  operations are interpreted as an instance, and the manager's theory reasons through it.
\<close>

section \<open>Requests\<close>

type_synonym millis = nat

datatype RequestSource = Dependency | UserStart | UserStop | ShutdownStop

fun source_rank :: "RequestSource \<Rightarrow> nat" where
  "source_rank Dependency = 0"
| "source_rank UserStart = 1"
| "source_rank UserStop = 2"
| "source_rank ShutdownStop = 3"

text \<open>The derived \<open>Ord\<close> of a field-less enum is the order of declaration.\<close>

instantiation RequestSource :: linorder
begin

definition less_RequestSource :: "RequestSource \<Rightarrow> RequestSource \<Rightarrow> bool" where
  "less_RequestSource a b \<longleftrightarrow> source_rank a < source_rank b"

definition less_eq_RequestSource :: "RequestSource \<Rightarrow> RequestSource \<Rightarrow> bool" where
  "less_eq_RequestSource a b \<longleftrightarrow> source_rank a \<le> source_rank b"

instance
proof
  fix x y :: RequestSource
  show "x \<le> y \<Longrightarrow> y \<le> x \<Longrightarrow> x = y"
    by (cases x; cases y; simp add: less_eq_RequestSource_def)
qed (auto simp: less_RequestSource_def less_eq_RequestSource_def)

end

datatype JobTarget = Started | Stopped

record Job =
  job_unit :: UnitName
  job_target :: JobTarget
  job_source :: RequestSource
  job_at :: millis

definition new_job :: "UnitName \<Rightarrow> JobTarget \<Rightarrow> RequestSource \<Rightarrow> millis \<Rightarrow> Job" where
  "new_job u t s a = \<lparr>job_unit = u, job_target = t, job_source = s, job_at = a\<rparr>"

definition supersedes :: "Job \<Rightarrow> Job \<Rightarrow> bool" where
  "supersedes j k =
     (if job_source j > job_source k then True
      else if job_source j < job_source k then False
      else job_at j > job_at k)"

record MergedTarget =
  mt_target :: JobTarget
  mt_source :: RequestSource
  mt_at :: millis

section \<open>The queue\<close>

record JobQueue =
  merged :: "(UnitName \<times> MergedTarget) list"

definition empty_queue :: JobQueue where
  "empty_queue = \<lparr>merged = []\<rparr>"

definition queue_len :: "JobQueue \<Rightarrow> nat" where
  "queue_len q = length (merged q)"

definition queue_is_empty :: "JobQueue \<Rightarrow> bool" where
  "queue_is_empty q \<longleftrightarrow> merged q = []"

definition target_of :: "JobQueue \<Rightarrow> UnitName \<Rightarrow> MergedTarget option" where
  "target_of q u = map_of (merged q) u"

definition holder :: "Job \<Rightarrow> MergedTarget" where
  "holder j = \<lparr>mt_target = job_target j, mt_source = job_source j, mt_at = job_at j\<rparr>"

definition wins :: "Job \<Rightarrow> MergedTarget \<Rightarrow> bool" where
  "wins j m \<longleftrightarrow>
     job_source j > mt_source m \<or> (job_source j = mt_source m \<and> job_at j > mt_at m)"

definition submit :: "JobQueue \<Rightarrow> Job \<Rightarrow> JobQueue \<times> bool" where
  "submit q j =
     (case map_of (merged q) (job_unit j) of
        Some current \<Rightarrow>
          if wins j current
          then (q\<lparr>merged := set_first (job_unit j) (holder j) (merged q)\<rparr>, True)
          else (q, False)
      | None \<Rightarrow> (q\<lparr>merged := merged q @ [(job_unit j, holder j)]\<rparr>, True))"

text \<open>\<open>sort_by(|a, b| a.0.cmp(&b.0))\<close> is a stable sort on the first component.\<close>

definition queue_targets :: "JobQueue \<Rightarrow> (UnitName \<times> MergedTarget) list" where
  "queue_targets q = sort_key fst (merged q)"

definition forget :: "JobQueue \<Rightarrow> UnitName \<Rightarrow> JobQueue" where
  "forget q u = q\<lparr>merged := filter (\<lambda>(v, _). v \<noteq> u) (merged q)\<rparr>"

definition reconcile :: "JobQueue \<Rightarrow> UnitName \<Rightarrow> UnitState \<Rightarrow> Effect option" where
  "reconcile q u actual =
     (case target_of q u of
        None \<Rightarrow> None
      | Some m \<Rightarrow>
          (case mt_target m of
             Started \<Rightarrow>
               (case actual of
                  Active \<Rightarrow> Some NoEffect
                | ActiveExited \<Rightarrow> Some NoEffect
                | RestartWait \<Rightarrow> Some CancelBackoffAndStart
                | Failed _ \<Rightarrow> Some ClearStartLimitAndStart
                | Deactivating \<Rightarrow> None
                | Inactive \<Rightarrow> Some SpawnProcess
                | Starting \<Rightarrow> Some NoEffect)
           | Stopped \<Rightarrow>
               (case actual of
                  Inactive \<Rightarrow> Some NoEffect
                | ActiveExited \<Rightarrow> Some NoEffect
                | Failed _ \<Rightarrow> Some NoEffect
                | RestartWait \<Rightarrow> Some CancelBackoffAndStop
                | Active \<Rightarrow> Some SendStopSignal
                | Starting \<Rightarrow> Some SendStopSignal
                | Deactivating \<Rightarrow> None)))"

definition describe_failure :: "UnitState \<Rightarrow> string" where
  "describe_failure s = (case s of
      Failed StartLimitHit \<Rightarrow> ''failed (start-limit hit)''
    | Failed StartFailure \<Rightarrow> ''failed''
    | other \<Rightarrow> state_as_str other)"

section \<open>The contract of a target store\<close>

text \<open>
  What the clients of the queue use: a look-up, a submission that reports whether it won, and a way
  to forget a unit. A submission changes only its own unit and leaves the better of the two claims.
\<close>

locale target_store =
  fixes lookup :: "'q \<Rightarrow> UnitName \<Rightarrow> MergedTarget option"
    and put :: "'q \<Rightarrow> Job \<Rightarrow> 'q \<times> bool"
    and drop_unit :: "'q \<Rightarrow> UnitName \<Rightarrow> 'q"
  assumes lookup_put_other: "u \<noteq> job_unit j \<Longrightarrow> lookup (fst (put q j)) u = lookup q u"
    and lookup_put_none: "lookup q (job_unit j) = None \<Longrightarrow>
          lookup (fst (put q j)) (job_unit j) = Some (holder j) \<and> snd (put q j)"
    and lookup_put_some: "lookup q (job_unit j) = Some m \<Longrightarrow>
          lookup (fst (put q j)) (job_unit j) = Some (if wins j m then holder j else m) \<and>
          snd (put q j) = wins j m"
    and lookup_drop: "lookup (drop_unit q u) v = (if v = u then None else lookup q v)"
begin

definition put_all :: "'q \<Rightarrow> Job list \<Rightarrow> 'q" where
  "put_all q js = foldl (\<lambda>q j. fst (put q j)) q js"

lemma put_all_simps [simp]:
  "put_all q [] = q" "put_all q (j # js) = put_all (fst (put q j)) js"
  by (simp_all add: put_all_def)

lemma put_all_snoc: "put_all q (js @ [j]) = fst (put (put_all q js) j)"
  by (simp add: put_all_def)

text \<open>The holder of a unit only ever changes to a claim that beats it.\<close>

lemma put_keeps_holder:
  "lookup q u = Some m \<Longrightarrow> \<not> (job_unit j = u \<and> wins j m) \<Longrightarrow> lookup (fst (put q j)) u = Some m"
  using lookup_put_other lookup_put_some by (cases "u = job_unit j") auto

lemma put_all_keeps_holder:
  "lookup q u = Some m \<Longrightarrow> (\<And>j. j \<in> set js \<Longrightarrow> job_unit j = u \<Longrightarrow> \<not> wins j m) \<Longrightarrow>
     lookup (put_all q js) u = Some m"
  by (induction js arbitrary: q) (auto simp: put_keeps_holder)

lemma put_all_other:
  "u \<notin> job_unit ` set js \<Longrightarrow> lookup (put_all q js) u = lookup q u"
  by (induction js arbitrary: q) (auto simp: lookup_put_other)

end

lemma keys_merged_submit:
  "set (map fst (merged (fst (submit q j)))) = insert (job_unit j) (set (map fst (merged q)))"
  by (force simp: submit_def split: option.split dest: map_of_SomeD)

lemma target_of_submit:
  "target_of (fst (submit q j)) u =
     (if u \<noteq> job_unit j then target_of q u
      else case target_of q u of
        None \<Rightarrow> Some (holder j) | Some m \<Rightarrow> Some (if wins j m then holder j else m))"
  by (auto simp: submit_def target_of_def map_add_def map_of_set_first split: option.splits)

lemma snd_submit:
  "snd (submit q j) \<longleftrightarrow> (case target_of q (job_unit j) of None \<Rightarrow> True | Some m \<Rightarrow> wins j m)"
  by (simp add: submit_def target_of_def split: option.split)

lemma target_of_forget: "target_of (forget q u) v = (if v = u then None else target_of q v)"
  by (simp add: target_of_def forget_def map_of_retain)

interpretation job_queue: target_store target_of submit forget
  by unfold_locales (simp_all add: target_of_submit snd_submit target_of_forget)

text \<open>The queue holds at most one entry per unit.\<close>

definition wf_queue :: "JobQueue \<Rightarrow> bool" where
  "wf_queue q \<longleftrightarrow> distinct (map fst (merged q))"

lemma wf_empty_queue [wf_intros]: "wf_queue empty_queue"
  by (simp add: wf_queue_def empty_queue_def)

lemma wf_submit [wf_intros]: "wf_queue q \<Longrightarrow> wf_queue (fst (submit q j))"
  by (auto simp: wf_queue_def submit_def map_of_eq_None_iff split: option.split)

lemma wf_forget [wf_intros]: "wf_queue q \<Longrightarrow> wf_queue (forget q u)"
  by (auto simp: wf_queue_def forget_def distinct_map_filter)

lemma wins_supersedes:
  "wins j (holder k) = supersedes j k"
  by (auto simp: wins_def holder_def supersedes_def)

definition submit_all :: "JobQueue \<Rightarrow> Job list \<Rightarrow> JobQueue" where
  "submit_all q js = foldl (\<lambda>q j. fst (submit q j)) q js"

lemma submit_all_put_all: "submit_all q js = job_queue.put_all q js"
  by (simp add: submit_all_def job_queue.put_all_def)

lemma submit_all_snoc: "submit_all q (js @ [j]) = fst (submit (submit_all q js) j)"
  by (simp add: submit_all_def)

text \<open>\<open>supersedes\<close> is a strict weak order: requests are compared by source, then by time.\<close>

lemma supersedes_asym: "supersedes j k \<Longrightarrow> \<not> supersedes k j"
  by (auto simp: supersedes_def split: if_splits)

lemma supersedes_neg_trans: "supersedes j i \<Longrightarrow> \<not> supersedes k i \<Longrightarrow> supersedes j k"
  by (auto simp: supersedes_def split: if_splits)

text \<open>The position of the request that holds a unit: the first of the requests none other beats.\<close>

definition holds_at :: "Job list \<Rightarrow> UnitName \<Rightarrow> nat \<Rightarrow> bool" where
  "holds_at js u i \<longleftrightarrow> i < length js \<and> job_unit (js ! i) = u \<and>
     (\<forall>k < length js. job_unit (js ! k) = u \<longrightarrow> \<not> supersedes (js ! k) (js ! i)) \<and>
     (\<forall>k < i. job_unit (js ! k) = u \<longrightarrow> supersedes (js ! i) (js ! k))"

lemma holds_at_snoc_old:
  "holds_at js u i \<Longrightarrow> \<not> (job_unit j = u \<and> supersedes j (js ! i)) \<Longrightarrow> holds_at (js @ [j]) u i"
  by (auto simp: holds_at_def nth_append less_Suc_eq)

lemma holds_at_snoc_new:
  assumes "job_unit j = u"
    and "\<And>k. k < length js \<Longrightarrow> job_unit (js ! k) = u \<Longrightarrow> supersedes j (js ! k)"
  shows "holds_at (js @ [j]) u (length js)"
  using assms supersedes_asym by (auto simp: holds_at_def nth_append less_Suc_eq)

lemma submit_all_holds_at:
  "case target_of (submit_all empty_queue js) u of
     None \<Rightarrow> u \<notin> job_unit ` set js
   | Some m \<Rightarrow> \<exists>i. holds_at js u i \<and> m = holder (js ! i)"
proof (induction js rule: rev_induct)
  case Nil
  then show ?case by (simp add: submit_all_def target_of_def empty_queue_def)
next
  case (snoc j js)
  show ?case
  proof (cases "target_of (submit_all empty_queue js) u")
    case None
    with snoc have no: "u \<notin> job_unit ` set js" by simp
    show ?thesis
    proof (cases "job_unit j = u")
      case True
      then have "holds_at (js @ [j]) u (length js)"
        using no by (intro holds_at_snoc_new) (metis, metis image_eqI nth_mem)
      with True None show ?thesis
        by (auto simp: submit_all_snoc target_of_submit intro!: exI [of _ "length js"])
    next
      case False
      with None no show ?thesis by (auto simp: submit_all_snoc target_of_submit)
    qed
  next
    case (Some m)
    with snoc obtain i where i: "holds_at js u i" and m: "m = holder (js ! i)" by auto
    then have len: "i < length js" by (simp add: holds_at_def)
    show ?thesis
    proof (cases "job_unit j = u \<and> supersedes j (js ! i)")
      case True
      then have "holds_at (js @ [j]) u (length js)"
        using i supersedes_neg_trans by (intro holds_at_snoc_new) (auto simp: holds_at_def)
      with True Some m show ?thesis
        by (auto simp: submit_all_snoc target_of_submit wins_supersedes intro!: exI [of _ "length js"])
    next
      case False
      from holds_at_snoc_old [OF i False] False Some m len show ?thesis
        by (auto simp: submit_all_snoc target_of_submit wins_supersedes nth_append intro!: exI [of _ i])
    qed
  qed
qed

lemma wf_submit_all: "wf_queue q \<Longrightarrow> wf_queue (submit_all q js)"
  by (induction js rule: rev_induct) (auto simp: submit_all_snoc intro: wf_intros, simp add: submit_all_def)

lemma keys_submit_all:
  "fst ` set (merged (submit_all q js)) = fst ` set (merged q) \<union> job_unit ` set js"
proof (induction js rule: rev_induct)
  case (snoc j js)
  then show ?case using keys_merged_submit [of "submit_all q js" j] by (simp add: submit_all_snoc)
qed (simp add: submit_all_def)

section \<open>Properties\<close>

text \<open>
  Property C26. The merge rule: after any sequence of submissions, a unit has a target exactly if some
  request named it, and the request that holds it is the earliest submitted one among those that no
  other request supersedes - priority of the source first, timestamp second.
\<close>

theorem submit_all_best:
  "case target_of (submit_all empty_queue js) u of
     None \<Rightarrow> (\<forall>j \<in> set js. job_unit j \<noteq> u)
   | Some m \<Rightarrow> \<exists>i < length js. job_unit (js ! i) = u \<and> m = holder (js ! i) \<and>
       (\<forall>k < length js. job_unit (js ! k) = u \<longrightarrow> \<not> supersedes (js ! k) (js ! i)) \<and>
       (\<forall>k < i. job_unit (js ! k) = u \<longrightarrow> supersedes (js ! i) (js ! k))"
  using submit_all_holds_at [where js = js and u = u] by (auto simp: holds_at_def split: option.splits)

theorem submit_all_best_witness:
  "mt_target (the (target_of (submit_all empty_queue
     [new_job (UnitName ''a.service'' Service) Stopped ShutdownStop 10,
      new_job (UnitName ''a.service'' Service) Started UserStart 20])
     (UnitName ''a.service'' Service))) = Stopped"
proof -
  let ?u = "UnitName ''a.service'' Service"
  let ?js = "[new_job ?u Stopped ShutdownStop 10, new_job ?u Started UserStart 20]"
  have "target_of (submit_all empty_queue ?js) ?u \<noteq> None"
    using submit_all_best [where js = ?js and u = ?u] by (auto simp: new_job_def split: option.splits)
  moreover have "supersedes (?js ! 0) (?js ! 1)"
    by (simp add: supersedes_def new_job_def less_RequestSource_def)
  ultimately show ?thesis
    using submit_all_best [where js = ?js and u = ?u]
    by (auto simp: new_job_def holder_def less_Suc_eq split: option.splits)
qed

text \<open>
  Shutdown wins: once a shutdown stop holds a unit's target, no sequence of later
  requests - whatever their timestamps - makes the queue ask for a spawn of that unit, provided
  shutdown requests are stops.
\<close>

theorem shutdown_stop_sticks:
  assumes "target_of q u = Some m" and "mt_source m = ShutdownStop" and "mt_target m = Stopped"
    and "\<forall>j \<in> set js. job_source j = ShutdownStop \<longrightarrow> job_target j = Stopped"
  shows "(\<exists>m'. target_of (submit_all q js) u = Some m' \<and> mt_target m' = Stopped) \<and>
    (\<forall>actual eff. reconcile (submit_all q js) u actual = Some eff \<longrightarrow> \<not> spawns eff)"
proof -
  have "\<exists>m'. target_of (submit_all q js) u = Some m' \<and> mt_target m' = Stopped \<and>
      mt_source m' = ShutdownStop"
    using assms(4)
  proof (induction js rule: rev_induct)
    case Nil
    then show ?case using assms(1-3) by (simp add: submit_all_def)
  next
    case (snoc j js)
    then obtain m' where m': "target_of (submit_all q js) u = Some m'"
      "mt_target m' = Stopped" "mt_source m' = ShutdownStop" by auto
    have "job_source j = ShutdownStop" if "wins j m'"
      using that m'(3) by (cases "job_source j") (auto simp: wins_def less_RequestSource_def)
    with m' snoc.prems show ?case
      by (auto simp: submit_all_snoc target_of_submit holder_def)
  qed
  then show ?thesis
    by (auto simp: reconcile_def spawns_def split: UnitState.splits)
qed

theorem shutdown_stop_sticks_witness:
  "\<exists>m'. target_of (submit_all
      (submit_all empty_queue [new_job (UnitName ''a.service'' Service) Stopped ShutdownStop 1])
      [new_job (UnitName ''a.service'' Service) Started UserStart 9])
     (UnitName ''a.service'' Service) = Some m' \<and> mt_target m' = Stopped"
proof -
  let ?u = "UnitName ''a.service'' Service"
  let ?q = "submit_all empty_queue [new_job ?u Stopped ShutdownStop 1]"
  have h: "target_of ?q ?u = Some (holder (new_job ?u Stopped ShutdownStop 1))"
    by (simp add: submit_all_def submit_def empty_queue_def target_of_def new_job_def)
  show ?thesis
    using shutdown_stop_sticks [OF h, of "[new_job ?u Started UserStart 9]"]
    by (simp add: holder_def new_job_def)
qed

text \<open>
  The action the queue derives is the one the state machine defines: \<open>reconcile\<close>
  returns, for every target and every actual state, exactly the effect of the corresponding start or
  stop event in the transition table, and nothing exactly when the table refuses the event or nobody
  asked. The two tables cannot drift apart.
\<close>

theorem reconcile_agrees_with_transition:
  "reconcile q u actual =
     (case target_of q u of
        None \<Rightarrow> None
      | Some m \<Rightarrow>
          (case transition actual (case mt_target m of Started \<Rightarrow> Start | Stopped \<Rightarrow> Stop) policy kind of
             Inl _ \<Rightarrow> None
           | Inr t \<Rightarrow> Some (tr_effect t)))"
  by (cases actual)
     (auto simp: reconcile_def transition_def transition_cell_def split: option.split JobTarget.split)

text \<open>
  The queue never grows with the number of requests: after any submissions it holds
  exactly one entry per unit that was named, and \<open>targets\<close> lists those entries once each, sorted.
\<close>

theorem submit_all_bounded:
  "queue_len (submit_all empty_queue js) = card (job_unit ` set js) \<and>
   distinct (map fst (queue_targets (submit_all empty_queue js))) \<and>
   sorted (map fst (queue_targets (submit_all empty_queue js))) \<and>
   set (queue_targets (submit_all empty_queue js)) =
     {(u, m). target_of (submit_all empty_queue js) u = Some m}"
proof -
  let ?q = "submit_all empty_queue js"
  have wf: "distinct (map fst (merged ?q))"
    using wf_submit_all [OF wf_empty_queue] by (simp add: wf_queue_def)
  have "queue_len ?q = card (fst ` set (merged ?q))"
    using distinct_card [OF wf] by (simp add: queue_len_def)
  moreover have "mset (map fst (queue_targets ?q)) = mset (map fst (merged ?q))"
    by (simp add: queue_targets_def)
  then have "distinct (map fst (queue_targets ?q))"
    using wf by (metis mset_eq_imp_distinct_iff)
  moreover have "set (queue_targets ?q) = {(u, m). target_of ?q u = Some m}"
    using map_of_eq_Some_iff [OF wf] by (auto simp: queue_targets_def target_of_def)
  ultimately show ?thesis
    by (simp add: keys_submit_all empty_queue_def queue_targets_def)
qed

end
