(* ===== verification/Restart.thy ===== *)
theory Restart
  imports Job_Queue
begin

text \<open>
  Restart backoff and the start-limit breaker (\<open>rinit-core/src/unit/restart.rs\<close>): the xorshift
  jitter on 64-bit words, the per-unit bookkeeping \<open>BackoffState\<close> and its operations. The breaker
  keeps a sliding window trimmed to \<open>burst\<close> entries; it is proved to decide like a reference
  that remembers every failure.
\<close>

unbundle bit_operations_syntax

section \<open>Jitter\<close>

type_synonym u64 = "64 word"

definition BACKOFF_EXPONENT_CAP :: nat where
  "BACKOFF_EXPONENT_CAP = 5"

definition as_millis :: "duration \<Rightarrow> nat" where
  "as_millis d = sat_add u64_max (sat_mul u64_max (as_secs d) 1000) (subsec_millis d)"

definition jitter_new :: "u64 \<Rightarrow> u64" where
  "jitter_new seed = (if seed = 0 then 0x9E3779B97F4A7C15 else seed)"

definition xorshift :: "u64 \<Rightarrow> u64" where
  "xorshift x0 =
     (let x1 = x0 XOR drop_bit 12 x0;
          x2 = x1 XOR push_bit 25 x1;
          x3 = x2 XOR drop_bit 27 x2
      in x3)"

text \<open>Returns the new generator state and the value below \<open>bound\<close>.\<close>

definition next_below :: "u64 \<Rightarrow> nat \<Rightarrow> u64 \<times> nat" where
  "next_below x bound =
     (if bound = 0 then (x, 0)
      else (xorshift x, unat (xorshift x * 0x2545F4914F6CDD1D) mod bound))"

section \<open>The bookkeeping\<close>

record BackoffState =
  bo_base :: duration
  consecutive :: nat
  window :: "millis list"
  burst :: nat
  interval :: duration
  became_active_at :: "millis option"
  jitter :: u64

definition backoff_new :: "duration \<Rightarrow> nat \<Rightarrow> duration \<Rightarrow> u64 \<Rightarrow> BackoffState" where
  "backoff_new bs br iv seed =
     \<lparr>bo_base = bs, consecutive = 0, window = [], burst = max br 1, interval = iv,
      became_active_at = None, jitter = jitter_new seed\<rparr>"

text \<open>\<open>while window.len() > n { window.pop_front() }\<close>\<close>

fun pop_to :: "nat \<Rightarrow> 'a list \<Rightarrow> 'a list" where
  "pop_to n [] = []"
| "pop_to n (x # xs) = (if length (x # xs) > n then pop_to n xs else x # xs)"

definition reconfigure :: "BackoffState \<Rightarrow> duration \<Rightarrow> nat \<Rightarrow> duration \<Rightarrow> BackoffState" where
  "reconfigure b bs br iv =
     b\<lparr>bo_base := bs, burst := max br 1, interval := iv, window := pop_to (max br 1) (window b)\<rparr>"

definition on_active :: "BackoffState \<Rightarrow> millis \<Rightarrow> BackoffState" where
  "on_active b now = b\<lparr>became_active_at := Some now\<rparr>"

definition has_been_stable_since :: "BackoffState \<Rightarrow> millis \<Rightarrow> bool" where
  "has_been_stable_since b now = (case became_active_at b of
      None \<Rightarrow> False
    | Some t \<Rightarrow> if interval b = 0 then True else now - t \<ge> as_millis (interval b))"

definition next_delay :: "BackoffState \<Rightarrow> BackoffState \<times> duration" where
  "next_delay b =
     (let base_ms = as_millis (bo_base b);
          exponent = min (consecutive b - 1) BACKOFF_EXPONENT_CAP;
          factor = (if exponent < 64 then 2 ^ exponent else u64_max);
          scaled = min (sat_mul u64_max base_ms factor)
                       (sat_mul u64_max base_ms (2 ^ BACKOFF_EXPONENT_CAP));
          jitter_max = base_ms div 4;
          (x, j) = next_below (jitter b) jitter_max
      in (b\<lparr>jitter := x\<rparr>, from_millis (sat_add u64_max scaled j)))"

text \<open>
  \<open>on_failure\<close>: reset after a stable run, count, then either the disabled breaker's delay or the
  window: push the failure, pop the expired entries off the front, pop down to \<open>burst\<close> entries.
\<close>

definition count_failure :: "BackoffState \<Rightarrow> millis \<Rightarrow> BackoffState" where
  "count_failure b now =
     (let b1 = (if has_been_stable_since b now then b\<lparr>consecutive := 0, window := []\<rparr> else b)
      in b1\<lparr>became_active_at := None, consecutive := sat_add u32_max (consecutive b1) 1\<rparr>)"

definition slide_window :: "nat \<Rightarrow> nat \<Rightarrow> millis list \<Rightarrow> millis \<Rightarrow> millis list" where
  "slide_window br width w now =
     pop_to br (dropWhile (\<lambda>front. now - front \<ge> width) (w @ [now]))"

definition on_failure :: "BackoffState \<Rightarrow> millis \<Rightarrow> BackoffState \<times> duration option" where
  "on_failure b now =
     (let b2 = count_failure b now;
          width = as_millis (interval b2)
      in if width = 0 then apsnd Some (next_delay b2)
         else let b3 = b2\<lparr>window := slide_window (burst b2) width (window b2) now\<rparr>
           in if length (window b3) mod 2 ^ 32 \<ge> burst b3 then (b3, None)
              else apsnd Some (next_delay b3))"

definition consecutive_restarts :: "BackoffState \<Rightarrow> nat" where
  "consecutive_restarts b = consecutive b"

definition failures_in_window :: "BackoffState \<Rightarrow> nat" where
  "failures_in_window b = length (window b)"

definition is_tripped :: "BackoffState \<Rightarrow> bool" where
  "is_tripped b \<longleftrightarrow>
     as_millis (interval b) \<noteq> 0 \<and> burst b \<noteq> 0 \<and> length (window b) mod 2 ^ 32 \<ge> burst b"

definition backoff_reset :: "BackoffState \<Rightarrow> BackoffState" where
  "backoff_reset b = b\<lparr>consecutive := 0, window := [], became_active_at := None\<rparr>"

section \<open>The jitter generator\<close>

lemma xor_drop_bit_eq_0: "x XOR drop_bit n x = 0 \<Longrightarrow> 0 < n \<Longrightarrow> x = 0" for x :: "'a::len word"
proof -
  assume "x XOR drop_bit n x = 0" and n: "0 < n"
  then have "x = drop_bit n x" by (metis word_bw_same(3) xor.assoc xor.right_neutral xor_self_eq)
  then have "unat x = unat x div 2 ^ n" by (metis unat_drop_bit_eq drop_bit_eq_div)
  then have "unat x = 0"
    using n by (metis div_less_dividend div_eq_dividend_iff one_less_power not_less_zero
        one_less_numeral_iff semiring_norm(76) gr_zeroI less_irrefl)
  then show ?thesis by (simp add: unat_eq_0)
qed

lemma xor_push_bit_eq_0: "x XOR push_bit n x = 0 \<Longrightarrow> 0 < n \<Longrightarrow> x = 0" for x :: "'a::len word"
proof -
  assume a: "x XOR push_bit n x = 0" and n: "0 < n"
  then have eq: "x = push_bit n x" by (metis xor.assoc xor.right_neutral xor_self_eq)
  have "\<not> bit x k" for k
  proof (induction k rule: less_induct)
    case (less k)
    show ?case
    proof
      assume b: "bit x k"
      then have "bit (push_bit n x) k" using eq by simp
      then have "n \<le> k" "bit x (k - n)" by (auto simp: bit_push_bit_iff)
      with less.IH [of "k - n"] n show False by simp
    qed
  qed
  then show ?thesis by (intro bit_eqI) simp
qed

lemma xorshift_nonzero: "x \<noteq> 0 \<Longrightarrow> xorshift x \<noteq> 0"
  unfolding xorshift_def Let_def
  using xor_drop_bit_eq_0 [of _ 12] xor_drop_bit_eq_0 [of _ 27] xor_push_bit_eq_0 [of _ 25]
  by (metis zero_less_numeral)

lemma next_below_bound: "0 < bound \<Longrightarrow> snd (next_below x bound) < bound"
  by (simp add: next_below_def)

lemma next_below_nonzero: "x \<noteq> 0 \<Longrightarrow> fst (next_below x bound) \<noteq> 0"
  by (simp add: next_below_def xorshift_nonzero)

section \<open>The window\<close>

lemma pop_to_drop: "pop_to n xs = drop (length xs - n) xs"
  by (induction n xs rule: pop_to.induct) (auto simp: Suc_diff_le)

lemma length_pop_to [simp]: "length (pop_to n xs) = min n (length xs)"
  by (simp add: pop_to_drop)

lemma set_pop_to: "set (pop_to n xs) \<subseteq> set xs"
  by (simp add: pop_to_drop set_drop_subset)

lemma sorted_pop_to: "sorted xs \<Longrightarrow> sorted (pop_to n xs)"
  by (simp add: pop_to_drop sorted_wrt_drop)

lemma sorted_le_last: "sorted xs \<Longrightarrow> x \<in> set xs \<Longrightarrow> x \<le> last xs"
  by (induction xs) auto

lemma pop_to_append: "n \<le> length ys \<Longrightarrow> pop_to n (xs @ ys) = pop_to n ys"
  by (simp add: pop_to_drop)

lemma dropWhile_sorted:
  fixes xs :: "nat list"
  shows "sorted xs \<Longrightarrow> (\<And>a b. a \<le> b \<Longrightarrow> P b \<Longrightarrow> P a) \<Longrightarrow> dropWhile P xs = filter (\<lambda>x. \<not> P x) xs"
  by (induction xs) (auto intro!: filter_True [symmetric])

text \<open>
  Trimming a sorted list before or after keeping its fresh entries comes to the same: if an entry
  that was trimmed is fresh, every entry that was kept is.
\<close>

lemma pop_to_filter_pop_to:
  fixes ys :: "nat list"
  assumes "sorted ys" and up: "\<And>a b. a \<le> b \<Longrightarrow> Q a \<Longrightarrow> Q b"
  shows "pop_to n (filter Q (pop_to n ys) @ zs) = pop_to n (filter Q ys @ zs)"
proof -
  define pre suf where "pre = take (length ys - n) ys" and "suf = drop (length ys - n) ys"
  have ys: "ys = pre @ suf" and suf: "pop_to n ys = suf"
    by (simp_all add: pre_def suf_def pop_to_drop)
  show ?thesis
  proof (cases "filter Q pre = []")
    case True
    then show ?thesis unfolding suf by (simp add: ys)
  next
    case False
    then obtain p where p: "p \<in> set pre" "Q p" by (auto simp: filter_empty_conv)
    have "filter Q suf = suf"
      using p assms(1) up unfolding ys sorted_append by (intro filter_True) blast
    moreover have "n \<le> length suf"
      using p(1) by (cases "length ys \<le> n") (auto simp: pre_def suf_def)
    ultimately show ?thesis
      unfolding suf using pop_to_append [of n "suf @ zs" "filter Q pre"] by (simp add: ys)
  qed
qed

text \<open>The failures of a history that are still inside the window at a given time.\<close>

definition recent :: "nat \<Rightarrow> millis \<Rightarrow> millis list \<Rightarrow> millis list" where
  "recent width now hs = filter (\<lambda>t. now - t < width) hs"

lemma slide_window_recent:
  assumes "sorted hs" and "\<forall>t \<in> set hs. t \<le> l" and "l \<le> now" and "0 < width"
    and "w = pop_to br (recent width l hs)"
  shows "slide_window br width w now = pop_to br (recent width now (hs @ [now]))"
proof -
  let ?Q = "\<lambda>t. now - t < width"
  have "sorted w"
    using assms(1,5) by (simp add: recent_def sorted_pop_to sorted_wrt_filter)
  moreover have "t \<le> now" if "t \<in> set w" for t
    using that assms(2,3,5) set_pop_to [of br "recent width l hs"] by (force simp: recent_def)
  ultimately have w: "sorted w" "\<forall>t \<in> set w. t \<le> now" by blast+
  have "dropWhile (\<lambda>t. now - t \<ge> width) (w @ [now]) = filter ?Q (w @ [now])"
    using dropWhile_sorted [of "w @ [now]" "\<lambda>t. now - t \<ge> width"] w
    by (auto simp: sorted_append not_le)
  then have "slide_window br width w now = pop_to br (filter ?Q w @ [now])"
    using assms(4) by (simp add: slide_window_def)
  also have "\<dots> = pop_to br (filter ?Q (recent width l hs) @ [now])"
    unfolding assms(5) using assms(1)
    by (intro pop_to_filter_pop_to) (auto simp: recent_def sorted_wrt_filter)
  also have "filter ?Q (recent width l hs) = filter ?Q hs"
    using assms(2,3) by (auto simp: recent_def intro!: filter_cong)
  finally show ?thesis using assms(4) by (simp add: recent_def)
qed

section \<open>The invariant of the bookkeeping\<close>

definition wf_backoff :: "BackoffState \<Rightarrow> bool" where
  "wf_backoff b \<longleftrightarrow> 1 \<le> burst b \<and> burst b \<le> u32_max \<and> consecutive b \<le> u32_max \<and>
     length (window b) \<le> burst b \<and> jitter b \<noteq> 0"

lemma next_delay_frame:
  "fst (next_delay b) = b\<lparr>jitter := fst (next_below (jitter b) (as_millis (bo_base b) div 4))\<rparr>"
  by (simp add: next_delay_def Let_def split: prod.split)

lemma count_failure_frame [simp]:
  "bo_base (count_failure b now) = bo_base b" "burst (count_failure b now) = burst b"
  "interval (count_failure b now) = interval b" "jitter (count_failure b now) = jitter b"
  "became_active_at (count_failure b now) = None"
  by (simp_all add: count_failure_def Let_def)

lemma count_failure_window:
  "window (count_failure b now) = (if has_been_stable_since b now then [] else window b)"
  by (simp add: count_failure_def Let_def)

lemma count_failure_consecutive:
  "consecutive (count_failure b now) =
     (if has_been_stable_since b now then 1 else min (consecutive b + 1) u32_max)"
  by (simp add: count_failure_def Let_def sat_add_def u32_max_def)

lemma on_failure_fst:
  "fst (on_failure b now) =
     (let b2 = count_failure b now; width = as_millis (interval b);
          b3 = (if width = 0 then b2
                else b2\<lparr>window := slide_window (burst b) width (window b2) now\<rparr>)
      in if snd (on_failure b now) = None then b3
         else b3\<lparr>jitter := fst (next_below (jitter b) (as_millis (bo_base b) div 4))\<rparr>)"
  by (simp add: on_failure_def Let_def next_delay_frame)

lemma on_failure_frame [simp]:
  "bo_base (fst (on_failure b now)) = bo_base b" "burst (fst (on_failure b now)) = burst b"
  "interval (fst (on_failure b now)) = interval b"
  by (simp_all add: on_failure_fst Let_def)

lemma backoff_new_simps [simp]:
  "bo_base (backoff_new bs br iv seed) = bs" "burst (backoff_new bs br iv seed) = max br 1"
  "interval (backoff_new bs br iv seed) = iv" "window (backoff_new bs br iv seed) = []"
  "became_active_at (backoff_new bs br iv seed) = None"
  "consecutive (backoff_new bs br iv seed) = 0"
  by (simp_all add: backoff_new_def)

lemma as_millis_from_secs [simp]: "as_millis (from_secs s) = min (s * 1000) u64_max"
  by (simp add: as_millis_def as_secs_def subsec_millis_def from_secs_def sat_add_def sat_mul_def)

lemma wf_backoff_new [wf_intros]: "br \<le> u32_max \<Longrightarrow> wf_backoff (backoff_new bs br iv seed)"
  by (simp add: wf_backoff_def backoff_new_def jitter_new_def u32_max_def)

lemma wf_on_active [wf_intros]: "wf_backoff b \<Longrightarrow> wf_backoff (on_active b now)"
  by (simp add: wf_backoff_def on_active_def)

lemma wf_backoff_reset [wf_intros]: "wf_backoff b \<Longrightarrow> wf_backoff (backoff_reset b)"
  by (simp add: wf_backoff_def backoff_reset_def)

lemma wf_reconfigure [wf_intros]:
  "wf_backoff b \<Longrightarrow> br \<le> u32_max \<Longrightarrow> wf_backoff (reconfigure b bs br iv)"
  by (simp add: wf_backoff_def reconfigure_def u32_max_def)

lemma slide_window_length: "length (slide_window br width w now) \<le> br"
  by (simp add: slide_window_def)

lemma wf_on_failure [wf_intros]: "wf_backoff b \<Longrightarrow> wf_backoff (fst (on_failure b now))"
  by (auto simp: on_failure_fst Let_def wf_backoff_def count_failure_window
        count_failure_consecutive slide_window_length next_below_nonzero u32_max_def)

text \<open>The states a unit's bookkeeping can be in.\<close>

inductive backoff_reachable :: "BackoffState \<Rightarrow> bool" where
  new: "br \<le> u32_max \<Longrightarrow> backoff_reachable (backoff_new bs br iv seed)"
| active: "backoff_reachable b \<Longrightarrow> backoff_reachable (on_active b now)"
| failure: "backoff_reachable b \<Longrightarrow> backoff_reachable (fst (on_failure b now))"
| reset: "backoff_reachable b \<Longrightarrow> backoff_reachable (backoff_reset b)"
| reconf: "backoff_reachable b \<Longrightarrow> br \<le> u32_max \<Longrightarrow> backoff_reachable (reconfigure b bs br iv)"

lemma backoff_reachable_wf: "backoff_reachable b \<Longrightarrow> wf_backoff b"
  by (induction rule: backoff_reachable.induct) (auto intro: wf_intros)

text \<open>In well-formed states the truncating cast of the window length loses nothing.\<close>

lemma wf_window_mod: "wf_backoff b \<Longrightarrow> length (window b) mod 2 ^ 32 = length (window b)"
  by (simp add: wf_backoff_def u32_max_def)

lemma on_failure_None_iff:
  assumes "wf_backoff b"
  shows "snd (on_failure b now) = None \<longleftrightarrow> as_millis (interval b) \<noteq> 0 \<and>
    burst b \<le> length (slide_window (burst b) (as_millis (interval b)) (window (count_failure b now)) now)"
proof -
  have "length (slide_window (burst b) w v now) < 2 ^ 32" for w v
    using slide_window_length [of "burst b" w v now] assms by (simp add: wf_backoff_def u32_max_def)
  then show ?thesis by (simp add: on_failure_def Let_def)
qed

text \<open>The life of a unit as its bookkeeping sees it: it becomes active, it fails.\<close>

datatype BackoffEvent = BecameActive millis | HasFailed millis

fun event_time :: "BackoffEvent \<Rightarrow> millis" where
  "event_time (BecameActive t) = t"
| "event_time (HasFailed t) = t"

fun happen :: "BackoffState \<Rightarrow> BackoffEvent \<Rightarrow> BackoffState" where
  "happen b (BecameActive t) = on_active b t"
| "happen b (HasFailed t) = fst (on_failure b t)"

definition live :: "BackoffState \<Rightarrow> BackoffEvent list \<Rightarrow> BackoffState" where
  "live b es = foldl happen b es"

definition failures :: "BackoffEvent list \<Rightarrow> millis list" where
  "failures es = concat (map (\<lambda>e. case e of HasFailed t \<Rightarrow> [t] | BecameActive _ \<Rightarrow> []) es)"

lemma live_snoc: "live b (es @ [e]) = happen (live b es) e"
  by (simp add: live_def)

lemma failures_snoc: "failures (es @ [HasFailed t]) = failures es @ [t]" "failures (es @ [BecameActive t]) = failures es"
  by (simp_all add: failures_def)

lemma failures_times: "set (failures es) \<subseteq> event_time ` set es"
  by (auto simp: failures_def split: BackoffEvent.splits) (metis event_time.simps(2) image_iff)

lemma sorted_failures: "sorted (map event_time es) \<Longrightarrow> sorted (failures es)"
proof (induction es)
  case (Cons e es)
  then show ?case using failures_times [of es] by (cases e) (auto simp: failures_def)
qed (simp add: failures_def)

text \<open>
  A failure after a stable run clears the window, and nothing is lost by it: what failed before the run
  had expired anyway.
\<close>

lemma window_after_failure:
  assumes "0 < as_millis (interval b)" "sorted hs" "\<forall>h \<in> set hs. h \<le> now"
    and "window b = pop_to (burst b) (recent (as_millis (interval b)) (last (0 # hs)) hs)"
    and "\<And>t. became_active_at b = Some t \<Longrightarrow> \<forall>h \<in> set hs. h \<le> t"
  shows "slide_window (burst b) (as_millis (interval b)) (window (count_failure b now)) now =
      pop_to (burst b) (recent (as_millis (interval b)) now (hs @ [now]))"
proof (cases "has_been_stable_since b now")
  case True
  then obtain t where t: "became_active_at b = Some t" "as_millis (interval b) \<le> now - t"
    using assms(1) by (auto simp: has_been_stable_since_def as_millis_def as_secs_def subsec_millis_def
        sat_add_def sat_mul_def split: option.splits if_splits)
  with assms(5) have "recent (as_millis (interval b)) now hs = []"
    by (fastforce simp: recent_def filter_empty_conv)
  then have "recent (as_millis (interval b)) now (hs @ [now]) = [now]" using assms(1) by (simp add: recent_def)
  with True assms(1) show ?thesis by (simp add: count_failure_window slide_window_def)
next
  case False
  have "last (0 # hs) \<le> now" "\<forall>h \<in> set hs. h \<le> last (0 # hs)"
    using assms(2,3) by (auto simp: sorted_le_last)
  with False assms(1,2,4) show ?thesis
    by (intro slide_window_recent [where l = "last (0 # hs)"]) (simp_all add: count_failure_window)
qed

lemma live_tracks:
  assumes "wf_backoff b" and "window b = []" and "became_active_at b = None"
    and "0 < as_millis (interval b)" and "sorted (map event_time es)"
  shows "wf_backoff (live b es) \<and> interval (live b es) = interval b \<and> burst (live b es) = burst b
    \<and> window (live b es) = pop_to (burst b) (recent (as_millis (interval b)) (last (0 # failures es)) (failures es))
    \<and> (\<forall>t. became_active_at (live b es) = Some t \<longrightarrow> (\<forall>h \<in> set (failures es). h \<le> t))"
  using assms(5)
proof (induction es rule: rev_induct)
  case Nil
  then show ?case using assms(1-3) by (simp add: live_def failures_def recent_def)
next
  case (snoc e es)
  have s: "sorted (map event_time es)" "\<forall>h \<in> set (failures es). h \<le> event_time e" "sorted (failures es)"
    using snoc.prems failures_times [of es] sorted_failures [of es] by (auto simp: sorted_append)
  note IH = snoc.IH [OF s(1)]
  show ?case
  proof (cases e)
    case (BecameActive t)
    with IH s(2) show ?thesis by (simp add: live_snoc failures_snoc on_active_def wf_backoff_def)
  next
    case (HasFailed t)
    have "slide_window (burst b) (as_millis (interval b)) (window (count_failure (live b es) t)) t =
        pop_to (burst b) (recent (as_millis (interval b)) t (failures es @ [t]))"
      using window_after_failure [of "live b es" "failures es" t] IH assms(4) s HasFailed by simp
    moreover have "wf_backoff (fst (on_failure (live b es) t))" using IH by (intro wf_intros) simp
    ultimately show ?thesis
      using IH assms(4) HasFailed by (simp add: live_snoc failures_snoc on_failure_fst Let_def)
  qed
qed

section \<open>Properties\<close>

text \<open>
  The restart delay: whenever a failure is retried, the delay is a whole number of
  milliseconds that lies between the backoff of the current attempt - the base doubled per
  consecutive failure, at most five times - and that value plus a quarter of the base. Jitter is
  only ever added, and where 64 bits do not suffice the delay saturates instead of wrapping.
\<close>

theorem on_failure_delay_bounds:
  assumes "on_failure b now = (b', Some d)" and "wf_backoff b"
  shows "\<exists>ms. d = from_millis ms \<and> ms \<le> u64_max \<and>
    min (as_millis (bo_base b) * 2 ^ min (consecutive b' - 1) 5) u64_max \<le> ms \<and>
    ms \<le> as_millis (bo_base b) * 2 ^ min (consecutive b' - 1) 5 + as_millis (bo_base b) div 4"
proof -
  define base where "base = as_millis (bo_base b)"
  define n where "n = min (consecutive b' - 1) 5"
  define j where "j = snd (next_below (jitter b) (base div 4))"
  have j: "j \<le> base div 4"
    using next_below_bound [of "base div 4" "jitter b"] by (cases "base div 4 = 0") (auto simp: j_def next_below_def)
  have "b' = fst (on_failure b now)" "snd (on_failure b now) \<noteq> None" using assms(1) by simp_all
  then have c: "consecutive b' = consecutive (count_failure b now)"
    by (simp add: on_failure_fst Let_def)
  let ?scaled = "min (sat_mul u64_max base (2 ^ n)) (sat_mul u64_max base 32)"
  have "sat_mul u64_max base (2 ^ n) \<le> sat_mul u64_max base 32"
    using power_increasing [of n 5 "2::nat"] by (intro sat_mul_mono) (simp add: n_def)
  then have sc: "?scaled = min (base * 2 ^ n) u64_max" by (simp add: sat_mul_def)
  have "d = from_millis (sat_add u64_max ?scaled j)"
    using assms(1) c
    by (auto simp: on_failure_def Let_def next_delay_def n_def base_def j_def BACKOFF_EXPONENT_CAP_def
          split: if_splits prod.splits)
  moreover have "min (base * 2 ^ n) u64_max \<le> sat_add u64_max ?scaled j"
    "sat_add u64_max ?scaled j \<le> base * 2 ^ n + base div 4"
    using j unfolding sc by (auto simp: sat_add_def)
  ultimately show ?thesis unfolding base_def [symmetric] n_def [symmetric]
    by (intro exI [of _ "sat_add u64_max ?scaled j"]) simp
qed

theorem on_failure_delay_bounds_witness:
  "\<exists>b' d. on_failure (backoff_new (from_secs 2) 5 (from_secs 10) 7) 1000 = (b', Some d) \<and>
     from_millis 2000 \<le> d \<and> d \<le> from_millis 2500"
proof -
  let ?b = "backoff_new (from_secs 2) 5 (from_secs 10) 7"
  have wf: "wf_backoff ?b" by (intro wf_intros) (simp add: u32_max_def)
  have "snd (on_failure ?b 1000) \<noteq> None"
    unfolding on_failure_None_iff [OF wf]
    by (simp add: slide_window_def count_failure_window has_been_stable_since_def u64_max_def)
  then obtain b' d where f: "on_failure ?b 1000 = (b', Some d)" by (cases "on_failure ?b 1000") auto
  then have "b' = fst (on_failure ?b 1000)" by simp
  then have c: "consecutive b' = 1"
    by (simp add: on_failure_fst Let_def count_failure_consecutive has_been_stable_since_def
          u32_max_def)
  obtain m where "d = from_millis m" "min (as_millis (bo_base ?b)) u64_max \<le> m"
    "m \<le> as_millis (bo_base ?b) + as_millis (bo_base ?b) div 4"
    using on_failure_delay_bounds [OF f wf] c by auto
  with f show ?thesis by (simp add: from_millis_def u64_max_def)
qed

text \<open>
  Property C27. The breaker's bounded window decides exactly like an unbounded history: whatever mix of
  activations and failures a unit has gone through since its bookkeeping was empty, on a monotone clock
  and with a non-zero interval, the next failure trips the breaker if and only if at least \<open>burst\<close> of
  all its failures, this one included, happened less than one interval ago. An activation as such
  forgets nothing.
\<close>

theorem breaker_decides_like_history:
  assumes "wf_backoff b" and "window b = []" and "became_active_at b = None"
    and "0 < as_millis (interval b)" and "sorted (map event_time es @ [now])"
  shows "snd (on_failure (live b es) now) = None \<longleftrightarrow>
    burst b \<le> length (filter (\<lambda>t. now - t < as_millis (interval b)) (failures es @ [now]))"
proof -
  let ?w = "as_millis (interval b)"
  have es: "sorted (map event_time es)" "\<forall>h \<in> set (failures es). h \<le> now" "sorted (failures es)"
    using assms(5) failures_times [of es] sorted_failures [of es] by (auto simp: sorted_append)
  note tr = live_tracks [OF assms(1-4) es(1)]
  have "slide_window (burst b) ?w (window (count_failure (live b es) now)) now =
      pop_to (burst b) (recent ?w now (failures es @ [now]))"
    using window_after_failure [of "live b es" "failures es" now] tr assms(4) es by simp
  then show ?thesis using tr assms(4) by (simp add: on_failure_None_iff recent_def)
qed

theorem breaker_decides_like_history_witness:
  "snd (on_failure (live (backoff_new (from_secs 1) 3 (from_secs 10) 9)
      [BecameActive 500, HasFailed 1000, BecameActive 1500, HasFailed 2000, BecameActive 2500]) 3000) = None"
proof -
  let ?b = "backoff_new (from_secs 1) 3 (from_secs 10) 9"
  have "wf_backoff ?b" by (intro wf_intros) (simp add: u32_max_def)
  then show ?thesis
    by (subst breaker_decides_like_history) (simp_all add: failures_def u64_max_def)
qed

text \<open>
  Bounded memory and a generator that cannot wedge: in every reachable state of a
  unit's bookkeeping, through any mix of failures, activations, resets and reconfigurations, the
  window holds at most \<open>burst\<close> entries and the jitter state is not zero, and a failure is refused
  exactly when the breaker then reads as tripped - never when the interval is zero.
\<close>

theorem backoff_reachable_bounded:
  assumes "backoff_reachable b"
  shows "1 \<le> burst b \<and> failures_in_window b \<le> burst b \<and> jitter b \<noteq> 0 \<and>
    (snd (on_failure b now) = None \<longleftrightarrow> is_tripped (fst (on_failure b now))) \<and>
    (as_millis (interval b) = 0 \<longrightarrow> snd (on_failure b now) \<noteq> None)"
proof -
  have wf: "wf_backoff b" by (rule backoff_reachable_wf [OF assms])
  have wf': "wf_backoff (fst (on_failure b now))" by (rule wf_on_failure [OF wf])
  have "snd (on_failure b now) = None \<longleftrightarrow> is_tripped (fst (on_failure b now))"
    using wf wf_window_mod [OF wf']
    by (auto simp: is_tripped_def on_failure_fst Let_def on_failure_None_iff wf_backoff_def)
  with wf show ?thesis by (simp add: wf_backoff_def failures_in_window_def on_failure_None_iff)
qed

theorem backoff_reachable_bounded_witness:
  "failures_in_window (fst (on_failure (backoff_new (from_secs 1) 3 (from_secs 10) 9) 5)) \<le> 3"
proof -
  let ?b = "backoff_new (from_secs 1) 3 (from_secs 10) 9"
  have "backoff_reachable (fst (on_failure ?b 5))"
    by (intro backoff_reachable.intros) (simp add: u32_max_def)
  from backoff_reachable_bounded [OF this] show ?thesis by simp
qed

text \<open>
  Only a stable run clears the failure history: the count of consecutive restarts goes
  back to one exactly when the unit had been active for at least one interval (or the interval is
  zero); otherwise a failure increments it, saturating, and a short run forgets nothing.
\<close>

theorem stable_run_resets:
  "consecutive_restarts (fst (on_failure (on_active b at') now)) =
    (if interval b = 0 \<or> as_millis (interval b) \<le> now - at' then 1
     else min (consecutive_restarts b + 1) u32_max) \<and>
   became_active_at (fst (on_failure (on_active b at') now)) = None"
  by (simp add: consecutive_restarts_def on_failure_fst Let_def count_failure_consecutive
        has_been_stable_since_def on_active_def)

end
