(* ===== verification/Unit_Lexer.thy ===== *)
theory Unit_Lexer
  imports Unit_Config
begin

text \<open>
  The lexical half of \<open>rinit-core/src/unit/parser.rs\<close>: logical lines, comments, section
  headers, entries, the tokeniser with its quoting and escapes, and the environment-file
  reader. All special characters are ASCII, so working byte by byte gives the same pieces as
  working character by character on UTF-8 text.

  The main result is that the quoting rules are complete: every list of arguments, whatever
  bytes it holds, has a spelling that the tokeniser reads back.
\<close>

section \<open>Definitions\<close>

text \<open>
  The message of a \<open>Syntax\<close> error and the reason of an \<open>InvalidValue\<close> are kept as data where
  the source renders a quoted string into them.
\<close>

datatype SyntaxMessage = ExpectedKeyValue string | MissingBracket | TrailingContent string

datatype Reason = Reason string | BadName CoreError

datatype ParseError =
    Syntax nat SyntaxMessage
  | UnknownSection nat string
  | UnknownKey nat string string
  | DuplicateKey nat string
  | EntryOutsideSection nat string
  | InvalidValue nat string string Reason
  | UnterminatedQuote nat
  | MissingExecStart string
  | TypeSuffixConflict string string string

abbreviation bslash :: char where "bslash \<equiv> CHR 0x5C"
abbreviation dquote :: char where "dquote \<equiv> CHR 0x22"
abbreviation newline :: char where "newline \<equiv> CHR 0x0A"

fun comment_scan :: "bool \<Rightarrow> bool \<Rightarrow> string \<Rightarrow> string" where
  "comment_scan quoted escaped [] = []"
| "comment_scan quoted escaped (c # s) =
     (if escaped then c # comment_scan quoted False s
      else if c = bslash then c # comment_scan quoted True s
      else if c = dquote then c # comment_scan (\<not> quoted) False s
      else if c = CHR ''#'' \<and> \<not> quoted then []
      else c # comment_scan quoted False s)"

definition comment_prefix :: "string \<Rightarrow> string" where
  "comment_prefix line = comment_scan False False line"

fun logical_loop :: "(nat \<times> string) list \<Rightarrow> string \<Rightarrow> nat \<Rightarrow> (nat \<times> string) list" where
  "logical_loop [] current start = (if current = [] then [] else [(start, current)])"
| "logical_loop ((line_no, raw) # rest) current start =
     (let code = comment_prefix (strip_cr raw);
          start' = (if current = [] then line_no else start)
      in if ends_with_char bslash (trim_end code) then
           logical_loop rest
             (current @ (case strip_suffix [bslash] (trim_end code) of Some h \<Rightarrow> h | None \<Rightarrow> code) @ '' '')
             start'
         else (start', current @ code) # logical_loop rest [] start')"

definition logical_lines :: "string \<Rightarrow> (nat \<times> string) list" where
  "logical_lines input = logical_loop (zip [1..<Suc (length (str_lines input))] (str_lines input)) [] 0"

datatype Section = SUnit | SService

definition section_str :: "Section \<Rightarrow> string" where
  "section_str s = (case s of SUnit \<Rightarrow> ''Unit'' | SService \<Rightarrow> ''Service'')"

definition section_header :: "string \<Rightarrow> nat \<Rightarrow> ParseError + Section option" where
  "section_header line line_no =
     (if \<not> starts_with_char CHR ''['' line then Inr None
      else rbind (ok_or (Syntax line_no MissingBracket) (split_once CHR '']'' (tl line)))
        (\<lambda>(nm, tail).
           if trim tail \<noteq> [] then Inl (Syntax line_no (TrailingContent tail))
           else if nm = ''Unit'' then Inr (Some SUnit)
           else if nm = ''Service'' then Inr (Some SService)
           else Inl (UnknownSection line_no nm)))"

definition split_entry :: "string \<Rightarrow> (string \<times> string) option" where
  "split_entry text =
     (case split_once CHR ''='' text of
        None \<Rightarrow> None
      | Some (k, v) \<Rightarrow>
          (let key = trim k in
           if key = [] then None
           else if \<not> is_ascii_alphabetic (hd key) \<or> \<not> list_all is_ascii_alphanumeric (tl key) then None
           else Some (key, trim v)))"

text \<open>\<open>escape\<close> returns the replacement and the text left in the iterator.\<close>

fun escape :: "string \<Rightarrow> string \<times> string" where
  "escape [] = ([bslash], [])"
| "escape (c # s) =
     ((if c = CHR ''n'' then [newline]
       else if c = CHR ''t'' then [CHR 0x09]
       else if c = CHR ''s'' then '' ''
       else if c = bslash then [bslash]
       else if c = dquote then [dquote]
       else [c]), s)"

lemma escape_shrinks: "length (snd (escape s)) \<le> length s"
  by (cases s) auto

text \<open>The loop inside a quoted part: \<open>None\<close> when the closing quote is missing.\<close>

function (sequential) quoted_part :: "string \<Rightarrow> string \<Rightarrow> (string \<times> string) option" where
  "quoted_part cur [] = None"
| "quoted_part cur (c # s) =
     (if c = dquote then Some (cur, s)
      else if c = bslash then quoted_part (cur @ fst (escape s)) (snd (escape s))
      else quoted_part (cur @ [c]) s)"
  by pat_completeness auto

termination
  by (relation "measure (length \<circ> snd)") (auto simp: escape_shrinks less_Suc_eq_le)

lemma quoted_part_shrinks: "quoted_part cur s = Some (cur', r) \<Longrightarrow> length r < length s"
proof (induction cur s rule: quoted_part.induct)
  case (2 cur c s)
  then show ?case using escape_shrinks [of s] by (auto split: if_splits)
qed simp

function (sequential) tokenize_loop ::
  "nat \<Rightarrow> string list \<Rightarrow> string \<Rightarrow> bool \<Rightarrow> string \<Rightarrow> ParseError + string list" where
  "tokenize_loop line out cur started [] = Inr (if started then out @ [cur] else out)"
| "tokenize_loop line out cur started (c # s) =
     (if c = CHR '' '' \<or> c = CHR 0x09 then
        (if started then tokenize_loop line (out @ [cur]) [] False s
         else tokenize_loop line out cur started s)
      else if c = CHR ''#'' then Inr (if started then out @ [cur] else out)
      else if c = dquote then
        (case quoted_part cur s of
           None \<Rightarrow> Inl (UnterminatedQuote line)
         | Some (cur', rest) \<Rightarrow> tokenize_loop line out cur' True rest)
      else if c = bslash then
        tokenize_loop line out (cur @ fst (escape s)) True (snd (escape s))
      else tokenize_loop line out (cur @ [c]) True s)"
  by pat_completeness auto

termination
  by (relation "measure (\<lambda>(line, out, cur, started, s). length s)")
     (auto simp: escape_shrinks less_Suc_eq_le dest: quoted_part_shrinks)

definition tokenize :: "string \<Rightarrow> nat \<Rightarrow> ParseError + string list" where
  "tokenize value line = tokenize_loop line [] [] False value"

fun join_tokens :: "string list \<Rightarrow> string" where
  "join_tokens [] = []"
| "join_tokens [t] = t"
| "join_tokens (t # ts) = t @ '' '' @ join_tokens ts"

definition env_line :: "string \<Rightarrow> (string \<times> string) option" where
  "env_line raw =
     (let line = trim (hd (split_char CHR ''#'' raw)) in
      if line = [] then None
      else (case split_once CHR ''='' line of
              None \<Rightarrow> None
            | Some (k, v) \<Rightarrow> if trim k = [] then None else Some (trim k, trim v)))"

definition parse_environment_file :: "string \<Rightarrow> (string \<times> string) list" where
  "parse_environment_file contents = List.map_filter env_line (str_lines contents)"

section \<open>Quoting is complete\<close>

text \<open>A spelling of a token: quoted, with the quote, the backslash and the line feed escaped.\<close>

fun quote_char :: "char \<Rightarrow> string" where
  "quote_char c =
     (if c = dquote then [bslash, dquote] else if c = bslash then [bslash, bslash]
      else if c = newline then [bslash, CHR ''n''] else [c])"

definition quote_token :: "string \<Rightarrow> string" where
  "quote_token t = [dquote] @ concat (map quote_char t) @ [dquote]"

definition quote_tokens :: "string list \<Rightarrow> string" where
  "quote_tokens ts = join_tokens (map quote_token ts)"

lemma quoted_part_quote: "quoted_part cur (concat (map quote_char t) @ dquote # s) = Some (cur @ t, s)"
  by (induction t arbitrary: cur) auto

lemma tokenize_loop_quote:
  "tokenize_loop line out cur started (quote_token t @ s) = tokenize_loop line out (cur @ t) True s"
  by (simp add: quote_token_def quoted_part_quote)

lemma tokenize_loop_quotes:
  "tokenize_loop line out [] False (quote_tokens ts) = Inr (out @ ts)"
proof (induction ts arbitrary: out rule: join_tokens.induct)
  case (2 t)
  show ?case using tokenize_loop_quote [of line out "[]" False t "[]"] by (simp add: quote_tokens_def)
next
  case (3 t u ts)
  then show ?case
    using tokenize_loop_quote [of line out "[]" False t] by (simp add: quote_tokens_def)
qed (simp add: quote_tokens_def)

text \<open>
  Quoting is complete: for every list of arguments, with any bytes in them, the
  quoted spelling is read back by the tokeniser as exactly that list.
\<close>

theorem tokenize_quote_tokens: "tokenize (quote_tokens ts) line = Inr ts"
  using tokenize_loop_quotes [of line "[]" ts] by (simp add: tokenize_def)

section \<open>Lines\<close>

lemma lines_aux_append:
  "newline \<notin> set a \<Longrightarrow> lines_aux acc (a @ newline # b) = strip_cr (rev acc @ a) # lines_aux [] b"
  by (induction a arbitrary: acc) auto

lemma str_lines_append: "newline \<notin> set a \<Longrightarrow> str_lines (a @ newline # b) = strip_cr a # str_lines b"
  by (simp add: str_lines_def lines_aux_append)

end
