(* ===== verification/Unit_Runtime.thy ===== *)
theory Unit_Runtime
  imports Cgroup_Ops Restart Unit_Lexer
begin

text \<open>
  What rinit knows about one unit (\<open>UnitRuntime\<close> of \<open>rinit/src/unit_manager.rs\<close>) and the helpers
  around it: adopting a reloaded definition, deadlines, the environment of a service, the reading
  of files a unit names, and the search for the daemon of a forking unit.
\<close>

section \<open>The record\<close>

record UnitRuntime =
  rt_config :: UnitConfig
  rt_state :: UnitState
  rt_backoff :: BackoffState
  rt_pid :: "pid option"
  rt_group :: "pid option"
  restart_at :: "instant option"
  start_deadline :: "instant option"
  kill_at :: "instant option"
  health_at :: "instant option"
  probe_pid :: "pid option"
  probe_deadline :: "instant option"
  healthy :: "bool option"
  restart_after_stop :: bool
  exec_stop_pid :: "pid option"
  rt_status :: "string option"
  last_outcome :: "ExitOutcome option"
  idle_at :: "instant option"
  oom_kills_at_start :: "nat option"
  pending_config :: "UnitConfig option"
  retired :: bool

definition fnv1a :: "string \<Rightarrow> u64" where
  "fnv1a bytes = foldl (\<lambda>hash b. (hash XOR of_nat (byte b)) * 0x100000001b3) 0xcbf29ce484222325 bytes"

definition runtime_new :: "UnitConfig \<Rightarrow> UnitRuntime" where
  "runtime_new cfg = \<lparr>rt_config = cfg, rt_state = Inactive,
     rt_backoff = backoff_new (restart_delay cfg) (start_limit_burst cfg)
       (from_secs (start_limit_interval_sec cfg)) (fnv1a (canonical (cfg_name cfg))),
     rt_pid = None, rt_group = None, restart_at = None, start_deadline = None, kill_at = None,
     health_at = None, probe_pid = None, probe_deadline = None, healthy = None,
     restart_after_stop = False, exec_stop_pid = None, rt_status = None, last_outcome = None,
     idle_at = None, oom_kills_at_start = None, pending_config = None, retired = False\<rparr>"

definition spawns :: "UnitRuntime \<Rightarrow> bool" where
  "spawns rt \<longleftrightarrow> spawns_process (rt_config rt)"

definition is_up :: "UnitRuntime \<Rightarrow> bool" where
  "is_up rt \<longleftrightarrow> rt_pid rt \<noteq> None \<or> rt_state rt = Deactivating"

definition apply_config :: "UnitRuntime \<Rightarrow> UnitConfig \<Rightarrow> UnitRuntime" where
  "apply_config rt cfg = rt\<lparr>rt_config := cfg,
     rt_backoff := reconfigure (rt_backoff rt) (restart_delay cfg) (start_limit_burst cfg)
       (from_secs (start_limit_interval_sec cfg))\<rparr>"

definition adopt_pending :: "UnitRuntime \<Rightarrow> UnitRuntime" where
  "adopt_pending rt =
     (if is_up rt then rt
      else case pending_config rt of
        None \<Rightarrow> rt
      | Some cfg \<Rightarrow> apply_config (rt\<lparr>pending_config := None\<rparr>) cfg)"

definition policy :: "UnitRuntime \<Rightarrow> RestartPolicy" where
  "policy rt = restart (rt_config rt)"

section \<open>Deadlines of a unit\<close>

definition deadline :: "Kernel \<Rightarrow> nat \<Rightarrow> trace \<Rightarrow> instant option \<times> trace" where
  "deadline K secs tr =
     (if secs > 0 then let (at, tr1) = after_secs K secs tr in (Some at, tr1) else (None, tr))"

definition schedule_health :: "Kernel \<Rightarrow> UnitRuntime \<Rightarrow> trace \<Rightarrow> UnitRuntime \<times> trace" where
  "schedule_health K rt tr =
     (if exec_is_empty (health_check (rt_config rt)) \<or> health_interval_sec (rt_config rt) = 0
      then (rt\<lparr>health_at := None\<rparr>, tr)
      else let (at, tr1) = after_secs K (health_interval_sec (rt_config rt)) tr
        in (rt\<lparr>health_at := Some at\<rparr>, tr1))"

section \<open>Files a unit names\<close>

datatype UnitFileError =
  StatFailed int | NotRegular | OpenFailed int | TooLarge nat nat | ReadFailed int
| ExceedsLimit nat | NotUtf8

definition MAX_ENVIRONMENT_FILE_BYTES :: nat where "MAX_ENVIRONMENT_FILE_BYTES = 1024 * 1024"
definition MAX_PID_FILE_BYTES :: nat where "MAX_PID_FILE_BYTES = 4096"

definition read_unit_file :: "Kernel \<Rightarrow> string \<Rightarrow> nat \<Rightarrow> trace \<Rightarrow> (UnitFileError + string) \<times> trace" where
  "read_unit_file K path limit tr =
     (let tr1 = StatFile path # tr in
      case k_stat K tr path of
        Inl e \<Rightarrow> (Inl (StatFailed e), tr1)
      | Inr regular \<Rightarrow>
          if \<not> regular then (Inl NotRegular, tr1)
          else let tr2 = OpenFile path # tr1 in
            (case k_open K tr1 path of
               Some e \<Rightarrow> (Inl (OpenFailed e), tr2)
             | None \<Rightarrow>
                 (let tr3 = Fstat path # tr2 in
                  case k_fstat K tr2 path of
                    Inl e \<Rightarrow> (Inl (StatFailed e), tr3)
                  | Inr (regular', declared) \<Rightarrow>
                      if \<not> regular' then (Inl NotRegular, tr3)
                      else if declared > limit then (Inl (TooLarge declared limit), tr3)
                      else let tr4 = ReadUpTo path (sat_add u64_max limit 1) # tr3 in
                        (case k_read K tr3 path (sat_add u64_max limit 1) of
                           Inl e \<Rightarrow> (Inl (ReadFailed e), tr4)
                         | Inr bytes \<Rightarrow>
                             if length bytes > limit then (Inl (ExceedsLimit limit), tr4)
                             else if utf8_valid bytes then (Inr bytes, tr4)
                             else (Inl NotUtf8, tr4)))))"

section \<open>The environment of a service\<close>

definition upsert :: "(string \<times> string) list \<Rightarrow> string \<times> string \<Rightarrow> (string \<times> string) list" where
  "upsert env kv =
     (case map_of env (fst kv) of
        Some _ \<Rightarrow> set_first (fst kv) (snd kv) env
      | None \<Rightarrow> env @ [kv])"

text \<open>The \<open>KEY=VALUE\<close> entries of a list, split at the first equals sign; others are skipped.\<close>

definition env_entries :: "string list \<Rightarrow> (string \<times> string) list" where
  "env_entries es = List.map_filter (split_once (CHR ''='')) es"

definition merged_env :: "UnitConfig \<Rightarrow> (string \<times> string) list \<Rightarrow> string list \<Rightarrow> (string \<times> string) list" where
  "merged_env cfg from_file extra =
     foldl upsert (foldl upsert (foldl upsert (foldl upsert [] (env_entries SERVICE_ENV)) from_file)
       (cfg_environment cfg)) (env_entries extra)"

definition build_service_env :: "Kernel \<Rightarrow> UnitConfig \<Rightarrow> string list \<Rightarrow> trace \<Rightarrow> string list \<times> trace" where
  "build_service_env K cfg extra tr =
     (let (from_file, tr1) =
        (if environment_file cfg = [] then ([], tr)
         else case read_unit_file K (environment_file cfg) MAX_ENVIRONMENT_FILE_BYTES tr of
           (Inr body, tr1) \<Rightarrow> (parse_environment_file body, tr1)
         | (Inl _, tr1) \<Rightarrow> ([], tr1))
      in (map (\<lambda>(k, v). k @ ''='' @ v) (merged_env cfg from_file extra), tr1))"

section \<open>The daemon of a forking unit\<close>

datatype DaemonError =
  PidFileUnreadable UnitFileError | PidFileInvalid string | NoPidFileNoCgroup | Ambiguous nat
| ReservedPid pid | IsRinit | NotRunning pid | NotInCgroup pid | UserUnresolved RuntimeError
| WrongUid pid nat nat | IdentityUnknown pid

fun all_equal_head :: "nat list \<Rightarrow> nat option" where
  "all_equal_head [] = None"
| "all_equal_head (x # xs) = (if list_all (\<lambda>y. y = x) xs then Some x else None)"

text \<open>The uid of \<open>/proc/<pid>/status\<close>, when all the \<open>Uid:\<close> fields agree.\<close>

definition status_uid :: "string \<Rightarrow> nat option" where
  "status_uid body =
     (case find (\<lambda>l. take 4 l = ''Uid:'') (str_lines body) of
        None \<Rightarrow> None
      | Some l \<Rightarrow> all_equal_head (List.map_filter (parse_uint u32_max) (drop 1 (split_whitespace l))))"

definition process_uid :: "Kernel \<Rightarrow> pid \<Rightarrow> trace \<Rightarrow> nat option \<times> trace" where
  "process_uid K p tr =
     (let (r, tr1) = read_text K (''/proc/'' @ show_nat (nat p) @ ''/status'') tr in
      (case r of Inl _ \<Rightarrow> None | Inr body \<Rightarrow> status_uid body, tr1))"

definition daemon_candidate :: "Kernel \<Rightarrow> UnitConfig \<Rightarrow> Cgroup \<Rightarrow> UnitName \<Rightarrow> trace
    \<Rightarrow> (DaemonError + pid) \<times> trace" where
  "daemon_candidate K cfg cg u tr = (case pid_file cfg of
      Some path \<Rightarrow>
        (case read_unit_file K path MAX_PID_FILE_BYTES tr of
           (Inl e, tr1) \<Rightarrow> (Inl (PidFileUnreadable e), tr1)
         | (Inr body, tr1) \<Rightarrow> (ok_or (PidFileInvalid (trim body)) (parse_i32 (trim body)), tr1))
    | None \<Rightarrow>
        (case cgroup_members K cg u tr of
           (None, tr1) \<Rightarrow> (Inl NoPidFileNoCgroup, tr1)
         | (Some [only], tr1) \<Rightarrow> (Inr only, tr1)
         | (Some other, tr1) \<Rightarrow> (Inl (Ambiguous (length other)), tr1)))"

text \<open>Without a cgroup, the identity of the process has to be the one the unit asked for.\<close>

definition check_identity :: "Kernel \<Rightarrow> UnitConfig \<Rightarrow> pid \<Rightarrow> trace \<Rightarrow> (DaemonError + pid) \<times> trace" where
  "check_identity K cfg p tr =
     (let (expected, tr1) =
        (if trim (cfg_user cfg) = [] then (Inr (k_euid K), tr)
         else case resolve_sandbox K cfg tr of
           (Inl e, tr1) \<Rightarrow> (Inl (UserUnresolved e), tr1)
         | (Inr sb, tr1) \<Rightarrow> (Inr (sb_uid sb), tr1))
      in case expected of
        Inl e \<Rightarrow> (Inl e, tr1)
      | Inr want \<Rightarrow>
          (case process_uid K p tr1 of
             (Some uid, tr2) \<Rightarrow> (if uid = want then Inr p else Inl (WrongUid p uid want), tr2)
           | (None, tr2) \<Rightarrow> (Inl (IdentityUnknown p), tr2)))"

definition find_daemon :: "Kernel \<Rightarrow> UnitConfig \<Rightarrow> Cgroup \<Rightarrow> UnitName \<Rightarrow> trace
    \<Rightarrow> (DaemonError + pid) \<times> trace" where
  "find_daemon K cfg cg u tr =
     (case daemon_candidate K cfg cg u tr of
        (Inl e, tr1) \<Rightarrow> (Inl e, tr1)
      | (Inr p, tr1) \<Rightarrow>
          if p \<le> 1 then (Inl (ReservedPid p), tr1)
          else if p = k_self K then (Inl IsRinit, tr1)
          else let (r, tr2) = sys_kill K p 0 tr1 in
            if r \<noteq> None then (Inl (NotRunning p), tr2)
            else (case cgroup_members K cg u tr2 of
                    (Some ms, tr3) \<Rightarrow> (if p \<in> set ms then Inr p else Inl (NotInCgroup p), tr3)
                  | (None, tr3) \<Rightarrow> check_identity K cfg p tr3))"

section \<open>Traces\<close>

lemma harmless_deadline [simp]: "harmless (snd (deadline K n tr)) = harmless tr"
  by (simp add: deadline_def split_beta Let_def)

lemma harmless_schedule_health [simp]: "harmless (snd (schedule_health K rt tr)) = harmless tr"
  by (simp add: schedule_health_def split_beta Let_def)

lemma harmless_read_unit_file [simp]: "harmless (snd (read_unit_file K p n tr)) = harmless tr"
  by (simp add: read_unit_file_def Let_def split: sum.split option.split prod.split)

text \<open>Rewriting with a pair that a call returned, rather than with its components.\<close>

lemma harmless_via: "f = (r, tr') \<Longrightarrow> harmless (snd f) = harmless tr \<Longrightarrow> harmless tr' = harmless tr"
  by simp

lemma harmless_build_service_env [simp]:
  "harmless (snd (build_service_env K cfg ex tr)) = harmless tr"
  by (auto simp: build_service_env_def Let_def split: sum.split prod.split
      dest: harmless_via [OF _ harmless_read_unit_file])

lemma harmless_process_uid [simp]: "harmless (snd (process_uid K p tr)) = harmless tr"
  by (simp add: process_uid_def split_beta Let_def)

lemma harmless_daemon_candidate [simp]:
  "harmless (snd (daemon_candidate K cfg cg u tr)) = harmless tr"
  by (auto simp: daemon_candidate_def split: option.split sum.split prod.split list.split
      dest: harmless_via [OF _ harmless_read_unit_file] harmless_via [OF _ harmless_cgroup_members])

lemma harmless_check_identity [simp]: "harmless (snd (check_identity K cfg p tr)) = harmless tr"
  by (auto simp: check_identity_def Let_def split: option.split sum.split prod.split if_split
      dest: harmless_via [OF _ harmless_resolve_sandbox] harmless_via [OF _ harmless_process_uid])

lemma harmless_find_daemon [simp]: "harmless (snd (find_daemon K cfg cg u tr)) = harmless tr"
  by (simp add: find_daemon_def sys_kill_def case_prod_beta Let_def split: option.split sum.split)

end
