(* ===== verification/Dep_Order.thy ===== *)
theory Dep_Order
  imports Unit_Config "HOL-Library.Multiset"
begin

text \<open>
  The dependency graph of \<open>rinit-core/src/unit/dependency.rs\<close> once it is built: Kahn's
  topological order, the iterative depth-first search that reports a cycle, the start levels
  and the activation closure. Building the graph from unit files is in \<open>Dep_Build\<close>.

  The central results: an order that is returned is a permutation of the units with every
  dependency first; an error that is returned carries a real closed dependency path; the
  levels put every unit exactly one above its deepest dependency; and the closure is exactly
  the set of units reachable over activation edges, in order.
\<close>

section \<open>Definitions\<close>

datatype DependencyError =
    Cycle "UnitName list"
  | MissingDependency UnitName UnitName string
  | UnknownDefaultTarget UnitName
  | DuplicateSocket string UnitName UnitName
  | DuplicateUnit UnitName

fun arrows :: "UnitName list \<Rightarrow> string" where
  "arrows [] = ''''"
| "arrows [u] = canonical u"
| "arrows (u # us) = canonical u @ '' -> '' @ arrows us"

fun dependency_error_text :: "DependencyError \<Rightarrow> string" where
  "dependency_error_text (Cycle path) = ''dependency cycle: '' @ arrows path"
| "dependency_error_text (MissingDependency required_by missing directive) =
     canonical required_by @ '': '' @ directive @ ''='' @ canonical missing
       @ '' but no such unit file exists''"
| "dependency_error_text (UnknownDefaultTarget target) =
     ''boot target '' @ canonical target @ '' not found in the unit directory''"
| "dependency_error_text (DuplicateSocket path first second) =
     canonical first @ '' and '' @ canonical second @ '' both declare Sockets='' @ path
       @ ''; a socket path has to have one provider''"
| "dependency_error_text (DuplicateUnit unit) = canonical unit @ '' is defined more than once''"

record DependencyGraph =
  units :: "UnitName list"
  dependencies :: "nat list list"
  activations :: "nat list list"
  warnings :: "string list"

text \<open>
  \<open>iter().position(|u| u == x)\<close>. \<open>binary_search(x).ok()\<close> on a sorted vector without
  duplicates, the only kind \<open>build\<close> makes, is the same function.
\<close>

fun position :: "'a list \<Rightarrow> 'a \<Rightarrow> nat option" where
  "position [] x = None"
| "position (y # ys) x = (if y = x then Some 0 else map_option Suc (position ys x))"

text \<open>\<open>min_by\<close>: the first of the smallest elements.\<close>

fun min_by :: "('a \<Rightarrow> 'b::linorder) \<Rightarrow> 'a list \<Rightarrow> 'a option" where
  "min_by f [] = None"
| "min_by f (x # xs) = Some (foldl (\<lambda>best y. if f y < f best then y else best) x xs)"

definition dependencies_of :: "DependencyGraph \<Rightarrow> UnitName \<Rightarrow> UnitName list" where
  "dependencies_of g unit =
     (case position (units g) unit of
        Some i \<Rightarrow> map (\<lambda>d. units g ! d) (filter (\<lambda>d. d < length (units g)) (dependencies g ! i))
      | None \<Rightarrow> [])"

subsection \<open>A cycle to report\<close>

datatype Mark = Unseen | OnStack | Done

text \<open>
  A \<open>marks\<close> entry. Rust panics on an index past the end; the model reads \<open>Done\<close> there. Every
  index of a graph \<open>build\<close> makes is in range (\<open>wf_graph\<close>), so the case does not arise.
\<close>

definition mark_at :: "Mark list \<Rightarrow> nat \<Rightarrow> Mark" where
  "mark_at marks i = (if i < length marks then marks ! i else Done)"

text \<open>The measure of the search: marks still unseen, then cursor steps left.\<close>

definition unseen :: "Mark list \<Rightarrow> nat" where
  "unseen marks = length (filter (\<lambda>m. m = Unseen) marks)"

definition work_left :: "DependencyGraph \<Rightarrow> (nat \<times> nat) list \<Rightarrow> nat" where
  "work_left g work = sum_list (map (\<lambda>(v, c). Suc (length (dependencies g ! v) - c)) work)"

lemma unseen_pos: "i < length marks \<Longrightarrow> marks ! i = Unseen \<Longrightarrow> 0 < unseen marks"
  by (auto simp: unseen_def filter_empty_conv in_set_conv_nth)

lemma unseen_update:
  "i < length marks \<Longrightarrow> m \<noteq> Unseen \<Longrightarrow>
     unseen (marks[i := m]) + (if marks ! i = Unseen then 1 else 0) = unseen marks"
proof (induction marks arbitrary: i)
  case (Cons a marks)
  then show ?case
    using Cons.IH [of "i - 1"] by (cases i) (auto simp: unseen_def split: if_splits)
qed simp

lemma unseen_update_le: "m \<noteq> Unseen \<Longrightarrow> unseen (marks[i := m]) \<le> unseen marks"
  using unseen_update [of i marks m] by (cases "i < length marks") (auto simp: list_update_beyond)

lemma unseen_update_less:
  "mark_at marks i = Unseen \<Longrightarrow> m \<noteq> Unseen \<Longrightarrow> unseen (marks[i := m]) < unseen marks"
  using unseen_update [of i marks m] by (auto simp: mark_at_def split: if_splits)

text \<open>
  The inner \<open>while let Some((node, cursor)) = work.pop()\<close>. \<open>work\<close> is kept with its top
  first, \<open>stack\<close> in the order of the vector. \<open>Inl\<close> is the early return of a path, \<open>Inr\<close> the
  marks and the stack the loop leaves behind.
\<close>

function cycle_loop ::
  "DependencyGraph \<Rightarrow> Mark list \<Rightarrow> nat list \<Rightarrow> (nat \<times> nat) list
     \<Rightarrow> nat list + (Mark list \<times> nat list)" where
  "cycle_loop g marks stack [] = Inr (marks, stack)"
| "cycle_loop g marks stack ((node, cursor) # work) =
     (let ds = dependencies g ! node in
      if cursor < length ds then
        (let nxt = ds ! cursor in
         case mark_at marks nxt of
           Unseen \<Rightarrow> cycle_loop g (marks[nxt := OnStack]) (stack @ [nxt])
                       ((nxt, 0) # (node, cursor + 1) # work)
         | OnStack \<Rightarrow> Inl (drop (case position stack nxt of Some k \<Rightarrow> k | None \<Rightarrow> 0) stack @ [nxt])
         | Done \<Rightarrow> cycle_loop g marks stack ((node, cursor + 1) # work))
      else cycle_loop g (marks[node := Done]) (butlast stack) work)"
  by pat_completeness auto

termination
proof (relation "inv_image (less_than <*lex*> less_than)
         (\<lambda>(g, marks, stack, work). (unseen marks, work_left g work))", goal_cases)
  case 1
  then show ?case by (intro wf_inv_image wf_lex_prod wf_less_than)
next
  case (2 g marks stack node cursor work ds nxt)
  then show ?case by (auto intro!: unseen_update_less)
next
  case (3 g marks stack node cursor work ds nxt)
  then show ?case by (auto simp: work_left_def)
next
  case (4 g marks stack node cursor work ds)
  then show ?case
    using unseen_update_le [of Done marks node] by (auto simp: work_left_def)
qed

text \<open>The outer \<open>for start in 0..n\<close>.\<close>

fun cycle_from ::
  "DependencyGraph \<Rightarrow> Mark list \<Rightarrow> nat list \<Rightarrow> nat list
     \<Rightarrow> nat list + (Mark list \<times> nat list)" where
  "cycle_from g marks stack [] = Inr (marks, stack)"
| "cycle_from g marks stack (start # rest) =
     (if mark_at marks start \<noteq> Unseen then cycle_from g marks stack rest
      else rbind (cycle_loop g (marks[start := OnStack]) (stack @ [start]) [(start, 0)])
             (\<lambda>(marks', stack'). cycle_from g marks' stack' rest))"

definition find_cycle :: "DependencyGraph \<Rightarrow> DependencyError" where
  "find_cycle g =
     (let n = length (units g) in
      case cycle_from g (replicate n Unseen) [] [0..<n] of
        Inl path \<Rightarrow> Cycle (map (\<lambda>i. units g ! i) path)
      | Inr _ \<Rightarrow> Cycle (units g))"

subsection \<open>Kahn's algorithm\<close>

definition next_ready :: "DependencyGraph \<Rightarrow> nat list \<Rightarrow> bool list \<Rightarrow> nat option" where
  "next_ready g remaining placed =
     min_by (\<lambda>i. units g ! i)
       (filter (\<lambda>i. \<not> placed ! i \<and> remaining ! i = 0) [0..<length (units g)])"

text \<open>
  \<open>remaining[i] -= 1\<close> for every unit that lists the placed one. The subtraction of \<open>nat\<close>
  stops at zero where \<open>usize\<close> would wrap; \<open>kahn_inv\<close> below shows that the counter is positive
  whenever it is decremented.
\<close>

definition release :: "DependencyGraph \<Rightarrow> nat \<Rightarrow> nat list \<Rightarrow> nat list" where
  "release g nxt remaining =
     map (\<lambda>(ds, r). if nxt \<in> set ds then r - 1 else r) (zip (dependencies g) remaining)"

function kahn_loop ::
  "DependencyGraph \<Rightarrow> UnitName list \<Rightarrow> bool list \<Rightarrow> nat list
     \<Rightarrow> DependencyError + UnitName list" where
  "kahn_loop g ordered placed remaining =
     (if length ordered < length (units g) then
        (case next_ready g remaining placed of
           None \<Rightarrow> Inl (find_cycle g)
         | Some nxt \<Rightarrow>
             kahn_loop g (ordered @ [units g ! nxt]) (placed[nxt := True]) (release g nxt remaining))
      else Inr ordered)"
  by pat_completeness auto

termination
  by (relation "measure (\<lambda>(g, ordered, placed, remaining). length (units g) - length ordered)") auto

definition topological_order :: "DependencyGraph \<Rightarrow> DependencyError + UnitName list" where
  "topological_order g =
     (let n = length (units g) in
      kahn_loop g [] (replicate n False) (map length (dependencies g)))"

definition check_acyclic :: "DependencyGraph \<Rightarrow> DependencyError + unit" where
  "check_acyclic g = rbind (topological_order g) (\<lambda>_. Inr ())"

subsection \<open>Levels and the activation closure\<close>

definition level_for :: "DependencyGraph \<Rightarrow> (UnitName \<times> nat) list \<Rightarrow> UnitName \<Rightarrow> nat" where
  "level_for g level_of unit =
     (let ds = dependencies_of g unit;
          deepest = foldr max
            (map (\<lambda>d. case map_of level_of d of Some l \<Rightarrow> l | None \<Rightarrow> 0) ds) 0
      in if deepest = 0 \<and> ds = [] then 0 else deepest + 1)"

definition place :: "nat \<Rightarrow> UnitName \<Rightarrow> UnitName list list \<Rightarrow> UnitName list list" where
  "place level unit ls =
     (let ls' = if length ls \<le> level then ls @ replicate (level + 1 - length ls) [] else ls
      in ls'[level := ls' ! level @ [unit]])"

fun levels_loop ::
  "DependencyGraph \<Rightarrow> UnitName list \<Rightarrow> (UnitName \<times> nat) list \<Rightarrow> UnitName list list
     \<Rightarrow> UnitName list list" where
  "levels_loop g [] level_of ls = ls"
| "levels_loop g (unit # rest) level_of ls =
     (let level = level_for g level_of unit
      in levels_loop g rest (level_of @ [(unit, level)]) (place level unit ls))"

definition levels :: "DependencyGraph \<Rightarrow> DependencyError + UnitName list list" where
  "levels g = rbind (topological_order g) (\<lambda>order. Inr (levels_loop g order [] []))"

definition unvisited :: "DependencyGraph \<Rightarrow> nat set \<Rightarrow> nat set" where
  "unvisited g seen = {..<length (activations g)} - seen"

lemma unvisited_insert:
  "i \<notin> seen \<Longrightarrow> i < length (activations g) \<Longrightarrow>
     card (unvisited g (insert i seen)) < card (unvisited g seen)"
  unfolding unvisited_def by (intro psubset_card_mono) auto

lemma unvisited_insert_beyond:
  "\<not> i < length (activations g) \<Longrightarrow> unvisited g (insert i seen) = unvisited g seen"
  by (auto simp: unvisited_def)

text \<open>
  The closure walks a stack of indices; \<open>seen\<close> is the \<open>BTreeSet\<close>. The vector's end is the top
  of the stack, so the last of the extended activations is popped first.
\<close>

function closure_loop :: "DependencyGraph \<Rightarrow> nat set \<Rightarrow> nat list \<Rightarrow> nat set" where
  "closure_loop g seen stack =
     (if stack = [] then seen
      else let index = last stack; rest = butlast stack in
        if index \<in> seen then closure_loop g seen rest
        else closure_loop g (insert index seen)
               (rest @ (if index < length (activations g) then activations g ! index else [])))"
  by pat_completeness auto

termination
  by (relation "inv_image (less_than <*lex*> less_than)
        (\<lambda>(g, seen, stack). (card (unvisited g seen), length stack))")
     (auto simp: unvisited_insert unvisited_insert_beyond)

definition closure_of :: "DependencyGraph \<Rightarrow> UnitName \<Rightarrow> UnitName list" where
  "closure_of g target =
     (case position (units g) target of
        None \<Rightarrow> []
      | Some start \<Rightarrow>
          map (\<lambda>i. units g ! i)
            (filter (\<lambda>i. i < length (units g)) (sorted_list_of_set (closure_loop g {} [start]))))"

declare kahn_loop.simps [simp del] closure_loop.simps [simp del]

section \<open>The graph invariant and its relations\<close>

definition wf_graph :: "DependencyGraph \<Rightarrow> bool" where
  "wf_graph g \<longleftrightarrow>
     sorted_wrt (<) (units g)
     \<and> length (dependencies g) = length (units g) \<and> length (activations g) = length (units g)
     \<and> (\<forall>ds \<in> set (dependencies g). distinct ds \<and> (\<forall>d \<in> set ds. d < length (units g)))
     \<and> (\<forall>ds \<in> set (activations g). distinct ds \<and> (\<forall>d \<in> set ds. d < length (units g)))"

abbreviation waits_for :: "DependencyGraph \<Rightarrow> nat \<Rightarrow> nat \<Rightarrow> bool" where
  "waits_for g i d \<equiv> d \<in> set (dependencies g ! i)"

definition closed_walk :: "DependencyGraph \<Rightarrow> nat list \<Rightarrow> bool" where
  "closed_walk g p \<longleftrightarrow>
     2 \<le> length p \<and> hd p = last p \<and> (\<forall>i \<in> set p. i < length (units g))
     \<and> successively (waits_for g) p"

text \<open>A unit is grounded when every chain of dependencies from it ends.\<close>

inductive grounded :: "DependencyGraph \<Rightarrow> nat \<Rightarrow> bool" for g where
  ground: "(\<And>d. waits_for g i d \<Longrightarrow> grounded g d) \<Longrightarrow> grounded g i"

lemma wf_graph_lengths:
  "wf_graph g \<Longrightarrow> length (dependencies g) = length (units g)"
  "wf_graph g \<Longrightarrow> length (activations g) = length (units g)"
  by (simp_all add: wf_graph_def)

lemma wf_graph_range:
  "wf_graph g \<Longrightarrow> i < length (units g) \<Longrightarrow> waits_for g i d \<Longrightarrow> d < length (units g)"
  by (metis nth_mem wf_graph_def)

lemma wf_graph_distinct_deps:
  "wf_graph g \<Longrightarrow> i < length (units g) \<Longrightarrow> distinct (dependencies g ! i)"
  by (metis nth_mem wf_graph_def)

lemma wf_graph_distinct: "wf_graph g \<Longrightarrow> distinct (units g)"
  by (auto simp: wf_graph_def strict_sorted_iff)

lemma wf_graph_nth_less:
  "wf_graph g \<Longrightarrow> i < length (units g) \<Longrightarrow> j < length (units g) \<Longrightarrow>
     units g ! i < units g ! j \<longleftrightarrow> i < j"
  unfolding wf_graph_def by (metis linorder_neqE_nat not_less_iff_gr_or_eq sorted_wrt_nth_less)

lemma position_Some_iff:
  "position xs x = Some k \<longleftrightarrow> k < length xs \<and> xs ! k = x \<and> (\<forall>j<k. xs ! j \<noteq> x)"
  by (induction xs arbitrary: k) (auto simp: less_Suc_eq_0_disj nth_Cons split: nat.splits)

lemma position_None_iff: "position xs x = None \<longleftrightarrow> x \<notin> set xs"
  by (induction xs) auto

lemma position_nth: "distinct xs \<Longrightarrow> k < length xs \<Longrightarrow> position xs (xs ! k) = Some k"
  by (auto simp: position_Some_iff nth_eq_iff_index_eq)

section \<open>The depth-first search\<close>

definition finished :: "Mark list \<Rightarrow> nat set" where
  "finished marks = {i. i < length marks \<and> marks ! i = Done}"

definition on_stack :: "Mark list \<Rightarrow> nat set" where
  "on_stack marks = {i. i < length marks \<and> marks ! i = OnStack}"

text \<open>
  What is known of a suspended frame below the node \<open>x\<close>: it is waiting at \<open>x\<close>, and everything
  it visited earlier is finished.
\<close>

fun below :: "DependencyGraph \<Rightarrow> nat set \<Rightarrow> nat \<Rightarrow> (nat \<times> nat) list \<Rightarrow> bool" where
  "below g D x [] = True"
| "below g D x ((v, c) # work) =
     (0 < c \<and> c \<le> length (dependencies g ! v) \<and> dependencies g ! v ! (c - 1) = x
      \<and> (\<forall>j<c - 1. dependencies g ! v ! j \<in> D) \<and> below g D v work)"

fun frames :: "DependencyGraph \<Rightarrow> nat set \<Rightarrow> (nat \<times> nat) list \<Rightarrow> bool" where
  "frames g D [] = True"
| "frames g D ((v, c) # work) =
     (c \<le> length (dependencies g ! v) \<and> (\<forall>j<c. dependencies g ! v ! j \<in> D) \<and> below g D v work)"

definition dfs_inv :: "DependencyGraph \<Rightarrow> Mark list \<Rightarrow> nat list \<Rightarrow> (nat \<times> nat) list \<Rightarrow> bool" where
  "dfs_inv g marks stack work \<longleftrightarrow>
     length marks = length (units g) \<and> distinct stack \<and> set stack = on_stack marks
     \<and> map fst work = rev stack \<and> frames g (finished marks) work
     \<and> (\<forall>i \<in> finished marks. grounded g i)"

lemma below_mono: "below g D x work \<Longrightarrow> D \<subseteq> D' \<Longrightarrow> below g D' x work"
  by (induction g D x work rule: below.induct) auto

lemma frames_mono: "frames g D work \<Longrightarrow> D \<subseteq> D' \<Longrightarrow> frames g D' work"
  by (cases "(g, D, work)" rule: frames.cases) (auto intro: below_mono)

lemma below_finished: "below g D x work \<Longrightarrow> x \<in> D \<Longrightarrow> frames g D work"
proof (cases work)
  case (Cons f rest)
  obtain v c where f: "f = (v, c)" by (cases f)
  assume "below g D x work" "x \<in> D"
  moreover have "j < c \<Longrightarrow> j = c - 1 \<or> j < c - 1" for j by auto
  ultimately show ?thesis unfolding Cons f by auto
qed simp

lemma below_path: "below g D x work \<Longrightarrow> successively (waits_for g) (rev (map fst work) @ [x])"
proof (induction g D x work rule: below.induct)
  case (2 g D x v c work)
  then have "waits_for g v x"
    using nth_mem [of "c - 1" "dependencies g ! v"] by auto
  with 2 show ?case by (auto simp: successively_append_iff)
qed simp

lemma frames_path:
  "frames g D ((v, c) # work) \<Longrightarrow> successively (waits_for g) (rev (map fst ((v, c) # work)))"
  using below_path by auto

lemma marks_sets_push:
  assumes "mark_at marks i = Unseen" "i < length marks"
  shows "finished (marks[i := OnStack]) = finished marks"
    and "on_stack (marks[i := OnStack]) = insert i (on_stack marks)"
    and "i \<notin> on_stack marks"
  using assms by (auto simp: finished_def on_stack_def mark_at_def nth_list_update split: if_splits)

lemma marks_sets_finish:
  assumes "i \<in> on_stack marks"
  shows "finished (marks[i := Done]) = insert i (finished marks)"
    and "on_stack (marks[i := Done]) = on_stack marks - {i}"
  using assms by (auto simp: finished_def on_stack_def nth_list_update split: if_splits)

lemma dfs_inv_stack:
  assumes "dfs_inv g marks stack ((v, c) # work)"
  shows "stack = rev (map fst work) @ [v]" "v \<in> on_stack marks" "v < length (units g)"
proof -
  show st: "stack = rev (map fst work) @ [v]"
    using assms by (metis dfs_inv_def fst_conv list.simps(9) rev.simps(2) rev_rev_ident)
  then show "v \<in> on_stack marks" using assms by (auto simp: dfs_inv_def)
  then show "v < length (units g)" using assms by (auto simp: dfs_inv_def on_stack_def)
qed

lemma dfs_inv_push:
  assumes inv: "dfs_inv g marks stack ((v, c) # work)" and wf: "wf_graph g"
    and c: "c < length (dependencies g ! v)" and u: "mark_at marks (dependencies g ! v ! c) = Unseen"
    and v: "v < length (units g)"
  shows "dfs_inv g (marks[dependencies g ! v ! c := OnStack]) (stack @ [dependencies g ! v ! c])
           ((dependencies g ! v ! c, 0) # (v, c + 1) # work)"
proof -
  let ?x = "dependencies g ! v ! c"
  have x: "?x < length marks"
    using inv wf_graph_range [OF wf v] c by (simp add: dfs_inv_def)
  show ?thesis
    using inv c marks_sets_push [OF u x] by (auto simp: dfs_inv_def)
qed

lemma dfs_inv_skip:
  assumes "dfs_inv g marks stack ((v, c) # work)" "c < length (dependencies g ! v)"
    "mark_at marks (dependencies g ! v ! c) = Done" "wf_graph g" "v < length (units g)"
  shows "dfs_inv g marks stack ((v, c + 1) # work)"
proof -
  have "dependencies g ! v ! c \<in> finished marks"
    using assms wf_graph_range [OF assms(4,5)]
    by (auto simp: finished_def dfs_inv_def mark_at_def split: if_splits)
  then show ?thesis using assms(1,2) by (auto simp: dfs_inv_def less_Suc_eq)
qed

lemma dfs_inv_finish:
  assumes inv: "dfs_inv g marks stack ((v, c) # work)" and c: "\<not> c < length (dependencies g ! v)"
  shows "dfs_inv g (marks[v := Done]) (butlast stack) work"
proof -
  note st = dfs_inv_stack(1) [OF inv] and v = dfs_inv_stack(2) [OF inv]
  from inv c have "\<forall>d. waits_for g v d \<longrightarrow> grounded g d"
    by (auto simp: dfs_inv_def in_set_conv_nth)
  then have "grounded g v" by (blast intro: ground)
  moreover have "frames g (insert v (finished marks)) work"
    using inv by (auto simp: dfs_inv_def intro!: below_finished [of g _ v] elim: below_mono)
  ultimately show ?thesis
    using inv st marks_sets_finish [OF v] by (auto simp: dfs_inv_def)
qed

lemma dfs_inv_cycle:
  assumes inv: "dfs_inv g marks stack ((v, c) # work)" and wf: "wf_graph g"
    and c: "c < length (dependencies g ! v)"
    and x: "x = dependencies g ! v ! c" "mark_at marks x = OnStack" and v: "v < length (units g)"
  shows "\<exists>k. position stack x = Some k \<and> closed_walk g (drop k stack @ [x])"
proof -
  note st = dfs_inv_stack(1) [OF inv]
  have rng: "x < length (units g)" using wf_graph_range [OF wf v] c x by simp
  then have "x \<in> set stack" using inv x by (auto simp: dfs_inv_def on_stack_def mark_at_def)
  then obtain k where k: "position stack x = Some k" by (metis not_None_eq position_None_iff)
  then have kl: "k < length stack" "stack ! k = x" by (auto simp: position_Some_iff)
  have "successively (waits_for g) stack"
    using inv frames_path [of g "finished marks" v c work] st by (simp add: dfs_inv_def)
  then have "successively (waits_for g) (drop k stack)"
    by (metis append_take_drop_id successively_append_iff)
  moreover have "waits_for g (last (drop k stack)) x" using st kl c x by simp
  ultimately have "successively (waits_for g) (drop k stack @ [x])"
    using kl by (auto simp: successively_append_iff)
  moreover have "\<forall>i \<in> set stack. i < length (units g)"
    using inv by (auto simp: dfs_inv_def on_stack_def)
  then have "\<forall>i \<in> set (drop k stack). i < length (units g)" by (blast dest: in_set_dropD)
  ultimately have "closed_walk g (drop k stack @ [x])"
    using kl rng by (auto simp: closed_walk_def hd_append hd_drop_conv_nth)
  with k show ?thesis by blast
qed

lemma cycle_loop_result:
  "wf_graph g \<Longrightarrow> dfs_inv g marks stack work \<Longrightarrow>
     case cycle_loop g marks stack work of
       Inl p \<Rightarrow> closed_walk g p
     | Inr (marks', stack') \<Rightarrow> dfs_inv g marks' stack' []
         \<and> finished marks \<union> on_stack marks \<subseteq> finished marks'"
proof (induction g marks stack work rule: cycle_loop.induct)
  case (1 g marks stack)
  then show ?case by (auto simp: dfs_inv_def)
next
  case (2 g marks stack v c work)
  let ?ds = "dependencies g ! v"
  note v = dfs_inv_stack(3) [OF "2.prems"(2)] and on = dfs_inv_stack(2) [OF "2.prems"(2)]
  show ?case
  proof (cases "c < length ?ds")
    case True
    have rng: "?ds ! c < length marks"
      using wf_graph_range [OF "2.prems"(1) v] True "2.prems"(2) by (simp add: dfs_inv_def)
    show ?thesis
    proof (cases "mark_at marks (?ds ! c)")
      case Unseen
      note IH = "2.IH"(1) [OF refl True refl Unseen "2.prems"(1)
          dfs_inv_push [OF "2.prems"(2,1) True Unseen v]]
      show ?thesis
        using IH True Unseen marks_sets_push [OF Unseen rng]
        by (auto simp: Let_def split: sum.splits)
    next
      case OnStack
      then show ?thesis
        using dfs_inv_cycle [OF "2.prems"(2,1) True refl OnStack v] True by (auto simp: Let_def)
    next
      case Done
      note IH = "2.IH"(2) [OF refl True refl Done "2.prems"(1)
          dfs_inv_skip [OF "2.prems"(2) True Done "2.prems"(1) v]]
      show ?thesis using IH True Done by (auto simp: Let_def)
    qed
  next
    case False
    note IH = "2.IH"(3) [OF refl False "2.prems"(1) dfs_inv_finish [OF "2.prems"(2) False]]
    show ?thesis
      using IH False marks_sets_finish [OF on]
      by (auto simp: Let_def split: sum.splits)
  qed
qed

lemma cycle_from_result:
  "wf_graph g \<Longrightarrow> dfs_inv g marks [] [] \<Longrightarrow> \<forall>i \<in> set starts. i < length (units g) \<Longrightarrow>
     case cycle_from g marks [] starts of
       Inl p \<Rightarrow> closed_walk g p
     | Inr _ \<Rightarrow> (\<forall>i \<in> set starts \<union> finished marks. grounded g i)"
proof (induction starts arbitrary: marks)
  case Nil
  then show ?case by (auto simp: dfs_inv_def)
next
  case (Cons s rest)
  have len: "s < length marks" and nostack: "on_stack marks = {}"
    using Cons.prems by (auto simp: dfs_inv_def)
  show ?case
  proof (cases "mark_at marks s = Unseen")
    case True
    have "dfs_inv g (marks[s := OnStack]) [s] [(s, 0)]"
      using Cons.prems marks_sets_push [OF True len] nostack by (auto simp: dfs_inv_def)
    note loop = cycle_loop_result [OF Cons.prems(1) this]
    show ?thesis
    proof (cases "cycle_loop g (marks[s := OnStack]) [s] [(s, 0)]")
      case (Inl p)
      then show ?thesis using loop True by simp
    next
      case (Inr r)
      obtain marks' stack' where r: "r = (marks', stack')" by (cases r)
      with loop Inr have inv': "dfs_inv g marks' [] []" "stack' = []"
        and fin: "insert s (finished marks) \<subseteq> finished marks'"
        using marks_sets_push [OF True len] by (auto simp: dfs_inv_def)
      show ?thesis
        using Cons.IH [OF Cons.prems(1) inv'(1)] Cons.prems(3) True Inr r inv'(2) fin
        by (auto split: sum.splits)
    qed
  next
    case False
    then have "s \<in> finished marks"
      using len nostack by (cases "marks ! s") (auto simp: finished_def on_stack_def mark_at_def)
    then show ?thesis
      using Cons.IH [OF Cons.prems(1,2)] Cons.prems(3) False by (auto split: sum.splits)
  qed
qed

lemma find_cycle_result:
  assumes "wf_graph g" "i < length (units g)" "\<not> grounded g i"
  shows "\<exists>p. find_cycle g = Cycle (map (\<lambda>i. units g ! i) p) \<and> closed_walk g p"
proof -
  let ?n = "length (units g)"
  have "dfs_inv g (replicate ?n Unseen) [] []"
    by (auto simp: dfs_inv_def finished_def on_stack_def)
  from cycle_from_result [OF assms(1) this, of "[0..<?n]"] show ?thesis
    using assms(2,3) by (auto simp: find_cycle_def Let_def split: sum.splits)
qed

lemma grounded_no_trap:
  assumes "\<And>i. i \<in> S \<Longrightarrow> \<exists>d \<in> S. waits_for g i d"
  shows "grounded g i \<Longrightarrow> i \<notin> S"
  by (induction rule: grounded.induct) (use assms in blast)

lemma closed_walk_trap:
  assumes "closed_walk g p" "i \<in> set p"
  shows "\<exists>d \<in> set p. waits_for g i d"
proof -
  have step: "\<exists>d \<in> set p. waits_for g (p ! k) d" if "Suc k < length p" for k
    using assms(1) that by (auto simp: closed_walk_def successively_conv_nth)
  from assms(2) obtain k where k: "k < length p" "i = p ! k" by (auto simp: in_set_conv_nth)
  show ?thesis
  proof (cases "Suc k < length p")
    case True
    with step k show ?thesis by blast
  next
    case False
    then have "k = length p - 1" using k by simp
    moreover have "p \<noteq> []" "Suc 0 < length p" "hd p = last p"
      using assms(1) by (auto simp: closed_walk_def)
    ultimately have "i = p ! 0" "Suc 0 < length p"
      using k by (simp_all add: last_conv_nth hd_conv_nth)
    with step [of 0] show ?thesis by simp
  qed
qed

section \<open>Kahn's loop\<close>

definition deps_first :: "DependencyGraph \<Rightarrow> nat list \<Rightarrow> bool" where
  "deps_first g xs \<longleftrightarrow> (\<forall>k < length xs. set (dependencies g ! (xs ! k)) \<subseteq> set (take k xs))"

definition kahn_inv :: "DependencyGraph \<Rightarrow> nat list \<Rightarrow> bool list \<Rightarrow> nat list \<Rightarrow> bool" where
  "kahn_inv g xs placed remaining \<longleftrightarrow>
     distinct xs \<and> (\<forall>i \<in> set xs. i < length (units g))
     \<and> length placed = length (units g) \<and> length remaining = length (units g)
     \<and> (\<forall>i < length (units g). placed ! i \<longleftrightarrow> i \<in> set xs)
     \<and> (\<forall>i < length (units g). remaining ! i = card (set (dependencies g ! i) - set xs))
     \<and> deps_first g xs"

lemma deps_first_snoc:
  "deps_first g (xs @ [x]) \<longleftrightarrow> deps_first g xs \<and> set (dependencies g ! x) \<subseteq> set xs"
  by (auto simp: deps_first_def nth_append less_Suc_eq)

lemma deps_first_grounded: "deps_first g xs \<Longrightarrow> i \<in> set xs \<Longrightarrow> grounded g i"
proof (induction xs arbitrary: i rule: rev_induct)
  case (snoc x xs)
  then have prev: "\<And>d. d \<in> set xs \<Longrightarrow> grounded g d" and sub: "set (dependencies g ! x) \<subseteq> set xs"
    by (auto simp: deps_first_snoc)
  have "grounded g x" by (rule ground) (use prev sub in blast)
  with prev snoc.prems show ?case by auto
qed simp

lemma foldl_min_in:
  "foldl (\<lambda>best y. if f y < (f best :: 'b::linorder) then y else best) x xs \<in> insert x (set xs)"
proof (induction xs arbitrary: x)
  case (Cons y xs)
  then show ?case using Cons.IH [of "if f y < f x then y else x"] by (auto split: if_splits)
qed simp

lemma min_by_mem: "min_by f xs = Some x \<Longrightarrow> x \<in> set xs"
  using foldl_min_in by (cases xs) fastforce+

lemma min_by_None_iff: "min_by f xs = None \<longleftrightarrow> xs = []"
  by (cases xs) auto

lemma kahn_inv_step:
  assumes "kahn_inv g xs placed remaining" "wf_graph g" "next_ready g remaining placed = Some nxt"
  shows "kahn_inv g (xs @ [nxt]) (placed[nxt := True]) (release g nxt remaining)"
    and "\<forall>i < length (units g). waits_for g i nxt \<longrightarrow> 0 < remaining ! i"
proof -
  from min_by_mem [OF assms(3) [unfolded next_ready_def]]
  have nxt: "nxt < length (units g)" "nxt \<notin> set xs"
    and "card (set (dependencies g ! nxt) - set xs) = 0"
    using assms(1) by (auto simp: kahn_inv_def)
  then have sub: "set (dependencies g ! nxt) \<subseteq> set xs" by simp
  have dec: "card (set ds - insert nxt (set xs)) =
      (if nxt \<in> set ds then card (set ds - set xs) - 1 else card (set ds - set xs))" for ds
  proof (cases "nxt \<in> set ds")
    case True
    have "set ds - insert nxt (set xs) = (set ds - set xs) - {nxt}" by blast
    moreover have "card ((set ds - set xs) - {nxt}) = card (set ds - set xs) - 1"
      using True nxt(2) by (intro card_Diff_singleton) simp
    ultimately show ?thesis using True by simp
  next
    case False
    then have "set ds - insert nxt (set xs) = set ds - set xs" by blast
    then show ?thesis using False by simp
  qed
  have "release g nxt remaining ! i = card (set (dependencies g ! i) - set (xs @ [nxt]))"
    if "i < length (units g)" for i
    using that assms(1,2) dec [of "dependencies g ! i"]
    by (simp add: kahn_inv_def release_def wf_graph_lengths)
  moreover have "length (release g nxt remaining) = length (units g)"
    using assms(1,2) by (simp add: kahn_inv_def release_def wf_graph_lengths)
  ultimately show "kahn_inv g (xs @ [nxt]) (placed[nxt := True]) (release g nxt remaining)"
    using assms(1) nxt sub unfolding kahn_inv_def
    by (simp add: deps_first_snoc nth_list_update)
  show "\<forall>i < length (units g). waits_for g i nxt \<longrightarrow> 0 < remaining ! i"
    using assms(1) nxt by (auto simp: kahn_inv_def card_gt_0_iff)
qed

lemma kahn_stuck:
  assumes "kahn_inv g xs placed remaining" "wf_graph g" "length xs < length (units g)"
    "next_ready g remaining placed = None"
  shows "\<exists>i < length (units g). \<not> grounded g i"
proof -
  let ?n = "length (units g)"
  let ?S = "{..<?n} - set xs"
  have "card (set xs) < card {..<?n}" using assms(1,3) by (simp add: kahn_inv_def distinct_card)
  then have "\<not> {..<?n} \<subseteq> set xs" by (meson List.finite_set card_mono not_less)
  then obtain i where i: "i \<in> ?S" by blast
  have "\<exists>d \<in> ?S. waits_for g j d" if "j \<in> ?S" for j
  proof -
    have "remaining ! j \<noteq> 0"
      using that assms(1,4) by (auto simp: next_ready_def min_by_None_iff filter_empty_conv kahn_inv_def)
    moreover have "remaining ! j = card (set (dependencies g ! j) - set xs)"
      using that assms(1) by (simp add: kahn_inv_def)
    ultimately have "card (set (dependencies g ! j) - set xs) \<noteq> 0" by metis
    then obtain d where "d \<in> set (dependencies g ! j)" "d \<notin> set xs"
      by (metis DiffE all_not_in_conv card.empty)
    then show ?thesis using wf_graph_range [OF assms(2)] that by auto
  qed
  from grounded_no_trap [of ?S, OF this] i show ?thesis by blast
qed

lemma kahn_loop_result:
  assumes "wf_graph g"
  shows "kahn_inv g xs placed remaining \<Longrightarrow>
    (\<exists>ys. kahn_loop g (map (\<lambda>i. units g ! i) xs) placed remaining = Inr (map (\<lambda>i. units g ! i) ys)
       \<and> distinct ys \<and> set ys = {..<length (units g)} \<and> deps_first g ys)
    \<or> (\<exists>p. kahn_loop g (map (\<lambda>i. units g ! i) xs) placed remaining = Inl (Cycle (map (\<lambda>i. units g ! i) p))
       \<and> closed_walk g p)"
proof (induction "length (units g) - length xs" arbitrary: xs placed remaining rule: less_induct)
  case less
  let ?n = "length (units g)"
  show ?case
  proof (cases "length xs < ?n")
    case True
    show ?thesis
    proof (cases "next_ready g remaining placed")
      case None
      with kahn_stuck [OF less.prems assms True] find_cycle_result [OF assms] show ?thesis
        using True by (auto simp: kahn_loop.simps)
    next
      case (Some nxt)
      show ?thesis
        using less.hyps [OF _ kahn_inv_step(1) [OF less.prems assms Some]] True Some
        by (auto simp: kahn_loop.simps [of g "map ((!) (units g)) xs"])
    qed
  next
    case False
    have "card (set xs) = ?n" using less.prems False card_mono [of "{..<?n}" "set xs"]
      by (auto simp: kahn_inv_def distinct_card subset_iff)
    then have "set xs = {..<?n}"
      using less.prems by (intro card_subset_eq) (auto simp: kahn_inv_def)
    then show ?thesis using less.prems False by (auto simp: kahn_inv_def kahn_loop.simps)
  qed
qed

lemma topological_order_result:
  assumes "wf_graph g"
  shows "(\<exists>ys. topological_order g = Inr (map (\<lambda>i. units g ! i) ys)
            \<and> distinct ys \<and> set ys = {..<length (units g)} \<and> deps_first g ys)
       \<or> (\<exists>p. topological_order g = Inl (Cycle (map (\<lambda>i. units g ! i) p)) \<and> closed_walk g p)"
proof -
  have "card (set (dependencies g ! i)) = length (dependencies g ! i)" if "i < length (units g)" for i
    using that wf_graph_distinct_deps [OF assms] by (simp add: distinct_card)
  then have "kahn_inv g [] (replicate (length (units g)) False) (map length (dependencies g))"
    using assms by (simp add: kahn_inv_def deps_first_def wf_graph_lengths)
  from kahn_loop_result [OF assms this] show ?thesis
    by (simp add: topological_order_def)
qed

lemma dependencies_of_nth:
  assumes "wf_graph g" "i < length (units g)"
  shows "dependencies_of g (units g ! i) = map (\<lambda>d. units g ! d) (dependencies g ! i)"
proof -
  have "filter (\<lambda>d. d < length (units g)) (dependencies g ! i) = dependencies g ! i"
    using wf_graph_range [OF assms] by (simp add: filter_id_conv)
  then show ?thesis
    by (simp add: dependencies_of_def position_nth [OF wf_graph_distinct [OF assms(1)] assms(2)])
qed

lemma deps_first_names:
  assumes "wf_graph g" "deps_first g ys" "set ys = {..<length (units g)}" "k < length ys"
  shows "set (dependencies_of g (units g ! (ys ! k))) \<subseteq> set (take k (map (\<lambda>i. units g ! i) ys))"
proof -
  have "ys ! k < length (units g)" using assms(3,4) nth_mem by fastforce
  then show ?thesis
    using assms(2,4) by (auto simp: dependencies_of_nth [OF assms(1)] deps_first_def take_map)
qed

lemma order_names:
  assumes "wf_graph g" "topological_order g = Inr us"
  shows "distinct us \<and> set us = set (units g)
    \<and> (\<forall>k < length us. set (dependencies_of g (us ! k)) \<subseteq> set (take k us))"
proof -
  from topological_order_result [OF assms(1)] assms(2) obtain ys where
    ys: "us = map (\<lambda>i. units g ! i) ys" "distinct ys" "set ys = {..<length (units g)}" "deps_first g ys"
    by auto
  have "set us = set (units g)"
    unfolding ys(1) set_map ys(3) by (auto simp: set_conv_nth)
  moreover have "distinct us"
    using ys(1-3) wf_graph_distinct [OF assms(1)]
    by (auto simp: distinct_map inj_on_def nth_eq_iff_index_eq)
  ultimately show ?thesis
    using deps_first_names [OF assms(1) ys(4,3)] ys(1) by simp
qed

section \<open>Levels\<close>

definition on_level :: "UnitName list list \<Rightarrow> UnitName \<Rightarrow> nat \<Rightarrow> bool" where
  "on_level ls u l \<longleftrightarrow> l < length ls \<and> u \<in> set (ls ! l)"

definition level_exact :: "DependencyGraph \<Rightarrow> UnitName list list \<Rightarrow> UnitName \<Rightarrow> nat \<Rightarrow> bool" where
  "level_exact g ls u l \<longleftrightarrow>
     (\<forall>d \<in> set (dependencies_of g u). \<exists>j<l. on_level ls d j)
     \<and> (l \<noteq> 0 \<longrightarrow> (\<exists>d \<in> set (dependencies_of g u). on_level ls d (l - 1)))"

definition levels_inv ::
  "DependencyGraph \<Rightarrow> (UnitName \<times> nat) list \<Rightarrow> UnitName list list \<Rightarrow> bool" where
  "levels_inv g level_of ls \<longleftrightarrow>
     distinct (map fst level_of) \<and> mset (concat ls) = mset (map fst level_of)
     \<and> (\<forall>u l. (u, l) \<in> set level_of \<longleftrightarrow> on_level ls u l)
     \<and> (\<forall>l < length ls. ls ! l \<noteq> [])
     \<and> (\<forall>u l. on_level ls u l \<longrightarrow> level_exact g ls u l)"

lemma foldr_max_ge: "x \<in> set xs \<Longrightarrow> x \<le> foldr max xs (0::nat)"
  by (induction xs) auto

lemma foldr_max_in: "xs \<noteq> [] \<Longrightarrow> foldr max xs (0::nat) \<in> set xs"
proof (induction xs)
  case (Cons x xs)
  then show ?case by (cases xs) (auto simp: max_def)
qed simp

lemma place_eq:
  "l \<le> length ls \<Longrightarrow>
     place l u ls = (if l = length ls then ls @ [[u]] else ls[l := ls ! l @ [u]])"
  by (auto simp: place_def Let_def list_update_append)

lemma on_level_place:
  "l \<le> length ls \<Longrightarrow> on_level (place l u ls) v k \<longleftrightarrow> on_level ls v k \<or> (v = u \<and> k = l)"
  by (auto simp: place_eq on_level_def nth_append nth_list_update less_Suc_eq)

lemma mset_concat_place:
  "l \<le> length ls \<Longrightarrow> mset (concat (place l u ls)) = add_mset u (mset (concat ls))"
proof (induction ls arbitrary: l)
  case (Cons x ls)
  show ?case
    using Cons.prems Cons.IH [of "l - 1"] by (cases l) (auto simp: place_eq split: if_splits)
qed (simp add: place_eq)

lemma level_exact_place:
  "level_exact g ls v k \<Longrightarrow> l \<le> length ls \<Longrightarrow> level_exact g (place l u ls) v k"
  unfolding level_exact_def by (simp add: on_level_place) blast

lemma level_for_exact:
  assumes inv: "levels_inv g level_of ls" and sub: "set (dependencies_of g u) \<subseteq> set (map fst level_of)"
  shows "level_exact g ls u (level_for g level_of u) \<and> level_for g level_of u \<le> length ls"
proof (cases "dependencies_of g u = []")
  case True
  then show ?thesis by (simp add: level_for_def level_exact_def)
next
  case False
  let ?f = "\<lambda>d. case map_of level_of d of Some l \<Rightarrow> l | None \<Rightarrow> 0"
  let ?ls = "map ?f (dependencies_of g u)"
  have on: "on_level ls d (?f d)" if "d \<in> set (dependencies_of g u)" for d
  proof -
    from that sub obtain l where "(d, l) \<in> set level_of" by auto
    moreover from this have "map_of level_of d = Some l"
      using inv by (simp add: levels_inv_def)
    ultimately show ?thesis using inv by (simp add: levels_inv_def)
  qed
  have "foldr max ?ls 0 \<in> set ?ls" using False by (intro foldr_max_in) simp
  then obtain d where d: "d \<in> set (dependencies_of g u)" "?f d = foldr max ?ls 0" by auto
  have lvl: "level_for g level_of u = Suc (foldr max ?ls 0)"
    using False by (simp add: level_for_def Let_def)
  have "?f e < Suc (foldr max ?ls 0)" if "e \<in> set (dependencies_of g u)" for e
    using foldr_max_ge [of "?f e" ?ls] that by (auto simp: less_Suc_eq_le)
  then have "\<forall>e \<in> set (dependencies_of g u). \<exists>j < Suc (foldr max ?ls 0). on_level ls e j"
    using on by blast
  moreover have "on_level ls d (foldr max ?ls 0)" using on [OF d(1)] d(2) by simp
  ultimately show ?thesis
    unfolding lvl level_exact_def using d(1) by (auto simp: on_level_def)
qed

lemma levels_inv_step:
  assumes inv: "levels_inv g level_of ls" and sub: "set (dependencies_of g u) \<subseteq> set (map fst level_of)"
    and new: "u \<notin> set (map fst level_of)"
  shows "levels_inv g (level_of @ [(u, level_for g level_of u)]) (place (level_for g level_of u) u ls)"
proof -
  let ?l = "level_for g level_of u"
  note ex = level_for_exact [OF inv sub]
  then have le: "?l \<le> length ls" by blast
  have "place ?l u ls ! k \<noteq> []" if "k < length (place ?l u ls)" for k
    using inv that le by (auto simp: levels_inv_def place_eq nth_append nth_list_update less_Suc_eq split: if_splits)
  moreover have "on_level (place ?l u ls) v k \<longrightarrow> level_exact g (place ?l u ls) v k" for v k
    using inv ex level_exact_place [OF _ le] by (auto simp: levels_inv_def on_level_place [OF le])
  ultimately show ?thesis
    using inv new le unfolding levels_inv_def
    by (simp add: on_level_place mset_concat_place) blast
qed

lemma levels_loop_inv:
  "levels_inv g level_of ls \<Longrightarrow> distinct (map fst level_of @ us) \<Longrightarrow>
   (\<forall>k < length us. set (dependencies_of g (us ! k)) \<subseteq> set (map fst level_of @ take k us)) \<Longrightarrow>
     \<exists>level_of'. map fst level_of' = map fst level_of @ us \<and> levels_inv g level_of' (levels_loop g us level_of ls)"
proof (induction us arbitrary: level_of ls)
  case (Cons u us)
  let ?l = "level_for g level_of u"
  have "set (dependencies_of g u) \<subseteq> set (map fst level_of)" using Cons.prems(3) by force
  then have inv: "levels_inv g (level_of @ [(u, ?l)]) (place ?l u ls)"
    using levels_inv_step Cons.prems(1,2) by simp
  have "\<forall>k < length us. set (dependencies_of g (us ! k)) \<subseteq> set (map fst (level_of @ [(u, ?l)]) @ take k us)"
    using Cons.prems(3) by force
  from Cons.IH [OF inv _ this] Cons.prems(2) show ?case by (simp add: Let_def)
qed auto

section \<open>The activation closure\<close>

definition activated :: "DependencyGraph \<Rightarrow> nat \<Rightarrow> nat \<Rightarrow> bool" where
  "activated g i j \<longleftrightarrow> i < length (activations g) \<and> j \<in> set (activations g ! i)"

definition activates :: "DependencyGraph \<Rightarrow> UnitName \<Rightarrow> UnitName \<Rightarrow> bool" where
  "activates g u v \<longleftrightarrow> (\<exists>i j. i < length (units g) \<and> j < length (units g)
     \<and> units g ! i = u \<and> units g ! j = v \<and> activated g i j)"

lemma closure_loop_result:
  "finite seen \<Longrightarrow> (\<forall>i \<in> seen. \<forall>j. activated g i j \<longrightarrow> j \<in> seen \<union> set stack) \<Longrightarrow>
     finite (closure_loop g seen stack)
     \<and> seen \<union> set stack \<subseteq> closure_loop g seen stack
     \<and> (\<forall>i \<in> closure_loop g seen stack. \<forall>j. activated g i j \<longrightarrow> j \<in> closure_loop g seen stack)
     \<and> closure_loop g seen stack \<subseteq> seen \<union> {j. \<exists>i \<in> set stack. (activated g)\<^sup>*\<^sup>* i j}"
proof (induction g seen stack rule: closure_loop.induct)
  case (1 g seen stack)
  show ?case
  proof (cases stack rule: rev_cases)
    case Nil
    then show ?thesis using "1.prems" by (simp add: closure_loop.simps)
  next
    case (snoc rest x)
    show ?thesis
    proof (cases "x \<in> seen")
      case True
      have eq: "closure_loop g seen stack = closure_loop g seen rest"
        using snoc True by (simp add: closure_loop.simps [of g seen "rest @ [x]"])
      have "\<forall>i \<in> seen. \<forall>j. activated g i j \<longrightarrow> j \<in> seen \<union> set rest"
        using "1.prems"(2) snoc True by auto
      then show ?thesis
        using "1.IH"(1) [OF _ refl refl] "1.prems"(1) snoc True unfolding eq by simp blast
    next
      case False
      let ?new = "if x < length (activations g) then activations g ! x else []"
      have eq: "closure_loop g seen stack = closure_loop g (insert x seen) (rest @ ?new)"
        using snoc False by (simp add: closure_loop.simps [of g seen "rest @ [x]"])
      have new: "set ?new = {j. activated g x j}" by (auto simp: activated_def)
      have pre: "\<forall>i \<in> insert x seen. \<forall>j. activated g i j \<longrightarrow> j \<in> insert x seen \<union> set (rest @ ?new)"
        using "1.prems"(2) snoc unfolding set_append new by auto
      note IH = "1.IH"(2) [OF _ refl refl]
      have "finite (insert x seen)" using "1.prems"(1) by simp
      with IH pre snoc False have *: "finite (closure_loop g seen stack)"
        "insert x seen \<union> set rest \<subseteq> closure_loop g seen stack"
        "\<forall>i \<in> closure_loop g seen stack. \<forall>j. activated g i j \<longrightarrow> j \<in> closure_loop g seen stack"
        "closure_loop g seen stack \<subseteq> insert x seen \<union> {j. \<exists>i \<in> set (rest @ ?new). (activated g)\<^sup>*\<^sup>* i j}"
        unfolding eq by auto
      have "{j. \<exists>i \<in> set (rest @ ?new). (activated g)\<^sup>*\<^sup>* i j}
              \<subseteq> {j. \<exists>i \<in> set stack. (activated g)\<^sup>*\<^sup>* i j}"
        unfolding set_append new snoc by (auto intro: converse_rtranclp_into_rtranclp)
      moreover have "x \<in> {j. \<exists>i \<in> set stack. (activated g)\<^sup>*\<^sup>* i j}" using snoc by auto
      ultimately have "closure_loop g seen stack \<subseteq> seen \<union> {j. \<exists>i \<in> set stack. (activated g)\<^sup>*\<^sup>* i j}"
        using *(4) by blast
      moreover have "seen \<union> set stack \<subseteq> closure_loop g seen stack" using *(2) snoc by auto
      ultimately show ?thesis using *(1,3) by blast
    qed
  qed
qed

lemma closure_loop_reach: "closure_loop g {} [i] = {j. (activated g)\<^sup>*\<^sup>* i j}"
proof -
  note r = closure_loop_result [of "{}" g "[i]"]
  have "j \<in> closure_loop g {} [i]" if "(activated g)\<^sup>*\<^sup>* i j" for j
    using that by (induction rule: rtranclp_induct) (use r in auto)
  then show ?thesis using r by auto
qed

lemma activated_range: "wf_graph g \<Longrightarrow> activated g i j \<Longrightarrow> i < length (units g) \<and> j < length (units g)"
  unfolding activated_def by (metis nth_mem wf_graph_def)

lemma activated_names:
  assumes "wf_graph g" "i < length (units g)"
  shows "(activated g)\<^sup>*\<^sup>* i j \<Longrightarrow> j < length (units g) \<and> (activates g)\<^sup>*\<^sup>* (units g ! i) (units g ! j)"
proof (induction rule: rtranclp_induct)
  case (step j k)
  moreover have "activates g (units g ! j) (units g ! k)"
    unfolding activates_def using activated_range [OF assms(1) step(2)] step(2) by blast
  ultimately show ?case using activated_range [OF assms(1) step(2)] by auto
qed (simp add: assms)

lemma names_activated:
  assumes "wf_graph g" "i < length (units g)"
  shows "(activates g)\<^sup>*\<^sup>* (units g ! i) u \<Longrightarrow>
    \<exists>j < length (units g). u = units g ! j \<and> (activated g)\<^sup>*\<^sup>* i j"
proof (induction rule: rtranclp_induct)
  case base
  then show ?case using assms by blast
next
  case (step u v)
  then obtain j where j: "j < length (units g)" "u = units g ! j" "(activated g)\<^sup>*\<^sup>* i j" by blast
  from step(2) obtain j' k where k: "j' < length (units g)" "k < length (units g)"
    "units g ! j' = u" "units g ! k = v" "activated g j' k" by (auto simp: activates_def)
  with j have "j' = j" using wf_graph_distinct [OF assms(1)] by (simp add: nth_eq_iff_index_eq)
  with j k show ?case by (metis rtranclp.rtrancl_into_rtrancl)
qed

lemma topological_order_cases:
  assumes "wf_graph g"
  shows "case topological_order g of
      Inr us \<Rightarrow> (\<nexists>p. closed_walk g p)
    | Inl e \<Rightarrow> (\<exists>p. e = Cycle (map (\<lambda>i. units g ! i) p) \<and> closed_walk g p)"
proof (cases "topological_order g")
  case (Inr us)
  with topological_order_result [OF assms] obtain ys where
    "set ys = {..<length (units g)}" "deps_first g ys" by auto
  then have ok: "\<And>i. i < length (units g) \<Longrightarrow> grounded g i" using deps_first_grounded by blast
  have "\<not> closed_walk g p" for p
  proof
    assume p: "closed_walk g p"
    then have "p \<noteq> []" by (auto simp: closed_walk_def)
    then have "hd p \<in> set p" by simp
    moreover from this p ok have "grounded g (hd p)" by (auto simp: closed_walk_def)
    ultimately show False using grounded_no_trap [of "set p"] closed_walk_trap [OF p] by blast
  qed
  with Inr show ?thesis by simp
next
  case (Inl e)
  with topological_order_result [OF assms] show ?thesis by auto
qed

lemma levels_partition:
  assumes "wf_graph g" "levels g = Inr ls"
  shows "distinct (concat ls) \<and> set (concat ls) = set (units g) \<and> (\<forall>l < length ls. ls ! l \<noteq> [])
    \<and> (\<forall>u l. on_level ls u l \<longrightarrow> level_exact g ls u l)"
proof -
  from assms(2) obtain us where us: "topological_order g = Inr us" "ls = levels_loop g us [] []"
    by (auto simp: levels_def rbind_Inr_iff)
  note ord = order_names [OF assms(1) us(1)]
  have "levels_inv g [] []" by (simp add: levels_inv_def on_level_def)
  from levels_loop_inv [OF this, of us] ord us(2) obtain lv where
    lv: "map fst lv = us" "levels_inv g lv ls" by auto
  then have "mset (concat ls) = mset us" by (simp add: levels_inv_def)
  then have "distinct (concat ls)" "set (concat ls) = set us"
    using ord by (metis mset_eq_imp_distinct_iff, metis mset_eq_setD)
  with ord lv show ?thesis by (simp add: levels_inv_def)
qed

lemma closure_of_activates:
  assumes "wf_graph g" "target \<in> set (units g)"
  shows "sorted_wrt (<) (closure_of g target)
    \<and> set (closure_of g target) = {u. (activates g)\<^sup>*\<^sup>* target u}"
proof -
  obtain i where i: "i < length (units g)" "units g ! i = target"
    using assms(2) by (auto simp: in_set_conv_nth)
  let ?R = "{j. (activated g)\<^sup>*\<^sup>* i j}"
  have rng: "\<forall>j \<in> ?R. j < length (units g)" using activated_names [OF assms(1) i(1)] by blast
  then have fin: "finite ?R" by (meson bounded_nat_set_is_finite)
  have pos: "position (units g) target = Some i"
    using position_nth [OF wf_graph_distinct [OF assms(1)] i(1)] i(2) by simp
  have eq: "closure_of g target = map (\<lambda>j. units g ! j) (sorted_list_of_set ?R)"
    using rng fin by (simp add: closure_of_def pos closure_loop_reach filter_id_conv)
  have "sorted_wrt (<) (sorted_list_of_set ?R)"
    by (simp add: strict_sorted_list_of_set)
  then have "sorted_wrt (\<lambda>a b. units g ! a < units g ! b) (sorted_list_of_set ?R)"
    by (rule sorted_wrt_mono_rel [rotated]) (use fin rng wf_graph_nth_less [OF assms(1)] in auto)
  moreover have "(\<lambda>j. units g ! j) ` ?R = {u. (activates g)\<^sup>*\<^sup>* target u}"
    using activated_names [OF assms(1) i(1)] names_activated [OF assms(1) i(1)] i(2) by auto
  ultimately show ?thesis unfolding eq using fin by (simp add: sorted_wrt_map)
qed

section \<open>Properties\<close>

text \<open>A three-unit graph for the concrete instances.\<close>

definition demo_graph :: "nat list list \<Rightarrow> DependencyGraph" where
  "demo_graph ds = \<lparr>units = [UnitName ''a.service'' Service, UnitName ''b.service'' Service, UnitName ''c.target'' Target],
     dependencies = ds, activations = [[1], [2], []], warnings = []\<rparr>"
lemma demo_graph_wf: "wf_graph (demo_graph [[1], [2], []])" "wf_graph (demo_graph [[1], [2], [0]])"
  by code_simp+

text \<open>
  An order that \<open>topological_order\<close> returns lists every unit of the graph exactly
  once, and every unit comes after all the units it must wait for.
\<close>

theorem topological_order_sound:
  assumes "wf_graph g" "topological_order g = Inr us"
  shows "distinct us \<and> set us = set (units g)
    \<and> (\<forall>k < length us. set (dependencies_of g (us ! k)) \<subseteq> set (take k us))"
  using assms by (rule order_names)

theorem topological_order_sound_witness:
  "\<exists>us. topological_order (demo_graph [[1], [2], []]) = Inr us \<and> distinct us
     \<and> (\<forall>k < length us. set (dependencies_of (demo_graph [[1], [2], []]) (us ! k)) \<subseteq> set (take k us))"
proof -
  obtain us where us: "topological_order (demo_graph [[1], [2], []]) = Inr us"
  proof -
    have "\<not> isl (topological_order (demo_graph [[1], [2], []]))" by code_simp
    then show ?thesis using that by (cases "topological_order (demo_graph [[1], [2], []])") auto
  qed
  show ?thesis using topological_order_sound [OF demo_graph_wf(1) us] us by blast
qed

text \<open>
  Property C24. \<open>topological_order\<close> succeeds exactly on acyclic graphs: when it returns an order
  the graph has no closed dependency walk, and when it fails the error is a \<open>Cycle\<close> whose path
  is a closed walk of the graph, starting and ending at the same unit, each unit waiting for the
  next. The fallback path of \<open>find_cycle\<close> is never reported.
\<close>

theorem topological_order_decides:
  assumes "wf_graph g"
  shows "case topological_order g of
      Inr us \<Rightarrow> (\<nexists>p. closed_walk g p)
    | Inl e \<Rightarrow> (\<exists>p. e = Cycle (map (\<lambda>i. units g ! i) p) \<and> closed_walk g p)"
  using assms by (rule topological_order_cases)

theorem topological_order_decides_witness:
  "\<exists>p. topological_order (demo_graph [[1], [2], [0]]) = Inl (Cycle (map (\<lambda>i. units (demo_graph [[1], [2], [0]]) ! i) p))
     \<and> closed_walk (demo_graph [[1], [2], [0]]) p"
proof -
  have "isl (topological_order (demo_graph [[1], [2], [0]]))" by code_simp
  then show ?thesis using topological_order_decides [OF demo_graph_wf(2)]
    by (auto simp: isl_def)
qed

text \<open>
  The start levels partition the units, no level is empty, every dependency of a
  unit is on a strictly earlier level, and a unit that is not on level 0 has a dependency on the
  level just before its own: each unit starts as early as its dependencies allow.
\<close>

theorem levels_sound:
  assumes "wf_graph g" "levels g = Inr ls"
  shows "distinct (concat ls) \<and> set (concat ls) = set (units g) \<and> (\<forall>l < length ls. ls ! l \<noteq> [])
    \<and> (\<forall>u l. on_level ls u l \<longrightarrow> level_exact g ls u l)"
  using assms by (rule levels_partition)

theorem levels_sound_witness:
  "levels (demo_graph [[1], [2], []]) =
     Inr [[UnitName ''c.target'' Target], [UnitName ''b.service'' Service], [UnitName ''a.service'' Service]]
   \<and> level_exact (demo_graph [[1], [2], []])
       [[UnitName ''c.target'' Target], [UnitName ''b.service'' Service], [UnitName ''a.service'' Service]]
       (UnitName ''a.service'' Service) 2"
proof -
  have lv: "levels (demo_graph [[1], [2], []]) =
     Inr [[UnitName ''c.target'' Target], [UnitName ''b.service'' Service], [UnitName ''a.service'' Service]]"
    by code_simp
  show ?thesis using levels_sound [OF demo_graph_wf(1) lv] lv by (simp add: on_level_def)
qed

text \<open>
  \<open>closure_of\<close> returns exactly the units that the target transitively activates
  (over \<open>Requires=\<close> and \<open>Wants=\<close> edges, itself included), each once and in name order.
\<close>

theorem closure_of_reachable:
  assumes "wf_graph g" "target \<in> set (units g)"
  shows "sorted_wrt (<) (closure_of g target)
    \<and> set (closure_of g target) = {u. (activates g)\<^sup>*\<^sup>* target u}"
  using assms by (rule closure_of_activates)

theorem closure_of_reachable_witness:
  "closure_of (demo_graph [[1], [2], []]) (UnitName ''b.service'' Service) =
     [UnitName ''b.service'' Service, UnitName ''c.target'' Target]
   \<and> {u. (activates (demo_graph [[1], [2], []]))\<^sup>*\<^sup>* (UnitName ''b.service'' Service) u} =
     {UnitName ''b.service'' Service, UnitName ''c.target'' Target}"
proof -
  have c: "closure_of (demo_graph [[1], [2], []]) (UnitName ''b.service'' Service) =
     [UnitName ''b.service'' Service, UnitName ''c.target'' Target]" by code_simp
  have "UnitName ''b.service'' Service \<in> set (units (demo_graph [[1], [2], []]))" by code_simp
  from closure_of_reachable [OF demo_graph_wf(1) this] c show ?thesis by simp
qed

end
