(* ===== verification/Dep_Build.thy ===== *)
theory Dep_Build
  imports Dep_Order
begin

text \<open>
  Building the dependency graph of \<open>rinit-core/src/unit/dependency.rs\<close> from unit
  configurations: the socket resolution that adds edges, \<open>DependencyGraph::build\<close> and
  \<open>schedule\<close>. The properties relate the graph, its errors and the schedule to the directives
  written in the unit files.
\<close>

section \<open>Definitions\<close>

subsection \<open>Sockets\<close>

text \<open>\<open>BTreeMap::insert\<close> returns the previous provider, which is the duplicate to report.\<close>

fun claim_paths ::
  "UnitName \<Rightarrow> string list \<Rightarrow> (string \<rightharpoonup> UnitName) \<Rightarrow> DependencyError + (string \<rightharpoonup> UnitName)" where
  "claim_paths nm [] providers = Inr providers"
| "claim_paths nm (path # rest) providers =
     (case providers path of
        Some first \<Rightarrow> Inl (DuplicateSocket path first nm)
      | None \<Rightarrow> claim_paths nm rest (providers(path \<mapsto> nm)))"

fun claim_sockets ::
  "UnitConfig list \<Rightarrow> (string \<rightharpoonup> UnitName) \<Rightarrow> DependencyError + (string \<rightharpoonup> UnitName)" where
  "claim_sockets [] providers = Inr providers"
| "claim_sockets (cfg # rest) providers =
     rbind (claim_paths (cfg_name cfg) (sockets cfg) providers) (claim_sockets rest)"

definition no_provider :: "UnitName \<Rightarrow> string \<Rightarrow> string" where
  "no_provider nm path = canonical nm @ '': NeedsSocket='' @ path
     @ '' has no unit declaring it; waiting for the path anyway''"

fun needed_providers ::
  "(string \<rightharpoonup> UnitName) \<Rightarrow> UnitName \<Rightarrow> string list \<Rightarrow> UnitName list \<times> string list" where
  "needed_providers providers nm [] = ([], [])"
| "needed_providers providers nm (path # rest) =
     (let (reqs, warns) = needed_providers providers nm rest in
      case providers path of
        Some provider \<Rightarrow> (if provider \<noteq> nm then (provider # reqs, warns) else (reqs, warns))
      | None \<Rightarrow> (reqs, no_provider nm path # warns))"

definition require_provider :: "Dependencies \<Rightarrow> UnitName \<Rightarrow> Dependencies" where
  "require_provider d provider =
     d\<lparr>requires := remdups_step (requires d) provider, after := remdups_step (after d) provider\<rparr>"

definition resolve_config :: "(string \<rightharpoonup> UnitName) \<Rightarrow> UnitConfig \<Rightarrow> UnitConfig \<times> string list" where
  "resolve_config providers cfg =
     (let (reqs, warns) = needed_providers providers (cfg_name cfg) (needs_socket cfg)
      in (cfg\<lparr>deps := foldl require_provider (deps cfg) reqs\<rparr>, warns))"

definition resolve_sockets ::
  "UnitConfig list \<Rightarrow> DependencyError + UnitConfig list \<times> string list" where
  "resolve_sockets configs =
     rbind (claim_sockets configs Map.empty)
       (\<lambda>providers. let rs = map (resolve_config providers) configs
                    in Inr (map fst rs, concat (map snd rs)))"

subsection \<open>The graph\<close>

datatype Edge = ERequires | EWants | EAfter

fun directive :: "Edge \<Rightarrow> string" where
  "directive ERequires = ''Requires''"
| "directive EWants = ''Wants''"
| "directive EAfter = ''After''"

definition push_unique :: "nat list \<Rightarrow> nat \<Rightarrow> nat list" where
  "push_unique l v = (if v \<in> set l then l else l @ [v])"

definition push_at :: "nat \<Rightarrow> nat \<Rightarrow> nat list list \<Rightarrow> nat list list" where
  "push_at i v adj = adj[i := push_unique (adj ! i) v]"

definition dangling :: "UnitName \<Rightarrow> string \<Rightarrow> UnitName \<Rightarrow> string" where
  "dangling nm dir u = canonical nm @ '': '' @ dir @ ''='' @ canonical u @ '' but no such unit file exists''"

text \<open>The duplicate check over the sorted configurations.\<close>

fun collect_units :: "UnitConfig list \<Rightarrow> UnitName list \<Rightarrow> DependencyError + UnitName list" where
  "collect_units [] us = Inr us"
| "collect_units (cfg # rest) us =
     (if us \<noteq> [] \<and> last us = cfg_name cfg then Inl (DuplicateUnit (cfg_name cfg))
      else collect_units rest (us @ [cfg_name cfg]))"

fun add_before ::
  "UnitName list \<Rightarrow> UnitName \<Rightarrow> nat \<Rightarrow> UnitName list \<Rightarrow> nat list list \<Rightarrow> DependencyError + nat list list" where
  "add_before us nm me [] ds = Inr ds"
| "add_before us nm me (u # rest) ds =
     (case position us u of
        Some other \<Rightarrow> add_before us nm me rest (push_at other me ds)
      | None \<Rightarrow> Inl (MissingDependency nm u ''Before''))"

fun add_edges ::
  "UnitName list \<Rightarrow> UnitName \<Rightarrow> nat \<Rightarrow> (UnitName \<times> Edge) list
     \<Rightarrow> nat list list \<times> nat list list \<times> string list
     \<Rightarrow> DependencyError + nat list list \<times> nat list list \<times> string list" where
  "add_edges us nm me [] st = Inr st"
| "add_edges us nm me ((u, e) # rest) (ds, as, ws) =
     (case position us u of
        None \<Rightarrow>
          (case e of
             EWants \<Rightarrow> add_edges us nm me rest (ds, as, ws @ [dangling nm ''Wants'' u])
           | _ \<Rightarrow> Inl (MissingDependency nm u (directive e)))
      | Some other \<Rightarrow>
          add_edges us nm me rest
            (push_at me other ds,
             if e = ERequires \<or> e = EWants then push_at me other as else as,
             ws))"

definition edge_list :: "Dependencies \<Rightarrow> (UnitName \<times> Edge) list" where
  "edge_list d = map (\<lambda>u. (u, ERequires)) (requires d) @ map (\<lambda>u. (u, EWants)) (wants d)
     @ map (\<lambda>u. (u, EAfter)) (after d)"

definition conflict_warnings :: "UnitName list \<Rightarrow> UnitName \<Rightarrow> UnitName list \<Rightarrow> string list" where
  "conflict_warnings us nm cs =
     map (dangling nm ''Conflicts'') (filter (\<lambda>u. position us u = None) cs)"

definition build_config ::
  "UnitName list \<Rightarrow> UnitConfig \<Rightarrow> nat list list \<times> nat list list \<times> string list
     \<Rightarrow> DependencyError + nat list list \<times> nat list list \<times> string list" where
  "build_config us cfg st =
     (case position us (cfg_name cfg) of
        None \<Rightarrow> Inr st
      | Some me \<Rightarrow>
          (case st of (ds, as, ws) \<Rightarrow>
             rbind (add_before us (cfg_name cfg) me (before (deps cfg)) ds)
               (\<lambda>ds'. add_edges us (cfg_name cfg) me (edge_list (deps cfg))
                        (ds', as, ws @ conflict_warnings us (cfg_name cfg) (conflicts (deps cfg))))))"

fun build_configs ::
  "UnitName list \<Rightarrow> UnitConfig list \<Rightarrow> nat list list \<times> nat list list \<times> string list
     \<Rightarrow> DependencyError + nat list list \<times> nat list list \<times> string list" where
  "build_configs us [] st = Inr st"
| "build_configs us (cfg # rest) st = rbind (build_config us cfg st) (build_configs us rest)"

definition build :: "UnitConfig list \<Rightarrow> DependencyError + DependencyGraph" where
  "build cfgs =
     (let configs = sort_key cfg_name cfgs in
      rbind (collect_units configs [])
        (\<lambda>names. let us = sort names; n = length us in
           rbind (build_configs us configs (replicate n [], replicate n [], []))
             (\<lambda>(ds, as, ws).
                let g = \<lparr>units = us, dependencies = ds, activations = as, warnings = ws\<rparr> in
                rbind (check_acyclic g) (\<lambda>_. Inr g))))"

definition schedule :: "UnitConfig list \<Rightarrow> UnitName \<Rightarrow> DependencyError + UnitName list list" where
  "schedule configs default_target =
     rbind (build configs)
       (\<lambda>graph. if default_target \<notin> set (units graph)
                 then Inl (UnknownDefaultTarget default_target) else levels graph)"

section \<open>What the directives ask for\<close>

definition names :: "UnitConfig list \<Rightarrow> UnitName set" where
  "names cfgs = cfg_name ` set cfgs"

text \<open>The unit \<open>u\<close> must wait for \<open>v\<close> because of a directive of \<open>c\<close>.\<close>

definition orders :: "UnitConfig \<Rightarrow> UnitName \<Rightarrow> UnitName \<Rightarrow> bool" where
  "orders c u v \<longleftrightarrow>
     u = cfg_name c \<and> v \<in> set (requires (deps c)) \<union> set (wants (deps c)) \<union> set (after (deps c))
     \<or> v = cfg_name c \<and> u \<in> set (before (deps c))"

definition pulls_in :: "UnitConfig \<Rightarrow> UnitName \<Rightarrow> UnitName \<Rightarrow> bool" where
  "pulls_in c u v \<longleftrightarrow> u = cfg_name c \<and> v \<in> set (requires (deps c)) \<union> set (wants (deps c))"

definition hard_refs :: "UnitConfig \<Rightarrow> UnitName set" where
  "hard_refs c = set (requires (deps c)) \<union> set (after (deps c)) \<union> set (before (deps c))"

definition must_wait :: "UnitConfig list \<Rightarrow> UnitName \<Rightarrow> UnitName \<Rightarrow> bool" where
  "must_wait cfgs u v \<longleftrightarrow> u \<in> names cfgs \<and> v \<in> names cfgs \<and> (\<exists>c \<in> set cfgs. orders c u v)"

definition dangling_refs :: "UnitName set \<Rightarrow> UnitConfig \<Rightarrow> string set" where
  "dangling_refs known c =
     dangling (cfg_name c) ''Wants'' ` (set (wants (deps c)) - known)
     \<union> dangling (cfg_name c) ''Conflicts'' ` (set (conflicts (deps c)) - known)"

section \<open>Adjacency vectors\<close>

definition good_adj :: "nat \<Rightarrow> nat list list \<Rightarrow> bool" where
  "good_adj n adj \<longleftrightarrow>
     length adj = n \<and> (\<forall>ds \<in> set adj. distinct ds \<and> (\<forall>d \<in> set ds. d < n))"

definition linked :: "UnitName list \<Rightarrow> nat list list \<Rightarrow> UnitName \<Rightarrow> UnitName \<Rightarrow> bool" where
  "linked us adj u v \<longleftrightarrow>
     (\<exists>k w. k < length adj \<and> w \<in> set (adj ! k) \<and> us ! k = u \<and> us ! w = v)"

lemma good_adj_push:
  assumes "good_adj n adj" "i < n" "v < n"
  shows "good_adj n (push_at i v adj)"
proof -
  have "distinct (push_unique (adj ! i) v) \<and> (\<forall>d \<in> set (push_unique (adj ! i) v). d < n)"
    using assms nth_mem [of i adj] by (auto simp: push_unique_def good_adj_def)
  then show ?thesis
    using assms set_update_subset_insert [of adj i "push_unique (adj ! i) v"]
    by (auto simp: good_adj_def push_at_def)
qed

lemma linked_push:
  assumes "good_adj (length us) adj" "distinct us" "position us a = Some i" "position us b = Some j"
  shows "linked us (push_at i j adj) u v \<longleftrightarrow> linked us adj u v \<or> (u = a \<and> v = b)"
proof -
  have i: "i < length adj" "us ! i = a" and j: "us ! j = b"
    using assms by (auto simp: position_Some_iff good_adj_def)
  have "w \<in> set (push_at i j adj ! k) \<longleftrightarrow> w \<in> set (adj ! k) \<or> (k = i \<and> w = j)" if "k < length adj" for k w
    using that i by (auto simp: push_at_def nth_list_update push_unique_def)
  then show ?thesis using i j by (auto simp: linked_def push_at_def)
qed

lemma position_less: "position us u = Some i \<Longrightarrow> i < length us"
  by (simp add: position_Some_iff)

lemma add_before_result:
  assumes "distinct us" "position us nm = Some me" "good_adj (length us) ds"
  shows "case add_before us nm me bs ds of
      Inr ds' \<Rightarrow> set bs \<subseteq> set us \<and> good_adj (length us) ds'
        \<and> (\<forall>u v. linked us ds' u v \<longleftrightarrow> linked us ds u v \<or> (v = nm \<and> u \<in> set bs))
    | Inl e \<Rightarrow> \<exists>u \<in> set bs - set us. e = MissingDependency nm u ''Before''"
  using assms(3)
proof (induction bs arbitrary: ds)
  case (Cons u bs)
  show ?case
  proof (cases "position us u")
    case None
    then have "u \<notin> set us" by (simp add: position_None_iff)
    with None show ?thesis by simp
  next
    case (Some i)
    have "good_adj (length us) (push_at i me ds)"
      using Cons.prems Some assms(2) by (intro good_adj_push) (auto dest: position_less)
    moreover have "u \<in> set us" using Some by (metis option.distinct(1) position_None_iff)
    ultimately show ?thesis
      using Cons.IH [of "push_at i me ds"] Some linked_push [OF Cons.prems assms(1) Some assms(2)]
      by (auto split: sum.splits)
  qed
qed simp

lemma add_edges_result:
  assumes "distinct us" "position us nm = Some me"
    "good_adj (length us) ds" "good_adj (length us) as"
  shows "case add_edges us nm me es (ds, as, ws) of
      Inr (ds', as', ws') \<Rightarrow>
        (\<forall>u e. (u, e) \<in> set es \<longrightarrow> e \<noteq> EWants \<longrightarrow> u \<in> set us)
        \<and> good_adj (length us) ds' \<and> good_adj (length us) as'
        \<and> (\<forall>u v. linked us ds' u v \<longleftrightarrow>
             linked us ds u v \<or> (u = nm \<and> v \<in> set us \<inter> fst ` set es))
        \<and> (\<forall>u v. linked us as' u v \<longleftrightarrow>
             linked us as u v \<or> (u = nm \<and> v \<in> set us \<inter> fst ` {x \<in> set es. snd x \<noteq> EAfter}))
        \<and> set ws' = set ws \<union> dangling nm ''Wants'' ` (fst ` set es - set us)
    | Inl err \<Rightarrow> \<exists>u e. (u, e) \<in> set es \<and> e \<noteq> EWants \<and> u \<notin> set us
        \<and> err = MissingDependency nm u (directive e)"
  using assms(3,4)
proof (induction es arbitrary: ds as ws)
  case (Cons x es)
  obtain u e where x: "x = (u, e)" by (cases x)
  show ?case
  proof (cases "position us u")
    case None
    then have u: "u \<notin> set us" by (simp add: position_None_iff)
    show ?thesis
    proof (cases "e = EWants")
      case True
      let ?ws = "ws @ [dangling nm ''Wants'' u]"
      have eq: "add_edges us nm me (x # es) (ds, as, ws) = add_edges us nm me es (ds, as, ?ws)"
        using None x True by simp
      show ?thesis
      proof (cases "add_edges us nm me es (ds, as, ?ws)")
        case (Inl err)
        then show ?thesis using Cons.IH [OF Cons.prems, of ?ws] unfolding eq by auto
      next
        case (Inr r)
        obtain ds' as' ws' where r: "r = (ds', as', ws')" by (cases r)
        note IH = Cons.IH [OF Cons.prems, of ?ws, unfolded Inr r, simplified]
        have "linked us ds' a v \<longleftrightarrow> linked us ds a v \<or> a = nm \<and> v \<in> set us \<inter> fst ` set (x # es)" for a v
          using IH u by (auto simp: x)
        moreover have "linked us as' a v \<longleftrightarrow>
            linked us as a v \<or> a = nm \<and> v \<in> set us \<inter> fst ` {y \<in> set (x # es). snd y \<noteq> EAfter}" for a v
          using IH u by (auto simp: x)
        moreover have "set ws' = set ws \<union> dangling nm ''Wants'' ` (fst ` set (x # es) - set us)"
          using IH u by (auto simp: x)
        moreover have "\<forall>u e. (u, e) \<in> set (x # es) \<longrightarrow> e \<noteq> EWants \<longrightarrow> u \<in> set us"
          using IH True by (auto simp: x)
        ultimately show ?thesis using IH unfolding eq Inr r by simp
      qed
    next
      case False
      then show ?thesis using None u x by (cases e) auto
    qed
  next
    case (Some i)
    let ?as = "if e = ERequires \<or> e = EWants then push_at me i as else as"
    have us: "u \<in> set us" using Some by (metis option.distinct(1) position_None_iff)
    have good: "good_adj (length us) (push_at me i ds)" "good_adj (length us) ?as"
      using Cons.prems Some assms(2) by (auto intro!: good_adj_push dest: position_less)
    have la: "linked us ?as a v \<longleftrightarrow> linked us as a v \<or> (a = nm \<and> v = u \<and> e \<noteq> EAfter)" for a v
      using linked_push [OF Cons.prems(2) assms(1,2) Some] by (cases e) auto
    have ld: "linked us (push_at me i ds) a v \<longleftrightarrow> linked us ds a v \<or> (a = nm \<and> v = u)" for a v
      by (rule linked_push [OF Cons.prems(1) assms(1,2) Some])
    have eq: "add_edges us nm me (x # es) (ds, as, ws) = add_edges us nm me es (push_at me i ds, ?as, ws)"
      using Some x by simp
    show ?thesis
    proof (cases "add_edges us nm me es (push_at me i ds, ?as, ws)")
      case (Inl err)
      then show ?thesis using Cons.IH [OF good, of ws] unfolding eq by auto
    next
      case (Inr r)
      obtain ds' as' ws' where r: "r = (ds', as', ws')" by (cases r)
      note IH = Cons.IH [OF good, of ws, unfolded Inr r, simplified]
      have filt: "fst ` {y \<in> set (x # es). snd y \<noteq> EAfter} =
          (if e = EAfter then {} else {u}) \<union> fst ` {y \<in> set es. snd y \<noteq> EAfter}"
        by (auto simp: x image_iff)
      have "linked us ds' a v \<longleftrightarrow> linked us ds a v \<or> a = nm \<and> v \<in> set us \<inter> fst ` set (x # es)" for a v
        using IH us by (auto simp: ld x)
      moreover have "linked us as' a v \<longleftrightarrow>
          linked us as a v \<or> a = nm \<and> v \<in> set us \<inter> fst ` {y \<in> set (x # es). snd y \<noteq> EAfter}" for a v
        using IH us unfolding filt by (auto simp: la)
      moreover have "set ws' = set ws \<union> dangling nm ''Wants'' ` (fst ` set (x # es) - set us)"
        using IH us by (auto simp: x)
      moreover have "\<forall>u e. (u, e) \<in> set (x # es) \<longrightarrow> e \<noteq> EWants \<longrightarrow> u \<in> set us"
        using IH us by (auto simp: x)
      ultimately show ?thesis using IH unfolding eq Inr r by simp
    qed
  qed
qed auto

lemma build_config_result:
  assumes "distinct us" "cfg_name cfg \<in> set us"
    "good_adj (length us) ds" "good_adj (length us) as"
  shows "case build_config us cfg (ds, as, ws) of
      Inr (ds', as', ws') \<Rightarrow> hard_refs cfg \<subseteq> set us
        \<and> good_adj (length us) ds' \<and> good_adj (length us) as'
        \<and> (\<forall>u v. linked us ds' u v \<longleftrightarrow> linked us ds u v \<or> u \<in> set us \<and> v \<in> set us \<and> orders cfg u v)
        \<and> (\<forall>u v. linked us as' u v \<longleftrightarrow> linked us as u v \<or> v \<in> set us \<and> pulls_in cfg u v)
        \<and> set ws' = set ws \<union> dangling_refs (set us) cfg
    | Inl err \<Rightarrow> (\<exists>u dir. u \<in> hard_refs cfg - set us \<and> err = MissingDependency (cfg_name cfg) u dir)"
proof -
  obtain me where me: "position us (cfg_name cfg) = Some me"
    using assms(2) by (metis not_None_eq position_None_iff)
  let ?ws = "ws @ conflict_warnings us (cfg_name cfg) (conflicts (deps cfg))"
  let ?es = "edge_list (deps cfg)"
  have es: "fst ` set ?es = set (requires (deps cfg)) \<union> set (wants (deps cfg)) \<union> set (after (deps cfg))"
    "fst ` {x \<in> set ?es. snd x \<noteq> EAfter} = set (requires (deps cfg)) \<union> set (wants (deps cfg))"
    by (force simp: edge_list_def)+
  have hard: "(\<forall>u e. (u, e) \<in> set ?es \<longrightarrow> e \<noteq> EWants \<longrightarrow> u \<in> set us) \<longleftrightarrow>
      set (requires (deps cfg)) \<union> set (after (deps cfg)) \<subseteq> set us"
    unfolding edge_list_def by (simp add: image_iff) (metis Edge.distinct(1,5) Un_iff subset_iff)
  note B = add_before_result [OF assms(1) me assms(3), of "before (deps cfg)"]
  show ?thesis
  proof (cases "add_before us (cfg_name cfg) me (before (deps cfg)) ds")
    case (Inl e)
    then show ?thesis using B me by (auto simp: build_config_def hard_refs_def)
  next
    case (Inr ds1)
    then have B': "set (before (deps cfg)) \<subseteq> set us" "good_adj (length us) ds1"
      "\<And>u v. linked us ds1 u v \<longleftrightarrow> linked us ds u v \<or> (v = cfg_name cfg \<and> u \<in> set (before (deps cfg)))"
      using B by auto
    note E = add_edges_result [OF assms(1) me B'(2) assms(4), of ?es ?ws]
    have eq: "build_config us cfg (ds, as, ws) = add_edges us (cfg_name cfg) me ?es (ds1, as, ?ws)"
      using Inr me by (simp add: build_config_def)
    show ?thesis
    proof (cases "add_edges us (cfg_name cfg) me ?es (ds1, as, ?ws)")
      case (Inl e)
      then show ?thesis using E unfolding eq hard_refs_def by (force simp: edge_list_def)
    next
      case (Inr r)
      obtain ds' as' ws' where r: "r = (ds', as', ws')" by (cases r)
      note E' = E [unfolded Inr r es hard, simplified]
      have "linked us ds' u v \<longleftrightarrow> linked us ds u v \<or> u \<in> set us \<and> v \<in> set us \<and> orders cfg u v" for u v
        using E' B' assms(2) by (auto simp: orders_def)
      moreover have "linked us as' u v \<longleftrightarrow> linked us as u v \<or> v \<in> set us \<and> pulls_in cfg u v" for u v
        using E' by (auto simp: pulls_in_def)
      moreover have "set ws' = set ws \<union> dangling_refs (set us) cfg"
        using E' unfolding dangling_refs_def
        by (auto simp: conflict_warnings_def position_None_iff)
      moreover have "hard_refs cfg \<subseteq> set us" using E' B' by (simp add: hard_refs_def)
      ultimately show ?thesis using E' unfolding eq Inr r by simp
    qed
  qed
qed

lemma build_configs_result:
  assumes "distinct us" "cfg_name ` set cfgs \<subseteq> set us"
    "good_adj (length us) ds" "good_adj (length us) as"
  shows "case build_configs us cfgs (ds, as, ws) of
      Inr (ds', as', ws') \<Rightarrow> (\<forall>c \<in> set cfgs. hard_refs c \<subseteq> set us)
        \<and> good_adj (length us) ds' \<and> good_adj (length us) as'
        \<and> (\<forall>u v. linked us ds' u v \<longleftrightarrow>
             linked us ds u v \<or> u \<in> set us \<and> v \<in> set us \<and> (\<exists>c \<in> set cfgs. orders c u v))
        \<and> (\<forall>u v. linked us as' u v \<longleftrightarrow>
             linked us as u v \<or> v \<in> set us \<and> (\<exists>c \<in> set cfgs. pulls_in c u v))
        \<and> set ws' = set ws \<union> (\<Union>c \<in> set cfgs. dangling_refs (set us) c)
    | Inl err \<Rightarrow> (\<exists>c \<in> set cfgs. \<exists>u dir. u \<in> hard_refs c - set us
        \<and> err = MissingDependency (cfg_name c) u dir)"
  using assms(2-4)
proof (induction cfgs arbitrary: ds as ws)
  case (Cons c cfgs)
  from Cons.prems(1) have nm: "cfg_name c \<in> set us" "cfg_name ` set cfgs \<subseteq> set us" by auto
  note C = build_config_result [OF assms(1) nm(1) Cons.prems(2,3), of ws]
  show ?case
  proof (cases "build_config us c (ds, as, ws)")
    case (Inl e)
    then show ?thesis using C by auto
  next
    case (Inr r)
    obtain ds1 as1 ws1 where r: "r = (ds1, as1, ws1)" by (cases r)
    note C' = C [unfolded Inr r, simplified]
    from C' have good: "good_adj (length us) ds1" "good_adj (length us) as1" by auto
    note IH = Cons.IH [OF nm(2) good, of ws1]
    show ?thesis
    proof (cases "build_configs us cfgs (ds1, as1, ws1)")
      case (Inl e)
      then show ?thesis using IH \<open>build_config us c (ds, as, ws) = Inr r\<close> r by auto
    next
      case (Inr r')
      obtain ds2 as2 ws2 where r': "r' = (ds2, as2, ws2)" by (cases r')
      note IH' = IH [unfolded Inr r', simplified]
      have eq: "build_configs us (c # cfgs) (ds, as, ws) = Inr (ds2, as2, ws2)"
        using \<open>build_config us c (ds, as, ws) = Inr r\<close> r r' Inr by simp
      have "linked us ds2 u v \<longleftrightarrow>
          linked us ds u v \<or> u \<in> set us \<and> v \<in> set us \<and> (\<exists>d \<in> set (c # cfgs). orders d u v)" for u v
        using IH' C' by auto
      moreover have "linked us as2 u v \<longleftrightarrow>
          linked us as u v \<or> v \<in> set us \<and> (\<exists>d \<in> set (c # cfgs). pulls_in d u v)" for u v
        using IH' C' by auto
      moreover have "set ws2 = set ws \<union> (\<Union>d \<in> set (c # cfgs). dangling_refs (set us) d)"
        using IH' C' by (simp add: Un_assoc)
      ultimately show ?thesis using IH' C' unfolding eq by simp
    qed
  qed
qed simp

lemma collect_units_result:
  "sorted (map cfg_name cfgs) \<Longrightarrow> (us \<noteq> [] \<Longrightarrow> \<forall>c \<in> set cfgs. last us \<le> cfg_name c) \<Longrightarrow>
     case collect_units cfgs us of
       Inr r \<Rightarrow> r = us @ map cfg_name cfgs \<and> distinct (map cfg_name cfgs)
         \<and> (us \<noteq> [] \<longrightarrow> last us \<notin> cfg_name ` set cfgs)
     | Inl e \<Rightarrow> \<not> distinct (map cfg_name cfgs) \<or> (us \<noteq> [] \<and> last us \<in> cfg_name ` set cfgs)"
proof (induction cfgs arbitrary: us)
  case (Cons c cfgs)
  show ?case
  proof (cases "us \<noteq> [] \<and> last us = cfg_name c")
    case False
    have IH: "case collect_units cfgs (us @ [cfg_name c]) of
       Inr r \<Rightarrow> r = (us @ [cfg_name c]) @ map cfg_name cfgs \<and> distinct (map cfg_name cfgs)
         \<and> cfg_name c \<notin> cfg_name ` set cfgs
     | Inl e \<Rightarrow> \<not> distinct (map cfg_name cfgs) \<or> cfg_name c \<in> cfg_name ` set cfgs"
      using Cons.IH [of "us @ [cfg_name c]"] Cons.prems(1) by (simp split: sum.splits)
    have "last us \<notin> cfg_name ` set cfgs" if "us \<noteq> []"
      using Cons.prems that False by fastforce
    with IH False show ?thesis by (auto split: sum.splits)
  qed auto
qed simp

section \<open>From directives to the graph\<close>

definition graph_for :: "UnitConfig list \<Rightarrow> DependencyGraph \<Rightarrow> bool" where
  "graph_for cfgs g \<longleftrightarrow> wf_graph g \<and> set (units g) = names cfgs
     \<and> (\<forall>u v. linked (units g) (dependencies g) u v \<longleftrightarrow> must_wait cfgs u v)
     \<and> (\<forall>u v. linked (units g) (activations g) u v \<longleftrightarrow>
          v \<in> names cfgs \<and> (\<exists>c \<in> set cfgs. pulls_in c u v))
     \<and> set (warnings g) = (\<Union>c \<in> set cfgs. dangling_refs (names cfgs) c)"

lemma sorted_names: "map cfg_name (sort_key cfg_name cfgs) = sort (map cfg_name cfgs)"
proof (rule properties_for_sort [symmetric])
  show "mset (map cfg_name (sort_key cfg_name cfgs)) = mset (map cfg_name cfgs)"
    by (metis mset_map mset_sort)
qed (rule sorted_sort_key)

lemma collect_units_sorted:
  "distinct (map cfg_name cfgs) \<Longrightarrow>
     collect_units (sort_key cfg_name cfgs) [] = Inr (sort (map cfg_name cfgs))"
  using collect_units_result [of "sort_key cfg_name cfgs" "[]"] sorted_sort_key [of cfg_name cfgs]
  by (auto simp: sorted_names split: sum.splits)

lemma build_resolved:
  assumes "distinct (map cfg_name cfgs)" "\<forall>c \<in> set cfgs. hard_refs c \<subseteq> names cfgs"
  shows "\<exists>g. graph_for cfgs g \<and> build cfgs = rbind (check_acyclic g) (\<lambda>_. Inr g)"
proof -
  let ?cs = "sort_key cfg_name cfgs" and ?us = "sort (map cfg_name cfgs)"
  let ?n = "length ?us"
  have known: "set ?us = names cfgs" by (simp add: names_def)
  have d: "distinct ?us" using assms(1) by simp
  have eq: "build cfgs =
      rbind (build_configs ?us ?cs (replicate ?n [], replicate ?n [], []))
        (\<lambda>(ds, as, ws).
           let g = \<lparr>units = ?us, dependencies = ds, activations = as, warnings = ws\<rparr> in
           rbind (check_acyclic g) (\<lambda>_. Inr g))"
    by (simp add: build_def Let_def collect_units_sorted [OF assms(1)] sorted_sort_id)
  have good: "good_adj ?n (replicate ?n [])" by (auto simp: good_adj_def)
  have none: "\<not> linked ?us (replicate ?n []) u v" for u v by (auto simp: linked_def)
  note R = build_configs_result [OF d _ good good, of ?cs "[]"]
  obtain ds as ws where r: "build_configs ?us ?cs (replicate ?n [], replicate ?n [], []) = Inr (ds, as, ws)"
    using R assms(2) known by (cases "build_configs ?us ?cs (replicate ?n [], replicate ?n [], [])")
      (auto simp: names_def)
  let ?g = "\<lparr>units = ?us, dependencies = ds, activations = as, warnings = ws\<rparr>"
  have R': "good_adj ?n ds" "good_adj ?n as"
    "\<And>u v. linked ?us ds u v \<longleftrightarrow> u \<in> names cfgs \<and> v \<in> names cfgs \<and> (\<exists>c \<in> set cfgs. orders c u v)"
    "\<And>u v. linked ?us as u v \<longleftrightarrow> v \<in> names cfgs \<and> (\<exists>c \<in> set cfgs. pulls_in c u v)"
    "set ws = (\<Union>c \<in> set cfgs. dangling_refs (names cfgs) c)"
    using R none unfolding r known by (auto simp: names_def)
  have "wf_graph ?g"
    using R'(1,2) d by (simp add: wf_graph_def good_adj_def strict_sorted_iff)
  then have "graph_for cfgs ?g"
    using R' known by (simp add: graph_for_def must_wait_def)
  then show ?thesis using eq r by (auto simp: Let_def)
qed

lemma build_duplicate:
  assumes "\<not> distinct (map cfg_name cfgs)"
  shows "\<exists>e. build cfgs = Inl e"
proof -
  let ?cs = "sort_key cfg_name cfgs"
  have "\<not> distinct (map cfg_name ?cs)" using assms by (simp add: sorted_names)
  then have "\<exists>e. collect_units ?cs [] = Inl e"
    using collect_units_result [of ?cs "[]"] sorted_sort_key [of cfg_name cfgs]
    by (auto split: sum.splits)
  then show ?thesis by (auto simp: build_def Let_def)
qed

lemma build_dangling:
  assumes "c \<in> set cfgs" "\<not> hard_refs c \<subseteq> names cfgs"
  shows "\<exists>e. build cfgs = Inl e"
proof (cases "distinct (map cfg_name cfgs)")
  case True
  let ?cs = "sort_key cfg_name cfgs" and ?us = "sort (map cfg_name cfgs)"
  let ?n = "length ?us"
  have known: "set ?us = names cfgs" by (simp add: names_def)
  have good: "good_adj ?n (replicate ?n [])" by (auto simp: good_adj_def)
  have d: "distinct ?us" using True by simp
  have "\<exists>e. build_configs ?us ?cs (replicate ?n [], replicate ?n [], []) = Inl e"
    using build_configs_result [OF d _ good good, of ?cs "[]"] assms known
    by (auto split: sum.splits simp: names_def)
  then show ?thesis by (auto simp: build_def Let_def collect_units_sorted [OF True] sorted_sort_id)
qed (rule build_duplicate)

lemma check_acyclic_iff: "wf_graph g \<Longrightarrow> (\<exists>x. check_acyclic g = Inr x) \<longleftrightarrow> (\<nexists>p. closed_walk g p)"
  using topological_order_cases [of g] by (auto simp: check_acyclic_def rbind_Inr_iff split: sum.splits)

lemma walk_linked:
  assumes "wf_graph g"
  shows "successively (waits_for g) p \<Longrightarrow> \<forall>i \<in> set p. i < length (units g) \<Longrightarrow> 2 \<le> length p \<Longrightarrow>
    (linked (units g) (dependencies g))\<^sup>+\<^sup>+ (units g ! hd p) (units g ! last p)"
proof (induction p rule: induct_list012)
  case (3 x y zs)
  have step: "linked (units g) (dependencies g) (units g ! x) (units g ! y)"
    using 3 assms by (auto simp: linked_def wf_graph_lengths)
  show ?case
  proof (cases zs)
    case Nil
    then show ?thesis using step by auto
  next
    case (Cons z zs')
    then show ?thesis using 3 step by (auto intro: tranclp_into_tranclp2)
  qed
qed auto

lemma linked_walk:
  assumes "wf_graph g"
  shows "(linked (units g) (dependencies g))\<^sup>+\<^sup>+ u v \<Longrightarrow>
    \<exists>p. 2 \<le> length p \<and> units g ! hd p = u \<and> units g ! last p = v
      \<and> (\<forall>i \<in> set p. i < length (units g)) \<and> successively (waits_for g) p"
proof (induction rule: tranclp_induct)
  case (base v)
  then obtain k w where "k < length (units g)" "waits_for g k w" "units g ! k = u" "units g ! w = v"
    using assms by (auto simp: linked_def wf_graph_lengths)
  then show ?case using wf_graph_range [OF assms] by (intro exI [of _ "[k, w]"]) auto
next
  case (step v x)
  then obtain p where p: "2 \<le> length p" "units g ! hd p = u" "units g ! last p = v"
    "\<forall>i \<in> set p. i < length (units g)" "successively (waits_for g) p" by blast
  from step(2) obtain k w where k: "k < length (units g)" "waits_for g k w"
    "units g ! k = v" "units g ! w = x"
    using assms by (auto simp: linked_def wf_graph_lengths)
  have "p \<noteq> []" using p(1) by auto
  moreover from this have "last p < length (units g)" using p(4) by simp
  then have "last p = k"
    using p(3) k(1,3) wf_graph_distinct [OF assms] nth_eq_iff_index_eq by metis
  ultimately show ?case
    using p k wf_graph_range [OF assms k(1,2)]
    by (intro exI [of _ "p @ [w]"]) (auto simp: successively_append_iff)
qed

lemma closed_walk_linked:
  assumes "wf_graph g"
  shows "(\<exists>p. closed_walk g p) \<longleftrightarrow> (\<exists>u. (linked (units g) (dependencies g))\<^sup>+\<^sup>+ u u)"
proof
  assume "\<exists>p. closed_walk g p"
  then show "\<exists>u. (linked (units g) (dependencies g))\<^sup>+\<^sup>+ u u"
    using walk_linked [OF assms] by (metis closed_walk_def)
next
  assume "\<exists>u. (linked (units g) (dependencies g))\<^sup>+\<^sup>+ u u"
  then obtain u p where p: "2 \<le> length p" "units g ! hd p = u" "units g ! last p = u"
    "\<forall>i \<in> set p. i < length (units g)" "successively (waits_for g) p"
    using linked_walk [OF assms] by blast
  moreover have "p \<noteq> []" using p(1) by auto
  moreover from this have "hd p = last p"
    using p(2-4) wf_graph_distinct [OF assms] by (metis hd_in_set last_in_set nth_eq_iff_index_eq)
  ultimately show "\<exists>p. closed_walk g p" by (auto simp: closed_walk_def)
qed

lemma build_checked:
  assumes "build cfgs = Inr g"
  shows "\<exists>x. check_acyclic g = Inr x"
  using assms by (auto simp: build_def Let_def rbind_Inr_iff split: prod.splits)

lemma build_graph_for:
  assumes "build cfgs = Inr g"
  shows "graph_for cfgs g"
proof -
  have "distinct (map cfg_name cfgs)" "\<forall>c \<in> set cfgs. hard_refs c \<subseteq> names cfgs"
    using build_duplicate [of cfgs] build_dangling [of _ cfgs] assms by force+
  then obtain g' where g': "graph_for cfgs g'" "build cfgs = rbind (check_acyclic g') (\<lambda>_. Inr g')"
    using build_resolved by blast
  with assms have "g' = g" by (simp add: rbind_Inr_iff)
  with g' show ?thesis by simp
qed

lemma build_acyclic: "build cfgs = Inr g \<Longrightarrow> \<nexists>p. closed_walk g p"
  using build_checked [of cfgs g] check_acyclic_iff [of g] build_graph_for [of cfgs g]
  by (auto simp: graph_for_def)

lemma build_succeeds_iff:
  "(\<exists>g. build cfgs = Inr g) \<longleftrightarrow>
     distinct (map cfg_name cfgs) \<and> (\<Union>c \<in> set cfgs. hard_refs c) \<subseteq> names cfgs
     \<and> (\<nexists>u. (must_wait cfgs)\<^sup>+\<^sup>+ u u)"
proof (cases "distinct (map cfg_name cfgs) \<and> (\<forall>c \<in> set cfgs. hard_refs c \<subseteq> names cfgs)")
  case True
  then obtain g where g: "graph_for cfgs g" "build cfgs = rbind (check_acyclic g) (\<lambda>_. Inr g)"
    using build_resolved by blast
  have "linked (units g) (dependencies g) = must_wait cfgs"
    using g(1) by (auto simp: graph_for_def fun_eq_iff)
  then have "(\<nexists>u. (must_wait cfgs)\<^sup>+\<^sup>+ u u) \<longleftrightarrow> (\<exists>x. check_acyclic g = Inr x)"
    using check_acyclic_iff [of g] closed_walk_linked [of g] g(1) by (simp add: graph_for_def)
  then show ?thesis using True g(2) by (auto simp: rbind_Inr_iff)
next
  case False
  then show ?thesis using build_duplicate [of cfgs] build_dangling [of _ cfgs] by fastforce
qed

lemma dependencies_of_linked:
  assumes "wf_graph g" "u \<in> set (units g)"
  shows "set (dependencies_of g u) = {v. linked (units g) (dependencies g) u v}"
proof -
  obtain i where i: "i < length (units g)" "units g ! i = u"
    using assms(2) by (auto simp: in_set_conv_nth)
  have "k = i" if "k < length (units g)" "units g ! k = u" for k
    using that i wf_graph_distinct [OF assms(1)] nth_eq_iff_index_eq by blast
  then have "linked (units g) (dependencies g) u v \<longleftrightarrow> (\<exists>w. waits_for g i w \<and> units g ! w = v)" for v
    using i assms(1) unfolding linked_def by (metis wf_graph_lengths(1))
  then show ?thesis
    using dependencies_of_nth [OF assms(1) i(1)] i(2) by auto
qed

lemma build_graph_facts:
  assumes "build cfgs = Inr g" "u \<in> names cfgs"
  shows "wf_graph g \<and> set (units g) = names cfgs
    \<and> set (dependencies_of g u) = {v. must_wait cfgs u v}
    \<and> set (closure_of g u) = {v. (\<lambda>a b. b \<in> names cfgs \<and> (\<exists>c \<in> set cfgs. pulls_in c a b))\<^sup>*\<^sup>* u v}
    \<and> set (warnings g) = (\<Union>c \<in> set cfgs. dangling_refs (names cfgs) c)"
proof -
  note g = build_graph_for [OF assms(1), unfolded graph_for_def]
  have "activates g a b \<longleftrightarrow> linked (units g) (activations g) a b" for a b
    using g activated_range [of g] unfolding activates_def linked_def
    by (auto simp: activated_def wf_graph_lengths)
  then have act: "activates g = (\<lambda>a b. b \<in> names cfgs \<and> (\<exists>c \<in> set cfgs. pulls_in c a b))"
    using g by (auto simp: fun_eq_iff)
  show ?thesis
    using g assms(2) dependencies_of_linked [of g u] closure_of_activates [of g u] by (simp add: act)
qed

section \<open>Sockets\<close>

lemma claim_paths_result:
  "case claim_paths nm paths ps of
     Inr ps' \<Rightarrow> distinct paths \<and> set paths \<inter> dom ps = {}
       \<and> ps' = (\<lambda>p. if p \<in> set paths then Some nm else ps p)
   | Inl e \<Rightarrow> \<not> distinct paths \<or> set paths \<inter> dom ps \<noteq> {}"
proof (induction paths arbitrary: ps)
  case (Cons p paths)
  show ?case
  proof (cases "ps p")
    case None
    then have dom: "dom (ps(p \<mapsto> nm)) = insert p (dom ps)" "p \<notin> dom ps" by auto
    note IH = Cons.IH [of "ps(p \<mapsto> nm)", unfolded dom(1)]
    show ?thesis
    proof (cases "claim_paths nm paths (ps(p \<mapsto> nm))")
      case (Inl e)
      then have "claim_paths nm (p # paths) ps = Inl e" using None by simp
      moreover from IH have "\<not> distinct paths \<or> set paths \<inter> insert p (dom ps) \<noteq> {}"
        unfolding Inl by simp
      ultimately show ?thesis by auto
    next
      case (Inr ps')
      from IH have "distinct (p # paths)" "set paths \<inter> dom ps = {}"
        "ps' = (\<lambda>q. if q \<in> set (p # paths) then Some nm else ps q)"
        unfolding Inr by (auto simp: fun_eq_iff)
      with Inr None dom(2) show ?thesis by (simp add: fun_eq_iff)
    qed
  next
    case (Some first)
    then show ?thesis by auto
  qed
qed auto

definition claimed :: "UnitConfig list \<Rightarrow> string list" where
  "claimed cfgs = concat (map sockets cfgs)"

lemma claim_sockets_result:
  "case claim_sockets cfgs ps of
     Inr ps' \<Rightarrow> distinct (claimed cfgs) \<and> set (claimed cfgs) \<inter> dom ps = {}
       \<and> (\<forall>path nm. ps' path = Some nm \<longleftrightarrow>
            ps path = Some nm \<or> (\<exists>c \<in> set cfgs. path \<in> set (sockets c) \<and> cfg_name c = nm))
   | Inl e \<Rightarrow> \<not> distinct (claimed cfgs) \<or> set (claimed cfgs) \<inter> dom ps \<noteq> {}"
proof (induction cfgs arbitrary: ps)
  case (Cons c cfgs)
  note P = claim_paths_result [where nm = "cfg_name c" and paths = "sockets c" and ps = ps]
  show ?case
  proof (cases "claim_paths (cfg_name c) (sockets c) ps")
    case (Inl e)
    then show ?thesis using P by (auto simp: claimed_def)
  next
    case (Inr ps1)
    with P have ps1: "distinct (sockets c)" "set (sockets c) \<inter> dom ps = {}"
      "ps1 = (\<lambda>p. if p \<in> set (sockets c) then Some (cfg_name c) else ps p)" by auto
    then have dom1: "dom ps1 = set (sockets c) \<union> dom ps" by (auto split: if_splits)
    show ?thesis
    proof (cases "claim_sockets cfgs ps1")
      case (Inl e)
      then show ?thesis
        using Cons.IH [of ps1] Inr ps1(1,2) dom1 by (auto simp: claimed_def)
    next
      case (Inr ps2)
      note IH = Cons.IH [of ps1, unfolded Inr, simplified]
      have "ps2 path = Some nm \<longleftrightarrow>
          ps path = Some nm \<or> (\<exists>d \<in> set (c # cfgs). path \<in> set (sockets d) \<and> cfg_name d = nm)" for path nm
        using IH ps1(2,3) by (auto split: if_splits)
      moreover have "distinct (claimed (c # cfgs)) \<and> set (claimed (c # cfgs)) \<inter> dom ps = {}"
        using IH ps1(1,2) dom1 by (auto simp: claimed_def)
      ultimately show ?thesis
        using Inr \<open>claim_paths (cfg_name c) (sockets c) ps = Inr ps1\<close> by simp
    qed
  qed
qed (simp add: claimed_def)

lemma needed_providers_result:
  "set (fst (needed_providers ps nm paths)) = {p. p \<noteq> nm \<and> (\<exists>path \<in> set paths. ps path = Some p)}"
  "set (snd (needed_providers ps nm paths)) = no_provider nm ` {path \<in> set paths. ps path = None}"
  by (induction paths) (auto simp: Let_def split: prod.splits option.splits)

lemma require_provider_fold:
  "set (requires (foldl require_provider d reqs)) = set (requires d) \<union> set reqs
   \<and> set (after (foldl require_provider d reqs)) = set (after d) \<union> set reqs
   \<and> wants (foldl require_provider d reqs) = wants d \<and> before (foldl require_provider d reqs) = before d
   \<and> conflicts (foldl require_provider d reqs) = conflicts d"
  by (induction reqs arbitrary: d) (auto simp: require_provider_def)

lemma resolve_config_result:
  "cfg_name (fst (resolve_config ps c)) = cfg_name c"
  "set (requires (deps (fst (resolve_config ps c)))) =
     set (requires (deps c)) \<union> {p. p \<noteq> cfg_name c \<and> (\<exists>path \<in> set (needs_socket c). ps path = Some p)}"
  "set (after (deps (fst (resolve_config ps c)))) =
     set (after (deps c)) \<union> {p. p \<noteq> cfg_name c \<and> (\<exists>path \<in> set (needs_socket c). ps path = Some p)}"
  by (simp_all add: resolve_config_def split_beta Let_def require_provider_fold needed_providers_result)

lemma resolve_sockets_Inr:
  assumes "resolve_sockets cfgs = Inr (cfgs', warns)"
  obtains ps where "cfgs' = map (fst \<circ> resolve_config ps) cfgs"
    "warns = concat (map (snd \<circ> resolve_config ps) cfgs)"
    "distinct (claimed cfgs)"
    "\<And>path nm. ps path = Some nm \<longleftrightarrow> (\<exists>c \<in> set cfgs. path \<in> set (sockets c) \<and> cfg_name c = nm)"
  using assms claim_sockets_result [of cfgs Map.empty] that
  by (auto simp: resolve_sockets_def rbind_Inr_iff Let_def comp_def split: sum.splits)

section \<open>Properties\<close>

text \<open>Two units connected by a socket, and by a directive, for the concrete instances.\<close>

definition app_cfg :: UnitConfig where
  "app_cfg = (new_config (UnitName ''app.service'' Service))\<lparr>needs_socket := [''/run/db'']\<rparr>"
definition db_cfg :: UnitConfig where
  "db_cfg = (new_config (UnitName ''db.service'' Service))\<lparr>sockets := [''/run/db'']\<rparr>"
definition app_deps :: UnitConfig where
  "app_deps = app_cfg\<lparr>deps := no_dependencies\<lparr>requires := [cfg_name db_cfg]\<rparr>\<rparr>"

text \<open>
  Property C25. A schedule exists exactly when the unit names are distinct, every \<open>Requires=\<close>, \<open>After=\<close> and
  \<open>Before=\<close> reference names a loaded unit, no unit transitively waits for itself, and the boot
  target is one of the units. In particular \<open>levels\<close> never fails on a graph that \<open>build\<close> returned.
\<close>

theorem schedule_succeeds_iff:
  "(\<exists>ls. schedule cfgs default_target = Inr ls) \<longleftrightarrow>
     distinct (map cfg_name cfgs) \<and> (\<Union>c \<in> set cfgs. hard_refs c) \<subseteq> names cfgs
     \<and> (\<nexists>u. (must_wait cfgs)\<^sup>+\<^sup>+ u u) \<and> default_target \<in> names cfgs"
proof (cases "build cfgs")
  case (Inl e)
  then show ?thesis using build_succeeds_iff [of cfgs] by (simp add: schedule_def)
next
  case (Inr g)
  note G = build_graph_for [OF Inr, unfolded graph_for_def]
  have "\<nexists>p. closed_walk g p"
    using Inr build_acyclic by blast
  then have "\<exists>ls. levels g = Inr ls"
    using topological_order_cases [of g] G by (auto simp: levels_def rbind_Inr_iff split: sum.splits)
  then show ?thesis
    using Inr G build_succeeds_iff [of cfgs] by (auto simp: schedule_def)
qed

text \<open>
  A graph that \<open>build\<close> returns is well formed and says what the unit files say: a unit waits for
  its \<open>Requires=\<close>, \<open>Wants=\<close> and \<open>After=\<close> references and for the units that declare it in \<open>Before=\<close>;
  only \<open>Requires=\<close> and \<open>Wants=\<close> pull units in; and the warnings are exactly the dangling
  \<open>Wants=\<close> and \<open>Conflicts=\<close> references.
\<close>

theorem build_edges:
  assumes "build cfgs = Inr g" "u \<in> names cfgs"
  shows "wf_graph g \<and> set (units g) = names cfgs
    \<and> set (dependencies_of g u) = {v. must_wait cfgs u v}
    \<and> set (closure_of g u) = {v. (\<lambda>a b. b \<in> names cfgs \<and> (\<exists>c \<in> set cfgs. pulls_in c a b))\<^sup>*\<^sup>* u v}
    \<and> set (warnings g) = (\<Union>c \<in> set cfgs. dangling_refs (names cfgs) c)"
  using assms by (rule build_graph_facts)

theorem build_edges_witness:
  "\<exists>g. build [app_deps, db_cfg] = Inr g \<and>
     set (dependencies_of g (cfg_name app_deps)) = {v. must_wait [app_deps, db_cfg] (cfg_name app_deps) v}"
proof -
  have "\<not> isl (build [app_deps, db_cfg])" by code_simp
  then obtain g where g: "build [app_deps, db_cfg] = Inr g" by (cases "build [app_deps, db_cfg]") auto
  then show ?thesis using build_edges [OF g, of "cfg_name app_deps"] by (auto simp: names_def)
qed

lemma levels_wait:
  assumes "build cfgs = Inr g" "levels g = Inr ls" "must_wait cfgs u v"
  shows "\<exists>i j. i < j \<and> on_level ls v i \<and> on_level ls u j"
proof -
  note G = build_graph_for [OF assms(1), unfolded graph_for_def]
  note L = levels_partition [OF conjunct1 [OF G] assms(2)]
  have u: "u \<in> set (units g)" "v \<in> set (dependencies_of g u)"
    using assms(3) G dependencies_of_linked [of g u] by (auto simp: must_wait_def)
  then have "u \<in> set (concat ls)" using L by simp
  then obtain j where "j < length ls" "u \<in> set (ls ! j)"
    by (metis UnionE in_set_conv_nth nth_map set_concat length_map imageE)
  then have "on_level ls u j" by (simp add: on_level_def)
  then have "level_exact g ls u j" using L by blast
  with u(2) \<open>on_level ls u j\<close> show ?thesis unfolding level_exact_def by blast
qed

text \<open>
  A schedule lists every unit exactly once, and whenever the directives make one unit wait for
  another, the other one is on a strictly earlier level.
\<close>

theorem schedule_respects_directives:
  assumes "schedule cfgs default_target = Inr ls"
  shows "default_target \<in> names cfgs \<and> distinct (concat ls) \<and> set (concat ls) = names cfgs
    \<and> (\<forall>u v. must_wait cfgs u v \<longrightarrow> (\<exists>i j. i < j \<and> on_level ls v i \<and> on_level ls u j))"
proof -
  from assms obtain g where g: "build cfgs = Inr g" "default_target \<in> set (units g)" "levels g = Inr ls"
    by (auto simp: schedule_def rbind_Inr_iff split: if_splits)
  note G = build_graph_for [OF g(1), unfolded graph_for_def]
  note L = levels_partition [OF conjunct1 [OF G] g(3)]
  note W = levels_wait [OF g(1,3)]
  show ?thesis using g(2) G L W by blast
qed

theorem schedule_respects_directives_witness:
  "schedule [app_deps, db_cfg] (cfg_name db_cfg) = Inr [[cfg_name db_cfg], [cfg_name app_deps]]
   \<and> distinct (concat [[cfg_name db_cfg], [cfg_name app_deps]])"
proof -
  have s: "schedule [app_deps, db_cfg] (cfg_name db_cfg) = Inr [[cfg_name db_cfg], [cfg_name app_deps]]"
    by code_simp
  show ?thesis using schedule_respects_directives [OF s] s by blast
qed

text \<open>
  When one unit needs a socket path that another declares, the resolved configurations give a
  graph in which the consumer waits for the provider and starting the consumer pulls it in.
\<close>

theorem sockets_order_the_boot:
  assumes "resolve_sockets cfgs = Inr (cfgs', warns)" "build cfgs' = Inr g"
    "consumer \<in> set cfgs" "provider \<in> set cfgs" "cfg_name provider \<noteq> cfg_name consumer"
    "path \<in> set (needs_socket consumer)" "path \<in> set (sockets provider)"
  shows "cfg_name provider \<in> set (dependencies_of g (cfg_name consumer))
    \<and> cfg_name provider \<in> set (closure_of g (cfg_name consumer))"
proof -
  from resolve_sockets_Inr [OF assms(1)] obtain ps where
    ps: "cfgs' = map (fst \<circ> resolve_config ps) cfgs"
      "\<And>path nm. ps path = Some nm \<longleftrightarrow> (\<exists>c \<in> set cfgs. path \<in> set (sockets c) \<and> cfg_name c = nm)"
    by metis
  let ?c = "fst (resolve_config ps consumer)"
  have known: "names cfgs' = names cfgs"
    unfolding ps(1) names_def by (auto simp: resolve_config_result image_iff)
  have c: "?c \<in> set cfgs'" "cfg_name ?c = cfg_name consumer"
    using assms(3) ps(1) by (auto simp: resolve_config_result)
  have nm: "cfg_name consumer \<in> names cfgs'" "cfg_name provider \<in> names cfgs'"
    using assms(3,4) known by (auto simp: names_def)
  have "cfg_name provider \<in> set (requires (deps ?c))"
    using assms(4-7) ps(2) by (auto simp: resolve_config_result)
  then have "must_wait cfgs' (cfg_name consumer) (cfg_name provider)"
    "pulls_in ?c (cfg_name consumer) (cfg_name provider)"
    using c nm unfolding must_wait_def orders_def pulls_in_def by (metis UnI1)+
  with nm show ?thesis
    using build_graph_facts [OF assms(2) nm(1)] c(1) by (auto intro!: r_into_rtranclp)
qed

theorem sockets_order_the_boot_witness:
  "\<exists>cfgs' warns g. resolve_sockets [app_cfg, db_cfg] = Inr (cfgs', warns) \<and> build cfgs' = Inr g
     \<and> cfg_name db_cfg \<in> set (dependencies_of g (cfg_name app_cfg))"
proof -
  obtain cfgs' warns where r: "resolve_sockets [app_cfg, db_cfg] = Inr (cfgs', warns)"
  proof -
    have "\<not> isl (resolve_sockets [app_cfg, db_cfg])" by code_simp
    then show ?thesis using that by (cases "resolve_sockets [app_cfg, db_cfg]") auto
  qed
  obtain g where g: "build cfgs' = Inr g"
  proof -
    have "\<not> isl (rbind (resolve_sockets [app_cfg, db_cfg]) (\<lambda>(c, w). build c))" by code_simp
    then show ?thesis using r that by (cases "build cfgs'") auto
  qed
  have "''/run/db'' \<in> set (needs_socket app_cfg)" "''/run/db'' \<in> set (sockets db_cfg)"
    "cfg_name db_cfg \<noteq> cfg_name app_cfg" by code_simp+
  with sockets_order_the_boot [OF r g, of app_cfg db_cfg "''/run/db''"] r g show ?thesis by auto
qed

text \<open>
  Socket resolution succeeds exactly when no socket path is declared twice.
\<close>

theorem resolve_sockets_succeeds_iff:
  "(\<exists>r. resolve_sockets cfgs = Inr r) \<longleftrightarrow> distinct (concat (map sockets cfgs))"
  using claim_sockets_result [of cfgs Map.empty]
  by (auto simp: resolve_sockets_def rbind_Inr_iff Let_def claimed_def split: sum.splits)

end
