(* ===== verification/Unit_Parser.thy ===== *)
theory Unit_Parser
  imports Unit_Lexer
begin

text \<open>
  The directive half of \<open>rinit-core/src/unit/parser.rs\<close>: the value readers, the dispatch of an
  entry to its configuration field, and the checks made once the whole file has been read.
  The \<open>match\<close> over directives is split into groups in the order of the source; a group answers
  \<open>None\<close> for a key it does not define.

  The properties: every configuration that is returned satisfies the contract the rest of the
  manager relies on; a repeated single-valued directive is always rejected; every reported
  line number is a line of the file; and every command line can be written in a unit file.
\<close>

section \<open>Definitions\<close>

subsection \<open>Value readers\<close>

abbreviation squote :: char where "squote \<equiv> CHR 0x27"

datatype Zero = Allowed | Rejected

definition REPEATABLE :: "string list" where
  "REPEATABLE = [''Environment'', ''Sockets'', ''NeedsSocket'', ''Requires'', ''Wants'', ''After'',
     ''Before'', ''Conflicts'', ''ExecStartPre'', ''ExecStartPost'']"

definition invalid :: "nat \<Rightarrow> string \<Rightarrow> string \<Rightarrow> string \<Rightarrow> ParseError" where
  "invalid line key value reason = InvalidValue line key value (Reason reason)"

definition command :: "string list \<Rightarrow> ExecCommand" where
  "command tokens = (if list_all (\<lambda>t. t = []) tokens then exec_empty else ExecCommand tokens)"

definition number :: "nat \<Rightarrow> string \<Rightarrow> string list \<Rightarrow> Zero \<Rightarrow> ParseError + nat" where
  "number line key tokens zero =
     (let text = join_tokens tokens in
      rbind (ok_or (invalid line key text ''expected a non-negative integer'') (parse_uint u64_max text))
        (\<lambda>value. if zero = Rejected \<and> value = 0
                  then Inl (invalid line key text ''0 is not allowed for this directive'')
                  else Inr value))"

definition boolean :: "nat \<Rightarrow> string \<Rightarrow> string list \<Rightarrow> ParseError + bool" where
  "boolean line key tokens =
     (let text = join_tokens tokens in
      if text = ''true'' then Inr True
      else if text = ''false'' then Inr False
      else Inl (invalid line key text (''expected 'true' or 'false'' @ [squote])))"

fun caps :: "nat \<Rightarrow> string \<Rightarrow> string list \<Rightarrow> ParseError + Cap list" where
  "caps line key [] = Inr []"
| "caps line key (token # tokens) =
     rbind (ok_or (invalid line key token ''not a valid capability name'') (cap_parse token))
       (\<lambda>cap. rbind (caps line key tokens) (\<lambda>out. Inr (cap # out)))"

fun environment :: "nat \<Rightarrow> string \<Rightarrow> string list \<Rightarrow> ParseError + (string \<times> string) list" where
  "environment line key [] = Inr []"
| "environment line key (token # tokens) =
     rbind (ok_or (invalid line key token ''expected KEY=VALUE'') (split_once CHR ''='' token))
       (\<lambda>(k, v). if k = [] then Inl (invalid line key token ''the variable name is empty'')
                  else rbind (environment line key tokens) (\<lambda>out. Inr ((k, v) # out)))"

definition size_limit :: "nat \<Rightarrow> string \<Rightarrow> string \<Rightarrow> ParseError + SizeBytes" where
  "size_limit line key text =
     (case size_parse text of
        Some value \<Rightarrow> if size_bytes value = 0
                      then Inl (invalid line key text ''0 is not a valid limit'') else Inr value
      | None \<Rightarrow> Inl (invalid line key text ''expected a byte count with an optional K/M/G suffix''))"

definition require_absolute :: "nat \<Rightarrow> string \<Rightarrow> string \<Rightarrow> ParseError + unit" where
  "require_absolute line key path =
     (if starts_with_char CHR ''/'' path then Inr ()
      else Inl (invalid line key path ''expected an absolute path''))"

text \<open>The shape the path directives share: an empty value leaves the field alone.\<close>

definition absolute_path ::
  "nat \<Rightarrow> string \<Rightarrow> string list \<Rightarrow> (string \<Rightarrow> UnitConfig) \<Rightarrow> UnitConfig \<Rightarrow> ParseError + UnitConfig" where
  "absolute_path line key tokens assign cfg =
     (if tokens = [] then Inr cfg
      else let path = join_tokens tokens in
        rbind (require_absolute line key path) (\<lambda>_. Inr (assign path)))"

fun unit_names :: "nat \<Rightarrow> string \<Rightarrow> string list \<Rightarrow> ParseError + UnitName list" where
  "unit_names line key [] = Inr []"
| "unit_names line key (token # tokens) =
     (case parse_unit_name token of
        Inl e \<Rightarrow> Inl (InvalidValue line key token (BadName e))
      | Inr u \<Rightarrow> rbind (unit_names line key tokens) (\<lambda>us. Inr (u # us)))"

subsection \<open>The parser's state and its directives\<close>

record Parser =
  p_name :: UnitName
  p_cfg :: UnitConfig
  declared_unit_type :: "UnitType option"
  current_section :: "Section option"
  seen :: "(string \<times> string) list"
  service_type_line :: "nat option"
  restart_line :: "nat option"

definition parser_new :: "UnitName \<Rightarrow> Parser" where
  "parser_new nm = \<lparr>p_name = nm, p_cfg = new_config nm, declared_unit_type = None,
     current_section = None, seen = [], service_type_line = None, restart_line = None\<rparr>"

definition deps_upd :: "(Dependencies \<Rightarrow> Dependencies) \<Rightarrow> UnitConfig \<Rightarrow> UnitConfig" where
  "deps_upd f cfg = cfg\<lparr>deps := f (deps cfg)\<rparr>"

definition unit_list ::
  "nat \<Rightarrow> string \<Rightarrow> string list \<Rightarrow> (UnitName list \<Rightarrow> Dependencies \<Rightarrow> Dependencies) \<Rightarrow> Parser \<Rightarrow> ParseError + Parser" where
  "unit_list line key tokens slot p =
     rbind (unit_names line key tokens)
       (\<lambda>us. Inr (p\<lparr>p_cfg := deps_upd (slot us) (p_cfg p)\<rparr>))"

definition declared_type :: "nat \<Rightarrow> string \<Rightarrow> string \<Rightarrow> Parser \<Rightarrow> ParseError + Parser" where
  "declared_type line key declared p =
     (if declared = ''service'' then Inr (p\<lparr>declared_unit_type := Some Service\<rparr>)
      else if declared = ''target'' then Inr (p\<lparr>declared_unit_type := Some Target\<rparr>)
      else Inl (invalid line key declared (''expected 'service' or 'target'' @ [squote])))"

definition unit_entry ::
  "nat \<Rightarrow> string \<Rightarrow> string list \<Rightarrow> Parser \<Rightarrow> (ParseError + Parser) option" where
  "unit_entry line key tokens p =
     (if key = ''Description'' then
        Some (Inr (p\<lparr>p_cfg := (p_cfg p)\<lparr>description := join_tokens tokens\<rparr>\<rparr>))
      else if key = ''Documentation'' then
        Some (Inr (p\<lparr>p_cfg := (p_cfg p)\<lparr>documentation := join_tokens tokens\<rparr>\<rparr>))
      else if key = ''Type'' then Some (declared_type line key (join_tokens tokens) p)
      else if key = ''Requires'' then
        Some (unit_list line key tokens (\<lambda>us d. d\<lparr>requires := requires d @ us\<rparr>) p)
      else if key = ''Wants'' then
        Some (unit_list line key tokens (\<lambda>us d. d\<lparr>wants := wants d @ us\<rparr>) p)
      else if key = ''After'' then
        Some (unit_list line key tokens (\<lambda>us d. d\<lparr>after := after d @ us\<rparr>) p)
      else if key = ''Before'' then
        Some (unit_list line key tokens (\<lambda>us d. d\<lparr>before := before d @ us\<rparr>) p)
      else if key = ''Conflicts'' then
        Some (unit_list line key tokens (\<lambda>us d. d\<lparr>conflicts := conflicts d @ us\<rparr>) p)
      else None)"

definition service_type :: "nat \<Rightarrow> string \<Rightarrow> string \<Rightarrow> Parser \<Rightarrow> ParseError + Parser" where
  "service_type line key declared p =
     rbind (ok_or (invalid line key declared (''expected 'simple', 'oneshot', 'notify' or 'forking'' @ [squote]))
              (service_kind_parse declared))
       (\<lambda>k. Inr (p\<lparr>service_type_line := Some line, p_cfg := (p_cfg p)\<lparr>service_kind := k\<rparr>\<rparr>))"

definition restart_entry :: "nat \<Rightarrow> string \<Rightarrow> string \<Rightarrow> Parser \<Rightarrow> ParseError + Parser" where
  "restart_entry line key declared p =
     rbind (ok_or (invalid line key declared
                     (''expected 'no', 'always', 'on-success', 'on-failure' or 'on-abnormal'' @ [squote]))
              (restart_policy_parse declared))
       (\<lambda>r. Inr (p\<lparr>restart_line := Some line, p_cfg := (p_cfg p)\<lparr>restart := r\<rparr>\<rparr>))"

definition push_command :: "(ExecCommand \<Rightarrow> UnitConfig) \<Rightarrow> ExecCommand \<Rightarrow> UnitConfig \<Rightarrow> UnitConfig" where
  "push_command assign cmd cfg = (if exec_is_empty cmd then cfg else assign cmd)"

definition exec_entry ::
  "nat \<Rightarrow> string \<Rightarrow> string list \<Rightarrow> Parser \<Rightarrow> (ParseError + Parser) option" where
  "exec_entry line key tokens p =
     (let cfg = p_cfg p; cmd = command tokens in
      if key = ''Type'' then Some (service_type line key (join_tokens tokens) p)
      else if key = ''ExecStart'' then Some (Inr (p\<lparr>p_cfg := cfg\<lparr>exec_start := cmd\<rparr>\<rparr>))
      else if key = ''ExecStop'' then Some (Inr (p\<lparr>p_cfg := cfg\<lparr>exec_stop := cmd\<rparr>\<rparr>))
      else if key = ''ExecStartPre'' then
        Some (Inr (p\<lparr>p_cfg := push_command
          (\<lambda>c. cfg\<lparr>exec_start_pre := exec_start_pre cfg @ [c]\<rparr>) cmd cfg\<rparr>))
      else if key = ''ExecStartPost'' then
        Some (Inr (p\<lparr>p_cfg := push_command
          (\<lambda>c. cfg\<lparr>exec_start_post := exec_start_post cfg @ [c]\<rparr>) cmd cfg\<rparr>))
      else if key = ''HealthCheck'' then Some (Inr (p\<lparr>p_cfg := cfg\<lparr>health_check := cmd\<rparr>\<rparr>))
      else if key = ''Restart'' then Some (restart_entry line key (join_tokens tokens) p)
      else None)"

definition MAX_START_LIMIT_BURST :: nat where
  "MAX_START_LIMIT_BURST = 1000000"

definition start_limit_burst_entry ::
  "nat \<Rightarrow> string \<Rightarrow> string list \<Rightarrow> UnitConfig \<Rightarrow> ParseError + UnitConfig" where
  "start_limit_burst_entry line key tokens cfg =
     rbind (number line key tokens Rejected)
       (\<lambda>v. if u32_max < v then Inl (invalid line key (join_tokens tokens) ''must fit in 32 bits'')
             else if MAX_START_LIMIT_BURST < v
             then Inl (invalid line key (join_tokens tokens)
                         ''is larger than the supported maximum of 1000000'')
             else Inr (cfg\<lparr>start_limit_burst := v\<rparr>))"

definition number_entry ::
  "nat \<Rightarrow> string \<Rightarrow> string list \<Rightarrow> UnitConfig \<Rightarrow> (ParseError + UnitConfig) option" where
  "number_entry line key tokens cfg =
     (let read = (\<lambda>zero assign. Some (rbind (number line key tokens zero) (\<lambda>v. Inr (assign v)))) in
      if key = ''RestartSec'' then read Allowed (\<lambda>v. cfg\<lparr>restart_sec := v\<rparr>)
      else if key = ''StartLimitBurst'' then Some (start_limit_burst_entry line key tokens cfg)
      else if key = ''StartLimitIntervalSec'' then
        read Allowed (\<lambda>v. cfg\<lparr>start_limit_interval_sec := v\<rparr>)
      else if key = ''TimeoutStartSec'' then read Allowed (\<lambda>v. cfg\<lparr>timeout_start_sec := v\<rparr>)
      else if key = ''TimeoutStopSec'' then read Allowed (\<lambda>v. cfg\<lparr>timeout_stop_sec := v\<rparr>)
      else if key = ''HealthIntervalSec'' then read Rejected (\<lambda>v. cfg\<lparr>health_interval_sec := v\<rparr>)
      else if key = ''HealthTimeoutSec'' then read Rejected (\<lambda>v. cfg\<lparr>health_timeout_sec := v\<rparr>)
      else None)"

definition identity_entry ::
  "nat \<Rightarrow> string \<Rightarrow> string list \<Rightarrow> UnitConfig \<Rightarrow> (ParseError + UnitConfig) option" where
  "identity_entry line key tokens cfg =
     (if key = ''User'' then Some (Inr (cfg\<lparr>cfg_user := join_tokens tokens\<rparr>))
      else if key = ''Group'' then Some (Inr (cfg\<lparr>cfg_group := join_tokens tokens\<rparr>))
      else if key = ''NoNewPrivileges'' then
        Some (rbind (boolean line key tokens) (\<lambda>b. Inr (cfg\<lparr>no_new_privileges := b\<rparr>)))
      else if key = ''HealthRestartOnFailure'' then
        Some (rbind (boolean line key tokens) (\<lambda>b. Inr (cfg\<lparr>health_restart_on_failure := b\<rparr>)))
      else if key = ''CapabilityBoundingSet'' then
        Some (rbind (caps line key tokens) (\<lambda>cs. Inr (cfg\<lparr>capability_bounding_set := Some cs\<rparr>)))
      else if key = ''AmbientCapabilities'' then
        Some (rbind (caps line key tokens) (\<lambda>cs. Inr (cfg\<lparr>ambient_capabilities := Some cs\<rparr>)))
      else if key = ''Environment'' then
        Some (rbind (environment line key tokens)
          (\<lambda>extra. Inr (cfg\<lparr>cfg_environment := cfg_environment cfg @ extra\<rparr>)))
      else None)"

definition path_entry ::
  "nat \<Rightarrow> string \<Rightarrow> string list \<Rightarrow> UnitConfig \<Rightarrow> (ParseError + UnitConfig) option" where
  "path_entry line key tokens cfg =
     (let path = (\<lambda>assign. Some (absolute_path line key tokens assign cfg)) in
      if key = ''EnvironmentFile'' then path (\<lambda>x. cfg\<lparr>environment_file := x\<rparr>)
      else if key = ''WorkingDirectory'' then path (\<lambda>x. cfg\<lparr>working_directory := x\<rparr>)
      else if key = ''SocketActivate'' then path (\<lambda>x. cfg\<lparr>socket_activate := Some x\<rparr>)
      else if key = ''IdleTimeoutSec'' then
        Some (rbind (number line key tokens Allowed) (\<lambda>v. Inr (cfg\<lparr>idle_timeout_sec := v\<rparr>)))
      else if key = ''Sockets'' then path (\<lambda>x. cfg\<lparr>sockets := sockets cfg @ [x]\<rparr>)
      else if key = ''NeedsSocket'' then path (\<lambda>x. cfg\<lparr>needs_socket := needs_socket cfg @ [x]\<rparr>)
      else if key = ''TTYPath'' then path (\<lambda>x. cfg\<lparr>tty_path := Some x\<rparr>)
      else if key = ''TTYReset'' then
        Some (rbind (boolean line key tokens) (\<lambda>b. Inr (cfg\<lparr>tty_reset := b\<rparr>)))
      else if key = ''PIDFile'' then path (\<lambda>x. cfg\<lparr>pid_file := Some x\<rparr>)
      else None)"

definition cgroup_entry ::
  "nat \<Rightarrow> string \<Rightarrow> string list \<Rightarrow> UnitConfig \<Rightarrow> (ParseError + UnitConfig) option" where
  "cgroup_entry line key tokens cfg =
     (let text = join_tokens tokens in
      if key = ''CgroupMemoryMax'' then
        Some (rbind (size_limit line key text) (\<lambda>v. Inr (cfg\<lparr>cgroup_memory_max := Some v\<rparr>)))
      else if key = ''CgroupMemoryHigh'' then
        Some (rbind (size_limit line key text) (\<lambda>v. Inr (cfg\<lparr>cgroup_memory_high := Some v\<rparr>)))
      else if key = ''CgroupCPUMax'' then
        Some (rbind (ok_or (invalid line key text (''expected '50%' or 'quota period'' @ [squote]))
                       (cpu_quota_parse text))
                (\<lambda>v. Inr (cfg\<lparr>cgroup_cpu_max := Some v\<rparr>)))
      else if key = ''CgroupTasksMax'' then
        Some (rbind (number line key tokens Rejected) (\<lambda>v. Inr (cfg\<lparr>cgroup_tasks_max := Some v\<rparr>)))
      else None)"

text \<open>The groups after the first only touch the configuration.\<close>

definition on_cfg :: "Parser \<Rightarrow> (ParseError + UnitConfig) option \<Rightarrow> (ParseError + Parser) option" where
  "on_cfg p r = map_option (\<lambda>m. rbind m (\<lambda>cfg. Inr (p\<lparr>p_cfg := cfg\<rparr>))) r"

definition dispatch ::
  "Section \<Rightarrow> nat \<Rightarrow> string \<Rightarrow> string list \<Rightarrow> Parser \<Rightarrow> ParseError + Parser" where
  "dispatch section line key tokens p =
     (let unknown = Inl (UnknownKey line (section_str section) key); cfg = p_cfg p in
      case section of
        SUnit \<Rightarrow> (case unit_entry line key tokens p of Some r \<Rightarrow> r | None \<Rightarrow> unknown)
      | SService \<Rightarrow>
          (case exec_entry line key tokens p of Some r \<Rightarrow> r | None \<Rightarrow>
           case on_cfg p (number_entry line key tokens cfg) of Some r \<Rightarrow> r | None \<Rightarrow>
           case on_cfg p (identity_entry line key tokens cfg) of Some r \<Rightarrow> r | None \<Rightarrow>
           case on_cfg p (path_entry line key tokens cfg) of Some r \<Rightarrow> r | None \<Rightarrow>
           case on_cfg p (cgroup_entry line key tokens cfg) of Some r \<Rightarrow> r | None \<Rightarrow> unknown))"

definition note_key :: "Section \<Rightarrow> nat \<Rightarrow> string \<Rightarrow> Parser \<Rightarrow> ParseError + Parser" where
  "note_key section line key p =
     (if key \<in> set REPEATABLE then Inr p
      else if (section_str section, key) \<in> set (seen p) then Inl (DuplicateKey line key)
      else Inr (p\<lparr>seen := seen p @ [(section_str section, key)]\<rparr>))"

definition entry :: "Section \<Rightarrow> nat \<Rightarrow> string \<Rightarrow> Parser \<Rightarrow> ParseError + Parser" where
  "entry section line text p =
     rbind (ok_or (Syntax line (ExpectedKeyValue text)) (split_entry text))
       (\<lambda>(key, value).
          rbind (note_key section line key p)
            (\<lambda>p'. rbind (tokenize value line) (\<lambda>tokens. dispatch section line key tokens p')))"

fun run_lines :: "(nat \<times> string) list \<Rightarrow> Parser \<Rightarrow> ParseError + Parser" where
  "run_lines [] p = Inr p"
| "run_lines ((line_no, line) # rest) p =
     (let trimmed = trim line in
      if trimmed = [] \<or> starts_with_char CHR ''#'' trimmed then run_lines rest p
      else rbind (section_header trimmed line_no)
        (\<lambda>header.
           case header of
             Some section \<Rightarrow> run_lines rest (p\<lparr>current_section := Some section\<rparr>)
           | None \<Rightarrow>
               (case current_section p of
                  None \<Rightarrow> Inl (EntryOutsideSection line_no (trim (hd (split_char CHR ''='' trimmed))))
                | Some section \<Rightarrow> rbind (entry section line_no trimmed p) (run_lines rest))))"

definition type_word :: "UnitType \<Rightarrow> string" where
  "type_word t = (case t of Service \<Rightarrow> ''service'' | Target \<Rightarrow> ''target'')"

definition finish_checks :: "Parser \<Rightarrow> UnitConfig \<Rightarrow> ParseError + UnitConfig" where
  "finish_checks p cfg =
     (if \<not> is_target cfg \<and> exec_is_empty (exec_start cfg)
      then Inl (MissingExecStart (canonical (p_name p)))
      else if service_kind cfg = Oneshot \<and> restart cfg \<noteq> No
      then Inl (invalid
             (case restart_line p of Some l \<Rightarrow> l
              | None \<Rightarrow> (case service_type_line p of Some l \<Rightarrow> l | None \<Rightarrow> 0))
             ''Restart'' ''Type=oneshot''
             ''cannot restart a oneshot; use Type=simple or Restart=no'')
      else Inr cfg)"

definition finish :: "Parser \<Rightarrow> ParseError + UnitConfig" where
  "finish p =
     (let nm = p_name p; cfg = (p_cfg p)\<lparr>cfg_kind := unit_type nm\<rparr> in
      case declared_unit_type p of
        Some declared \<Rightarrow>
          if declared \<noteq> unit_type nm
          then Inl (TypeSuffixConflict (canonical nm) (type_word declared) (type_word (unit_type nm)))
          else finish_checks p cfg
      | None \<Rightarrow> finish_checks p cfg)"

definition run :: "UnitName \<Rightarrow> string \<Rightarrow> ParseError + UnitConfig" where
  "run nm input = rbind (run_lines (logical_lines input) (parser_new nm)) finish"

definition parse :: "UnitName \<Rightarrow> string \<Rightarrow> ParseError + UnitConfig" where
  "parse nm input = run nm input"

section \<open>The contract of a parsed unit\<close>

abbreviation absolute :: "string \<Rightarrow> bool" where
  "absolute path \<equiv> starts_with_char CHR ''/'' path"

definition wf_numbers :: "UnitConfig \<Rightarrow> bool" where
  "wf_numbers c \<longleftrightarrow>
     1 \<le> start_limit_burst c \<and> start_limit_burst c \<le> MAX_START_LIMIT_BURST
     \<and> 1 \<le> health_interval_sec c \<and> 1 \<le> health_timeout_sec c
     \<and> list_all (\<lambda>n. n \<le> u64_max)
          [restart_sec c, start_limit_interval_sec c, timeout_start_sec c, timeout_stop_sec c,
           idle_timeout_sec c, health_interval_sec c, health_timeout_sec c]"

definition wf_limits :: "UnitConfig \<Rightarrow> bool" where
  "wf_limits c \<longleftrightarrow>
     pred_option (\<lambda>v. 0 < size_bytes v) (cgroup_memory_max c)
     \<and> pred_option (\<lambda>v. 0 < size_bytes v) (cgroup_memory_high c)
     \<and> pred_option (\<lambda>n. 0 < n) (cgroup_tasks_max c)"

definition wf_paths :: "UnitConfig \<Rightarrow> bool" where
  "wf_paths c \<longleftrightarrow>
     absolute (working_directory c) \<and> (environment_file c = [] \<or> absolute (environment_file c))
     \<and> pred_option absolute (socket_activate c) \<and> pred_option absolute (tty_path c)
     \<and> pred_option absolute (pid_file c)
     \<and> list_all absolute (sockets c) \<and> list_all absolute (needs_socket c)"

definition wf_commands :: "UnitConfig \<Rightarrow> bool" where
  "wf_commands c \<longleftrightarrow>
     list_all (\<lambda>x. \<not> exec_is_empty x) (exec_start_pre c)
     \<and> list_all (\<lambda>x. \<not> exec_is_empty x) (exec_start_post c)
     \<and> list_all (\<lambda>(k, v). k \<noteq> [] \<and> CHR ''='' \<notin> set k) (cfg_environment c)"

definition wf_references :: "UnitConfig \<Rightarrow> bool" where
  "wf_references c \<longleftrightarrow> list_all wf_unit_name (all_referenced (deps c))"

definition wf_fields :: "UnitConfig \<Rightarrow> bool" where
  "wf_fields c \<longleftrightarrow> wf_numbers c \<and> wf_limits c \<and> wf_paths c \<and> wf_commands c \<and> wf_references c"

lemmas wf_parts = wf_numbers_def wf_limits_def wf_paths_def wf_commands_def wf_references_def

lemma wf_references_iff:
  "wf_references c \<longleftrightarrow>
     list_all wf_unit_name (requires (deps c)) \<and> list_all wf_unit_name (wants (deps c))
     \<and> list_all wf_unit_name (after (deps c)) \<and> list_all wf_unit_name (before (deps c))
     \<and> list_all wf_unit_name (conflicts (deps c))"
  using all_referenced_set [of "deps c"] by (auto simp: wf_references_def list_all_iff)

lemma wf_fields_new: "wf_fields (new_config nm)"
  by (simp add: wf_fields_def wf_numbers_def wf_limits_def wf_paths_def wf_commands_def wf_references_iff
      new_config_def no_dependencies_def MAX_START_LIMIT_BURST_def u64_max_def)

lemma number_Inr:
  "number line key tokens zero = Inr v \<Longrightarrow> v \<le> u64_max \<and> (zero = Rejected \<longrightarrow> 0 < v)"
  by (auto simp: number_def Let_def rbind_Inr_iff split: if_splits dest: parse_uint_le)

lemma size_limit_Inr: "size_limit line key text = Inr v \<Longrightarrow> 0 < size_bytes v"
  by (auto simp: size_limit_def split: option.splits if_splits)

lemma absolute_path_Inr:
  "absolute_path line key tokens assign cfg = Inr cfg' \<Longrightarrow>
     cfg' = cfg \<or> (\<exists>path. absolute path \<and> cfg' = assign path)"
  by (auto simp: absolute_path_def require_absolute_def Let_def rbind_Inr_iff split: if_splits)

lemma environment_Inr:
  "environment line key tokens = Inr out \<Longrightarrow> list_all (\<lambda>(k, v). k \<noteq> [] \<and> CHR ''='' \<notin> set k) out"
  by (induction tokens arbitrary: out)
     (auto simp: rbind_Inr_iff split_once_Some_iff split: if_splits)

lemma unit_names_Inr: "unit_names line key tokens = Inr us \<Longrightarrow> list_all wf_unit_name us"
  by (induction tokens arbitrary: us)
     (auto simp: rbind_Inr_iff split: sum.splits dest: parse_unit_name_wf)

lemma number_entry_wf:
  assumes "number_entry line key tokens cfg = Some (Inr cfg')" "wf_fields cfg"
  shows "wf_fields cfg'"
proof -
  have "wf_limits cfg' \<and> wf_paths cfg' \<and> wf_commands cfg' \<and> wf_references cfg'"
    using assms by (auto simp: number_entry_def Let_def rbind_Inr_iff start_limit_burst_entry_def
        wf_fields_def wf_limits_def wf_paths_def wf_commands_def wf_references_def split: if_splits)
  moreover have "wf_numbers cfg'"
    using assms by (auto simp: number_entry_def Let_def rbind_Inr_iff start_limit_burst_entry_def
        wf_fields_def wf_numbers_def split: if_splits dest!: number_Inr)
  ultimately show ?thesis by (simp add: wf_fields_def)
qed

lemma identity_entry_wf:
  assumes "identity_entry line key tokens cfg = Some (Inr cfg')" "wf_fields cfg"
  shows "wf_fields cfg'"
proof -
  have "wf_numbers cfg' \<and> wf_limits cfg' \<and> wf_paths cfg' \<and> wf_references cfg'"
    using assms by (auto simp: identity_entry_def Let_def rbind_Inr_iff
        wf_fields_def wf_limits_def wf_paths_def wf_numbers_def wf_references_def split: if_splits)
  moreover have "wf_commands cfg'"
    using assms by (auto simp: identity_entry_def Let_def rbind_Inr_iff
        wf_fields_def wf_commands_def split: if_splits dest!: environment_Inr)
  ultimately show ?thesis by (simp add: wf_fields_def)
qed

lemma path_entry_wf:
  assumes "path_entry line key tokens cfg = Some (Inr cfg')" "wf_fields cfg"
  shows "wf_fields cfg'"
proof -
  have "wf_limits cfg' \<and> wf_commands cfg' \<and> wf_references cfg'"
    using assms by (auto simp: path_entry_def Let_def rbind_Inr_iff
        wf_fields_def wf_limits_def wf_commands_def wf_references_def split: if_splits
        dest!: absolute_path_Inr)
  moreover have "wf_numbers cfg'"
    using assms by (auto simp: path_entry_def Let_def rbind_Inr_iff
        wf_fields_def wf_numbers_def split: if_splits dest!: number_Inr absolute_path_Inr)
  moreover have "wf_paths cfg'"
    using assms by (auto simp: path_entry_def Let_def rbind_Inr_iff
        wf_fields_def wf_paths_def split: if_splits dest!: absolute_path_Inr)
  ultimately show ?thesis by (simp add: wf_fields_def)
qed

lemma cgroup_entry_wf:
  assumes "cgroup_entry line key tokens cfg = Some (Inr cfg')" "wf_fields cfg"
  shows "wf_fields cfg'"
proof -
  have "wf_numbers cfg' \<and> wf_paths cfg' \<and> wf_commands cfg' \<and> wf_references cfg'"
    using assms by (auto simp: cgroup_entry_def Let_def rbind_Inr_iff
        wf_fields_def wf_numbers_def wf_paths_def wf_commands_def wf_references_def split: if_splits)
  moreover have "wf_limits cfg'"
    using assms by (auto simp: cgroup_entry_def Let_def rbind_Inr_iff
        wf_fields_def wf_limits_def split: if_splits dest!: size_limit_Inr number_Inr)
  ultimately show ?thesis by (simp add: wf_fields_def)
qed

lemma wf_deps_upd [simp]:
  "wf_numbers (deps_upd f c) = wf_numbers c" "wf_limits (deps_upd f c) = wf_limits c"
  "wf_paths (deps_upd f c) = wf_paths c" "wf_commands (deps_upd f c) = wf_commands c"
  by (simp_all add: deps_upd_def wf_numbers_def wf_limits_def wf_paths_def wf_commands_def)

lemma wf_texts [simp]:
  "wf_fields (c\<lparr>description := d\<rparr>) = wf_fields c" "wf_fields (c\<lparr>documentation := d\<rparr>) = wf_fields c"
  by (simp_all add: wf_fields_def wf_parts)

lemma unit_list_wf:
  assumes "unit_list line key tokens slot p = Inr p'" "wf_fields (p_cfg p)"
    "\<And>us c. list_all wf_unit_name us \<Longrightarrow> wf_references c \<Longrightarrow> wf_references (deps_upd (slot us) c)"
  shows "wf_fields (p_cfg p')"
  using assms by (auto simp: unit_list_def rbind_Inr_iff wf_fields_def dest!: unit_names_Inr)

lemma unit_entry_wf:
  assumes "unit_entry line key tokens p = Some (Inr p')" "wf_fields (p_cfg p)"
  shows "wf_fields (p_cfg p')"
proof -
  have "declared_type line key d p = Inr p' \<Longrightarrow> wf_fields (p_cfg p')" for d
    using assms(2) by (auto simp: declared_type_def split: if_splits)
  then show ?thesis
    using assms unfolding unit_entry_def
    by (auto split: if_splits elim!: unit_list_wf simp: wf_references_iff deps_upd_def)
qed

lemma exec_entry_wf:
  assumes "exec_entry line key tokens p = Some (Inr p')" "wf_fields (p_cfg p)"
  shows "wf_fields (p_cfg p')"
proof -
  have "wf_numbers (p_cfg p') \<and> wf_limits (p_cfg p') \<and> wf_paths (p_cfg p') \<and> wf_references (p_cfg p')"
    using assms by (auto simp: exec_entry_def service_type_def restart_entry_def push_command_def Let_def
        rbind_Inr_iff wf_fields_def wf_limits_def wf_numbers_def wf_paths_def wf_references_def split: if_splits)
  moreover have "wf_commands (p_cfg p')"
    using assms by (auto simp: exec_entry_def service_type_def restart_entry_def push_command_def Let_def
        rbind_Inr_iff wf_fields_def wf_commands_def split: if_splits)
  ultimately show ?thesis by (simp add: wf_fields_def)
qed

lemma dispatch_wf:
  assumes "dispatch section line key tokens p = Inr p'" "wf_fields (p_cfg p)"
  shows "wf_fields (p_cfg p')"
  using assms
  by (auto simp: dispatch_def on_cfg_def Let_def rbind_Inr_iff split: Section.splits option.splits
      dest: unit_entry_wf exec_entry_wf number_entry_wf identity_entry_wf path_entry_wf cgroup_entry_wf)

section \<open>Line numbers\<close>

fun error_line :: "ParseError \<Rightarrow> nat option" where
  "error_line (Syntax l _) = Some l"
| "error_line (UnknownSection l _) = Some l"
| "error_line (UnknownKey l _ _) = Some l"
| "error_line (DuplicateKey l _) = Some l"
| "error_line (EntryOutsideSection l _) = Some l"
| "error_line (InvalidValue l _ _ _) = Some l"
| "error_line (UnterminatedQuote l) = Some l"
| "error_line (MissingExecStart _) = None"
| "error_line (TypeSuffixConflict _ _ _) = None"

lemma error_line_invalid [simp]: "error_line (invalid l k v r) = Some l"
  by (simp add: invalid_def)

lemma ok_or_Inl_iff: "ok_or e x = Inl e' \<longleftrightarrow> x = None \<and> e' = e"
  by (cases x) auto

named_theorems at_line \<open>the errors of a value reader are on its line\<close>

lemma number_line [at_line]: "number l key tokens zero = Inl e \<Longrightarrow> error_line e = Some l"
  by (auto simp: number_def Let_def rbind_Inl_iff ok_or_Inl_iff split: if_splits)

lemma boolean_line [at_line]: "boolean l key tokens = Inl e \<Longrightarrow> error_line e = Some l"
  by (auto simp: boolean_def Let_def split: if_splits)

lemma caps_line [at_line]: "caps l key tokens = Inl e \<Longrightarrow> error_line e = Some l"
  by (induction tokens) (auto simp: rbind_Inl_iff ok_or_Inl_iff)

lemma environment_line [at_line]: "environment l key tokens = Inl e \<Longrightarrow> error_line e = Some l"
  by (induction tokens) (auto simp: rbind_Inl_iff ok_or_Inl_iff split: if_splits)

lemma size_limit_line [at_line]: "size_limit l key text = Inl e \<Longrightarrow> error_line e = Some l"
  by (auto simp: size_limit_def split: option.splits if_splits)

lemma absolute_path_line [at_line]: "absolute_path l key tokens assign cfg = Inl e \<Longrightarrow> error_line e = Some l"
  by (auto simp: absolute_path_def require_absolute_def Let_def rbind_Inl_iff split: if_splits)

lemma unit_names_line [at_line]: "unit_names l key tokens = Inl e \<Longrightarrow> error_line e = Some l"
  by (induction tokens) (auto simp: rbind_Inl_iff split: sum.splits)

lemma unit_entry_line: "unit_entry l key tokens p = Some (Inl e) \<Longrightarrow> error_line e = Some l"
  by (auto simp: unit_entry_def declared_type_def unit_list_def rbind_Inl_iff split: if_splits dest: at_line)

lemma exec_entry_line: "exec_entry l key tokens p = Some (Inl e) \<Longrightarrow> error_line e = Some l"
  by (auto simp: exec_entry_def service_type_def restart_entry_def Let_def rbind_Inl_iff ok_or_Inl_iff
      split: if_splits)

lemma number_entry_line: "number_entry l key tokens cfg = Some (Inl e) \<Longrightarrow> error_line e = Some l"
  by (auto simp: number_entry_def start_limit_burst_entry_def Let_def rbind_Inl_iff split: if_splits dest: at_line)

lemma identity_entry_line: "identity_entry l key tokens cfg = Some (Inl e) \<Longrightarrow> error_line e = Some l"
  by (auto simp: identity_entry_def Let_def rbind_Inl_iff split: if_splits dest: at_line)

lemma path_entry_line: "path_entry l key tokens cfg = Some (Inl e) \<Longrightarrow> error_line e = Some l"
  by (auto simp: path_entry_def Let_def rbind_Inl_iff split: if_splits dest: at_line)

lemma cgroup_entry_line: "cgroup_entry l key tokens cfg = Some (Inl e) \<Longrightarrow> error_line e = Some l"
  by (auto simp: cgroup_entry_def Let_def rbind_Inl_iff ok_or_Inl_iff split: if_splits dest: at_line)

lemma dispatch_line:
  "dispatch section l key tokens p = Inl e \<Longrightarrow> error_line e = Some l"
  by (auto simp: dispatch_def on_cfg_def Let_def rbind_Inl_iff split: Section.splits option.splits
      dest: unit_entry_line exec_entry_line number_entry_line identity_entry_line path_entry_line cgroup_entry_line)

lemma tokenize_loop_line: "tokenize_loop l out cur started s = Inl e \<Longrightarrow> error_line e = Some l"
  by (induction l out cur started s rule: tokenize_loop.induct) (auto split: if_splits option.splits)

lemma entry_line: "entry section l text p = Inl e \<Longrightarrow> error_line e = Some l"
  by (auto simp: entry_def rbind_Inl_iff ok_or_Inl_iff note_key_def tokenize_def split: if_splits
      dest: dispatch_line tokenize_loop_line)

lemma section_header_line: "section_header line l = Inl e \<Longrightarrow> error_line e = Some l"
  by (auto simp: section_header_def rbind_Inl_iff ok_or_Inl_iff split: if_splits)

lemma logical_loop_numbers:
  "(n, t) \<in> set (logical_loop ls cur start) \<Longrightarrow> n \<in> fst ` set ls \<or> (cur \<noteq> [] \<and> n = start)"
  by (induction ls cur start arbitrary: n t rule: logical_loop.induct)
     (auto simp: Let_def split: if_splits)

lemma logical_lines_numbers:
  "(n, t) \<in> set (logical_lines input) \<Longrightarrow> 1 \<le> n \<and> n \<le> length (str_lines input)"
  by (auto simp: logical_lines_def dest!: logical_loop_numbers set_zip_leftD)

section \<open>The invariant of the parser\<close>

definition parser_inv :: "UnitName \<Rightarrow> nat \<Rightarrow> Parser \<Rightarrow> bool" where
  "parser_inv nm n p \<longleftrightarrow>
     p_name p = nm \<and> cfg_name (p_cfg p) = nm \<and> wf_fields (p_cfg p)
     \<and> (restart (p_cfg p) \<noteq> No \<longrightarrow> restart_line p \<noteq> None)
     \<and> pred_option (\<lambda>l. 1 \<le> l \<and> l \<le> n) (restart_line p)"

lemma parser_inv_new: "parser_inv nm n (parser_new nm)"
  by (simp add: parser_inv_def parser_new_def wf_fields_new) (simp add: new_config_def)

lemma dispatch_frame:
  assumes "dispatch section l key tokens p = Inr p'"
  shows "p_name p' = p_name p \<and> cfg_name (p_cfg p') = cfg_name (p_cfg p) \<and> seen p' = seen p
    \<and> current_section p' = current_section p
    \<and> (restart (p_cfg p') = restart (p_cfg p) \<and> restart_line p' = restart_line p
       \<or> restart_line p' = Some l)"
proof -
  have u: "unit_entry l key tokens p = Some (Inr p') \<Longrightarrow> ?thesis"
    by (auto simp: unit_entry_def declared_type_def unit_list_def deps_upd_def rbind_Inr_iff split: if_splits)
  have x: "exec_entry l key tokens p = Some (Inr p') \<Longrightarrow> ?thesis"
    by (auto simp: exec_entry_def service_type_def restart_entry_def push_command_def Let_def rbind_Inr_iff
        split: if_splits)
  have n: "number_entry l key tokens cfg = Some (Inr cfg') \<Longrightarrow>
      cfg_name cfg' = cfg_name cfg \<and> restart cfg' = restart cfg" for cfg cfg'
    by (auto simp: number_entry_def start_limit_burst_entry_def Let_def rbind_Inr_iff split: if_splits)
  have i: "identity_entry l key tokens cfg = Some (Inr cfg') \<Longrightarrow>
      cfg_name cfg' = cfg_name cfg \<and> restart cfg' = restart cfg" for cfg cfg'
    by (auto simp: identity_entry_def rbind_Inr_iff split: if_splits)
  have a: "path_entry l key tokens cfg = Some (Inr cfg') \<Longrightarrow>
      cfg_name cfg' = cfg_name cfg \<and> restart cfg' = restart cfg" for cfg cfg'
    by (auto simp: path_entry_def Let_def rbind_Inr_iff split: if_splits dest!: absolute_path_Inr)
  have c: "cgroup_entry l key tokens cfg = Some (Inr cfg') \<Longrightarrow>
      cfg_name cfg' = cfg_name cfg \<and> restart cfg' = restart cfg" for cfg cfg'
    by (auto simp: cgroup_entry_def Let_def rbind_Inr_iff split: if_splits)
  show ?thesis
    using assms u x
    by (auto simp: dispatch_def on_cfg_def Let_def rbind_Inr_iff split: Section.splits option.splits
        dest: n i a c)
qed

lemma entry_Inr:
  assumes "entry section l text p = Inr p'"
  obtains k v p1 where "split_entry text = Some (k, v)" "note_key section l k p = Inr p1"
    "p_name p' = p_name p" "cfg_name (p_cfg p') = cfg_name (p_cfg p)" "seen p' = seen p1"
    "current_section p' = current_section p" "wf_fields (p_cfg p) \<Longrightarrow> wf_fields (p_cfg p')"
    "restart (p_cfg p') = restart (p_cfg p) \<and> restart_line p' = restart_line p \<or> restart_line p' = Some l"
proof -
  from assms obtain k v p1 tokens where *: "split_entry text = Some (k, v)"
    "note_key section l k p = Inr p1" "dispatch section l k tokens p1 = Inr p'"
    by (auto simp: entry_def rbind_Inr_iff)
  moreover from *(2) have "p_name p1 = p_name p" "p_cfg p1 = p_cfg p" "restart_line p1 = restart_line p"
    "current_section p1 = current_section p"
    by (auto simp: note_key_def split: if_splits)
  ultimately show ?thesis
    using that [of k v p1] dispatch_frame [OF *(3)] dispatch_wf [OF *(3)] by metis
qed

lemma entry_inv:
  "entry section l text p = Inr p' \<Longrightarrow> parser_inv nm n p \<Longrightarrow> 1 \<le> l \<Longrightarrow> l \<le> n \<Longrightarrow> parser_inv nm n p'"
  by (erule entry_Inr) (auto simp: parser_inv_def)

lemma run_lines_result:
  "\<forall>(n, t) \<in> set ls. 1 \<le> n \<and> n \<le> N \<Longrightarrow> parser_inv nm N p \<Longrightarrow>
     case run_lines ls p of
       Inr p' \<Rightarrow> parser_inv nm N p'
     | Inl e \<Rightarrow> \<exists>l. error_line e = Some l \<and> 1 \<le> l \<and> l \<le> N"
proof (induction ls p rule: run_lines.induct)
  case (2 n t rest p)
  have n: "1 \<le> n" "n \<le> N" and rest: "\<forall>(n, t) \<in> set rest. 1 \<le> n \<and> n \<le> N"
    using "2.prems"(1) by auto
  show ?case
  proof (cases "trim t = [] \<or> starts_with_char CHR ''#'' (trim t)")
    case True
    then show ?thesis using "2.IH"(1) [OF refl True rest "2.prems"(2)] by (simp add: Let_def)
  next
    case False
    show ?thesis
    proof (cases "section_header (trim t) n")
      case (Inl e)
      then show ?thesis using False n section_header_line [OF Inl] by (auto simp: Let_def)
    next
      case (Inr h)
      show ?thesis
      proof (cases h)
        case (Some s)
        have "parser_inv nm N (p\<lparr>current_section := Some s\<rparr>)"
          using "2.prems"(2) by (simp add: parser_inv_def)
        then show ?thesis
          using "2.IH"(3) [OF refl False Inr Some rest] False Inr Some by (simp add: Let_def)
      next
        case None
        show ?thesis
        proof (cases "current_section p")
          case None
          then show ?thesis using \<open>h = None\<close> False Inr n by (simp add: Let_def)
        next
          case (Some s)
          show ?thesis
          proof (cases "entry s n (trim t) p")
            case (Inl e)
            then show ?thesis
              using \<open>h = None\<close> False Inr Some n entry_line [OF Inl] \<open>section_header (trim t) n = Inr h\<close>
              by (simp add: Let_def)
          next
            case (Inr p1)
            show ?thesis
              using "2.IH"(2) [OF refl False \<open>section_header (trim t) n = Inr h\<close> \<open>h = None\<close> Some Inr rest
                  entry_inv [OF Inr "2.prems"(2) n]]
                \<open>h = None\<close> False Inr Some \<open>section_header (trim t) n = Inr h\<close>
              by (simp add: Let_def)
          qed
        qed
      qed
    qed
  qed
qed simp

lemma run_lines_start:
  "case run_lines (logical_lines input) (parser_new nm) of
     Inr p \<Rightarrow> parser_inv nm (length (str_lines input)) p
   | Inl e \<Rightarrow> \<exists>l. error_line e = Some l \<and> 1 \<le> l \<and> l \<le> length (str_lines input)"
  using logical_lines_numbers by (intro run_lines_result parser_inv_new) blast

lemma parse_run:
  "parse nm input = rbind (run_lines (logical_lines input) (parser_new nm)) finish"
  by (simp add: parse_def run_def)

lemma finish_Inr:
  "finish p = Inr cfg \<Longrightarrow>
     cfg = (p_cfg p)\<lparr>cfg_kind := unit_type (p_name p)\<rparr> \<and> finish_checks p cfg = Inr cfg"
  by (auto simp: finish_def finish_checks_def Let_def split: option.splits if_splits)

lemma finish_line:
  "finish p = Inl e \<Longrightarrow> parser_inv nm n p \<Longrightarrow>
     error_line e = None \<or> (\<exists>l. error_line e = Some l \<and> 1 \<le> l \<and> l \<le> n)"
  by (auto simp: finish_def finish_checks_def Let_def parser_inv_def split: option.splits if_splits)

definition wf_unit_config :: "UnitName \<Rightarrow> UnitConfig \<Rightarrow> bool" where
  "wf_unit_config nm c \<longleftrightarrow>
     cfg_name c = nm \<and> cfg_kind c = unit_type nm \<and> wf_fields c
     \<and> (spawns_process c \<longrightarrow> \<not> exec_is_empty (exec_start c))
     \<and> (service_kind c = Oneshot \<longrightarrow> restart c = No)"

lemma wf_fields_kind [simp]: "wf_fields (c\<lparr>cfg_kind := k\<rparr>) = wf_fields c"
  by (simp add: wf_fields_def wf_numbers_def wf_limits_def wf_paths_def wf_commands_def wf_references_def)

section \<open>Repeated directives\<close>

fun directives :: "(nat \<times> string) list \<Rightarrow> Section option \<Rightarrow> (string \<times> string) list" where
  "directives [] sec = []"
| "directives ((n, t) # rest) sec =
     (if trim t = [] \<or> starts_with_char CHR ''#'' (trim t) then directives rest sec
      else case section_header (trim t) n of
        Inl _ \<Rightarrow> directives rest sec
      | Inr (Some s) \<Rightarrow> directives rest (Some s)
      | Inr None \<Rightarrow>
          (case (sec, split_entry (trim t)) of
             (Some s, Some (k, v)) \<Rightarrow> (section_str s, k) # directives rest sec
           | _ \<Rightarrow> directives rest sec))"

definition single_valued :: "string \<times> string \<Rightarrow> bool" where
  "single_valued d \<longleftrightarrow> snd d \<notin> set REPEATABLE"

lemma entry_seen:
  assumes "entry s n t p = Inr p'" "distinct (seen p)"
  shows "\<exists>k v. split_entry t = Some (k, v) \<and> distinct (seen p')
    \<and> seen p' = seen p @ (if single_valued (section_str s, k) then [(section_str s, k)] else [])"
  using assms by - (erule entry_Inr, auto simp: note_key_def single_valued_def split: if_splits)

lemma run_lines_seen:
  "run_lines ls p = Inr p' \<Longrightarrow> distinct (seen p) \<Longrightarrow>
     distinct (seen p @ filter single_valued (directives ls (current_section p)))
     \<and> seen p' = seen p @ filter single_valued (directives ls (current_section p))"
proof (induction ls p rule: run_lines.induct)
  case (2 n t rest p)
  show ?case
  proof (cases "trim t = [] \<or> starts_with_char CHR ''#'' (trim t)")
    case True
    then show ?thesis using "2.IH"(1) [OF refl True] "2.prems" by (simp add: Let_def)
  next
    case False
    from "2.prems"(1) False obtain h where h: "section_header (trim t) n = Inr h"
      by (auto simp: Let_def rbind_Inr_iff)
    show ?thesis
    proof (cases h)
      case (Some s)
      then show ?thesis
        using "2.IH"(3) [OF refl False h Some] "2.prems" False h by (simp add: Let_def)
    next
      case None
      with "2.prems"(1) False h obtain s p1 where s: "current_section p = Some s"
        "entry s n (trim t) p = Inr p1" "run_lines rest p1 = Inr p'"
        by (auto simp: Let_def rbind_Inr_iff split: option.splits)
      have "current_section p1 = current_section p" by (rule entry_Inr [OF s(2)]) simp
      then show ?thesis
        using "2.IH"(2) [OF refl False h None s] entry_seen [OF s(2) "2.prems"(2)] None False h s(1)
        by (auto simp: Let_def split: if_splits)
    qed
  qed
qed simp

section \<open>Writing a command line\<close>

lemma comment_scan_quote_chars:
  "comment_scan True False (concat (map quote_char t) @ s) =
     concat (map quote_char t) @ comment_scan True False s"
  by (induction t) auto

lemma comment_scan_quote:
  "comment_scan False False (quote_token t @ s) = quote_token t @ comment_scan False False s"
  by (simp add: quote_token_def comment_scan_quote_chars)

lemma comment_scan_plain:
  "set a \<inter> {bslash, dquote, CHR ''#''} = {} \<Longrightarrow>
     comment_scan False False (a @ s) = a @ comment_scan False False s"
  by (induction a) auto

lemma comment_scan_quote_tokens: "comment_scan False False (quote_tokens ts) = quote_tokens ts"
proof (induction ts rule: join_tokens.induct)
  case (2 t)
  show ?case using comment_scan_quote [of t "[]"] by (simp add: quote_tokens_def)
next
  case (3 t u ts)
  then show ?case by (simp add: quote_tokens_def comment_scan_quote)
qed (simp add: quote_tokens_def)

lemma quote_token_ends: "hd (quote_token t) = dquote" "last (quote_token t) = dquote" "quote_token t \<noteq> []"
  by (simp_all add: quote_token_def)

lemma quote_token_newline: "newline \<notin> set (quote_token t)"
  by (auto simp: quote_token_def split: if_splits)

lemma quote_tokens_facts:
  "ts \<noteq> [] \<Longrightarrow> quote_tokens ts \<noteq> [] \<and> hd (quote_tokens ts) = dquote \<and> last (quote_tokens ts) = dquote
     \<and> newline \<notin> set (quote_tokens ts)"
proof (induction ts rule: join_tokens.induct)
  case (2 t)
  show ?case using quote_token_ends [of t] quote_token_newline [of t] by (simp add: quote_tokens_def)
next
  case (3 t u ts)
  then show ?case
    using quote_token_ends [of t] quote_token_newline [of t] by (simp add: quote_tokens_def)
qed simp

lemma solid_dquote [simp]: "solid dquote"
  by (simp add: solid_def is_ascii_def ws1_def byte_def)

lemma trim_end_dquote: "s \<noteq> [] \<Longrightarrow> last s = dquote \<Longrightarrow> trim_end s = s"
  using trim_end_solid [of dquote "butlast s"] by (metis append_butlast_last_id solid_dquote)

definition exec_line :: "string list \<Rightarrow> string" where
  "exec_line args = ''ExecStart='' @ quote_tokens args"

lemma exec_line_last: "args \<noteq> [] \<Longrightarrow> last (exec_line args) = dquote"
  using quote_tokens_facts [of args] by (simp add: exec_line_def)

lemma trim_exec_line:
  assumes "args \<noteq> []"
  shows "trim (exec_line args) = exec_line args"
proof (rule trim_solid_ends)
  show "solid (last (exec_line args))" using exec_line_last [OF assms] by simp
qed (simp_all add: exec_line_def solid_def is_ascii_def ws1_def byte_def)

lemma exec_line_logical:
  assumes "args \<noteq> []"
  shows "logical_lines (''[Service]'' @ [newline] @ exec_line args @ [newline]) =
    [(1, ''[Service]''), (2, exec_line args)]"
proof -
  note Q = quote_tokens_facts [OF assms]
  have last: "last (exec_line args) = dquote" "exec_line args \<noteq> []"
    using exec_line_last [OF assms] by (simp_all add: exec_line_def)
  have "newline \<notin> set (exec_line args)" using Q by (simp add: exec_line_def)
  then have "str_lines (''[Service]'' @ [newline] @ exec_line args @ [newline]) =
      [''[Service]'', exec_line args]"
    using last str_lines_append [of "''[Service]''"] str_lines_append [of "exec_line args" "[]"]
    by (simp add: strip_cr_def str_lines_def)
  moreover have "comment_prefix (exec_line args) = exec_line args"
    using comment_scan_plain [of "''ExecStart=''" "quote_tokens args"]
    by (simp add: comment_prefix_def exec_line_def comment_scan_quote_tokens)
  moreover have "comment_prefix ''[Service]'' = ''[Service]''" "trim_end ''[Service]'' = ''[Service]''"
    by code_simp+
  ultimately show ?thesis
    using last trim_end_dquote [of "exec_line args"]
    by (simp add: logical_lines_def Let_def strip_cr_def ends_with_char_def upt_rec)
qed

section \<open>Properties\<close>

text \<open>A small unit file for the concrete instances.\<close>

definition demo_unit :: string where
  "demo_unit = ''[Service]'' @ [newline] @ ''Type=oneshot'' @ [newline] @ ''ExecStart=/bin/mount -a # all'' @ [newline]"

lemma parse_result_wf:
  assumes "parse nm input = Inr cfg"
  shows "wf_unit_config nm cfg"
proof -
  from assms obtain p where p: "run_lines (logical_lines input) (parser_new nm) = Inr p" "finish p = Inr cfg"
    by (auto simp: parse_run rbind_Inr_iff)
  have "parser_inv nm (length (str_lines input)) p"
    using run_lines_start [of input nm] p(1) by simp
  with finish_Inr [OF p(2)] show ?thesis
    by (auto simp: wf_unit_config_def parser_inv_def finish_checks_def spawns_process_iff split: if_splits)
qed

text \<open>
  Property C30. Every configuration the parser returns meets the contract of the format: its name and kind are
  those of the file, a service has a command, a oneshot has no restart policy, paths are absolute,
  numeric directives are in range (burst between 1 and 1000000, no zero where zero is refused),
  limits are positive, hook commands and variable names are not empty, and every referenced unit
  name is well formed.
\<close>

theorem parse_wf:
  assumes "parse nm input = Inr cfg"
  shows "wf_unit_config nm cfg"
  using assms by (rule parse_result_wf)

theorem parse_wf_witness:
  "\<exists>cfg. parse (UnitName ''mount.service'' Service) demo_unit = Inr cfg
     \<and> wf_unit_config (UnitName ''mount.service'' Service) cfg
     \<and> exec_start cfg = ExecCommand [''/bin/mount'', ''-a'']"
proof -
  let ?r = "parse (UnitName ''mount.service'' Service) demo_unit"
  have "case ?r of Inr cfg \<Rightarrow> exec_start cfg = ExecCommand [''/bin/mount'', ''-a''] | Inl _ \<Rightarrow> False"
    by code_simp
  then obtain cfg where "?r = Inr cfg" "exec_start cfg = ExecCommand [''/bin/mount'', ''-a'']"
    by (cases ?r) auto
  with parse_wf [of "UnitName ''mount.service'' Service" demo_unit cfg] show ?thesis by auto
qed

text \<open>
  When a file is accepted, no single-valued directive occurs twice in the same section; only the
  directives of \<open>REPEATABLE\<close> may accumulate.
\<close>

theorem parse_no_repeats:
  assumes "parse nm input = Inr cfg"
  shows "distinct (filter single_valued (directives (logical_lines input) None))"
proof -
  from assms obtain p where "run_lines (logical_lines input) (parser_new nm) = Inr p"
    by (auto simp: parse_run rbind_Inr_iff)
  from run_lines_seen [OF this] show ?thesis by (simp add: parser_new_def)
qed

theorem parse_no_repeats_witness:
  "directives (logical_lines demo_unit) None = [(''Service'', ''Type''), (''Service'', ''ExecStart'')]
   \<and> distinct (filter single_valued (directives (logical_lines demo_unit) None))"
proof -
  let ?r = "parse (UnitName ''mount.service'' Service) demo_unit"
  have "\<not> isl ?r" by code_simp
  then obtain cfg where "?r = Inr cfg" by (cases ?r) auto
  moreover have "directives (logical_lines demo_unit) None = [(''Service'', ''Type''), (''Service'', ''ExecStart'')]"
    by code_simp
  ultimately show ?thesis using parse_no_repeats by blast
qed

text \<open>
  Every line number in a parse error is the number of a line of the file.
\<close>

theorem parse_error_line_exists:
  assumes "parse nm input = Inl e" "error_line e = Some l"
  shows "1 \<le> l \<and> l \<le> length (str_lines input)"
proof -
  note R = run_lines_start [of input nm]
  from assms(1) consider "run_lines (logical_lines input) (parser_new nm) = Inl e"
    | p where "run_lines (logical_lines input) (parser_new nm) = Inr p" "finish p = Inl e"
    by (auto simp: parse_run rbind_Inl_iff)
  then show ?thesis
  proof cases
    case 1
    then show ?thesis using R assms(2) by auto
  next
    case 2
    then show ?thesis using R finish_line [OF 2(2)] assms(2) by auto
  qed
qed

theorem parse_error_line_exists_witness:
  "parse (UnitName ''mount.service'' Service) (demo_unit @ ''junk'') = Inl (Syntax 4 (ExpectedKeyValue ''junk''))
   \<and> 4 \<le> length (str_lines (demo_unit @ ''junk''))"
proof -
  let ?r = "parse (UnitName ''mount.service'' Service) (demo_unit @ ''junk'')"
  have "case ?r of Inl e \<Rightarrow> e = Syntax 4 (ExpectedKeyValue ''junk'') | Inr _ \<Rightarrow> False" by code_simp
  then have e: "?r = Inl (Syntax 4 (ExpectedKeyValue ''junk''))" by (cases ?r) auto
  show ?thesis using parse_error_line_exists [OF e] e by simp
qed

text \<open>
  Every command line can be written: the two-line unit file whose \<open>ExecStart=\<close> holds the quoted
  arguments parses to the default configuration with exactly that argument vector.
\<close>

theorem parse_exec_start:
  assumes "unit_type nm = Service" "\<exists>arg \<in> set args. arg \<noteq> []"
  shows "parse nm (''[Service]'' @ [newline] @ ''ExecStart='' @ quote_tokens args @ [newline]) =
    Inr ((new_config nm)\<lparr>exec_start := ExecCommand args\<rparr>)"
proof -
  have ne: "args \<noteq> []" using assms(2) by auto
  let ?p = "(parser_new nm)\<lparr>current_section := Some SService\<rparr>"
  let ?cfg = "(new_config nm)\<lparr>exec_start := ExecCommand args\<rparr>"
  note Q = quote_tokens_facts [OF ne]
  have split: "split_entry (exec_line args) = Some (''ExecStart'', quote_tokens args)"
  proof -
    have "split_once CHR ''='' (exec_line args) = Some (''ExecStart'', quote_tokens args)"
      by (simp add: exec_line_def)
    moreover have "trim ''ExecStart'' = ''ExecStart''" "trim (quote_tokens args) = quote_tokens args"
      using Q by (code_simp, simp add: trim_solid_ends)
    ultimately show ?thesis by (simp add: split_entry_def rust_std)
  qed
  have cmd: "command args = ExecCommand args"
    using assms(2) by (auto simp: command_def list_all_iff)
  have "entry SService 2 (exec_line args) ?p =
      Inr (?p\<lparr>seen := [(''Service'', ''ExecStart'')], p_cfg := ?cfg\<rparr>)"
    by (simp add: entry_def split note_key_def REPEATABLE_def tokenize_def tokenize_loop_quotes dispatch_def exec_entry_def
        cmd section_str_def parser_new_def)
  moreover have "section_header (exec_line args) 2 = Inr None" "\<not> starts_with_char CHR ''#'' (exec_line args)"
    "exec_line args \<noteq> []"
    by (simp_all add: exec_line_def section_header_def)
  moreover have "section_header ''[Service]'' 1 = Inr (Some SService)" "trim ''[Service]'' = ''[Service]''"
    by code_simp+
  ultimately have "run_lines [(1, ''[Service]''), (2, exec_line args)] (parser_new nm) =
      Inr (?p\<lparr>seen := [(''Service'', ''ExecStart'')], p_cfg := ?cfg\<rparr>)"
    by (simp add: trim_exec_line [OF ne] Let_def)
  moreover have "finish (?p\<lparr>seen := [(''Service'', ''ExecStart'')], p_cfg := ?cfg\<rparr>) = Inr ?cfg"
    using assms ne by (auto simp: finish_def finish_checks_def parser_new_def new_config_def exec_is_empty_def
        is_target_def)
  ultimately show ?thesis
    using exec_line_logical [OF ne] by (simp add: parse_run exec_line_def)
qed

theorem parse_exec_start_witness:
  "parse (UnitName ''a.service'' Service)
     (''[Service]'' @ [newline] @ ''ExecStart='' @ quote_tokens [''/bin/echo'', ''a # b''] @ [newline]) =
   Inr ((new_config (UnitName ''a.service'' Service))\<lparr>exec_start := ExecCommand [''/bin/echo'', ''a # b'']\<rparr>)"
proof (rule parse_exec_start [of "UnitName ''a.service'' Service" "[''/bin/echo'', ''a # b'']"])
  show "\<exists>arg \<in> set [''/bin/echo'', ''a # b'']. arg \<noteq> []" by simp
qed simp

text \<open>
  The scanner that removes comments starts every physical line outside quotes, so a quoted part
  that is continued on the next line loses a number sign there.
\<close>

lemma quote_state_is_per_line:
  "parse (UnitName ''a.service'' Service)
     (''[Service]'' @ [newline] @ ''ExecStart=/bin/echo '' @ [dquote] @ ''a '' @ [bslash, newline]
        @ ''# b'' @ [dquote, newline]) = Inl (UnterminatedQuote 2)"
  by code_simp

end
