(* ===== verification/Manager_Core.thy ===== *)
theory Manager_Core
  imports Unit_Runtime Dep_Build Unit_Parser
begin

text \<open>
  The unit manager (\<open>rinit/src/unit_manager.rs\<close>), first half: the set of units, definitions and
  their reload, templates, the merging of requests, the dependency questions behind a start, and
  the order of a shutdown. The second half, which touches processes, is in \<open>Manager_Run\<close>.

  The unit map, the queued starts, the listening sockets and the templates are \<open>BTreeMap\<close>s, kept
  as association lists in key order. The cached dependency graph carries the 64-bit revision it was
  built at.
\<close>

section \<open>State\<close>

datatype ConfigChange = Added | Applied | Deferred | Unchanged

record UnitManager =
  m_units :: "(UnitName \<times> UnitRuntime) list"
  jobs :: JobQueue
  queued_starts :: "(UnitName \<times> RequestSource) list"
  m_shutdown_order :: "UnitName list"
  origin :: instant
  m_cgroup :: Cgroup
  listen_fds :: "(UnitName \<times> fd) list"
  templates :: "(string \<times> string) list"
  boot_in_progress :: bool
  graph_cache :: "(u64 \<times> DependencyGraph) option"
  graph_revision :: u64

definition manager_new :: "Kernel \<Rightarrow> trace \<Rightarrow> UnitManager \<times> trace" where
  "manager_new K tr =
     (let (now, tr1) = read_clock K tr in
      (\<lparr>m_units = [], jobs = empty_queue, queued_starts = [], m_shutdown_order = [], origin = now,
        m_cgroup = cgroup_disabled, listen_fds = [], templates = [], boot_in_progress = False,
        graph_cache = None, graph_revision = 0\<rparr>, tr1))"

abbreviation unit_at :: "UnitManager \<Rightarrow> UnitName \<Rightarrow> UnitRuntime option" where
  "unit_at m u \<equiv> map_of (m_units m) u"

definition upd_unit :: "UnitName \<Rightarrow> (UnitRuntime \<Rightarrow> UnitRuntime) \<Rightarrow> UnitManager \<Rightarrow> UnitManager" where
  "upd_unit u f m = m\<lparr>m_units := modify u f (m_units m)\<rparr>"

definition invalidate_graph :: "UnitManager \<Rightarrow> UnitManager" where
  "invalidate_graph m = m\<lparr>graph_revision := graph_revision m + 1\<rparr>"

definition begin_boot :: "UnitManager \<Rightarrow> UnitManager" where
  "begin_boot m = m\<lparr>boot_in_progress := True\<rparr>"

definition finish_boot :: "UnitManager \<Rightarrow> UnitManager" where
  "finish_boot m = m\<lparr>boot_in_progress := False\<rparr>"

definition set_listener :: "UnitName \<Rightarrow> fd \<Rightarrow> UnitManager \<Rightarrow> UnitManager" where
  "set_listener u f m = m\<lparr>listen_fds := put u f (listen_fds m)\<rparr>"

definition listener_fd :: "UnitManager \<Rightarrow> UnitName \<Rightarrow> fd option" where
  "listener_fd m u = map_of (listen_fds m) u"

definition clear_listener :: "UnitName \<Rightarrow> UnitManager \<Rightarrow> UnitManager" where
  "clear_listener u m = m\<lparr>listen_fds := remove_key u (listen_fds m)\<rparr>"

definition set_templates :: "(string \<times> string) list \<Rightarrow> UnitManager \<Rightarrow> UnitManager" where
  "set_templates ts m = m\<lparr>templates := ts\<rparr>"

definition set_cgroup :: "Cgroup \<Rightarrow> UnitManager \<Rightarrow> UnitManager" where
  "set_cgroup c m = m\<lparr>m_cgroup := c\<rparr>"

definition manager_is_template :: "UnitManager \<Rightarrow> UnitName \<Rightarrow> bool" where
  "manager_is_template m u \<longleftrightarrow> is_template u \<and> map_of (templates m) (canonical u) \<noteq> None"

definition now_millis :: "Kernel \<Rightarrow> UnitManager \<Rightarrow> trace \<Rightarrow> millis \<times> trace" where
  "now_millis K m tr =
     (let (now, tr1) = read_clock K tr in (((now - origin m) div 1000000) mod 2 ^ 64, tr1))"

section \<open>Definitions and reloads\<close>

datatype InstantiateError =
  NotAnInstance | NoTemplate string | BadSpecifier string | TemplateInvalid string ParseError

definition instantiate :: "UnitName \<Rightarrow> UnitManager \<Rightarrow> InstantiateError + UnitManager" where
  "instantiate u m = (case template_of u of
      None \<Rightarrow> Inl NotAnInstance
    | Some t \<Rightarrow>
        (case map_of (templates m) (canonical t) of
           None \<Rightarrow> Inl (NoTemplate (canonical t))
         | Some txt \<Rightarrow>
             (case substitute txt u of
                None \<Rightarrow> Inl (BadSpecifier (canonical t))
              | Some expanded \<Rightarrow>
                  (case parse u expanded of
                     Inl e \<Rightarrow> Inl (TemplateInvalid (canonical t) e)
                   | Inr cfg \<Rightarrow>
                       Inr (invalidate_graph (m\<lparr>m_units := put u (runtime_new cfg) (m_units m)\<rparr>))))))"

definition add_with_in_flight :: "UnitConfig \<Rightarrow> bool \<Rightarrow> UnitManager \<Rightarrow> UnitManager \<times> ConfigChange" where
  "add_with_in_flight cfg in_flight m = (case unit_at m (cfg_name cfg) of
      None \<Rightarrow>
        (invalidate_graph (m\<lparr>m_units := put (cfg_name cfg) (runtime_new cfg) (m_units m)\<rparr>), Added)
    | Some rt0 \<Rightarrow>
        (let rt = rt0\<lparr>retired := False\<rparr> in
         if rt_config rt = cfg
         then (upd_unit (cfg_name cfg) (\<lambda>_. rt\<lparr>pending_config := None\<rparr>) m, Unchanged)
         else if is_up rt \<or> in_flight
         then (upd_unit (cfg_name cfg) (\<lambda>_. rt\<lparr>pending_config := Some cfg\<rparr>) m, Deferred)
         else (invalidate_graph (upd_unit (cfg_name cfg)
                 (\<lambda>_. (apply_config rt cfg)\<lparr>pending_config := None\<rparr>) m), Applied)))"

definition add_unit :: "UnitConfig \<Rightarrow> UnitManager \<Rightarrow> UnitManager \<times> ConfigChange" where
  "add_unit cfg m = add_with_in_flight cfg False m"

definition exists_unit :: "UnitManager \<Rightarrow> UnitName \<Rightarrow> bool" where
  "exists_unit m u = (case unit_at m u of None \<Rightarrow> False | Some rt \<Rightarrow> \<not> retired rt)"

text \<open>The clearing half of \<open>retire\<close>; the probe is killed by the caller below.\<close>

definition retire_rt :: "UnitRuntime \<Rightarrow> UnitRuntime" where
  "retire_rt rt = rt\<lparr>retired := True, restart_at := None, health_at := None, probe_deadline := None,
     idle_at := None, restart_after_stop := False, probe_pid := None\<rparr>"

definition retire :: "Kernel \<Rightarrow> UnitName \<Rightarrow> UnitManager \<Rightarrow> trace \<Rightarrow> UnitManager \<times> trace" where
  "retire K u m tr =
     (let m1 = m\<lparr>queued_starts := remove_key u (queued_starts m)\<rparr> in
      case unit_at m1 u of
        None \<Rightarrow> (m1, tr)
      | Some rt \<Rightarrow>
          (invalidate_graph (upd_unit u retire_rt m1),
           case probe_pid rt of None \<Rightarrow> tr | Some p \<Rightarrow> snd (kill_process_group K p SIGKILL tr)))"

definition keeps :: "UnitRuntime \<Rightarrow> bool" where
  "keeps rt \<longleftrightarrow> \<not> retired rt \<or> is_up rt \<or> exec_stop_pid rt \<noteq> None \<or> probe_pid rt \<noteq> None"

definition prune_retired :: "UnitManager \<Rightarrow> UnitManager \<times> nat" where
  "prune_retired m =
     (let kept = filter (\<lambda>(_, rt). keeps rt) (m_units m);
          removed = length (m_units m) - length kept;
          m1 = m\<lparr>m_units := kept\<rparr>
      in (if removed > 0 then invalidate_graph m1 else m1, removed))"

definition manager_names :: "UnitManager \<Rightarrow> UnitName list" where
  "manager_names m = map fst (m_units m)"

definition manager_is_up :: "UnitManager \<Rightarrow> UnitName \<Rightarrow> bool" where
  "manager_is_up m u = (case unit_at m u of None \<Rightarrow> False | Some rt \<Rightarrow> is_up rt)"

definition adopt_pending_config :: "UnitName \<Rightarrow> UnitManager \<Rightarrow> UnitManager" where
  "adopt_pending_config u m = (case unit_at m u of
      None \<Rightarrow> m | Some _ \<Rightarrow> invalidate_graph (upd_unit u adopt_pending m))"

section \<open>Dependencies behind a start\<close>

definition live_configs :: "UnitManager \<Rightarrow> UnitConfig list" where
  "live_configs m = map (\<lambda>(_, rt). rt_config rt) (filter (\<lambda>(_, rt). \<not> retired rt) (m_units m))"

definition cached_graph :: "UnitManager \<Rightarrow> string + DependencyGraph \<times> UnitManager" where
  "cached_graph m =
     (let fresh = (case build (live_configs m) of
            Inl e \<Rightarrow> Inl (dependency_error_text e)
          | Inr g \<Rightarrow> Inr (g, m\<lparr>graph_cache := Some (graph_revision m, g)\<rparr>))
      in case graph_cache m of
        None \<Rightarrow> fresh
      | Some (cached, g) \<Rightarrow> if cached \<noteq> graph_revision m then fresh else Inr (g, m))"

definition start_order :: "UnitManager \<Rightarrow> UnitName \<Rightarrow> (string + UnitName list) \<times> UnitManager" where
  "start_order m u = (case cached_graph m of
      Inl e \<Rightarrow> (Inl e, m)
    | Inr (g, m1) \<Rightarrow>
        (case levels g of
           Inl e \<Rightarrow> (Inl (dependency_error_text e), m1)
         | Inr ls \<Rightarrow> (Inr (filter (\<lambda>c. c \<noteq> u \<and> c \<in> set (closure_of g u)) (concat ls)), m1)))"

definition requires_of :: "UnitManager \<Rightarrow> UnitName \<Rightarrow> UnitName list" where
  "requires_of m u = (case unit_at m u of None \<Rightarrow> [] | Some rt \<Rightarrow> requires (deps (rt_config rt)))"

text \<open>\<open>for required in requires { if seen.insert(..) { out.push(..); stack.push(..) } }\<close>\<close>

fun push_required :: "UnitName list \<Rightarrow> UnitName set \<times> UnitName list \<times> UnitName list
    \<Rightarrow> UnitName set \<times> UnitName list \<times> UnitName list" where
  "push_required [] acc = acc"
| "push_required (r # rs) (vis, out, stack) =
     (if r \<in> vis then push_required rs (vis, out, stack)
      else push_required rs (insert r vis, out @ [r], r # stack))"

text \<open>Every name the loop can meet: the keys and what the units require.\<close>

definition mentioned :: "UnitManager \<Rightarrow> UnitName set" where
  "mentioned m = (\<Union>v \<in> fst ` set (m_units m). insert v (set (requires_of m v)))"

lemma finite_mentioned [simp]: "finite (mentioned m)"
  by (auto simp: mentioned_def)

lemma requires_of_mentioned: "set (requires_of m u) \<subseteq> mentioned m"
proof (cases "unit_at m u")
  case (Some rt)
  then have "u \<in> fst ` set (m_units m)" by (metis fst_conv image_eqI map_of_SomeD)
  then show ?thesis by (auto simp: mentioned_def)
qed (simp add: requires_of_def)

lemma push_required_spec:
  "push_required rs (vis, out, stack) = (vis', out', stack') \<Longrightarrow>
     (\<exists>news. vis' = vis \<union> set news \<and> out' = out @ news \<and> stack' = rev news @ stack
        \<and> distinct news \<and> set news = set rs - vis)"
proof (induction rs arbitrary: vis out stack)
  case (Cons r rs)
  show ?case
  proof (cases "r \<in> vis")
    case True
    then show ?thesis using Cons by auto
  next
    case False
    with Cons.prems have "push_required rs (insert r vis, out @ [r], r # stack) = (vis', out', stack')"
      by simp
    from Cons.IH [OF this] obtain news where
      "vis' = insert r vis \<union> set news" "out' = (out @ [r]) @ news" "stack' = rev news @ r # stack"
      "distinct news" "set news = set rs - insert r vis" by blast
    then show ?thesis using False by (intro exI [of _ "r # news"]) auto
  qed
qed auto

function (sequential) required_loop :: "UnitManager \<Rightarrow> UnitName set \<Rightarrow> UnitName list \<Rightarrow> UnitName list
    \<Rightarrow> UnitName list" where
  "required_loop m vis out [] = out"
| "required_loop m vis out (current # stack) =
     (let (vis', out', stack') = push_required (requires_of m current) (vis, out, stack)
      in required_loop m vis' out' stack')"
  by pat_completeness auto

termination
proof (relation "(\<lambda>(m, vis, out, stack). card (mentioned m - vis)) <*mlex*>
    measure (\<lambda>(m, vis, out, stack). length stack)", goal_cases)
  case 1
  show ?case by (simp add: wf_mlex)
next
  case (2 m vis out current stack x vis' y out' stack')
  then obtain news where n: "vis' = vis \<union> set news" "stack' = rev news @ stack"
      "set news = set (requires_of m current) - vis"
    using push_required_spec [of "requires_of m current" vis out stack vis' out' stack'] by metis
  show ?case
  proof (cases "news = []")
    case True
    then show ?thesis using n by (simp add: mlex_leq)
  next
    case False
    then obtain v where "v \<in> set news" by (cases news) auto
    then have v: "v \<in> mentioned m" "v \<notin> vis" using n requires_of_mentioned [of m current] by auto
    have "mentioned m - vis' \<subset> mentioned m - vis"
      using v \<open>v \<in> set news\<close> by (auto simp: n(1))
    then show ?thesis by (intro mlex_less) (simp add: psubset_card_mono)
  qed
qed

definition required_closure :: "UnitManager \<Rightarrow> UnitName \<Rightarrow> UnitName list" where
  "required_closure m u = required_loop m {u} [] [u]"

section \<open>Requests\<close>

definition effect_for :: "UnitManager \<Rightarrow> UnitName \<Rightarrow> Effect option" where
  "effect_for m u = (case unit_at m u of None \<Rightarrow> None | Some rt \<Rightarrow> reconcile (jobs m) u (rt_state rt))"

definition manager_target_of :: "UnitManager \<Rightarrow> UnitName \<Rightarrow> JobTarget option" where
  "manager_target_of m u = map_option mt_target (target_of (jobs m) u)"

definition forget_spent_target :: "UnitName \<Rightarrow> UnitManager \<Rightarrow> UnitManager" where
  "forget_spent_target u m = (case unit_at m u of
      None \<Rightarrow> m
    | Some rt \<Rightarrow>
        if reconcile (jobs m) u (rt_state rt) = Some NoEffect then m\<lparr>jobs := forget (jobs m) u\<rparr> else m)"

definition none_target :: "JobTarget \<Rightarrow> UnitState \<Rightarrow> UnitState option" where
  "none_target t actual = (case t of
      Stopped \<Rightarrow> (case actual of
          Inactive \<Rightarrow> Some Inactive | ActiveExited \<Rightarrow> Some Inactive | Failed _ \<Rightarrow> Some Inactive
        | _ \<Rightarrow> None)
    | Started \<Rightarrow> (case actual of
          Active \<Rightarrow> Some actual | ActiveExited \<Rightarrow> Some actual | Starting \<Rightarrow> Some actual
        | _ \<Rightarrow> None))"

definition apply_none_transition :: "UnitName \<Rightarrow> UnitManager \<Rightarrow> UnitManager" where
  "apply_none_transition u m = (case unit_at m u of
      None \<Rightarrow> m
    | Some rt \<Rightarrow>
        if reconcile (jobs m) u (rt_state rt) \<noteq> Some NoEffect then m
        else (case manager_target_of m u of
                None \<Rightarrow> m
              | Some t \<Rightarrow>
                  (case none_target t (rt_state rt) of
                     None \<Rightarrow> m
                   | Some s \<Rightarrow> upd_unit u (\<lambda>rt. rt\<lparr>rt_state := s\<rparr>) m)))"

definition is_deactivating :: "UnitManager \<Rightarrow> UnitName \<Rightarrow> bool" where
  "is_deactivating m u = (case unit_at m u of None \<Rightarrow> False | Some rt \<Rightarrow> rt_state rt = Deactivating)"

text \<open>A request for an unknown unit first makes it out of its template, when it has one.\<close>

definition ensure_unit :: "UnitName \<Rightarrow> UnitManager \<Rightarrow> UnitManager option" where
  "ensure_unit u m = (case unit_at m u of
      Some _ \<Rightarrow> Some m
    | None \<Rightarrow> (case instantiate u m of Inl _ \<Rightarrow> None | Inr m1 \<Rightarrow> Some m1))"

definition queue_behind_stop :: "UnitName \<Rightarrow> JobTarget \<Rightarrow> RequestSource \<Rightarrow> Effect option
    \<Rightarrow> UnitManager \<Rightarrow> UnitManager" where
  "queue_behind_stop u target source effect m = (case target of
      Started \<Rightarrow>
        if effect = None \<and> is_deactivating m u
        then m\<lparr>queued_starts := put u source (queued_starts m)\<rparr> else m
    | Stopped \<Rightarrow> m\<lparr>queued_starts := remove_key u (queued_starts m)\<rparr>)"

definition request :: "Kernel \<Rightarrow> UnitName \<Rightarrow> JobTarget \<Rightarrow> RequestSource \<Rightarrow> UnitManager \<Rightarrow> trace
    \<Rightarrow> Effect option \<times> UnitManager \<times> trace" where
  "request K u target source m tr = (case ensure_unit u m of
      None \<Rightarrow> (None, m, tr)
    | Some m1 \<Rightarrow>
        (let (at, tr1) = now_millis K m1 tr;
             m2 = forget_spent_target u m1;
             m3 = m2\<lparr>jobs := fst (submit (jobs m2) (new_job u target source at))\<rparr>;
             effect = effect_for m3 u;
             m4 = (if effect = Some NoEffect then apply_none_transition u m3 else m3)
         in (effect, queue_behind_stop u target source effect m4, tr1)))"

definition request_start :: "Kernel \<Rightarrow> UnitName \<Rightarrow> RequestSource \<Rightarrow> UnitManager \<Rightarrow> trace
    \<Rightarrow> Effect option \<times> UnitManager \<times> trace" where
  "request_start K u source m tr = request K u Started source m tr"

definition request_stop :: "Kernel \<Rightarrow> UnitName \<Rightarrow> RequestSource \<Rightarrow> UnitManager \<Rightarrow> trace
    \<Rightarrow> Effect option \<times> UnitManager \<times> trace" where
  "request_stop K u source m tr = request K u Stopped source m tr"

fun release_queued :: "Kernel \<Rightarrow> (UnitName \<times> RequestSource) list \<Rightarrow> UnitManager \<Rightarrow> trace
    \<Rightarrow> UnitName list \<times> UnitManager \<times> trace" where
  "release_queued K [] m tr = ([], m, tr)"
| "release_queued K ((u, source) # rest) m tr =
     (if \<not> exists_unit m u
      then release_queued K rest (m\<lparr>queued_starts := remove_key u (queued_starts m)\<rparr>) tr
      else if is_deactivating m u then release_queued K rest m tr
      else
        let (effect, m1, tr1) =
              request K u Started source (m\<lparr>queued_starts := remove_key u (queued_starts m)\<rparr>) tr;
            (ready, m2, tr2) = release_queued K rest m1 tr1
        in (if effect = Some SpawnProcess then u # ready else ready, m2, tr2))"

definition due_queued_starts :: "Kernel \<Rightarrow> UnitManager \<Rightarrow> trace \<Rightarrow> UnitName list \<times> UnitManager \<times> trace" where
  "due_queued_starts K m tr = release_queued K (queued_starts m) m tr"

definition reset_failed :: "UnitName \<Rightarrow> UnitManager \<Rightarrow> UnitManager" where
  "reset_failed u m = upd_unit u (\<lambda>rt. rt\<lparr>rt_backoff := backoff_reset (rt_backoff rt),
     rt_state := (case rt_state rt of Failed _ \<Rightarrow> Inactive | s \<Rightarrow> s)\<rparr>) m"

definition clear_start_limit :: "UnitName \<Rightarrow> UnitManager \<Rightarrow> UnitManager" where
  "clear_start_limit u m = upd_unit u (\<lambda>rt. rt\<lparr>rt_backoff := backoff_reset (rt_backoff rt)\<rparr>) m"

section \<open>The order of a shutdown\<close>

definition started_units :: "UnitManager \<Rightarrow> UnitName list" where
  "started_units m = map fst (filter (\<lambda>(_, t). mt_target t = Started) (queue_targets (jobs m)))"

definition set_shutdown_order :: "UnitName list \<Rightarrow> UnitManager \<Rightarrow> UnitManager" where
  "set_shutdown_order order m = m\<lparr>m_shutdown_order := order\<rparr>"

definition conflicts_of :: "UnitManager \<Rightarrow> UnitName \<Rightarrow> UnitName list" where
  "conflicts_of m u = (case unit_at m u of None \<Rightarrow> [] | Some rt \<Rightarrow> conflicts (deps (rt_config rt)))"

text \<open>\<open>let x = order.remove(j); order.insert(i, x)\<close> for \<open>i < j\<close>.\<close>

definition move_before :: "nat \<Rightarrow> nat \<Rightarrow> 'a list \<Rightarrow> 'a list" where
  "move_before i j xs =
     (let ys = take j xs @ drop (Suc j) xs in take i ys @ [xs ! j] @ drop i ys)"

definition later_conflict :: "UnitManager \<Rightarrow> UnitName list \<Rightarrow> nat \<Rightarrow> nat option" where
  "later_conflict m order i =
     find_map (\<lambda>other. case position order other of
         Some j \<Rightarrow> if i < j then Some j else None | None \<Rightarrow> None) (conflicts_of m (order ! i))"

fun conflict_pass :: "UnitManager \<Rightarrow> nat list \<Rightarrow> UnitName list \<times> bool \<Rightarrow> UnitName list \<times> bool" where
  "conflict_pass m [] acc = acc"
| "conflict_pass m (i # is) (order, changed) =
     (case later_conflict m order i of
        None \<Rightarrow> conflict_pass m is (order, changed)
      | Some j \<Rightarrow> conflict_pass m is (move_before i j order, True))"

fun conflict_loop :: "nat \<Rightarrow> UnitManager \<Rightarrow> UnitName list \<Rightarrow> UnitName list" where
  "conflict_loop 0 m order = order"
| "conflict_loop (Suc n) m order =
     (let (order', changed) = conflict_pass m [0..<length order] (order, False)
      in if changed then conflict_loop n m order' else order')"

definition apply_conflict_order :: "UnitManager \<Rightarrow> UnitName list \<Rightarrow> UnitName list" where
  "apply_conflict_order m order = conflict_loop (length order) m order"

definition shutdown_order :: "UnitManager \<Rightarrow> UnitName list" where
  "shutdown_order m =
     (let started = started_units m;
          out = foldl remdups_step [] (filter (\<lambda>u. u \<in> set started) (rev (m_shutdown_order m)))
      in apply_conflict_order m (foldl remdups_step out started))"

section \<open>Questions\<close>

definition compress_stop_timeouts :: "nat \<Rightarrow> UnitManager \<Rightarrow> UnitManager" where
  "compress_stop_timeouts secs m = m\<lparr>m_units := map (\<lambda>(u, rt). (u, rt\<lparr>rt_config :=
     (rt_config rt)\<lparr>timeout_stop_sec := min (timeout_stop_sec (rt_config rt)) secs\<rparr>\<rparr>)) (m_units m)\<rparr>"

definition requires_dependents :: "UnitManager \<Rightarrow> UnitName \<Rightarrow> UnitName list" where
  "requires_dependents m u =
     map (\<lambda>(_, rt). cfg_name (rt_config rt))
       (filter (\<lambda>(_, rt). u \<in> set (requires (deps (rt_config rt)))) (m_units m))"

definition failed_state :: "UnitState \<Rightarrow> bool" where
  "failed_state s = (case s of Failed _ \<Rightarrow> True | _ \<Rightarrow> False)"

definition is_failed :: "UnitManager \<Rightarrow> UnitName \<Rightarrow> bool" where
  "is_failed m u = (case unit_at m u of None \<Rightarrow> False | Some rt \<Rightarrow> failed_state (rt_state rt))"

definition running_count :: "UnitManager \<Rightarrow> nat" where
  "running_count m = length (filter (\<lambda>(_, rt). rt_pid rt \<noteq> None \<or> exec_stop_pid rt \<noteq> None
     \<or> probe_pid rt \<noteq> None \<or> rt_state rt = Deactivating) (m_units m))"

definition is_running :: "UnitManager \<Rightarrow> UnitName \<Rightarrow> bool" where
  "is_running m u = (case unit_at m u of None \<Rightarrow> False | Some rt \<Rightarrow> rt_pid rt \<noteq> None)"

definition opt_list :: "'a option \<Rightarrow> 'a list" where
  "opt_list x = (case x of None \<Rightarrow> [] | Some a \<Rightarrow> [a])"

definition unit_deadlines :: "UnitRuntime \<Rightarrow> instant list" where
  "unit_deadlines rt =
     concat (map opt_list [restart_at rt, kill_at rt, health_at rt, probe_deadline rt, idle_at rt])
     @ (if rt_state rt = Starting then opt_list (start_deadline rt) else [])"

definition soonest :: "instant \<Rightarrow> duration option \<Rightarrow> instant \<Rightarrow> duration option" where
  "soonest now acc at = Some (case acc of None \<Rightarrow> at - now | Some w \<Rightarrow> min w (at - now))"

definition next_deadline_in :: "Kernel \<Rightarrow> UnitManager \<Rightarrow> trace \<Rightarrow> duration option \<times> trace" where
  "next_deadline_in K m tr =
     (let (now, tr1) = read_clock K tr in
      (foldl (soonest now) None (concat (map (\<lambda>(_, rt). unit_deadlines rt) (m_units m))), tr1))"

definition next_kill_in :: "Kernel \<Rightarrow> UnitManager \<Rightarrow> trace \<Rightarrow> duration option \<times> trace" where
  "next_kill_in K m tr =
     (let (now, tr1) = read_clock K tr in
      (foldl (soonest now) None (concat (map (\<lambda>(_, rt). opt_list (kill_at rt)) (m_units m))), tr1))"

definition unit_summary :: "UnitRuntime \<Rightarrow> string" where
  "unit_summary rt = canonical (cfg_name (rt_config rt)) @ '': '' @ state_as_str (rt_state rt)
     @ (case rt_pid rt of None \<Rightarrow> []
        | Some p \<Rightarrow> '' pid '' @ (if p < 0 then ''-'' else []) @ show_nat (nat \<bar>p\<bar>))"

definition summary :: "UnitManager \<Rightarrow> string list" where
  "summary m = map (\<lambda>(_, rt). unit_summary rt) (filter (\<lambda>(_, rt). \<not> retired rt) (m_units m))
     @ map (\<lambda>(n, _). n @ '': template'') (templates m)"

end
