(* ===== verification/Notify_Msg.thy ===== *)
theory Notify_Msg
  imports Rust_Str
begin

text \<open>
  The \<open>sd_notify\<close> datagram parser of \<open>rinit-core/src/unit/notify.rs\<close>. The status text goes
  through \<open>String::from_utf8_lossy\<close>, which is modelled with its replacement of each maximal
  invalid part.

  The property: a datagram is rejected exactly when one of its lines is neither empty nor an
  assignment, and an accepted one carries the value of the last assignment to each key.
\<close>

section \<open>Lossy UTF-8 decoding\<close>

definition REPLACEMENT :: string where
  "REPLACEMENT = [CHR 0xEF, CHR 0xBF, CHR 0xBD]"

text \<open>
  The length of the next chunk and whether it is a valid character. An invalid chunk is the
  longest prefix that could have started a character, at least one byte.
\<close>

definition next_chunk :: "string \<Rightarrow> nat \<times> bool" where
  "next_chunk s = (case s of
       [] \<Rightarrow> (0, True)
     | a # r \<Rightarrow>
         if is_ascii a then (1, True)
         else if 194 \<le> byte a \<and> byte a \<le> 223 then
           (if r \<noteq> [] \<and> is_cont (hd r) then (2, True) else (1, False))
         else if 224 \<le> byte a \<and> byte a \<le> 239 then
           (if \<not> (r \<noteq> [] \<and> second3 a (hd r)) then (1, False)
            else if \<not> (tl r \<noteq> [] \<and> is_cont (hd (tl r))) then (2, False) else (3, True))
         else if 240 \<le> byte a \<and> byte a \<le> 244 then
           (if \<not> (r \<noteq> [] \<and> second4 a (hd r)) then (1, False)
            else if \<not> (tl r \<noteq> [] \<and> is_cont (hd (tl r))) then (2, False)
            else if \<not> (tl (tl r) \<noteq> [] \<and> is_cont (hd (tl (tl r)))) then (3, False) else (4, True))
         else (1, False))"

lemma next_chunk_pos: "s \<noteq> [] \<Longrightarrow> 0 < fst (next_chunk s)"
  by (cases s) (auto simp: next_chunk_def)

function from_utf8_lossy :: "string \<Rightarrow> string" where
  "from_utf8_lossy s =
     (if s = [] then []
      else (if snd (next_chunk s) then take (fst (next_chunk s)) s else REPLACEMENT)
             @ from_utf8_lossy (drop (fst (next_chunk s)) s))"
  by pat_completeness auto

termination
  by (relation "measure length") (auto simp: next_chunk_pos intro: diff_less)

declare from_utf8_lossy.simps [simp del]

section \<open>The datagram\<close>

record NotifyMessage =
  ready :: bool
  status :: "string option"
  watchdog :: bool

datatype NotifyError = Malformed nat

definition notify_error_text :: "NotifyError \<Rightarrow> string" where
  "notify_error_text e = (case e of Malformed n \<Rightarrow> ''notify line '' @ show_nat n @ '' is not KEY=VALUE'')"

definition notify_default :: NotifyMessage where
  "notify_default = \<lparr>ready = False, status = None, watchdog = False\<rparr>"

definition assign :: "string \<Rightarrow> string \<Rightarrow> NotifyMessage \<Rightarrow> NotifyMessage" where
  "assign key value m =
     (if key = ''READY'' then m\<lparr>ready := (value = ''1'')\<rparr>
      else if key = ''STATUS'' then m\<lparr>status := Some (from_utf8_lossy value)\<rparr>
      else if key = ''WATCHDOG'' then m\<lparr>watchdog := (value = ''1'')\<rparr>
      else m)"

fun notify_lines :: "nat \<Rightarrow> string list \<Rightarrow> NotifyMessage \<Rightarrow> NotifyError + NotifyMessage" where
  "notify_lines index [] m = Inr m"
| "notify_lines index (raw # rest) m =
     (let line = strip_cr raw in
      if line = [] then notify_lines (index + 1) rest m
      else (case split_once CHR ''='' line of
              None \<Rightarrow> Inl (Malformed (index + 1))
            | Some (key, value) \<Rightarrow> notify_lines (index + 1) rest (assign key value m)))"

definition notify_parse :: "string \<Rightarrow> NotifyError + NotifyMessage" where
  "notify_parse message = notify_lines 0 (split_char CHR 0x0A message) notify_default"

section \<open>Lossy decoding is a projection onto valid text\<close>

lemma next_chunk_valid:
  assumes "snd (next_chunk s)" "s \<noteq> []"
  shows "utf8_valid (take (fst (next_chunk s)) s)"
proof -
  obtain a r where s: "s = a # r" using assms(2) by (cases s) auto
  show ?thesis
    using assms(1) unfolding s
    by (cases r; cases "tl r"; cases "tl (tl r)")
       (auto simp: next_chunk_def is_ascii_def split: if_splits)
qed

lemma utf8_valid_lossy: "utf8_valid (from_utf8_lossy s)"
proof (induction s rule: from_utf8_lossy.induct)
  case (1 s)
  have "utf8_valid REPLACEMENT" by code_simp
  then show ?case
    using 1 next_chunk_valid [of s]
    by (cases "s = []")
       (auto simp: from_utf8_lossy.simps [of s] from_utf8_lossy.simps [of "[]"] utf8_valid_append)
qed

section \<open>Assignments\<close>

definition assignments :: "string \<Rightarrow> (string \<times> string) list" where
  "assignments message =
     List.map_filter (\<lambda>raw. split_once CHR ''='' (strip_cr raw)) (split_char CHR 0x0A message)"

definition last_value :: "string \<Rightarrow> (string \<times> string) list \<Rightarrow> string option" where
  "last_value key kvs = map_of (rev kvs) key"

definition bad_line :: "string \<Rightarrow> bool" where
  "bad_line raw \<longleftrightarrow> strip_cr raw \<noteq> [] \<and> CHR ''='' \<notin> set (strip_cr raw)"

lemma notify_lines_Inr:
  "notify_lines i raws m = Inr m' \<longleftrightarrow>
     \<not> list_ex bad_line raws
     \<and> m' = foldl (\<lambda>m (k, v). assign k v m) m
              (List.map_filter (\<lambda>raw. split_once CHR ''='' (strip_cr raw)) raws)"
proof (induction raws arbitrary: i m)
  case (Cons raw raws)
  show ?case
  proof (cases "split_once CHR ''='' (strip_cr raw)")
    case None
    moreover from this have "CHR ''='' \<notin> set (strip_cr raw)" by (simp add: split_once_None_iff)
    ultimately show ?thesis
      using Cons.IH by (auto simp: Let_def bad_line_def List.map_filter_simps)
  next
    case (Some kv)
    moreover from this have "CHR ''='' \<in> set (strip_cr raw)"
      by (metis option.distinct(1) split_once_None_iff)
    ultimately show ?thesis
      using Cons.IH by (cases kv) (auto simp: Let_def bad_line_def List.map_filter_simps)
  qed
qed (auto simp: List.map_filter_simps)

lemma assign_fields:
  "ready (assign k v m) = (if k = ''READY'' then v = ''1'' else ready m)"
  "watchdog (assign k v m) = (if k = ''WATCHDOG'' then v = ''1'' else watchdog m)"
  "status (assign k v m) = (if k = ''STATUS'' then Some (from_utf8_lossy v) else status m)"
  by (simp_all add: assign_def)

lemma foldl_assign:
  "ready (foldl (\<lambda>m (k, v). assign k v m) m kvs) =
     (case last_value ''READY'' kvs of Some v \<Rightarrow> v = ''1'' | None \<Rightarrow> ready m)"
  "watchdog (foldl (\<lambda>m (k, v). assign k v m) m kvs) =
     (case last_value ''WATCHDOG'' kvs of Some v \<Rightarrow> v = ''1'' | None \<Rightarrow> watchdog m)"
  "status (foldl (\<lambda>m (k, v). assign k v m) m kvs) =
     (case last_value ''STATUS'' kvs of Some v \<Rightarrow> Some (from_utf8_lossy v) | None \<Rightarrow> status m)"
  by (induction kvs rule: rev_induct) (auto simp: last_value_def assign_fields split: option.splits)

section \<open>Properties\<close>

text \<open>
  A datagram is accepted exactly when every line is empty or an assignment, and the
  message then holds the last assignment to each key: the unit is ready when the last \<open>READY\<close> is
  \<open>1\<close>, and the status is the last \<open>STATUS\<close>, decoded to valid text.
\<close>

theorem notify_parse_spec:
  "notify_parse message = Inr m \<longleftrightarrow>
     \<not> list_ex bad_line (split_char CHR 0x0A message)
     \<and> m = \<lparr>ready = (last_value ''READY'' (assignments message) = Some ''1''),
            status = map_option from_utf8_lossy (last_value ''STATUS'' (assignments message)),
            watchdog = (last_value ''WATCHDOG'' (assignments message) = Some ''1'')\<rparr>"
proof -
  let ?m = "foldl (\<lambda>m (k, v). assign k v m) notify_default (assignments message)"
  have "?m = \<lparr>ready = (last_value ''READY'' (assignments message) = Some ''1''),
            status = map_option from_utf8_lossy (last_value ''STATUS'' (assignments message)),
            watchdog = (last_value ''WATCHDOG'' (assignments message) = Some ''1'')\<rparr>"
    by (rule NotifyMessage.equality)
       (auto simp: foldl_assign notify_default_def split: option.splits)
  then show ?thesis
    using notify_lines_Inr [of 0 "split_char CHR 0x0A message" notify_default m]
    by (simp add: notify_parse_def assignments_def)
qed

end
