(* ===== verification/Manager_Run.thy ===== *)
theory Manager_Run
  imports Manager_Core Notify_Msg
begin

text \<open>
  The unit manager (\<open>rinit/src/unit_manager.rs\<close>), second half: starting a process, stopping it in
  two stages, health probes, timers, and what the exit of a child does to its unit. Operations that
  act on one unit are functions on its \<open>UnitRuntime\<close> and the trace; loops over all units are
  \<open>sweep\<close>s.
\<close>

section \<open>Starting\<close>

datatype SpawnBeginUnit = SpawnedUnit SpawnBegin | NoProcess | AlreadyRunning

text \<open>What a previous instance may have left: its process group, its probe, its stop command.\<close>

definition clear_leftovers :: "Kernel \<Rightarrow> UnitRuntime \<Rightarrow> trace \<Rightarrow> UnitRuntime \<times> trace" where
  "clear_leftovers K rt tr =
     (if rt_pid rt \<noteq> None then (rt, tr)
      else
        let (rt1, tr1) =
              (case rt_group rt of
                 None \<Rightarrow> (rt, tr)
               | Some g \<Rightarrow>
                   let (alive, tr0) = group_alive K g tr in
                   if alive then (rt\<lparr>rt_group := None\<rparr>, snd (kill_group K g SIGKILL tr0)) else (rt, tr0));
            (rt2, tr2) =
              (case probe_pid rt1 of
                 None \<Rightarrow> (rt1, tr1)
               | Some p \<Rightarrow> (rt1\<lparr>probe_pid := None, probe_deadline := None\<rparr>,
                           snd (kill_process_group K p SIGKILL tr1)))
        in (case exec_stop_pid rt2 of
              None \<Rightarrow> (rt2, tr2)
            | Some p \<Rightarrow> (rt2\<lparr>exec_stop_pid := None\<rparr>, snd (kill_process_group K p SIGKILL tr2))))"

definition idle_secs :: "UnitConfig \<Rightarrow> nat option" where
  "idle_secs cfg = (if socket_activate cfg \<noteq> None \<and> idle_timeout_sec cfg > 0
     then Some (idle_timeout_sec cfg) else None)"

definition opt_deadline :: "Kernel \<Rightarrow> nat option \<Rightarrow> trace \<Rightarrow> instant option \<times> trace" where
  "opt_deadline K secs tr = (case secs of None \<Rightarrow> (None, tr) | Some n \<Rightarrow> deadline K n tr)"

text \<open>The limits of the unit, in place before the fork, and the baseline of its OOM counter.\<close>

definition place_in_cgroup :: "Kernel \<Rightarrow> Cgroup \<Rightarrow> UnitName \<Rightarrow> CgroupLimits \<Rightarrow> trace
    \<Rightarrow> (RuntimeError + string option) \<times> trace" where
  "place_in_cgroup K cg u limits tr =
     (if cgroup_is_enabled cg \<and> \<not> limits_is_empty limits
      then (case cgroup_setup K cg u limits tr of
              (Inl e, tr1) \<Rightarrow> (Inl e, cgroup_cleanup K cg u tr1)
            | (Inr procs, tr1) \<Rightarrow> (Inr procs, tr1))
      else (Inr None, tr))"

definition tty_of :: "UnitConfig \<Rightarrow> RuntimeError + (string \<times> bool) option" where
  "tty_of cfg = (case tty_path cfg of
      None \<Rightarrow> Inr None
    | Some p \<Rightarrow> rbind (cstring ''TTYPath'' p) (\<lambda>c. Inr (Some (c, tty_reset cfg))))"

text \<open>Everything up to the fork: the process, or why there is none, and the OOM baseline.\<close>

definition launch :: "Kernel \<Rightarrow> Cgroup \<Rightarrow> UnitName \<Rightarrow> UnitConfig \<Rightarrow> string list \<Rightarrow> fd option \<Rightarrow> fd option
    \<Rightarrow> trace \<Rightarrow> (RuntimeError + SpawnBegin \<times> nat option) \<times> trace" where
  "launch K cg u cfg extra output listen_fd tr =
     (let (env, tr1) = build_service_env K cfg extra tr in
      case resolve_sandbox K cfg tr1 of
        (Inl e, tr2) \<Rightarrow> (Inl e, tr2)
      | (Inr sandbox, tr2) \<Rightarrow>
          (case place_in_cgroup K cg u (limits_from_config cfg) tr2 of
             (Inl e, tr3) \<Rightarrow> (Inl e, tr3)
           | (Inr procs, tr3) \<Rightarrow>
               (let (oom, tr4) = (if procs \<noteq> None then cgroup_oom_kills K cg u tr3 else (None, tr3)) in
                case tty_of cfg of
                  Inl e \<Rightarrow> (Inl e, tr4)
                | Inr tty \<Rightarrow>
                    (case begin_spawn_service_in_group K (argv (exec_start cfg)) env
                            (Some (working_directory cfg)) output sandbox
                            \<lparr>cp_procs = procs, cp_tty = tty, cp_listen_fd = listen_fd\<rparr> tr4 of
                       (Inl e, tr5) \<Rightarrow> (Inl e, tr5)
                     | (Inr b, tr5) \<Rightarrow> (Inr (b, oom), tr5)))))"

text \<open>The registration of the new process, by \<open>Type=\<close>.\<close>

definition register_process :: "Kernel \<Rightarrow> millis \<Rightarrow> pid \<Rightarrow> nat option \<Rightarrow> UnitRuntime \<Rightarrow> trace
    \<Rightarrow> UnitRuntime \<times> trace" where
  "register_process K now p oom rt tr =
     (let (g, tr1) = sys_getpgid K p tr;
          (idle, tr2) = opt_deadline K (idle_secs (rt_config rt)) tr1;
          rt1 = rt\<lparr>rt_pid := Some p, rt_group := (if g = Inr p then Some p else None),
                   rt_state := Starting, restart_at := None, kill_at := None, exec_stop_pid := None,
                   oom_kills_at_start := oom, idle_at := idle\<rparr>
      in (case service_kind (rt_config rt) of
            Simple \<Rightarrow>
              schedule_health K (rt1\<lparr>rt_state := Active, rt_backoff := on_active (rt_backoff rt1) now\<rparr>) tr2
          | _ \<Rightarrow>
              let (at, tr3) = deadline K (timeout_start_sec (rt_config rt)) tr2
              in (rt1\<lparr>start_deadline := at\<rparr>, tr3)))"

definition begin_spawn_unit :: "Kernel \<Rightarrow> UnitName \<Rightarrow> string list \<Rightarrow> fd option \<Rightarrow> fd option
    \<Rightarrow> UnitManager \<Rightarrow> trace \<Rightarrow> (RuntimeError + SpawnBeginUnit) \<times> UnitManager \<times> trace" where
  "begin_spawn_unit K u extra output listen_fd m tr = (case unit_at m u of
      None \<Rightarrow> (Inr AlreadyRunning, m, tr)
    | Some rt0 \<Rightarrow>
        (let (rt, tr1) = clear_leftovers K rt0 tr; m1 = upd_unit u (\<lambda>_. rt) m in
         if rt_pid rt \<noteq> None then (Inr AlreadyRunning, m1, tr1)
         else if \<not> spawns rt
         then (Inr NoProcess, upd_unit u (\<lambda>rt. rt\<lparr>rt_state := Active\<rparr>) m1, tr1)
         else (case launch K (m_cgroup m) u (rt_config rt) extra output listen_fd tr1 of
                 (Inl e, tr2) \<Rightarrow> (Inl e, m1, tr2)
               | (Inr (b, oom), tr2) \<Rightarrow>
                   (let (now, tr3) = now_millis K m1 tr2;
                        (rt', tr4) = register_process K now (begun_pid b) oom rt tr3
                    in (Inr (SpawnedUnit b), upd_unit u (\<lambda>_. rt') m1, tr4)))))"

definition cap_start_deadline :: "UnitName \<Rightarrow> instant \<Rightarrow> UnitManager \<Rightarrow> UnitManager" where
  "cap_start_deadline u at m = upd_unit u (\<lambda>rt. case start_deadline rt of
      None \<Rightarrow> rt | Some current \<Rightarrow> rt\<lparr>start_deadline := Some (min current at)\<rparr>) m"

definition with_unit_rt :: "UnitName \<Rightarrow> (UnitRuntime \<Rightarrow> trace \<Rightarrow> UnitRuntime \<times> trace) \<Rightarrow> UnitManager
    \<Rightarrow> trace \<Rightarrow> UnitManager \<times> trace" where
  "with_unit_rt u f m tr = (case unit_at m u of
      None \<Rightarrow> (m, tr)
    | Some rt \<Rightarrow> let (rt', tr1) = f rt tr in (upd_unit u (\<lambda>_. rt') m, tr1))"

definition note_connection :: "Kernel \<Rightarrow> UnitName \<Rightarrow> UnitManager \<Rightarrow> trace \<Rightarrow> UnitManager \<times> trace" where
  "note_connection K u m tr = with_unit_rt u (\<lambda>rt tr.
     let (at, tr1) = deadline K (idle_timeout_sec (rt_config rt)) tr in (rt\<lparr>idle_at := at\<rparr>, tr1)) m tr"

definition daemon_started_rt :: "Kernel \<Rightarrow> millis \<Rightarrow> pid \<Rightarrow> int + pid \<Rightarrow> UnitRuntime \<Rightarrow> trace
    \<Rightarrow> UnitRuntime \<times> trace" where
  "daemon_started_rt K now daemon daemon_group rt tr =
     (let (idle, tr1) = opt_deadline K (idle_secs (rt_config rt)) tr in
      schedule_health K (rt\<lparr>rt_pid := Some daemon,
         rt_group := (case daemon_group of
             Inl _ \<Rightarrow> None
           | Inr g \<Rightarrow> if g = daemon \<or> Some g = rt_group rt then Some g else None),
         rt_state := Active, start_deadline := None, idle_at := idle,
         rt_backoff := on_active (rt_backoff rt) now\<rparr>) tr1)"

definition mark_daemon_started :: "Kernel \<Rightarrow> UnitName \<Rightarrow> pid \<Rightarrow> UnitManager \<Rightarrow> trace \<Rightarrow> UnitManager \<times> trace" where
  "mark_daemon_started K u daemon m tr =
     (let (now, tr1) = now_millis K m tr; (g, tr2) = sys_getpgid K daemon tr1
      in with_unit_rt u (daemon_started_rt K now daemon g) m tr2)"

section \<open>Readiness\<close>

definition on_notify :: "Kernel \<Rightarrow> UnitName \<Rightarrow> NotifyMessage \<Rightarrow> UnitManager \<Rightarrow> trace
    \<Rightarrow> bool \<times> UnitManager \<times> trace" where
  "on_notify K u msg m tr =
     (let (now, tr1) = now_millis K m tr in
      case unit_at m u of
        None \<Rightarrow> (False, m, tr1)
      | Some rt0 \<Rightarrow>
          (let rt = (case status msg of None \<Rightarrow> rt0 | Some s \<Rightarrow> rt0\<lparr>rt_status := Some s\<rparr>) in
           if \<not> ready msg \<or> rt_state rt \<noteq> Starting then (False, upd_unit u (\<lambda>_. rt) m, tr1)
           else (case transition (rt_state rt) StartUpComplete (policy rt) (service_kind (rt_config rt)) of
                   Inl _ \<Rightarrow> (False, upd_unit u (\<lambda>_. rt) m, tr1)
                 | Inr t \<Rightarrow>
                     (let (rt', tr2) = schedule_health K (rt\<lparr>rt_state := tr_to t, start_deadline := None,
                            rt_backoff := on_active (rt_backoff rt) now\<rparr>) tr1
                      in (True, upd_unit u (\<lambda>_. rt') m, tr2)))))"

section \<open>Stopping\<close>

text \<open>The end of a stop that found its process gone.\<close>

definition gone :: "Kernel \<Rightarrow> Cgroup \<Rightarrow> UnitName \<Rightarrow> UnitRuntime \<Rightarrow> trace \<Rightarrow> UnitRuntime \<times> trace" where
  "gone K cg u rt tr = (rt\<lparr>rt_pid := None, rt_state := Inactive\<rparr>, cgroup_cleanup K cg u tr)"

text \<open>A signal that starts a stop: whether it did, and the unit afterwards.\<close>

definition after_stop_signal :: "Kernel \<Rightarrow> Cgroup \<Rightarrow> UnitName \<Rightarrow> UnitRuntime \<Rightarrow> int option \<times> trace
    \<Rightarrow> bool \<times> UnitRuntime \<times> trace" where
  "after_stop_signal K cg u rt result = (case result of
      (None, tr) \<Rightarrow> (True, rt\<lparr>rt_state := Deactivating\<rparr>, tr)
    | (Some e, tr) \<Rightarrow> if e = ESRCH then (False, gone K cg u rt tr) else (False, rt, tr))"

definition stop_leftovers :: "Kernel \<Rightarrow> Cgroup \<Rightarrow> UnitName \<Rightarrow> UnitRuntime \<Rightarrow> trace \<Rightarrow> UnitRuntime \<times> trace" where
  "stop_leftovers K cg u rt tr =
     (let (members, tr1) = cgroup_members K cg u tr in
      if members = None \<or> members = Some []
      then (rt\<lparr>rt_state := Inactive, rt_group := None\<rparr>, cgroup_cleanup K cg u tr1)
      else let tr2 = signal_members K cg u SIGTERM tr1 in
        if timeout_stop_sec (rt_config rt) = 0
        then let (now, tr3) = read_clock K (signal_members K cg u SIGKILL tr2)
          in (rt\<lparr>rt_state := Deactivating, kill_at := Some now\<rparr>, tr3)
        else let (at, tr3) = after_secs K (timeout_stop_sec (rt_config rt)) tr2
          in (rt\<lparr>rt_state := Deactivating, kill_at := Some at\<rparr>, tr3))"

definition run_exec_stop :: "Kernel \<Rightarrow> UnitConfig \<Rightarrow> trace \<Rightarrow> (RuntimeError + pid) \<times> trace" where
  "run_exec_stop K cfg tr =
     (let (env, tr1) = build_service_env K cfg [] tr in
      case resolve_sandbox K cfg tr1 of
        (Inl e, tr2) \<Rightarrow> (Inl e, tr2)
      | (Inr sandbox, tr2) \<Rightarrow>
          spawn_service_in_group_detached K (argv (exec_stop cfg)) env (Some (working_directory cfg))
            None sandbox no_placement tr2)"

definition begin_stop :: "Kernel \<Rightarrow> Cgroup \<Rightarrow> UnitName \<Rightarrow> pid \<Rightarrow> UnitRuntime \<Rightarrow> trace
    \<Rightarrow> bool \<times> UnitRuntime \<times> trace" where
  "begin_stop K cg u p rt tr =
     (if argv (exec_stop (rt_config rt)) = []
      then after_stop_signal K cg u rt (signal_process K p SIGTERM (signal_members K cg u SIGTERM tr))
      else (case run_exec_stop K (rt_config rt) tr of
              (Inr stop_pid, tr1) \<Rightarrow>
                (True, rt\<lparr>exec_stop_pid := Some stop_pid, rt_state := Deactivating\<rparr>, tr1)
            | (Inl _, tr1) \<Rightarrow>
                after_stop_signal K cg u rt
                  (kill_process_group K p SIGTERM (signal_members K cg u SIGTERM tr1))))"

definition arm_kill :: "Kernel \<Rightarrow> Cgroup \<Rightarrow> UnitName \<Rightarrow> pid \<Rightarrow> UnitRuntime \<Rightarrow> trace \<Rightarrow> UnitRuntime \<times> trace" where
  "arm_kill K cg u p rt tr =
     (if timeout_stop_sec (rt_config rt) = 0
      then let tr1 = signal_members K cg u SIGKILL tr;
               tr2 = (case exec_stop_pid rt of None \<Rightarrow> tr1
                      | Some sp \<Rightarrow> snd (kill_process_group K sp SIGKILL tr1))
        in (rt\<lparr>exec_stop_pid := None\<rparr>, snd (kill_process_group K p SIGKILL tr2))
      else let (at, tr1) = after_secs K (timeout_stop_sec (rt_config rt)) tr
        in (rt\<lparr>kill_at := Some at\<rparr>, tr1))"

definition stop_rt :: "Kernel \<Rightarrow> Cgroup \<Rightarrow> UnitName \<Rightarrow> UnitRuntime \<Rightarrow> trace \<Rightarrow> UnitRuntime \<times> trace" where
  "stop_rt K cg u rt tr =
     (if rt_state rt = Deactivating then (rt, tr)
      else
        let rt1 = rt\<lparr>restart_at := None, start_deadline := None, kill_at := None, health_at := None,
                     probe_deadline := None, restart_after_stop := False, probe_pid := None\<rparr>;
            tr1 = (case probe_pid rt of None \<Rightarrow> tr | Some p \<Rightarrow> snd (kill_process_group K p SIGKILL tr))
        in (case rt_pid rt1 of
              None \<Rightarrow> stop_leftovers K cg u rt1 tr1
            | Some p \<Rightarrow>
                (let (stopping, rt2, tr2) = begin_stop K cg u p rt1 tr1
                 in if stopping then arm_kill K cg u p rt2 tr2 else (rt2, tr2))))"

definition stop_unit :: "Kernel \<Rightarrow> UnitName \<Rightarrow> UnitManager \<Rightarrow> trace \<Rightarrow> UnitManager \<times> trace" where
  "stop_unit K u m tr = with_unit_rt u (stop_rt K (m_cgroup m) u) m tr"

datatype RestartPlan = PlanStopping | PlanStart | PlanNotApplicable

definition restart_unit :: "Kernel \<Rightarrow> UnitName \<Rightarrow> UnitManager \<Rightarrow> trace
    \<Rightarrow> RestartPlan \<times> UnitManager \<times> trace" where
  "restart_unit K u m tr = (case unit_at m u of
      None \<Rightarrow> (PlanNotApplicable, m, tr)
    | Some rt \<Rightarrow>
        (if rt_state rt = ActiveExited then (PlanNotApplicable, m, tr)
         else if rt_state rt = Inactive \<or> failed_state (rt_state rt) then (PlanStart, m, tr)
         else
           let (m1, tr1) = stop_unit K u m tr in
           if is_deactivating m1 u
           then (PlanStopping, upd_unit u (\<lambda>rt. rt\<lparr>restart_after_stop := True\<rparr>) m1, tr1)
           else (PlanStart, m1, tr1)))"

definition needs_stop :: "UnitRuntime \<Rightarrow> bool" where
  "needs_stop rt \<longleftrightarrow> rt_pid rt \<noteq> None \<or> rt_state rt \<in> {Starting, RestartWait, Deactivating}"

fun stop_each :: "Kernel \<Rightarrow> UnitName list \<Rightarrow> UnitManager \<Rightarrow> trace \<Rightarrow> UnitName list \<times> UnitManager \<times> trace" where
  "stop_each K [] m tr = ([], m, tr)"
| "stop_each K (other # rest) m tr =
     (if (case unit_at m other of None \<Rightarrow> False | Some rt \<Rightarrow> needs_stop rt)
      then let (_, m1, tr1) = request_stop K other UserStop m tr;
               (m2, tr2) = stop_unit K other m1 tr1;
               (stopped, m3, tr3) = stop_each K rest m2 tr2
        in (other # stopped, m3, tr3)
      else stop_each K rest m tr)"

definition stop_conflicts :: "Kernel \<Rightarrow> UnitName \<Rightarrow> UnitManager \<Rightarrow> trace
    \<Rightarrow> UnitName list \<times> UnitManager \<times> trace" where
  "stop_conflicts K u m tr = stop_each K (conflicts_of m u) m tr"

section \<open>Failed starts and the units that require them\<close>

definition mark_failed :: "UnitRuntime \<Rightarrow> UnitRuntime" where
  "mark_failed rt = rt\<lparr>restart_at := None, start_deadline := None, kill_at := None,
     rt_pid := (if failed_state (rt_state rt) then rt_pid rt else None),
     rt_group := (if failed_state (rt_state rt) then rt_group rt else None),
     rt_state := (if failed_state (rt_state rt) then rt_state rt else Failed StartFailure)\<rparr>"

text \<open>The body of the loop over the units that require the current one.\<close>

fun fail_dependents :: "UnitName list \<Rightarrow> UnitManager \<times> UnitName set \<times> UnitName list \<times> UnitName list
    \<Rightarrow> UnitManager \<times> UnitName set \<times> UnitName list \<times> UnitName list" where
  "fail_dependents [] acc = acc"
| "fail_dependents (d # ds) (m, vis, failed, queue) = (case unit_at m d of
      None \<Rightarrow> fail_dependents ds (m, vis, failed, queue)
    | Some rt \<Rightarrow>
        if rt_pid rt \<noteq> None then fail_dependents ds (m, vis, failed, queue)
        else
          let fresh = \<not> failed_state (rt_state rt);
              m1 = (if fresh then upd_unit d (\<lambda>rt. rt\<lparr>rt_state := Failed StartFailure\<rparr>) m else m);
              failed1 = (if fresh then failed @ [d] else failed)
          in if d \<in> vis then fail_dependents ds (m1, vis, failed1, queue)
             else fail_dependents ds (m1, insert d vis, failed1, d # queue))"

lemma upd_unit_keys [simp]: "map fst (m_units (upd_unit u f m)) = map fst (m_units m)"
  by (simp add: upd_unit_def)

lemma fail_dependents_keys:
  "fail_dependents ds (m, vis, failed, queue) = (m', vis', failed', queue') \<Longrightarrow>
     map fst (m_units m') = map fst (m_units m)
     \<and> (\<exists>news. vis' = vis \<union> set news \<and> queue' = news @ queue \<and> set news \<inter> vis = {}
          \<and> set news \<subseteq> fst ` set (m_units m))"
proof (induction ds arbitrary: m vis failed queue)
  case (Cons d ds)
  show ?case
  proof (cases "\<exists>rt. unit_at m d = Some rt \<and> rt_pid rt = None")
    case False
    then show ?thesis using Cons by (auto split: option.splits)
  next
    case True
    then obtain rt where rt: "unit_at m d = Some rt" "rt_pid rt = None" by blast
    then have d: "d \<in> fst ` set (m_units m)" by (metis fst_conv image_eqI map_of_SomeD)
    define m1 where "m1 = (if failed_state (rt_state rt) then m
        else upd_unit d (\<lambda>rt. rt\<lparr>rt_state := Failed StartFailure\<rparr>) m)"
    define failed1 where "failed1 = (if failed_state (rt_state rt) then failed else failed @ [d])"
    have m1: "map fst (m_units m1) = map fst (m_units m)" by (simp add: m1_def)
    have rec: "fail_dependents ds (m1, insert d vis, failed1, if d \<in> vis then queue else d # queue)
          = (m', vis', failed', queue')"
      using Cons.prems rt by (simp add: m1_def failed1_def Let_def insert_absorb split: if_splits)
    have keys: "fst ` set (m_units m1) = fst ` set (m_units m)" using m1 by (metis set_map)
    from Cons.IH [OF rec] obtain news where
      "map fst (m_units m') = map fst (m_units m1)" "vis' = insert d vis \<union> set news"
      "queue' = news @ (if d \<in> vis then queue else d # queue)" "set news \<inter> insert d vis = {}"
      "set news \<subseteq> fst ` set (m_units m1)" by blast
    then show ?thesis
      using m1 d keys by (intro conjI exI [of _ "if d \<in> vis then news else news @ [d]"]) (auto split: if_splits)
  qed
qed auto

function (sequential) fail_loop :: "UnitManager \<Rightarrow> UnitName set \<Rightarrow> UnitName list \<Rightarrow> UnitName list
    \<Rightarrow> UnitName list \<times> UnitManager" where
  "fail_loop m vis failed [] = (failed, m)"
| "fail_loop m vis failed (current # queue) =
     (let (m', vis', failed', queue') =
            fail_dependents (requires_dependents m current) (m, vis, failed, queue)
      in fail_loop m' vis' failed' queue')"
  by pat_completeness auto

termination
proof (relation "(\<lambda>(m, vis, failed, queue). card (fst ` set (m_units m) - vis)) <*mlex*>
    measure (\<lambda>(m, vis, failed, queue). length queue)", goal_cases)
  case 1
  show ?case by (simp add: wf_mlex)
next
  case (2 m vis failed current queue x m' y vis' z failed' queue')
  then obtain news where keys: "map fst (m_units m') = map fst (m_units m)"
    and n: "vis' = vis \<union> set news" "queue' = news @ queue" "set news \<inter> vis = {}"
      "set news \<subseteq> fst ` set (m_units m)"
    using fail_dependents_keys [of "requires_dependents m current" m vis failed queue m' vis' failed' queue']
    by metis
  have ks: "fst ` set (m_units m') = fst ` set (m_units m)" using keys by (metis set_map)
  show ?case
  proof (cases "news = []")
    case True
    then show ?thesis using n ks by (simp add: mlex_leq)
  next
    case False
    then obtain v where "v \<in> set news" by (cases news) auto
    with n have "fst ` set (m_units m) - vis' \<subset> fst ` set (m_units m) - vis" by auto
    then show ?thesis by (intro mlex_less) (simp add: ks psubset_card_mono)
  qed
qed

text \<open>The kill of a process left by a start that failed after the fork.\<close>

definition kill_failed :: "Kernel \<Rightarrow> Cgroup \<Rightarrow> UnitName \<Rightarrow> UnitRuntime \<Rightarrow> trace \<Rightarrow> trace" where
  "kill_failed K cg u rt tr = (case rt_pid rt of
      None \<Rightarrow> tr
    | Some p \<Rightarrow>
        let tr1 = (case rt_group rt of None \<Rightarrow> tr | Some g \<Rightarrow> snd (kill_group K g SIGKILL tr));
            tr2 = snd (signal_process K p SIGKILL tr1)
        in signal_members K cg u SIGKILL tr2)"

definition fail_start :: "Kernel \<Rightarrow> UnitName \<Rightarrow> UnitManager \<Rightarrow> trace
    \<Rightarrow> UnitName list \<times> UnitManager \<times> trace" where
  "fail_start K u m tr =
     (let tr2 = (case unit_at m u of
            None \<Rightarrow> tr
          | Some rt \<Rightarrow>
              let tr1 = kill_failed K (m_cgroup m) u rt tr
              in if rt_pid rt \<noteq> None then cgroup_cleanup K (m_cgroup m) u tr1 else tr1);
          (failed, m2) = fail_loop (upd_unit u mark_failed m) {u} [] [u]
      in (failed, m2, tr2))"

definition reach_target :: "Kernel \<Rightarrow> UnitName \<Rightarrow> UnitManager \<Rightarrow> trace
    \<Rightarrow> UnitState \<times> UnitManager \<times> trace" where
  "reach_target K u m tr = (case unit_at m u of
      None \<Rightarrow> (Inactive, m, tr)
    | Some rt \<Rightarrow>
        if failed_state (rt_state rt) \<or> list_ex (is_failed m) (requires (deps (rt_config rt)))
        then let (_, m1, tr1) = fail_start K u m tr in (Failed StartFailure, m1, tr1)
        else (Active, upd_unit u (\<lambda>rt. rt\<lparr>rt_state := Active\<rparr>) m, tr))"

section \<open>Timers\<close>

type_synonym due = "UnitName list \<times> trace"

definition run_sweep :: "(UnitName \<Rightarrow> UnitRuntime \<Rightarrow> due \<Rightarrow> UnitRuntime \<times> due) \<Rightarrow> UnitManager \<Rightarrow> trace
    \<Rightarrow> UnitName list \<times> UnitManager \<times> trace" where
  "run_sweep f m tr =
     (let (us, (due, tr1)) = sweep f (m_units m) ([], tr) in (due, m\<lparr>m_units := us\<rparr>, tr1))"

definition passed :: "instant option \<Rightarrow> instant \<Rightarrow> bool" where
  "passed at now = (case at of None \<Rightarrow> False | Some t \<Rightarrow> t \<le> now)"

definition idle_step :: "instant \<Rightarrow> UnitName \<Rightarrow> UnitRuntime \<Rightarrow> due \<Rightarrow> UnitRuntime \<times> due" where
  "idle_step now u rt s =
     (if passed (idle_at rt) now then (rt\<lparr>idle_at := None\<rparr>, (fst s @ [u], snd s)) else (rt, s))"

definition due_idle_units :: "Kernel \<Rightarrow> UnitManager \<Rightarrow> trace \<Rightarrow> UnitName list \<times> UnitManager \<times> trace" where
  "due_idle_units K m tr = (let (now, tr1) = read_clock K tr in run_sweep (idle_step now) m tr1)"

definition restart_step :: "instant \<Rightarrow> UnitName \<Rightarrow> UnitRuntime \<Rightarrow> due \<Rightarrow> UnitRuntime \<times> due" where
  "restart_step now u rt s =
     (if retired rt then (rt\<lparr>restart_at := None\<rparr>, s)
      else if passed (restart_at rt) now
      then (rt\<lparr>restart_at := None\<rparr>, (fst s @ [u], snd s)) else (rt, s))"

definition due_restarts :: "Kernel \<Rightarrow> UnitManager \<Rightarrow> trace \<Rightarrow> UnitName list \<times> UnitManager \<times> trace" where
  "due_restarts K m tr = (let (now, tr1) = read_clock K tr in run_sweep (restart_step now) m tr1)"

definition start_timeout_step :: "Kernel \<Rightarrow> Cgroup \<Rightarrow> instant \<Rightarrow> UnitName \<Rightarrow> UnitRuntime \<Rightarrow> due
    \<Rightarrow> UnitRuntime \<times> due" where
  "start_timeout_step K cg now u rt s =
     (if rt_state rt \<noteq> Starting then (rt\<lparr>start_deadline := None\<rparr>, s)
      else if \<not> passed (start_deadline rt) now then (rt, s)
      else
        let (at, tr2) =
          (if timeout_stop_sec (rt_config rt) = 0
           then let tr1 = signal_members K cg u SIGKILL (snd s) in
             (None, case rt_pid rt of None \<Rightarrow> tr1 | Some p \<Rightarrow> snd (signal_process K p SIGKILL tr1))
           else let tr1 = signal_members K cg u SIGTERM (snd s) in
             deadline K (timeout_stop_sec (rt_config rt))
               (case rt_pid rt of None \<Rightarrow> tr1 | Some p \<Rightarrow> snd (signal_process K p SIGTERM tr1)))
        in (rt\<lparr>start_deadline := None, kill_at := at\<rparr>, (fst s @ [u], tr2)))"

definition due_start_timeouts :: "Kernel \<Rightarrow> UnitManager \<Rightarrow> trace \<Rightarrow> UnitName list \<times> UnitManager \<times> trace" where
  "due_start_timeouts K m tr =
     (let (now, tr1) = read_clock K tr in run_sweep (start_timeout_step K (m_cgroup m) now) m tr1)"

definition kill_step :: "Kernel \<Rightarrow> Cgroup \<Rightarrow> instant \<Rightarrow> UnitName \<Rightarrow> UnitRuntime \<Rightarrow> due
    \<Rightarrow> UnitRuntime \<times> due" where
  "kill_step K cg now u rt s =
     (if \<not> passed (kill_at rt) now then (rt, s)
      else
        let tr1 = (case exec_stop_pid rt of None \<Rightarrow> snd s
                   | Some p \<Rightarrow> snd (kill_process_group K p SIGKILL (snd s)));
            rt1 = rt\<lparr>kill_at := None, exec_stop_pid := None\<rparr>;
            tr2 = signal_members K cg u SIGKILL tr1
        in (case rt_pid rt1 of
              Some p \<Rightarrow>
                (let (r, tr3) = signal_process K p SIGKILL tr2
                 in (rt1, (if r = None then fst s @ [u] else fst s, tr3)))
            | None \<Rightarrow>
                if rt_state rt1 = Deactivating
                then (rt1\<lparr>rt_group := None, rt_state := Inactive\<rparr>,
                      (fst s @ [u], cgroup_cleanup K cg u tr2))
                else (rt1, (fst s, tr2))))"

definition due_kills :: "Kernel \<Rightarrow> UnitManager \<Rightarrow> trace \<Rightarrow> UnitName list \<times> UnitManager \<times> trace" where
  "due_kills K m tr =
     (let (now, tr1) = read_clock K tr in run_sweep (kill_step K (m_cgroup m) now) m tr1)"

section \<open>Health probes\<close>

definition probe_step :: "Kernel \<Rightarrow> instant \<Rightarrow> UnitName \<Rightarrow> UnitRuntime \<Rightarrow> due \<Rightarrow> UnitRuntime \<times> due" where
  "probe_step K now u rt s =
     (if rt_state rt \<noteq> Active then (rt\<lparr>health_at := None\<rparr>, s)
      else if probe_pid rt \<noteq> None \<or> \<not> passed (health_at rt) now then (rt, s)
      else
        let rt1 = rt\<lparr>health_at := None\<rparr>;
            (env, tr1) = build_service_env K (rt_config rt) [] (snd s);
            (sb, tr2) = resolve_sandbox K (rt_config rt) tr1
        in (case sb of
              Inl _ \<Rightarrow> let (rt2, tr3) = schedule_health K rt1 tr2 in (rt2, (fst s, tr3))
            | Inr sandbox \<Rightarrow>
                (let (r, tr3) = spawn_service_in_group_detached K (argv (health_check (rt_config rt))) env
                       (Some (working_directory (rt_config rt))) None sandbox no_placement tr2
                 in case r of
                   Inl _ \<Rightarrow> let (rt2, tr4) = schedule_health K rt1 tr3 in (rt2, (fst s, tr4))
                 | Inr p \<Rightarrow>
                     let (at, tr4) = deadline K (health_timeout_sec (rt_config rt)) tr3
                     in (rt1\<lparr>probe_pid := Some p, probe_deadline := at\<rparr>, (fst s @ [u], tr4)))))"

definition due_health_probes :: "Kernel \<Rightarrow> UnitManager \<Rightarrow> trace \<Rightarrow> UnitName list \<times> UnitManager \<times> trace" where
  "due_health_probes K m tr = (let (now, tr1) = read_clock K tr in run_sweep (probe_step K now) m tr1)"

definition probe_timeout_step :: "Kernel \<Rightarrow> instant \<Rightarrow> UnitName \<Rightarrow> UnitRuntime \<Rightarrow> due
    \<Rightarrow> UnitRuntime \<times> due" where
  "probe_timeout_step K now u rt s =
     (if \<not> passed (probe_deadline rt) now then (rt, s)
      else (rt\<lparr>probe_deadline := None\<rparr>,
            case probe_pid rt of
              None \<Rightarrow> s
            | Some p \<Rightarrow> (fst s @ [u], snd (kill_process_group K p SIGKILL (snd s)))))"

definition due_probe_timeouts :: "Kernel \<Rightarrow> UnitManager \<Rightarrow> trace \<Rightarrow> UnitName list \<times> UnitManager \<times> trace" where
  "due_probe_timeouts K m tr =
     (let (now, tr1) = read_clock K tr in run_sweep (probe_timeout_step K now) m tr1)"

definition finish_probe_rt :: "Kernel \<Rightarrow> Cgroup \<Rightarrow> UnitName \<Rightarrow> ExitOutcome \<Rightarrow> UnitRuntime \<Rightarrow> trace
    \<Rightarrow> UnitRuntime \<times> trace" where
  "finish_probe_rt K cg u outcome rt tr =
     (let ok = (outcome = Success);
          rt1 = rt\<lparr>probe_pid := None, probe_deadline := None, healthy := Some ok\<rparr>
      in if ok then schedule_health K rt1 tr
         else (case (health_restart_on_failure (rt_config rt), rt_pid rt) of
                 (True, Some p) \<Rightarrow>
                   (case kill_process_group K p SIGTERM tr of
                      (None, tr1) \<Rightarrow>
                        (let rt2 = rt1\<lparr>rt_state := Deactivating, restart_after_stop := True\<rparr> in
                         if timeout_stop_sec (rt_config rt) = 0
                         then (rt2, snd (kill_process_group K p SIGKILL (signal_members K cg u SIGKILL tr1)))
                         else let (at, tr2) = after_secs K (timeout_stop_sec (rt_config rt)) tr1
                           in (rt2\<lparr>kill_at := Some at\<rparr>, tr2))
                    | (Some e, tr1) \<Rightarrow>
                        if e = ESRCH then gone K cg u rt1 tr1 else schedule_health K rt1 tr1)
               | _ \<Rightarrow> schedule_health K rt1 tr))"

section \<open>Exits\<close>

datatype Outcome =
  OForked UnitName pid | OExited UnitName UnitState | ORestartScheduled UnitName duration
| OStartLimitTripped UnitName nat

definition owner_by :: "(UnitRuntime \<Rightarrow> pid option) \<Rightarrow> UnitManager \<Rightarrow> pid \<Rightarrow> UnitName option" where
  "owner_by sel m p = map_option fst (find (\<lambda>(_, rt). sel rt = Some p) (m_units m))"

definition schedule_restart_rt :: "Kernel \<Rightarrow> UnitName \<Rightarrow> millis \<Rightarrow> UnitRuntime \<Rightarrow> trace
    \<Rightarrow> Outcome \<times> UnitRuntime \<times> trace" where
  "schedule_restart_rt K u now rt tr = (case on_failure (rt_backoff rt) now of
      (b, Some delay) \<Rightarrow>
        (let (at, tr1) = after_duration K delay tr
         in (ORestartScheduled u delay,
             rt\<lparr>rt_backoff := b, rt_state := RestartWait, restart_at := Some at\<rparr>, tr1))
    | (b, None) \<Rightarrow>
        (OStartLimitTripped u (failures_in_window b),
         rt\<lparr>rt_backoff := b, rt_state := Failed StartLimitHit\<rparr>, tr))"

definition schedule_restart :: "Kernel \<Rightarrow> UnitName \<Rightarrow> millis \<Rightarrow> UnitManager \<Rightarrow> trace
    \<Rightarrow> Outcome \<times> UnitManager \<times> trace" where
  "schedule_restart K u now m tr = (case unit_at m u of
      None \<Rightarrow> (OExited u Inactive, m, tr)
    | Some rt \<Rightarrow>
        let (out, rt', tr1) = schedule_restart_rt K u now rt tr in (out, upd_unit u (\<lambda>_. rt') m, tr1))"

text \<open>The exit of an \<open>ExecStop=\<close> command.\<close>

definition exec_stop_exit :: "Kernel \<Rightarrow> UnitName \<Rightarrow> ExitOutcome \<Rightarrow> UnitManager \<Rightarrow> trace
    \<Rightarrow> UnitManager \<times> trace" where
  "exec_stop_exit K u outcome m tr =
     (upd_unit u (\<lambda>rt. rt\<lparr>exec_stop_pid := None\<rparr>) m,
      if outcome = Success then tr
      else let tr1 = signal_members K (m_cgroup m) u SIGTERM tr in
        (case Option.bind (unit_at m u) rt_pid of
           None \<Rightarrow> tr1 | Some p \<Rightarrow> snd (signal_process K p SIGTERM tr1)))"

text \<open>What every exit of a main process clears, and the leftovers it kills.\<close>

definition clear_exit :: "Kernel \<Rightarrow> pid \<Rightarrow> ExitOutcome \<Rightarrow> UnitRuntime \<Rightarrow> trace \<Rightarrow> UnitRuntime \<times> trace" where
  "clear_exit K p outcome rt tr =
     (let tr1 = (case probe_pid rt of None \<Rightarrow> tr | Some q \<Rightarrow> snd (kill_process_group K q SIGKILL tr));
          tr3 = (case rt_group rt of
                   None \<Rightarrow> tr1
                 | Some g \<Rightarrow>
                     let (others, tr2) = group_has_other_members K g p tr1
                     in if others then snd (kill_group K g SIGKILL tr2) else tr2)
      in (rt\<lparr>oom_kills_at_start := None, rt_pid := None, start_deadline := None, probe_pid := None,
             rt_group := None, kill_at := None, health_at := None, probe_deadline := None,
             last_outcome := Some outcome\<rparr>, tr3))"

text \<open>The OOM counter is read again after a \<open>SIGKILL\<close>; only the log depends on it.\<close>

definition oom_check :: "Kernel \<Rightarrow> Cgroup \<Rightarrow> UnitName \<Rightarrow> ExitOutcome \<Rightarrow> nat option \<Rightarrow> trace \<Rightarrow> trace" where
  "oom_check K cg u outcome baseline tr =
     (if outcome = Signalled SIGKILL \<and> baseline \<noteq> None then snd (cgroup_oom_kills K cg u tr) else tr)"

definition exit_event :: "UnitRuntime \<Rightarrow> ExitOutcome \<Rightarrow> Event" where
  "exit_event rt outcome =
     (if rt_state rt = Starting
      then if service_kind (rt_config rt) = Oneshot \<and> outcome = Success then StartUpComplete
           else StartUpFailed
      else Exit outcome)"

text \<open>A unit that came to rest after its exit: clean up, and fail what requires it if it failed.\<close>

definition rest_after_exit :: "Kernel \<Rightarrow> UnitName \<Rightarrow> UnitManager \<Rightarrow> trace \<Rightarrow> UnitManager \<times> trace" where
  "rest_after_exit K u m tr =
     (let tr1 = cgroup_cleanup K (m_cgroup m) u tr in
      if is_failed m u then let (_, m1, tr2) = fail_start K u m tr1 in (m1, tr2) else (m, tr1))"

text \<open>
  What follows the transition of an exit that no stop was waiting for: a finished oneshot rests, a
  start that failed during the boot and an exit that \<open>Restart=\<close> does not cover rest, and the others
  go through the back-off. \<open>rt\<close> is the unit before the transition.
\<close>

definition after_exit :: "Kernel \<Rightarrow> UnitName \<Rightarrow> millis \<Rightarrow> ExitOutcome \<Rightarrow> UnitRuntime \<Rightarrow> UnitState
    \<Rightarrow> UnitManager \<Rightarrow> trace \<Rightarrow> Outcome \<times> UnitManager \<times> trace" where
  "after_exit K u now outcome rt s m tr =
     (let starting = (rt_state rt = Starting) in
      if starting \<and> service_kind (rt_config rt) = Oneshot \<and> outcome = Success
      then (OExited u ActiveExited, m, cgroup_cleanup K (m_cgroup m) u tr)
      else if starting \<and> boot_in_progress m \<or> \<not> wants_restart (policy rt) outcome
      then (OExited u s, rest_after_exit K u m tr)
      else
        let (out, m2, tr4) = schedule_restart K u now m tr in
        (case out of
           OStartLimitTripped _ _ \<Rightarrow> (let (_, m3, tr5) = fail_start K u m2 tr4 in (out, m3, tr5))
         | _ \<Rightarrow> (out, m2, tr4)))"

text \<open>The handling of a main process that exited, after the forking case.\<close>

definition main_exit :: "Kernel \<Rightarrow> UnitName \<Rightarrow> pid \<Rightarrow> ExitOutcome \<Rightarrow> UnitRuntime \<Rightarrow> UnitManager \<Rightarrow> trace
    \<Rightarrow> Outcome \<times> UnitManager \<times> trace" where
  "main_exit K u p outcome rt0 m0 tr0 =
     (let (now, tr1) = now_millis K m0 tr0;
          (rt, tr2) = clear_exit K p outcome rt0 tr1;
          tr3 = oom_check K (m_cgroup m0) u outcome (oom_kills_at_start rt0) tr2;
          m = upd_unit u (\<lambda>_. rt) m0
      in
      if rt_state rt = Deactivating then
        if restart_after_stop rt
        then schedule_restart K u now (upd_unit u (\<lambda>rt. rt\<lparr>restart_after_stop := False\<rparr>) m) tr3
        else (OExited u Inactive, upd_unit u (\<lambda>rt. rt\<lparr>rt_state := Inactive\<rparr>) m,
              cgroup_cleanup K (m_cgroup m0) u tr3)
      else (case transition (rt_state rt) (exit_event rt outcome) (policy rt) (service_kind (rt_config rt)) of
              Inl _ \<Rightarrow>
                (OExited u Inactive, upd_unit u (\<lambda>rt. rt\<lparr>rt_state := Inactive\<rparr>) m,
                 cgroup_cleanup K (m_cgroup m0) u tr3)
            | Inr t \<Rightarrow>
                after_exit K u now outcome rt (tr_to t)
                  (upd_unit u (\<lambda>rt. rt\<lparr>rt_state := tr_to t\<rparr>) m) tr3))"

definition forked_ok :: "UnitRuntime \<Rightarrow> ExitOutcome \<Rightarrow> bool" where
  "forked_ok rt outcome \<longleftrightarrow>
     rt_state rt = Starting \<and> service_kind (rt_config rt) = Forking \<and> outcome = Success"

definition on_child_exit :: "Kernel \<Rightarrow> pid \<Rightarrow> ExitOutcome \<Rightarrow> UnitManager \<Rightarrow> trace
    \<Rightarrow> Outcome option \<times> UnitManager \<times> trace" where
  "on_child_exit K p outcome m tr = (case owner_by probe_pid m p of
      Some u \<Rightarrow> (None, with_unit_rt u (finish_probe_rt K (m_cgroup m) u outcome) m tr)
    | None \<Rightarrow>
        (case owner_by exec_stop_pid m p of
           Some u \<Rightarrow> (None, exec_stop_exit K u outcome m tr)
         | None \<Rightarrow>
             (case owner_by rt_pid m p of
                None \<Rightarrow> (None, m, tr)
              | Some u \<Rightarrow>
                  (case unit_at m u of
                     None \<Rightarrow> (None, m, tr)
                   | Some rt \<Rightarrow>
                       (let (found, tr1) =
                          (if forked_ok rt outcome
                           then apfst Some (find_daemon K (rt_config rt) (m_cgroup m) u tr)
                           else (None, tr))
                        in (case found of
                              Some (Inr daemon) \<Rightarrow>
                                (Some (OForked u daemon), mark_daemon_started K u daemon m tr1)
                            | _ \<Rightarrow> apfst Some (main_exit K u p outcome rt m tr1)))))))"

definition owns_child :: "UnitManager \<Rightarrow> pid \<Rightarrow> bool" where
  "owns_child m p \<longleftrightarrow> list_ex (\<lambda>(_, rt). rt_pid rt = Some p \<or> probe_pid rt = Some p
     \<or> exec_stop_pid rt = Some p) (m_units m)"

datatype ChildExit = Exited pid int | Signaled pid int

fun exit_outcome :: "ChildExit \<Rightarrow> pid \<times> ExitOutcome" where
  "exit_outcome (Exited p code) = (p, if code = 0 then Success else Failure code)"
| "exit_outcome (Signaled p s) = (p, Signalled s)"

text \<open>The events are what one call of \<open>reap_children\<close> returned.\<close>

fun reap_into_manager :: "Kernel \<Rightarrow> ChildExit list \<Rightarrow> UnitManager \<Rightarrow> trace
    \<Rightarrow> (Outcome list \<times> (pid \<times> ExitOutcome) list) \<times> UnitManager \<times> trace" where
  "reap_into_manager K [] m tr = (([], []), m, tr)"
| "reap_into_manager K (ev # evs) m tr =
     (let (p, outcome) = exit_outcome ev;
          owned = owns_child m p;
          (r, m1, tr1) = on_child_exit K p outcome m tr;
          ((outs, unclaimed), m2, tr2) = reap_into_manager K evs m1 tr1
      in ((case r of
             Some out \<Rightarrow> (out # outs, unclaimed)
           | None \<Rightarrow> (outs, if owned then unclaimed else (p, outcome) # unclaimed)), m2, tr2))"

end
