(* ===== verification/Manager_Inv.thy ===== *)
theory Manager_Inv
  imports Manager_Run
begin

text \<open>
  The invariant of the unit manager over every sequence of its operations, and the safety of the
  signals it sends. A step relation collects the operations the supervisor calls; the invariant is
  proved operation by operation and lifted to reachable states by rule induction.
\<close>

section \<open>Consistency of a unit\<close>

definition config_for :: "UnitName \<Rightarrow> UnitConfig \<Rightarrow> bool" where
  "config_for u c \<longleftrightarrow> cfg_name c = u \<and> cfg_kind c = unit_type u"

text \<open>
  A unit with a process is a service that is starting, active or being stopped; without one it is not
  starting, and only a target is active. The flag \<open>late\<close> admits what a \<open>READY=1\<close> to a running
  \<open>oneshot\<close> leaves behind: the unit becomes \<open>ActiveExited\<close>, and \<open>Inactive\<close> when it is then stopped,
  with its process still there.
\<close>

definition consistent :: "bool \<Rightarrow> UnitType \<Rightarrow> UnitState \<Rightarrow> pid option \<Rightarrow> bool" where
  "consistent late t s p \<longleftrightarrow>
     (if p = None then s \<noteq> Starting \<and> (s = Active \<longrightarrow> t = Target)
      else t = Service \<and> (s = Starting \<or> s = Active \<or> s = Deactivating
        \<or> late \<and> (s = ActiveExited \<or> s = Inactive)))"

definition unit_ok :: "bool \<Rightarrow> UnitName \<Rightarrow> UnitRuntime \<Rightarrow> bool" where
  "unit_ok late u rt \<longleftrightarrow> config_for u (rt_config rt) \<and> pred_option (config_for u) (pending_config rt)
     \<and> consistent late (unit_type u) (rt_state rt) (rt_pid rt)"

text \<open>Starts are only ever asked for by a user or a dependency, never in the name of a stop.\<close>

definition starts_ok :: "UnitManager \<Rightarrow> bool" where
  "starts_ok m \<longleftrightarrow>
     (\<forall>u mt. target_of (jobs m) u = Some mt \<longrightarrow> mt_target mt = Started \<longrightarrow> mt_source mt < UserStop)
     \<and> (\<forall>(u, s) \<in> set (queued_starts m). s < UserStop)"

definition units_ok :: "bool \<Rightarrow> UnitManager \<Rightarrow> bool" where
  "units_ok late m \<longleftrightarrow> ordered_keys (m_units m) \<and> (\<forall>(u, rt) \<in> set (m_units m). unit_ok late u rt)
     \<and> starts_ok m"

abbreviation wf_rt :: "UnitName \<Rightarrow> UnitRuntime \<Rightarrow> bool" where
  "wf_rt \<equiv> unit_ok True"

abbreviation wf_manager :: "UnitManager \<Rightarrow> bool" where
  "wf_manager \<equiv> units_ok True"

lemma consistent_simps [simp]:
  "consistent late t Inactive p \<longleftrightarrow> p = None \<or> late \<and> t = Service"
  "consistent late t ActiveExited p \<longleftrightarrow> p = None \<or> late \<and> t = Service"
  "consistent late t RestartWait p \<longleftrightarrow> p = None"
  "consistent late t (Failed r) p \<longleftrightarrow> p = None"
  "consistent late t Starting p \<longleftrightarrow> p \<noteq> None \<and> t = Service"
  "consistent late t Deactivating p \<longleftrightarrow> p = None \<or> t = Service"
  "consistent late t Active p \<longleftrightarrow> (if p = None then t = Target else t = Service)"
  by (auto simp: consistent_def)

lemma consistent_cleared: "consistent late t s p \<Longrightarrow> s \<noteq> Starting \<Longrightarrow> s \<noteq> Active \<Longrightarrow> consistent late t s None"
  by (auto simp: consistent_def split: if_splits)

lemma wf_rt_frame [simp]:
  "unit_ok late u (rt\<lparr>rt_backoff := b\<rparr>) = unit_ok late u rt"
  "unit_ok late u (rt\<lparr>rt_group := g\<rparr>) = unit_ok late u rt"
  "unit_ok late u (rt\<lparr>restart_at := i\<rparr>) = unit_ok late u rt"
  "unit_ok late u (rt\<lparr>start_deadline := i\<rparr>) = unit_ok late u rt"
  "unit_ok late u (rt\<lparr>kill_at := i\<rparr>) = unit_ok late u rt"
  "unit_ok late u (rt\<lparr>health_at := i\<rparr>) = unit_ok late u rt"
  "unit_ok late u (rt\<lparr>probe_pid := p\<rparr>) = unit_ok late u rt"
  "unit_ok late u (rt\<lparr>probe_deadline := i\<rparr>) = unit_ok late u rt"
  "unit_ok late u (rt\<lparr>healthy := h\<rparr>) = unit_ok late u rt"
  "unit_ok late u (rt\<lparr>restart_after_stop := r\<rparr>) = unit_ok late u rt"
  "unit_ok late u (rt\<lparr>exec_stop_pid := p\<rparr>) = unit_ok late u rt"
  "unit_ok late u (rt\<lparr>rt_status := st\<rparr>) = unit_ok late u rt"
  "unit_ok late u (rt\<lparr>last_outcome := out\<rparr>) = unit_ok late u rt"
  "unit_ok late u (rt\<lparr>idle_at := i\<rparr>) = unit_ok late u rt"
  "unit_ok late u (rt\<lparr>oom_kills_at_start := n\<rparr>) = unit_ok late u rt"
  "unit_ok late u (rt\<lparr>retired := r\<rparr>) = unit_ok late u rt"
  by (simp_all add: unit_ok_def)

lemma wf_rt_pending [simp]: "unit_ok late u rt \<Longrightarrow> unit_ok late u (rt\<lparr>pending_config := None\<rparr>)"
  by (simp add: unit_ok_def)

lemma wf_rt_pending_Some [simp]:
  "unit_ok late u rt \<Longrightarrow> config_for u c \<Longrightarrow> unit_ok late u (rt\<lparr>pending_config := Some c\<rparr>)"
  by (simp add: unit_ok_def)

lemma wf_rt_state:
  "unit_ok late u rt \<Longrightarrow> consistent late (unit_type u) s (rt_pid rt) \<Longrightarrow> unit_ok late u (rt\<lparr>rt_state := s\<rparr>)"
  by (simp add: unit_ok_def)

lemma wf_rt_state_pid:
  "unit_ok late u rt \<Longrightarrow> consistent late (unit_type u) s p \<Longrightarrow> unit_ok late u (rt\<lparr>rt_pid := p, rt_state := s\<rparr>)"
  by (simp add: unit_ok_def)

lemma wf_rt_apply_config [simp]: "unit_ok late u rt \<Longrightarrow> config_for u c \<Longrightarrow> unit_ok late u (apply_config rt c)"
  by (simp add: unit_ok_def apply_config_def)

lemma wf_rt_adopt_pending [simp]: "unit_ok late u rt \<Longrightarrow> unit_ok late u (adopt_pending rt)"
  by (auto simp: adopt_pending_def unit_ok_def apply_config_def split: option.split)

lemma wf_rt_new [simp]: "config_for u c \<Longrightarrow> unit_ok late u (runtime_new c)"
  by (simp add: unit_ok_def runtime_new_def)

section \<open>The map of units\<close>

lemma wf_manager_at: "units_ok late m \<Longrightarrow> unit_at m u = Some rt \<Longrightarrow> unit_ok late u rt"
  by (auto simp: units_ok_def dest: map_of_SomeD)

lemma unit_at_upd [simp]:
  "unit_at (upd_unit u f m) v = (if v = u then map_option f (unit_at m u) else unit_at m v)"
  by (simp add: upd_unit_def map_of_modify)

lemma upd_unit_frame [simp]:
  "jobs (upd_unit u f m) = jobs m" "queued_starts (upd_unit u f m) = queued_starts m"
  "m_cgroup (upd_unit u f m) = m_cgroup m" "origin (upd_unit u f m) = origin m"
  "templates (upd_unit u f m) = templates m" "boot_in_progress (upd_unit u f m) = boot_in_progress m"
  "graph_cache (upd_unit u f m) = graph_cache m" "graph_revision (upd_unit u f m) = graph_revision m"
  "listen_fds (upd_unit u f m) = listen_fds m"
  by (simp_all add: upd_unit_def)

lemma starts_ok_frame [simp]:
  "starts_ok (m\<lparr>m_units := us\<rparr>) = starts_ok m"
  "starts_ok (m\<lparr>m_shutdown_order := o'\<rparr>) = starts_ok m"
  "starts_ok (m\<lparr>m_cgroup := c\<rparr>) = starts_ok m"
  "starts_ok (m\<lparr>listen_fds := l\<rparr>) = starts_ok m"
  "starts_ok (m\<lparr>templates := t\<rparr>) = starts_ok m"
  "starts_ok (m\<lparr>boot_in_progress := b\<rparr>) = starts_ok m"
  "starts_ok (m\<lparr>graph_cache := g\<rparr>) = starts_ok m"
  "starts_ok (m\<lparr>graph_revision := r\<rparr>) = starts_ok m"
  by (simp_all add: starts_ok_def)

lemma starts_ok_drop: "starts_ok m \<Longrightarrow> starts_ok (m\<lparr>queued_starts := remove_key u (queued_starts m)\<rparr>)"
  by (auto simp: starts_ok_def remove_key_def)

lemma starts_ok_put:
  "starts_ok m \<Longrightarrow> s < UserStop \<Longrightarrow> starts_ok (m\<lparr>queued_starts := put u s (queued_starts m)\<rparr>)"
  using set_put_subset [of u s "queued_starts m"] by (auto simp: starts_ok_def)

lemma starts_ok_forget: "starts_ok m \<Longrightarrow> starts_ok (m\<lparr>jobs := forget (jobs m) u\<rparr>)"
  by (auto simp: starts_ok_def target_of_forget split: if_splits)

lemma starts_ok_submit:
  "starts_ok m \<Longrightarrow> t = Stopped \<or> src < UserStop \<Longrightarrow>
     starts_ok (m\<lparr>jobs := fst (submit (jobs m) (new_job u t src at))\<rparr>)"
  by (auto simp: starts_ok_def target_of_submit new_job_def holder_def split: if_splits option.splits)

lemma wf_manager_frame [simp]:
  "units_ok late (m\<lparr>m_shutdown_order := o'\<rparr>) = units_ok late m"
  "units_ok late (m\<lparr>m_cgroup := c\<rparr>) = units_ok late m"
  "units_ok late (m\<lparr>listen_fds := l\<rparr>) = units_ok late m"
  "units_ok late (m\<lparr>templates := t\<rparr>) = units_ok late m"
  "units_ok late (m\<lparr>boot_in_progress := b\<rparr>) = units_ok late m"
  "units_ok late (m\<lparr>graph_cache := g\<rparr>) = units_ok late m"
  "units_ok late (m\<lparr>graph_revision := r\<rparr>) = units_ok late m"
  by (simp_all add: units_ok_def)

lemma wf_manager_frame_starts:
  "units_ok late m \<Longrightarrow> starts_ok (m\<lparr>jobs := j\<rparr>) \<Longrightarrow> units_ok late (m\<lparr>jobs := j\<rparr>)"
  "units_ok late m \<Longrightarrow> starts_ok (m\<lparr>queued_starts := q\<rparr>) \<Longrightarrow> units_ok late (m\<lparr>queued_starts := q\<rparr>)"
  by (simp_all add: units_ok_def)

lemma wf_drop_queued: "units_ok late m \<Longrightarrow> units_ok late (m\<lparr>queued_starts := remove_key u (queued_starts m)\<rparr>)"
  by (simp add: units_ok_def starts_ok_drop)

lemma wf_invalidate_graph [simp]: "units_ok late (invalidate_graph m) = units_ok late m"
  by (simp add: invalidate_graph_def)

lemma wf_upd_unit:
  assumes "units_ok late m" "\<And>rt. unit_at m u = Some rt \<Longrightarrow> unit_ok late u rt \<Longrightarrow> unit_ok late u (f rt)"
  shows "units_ok late (upd_unit u f m)"
proof -
  have "unit_ok late v rt" if "(v, rt) \<in> set (modify u f (m_units m))" for v rt
  proof -
    have d: "distinct (map fst (m_units m))"
      using assms(1) by (simp add: units_ok_def ordered_distinct)
    from set_modify [OF d that] show ?thesis
      using assms d by (auto simp: units_ok_def)
  qed
  then show ?thesis using assms(1) by (auto simp: units_ok_def upd_unit_def)
qed

lemma wf_put_unit:
  assumes "units_ok late m" "unit_ok late u rt"
  shows "units_ok late (m\<lparr>m_units := put u rt (m_units m)\<rparr>)"
proof -
  have d: "distinct (map fst (put u rt (m_units m)))" "distinct (map fst (m_units m))"
    using assms(1) by (auto simp: units_ok_def intro!: ordered_distinct)
  have "unit_ok late v x" if "(v, x) \<in> set (put u rt (m_units m))" for v x
  proof -
    have "map_of (put u rt (m_units m)) v = Some x"
      by (rule map_of_is_SomeI [OF d(1) that])
    then show ?thesis
      using assms by (auto simp: units_ok_def split: if_splits dest: map_of_SomeD)
  qed
  then show ?thesis using assms(1) by (auto simp: units_ok_def)
qed

lemma wf_filter_units: "units_ok late m \<Longrightarrow> units_ok late (m\<lparr>m_units := filter P (m_units m)\<rparr>)"
  by (auto simp: units_ok_def)

lemma wf_run_sweep:
  assumes "units_ok late m" "\<And>u rt s. unit_ok late u rt \<Longrightarrow> unit_ok late u (fst (f u rt s))"
  shows "units_ok late (fst (snd (run_sweep f m tr)))"
proof -
  have "unit_ok late u rt" if "(u, rt) \<in> set (fst (sweep f (m_units m) s))" for u rt s
    using sweep_value [OF that] assms by (auto simp: units_ok_def)
  then show ?thesis
    using assms(1) by (auto simp: run_sweep_def units_ok_def split_beta Let_def)
qed

lemma harmless_run_sweep:
  assumes "harmless tr" "\<And>u rt due tr. harmless tr \<Longrightarrow> harmless (snd (snd (f u rt (due, tr))))"
  shows "harmless (snd (snd (run_sweep f m tr)))"
proof -
  have "harmless (snd (snd (sweep f (m_units m) ([], tr))))"
    by (rule sweep_state_inv [where P = "\<lambda>s. harmless (snd s)"]) (use assms in \<open>auto simp: split_paired_all\<close>)
  then show ?thesis by (simp add: run_sweep_def split_beta Let_def)
qed

lemma wf_with_unit_rt:
  assumes "units_ok late m" "\<And>rt. unit_at m u = Some rt \<Longrightarrow> unit_ok late u rt \<Longrightarrow> unit_ok late u (fst (f rt tr))"
  shows "units_ok late (fst (with_unit_rt u f m tr))"
  using assms by (auto simp: with_unit_rt_def split_beta Let_def split: option.split intro!: wf_upd_unit
      dest: wf_manager_at)

lemma harmless_with_unit_rt:
  assumes "harmless tr" "\<And>rt. harmless (snd (f rt tr)) = harmless tr"
  shows "harmless (snd (with_unit_rt u f m tr))"
  using assms by (auto simp: with_unit_rt_def split_beta Let_def split: option.split)


section \<open>Operations on one unit\<close>

lemma wf_rt_service: "unit_ok late u rt \<Longrightarrow> rt_pid rt \<noteq> None \<Longrightarrow> unit_type u = Service"
  by (simp add: unit_ok_def consistent_def)

lemma schedule_health_fields [simp]:
  "rt_config (fst (schedule_health K rt tr)) = rt_config rt"
  "rt_state (fst (schedule_health K rt tr)) = rt_state rt"
  "rt_pid (fst (schedule_health K rt tr)) = rt_pid rt"
  "pending_config (fst (schedule_health K rt tr)) = pending_config rt"
  by (simp_all add: schedule_health_def split_beta Let_def)

lemma wf_schedule_health [simp]: "unit_ok late u (fst (schedule_health K rt tr)) = unit_ok late u rt"
  by (simp add: schedule_health_def split_beta Let_def)

lemma wf_clear_leftovers [simp]: "unit_ok late u rt \<Longrightarrow> unit_ok late u (fst (clear_leftovers K rt tr))"
  by (auto simp: clear_leftovers_def split_beta Let_def split: option.split)

lemma clear_leftovers_fields [simp]:
  "rt_pid (fst (clear_leftovers K rt tr)) = rt_pid rt"
  "rt_config (fst (clear_leftovers K rt tr)) = rt_config rt"
  "rt_state (fst (clear_leftovers K rt tr)) = rt_state rt"
  by (auto simp: clear_leftovers_def split_beta Let_def split: option.split)

lemma wf_register_process:
  assumes "unit_ok late u rt" "spawns rt"
  shows "unit_ok late u (fst (register_process K now p oom rt tr))"
proof -
  have "unit_type u = Service"
    using assms by (simp add: unit_ok_def config_for_def spawns_def spawns_process_def)
  then show ?thesis
    using assms(1)
    by (auto simp: register_process_def split_beta Let_def unit_ok_def split: ServiceKind.split)
qed

lemma wf_daemon_started_rt:
  "unit_ok late u rt \<Longrightarrow> rt_pid rt \<noteq> None \<Longrightarrow> unit_ok late u (fst (daemon_started_rt K now d g rt tr))"
  by (frule (1) wf_rt_service) (auto simp: daemon_started_rt_def split_beta Let_def unit_ok_def)

lemma wf_gone: "unit_ok late u rt \<Longrightarrow> unit_ok late u (fst (gone K cg u rt tr))"
  by (simp add: gone_def unit_ok_def)

lemma wf_after_stop_signal:
  "unit_ok late u rt \<Longrightarrow> rt_pid rt \<noteq> None \<Longrightarrow> unit_ok late u (fst (snd (after_stop_signal K cg u rt r)))"
  by (frule (1) wf_rt_service)
     (auto simp: after_stop_signal_def gone_def unit_ok_def split: option.split prod.split)

lemma wf_begin_stop:
  "unit_ok late u rt \<Longrightarrow> rt_pid rt \<noteq> None \<Longrightarrow> unit_ok late u (fst (snd (begin_stop K cg u p rt tr)))"
  by (frule (1) wf_rt_service)
     (auto simp: begin_stop_def case_prod_beta wf_rt_state split: sum.split intro!: wf_after_stop_signal)

lemma wf_arm_kill [simp]: "unit_ok late u (fst (arm_kill K cg u p rt tr)) = unit_ok late u rt"
  by (simp add: arm_kill_def split_beta Let_def)

lemma wf_stop_leftovers: "unit_ok late u rt \<Longrightarrow> rt_pid rt = None \<Longrightarrow> unit_ok late u (fst (stop_leftovers K cg u rt tr))"
  by (auto simp: stop_leftovers_def split_beta Let_def unit_ok_def)

lemma wf_stop_rt: "unit_ok late u rt \<Longrightarrow> unit_ok late u (fst (stop_rt K cg u rt tr))"
  by (auto simp: stop_rt_def case_prod_beta Let_def split: option.split
      intro!: wf_begin_stop wf_stop_leftovers)

lemma wf_finish_probe_rt: "unit_ok late u rt \<Longrightarrow> unit_ok late u (fst (finish_probe_rt K cg u out rt tr))"
  by (auto simp: finish_probe_rt_def case_prod_beta Let_def gone_def split: option.split bool.split)
     (auto simp: unit_ok_def consistent_def split: if_splits)

lemma wf_mark_failed: "unit_ok late u rt \<Longrightarrow> unit_ok late u (mark_failed rt)"
  by (auto simp: mark_failed_def failed_state_def unit_ok_def split: UnitState.splits)

lemma wf_kill_step: "unit_ok late u rt \<Longrightarrow> unit_ok late u (fst (kill_step K cg now u rt s))"
  by (auto simp: kill_step_def case_prod_beta Let_def split: option.split) (auto simp: unit_ok_def)

lemma wf_start_timeout_step: "unit_ok late u rt \<Longrightarrow> unit_ok late u (fst (start_timeout_step K cg now u rt s))"
  by (auto simp: start_timeout_step_def split_beta Let_def)

lemma wf_idle_step: "unit_ok late u rt \<Longrightarrow> unit_ok late u (fst (idle_step now u rt s))"
  by (simp add: idle_step_def)

lemma wf_restart_step: "unit_ok late u rt \<Longrightarrow> unit_ok late u (fst (restart_step now u rt s))"
  by (simp add: restart_step_def)

lemma wf_probe_step: "unit_ok late u rt \<Longrightarrow> unit_ok late u (fst (probe_step K now u rt s))"
  by (auto simp: probe_step_def case_prod_beta Let_def split: sum.split)

lemma wf_probe_timeout_step: "unit_ok late u rt \<Longrightarrow> unit_ok late u (fst (probe_timeout_step K now u rt s))"
  by (simp add: probe_timeout_step_def)

lemma clear_exit_fields [simp]:
  "rt_config (fst (clear_exit K p out rt tr)) = rt_config rt"
  "rt_state (fst (clear_exit K p out rt tr)) = rt_state rt"
  "rt_pid (fst (clear_exit K p out rt tr)) = None"
  "pending_config (fst (clear_exit K p out rt tr)) = pending_config rt"
  "restart_after_stop (fst (clear_exit K p out rt tr)) = restart_after_stop rt"
  "rt_backoff (fst (clear_exit K p out rt tr)) = rt_backoff rt"
  by (simp_all add: clear_exit_def Let_def)

section \<open>Traces of the operations\<close>

lemma harmless_clear_leftovers [simp]:
  "harmless (snd (clear_leftovers K rt tr)) = harmless tr"
  by (auto simp: clear_leftovers_def split_beta Let_def split: option.split)

lemma harmless_opt_deadline [simp]: "harmless (snd (opt_deadline K n tr)) = harmless tr"
  by (simp add: opt_deadline_def split: option.split)

lemma harmless_place_in_cgroup [simp]:
  "harmless (snd (place_in_cgroup K cg u l tr)) = harmless tr"
  by (simp add: place_in_cgroup_def case_prod_beta split: sum.split)

lemma harmless_launch [simp]: "harmless (snd (launch K cg u cfg ex out lf tr)) = harmless tr"
  by (simp add: launch_def case_prod_beta Let_def split: sum.split)

lemma harmless_now_millis [simp]: "harmless (snd (now_millis K m tr)) = harmless tr"
  by (simp add: now_millis_def split_beta Let_def)

lemma harmless_sys_getpgid [simp]: "harmless (snd (sys_getpgid K p tr)) = harmless tr"
  by (simp add: sys_getpgid_def)

lemma harmless_register_process [simp]:
  "harmless (snd (register_process K now p oom rt tr)) = harmless tr"
  by (simp add: register_process_def split_beta Let_def split: ServiceKind.split)

lemma harmless_daemon_started_rt [simp]:
  "harmless (snd (daemon_started_rt K now d g rt tr)) = harmless tr"
  by (simp add: daemon_started_rt_def split_beta Let_def)

lemma harmless_gone [simp]: "harmless (snd (gone K cg u rt tr)) = harmless tr"
  by (simp add: gone_def)

lemma harmless_after_stop_signal [simp]:
  "harmless (snd (snd (after_stop_signal K cg u rt r))) = harmless (snd r)"
  by (auto simp: after_stop_signal_def split: option.split prod.split)

lemma harmless_stop_leftovers [simp]: "harmless (snd (stop_leftovers K cg u rt tr)) = harmless tr"
  by (simp add: stop_leftovers_def split_beta Let_def)

lemma harmless_run_exec_stop [simp]: "harmless (snd (run_exec_stop K cfg tr)) = harmless tr"
  by (simp add: run_exec_stop_def case_prod_beta Let_def split: sum.split)

lemma harmless_begin_stop [simp]: "harmless (snd (snd (begin_stop K cg u p rt tr))) = harmless tr"
  by (simp add: begin_stop_def case_prod_beta split: sum.split)

lemma harmless_arm_kill [simp]: "harmless (snd (arm_kill K cg u p rt tr)) = harmless tr"
  by (simp add: arm_kill_def split_beta Let_def split: option.split)

lemma harmless_stop_rt [simp]: "harmless (snd (stop_rt K cg u rt tr)) = harmless tr"
  by (simp add: stop_rt_def case_prod_beta Let_def split: option.split)

lemma harmless_finish_probe_rt [simp]:
  "harmless (snd (finish_probe_rt K cg u out rt tr)) = harmless tr"
  by (simp add: finish_probe_rt_def case_prod_beta Let_def split: option.split bool.split)

lemma harmless_kill_failed [simp]: "harmless (kill_failed K cg u rt tr) = harmless tr"
  by (simp add: kill_failed_def Let_def split: option.split)

lemma harmless_kill_step [simp]: "harmless (snd (snd (kill_step K cg now u rt s))) = harmless (snd s)"
  by (simp add: kill_step_def case_prod_beta Let_def split: option.split)

lemma harmless_start_timeout_step [simp]:
  "harmless (snd (snd (start_timeout_step K cg now u rt s))) = harmless (snd s)"
  by (simp add: start_timeout_step_def split_beta Let_def split: option.split)

lemma harmless_small_steps [simp]:
  "harmless (snd (snd (idle_step now u rt s))) = harmless (snd s)"
  "harmless (snd (snd (restart_step now u rt s))) = harmless (snd s)"
  "harmless (snd (snd (probe_timeout_step K now u rt s))) = harmless (snd s)"
  by (simp_all add: idle_step_def restart_step_def probe_timeout_step_def split: option.split)

lemma harmless_probe_step [simp]: "harmless (snd (snd (probe_step K now u rt s))) = harmless (snd s)"
  by (simp add: probe_step_def case_prod_beta Let_def split: sum.split)

lemma harmless_clear_exit [simp]: "harmless (snd (clear_exit K p out rt tr)) = harmless tr"
  by (simp add: clear_exit_def split_beta Let_def split: option.split)

lemma harmless_oom_check [simp]: "harmless (oom_check K cg u out b tr) = harmless tr"
  by (simp add: oom_check_def)

lemma harmless_schedule_restart_rt [simp]:
  "harmless (snd (snd (schedule_restart_rt K u now rt tr))) = harmless tr"
  by (simp add: schedule_restart_rt_def case_prod_beta Let_def split: option.split)


section \<open>Operations of the manager\<close>

lemma upd_upd [simp]: "upd_unit u g (upd_unit u f m) = upd_unit u (\<lambda>rt. g (f rt)) m"
  by (simp add: upd_unit_def modify_def comp_def split_beta cong: map_cong)

lemma starts_ok_new [simp]: "starts_ok (fst (manager_new K tr))"
  by (simp add: manager_new_def split_beta Let_def starts_ok_def target_of_def empty_queue_def)

lemma wf_manager_new [simp]: "units_ok late (fst (manager_new K tr))"
  by (simp add: manager_new_def split_beta Let_def units_ok_def starts_ok_def target_of_def empty_queue_def)

lemma harmless_manager_new [simp]: "harmless (snd (manager_new K tr)) = harmless tr"
  by (simp add: manager_new_def split_beta Let_def)

lemma config_for_parsed: "parse u body = Inr cfg \<Longrightarrow> config_for u cfg"
  using parse_result_wf [of u body cfg] by (simp add: config_for_def wf_unit_config_def)

lemma wf_instantiate: "units_ok late m \<Longrightarrow> instantiate u m = Inr m' \<Longrightarrow> units_ok late m'"
  by (auto simp: instantiate_def wf_put_unit config_for_parsed split: option.splits sum.splits)

lemma wf_add_with_in_flight:
  assumes "units_ok late m" "config_for (cfg_name c) c"
  shows "units_ok late (fst (add_with_in_flight c fl m))"
proof (cases "unit_at m (cfg_name c)")
  case (Some rt)
  note w = wf_manager_at [OF assms(1) Some]
  have "unit_ok late (cfg_name c) (apply_config (rt\<lparr>retired := False\<rparr>) c)"
    using w assms(2) by (intro wf_rt_apply_config) simp_all
  then show ?thesis
    using w assms Some by (auto simp: add_with_in_flight_def Let_def intro!: wf_upd_unit)
qed (use assms in \<open>simp add: add_with_in_flight_def wf_put_unit\<close>)

lemma wf_retire: "units_ok late m \<Longrightarrow> units_ok late (fst (retire K u m tr))"
  by (auto simp: retire_def retire_rt_def Let_def split: option.split intro!: wf_upd_unit wf_drop_queued)

lemma harmless_retire [simp]: "harmless (snd (retire K u m tr)) = harmless tr"
  by (simp add: retire_def Let_def split: option.split)

lemma wf_prune_retired: "units_ok late m \<Longrightarrow> units_ok late (fst (prune_retired m))"
  by (simp add: prune_retired_def Let_def wf_filter_units)

lemma wf_adopt_pending_config: "units_ok late m \<Longrightarrow> units_ok late (adopt_pending_config u m)"
  by (auto simp: adopt_pending_config_def split: option.split intro!: wf_upd_unit)

lemma wf_start_order: "units_ok late m \<Longrightarrow> units_ok late (snd (start_order m u))"
  by (auto simp: start_order_def cached_graph_def Let_def split: sum.splits option.splits prod.splits if_splits)

lemma wf_ensure_unit: "units_ok late m \<Longrightarrow> ensure_unit u m = Some m' \<Longrightarrow> units_ok late m'"
  by (auto simp: ensure_unit_def wf_instantiate split: option.splits sum.splits)

lemma wf_forget_spent_target: "units_ok late m \<Longrightarrow> units_ok late (forget_spent_target u m)"
  by (simp add: forget_spent_target_def units_ok_def starts_ok_forget split: option.split)

lemma none_target_consistent:
  "none_target t s = Some s' \<Longrightarrow> consistent late ty s p \<Longrightarrow> consistent late ty s' p"
  by (auto simp: none_target_def split: JobTarget.splits UnitState.splits)

lemma wf_apply_none_transition: "units_ok late m \<Longrightarrow> units_ok late (apply_none_transition u m)"
  by (auto simp: apply_none_transition_def split: option.split
      intro!: wf_upd_unit wf_rt_state intro: none_target_consistent) (simp add: unit_ok_def none_target_consistent)

lemma wf_queue_behind_stop:
  "units_ok late m \<Longrightarrow> t = Stopped \<or> src < UserStop \<Longrightarrow> units_ok late (queue_behind_stop u t src eff m)"
  by (auto simp: queue_behind_stop_def units_ok_def starts_ok_drop starts_ok_put split: JobTarget.split)

lemma wf_submit_job:
  "units_ok late m \<Longrightarrow> t = Stopped \<or> src < UserStop \<Longrightarrow>
     units_ok late (m\<lparr>jobs := fst (submit (jobs m) (new_job u t src at))\<rparr>)"
  by (simp add: units_ok_def starts_ok_submit)

lemma wf_request:
  "units_ok late m \<Longrightarrow> t = Stopped \<or> src < UserStop \<Longrightarrow> units_ok late (fst (snd (request K u t src m tr)))"
  by (auto simp: request_def split_beta Let_def split: option.split
      intro!: wf_queue_behind_stop wf_apply_none_transition wf_submit_job wf_forget_spent_target dest: wf_ensure_unit)

lemma harmless_request [simp]: "harmless (snd (snd (request K u t src m tr))) = harmless tr"
  by (simp add: request_def split_beta Let_def split: option.split)

lemma release_queued_inv:
  "units_ok late m \<Longrightarrow> harmless tr \<Longrightarrow> \<forall>(u, s) \<in> set qs. s < UserStop \<Longrightarrow>
     units_ok late (fst (snd (release_queued K qs m tr))) \<and> harmless (snd (snd (release_queued K qs m tr)))"
proof (induction qs arbitrary: m tr)
  case (Cons q qs)
  obtain u src where q: "q = (u, src)" by (cases q)
  show ?case using Cons by (simp add: q case_prod_beta Let_def wf_request wf_drop_queued)
qed simp

lemma due_queued_starts_inv:
  "units_ok late m \<Longrightarrow> harmless tr \<Longrightarrow>
     units_ok late (fst (snd (due_queued_starts K m tr))) \<and> harmless (snd (snd (due_queued_starts K m tr)))"
  unfolding due_queued_starts_def by (rule release_queued_inv) (simp_all add: units_ok_def starts_ok_def)

lemma wf_reset_failed: "units_ok late m \<Longrightarrow> units_ok late (reset_failed u m)"
  unfolding reset_failed_def
  by (rule wf_upd_unit) (auto simp: unit_ok_def split: UnitState.split)

lemma wf_clear_start_limit: "units_ok late m \<Longrightarrow> units_ok late (clear_start_limit u m)"
  unfolding clear_start_limit_def by (rule wf_upd_unit) auto

lemma wf_compress: "units_ok late m \<Longrightarrow> units_ok late (compress_stop_timeouts n m)"
  by (auto simp: units_ok_def compress_stop_timeouts_def ordered_keys_def comp_def split_beta
      unit_ok_def config_for_def)

lemma wf_begin_spawn_unit:
  assumes "units_ok late m"
  shows "units_ok late (fst (snd (begin_spawn_unit K u ex out lf m tr)))"
proof (cases "unit_at m u")
  case (Some rt0)
  define rt where "rt = fst (clear_leftovers K rt0 tr)"
  have w: "unit_ok late u rt" using wf_manager_at [OF assms Some] by (simp add: rt_def)
  have target: "unit_ok late u (rt\<lparr>rt_state := Active\<rparr>)" if "\<not> spawns rt" "rt_pid rt = None"
    using that w by (auto simp: unit_ok_def spawns_def spawns_process_iff is_target_def config_for_def)
  show ?thesis
    using Some assms w target
    by (auto simp: begin_spawn_unit_def case_prod_beta Let_def rt_def [symmetric]
        intro!: wf_upd_unit wf_register_process split: sum.split)
qed (use assms in \<open>simp add: begin_spawn_unit_def\<close>)

lemma harmless_begin_spawn_unit [simp]:
  "harmless (snd (snd (begin_spawn_unit K u ex out lf m tr))) = harmless tr"
  by (simp add: begin_spawn_unit_def case_prod_beta Let_def split: option.split sum.split)

lemma wf_cap_start_deadline: "units_ok late m \<Longrightarrow> units_ok late (cap_start_deadline u at m)"
  unfolding cap_start_deadline_def by (rule wf_upd_unit) (auto split: option.split)

lemma note_connection_inv:
  assumes "units_ok late m" "harmless tr"
  shows "units_ok late (fst (note_connection K u m tr)) \<and> harmless (snd (note_connection K u m tr))"
  unfolding note_connection_def using assms
  by (intro conjI wf_with_unit_rt harmless_with_unit_rt) (simp_all add: split_beta Let_def)

lemma mark_daemon_started_inv:
  assumes "units_ok late m" "harmless tr" "\<And>rt. unit_at m u = Some rt \<Longrightarrow> rt_pid rt \<noteq> None"
  shows "units_ok late (fst (mark_daemon_started K u d m tr)) \<and> harmless (snd (mark_daemon_started K u d m tr))"
  unfolding mark_daemon_started_def using assms
  by (auto simp: split_beta Let_def intro!: wf_with_unit_rt wf_daemon_started_rt harmless_with_unit_rt)

text \<open>
  The supervisor binds a notification socket only for a unit of \<open>Type=notify\<close>; a oneshot never
  gets a message, which would end its start while its process still runs.
\<close>

text \<open>A \<open>READY=1\<close> that finds its unit starting under a definition that says \<open>oneshot\<close>.\<close>

definition late_ready :: "UnitName \<Rightarrow> NotifyMessage \<Rightarrow> UnitManager \<Rightarrow> bool" where
  "late_ready u msg m = (ready msg \<and> (case unit_at m u of
      None \<Rightarrow> False
    | Some rt \<Rightarrow> rt_state rt = Starting \<and> service_kind (rt_config rt) = Oneshot))"

lemma on_notify_inv:
  assumes "units_ok late m" "harmless tr" "late \<or> \<not> late_ready u msg m"
  shows "units_ok late (fst (snd (on_notify K u msg m tr))) \<and> harmless (snd (snd (on_notify K u msg m tr)))"
proof (cases "unit_at m u")
  case (Some rt0)
  define rt where "rt = (case status msg of None \<Rightarrow> rt0 | Some s \<Rightarrow> rt0\<lparr>rt_status := Some s\<rparr>)"
  have w: "unit_ok late u rt" using wf_manager_at [OF assms(1) Some] by (simp add: rt_def split: option.split)
  have "rt_state rt = rt_state rt0" "rt_config rt = rt_config rt0" by (simp_all add: rt_def split: option.split)
  with w assms(3) Some have "unit_ok late u (rt\<lparr>rt_state := tr_to t, start_deadline := None, rt_backoff := b\<rparr>)"
    if "ready msg" "rt_state rt = Starting"
      "transition Starting StartUpComplete (policy rt) (service_kind (rt_config rt)) = Inr t" for t b
    using that
    by (auto simp: transition_def transition_cell_def unit_ok_def late_ready_def split: ServiceKind.splits)
  then show ?thesis
    using Some assms w
    by (auto simp: on_notify_def case_prod_beta Let_def rt_def [symmetric]
        intro!: wf_upd_unit split: sum.split)
qed (use assms in \<open>simp add: on_notify_def split_beta Let_def\<close>)

lemma stop_unit_inv:
  assumes "units_ok late m" "harmless tr"
  shows "units_ok late (fst (stop_unit K u m tr)) \<and> harmless (snd (stop_unit K u m tr))"
  unfolding stop_unit_def using assms
  by (intro conjI wf_with_unit_rt harmless_with_unit_rt) (simp_all add: wf_stop_rt)

lemma restart_unit_inv:
  assumes "units_ok late m" "harmless tr"
  shows "units_ok late (fst (snd (restart_unit K u m tr))) \<and> harmless (snd (snd (restart_unit K u m tr)))"
  using assms stop_unit_inv [OF assms]
  by (auto simp: restart_unit_def case_prod_beta Let_def split: option.split intro!: wf_upd_unit)

lemma stop_each_inv:
  "units_ok late m \<Longrightarrow> harmless tr \<Longrightarrow>
     units_ok late (fst (snd (stop_each K us m tr))) \<and> harmless (snd (snd (stop_each K us m tr)))"
proof (induction us arbitrary: m tr)
  case (Cons u us)
  show ?case
    using Cons stop_unit_inv [of late]
    by (simp add: case_prod_beta Let_def request_stop_def wf_request)
qed simp

lemma fail_dependents_wf:
  "units_ok late m \<Longrightarrow> units_ok late (fst (fail_dependents ds (m, vis, failed, queue)))"
proof (induction ds arbitrary: m vis failed queue)
  case (Cons d ds)
  have "units_ok late (upd_unit d (\<lambda>rt. rt\<lparr>rt_state := Failed r\<rparr>) m)"
    if "unit_at m d = Some rt" "rt_pid rt = None" for rt r
    using Cons.prems that by (intro wf_upd_unit) (auto simp: unit_ok_def)
  with Cons show ?case by (auto simp: Let_def split: option.split)
qed simp

lemma fail_loop_wf: "units_ok late m \<Longrightarrow> units_ok late (snd (fail_loop m vis failed queue))"
proof (induction m vis failed queue rule: fail_loop.induct)
  case (2 m vis failed current queue)
  obtain m' vis' failed' queue' where
    r: "fail_dependents (requires_dependents m current) (m, vis, failed, queue) = (m', vis', failed', queue')"
    by (cases "fail_dependents (requires_dependents m current) (m, vis, failed, queue)")
  have "units_ok late m'" using fail_dependents_wf [OF "2.prems"] r by (metis fst_conv)
  with 2 r show ?case by simp
qed simp

lemma fail_start_inv:
  assumes "units_ok late m" "harmless tr"
  shows "units_ok late (fst (snd (fail_start K u m tr))) \<and> harmless (snd (snd (fail_start K u m tr)))"
proof -
  have "units_ok late (upd_unit u mark_failed m)" using assms by (intro wf_upd_unit wf_mark_failed)
  then show ?thesis
    using assms fail_loop_wf
      by (auto simp: fail_start_def case_prod_beta Let_def simp del: fail_loop.simps split: option.split)
qed

lemma reach_target_inv:
  assumes "units_ok late m" "harmless tr"
    and "\<And>rt. unit_at m u = Some rt \<Longrightarrow> is_target (rt_config rt)"
  shows "units_ok late (fst (snd (reach_target K u m tr))) \<and> harmless (snd (snd (reach_target K u m tr)))"
proof -
  have "unit_ok late u (rt\<lparr>rt_state := Active\<rparr>)" if "unit_at m u = Some rt" "unit_ok late u rt" for rt
    using assms(3) [OF that(1)] that(2)
    by (auto simp: unit_ok_def is_target_def config_for_def consistent_def split: if_splits)
  then show ?thesis
    using assms fail_start_inv [OF assms(1,2)]
    by (auto simp: reach_target_def case_prod_beta Let_def split: option.split intro!: wf_upd_unit)
qed

lemma sweep_ops_inv:
  assumes "units_ok late m" "harmless tr"
    and "\<And>u rt s. unit_ok late u rt \<Longrightarrow> unit_ok late u (fst (f u rt s))"
    and "\<And>u rt s. harmless (snd (snd (f u rt s))) = harmless (snd s)"
  shows "units_ok late (fst (snd (run_sweep f m tr))) \<and> harmless (snd (snd (run_sweep f m tr)))"
  using assms by (intro conjI wf_run_sweep harmless_run_sweep) simp_all

lemma timers_inv:
  assumes "units_ok late m" "harmless tr"
  shows "units_ok late (fst (snd (due_idle_units K m tr))) \<and> harmless (snd (snd (due_idle_units K m tr)))"
    "units_ok late (fst (snd (due_restarts K m tr))) \<and> harmless (snd (snd (due_restarts K m tr)))"
    "units_ok late (fst (snd (due_start_timeouts K m tr))) \<and> harmless (snd (snd (due_start_timeouts K m tr)))"
    "units_ok late (fst (snd (due_kills K m tr))) \<and> harmless (snd (snd (due_kills K m tr)))"
    "units_ok late (fst (snd (due_health_probes K m tr))) \<and> harmless (snd (snd (due_health_probes K m tr)))"
    "units_ok late (fst (snd (due_probe_timeouts K m tr))) \<and> harmless (snd (snd (due_probe_timeouts K m tr)))"
  using assms
  by (simp_all add: due_idle_units_def due_restarts_def due_start_timeouts_def due_kills_def
      due_health_probes_def due_probe_timeouts_def split_beta Let_def sweep_ops_inv wf_idle_step
      wf_restart_step wf_start_timeout_step wf_kill_step wf_probe_step wf_probe_timeout_step)

section \<open>Exits\<close>

lemma exit_transition_rest:
  assumes "transition (rt_state rt) (exit_event rt out) pol (service_kind (rt_config rt)) = Inr t"
  shows "consistent late ty (tr_to t) None"
  using assms
  by (auto simp: transition_def transition_cell_def exit_event_def
      split: UnitState.splits if_splits Event.splits ServiceKind.splits option.splits)

lemma wf_cleared:
  "unit_ok late u rt \<Longrightarrow> consistent late (unit_type u) s None \<Longrightarrow>
     unit_ok late u ((fst (clear_exit K p out rt tr))\<lparr>rt_state := s\<rparr>)"
  by (simp add: unit_ok_def)

lemma wf_schedule_restart_rt:
  "unit_ok late u rt \<Longrightarrow> rt_pid rt = None \<Longrightarrow> unit_ok late u (fst (snd (schedule_restart_rt K u now rt tr)))"
  by (auto simp: schedule_restart_rt_def case_prod_beta Let_def unit_ok_def split: option.split)

lemma schedule_restart_inv:
  assumes "units_ok late m" "harmless tr" "\<And>rt. unit_at m u = Some rt \<Longrightarrow> rt_pid rt = None"
  shows "units_ok late (fst (snd (schedule_restart K u now m tr)))
    \<and> harmless (snd (snd (schedule_restart K u now m tr)))"
  using assms wf_manager_at [OF assms(1)]
  by (auto simp: schedule_restart_def case_prod_beta Let_def split: option.split
      intro!: wf_upd_unit wf_schedule_restart_rt)

lemma rest_after_exit_inv:
  assumes "units_ok late m" "harmless tr"
  shows "units_ok late (fst (rest_after_exit K u m tr)) \<and> harmless (snd (rest_after_exit K u m tr))"
  using assms fail_start_inv [OF assms(1), of "cgroup_cleanup K (m_cgroup m) u tr" K u]
  by (simp add: rest_after_exit_def case_prod_beta Let_def)


lemma clear_exit_views [simp]:
  "policy (fst (clear_exit K p out rt tr)) = policy rt"
  "exit_event (fst (clear_exit K p out rt tr)) out' = exit_event rt out'"
  by (simp_all add: policy_def exit_event_def)

lemma after_exit_inv:
  assumes "units_ok late m" "harmless tr" "\<And>rt. unit_at m u = Some rt \<Longrightarrow> rt_pid rt = None"
  shows "units_ok late (fst (snd (after_exit K u now out rt s m tr)))
    \<and> harmless (snd (snd (after_exit K u now out rt s m tr)))"
proof -
  have r: "units_ok late (fst (snd (schedule_restart K u now m tr)))
      \<and> harmless (snd (snd (schedule_restart K u now m tr)))"
    by (rule schedule_restart_inv [OF assms])
  show ?thesis
    using assms(1,2) r rest_after_exit_inv [OF assms(1,2), where K = K and u = u]
      fail_start_inv [OF conjunct1 [OF r] conjunct2 [OF r], where K = K and u = u]
    by (auto simp: after_exit_def case_prod_beta Let_def split: Outcome.split)
qed

lemma main_exit_inv:
  assumes m: "units_ok late m" "harmless tr" and rt: "unit_at m u = Some rt"
  shows "units_ok late (fst (snd (main_exit K u p out rt m tr)))
    \<and> harmless (snd (snd (main_exit K u p out rt m tr)))"
proof -
  define now tr1 where now: "now = fst (now_millis K m tr)" "tr1 = snd (now_millis K m tr)"
  define rt' where "rt' = fst (clear_exit K p out rt tr1)"
  define tr3 where
    "tr3 = oom_check K (m_cgroup m) u out (oom_kills_at_start rt) (snd (clear_exit K p out rt tr1))"
  have h: "harmless tr3" using m(2) by (simp add: tr3_def now)
  have w: "unit_ok late u rt" using wf_manager_at [OF m(1) rt] .
  have up: "units_ok late (upd_unit u (\<lambda>_. rt'\<lparr>rt_state := s\<rparr>) m)" if "consistent late (unit_type u) s None" for s
    using m(1) wf_cleared [OF w that] by (intro wf_upd_unit) (auto simp: rt'_def)
  have pid: "rt_pid rt' = None" and st: "rt_state rt' = rt_state rt"
    by (simp_all add: rt'_def)
  have stopped: "unit_ok late u (rt'\<lparr>restart_after_stop := False\<rparr>)" if "rt_state rt = Deactivating"
    using wf_cleared [OF w, of Deactivating K p out tr1] that st by (simp add: rt'_def unit_ok_def)
  note inv = schedule_restart_inv [where K = K and u = u and now = now]
  have A: ?thesis if d: "rt_state rt = Deactivating"
  proof (cases "restart_after_stop rt")
    case True
    have "units_ok late (upd_unit u (\<lambda>_. rt'\<lparr>restart_after_stop := False\<rparr>) m)"
      using m(1) stopped [OF d] by (intro wf_upd_unit) auto
    from inv [OF this h] True d show ?thesis
      by (simp add: main_exit_def case_prod_beta Let_def now [symmetric] rt'_def [symmetric]
          tr3_def [symmetric] st pid)
  next
    case False
    with up [of Inactive] h d show ?thesis
      by (simp add: main_exit_def case_prod_beta Let_def now [symmetric] rt'_def [symmetric]
          tr3_def [symmetric] st)
  qed
  have B: ?thesis if d: "rt_state rt \<noteq> Deactivating"
  proof (cases "transition (rt_state rt) (exit_event rt out) (policy rt) (service_kind (rt_config rt))")
    case (Inl e)
    with up [of Inactive] h d show ?thesis
      by (simp add: main_exit_def case_prod_beta Let_def now [symmetric] rt'_def [symmetric]
          tr3_def [symmetric])
  next
    case (Inr t)
    define m1 where "m1 = upd_unit u (\<lambda>_. rt'\<lparr>rt_state := tr_to t\<rparr>) m"
    have m1: "units_ok late m1" unfolding m1_def by (rule up) (rule exit_transition_rest [OF Inr])
    have "main_exit K u p out rt m tr = after_exit K u now out rt' (tr_to t) m1 tr3"
      using Inr d by (simp add: main_exit_def case_prod_beta Let_def m1_def tr3_def rt'_def now)
    moreover have "rt_pid rta = None" if "unit_at m1 u = Some rta" for rta
      using that by (auto simp: m1_def pid rt)
    ultimately show ?thesis using after_exit_inv [OF m1 h, of u] by simp
  qed
  show ?thesis using A B by blast
qed

lemma exec_stop_exit_inv:
  assumes "units_ok late m" "harmless tr"
  shows "units_ok late (fst (exec_stop_exit K u out m tr)) \<and> harmless (snd (exec_stop_exit K u out m tr))"
  using assms by (auto simp: exec_stop_exit_def Let_def split: option.split intro!: wf_upd_unit)

lemma on_child_exit_inv:
  assumes "units_ok late m" "harmless tr"
  shows "units_ok late (fst (snd (on_child_exit K p out m tr)))
    \<and> harmless (snd (snd (on_child_exit K p out m tr)))"
proof -
  have probe: "units_ok late (fst (with_unit_rt u (finish_probe_rt K cg u out) m tr))
      \<and> harmless (snd (with_unit_rt u (finish_probe_rt K cg u out) m tr))" for u cg
    using assms by (intro conjI wf_with_unit_rt harmless_with_unit_rt) (simp_all add: wf_finish_probe_rt)
  have main: "units_ok late (fst (snd (main_exit K u p out rt m tr')))
      \<and> harmless (snd (snd (main_exit K u p out rt m tr')))"
    if "unit_at m u = Some rt" "harmless tr'" for u rt tr'
    using main_exit_inv [OF assms(1) that(2,1)] .
  have daemon: "units_ok late (fst (mark_daemon_started K u d m tr'))
      \<and> harmless (snd (mark_daemon_started K u d m tr'))"
    if "unit_at m u = Some rt" "forked_ok rt out" "harmless tr'" for u rt d tr'
  proof (rule mark_daemon_started_inv [OF assms(1) that(3)])
    have "rt_pid rt \<noteq> None"
      using wf_manager_at [OF assms(1) that(1)] that(2) by (auto simp: unit_ok_def forked_ok_def)
    then show "unit_at m u = Some rt' \<Longrightarrow> rt_pid rt' \<noteq> None" for rt' using that(1) by simp
  qed
  show ?thesis
    using assms probe exec_stop_exit_inv [OF assms] main daemon
    by (auto simp: on_child_exit_def case_prod_beta Let_def split: option.split sum.split)
qed

lemma reap_into_manager_inv:
  "units_ok late m \<Longrightarrow> harmless tr \<Longrightarrow>
     units_ok late (fst (snd (reap_into_manager K evs m tr)))
     \<and> harmless (snd (snd (reap_into_manager K evs m tr)))"
proof (induction evs arbitrary: m tr)
  case (Cons ev evs)
  then show ?case using on_child_exit_inv by (simp add: case_prod_beta Let_def)
qed simp

section \<open>Runs of the manager\<close>

text \<open>
  One call of the supervisor. The side conditions are what its call sites guarantee: a definition
  comes from a parsed unit file, its dependencies completed by the sockets it needs, a start is asked
  for by a user or a dependency, and only targets are completed without a process. A notification may come for any unit; \<open>mstep False\<close> leaves out the
  one that makes a \<open>oneshot\<close> ready.
\<close>

inductive mstep :: "bool \<Rightarrow> Kernel \<Rightarrow> UnitManager \<times> trace \<Rightarrow> UnitManager \<times> trace \<Rightarrow> bool" for late K where
  "parse u body = Inr c \<Longrightarrow> mstep late K (m, tr) (fst (add_with_in_flight (c\<lparr>deps := ds\<rparr>) fl m), tr)"
| "instantiate u m = Inr m' \<Longrightarrow> mstep late K (m, tr) (m', tr)"
| "mstep late K (m, tr) (retire K u m tr)"
| "mstep late K (m, tr) (fst (prune_retired m), tr)"
| "mstep late K (m, tr) (adopt_pending_config u m, tr)"
| "mstep late K (m, tr) (snd (start_order m u), tr)"
| "source \<in> {Dependency, UserStart} \<Longrightarrow> mstep late K (m, tr) (snd (request_start K u source m tr))"
| "mstep late K (m, tr) (snd (request_stop K u source m tr))"
| "mstep late K (m, tr) (snd (due_queued_starts K m tr))"
| "mstep late K (m, tr) (reset_failed u m, tr)"
| "mstep late K (m, tr) (clear_start_limit u m, tr)"
| "mstep late K (m, tr) (compress_stop_timeouts n m, tr)"
| "mstep late K (m, tr) (set_templates ts m, tr)"
| "mstep late K (m, tr) (set_cgroup cg m, tr)"
| "mstep late K (m, tr) (set_listener u f m, tr)"
| "mstep late K (m, tr) (clear_listener u m, tr)"
| "mstep late K (m, tr) (begin_boot m, tr)"
| "mstep late K (m, tr) (finish_boot m, tr)"
| "mstep late K (m, tr) (set_shutdown_order us m, tr)"
| "mstep late K (m, tr) (snd (begin_spawn_unit K u extra output lfd m tr))"
| "mstep late K (m, tr) (cap_start_deadline u at m, tr)"
| "mstep late K (m, tr) (note_connection K u m tr)"
| "late \<or> \<not> late_ready u msg m \<Longrightarrow> mstep late K (m, tr) (snd (on_notify K u msg m tr))"
| "mstep late K (m, tr) (stop_unit K u m tr)"
| "mstep late K (m, tr) (snd (restart_unit K u m tr))"
| "mstep late K (m, tr) (snd (stop_conflicts K u m tr))"
| "mstep late K (m, tr) (snd (fail_start K u m tr))"
| "(\<And>rt. unit_at m u = Some rt \<Longrightarrow> is_target (rt_config rt)) \<Longrightarrow>
     mstep late K (m, tr) (snd (reach_target K u m tr))"
| "mstep late K (m, tr) (snd (due_idle_units K m tr))"
| "mstep late K (m, tr) (snd (due_restarts K m tr))"
| "mstep late K (m, tr) (snd (due_start_timeouts K m tr))"
| "mstep late K (m, tr) (snd (due_kills K m tr))"
| "mstep late K (m, tr) (snd (due_health_probes K m tr))"
| "mstep late K (m, tr) (snd (due_probe_timeouts K m tr))"
| "mstep late K (m, tr) (snd (reap_into_manager K evs m tr))"

abbreviation manager_runs :: "bool \<Rightarrow> Kernel \<Rightarrow> UnitManager \<times> trace \<Rightarrow> bool" where
  "manager_runs late K s \<equiv> (mstep late K)\<^sup>*\<^sup>* (manager_new K []) s"

abbreviation manager_run :: "Kernel \<Rightarrow> UnitManager \<times> trace \<Rightarrow> bool" where
  "manager_run \<equiv> manager_runs True"

lemma start_sources: "source \<in> {Dependency, UserStart} \<Longrightarrow> source < UserStop"
  by (auto simp: less_RequestSource_def)

lemma mstep_inv:
  assumes "mstep late K s s'" "units_ok late (fst s)" "harmless (snd s)"
  shows "units_ok late (fst s') \<and> harmless (snd s')"
  using assms
proof (induction rule: mstep.induct)
  case (1 u body c m tr ds fl)
  from config_for_parsed [OF 1(1)] have "config_for (cfg_name c) (c\<lparr>deps := ds\<rparr>)" by (simp add: config_for_def)
  with 1 show ?case by (simp add: wf_add_with_in_flight)
qed (simp_all add: wf_instantiate wf_retire wf_prune_retired wf_adopt_pending_config wf_start_order
    request_start_def request_stop_def wf_request start_sources due_queued_starts_inv wf_reset_failed wf_clear_start_limit wf_compress
    set_templates_def set_cgroup_def set_listener_def clear_listener_def begin_boot_def finish_boot_def
    set_shutdown_order_def wf_begin_spawn_unit wf_cap_start_deadline note_connection_inv on_notify_inv
    stop_unit_inv restart_unit_inv stop_conflicts_def stop_each_inv fail_start_inv reach_target_inv
    timers_inv reap_into_manager_inv)

lemma manager_run_inv: "manager_runs late K s \<Longrightarrow> units_ok late (fst s) \<and> harmless (snd s)"
proof (induction rule: rtranclp_induct)
  case (step s s')
  then show ?case using mstep_inv by blast
qed simp

section \<open>A concrete run\<close>

text \<open>A service is registered and started under the calm kernel; it is the state the examples use.\<close>

abbreviation web :: UnitName where "web \<equiv> UnitName ''web.service'' Service"

definition web_file :: string where
  "web_file = ''[Service]'' @ [newline] @ ''ExecStart=/bin/web'' @ [newline]"

definition web_cfg :: UnitConfig where
  "web_cfg = (case parse web web_file of Inr c \<Rightarrow> c | Inl _ \<Rightarrow> new_config web)"

lemma web_parses: "parse web web_file = Inr web_cfg"
proof -
  have "case parse web web_file of Inr _ \<Rightarrow> True | Inl _ \<Rightarrow> False" by code_simp
  then show ?thesis by (auto simp: web_cfg_def split: sum.splits)
qed

lemma web_cfg_fields:
  "cfg_name web_cfg = web" "cfg_kind web_cfg = Service" "argv (exec_start web_cfg) = [''/bin/web'']"
  "argv (exec_stop web_cfg) = []" "environment_file web_cfg = []" "cfg_environment web_cfg = []"
  "cfg_user web_cfg = []" "cfg_group web_cfg = []" "no_new_privileges web_cfg = False"
  "capability_bounding_set web_cfg = None" "ambient_capabilities web_cfg = None"
  "tty_path web_cfg = None" "working_directory web_cfg = ''/''" "service_kind web_cfg = Simple"
  "socket_activate web_cfg = None" "argv (health_check web_cfg) = []" "timeout_stop_sec web_cfg = 10"
  "deps web_cfg = no_dependencies"
  by (simp_all add: web_cfg_def) code_simp+

definition web_manager :: UnitManager where
  "web_manager = fst (add_with_in_flight web_cfg False (fst (manager_new calm_kernel [])))"

lemma web_registered: "unit_at web_manager web = Some (runtime_new web_cfg)"
  by (simp add: web_manager_def add_with_in_flight_def manager_new_def split_beta Let_def
      web_cfg_fields invalidate_graph_def)

lemma web_manager_run: "manager_runs late calm_kernel (web_manager, [Now])"
proof -
  have "manager_new calm_kernel [] = (fst (manager_new calm_kernel []), [Now])"
    by (simp add: manager_new_def read_clock_def split_beta Let_def)
  moreover have "mstep late calm_kernel (fst (manager_new calm_kernel []), [Now]) (web_manager, [Now])"
    using mstep.intros(1) [OF web_parses, of late calm_kernel _ "[Now]" "deps web_cfg"] by (simp add: web_manager_def)
  ultimately have "mstep late calm_kernel (manager_new calm_kernel []) (web_manager, [Now])" by metis
  then show ?thesis by (rule r_into_rtranclp)
qed

lemma starts_ok_web_manager [simp]: "starts_ok web_manager"
  using manager_run_inv [OF web_manager_run] by (simp add: units_ok_def)

definition web_started :: "UnitManager \<times> trace" where
  "web_started = snd (begin_spawn_unit calm_kernel web [] None None web_manager [Now])"

lemma web_started_run: "manager_runs late calm_kernel web_started"
  unfolding web_started_def by (rule rtranclp.rtrancl_into_rtrancl [OF web_manager_run]) (rule mstep.intros)

lemma calm_kernel_simps [simp]:
  "k_kill calm_kernel tr p s = None" "k_getpgid calm_kernel tr p = Inr p"
  "k_now calm_kernel tr = from_secs (length tr)" "k_self calm_kernel = 1"
  "k_spawn calm_kernel tr rq = Inr (100 + int (length tr))"
  by (simp_all add: calm_kernel_def)

lemma web_env:
  "build_service_env calm_kernel web_cfg [] tr = (SERVICE_ENV, tr)"
  by (simp add: build_service_env_def web_cfg_fields merged_env_def env_entries_def upsert_def
      SERVICE_ENV_def List.map_filter_simps)

lemma web_sandbox: "resolve_sandbox calm_kernel web_cfg tr = (Inr inherit_sandbox, tr)"
  by (simp add: resolve_sandbox_def needs_user_database_def is_name_def web_cfg_fields resolve_from_def
      classify_def resolve_gid_def resolve_caps_def user_gid_def user_uid_def group_list_def
      inherit_sandbox_def)

lemma web_launch:
  "\<exists>rq. launch calm_kernel cgroup_disabled web web_cfg [] None None tr =
     (Inr (Ready (100 + int (length tr)), None), Spawn rq # tr)"
  by (auto simp: launch_def web_env web_sandbox web_cfg_fields place_in_cgroup_def cgroup_is_enabled_def
      cgroup_disabled_def tty_of_def begin_spawn_service_in_group_def spawn_request_def prepare_def
      SERVICE_ENV_def cstring_def is_inherited_def inherit_sandbox_def)


lemma web_active:
  "\<exists>rt. unit_at (fst web_started) web = Some rt \<and> rt_pid rt = Some 101 \<and> rt_state rt = Active
     \<and> rt_config rt = web_cfg \<and> probe_pid rt = None"
proof -
  have cg: "m_cgroup web_manager = cgroup_disabled"
    by (simp add: web_manager_def add_with_in_flight_def manager_new_def split_beta Let_def
        invalidate_graph_def)
  obtain rq where l: "launch calm_kernel cgroup_disabled web web_cfg [] None None [Now] =
      (Inr (Ready 101, None), [Spawn rq, Now])"
    using web_launch [of "[Now]"] by auto
  have c: "clear_leftovers calm_kernel (runtime_new web_cfg) [Now] = (runtime_new web_cfg, [Now])"
    by (simp add: clear_leftovers_def runtime_new_def)
  have n: "rt_pid (runtime_new web_cfg) = None" "rt_config (runtime_new web_cfg) = web_cfg"
    "probe_pid (runtime_new web_cfg) = None" "spawns (runtime_new web_cfg)"
    by (simp_all add: runtime_new_def spawns_def spawns_process_def web_cfg_fields)
  show ?thesis
    by (simp add: web_started_def begin_spawn_unit_def web_registered c n cg l split_beta Let_def
        register_process_def web_cfg_fields schedule_health_def exec_is_empty_def)
qed

lemma run_step: "manager_runs late K (m, tr) \<Longrightarrow> mstep late K (m, tr) s \<Longrightarrow> manager_runs late K s"
  by (rule rtranclp.rtrancl_into_rtrancl)

lemma web_stop_signal:
  "Kill (- 101) SIGTERM \<in> set (snd (stop_unit calm_kernel web (fst web_started) (snd web_started)))"
proof -
  obtain rt where rt: "unit_at (fst web_started) web = Some rt" "rt_pid rt = Some 101"
    "rt_state rt = Active" "rt_config rt = web_cfg" "probe_pid rt = None"
    using web_active by blast
  show ?thesis
    by (simp add: stop_unit_def with_unit_rt_def rt stop_rt_def begin_stop_def web_cfg_fields
        after_stop_signal_def signal_process_def kill_process_group_def sys_getpgid_def sys_kill_def
        arm_kill_def after_secs_def after_duration_def read_clock_def split_beta Let_def)
qed

section \<open>What holds in every run\<close>

text \<open>
  Property C1. In every state the manager can reach, whatever the kernel answers, whatever arrives on
  the notification sockets and whatever order the supervisor calls it in, each unit is consistent: it
  is registered under its own name, a unit with a process is a service that is neither failed nor
  waiting for a restart, and a unit without one is not starting and, unless it is a target, not
  active. In a run in which no \<open>READY=1\<close> finds a starting unit defined as a \<open>oneshot\<close>, a unit with a
  process moreover is starting, active or being stopped.
\<close>

theorem units_stay_consistent:
  assumes "manager_runs late K (m, tr)" "unit_at m u = Some rt"
  shows "cfg_name (rt_config rt) = u
    \<and> (rt_pid rt \<noteq> None \<longrightarrow>
        unit_type u = Service \<and> rt_state rt \<noteq> RestartWait \<and> (\<forall>r. rt_state rt \<noteq> Failed r)
        \<and> (\<not> late \<longrightarrow> rt_state rt \<in> {Starting, Active, Deactivating}))
    \<and> (rt_pid rt = None \<longrightarrow> rt_state rt \<noteq> Starting \<and> (rt_state rt = Active \<longrightarrow> unit_type u = Target))"
proof -
  have "unit_ok late u rt" using manager_run_inv [OF assms(1)] assms(2) by (auto intro: wf_manager_at)
  then show ?thesis by (cases "rt_state rt") (auto simp: unit_ok_def config_for_def split: if_splits)
qed

theorem units_stay_consistent_witness:
  "\<exists>rt. unit_at (fst web_started) web = Some rt \<and> rt_pid rt = Some 101
     \<and> cfg_name (rt_config rt) = web \<and> rt_state rt \<in> {Starting, Active, Deactivating}"
proof -
  obtain rt where rt: "unit_at (fst web_started) web = Some rt" "rt_pid rt = Some 101"
    using web_active by blast
  have "manager_runs False calm_kernel (fst web_started, snd web_started)" using web_started_run by simp
  from units_stay_consistent [OF this rt(1)] rt show ?thesis by auto
qed

text \<open>
  Property C2. No \<open>kill\<close> call of the manager names process 1, the caller's group by the argument 0, or
  every process by the argument -1: whatever its pid files, control groups and
  recorded process ids say, in any run every target is a process id above 1 or the negation of one.
\<close>

theorem signals_never_reach_init:
  assumes "manager_run K (m, tr)" "Kill p s \<in> set tr"
  shows "p \<notin> {1, - 1, 0}"
  using manager_run_inv [OF assms(1)] assms(2) by (fastforce simp: harmless_def)

theorem signals_never_reach_init_witness:
  "\<exists>m tr. manager_run calm_kernel (m, tr) \<and> Kill (- 101) SIGTERM \<in> set tr \<and> (- 101 :: int) \<notin> {1, - 1, 0}"
proof -
  let ?r = "stop_unit calm_kernel web (fst web_started) (snd web_started)"
  have run: "manager_run calm_kernel (fst ?r, snd ?r)"
    using run_step [OF _ mstep.intros(24)] web_started_run by (metis prod.collapse)
  have "Kill (- 101) SIGTERM \<in> set (snd ?r)" by (rule web_stop_signal)
  with signals_never_reach_init [OF run this] run show ?thesis by blast
qed

end
