(* ===== verification/Manager_Deps.thy ===== *)
theory Manager_Deps
  imports Manager_Inv
begin

text \<open>
  The dependency walks of the unit manager: the closure of \<open>Requires=\<close> behind a start, the
  propagation of a failed start to the units that require it, the order of a control start with its
  cached graph, and the order of a shutdown.
\<close>

declare required_loop.simps [simp del] fail_loop.simps [simp del]

section \<open>Worklist reachability\<close>

text \<open>
  A set that holds the start, is closed under successors and holds nothing unreachable is the set
  of reachable nodes.
\<close>

lemma closed_is_reachable:
  assumes "u \<in> V" "\<And>a b. a \<in> V \<Longrightarrow> R a b \<Longrightarrow> b \<in> V" "\<And>v. v \<in> V \<Longrightarrow> R\<^sup>*\<^sup>* u v"
  shows "V = {v. R\<^sup>*\<^sup>* u v}"
proof -
  have "v \<in> V" if "R\<^sup>*\<^sup>* u v" for v
    using that by induction (use assms in auto)
  then show ?thesis using assms(3) by auto
qed

lemma reach_avoiding: "R\<^sup>*\<^sup>* u v \<Longrightarrow> (\<lambda>a b. R a b \<and> b \<noteq> u)\<^sup>*\<^sup>* u v"
proof (induction rule: rtranclp_induct)
  case (step b c)
  then show ?case by (cases "c = u") (auto intro: rtranclp.rtrancl_into_rtrancl)
qed simp

section \<open>What a start requires\<close>

lemma required_loop_set:
  assumes "vis = insert u (set out)" "u \<notin> set out" "distinct out" "set stack \<subseteq> vis"
    "\<And>a b. a \<in> vis \<Longrightarrow> a \<notin> set stack \<Longrightarrow> b \<in> set (requires_of m a) \<Longrightarrow> b \<in> vis"
    "\<And>v. v \<in> vis \<Longrightarrow> (\<lambda>a b. b \<in> set (requires_of m a))\<^sup>*\<^sup>* u v"
  shows "distinct (required_loop m vis out stack)
    \<and> set (required_loop m vis out stack) = {v. (\<lambda>a b. b \<in> set (requires_of m a))\<^sup>*\<^sup>* u v \<and> v \<noteq> u}"
  using assms
proof (induction m vis out stack rule: required_loop.induct)
  case (1 m vis out)
  let ?R = "\<lambda>a b. b \<in> set (requires_of m a)"
  have "vis = {v. ?R\<^sup>*\<^sup>* u v}"
  proof (rule closed_is_reachable)
    show "u \<in> vis" using "1.prems"(1) by blast
    show "b \<in> vis" if "a \<in> vis" "?R a b" for a b using "1.prems"(5) [of a b] that by simp
    show "?R\<^sup>*\<^sup>* u v" if "v \<in> vis" for v using "1.prems"(6) that by blast
  qed
  then have "set out = {v. ?R\<^sup>*\<^sup>* u v \<and> v \<noteq> u}" using "1.prems"(1,2) by auto
  then show ?case using "1.prems"(3) by (simp add: required_loop.simps)
next
  case (2 m vis out current stack)
  let ?R = "\<lambda>a b. b \<in> set (requires_of m a)"
  obtain vis' out' stack' where
    step: "push_required (requires_of m current) (vis, out, stack) = (vis', out', stack')"
    by (cases "push_required (requires_of m current) (vis, out, stack)")
  from push_required_spec [OF step] obtain news where
    n: "vis' = vis \<union> set news" "out' = out @ news" "stack' = rev news @ stack" "distinct news"
      "set news = set (requires_of m current) - vis" by blast
  have cur: "current \<in> vis" using "2.prems"(4) by auto
  have reach: "?R\<^sup>*\<^sup>* u v" if "v \<in> vis'" for v
    using that n "2.prems"(6) cur by (auto intro: rtranclp.rtrancl_into_rtrancl)
  have closed: "b \<in> vis'" if "a \<in> vis'" "a \<notin> set stack'" "b \<in> set (requires_of m a)" for a b
    using that n "2.prems"(5) [of a b] by (cases "a = current") auto
  have "required_loop m vis out (current # stack) = required_loop m vis' out' stack'"
    by (simp add: required_loop.simps(2) [of m vis out current stack] step)
  moreover have "distinct (required_loop m vis' out' stack')
    \<and> set (required_loop m vis' out' stack') = {v. ?R\<^sup>*\<^sup>* u v \<and> v \<noteq> u}"
  proof (rule "2.IH" [OF step [symmetric] refl refl])
    show "vis' = insert u (set out')" "set stack' \<subseteq> vis'" using n "2.prems"(1,4) by auto
    show "u \<notin> set out'" "distinct out'" using n "2.prems"(1,2,3) by auto
  qed (use reach closed in blast)+
  ultimately show ?case by simp
qed

text \<open>
  Property C19. \<open>required_closure\<close> terminates on every set of definitions, cyclic ones included, and
  lists without repeats exactly the other units that are reachable over \<open>Requires=\<close>.
\<close>

theorem required_closure_exact:
  "distinct (required_closure m u)
   \<and> set (required_closure m u) = {v. (\<lambda>a b. b \<in> set (requires_of m a))\<^sup>*\<^sup>* u v \<and> v \<noteq> u}"
  unfolding required_closure_def by (rule required_loop_set) auto

section \<open>Failure propagation\<close>

text \<open>\<open>b\<close> hard-requires \<open>a\<close> and has no process.\<close>

definition idle_dependent :: "UnitManager \<Rightarrow> UnitName \<Rightarrow> UnitName \<Rightarrow> bool" where
  "idle_dependent m a b \<longleftrightarrow>
     (\<exists>rt. unit_at m b = Some rt \<and> rt_pid rt = None \<and> a \<in> set (requires (deps (rt_config rt))))"

definition fail_units :: "UnitName set \<Rightarrow> UnitManager \<Rightarrow> UnitName \<Rightarrow> UnitRuntime option" where
  "fail_units F m v =
     (if v \<in> F then map_option (\<lambda>rt. rt\<lparr>rt_state := Failed StartFailure\<rparr>) (unit_at m v) else unit_at m v)"

lemma requires_dependents_set:
  assumes "wf_manager m"
  shows "set (requires_dependents m a) =
    {b. \<exists>rt. unit_at m b = Some rt \<and> a \<in> set (requires (deps (rt_config rt)))}"
proof -
  have d: "distinct (map fst (m_units m))" using assms by (simp add: units_ok_def ordered_distinct)
  have nm: "cfg_name (rt_config rt) = k" if "(k, rt) \<in> set (m_units m)" for k rt
    using assms that by (auto simp: units_ok_def unit_ok_def config_for_def)
  show ?thesis
    using d nm by (force simp: requires_dependents_def image_iff map_of_eq_Some_iff)
qed

lemma requires_dependents_defs:
  assumes "map (\<lambda>(k, rt). (k, rt_config rt)) (m_units m') = map (\<lambda>(k, rt). (k, rt_config rt)) (m_units m)"
  shows "requires_dependents m' = requires_dependents m"
proof -
  have "requires_dependents n a = map (\<lambda>(_, c). cfg_name c)
      (filter (\<lambda>(_, c). a \<in> set (requires (deps c))) (map (\<lambda>(k, rt). (k, rt_config rt)) (m_units n)))" for n a
    by (simp add: requires_dependents_def filter_map comp_def case_prod_unfold)
  then show ?thesis using assms by (simp add: fun_eq_iff)
qed

abbreviation definitions_of :: "UnitManager \<Rightarrow> (UnitName \<times> UnitConfig) list" where
  "definitions_of m \<equiv> map (\<lambda>(k, rt). (k, rt_config rt)) (m_units m)"

lemma definitions_upd [simp]:
  "(\<And>rt. rt_config (f rt) = rt_config rt) \<Longrightarrow> definitions_of (upd_unit u f m) = definitions_of m"
  by (auto simp: upd_unit_def modify_def)

text \<open>The state of the walk: what it changed, what it visited and what it has yet to expand.\<close>

definition walk_inv :: "UnitManager \<Rightarrow> UnitName \<Rightarrow> UnitManager \<Rightarrow> UnitName set \<Rightarrow> UnitName list \<Rightarrow> bool" where
  "walk_inv m1 u m vis failed \<longleftrightarrow>
     definitions_of m = definitions_of m1 \<and> (\<forall>v. unit_at m v = fail_units (set failed) m1 v)
     \<and> set failed = {v \<in> vis. v \<noteq> u \<and> \<not> is_failed m1 v} \<and> distinct failed"

lemma failed_state_simps [simp]:
  "failed_state (Failed r)" "\<not> failed_state Inactive" "\<not> failed_state Starting" "\<not> failed_state Active"
  "\<not> failed_state ActiveExited" "\<not> failed_state Deactivating" "\<not> failed_state RestartWait"
  by (simp_all add: failed_state_def)

definition idle :: "UnitManager \<Rightarrow> UnitName \<Rightarrow> bool" where
  "idle m d \<longleftrightarrow> (\<exists>rt. unit_at m d = Some rt \<and> rt_pid rt = None)"

lemma walk_inv_step:
  assumes inv: "walk_inv m1 u m vis failed" and u: "unit_at m1 u = None \<or> is_failed m1 u"
    and rt: "unit_at m d = Some rt" "rt_pid rt = None"
  defines "m' \<equiv> (if failed_state (rt_state rt) then m
      else upd_unit d (\<lambda>rt. rt\<lparr>rt_state := Failed StartFailure\<rparr>) m)"
    and "failed' \<equiv> (if failed_state (rt_state rt) then failed else failed @ [d])"
  shows "walk_inv m1 u m' (insert d vis) failed'"
proof -
  have at: "unit_at m v = fail_units (set failed) m1 v" for v using inv by (simp add: walk_inv_def)
  obtain rt1 where rt1: "unit_at m1 d = Some rt1"
    using rt(1) at [of d] by (auto simp: fail_units_def split: if_splits)
  have dead: "failed_state (rt_state rt) \<longleftrightarrow> d \<in> set failed \<or> is_failed m1 d"
    using rt(1) at [of d] rt1 by (auto simp: fail_units_def is_failed_def split: if_splits)
  have du: "d \<noteq> u \<or> is_failed m1 d" using u rt1 by auto
  show ?thesis
  proof (cases "failed_state (rt_state rt)")
    case True
    then show ?thesis using inv dead du by (auto simp: walk_inv_def m'_def failed'_def)
  next
    case False
    then have "unit_at m' v = fail_units (set failed') m1 v" for v
      using at [of v] at [of d] rt1 dead
      by (auto simp: m'_def failed'_def fail_units_def)
    moreover have "definitions_of m' = definitions_of m" using False by (simp add: m'_def)
    ultimately show ?thesis
      using inv dead du False by (auto simp: walk_inv_def failed'_def)
  qed
qed

lemma walk_inv_idle: "walk_inv m1 u m vis failed \<Longrightarrow> idle m d = idle m1 d"
  by (auto simp: walk_inv_def idle_def fail_units_def split: if_splits)

lemma fail_dependents_spec:
  assumes "walk_inv m1 u m vis failed" "unit_at m1 u = None \<or> is_failed m1 u"
    "fail_dependents ds (m, vis, failed, queue) = (m', vis', failed', queue')"
  shows "walk_inv m1 u m' vis' failed' \<and> vis' = vis \<union> {d \<in> set ds. idle m1 d}
    \<and> set queue' = set queue \<union> (vis' - vis)"
  using assms
proof (induction ds arbitrary: m vis failed queue)
  case (Cons d ds)
  show ?case
  proof (cases "idle m d")
    case False
    then have "fail_dependents ds (m, vis, failed, queue) = (m', vis', failed', queue')"
      using Cons.prems(3) by (auto simp: idle_def split: option.splits)
    with Cons.IH [OF Cons.prems(1,2)] False walk_inv_idle [OF Cons.prems(1), of d] show ?thesis by auto
  next
    case True
    then obtain rt where rt: "unit_at m d = Some rt" "rt_pid rt = None" by (auto simp: idle_def)
    note step = walk_inv_step [OF Cons.prems(1,2) rt]
    let ?q = "if d \<in> vis then queue else d # queue"
    have "fail_dependents ds (if failed_state (rt_state rt) then m
        else upd_unit d (\<lambda>rt. rt\<lparr>rt_state := Failed StartFailure\<rparr>) m, insert d vis,
        if failed_state (rt_state rt) then failed else failed @ [d], ?q) = (m', vis', failed', queue')"
      using Cons.prems(3) rt by (auto simp: Let_def insert_absorb split: if_splits)
    from Cons.IH [OF step Cons.prems(2) this] True walk_inv_idle [OF Cons.prems(1), of d]
    show ?thesis by (auto split: if_splits)
  qed
qed auto

lemma fail_loop_spec:
  assumes wf: "wf_manager m1" and u: "unit_at m1 u = None \<or> is_failed m1 u"
    and inv: "walk_inv m1 u m vis failed" "u \<in> vis" "set queue \<subseteq> vis"
      "\<And>a b. a \<in> vis \<Longrightarrow> a \<notin> set queue \<Longrightarrow> idle_dependent m1 a b \<Longrightarrow> b \<in> vis"
      "\<And>v. v \<in> vis \<Longrightarrow> (idle_dependent m1)\<^sup>*\<^sup>* u v"
  shows "\<exists>failed' m'. fail_loop m vis failed queue = (failed', m')
    \<and> walk_inv m1 u m' {v. (idle_dependent m1)\<^sup>*\<^sup>* u v} failed'"
  using inv
proof (induction m vis failed queue rule: fail_loop.induct)
  case (1 m vis failed)
  have "vis = {v. (idle_dependent m1)\<^sup>*\<^sup>* u v}"
    by (rule closed_is_reachable) (use 1 in auto)
  then show ?case using "1.prems"(1) by (simp add: fail_loop.simps)
next
  case (2 m vis failed current queue)
  obtain m' vis' failed' queue' where
    step: "fail_dependents (requires_dependents m current) (m, vis, failed, queue) = (m', vis', failed', queue')"
    by (cases "fail_dependents (requires_dependents m current) (m, vis, failed, queue)")
  have defs: "definitions_of m = definitions_of m1" using "2.prems"(1) by (simp add: walk_inv_def)
  note s = fail_dependents_spec [OF "2.prems"(1) u step]
  have D: "{d \<in> set (requires_dependents m current). idle m1 d} = {d. idle_dependent m1 current d}"
    unfolding requires_dependents_defs [OF defs] requires_dependents_set [OF wf]
    by (auto simp: idle_def idle_dependent_def)
  have cur: "current \<in> vis" using "2.prems"(3) by auto
  have v': "vis' = vis \<union> {d. idle_dependent m1 current d}" using s D by simp
  have "\<exists>failed'' m''. fail_loop m' vis' failed' queue' = (failed'', m'')
      \<and> walk_inv m1 u m'' {v. (idle_dependent m1)\<^sup>*\<^sup>* u v} failed''"
  proof (rule "2.IH" [OF step [symmetric] refl refl refl])
    show "walk_inv m1 u m' vis' failed'" "u \<in> vis'" using s "2.prems"(2) by auto
    show "set queue' \<subseteq> vis'" using s "2.prems"(3) by auto
    show "b \<in> vis'" if "a \<in> vis'" "a \<notin> set queue'" "idle_dependent m1 a b" for a b
      using that s v' "2.prems"(4) [of a b] by (cases "a = current") auto
    show "(idle_dependent m1)\<^sup>*\<^sup>* u v" if "v \<in> vis'" for v
      using that v' "2.prems"(5) cur by (auto intro: rtranclp.rtrancl_into_rtrancl)
  qed
  then show ?case by (simp add: fail_loop.simps(2) [of m vis failed current queue] step)
qed

lemma idle_dependent_marked:
  "idle_dependent (upd_unit u f m) a b = idle_dependent m a b" if "b \<noteq> u"
  using that by (simp add: idle_dependent_def)

lemma reach_marked:
  assumes "v \<noteq> u"
  shows "(idle_dependent (upd_unit u f m))\<^sup>*\<^sup>* u v = (idle_dependent m)\<^sup>*\<^sup>* u v"
proof -
  have eq: "(\<lambda>a b. idle_dependent (upd_unit u f m) a b \<and> b \<noteq> u) = (\<lambda>a b. idle_dependent m a b \<and> b \<noteq> u)"
    by (auto simp: fun_eq_iff idle_dependent_marked)
  have mono: "(\<lambda>a b. R a b \<and> b \<noteq> u)\<^sup>*\<^sup>* u v \<Longrightarrow> R\<^sup>*\<^sup>* u v" for R :: "UnitName \<Rightarrow> UnitName \<Rightarrow> bool"
    by (erule rtranclp_mono [THEN predicate2D, rotated]) auto
  show ?thesis
  proof
    assume "(idle_dependent (upd_unit u f m))\<^sup>*\<^sup>* u v"
    from reach_avoiding [OF this] show "(idle_dependent m)\<^sup>*\<^sup>* u v" unfolding eq by (rule mono)
  next
    assume "(idle_dependent m)\<^sup>*\<^sup>* u v"
    from reach_avoiding [OF this] show "(idle_dependent (upd_unit u f m))\<^sup>*\<^sup>* u v"
      unfolding eq [symmetric] by (rule mono)
  qed
qed

lemma fail_start_spec:
  assumes "wf_manager m" "fail_start K u m tr = (failed, m', tr')"
  shows "distinct failed
    \<and> set failed = {v. (idle_dependent m)\<^sup>*\<^sup>* u v \<and> v \<noteq> u \<and> \<not> is_failed m v}
    \<and> (\<forall>v. v \<noteq> u \<longrightarrow> unit_at m' v = fail_units (set failed) m v)
    \<and> unit_at m' u = map_option mark_failed (unit_at m u)"
proof -
  define m1 where "m1 = upd_unit u mark_failed m"
  have wf1: "wf_manager m1" unfolding m1_def using assms(1) by (intro wf_upd_unit wf_mark_failed)
  have u1: "unit_at m1 u = None \<or> is_failed m1 u"
    by (cases "unit_at m u") (auto simp: m1_def is_failed_def mark_failed_def)
  have "walk_inv m1 u m1 {u} []" by (simp add: walk_inv_def fail_units_def)
  then obtain f' m'' where f': "fail_loop m1 {u} [] [u] = (f', m'')"
    "walk_inv m1 u m'' {v. (idle_dependent m1)\<^sup>*\<^sup>* u v} f'"
    using fail_loop_spec [OF wf1 u1, of m1 "{u}" "[]" "[u]"] by auto
  have eq: "failed = f'" "m' = m''"
    using assms(2) f'(1) by (auto simp: fail_start_def m1_def [symmetric] Let_def split: prod.splits)
  have at: "unit_at m1 v = unit_at m v" "is_failed m1 v = is_failed m v" if "v \<noteq> u" for v
    using that by (simp_all add: m1_def is_failed_def)
  have "set failed = {v. (idle_dependent m)\<^sup>*\<^sup>* u v \<and> v \<noteq> u \<and> \<not> is_failed m v}"
    using f'(2) at reach_marked [of _ u mark_failed m, folded m1_def]
    by (auto simp: walk_inv_def eq)
  then show ?thesis
    using f'(2) at by (auto simp: walk_inv_def eq fail_units_def m1_def)
qed

text \<open>
  Property C12. A failed start takes down exactly the units that hard-require it, directly or through
  other units, along chains of units that have no process: these become failed (and are reported
  once each, unless they had failed before), every other unit keeps its state, and the walk ends on
  cyclic definitions too.
\<close>

theorem fail_start_propagates:
  assumes "wf_manager m" "fail_start K u m tr = (failed, m', tr')"
  shows "distinct failed
    \<and> set failed = {v. (idle_dependent m)\<^sup>*\<^sup>* u v \<and> v \<noteq> u \<and> \<not> is_failed m v}
    \<and> (\<forall>v. v \<noteq> u \<longrightarrow> unit_at m' v = fail_units (set failed) m v)
    \<and> unit_at m' u = map_option mark_failed (unit_at m u)"
  using assms by (rule fail_start_spec)

abbreviation app :: UnitName where "app \<equiv> UnitName ''app.service'' Service"

text \<open>Two services, the second of which requires the first.\<close>

definition two_units :: UnitManager where
  "two_units = web_manager\<lparr>m_units :=
     [(app, runtime_new ((new_config app)\<lparr>deps := no_dependencies\<lparr>requires := [web]\<rparr>\<rparr>)),
      (web, runtime_new web_cfg)]\<rparr>"

lemma wf_two_units: "wf_manager two_units"
  by (simp add: units_ok_def two_units_def ordered_keys_def less_UnitName_def less_eq_UnitName_def
      config_for_def web_cfg_fields new_config_def)

theorem fail_start_propagates_witness:
  "\<exists>failed m' tr'. fail_start calm_kernel web two_units [] = (failed, m', tr') \<and> app \<in> set failed"
proof -
  obtain failed m' tr' where f: "fail_start calm_kernel web two_units [] = (failed, m', tr')"
    by (cases "fail_start calm_kernel web two_units []")
  have "idle_dependent two_units web app"
    by (simp add: idle_dependent_def two_units_def runtime_new_def)
  then have "(idle_dependent two_units)\<^sup>*\<^sup>* web app" by (rule r_into_rtranclp)
  moreover have "\<not> is_failed two_units app"
    by (simp add: is_failed_def two_units_def runtime_new_def)
  ultimately have "app \<in> set failed" using fail_start_propagates [OF wf_two_units f] by simp
  with f show ?thesis by blast
qed

end
