(* ===== verification/Manager_Behaviour.thy ===== *)
theory Manager_Behaviour
  imports Manager_Deps
begin

text \<open>
  What the unit manager promises of its operations: the environment of a service, the search for a
  forking daemon, how requests are decided, starts that wait for a stop, the order of a shutdown and
  the two stages of a stop. Two theorems at the end record where the code does not do what its
  comments say: a restart that is forgotten, and a dependency graph that is out of date.
\<close>

section \<open>The environment of a service\<close>

lemma map_of_upsert: "map_of (upsert env kv) = (map_of env)(fst kv \<mapsto> snd kv)"
  by (auto simp: upsert_def map_of_set_first map_add_def fun_eq_iff split: option.split)

lemma keys_upsert: "map fst (upsert env kv) = remdups_step (map fst env) (fst kv)"
proof (cases "map_of env (fst kv)")
  case None
  then have "fst kv \<notin> set (map fst env)" by (simp add: map_of_eq_None_iff)
  then show ?thesis using None by (simp add: upsert_def)
next
  case (Some v)
  then have "fst kv \<in> set (map fst env)" by (metis domI dom_map_of_conv_image_fst image_set)
  then show ?thesis using Some by (simp add: upsert_def)
qed

lemma foldl_upsert:
  "map_of (foldl upsert env kvs) = map_of env ++ map_of (rev kvs)"
  "map fst (foldl upsert env kvs) = foldl remdups_step (map fst env) (map fst kvs)"
  by (induction kvs arbitrary: env) (simp_all add: map_of_upsert keys_upsert map_add_upd_left del: remdups_step.simps)

text \<open>
  The environment of a service names each variable once, and a variable comes from the
  strongest of the places that set it: what the supervisor adds, then \<open>Environment=\<close>, then
  \<open>EnvironmentFile=\<close>, then the built-in defaults; within one place the last setting counts.
\<close>

theorem service_env_precedence:
  "distinct (map fst (merged_env cfg from_file extra))
   \<and> map_of (merged_env cfg from_file extra) =
       map_of (rev (env_entries SERVICE_ENV)) ++ map_of (rev from_file)
       ++ map_of (rev (cfg_environment cfg)) ++ map_of (rev (env_entries extra))"
  by (simp add: merged_env_def foldl_upsert foldl_remdups_step)

section \<open>The daemon of a forking service\<close>

text \<open>
  Property C22. The process a forking unit is taken to consist of is the one its pid file or its
  control group names; it is never process 1, a process group or the manager itself; the run then
  found it alive, and after that found it a member of the unit's own control group or, where there is
  no such group, found it running as the user the unit asks for. In every other case, a corrupted pid
  file and a process outside the group included, the search reports an error.
\<close>

theorem find_daemon_fails_closed:
  assumes "find_daemon K cfg cg u tr = (Inr p, tr')"
  shows "1 < p \<and> p \<noteq> k_self K
    \<and> (\<exists>t ms t1. daemon_candidate K cfg cg u tr = (Inr p, t) \<and> k_kill K t p 0 = None
        \<and> cgroup_members K cg u (Kill p 0 # t) = (ms, t1)
        \<and> (case ms of
              Some ms \<Rightarrow> p \<in> set ms \<and> tr' = t1
            | None \<Rightarrow> \<exists>uid t2. process_uid K p t2 = (Some uid, tr')
                \<and> (if trim (cfg_user cfg) = [] then uid = k_euid K \<and> t2 = t1
                   else \<exists>sb. resolve_sandbox K cfg t1 = (Inr sb, t2) \<and> uid = sb_uid sb)))"
proof -
  from assms obtain q t where c: "daemon_candidate K cfg cg u tr = (Inr q, t)" "1 < q" "q \<noteq> k_self K"
    "k_kill K t q 0 = None"
    by (auto simp: find_daemon_def sys_kill_def Let_def split: prod.splits sum.splits if_splits)
  obtain ms t1 where m: "cgroup_members K cg u (Kill q 0 # t) = (ms, t1)" by fastforce
  have "case ms of Some ms \<Rightarrow> p = q \<and> q \<in> set ms \<and> tr' = t1 | None \<Rightarrow> check_identity K cfg q t1 = (Inr p, tr')"
    using assms c m by (auto simp: find_daemon_def sys_kill_def split: option.splits if_splits)
  then have "p = q \<and> (case ms of
      Some ms \<Rightarrow> p \<in> set ms \<and> tr' = t1
    | None \<Rightarrow> \<exists>uid t2. process_uid K p t2 = (Some uid, tr')
        \<and> (if trim (cfg_user cfg) = [] then uid = k_euid K \<and> t2 = t1
           else \<exists>sb. resolve_sandbox K cfg t1 = (Inr sb, t2) \<and> uid = sb_uid sb))"
    by (auto simp: check_identity_def Let_def split: option.splits if_splits sum.splits prod.splits)
  then show ?thesis using c m by auto
qed

text \<open>A kernel whose pid file names process 4321, which runs as root.\<close>

definition pidfile_kernel :: Kernel where
  "pidfile_kernel = calm_kernel\<lparr>k_stat := (\<lambda>tr p. Inr True), k_open := (\<lambda>tr p. None),
     k_fstat := (\<lambda>tr p. Inr (True, 4)), k_read := (\<lambda>tr p n. Inr ''4321''),
     k_read_text := (\<lambda>tr p. Inr ''Uid: 0 0 0 0'')\<rparr>"

theorem find_daemon_fails_closed_witness:
  "\<exists>tr'. find_daemon pidfile_kernel ((new_config web)\<lparr>pid_file := Some ''/run/web.pid''\<rparr>) cgroup_disabled
      web [] = (Inr 4321, tr') \<and> (4321 :: int) \<noteq> k_self pidfile_kernel"
proof -
  let ?r = "find_daemon pidfile_kernel ((new_config web)\<lparr>pid_file := Some ''/run/web.pid''\<rparr>)
      cgroup_disabled web []"
  have "parse_i32 ''4321'' = Some 4321"
    by (simp add: parse_i32_def parse_uint_def dec_value_def rust_std)
  moreover have "status_uid ''Uid: 0 0 0 0'' = Some 0"
  proof -
    have "str_lines ''Uid: 0 0 0 0'' = [''Uid: 0 0 0 0'']"
      "split_whitespace ''Uid: 0 0 0 0'' = [''Uid:'', ''0'', ''0'', ''0'', ''0'']" by code_simp+
    moreover have "parse_uint u32_max ''0'' = Some 0"
      by (simp add: parse_uint_def u32_max_value dec_value_def rust_std)
    ultimately show ?thesis by (simp add: status_uid_def List.map_filter_simps)
  qed
  moreover have "utf8_valid ''4321''" "trim ''4321'' = ''4321''" by code_simp+
  moreover have "cfg_user (new_config web) = []" by (simp add: new_config_def)
  moreover have "trim [] = []" by code_simp
  ultimately have "fst ?r = Inr 4321"
    by (simp add: find_daemon_def daemon_candidate_def read_unit_file_def pidfile_kernel_def Let_def
        MAX_PID_FILE_BYTES_def ok_or_def sys_kill_def cgroup_members_def cgroup_dir_def cgroup_disabled_def
        check_identity_def process_uid_def read_text_def calm_kernel_def del: utf8_valid.simps)
  then have r: "?r = (Inr 4321, snd ?r)" by (simp add: prod_eq_iff)
  show ?thesis using find_daemon_fails_closed [OF r] r by blast
qed

section \<open>Requests\<close>

text \<open>What a target asks of a unit in a given state.\<close>

definition asked :: "JobTarget \<Rightarrow> UnitState \<Rightarrow> Effect option" where
  "asked t s = reconcile \<lparr>merged = [(web, \<lparr>mt_target = t, mt_source = Dependency, mt_at = 0\<rparr>)]\<rparr> web s"

lemma reconcile_asked: "reconcile q u s = Option.bind (target_of q u) (\<lambda>mt. asked (mt_target mt) s)"
  by (auto simp: asked_def reconcile_def target_of_def split: option.split JobTarget.split UnitState.split)

text \<open>The target that holds once a request has been merged, given the one that held before.\<close>

definition merge_target :: "JobTarget \<Rightarrow> RequestSource \<Rightarrow> millis \<Rightarrow> MergedTarget option \<Rightarrow> MergedTarget" where
  "merge_target t src at old =
     (let j = \<lparr>mt_target = t, mt_source = src, mt_at = at\<rparr> in
      case old of None \<Rightarrow> j
      | Some h \<Rightarrow> if src > mt_source h \<or> src = mt_source h \<and> at > mt_at h then j else h)"

lemma target_of_new_job:
  "target_of (fst (submit q (new_job u t src at))) v =
     (if v = u then Some (merge_target t src at (target_of q u)) else target_of q v)"
  by (simp add: target_of_submit merge_target_def new_job_def holder_def wins_def Let_def split: option.split)

definition live_target :: "UnitManager \<Rightarrow> UnitName \<Rightarrow> UnitState \<Rightarrow> MergedTarget option" where
  "live_target m u s = (if reconcile (jobs m) u s = Some NoEffect then None else target_of (jobs m) u)"

lemma target_of_forget_spent:
  "unit_at m u = Some rt \<Longrightarrow>
     target_of (jobs (forget_spent_target u m)) v = (if v = u then live_target m u (rt_state rt) else target_of (jobs m) v)"
  by (simp add: forget_spent_target_def live_target_def target_of_forget)

lemma forget_spent_frame [simp]:
  "m_units (forget_spent_target u m) = m_units m"
  "queued_starts (forget_spent_target u m) = queued_starts m"
  by (simp_all add: forget_spent_target_def split: option.split)

lemma apply_none_frame [simp]:
  "jobs (apply_none_transition u m) = jobs m"
  "queued_starts (apply_none_transition u m) = queued_starts m"
  by (simp_all add: apply_none_transition_def split: option.split)

lemma apply_none_other: "v \<noteq> u \<Longrightarrow> unit_at (apply_none_transition u m) v = unit_at m v"
  by (simp add: apply_none_transition_def split: option.split)

lemma queue_behind_frame [simp]:
  "jobs (queue_behind_stop u t src e m) = jobs m" "m_units (queue_behind_stop u t src e m) = m_units m"
  by (simp_all add: queue_behind_stop_def split: JobTarget.split)

lemma request_known:
  fixes K t src tr
  assumes "unit_at m u = Some rt"
  defines "h \<equiv> merge_target t src (fst (now_millis K m tr)) (live_target m u (rt_state rt))"
  shows "fst (request K u t src m tr) = asked (mt_target h) (rt_state rt)"
    and "target_of (jobs (fst (snd (request K u t src m tr)))) v = (if v = u then Some h else target_of (jobs m) v)"
    and "asked (mt_target h) (rt_state rt) \<noteq> Some NoEffect \<or> v \<noteq> u \<Longrightarrow>
      unit_at (fst (snd (request K u t src m tr))) v = unit_at m v"
    and "v \<noteq> u \<Longrightarrow> map_of (queued_starts (fst (snd (request K u t src m tr)))) v = map_of (queued_starts m) v"
proof -
  define m2 where "m2 = forget_spent_target u m"
  define m3 where "m3 = m2\<lparr>jobs := fst (submit (jobs m2) (new_job u t src (fst (now_millis K m tr))))\<rparr>"
  define m4 where "m4 = (if effect_for m3 u = Some NoEffect then apply_none_transition u m3 else m3)"
  have r: "request K u t src m tr =
      (effect_for m3 u, queue_behind_stop u t src (effect_for m3 u) m4, snd (now_millis K m tr))"
    using assms(1) by (simp add: request_def ensure_unit_def case_prod_beta Let_def m2_def m3_def m4_def)
  have u3: "unit_at m3 v = unit_at m v" for v by (simp add: m3_def m2_def)
  have j3: "target_of (jobs m3) v = (if v = u then Some h else target_of (jobs m) v)" for v
    using assms(1) by (simp add: m3_def m2_def target_of_new_job target_of_forget_spent h_def)
  have e: "effect_for m3 u = asked (mt_target h) (rt_state rt)"
    using assms(1) by (simp add: effect_for_def u3 reconcile_asked j3)
  show "fst (request K u t src m tr) = asked (mt_target h) (rt_state rt)" by (simp add: r e)
  show "target_of (jobs (fst (snd (request K u t src m tr)))) v = (if v = u then Some h else target_of (jobs m) v)"
    by (simp add: r m4_def j3)
  show "unit_at (fst (snd (request K u t src m tr))) v = unit_at m v"
    if "asked (mt_target h) (rt_state rt) \<noteq> Some NoEffect \<or> v \<noteq> u"
    using that by (auto simp: r m4_def e u3 apply_none_other)
  show "map_of (queued_starts (fst (snd (request K u t src m tr)))) v = map_of (queued_starts m) v" if "v \<noteq> u"
    using that by (auto simp: r m4_def queue_behind_stop_def m3_def m2_def split: JobTarget.split)
qed

text \<open>
  Property C20. A request is judged by the merged target alone: a target that the unit has already
  reached never decides against it (a start by the user after a completed stop by the user spawns
  the unit, although a user's stop outranks it), and otherwise the older target keeps the unit
  exactly when its source outranks the new one, or is the same and no older.
\<close>

theorem request_decides:
  assumes "unit_at m u = Some rt"
  shows "fst (request K u t src m tr) =
    (case target_of (jobs m) u of
       Some h \<Rightarrow>
         if asked (mt_target h) (rt_state rt) = Some NoEffect \<or> mt_source h < src
            \<or> mt_source h = src \<and> mt_at h < fst (now_millis K m tr)
         then asked t (rt_state rt) else asked (mt_target h) (rt_state rt)
     | None \<Rightarrow> asked t (rt_state rt))"
  by (auto simp: request_known(1) [OF assms] live_target_def merge_target_def reconcile_asked Let_def
      split: option.split)

lemma asked_simps [simp]:
  "asked t Deactivating = None" "asked Started Inactive = Some SpawnProcess"
  "asked Stopped Inactive = Some NoEffect"
  by (cases t; simp add: asked_def reconcile_def target_of_def)+

lemma start_inactive:
  assumes "unit_at m u = Some rt" "rt_state rt = Inactive"
  shows "fst (request K u Started src m tr) = Some SpawnProcess"
    and "unit_at (fst (snd (request K u Started src m tr))) u = Some rt"
proof -
  define h where "h = merge_target Started src (fst (now_millis K m tr)) (live_target m u (rt_state rt))"
  have "mt_target h = Started"
  proof (cases "live_target m u (rt_state rt)")
    case (Some x)
    then have "mt_target x = Started"
      using assms(2) by (cases "mt_target x") (auto simp: live_target_def reconcile_asked split: if_splits)
    then show ?thesis using Some by (simp add: h_def merge_target_def Let_def)
  qed (simp add: h_def merge_target_def)
  then have a: "asked (mt_target h) (rt_state rt) = Some SpawnProcess" using assms(2) by simp
  then show "fst (request K u Started src m tr) = Some SpawnProcess"
    using request_known(1) [OF assms(1), of K Started src tr] by (simp add: h_def)
  show "unit_at (fst (snd (request K u Started src m tr))) u = Some rt"
    using request_known(3) [OF assms(1), of Started src K tr u] a assms(1) by (simp add: h_def)
qed

lemma queued_unit_at [simp]: "unit_at (m\<lparr>queued_starts := q\<rparr>) v = unit_at m v"
  by simp

lemma release_queued_ready:
  assumes "unit_at m u = Some rt" "\<not> retired rt" "rt_state rt = Inactive" "(u, src) \<in> set qs"
  shows "u \<in> set (fst (release_queued K qs m tr))"
  using assms
proof (induction qs arbitrary: m tr)
  case (Cons q qs)
  obtain v s where q: "q = (v, s)" by (cases q)
  let ?m0 = "m\<lparr>queued_starts := remove_key v (queued_starts m)\<rparr>"
  show ?case
  proof (cases "exists_unit m v \<and> \<not> is_deactivating m v")
    case False
    have "v \<noteq> u" using False Cons.prems by (auto simp: exists_unit_def is_deactivating_def)
    then show ?thesis using False Cons by (auto simp: q)
  next
    case True
    let ?r = "request K v Started s ?m0 tr"
    have u: "unit_at (fst (snd ?r)) u = Some rt"
    proof (cases "v = u")
      case True
      then show ?thesis using start_inactive(2) [of ?m0 u rt K s tr] Cons.prems by simp
    next
      case False
      obtain rv where rv: "unit_at ?m0 v = Some rv"
        using True by (auto simp: exists_unit_def split: option.splits)
      show ?thesis using request_known(3) [OF rv, of Started s K tr u] False Cons.prems(1) by simp
    qed
    have head: "v = u \<Longrightarrow> fst ?r = Some SpawnProcess"
      using start_inactive(1) [of ?m0 u rt K s tr] Cons.prems by simp
    have tail: "(u, src) \<in> set qs \<Longrightarrow>
        u \<in> set (fst (release_queued K qs (fst (snd ?r)) (snd (snd ?r))))"
      using Cons.IH [OF u] Cons.prems by simp
    show ?thesis using True head tail Cons.prems(4) by (auto simp: q case_prod_beta Let_def)
  qed
qed simp

text \<open>
  Property C21. A start is not lost to a stop in progress: against a unit that is being stopped it has
  no effect but is remembered, and once the unit has stopped the next look at the queued starts
  releases it, whatever else is queued and whatever source asked for the stop.
\<close>

theorem start_waits_for_stop:
  assumes "unit_at m u = Some rt" "\<not> retired rt"
  shows "(rt_state rt = Deactivating \<longrightarrow>
       fst (request_start K u src m tr) = None
       \<and> unit_at (fst (snd (request_start K u src m tr))) u = Some rt
       \<and> map_of (queued_starts (fst (snd (request_start K u src m tr)))) u = Some src)
    \<and> (rt_state rt = Inactive \<and> map_of (queued_starts m) u = Some src \<longrightarrow>
       u \<in> set (fst (due_queued_starts K m tr)))"
proof (intro conjI impI)
  assume d: "rt_state rt = Deactivating"
  show "fst (request_start K u src m tr) = None"
    using request_known(1) [OF assms(1)] d by (simp add: request_start_def)
  show "unit_at (fst (snd (request_start K u src m tr))) u = Some rt"
    using request_known(3) [OF assms(1), of Started src K tr u] d assms(1) by (simp add: request_start_def)
  show "map_of (queued_starts (fst (snd (request_start K u src m tr)))) u = Some src"
    using assms(1) d
    by (simp add: request_start_def request_def ensure_unit_def case_prod_beta Let_def effect_for_def
        reconcile_def queue_behind_stop_def is_deactivating_def split: option.split JobTarget.split)
next
  assume "rt_state rt = Inactive \<and> map_of (queued_starts m) u = Some src"
  then show "u \<in> set (fst (due_queued_starts K m tr))"
    unfolding due_queued_starts_def using assms by (intro release_queued_ready) (auto dest: map_of_SomeD)
qed

theorem start_waits_for_stop_witness:
  "web \<in> set (fst (due_queued_starts calm_kernel (web_manager\<lparr>queued_starts := [(web, UserStart)]\<rparr>) []))"
proof -
  have "unit_at (web_manager\<lparr>queued_starts := [(web, UserStart)]\<rparr>) web = Some (runtime_new web_cfg)"
    using web_registered by simp
  moreover have "\<not> retired (runtime_new web_cfg)" "rt_state (runtime_new web_cfg) = Inactive"
    by (simp_all add: runtime_new_def)
  ultimately show ?thesis
    using start_waits_for_stop [of _ web "runtime_new web_cfg" calm_kernel UserStart] by simp
qed

theorem request_decides_witness:
  "fst (request calm_kernel web Started UserStart
     (web_manager\<lparr>jobs := \<lparr>merged = [(web, \<lparr>mt_target = Stopped, mt_source = UserStop, mt_at = 5\<rparr>)]\<rparr>\<rparr>) [])
   = Some SpawnProcess"
proof -
  let ?m = "web_manager\<lparr>jobs := \<lparr>merged = [(web, \<lparr>mt_target = Stopped, mt_source = UserStop, mt_at = 5\<rparr>)]\<rparr>\<rparr>"
  have "unit_at ?m web = Some (runtime_new web_cfg)" using web_registered by simp
  from request_decides [OF this, of calm_kernel Started UserStart "[]"] show ?thesis
    by (simp add: target_of_def runtime_new_def)
qed

section \<open>The order of a shutdown\<close>

lemma mset_move_before:
  assumes "i < j" "j < length xs"
  shows "mset (move_before i j xs) = mset xs"
proof -
  define ys where "ys = take j xs @ drop (Suc j) xs"
  have "mset xs = mset (take j xs @ xs ! j # drop (Suc j) xs)"
    by (rule arg_cong [OF id_take_nth_drop [OF assms(2)]])
  then have "mset xs = add_mset (xs ! j) (mset ys)" by (simp add: ys_def)
  moreover have "mset (take i ys) + mset (drop i ys) = mset ys"
    by (metis append_take_drop_id mset_append)
  ultimately show ?thesis by (simp add: move_before_def ys_def [symmetric] Let_def)
qed

lemma later_conflict_bounds: "later_conflict m order i = Some j \<Longrightarrow> i < j \<and> j < length order"
  by (auto simp: later_conflict_def dest!: find_map_SomeD split: option.splits if_splits)
     (auto dest: position_less)

lemma mset_conflict_pass:
  "mset (fst (conflict_pass m is (order, ch))) = mset order"
  by (induction "is" arbitrary: order ch)
     (auto simp: mset_move_before dest!: later_conflict_bounds split: option.split)

lemma mset_conflict_loop: "mset (conflict_loop n m order) = mset order"
proof (induction n arbitrary: order)
  case (Suc n)
  have "mset (fst (conflict_pass m [0..<length order] (order, False))) = mset order"
    by (rule mset_conflict_pass)
  then show ?case using Suc by (simp add: case_prod_beta Let_def)
qed simp

definition conflict_free :: "UnitManager \<Rightarrow> UnitName list \<Rightarrow> bool" where
  "conflict_free m us \<longleftrightarrow> (\<forall>u \<in> set us. \<forall>v \<in> set (conflicts_of m u). v \<notin> set us)"

lemma conflict_pass_free:
  assumes "conflict_free m order" "\<forall>i \<in> set is. i < length order"
  shows "conflict_pass m is (order, ch) = (order, ch)"
  using assms(2)
proof (induction "is" arbitrary: ch)
  case (Cons i "is")
  have "position order v = None" if "v \<in> set (conflicts_of m (order ! i))" for v
    using that assms(1) Cons.prems nth_mem [of i order] by (auto simp: conflict_free_def position_None_iff)
  then have "later_conflict m order i = None" by (simp add: later_conflict_def find_map_None_iff)
  then show ?case using Cons by simp
qed simp

lemma apply_conflict_order_free: "conflict_free m order \<Longrightarrow> apply_conflict_order m order = order"
  by (cases "length order") (simp_all add: apply_conflict_order_def conflict_pass_free del: upt_Suc)

lemma foldl_remdups_step_distinct:
  "distinct (acc @ xs) \<Longrightarrow> foldl remdups_step acc xs = acc @ xs"
  by (induction xs arbitrary: acc) auto

lemma foldl_remdups_step_prefix:
  "\<exists>ys. foldl remdups_step acc xs = acc @ ys \<and> set ys = set xs - set acc"
proof (induction xs arbitrary: acc)
  case (Cons x xs)
  from Cons [of "remdups_step acc x"] show ?case by (auto split: if_splits)
qed simp

text \<open>
  A shutdown stops every started unit exactly once, \<open>Conflicts=\<close> or not; and when no
  started unit conflicts with another, the units of the recorded startup order stop in exactly the
  reverse of it.
\<close>

theorem shutdown_order_complete:
  "distinct (shutdown_order m) \<and> set (shutdown_order m) = set (started_units m)
   \<and> (conflict_free m (started_units m) \<and> distinct (m_shutdown_order m) \<longrightarrow>
        filter (\<lambda>u. u \<in> set (m_shutdown_order m)) (shutdown_order m)
        = rev (filter (\<lambda>u. u \<in> set (started_units m)) (m_shutdown_order m)))"
proof -
  let ?st = "started_units m" and ?so = "m_shutdown_order m"
  define first where "first = foldl remdups_step [] (filter (\<lambda>u. u \<in> set ?st) (rev ?so))"
  define base where "base = foldl remdups_step first ?st"
  have so: "shutdown_order m = apply_conflict_order m base"
    by (simp add: shutdown_order_def first_def base_def Let_def)
  have f: "distinct first" "set first = {u \<in> set ?so. u \<in> set ?st}"
    using foldl_remdups_step [of "[]" "filter (\<lambda>u. u \<in> set ?st) (rev ?so)"] by (auto simp: first_def)
  then have b: "distinct base" "set base = set ?st"
    using foldl_remdups_step [of first ?st] by (auto simp: base_def)
  have ms: "mset (shutdown_order m) = mset base"
    by (simp add: so apply_conflict_order_def mset_conflict_loop)
  then have 1: "distinct (shutdown_order m)" "set (shutdown_order m) = set ?st"
    using b by (metis mset_eq_imp_distinct_iff, metis mset_eq_setD)
  have 2: "filter (\<lambda>u. u \<in> set ?so) (shutdown_order m) = rev (filter (\<lambda>u. u \<in> set ?st) ?so)"
    if c: "conflict_free m ?st" and d: "distinct ?so"
  proof -
    have "shutdown_order m = base"
      unfolding so using c b(2) by (intro apply_conflict_order_free) (simp add: conflict_free_def)
    moreover obtain ys where "base = first @ ys" "set ys = set ?st - set first"
      using foldl_remdups_step_prefix [of first ?st] by (auto simp: base_def)
    moreover have "first = rev (filter (\<lambda>u. u \<in> set ?st) ?so)"
      using d by (simp add: first_def foldl_remdups_step_distinct rev_filter)
    moreover have "filter (\<lambda>u. u \<in> set ?so) ys = []" using calculation f by (auto simp: filter_empty_conv)
    moreover have "filter (\<lambda>u. u \<in> set ?so) first = first" using f by (simp add: filter_id_conv)
    ultimately show ?thesis by simp
  qed
  from 1 2 show ?thesis by blast
qed

theorem shutdown_order_complete_witness:
  "rev (shutdown_order (two_units\<lparr>m_shutdown_order := [web, app],
      jobs := \<lparr>merged = [(web, \<lparr>mt_target = Started, mt_source = Dependency, mt_at = 0\<rparr>),
        (app, \<lparr>mt_target = Started, mt_source = Dependency, mt_at = 0\<rparr>)]\<rparr>\<rparr>)) = [web, app]"
proof -
  let ?m = "two_units\<lparr>m_shutdown_order := [web, app],
      jobs := \<lparr>merged = [(web, \<lparr>mt_target = Started, mt_source = Dependency, mt_at = 0\<rparr>),
        (app, \<lparr>mt_target = Started, mt_source = Dependency, mt_at = 0\<rparr>)]\<rparr>\<rparr>"
  have s: "set (started_units ?m) = {web, app}" by (auto simp: started_units_def queue_targets_def)
  have "conflict_free ?m (started_units ?m)"
    by (simp add: conflict_free_def s conflicts_of_def two_units_def runtime_new_def web_cfg_fields
        no_dependencies_def)
  with shutdown_order_complete [of ?m] have
    o: "set (shutdown_order ?m) = {web, app}" "filter (\<lambda>u. u = web \<or> u = app) (shutdown_order ?m) = [app, web]"
    by (simp_all add: s)
  then have "filter (\<lambda>u. u = web \<or> u = app) (shutdown_order ?m) = shutdown_order ?m"
    by (auto simp: filter_id_conv)
  with o(2) show ?thesis by simp
qed

section \<open>Stopping in two stages\<close>

definition signalled :: "pid \<Rightarrow> int \<Rightarrow> trace \<Rightarrow> bool" where
  "signalled p s tr \<longleftrightarrow> Kill p s \<in> set tr \<or> Kill (- p) s \<in> set tr"

text \<open>Traces only grow.\<close>

lemma grows_signal_pids: "set tr \<subseteq> set (signal_pids K s ps tr)"
  by (induction ps arbitrary: tr) (force simp: kill_def sys_kill_def split: if_splits)+

lemma grows_signal_members: "set tr \<subseteq> set (signal_members K cg u s tr)"
  using grows_signal_pids
  by (force simp: signal_members_def cg_processes_def read_text_def case_prod_beta Let_def split: option.split sum.split)

lemma grows_cgroup_cleanup: "set tr \<subseteq> set (cgroup_cleanup K cg u tr)"
  by (auto simp: cgroup_cleanup_def cg_is_populated_def cg_processes_def cg_remove_def read_text_def case_prod_beta Let_def
      split: option.split sum.split bool.split)

lemma grows_kills:
  "set tr \<subseteq> set (snd (kill_process_group K p s tr))" "set tr \<subseteq> set (snd (signal_process K p s tr))"
  by (auto simp: signal_process_def kill_process_group_def sys_kill_def sys_getpgid_def split: sum.split)

lemmas grows = grows_signal_members grows_cgroup_cleanup grows_kills

lemma signalled_mono: "signalled p s tr \<Longrightarrow> set tr \<subseteq> set tr' \<Longrightarrow> signalled p s tr'"
  by (auto simp: signalled_def)

lemma kill_process_group_sends:
  "1 < p \<Longrightarrow> (\<And>t. \<exists>g. k_getpgid K t p = Inr g) \<Longrightarrow> signalled p s (snd (kill_process_group K p s tr))"
  by (auto simp: kill_process_group_def sys_getpgid_def sys_kill_def signalled_def split: sum.split)
     (metis sum.distinct(1))

lemma signal_process_sends:
  "1 < p \<Longrightarrow> p \<noteq> k_self K \<Longrightarrow> (\<And>t. \<exists>g. k_getpgid K t p = Inr g) \<Longrightarrow>
     signalled p s (snd (signal_process K p s tr))"
  by (simp add: signal_process_def kill_process_group_sends)

lemma sweep_reaches:
  assumes "(k, v) \<in> set xs" "\<And>s. P (snd (f k v s))" "\<And>k v s. P s \<Longrightarrow> P (snd (f k v s))"
  shows "P (snd (sweep f xs s))"
  using assms(1)
proof (induction xs arbitrary: s)
  case (Cons x xs)
  obtain a b where x: "x = (a, b)" by (cases x)
  have "P (snd (sweep f xs s'))" if "P s'" for s'
    by (rule sweep_state_inv) (use that assms(3) in auto)
  then show ?case using Cons assms(2) by (auto simp: x case_prod_beta)
qed simp

lemma kill_step_grows: "set (snd s) \<subseteq> set (snd (snd (kill_step K cg now u rt s)))"
proof -
  define tr1 where "tr1 = (case exec_stop_pid rt of None \<Rightarrow> snd s
      | Some p \<Rightarrow> snd (kill_process_group K p SIGKILL (snd s)))"
  have "set (snd s) \<subseteq> set tr1" using grows_kills(1) by (auto simp: tr1_def split: option.split)
  also have "\<dots> \<subseteq> set (signal_members K cg u SIGKILL tr1)" by (rule grows)
  finally show ?thesis
    using grows_kills(2) [of "signal_members K cg u SIGKILL tr1" K _ SIGKILL]
      grows_cgroup_cleanup [of "signal_members K cg u SIGKILL tr1" K cg u]
    by (auto simp: kill_step_def tr1_def [symmetric] case_prod_beta Let_def split: option.split)
qed

lemma due_kills_sends:
  assumes "unit_at m u = Some rt" "kill_at rt = Some at" "at \<le> k_now K tr" "rt_pid rt = Some p"
    and p: "1 < p" "p \<noteq> k_self K" "\<And>t. \<exists>g. k_getpgid K t p = Inr g"
  shows "signalled p SIGKILL (snd (snd (due_kills K m tr)))"
proof -
  let ?f = "kill_step K (m_cgroup m) (k_now K tr)"
  have "signalled p SIGKILL (snd (snd (sweep ?f (m_units m) ([], Now # tr))))"
  proof (rule sweep_reaches [where P = "\<lambda>s. signalled p SIGKILL (snd s)"])
    show "(u, rt) \<in> set (m_units m)" using assms(1) by (rule map_of_SomeD)
    show "signalled p SIGKILL (snd (snd (?f u rt s)))" for s
      using assms(2-4) signal_process_sends [OF p]
      by (simp add: kill_step_def passed_def case_prod_beta Let_def)
    show "signalled p SIGKILL (snd (snd (?f k v s)))" if "signalled p SIGKILL (snd s)" for k v s
      using that kill_step_grows by (rule signalled_mono)
  qed
  then show ?thesis by (simp add: due_kills_def run_sweep_def read_clock_def case_prod_beta Let_def)
qed

lemma after_stop_signal_stopping:
  assumes "rt_state rt \<noteq> Deactivating" "after_stop_signal K cg u rt r = (stopping, rt', tr')"
  shows "stopping \<longleftrightarrow> rt_state rt' = Deactivating"
    "stopping \<Longrightarrow> rt' = rt\<lparr>rt_state := Deactivating\<rparr> \<and> tr' = snd r"
  using assms by (auto simp: after_stop_signal_def gone_def split: prod.splits option.splits if_splits)

lemma begin_stop_stopping:
  assumes "rt_state rt \<noteq> Deactivating" "begin_stop K cg u p rt tr = (stopping, rt', tr')"
  shows "stopping \<longleftrightarrow> rt_state rt' = Deactivating"
    and "stopping \<Longrightarrow> rt_pid rt' = rt_pid rt \<and> rt_config rt' = rt_config rt"
    and "stopping \<Longrightarrow> argv (exec_stop (rt_config rt)) = [] \<Longrightarrow>
      tr' = snd (signal_process K p SIGTERM (signal_members K cg u SIGTERM tr))"
    and "stopping \<Longrightarrow> argv (exec_stop (rt_config rt)) \<noteq> [] \<Longrightarrow>
      (\<exists>q. run_exec_stop K (rt_config rt) tr = (Inr q, tr'))
      \<or> (\<exists>t. tr' = snd (kill_process_group K p SIGTERM t))"
proof -
  have "(stopping \<longleftrightarrow> rt_state rt' = Deactivating)
    \<and> (stopping \<longrightarrow> rt_pid rt' = rt_pid rt \<and> rt_config rt' = rt_config rt)
    \<and> (stopping \<longrightarrow> argv (exec_stop (rt_config rt)) = [] \<longrightarrow>
      tr' = snd (signal_process K p SIGTERM (signal_members K cg u SIGTERM tr)))
    \<and> (stopping \<longrightarrow> argv (exec_stop (rt_config rt)) \<noteq> [] \<longrightarrow>
      (\<exists>q. run_exec_stop K (rt_config rt) tr = (Inr q, tr'))
      \<or> (\<exists>t. tr' = snd (kill_process_group K p SIGTERM t)))"
  proof (cases "argv (exec_stop (rt_config rt)) = []")
    case True
    then have "after_stop_signal K cg u rt (signal_process K p SIGTERM (signal_members K cg u SIGTERM tr))
        = (stopping, rt', tr')" using assms(2) by (simp add: begin_stop_def)
    from after_stop_signal_stopping [OF assms(1) this] True show ?thesis by auto
  next
    case False
    obtain r tr1 where e: "run_exec_stop K (rt_config rt) tr = (r, tr1)"
      by (cases "run_exec_stop K (rt_config rt) tr")
    show ?thesis
    proof (cases r)
      case (Inl x)
      then have "after_stop_signal K cg u rt (kill_process_group K p SIGTERM (signal_members K cg u SIGTERM tr1))
          = (stopping, rt', tr')" using assms(2) False e by (simp add: begin_stop_def)
      from after_stop_signal_stopping [OF assms(1) this] False show ?thesis by auto
    next
      case (Inr x)
      then show ?thesis using assms(2) False e by (auto simp: begin_stop_def)
    qed
  qed
  then show "stopping \<longleftrightarrow> rt_state rt' = Deactivating"
    "stopping \<Longrightarrow> rt_pid rt' = rt_pid rt \<and> rt_config rt' = rt_config rt"
    "stopping \<Longrightarrow> argv (exec_stop (rt_config rt)) = [] \<Longrightarrow>
      tr' = snd (signal_process K p SIGTERM (signal_members K cg u SIGTERM tr))"
    "stopping \<Longrightarrow> argv (exec_stop (rt_config rt)) \<noteq> [] \<Longrightarrow>
      (\<exists>q. run_exec_stop K (rt_config rt) tr = (Inr q, tr'))
      \<or> (\<exists>t. tr' = snd (kill_process_group K p SIGTERM t))"
    by blast+
qed

lemma arm_kill_grows: "set tr \<subseteq> set (snd (arm_kill K cg u p rt tr))"
proof (cases "timeout_stop_sec (rt_config rt) = 0")
  case True
  define tr1 where "tr1 = signal_members K cg u SIGKILL tr"
  define tr2 where "tr2 = (case exec_stop_pid rt of None \<Rightarrow> tr1
      | Some sp \<Rightarrow> snd (kill_process_group K sp SIGKILL tr1))"
  have "set tr \<subseteq> set tr1" unfolding tr1_def by (rule grows)
  also have "\<dots> \<subseteq> set tr2" using grows_kills(1) by (auto simp: tr2_def split: option.split)
  also have "\<dots> \<subseteq> set (snd (kill_process_group K p SIGKILL tr2))" by (rule grows)
  finally show ?thesis using True by (simp add: arm_kill_def tr1_def [symmetric] tr2_def [symmetric] Let_def)
next
  case False
  then show ?thesis
    by (auto simp: arm_kill_def case_prod_beta Let_def after_secs_def after_duration_def read_clock_def)
qed

text \<open>
  Property C13. A stop that a service ignores ends in \<open>SIGKILL\<close>. When a stop of a live process leaves
  the unit stopping, the unit still knows its process, and either the process has been sent
  \<open>SIGTERM\<close> or the command of \<open>ExecStop=\<close> has been started in its place, the former whenever there is
  no such command; with a timeout of zero \<open>SIGKILL\<close> has been sent too, and otherwise a deadline is
  armed and the first look at the due kills after it sends \<open>SIGKILL\<close>.
\<close>

theorem stop_escalates:
  assumes "unit_at m u = Some rt" "rt_pid rt = Some p" "rt_state rt \<noteq> Deactivating"
    and p: "1 < p" "p \<noteq> k_self K" "\<And>t. \<exists>g. k_getpgid K t p = Inr g"
    and stop: "stop_unit K u m tr = (m', tr')" "unit_at m' u = Some rt'" "rt_state rt' = Deactivating"
  shows "rt_pid rt' = Some p
    \<and> (signalled p SIGTERM tr'
       \<or> argv (exec_stop (rt_config rt)) \<noteq> []
         \<and> (\<exists>t q t'. set tr \<subseteq> set t \<and> run_exec_stop K (rt_config rt) t = (Inr q, t') \<and> set t' \<subseteq> set tr'))
    \<and> (if timeout_stop_sec (rt_config rt) = 0 then signalled p SIGKILL tr'
       else \<exists>at. kill_at rt' = Some at \<and>
         (\<forall>m2 tr2. unit_at m2 u = Some rt' \<and> at \<le> k_now K tr2 \<longrightarrow>
            signalled p SIGKILL (snd (snd (due_kills K m2 tr2)))))"
proof -
  define rt1 where "rt1 = rt\<lparr>restart_at := None, start_deadline := None, kill_at := None, health_at := None,
      probe_deadline := None, restart_after_stop := False, probe_pid := None\<rparr>"
  have f1: "rt_pid rt1 = Some p" "rt_state rt1 \<noteq> Deactivating" "rt_config rt1 = rt_config rt"
    using assms(2,3) by (simp_all add: rt1_def)
  define tr1 where "tr1 = (case probe_pid rt of None \<Rightarrow> tr
      | Some q \<Rightarrow> snd (kill_process_group K q SIGKILL tr))"
  obtain stopping rt2 tr2 where b: "begin_stop K (m_cgroup m) u p rt1 tr1 = (stopping, rt2, tr2)"
    by (cases "begin_stop K (m_cgroup m) u p rt1 tr1")
  note b' = begin_stop_stopping [OF f1(2) b]
  have r: "stop_rt K (m_cgroup m) u rt tr =
      (if stopping then arm_kill K (m_cgroup m) u p rt2 tr2 else (rt2, tr2))"
    using assms(3) f1(1) b by (simp add: stop_rt_def rt1_def [symmetric] tr1_def [symmetric])
  have end': "stop_rt K (m_cgroup m) u rt tr = (rt', tr')"
    using stop(1,2) assms(1) by (auto simp: stop_unit_def with_unit_rt_def case_prod_beta Let_def)
  have s: "stopping" using r end' b'(1) stop(3) by (auto split: if_splits)
  have a: "arm_kill K (m_cgroup m) u p rt2 tr2 = (rt', tr')" using r end' s by simp
  have f2: "rt_pid rt2 = Some p" "rt_config rt2 = rt_config rt" using b'(2) s f1 by simp_all
  have grow: "set tr2 \<subseteq> set tr'" using arm_kill_grows [of tr2 K "m_cgroup m" u p rt2] a by simp
  have tr1: "set tr \<subseteq> set tr1" using grows_kills(1) by (auto simp: tr1_def split: option.split)
  have sigterm: "signalled p SIGTERM tr'
      \<or> argv (exec_stop (rt_config rt)) \<noteq> []
        \<and> (\<exists>t q t'. set tr \<subseteq> set t \<and> run_exec_stop K (rt_config rt) t = (Inr q, t') \<and> set t' \<subseteq> set tr')"
  proof (cases "argv (exec_stop (rt_config rt)) = []")
    case True
    then show ?thesis using signalled_mono [OF _ grow] b'(3) s f1(3) signal_process_sends [OF p] by simp
  next
    case False
    with b'(4) [OF s] f1(3) consider (cmd) q where "run_exec_stop K (rt_config rt) tr1 = (Inr q, tr2)"
      | (signal) t where "tr2 = snd (kill_process_group K p SIGTERM t)" by auto
    then show ?thesis
    proof cases
      case cmd
      then show ?thesis using False tr1 grow by blast
    next
      case signal
      then show ?thesis using signalled_mono [OF _ grow] kill_process_group_sends [OF p(1,3)] by simp
    qed
  qed
  have pid': "rt_pid rt' = Some p"
    using a f2(1) by (auto simp: arm_kill_def case_prod_beta Let_def split: if_splits)
  show ?thesis
  proof (cases "timeout_stop_sec (rt_config rt) = 0")
    case True
    have "signalled p SIGKILL tr'"
      using a True kill_process_group_sends [OF p(1,3)] f2(2)
      by (auto simp: arm_kill_def case_prod_beta Let_def split: if_splits)
    then show ?thesis using True sigterm pid' by simp
  next
    case False
    then obtain at where at: "kill_at rt' = Some at"
      using a f2(2) by (auto simp: arm_kill_def case_prod_beta Let_def split: if_splits)
    have "signalled p SIGKILL (snd (snd (due_kills K m2 tr3)))"
      if "unit_at m2 u = Some rt'" "at \<le> k_now K tr3" for m2 tr3
      using due_kills_sends [OF that(1) at that(2) pid' p] .
    then show ?thesis using False sigterm pid' at by simp
  qed
qed

theorem stop_escalates_witness:
  "signalled 101 SIGTERM (snd (stop_unit calm_kernel web (fst web_started) (snd web_started)))"
proof -
  obtain rt where rt: "unit_at (fst web_started) web = Some rt" "rt_pid rt = Some 101"
    "rt_state rt = Active" "rt_config rt = web_cfg" "probe_pid rt = None"
    using web_active by blast
  let ?r = "stop_unit calm_kernel web (fst web_started) (snd web_started)"
  obtain rt' where rt': "unit_at (fst ?r) web = Some rt'" "rt_state rt' = Deactivating"
    by (auto simp: stop_unit_def with_unit_rt_def rt stop_rt_def begin_stop_def web_cfg_fields
        after_stop_signal_def signal_process_def kill_process_group_def sys_getpgid_def sys_kill_def
        arm_kill_def split_beta Let_def)
  have eq: "?r = (fst ?r, snd ?r)" by simp
  have "rt_state rt \<noteq> Deactivating" using rt(3) by simp
  from stop_escalates [OF rt(1,2) this _ _ _ eq rt'] rt(4) show ?thesis by (simp add: web_cfg_fields)
qed

section \<open>Restarting a unit that waits for its back-off\<close>

lemma restart_wait_stop:
  assumes "unit_at m u = Some rt" "rt_pid rt = None" "rt_state rt = RestartWait" "probe_pid rt = None"
    and "fst (cgroup_members K (m_cgroup m) u tr) = Some (p # ps)" "timeout_stop_sec (rt_config rt) \<noteq> 0"
  shows "\<exists>m1 tr1 rt1 at. restart_unit K u m tr = (PlanStopping, m1, tr1) \<and> unit_at m1 u = Some rt1
    \<and> m_cgroup m1 = m_cgroup m \<and> rt_pid rt1 = None \<and> rt_state rt1 = Deactivating
    \<and> restart_after_stop rt1 \<and> restart_at rt1 = None \<and> kill_at rt1 = Some at"
proof -
  define tr2 where "tr2 = signal_members K (m_cgroup m) u SIGTERM (snd (cgroup_members K (m_cgroup m) u tr))"
  obtain at tr3 where at: "after_secs K (timeout_stop_sec (rt_config rt)) tr2 = (at, tr3)"
    by (cases "after_secs K (timeout_stop_sec (rt_config rt)) tr2")
  show ?thesis
    using assms at
    by (simp add: restart_unit_def stop_unit_def with_unit_rt_def stop_rt_def stop_leftovers_def
        case_prod_beta Let_def tr2_def [symmetric] is_deactivating_def)
qed

lemma due_kills_drops:
  assumes "unit_at m u = Some rt" "rt_pid rt = None" "rt_state rt = Deactivating" "restart_at rt = None"
    "kill_at rt = Some at" "at \<le> k_now K tr" "ordered_keys (m_units m)"
  shows "\<exists>rt'. unit_at (fst (snd (due_kills K m tr))) u = Some rt' \<and> rt_state rt' = Inactive
    \<and> rt_pid rt' = None \<and> restart_at rt' = None"
proof -
  let ?f = "kill_step K (m_cgroup m) (k_now K tr)"
  have d: "distinct (map fst (m_units m))" using assms(7) by (rule ordered_distinct)
  have "unit_at (fst (snd (due_kills K m tr))) u = map_of (fst (sweep ?f (m_units m) ([], Now # tr))) u"
    by (simp add: due_kills_def run_sweep_def read_clock_def case_prod_beta Let_def)
  also have "\<dots> = Some (fst (?f u rt (sweep_before ?f (m_units m) ([], Now # tr) u)))"
    using map_of_sweep [of ?f "m_units m" "([], Now # tr)" u] assms(1) d by simp
  finally show ?thesis
    using assms by (simp add: kill_step_def passed_def case_prod_beta Let_def)
qed

text \<open>
  A restart of a unit that waits for its back-off while processes of an earlier instance are left in
  its control group is accepted as \<open>Stopping\<close>, and then forgotten: the kill that ends the stop
  leaves the unit inactive with nothing scheduled.
\<close>

theorem restart_forgotten_after_leftovers:
  assumes "manager_run K (m, tr)" "unit_at m u = Some rt" "rt_pid rt = None" "rt_state rt = RestartWait"
    "probe_pid rt = None" "fst (cgroup_members K (m_cgroup m) u tr) = Some (p # ps)"
    "timeout_stop_sec (rt_config rt) \<noteq> 0"
  shows "\<exists>m1 tr1 at. restart_unit K u m tr = (PlanStopping, m1, tr1) \<and>
    (\<forall>tr2. at \<le> k_now K tr2 \<longrightarrow>
       (\<exists>rt'. unit_at (fst (snd (due_kills K m1 tr2))) u = Some rt' \<and> rt_state rt' = Inactive
          \<and> rt_pid rt' = None \<and> restart_at rt' = None))"
proof -
  obtain m1 tr1 rt1 at where r: "restart_unit K u m tr = (PlanStopping, m1, tr1)" "unit_at m1 u = Some rt1"
    "rt_pid rt1 = None" "rt_state rt1 = Deactivating" "restart_at rt1 = None" "kill_at rt1 = Some at"
    using restart_wait_stop [OF assms(2-7)] by blast
  have "wf_manager m1 \<and> harmless tr1"
    using restart_unit_inv [of True m tr K u] manager_run_inv [OF assms(1)] r(1) by simp
  then have "ordered_keys (m_units m1)" by (simp add: units_ok_def)
  with due_kills_drops [OF r(2-6)] r(1) show ?thesis by blast
qed

section \<open>The cached dependency graph\<close>

text \<open>The order a graph built from the current definitions gives.\<close>

definition fresh_start_order :: "UnitManager \<Rightarrow> UnitName \<Rightarrow> string + UnitName list" where
  "fresh_start_order m u = fst (start_order (m\<lparr>graph_cache := None\<rparr>) u)"

definition graph_coherent :: "UnitManager \<Rightarrow> bool" where
  "graph_coherent m \<longleftrightarrow> (case graph_cache m of None \<Rightarrow> True
     | Some (r, g) \<Rightarrow> r = graph_revision m \<longrightarrow> build (live_configs m) = Inr g)"

lemma start_order_fresh: "graph_coherent m \<Longrightarrow> fst (start_order m u) = fresh_start_order m u"
  by (auto simp: fresh_start_order_def start_order_def cached_graph_def graph_coherent_def Let_def live_configs_def
      split: option.splits sum.splits prod.splits if_splits)

text \<open>
  A definition that returns while its retired unit still runs is registered again without a new
  revision of the graph: the order of a start keeps leaving it out.
\<close>

definition app_wants_web :: UnitConfig where
  "app_wants_web = (new_config app)\<lparr>deps := no_dependencies\<lparr>wants := [web]\<rparr>\<rparr>"

definition stale_manager :: UnitManager where
  "stale_manager = (fst (manager_new calm_kernel []))\<lparr>m_units :=
     [(app, runtime_new app_wants_web),
      (web, (runtime_new (new_config web))\<lparr>rt_pid := Some 101, rt_state := Active, retired := True\<rparr>)]\<rparr>"

definition order_in :: "string + DependencyGraph \<Rightarrow> UnitName \<Rightarrow> string + UnitName list" where
  "order_in r u = rbind r (\<lambda>g. case levels g of
      Inl e \<Rightarrow> Inl (dependency_error_text e)
    | Inr ls \<Rightarrow> Inr (filter (\<lambda>c. c \<noteq> u \<and> c \<in> set (closure_of g u)) (concat ls)))"

lemma built_orders:
  "\<exists>g. build [app_wants_web] = Inr g \<and> order_in (Inr g) app = Inr []"
  "\<exists>g. build [app_wants_web, new_config web] = Inr g \<and> order_in (Inr g) app = Inr [web]"
proof -
  have "case build [app_wants_web] of Inr g \<Rightarrow> order_in (Inr g) app = Inr [] | Inl _ \<Rightarrow> False"
    by code_simp
  then show "\<exists>g. build [app_wants_web] = Inr g \<and> order_in (Inr g) app = Inr []"
    by (auto split: sum.splits)
  have "case build [app_wants_web, new_config web] of Inr g \<Rightarrow> order_in (Inr g) app = Inr [web] | Inl _ \<Rightarrow> False"
    by code_simp
  then show "\<exists>g. build [app_wants_web, new_config web] = Inr g \<and> order_in (Inr g) app = Inr [web]"
    by (auto split: sum.splits)
qed

lemma start_order_in:
  "graph_cache m = None \<Longrightarrow> build (live_configs m) = Inr g \<Longrightarrow>
     start_order m u = (order_in (Inr g) u, m\<lparr>graph_cache := Some (graph_revision m, g)\<rparr>)"
  "graph_cache m = Some (graph_revision m, g) \<Longrightarrow> start_order m u = (order_in (Inr g) u, m)"
  by (auto simp: start_order_def cached_graph_def order_in_def Let_def split: sum.split)

theorem returned_unit_is_left_out:
  "\<exists>m. m = fst (add_with_in_flight (new_config web) False (snd (start_order stale_manager app)))
     \<and> exists_unit m web \<and> fst (start_order m app) = Inr [] \<and> fresh_start_order m app = Inr [web]"
proof -
  obtain g0 g1 where g: "build [app_wants_web] = Inr g0" "order_in (Inr g0) app = Inr []"
    "build [app_wants_web, new_config web] = Inr g1" "order_in (Inr g1) app = Inr [web]"
    using built_orders by blast
  define m1 where "m1 = stale_manager\<lparr>graph_cache := Some (graph_revision stale_manager, g0)\<rparr>"
  have c: "graph_cache stale_manager = None" "live_configs stale_manager = [app_wants_web]"
    by (simp_all add: stale_manager_def live_configs_def manager_new_def case_prod_beta Let_def runtime_new_def)
  have so: "start_order stale_manager app = (Inr [], m1)"
    using start_order_in(1) [OF c(1), of g0 app] g c(2) by (simp add: m1_def)
  define m where "m = fst (add_with_in_flight (new_config web) False m1)"
  have a: "graph_cache m = Some (graph_revision m, g0)" "exists_unit m web"
    "live_configs m = [app_wants_web, new_config web]"
    by (simp_all add: m_def m1_def stale_manager_def add_with_in_flight_def manager_new_def case_prod_beta
        Let_def runtime_new_def new_config_def upd_unit_def modify_def exists_unit_def live_configs_def)
  have "fst (start_order m app) = Inr []" using start_order_in(2) [OF a(1), of app] g by simp
  moreover have "fresh_start_order m app = Inr [web]"
    using start_order_in(1) [of "m\<lparr>graph_cache := None\<rparr>" g1 app] a(3) g
    by (simp add: fresh_start_order_def live_configs_def)
  ultimately show ?thesis using a(2) by (auto simp: so m_def)
qed

text \<open>\<open>a\<close> comes before \<open>b\<close> in a list.\<close>

definition comes_before :: "'a list \<Rightarrow> 'a \<Rightarrow> 'a \<Rightarrow> bool" where
  "comes_before xs a b \<longleftrightarrow> (\<exists>ps qs rs. xs = ps @ a # qs @ b # rs)"

lemma comes_before_filter: "comes_before xs a b \<Longrightarrow> P a \<Longrightarrow> P b \<Longrightarrow> comes_before (filter P xs) a b"
  unfolding comes_before_def by fastforce

lemma comes_before_concat:
  assumes "i < j" "on_level ls a i" "on_level ls b j"
  shows "comes_before (concat ls) a b"
proof -
  have j: "j < length ls" "b \<in> set (ls ! j)" and i: "a \<in> set (ls ! i)" using assms by (auto simp: on_level_def)
  have "concat ls = concat (take j ls) @ ls ! j @ concat (drop (Suc j) ls)"
    using id_take_nth_drop [OF j(1)] by (metis concat.simps(2) concat_append)
  moreover have "a \<in> set (concat (take j ls))"
  proof -
    have "ls ! i \<in> set (take j ls)" using assms(1) j(1) by (auto simp: in_set_conv_nth intro!: exI [of _ i])
    then show ?thesis using i by auto
  qed
  ultimately show ?thesis
    unfolding comes_before_def using split_list [of a "concat (take j ls)"] split_list [OF j(2)]
    by (metis append.assoc append_Cons)
qed

text \<open>
  Property C18. The order of a control start, computed over a graph that matches the definitions,
  lists exactly the units the started one pulls in, directly or not, each once, and puts every
  listed unit after all listed units it has to wait for.
\<close>

theorem start_order_sound:
  assumes "graph_coherent m" "fst (start_order m u) = Inr order" "u \<in> names (live_configs m)"
  shows "distinct order
    \<and> set order = {v. (\<lambda>a b. b \<in> names (live_configs m)
          \<and> (\<exists>c \<in> set (live_configs m). pulls_in c a b))\<^sup>*\<^sup>* u v \<and> v \<noteq> u}
    \<and> (\<forall>a b. a \<in> set order \<and> b \<in> set order \<and> must_wait (live_configs m) a b \<longrightarrow> comes_before order b a)"
proof -
  let ?cs = "live_configs m"
  have "fresh_start_order m u = Inr order" using start_order_fresh [OF assms(1)] assms(2) by simp
  then obtain g ls where g: "build ?cs = Inr g" "levels g = Inr ls"
    "order = filter (\<lambda>c. c \<noteq> u \<and> c \<in> set (closure_of g u)) (concat ls)"
    by (auto simp: fresh_start_order_def start_order_def cached_graph_def live_configs_def Let_def
        split: sum.splits)
  note E = build_graph_facts [OF g(1) assms(3)]
  note L = levels_partition [OF conjunct1 [OF E] g(2)]
  let ?P = "\<lambda>c. c \<noteq> u \<and> c \<in> set (closure_of g u)"
  have sub: "set (closure_of g u) \<subseteq> set (units g)" by (auto simp: closure_of_def split: option.splits)
  have "comes_before order b a" if ab: "a \<in> set order" "b \<in> set order" "must_wait ?cs a b" for a b
  proof -
    obtain i j where "i < j" "on_level ls b i" "on_level ls a j" using levels_wait [OF g(1,2) ab(3)] by blast
    then have "comes_before (concat ls) b a" by (rule comes_before_concat)
    then show ?thesis unfolding g(3) by (rule comes_before_filter) (use ab g(3) in auto)
  qed
  moreover have "distinct order" using L g(3) by simp
  moreover have "set order = {v. v \<in> set (closure_of g u) \<and> v \<noteq> u}" using L g(3) sub by auto
  ultimately show ?thesis using E by auto
qed

definition both_live :: UnitManager where
  "both_live = stale_manager\<lparr>m_units :=
     [(app, runtime_new app_wants_web), (web, runtime_new (new_config web))]\<rparr>"

theorem start_order_sound_witness:
  "fst (start_order both_live app) = Inr [web] \<and>
   {v. (\<lambda>a b. b \<in> names (live_configs both_live)
      \<and> (\<exists>c \<in> set (live_configs both_live). pulls_in c a b))\<^sup>*\<^sup>* app v \<and> v \<noteq> app} = {web}"
proof -
  obtain g where g: "build [app_wants_web, new_config web] = Inr g" "order_in (Inr g) app = Inr [web]"
    using built_orders by blast
  have c: "graph_cache both_live = None" "live_configs both_live = [app_wants_web, new_config web]"
    by (simp_all add: both_live_def stale_manager_def live_configs_def manager_new_def case_prod_beta Let_def
        runtime_new_def)
  have o: "fst (start_order both_live app) = Inr [web]"
    using start_order_in(1) [OF c(1), of g app] g c(2) by simp
  have k: "graph_coherent both_live" using c(1) by (simp add: graph_coherent_def)
  have "app \<in> names (live_configs both_live)"
    by (simp add: c names_def app_wants_web_def new_config_def)
  from start_order_sound [OF k o this] o show ?thesis by auto
qed

section \<open>Instances of a returned template\<close>

text \<open>
  Making an instance replaces whatever was registered under its name: when the unit is a retired
  instance whose process still runs, the process is forgotten along with its kill deadline.
\<close>

theorem instantiate_forgets_process:
  assumes "instantiate u m = Inr m'"
  shows "\<exists>rt'. unit_at m' u = Some rt' \<and> rt_pid rt' = None \<and> kill_at rt' = None \<and> rt_state rt' = Inactive"
  using assms
  by (auto simp: instantiate_def invalidate_graph_def runtime_new_def split: option.splits sum.splits)

end
