(* ===== verification/Notify_Hub.thy ===== *)
theory Notify_Hub
  imports Manager_Behaviour
begin

text \<open>
  The notification sockets rinit holds for its units (\<open>rinit/src/notify.rs\<close>), and the pipe that
  captures a service's output (\<open>ServiceLogs::capture\<close> of \<open>rinit/src/logs.rs\<close>). The hub keeps one
  socket path per armed unit; its reader tasks and channels belong to the reactor and are left out.
  Every file-system call goes through the kernel parameter and into the trace.
\<close>

section \<open>File-system wrappers\<close>

text \<open>\<open>None\<close> is \<open>Ok(())\<close>.\<close>

definition sys_chmod :: "Kernel \<Rightarrow> string \<Rightarrow> nat \<Rightarrow> trace \<Rightarrow> RuntimeError option \<times> trace" where
  "sys_chmod K path mode tr =
     (if CHR 0x00 \<in> set path then (Some (RtSyscall ''chmod path'' EINVAL), tr)
      else (map_option (RtSyscall ''chmod'') (k_chmod K tr path mode), SetMode path mode # tr))"

definition sys_chown :: "Kernel \<Rightarrow> string \<Rightarrow> nat \<Rightarrow> nat \<Rightarrow> trace \<Rightarrow> RuntimeError option \<times> trace" where
  "sys_chown K path uid gid tr =
     (if CHR 0x00 \<in> set path then (Some (RtSyscall ''chown path'' EINVAL), tr)
      else (map_option (RtSyscall ''chown'') (k_chown K tr path uid gid), Chown path uid gid # tr))"

definition sys_umask :: "Kernel \<Rightarrow> nat \<Rightarrow> trace \<Rightarrow> nat \<times> trace" where
  "sys_umask K n tr = (k_umask K tr n, Umask n # tr)"

definition set_nonblocking :: "Kernel \<Rightarrow> fd \<Rightarrow> trace \<Rightarrow> RuntimeError option \<times> trace" where
  "set_nonblocking K f tr =
     (map_option (\<lambda>(op, e). RtSyscall op e) (k_set_nonblocking K tr f), SetNonblocking f # tr)"

text \<open>The write end of a fresh pipe whose read end a task drains.\<close>

definition capture :: "Kernel \<Rightarrow> trace \<Rightarrow> (RuntimeError + fd) \<times> trace" where
  "capture K tr = (case k_pipe K tr of
      Inl e \<Rightarrow> (Inl (RtSyscall ''pipe2'' e), Pipe # tr)
    | Inr (reader, writer) \<Rightarrow>
        (case set_nonblocking K reader (Pipe # tr) of
           (Some e, tr1) \<Rightarrow> (Inl e, tr1)
         | (None, tr1) \<Rightarrow> (Inr writer, tr1)))"

section \<open>The hub\<close>

record NotifyHub =
  nh_dir :: string
  nh_armed :: "(UnitName \<times> string) list"

definition NOTIFY_DIR :: string where "NOTIFY_DIR = ''/run/rinit/notify''"
definition DIR_MODE :: nat where "DIR_MODE = 493"
definition SOCKET_MODE :: nat where "SOCKET_MODE = 432"
definition BIND_UMASK :: nat where "BIND_UMASK = 63"

definition hub_new_at :: "string \<Rightarrow> NotifyHub" where
  "hub_new_at d = \<lparr>nh_dir = d, nh_armed = []\<rparr>"

text \<open>\<open>RINIT_NOTIFY_DIR\<close> overrides the directory when it is set, UTF-8 and not empty.\<close>

definition hub_new :: "string option \<Rightarrow> NotifyHub" where
  "hub_new env = hub_new_at (case env of Some d \<Rightarrow> if utf8_valid d \<and> d \<noteq> [] then d else NOTIFY_DIR | None \<Rightarrow> NOTIFY_DIR)"

definition socket_path :: "NotifyHub \<Rightarrow> UnitName \<Rightarrow> string" where
  "socket_path h u = path_join (nh_dir h) (canonical u @ ''.sock'')"

definition ensure_dir :: "Kernel \<Rightarrow> string \<Rightarrow> trace \<Rightarrow> RuntimeError option \<times> trace" where
  "ensure_dir K d tr = (case k_create_dir_all K tr d of
      Some e \<Rightarrow> (Some (RtIo ''create notify dir'' (OsError e)), CreateDirAll d # tr)
    | None \<Rightarrow>
        if \<not> utf8_valid d
        then (Some (RtIo ''notify dir'' (IoCustom ''InvalidInput'' ''notify dir is not valid UTF-8'')),
              CreateDirAll d # tr)
        else sys_chmod K d DIR_MODE (CreateDirAll d # tr))"

definition remove_if_present :: "Kernel \<Rightarrow> string \<Rightarrow> string \<Rightarrow> trace \<Rightarrow> RuntimeError option \<times> trace" where
  "remove_if_present K path what tr =
     (case k_remove_file K tr path of
        None \<Rightarrow> None
      | Some e \<Rightarrow> if e = ENOENT then None else Some (RtIo what (OsError e)),
      RemoveFile path # tr)"

text \<open>The socket node exists with owner-only permissions until its final mode is set.\<close>

definition bind_private :: "Kernel \<Rightarrow> string \<Rightarrow> trace \<Rightarrow> RuntimeError option \<times> trace" where
  "bind_private K path tr =
     (let (previous, tr1) = sys_umask K BIND_UMASK tr;
          bound = k_bind_datagram K tr1 path;
          (_, tr2) = sys_umask K previous (BindDatagram path # tr1)
      in (map_option (\<lambda>e. RtIo ''bind notify socket'' (OsError e)) bound, tr2))"

text \<open>The steps of \<open>arm\<close> after the binding: whose socket it is and who may write to it.\<close>

definition own_socket :: "Kernel \<Rightarrow> UnitConfig \<Rightarrow> string \<Rightarrow> trace \<Rightarrow> RuntimeError option \<times> trace" where
  "own_socket K cfg path tr = (case resolve_sandbox K cfg tr of
      (Inl e, tr1) \<Rightarrow> (Some e, tr1)
    | (Inr sandbox, tr1) \<Rightarrow>
        if \<not> utf8_valid path
        then (Some (RtIo ''notify socket path''
                (IoCustom ''InvalidInput'' ''socket path is not valid UTF-8'')), tr1)
        else
          let (r, tr2) = (if k_euid K = 0 then sys_chown K path (sb_uid sandbox) (sb_gid sandbox) tr1
                          else (None, tr1))
          in (case r of Some e \<Rightarrow> (Some e, tr2) | None \<Rightarrow> sys_chmod K path SOCKET_MODE tr2))"

definition arm :: "Kernel \<Rightarrow> UnitConfig \<Rightarrow> NotifyHub \<Rightarrow> trace \<Rightarrow> RuntimeError option \<times> NotifyHub \<times> trace" where
  "arm K cfg h tr =
     (let path = socket_path h (cfg_name cfg) in
      case ensure_dir K (nh_dir h) tr of
        (Some e, tr1) \<Rightarrow> (Some e, h, tr1)
      | (None, tr1) \<Rightarrow>
      case remove_if_present K path ''notify socket'' tr1 of
        (Some e, tr2) \<Rightarrow> (Some e, h, tr2)
      | (None, tr2) \<Rightarrow>
      case bind_private K path tr2 of
        (Some e, tr3) \<Rightarrow> (Some e, h, tr3)
      | (None, tr3) \<Rightarrow>
      case own_socket K cfg path tr3 of
        (Some e, tr4) \<Rightarrow> (Some e, h, tr4)
      | (None, tr4) \<Rightarrow> (None, h\<lparr>nh_armed := put (cfg_name cfg) path (nh_armed h)\<rparr>, tr4))"

definition env_for :: "NotifyHub \<Rightarrow> UnitName \<Rightarrow> string option" where
  "env_for h u = map_option (\<lambda>p. ''NOTIFY_SOCKET='' @ p) (map_of (nh_armed h) u)"

definition disarm :: "Kernel \<Rightarrow> UnitName \<Rightarrow> NotifyHub \<Rightarrow> trace \<Rightarrow> NotifyHub \<times> trace" where
  "disarm K u h tr = (case map_of (nh_armed h) u of
      None \<Rightarrow> (h, tr)
    | Some p \<Rightarrow> (h\<lparr>nh_armed := remove_key u (nh_armed h)\<rparr>, RemoveFile p # tr))"

fun disarm_each :: "Kernel \<Rightarrow> UnitName list \<Rightarrow> NotifyHub \<Rightarrow> trace \<Rightarrow> NotifyHub \<times> trace" where
  "disarm_each K [] h tr = (h, tr)"
| "disarm_each K (u # us) h tr = (let (h1, tr1) = disarm K u h tr in disarm_each K us h1 tr1)"

definition disarm_all :: "Kernel \<Rightarrow> NotifyHub \<Rightarrow> trace \<Rightarrow> NotifyHub \<times> trace" where
  "disarm_all K h tr = disarm_each K (map fst (nh_armed h)) h tr"

section \<open>What the calls leave behind\<close>

lemma harmless_hub_calls [simp]:
  "harmless (snd (sys_chmod K p n tr)) = harmless tr"
  "harmless (snd (sys_chown K p a b tr)) = harmless tr"
  "harmless (snd (sys_umask K n tr)) = harmless tr"
  "harmless (snd (set_nonblocking K f tr)) = harmless tr"
  by (simp_all add: sys_chmod_def sys_chown_def sys_umask_def set_nonblocking_def)

lemma harmless_capture [simp]: "harmless (snd (capture K tr)) = harmless tr"
  by (auto simp: capture_def set_nonblocking_def split: sum.split option.split)

lemma harmless_arm_steps [simp]:
  "harmless (snd (ensure_dir K d tr)) = harmless tr"
  "harmless (snd (remove_if_present K p w tr)) = harmless tr"
  "harmless (snd (bind_private K p tr)) = harmless tr"
  by (simp_all add: ensure_dir_def remove_if_present_def bind_private_def sys_umask_def split: option.split)

lemma harmless_own_socket [simp]: "harmless (snd (own_socket K cfg p tr)) = harmless tr"
  by (simp add: own_socket_def case_prod_beta Let_def split: sum.split option.split)

lemma harmless_arm [simp]: "harmless (snd (snd (arm K cfg h tr))) = harmless tr"
  by (simp add: arm_def case_prod_beta Let_def split: option.split)

lemma harmless_disarm [simp]: "harmless (snd (disarm K u h tr)) = harmless tr"
  by (simp add: disarm_def split: option.split)

lemma harmless_disarm_each [simp]: "harmless (snd (disarm_each K us h tr)) = harmless tr"
  by (induction us arbitrary: h tr) (simp_all add: case_prod_beta)

lemma harmless_disarm_all [simp]: "harmless (snd (disarm_all K h tr)) = harmless tr"
  by (simp add: disarm_all_def)

end
