(* ===== verification/Start_Flow.thy ===== *)
theory Start_Flow
  imports Notify_Hub
begin

text \<open>
  One start in flight (\<open>StartFlow\<close> of \<open>rinit/src/boot.rs\<close>): wait for the sockets a unit needs, stop
  what conflicts with it, run \<open>ExecStartPre=\<close>, spawn \<open>ExecStart=\<close>, wait until the unit is up, run
  \<open>ExecStartPost=\<close>. Each call of \<open>flow_advance\<close> does the work that is ready and returns. A message of
  the code is a constructor of \<open>StartError\<close>.
\<close>

section \<open>State\<close>

record AuxRun =
  ar_pid :: pid
  ar_deadline :: instant

record ConflictWait =
  cw_unit :: UnitName
  cw_deadline :: instant
  cw_escalated :: bool
  cw_done :: bool

datatype StartStage =
  Sockets "string list"
| Conflicts "ConflictWait list option"
| Pre "ExecCommand list" nat "AuxRun option"
| SpawnStage
| SpawnWait pid
| WaitReady
| Post "ExecCommand list" nat "AuxRun option"
| StageDone

record StartFlow =
  sf_unit :: UnitName
  sf_stage :: StartStage
  sf_deadline :: instant
  sf_spawned :: bool

datatype StartError =
  NotRegistered UnitName | RemovedByReload UnitName | CancelledByStop UnitName | FailedBefore UnitName
| StartTimedOut UnitName | SocketMissing UnitName string | PreFailed UnitName "string list" ExitOutcome
| PreTimedOut UnitName "string list" | CannotStart UnitName "string list" RuntimeError
| NoSpawnResult UnitName | NoLongerRegistered UnitName | FailedToStart UnitName
| ReadinessTimedOut UnitName | AskedToStop UnitName | UnexpectedEffect UnitName

text \<open>What a flow may change: the manager, the hub, the exits kept for auxiliary commands, the trace.\<close>

record World =
  w_man :: UnitManager
  w_hub :: NotifyHub
  w_aux :: "(pid \<times> ExitOutcome) list"
  w_tr :: trace

definition on_man :: "(UnitManager \<Rightarrow> trace \<Rightarrow> 'a \<times> UnitManager \<times> trace) \<Rightarrow> World \<Rightarrow> 'a \<times> World" where
  "on_man f w = (let (r, m, tr) = f (w_man w) (w_tr w) in (r, w\<lparr>w_man := m, w_tr := tr\<rparr>))"

definition on_tr :: "(trace \<Rightarrow> 'a \<times> trace) \<Rightarrow> World \<Rightarrow> 'a \<times> World" where
  "on_tr f w = (let (r, tr) = f (w_tr w) in (r, w\<lparr>w_tr := tr\<rparr>))"

abbreviation w_unit :: "World \<Rightarrow> UnitName \<Rightarrow> UnitRuntime option" where
  "w_unit w u \<equiv> unit_at (w_man w) u"

section \<open>Auxiliary commands\<close>

definition start_deadline_of :: "Kernel \<Rightarrow> nat \<Rightarrow> trace \<Rightarrow> instant \<times> trace" where
  "start_deadline_of K secs tr = (if secs = 0 then after_duration K MAX_TIMEOUT tr else after_secs K secs tr)"

definition command_text :: "ExecCommand list \<Rightarrow> nat \<Rightarrow> string list" where
  "command_text commands i = (if i < length commands then argv (commands ! i) else [])"

record AuxCommandPlan =
  ap_argv :: "string list"
  ap_env :: "string list"
  ap_cwd :: string
  ap_sandbox :: Sandbox
  ap_timeout_sec :: nat

definition plan_aux_command :: "Kernel \<Rightarrow> UnitManager \<Rightarrow> UnitName \<Rightarrow> ExecCommand \<Rightarrow> trace
    \<Rightarrow> (StartError + AuxCommandPlan) \<times> trace" where
  "plan_aux_command K m u cmd tr = (case unit_at m u of
      None \<Rightarrow> (Inl (NotRegistered u), tr)
    | Some rt \<Rightarrow>
        (case resolve_sandbox K (rt_config rt) tr of
           (Inl e, tr1) \<Rightarrow> (Inl (CannotStart u (argv cmd) e), tr1)
         | (Inr sandbox, tr1) \<Rightarrow>
             (let (env, tr2) = build_service_env K (rt_config rt) [] tr1
              in (Inr \<lparr>ap_argv = argv cmd, ap_env = env, ap_cwd = working_directory (rt_config rt),
                       ap_sandbox = sandbox, ap_timeout_sec = timeout_start_sec (rt_config rt)\<rparr>, tr2))))"

definition spawn_aux_command :: "Kernel \<Rightarrow> UnitName \<Rightarrow> AuxCommandPlan \<Rightarrow> trace \<Rightarrow> (StartError + pid) \<times> trace" where
  "spawn_aux_command K u plan tr =
     apfst (map_sum (CannotStart u (ap_argv plan)) id)
       (spawn_service_in_group_detached K (ap_argv plan) (ap_env plan) (Some (ap_cwd plan)) None
          (ap_sandbox plan) no_placement tr)"

text \<open>Plan and spawn a command, with the deadline that spends from the budget of the flow.\<close>

definition launch_aux :: "Kernel \<Rightarrow> UnitManager \<Rightarrow> UnitName \<Rightarrow> instant \<Rightarrow> ExecCommand \<Rightarrow> trace
    \<Rightarrow> (StartError + AuxRun) \<times> trace" where
  "launch_aux K m u budget cmd tr = (case plan_aux_command K m u cmd tr of
      (Inl e, tr1) \<Rightarrow> (Inl e, tr1)
    | (Inr plan, tr1) \<Rightarrow>
        (case spawn_aux_command K u plan tr1 of
           (Inl e, tr2) \<Rightarrow> (Inl e, tr2)
         | (Inr p, tr2) \<Rightarrow>
             (let (at, tr3) = start_deadline_of K (ap_timeout_sec plan) tr2
              in (Inr \<lparr>ar_pid = p, ar_deadline = min at budget\<rparr>, tr3))))"

section \<open>Creating a flow\<close>

definition flow_new :: "Kernel \<Rightarrow> UnitName \<Rightarrow> UnitManager \<Rightarrow> trace
    \<Rightarrow> (StartError + StartFlow) \<times> UnitManager \<times> trace" where
  "flow_new K u m0 tr =
     (let m = adopt_pending_config u m0 in
      case unit_at m u of
        None \<Rightarrow> (Inl (NotRegistered u), m, tr)
      | Some rt \<Rightarrow>
          if retired rt then (Inl (RemovedByReload u), m, tr)
          else
            let paths = needs_socket (rt_config rt);
                (at, tr1) = start_deadline_of K (timeout_start_sec (rt_config rt)) tr
            in (Inr \<lparr>sf_unit = u, sf_stage = (if paths = [] then Conflicts None else Sockets paths),
                     sf_deadline = at, sf_spawned = False\<rparr>, m, tr1))"

fun running_aux_pid :: "StartStage \<Rightarrow> pid option" where
  "running_aux_pid (Pre _ _ (Some r)) = Some (ar_pid r)"
| "running_aux_pid (Post _ _ (Some r)) = Some (ar_pid r)"
| "running_aux_pid _ = None"

definition wants_pid :: "StartFlow \<Rightarrow> pid \<Rightarrow> bool" where
  "wants_pid f p \<longleftrightarrow> running_aux_pid (sf_stage f) = Some p"

definition cancel_pending :: "StartFlow \<Rightarrow> trace \<Rightarrow> trace" where
  "cancel_pending f tr = (case sf_stage f of SpawnWait p \<Rightarrow> CancelSpawn p # tr | _ \<Rightarrow> tr)"

section \<open>The spawn\<close>

definition LISTEN_FDS_ENV :: string where "LISTEN_FDS_ENV = ''LISTEN_FDS=1''"

text \<open>\<open>begin_spawn_unit\<close> of \<open>boot.rs\<close>: the notification socket first, then the process.\<close>

definition arm_and_spawn :: "Kernel \<Rightarrow> UnitName \<Rightarrow> World \<Rightarrow> (RuntimeError + SpawnBeginUnit) \<times> World" where
  "arm_and_spawn K u w0 =
     (let notify = (case w_unit w0 u of
            Some rt \<Rightarrow> if service_kind (rt_config rt) = Notify then Some (rt_config rt) else None
          | None \<Rightarrow> None);
          (armed, w1) = (case notify of
            None \<Rightarrow> (None, w0)
          | Some cfg \<Rightarrow> (let (r, h, tr) = arm K cfg (w_hub w0) (w_tr w0) in (r, w0\<lparr>w_hub := h, w_tr := tr\<rparr>)))
      in case armed of
        Some e \<Rightarrow> (Inl e, w1)
      | None \<Rightarrow>
          (let listen_fd = listener_fd (w_man w1) u;
               env = (if notify = None then [] else opt_list (env_for (w_hub w1) u))
                     @ (if listen_fd \<noteq> None then [LISTEN_FDS_ENV] else []);
               (output, w2) = on_tr (capture K) w1
           in on_man (begin_spawn_unit K u env (case output of Inl _ \<Rightarrow> None | Inr f \<Rightarrow> Some f) listen_fd) w2))"

definition exec_start_of :: "UnitManager \<Rightarrow> UnitName \<Rightarrow> string list" where
  "exec_start_of m u = (case unit_at m u of None \<Rightarrow> [] | Some rt \<Rightarrow> argv (exec_start (rt_config rt)))"

definition post_commands :: "UnitManager \<Rightarrow> UnitName \<Rightarrow> ExecCommand list" where
  "post_commands m u = (case unit_at m u of None \<Rightarrow> [] | Some rt \<Rightarrow> exec_start_post (rt_config rt))"

definition pre_commands :: "UnitManager \<Rightarrow> UnitName \<Rightarrow> ExecCommand list" where
  "pre_commands m u = (case unit_at m u of None \<Rightarrow> [] | Some rt \<Rightarrow> exec_start_pre (rt_config rt))"

text \<open>The stage after a confirmed spawn.\<close>

definition stage_after_spawn :: "UnitManager \<Rightarrow> UnitName \<Rightarrow> StartStage" where
  "stage_after_spawn m u =
     (if (case unit_at m u of None \<Rightarrow> False
          | Some rt \<Rightarrow> service_kind (rt_config rt) = Oneshot \<or> service_kind (rt_config rt) = Forking)
      then WaitReady else Post (post_commands m u) 0 None)"

section \<open>One step\<close>

text \<open>\<open>Go\<close> goes round the loop again, \<open>Waiting\<close> and \<open>Finished\<close> return to the caller.\<close>

datatype StepResult = Go StartFlow | Waiting StartFlow | Finished "StartError + bool" StartFlow

definition fail_unit :: "Kernel \<Rightarrow> UnitName \<Rightarrow> World \<Rightarrow> World" where
  "fail_unit K u w = snd (on_man (fail_start K u) w)"

definition flow_failed :: "Kernel \<Rightarrow> StartError \<Rightarrow> StartFlow \<Rightarrow> World \<Rightarrow> StepResult \<times> World" where
  "flow_failed K e f w = (Finished (Inl e) f, fail_unit K (sf_unit f) w)"

abbreviation at_stage :: "StartFlow \<Rightarrow> StartStage \<Rightarrow> StartFlow" where
  "at_stage f s \<equiv> f\<lparr>sf_stage := s\<rparr>"

fun first_missing :: "Kernel \<Rightarrow> string list \<Rightarrow> trace \<Rightarrow> string option \<times> trace" where
  "first_missing K [] tr = (None, tr)"
| "first_missing K (p # ps) tr =
     (if k_exists K tr p then first_missing K ps (PathExists p # tr) else (Some p, PathExists p # tr))"

definition sockets_step :: "Kernel \<Rightarrow> StartFlow \<Rightarrow> string list \<Rightarrow> World \<Rightarrow> StepResult \<times> World" where
  "sockets_step K f paths w = (case on_tr (first_missing K paths) w of
      (None, w1) \<Rightarrow> (Go (at_stage f (Conflicts None)), w1)
    | (Some missing, w1) \<Rightarrow>
        (let (now, w2) = on_tr (read_clock K) w1 in
         if now < sf_deadline f then (Waiting (at_stage f (Sockets paths)), w2)
         else flow_failed K (SocketMissing (sf_unit f) missing) (at_stage f StageDone) w2))"

fun conflict_waits :: "Kernel \<Rightarrow> instant \<Rightarrow> UnitName list \<Rightarrow> UnitManager \<Rightarrow> trace
    \<Rightarrow> ConflictWait list \<times> trace" where
  "conflict_waits K budget [] m tr = ([], tr)"
| "conflict_waits K budget (other # us) m tr =
     (let secs = (case unit_at m other of None \<Rightarrow> 1 | Some rt \<Rightarrow> max (timeout_stop_sec (rt_config rt)) 1);
          (at, tr1) = after_secs K secs tr;
          (ws, tr2) = conflict_waits K budget us m tr1
      in (\<lparr>cw_unit = other, cw_deadline = min at budget, cw_escalated = False, cw_done = False\<rparr> # ws, tr2))"

definition wait_step :: "Kernel \<Rightarrow> instant \<Rightarrow> instant \<Rightarrow> UnitManager \<Rightarrow> ConflictWait \<Rightarrow> trace
    \<Rightarrow> ConflictWait \<times> trace" where
  "wait_step K now budget m cw tr =
     (if cw_done cw then (cw, tr)
      else (case Option.bind (unit_at m (cw_unit cw)) rt_pid of
              None \<Rightarrow> (cw\<lparr>cw_done := True\<rparr>, tr)
            | Some p \<Rightarrow>
                if now < cw_deadline cw then (cw, tr)
                else if \<not> cw_escalated cw
                then let (_, tr1) = kill_process_group K p SIGKILL tr; (at, tr2) = after_secs K 5 tr1
                  in (cw\<lparr>cw_escalated := True, cw_deadline := min at budget\<rparr>, tr2)
                else (cw\<lparr>cw_done := True\<rparr>, tr)))"

fun waits_step :: "Kernel \<Rightarrow> instant \<Rightarrow> instant \<Rightarrow> UnitManager \<Rightarrow> ConflictWait list \<Rightarrow> trace
    \<Rightarrow> ConflictWait list \<times> trace" where
  "waits_step K now budget m [] tr = ([], tr)"
| "waits_step K now budget m (cw # cws) tr =
     (let (cw', tr1) = wait_step K now budget m cw tr; (cws', tr2) = waits_step K now budget m cws tr1
      in (cw' # cws', tr2))"

definition conflicts_step :: "Kernel \<Rightarrow> StartFlow \<Rightarrow> ConflictWait list option \<Rightarrow> World \<Rightarrow> StepResult \<times> World" where
  "conflicts_step K f waits w =
     (let (ws, w1) = (case waits of
            Some ws \<Rightarrow> (ws, w)
          | None \<Rightarrow>
              (let (others, w0) = on_man (stop_conflicts K (sf_unit f)) w
               in on_tr (conflict_waits K (sf_deadline f) others (w_man w0)) w0));
          (now, w2) = on_tr (read_clock K) w1;
          (ws', w3) = on_tr (waits_step K now (sf_deadline f) (w_man w2) ws) w2
      in if list_ex (\<lambda>cw. \<not> cw_done cw) ws' then (Waiting (at_stage f (Conflicts (Some ws'))), w3)
         else (Go (at_stage f (Pre (pre_commands (w_man w3) (sf_unit f)) 0 None)), w3))"

definition pre_step :: "Kernel \<Rightarrow> StartFlow \<Rightarrow> ExecCommand list \<Rightarrow> nat \<Rightarrow> AuxRun option \<Rightarrow> World
    \<Rightarrow> StepResult \<times> World" where
  "pre_step K f commands i running w = (case running of
      Some r \<Rightarrow>
        (case map_of (w_aux w) (ar_pid r) of
           Some outcome \<Rightarrow>
             (let w1 = w\<lparr>w_aux := remove_key (ar_pid r) (w_aux w)\<rparr> in
              if outcome = Success then (Go (at_stage f (Pre commands (i + 1) None)), w1)
              else flow_failed K (PreFailed (sf_unit f) (command_text commands i) outcome)
                     (at_stage f StageDone) w1)
         | None \<Rightarrow>
             (let (now, w1) = on_tr (read_clock K) w in
              if ar_deadline r \<le> now
              then flow_failed K (PreTimedOut (sf_unit f) (command_text commands i)) (at_stage f StageDone)
                     (snd (on_tr (kill_process_group K (ar_pid r) SIGKILL) w1))
              else (Waiting (at_stage f (Pre commands i (Some r))), w1)))
    | None \<Rightarrow>
        if length commands \<le> i then (Go (at_stage f SpawnStage), w)
        else (case on_tr (launch_aux K (w_man w) (sf_unit f) (sf_deadline f) (commands ! i)) w of
                (Inl e, w1) \<Rightarrow> flow_failed K e (at_stage f StageDone) w1
              | (Inr r, w1) \<Rightarrow> (Waiting (at_stage f (Pre commands i (Some r))), w1)))"

definition confirm_spawn :: "StartFlow \<Rightarrow> World \<Rightarrow> StepResult \<times> World" where
  "confirm_spawn f w =
     (let w1 = w\<lparr>w_man := cap_start_deadline (sf_unit f) (sf_deadline f) (w_man w)\<rparr>
      in (Go (f\<lparr>sf_spawned := True, sf_stage := stage_after_spawn (w_man w1) (sf_unit f)\<rparr>), w1))"

definition cannot_start :: "Kernel \<Rightarrow> RuntimeError \<Rightarrow> StartFlow \<Rightarrow> World \<Rightarrow> StepResult \<times> World" where
  "cannot_start K e f w =
     flow_failed K (CannotStart (sf_unit f) (exec_start_of (w_man w) (sf_unit f)) e) (at_stage f StageDone) w"

definition spawn_step :: "Kernel \<Rightarrow> StartFlow \<Rightarrow> World \<Rightarrow> StepResult \<times> World" where
  "spawn_step K f w = (case arm_and_spawn K (sf_unit f) w of
      (Inl e, w1) \<Rightarrow> cannot_start K e f w1
    | (Inr (SpawnedUnit (Pending p)), w1) \<Rightarrow> (Waiting (at_stage f (SpawnWait p)), w1)
    | (Inr (SpawnedUnit (Ready p)), w1) \<Rightarrow> confirm_spawn f w1
    | (Inr NoProcess, w1) \<Rightarrow> (Go (f\<lparr>sf_spawned := False, sf_stage := Post [] 0 None\<rparr>), w1)
    | (Inr AlreadyRunning, w1) \<Rightarrow> (Go (f\<lparr>sf_spawned := False, sf_stage := Post [] 0 None\<rparr>), w1))"

definition spawn_wait_step :: "Kernel \<Rightarrow> StartFlow \<Rightarrow> pid \<Rightarrow> World \<Rightarrow> StepResult \<times> World" where
  "spawn_wait_step K f p w =
     (let (report, w1) = on_tr (\<lambda>tr. (k_exec_report K tr p, ExecReport p # tr)) w in
      case report of
        Reported (Inr _) \<Rightarrow> confirm_spawn f w1
      | Reported (Inl e) \<Rightarrow> cannot_start K e f w1
      | ReportEmpty \<Rightarrow> (Waiting (at_stage f (SpawnWait p)), w1)
      | ReportClosed \<Rightarrow> flow_failed K (NoSpawnResult (sf_unit f)) (at_stage f StageDone) w1)"

definition wait_ready_step :: "Kernel \<Rightarrow> StartFlow \<Rightarrow> World \<Rightarrow> StepResult \<times> World" where
  "wait_ready_step K f w = (case w_unit w (sf_unit f) of
      None \<Rightarrow> (Finished (Inl (NoLongerRegistered (sf_unit f))) (at_stage f StageDone), w)
    | Some rt \<Rightarrow>
        if rt_state rt = Active \<or> rt_state rt = ActiveExited
        then (Go (at_stage f (Post (exec_start_post (rt_config rt)) 0 None)), w)
        else if rt_state rt = Starting
        then (let (now, w1) = on_tr (read_clock K) w in
              if sf_deadline f \<le> now
              then flow_failed K (ReadinessTimedOut (sf_unit f)) (at_stage f StageDone) w1
              else (Waiting (at_stage f WaitReady), w1))
        else (Finished (Inl (FailedToStart (sf_unit f))) (at_stage f StageDone), w))"

text \<open>A post command that cannot be started is only logged; the next one is tried.\<close>

definition post_next :: "Kernel \<Rightarrow> StartFlow \<Rightarrow> ExecCommand list \<Rightarrow> nat \<Rightarrow> World \<Rightarrow> StepResult \<times> World" where
  "post_next K f commands i w =
     (if length commands \<le> i then (Finished (Inr (sf_spawned f)) (at_stage f StageDone), w)
      else (case on_tr (launch_aux K (w_man w) (sf_unit f) (sf_deadline f) (commands ! i)) w of
              (Inl _, w1) \<Rightarrow> (Go (at_stage f (Post commands (i + 1) None)), w1)
            | (Inr r, w1) \<Rightarrow> (Waiting (at_stage f (Post commands i (Some r))), w1)))"

definition post_step :: "Kernel \<Rightarrow> StartFlow \<Rightarrow> ExecCommand list \<Rightarrow> nat \<Rightarrow> AuxRun option \<Rightarrow> World
    \<Rightarrow> StepResult \<times> World" where
  "post_step K f commands i running w = (case running of
      None \<Rightarrow> post_next K f commands i w
    | Some r \<Rightarrow>
        (case map_of (w_aux w) (ar_pid r) of
           Some _ \<Rightarrow> post_next K f commands (i + 1) (w\<lparr>w_aux := remove_key (ar_pid r) (w_aux w)\<rparr>)
         | None \<Rightarrow>
             (let (now, w1) = on_tr (read_clock K) w in
              if ar_deadline r \<le> now
              then post_next K f commands (i + 1) (snd (on_tr (kill_process_group K (ar_pid r) SIGKILL) w1))
              else (Waiting (at_stage f (Post commands i (Some r))), w1))))"

text \<open>The body of the loop: the budget first, then the stage.\<close>

definition stage_step :: "Kernel \<Rightarrow> StartFlow \<Rightarrow> World \<Rightarrow> StepResult \<times> World" where
  "stage_step K f w = (case sf_stage f of
      Sockets paths \<Rightarrow> sockets_step K f paths w
    | Conflicts waits \<Rightarrow> conflicts_step K f waits w
    | Pre commands i running \<Rightarrow> pre_step K f commands i running w
    | SpawnStage \<Rightarrow> spawn_step K f w
    | SpawnWait p \<Rightarrow> spawn_wait_step K f p w
    | WaitReady \<Rightarrow> wait_ready_step K f w
    | Post commands i running \<Rightarrow> post_step K f commands i running w
    | StageDone \<Rightarrow> (Finished (Inr (sf_spawned f)) f, w))"

definition is_sockets :: "StartStage \<Rightarrow> bool" where
  "is_sockets s = (case s of Sockets _ \<Rightarrow> True | _ \<Rightarrow> False)"

definition is_spawn_wait :: "StartStage \<Rightarrow> bool" where
  "is_spawn_wait s = (case s of SpawnWait _ \<Rightarrow> True | _ \<Rightarrow> False)"

definition flow_step :: "Kernel \<Rightarrow> StartFlow \<Rightarrow> World \<Rightarrow> StepResult \<times> World" where
  "flow_step K f w =
     (let (now, w1) = on_tr (read_clock K) w in
      if sf_deadline f \<le> now \<and> \<not> is_sockets (sf_stage f)
      then flow_failed K (StartTimedOut (sf_unit f)) f w1
      else stage_step K f w1)"

section \<open>The loop ends\<close>

fun stage_rank :: "StartStage \<Rightarrow> nat" where
  "stage_rank (Sockets _) = 7"
| "stage_rank (Conflicts _) = 6"
| "stage_rank (Pre _ _ _) = 5"
| "stage_rank SpawnStage = 4"
| "stage_rank (SpawnWait _) = 3"
| "stage_rank WaitReady = 2"
| "stage_rank (Post _ _ _) = 1"
| "stage_rank StageDone = 0"

fun stage_left :: "StartStage \<Rightarrow> nat" where
  "stage_left (Pre _ _ r) = (if r = None then 0 else 1)"
| "stage_left (Post cs i _) = length cs - i"
| "stage_left _ = 0"

definition stage_before :: "(StartStage \<times> StartStage) set" where
  "stage_before = measures [stage_rank, stage_left]"

lemma wf_stage_before: "wf stage_before"
  by (simp add: stage_before_def)

lemmas flow_step_defs =
  sockets_step_def conflicts_step_def pre_step_def spawn_step_def spawn_wait_step_def wait_ready_step_def
  post_step_def post_next_def flow_failed_def confirm_spawn_def cannot_start_def stage_after_spawn_def
  Let_def case_prod_beta

lemma stage_step_descends:
  "stage_step K f w = (Go f', w') \<Longrightarrow> (sf_stage f', sf_stage f) \<in> stage_before"
  by (cases "sf_stage f")
    (auto simp: stage_step_def stage_before_def flow_step_defs
      split: if_splits option.splits sum.splits prod.splits SpawnBeginUnit.splits SpawnBegin.splits
        SpawnReport.splits)

lemma flow_step_descends:
  "flow_step K f w = (Go f', w') \<Longrightarrow> (sf_stage f', sf_stage f) \<in> stage_before"
  by (auto simp: flow_step_def case_prod_beta flow_failed_def split: if_splits dest: stage_step_descends)

text \<open>\<open>None\<close> is still waiting.\<close>

function flow_loop :: "Kernel \<Rightarrow> StartFlow \<Rightarrow> World \<Rightarrow> (StartError + bool) option \<times> StartFlow \<times> World" where
  "flow_loop K f w = (case flow_step K f w of
      (Go f', w') \<Rightarrow> flow_loop K f' w'
    | (Waiting f', w') \<Rightarrow> (None, f', w')
    | (Finished r f', w') \<Rightarrow> (Some r, f', w'))"
  by pat_completeness auto
termination
  by (relation "inv_image stage_before (\<lambda>(K, f, w). sf_stage f)")
    (auto simp: wf_stage_before intro: flow_step_descends [OF sym])

declare flow_loop.simps [simp del]

definition flow_advance :: "Kernel \<Rightarrow> StartFlow \<Rightarrow> World \<Rightarrow> (StartError + bool) option \<times> StartFlow \<times> World" where
  "flow_advance K f w =
     (let u = sf_unit f in
      if manager_target_of (w_man w) u = Some Stopped then (Some (Inl (CancelledByStop u)), f, w)
      else if sf_spawned f \<and> is_deactivating (w_man w) u then (Some (Inl (CancelledByStop u)), f, w)
      else if is_failed (w_man w) u \<and> \<not> is_spawn_wait (sf_stage f) then (Some (Inl (FailedBefore u)), f, w)
      else flow_loop K f w)"


section \<open>What a flow keeps\<close>

text \<open>
  The interface of the manager as a flow uses it: a state predicate \<open>good\<close> on the manager and the trace
  that no call of a flow breaks. Everything a flow does keeps \<open>good\<close>, whatever the kernel answers.
\<close>

definition world_good :: "(UnitManager \<Rightarrow> trace \<Rightarrow> bool) \<Rightarrow> World \<Rightarrow> bool" where
  "world_good good w = good (w_man w) (w_tr w)"

locale flow_client =
  fixes K :: Kernel and good :: "UnitManager \<Rightarrow> trace \<Rightarrow> bool"
  assumes good_call: "(\<And>p s. c \<noteq> Kill p s) \<Longrightarrow> good m tr \<Longrightarrow> good m (c # tr)"
    and good_kill: "good m tr \<Longrightarrow> good m (snd (kill_process_group K p s tr))"
    and good_env: "good m tr \<Longrightarrow> good m (snd (build_service_env K cfg extra tr))"
    and good_sandbox: "good m tr \<Longrightarrow> good m (snd (resolve_sandbox K cfg tr))"
    and good_spawn_aux: "good m tr \<Longrightarrow> good m (snd (spawn_service_in_group_detached K a e d out sb pl tr))"
    and good_arm: "good m tr \<Longrightarrow> good m (snd (snd (arm K cfg h tr)))"
    and good_stop_conflicts:
      "good m tr \<Longrightarrow> good (fst (snd (stop_conflicts K u m tr))) (snd (snd (stop_conflicts K u m tr)))"
    and good_begin_spawn: "good m tr \<Longrightarrow>
       good (fst (snd (begin_spawn_unit K u ex out lf m tr))) (snd (snd (begin_spawn_unit K u ex out lf m tr)))"
    and good_cap: "good m tr \<Longrightarrow> good (cap_start_deadline u at m) tr"
    and good_fail_start: "good m tr \<Longrightarrow> good (fst (snd (fail_start K u m tr))) (snd (snd (fail_start K u m tr)))"
begin

lemma good_clock: "good m tr \<Longrightarrow> good m (snd (read_clock K tr))"
  by (simp add: read_clock_def good_call)

lemma good_after: "good m tr \<Longrightarrow> good m (snd (after_duration K d tr))"
  by (simp add: after_duration_def read_clock_def good_call)

lemma good_after_secs: "good m tr \<Longrightarrow> good m (snd (after_secs K n tr))"
  by (simp add: after_secs_def good_after)

lemma good_start_deadline: "good m tr \<Longrightarrow> good m (snd (start_deadline_of K n tr))"
  by (simp add: start_deadline_of_def good_after good_after_secs)

lemma world_on_man:
  "(\<And>m tr. good m tr \<Longrightarrow> good (fst (snd (f m tr))) (snd (snd (f m tr))))
   \<Longrightarrow> world_good good w \<Longrightarrow> world_good good (snd (on_man f w))"
  by (simp add: on_man_def world_good_def case_prod_beta Let_def)

lemma world_on_tr:
  "(\<And>m tr. good m tr \<Longrightarrow> good m (snd (f tr))) \<Longrightarrow> world_good good w \<Longrightarrow> world_good good (snd (on_tr f w))"
  by (simp add: on_tr_def world_good_def case_prod_beta Let_def)

lemma world_frame [simp]:
  "world_good good (w\<lparr>w_aux := a\<rparr>) = world_good good w" "world_good good (w\<lparr>w_hub := h\<rparr>) = world_good good w"
  by (simp_all add: world_good_def)

lemma world_clock: "world_good good w \<Longrightarrow> world_good good (snd (on_tr (read_clock K) w))"
  by (rule world_on_tr [OF good_clock])

lemma world_kill: "world_good good w \<Longrightarrow> world_good good (snd (on_tr (kill_process_group K p s) w))"
  by (rule world_on_tr [OF good_kill])

lemma world_fail_unit: "world_good good w \<Longrightarrow> world_good good (fail_unit K u w)"
  unfolding fail_unit_def by (rule world_on_man [OF good_fail_start])

lemma world_cap: "world_good good w \<Longrightarrow> world_good good (w\<lparr>w_man := cap_start_deadline u at (w_man w)\<rparr>)"
  by (simp add: world_good_def good_cap)

lemma good_first_missing: "good m tr \<Longrightarrow> good m (snd (first_missing K ps tr))"
  by (induction ps arbitrary: tr) (simp_all add: good_call)

lemma good_capture: "good m tr \<Longrightarrow> good m (snd (capture K tr))"
  by (simp add: capture_def set_nonblocking_def good_call case_prod_beta split: sum.split option.split)

lemma good_plan_aux: "good m' tr \<Longrightarrow> good m' (snd (plan_aux_command K m u cmd tr))"
  by (simp add: plan_aux_command_def case_prod_beta Let_def good_env good_sandbox split: option.split sum.split)

lemma good_launch_aux: "good m' tr \<Longrightarrow> good m' (snd (launch_aux K m u budget cmd tr))"
  by (simp add: launch_aux_def spawn_aux_command_def case_prod_beta Let_def good_plan_aux good_spawn_aux
      good_start_deadline split: sum.split)

lemma world_launch_aux:
  "world_good good w \<Longrightarrow> world_good good (snd (on_tr (launch_aux K m u budget cmd) w))"
  by (rule world_on_tr [OF good_launch_aux])

lemma good_conflict_waits: "good m' tr \<Longrightarrow> good m' (snd (conflict_waits K budget us m tr))"
  by (induction us arbitrary: tr) (simp_all add: case_prod_beta Let_def good_after_secs)

lemma good_wait_step: "good m' tr \<Longrightarrow> good m' (snd (wait_step K now budget m cw tr))"
  by (simp add: wait_step_def case_prod_beta Let_def good_after_secs good_kill split: option.split)

lemma good_waits_step: "good m' tr \<Longrightarrow> good m' (snd (waits_step K now budget m cws tr))"
  by (induction cws arbitrary: tr) (simp_all add: case_prod_beta Let_def good_wait_step)

lemmas world_steps =
  world_clock world_kill world_fail_unit world_launch_aux world_cap
  world_on_tr [OF good_first_missing] world_on_tr [OF good_conflict_waits] world_on_tr [OF good_waits_step]
  world_on_tr [OF good_capture] world_on_man [OF good_stop_conflicts] world_on_man [OF good_begin_spawn]

lemma world_arm_and_spawn: "world_good good w \<Longrightarrow> world_good good (snd (arm_and_spawn K u w))"
proof -
  assume w: "world_good good w"
  then have "world_good good (w\<lparr>w_hub := h, w_tr := snd (snd (arm K cfg h' (w_tr w)))\<rparr>)" for h h' cfg
    by (simp add: world_good_def good_arm)
  then show ?thesis
    using w by (auto simp: arm_and_spawn_def case_prod_beta Let_def intro!: world_steps split: option.split)
qed

lemma world_conflicts_step: "world_good good w \<Longrightarrow> world_good good (snd (conflicts_step K f waits w))"
  by (auto simp: conflicts_step_def case_prod_beta Let_def intro!: world_steps split: option.split)

lemma world_post_next: "world_good good w \<Longrightarrow> world_good good (snd (post_next K f cs i w))"
  by (auto simp: post_next_def case_prod_beta Let_def intro!: world_steps split: sum.split)

lemma world_stage_step: "world_good good w \<Longrightarrow> world_good good (snd (stage_step K f w))"
proof (cases "sf_stage f")
  case (Sockets ps)
  moreover assume "world_good good w"
  ultimately show ?thesis
    by (auto simp: stage_step_def sockets_step_def flow_failed_def case_prod_beta Let_def
        intro!: world_steps split: option.split)
next
  case (Pre cs i r)
  moreover assume "world_good good w"
  ultimately show ?thesis
    by (auto simp: stage_step_def pre_step_def flow_failed_def case_prod_beta Let_def
        intro!: world_steps split: option.split sum.split)
next
  case SpawnStage
  moreover assume "world_good good w"
  ultimately show ?thesis
    by (auto simp: stage_step_def spawn_step_def confirm_spawn_def cannot_start_def flow_failed_def
        case_prod_beta Let_def intro!: world_steps world_arm_and_spawn
        split: sum.split SpawnBeginUnit.split SpawnBegin.split)
next
  case (SpawnWait p)
  moreover assume "world_good good w"
  moreover have "good m (ExecReport p # tr)" if "good m tr" for m tr using that by (simp add: good_call)
  ultimately show ?thesis
    by (auto simp: stage_step_def spawn_wait_step_def confirm_spawn_def cannot_start_def flow_failed_def
        case_prod_beta Let_def intro!: world_steps world_on_tr split: sum.split SpawnReport.split)
next
  case (Post cs i r)
  moreover assume "world_good good w"
  ultimately show ?thesis
    by (auto simp: stage_step_def post_step_def case_prod_beta Let_def
        intro!: world_steps world_post_next split: option.split)
qed (auto simp: stage_step_def wait_ready_step_def flow_failed_def case_prod_beta Let_def
    intro!: world_steps world_conflicts_step split: option.split)

lemma world_flow_step: "world_good good w \<Longrightarrow> world_good good (snd (flow_step K f w))"
  by (auto simp: flow_step_def flow_failed_def case_prod_beta Let_def intro!: world_steps world_stage_step)

lemma world_flow_loop: "world_good good w \<Longrightarrow> world_good good (snd (snd (flow_loop K f w)))"
proof (induction "sf_stage f" arbitrary: f w rule: wf_induct_rule [OF wf_stage_before])
  case 1
  have step: "world_good good (snd (flow_step K f w))" using 1(2) by (rule world_flow_step)
  show ?case
  proof (cases "flow_step K f w")
    case (Pair r w')
    then show ?thesis
      using step 1(1) [OF flow_step_descends] by (subst flow_loop.simps) (cases r; simp)
  qed
qed

lemma world_flow_advance: "world_good good w \<Longrightarrow> world_good good (snd (snd (flow_advance K f w)))"
  by (simp add: flow_advance_def Let_def world_flow_loop)

end

text \<open>Creating a flow also adopts a deferred definition.\<close>

locale flow_maker = flow_client +
  assumes good_adopt: "good m tr \<Longrightarrow> good (adopt_pending_config u m) tr"
begin

lemma good_flow_new:
  "good m tr \<Longrightarrow> good (fst (snd (flow_new K u m tr))) (snd (snd (flow_new K u m tr)))"
  by (simp add: flow_new_def Let_def case_prod_beta good_adopt good_start_deadline split: option.split)

end

definition sound_state :: "UnitManager \<Rightarrow> trace \<Rightarrow> bool" where
  "sound_state m tr \<longleftrightarrow> wf_manager m \<and> harmless tr"

interpretation kept: flow_maker K sound_state for K
  by unfold_locales
    (simp_all add: sound_state_def stop_conflicts_def stop_each_inv [where late = True] wf_begin_spawn_unit
      wf_cap_start_deadline fail_start_inv [where late = True] wf_adopt_pending_config)

section \<open>The definition of a starting unit does not change\<close>

definition config_at :: "UnitManager \<Rightarrow> UnitName \<Rightarrow> UnitConfig option" where
  "config_at m u = map_option rt_config (unit_at m u)"

lemma config_at_defs: "config_at m u = map_of (definitions_of m) u"
proof -
  have "map_of (map (\<lambda>(k, rt). (k, rt_config rt)) xs) u = map_option rt_config (map_of xs u)"
    for xs :: "(UnitName \<times> UnitRuntime) list"
    by (induction xs) auto
  then show ?thesis by (simp add: config_at_def)
qed

lemma config_at_upd:
  "(\<And>rt. rt_config (f rt) = rt_config rt) \<Longrightarrow> config_at (upd_unit v f m) u = config_at m u"
  by (simp add: config_at_defs)

lemma config_at_put:
  "unit_at m v = Some rt0 \<Longrightarrow> rt_config rt = rt_config rt0 \<Longrightarrow> config_at (upd_unit v (\<lambda>_. rt) m) u = config_at m u"
  by (simp add: config_at_def)

lemma config_at_frame [simp]:
  "config_at (m\<lparr>jobs := q\<rparr>) u = config_at m u" "config_at (m\<lparr>queued_starts := qs\<rparr>) u = config_at m u"
  by (simp_all add: config_at_def)

lemma config_at_request_parts [simp]:
  "config_at (forget_spent_target v m) u = config_at m u"
  "config_at (apply_none_transition v m) u = config_at m u"
  "config_at (queue_behind_stop v t src eff m) u = config_at m u"
  by (auto simp: forget_spent_target_def apply_none_transition_def queue_behind_stop_def config_at_upd
      split: option.split JobTarget.split)

lemma config_at_request:
  "unit_at m v \<noteq> None \<Longrightarrow> config_at (fst (snd (request K v t src m tr))) u = config_at m u"
  by (auto simp: request_def ensure_unit_def case_prod_beta Let_def)

lemma rt_config_stop_parts [simp]:
  "rt_config (fst (snd (after_stop_signal K cg u rt res))) = rt_config rt"
  "rt_config (fst (stop_leftovers K cg u rt tr)) = rt_config rt"
  "rt_config (fst (arm_kill K cg u p rt tr)) = rt_config rt"
  by (simp_all add: after_stop_signal_def gone_def stop_leftovers_def arm_kill_def case_prod_beta Let_def
      split: option.split)

lemma rt_config_begin_stop [simp]: "rt_config (fst (snd (begin_stop K cg u p rt tr))) = rt_config rt"
  by (simp add: begin_stop_def case_prod_beta split: sum.split)

lemma rt_config_stop_rt: "rt_config (fst (stop_rt K cg u rt tr)) = rt_config rt"
  by (simp add: stop_rt_def case_prod_beta Let_def split: option.split)

lemma config_at_stop_unit: "config_at (fst (stop_unit K v m tr)) u = config_at m u"
  by (auto simp: stop_unit_def with_unit_rt_def case_prod_beta config_at_put rt_config_stop_rt
      split: option.split)

lemma config_at_stop_each: "config_at (fst (snd (stop_each K vs m tr))) u = config_at m u"
proof (induction vs arbitrary: m tr)
  case (Cons v vs)
  then show ?case
    by (auto simp: case_prod_beta Let_def config_at_stop_unit config_at_request request_stop_def
        split: option.splits)
qed simp

lemma definitions_fail_dependents: "definitions_of (fst (fail_dependents ds (m, vis, failed, queue))) = definitions_of m"
proof (induction ds arbitrary: m vis failed queue)
  case (Cons d ds)
  then show ?case by (simp add: Let_def split: option.split)
qed simp

lemma definitions_fail_loop: "definitions_of (snd (fail_loop m vis failed queue)) = definitions_of m"
proof (induction m vis failed queue rule: fail_loop.induct)
  case (2 m vis failed current queue)
  then show ?case
    using definitions_fail_dependents [of "requires_dependents m current" m vis failed queue]
    by (subst fail_loop.simps(2)) (auto split: prod.split)
qed (simp add: fail_loop.simps)

lemma config_at_fail_start: "config_at (fst (snd (fail_start K v m tr))) u = config_at m u"
  using definitions_fail_loop [of "upd_unit v mark_failed m" "{v}" "[]" "[v]"]
  by (simp add: fail_start_def Let_def case_prod_beta config_at_defs mark_failed_def)

lemma rt_config_register: "rt_config (fst (register_process K now p oom rt tr)) = rt_config rt"
  by (simp add: register_process_def schedule_health_def case_prod_beta Let_def split: ServiceKind.split)

lemma rt_config_clear_leftovers: "rt_config (fst (clear_leftovers K rt tr)) = rt_config rt"
  by (simp add: clear_leftovers_def case_prod_beta Let_def split: option.split)

lemma config_at_begin_spawn: "config_at (fst (snd (begin_spawn_unit K v ex out lf m tr))) u = config_at m u"
  by (auto simp: begin_spawn_unit_def case_prod_beta Let_def config_at_def rt_config_clear_leftovers
      rt_config_register split: option.split sum.split)

interpretation same: flow_client K "\<lambda>m tr. config_at m u = c" for K u c
  by unfold_locales
    (simp_all add: stop_conflicts_def config_at_stop_each config_at_begin_spawn config_at_fail_start
      cap_start_deadline_def config_at_upd split: option.split)

end
