(* ===== verification/Start_Flow_Props.thy ===== *)
theory Start_Flow_Props
  imports Start_Flow
begin

text \<open>
  What a start in flight guarantees: it ends by its budget, it runs \<open>ExecStart=\<close> only after every
  \<open>ExecStartPre=\<close> command has succeeded, and it never goes back to an earlier stage.
\<close>


section \<open>Budget\<close>

lemma timed_out_step:
  assumes "sf_deadline f \<le> k_now K (w_tr w)" "\<not> is_sockets (sf_stage f)"
  shows "flow_loop K f w = (Some (Inl (StartTimedOut (sf_unit f))), f,
     fail_unit K (sf_unit f) (snd (on_tr (read_clock K) w)))"
  using assms by (subst flow_loop.simps)
    (simp add: flow_step_def on_tr_def read_clock_def flow_failed_def case_prod_beta Let_def)

lemma on_tr_frame [simp]:
  "w_man (snd (on_tr f w)) = w_man w" "w_aux (snd (on_tr f w)) = w_aux w" "w_hub (snd (on_tr f w)) = w_hub w"
  by (simp_all add: on_tr_def case_prod_beta Let_def)

lemma on_clock [simp]:
  "fst (on_tr (read_clock K) w) = k_now K (w_tr w)" "w_tr (snd (on_tr (read_clock K) w)) = Now # w_tr w"
  by (simp_all add: on_tr_def read_clock_def)

text \<open>The looks at the sockets take no time back from a clock that never goes back.\<close>

lemma first_missing_later:
  assumes "\<And>c t. k_now K t \<le> k_now K (c # t)"
  shows "k_now K tr \<le> k_now K (snd (first_missing K ps tr))"
proof (induction ps arbitrary: tr)
  case (Cons p ps)
  then show ?case using assms [of tr "PathExists p"] by (auto intro: order_trans)
qed simp

lemma timed_out_sockets:
  assumes clock: "\<And>c t. k_now K t \<le> k_now K (c # t)" and late: "sf_deadline f \<le> k_now K (w_tr w)"
    and s: "sf_stage f = Sockets ps"
  shows "\<exists>e f' w'. flow_loop K f w = (Some (Inl e), f', fail_unit K (sf_unit f) w') \<and> w_man w' = w_man w"
proof -
  let ?w = "snd (on_tr (read_clock K) w)"
  let ?m = "on_tr (first_missing K ps) ?w"
  have step: "flow_step K f w = sockets_step K f ps ?w"
    by (simp add: flow_step_def stage_step_def s is_sockets_def case_prod_beta)
  have "w_tr (snd ?m) = snd (first_missing K ps (Now # w_tr w))"
    by (simp add: on_tr_def [of "first_missing K ps"] case_prod_beta Let_def)
  then have late': "sf_deadline f \<le> k_now K (w_tr (snd ?m))"
    using late clock [of "w_tr w" Now] first_missing_later [OF clock, of "Now # w_tr w" ps]
    by (metis order_trans)
  show ?thesis
  proof (cases "fst ?m")
    case None
    then have "flow_step K f w = (Go (at_stage f (Conflicts None)), snd ?m)"
      unfolding step by (simp add: sockets_step_def case_prod_beta)
    then show ?thesis
      using timed_out_step [of "at_stage f (Conflicts None)" K "snd ?m"] late'
      by (subst flow_loop.simps) (auto simp: is_sockets_def)
  next
    case (Some p)
    then have "flow_step K f w = flow_failed K (SocketMissing (sf_unit f) p) (at_stage f StageDone)
        (snd (on_tr (read_clock K) (snd ?m)))"
      unfolding step using late' by (simp add: sockets_step_def case_prod_beta Let_def)
    then show ?thesis by (subst flow_loop.simps) (auto simp: flow_failed_def)
  qed
qed

lemma fail_unit_at:
  assumes "wf_manager (w_man w)"
  shows "unit_at (w_man (fail_unit K u w)) u = map_option mark_failed (unit_at (w_man w) u)"
proof (cases "fail_start K u (w_man w) (w_tr w)")
  case (fields failed m' tr')
  from fail_start_spec [OF assms this] this show ?thesis by (simp add: fail_unit_def on_man_def)
qed

lemma fail_unit_config: "config_at (w_man (fail_unit K v w)) u = config_at (w_man w) u"
  by (simp add: fail_unit_def on_man_def case_prod_beta Let_def config_at_fail_start)

lemma fail_unit_leaves_failed:
  assumes "wf_manager (w_man w)" "config_at (w_man w) u = Some c"
  shows "is_failed (w_man (fail_unit K u w)) u"
  using assms fail_unit_at [OF assms(1), of K u]
  by (auto simp: is_failed_def config_at_def mark_failed_def)

text \<open>
  Property C15. A start never outlives its budget: once the clock, which never goes back, has passed the
  deadline of the flow, the next advance ends it with an error, in whatever stage it is, and a
  registered unit that had not been told to stop is left failed, not starting.
\<close>
theorem start_ends_by_deadline:
  assumes clock: "\<And>c t. k_now K t \<le> k_now K (c # t)" and late: "sf_deadline f \<le> k_now K (w_tr w)"
    and wf: "sound_state (w_man w) (w_tr w)"
    and known: "config_at (w_man w) (sf_unit f) = Some c"
  shows "\<exists>e f' w'. flow_advance K f w = (Some (Inl e), f', w')
    \<and> (e = CancelledByStop (sf_unit f) \<or> is_failed (w_man w') (sf_unit f))"
proof (cases "manager_target_of (w_man w) (sf_unit f) = Some Stopped
    \<or> sf_spawned f \<and> is_deactivating (w_man w) (sf_unit f)
    \<or> is_failed (w_man w) (sf_unit f) \<and> \<not> is_spawn_wait (sf_stage f)")
  case True
  then show ?thesis by (auto simp: flow_advance_def Let_def)
next
  case False
  then have adv: "flow_advance K f w = flow_loop K f w" by (auto simp: flow_advance_def Let_def)
  have "\<exists>e f' w1. flow_loop K f w = (Some (Inl e), f', fail_unit K (sf_unit f) w1) \<and> w_man w1 = w_man w"
  proof (cases "is_sockets (sf_stage f)")
    case True
    then obtain ps where "sf_stage f = Sockets ps" by (auto simp: is_sockets_def split: StartStage.splits)
    from timed_out_sockets [OF clock late this] show ?thesis .
  next
    case False
    from timed_out_step [OF late this] show ?thesis by auto
  qed
  moreover have "is_failed (w_man (fail_unit K (sf_unit f) w1)) (sf_unit f)" if "w_man w1 = w_man w" for w1
    using fail_unit_leaves_failed [of w1] that wf known by (simp add: sound_state_def)
  ultimately show ?thesis using adv by fastforce
qed


section \<open>Preparation before the service\<close>

text \<open>The exit of an \<open>ExecStartPre=\<close> command that an advance of \<open>f\<close> consumes, if it was a success.\<close>

definition confirmed :: "StartFlow \<Rightarrow> World \<Rightarrow> string list list" where
  "confirmed f w = (case sf_stage f of
      Pre cs i (Some r) \<Rightarrow> if map_of (w_aux w) (ar_pid r) = Some Success then [command_text cs i] else []
    | _ \<Rightarrow> [])"

definition launched :: "StartFlow \<Rightarrow> bool" where
  "launched f \<longleftrightarrow> sf_spawned f \<or> is_spawn_wait (sf_stage f)"

text \<open>How far the successes \<open>oks\<close> seen so far have brought a flow with preparation \<open>cs\<close>.\<close>

definition pre_state :: "ExecCommand list \<Rightarrow> StartFlow \<Rightarrow> string list list \<Rightarrow> bool" where
  "pre_state cs f oks = (case sf_stage f of
      Sockets _ \<Rightarrow> oks = [] \<and> \<not> sf_spawned f
    | Conflicts _ \<Rightarrow> oks = [] \<and> \<not> sf_spawned f
    | Pre cs' i r \<Rightarrow> cs' = cs \<and> i \<le> length cs \<and> (r \<noteq> None \<longrightarrow> i < length cs)
        \<and> oks = map argv (take i cs) \<and> \<not> sf_spawned f
    | StageDone \<Rightarrow> sf_spawned f \<longrightarrow> oks = map argv cs
    | _ \<Rightarrow> oks = map argv cs)"

lemma launched_pre_state: "pre_state cs f oks \<Longrightarrow> launched f \<Longrightarrow> oks = map argv cs"
  by (auto simp: pre_state_def launched_def is_spawn_wait_def split: StartStage.splits)

lemma flow_step_unit:
  "fst (flow_step K f w) = Go f' \<or> fst (flow_step K f w) = Waiting f' \<or> fst (flow_step K f w) = Finished r f'
   \<Longrightarrow> sf_unit f' = sf_unit f \<and> sf_deadline f' = sf_deadline f"
  by (cases "sf_stage f")
    (auto simp: flow_step_def stage_step_def flow_step_defs
      split: if_splits option.splits sum.splits SpawnBeginUnit.splits SpawnBegin.splits SpawnReport.splits)

lemma stage_step_pre_state:
  assumes "pre_state cs f oks"
    and pre: "\<And>ws. sf_stage f = Conflicts ws \<Longrightarrow>
       pre_commands (w_man (snd (conflicts_step K f ws w))) (sf_unit f) = cs"
  shows "case fst (stage_step K f w) of
      Go f' \<Rightarrow> pre_state cs f' (oks @ confirmed f w) \<and> confirmed f' (snd (stage_step K f w)) = []
    | Waiting f' \<Rightarrow> pre_state cs f' (oks @ confirmed f w)
    | Finished r f' \<Rightarrow> launched f' \<longrightarrow> pre_state cs f' (oks @ confirmed f w)"
proof (cases "sf_stage f")
  case (Conflicts ws)
  then show ?thesis
    using assms(1) pre [OF Conflicts]
    by (auto simp: stage_step_def conflicts_step_def pre_state_def confirmed_def case_prod_beta Let_def)
next
  case (Pre cs' i r)
  then show ?thesis
    using assms(1)
    by (auto simp: stage_step_def pre_step_def flow_failed_def pre_state_def confirmed_def launched_def
        is_spawn_wait_def command_text_def take_Suc_conv_app_nth case_prod_beta Let_def
        split: option.split sum.split)
qed (use assms(1) in \<open>auto simp: stage_step_def flow_step_defs pre_state_def confirmed_def launched_def
    is_spawn_wait_def split: option.split sum.split SpawnBeginUnit.split SpawnBegin.split SpawnReport.split\<close>)


lemma conflicts_step_pre:
  assumes "config_at (w_man w) (sf_unit f) = Some c"
  shows "pre_commands (w_man (snd (conflicts_step K f ws w))) (sf_unit f) = exec_start_pre c"
proof -
  have "config_at (w_man (snd (conflicts_step K f ws w))) (sf_unit f) = Some c"
    using same.world_conflicts_step [of "sf_unit f" "Some c" w K f ws] assms by (simp add: world_good_def)
  then show ?thesis by (auto simp: pre_commands_def config_at_def)
qed

lemma flow_step_pre_state:
  assumes "pre_state (exec_start_pre c) f oks" "config_at (w_man w) (sf_unit f) = Some c"
  shows "case fst (flow_step K f w) of
      Go f' \<Rightarrow> pre_state (exec_start_pre c) f' (oks @ confirmed f w) \<and> confirmed f' (snd (flow_step K f w)) = []
    | Waiting f' \<Rightarrow> pre_state (exec_start_pre c) f' (oks @ confirmed f w)
    | Finished r f' \<Rightarrow> launched f' \<longrightarrow> pre_state (exec_start_pre c) f' (oks @ confirmed f w)"
proof (cases "sf_deadline f \<le> fst (on_tr (read_clock K) w) \<and> \<not> is_sockets (sf_stage f)")
  case True
  then show ?thesis
    using assms(1) by (auto simp: flow_step_def flow_failed_def case_prod_beta Let_def launched_def
        is_spawn_wait_def pre_state_def confirmed_def split: StartStage.splits)
next
  case False
  let ?w = "snd (on_tr (read_clock K) w)"
  have step: "flow_step K f w = stage_step K f ?w"
    using False by (auto simp: flow_step_def case_prod_beta Let_def)
  have eq: "confirmed f w = confirmed f ?w" by (simp add: confirmed_def split: StartStage.split option.split)
  show ?thesis
    unfolding step eq
    by (rule stage_step_pre_state [OF assms(1)]) (use conflicts_step_pre [of ?w f c K] assms(2) in simp)
qed

lemma flow_loop_pre_state:
  assumes "pre_state (exec_start_pre c) f oks" "config_at (w_man w) (sf_unit f) = Some c"
    and "flow_loop K f w = (res, f', w')" "res = None \<or> launched f'"
  shows "pre_state (exec_start_pre c) f' (oks @ confirmed f w)"
  using assms
proof (induction "sf_stage f" arbitrary: f w oks rule: wf_induct_rule [OF wf_stage_before])
  case 1
  note inv = flow_step_pre_state [OF 1(2,3), of K]
  obtain r w1 where step: "flow_step K f w = (r, w1)" by (cases "flow_step K f w")
  show ?case
  proof (cases r)
    case (Go f1)
    have cfg: "config_at (w_man w1) (sf_unit f1) = Some c"
      using same.world_flow_step [of "sf_unit f" "Some c" w K f] flow_step_unit [of K f w f1] step Go 1(3)
      by (simp add: world_good_def)
    have loop: "flow_loop K f1 w1 = (res, f', w')" using 1(4) step Go by (simp add: flow_loop.simps [of K f])
    have "pre_state (exec_start_pre c) f1 (oks @ confirmed f w)" "confirmed f1 w1 = []"
      using inv step Go by simp_all
    with 1(1) [OF flow_step_descends [OF step [unfolded Go]] _ cfg loop 1(5)] show ?thesis by simp
  next
    case (Waiting f1)
    then show ?thesis using inv step 1(4) by (simp add: flow_loop.simps [of K f])
  next
    case (Finished x f1)
    then show ?thesis using inv step 1(4,5) by (auto simp: flow_loop.simps [of K f])
  qed
qed

lemma flow_advance_pre_state:
  assumes "pre_state (exec_start_pre c) f oks" "config_at (w_man w) (sf_unit f) = Some c"
    and "flow_advance K f w = (res, f', w')" "res = None \<or> launched f' \<and> \<not> launched f"
  shows "pre_state (exec_start_pre c) f' (oks @ confirmed f w)"
  using assms flow_loop_pre_state by (fastforce simp: flow_advance_def Let_def split: if_splits)

text \<open>
  A start between its creation and the moment its process is launched: calls of \<open>flow_advance\<close> that
  leave it waiting, with everything around it changing freely in between except the definition of the
  unit, which a reload defers while a flow is in flight. \<open>oks\<close> lists the commands whose success was
  reported.
\<close>

inductive starting :: "Kernel \<Rightarrow> UnitConfig \<Rightarrow> StartFlow \<Rightarrow> string list list \<Rightarrow> bool" for K c where
  created: "flow_new K u m tr = (Inr f, m', tr') \<Longrightarrow> starting K c f []"
| advanced: "starting K c f oks \<Longrightarrow> config_at (w_man w) (sf_unit f) = Some c
    \<Longrightarrow> flow_advance K f w = (None, f', w') \<Longrightarrow> starting K c f' (oks @ confirmed f w)"

inductive_cases starting_cases: "starting K c f oks"

lemma starting_pre_state: "starting K c f oks \<Longrightarrow> pre_state (exec_start_pre c) f oks"
proof (induction rule: starting.induct)
  case (created u m tr f m' tr')
  then show ?case
    by (auto simp: flow_new_def Let_def pre_state_def split: option.splits if_splits prod.splits)
next
  case (advanced f oks w f' w')
  then show ?case by (blast intro: flow_advance_pre_state)
qed

text \<open>
  Property C14. \<open>ExecStart=\<close> waits for its preparation: at the advance in which a start launches its
  process, every \<open>ExecStartPre=\<close> command of the definition has been reported to succeed, each once and
  in order, whatever else happened to the manager, the clock and the other processes in between.
\<close>
theorem exec_start_after_all_pre:
  assumes "starting K c f oks" "\<not> launched f" "config_at (w_man w) (sf_unit f) = Some c"
    and "flow_advance K f w = (r, f', w')" "launched f'"
  shows "oks @ confirmed f w = map argv (exec_start_pre c)"
proof -
  have "pre_state (exec_start_pre c) f' (oks @ confirmed f w)"
    using starting_pre_state [OF assms(1)] assms(2-5) by (blast intro: flow_advance_pre_state)
  then show ?thesis using assms(5) by (rule launched_pre_state)
qed

lemma flow_step_stays_spawned:
  "sf_spawned f \<Longrightarrow> stage_rank (sf_stage f) < 4
   \<Longrightarrow> case fst (flow_step K f w) of
         Go f' \<Rightarrow> sf_spawned f' \<and> stage_rank (sf_stage f') < 4
       | Waiting f' \<Rightarrow> sf_spawned f' | Finished r f' \<Rightarrow> sf_spawned f'"
  by (cases "sf_stage f")
    (auto simp: flow_step_def stage_step_def flow_step_defs split: option.split sum.split SpawnReport.split)

lemma flow_loop_stays_spawned:
  "sf_spawned f \<Longrightarrow> stage_rank (sf_stage f) < 4 \<Longrightarrow> sf_spawned (fst (snd (flow_loop K f w)))"
proof (induction "sf_stage f" arbitrary: f w rule: wf_induct_rule [OF wf_stage_before])
  case 1
  obtain r w1 where step: "flow_step K f w = (r, w1)" by (cases "flow_step K f w")
  then show ?case
    using flow_step_stays_spawned [OF 1(2,3), of K w] 1(1) [OF flow_step_descends [of K f w]]
    by (subst flow_loop.simps) (cases r; simp)
qed


section \<open>A concrete start\<close>

text \<open>The service of the examples with one preparation command.\<close>

definition pre_cfg :: UnitConfig where
  "pre_cfg = web_cfg\<lparr>exec_start_pre := [exec_start web_cfg]\<rparr>"

definition pre_man :: UnitManager where
  "pre_man = (fst (manager_new calm_kernel []))\<lparr>m_units := [(web, runtime_new pre_cfg)]\<rparr>"

lemma web_more_fields:
  "needs_socket web_cfg = []" "timeout_start_sec web_cfg = 30" "exec_start_post web_cfg = []"
  by (simp_all add: web_cfg_def) code_simp+

lemma pre_env: "build_service_env calm_kernel pre_cfg [] tr = (SERVICE_ENV, tr)"
  by (simp add: build_service_env_def pre_cfg_def web_cfg_fields merged_env_def env_entries_def upsert_def
      SERVICE_ENV_def List.map_filter_simps)

lemma pre_sandbox: "resolve_sandbox calm_kernel pre_cfg tr = (Inr inherit_sandbox, tr)"
  by (simp add: resolve_sandbox_def needs_user_database_def is_name_def pre_cfg_def web_cfg_fields
      resolve_from_def classify_def resolve_gid_def resolve_caps_def user_gid_def user_uid_def group_list_def
      inherit_sandbox_def)


lemma calm_after:
  "n < 1000 \<Longrightarrow> length tr < 1000 \<Longrightarrow> after_secs calm_kernel n tr = (from_secs (length tr + n), Now # tr)"
  by (simp add: after_secs_def after_duration_def read_clock_def clamp_def MAX_TIMEOUT_def INSTANT_LIMIT_def
      from_secs_def)

lemma pre_spawn_aux:
  "\<exists>rq. spawn_service_in_group_detached calm_kernel [''/bin/web''] SERVICE_ENV (Some ''/'') None
     inherit_sandbox no_placement tr = (Inr (100 + int (length tr)), Spawn rq # tr)"
  by (auto simp: spawn_service_in_group_detached_def begin_spawn_service_in_group_def spawn_request_def
      prepare_def SERVICE_ENV_def cstring_def is_inherited_def inherit_sandbox_def no_placement_def)

lemma pre_rt:
  "rt_pid (runtime_new pre_cfg) = None" "rt_config (runtime_new pre_cfg) = pre_cfg"
  "retired (runtime_new pre_cfg) = False" "rt_state (runtime_new pre_cfg) = Inactive"
  "pending_config (runtime_new pre_cfg) = None" "probe_pid (runtime_new pre_cfg) = None"
  "spawns (runtime_new pre_cfg)"
  by (simp_all add: runtime_new_def spawns_def spawns_process_def pre_cfg_def web_cfg_fields)

lemma pre_man_at: "unit_at pre_man web = Some (runtime_new pre_cfg)" "m_cgroup pre_man = cgroup_disabled"
  "jobs pre_man = empty_queue" "listen_fds pre_man = []" "origin pre_man = 0"
  by (simp_all add: pre_man_def manager_new_def split_beta Let_def read_clock_def from_secs_def)

abbreviation pre_world :: "(pid \<times> ExitOutcome) list \<Rightarrow> World" where
  "pre_world aux \<equiv> \<lparr>w_man = pre_man, w_hub = hub_new None, w_aux = aux, w_tr = []\<rparr>"

definition pre_flow :: StartFlow where
  "pre_flow = \<lparr>sf_unit = web, sf_stage = Conflicts None, sf_deadline = from_secs 30, sf_spawned = False\<rparr>"

lemma pre_flow_created: "\<exists>m' tr'. flow_new calm_kernel web pre_man [] = (Inr pre_flow, m', tr')"
proof -
  have "adopt_pending (runtime_new pre_cfg) = runtime_new pre_cfg"
    by (simp add: adopt_pending_def pre_rt)
  then have "unit_at (adopt_pending_config web pre_man) web = Some (runtime_new pre_cfg)"
    by (simp add: adopt_pending_config_def pre_man_at invalidate_graph_def)
  then show ?thesis
    by (simp add: flow_new_def pre_rt start_deadline_of_def calm_after pre_flow_def)
      (simp add: pre_cfg_def web_more_fields calm_after)
qed

definition pre_run :: AuxRun where
  "pre_run = \<lparr>ar_pid = 103, ar_deadline = from_secs 30\<rparr>"

lemma calm_world_clock [simp]:
  "on_tr (read_clock calm_kernel) w = (from_secs (length (w_tr w)), w\<lparr>w_tr := Now # w_tr w\<rparr>)"
  by (simp add: on_tr_def read_clock_def)

lemma pre_flow_fields [simp]:
  "sf_unit pre_flow = web" "sf_stage pre_flow = Conflicts None" "sf_deadline pre_flow = from_secs 30"
  "sf_spawned pre_flow = False"
  by (simp_all add: pre_flow_def)

lemma pre_advance_is_loop:
  "sf_unit f = web \<Longrightarrow> \<not> sf_spawned f \<Longrightarrow>
   flow_advance calm_kernel f (pre_world aux) = flow_loop calm_kernel f (pre_world aux)"
  by (simp add: flow_advance_def manager_target_of_def pre_man_at empty_queue_def target_of_def
      is_failed_def pre_rt Let_def)

lemma pre_cfg_fields: "exec_start_pre pre_cfg = [exec_start web_cfg]" "deps pre_cfg = no_dependencies"
  "working_directory pre_cfg = ''/''" "timeout_start_sec pre_cfg = 30" "exec_start pre_cfg = exec_start web_cfg"
  "service_kind pre_cfg = Simple" "exec_start_post pre_cfg = []" "tty_path pre_cfg = None"
  "socket_activate pre_cfg = None" "health_check pre_cfg = health_check web_cfg"
  by (simp_all add: pre_cfg_def web_cfg_fields web_more_fields)

lemma from_secs_less [simp]: "(from_secs a < from_secs b) = (a < b)" "(from_secs a \<le> from_secs b) = (a \<le> b)"
  by (simp_all add: from_secs_def)

lemma pre_conflicts_step:
  "flow_step calm_kernel pre_flow (pre_world []) =
     (Go (at_stage pre_flow (Pre (exec_start_pre pre_cfg) 0 None)), (pre_world [])\<lparr>w_tr := [Now, Now]\<rparr>)"
  by (simp add: flow_step_def stage_step_def is_sockets_def conflicts_step_def on_man_def stop_conflicts_def
      conflicts_of_def pre_man_at pre_rt pre_cfg_fields no_dependencies_def on_tr_def read_clock_def pre_commands_def
      Let_def)

lemma pre_launch_step:
  "\<exists>w'. flow_step calm_kernel (at_stage pre_flow (Pre (exec_start_pre pre_cfg) 0 None))
      ((pre_world [])\<lparr>w_tr := [Now, Now]\<rparr>) =
     (Waiting (at_stage pre_flow (Pre (exec_start_pre pre_cfg) 0 (Some pre_run))), w')"
proof -
  obtain rq where rq: "spawn_service_in_group_detached calm_kernel [''/bin/web''] SERVICE_ENV (Some ''/'') None
     inherit_sandbox no_placement [Now, Now, Now] = (Inr 103, [Spawn rq, Now, Now, Now])"
    using pre_spawn_aux [of "[Now, Now, Now]"] by auto
  show ?thesis
    by (simp add: flow_step_def stage_step_def is_sockets_def pre_step_def launch_aux_def plan_aux_command_def
        pre_man_at pre_rt pre_sandbox pre_env pre_cfg_fields web_cfg_fields spawn_aux_command_def rq on_tr_def
        read_clock_def start_deadline_of_def calm_after pre_run_def min_def)
qed

lemma pre_flow_waits:
  "\<exists>w'. flow_advance calm_kernel pre_flow (pre_world []) =
     (None, at_stage pre_flow (Pre (exec_start_pre pre_cfg) 0 (Some pre_run)), w')"
proof -
  obtain w' where "flow_step calm_kernel (at_stage pre_flow (Pre (exec_start_pre pre_cfg) 0 None))
      ((pre_world [])\<lparr>w_tr := [Now, Now]\<rparr>) =
     (Waiting (at_stage pre_flow (Pre (exec_start_pre pre_cfg) 0 (Some pre_run))), w')"
    using pre_launch_step by blast
  then show ?thesis
    by (simp add: pre_advance_is_loop flow_loop.simps [of calm_kernel pre_flow] pre_conflicts_step
        flow_loop.simps [of calm_kernel "at_stage pre_flow (Pre (exec_start_pre pre_cfg) 0 None)"])
qed


lemma pre_launch_main:
  "\<exists>rq. launch calm_kernel cgroup_disabled web pre_cfg [] (Some 4) None tr =
     (Inr (Ready (100 + int (length tr)), None), Spawn rq # tr)"
  by (auto simp: launch_def pre_env pre_sandbox pre_cfg_fields web_cfg_fields place_in_cgroup_def
      cgroup_is_enabled_def cgroup_disabled_def tty_of_def begin_spawn_service_in_group_def spawn_request_def
      prepare_def SERVICE_ENV_def cstring_def is_inherited_def inherit_sandbox_def)

lemma pre_spawn_step:
  assumes "w_man w = pre_man"
  shows "\<exists>p m tr. arm_and_spawn calm_kernel web w = (Inr (SpawnedUnit (Ready p)), w\<lparr>w_man := m, w_tr := tr\<rparr>)"
proof -
  have cap: "capture calm_kernel tr = (Inr 4, SetNonblocking 3 # Pipe # tr)" for tr
    by (simp add: capture_def calm_kernel_def set_nonblocking_def)
  have c: "clear_leftovers calm_kernel (runtime_new pre_cfg) tr = (runtime_new pre_cfg, tr)" for tr
    by (simp add: clear_leftovers_def runtime_new_def)
  obtain rq where l: "launch calm_kernel cgroup_disabled web pre_cfg [] (Some 4) None
      (SetNonblocking 3 # Pipe # w_tr w) = (Inr (Ready (102 + int (length (w_tr w))), None),
      Spawn rq # SetNonblocking 3 # Pipe # w_tr w)"
    using pre_launch_main [of "SetNonblocking 3 # Pipe # w_tr w"] by auto
  show ?thesis
    by (simp add: arm_and_spawn_def assms pre_man_at pre_rt pre_cfg_fields listener_fd_def on_tr_def cap
        on_man_def begin_spawn_unit_def c l case_prod_beta Let_def)
      blast
qed

lemma pre_flow_launches:
  "\<exists>r f' w'. flow_advance calm_kernel (at_stage pre_flow (Pre (exec_start_pre pre_cfg) 0 (Some pre_run)))
      (pre_world [(103, Success)]) = (r, f', w') \<and> launched f'"
proof -
  let ?f = "\<lambda>s. at_stage pre_flow s"
  let ?cs = "exec_start_pre pre_cfg"
  let ?w = "\<lambda>tr. \<lparr>w_man = pre_man, w_hub = hub_new None, w_aux = [], w_tr = tr\<rparr>"
  have s1: "flow_step calm_kernel (?f (Pre ?cs 0 (Some pre_run))) (pre_world [(103, Success)])
      = (Go (?f (Pre ?cs 1 None)), ?w [Now])"
    by (simp add: flow_step_def stage_step_def is_sockets_def pre_step_def pre_run_def remove_key_def)
  have s2: "flow_step calm_kernel (?f (Pre ?cs 1 None)) (?w [Now]) = (Go (?f SpawnStage), ?w [Now, Now])"
    by (simp add: flow_step_def stage_step_def is_sockets_def pre_step_def pre_cfg_fields)
  obtain p m tr where a: "arm_and_spawn calm_kernel web (?w [Now, Now, Now])
      = (Inr (SpawnedUnit (Ready p)), (?w [Now, Now, Now])\<lparr>w_man := m, w_tr := tr\<rparr>)"
    using pre_spawn_step [of "?w [Now, Now, Now]"] by auto
  let ?g = "\<lambda>s. pre_flow\<lparr>sf_spawned := True, sf_stage := s\<rparr>"
  have "\<exists>s w3. flow_step calm_kernel (?f SpawnStage) (?w [Now, Now]) = (Go (?g s), w3) \<and> stage_rank s < 4"
    by (auto simp: flow_step_def stage_step_def is_sockets_def spawn_step_def a confirm_spawn_def
        stage_after_spawn_def Let_def)
  then obtain s w3 where s3: "flow_step calm_kernel (?f SpawnStage) (?w [Now, Now]) = (Go (?g s), w3)"
    and s: "stage_rank s < 4" by blast
  have "flow_advance calm_kernel (?f (Pre ?cs 0 (Some pre_run))) (pre_world [(103, Success)])
      = flow_loop calm_kernel (?g s) w3"
    by (simp add: pre_advance_is_loop flow_loop.simps [of calm_kernel "?f (Pre ?cs 0 (Some pre_run))"] s1
        flow_loop.simps [of calm_kernel "?f (Pre ?cs 1 None)"] s2 flow_loop.simps [of calm_kernel "?f SpawnStage"] s3
        flip: One_nat_def)
  moreover have "launched (fst (snd (flow_loop calm_kernel (?g s) w3)))"
    using flow_loop_stays_spawned [of "?g s" calm_kernel w3] s by (simp add: launched_def)
  ultimately show ?thesis by (metis prod.collapse)
qed


theorem exec_start_after_all_pre_witness:
  "\<exists>f. starting calm_kernel pre_cfg f [] \<and> \<not> launched f
     \<and> [] @ confirmed f (pre_world [(103, Success)]) = map argv (exec_start_pre pre_cfg)"
proof -
  let ?f = "at_stage pre_flow (Pre (exec_start_pre pre_cfg) 0 (Some pre_run))"
  have cfg: "config_at (w_man (pre_world aux)) web = Some pre_cfg" for aux
    by (simp add: config_at_def pre_man_at pre_rt)
  obtain m' tr' w' where "flow_new calm_kernel web pre_man [] = (Inr pre_flow, m', tr')"
    "flow_advance calm_kernel pre_flow (pre_world []) = (None, ?f, w')"
    using pre_flow_created pre_flow_waits by blast
  then have "starting calm_kernel pre_cfg ?f ([] @ confirmed pre_flow (pre_world []))"
    using cfg by (intro starting.intros) auto
  then have f: "starting calm_kernel pre_cfg ?f []" by (simp add: confirmed_def)
  have n: "\<not> launched ?f" by (simp add: launched_def is_spawn_wait_def)
  obtain r f' w'' where adv: "flow_advance calm_kernel ?f (pre_world [(103, Success)]) = (r, f', w'')" "launched f'"
    using pre_flow_launches by blast
  have "config_at (w_man (pre_world [(103, Success)])) (sf_unit ?f) = Some pre_cfg" using cfg by simp
  from exec_start_after_all_pre [OF f n this adv] f n show ?thesis by blast
qed

lemma wf_pre_man: "wf_manager pre_man"
  by (simp add: units_ok_def pre_man_def ordered_keys_def config_for_def pre_cfg_def web_cfg_fields)

theorem start_ends_by_deadline_witness:
  "\<exists>f m' tr'. flow_new calm_kernel web pre_man [] = (Inr f, m', tr') \<and> k_now calm_kernel [] < sf_deadline f
     \<and> (\<exists>e f' w'. flow_advance calm_kernel f ((pre_world [])\<lparr>w_tr := replicate 31 Now\<rparr>) = (Some (Inl e), f', w')
          \<and> (e = CancelledByStop web \<or> is_failed (w_man w') web))"
proof -
  let ?w = "(pre_world [])\<lparr>w_tr := replicate 31 Now\<rparr>"
  obtain m' tr' where f: "flow_new calm_kernel web pre_man [] = (Inr pre_flow, m', tr')" using pre_flow_created by blast
  have clock: "k_now calm_kernel t \<le> k_now calm_kernel (c # t)" for c t by (simp add: from_secs_def)
  have late: "sf_deadline pre_flow \<le> k_now calm_kernel (w_tr ?w)" by (simp add: pre_flow_def from_secs_def)
  have "sound_state (w_man ?w) (w_tr ?w)" by (simp add: sound_state_def wf_pre_man harmless_def)
  from start_ends_by_deadline [OF clock late this, of pre_cfg] f show ?thesis
    by (simp add: config_at_def pre_man_at pre_rt pre_flow_def from_secs_def)
qed

end
