(* ===== verification/Control_Protocol.thy ===== *)
theory Control_Protocol
  imports Unit_Name
begin

text \<open>
  The control protocol of \<open>rinit-core/src/control.rs\<close>: requests, responses, their byte
  encodings and the length-prefixed framing. A byte string is a list of \<open>char\<close>; integers are
  \<open>nat\<close>, with the truncating casts of the source written out.

  The properties: every request that can be built survives encoding, framing and decoding; the
  decoder only produces requests with valid unit names; every response fits the frame limit and
  decodes to the text that was sent, cut at a character boundary when it is too long.
\<close>

section \<open>Definitions\<close>

definition PROTOCOL_VERSION :: nat where "PROTOCOL_VERSION = 2"
definition MAX_FRAME_BYTES :: nat where "MAX_FRAME_BYTES = 512 * 1024"
definition LENGTH_PREFIX_BYTES :: nat where "LENGTH_PREFIX_BYTES = 4"

datatype StatusFormat = SfSystemd | SfPlain | SfShort | SfJson | SfCard

datatype ListFormat = LfTable | LfPlain | LfShort | LfJson

datatype Request =
    List
  | ListFormatted ListFormat
  | Status "UnitName option" nat
  | StatusFormatted "UnitName option" nat StatusFormat
  | Start UnitName
  | Stop UnitName
  | Restart UnitName
  | ResetFailed UnitName
  | Log "UnitName option" nat
  | Reload
  | Reboot
  | Poweroff

datatype Command =
    CList | CStatus | CStart | CStop | CRestart | CResetFailed | CLog | CReload
  | CStatusFormatted | CListFormatted | CReboot | CPoweroff

definition request_command :: "Request \<Rightarrow> Command" where
  "request_command r = (case r of
       List \<Rightarrow> CList | ListFormatted _ \<Rightarrow> CListFormatted | Status _ _ \<Rightarrow> CStatus
     | StatusFormatted _ _ _ \<Rightarrow> CStatusFormatted | Start _ \<Rightarrow> CStart | Stop _ \<Rightarrow> CStop
     | Restart _ \<Rightarrow> CRestart | ResetFailed _ \<Rightarrow> CResetFailed | Log _ _ \<Rightarrow> CLog
     | Reload \<Rightarrow> CReload | Reboot \<Rightarrow> CReboot | Poweroff \<Rightarrow> CPoweroff)"

definition with_unit :: "string \<Rightarrow> UnitName option \<Rightarrow> string" where
  "with_unit word u = (case u of Some n \<Rightarrow> word @ '' '' @ canonical n | None \<Rightarrow> word)"

definition request_describe :: "Request \<Rightarrow> string" where
  "request_describe r = (case r of
       List \<Rightarrow> ''list'' | ListFormatted _ \<Rightarrow> ''list''
     | Status u _ \<Rightarrow> with_unit ''status'' u | StatusFormatted u _ _ \<Rightarrow> with_unit ''status'' u
     | Start u \<Rightarrow> with_unit ''start'' (Some u) | Stop u \<Rightarrow> with_unit ''stop'' (Some u)
     | Restart u \<Rightarrow> with_unit ''restart'' (Some u)
     | ResetFailed u \<Rightarrow> with_unit ''reset-failed'' (Some u)
     | Log u _ \<Rightarrow> with_unit ''log'' u
     | Reload \<Rightarrow> ''reload'' | Reboot \<Rightarrow> ''reboot'' | Poweroff \<Rightarrow> ''poweroff'')"

definition status_format_parse :: "string \<Rightarrow> StatusFormat option" where
  "status_format_parse v =
     (if v = ''systemd'' then Some SfSystemd else if v = ''plain'' then Some SfPlain
      else if v = ''short'' then Some SfShort else if v = ''json'' then Some SfJson
      else if v = ''card'' then Some SfCard else None)"

definition status_format_byte :: "StatusFormat \<Rightarrow> nat" where
  "status_format_byte f = (case f of
     SfSystemd \<Rightarrow> 0 | SfPlain \<Rightarrow> 1 | SfShort \<Rightarrow> 2 | SfJson \<Rightarrow> 3 | SfCard \<Rightarrow> 4)"

definition status_format_from_byte :: "nat \<Rightarrow> StatusFormat option" where
  "status_format_from_byte b =
     (if b = 0 then Some SfSystemd else if b = 1 then Some SfPlain else if b = 2 then Some SfShort
      else if b = 3 then Some SfJson else if b = 4 then Some SfCard else None)"

definition list_format_parse :: "string \<Rightarrow> ListFormat option" where
  "list_format_parse v =
     (if v = ''table'' then Some LfTable else if v = ''plain'' then Some LfPlain
      else if v = ''short'' then Some LfShort else if v = ''json'' then Some LfJson else None)"

definition list_format_byte :: "ListFormat \<Rightarrow> nat" where
  "list_format_byte f = (case f of LfTable \<Rightarrow> 0 | LfPlain \<Rightarrow> 1 | LfShort \<Rightarrow> 2 | LfJson \<Rightarrow> 3)"

definition list_format_from_byte :: "nat \<Rightarrow> ListFormat option" where
  "list_format_from_byte b =
     (if b = 0 then Some LfTable else if b = 1 then Some LfPlain else if b = 2 then Some LfShort
      else if b = 3 then Some LfJson else None)"

definition command_byte :: "Command \<Rightarrow> nat" where
  "command_byte c = (case c of
       CList \<Rightarrow> 1 | CStatus \<Rightarrow> 2 | CStart \<Rightarrow> 3 | CStop \<Rightarrow> 4 | CRestart \<Rightarrow> 5 | CResetFailed \<Rightarrow> 6
     | CLog \<Rightarrow> 7 | CReload \<Rightarrow> 8 | CStatusFormatted \<Rightarrow> 9 | CListFormatted \<Rightarrow> 10 | CReboot \<Rightarrow> 11
     | CPoweroff \<Rightarrow> 12)"

definition command_from_byte :: "nat \<Rightarrow> Command option" where
  "command_from_byte b =
     (if b = 1 then Some CList else if b = 2 then Some CStatus else if b = 3 then Some CStart
      else if b = 4 then Some CStop else if b = 5 then Some CRestart
      else if b = 6 then Some CResetFailed else if b = 7 then Some CLog
      else if b = 8 then Some CReload else if b = 9 then Some CStatusFormatted
      else if b = 10 then Some CListFormatted else if b = 11 then Some CReboot
      else if b = 12 then Some CPoweroff else None)"

text \<open>The outcome of a request; the variants carry a prefix where a request has the same name.\<close>

datatype ReplyStatus =
    ROk | RError | RVersionMismatch | RUnknownCommand | RNoSuchUnit | RConflict | RBadRequest

definition reply_byte :: "ReplyStatus \<Rightarrow> nat" where
  "reply_byte s = (case s of
       ROk \<Rightarrow> 0 | RError \<Rightarrow> 1 | RVersionMismatch \<Rightarrow> 2 | RUnknownCommand \<Rightarrow> 3 | RNoSuchUnit \<Rightarrow> 4
     | RConflict \<Rightarrow> 5 | RBadRequest \<Rightarrow> 6)"

definition reply_from_byte :: "nat \<Rightarrow> ReplyStatus option" where
  "reply_from_byte b =
     (if b = 0 then Some ROk else if b = 1 then Some RError else if b = 2 then Some RVersionMismatch
      else if b = 3 then Some RUnknownCommand else if b = 4 then Some RNoSuchUnit
      else if b = 5 then Some RConflict else if b = 6 then Some RBadRequest else None)"

definition exit_code :: "ReplyStatus \<Rightarrow> nat" where
  "exit_code s = (case s of
       ROk \<Rightarrow> 0 | RNoSuchUnit \<Rightarrow> 3 | RConflict \<Rightarrow> 4
     | RError \<Rightarrow> 1 | RVersionMismatch \<Rightarrow> 1 | RUnknownCommand \<Rightarrow> 1 | RBadRequest \<Rightarrow> 1)"

datatype ProtocolError =
    TooShort
  | TooLong nat
  | VersionMismatch nat nat
  | UnknownCode nat
  | BadUnitName
  | BadText
  | TrailingBytes

definition protocol_error_text :: "ProtocolError \<Rightarrow> string" where
  "protocol_error_text e = (case e of
       TooShort \<Rightarrow> ''frame is too short''
     | TooLong declared \<Rightarrow> ''frame of '' @ show_nat declared @ '' bytes exceeds the limit''
     | VersionMismatch found expected \<Rightarrow>
         ''protocol version '' @ show_nat found @ '' does not match '' @ show_nat expected @ ''; rebuild rctl''
     | UnknownCode b \<Rightarrow> ''unknown code '' @ show_nat b
     | BadUnitName \<Rightarrow> ''unit name is invalid''
     | BadText \<Rightarrow> ''text field is not valid UTF-8''
     | TrailingBytes \<Rightarrow> ''trailing bytes after the message'')"

subsection \<open>Framing\<close>

text \<open>\<open>to_le_bytes\<close> and \<open>from_le_bytes\<close> at a width in bytes; the cast that precedes the first wraps.\<close>

fun to_le_bytes :: "nat \<Rightarrow> nat \<Rightarrow> string" where
  "to_le_bytes 0 n = []"
| "to_le_bytes (Suc w) n = char_of (n mod 256) # to_le_bytes w (n div 256)"

fun from_le_bytes :: "string \<Rightarrow> nat" where
  "from_le_bytes [] = 0"
| "from_le_bytes (c # s) = byte c + 256 * from_le_bytes s"

definition frame :: "string \<Rightarrow> string" where
  "frame body = to_le_bytes 4 (length body mod 2 ^ 32) @ body"

definition frame_len :: "string \<Rightarrow> ProtocolError + nat" where
  "frame_len prefix =
     (let declared = from_le_bytes prefix in
      if MAX_FRAME_BYTES < declared then Inl (TooLong declared) else Inr declared)"

subsection \<open>Requests\<close>

definition put_unit :: "UnitName \<Rightarrow> string" where
  "put_unit u = char_of (length (canonical u) mod 256) # canonical u"

definition put_opt_unit :: "UnitName option \<Rightarrow> string" where
  "put_opt_unit u = (case u of Some n \<Rightarrow> char_of (1::nat) # put_unit n | None \<Rightarrow> [char_of (0::nat)])"

definition encode_request :: "Request \<Rightarrow> string" where
  "encode_request r =
     to_le_bytes 2 PROTOCOL_VERSION @ [char_of (command_byte (request_command r))] @
     (case r of
        List \<Rightarrow> []
      | ListFormatted f \<Rightarrow> [char_of (list_format_byte f)]
      | Status u t \<Rightarrow> put_opt_unit u @ to_le_bytes 4 t
      | StatusFormatted u t f \<Rightarrow> put_opt_unit u @ to_le_bytes 4 t @ [char_of (status_format_byte f)]
      | Start u \<Rightarrow> put_unit u | Stop u \<Rightarrow> put_unit u
      | Restart u \<Rightarrow> put_unit u | ResetFailed u \<Rightarrow> put_unit u
      | Log u t \<Rightarrow> put_opt_unit u @ to_le_bytes 4 t
      | Reload \<Rightarrow> [] | Reboot \<Rightarrow> [] | Poweroff \<Rightarrow> [])"

record Decoder =
  d_bytes :: string
  d_pos :: nat

definition decoder_new :: "string \<Rightarrow> Decoder" where
  "decoder_new bs = \<lparr>d_bytes = bs, d_pos = 0\<rparr>"

definition d_is_empty :: "Decoder \<Rightarrow> bool" where
  "d_is_empty d \<longleftrightarrow> d_pos d = length (d_bytes d)"

text \<open>An end past the end of the slice, which includes an overflowing one, is \<open>TooShort\<close>.\<close>

definition d_take :: "nat \<Rightarrow> Decoder \<Rightarrow> ProtocolError + string \<times> Decoder" where
  "d_take count d =
     (let stop = d_pos d + count in
      if d_pos d \<le> stop \<and> stop \<le> length (d_bytes d)
      then Inr (take count (drop (d_pos d) (d_bytes d)), d\<lparr>d_pos := stop\<rparr>)
      else Inl TooShort)"

definition d_u8 :: "Decoder \<Rightarrow> ProtocolError + nat \<times> Decoder" where
  "d_u8 d = rbind (d_take 1 d)
     (\<lambda>(bs, d'). case bs of [] \<Rightarrow> Inl TooShort | b # _ \<Rightarrow> Inr (byte b, d'))"

definition d_u16 :: "Decoder \<Rightarrow> ProtocolError + nat \<times> Decoder" where
  "d_u16 d = rbind (d_take 2 d)
     (\<lambda>(bs, d'). if length bs = 2 then Inr (from_le_bytes bs, d') else Inl TooShort)"

definition d_u32 :: "Decoder \<Rightarrow> ProtocolError + nat \<times> Decoder" where
  "d_u32 d = rbind (d_take 4 d)
     (\<lambda>(bs, d'). if length bs = 4 then Inr (from_le_bytes bs, d') else Inl TooShort)"

definition d_unit :: "Decoder \<Rightarrow> ProtocolError + UnitName \<times> Decoder" where
  "d_unit d = rbind (d_u8 d)
     (\<lambda>(len, d1).
        if len = 0 \<or> MAX_UNIT_NAME_BYTES < len then Inl BadUnitName
        else rbind (d_take len d1)
          (\<lambda>(bs, d2).
             if \<not> utf8_valid bs then Inl BadText
             else (case parse_unit_name bs of
                     Inl _ \<Rightarrow> Inl BadUnitName
                   | Inr u \<Rightarrow> Inr (u, d2))))"

definition d_opt_unit :: "Decoder \<Rightarrow> ProtocolError + UnitName option \<times> Decoder" where
  "d_opt_unit d = rbind (d_u8 d)
     (\<lambda>(tag, d1).
        if tag = 0 then Inr (None, d1)
        else if tag = 1 then rbind (d_unit d1) (\<lambda>(u, d2). Inr (Some u, d2))
        else Inl BadUnitName)"

definition d_format :: "(nat \<Rightarrow> 'f option) \<Rightarrow> Decoder \<Rightarrow> ProtocolError + 'f \<times> Decoder" where
  "d_format from_byte d = rbind (d_u8 d)
     (\<lambda>(b, d1). rbind (ok_or (UnknownCode b) (from_byte b)) (\<lambda>f. Inr (f, d1)))"

definition decode_body :: "Command \<Rightarrow> Decoder \<Rightarrow> ProtocolError + Request \<times> Decoder" where
  "decode_body command d = (case command of
       CList \<Rightarrow> Inr (List, d)
     | CListFormatted \<Rightarrow> rbind (d_format list_format_from_byte d) (\<lambda>(f, d1). Inr (ListFormatted f, d1))
     | CStatus \<Rightarrow> rbind (d_opt_unit d) (\<lambda>(u, d1). rbind (d_u32 d1) (\<lambda>(t, d2). Inr (Status u t, d2)))
     | CStatusFormatted \<Rightarrow> rbind (d_opt_unit d) (\<lambda>(u, d1). rbind (d_u32 d1) (\<lambda>(t, d2).
         rbind (d_format status_format_from_byte d2) (\<lambda>(f, d3). Inr (StatusFormatted u t f, d3))))
     | CStart \<Rightarrow> rbind (d_unit d) (\<lambda>(u, d1). Inr (Start u, d1))
     | CStop \<Rightarrow> rbind (d_unit d) (\<lambda>(u, d1). Inr (Stop u, d1))
     | CRestart \<Rightarrow> rbind (d_unit d) (\<lambda>(u, d1). Inr (Restart u, d1))
     | CResetFailed \<Rightarrow> rbind (d_unit d) (\<lambda>(u, d1). Inr (ResetFailed u, d1))
     | CLog \<Rightarrow> rbind (d_opt_unit d) (\<lambda>(u, d1). rbind (d_u32 d1) (\<lambda>(t, d2). Inr (Log u t, d2)))
     | CReload \<Rightarrow> Inr (Reload, d)
     | CReboot \<Rightarrow> Inr (Reboot, d)
     | CPoweroff \<Rightarrow> Inr (Poweroff, d))"

definition decode_request :: "string \<Rightarrow> ProtocolError + Request" where
  "decode_request body =
     rbind (d_u16 (decoder_new body))
       (\<lambda>(version, d1).
          if version \<noteq> PROTOCOL_VERSION then Inl (VersionMismatch version PROTOCOL_VERSION)
          else rbind (d_u8 d1)
            (\<lambda>(cb, d2).
               rbind (ok_or (UnknownCode cb) (command_from_byte cb))
                 (\<lambda>command. rbind (decode_body command d2)
                    (\<lambda>(request, d3). if \<not> d_is_empty d3 then Inl TrailingBytes else Inr request))))"

subsection \<open>Responses\<close>

definition MARKER :: string where
  "MARKER = [CHR 0x0A] @ ''[truncated: control response exceeds the frame limit]''"

definition encode_response :: "ReplyStatus \<Rightarrow> string \<Rightarrow> string" where
  "encode_response status text =
     (let max_text = MAX_FRAME_BYTES - 1 in
      char_of (reply_byte status) #
        (if length text \<le> max_text then text
         else let keep = max_text - length MARKER;
                  stop = floor_boundary text (min (length text) keep)
              in take stop text @ MARKER))"

definition decode_response :: "string \<Rightarrow> ProtocolError + ReplyStatus \<times> string" where
  "decode_response body =
     (case body of
        [] \<Rightarrow> Inl TooShort
      | b # text \<Rightarrow>
          rbind (ok_or (UnknownCode (byte b)) (reply_from_byte (byte b)))
            (\<lambda>status. if \<not> utf8_valid text then Inl BadText else Inr (status, text)))"

section \<open>Bytes and the decoder\<close>

lemma length_to_le_bytes [simp]: "length (to_le_bytes w n) = w"
  by (induction w arbitrary: n) auto

lemma byte_char_of_mod: "byte (char_of n) = n mod 256"
  by (simp add: byte_def)

lemma from_to_le_bytes: "from_le_bytes (to_le_bytes w n) = n mod 256 ^ w"
proof (induction w arbitrary: n)
  case (Suc w)
  have "n mod 256 + 256 * (n div 256 mod 256 ^ w) = n mod 256 ^ Suc w"
    by (simp add: mod_mult2_eq)
  then show ?case by (simp add: Suc.IH byte_char_of_mod)
qed simp

lemma from_le_bytes_bound: "from_le_bytes s < 256 ^ length s"
proof (induction s)
  case (Cons c s)
  then show ?case using byte_less [of c] by (simp, linarith)
qed simp

text \<open>\<open>reads d s\<close>: the bytes \<open>s\<close> are what is left to read.\<close>

definition reads :: "Decoder \<Rightarrow> string \<Rightarrow> bool" where
  "reads d s \<longleftrightarrow> d_pos d \<le> length (d_bytes d) \<and> drop (d_pos d) (d_bytes d) = s"

lemma reads_new: "reads (decoder_new bs) bs"
  by (simp add: reads_def decoder_new_def)

lemma reads_empty: "reads d s \<Longrightarrow> d_is_empty d \<longleftrightarrow> s = []"
  by (auto simp: reads_def d_is_empty_def)

lemma d_take_reads:
  assumes "reads d (a @ s)"
  shows "\<exists>d'. d_take (length a) d = Inr (a, d') \<and> reads d' s"
proof -
  have "length (d_bytes d) = d_pos d + length a + length s"
    using assms unfolding reads_def by (metis add.assoc le_add_diff_inverse length_append length_drop)
  moreover have "drop (d_pos d + length a) (d_bytes d) = drop (length a) (drop (d_pos d) (d_bytes d))"
    by (simp add: add.commute)
  ultimately show ?thesis
    using assms by (simp add: d_take_def reads_def del: drop_drop)
qed

lemma d_take_reads':
  "reads d (a @ s) \<Longrightarrow> length a = n \<Longrightarrow> \<exists>d'. d_take n d = Inr (a, d') \<and> reads d' s"
  using d_take_reads by blast

lemma d_u8_reads: "reads d (char_of n # s) \<Longrightarrow> n < 256 \<Longrightarrow> \<exists>d'. d_u8 d = Inr (n, d') \<and> reads d' s"
  using d_take_reads' [of d "[char_of n]" s 1] by (auto simp: d_u8_def)

lemma d_u16_reads:
  "reads d (to_le_bytes 2 n @ s) \<Longrightarrow> n < 2 ^ 16 \<Longrightarrow> \<exists>d'. d_u16 d = Inr (n, d') \<and> reads d' s"
  using d_take_reads' [of d "to_le_bytes 2 n" s 2] by (auto simp: d_u16_def from_to_le_bytes)

lemma d_u32_reads:
  "reads d (to_le_bytes 4 n @ s) \<Longrightarrow> n \<le> u32_max \<Longrightarrow> \<exists>d'. d_u32 d = Inr (n, d') \<and> reads d' s"
  using d_take_reads' [of d "to_le_bytes 4 n" s 4] by (auto simp: d_u32_def from_to_le_bytes u32_max_def)

lemma wf_canonical_length:
  "wf_unit_name u \<Longrightarrow> 0 < length (canonical u) \<and> length (canonical u) \<le> 255 \<and> utf8_valid (canonical u)
     \<and> parse_unit_name (canonical u) = Inr u"
  using wf_canonical_bounds [of u] wf_canonical_ascii [of u] wf_unit_name_iff_parse [of u]
  by (auto simp: MAX_UNIT_NAME_BYTES_def utf8_valid_ascii)

lemma d_unit_reads:
  assumes "reads d (put_unit u @ s)" "wf_unit_name u"
  shows "\<exists>d'. d_unit d = Inr (u, d') \<and> reads d' s"
proof -
  note W = wf_canonical_length [OF assms(2)]
  from assms(1) W obtain d1 where d1: "d_u8 d = Inr (length (canonical u), d1)" "reads d1 (canonical u @ s)"
    using d_u8_reads [of d "length (canonical u)" "canonical u @ s"] by (auto simp: put_unit_def)
  from d_take_reads [OF d1(2)] obtain d2 where
    "d_take (length (canonical u)) d1 = Inr (canonical u, d2)" "reads d2 s" by blast
  with d1(1) W show ?thesis by (auto simp: d_unit_def MAX_UNIT_NAME_BYTES_def)
qed

lemma d_opt_unit_reads:
  assumes "reads d (put_opt_unit u @ s)" "pred_option wf_unit_name u"
  shows "\<exists>d'. d_opt_unit d = Inr (u, d') \<and> reads d' s"
proof (cases u)
  case None
  then show ?thesis
    using assms(1) d_u8_reads [of d 0 s] by (auto simp: put_opt_unit_def d_opt_unit_def)
next
  case (Some n)
  then obtain d1 where d1: "d_u8 d = Inr (1, d1)" "reads d1 (put_unit n @ s)"
    using assms(1) d_u8_reads [of d 1 "put_unit n @ s"] by (auto simp: put_opt_unit_def)
  from d_unit_reads [OF d1(2)] assms(2) Some obtain d2 where "d_unit d1 = Inr (n, d2)" "reads d2 s" by auto
  with d1(1) Some show ?thesis by (auto simp: d_opt_unit_def)
qed

lemma d_format_reads:
  assumes "reads d (char_of (to_byte f) # s)" "to_byte f < 256" "from_byte (to_byte f) = Some f"
  shows "\<exists>d'. d_format from_byte d = Inr (f, d') \<and> reads d' s"
  using d_u8_reads [OF assms(1,2)] assms(3) by (auto simp: d_format_def)

lemma command_code: "command_from_byte (command_byte c) = Some c \<and> command_byte c < 256"
  by (cases c) (simp_all add: command_from_byte_def command_byte_def)

lemma status_format_code:
  "status_format_from_byte (status_format_byte f) = Some f \<and> status_format_byte f < 256"
  by (cases f) (simp_all add: status_format_from_byte_def status_format_byte_def)

lemma list_format_code: "list_format_from_byte (list_format_byte f) = Some f \<and> list_format_byte f < 256"
  by (cases f) (simp_all add: list_format_from_byte_def list_format_byte_def)

lemma reply_code: "reply_from_byte (reply_byte r) = Some r \<and> reply_byte r < 256"
  by (cases r) (simp_all add: reply_from_byte_def reply_byte_def)

lemmas codes_inverse = command_code status_format_code list_format_code reply_code

definition wf_request :: "Request \<Rightarrow> bool" where
  "wf_request r \<longleftrightarrow> (case r of
       Status u t \<Rightarrow> pred_option wf_unit_name u \<and> t \<le> u32_max
     | StatusFormatted u t f \<Rightarrow> pred_option wf_unit_name u \<and> t \<le> u32_max
     | Start u \<Rightarrow> wf_unit_name u | Stop u \<Rightarrow> wf_unit_name u
     | Restart u \<Rightarrow> wf_unit_name u | ResetFailed u \<Rightarrow> wf_unit_name u
     | Log u t \<Rightarrow> pred_option wf_unit_name u \<and> t \<le> u32_max
     | _ \<Rightarrow> True)"

definition request_payload :: "Request \<Rightarrow> string" where
  "request_payload r = drop 3 (encode_request r)"

lemma encode_request_split:
  "encode_request r =
     to_le_bytes 2 PROTOCOL_VERSION @ char_of (command_byte (request_command r)) # request_payload r"
  by (simp add: encode_request_def request_payload_def)

lemma decode_body_reads:
  assumes "wf_request r" "reads d (request_payload r)"
  shows "\<exists>d'. decode_body (request_command r) d = Inr (r, d') \<and> reads d' []"
proof -
  note R = assms(2) [unfolded request_payload_def encode_request_def, simplified]
  note dec = decode_body_def request_command_def
  have one: "\<exists>d'. rbind (d_unit d) (\<lambda>(u, d1). Inr (C u, d1)) = Inr (C u, d') \<and> reads d' []"
    if "reads d (put_unit u)" "wf_unit_name u" for C :: "UnitName \<Rightarrow> Request" and u
    using d_unit_reads [of d u "[]"] that by auto
  show ?thesis
  proof (cases r)
    case (ListFormatted f)
    with R obtain d1 where "d_format list_format_from_byte d = Inr (f, d1)" "reads d1 []"
      using d_format_reads [of d list_format_byte f "[]" list_format_from_byte] list_format_code by auto
    with ListFormatted show ?thesis by (auto simp: dec)
  next
    case (Status u t)
    with R assms(1) obtain d1 where d1: "d_opt_unit d = Inr (u, d1)" "reads d1 (to_le_bytes 4 t @ [])"
      using d_opt_unit_reads [of d u "to_le_bytes 4 t"] by (auto simp: wf_request_def)
    with d_u32_reads [OF d1(2)] Status assms(1) show ?thesis by (auto simp: dec wf_request_def)
  next
    case (Log u t)
    with R assms(1) obtain d1 where d1: "d_opt_unit d = Inr (u, d1)" "reads d1 (to_le_bytes 4 t @ [])"
      using d_opt_unit_reads [of d u "to_le_bytes 4 t"] by (auto simp: wf_request_def)
    with d_u32_reads [OF d1(2)] Log assms(1) show ?thesis by (auto simp: dec wf_request_def)
  next
    case (StatusFormatted u t f)
    let ?f = "[char_of (status_format_byte f)]"
    from StatusFormatted R assms(1) obtain d1 where d1: "d_opt_unit d = Inr (u, d1)"
      "reads d1 (to_le_bytes 4 t @ ?f)"
      using d_opt_unit_reads [of d u "to_le_bytes 4 t @ ?f"] by (auto simp: wf_request_def)
    with d_u32_reads [OF d1(2)] StatusFormatted assms(1) obtain d2 where
      d2: "d_u32 d1 = Inr (t, d2)" "reads d2 ?f" by (auto simp: wf_request_def)
    from d_format_reads [of d2 status_format_byte f "[]" status_format_from_byte] d2(2)
      status_format_code [of f] obtain d3 where
      "d_format status_format_from_byte d2 = Inr (f, d3)" "reads d3 []" by blast
    with d1 d2 StatusFormatted show ?thesis by (auto simp: dec)
  qed (use R assms(1) one in \<open>simp_all add: dec wf_request_def\<close>)
qed

lemma decode_encode_request:
  assumes "wf_request r"
  shows "decode_request (encode_request r) = Inr r"
proof -
  note E = encode_request_split [of r]
  have "reads (decoder_new (encode_request r))
      (to_le_bytes 2 PROTOCOL_VERSION @ char_of (command_byte (request_command r)) # request_payload r)"
    unfolding E [symmetric] by (rule reads_new)
  from d_u16_reads [OF this] obtain d1 where d1: "d_u16 (decoder_new (encode_request r)) = Inr (PROTOCOL_VERSION, d1)"
    "reads d1 (char_of (command_byte (request_command r)) # request_payload r)"
    by (auto simp: PROTOCOL_VERSION_def)
  from d_u8_reads [OF d1(2) conjunct2 [OF command_code]] obtain d2 where
    d2: "d_u8 d1 = Inr (command_byte (request_command r), d2)" "reads d2 (request_payload r)" by blast
  from decode_body_reads [OF assms d2(2)] obtain d3 where
    "decode_body (request_command r) d2 = Inr (r, d3)" "reads d3 []" by blast
  with d1 d2 show ?thesis by (simp add: decode_request_def codes_inverse reads_empty)
qed

lemma length_put_unit: "wf_unit_name u \<Longrightarrow> length (put_unit u) \<le> 256"
  using wf_canonical_length [of u] by (simp add: put_unit_def)

lemma length_put_opt_unit: "pred_option wf_unit_name u \<Longrightarrow> length (put_opt_unit u) \<le> 257"
  using length_put_unit by (cases u) (auto simp: put_opt_unit_def)

lemma encode_request_short: "wf_request r \<Longrightarrow> length (encode_request r) \<le> 265"
  using length_put_unit length_put_opt_unit
  by (cases r) (fastforce simp: encode_request_def wf_request_def)+

lemma frame_parts:
  assumes "length body \<le> MAX_FRAME_BYTES"
  shows "frame_len (take LENGTH_PREFIX_BYTES (frame body)) = Inr (length body)
    \<and> drop LENGTH_PREFIX_BYTES (frame body) = body"
proof -
  have "length body < 2 ^ 32" using assms by (simp add: MAX_FRAME_BYTES_def)
  then show ?thesis
    using assms by (simp add: frame_def frame_len_def LENGTH_PREFIX_BYTES_def from_to_le_bytes)
qed

text \<open>
  Every well-formed request survives the wire: its frame announces the length of its body,
  which the receiver accepts, and the body decodes to the request that was encoded.
\<close>

theorem request_round_trip:
  assumes "wf_request r"
  shows "frame_len (take LENGTH_PREFIX_BYTES (frame (encode_request r))) = Inr (length (encode_request r))
    \<and> decode_request (drop LENGTH_PREFIX_BYTES (frame (encode_request r))) = Inr r"
proof -
  have "length (encode_request r) \<le> MAX_FRAME_BYTES"
    using encode_request_short [OF assms] by (simp add: MAX_FRAME_BYTES_def)
  from frame_parts [OF this] decode_encode_request [OF assms] show ?thesis by simp
qed

theorem request_round_trip_witness:
  "decode_request (drop LENGTH_PREFIX_BYTES
      (frame (encode_request (Log (Some (UnitName ''a.service'' Service)) 20)))) =
    Inr (Log (Some (UnitName ''a.service'' Service)) 20)"
proof -
  have "wf_unit_name (UnitName ''a.service'' Service)"
    unfolding wf_unit_name_iff_parse by code_simp
  then have "wf_request (Log (Some (UnitName ''a.service'' Service)) 20)"
    by (simp add: wf_request_def u32_max_def)
  from request_round_trip [OF this] show ?thesis by blast
qed

section \<open>What the decoder accepts\<close>

lemma d_u32_bound: "d_u32 d = Inr (n, d') \<Longrightarrow> n \<le> u32_max"
proof -
  assume "d_u32 d = Inr (n, d')"
  then obtain bs where "length bs = 4" "n = from_le_bytes bs"
    by (auto simp: d_u32_def rbind_Inr_iff split: if_splits)
  then show ?thesis using from_le_bytes_bound [of bs] by (simp add: u32_max_def)
qed

lemma case_err_Inr_iff:
  "(case m of Inl _ \<Rightarrow> Inl e | Inr u \<Rightarrow> Inr (f u)) = Inr y \<longleftrightarrow> (\<exists>u. m = Inr u \<and> y = f u)"
  by (cases m) auto

lemma d_unit_wf: "d_unit d = Inr (u, d') \<Longrightarrow> wf_unit_name u"
  by (auto simp: d_unit_def rbind_Inr_iff case_err_Inr_iff split: if_splits dest: parse_unit_name_wf)

lemma d_opt_unit_wf: "d_opt_unit d = Inr (u, d') \<Longrightarrow> pred_option wf_unit_name u"
  by (auto simp: d_opt_unit_def rbind_Inr_iff split: if_splits dest: d_unit_wf)

lemma decode_body_wf: "decode_body c d = Inr (r, d') \<Longrightarrow> wf_request r"
  by (cases c) (auto simp: decode_body_def wf_request_def rbind_Inr_iff
      dest: d_unit_wf d_opt_unit_wf d_u32_bound)

text \<open>
  Whatever bytes arrive, a request that the decoder accepts is well formed: its unit names are
  valid and canonical and its counts fit 32 bits, so it can be encoded and decoded again.
\<close>

theorem decode_request_valid:
  assumes "decode_request body = Inr r"
  shows "wf_request r \<and> decode_request (encode_request r) = Inr r"
proof -
  have "wf_request r"
    using assms by (auto simp: decode_request_def rbind_Inr_iff split: if_splits dest: decode_body_wf)
  then show ?thesis by (simp add: decode_encode_request)
qed

theorem decode_request_valid_witness:
  "wf_request Reload \<and> decode_request (encode_request Reload) = Inr Reload"
proof -
  have "decode_request (encode_request Reload) = Inr Reload" by code_simp
  then show ?thesis by (rule decode_request_valid)
qed

section \<open>Responses\<close>

lemma MARKER_facts: "length MARKER = 54" "utf8_valid MARKER"
  by code_simp+

definition sent_text :: "string \<Rightarrow> string" where
  "sent_text text =
     (if length text \<le> MAX_FRAME_BYTES - 1 then text
      else take (floor_boundary text (MAX_FRAME_BYTES - 1 - length MARKER)) text @ MARKER)"

lemma encode_response_eq: "encode_response st text = char_of (reply_byte st) # sent_text text"
  by (auto simp: encode_response_def sent_text_def Let_def min_def MAX_FRAME_BYTES_def MARKER_facts)

lemma length_sent_text: "length (sent_text text) \<le> MAX_FRAME_BYTES - 1"
proof (cases "length text \<le> MAX_FRAME_BYTES - 1")
  case False
  have "floor_boundary text (MAX_FRAME_BYTES - 1 - length MARKER) \<le> MAX_FRAME_BYTES - 1 - length MARKER"
    by (rule floor_boundary_le)
  then show ?thesis using False by (simp add: sent_text_def MAX_FRAME_BYTES_def MARKER_facts)
qed (simp add: sent_text_def)

lemma utf8_sent_text: "utf8_valid text \<Longrightarrow> utf8_valid (sent_text text)"
  by (simp add: sent_text_def utf8_valid_append utf8_valid_cut MARKER_facts)

text \<open>
  Every response fits the frame limit and decodes to the status that was sent and to the text,
  or, when the text is too long, to a prefix of it that ends at a character boundary followed by
  the truncation marker.
\<close>

theorem response_fits_and_decodes:
  assumes "utf8_valid text"
  shows "length (encode_response st text) \<le> MAX_FRAME_BYTES
    \<and> (\<exists>received. decode_response (encode_response st text) = Inr (st, received)
         \<and> (length text < MAX_FRAME_BYTES \<and> received = text
            \<or> MAX_FRAME_BYTES \<le> length text
              \<and> (\<exists>kept. received = take kept text @ MARKER \<and> is_char_boundary text kept
                   \<and> kept + length MARKER < MAX_FRAME_BYTES)))"
proof -
  have "decode_response (encode_response st text) = Inr (st, sent_text text)"
    using reply_code [of st] utf8_sent_text [OF assms]
    by (simp add: encode_response_eq decode_response_def)
  moreover have "length (encode_response st text) \<le> MAX_FRAME_BYTES"
    using length_sent_text [of "text"] by (simp add: encode_response_eq MAX_FRAME_BYTES_def)
  moreover have "floor_boundary text (MAX_FRAME_BYTES - 1 - length MARKER) + length MARKER < MAX_FRAME_BYTES"
    using floor_boundary_le [of "text" "MAX_FRAME_BYTES - 1 - length MARKER"]
    by (simp add: MAX_FRAME_BYTES_def MARKER_facts)
  ultimately show ?thesis
    using floor_boundary_ok [of "text" "MAX_FRAME_BYTES - 1 - length MARKER"]
    by (cases "length text < MAX_FRAME_BYTES") (auto simp: sent_text_def MAX_FRAME_BYTES_def)
qed

theorem response_fits_and_decodes_witness:
  "length (encode_response RConflict ''busy'') \<le> MAX_FRAME_BYTES"
proof -
  have "utf8_valid ''busy''" by code_simp
  from response_fits_and_decodes [OF this] show ?thesis by blast
qed

end
