(* ===== verification/Start_Coord.thy ===== *)
theory Start_Coord
  imports Start_Flow_Props Control_Protocol
begin

text \<open>
  Every start the supervisor is driving (\<open>StartCoordinator\<close> and \<open>ControlStart\<close> of \<open>rinit/src/boot.rs\<close>).
  The flows are a map keyed by unit, so a unit never has two; the exits kept for auxiliary commands are
  the \<open>w_aux\<close> of the world the flows share. A client waiting for a reply is a number, and the replies
  sent are collected in the order of sending.
\<close>

section \<open>State\<close>

type_synonym flow_map = "(UnitName \<times> StartFlow) list"

text \<open>The texts of the replies, one constructor per message.\<close>

datatype ReplyText =
  StartedText UnitName | AlreadyActive UnitName | OverBudget UnitName | NoSuchUnitText UnitName
| FailureText UnitName UnitName | StartsAfterwards UnitName | DependencyStopping UnitName
| CannotStartUnit UnitName StartError | CannotStartDependency UnitName StartError | ShuttingDown

type_synonym client = nat

record ControlStart =
  cs_target :: UnitName
  cs_order :: "UnitName list"
  cs_required :: "UnitName list"
  cs_index :: nat
  cs_waiting :: "UnitName option"
  cs_reply :: "client option"
  cs_target_was_active :: bool
  cs_deadline :: instant
  cs_quiet :: bool

record StartCoordinator =
  co_flows :: flow_map
  co_controls :: "ControlStart list"
  co_sent :: "(client \<times> ReplyStatus \<times> ReplyText) list"

definition coordinator_default :: StartCoordinator where
  "coordinator_default = \<lparr>co_flows = [], co_controls = [], co_sent = []\<rparr>"

definition is_starting :: "flow_map \<Rightarrow> UnitName \<Rightarrow> bool" where
  "is_starting flows u \<longleftrightarrow> map_of flows u \<noteq> None"

definition state_up :: "UnitState \<Rightarrow> bool" where
  "state_up s \<longleftrightarrow> s = Active \<or> s = ActiveExited"

definition unit_state_up :: "UnitManager \<Rightarrow> UnitName \<Rightarrow> bool" where
  "unit_state_up m u = (case unit_at m u of None \<Rightarrow> False | Some rt \<Rightarrow> state_up (rt_state rt))"

section \<open>Effects\<close>

text \<open>Create the flow a start asks for, unless the unit has one.\<close>

definition create_flow :: "Kernel \<Rightarrow> UnitName \<Rightarrow> flow_map \<Rightarrow> World \<Rightarrow> StartError option \<times> flow_map \<times> World" where
  "create_flow K u flows w =
     (if is_starting flows u then (None, flows, w)
      else (case on_man (flow_new K u) w of
              (Inl e, w1) \<Rightarrow> (Some e, flows, w1)
            | (Inr f, w1) \<Rightarrow> (None, put u f flows, w1)))"

definition apply_start_effect :: "Kernel \<Rightarrow> UnitName \<Rightarrow> Effect \<Rightarrow> flow_map \<Rightarrow> World
    \<Rightarrow> StartError option \<times> flow_map \<times> World" where
  "apply_start_effect K u effect flows w = (case effect of
      SpawnProcess \<Rightarrow> create_flow K u flows w
    | CancelBackoffAndStart \<Rightarrow> create_flow K u flows w
    | ClearStartLimitAndStart \<Rightarrow> create_flow K u flows (w\<lparr>w_man := clear_start_limit u (w_man w)\<rparr>)
    | NoEffect \<Rightarrow> (None, flows, w)
    | SendStopSignal \<Rightarrow> (Some (AskedToStop u), flows, snd (on_man (\<lambda>m tr. ((), stop_unit K u m tr)) w))
    | CancelBackoffAndStop \<Rightarrow> (Some (AskedToStop u), flows, snd (on_man (\<lambda>m tr. ((), stop_unit K u m tr)) w))
    | ScheduleBackoff _ \<Rightarrow> (Some (UnexpectedEffect u), flows, w))"

text \<open>\<open>apply_effect\<close>: whether the effect was one a stop may have.\<close>

definition apply_effect :: "Kernel \<Rightarrow> UnitName \<Rightarrow> Effect option \<Rightarrow> UnitManager \<Rightarrow> trace
    \<Rightarrow> (RuntimeError option) \<times> UnitManager \<times> trace" where
  "apply_effect K u effect m tr = (case effect of
      None \<Rightarrow> (None, m, tr)
    | Some NoEffect \<Rightarrow> (None, m, tr)
    | Some SendStopSignal \<Rightarrow> (None, stop_unit K u m tr)
    | Some CancelBackoffAndStop \<Rightarrow> (None, stop_unit K u m tr)
    | Some (ScheduleBackoff _) \<Rightarrow> (None, m, tr)
    | Some _ \<Rightarrow> (Some (RtIo ''start effect'' (IoCustom ''InvalidInput''
          (canonical u @ '' was asked to start outside the start coordinator''))), m, tr))"

section \<open>A deferred start\<close>

definition chain_seconds :: "UnitManager \<Rightarrow> UnitName list \<Rightarrow> nat" where
  "chain_seconds m order = foldl (sat_add u64_max) 0
     (List.map_filter (\<lambda>n. map_option (\<lambda>rt. timeout_start_sec (rt_config rt)) (unit_at m n)) order)"

definition unlimited :: "UnitManager \<Rightarrow> UnitName list \<Rightarrow> bool" where
  "unlimited m order = list_ex (\<lambda>n. case unit_at m n of
      None \<Rightarrow> True | Some rt \<Rightarrow> timeout_start_sec (rt_config rt) = 0) order"

definition control_new :: "Kernel \<Rightarrow> UnitName \<Rightarrow> UnitManager \<Rightarrow> trace
    \<Rightarrow> (string + ControlStart) \<times> UnitManager \<times> trace" where
  "control_new K u m tr = (case start_order m u of
      (Inl e, m1) \<Rightarrow> (Inl e, m1, tr)
    | (Inr earlier, m1) \<Rightarrow>
        (let order = earlier @ [u];
             (at, tr1) = (if unlimited m1 order then start_deadline_of K 0 tr
                          else after_secs K (max (sat_add u64_max (chain_seconds m1 order) 5) 1) tr)
         in (Inr \<lparr>cs_target = u, cs_order = order, cs_required = required_closure m1 u, cs_index = 0,
                  cs_waiting = None, cs_reply = None, cs_target_was_active = unit_state_up m1 u,
                  cs_deadline = at, cs_quiet = False\<rparr>, m1, tr1)))"

text \<open>One round of the loop.\<close>

datatype ControlStep = CGo ControlStart | CWait ControlStart | CDone ReplyStatus ReplyText

definition needed :: "ControlStart \<Rightarrow> UnitName \<Rightarrow> bool" where
  "needed cs u \<longleftrightarrow> u = cs_target cs \<or> u \<in> set (cs_required cs)"

definition control_wait :: "ControlStart \<Rightarrow> UnitName \<Rightarrow> flow_map \<Rightarrow> UnitManager \<Rightarrow> ControlStep" where
  "control_wait cs v flows m =
     (if is_starting flows v then CWait cs
      else (case unit_at m v of
              None \<Rightarrow> CDone RNoSuchUnit (NoSuchUnitText v)
            | Some rt \<Rightarrow>
                if state_up (rt_state rt) then CGo (cs\<lparr>cs_waiting := None\<rparr>)
                else if rt_state rt = Starting then CWait cs
                else if needed cs v then CDone RError (FailureText v (cs_target cs))
                else CGo (cs\<lparr>cs_waiting := None\<rparr>)))"

text \<open>The start of one unit of the order; the flow just made is advanced once.\<close>

definition launch_effect :: "Kernel \<Rightarrow> ControlStart \<Rightarrow> UnitName \<Rightarrow> Effect \<Rightarrow> flow_map \<Rightarrow> World
    \<Rightarrow> ControlStep \<times> flow_map \<times> World" where
  "launch_effect K cs u e flows w = (case apply_start_effect K u e flows w of
      (Some reason, flows1, w1) \<Rightarrow>
        (CDone RError (if u = cs_target cs then CannotStartUnit u reason else CannotStartDependency u reason),
         flows1, w1)
    | (None, flows1, w1) \<Rightarrow>
        (case map_of flows1 u of
           None \<Rightarrow> (CGo (cs\<lparr>cs_waiting := Some u\<rparr>), flows1, w1)
         | Some f \<Rightarrow>
             (let (r, f', w2) = flow_advance K f w1
              in (CGo (cs\<lparr>cs_waiting := Some u\<rparr>),
                  if r \<noteq> None then remove_key u flows1 else put u f' flows1, w2))))"

definition control_launch :: "Kernel \<Rightarrow> ControlStart \<Rightarrow> UnitName \<Rightarrow> flow_map \<Rightarrow> World
    \<Rightarrow> ControlStep \<times> flow_map \<times> World" where
  "control_launch K cs u flows w =
     (let source = (if u = cs_target cs then UserStart else Dependency);
          (effect, w1) = on_man (request_start K u source) w
      in case effect of
        None \<Rightarrow>
          (if u = cs_target cs then CDone ROk (StartsAfterwards u)
           else CDone RError (DependencyStopping u), flows, w1)
      | Some e \<Rightarrow>
          if e = NoEffect then (CGo (cs\<lparr>cs_waiting := Some u\<rparr>), flows, w1)
          else launch_effect K cs u e flows w1)"

definition control_step :: "Kernel \<Rightarrow> ControlStart \<Rightarrow> flow_map \<Rightarrow> World \<Rightarrow> ControlStep \<times> flow_map \<times> World" where
  "control_step K cs flows w0 =
     (let (now, w) = on_tr (read_clock K) w0 in
      if cs_deadline cs \<le> now then (CDone RError (OverBudget (cs_target cs)), flows, w)
      else (case cs_waiting cs of
        Some v \<Rightarrow> (control_wait cs v flows (w_man w), flows, w)
      | None \<Rightarrow>
          if length (cs_order cs) \<le> cs_index cs
          then (CDone ROk (if cs_target_was_active cs then AlreadyActive (cs_target cs)
                            else StartedText (cs_target cs)), flows, w)
          else
            let u = cs_order cs ! cs_index cs; cs1 = cs\<lparr>cs_index := cs_index cs + 1\<rparr>
            in if u \<noteq> cs_target cs \<and> is_failed (w_man w) u
               then (if u \<in> set (cs_required cs) then CDone RError (FailureText u (cs_target cs)) else CGo cs1,
                     flows, w)
               else if unit_state_up (w_man w) u then (CGo cs1, flows, w)
               else if is_starting flows u then (CGo (cs1\<lparr>cs_waiting := Some u\<rparr>), flows, w)
               else control_launch K cs1 u flows w))"

definition job_before :: "(ControlStart \<times> ControlStart) set" where
  "job_before = measures [\<lambda>cs. length (cs_order cs) - cs_index cs, \<lambda>cs. if cs_waiting cs = None then 0 else 1]"

lemma wf_job_before: "wf job_before"
  by (simp add: job_before_def)

lemma control_step_descends:
  "control_step K cs flows w = (CGo cs', flows', w') \<Longrightarrow> (cs', cs) \<in> job_before"
  by (auto simp: control_step_def control_wait_def control_launch_def launch_effect_def job_before_def
      case_prod_beta Let_def split: if_splits option.splits)

function control_loop :: "Kernel \<Rightarrow> ControlStart \<Rightarrow> flow_map \<Rightarrow> World
    \<Rightarrow> (ReplyStatus \<times> ReplyText) option \<times> ControlStart \<times> flow_map \<times> World" where
  "control_loop K cs flows w = (case control_step K cs flows w of
      (CGo cs', flows', w') \<Rightarrow> control_loop K cs' flows' w'
    | (CWait cs', flows', w') \<Rightarrow> (None, cs', flows', w')
    | (CDone st t, flows', w') \<Rightarrow> (Some (st, t), cs, flows', w'))"
  by pat_completeness auto
termination
  by (relation "inv_image job_before (\<lambda>(K, cs, flows, w). cs)")
    (auto simp: wf_job_before intro: control_step_descends [OF sym])

declare control_loop.simps [simp del]


section \<open>The coordinator\<close>

definition coord_begin :: "Kernel \<Rightarrow> UnitName \<Rightarrow> StartCoordinator \<Rightarrow> World
    \<Rightarrow> StartError option \<times> StartCoordinator \<times> World" where
  "coord_begin K u co w =
     (let (e, flows, w1) = create_flow K u (co_flows co) w in (e, co\<lparr>co_flows := flows\<rparr>, w1))"

definition begin_effect :: "Kernel \<Rightarrow> UnitName \<Rightarrow> Effect \<Rightarrow> StartCoordinator \<Rightarrow> World
    \<Rightarrow> StartError option \<times> StartCoordinator \<times> World" where
  "begin_effect K u effect co w =
     (let (e, flows, w1) = apply_start_effect K u effect (co_flows co) w in (e, co\<lparr>co_flows := flows\<rparr>, w1))"

definition start_async :: "Kernel \<Rightarrow> UnitName \<Rightarrow> StartCoordinator \<Rightarrow> World
    \<Rightarrow> string option \<times> StartCoordinator \<times> World" where
  "start_async K u co w = (case on_man (control_new K u) w of
      (Inl e, w1) \<Rightarrow> (Some e, co, w1)
    | (Inr job, w1) \<Rightarrow> (None, co\<lparr>co_controls := co_controls co @ [job\<lparr>cs_quiet := True\<rparr>]\<rparr>, w1))"

text \<open>Exits no unit owns are kept when a flow waits for them.\<close>

fun keep_aux :: "flow_map \<Rightarrow> (pid \<times> ExitOutcome) list \<Rightarrow> (pid \<times> ExitOutcome) list \<Rightarrow> (pid \<times> ExitOutcome) list" where
  "keep_aux flows [] aux = aux"
| "keep_aux flows ((p, outcome) # rest) aux =
     keep_aux flows rest (if list_ex (\<lambda>(_, f). wants_pid f p) flows then put p outcome aux else aux)"

definition coord_reap :: "Kernel \<Rightarrow> ChildExit list \<Rightarrow> StartCoordinator \<Rightarrow> World \<Rightarrow> Outcome list \<times> World" where
  "coord_reap K evs co w =
     (let ((outs, unclaimed), w1) = on_man (reap_into_manager K evs) w
      in (outs, w1\<lparr>w_aux := keep_aux (co_flows co) unclaimed (w_aux w1)\<rparr>))"

fun advance_flows :: "Kernel \<Rightarrow> flow_map \<Rightarrow> World
    \<Rightarrow> flow_map \<times> UnitName list \<times> UnitName list \<times> World" where
  "advance_flows K [] w = ([], [], [], w)"
| "advance_flows K ((u, f) # rest) w =
     (let (r, f', w1) = flow_advance K f w;
          (rest', spawned, finished, w2) = advance_flows K rest w1
      in ((u, f') # rest', if sf_spawned f' \<and> \<not> sf_spawned f then u # spawned else spawned,
          if r \<noteq> None then u # finished else finished, w2))"

text \<open>Dropping a flow: its pending spawn is told, its auxiliary command killed.\<close>

definition drop_flow :: "Kernel \<Rightarrow> StartFlow \<Rightarrow> World \<Rightarrow> World" where
  "drop_flow K f w0 =
     (let w = w0\<lparr>w_tr := cancel_pending f (w_tr w0)\<rparr> in
      case running_aux_pid (sf_stage f) of
        None \<Rightarrow> w
      | Some p \<Rightarrow> (let (_, w1) = on_tr (kill_process_group K p SIGKILL) w
                  in w1\<lparr>w_aux := remove_key p (w_aux w1)\<rparr>))"

definition remove_flow :: "Kernel \<Rightarrow> UnitName \<Rightarrow> flow_map \<Rightarrow> World \<Rightarrow> flow_map \<times> World" where
  "remove_flow K u flows w = (case map_of flows u of
      None \<Rightarrow> (flows, w)
    | Some f \<Rightarrow> (remove_key u flows, drop_flow K f w))"

fun remove_flows :: "Kernel \<Rightarrow> UnitName list \<Rightarrow> flow_map \<Rightarrow> World \<Rightarrow> flow_map \<times> World" where
  "remove_flows K [] flows w = (flows, w)"
| "remove_flows K (u # us) flows w = (let (flows1, w1) = remove_flow K u flows w in remove_flows K us flows1 w1)"

definition coord_cancel :: "Kernel \<Rightarrow> UnitName \<Rightarrow> StartCoordinator \<Rightarrow> World \<Rightarrow> StartCoordinator \<times> World" where
  "coord_cancel K u co w =
     (let (flows, w1) = remove_flow K u (co_flows co) w in (co\<lparr>co_flows := flows\<rparr>, w1))"

definition reply_to :: "ControlStart \<Rightarrow> ReplyStatus \<Rightarrow> ReplyText \<Rightarrow> (client \<times> ReplyStatus \<times> ReplyText) list" where
  "reply_to job st t = (case cs_reply job of None \<Rightarrow> [] | Some c \<Rightarrow> [(c, st, t)])"

text \<open>\<open>closed\<close> tells which clients have hung up.\<close>

fun advance_controls :: "Kernel \<Rightarrow> (client \<Rightarrow> bool) \<Rightarrow> ControlStart list \<Rightarrow> flow_map \<Rightarrow> World
    \<Rightarrow> ControlStart list \<times> (client \<times> ReplyStatus \<times> ReplyText) list \<times> flow_map \<times> World" where
  "advance_controls K closed [] flows w = ([], [], flows, w)"
| "advance_controls K closed (job # js) flows w =
     (if (case cs_reply job of None \<Rightarrow> False | Some c \<Rightarrow> closed c)
      then advance_controls K closed js flows w
      else
        let (r, job', flows1, w1) = control_loop K job flows w;
            (js', sent, flows2, w2) = advance_controls K closed js flows1 w1
        in (case r of
              None \<Rightarrow> (job' # js', sent, flows2, w2)
            | Some (st, t) \<Rightarrow> (js', reply_to job st t @ sent, flows2, w2)))"

definition coord_advance :: "Kernel \<Rightarrow> (client \<Rightarrow> bool) \<Rightarrow> StartCoordinator \<Rightarrow> World
    \<Rightarrow> UnitName list \<times> StartCoordinator \<times> World" where
  "coord_advance K closed co w =
     (let (flows, spawned, finished, w1) = advance_flows K (co_flows co) w;
          (flows1, w2) = remove_flows K finished flows w1;
          (js, sent, flows2, w3) = advance_controls K closed (co_controls co) flows1 w2
      in (spawned, \<lparr>co_flows = flows2, co_controls = js, co_sent = co_sent co @ sent\<rparr>, w3))"

text \<open>After a reload: drop what names a unit that no longer exists.\<close>

definition after_reload :: "Kernel \<Rightarrow> StartCoordinator \<Rightarrow> World \<Rightarrow> StartCoordinator \<times> World" where
  "after_reload K co w =
     (let stale = filter (\<lambda>u. \<not> exists_unit (w_man w) u) (map fst (co_flows co));
          (flows, w1) = remove_flows K stale (co_flows co) w;
          (kept, dropped) = partition (\<lambda>job. exists_unit (w_man w1) (cs_target job)) (co_controls co)
      in (\<lparr>co_flows = flows, co_controls = kept,
           co_sent = co_sent co @ concat (map (\<lambda>job. reply_to job RNoSuchUnit (NoSuchUnitText (cs_target job))) dropped)\<rparr>,
          w1))"

definition START_POLL :: duration where "START_POLL = from_millis 20"

definition next_wait :: "StartCoordinator \<Rightarrow> duration" where
  "next_wait co = (if co_flows co = [] \<and> co_controls co = [] then from_secs 3600 else START_POLL)"

definition coord_shutdown :: "Kernel \<Rightarrow> StartCoordinator \<Rightarrow> World \<Rightarrow> StartCoordinator \<times> World" where
  "coord_shutdown K co w =
     (\<lparr>co_flows = [], co_controls = [],
       co_sent = co_sent co @ concat (map (\<lambda>job. reply_to job RError ShuttingDown) (co_controls co))\<rparr>,
      (foldl (\<lambda>w (_, f). drop_flow K f w) w (co_flows co))\<lparr>w_aux := []\<rparr>)"

end
