(* ===== verification/Start_Coord_Props.thy ===== *)
theory Start_Coord_Props
  imports Start_Coord
begin

text \<open>
  What the coordinator guarantees: it keeps the invariants of the manager, it answers a control start
  with success only when the unit is up, and a shutdown leaves nothing behind.
\<close>

section \<open>What the coordinator keeps\<close>

locale control_client = flow_maker +
  assumes good_request: "good m tr \<Longrightarrow> t = Stopped \<or> src < UserStop \<Longrightarrow> good (fst (snd (request K u t src m tr))) (snd (snd (request K u t src m tr)))"
    and good_clear_limit: "good m tr \<Longrightarrow> good (clear_start_limit u m) tr"
    and good_stop_unit: "good m tr \<Longrightarrow> good (fst (stop_unit K u m tr)) (snd (stop_unit K u m tr))"
    and good_start_order: "good m tr \<Longrightarrow> good (snd (start_order m u)) tr"
begin

lemma world_create_flow: "world_good good w \<Longrightarrow> world_good good (snd (snd (create_flow K u flows w)))"
  by (auto simp: create_flow_def case_prod_beta split: sum.split intro!: world_on_man [OF good_flow_new])

lemma world_stop_unit: "world_good good w \<Longrightarrow> world_good good (snd (on_man (\<lambda>m tr. ((), stop_unit K u m tr)) w))"
  by (rule world_on_man) (simp add: good_stop_unit)

lemma world_apply_start_effect:
  "world_good good w \<Longrightarrow> world_good good (snd (snd (apply_start_effect K u effect flows w)))"
proof -
  assume w: "world_good good w"
  then have "world_good good (w\<lparr>w_man := clear_start_limit u (w_man w)\<rparr>)"
    by (simp add: world_good_def good_clear_limit)
  then show ?thesis
    using w by (cases effect) (simp_all add: apply_start_effect_def world_create_flow world_stop_unit)
qed

lemma world_request_start: "world_good good w \<Longrightarrow> src < UserStop \<Longrightarrow> world_good good (snd (on_man (request_start K u src) w))"
  by (rule world_on_man) (simp add: request_start_def good_request)

lemma world_launch_effect: "world_good good w \<Longrightarrow> world_good good (snd (snd (launch_effect K cs u e flows w)))"
  by (simp add: launch_effect_def case_prod_beta Let_def world_apply_start_effect world_flow_advance
      split: option.split)

lemma world_control_launch: "world_good good w \<Longrightarrow> world_good good (snd (snd (control_launch K cs u flows w)))"
  by (simp add: control_launch_def case_prod_beta Let_def world_request_start world_launch_effect start_sources
      split: option.split)

lemma world_control_step: "world_good good w \<Longrightarrow> world_good good (snd (snd (control_step K cs flows w)))"
  by (auto simp: control_step_def Let_def case_prod_beta split: option.split
      intro!: world_control_launch world_clock)

lemma world_control_loop:
  "world_good good w \<Longrightarrow> world_good good (snd (snd (snd (control_loop K cs flows w))))"
proof (induction cs arbitrary: flows w rule: wf_induct_rule [OF wf_job_before])
  case (1 cs)
  obtain r flows' w' where step: "control_step K cs flows w = (r, flows', w')"
    by (cases "control_step K cs flows w")
  have "world_good good w'" using world_control_step [OF 1(2), of cs flows] step by simp
  then show ?case
    using 1(1) [OF control_step_descends [of K cs flows w]] step by (subst control_loop.simps) (cases r; simp)
qed

end

locale start_client = control_client +
  assumes good_reap: "good m tr \<Longrightarrow>
       good (fst (snd (reap_into_manager K evs m tr))) (snd (snd (reap_into_manager K evs m tr)))"
begin

lemma world_control_new: "world_good good w \<Longrightarrow> world_good good (snd (on_man (control_new K u) w))"
proof (rule world_on_man)
  fix m tr assume "good m tr"
  then show "good (fst (snd (control_new K u m tr))) (snd (snd (control_new K u m tr)))"
    using good_start_order [of m tr u]
    by (auto simp: control_new_def case_prod_beta Let_def good_after_secs good_start_deadline split: sum.split)
qed

lemma world_start_async: "world_good good w \<Longrightarrow> world_good good (snd (snd (start_async K u co w)))"
  by (auto simp: start_async_def case_prod_beta split: sum.split dest: world_control_new)

lemma world_drop_flow: "world_good good w \<Longrightarrow> world_good good (drop_flow K f w)"
proof -
  assume w: "world_good good w"
  then have "world_good good (w\<lparr>w_tr := cancel_pending f (w_tr w)\<rparr>)"
    by (simp add: world_good_def cancel_pending_def good_call split: StartStage.split)
  then show ?thesis
    by (auto simp: drop_flow_def case_prod_beta Let_def split: option.split intro!: world_kill)
qed

lemma world_remove_flows: "world_good good w \<Longrightarrow> world_good good (snd (remove_flows K us flows w))"
  by (induction us arbitrary: flows w)
    (simp_all add: remove_flow_def case_prod_beta world_drop_flow split: option.split)

lemma world_advance_flows:
  "world_good good w \<Longrightarrow> world_good good (snd (snd (snd (advance_flows K flows w))))"
  by (induction flows arbitrary: w) (auto simp: case_prod_beta Let_def world_flow_advance)

lemma world_advance_controls:
  "world_good good w \<Longrightarrow> world_good good (snd (snd (snd (advance_controls K closed js flows w))))"
proof (induction js arbitrary: flows w)
  case (Cons job js)
  then show ?case
    by (auto simp: case_prod_beta Let_def world_control_loop split: option.split)
qed simp

lemma world_coord_advance: "world_good good w \<Longrightarrow> world_good good (snd (snd (coord_advance K closed co w)))"
  by (simp add: coord_advance_def case_prod_beta Let_def world_advance_flows world_remove_flows
      world_advance_controls)

lemma world_coord_reap: "world_good good w \<Longrightarrow> world_good good (snd (coord_reap K evs co w))"
  by (simp add: coord_reap_def case_prod_beta Let_def world_on_man [OF good_reap])

lemma world_coord_small:
  assumes "world_good good w"
  shows "world_good good (snd (snd (coord_begin K u co w)))"
    "world_good good (snd (snd (begin_effect K u e co w)))"
    "world_good good (snd (coord_cancel K u co w))"
    "world_good good (snd (after_reload K co w))"
  using assms world_remove_flows [of w "[u]"]
  by (simp_all add: coord_begin_def begin_effect_def coord_cancel_def after_reload_def case_prod_beta Let_def
      world_create_flow world_apply_start_effect world_remove_flows)

lemma world_coord_shutdown: "world_good good w \<Longrightarrow> world_good good (snd (coord_shutdown K co w))"
proof -
  assume w: "world_good good w"
  have "world_good good (foldl (\<lambda>w (_, f). drop_flow K f w) w flows)" for flows :: flow_map
    using w by (induction flows arbitrary: w) (auto simp: world_drop_flow)
  then show ?thesis by (simp add: coord_shutdown_def)
qed

end

interpretation sup: start_client K sound_state for K
  by unfold_locales
    (simp_all add: sound_state_def wf_request wf_clear_start_limit stop_unit_inv [where late = True]
      wf_start_order reap_into_manager_inv [where late = True])


text \<open>Nothing a start does makes a unit unknown.\<close>

lemma known_config: "unit_at m u \<noteq> None \<longleftrightarrow> config_at m u \<noteq> None"
  by (simp add: config_at_def)

lemma known_request: "unit_at m u \<noteq> None \<Longrightarrow> unit_at (fst (snd (request K v t src m tr))) u \<noteq> None"
proof -
  assume u: "unit_at m u \<noteq> None"
  then have "unit_at m' u \<noteq> None" if "ensure_unit v m = Some m'" for m'
    using that by (auto simp: ensure_unit_def instantiate_def add_unit_def add_with_in_flight_def invalidate_graph_def Let_def
        split: option.splits sum.splits if_splits)
  then show ?thesis using u unfolding known_config by (auto simp: request_def case_prod_beta Let_def split: option.split)
qed

lemma known_adopt: "config_at m u \<noteq> None \<Longrightarrow> config_at (adopt_pending_config v m) u \<noteq> None"
  by (auto simp: config_at_def adopt_pending_config_def invalidate_graph_def split: option.split)

lemma known_start_order: "config_at (snd (start_order m v)) u = config_at m u"
  by (auto simp: start_order_def cached_graph_def config_at_def case_prod_beta Let_def split: option.split sum.split)

lemma known_fields:
  "config_at (cap_start_deadline v at m) u = config_at m u" "config_at (clear_start_limit v m) u = config_at m u"
  by (simp_all add: cap_start_deadline_def clear_start_limit_def config_at_upd split: option.split)

interpretation known: control_client K "\<lambda>m tr. config_at m u \<noteq> None" for K u
  by unfold_locales
    (simp_all only: known_adopt known_request [unfolded known_config] known_start_order stop_conflicts_def
      config_at_stop_each config_at_begin_spawn config_at_fail_start config_at_stop_unit known_fields
      simp_thms)

section \<open>A successful reply\<close>

text \<open>What a waiting job knows: the unit it waits for is the one it requested last.\<close>

definition job_ok :: "ControlStart \<Rightarrow> bool" where
  "job_ok cs \<longleftrightarrow> cs_order cs \<noteq> [] \<and> last (cs_order cs) = cs_target cs
     \<and> (case cs_waiting cs of
          None \<Rightarrow> cs_index cs < length (cs_order cs)
        | Some v \<Rightarrow> 0 < cs_index cs \<and> cs_index cs \<le> length (cs_order cs) \<and> v = cs_order cs ! (cs_index cs - 1))"

definition job_at_end :: "ControlStart \<Rightarrow> UnitManager \<Rightarrow> bool" where
  "job_at_end cs m \<longleftrightarrow> cs_waiting cs = None \<and> cs_index cs = length (cs_order cs) \<and> unit_state_up m (cs_target cs)"

lemma last_is_target:
  "cs_order cs \<noteq> [] \<Longrightarrow> last (cs_order cs) = cs_target cs \<Longrightarrow> Suc i = length (cs_order cs)
   \<Longrightarrow> cs_order cs ! i = cs_target cs"
  by (metis diff_Suc_1 last_conv_nth)

lemma state_up_unit: "unit_at m u = Some rt \<Longrightarrow> state_up (rt_state rt) = unit_state_up m u"
  by (simp add: unit_state_up_def)

lemma control_wait_ok:
  assumes "job_ok cs" "cs_waiting cs = Some v"
  shows "case control_wait cs v flows m of
      CGo cs' \<Rightarrow> cs_target cs' = cs_target cs \<and> (job_ok cs' \<or> job_at_end cs' m)
    | CWait cs' \<Rightarrow> cs_target cs' = cs_target cs \<and> job_ok cs'
    | CDone st t \<Rightarrow> st \<noteq> ROk"
proof -
  have idx: "cs_order cs \<noteq> []" "last (cs_order cs) = cs_target cs" "0 < cs_index cs"
    "cs_index cs \<le> length (cs_order cs)" "v = cs_order cs ! (cs_index cs - 1)"
    using assms by (auto simp: job_ok_def)
  have end_: "v = cs_target cs" if "cs_index cs = length (cs_order cs)"
    using idx that by (metis Suc_diff_1 last_is_target)
  show ?thesis
  proof (cases "cs_index cs = length (cs_order cs)")
    case True
    then show ?thesis
      using end_ assms idx
      by (auto simp: control_wait_def job_ok_def job_at_end_def needed_def state_up_unit split: option.split)
  next
    case False
    then show ?thesis
      using assms idx by (auto simp: control_wait_def job_ok_def split: option.split)
  qed
qed

text \<open>A start that is refused an effect was asked of a unit that is stopping, and now waits for that.\<close>

definition waits_for_stop :: "UnitManager \<Rightarrow> UnitName \<Rightarrow> bool" where
  "waits_for_stop m u \<longleftrightarrow> is_deactivating m u \<and> map_of (queued_starts m) u = Some UserStart"

lemma refused_start_waits:
  assumes "unit_at m u \<noteq> None" "fst (request_start K u src m tr) = None"
  shows "is_deactivating (fst (snd (request_start K u src m tr))) u
    \<and> map_of (queued_starts (fst (snd (request_start K u src m tr)))) u = Some src"
proof -
  obtain rt where rt: "unit_at m u = Some rt" using assms(1) by blast
  from assms(2) have d: "rt_state rt = Deactivating"
    unfolding request_start_def request_known(1) [OF rt]
    by (auto simp: asked_def reconcile_def target_of_def split: JobTarget.splits UnitState.splits)
  have "unit_at (fst (snd (request_start K u src m tr))) u = Some rt"
    using request_known(3) [OF rt, of Started src K tr u] d rt by (simp add: request_start_def)
  moreover have "map_of (queued_starts (fst (snd (request_start K u src m tr)))) u = Some src"
    using rt d
    by (simp add: request_start_def request_def ensure_unit_def case_prod_beta Let_def effect_for_def
        reconcile_def queue_behind_stop_def is_deactivating_def split: option.split JobTarget.split)
  ultimately show ?thesis using d by (simp add: is_deactivating_def)
qed

lemma control_launch_ok:
  assumes "cs_order cs \<noteq> []" "last (cs_order cs) = cs_target cs" "cs_index cs = Suc i"
    "i < length (cs_order cs)" "cs_order cs ! i = u"
  shows "case fst (control_launch K cs u flows w) of
      CGo cs' \<Rightarrow> cs_target cs' = cs_target cs \<and> job_ok cs'
    | CWait cs' \<Rightarrow> False
    | CDone st t \<Rightarrow> st = ROk \<longrightarrow> t = StartsAfterwards (cs_target cs)
        \<and> (unit_at (w_man w) (cs_target cs) \<noteq> None \<longrightarrow>
             waits_for_stop (w_man (snd (snd (control_launch K cs u flows w)))) (cs_target cs))"
  using assms refused_start_waits [of "w_man w" u K UserStart "w_tr w"]
  by (auto simp: control_launch_def launch_effect_def job_ok_def on_man_def waits_for_stop_def case_prod_beta Let_def
      split: option.split)

lemma control_step_ok:
  assumes "job_ok cs \<or> job_at_end cs (w_man w)"
  shows "case fst (control_step K cs flows w) of
      CGo cs' \<Rightarrow> cs_target cs' = cs_target cs
        \<and> (job_ok cs' \<or> job_at_end cs' (w_man (snd (snd (control_step K cs flows w)))))
    | CWait cs' \<Rightarrow> cs_target cs' = cs_target cs \<and> job_ok cs'
    | CDone st t \<Rightarrow> st = ROk \<longrightarrow> t = StartsAfterwards (cs_target cs)
          \<and> (w_unit w (cs_target cs) \<noteq> None \<longrightarrow>
               waits_for_stop (w_man (snd (snd (control_step K cs flows w)))) (cs_target cs))
        \<or> unit_state_up (w_man (snd (snd (control_step K cs flows w)))) (cs_target cs)"
proof -
  let ?late = "cs_deadline cs \<le> fst (on_tr (read_clock K) w)"
  let ?w = "snd (on_tr (read_clock K) w)"
  consider (late) "?late" | (waiting) v where "\<not> ?late" "cs_waiting cs = Some v" "job_ok cs"
    | (ended) "\<not> ?late" "cs_waiting cs = None" "job_at_end cs (w_man w)"
    | (go) "\<not> ?late" "cs_waiting cs = None" "job_ok cs"
    using assms by (cases "cs_waiting cs") (auto simp: job_at_end_def)
  then show ?thesis
  proof cases
    case late
    then show ?thesis by (simp add: control_step_def case_prod_beta)
  next
    case (waiting v)
    then have "control_step K cs flows w = (control_wait cs v flows (w_man w), flows, ?w)"
      by (simp add: control_step_def case_prod_beta)
    then show ?thesis using control_wait_ok [OF waiting(3,2), where flows = flows and m = "w_man w"] by (simp split: ControlStep.splits)
  next
    case ended
    then show ?thesis by (simp add: control_step_def case_prod_beta job_at_end_def)
  next
    case go
    let ?i = "cs_index cs" and ?cs = "cs\<lparr>cs_index := cs_index cs + 1\<rparr>"
    let ?u = "cs_order cs ! ?i"
    have o: "cs_order cs \<noteq> []" "last (cs_order cs) = cs_target cs" "?i < length (cs_order cs)"
      using go by (auto simp: job_ok_def)
    have tgt: "?u = cs_target cs" if "Suc ?i = length (cs_order cs)" using last_is_target [OF o(1,2) that] .
    have l: "case fst (control_launch K ?cs ?u flows ?w) of
        CGo cs' \<Rightarrow> cs_target cs' = cs_target cs \<and> job_ok cs' | CWait cs' \<Rightarrow> False
      | CDone st t \<Rightarrow> st = ROk \<longrightarrow> t = StartsAfterwards (cs_target cs)
          \<and> (w_unit w (cs_target cs) \<noteq> None \<longrightarrow>
               waits_for_stop (w_man (snd (snd (control_launch K ?cs ?u flows ?w)))) (cs_target cs))"
      using control_launch_ok [where cs = ?cs and i = ?i and u = ?u and K = K and flows = flows and w = ?w] o by (simp split: ControlStep.splits)
    have skip: "job_ok ?cs \<or> job_at_end ?cs (w_man w)" if "unit_state_up (w_man w) ?u \<or> ?u \<noteq> cs_target cs"
      using that o tgt go by (cases "Suc ?i = length (cs_order cs)") (auto simp: job_ok_def job_at_end_def)
    have wait: "job_ok (?cs\<lparr>cs_waiting := Some ?u\<rparr>)" using o by (simp add: job_ok_def)
    show ?thesis
      using go(1,2) o(3) l skip wait
      by (auto simp: control_step_def case_prod_beta Let_def split: ControlStep.splits)
  qed
qed


lemma control_loop_ok:
  assumes "job_ok cs \<or> job_at_end cs (w_man w)" "control_loop K cs flows w = (r, cs', flows', w')"
  shows "case r of
      None \<Rightarrow> job_ok cs' \<and> cs_target cs' = cs_target cs
    | Some (st, t) \<Rightarrow> st = ROk \<longrightarrow> w_unit w (cs_target cs) \<noteq> None \<longrightarrow>
        t = StartsAfterwards (cs_target cs) \<and> waits_for_stop (w_man w') (cs_target cs)
        \<or> unit_state_up (w_man w') (cs_target cs)"
  using assms
proof (induction cs arbitrary: flows w rule: wf_induct_rule [OF wf_job_before])
  case (1 cs)
  obtain x flows1 w1 where step: "control_step K cs flows w = (x, flows1, w1)"
    by (cases "control_step K cs flows w")
  note inv = control_step_ok [OF 1(2), of K flows]
  show ?case
  proof (cases x)
    case (CGo cs1)
    then have loop: "control_loop K cs1 flows1 w1 = (r, cs', flows', w')"
      using 1(3) step by (simp add: control_loop.simps [of K cs])
    have "job_ok cs1 \<or> job_at_end cs1 (w_man w1)" "cs_target cs1 = cs_target cs" using inv step CGo by auto
    moreover have "w_unit w1 (cs_target cs) \<noteq> None" if "w_unit w (cs_target cs) \<noteq> None"
      using known.world_control_step [of "cs_target cs" w K cs flows] that step
      by (auto simp: world_good_def config_at_def)
    ultimately show ?thesis
      using 1(1) [OF control_step_descends [OF step [unfolded CGo]] _ loop] by (auto split: option.splits)
  next
    case (CWait cs1)
    then show ?thesis using inv step 1(3) by (auto simp: control_loop.simps [of K cs])
  next
    case (CDone st t)
    then show ?thesis using inv step 1(3) by (auto simp: control_loop.simps [of K cs])
  qed
qed

text \<open>A job from its creation on, advanced in any surroundings while it has no answer.\<close>

inductive control_job :: "Kernel \<Rightarrow> ControlStart \<Rightarrow> bool" for K where
  created: "control_new K u m tr = (Inr cs, m', tr') \<Longrightarrow> control_job K (cs\<lparr>cs_reply := c, cs_quiet := q\<rparr>)"
| waited: "control_job K cs \<Longrightarrow> control_loop K cs flows w = (None, cs', flows', w') \<Longrightarrow> control_job K cs'"

lemma control_job_ok: "control_job K cs \<Longrightarrow> job_ok cs"
proof (induction rule: control_job.induct)
  case (created u m tr cs m' tr' c q)
  then show ?case by (auto simp: control_new_def Let_def job_ok_def split: prod.splits sum.splits if_splits)
next
  case (waited cs flows w cs' flows' w')
  then show ?case using control_loop_ok by fastforce
qed

text \<open>
  Property C16. \<open>rctl start\<close> reports success only for a unit that is up: whenever the deferred start of
  a unit the manager knows answers with success, either the manager has the unit active at the moment
  of the answer, or the unit is being stopped, its start by the user is queued behind the stop, and
  the answer says so.
\<close>
theorem start_reply_ok_means_up:
  assumes "control_job K cs" "unit_at (w_man w) (cs_target cs) \<noteq> None"
    and "control_loop K cs flows w = (Some (ROk, t), cs', flows', w')"
  shows "unit_state_up (w_man w') (cs_target cs)
    \<or> t = StartsAfterwards (cs_target cs) \<and> is_deactivating (w_man w') (cs_target cs)
      \<and> map_of (queued_starts (w_man w')) (cs_target cs) = Some UserStart"
  using control_loop_ok [OF _ assms(3)] control_job_ok [OF assms(1)] assms(2) by (auto simp: waits_for_stop_def)

definition up_man :: UnitManager where
  "up_man = (fst (manager_new calm_kernel []))\<lparr>m_units :=
     [(web, (runtime_new (new_config web))\<lparr>rt_pid := Some 101, rt_state := Active\<rparr>)]\<rparr>"

lemma up_order: "fst (start_order up_man web) = Inr []"
  "unit_at (snd (start_order up_man web)) = unit_at up_man"
proof -
  have "order_in (map_sum dependency_error_text id (build [new_config web])) web = Inr []" by code_simp
  moreover have "graph_cache up_man = None" "live_configs up_man = [new_config web]"
    by (simp_all add: up_man_def live_configs_def manager_new_def case_prod_beta Let_def runtime_new_def)
  ultimately show "fst (start_order up_man web) = Inr []"
    by (auto simp: start_order_def cached_graph_def order_in_def Let_def split: sum.splits)
  show "unit_at (snd (start_order up_man web)) = unit_at up_man"
    by (auto simp: start_order_def cached_graph_def Let_def split: sum.splits option.splits)
qed

lemma up_new:
  "control_new calm_kernel web up_man [] = (Inr \<lparr>cs_target = web, cs_order = [web],
     cs_required = required_closure (snd (start_order up_man web)) web, cs_index = 0, cs_waiting = None,
     cs_reply = None, cs_target_was_active = True, cs_deadline = from_secs 35, cs_quiet = False\<rparr>,
     snd (start_order up_man web), [Now])"
proof -
  obtain m1 where so: "start_order up_man web = (Inr [], m1)" "unit_at m1 = unit_at up_man"
    using up_order by (cases "start_order up_man web") auto
  have at: "unit_at up_man web = Some ((runtime_new (new_config web))\<lparr>rt_pid := Some 101, rt_state := Active\<rparr>)"
    by (simp add: up_man_def)
  show ?thesis
    by (simp add: control_new_def so unlimited_def chain_seconds_def at unit_state_up_def state_up_def
        runtime_new_def new_config_def List.map_filter_simps sat_add_def u64_max_value calm_after)
qed

theorem start_reply_ok_means_up_witness:
  "\<exists>cs cs' w'. control_job calm_kernel cs
     \<and> control_loop calm_kernel cs [] \<lparr>w_man = up_man, w_hub = hub_new None, w_aux = [], w_tr = []\<rparr>
         = (Some (ROk, AlreadyActive web), cs', [], w')
     \<and> unit_state_up (w_man w') (cs_target cs)"
proof -
  let ?cs = "\<lparr>cs_target = web, cs_order = [web],
     cs_required = required_closure (snd (start_order up_man web)) web, cs_index = 0, cs_waiting = None,
     cs_reply = Some 7, cs_target_was_active = True, cs_deadline = from_secs 35, cs_quiet = False\<rparr>"
  let ?w = "\<lambda>tr. \<lparr>w_man = up_man, w_hub = hub_new None, w_aux = [], w_tr = tr\<rparr>"
  have job: "control_job calm_kernel ?cs"
    using control_job.created [OF up_new, where c = "Some 7" and q = False] by simp
  have up: "unit_state_up up_man web" by (simp add: up_man_def unit_state_up_def state_up_def)
  have "\<exists>cs'. control_loop calm_kernel ?cs [] (?w []) = (Some (ROk, AlreadyActive web), cs', [], ?w [Now, Now])"
    by (simp add: control_loop.simps control_step_def up Let_def)
  then obtain cs' where "control_loop calm_kernel ?cs [] (?w []) = (Some (ROk, AlreadyActive web), cs', [], ?w [Now, Now])"
    by blast
  moreover have "unit_at (w_man (?w [])) (cs_target ?cs) \<noteq> None" by (simp add: up_man_def)
  ultimately show ?thesis using start_reply_ok_means_up [OF job, of "?w []"] job by fastforce
qed

section \<open>Shutdown\<close>

text \<open>What dropping one start adds to the trace: a cancellation and a kill, for that start only.\<close>

definition drops :: "Kernel \<Rightarrow> StartFlow set \<Rightarrow> trace \<Rightarrow> bool" where
  "drops K fs new \<longleftrightarrow>
     (\<forall>f \<in> fs. \<forall>p. running_aux_pid (sf_stage f) = Some p \<longrightarrow> 1 < p \<longrightarrow> (\<forall>t. \<exists>g. k_getpgid K t p = Inr g) \<longrightarrow>
        signalled p SIGKILL new)
     \<and> (\<forall>f \<in> fs. \<forall>p. sf_stage f = SpawnWait p \<longrightarrow> CancelSpawn p \<in> set new)
     \<and> (\<forall>q s. Kill q s \<in> set new \<longrightarrow> s = SIGKILL \<and> (\<exists>f \<in> fs. running_aux_pid (sf_stage f) = Some \<bar>q\<bar>))"

lemma drops_empty: "drops K {} []"
  by (simp add: drops_def)

lemma drops_more: "drops K {f} new \<Longrightarrow> drops K fs old \<Longrightarrow> drops K (insert f fs) (old @ new)"
  by (auto simp: drops_def signalled_def)

lemma drop_flow_drops:
  "\<exists>new. w_tr (drop_flow K f w) = new @ w_tr w \<and> drops K {f} new \<and> w_man (drop_flow K f w) = w_man w"
proof -
  define c where "c = (case sf_stage f of SpawnWait p \<Rightarrow> [CancelSpawn p] | _ \<Rightarrow> [])"
  have c: "cancel_pending f (w_tr w) = c @ w_tr w" by (simp add: cancel_pending_def c_def split: StartStage.split)
  show ?thesis
  proof (cases "running_aux_pid (sf_stage f)")
    case None
    then have "drops K {f} c" by (auto simp: drops_def c_def split: StartStage.splits)
    with None c show ?thesis by (simp add: drop_flow_def)
  next
    case (Some p)
    define k where "k = (if p \<le> 1 then [] else case k_getpgid K (w_tr w) p of
        Inl _ \<Rightarrow> [Getpgid p] | Inr g \<Rightarrow> [Kill (if g = p then - p else p) SIGKILL, Getpgid p])"
    have no_wait: "c = []" using Some by (cases "sf_stage f") (auto simp: c_def)
    have "snd (kill_process_group K p SIGKILL (w_tr w)) = k @ w_tr w"
      by (auto simp: kill_process_group_def sys_getpgid_def sys_kill_def k_def split: sum.split)
    then have "w_tr (drop_flow K f w) = k @ w_tr w" "w_man (drop_flow K f w) = w_man w"
      using Some c no_wait by (simp_all add: drop_flow_def on_tr_def case_prod_beta Let_def)
    moreover have "drops K {f} k"
    proof -
      have "signalled p SIGKILL k" if "1 < p" "\<forall>t. \<exists>g. k_getpgid K t p = Inr g"
      proof -
        from that(2) obtain g where "k_getpgid K (w_tr w) p = Inr g" by blast
        with that(1) show ?thesis by (auto simp: k_def signalled_def)
      qed
      moreover have "\<forall>q s. Kill q s \<in> set k \<longrightarrow> s = SIGKILL \<and> \<bar>q\<bar> = p"
        by (auto simp: k_def split: sum.splits if_splits)
      moreover have "sf_stage f \<noteq> SpawnWait q" for q using Some by auto
      ultimately show ?thesis using Some by (auto simp: drops_def)
    qed
    ultimately show ?thesis by blast
  qed
qed

lemma drop_flows_drops:
  "\<exists>new. w_tr (foldl (\<lambda>w (_, f). drop_flow K f w) w flows) = new @ w_tr w \<and> drops K (snd ` set flows) new
     \<and> w_man (foldl (\<lambda>w (_, f). drop_flow K f w) w flows) = w_man w"
proof (induction flows arbitrary: w)
  case (Cons x flows)
  obtain u f where x: "x = (u, f)" by fastforce
  obtain new where n: "w_tr (drop_flow K f w) = new @ w_tr w" "drops K {f} new" "w_man (drop_flow K f w) = w_man w"
    using drop_flow_drops by blast
  obtain old where "w_tr (foldl (\<lambda>w (_, f). drop_flow K f w) (drop_flow K f w) flows) = old @ new @ w_tr w"
    "drops K (snd ` set flows) old" "w_man (foldl (\<lambda>w (_, f). drop_flow K f w) (drop_flow K f w) flows) = w_man w"
    using Cons.IH [of "drop_flow K f w"] n by auto
  with drops_more [OF n(2)] show ?case by (auto simp: x)
qed (simp add: drops_empty)

text \<open>
  Property C17. A shutdown abandons no one: the command that a start in flight is running is killed, and
  no other process is; a spawn that waits for its report is cancelled; every client that was waiting
  is sent exactly one reply, an error, and nothing is sent to anyone else; afterwards the coordinator
  holds no start, no job and no exit status, and the manager is as it was.
\<close>
theorem shutdown_answers_everyone:
  assumes "coord_shutdown K co w = (co', w')"
  shows "\<exists>new. w_tr w' = new @ w_tr w
    \<and> (\<forall>u f p. (u, f) \<in> set (co_flows co) \<longrightarrow> running_aux_pid (sf_stage f) = Some p \<longrightarrow> 1 < p \<longrightarrow>
         (\<forall>t. \<exists>g. k_getpgid K t p = Inr g) \<longrightarrow> signalled p SIGKILL new)
    \<and> (\<forall>u f p. (u, f) \<in> set (co_flows co) \<longrightarrow> sf_stage f = SpawnWait p \<longrightarrow> CancelSpawn p \<in> set new)
    \<and> (\<forall>q s. Kill q s \<in> set new \<longrightarrow>
         s = SIGKILL \<and> (\<exists>u f. (u, f) \<in> set (co_flows co) \<and> running_aux_pid (sf_stage f) = Some \<bar>q\<bar>))
    \<and> co_sent co' = co_sent co @ map (\<lambda>c. (c, RError, ShuttingDown)) (List.map_filter cs_reply (co_controls co))
    \<and> co_flows co' = [] \<and> co_controls co' = [] \<and> w_aux w' = [] \<and> w_man w' = w_man w"
proof -
  have "concat (map (\<lambda>job. reply_to job RError ShuttingDown) js)
      = map (\<lambda>c. (c, RError, ShuttingDown)) (List.map_filter cs_reply js)" for js
    by (induction js) (auto simp: reply_to_def List.map_filter_simps split: option.split)
  moreover obtain new where "w_tr w' = new @ w_tr w" "drops K (snd ` set (co_flows co)) new" "w_man w' = w_man w"
    using drop_flows_drops [of K w "co_flows co"] assms by (auto simp: coord_shutdown_def)
  ultimately show ?thesis
    using assms by (intro exI [of _ new]) (force simp: coord_shutdown_def drops_def)
qed

definition busy_coordinator :: StartCoordinator where
  "busy_coordinator = \<lparr>co_flows = [(web, at_stage pre_flow (Pre (exec_start_pre pre_cfg) 0 (Some pre_run)))],
     co_controls = [], co_sent = []\<rparr>"

theorem shutdown_answers_everyone_witness:
  "\<exists>co' w'. coord_shutdown calm_kernel busy_coordinator (pre_world []) = (co', w') \<and> signalled 103 SIGKILL (w_tr w')"
proof -
  obtain co' w' where c: "coord_shutdown calm_kernel busy_coordinator (pre_world []) = (co', w')" by fastforce
  from shutdown_answers_everyone [OF c] c show ?thesis
    by (auto simp: busy_coordinator_def pre_run_def)
qed

end
