(* ===== verification/Activation.thy ===== *)
theory Activation
  imports Start_Coord_Props
begin

text \<open>
  Socket activation (\<open>rinit/src/activation.rs\<close>): the listening sockets rinit holds for its units. A
  socket has one permit; its watcher takes it to report a connection and the supervisor gives it
  back. The channel the reports travel through is the event source of the supervisor.
\<close>

section \<open>Paths of the standard library\<close>

text \<open>
  \<open>std::path::Path\<close> compares by components: repeated separators, single dots behind the first
  component and a trailing separator do not matter.
\<close>

definition leading_dot :: "string \<Rightarrow> bool" where
  "leading_dot p \<longleftrightarrow> p = ''.'' \<or> take 2 p = ''./''"

definition path_components :: "string \<Rightarrow> string list" where
  "path_components p =
     (if starts_with_char (CHR ''/'') p then [''/''] else if leading_dot p then [''.''] else []) @
     filter (\<lambda>c. c \<noteq> [] \<and> c \<noteq> ''.'') (split_char (CHR ''/'') p)"

definition path_eq :: "string \<Rightarrow> string \<Rightarrow> bool" where
  "path_eq p q \<longleftrightarrow> path_components p = path_components q"

text \<open>Drop the empty components and single dots at the end; the path is reversed.\<close>

function trim_back :: "string \<Rightarrow> string" where
  "trim_back b =
     (let c = takeWhile (\<lambda>x. x \<noteq> CHR ''/'') b in
      if b = [] then [] else if c = [] \<or> c = ''.'' then trim_back (drop (Suc (length c)) b) else b)"
  by pat_completeness auto
termination by (relation "measure length") auto

declare trim_back.simps [simp del]

definition before_body :: "string \<Rightarrow> nat" where
  "before_body p = (if starts_with_char (CHR ''/'') p \<or> leading_dot p then 1 else 0)"

definition path_parent :: "string \<Rightarrow> string option" where
  "path_parent p =
     (let n = before_body p; b = trim_back (rev (drop n p)) in
      if b \<noteq> []
      then Some (take n p @ rev (trim_back (drop 1 (dropWhile (\<lambda>x. x \<noteq> CHR ''/'') b))))
      else if leading_dot p then Some [] else None)"

section \<open>The sockets\<close>

record Bound =
  bo_listener :: fd
  bo_path :: string
  bo_permit :: bool
  bo_waiting :: bool

record Activated =
  ac_sockets :: "(UnitName \<times> Bound) list"

definition activation_disabled :: Activated where
  "activation_disabled = \<lparr>ac_sockets = []\<rparr>"

definition path_of :: "Activated \<Rightarrow> UnitName \<Rightarrow> string option" where
  "path_of act u = map_option bo_path (map_of (ac_sockets act) u)"

definition held_fd :: "Activated \<Rightarrow> UnitName \<Rightarrow> fd option" where
  "held_fd act u = map_option bo_listener (map_of (ac_sockets act) u)"

definition act_units :: "Activated \<Rightarrow> UnitName list" where
  "act_units act = map fst (ac_sockets act)"

definition bound_elsewhere :: "Activated \<Rightarrow> UnitName \<Rightarrow> string \<Rightarrow> UnitName option" where
  "bound_elsewhere act u path =
     map_option fst (find (\<lambda>(v, b). v \<noteq> u \<and> path_eq (bo_path b) path) (ac_sockets act))"

text \<open>Make the directory, reclaim the path, bind, and set the modes; \<open>Inr\<close> is the listener.\<close>

definition listen_at :: "Kernel \<Rightarrow> string \<Rightarrow> trace \<Rightarrow> (IoError + fd) \<times> trace" where
  "listen_at K path tr =
     (let (r, tr1) = (case path_parent path of
              Some d \<Rightarrow> if d \<noteq> [] then (k_create_dir_all K tr d, CreateDirAll d # tr) else (None, tr)
            | None \<Rightarrow> (None, tr))
      in case r of
        Some e \<Rightarrow> (Inl (OsError e), tr1)
      | None \<Rightarrow>
          let tr2 = RemoveFile path # tr1; tr3 = BindListener path # tr2 in
          (case k_bind_listener K tr2 path of
             Inl e \<Rightarrow> (Inl e, tr3)
           | Inr l \<Rightarrow>
          let tr4 = SetNonblocking l # tr3 in
          (case k_set_nonblocking K tr3 l of
             Some (_, e) \<Rightarrow> (Inl (OsError e), tr4)
           | None \<Rightarrow>
          let tr5 = SetMode path 438 # tr4 in
          (case k_chmod K tr4 path 438 of
             Some e \<Rightarrow> (Inl (OsError e), tr5)
           | None \<Rightarrow>
          (case k_try_clone K tr5 l of
             Some e \<Rightarrow> (Inl (OsError e), TryClone l # tr5)
           | None \<Rightarrow> (Inr l, TryClone l # tr5))))))"

definition act_bind :: "Kernel \<Rightarrow> UnitName \<Rightarrow> string \<Rightarrow> Activated \<Rightarrow> trace
    \<Rightarrow> IoError option \<times> Activated \<times> trace" where
  "act_bind K u path act tr =
     (if (case path_of act u of None \<Rightarrow> False | Some p \<Rightarrow> path_eq p path) then (None, act, tr)
      else case bound_elsewhere act u path of
        Some other \<Rightarrow> (Some (IoCustom ''AlreadyExists''
            (path @ '' is already bound for '' @ canonical other)), act, tr)
      | None \<Rightarrow>
          (case listen_at K path tr of
             (Inl e, tr1) \<Rightarrow> (Some e, act, tr1)
           | (Inr l, tr1) \<Rightarrow>
               (None,
                act\<lparr>ac_sockets := put u \<lparr>bo_listener = l, bo_path = path, bo_permit = True, bo_waiting = False\<rparr> (ac_sockets act)\<rparr>,
                case path_of act u of
                  None \<Rightarrow> tr1
                | Some old \<Rightarrow> if path_eq old path then tr1 else RemoveFile old # tr1)))"

definition act_remove :: "UnitName \<Rightarrow> Activated \<Rightarrow> trace \<Rightarrow> Activated \<times> trace" where
  "act_remove u act tr = (case path_of act u of
      None \<Rightarrow> (act, tr)
    | Some p \<Rightarrow> (act\<lparr>ac_sockets := remove_key u (ac_sockets act)\<rparr>, RemoveFile p # tr))"

definition rearm :: "UnitName \<Rightarrow> Activated \<Rightarrow> Activated" where
  "rearm u act = act\<lparr>ac_sockets := modify u (\<lambda>b. b\<lparr>bo_permit := True\<rparr>) (ac_sockets act)\<rparr>"

definition act_disarm :: "Activated \<Rightarrow> trace \<Rightarrow> trace" where
  "act_disarm act tr = rev (map (\<lambda>(u, b). RemoveFile (bo_path b)) (ac_sockets act)) @ tr"

text \<open>
  One turn of the watcher: it takes the permit out of the channel, so that the loop may queue the next
  one while it waits, and reports once the socket is readable.
\<close>

definition watch_take :: "UnitName \<Rightarrow> Activated \<Rightarrow> Activated option" where
  "watch_take u act = (case map_of (ac_sockets act) u of
      None \<Rightarrow> None
    | Some b \<Rightarrow> if bo_permit b \<and> \<not> bo_waiting b
        then Some (act\<lparr>ac_sockets := modify u (\<lambda>b. b\<lparr>bo_permit := False, bo_waiting := True\<rparr>) (ac_sockets act)\<rparr>)
        else None)"

definition watch_report :: "UnitName \<Rightarrow> Activated \<Rightarrow> Activated option" where
  "watch_report u act = (case map_of (ac_sockets act) u of
      None \<Rightarrow> None
    | Some b \<Rightarrow> if bo_waiting b
        then Some (act\<lparr>ac_sockets := modify u (\<lambda>b. b\<lparr>bo_waiting := False\<rparr>) (ac_sockets act)\<rparr>) else None)"

section \<open>One unit per path\<close>

definition wf_activated :: "Activated \<Rightarrow> bool" where
  "wf_activated act \<longleftrightarrow> ordered_keys (ac_sockets act)
     \<and> (\<forall>u v p q. path_of act u = Some p \<longrightarrow> path_of act v = Some q \<longrightarrow> path_eq p q \<longrightarrow> u = v)"

lemma wf_activation_disabled [simp]: "wf_activated activation_disabled"
  by (simp add: wf_activated_def activation_disabled_def path_of_def)

lemma path_of_rearm [simp]: "path_of (rearm v act) u = path_of act u"
  by (simp add: path_of_def rearm_def map_of_modify option.map_comp comp_def split: option.split)

lemma wf_rearm [simp]: "wf_activated (rearm u act) = wf_activated act"
  by (simp add: wf_activated_def) (simp add: rearm_def)

lemma path_of_watch:
  "watch_report v act = Some act' \<Longrightarrow> path_of act' u = path_of act u"
  "watch_take v act = Some act' \<Longrightarrow> path_of act' u = path_of act u"
  by (auto simp: watch_report_def watch_take_def path_of_def map_of_modify option.map_comp comp_def
      split: option.splits if_splits)

lemma wf_watch:
  "watch_report v act = Some act' \<Longrightarrow> wf_activated act' = wf_activated act"
  "watch_take v act = Some act' \<Longrightarrow> wf_activated act' = wf_activated act"
  by (simp_all add: wf_activated_def path_of_watch)
    (auto simp: watch_report_def watch_take_def split: option.splits if_splits)

lemma path_of_act_remove [simp]:
  "path_of (fst (act_remove v act tr)) u = (if u = v then None else path_of act u)"
  by (auto simp: act_remove_def path_of_def split: option.split)

lemma wf_act_remove: "wf_activated act \<Longrightarrow> wf_activated (fst (act_remove u act tr))"
  by (simp add: wf_activated_def) (simp add: act_remove_def split: option.split)

lemma bound_elsewhere_None:
  assumes "bound_elsewhere act u path = None" "path_of act v = Some p" "path_eq p path"
  shows "v = u"
proof -
  from assms(2) obtain b where "map_of (ac_sockets act) v = Some b" "bo_path b = p"
    by (auto simp: path_of_def)
  then have "(v, b) \<in> set (ac_sockets act)" "bo_path b = p" by (auto dest: map_of_SomeD)
  with assms(1,3) show ?thesis by (auto simp: bound_elsewhere_def find_None_iff)
qed

lemma path_of_act_bind:
  "path_of (fst (snd (act_bind K v path act tr))) u =
     (if u = v \<and> fst (act_bind K v path act tr) = None \<and> \<not> (case path_of act v of None \<Rightarrow> False | Some p \<Rightarrow> path_eq p path)
      then Some path else path_of act u)"
  by (auto simp: act_bind_def path_of_def split: option.splits sum.splits prod.splits)

lemma path_eq_sym: "path_eq p q \<longleftrightarrow> path_eq q p"
  by (auto simp: path_eq_def)

lemma wf_act_bind: "wf_activated act \<Longrightarrow> wf_activated (fst (snd (act_bind K u path act tr)))"
proof (cases "fst (act_bind K u path act tr) = None \<and> \<not> (case path_of act u of None \<Rightarrow> False | Some p \<Rightarrow> path_eq p path)")
  case True
  assume wf: "wf_activated act"
  from True have free: "bound_elsewhere act u path = None"
    by (auto simp: act_bind_def split: option.splits)
  have "ordered_keys (ac_sockets (fst (snd (act_bind K u path act tr))))"
    using wf by (auto simp: act_bind_def wf_activated_def split: option.splits sum.splits prod.splits)
  moreover have "v = w" if "path_of (fst (snd (act_bind K u path act tr))) v = Some p"
    "path_of (fst (snd (act_bind K u path act tr))) w = Some q" "path_eq p q" for v w p q
    using that True wf bound_elsewhere_None [OF free] path_eq_sym
    by (auto simp: path_of_act_bind wf_activated_def split: if_splits)
  ultimately show ?thesis unfolding wf_activated_def by blast
next
  case False
  assume "wf_activated act"
  moreover from False have "fst (snd (act_bind K u path act tr)) = act"
    by (auto simp: act_bind_def split: option.splits sum.splits prod.splits)
  ultimately show ?thesis by simp
qed

text \<open>A bind that fails leaves every socket as it was.\<close>

lemma act_bind_failed: "fst (act_bind K u path act tr) = Some e \<Longrightarrow> fst (snd (act_bind K u path act tr)) = act"
  by (auto simp: act_bind_def split: option.splits sum.splits prod.splits if_splits)

lemma harmless_listen_at [simp]: "harmless (snd (listen_at K path tr)) = harmless tr"
  by (auto simp: listen_at_def Let_def split: option.split sum.split)

lemma harmless_act_bind [simp]: "harmless (snd (snd (act_bind K u path act tr))) = harmless tr"
proof -
  have "harmless tr1 = harmless tr" if "listen_at K path tr = (r, tr1)" for r tr1
    using harmless_listen_at [of K path tr] that by simp
  then show ?thesis by (auto simp: act_bind_def split: option.split sum.split prod.split)
qed

lemma harmless_act_remove [simp]: "harmless (snd (act_remove u act tr)) = harmless tr"
  by (simp add: act_remove_def split: option.split)

end
