(* ===== verification/Boot_Plan.thy ===== *)
theory Boot_Plan
  imports Dep_Build Unit_Parser Os
begin

text \<open>
  From a unit directory to a boot plan (\<open>rinit-runtime/src/units.rs\<close> and \<open>plan.rs\<close>): which files are
  units, how they are read and parsed, templates, and the levels of the boot target. The directory
  is a parameter: a record of what the file system answers.
\<close>

section \<open>The directory\<close>

text \<open>
  The answers of the directory, and \<open>ud_join\<close>, why the blocking task that reads it did not return:
  \<open>None\<close> unless it was cancelled or panicked.
\<close>

record UnitDir =
  ud_list :: "int + (int + string) list"
  ud_meta :: "string \<Rightarrow> int + bool \<times> nat"
  ud_open :: "string \<Rightarrow> int option"
  ud_read :: "string \<Rightarrow> nat \<Rightarrow> int + string"
  ud_join :: "string option"

record UnitFile =
  uf_name :: UnitName
  uf_path :: string
  uf_contents :: string

text \<open>Problems that do not stop the load, kept as values.\<close>

datatype PlanWarning = SkipEntry int | SkipFile string RuntimeError | TextWarning string

definition MAX_UNIT_FILE_BYTES :: nat where "MAX_UNIT_FILE_BYTES = 1024 * 1024"

text \<open>An explicit suffix is required; the file name has to be UTF-8 and a valid unit name.\<close>

definition unit_name_of :: "string \<Rightarrow> UnitName option" where
  "unit_name_of fname =
     (if \<not> utf8_valid fname then None
      else if strip_suffix ''.service'' fname = None \<and> strip_suffix ''.target'' fname = None then None
      else case parse_unit_name fname of Inl _ \<Rightarrow> None | Inr u \<Rightarrow> Some u)"

definition unit_io :: "string \<Rightarrow> string \<Rightarrow> RuntimeError" where
  "unit_io what why = RtIo what (IoCustom ''InvalidInput'' why)"

definition read_unit :: "UnitDir \<Rightarrow> string \<Rightarrow> string \<Rightarrow> RuntimeError + UnitFile" where
  "read_unit D dir fname =
     rbind (ok_or (RtSyscall ''unit file name'' EINVAL) (unit_name_of fname)) (\<lambda>u.
     case ud_meta D fname of
       Inl e \<Rightarrow> Inl (RtIo ''metadata(unit)'' (OsError e))
     | Inr (regular, len) \<Rightarrow>
         if \<not> regular then Inl (unit_io ''read(unit)'' ''not a regular file'')
         else if len > MAX_UNIT_FILE_BYTES then Inl (unit_io ''read(unit)'' ''unit file is too large'')
         else (case ud_open D fname of
             Some e \<Rightarrow> Inl (RtIo ''open(unit)'' (OsError e))
           | None \<Rightarrow>
               (case ud_read D fname (MAX_UNIT_FILE_BYTES + 1) of
                  Inl e \<Rightarrow> Inl (RtIo ''read_to_string(unit)'' (OsError e))
                | Inr bytes \<Rightarrow>
                    if \<not> utf8_valid bytes
                    then Inl (RtIo ''read_to_string(unit)''
                      (IoCustom ''InvalidData'' ''stream did not contain valid UTF-8''))
                    else if length bytes > MAX_UNIT_FILE_BYTES
                    then Inl (unit_io ''read(unit)'' ''unit file is too large'')
                    else Inr \<lparr>uf_name = u, uf_path = path_join dir fname, uf_contents = bytes\<rparr>)))"

fun load_entries :: "UnitDir \<Rightarrow> string \<Rightarrow> (int + string) list \<Rightarrow> UnitFile list \<times> PlanWarning list" where
  "load_entries D dir [] = ([], [])"
| "load_entries D dir (Inl e # es) =
     (let (fs, ws) = load_entries D dir es in (fs, SkipEntry e # ws))"
| "load_entries D dir (Inr fname # es) =
     (let (fs, ws) = load_entries D dir es in
      if unit_name_of fname = None then (fs, ws)
      else case read_unit D dir fname of
        Inr f \<Rightarrow> (f # fs, ws)
      | Inl e \<Rightarrow> (fs, SkipFile (path_join dir fname) e # ws))"

definition load_unit_files :: "UnitDir \<Rightarrow> string \<Rightarrow> RuntimeError + UnitFile list \<times> PlanWarning list" where
  "load_unit_files D dir = (case ud_list D of
      Inl e \<Rightarrow> Inl (RtIo ''read_dir(units)'' (OsError e))
    | Inr es \<Rightarrow> let (fs, ws) = load_entries D dir es in Inr (sort_key uf_name fs, ws))"

section \<open>The plan\<close>

record BootPlan =
  bp_configs :: "UnitConfig list"
  bp_levels :: "UnitName list list"
  bp_target :: UnitName
  bp_warnings :: "PlanWarning list"
  bp_templates :: "(string \<times> string) list"

datatype PlanError =
  PlanRuntime RuntimeError | PlanParse string ParseError | PlanName CoreError
| PlanDependency DependencyError

text \<open>The loop over the files: parsed units in order, and the text of the templates.\<close>

fun plan_files :: "UnitFile list \<Rightarrow> (string \<times> string) list
    \<Rightarrow> PlanError + UnitConfig list \<times> (string \<times> string) list" where
  "plan_files [] ts = Inr ([], ts)"
| "plan_files (f # fs) ts =
     (case parse (uf_name f) (uf_contents f) of
        Inl e \<Rightarrow> Inl (PlanParse (uf_path f) e)
      | Inr cfg \<Rightarrow>
          if is_template (uf_name f)
          then plan_files fs (put (canonical (uf_name f)) (uf_contents f) ts)
          else rbind (plan_files fs ts) (\<lambda>(cs, ts'). Inr (cfg # cs, ts')))"

text \<open>\<open>binary_search\<close> on the closure, which is sorted, is membership.\<close>

definition boot_levels :: "UnitName list \<Rightarrow> UnitName list list \<Rightarrow> UnitName list list" where
  "boot_levels wanted ls = filter (\<lambda>l. l \<noteq> []) (map (filter (\<lambda>u. u \<in> set wanted)) ls)"

definition resolve_plan :: "UnitConfig list \<Rightarrow> PlanWarning list \<Rightarrow> (string \<times> string) list \<Rightarrow> string
    \<Rightarrow> PlanError + BootPlan" where
  "resolve_plan cfgs0 warns ts default_target =
     rbind (map_sum PlanDependency id (resolve_sockets cfgs0)) (\<lambda>(cfgs, sw).
     rbind (map_sum PlanName id (parse_unit_name default_target)) (\<lambda>target.
     rbind (map_sum PlanDependency id (build cfgs)) (\<lambda>graph.
       if target \<notin> set (units graph) then Inl (PlanDependency (UnknownDefaultTarget target))
       else rbind (map_sum PlanDependency id (levels graph)) (\<lambda>ls.
         Inr \<lparr>bp_configs = cfgs, bp_levels = boot_levels (closure_of graph target) ls, bp_target = target,
              bp_warnings = warns @ map TextWarning sw @ map TextWarning (warnings graph),
              bp_templates = ts\<rparr>))))"

definition plan_boot :: "UnitDir \<Rightarrow> string \<Rightarrow> string \<Rightarrow> PlanError + BootPlan" where
  "plan_boot D dir default_target =
     rbind (map_sum PlanRuntime id (load_unit_files D dir)) (\<lambda>(files, warns).
     rbind (plan_files files []) (\<lambda>(cfgs, ts). resolve_plan cfgs warns ts default_target))"

definition config_of :: "BootPlan \<Rightarrow> UnitName \<Rightarrow> UnitConfig option" where
  "config_of plan u = find (\<lambda>c. cfg_name c = u) (bp_configs plan)"

definition plan_kind :: "BootPlan \<Rightarrow> UnitName \<Rightarrow> string" where
  "plan_kind plan u = (case config_of plan u of
      None \<Rightarrow> ''unknown'' | Some c \<Rightarrow> if is_target c then ''target'' else ''service'')"

definition describe_plan :: "BootPlan \<Rightarrow> string list" where
  "describe_plan plan = concat (map (\<lambda>(i, l).
     map (\<lambda>u. show_nat i @ '': '' @ canonical u @ '' ('' @ plan_kind plan u @ '')'') l)
     (enumerate 0 (bp_levels plan)))"

definition commands_in_level :: "BootPlan \<Rightarrow> UnitName list \<Rightarrow> (UnitName \<times> ServiceKind) list" where
  "commands_in_level plan l = List.map_filter (\<lambda>u. case config_of plan u of
      None \<Rightarrow> None
    | Some c \<Rightarrow> if spawns_process c then Some (u, service_kind c) else None) l"

section \<open>Loading\<close>

lemma map_sum_Inr_iff: "map_sum f id x = Inr y \<longleftrightarrow> x = Inr y"
  by (cases x) auto

lemma load_entries_files:
  "set (fst (load_entries D dir es)) = {f. \<exists>fname. Inr fname \<in> set es \<and> read_unit D dir fname = Inr f}"
proof (induction D dir es rule: load_entries.induct)
  case (3 D dir fname es)
  have "unit_name_of fname = None \<Longrightarrow> read_unit D dir fname \<noteq> Inr f" for f
    by (simp add: read_unit_def)
  then show ?case using 3 by (auto simp: case_prod_beta Let_def split: sum.split)
qed (auto simp: case_prod_beta Let_def)

lemma load_unit_files_set:
  "load_unit_files D dir = Inr (files, ws) \<Longrightarrow>
     \<exists>es. ud_list D = Inr es \<and> sorted (map uf_name files)
       \<and> set files = {f. \<exists>fname. Inr fname \<in> set es \<and> read_unit D dir fname = Inr f}"
  by (auto simp: load_unit_files_def case_prod_beta Let_def load_entries_files [symmetric] split: sum.splits)

lemma plan_files_result:
  "plan_files files ts = Inr (cfgs, ts') \<Longrightarrow>
     (\<forall>f \<in> set files. \<exists>c. parse (uf_name f) (uf_contents f) = Inr c)
     \<and> cfgs = map (\<lambda>f. the (case parse (uf_name f) (uf_contents f) of Inl _ \<Rightarrow> None | Inr c \<Rightarrow> Some c))
         (filter (\<lambda>f. \<not> is_template (uf_name f)) files)"
  by (induction files ts arbitrary: cfgs rule: plan_files.induct)
     (auto simp: rbind_Inr_iff split: sum.splits if_splits)

lemma plan_files_fails:
  "plan_files files ts = Inl e \<Longrightarrow>
     \<exists>f pe. f \<in> set files \<and> parse (uf_name f) (uf_contents f) = Inl pe \<and> e = PlanParse (uf_path f) pe"
  by (induction files ts rule: plan_files.induct)
     (auto simp: rbind_Inl_iff split: sum.splits if_splits)

text \<open>The units the directory holds_unit.\<close>

definition holds_unit :: "UnitDir \<Rightarrow> string \<Rightarrow> UnitName \<Rightarrow> string \<Rightarrow> bool" where
  "holds_unit D dir u body \<longleftrightarrow> (\<exists>es fname f. ud_list D = Inr es \<and> Inr fname \<in> set es
     \<and> read_unit D dir fname = Inr f \<and> uf_name f = u \<and> uf_contents f = body)"

text \<open>
  A boot fails closed on a bad unit: when any readable unit or template of the directory
  does not parse, the whole plan is refused, and the error names the parse error of such a file.
\<close>

theorem plan_refuses_bad_units:
  assumes "holds_unit D dir u body" "parse u body = Inl e"
  shows "\<exists>path v text pe. plan_boot D dir default_target = Inl (PlanParse path pe)
    \<and> holds_unit D dir v text \<and> parse v text = Inl pe"
proof -
  obtain es fname f where f: "ud_list D = Inr es" "Inr fname \<in> set es" "read_unit D dir fname = Inr f"
    "uf_name f = u" "uf_contents f = body" using assms(1) by (auto simp: holds_unit_def)
  obtain files ws where l: "load_unit_files D dir = Inr (files, ws)"
    using f(1) by (auto simp: load_unit_files_def case_prod_beta Let_def)
  from load_unit_files_set [OF l] f have files:
    "set files = {f. \<exists>fname. Inr fname \<in> set es \<and> read_unit D dir fname = Inr f}" by auto
  then have "f \<in> set files" using f by auto
  have "\<exists>x. plan_files files [] = Inl x"
  proof (cases "plan_files files []")
    case (Inr r)
    then obtain cfgs ts where "plan_files files [] = Inr (cfgs, ts)" by (cases r) auto
    from plan_files_result [OF this] \<open>f \<in> set files\<close> f assms(2) show ?thesis by auto
  qed simp
  then obtain x where x: "plan_files files [] = Inl x" by blast
  from plan_files_fails [OF this] obtain g pe where g: "g \<in> set files"
    "parse (uf_name g) (uf_contents g) = Inl pe" "x = PlanParse (uf_path g) pe" by blast
  then have "holds_unit D dir (uf_name g) (uf_contents g)" using files f(1) by (auto simp: holds_unit_def)
  moreover have "plan_boot D dir default_target = Inl x" using l x by (simp add: plan_boot_def)
  ultimately show ?thesis using g(2,3) by blast
qed

text \<open>A directory with one broken unit file.\<close>

definition demo_dir :: "string \<Rightarrow> UnitDir" where
  "demo_dir body = \<lparr>ud_list = Inr [Inl 5, Inr ''README'', Inr ''boot.target''],
     ud_meta = (\<lambda>_. Inr (True, 20)), ud_open = (\<lambda>_. None), ud_read = (\<lambda>_ _. Inr body), ud_join = None\<rparr>"

abbreviation boot_target :: UnitName where "boot_target \<equiv> UnitName ''boot.target'' Target"

lemma demo_dir_reads:
  assumes "utf8_valid body" "length body \<le> 100"
  shows "read_unit (demo_dir body) dir ''boot.target'' =
    Inr \<lparr>uf_name = boot_target, uf_path = path_join dir ''boot.target'', uf_contents = body\<rparr>"
proof -
  have "unit_name_of ''boot.target'' = Some boot_target" by code_simp
  then show ?thesis using assms by (simp add: read_unit_def demo_dir_def MAX_UNIT_FILE_BYTES_def)
qed

lemma demo_dir_holds:
  assumes "utf8_valid body" "length body \<le> 100"
  shows "holds_unit (demo_dir body) dir boot_target body"
  using demo_dir_reads [OF assms, of dir]
  by (auto simp: holds_unit_def demo_dir_def intro!: exI [of _ "''boot.target''"])

theorem plan_refuses_bad_units_witness:
  "\<exists>path pe. plan_boot (demo_dir ''junk'') ''/units'' ''boot'' = Inl (PlanParse path pe)"
proof -
  have "isl (parse boot_target ''junk'')" by code_simp
  then obtain e where e: "parse boot_target ''junk'' = Inl e" by (auto simp: isl_def)
  have "utf8_valid ''junk''" by code_simp
  then have "holds_unit (demo_dir ''junk'') ''/units'' boot_target ''junk''" by (rule demo_dir_holds) simp
  from plan_refuses_bad_units [OF this e, of "''boot''"] show ?thesis by blast
qed

section \<open>Levels of the boot target\<close>

lemma concat_boot_levels: "concat (boot_levels wanted ls) = filter (\<lambda>u. u \<in> set wanted) (concat ls)"
  by (induction ls) (auto simp: boot_levels_def)

lemma boot_levels_before:
  assumes "on_level ls v i" "on_level ls u j" "i < j" "u \<in> set wanted" "v \<in> set wanted"
  shows "\<exists>i j. i < j \<and> on_level (boot_levels wanted ls) v i \<and> on_level (boot_levels wanted ls) u j"
  using assms(1-3)
proof (induction ls arbitrary: i j)
  case (Cons l ls)
  let ?l = "filter (\<lambda>u. u \<in> set wanted) l"
  have bl: "boot_levels wanted (l # ls) = (if ?l = [] then boot_levels wanted ls else ?l # boot_levels wanted ls)"
    by (simp add: boot_levels_def)
  have up: "\<exists>j. 0 < j \<and> on_level (?l # boot_levels wanted ls) u j" if "on_level ls u k" for k
  proof -
    have "u \<in> set (concat (boot_levels wanted ls))"
      using that assms(4) by (auto simp: concat_boot_levels on_level_def)
    then obtain k where "k < length (boot_levels wanted ls)" "u \<in> set (boot_levels wanted ls ! k)"
      by (metis UN_E in_set_conv_nth set_concat)
    then show ?thesis by (intro exI [of _ "Suc k"]) (simp add: on_level_def)
  qed
  show ?case
  proof (cases i)
    case 0
    then have v: "v \<in> set ?l" using Cons.prems assms(5) by (simp add: on_level_def)
    obtain k where "j = Suc k" using Cons.prems(3) 0 by (cases j) auto
    then have "on_level ls u k" using Cons.prems(2) by (simp add: on_level_def)
    then obtain b where "0 < b" "on_level (?l # boot_levels wanted ls) u b" using up by blast
    moreover have "on_level (?l # boot_levels wanted ls) v 0" using v by (simp add: on_level_def)
    moreover have "?l \<noteq> []" using v by (metis empty_iff empty_set)
    ultimately show ?thesis unfolding bl by (simp only: if_False) blast
  next
    case (Suc i')
    obtain k where k: "j = Suc k" using Cons.prems(3) Suc by (cases j) auto
    from Cons.IH [of i' k] Cons.prems Suc k obtain a b where
      ab: "a < b" "on_level (boot_levels wanted ls) v a" "on_level (boot_levels wanted ls) u b"
      by (auto simp: on_level_def)
    show ?thesis
    proof (cases "?l = []")
      case True
      then have "boot_levels wanted (l # ls) = boot_levels wanted ls" using bl by simp
      then show ?thesis using ab by auto
    next
      case False
      then have "boot_levels wanted (l # ls) = ?l # boot_levels wanted ls" using bl by simp
      then have "on_level (boot_levels wanted (l # ls)) v (Suc a)" "on_level (boot_levels wanted (l # ls)) u (Suc b)"
        using ab by (simp_all add: on_level_def)
      then show ?thesis using ab(1) by (intro exI [of _ "Suc a"] exI [of _ "Suc b"]) simp
    qed
  qed
qed (simp add: on_level_def)

lemma demo_plan:
  "\<exists>plan. plan_boot (demo_dir ''[Unit]'') ''/units'' ''boot.target'' = Inr plan
     \<and> bp_target plan = boot_target \<and> config_of plan boot_target \<noteq> None"
proof -
  let ?D = "demo_dir ''[Unit]''"
  have v: "utf8_valid ''[Unit]''" by code_simp
  have n: "unit_name_of ''README'' = None" "unit_name_of ''boot.target'' = Some boot_target" by code_simp+
  define f where "f = \<lparr>uf_name = boot_target, uf_path = path_join ''/units'' ''boot.target'', uf_contents = ''[Unit]''\<rparr>"
  have "ud_list ?D = Inr [Inl 5, Inr ''README'', Inr ''boot.target'']" by (simp add: demo_dir_def)
  then have l: "load_unit_files ?D ''/units'' = Inr ([f], [SkipEntry 5])"
    using demo_dir_reads [OF v, of "''/units''"] n by (simp add: load_unit_files_def f_def)
  have "case parse boot_target ''[Unit]'' of Inl _ \<Rightarrow> False
      | Inr c \<Rightarrow> \<not> isl (resolve_plan [c] [SkipEntry 5] [] ''boot.target'')" by code_simp
  then obtain c plan where c: "parse boot_target ''[Unit]'' = Inr c"
    "resolve_plan [c] [SkipEntry 5] [] ''boot.target'' = Inr plan"
    by (auto split: sum.splits simp: isl_def) (metis sum.exhaust)
  moreover have "\<not> is_template boot_target" by code_simp
  ultimately have p: "plan_boot ?D ''/units'' ''boot.target'' = Inr plan"
    by (simp add: plan_boot_def l f_def)
  have t: "parse_unit_name ''boot.target'' = Inr boot_target" by code_simp
  obtain sw where "resolve_sockets [c] = Inr (bp_configs plan, sw)" "bp_target plan = boot_target"
    using c(2) t by (auto simp: resolve_plan_def rbind_Inr_iff map_sum_Inr_iff split: if_splits)
  moreover from resolve_sockets_Inr [OF this(1)] obtain ps where "bp_configs plan = [fst (resolve_config ps c)]"
    by auto
  moreover have "cfg_name c = boot_target" using parse_result_wf [OF c(1)] by (simp add: wf_unit_config_def)
  ultimately show ?thesis using p by (auto simp: config_of_def resolve_config_def case_prod_beta Let_def)
qed

text \<open>
  Property C34. A boot plan starts exactly the units that the boot target pulls in over \<open>Requires=\<close> and
  \<open>Wants=\<close>, the edges of declared sockets included, each once and in levels none of which is empty;
  whenever a unit of the plan has to wait for another one of it, the other is on an earlier level;
  and every definition of the plan comes from a readable file of the directory.
\<close>

theorem plan_boot_sound:
  assumes "plan_boot D dir default_target = Inr plan"
  shows "distinct (concat (bp_levels plan)) \<and> [] \<notin> set (bp_levels plan)
    \<and> set (concat (bp_levels plan)) = {u. (\<lambda>a b. b \<in> names (bp_configs plan)
          \<and> (\<exists>c \<in> set (bp_configs plan). pulls_in c a b))\<^sup>*\<^sup>* (bp_target plan) u}
    \<and> (\<forall>u v. u \<in> set (concat (bp_levels plan)) \<and> v \<in> set (concat (bp_levels plan))
          \<and> must_wait (bp_configs plan) u v \<longrightarrow>
          (\<exists>i j. i < j \<and> on_level (bp_levels plan) v i \<and> on_level (bp_levels plan) u j))
    \<and> (\<forall>c \<in> set (bp_configs plan). \<exists>body. holds_unit D dir (cfg_name c) body)"
proof -
  obtain files ws cfgs0 ts where l: "load_unit_files D dir = Inr (files, ws)"
      "plan_files files [] = Inr (cfgs0, ts)" "resolve_plan cfgs0 ws ts default_target = Inr plan"
    using assms by (auto simp: plan_boot_def rbind_Inr_iff map_sum_Inr_iff)
  obtain sw target g ls where r: "resolve_sockets cfgs0 = Inr (bp_configs plan, sw)"
      "build (bp_configs plan) = Inr g" "target \<in> set (units g)" "levels g = Inr ls"
      "bp_levels plan = boot_levels (closure_of g target) ls" "bp_target plan = target"
    using l(3) by (auto simp: resolve_plan_def rbind_Inr_iff map_sum_Inr_iff split: if_splits)
  have target: "target \<in> names (bp_configs plan)"
    using build_graph_for [OF r(2), unfolded graph_for_def] r(3) by auto
  note E = build_graph_facts [OF r(2) target]
  note L = levels_partition [OF conjunct1 [OF E] r(4)]
  let ?W = "closure_of g target"
  have sub: "set ?W \<subseteq> set (units g)" by (auto simp: closure_of_def split: option.splits)
  have all: "set (concat (bp_levels plan)) = set ?W"
    using L sub by (auto simp: r(5) concat_boot_levels)
  have wait: "\<exists>i j. i < j \<and> on_level (bp_levels plan) v i \<and> on_level (bp_levels plan) u j"
    if uv: "u \<in> set ?W" "v \<in> set ?W" "must_wait (bp_configs plan) u v" for u v
  proof -
    obtain i j where "i < j" "on_level ls v i" "on_level ls u j" using levels_wait [OF r(2,4) uv(3)] by blast
    then show ?thesis using boot_levels_before uv(1,2) r(5) by metis
  qed
  have origin: "\<exists>body. holds_unit D dir (cfg_name c) body" if c: "c \<in> set (bp_configs plan)" for c
  proof -
    obtain ps where "bp_configs plan = map (fst \<circ> resolve_config ps) cfgs0"
      using resolve_sockets_Inr [OF r(1)] by metis
    then obtain c0 where c0: "c0 \<in> set cfgs0" "cfg_name c = cfg_name c0"
      using c by (auto simp: resolve_config_def case_prod_beta Let_def)
    then obtain f where f: "f \<in> set files" "parse (uf_name f) (uf_contents f) = Inr c0"
      using plan_files_result [OF l(2)] by force
    then have "cfg_name c0 = uf_name f" using parse_result_wf [OF f(2)] by (simp add: wf_unit_config_def)
    moreover have "holds_unit D dir (uf_name f) (uf_contents f)"
      using load_unit_files_set [OF l(1)] f(1) unfolding holds_unit_def by blast
    ultimately show ?thesis using c0(2) by auto
  qed
  have "distinct (concat (bp_levels plan))" "[] \<notin> set (bp_levels plan)"
    using L by (simp_all add: r(5) concat_boot_levels) (simp add: boot_levels_def)
  then show ?thesis using wait origin all E r(6) by auto
qed

theorem plan_boot_sound_witness:
  "\<exists>plan. plan_boot (demo_dir ''[Unit]'') ''/units'' ''boot.target'' = Inr plan
     \<and> boot_target \<in> set (concat (bp_levels plan))"
proof -
  obtain plan where p: "plan_boot (demo_dir ''[Unit]'') ''/units'' ''boot.target'' = Inr plan"
    "bp_target plan = boot_target" using demo_plan by blast
  from plan_boot_sound [OF p(1)] have "bp_target plan \<in> set (concat (bp_levels plan))" by auto
  with p show ?thesis by auto
qed

end
