(* ===== verification/Boot_Schedule.thy ===== *)
theory Boot_Schedule
  imports Activation Boot_Plan
begin

text \<open>
  The boot schedule and the socket wake-ups of the supervisor (\<open>Boot\<close>, \<open>prepare_units\<close>,
  \<open>sync_socket_activation\<close>, \<open>try_start_socket\<close>, \<open>socket_refresh_wait\<close> of \<open>rinit/src/boot.rs\<close>;
  \<open>rinit/src/readiness.rs\<close>; \<open>rinit-runtime/src/time.rs\<close>). Boot is a job source: each advance queues
  the services of the current level and returns while the level is pending. Sets of units are sorted
  lists, as the ordered sets of the source are iterated.
\<close>

section \<open>Readiness and uptime\<close>

datatype Readiness = Immediate | OnExitSuccess | OnReady

fun readiness_of :: "ServiceKind \<Rightarrow> Readiness" where
  "readiness_of Simple = Immediate"
| "readiness_of Oneshot = OnExitSuccess"
| "readiness_of Forking = OnExitSuccess"
| "readiness_of Notify = OnReady"

definition parse_uptime_ms :: "string \<Rightarrow> nat option" where
  "parse_uptime_ms txt = (case split_whitespace txt of
      [] \<Rightarrow> None
    | seconds # _ \<Rightarrow>
        (let (whole, fraction) = (case split_once (CHR ''.'') seconds of Some p \<Rightarrow> p | None \<Rightarrow> (seconds, []));
             digits = filter is_ascii_digit (take 3 fraction)
         in map_option (\<lambda>n. sat_add u64_max (sat_mul u64_max n 1000)
                           (dec_value (digits @ replicate (3 - length digits) (CHR ''0''))))
              (parse_uint u64_max whole)))"

definition uptime_ms :: "Kernel \<Rightarrow> trace \<Rightarrow> nat option \<times> trace" where
  "uptime_ms K tr = (case read_text K ''/proc/uptime'' tr of
      (Inl _, tr1) \<Rightarrow> (None, tr1) | (Inr txt, tr1) \<Rightarrow> (parse_uptime_ms txt, tr1))"

section \<open>The schedule\<close>

definition set_insert :: "'a::linorder \<Rightarrow> 'a list \<Rightarrow> 'a list" where
  "set_insert x xs = (if x \<in> set xs then xs else insort x xs)"

lemma set_set_insert [simp]: "set (set_insert x xs) = insert x (set xs)"
  by (auto simp: set_insert_def set_insort_key)

record Boot =
  b_plan :: BootPlan
  b_level :: nat
  b_active :: bool
  b_pending :: "UnitName list"
  b_targets :: "UnitName list"
  b_planned :: "UnitName list"
  b_counted :: "UnitName list"
  b_started_units :: nat
  b_first_service_uptime_ms :: "nat option"
  b_started_at :: instant
  b_complete :: bool

definition boot_new :: "BootPlan \<Rightarrow> instant \<Rightarrow> Boot" where
  "boot_new plan started_at =
     \<lparr>b_plan = plan, b_level = 0, b_active = False, b_pending = [], b_targets = [],
      b_planned = concat (bp_levels plan), b_counted = [], b_started_units = 0,
      b_first_service_uptime_ms = None, b_started_at = started_at, b_complete = False\<rparr>"

fun record_spawned :: "Kernel \<Rightarrow> UnitName list \<Rightarrow> Boot \<Rightarrow> trace \<Rightarrow> Boot \<times> trace" where
  "record_spawned K [] b tr = (b, tr)"
| "record_spawned K (u # us) b tr =
     (if u \<notin> set (b_planned b) \<or> u \<in> set (b_counted b) then record_spawned K us b tr
      else
        let (first, tr1) = (case b_first_service_uptime_ms b of
              None \<Rightarrow> uptime_ms K tr | Some t \<Rightarrow> (Some t, tr))
        in record_spawned K us (b\<lparr>b_counted := set_insert u (b_counted b),
             b_started_units := Suc (b_started_units b), b_first_service_uptime_ms := first\<rparr>) tr1)"

text \<open>Queue one service of a level; the result says whether the level waits for it.\<close>

definition begin_entry :: "Kernel \<Rightarrow> UnitName \<Rightarrow> StartCoordinator \<Rightarrow> World \<Rightarrow> bool \<times> StartCoordinator \<times> World" where
  "begin_entry K u co w =
     (if is_failed (w_man w) u \<or> listener_fd (w_man w) u \<noteq> None then (False, co, w)
      else case on_man (request_start K u Dependency) w of
        (None, w1) \<Rightarrow> (True, co, w1)
      | (Some effect, w1) \<Rightarrow>
          (let (e, co1, w2) = begin_effect K u effect co w1 in (e = None, co1, w2)))"

fun begin_entries :: "Kernel \<Rightarrow> UnitName list \<Rightarrow> UnitName list \<Rightarrow> StartCoordinator \<Rightarrow> World
    \<Rightarrow> UnitName list \<times> StartCoordinator \<times> World" where
  "begin_entries K [] pending co w = (pending, co, w)"
| "begin_entries K (u # us) pending co w =
     (let (waits, co1, w1) = begin_entry K u co w
      in begin_entries K us (if waits then set_insert u pending else pending) co1 w1)"

definition level_targets :: "BootPlan \<Rightarrow> UnitName list \<Rightarrow> UnitName list" where
  "level_targets plan l =
     filter (\<lambda>u. case config_of plan u of None \<Rightarrow> False | Some c \<Rightarrow> is_target c) l"

definition begin_level :: "Kernel \<Rightarrow> UnitName list \<Rightarrow> Boot \<Rightarrow> StartCoordinator \<Rightarrow> World
    \<Rightarrow> Boot \<times> StartCoordinator \<times> World" where
  "begin_level K l b co w =
     (let (pending, co1, w1) = begin_entries K (map fst (commands_in_level (b_plan b) l)) [] co w
      in (b\<lparr>b_targets := level_targets (b_plan b) l, b_pending := pending, b_active := True\<rparr>, co1, w1))"

definition planned_kind :: "BootPlan \<Rightarrow> UnitName \<Rightarrow> ServiceKind" where
  "planned_kind plan u = (case config_of plan u of None \<Rightarrow> Simple | Some c \<Rightarrow> service_kind c)"

text \<open>Whether the level still waits for a unit that has no start in flight.\<close>

definition settle_one :: "Kernel \<Rightarrow> BootPlan \<Rightarrow> UnitName \<Rightarrow> World \<Rightarrow> bool \<times> World" where
  "settle_one K plan u w =
     (let st = map_option rt_state (unit_at (w_man w) u) in
      if readiness_of (planned_kind plan u) = Immediate
      then (False, if is_failed (w_man w) u then fail_unit K u w else w)
      else case st of
        Some Active \<Rightarrow> (False, w)
      | Some ActiveExited \<Rightarrow> (False, w)
      | Some Starting \<Rightarrow> (True, w)
      | Some RestartWait \<Rightarrow> (False, w)
      | Some Deactivating \<Rightarrow> (False, w)
      | _ \<Rightarrow> (False, fail_unit K u w))"

fun settle_each :: "Kernel \<Rightarrow> BootPlan \<Rightarrow> flow_map \<Rightarrow> UnitName list \<Rightarrow> World \<Rightarrow> UnitName list \<times> World" where
  "settle_each K plan flows [] w = ([], w)"
| "settle_each K plan flows (u # us) w =
     (if is_starting flows u then apfst (Cons u) (settle_each K plan flows us w)
      else
        let (waits, w1) = settle_one K plan u w; (rest, w2) = settle_each K plan flows us w1
        in (if waits then u # rest else rest, w2))"

definition settle_pending :: "Kernel \<Rightarrow> flow_map \<Rightarrow> Boot \<Rightarrow> World \<Rightarrow> bool \<times> Boot \<times> World" where
  "settle_pending K flows b w =
     (let (pending, w1) = settle_each K (b_plan b) flows (b_pending b) w
      in (pending = [], b\<lparr>b_pending := pending\<rparr>, w1))"

fun settle_targets :: "Kernel \<Rightarrow> UnitName list \<Rightarrow> World \<Rightarrow> World" where
  "settle_targets K [] w = w"
| "settle_targets K (u # us) w = settle_targets K us (snd (on_man (reach_target K u) w))"

definition boot_finish :: "Kernel \<Rightarrow> Boot \<Rightarrow> World \<Rightarrow> Boot \<times> World" where
  "boot_finish K b w = (b\<lparr>b_complete := True\<rparr>, snd (on_tr (read_clock K) w))"

text \<open>The current level, begun if it was not.\<close>

definition current_level :: "Kernel \<Rightarrow> Boot \<Rightarrow> StartCoordinator \<Rightarrow> World
    \<Rightarrow> (Boot \<times> StartCoordinator \<times> World) option" where
  "current_level K b co w =
     (if b_active b then Some (b, co, w)
      else if b_level b < length (bp_levels (b_plan b))
      then Some (begin_level K (bp_levels (b_plan b) ! b_level b) b co w)
      else None)"

lemma begin_level_frame [simp]:
  "b_level (fst (begin_level K l b co w)) = b_level b" "b_plan (fst (begin_level K l b co w)) = b_plan b"
  "b_complete (fst (begin_level K l b co w)) = b_complete b"
  by (simp_all add: begin_level_def case_prod_beta Let_def)

lemma settle_pending_frame [simp]:
  "b_level (fst (snd (settle_pending K flows b w))) = b_level b"
  "b_plan (fst (snd (settle_pending K flows b w))) = b_plan b"
  "b_complete (fst (snd (settle_pending K flows b w))) = b_complete b"
  "b_targets (fst (snd (settle_pending K flows b w))) = b_targets b"
  "b_active (fst (snd (settle_pending K flows b w))) = b_active b"
  by (simp_all add: settle_pending_def case_prod_beta Let_def)

lemma current_level_frame:
  "current_level K b co w = Some (b1, co1, w1) \<Longrightarrow> b_level b1 = b_level b \<and> b_plan b1 = b_plan b
     \<and> b_complete b1 = b_complete b \<and> (b_active b \<or> b_level b < length (bp_levels (b_plan b)))"
  using begin_level_frame [of K "bp_levels (b_plan b) ! b_level b" b co w]
  by (auto simp: current_level_def simp del: begin_level_frame split: if_splits)

definition next_level :: "Boot \<Rightarrow> Boot" where
  "next_level b = b\<lparr>b_level := Suc (b_level b), b_active := False\<rparr>"

definition boot_left :: "Boot \<Rightarrow> nat" where
  "boot_left b = 2 * (length (bp_levels (b_plan b)) - b_level b) + (if b_active b then 1 else 0)"

lemma boot_left_descends:
  assumes "current_level K b co w = Some (b1, co1, w1)" "settle_pending K flows b1 w1 = (r, b2, w2)"
  shows "boot_left (next_level b2) < boot_left b"
  using current_level_frame [OF assms(1)] settle_pending_frame [of K flows b1 w1] assms(2)
  by (auto simp: boot_left_def next_level_def)

function boot_loop :: "Kernel \<Rightarrow> Boot \<Rightarrow> StartCoordinator \<Rightarrow> World \<Rightarrow> Boot \<times> StartCoordinator \<times> World" where
  "boot_loop K b co w = (case current_level K b co w of
      None \<Rightarrow> (let (b', w') = boot_finish K b w in (b', co, w'))
    | Some (b1, co1, w1) \<Rightarrow>
        (case settle_pending K (co_flows co1) b1 w1 of
           (False, b2, w2) \<Rightarrow> (b2, co1, w2)
         | (True, b2, w2) \<Rightarrow> boot_loop K (next_level b2) co1 (settle_targets K (b_targets b2) w2)))"
  by pat_completeness auto
termination
proof (relation "measure (\<lambda>(K, b, co, w). boot_left b)", goal_cases)
  case (2 K b co w x b1 y co1 w1 z t b2 w2)
  from 2 have "current_level K b co w = Some (b1, co1, w1)"
    "settle_pending K (co_flows co1) b1 w1 = (True, b2, w2)" by simp_all
  then show ?case by (simp add: boot_left_descends)
qed simp

declare boot_loop.simps [simp del]

definition boot_advance :: "Kernel \<Rightarrow> UnitName list \<Rightarrow> Boot \<Rightarrow> StartCoordinator \<Rightarrow> World
    \<Rightarrow> Boot \<times> StartCoordinator \<times> World" where
  "boot_advance K spawned b co w =
     (let (b1, tr) = record_spawned K spawned b (w_tr w); w1 = w\<lparr>w_tr := tr\<rparr>
      in if b_complete b1 then (b1, co, w1) else boot_loop K b1 co w1)"

section \<open>Before the loop\<close>

fun add_units :: "UnitConfig list \<Rightarrow> UnitManager \<Rightarrow> UnitManager" where
  "add_units [] m = m"
| "add_units (c # cs) m = add_units cs (fst (add_unit c m))"

text \<open>Bind the sockets; a unit whose socket cannot be bound is failed.\<close>

definition bind_unit :: "Kernel \<Rightarrow> UnitConfig \<Rightarrow> UnitManager \<Rightarrow> Activated \<Rightarrow> trace
    \<Rightarrow> UnitManager \<times> Activated \<times> trace" where
  "bind_unit K c m act tr = (case socket_activate c of
      None \<Rightarrow> (m, act, tr)
    | Some path \<Rightarrow>
        (case act_bind K (cfg_name c) path act tr of
           (None, act1, tr1) \<Rightarrow>
             (case held_fd act1 (cfg_name c) of None \<Rightarrow> m | Some f \<Rightarrow> set_listener (cfg_name c) f m, act1, tr1)
         | (Some e, act1, tr1) \<Rightarrow>
             (let (_, m1, tr2) = fail_start K (cfg_name c) m tr1 in (m1, act1, tr2))))"

fun bind_units :: "Kernel \<Rightarrow> UnitConfig list \<Rightarrow> UnitManager \<Rightarrow> Activated \<Rightarrow> trace
    \<Rightarrow> UnitManager \<times> Activated \<times> trace" where
  "bind_units K [] m act tr = (m, act, tr)"
| "bind_units K (c # cs) m act tr = (let (m1, act1, tr1) = bind_unit K c m act tr in bind_units K cs m1 act1 tr1)"

definition prepare_units :: "Kernel \<Rightarrow> BootPlan \<Rightarrow> Cgroup \<Rightarrow> Activated \<Rightarrow> trace
    \<Rightarrow> UnitManager \<times> Activated \<times> trace" where
  "prepare_units K plan cg act tr =
     (let (m0, tr1) = manager_new K tr;
          m1 = add_units (bp_configs plan) (set_cgroup cg (begin_boot m0));
          (m2, act1, tr2) = bind_units K (bp_configs plan) (set_templates (bp_templates plan) m1) act tr1
      in (set_shutdown_order (concat (bp_levels plan)) m2, act1, tr2))"

section \<open>Connections\<close>

definition SOCKET_ACTIVATION_COOLDOWN :: duration where "SOCKET_ACTIVATION_COOLDOWN = from_secs 1"
definition SOCKET_IDLE_REFRESH :: duration where "SOCKET_IDLE_REFRESH = from_millis 100"

text \<open>The time since the last activation of a unit, if it had one; the clock is read only then.\<close>

definition since :: "Kernel \<Rightarrow> (UnitName \<times> instant) list \<Rightarrow> UnitName \<Rightarrow> trace \<Rightarrow> duration option \<times> trace" where
  "since K acts u tr = (case map_of acts u of
      None \<Rightarrow> (None, tr)
    | Some at \<Rightarrow> (let (now, tr1) = read_clock K tr in (Some (now - at), tr1)))"

definition required_failed :: "UnitManager \<Rightarrow> UnitName \<Rightarrow> bool" where
  "required_failed m u = list_ex (is_failed m) (required_closure m u)"

definition sync_one :: "Kernel \<Rightarrow> UnitManager \<Rightarrow> flow_map \<Rightarrow> (UnitName \<times> instant) list \<Rightarrow> bool \<Rightarrow> UnitName list
    \<Rightarrow> UnitName \<Rightarrow> Activated \<Rightarrow> trace \<Rightarrow> Activated \<times> trace" where
  "sync_one K m flows acts boot_active pending u act tr =
     (if boot_active \<or> u \<in> set pending \<or> is_starting flows u then (act, tr)
      else case unit_at m u of
        None \<Rightarrow> (act, tr)
      | Some rt \<Rightarrow>
          if rt_pid rt \<noteq> None
          then (let (ago, tr1) = since K acts u tr
                in (if (case ago of None \<Rightarrow> True | Some d \<Rightarrow> SOCKET_IDLE_REFRESH \<le> d) then rearm u act else act, tr1))
          else if rt_state rt \<in> {Starting, RestartWait, Deactivating} \<or> is_failed m u \<or> required_failed m u
          then (act, tr)
          else (let (ago, tr1) = since K acts u tr
                in (if (case ago of None \<Rightarrow> False | Some d \<Rightarrow> d < SOCKET_ACTIVATION_COOLDOWN) then act
                    else rearm u act, tr1)))"

fun sync_each :: "Kernel \<Rightarrow> UnitManager \<Rightarrow> flow_map \<Rightarrow> (UnitName \<times> instant) list \<Rightarrow> bool \<Rightarrow> UnitName list
    \<Rightarrow> UnitName list \<Rightarrow> Activated \<Rightarrow> trace \<Rightarrow> Activated \<times> trace" where
  "sync_each K m flows acts boot_active pending [] act tr = (act, tr)"
| "sync_each K m flows acts boot_active pending (u # us) act tr =
     (let (act1, tr1) = sync_one K m flows acts boot_active pending u act tr
      in sync_each K m flows acts boot_active pending us act1 tr1)"

definition sync_socket_activation :: "Kernel \<Rightarrow> UnitManager \<Rightarrow> flow_map \<Rightarrow> (UnitName \<times> instant) list \<Rightarrow> bool
    \<Rightarrow> UnitName list \<Rightarrow> Activated \<Rightarrow> trace \<Rightarrow> Activated \<times> trace" where
  "sync_socket_activation K m flows acts boot_active pending act tr =
     sync_each K m flows acts boot_active pending (act_units act) act tr"

definition try_start_socket :: "Kernel \<Rightarrow> UnitName \<Rightarrow> (UnitName \<times> instant) list \<Rightarrow> StartCoordinator \<Rightarrow> World
    \<Rightarrow> (UnitName \<times> instant) list \<times> StartCoordinator \<times> World" where
  "try_start_socket K u acts co w =
     (let (_, w1) = on_man (\<lambda>m tr. ((), note_connection K u m tr)) w;
          (ago, w2) = on_tr (since K acts u) w1
      in if is_running (w_man w2) u
         then (let (now, w3) = on_tr (read_clock K) w2 in (put u now acts, co, w3))
         else if is_starting (co_flows co) u \<or> is_failed (w_man w2) u
              \<or> (case ago of None \<Rightarrow> False | Some d \<Rightarrow> d < SOCKET_ACTIVATION_COOLDOWN)
              \<or> required_failed (w_man w2) u
         then (acts, co, w2)
         else case start_async K u co w2 of
             (None, co1, w3) \<Rightarrow> (let (now, w4) = on_tr (read_clock K) w3 in (put u now acts, co1, w4))
           | (Some e, co1, w3) \<Rightarrow> (acts, co1, w3))"

fun start_sockets :: "Kernel \<Rightarrow> UnitName list \<Rightarrow> (UnitName \<times> instant) list \<Rightarrow> StartCoordinator \<Rightarrow> World
    \<Rightarrow> (UnitName \<times> instant) list \<times> StartCoordinator \<times> World" where
  "start_sockets K [] acts co w = (acts, co, w)"
| "start_sockets K (u # us) acts co w =
     (let (acts1, co1, w1) = try_start_socket K u acts co w in start_sockets K us acts1 co1 w1)"

definition socket_refresh_wait :: "UnitManager \<Rightarrow> Activated \<Rightarrow> duration" where
  "socket_refresh_wait m act =
     (if list_ex (\<lambda>u. is_running m u
            \<and> (case unit_at m u of None \<Rightarrow> False | Some rt \<Rightarrow> 0 < idle_timeout_sec (rt_config rt))) (act_units act)
      then SOCKET_IDLE_REFRESH else from_secs 3600)"

end
