(* ===== verification/Rinit_Args.thy ===== *)
theory Rinit_Args
  imports Notify_Msg Unit_Name BTree_Map
begin

text \<open>
  The command line of process 1 (\<open>rinit/src/args.rs\<close>). Arguments are byte strings and are read through
  \<open>to_string_lossy\<close>; the two spellings of an option with a value share one setter.
\<close>

section \<open>Configuration\<close>

record Config =
  show_version :: bool
  show_help :: bool
  skip_mounts :: bool
  service_argv :: "string list"
  unit_dir :: string
  default_target :: string
  cgroup_root :: "string option"
  watchdog_device :: "string option"
  watchdog_timeout_sec :: nat
  log_file :: "string option"
  log_max_bytes :: nat
  log_keep :: nat
  fstab :: "string option"

definition MIN_LOG_FILE_MAX_BYTES :: nat where "MIN_LOG_FILE_MAX_BYTES = 4096"
definition DEFAULT_LOG_FILE_MAX_BYTES :: nat where "DEFAULT_LOG_FILE_MAX_BYTES = 1024 * 1024"
definition DEFAULT_LOG_KEEP :: nat where "DEFAULT_LOG_KEEP = 0"
definition MAX_LOG_KEEP :: nat where "MAX_LOG_KEEP = 64"
definition DEFAULT_WATCHDOG_SEC :: nat where "DEFAULT_WATCHDOG_SEC = 30"

definition config_default :: "string list \<Rightarrow> Config" where
  "config_default service = \<lparr>show_version = False, show_help = False, skip_mounts = False,
     service_argv = service, unit_dir = ''/etc/rinit/units'', default_target = ''multi-user.target'',
     cgroup_root = None, watchdog_device = None, watchdog_timeout_sec = DEFAULT_WATCHDOG_SEC,
     log_file = Some ''/var/log/rinit/log'', log_max_bytes = DEFAULT_LOG_FILE_MAX_BYTES,
     log_keep = DEFAULT_LOG_KEEP, fstab = Some ''/etc/fstab''\<rparr>"

datatype ArgError =
  MissingValue string | BadTarget CoreError | NotANumber string string | TooSmall string
| TooMany string | OutOfRange string string | ZeroTimeout | UnknownArgument string | EmptyProgram

definition service_argv_from_env :: "string option \<Rightarrow> string list" where
  "service_argv_from_env v = (case v of
      None \<Rightarrow> [] | Some s \<Rightarrow> if trim s = [] then [] else split_whitespace s)"

section \<open>Values\<close>

definition validate_target :: "string \<Rightarrow> ArgError + unit" where
  "validate_target t = (case parse_unit_name t of Inl e \<Rightarrow> Inl (BadTarget e) | Inr _ \<Rightarrow> Inr ())"

definition log_file_path :: "string \<Rightarrow> string option" where
  "log_file_path v =
     (if trim v = [] \<or> map to_ascii_lower (trim v) = ''none'' then None else Some (trim v))"

definition whole_number :: "string \<Rightarrow> string \<Rightarrow> ArgError + nat" where
  "whole_number flag v =
     (if v = [] \<or> \<not> list_all is_ascii_digit v then Inl (NotANumber flag v)
      else ok_or (OutOfRange flag v) (parse_uint u64_max v))"

definition parse_log_max_bytes :: "string \<Rightarrow> ArgError + nat" where
  "parse_log_max_bytes v = rbind (whole_number ''--log-max-bytes'' v) (\<lambda>n.
     if MIN_LOG_FILE_MAX_BYTES \<le> n then Inr n else Inl (TooSmall ''--log-max-bytes''))"

definition parse_log_keep :: "string \<Rightarrow> ArgError + nat" where
  "parse_log_keep v = rbind (whole_number ''--log-keep'' v) (\<lambda>n.
     if n \<le> MAX_LOG_KEEP then Inr n else Inl (TooMany ''--log-keep''))"

definition parse_seconds :: "string \<Rightarrow> ArgError + nat" where
  "parse_seconds v = rbind (whole_number ''--watchdog-timeout'' v) (\<lambda>n.
     if n = 0 then Inl ZeroTimeout else Inr n)"

section \<open>Options\<close>

definition VALUE_FLAGS :: "string list" where
  "VALUE_FLAGS = [''--test-service'', ''--units'', ''--default'', ''--cgroup-root'', ''--fstab'',
     ''--log-file'', ''--log-max-bytes'', ''--log-keep'', ''--watchdog'', ''--watchdog-timeout'']"

definition set_value :: "string \<Rightarrow> string \<Rightarrow> Config \<Rightarrow> ArgError + Config" where
  "set_value f v c =
     (if f = ''--test-service'' then Inr (c\<lparr>service_argv := split_whitespace v\<rparr>)
      else if f = ''--units'' then Inr (c\<lparr>unit_dir := v\<rparr>)
      else if f = ''--default''
      then rbind (validate_target v) (\<lambda>_. Inr (c\<lparr>default_target := v\<rparr>))
      else if f = ''--cgroup-root'' then Inr (c\<lparr>cgroup_root := Some v\<rparr>)
      else if f = ''--fstab'' then Inr (c\<lparr>fstab := log_file_path v\<rparr>)
      else if f = ''--log-file'' then Inr (c\<lparr>log_file := log_file_path v\<rparr>)
      else if f = ''--log-max-bytes''
      then rbind (parse_log_max_bytes v) (\<lambda>n. Inr (c\<lparr>log_max_bytes := n\<rparr>))
      else if f = ''--log-keep'' then rbind (parse_log_keep v) (\<lambda>n. Inr (c\<lparr>log_keep := n\<rparr>))
      else if f = ''--watchdog'' then Inr (c\<lparr>watchdog_device := Some v\<rparr>)
      else rbind (parse_seconds v) (\<lambda>n. Inr (c\<lparr>watchdog_timeout_sec := n\<rparr>)))"

text \<open>The option an argument of the form \<open>--flag=value\<close> sets.\<close>

definition inline_option :: "string \<Rightarrow> (string \<times> string) option" where
  "inline_option a = find_map (\<lambda>f. map_option (Pair f) (strip_prefix (f @ ''='') a)) VALUE_FLAGS"

datatype Step = Next Config | Took Config | Finished Config

definition arg_step :: "string \<Rightarrow> string list \<Rightarrow> Config \<Rightarrow> ArgError + Step" where
  "arg_step a rest c =
     (if a = ''-h'' \<or> a = ''--help'' then Inr (Next (c\<lparr>show_help := True\<rparr>))
      else if a = ''-V'' \<or> a = ''--version'' then Inr (Next (c\<lparr>show_version := True\<rparr>))
      else if a = ''--dev'' then Inr (Next (c\<lparr>skip_mounts := True\<rparr>))
      else if a \<in> set VALUE_FLAGS then
        (case rest of
           [] \<Rightarrow> Inl (MissingValue a)
         | v # _ \<Rightarrow> rbind (set_value a (from_utf8_lossy v) c) (\<lambda>c'. Inr (Took c')))
      else if a = ''--'' then Inr (Finished (c\<lparr>service_argv := map from_utf8_lossy rest\<rparr>))
      else (case inline_option a of
          Some (f, v) \<Rightarrow> rbind (set_value f v c) (\<lambda>c'. Inr (Next c'))
        | None \<Rightarrow>
            if starts_with_char (CHR ''-'') a then Inl (UnknownArgument a)
            else Inr (Finished (c\<lparr>service_argv := a # map from_utf8_lossy rest\<rparr>))))"

fun args_loop :: "string list \<Rightarrow> Config \<Rightarrow> ArgError + Config" where
  "args_loop [] c = Inr c"
| "args_loop (a # rest) c = rbind (arg_step (from_utf8_lossy a) rest c) (\<lambda>s. case s of
      Next c' \<Rightarrow> args_loop rest c'
    | Took c' \<Rightarrow> args_loop (tl rest) c'
    | Finished c' \<Rightarrow> Inr c')"

definition parse_with_default :: "string list \<Rightarrow> string list \<Rightarrow> ArgError + Config" where
  "parse_with_default args service = rbind (args_loop args (config_default service)) (\<lambda>c.
     if service_argv c \<noteq> [] \<and> hd (service_argv c) = [] then Inl EmptyProgram else Inr c)"

definition parse_args :: "string option \<Rightarrow> string list \<Rightarrow> ArgError + Config" where
  "parse_args env args = parse_with_default args (service_argv_from_env env)"

section \<open>Accepted values\<close>

definition wf_args :: "Config \<Rightarrow> bool" where
  "wf_args c \<longleftrightarrow> 4096 \<le> log_max_bytes c \<and> log_max_bytes c \<le> u64_max \<and> log_keep c \<le> 64
     \<and> 1 \<le> watchdog_timeout_sec c \<and> watchdog_timeout_sec c \<le> u64_max
     \<and> (\<exists>u. parse_unit_name (default_target c) = Inr u)"

lemma whole_number_le: "whole_number f v = Inr n \<Longrightarrow> n \<le> u64_max"
  by (auto simp: whole_number_def ok_or_Inr_iff split: if_splits dest: parse_uint_le)

lemma value_bounds:
  "parse_log_max_bytes v = Inr n \<Longrightarrow> 4096 \<le> n \<and> n \<le> u64_max"
  "parse_log_keep v = Inr n \<Longrightarrow> n \<le> 64"
  "parse_seconds v = Inr n \<Longrightarrow> 1 \<le> n \<and> n \<le> u64_max"
  by (auto simp: parse_log_max_bytes_def parse_log_keep_def parse_seconds_def rbind_Inr_iff
      MIN_LOG_FILE_MAX_BYTES_def MAX_LOG_KEEP_def dest: whole_number_le split: if_splits)

lemma validate_target_Inr: "validate_target t = Inr x \<Longrightarrow> \<exists>u. parse_unit_name t = Inr u"
  by (auto simp: validate_target_def split: sum.splits)

lemma set_value_wf: "set_value f v c = Inr c' \<Longrightarrow> wf_args c \<Longrightarrow> wf_args c'"
  by (auto simp: set_value_def wf_args_def rbind_Inr_iff split: if_split_asm
      dest!: value_bounds validate_target_Inr)

fun step_config :: "Step \<Rightarrow> Config" where
  "step_config (Next c) = c" | "step_config (Took c) = c" | "step_config (Finished c) = c"

lemma wf_args_frame [simp]:
  "wf_args (c\<lparr>service_argv := x\<rparr>) = wf_args c" "wf_args (c\<lparr>show_help := b\<rparr>) = wf_args c"
  "wf_args (c\<lparr>show_version := b\<rparr>) = wf_args c" "wf_args (c\<lparr>skip_mounts := b\<rparr>) = wf_args c"
  by (simp_all add: wf_args_def)

lemma arg_step_wf: "arg_step a rest c = Inr s \<Longrightarrow> wf_args c \<Longrightarrow> wf_args (step_config s)"
  by (auto simp: arg_step_def rbind_Inr_iff split: if_split_asm list.split_asm option.split_asm
      intro: set_value_wf)
     (erule (1) set_value_wf)+

lemma args_loop_wf: "args_loop args c = Inr c' \<Longrightarrow> wf_args c \<Longrightarrow> wf_args c'"
proof (induction args c rule: args_loop.induct)
  case (2 a rest c)
  then obtain s where s: "arg_step (from_utf8_lossy a) rest c = Inr s" by (auto simp: rbind_Inr_iff)
  then have "wf_args (step_config s)" using 2 arg_step_wf by blast
  then show ?case using 2 s by (cases s) auto
qed simp

text \<open>
  Whatever the kernel passes to process 1, an accepted command line leaves a usable
  configuration: a log bound of at least 4096 bytes and at most 64 rotated files, a watchdog timeout
  between one second and the largest 64-bit number, a boot target that names a unit, and either no
  service command or one with a program.
\<close>

theorem accepted_args_valid:
  assumes "parse_with_default args service = Inr c"
  shows "wf_args c \<and> (service_argv c = [] \<or> hd (service_argv c) \<noteq> [])"
proof -
  have "\<exists>u. parse_unit_name ''multi-user.target'' = Inr u"
    by (rule exI [of _ "UnitName ''multi-user.target'' Target"]) code_simp
  then have "wf_args (config_default service)"
    by (simp add: wf_args_def config_default_def DEFAULT_LOG_FILE_MAX_BYTES_def DEFAULT_LOG_KEEP_def
        DEFAULT_WATCHDOG_SEC_def u64_max_value)
  then show ?thesis
    using assms args_loop_wf by (auto simp: parse_with_default_def rbind_Inr_iff split: if_split_asm)
qed

section \<open>Two spellings of an option\<close>

lemma lossy_ascii: "list_all is_ascii p \<Longrightarrow> from_utf8_lossy (p @ s) = p @ from_utf8_lossy s"
proof (induction p)
  case (Cons a p)
  then have "next_chunk (a # p @ s) = (1, True)" by (simp add: next_chunk_def)
  then show ?case using Cons by (simp add: from_utf8_lossy.simps [of "a # p @ s"])
qed simp

lemma value_flags_ascii: "f \<in> set VALUE_FLAGS \<Longrightarrow> list_all is_ascii (f @ ''='')"
proof -
  have "list_all (\<lambda>f. list_all is_ascii (f @ ''='')) VALUE_FLAGS" by code_simp
  then show "f \<in> set VALUE_FLAGS \<Longrightarrow> list_all is_ascii (f @ ''='')" by (simp add: list_all_iff)
qed

lemma value_flags_inline: "f \<in> set VALUE_FLAGS \<Longrightarrow> inline_option (f @ ''='' @ v) = Some (f, v)"
proof -
  have "\<forall>f \<in> set VALUE_FLAGS. inline_option (f @ ''='' @ v) = Some (f, v)"
    by (simp add: inline_option_def VALUE_FLAGS_def strip_prefix_def)
  then show "f \<in> set VALUE_FLAGS \<Longrightarrow> inline_option (f @ ''='' @ v) = Some (f, v)" by blast
qed

lemma value_flags_plain:
  "f \<in> set VALUE_FLAGS \<Longrightarrow> f \<notin> {''-h'', ''--help'', ''-V'', ''--version'', ''--dev''}"
proof -
  have "list_all (\<lambda>f. f \<notin> {''-h'', ''--help'', ''-V'', ''--version'', ''--dev''}) VALUE_FLAGS" by code_simp
  then show "f \<in> set VALUE_FLAGS \<Longrightarrow> f \<notin> {''-h'', ''--help'', ''-V'', ''--version'', ''--dev''}"
    by (auto simp: list_all_iff)
qed

lemma with_equals:
  assumes "CHR ''='' \<in> set a"
  shows "a \<notin> {''-h'', ''--help'', ''-V'', ''--version'', ''--dev'', ''--''}" "a \<notin> set VALUE_FLAGS"
proof -
  have "list_all (\<lambda>f. CHR ''='' \<notin> set f) VALUE_FLAGS" by code_simp
  then show "a \<notin> set VALUE_FLAGS" using assms by (auto simp: list_all_iff)
  show "a \<notin> {''-h'', ''--help'', ''-V'', ''--version'', ''--dev'', ''--''}" using assms by auto
qed

text \<open>
  The two spellings of an option mean the same, for every option and every value, bytes
  that are not UTF-8 and rejected values included.
\<close>

theorem option_spellings_agree:
  assumes "f \<in> set VALUE_FLAGS"
  shows "args_loop (f # v # rest) c = args_loop ((f @ ''='' @ v) # rest) c"
proof -
  have l: "from_utf8_lossy (f @ ''='' @ v) = f @ ''='' @ from_utf8_lossy v"
    using lossy_ascii [OF value_flags_ascii [OF assms], of v] by simp
  have e: "from_utf8_lossy f = f"
    using lossy_ascii [of f "[]"] value_flags_ascii [OF assms] by (simp add: from_utf8_lossy.simps)
  have s1: "arg_step f (v # rest) c = rbind (set_value f (from_utf8_lossy v) c) (\<lambda>c'. Inr (Took c'))"
    using value_flags_plain [OF assms] assms by (simp add: arg_step_def)
  define a where "a = f @ ''='' @ from_utf8_lossy v"
  have s2: "arg_step a rest c = rbind (set_value f (from_utf8_lossy v) c) (\<lambda>c'. Inr (Next c'))"
    using with_equals [of a] value_flags_inline [OF assms, of "from_utf8_lossy v"]
    by (simp add: arg_step_def a_def [symmetric]) (simp add: a_def)
  have "args_loop ((f @ ''='' @ v) # rest) c = rbind (set_value f (from_utf8_lossy v) c) (args_loop rest)"
    using s2 by (simp only: args_loop.simps l a_def [symmetric]) (cases "set_value f (from_utf8_lossy v) c"; simp)
  moreover have "args_loop (f # v # rest) c = rbind (set_value f (from_utf8_lossy v) c) (args_loop rest)"
    by (simp only: args_loop.simps e s1) (cases "set_value f (from_utf8_lossy v) c"; simp)
  ultimately show ?thesis by simp
qed

theorem accepted_args_valid_witness:
  "\<exists>c. parse_with_default [''--log-keep=7''] [] = Inr c \<and> log_keep c \<le> 64"
proof -
  have "from_utf8_lossy ''--log-keep=7'' = ''--log-keep=7''"
    using lossy_ascii [of "''--log-keep=7''" "[]"] by (simp add: rust_std from_utf8_lossy.simps)
  moreover have "parse_log_keep ''7'' = Inr 7"
    by (simp add: parse_log_keep_def whole_number_def parse_uint_def dec_value_def rust_std u64_max_value
        MAX_LOG_KEEP_def)
  ultimately have "\<exists>c. parse_with_default [''--log-keep=7''] [] = Inr c"
    by (simp add: parse_with_default_def arg_step_def inline_option_def VALUE_FLAGS_def strip_prefix_def
        set_value_def config_default_def)
  then obtain c where "parse_with_default [''--log-keep=7''] [] = Inr c" by blast
  with accepted_args_valid [OF this] show ?thesis by (auto simp: wf_args_def)
qed

theorem option_spellings_agree_witness:
  "args_loop [''--units'', ''/etc/u''] (config_default []) = args_loop [''--units'' @ ''='' @ ''/etc/u''] (config_default [])"
proof -
  have "''--units'' \<in> set VALUE_FLAGS" by (simp add: VALUE_FLAGS_def)
  then show ?thesis by (rule option_spellings_agree)
qed

end
