(* ===== verification/Reload.thy ===== *)
theory Reload
  imports Boot_Schedule Rinit_Args
begin

text \<open>
  Configuration reload (\<open>rinit/src/reload.rs\<close>): the unit directory is planned again, and the difference
  to what the manager holds is applied. What reading the directory answers is the parameter \<open>D\<close>, as in
  the boot plan. The report keeps the names in the order the source pushes them.
\<close>

record Report =
  rr_added :: "UnitName list"
  rr_started :: "UnitName list"
  rr_applied :: "UnitName list"
  rr_deferred :: "UnitName list"
  rr_removed :: "UnitName list"
  rr_stopped :: "UnitName list"
  rr_pruned :: nat
  rr_unchanged :: nat

definition report_default :: Report where
  "report_default = \<lparr>rr_added = [], rr_started = [], rr_applied = [], rr_deferred = [], rr_removed = [],
     rr_stopped = [], rr_pruned = 0, rr_unchanged = 0\<rparr>"

definition report_lines :: "Report \<Rightarrow> string list" where
  "report_lines r =
     map (\<lambda>u. ''stopped '' @ canonical u @ '': its unit file is gone'') (rr_stopped r)
   @ map (\<lambda>u. ''removed '' @ canonical u) (rr_removed r)
   @ map (\<lambda>u. canonical u @ '': new definition in force'') (rr_applied r)
   @ map (\<lambda>u. canonical u @ '' is running; its new definition applies at the next start'') (rr_deferred r)
   @ map (\<lambda>u. ''registered '' @ canonical u) (rr_added r)
   @ map (\<lambda>u. ''started '' @ canonical u @ '': the boot target requires it'') (rr_started r)
   @ (if 0 < rr_pruned r
      then [''dropped '' @ show_nat (rr_pruned r) @ '' unit(s) a previous reload removed''] else [])"

definition report_summary :: "Report \<Rightarrow> string" where
  "report_summary r = ''reload: '' @ show_nat (length (rr_added r)) @ '' added (''
     @ show_nat (length (rr_started r)) @ '' started), ''
     @ show_nat (length (rr_applied r) + length (rr_deferred r)) @ '' changed (''
     @ show_nat (length (rr_deferred r)) @ '' deferred), ''
     @ show_nat (length (rr_removed r)) @ '' removed ('' @ show_nat (length (rr_stopped r)) @ '' stopped), ''
     @ show_nat (rr_unchanged r) @ '' unchanged''"

section \<open>Gone from the directory\<close>

definition from_template :: "BootPlan \<Rightarrow> UnitName \<Rightarrow> bool" where
  "from_template plan u = (case template_of u of
      None \<Rightarrow> False | Some t \<Rightarrow> map_of (bp_templates plan) (canonical t) \<noteq> None)"

definition is_gone :: "BootPlan \<Rightarrow> UnitManager \<Rightarrow> UnitName \<Rightarrow> bool" where
  "is_gone plan m u \<longleftrightarrow> exists_unit m u \<and> config_of plan u = None \<and> \<not> from_template plan u"

text \<open>Stop a unit that is up; the error is one of \<open>apply_effect\<close>.\<close>

definition stop_gone :: "Kernel \<Rightarrow> UnitName \<Rightarrow> Report \<Rightarrow> World \<Rightarrow> RuntimeError option \<times> Report \<times> World" where
  "stop_gone K u rep w =
     (if manager_is_up (w_man w) u
      then let (effect, w1) = on_man (request_stop K u UserStop) w;
               (r, w2) = on_man (apply_effect K u effect) w1
           in (r, if r = None then rep\<lparr>rr_stopped := rr_stopped rep @ [u]\<rparr> else rep, w2)
      else (None, rep, w))"

definition hide_unit :: "Kernel \<Rightarrow> UnitName \<Rightarrow> Activated \<Rightarrow> World \<Rightarrow> Activated \<times> World" where
  "hide_unit K u act w =
     (let (act1, tr1) = act_remove u act (w_tr w);
          (hub1, tr2) = disarm K u (w_hub w) tr1;
          (m1, tr3) = retire K u (clear_listener u (w_man w)) tr2
      in (act1, w\<lparr>w_man := m1, w_hub := hub1, w_tr := tr3\<rparr>))"

fun remove_gone :: "Kernel \<Rightarrow> BootPlan \<Rightarrow> UnitName list \<Rightarrow> Report \<Rightarrow> Activated \<Rightarrow> World
    \<Rightarrow> RuntimeError option \<times> Report \<times> Activated \<times> World" where
  "remove_gone K plan [] rep act w = (None, rep, act, w)"
| "remove_gone K plan (u # us) rep act w =
     (if \<not> is_gone plan (w_man w) u then remove_gone K plan us rep act w
      else case stop_gone K u rep w of
        (Some e, rep1, w1) \<Rightarrow> (Some e, rep1, act, w1)
      | (None, rep1, w1) \<Rightarrow>
          (let (act1, w2) = hide_unit K u act w1
           in remove_gone K plan us (rep1\<lparr>rr_removed := rr_removed rep1 @ [u]\<rparr>) act1 w2))"

section \<open>What the directory now holds\<close>

definition listen_as_held :: "UnitName \<Rightarrow> Activated \<Rightarrow> UnitManager \<Rightarrow> UnitManager" where
  "listen_as_held u act m = (case held_fd act u of None \<Rightarrow> m | Some f \<Rightarrow> set_listener u f m)"

definition reconcile_socket :: "Kernel \<Rightarrow> UnitConfig \<Rightarrow> UnitManager \<Rightarrow> Activated \<Rightarrow> trace
    \<Rightarrow> UnitManager \<times> Activated \<times> trace" where
  "reconcile_socket K c m act tr =
     (let u = cfg_name c in
      case (socket_activate c, path_of act u) of
        (None, None) \<Rightarrow> (m, act, tr)
      | (None, Some _) \<Rightarrow> (let (act1, tr1) = act_remove u act tr in (clear_listener u m, act1, tr1))
      | (Some path, current) \<Rightarrow>
          if (case current of None \<Rightarrow> False | Some p \<Rightarrow> path_eq p path)
          then (listen_as_held u act m, act, tr)
          else (case act_bind K u path act tr of
                  (None, act1, tr1) \<Rightarrow> (listen_as_held u act1 m, act1, tr1)
                | (Some e, act1, tr1) \<Rightarrow>
                    (case held_fd act1 u of None \<Rightarrow> clear_listener u m | Some f \<Rightarrow> set_listener u f m, act1, tr1)))"

text \<open>The socket of a unit that no longer is a \<open>notify\<close> service is taken down.\<close>

definition drop_notify_socket :: "Kernel \<Rightarrow> UnitConfig \<Rightarrow> World \<Rightarrow> World" where
  "drop_notify_socket K c w =
     (if (case unit_at (w_man w) (cfg_name c) of
            None \<Rightarrow> False | Some rt \<Rightarrow> service_kind (rt_config rt) = Notify \<and> service_kind c \<noteq> Notify)
      then let (hub, tr) = disarm K (cfg_name c) (w_hub w) (w_tr w) in w\<lparr>w_hub := hub, w_tr := tr\<rparr> else w)"

definition note_change :: "UnitName \<Rightarrow> bool \<Rightarrow> ConfigChange \<Rightarrow> Report \<Rightarrow> Report" where
  "note_change u was_retired change rep =
     (if was_retired \<or> change = Added then rep\<lparr>rr_added := rr_added rep @ [u]\<rparr>
      else case change of
        Applied \<Rightarrow> rep\<lparr>rr_applied := rr_applied rep @ [u]\<rparr>
      | Deferred \<Rightarrow> rep\<lparr>rr_deferred := rr_deferred rep @ [u]\<rparr>
      | _ \<Rightarrow> rep\<lparr>rr_unchanged := Suc (rr_unchanged rep)\<rparr>)"

definition update_unit :: "Kernel \<Rightarrow> flow_map \<Rightarrow> UnitConfig \<Rightarrow> Report \<Rightarrow> Activated \<Rightarrow> World
    \<Rightarrow> Report \<times> Activated \<times> World" where
  "update_unit K flows c rep act w =
     (let u = cfg_name c;
          was_retired = (case unit_at (w_man w) u of None \<Rightarrow> False | Some rt \<Rightarrow> retired rt);
          w1 = drop_notify_socket K c w;
          (m1, change) = add_with_in_flight c (is_starting flows u) (w_man w1);
          (m2, act1, tr1) = reconcile_socket K c m1 act (w_tr w1)
      in (note_change u was_retired change rep, act1, w1\<lparr>w_man := m2, w_tr := tr1\<rparr>))"

fun update_units :: "Kernel \<Rightarrow> flow_map \<Rightarrow> UnitConfig list \<Rightarrow> Report \<Rightarrow> Activated \<Rightarrow> World
    \<Rightarrow> Report \<times> Activated \<times> World" where
  "update_units K flows [] rep act w = (rep, act, w)"
| "update_units K flows (c # cs) rep act w =
     (let (rep1, act1, w1) = update_unit K flows c rep act w in update_units K flows cs rep1 act1 w1)"

section \<open>Starts\<close>

text \<open>Only added units the boot target pulls in, and not those that wait for a connection.\<close>

definition starts_now :: "BootPlan \<Rightarrow> Report \<Rightarrow> UnitName \<Rightarrow> bool" where
  "starts_now plan rep u \<longleftrightarrow> u \<in> set (rr_added rep)
     \<and> (case config_of plan u of None \<Rightarrow> True | Some c \<Rightarrow> socket_activate c = None)"

fun start_added :: "Kernel \<Rightarrow> BootPlan \<Rightarrow> UnitName list \<Rightarrow> Report \<Rightarrow> StartCoordinator \<Rightarrow> World
    \<Rightarrow> Report \<times> StartCoordinator \<times> World" where
  "start_added K plan [] rep co w = (rep, co, w)"
| "start_added K plan (u # us) rep co w =
     (if \<not> starts_now plan rep u then start_added K plan us rep co w
      else
        let (e, co1, w1) = start_async K u co w
        in start_added K plan us (if e = None then rep\<lparr>rr_started := rr_started rep @ [u]\<rparr> else rep) co1 w1)"

section \<open>The reload\<close>

datatype ReloadError = ReloadPlan PlanError | ReloadJoin string | ReloadStop RuntimeError

definition apply_plan :: "Kernel \<Rightarrow> BootPlan \<Rightarrow> Activated \<Rightarrow> StartCoordinator \<Rightarrow> World
    \<Rightarrow> (ReloadError + Report) \<times> Activated \<times> StartCoordinator \<times> World" where
  "apply_plan K plan act co w =
     (let (m1, pruned) = prune_retired (w_man w); w1 = w\<lparr>w_man := m1\<rparr> in
      case remove_gone K plan (manager_names m1) (report_default\<lparr>rr_pruned := pruned\<rparr>) act w1 of
        (Some e, rep, act1, w2) \<Rightarrow> (Inl (ReloadStop e), act1, co, w2)
      | (None, rep, act1, w2) \<Rightarrow>
          (let (rep1, act2, w3) = update_units K (co_flows co) (bp_configs plan) rep act1 w2;
               (rep2, co1, w4) = start_added K plan (concat (bp_levels plan)) rep1 co w3;
               m5 = set_shutdown_order (concat (bp_levels plan)) (set_templates (bp_templates plan) (w_man w4))
           in (Inr rep2, act2, co1, w4\<lparr>w_man := m5\<rparr>)))"

definition reload :: "Kernel \<Rightarrow> UnitDir \<Rightarrow> Config \<Rightarrow> Activated \<Rightarrow> StartCoordinator \<Rightarrow> World
    \<Rightarrow> (ReloadError + Report) \<times> Activated \<times> StartCoordinator \<times> World" where
  "reload K D cfg act co w = (case ud_join D of
      Some detail \<Rightarrow> (Inl (ReloadJoin detail), act, co, w)
    | None \<Rightarrow>
        (case plan_boot D (unit_dir cfg) (default_target cfg) of
           Inl e \<Rightarrow> (Inl (ReloadPlan e), act, co, w)
         | Inr plan \<Rightarrow> apply_plan K plan act co w))"

end
