(* ===== verification/Reload_Props.thy ===== *)
theory Reload_Props
  imports Reload
begin

text \<open>
  What a reload guarantees: it is applied whole or not at all, and afterwards the manager holds exactly
  the units of the directory. The interface to the supervisor is the set of lemmas that every step of
  a reload keeps the invariant of the manager.
\<close>

abbreviation sound_world :: "World \<Rightarrow> bool" where
  "sound_world w \<equiv> world_good sound_state w"

lemma sound_worldI: "wf_manager (w_man w) \<Longrightarrow> harmless (w_tr w) \<Longrightarrow> sound_world w"
  by (simp add: world_good_def sound_state_def)

lemma sound_worldD: "sound_world w \<Longrightarrow> wf_manager (w_man w)" "sound_world w \<Longrightarrow> harmless (w_tr w)"
  by (simp_all add: world_good_def sound_state_def)

section \<open>The definitions of a plan\<close>

definition plan_ok :: "BootPlan \<Rightarrow> bool" where
  "plan_ok plan \<longleftrightarrow> distinct (map cfg_name (bp_configs plan))
     \<and> (\<forall>c \<in> set (bp_configs plan). config_for (cfg_name c) c)"

lemma plan_boot_ok:
  assumes "plan_boot D dir target = Inr plan"
  shows "plan_ok plan"
proof -
  obtain files ws cfgs0 ts where l: "plan_files files [] = Inr (cfgs0, ts)"
      "resolve_plan cfgs0 ws ts target = Inr plan"
    using assms by (auto simp: plan_boot_def rbind_Inr_iff map_sum_Inr_iff)
  obtain sw g where r: "resolve_sockets cfgs0 = Inr (bp_configs plan, sw)" "build (bp_configs plan) = Inr g"
    using l(2) by (auto simp: resolve_plan_def rbind_Inr_iff map_sum_Inr_iff split: if_splits)
  obtain ps where ps: "bp_configs plan = map (fst \<circ> resolve_config ps) cfgs0"
    using resolve_sockets_Inr [OF r(1)] by metis
  have "config_for (cfg_name c) c" if "c \<in> set (bp_configs plan)" for c
  proof -
    from that ps obtain c0 where c0: "c0 \<in> set cfgs0" "c = fst (resolve_config ps c0)" by auto
    then obtain f where "f \<in> set files" and f: "parse (uf_name f) (uf_contents f) = Inr c0"
      using plan_files_result [OF l(1)] by force
    from config_for_parsed [OF f] c0(2) show ?thesis
      by (simp add: resolve_config_def case_prod_beta Let_def config_for_def)
  qed
  moreover have "distinct (map cfg_name (bp_configs plan))"
    using build_duplicate [of "bp_configs plan"] r(2) by force
  ultimately show ?thesis by (simp add: plan_ok_def)
qed

lemma config_of_SomeD: "config_of plan u = Some c \<Longrightarrow> c \<in> set (bp_configs plan) \<and> cfg_name c = u"
  by (auto simp: config_of_def find_Some_iff)

lemma config_of_iff: "plan_ok plan \<Longrightarrow> config_of plan u = Some c \<longleftrightarrow> c \<in> set (bp_configs plan) \<and> cfg_name c = u"
proof (rule iffI)
  assume ok: "plan_ok plan" and c: "c \<in> set (bp_configs plan) \<and> cfg_name c = u"
  then obtain d where "config_of plan u = Some d"
    by (cases "config_of plan u") (auto simp: config_of_def find_None_iff)
  moreover from config_of_SomeD [OF this] ok c have "d = c"
    by (auto simp: plan_ok_def distinct_map dest: inj_onD)
  ultimately show "config_of plan u = Some c" by simp
qed (rule config_of_SomeD)

section \<open>Stopping what is gone\<close>

text \<open>A stop request for a unit that is up is never answered with a start.\<close>

lemma stop_effect_of_up:
  assumes "sound_world w" "manager_is_up (w_man w) u"
  shows "fst (request_stop K u UserStop (w_man w) tr) \<in> {None, Some NoEffect, Some SendStopSignal}"
proof -
  from assms(2) obtain rt where rt: "unit_at (w_man w) u = Some rt" "is_up rt"
    by (auto simp: manager_is_up_def split: option.splits)
  have "wf_rt u rt" using wf_manager_at [OF sound_worldD(1) [OF assms(1)] rt(1)] .
  with rt(2) have s: "rt_state rt \<in> {Starting, Active, Deactivating, ActiveExited, Inactive}"
    by (auto simp: is_up_def unit_ok_def consistent_def split: if_splits)
  have "starts_ok (w_man w)" using sound_worldD(1) [OF assms(1)] by (simp add: units_ok_def)
  then have "mt_target (merge_target Stopped UserStop (fst (now_millis K (w_man w) tr))
      (live_target (w_man w) u (rt_state rt))) = Stopped"
    by (cases "live_target (w_man w) u (rt_state rt)"; cases "mt_target (the (live_target (w_man w) u (rt_state rt)))")
      (auto simp: merge_target_def live_target_def starts_ok_def split: if_splits)
  with s show ?thesis
    using request_known(1) [OF rt(1), of K Stopped UserStop tr]
    by (auto simp: request_stop_def asked_def reconcile_def target_of_def)
qed

lemma stop_gone_fine: "sound_world w \<Longrightarrow> fst (stop_gone K u rep w) = None"
  using stop_effect_of_up [of w u K "w_tr w"]
  by (auto simp: stop_gone_def on_man_def apply_effect_def case_prod_beta Let_def)

lemma sound_apply_effect:
  "sound_world w \<Longrightarrow> sound_world (snd (on_man (apply_effect K u e) w))"
  by (rule kept.world_on_man)
    (auto simp: apply_effect_def sup.good_stop_unit split: option.split Effect.split)

lemma sound_stop_gone: "sound_world w \<Longrightarrow> sound_world (snd (snd (stop_gone K u rep w)))"
proof -
  assume w: "sound_world w"
  then have "sound_world (snd (on_man (request_stop K u UserStop) w))"
    by (intro kept.world_on_man) (simp_all add: request_stop_def sup.good_request)
  from sound_apply_effect [OF this] w show ?thesis by (simp add: stop_gone_def case_prod_beta Let_def)
qed

lemma sound_hide_unit: "sound_world w \<Longrightarrow> sound_world (snd (hide_unit K u act w))"
  by (simp add: world_good_def sound_state_def hide_unit_def case_prod_beta Let_def clear_listener_def wf_retire)

lemma remove_gone_fine:
  "sound_world w \<Longrightarrow> fst (remove_gone K plan us rep act w) = None
     \<and> sound_world (snd (snd (snd (remove_gone K plan us rep act w))))"
proof (induction us arbitrary: rep act w)
  case (Cons u us)
  then show ?case
    using stop_gone_fine [OF Cons.prems, of K u rep] sound_stop_gone [OF Cons.prems, of K u rep]
    by (auto simp: case_prod_beta Let_def sound_hide_unit split: prod.split)
qed simp

section \<open>What is left and what is new\<close>

lemma stop_unit_other: "v \<noteq> u \<Longrightarrow> unit_at (fst (stop_unit K u m tr)) v = unit_at m v"
  by (simp add: stop_unit_def with_unit_rt_def case_prod_beta upd_unit_def map_of_modify split: option.split)

lemma stop_gone_other:
  assumes "v \<noteq> u" shows "unit_at (w_man (snd (snd (stop_gone K u rep w)))) v = unit_at (w_man w) v"
proof -
  have "unit_at (fst (snd (request K u Stopped UserStop (w_man w) (w_tr w)))) v = unit_at (w_man w) v"
    if "manager_is_up (w_man w) u"
    using that assms request_known(3) [of "w_man w" u _ Stopped UserStop K "w_tr w" v]
    by (auto simp: manager_is_up_def split: option.splits)
  then show ?thesis
    using assms by (simp add: stop_gone_def on_man_def apply_effect_def request_stop_def stop_unit_other
        case_prod_beta Let_def split: option.split Effect.split)
qed

lemma retire_units:
  "unit_at (fst (retire K u m tr)) v = (if v = u then map_option retire_rt (unit_at m u) else unit_at m v)"
  by (auto simp: retire_def Let_def invalidate_graph_def upd_unit_def map_of_modify split: option.split)

lemma hide_unit_units:
  "unit_at (w_man (snd (hide_unit K u act w))) v =
     (if v = u then map_option retire_rt (unit_at (w_man w) u) else unit_at (w_man w) v)"
  by (simp add: hide_unit_def case_prod_beta Let_def retire_units clear_listener_def)

lemma is_gone_cong: "unit_at m v = unit_at m' v \<Longrightarrow> is_gone plan m v = is_gone plan m' v"
  by (simp add: is_gone_def exists_unit_def)

text \<open>Exactly the units that are gone are hidden; every other unit is as it was.\<close>

lemma remove_gone_units:
  assumes "sound_world w"
  shows "let m' = w_man (snd (snd (snd (remove_gone K plan us rep act w)))) in
    if v \<in> set us \<and> is_gone plan (w_man w) v then \<not> exists_unit m' v else unit_at m' v = unit_at (w_man w) v"
  using assms
proof (induction us arbitrary: rep act w)
  case (Cons u us)
  show ?case
  proof (cases "is_gone plan (w_man w) u")
    case True
    define w1 where "w1 = snd (snd (stop_gone K u rep w))"
    define w2 where "w2 = snd (hide_unit K u act w1)"
    have s: "sound_world w2"
      unfolding w1_def w2_def by (intro sound_hide_unit sound_stop_gone Cons.prems)
    have r: "\<exists>rep' act'. remove_gone K plan (u # us) rep act w = remove_gone K plan us rep' act' w2"
      using True stop_gone_fine [OF Cons.prems, of K u rep]
      by (auto simp: w1_def w2_def case_prod_beta Let_def split: prod.split)
    have same: "unit_at (w_man w2) v = unit_at (w_man w) v" if "v \<noteq> u"
      using that by (simp add: w1_def w2_def hide_unit_units stop_gone_other)
    have hidden: "\<not> exists_unit (w_man w2) u"
      by (auto simp: w2_def exists_unit_def hide_unit_units retire_rt_def split: option.split)
    show ?thesis
    proof (cases "v = u")
      case True
      with hidden have "\<not> is_gone plan (w_man w2) v" by (simp add: is_gone_def)
      with Cons.IH [OF s] r hidden True \<open>is_gone plan (w_man w) u\<close> show ?thesis
        by (auto simp: Let_def exists_unit_def split: if_splits)
    next
      case False
      with Cons.IH [OF s] r same is_gone_cong [OF same [OF False]] show ?thesis by (auto simp: Let_def split: if_splits)
    qed
  next
    case False
    with Cons.IH [OF Cons.prems] show ?thesis by (auto simp: Let_def split: if_splits)
  qed
qed simp

text \<open>A unit of the directory: registered, and its definition is in force or waits for its next start.\<close>

definition defined_as :: "UnitManager \<Rightarrow> UnitConfig \<Rightarrow> bool" where
  "defined_as m c \<longleftrightarrow> (\<exists>rt. unit_at m (cfg_name c) = Some rt \<and> \<not> retired rt
     \<and> (rt_config rt = c \<and> pending_config rt = None \<or> pending_config rt = Some c))"

lemma reconcile_socket_units [simp]: "m_units (fst (reconcile_socket K c m act tr)) = m_units m"
  by (simp add: reconcile_socket_def listen_as_held_def set_listener_def clear_listener_def case_prod_beta Let_def
      split: option.split)

lemma drop_notify_socket_man [simp]: "w_man (drop_notify_socket K c w) = w_man w"
  by (simp add: drop_notify_socket_def case_prod_beta Let_def)

lemma update_unit_man:
  "m_units (w_man (snd (snd (update_unit K flows c rep act w)))) =
     m_units (fst (add_with_in_flight c (is_starting flows (cfg_name c)) (w_man w)))"
  by (simp add: update_unit_def case_prod_beta Let_def)

lemma add_other: "v \<noteq> cfg_name c \<Longrightarrow> unit_at (fst (add_with_in_flight c fl m)) v = unit_at m v"
  by (simp add: add_with_in_flight_def Let_def invalidate_graph_def upd_unit_def map_of_modify split: option.split)

lemma add_defines: "defined_as (fst (add_with_in_flight c fl m)) c"
  by (auto simp: defined_as_def add_with_in_flight_def Let_def invalidate_graph_def upd_unit_def map_of_modify
      apply_config_def runtime_new_def split: option.split)

lemma defined_as_cong: "m_units m = m_units m' \<Longrightarrow> defined_as m c = defined_as m' c"
  by (simp add: defined_as_def)

lemma update_units_units:
  assumes "distinct (map cfg_name cs)"
  shows "(\<forall>c \<in> set cs. defined_as (w_man (snd (snd (update_units K flows cs rep act w)))) c)
    \<and> (\<forall>v. v \<notin> cfg_name ` set cs \<longrightarrow>
      unit_at (w_man (snd (snd (update_units K flows cs rep act w)))) v = unit_at (w_man w) v)"
  using assms
proof (induction cs arbitrary: rep act w)
  case (Cons c cs)
  obtain rep1 act1 w1 where u: "update_unit K flows c rep act w = (rep1, act1, w1)" by (metis prod_cases3)
  let ?m = "w_man (snd (snd (update_units K flows cs rep1 act1 w1)))"
  have w1: "m_units (w_man w1) = m_units (fst (add_with_in_flight c (is_starting flows (cfg_name c)) (w_man w)))"
    using update_unit_man [of K flows c rep act w] u by simp
  from Cons have IH: "\<forall>c \<in> set cs. defined_as ?m c"
    "\<And>v. v \<notin> cfg_name ` set cs \<Longrightarrow> unit_at ?m v = unit_at (w_man w1) v" by simp_all
  have "defined_as (w_man w1) c" using add_defines defined_as_cong [OF w1] by blast
  then have "defined_as ?m c" using IH(2) [of "cfg_name c"] Cons.prems by (simp add: defined_as_def)
  moreover have "unit_at ?m v = unit_at (w_man w) v" if "v \<notin> cfg_name ` set (c # cs)" for v
    using that IH(2) [of v] by (simp add: w1 add_other)
  ultimately show ?case using IH(1) by (simp add: u)
qed simp

lemma start_order_units [simp]: "m_units (snd (start_order m u)) = m_units m"
  by (auto simp: start_order_def cached_graph_def Let_def split: sum.split option.split prod.split)

lemma start_added_units [simp]: "m_units (w_man (snd (snd (start_added K plan us rep co w)))) = m_units (w_man w)"
proof (induction us arbitrary: rep co w)
  case (Cons u us)
  have "m_units (w_man (snd (snd (start_async K u co w)))) = m_units (w_man w)"
    using start_order_units [of "w_man w" u]
    by (auto simp: start_async_def on_man_def control_new_def case_prod_beta Let_def split: sum.split)
  with Cons show ?case by (simp add: case_prod_beta Let_def)
qed simp

section \<open>Whole or not at all\<close>

lemma sound_prune: "sound_world w \<Longrightarrow> sound_world (w\<lparr>w_man := fst (prune_retired (w_man w))\<rparr>)"
  by (simp add: world_good_def sound_state_def wf_prune_retired)

lemma apply_plan_fine:
  assumes "sound_world w" "apply_plan K plan act co w = (r, act', co', w')"
  shows "\<exists>rep. r = Inr rep"
  using assms remove_gone_fine [OF sound_prune [OF assms(1)]]
  by (auto simp: apply_plan_def case_prod_beta Let_def split: option.splits)

text \<open>
  Property C5. A reload is applied whole or not at all: when it is rejected, the directory could not be
  planned or the task that reads it did not return, and the manager, the sockets, the starts and the
  trace are exactly as before; it is never abandoned after the first change, because no stop of a unit
  that is gone is refused.
\<close>
theorem reload_all_or_nothing:
  assumes "sound_state (w_man w) (w_tr w)" "reload K D cfg act co w = (Inl e, act', co', w')"
  shows "((\<exists>e'. e = ReloadPlan e' \<and> plan_boot D (unit_dir cfg) (default_target cfg) = Inl e')
      \<or> (\<exists>detail. e = ReloadJoin detail \<and> ud_join D = Some detail))
    \<and> act' = act \<and> co' = co \<and> w' = w"
proof -
  consider (join) detail where "ud_join D = Some detail"
    | (plan) plan where "ud_join D = None" "plan_boot D (unit_dir cfg) (default_target cfg) = Inr plan"
    | (refused) e' where "ud_join D = None" "plan_boot D (unit_dir cfg) (default_target cfg) = Inl e'"
    by (cases "ud_join D"; cases "plan_boot D (unit_dir cfg) (default_target cfg)") auto
  then show ?thesis
  proof cases
    case plan
    with assms(2) have "apply_plan K plan act co w = (Inl e, act', co', w')" by (simp add: reload_def)
    with apply_plan_fine [of w K plan act co] assms(1) show ?thesis by (auto simp: world_good_def)
  qed (use assms(2) in \<open>auto simp: reload_def\<close>)
qed

section \<open>Afterwards\<close>

lemma prune_units:
  "sound_world w \<Longrightarrow> unit_at (fst (prune_retired (w_man w))) u
      = (case unit_at (w_man w) u of None \<Rightarrow> None | Some rt \<Rightarrow> if keeps rt then Some rt else None)"
proof -
  assume "sound_world w"
  then have d: "distinct (map fst (m_units (w_man w)))"
    using sound_worldD(1) by (auto simp: units_ok_def ordered_distinct)
  have "map_of (filter (\<lambda>(_, rt). keeps rt) (m_units (w_man w))) u
      = (case unit_at (w_man w) u of None \<Rightarrow> None | Some rt \<Rightarrow> if keeps rt then Some rt else None)"
    using map_of_filter_values [OF d] by simp
  then show ?thesis by (simp add: prune_retired_def Let_def invalidate_graph_def)
qed

lemma exists_prune: "sound_world w \<Longrightarrow> exists_unit (fst (prune_retired (w_man w))) u = exists_unit (w_man w) u"
  by (auto simp: prune_units exists_unit_def keeps_def split: option.split)

lemma from_names: "unit_at m u = Some rt \<Longrightarrow> u \<in> set (manager_names m)"
  by (force simp: manager_names_def dest: map_of_SomeD)

text \<open>
  Property C6. After a reload the manager mirrors the directory: a unit exists exactly when the plan
  defines it or it existed and is an instance of a template the plan still has; every unit of the plan
  has that definition in force, or pending until its next start; such an instance is left as it was,
  under the definition it was made from; the templates and the shutdown order are those of the plan.
\<close>
theorem reload_mirrors_directory:
  assumes "sound_state (w_man w) (w_tr w)" "reload K D cfg act co w = (Inr rep, act', co', w')"
  shows "\<exists>plan. plan_boot D (unit_dir cfg) (default_target cfg) = Inr plan
    \<and> (\<forall>u. exists_unit (w_man w') u \<longleftrightarrow>
          config_of plan u \<noteq> None \<or> exists_unit (w_man w) u \<and> from_template plan u)
    \<and> (\<forall>c \<in> set (bp_configs plan). defined_as (w_man w') c)
    \<and> (\<forall>u. exists_unit (w_man w') u \<longrightarrow> config_of plan u = None \<longrightarrow>
          unit_at (w_man w') u = unit_at (w_man w) u)
    \<and> templates (w_man w') = bp_templates plan
    \<and> m_shutdown_order (w_man w') = concat (bp_levels plan)"
proof -
  from assms(2) obtain plan where plan: "plan_boot D (unit_dir cfg) (default_target cfg) = Inr plan"
    and ap: "apply_plan K plan act co w = (Inr rep, act', co', w')" by (auto simp: reload_def split: sum.splits option.splits)
  note ok = plan_boot_ok [OF plan]
  have s: "sound_world w" using assms(1) by (simp add: world_good_def)
  define w1 where "w1 = w\<lparr>w_man := fst (prune_retired (w_man w))\<rparr>"
  define G where "G = remove_gone K plan (manager_names (w_man w1)) (report_default\<lparr>rr_pruned := snd (prune_retired (w_man w))\<rparr>) act w1"
  define w2 where "w2 = snd (snd (snd G))"
  have s1: "sound_world w1" unfolding w1_def by (rule sound_prune [OF s])
  have "fst G = None" unfolding G_def using remove_gone_fine [OF s1] by blast
  then obtain rep1 where w': "m_units (w_man w') = m_units (w_man (snd (snd (update_units K (co_flows co) (bp_configs plan) rep1 (fst (snd (snd G))) w2))))"
    "templates (w_man w') = bp_templates plan" "m_shutdown_order (w_man w') = concat (bp_levels plan)"
    using ap by (auto simp: apply_plan_def G_def w1_def w2_def case_prod_beta Let_def set_templates_def
        set_shutdown_order_def split: option.splits)
  have gone: "if v \<in> set (manager_names (w_man w1)) \<and> is_gone plan (w_man w1) v then \<not> exists_unit (w_man w2) v
      else unit_at (w_man w2) v = unit_at (w_man w1) v" for v
    using remove_gone_units [OF s1, of K plan "manager_names (w_man w1)" _ act v] by (simp add: w2_def G_def Let_def)
  have names: "distinct (map cfg_name (bp_configs plan))" using ok by (simp add: plan_ok_def)
  note upd = conjunct1 [OF update_units_units [OF names, of K "co_flows co" rep1 "fst (snd (snd G))" w2]]
    conjunct2 [OF update_units_units [OF names, of K "co_flows co" rep1 "fst (snd (snd G))" w2], rule_format]
  have defs: "\<forall>c \<in> set (bp_configs plan). defined_as (w_man w') c"
    using upd(1) defined_as_cong [OF w'(1)] by blast
  have "unit_at (w_man w') u = unit_at (w_man w) u" if "exists_unit (w_man w') u" "config_of plan u = None" for u
  proof -
    from that(2) have "u \<notin> cfg_name ` set (bp_configs plan)" by (auto simp: config_of_def find_None_iff)
    from upd(2) [OF this] w'(1) have w2: "unit_at (w_man w') u = unit_at (w_man w2) u" by simp
    with that(1) gone [of u] have "unit_at (w_man w2) u = unit_at (w_man w1) u"
      by (auto simp: exists_unit_def split: if_splits)
    with w2 prune_units [OF s, of u] that(1) show ?thesis
      by (auto simp: w1_def exists_unit_def keeps_def split: option.splits if_splits)
  qed
  moreover have "exists_unit (w_man w') u \<longleftrightarrow> config_of plan u \<noteq> None \<or> exists_unit (w_man w) u \<and> from_template plan u" for u
  proof (cases "config_of plan u")
    case None
    then have "u \<notin> cfg_name ` set (bp_configs plan)" by (auto simp: config_of_def find_None_iff)
    from upd(2) [OF this] w'(1) have "exists_unit (w_man w') u = exists_unit (w_man w2) u"
      by (simp add: exists_unit_def)
    also have "\<dots> = (exists_unit (w_man w1) u \<and> from_template plan u)"
      using gone [of u] from_names [of "w_man w1" u] None
      by (auto simp: is_gone_def exists_unit_def split: option.splits if_splits)
    finally show ?thesis using exists_prune [OF s] None by (simp add: w1_def)
  next
    case (Some c)
    then have "defined_as (w_man w') c" "cfg_name c = u" using defs config_of_SomeD by auto
    with Some show ?thesis by (auto simp: defined_as_def exists_unit_def)
  qed
  ultimately show ?thesis using plan defs w'(2,3) by blast
qed

section \<open>A concrete reload\<close>

definition demo_config :: Config where
  "demo_config = (config_default [])\<lparr>unit_dir := ''/units'', default_target := ''boot.target''\<rparr>"

abbreviation fresh_world :: World where
  "fresh_world \<equiv> \<lparr>w_man = fst (manager_new calm_kernel []), w_hub = hub_new None, w_aux = [], w_tr = [Now]\<rparr>"

lemma fresh_world_sound: "sound_state (w_man fresh_world) (w_tr fresh_world)"
  using manager_run_inv [of True calm_kernel "manager_new calm_kernel []"]
  by (simp add: sound_state_def manager_new_def read_clock_def)

theorem reload_all_or_nothing_witness:
  "\<exists>e. reload calm_kernel ((demo_dir ''[Unit]'')\<lparr>ud_list := Inl 13\<rparr>) demo_config activation_disabled
      coordinator_default fresh_world = (Inl e, activation_disabled, coordinator_default, fresh_world)"
proof -
  let ?D = "(demo_dir ''[Unit]'')\<lparr>ud_list := Inl 13\<rparr>"
  obtain e where "plan_boot ?D (unit_dir demo_config) (default_target demo_config) = Inl e"
    by (auto simp: plan_boot_def load_unit_files_def)
  moreover have "ud_join ?D = None" by (simp add: demo_dir_def)
  ultimately obtain e act co w where r: "reload calm_kernel ?D demo_config activation_disabled coordinator_default fresh_world
      = (Inl e, act, co, w)" by (auto simp: reload_def)
  from reload_all_or_nothing [OF fresh_world_sound r] r show ?thesis by auto
qed

theorem reload_mirrors_directory_witness:
  "\<exists>rep act co w. reload calm_kernel (demo_dir ''[Unit]'') demo_config activation_disabled coordinator_default fresh_world
      = (Inr rep, act, co, w) \<and> exists_unit (w_man w) boot_target"
proof -
  obtain plan where plan: "plan_boot (demo_dir ''[Unit]'') (unit_dir demo_config) (default_target demo_config) = Inr plan"
    "config_of plan boot_target \<noteq> None" using demo_plan by (auto simp: demo_config_def)
  obtain r act co w where r: "reload calm_kernel (demo_dir ''[Unit]'') demo_config activation_disabled
      coordinator_default fresh_world = (r, act, co, w)" by (metis prod_cases4)
  with plan(1) have ap: "apply_plan calm_kernel plan activation_disabled coordinator_default fresh_world = (r, act, co, w)"
    by (simp add: reload_def demo_dir_def)
  have "sound_world fresh_world" using fresh_world_sound by (simp add: world_good_def)
  from apply_plan_fine [OF this ap] obtain rep where rep: "r = Inr rep" by blast
  from reload_mirrors_directory [OF fresh_world_sound r [unfolded rep]] plan have "exists_unit (w_man w) boot_target" by auto
  with r rep show ?thesis by auto
qed

end
