(* ===== verification/Log_Buffer.thy ===== *)
theory Log_Buffer
  imports Unit_Name
begin

text \<open>
  The shared log ring of \<open>rinit-core/src/logger.rs\<close>. \<open>LINE_OVERHEAD\<close> is twice the size of the
  \<open>LogLine\<close> structure, which the compiler lays out; it is the parameter \<open>overhead\<close> of the
  definitions, of which the properties use that it is positive.

  The invariant is that the byte count is exactly the cost of the lines held and never exceeds
  the budget; and the ring always holds the newest lines, cut at character boundaries.
\<close>

section \<open>Definitions\<close>

definition DEFAULT_MAX_BYTES :: nat where "DEFAULT_MAX_BYTES = 256 * 1024"
definition DEFAULT_MAX_LINE_BYTES :: nat where "DEFAULT_MAX_LINE_BYTES = 1024"

record LogLine =
  line_unit :: UnitName
  line_text :: string

record LogBuffer =
  log_lines :: "LogLine list"
  log_bytes :: nat
  max_bytes :: nat
  max_line_bytes :: nat

definition line_cost :: "nat \<Rightarrow> UnitName \<Rightarrow> string \<Rightarrow> nat" where
  "line_cost overhead unit t = length t + length (canonical unit) + overhead"

definition log_new :: "nat \<Rightarrow> nat \<Rightarrow> LogBuffer" where
  "log_new mb mlb = \<lparr>log_lines = [], log_bytes = 0, max_bytes = mb, max_line_bytes = mlb\<rparr>"

definition with_defaults :: LogBuffer where
  "with_defaults = log_new DEFAULT_MAX_BYTES DEFAULT_MAX_LINE_BYTES"

definition truncate :: "string \<Rightarrow> nat \<Rightarrow> string" where
  "truncate t mx = (if length t \<le> mx then t else take (floor_boundary t mx) t)"

text \<open>\<open>while self.bytes > self.max_bytes { pop_front }\<close>\<close>

fun evict :: "nat \<Rightarrow> nat \<Rightarrow> LogLine list \<Rightarrow> nat \<Rightarrow> LogLine list \<times> nat" where
  "evict overhead mb [] b = ([], b)"
| "evict overhead mb (l # ls) b =
     (if mb < b then evict overhead mb ls (b - line_cost overhead (line_unit l) (line_text l))
      else (l # ls, b))"

definition log_push :: "nat \<Rightarrow> LogBuffer \<Rightarrow> UnitName \<Rightarrow> string \<Rightarrow> LogBuffer" where
  "log_push overhead buf unit t =
     (if max_bytes buf = 0 then buf
      else let room = max_bytes buf - (length (canonical unit) + overhead);
               kept = truncate t (min (max_line_bytes buf) room);
               (ls, b) = evict overhead (max_bytes buf)
                  (log_lines buf @ [\<lparr>line_unit = unit, line_text = kept\<rparr>])
                  (log_bytes buf + line_cost overhead unit kept)
           in buf\<lparr>log_lines := ls, log_bytes := b\<rparr>)"

definition log_tail :: "LogBuffer \<Rightarrow> nat \<Rightarrow> LogLine list" where
  "log_tail buf count = drop (length (log_lines buf) - count) (log_lines buf)"

definition tail_for :: "LogBuffer \<Rightarrow> UnitName \<Rightarrow> nat \<Rightarrow> LogLine list" where
  "tail_for buf unit count =
     rev (take count (rev (filter (\<lambda>l. line_unit l = unit) (log_lines buf))))"

definition log_len :: "LogBuffer \<Rightarrow> nat" where
  "log_len buf = length (log_lines buf)"

definition log_is_empty :: "LogBuffer \<Rightarrow> bool" where
  "log_is_empty buf \<longleftrightarrow> log_lines buf = []"

definition accounted_bytes :: "LogBuffer \<Rightarrow> nat" where
  "accounted_bytes buf = log_bytes buf"

section \<open>The accounting invariant\<close>

definition cost :: "nat \<Rightarrow> LogLine list \<Rightarrow> nat" where
  "cost overhead ls = sum_list (map (\<lambda>l. line_cost overhead (line_unit l) (line_text l)) ls)"

definition wf_log :: "nat \<Rightarrow> LogBuffer \<Rightarrow> bool" where
  "wf_log overhead buf \<longleftrightarrow>
     log_bytes buf = cost overhead (log_lines buf) \<and> log_bytes buf \<le> max_bytes buf
     \<and> (max_bytes buf = 0 \<longrightarrow> log_lines buf = [])
     \<and> list_all (\<lambda>l. length (line_text l) \<le> max_line_bytes buf) (log_lines buf)"

lemma cost_simps [simp]:
  "cost overhead [] = 0"
  "cost overhead (l # ls) = line_cost overhead (line_unit l) (line_text l) + cost overhead ls"
  "cost overhead (xs @ ys) = cost overhead xs + cost overhead ys"
  by (simp_all add: cost_def)

text \<open>Eviction drops the shortest prefix that brings the rest within the budget.\<close>

lemma evict_result:
  "\<exists>dropped. ls = dropped @ fst (evict overhead mb ls (cost overhead ls))
     \<and> snd (evict overhead mb ls (cost overhead ls)) = cost overhead (fst (evict overhead mb ls (cost overhead ls)))
     \<and> cost overhead (fst (evict overhead mb ls (cost overhead ls))) \<le> mb
     \<and> (dropped \<noteq> [] \<longrightarrow> mb < cost overhead (last dropped # fst (evict overhead mb ls (cost overhead ls))))"
proof (induction ls)
  case (Cons l ls)
  show ?case
  proof (cases "mb < cost overhead (l # ls)")
    case True
    then have eq: "evict overhead mb (l # ls) (cost overhead (l # ls)) = evict overhead mb ls (cost overhead ls)"
      by simp
    from Cons.IH obtain dropped where d: "ls = dropped @ fst (evict overhead mb ls (cost overhead ls))"
      "snd (evict overhead mb ls (cost overhead ls)) = cost overhead (fst (evict overhead mb ls (cost overhead ls)))"
      "cost overhead (fst (evict overhead mb ls (cost overhead ls))) \<le> mb"
      "dropped \<noteq> [] \<longrightarrow> mb < cost overhead (last dropped # fst (evict overhead mb ls (cost overhead ls)))"
      by blast
    show ?thesis
    proof (intro exI [of _ "l # dropped"], unfold eq, intro conjI)
      show "l # dropped \<noteq> [] \<longrightarrow>
          mb < cost overhead (last (l # dropped) # fst (evict overhead mb ls (cost overhead ls)))"
        using d(1,4) True by (cases dropped) auto
    qed (use d in auto)
  next
    case False
    then show ?thesis by (intro exI [of _ "[]"]) auto
  qed
qed simp

lemma length_truncate: "length (truncate t mx) \<le> mx"
  using floor_boundary_le [of t mx] by (auto simp: truncate_def)

lemma truncate_prefix: "\<exists>n. truncate t mx = take n t \<and> is_char_boundary t n"
  using floor_boundary_ok [of t mx]
  by (auto simp: truncate_def is_char_boundary_def intro: exI [of _ "length t"])

lemma wf_log_new: "wf_log overhead (log_new mb mlb)"
  by (simp add: wf_log_def log_new_def)

definition pushed_line :: "nat \<Rightarrow> LogBuffer \<Rightarrow> UnitName \<Rightarrow> string \<Rightarrow> LogLine" where
  "pushed_line overhead buf unit t =
     \<lparr>line_unit = unit,
      line_text = truncate t (min (max_line_bytes buf) (max_bytes buf - (length (canonical unit) + overhead)))\<rparr>"

lemma log_push_result:
  assumes "wf_log overhead buf"
  shows "wf_log overhead (log_push overhead buf unit t)
    \<and> (max_bytes buf \<noteq> 0 \<longrightarrow>
        (\<exists>dropped. log_lines buf @ [pushed_line overhead buf unit t] =
            dropped @ log_lines (log_push overhead buf unit t)
          \<and> (dropped \<noteq> [] \<longrightarrow>
               max_bytes buf < cost overhead (last dropped # log_lines (log_push overhead buf unit t)))))"
proof (cases "max_bytes buf = 0")
  case True
  then show ?thesis using assms by (simp add: log_push_def)
next
  case False
  let ?l = "pushed_line overhead buf unit t"
  let ?ls = "log_lines buf @ [?l]"
  let ?e = "evict overhead (max_bytes buf) ?ls (cost overhead ?ls)"
  have push: "log_push overhead buf unit t = buf\<lparr>log_lines := fst ?e, log_bytes := snd ?e\<rparr>"
    using False assms by (simp add: log_push_def pushed_line_def Let_def wf_log_def split_beta)
  obtain dropped where d: "?ls = dropped @ fst ?e" "snd ?e = cost overhead (fst ?e)"
    "cost overhead (fst ?e) \<le> max_bytes buf"
    "dropped \<noteq> [] \<longrightarrow> max_bytes buf < cost overhead (last dropped # fst ?e)"
    using evict_result [of ?ls overhead "max_bytes buf"] by blast
  have "list_all (\<lambda>l. length (line_text l) \<le> max_line_bytes buf) ?ls"
    using assms length_truncate [of t "min (max_line_bytes buf) (max_bytes buf - (length (canonical unit) + overhead))"]
    by (simp add: wf_log_def pushed_line_def)
  then have "list_all (\<lambda>l. length (line_text l) \<le> max_line_bytes buf) (fst ?e)"
    using d(1) by (metis list_all_append)
  moreover obtain ls b where e: "?e = (ls, b)" by (cases ?e)
  ultimately show ?thesis using d False unfolding push e by (auto simp: wf_log_def)
qed

section \<open>Histories\<close>

definition push_all :: "nat \<Rightarrow> LogBuffer \<Rightarrow> (UnitName \<times> string) list \<Rightarrow> LogBuffer" where
  "push_all overhead buf ms = foldl (\<lambda>b (u, t). log_push overhead b u t) buf ms"

lemma log_push_bounds:
  "max_bytes (log_push overhead buf unit t) = max_bytes buf"
  "max_line_bytes (log_push overhead buf unit t) = max_line_bytes buf"
  by (simp_all add: log_push_def Let_def split_beta)

lemma push_all_snoc [simp]: "push_all overhead buf (ms @ [(u, t)]) = log_push overhead (push_all overhead buf ms) u t"
  by (simp add: push_all_def)

lemma push_all_result:
  "wf_log overhead (push_all overhead (log_new mb mlb) ms)
   \<and> max_bytes (push_all overhead (log_new mb mlb) ms) = mb
   \<and> max_line_bytes (push_all overhead (log_new mb mlb) ms) = mlb
   \<and> (\<exists>n. log_lines (push_all overhead (log_new mb mlb) ms) =
        drop n (map (\<lambda>(u, t). pushed_line overhead (log_new mb mlb) u t) ms))"
proof (induction ms rule: rev_induct)
  case Nil
  then show ?case by (simp add: push_all_def wf_log_new) (simp add: log_new_def)
next
  case (snoc m ms)
  obtain u t where m: "m = (u, t)" by (cases m)
  let ?b = "push_all overhead (log_new mb mlb) ms"
  let ?p = "\<lambda>(u, t). pushed_line overhead (log_new mb mlb) u t"
  have b: "wf_log overhead ?b" "max_bytes ?b = mb" "max_line_bytes ?b = mlb" using snoc.IH by auto
  have same: "pushed_line overhead ?b u t = ?p (u, t)"
    using b by (simp add: pushed_line_def log_new_def)
  obtain n where n: "log_lines ?b = drop n (map ?p ms)" using snoc.IH by blast
  show ?case
  proof (cases "mb = 0")
    case True
    then have "log_push overhead ?b u t = ?b" using b by (simp add: log_push_def)
    moreover have "log_lines ?b = []" using b True by (simp add: wf_log_def)
    ultimately show ?thesis
      using snoc.IH m by (auto intro!: exI [of _ "length (ms @ [m])"])
  next
    case False
    then obtain dropped where d: "log_lines ?b @ [?p (u, t)] = dropped @ log_lines (log_push overhead ?b u t)"
      using log_push_result [OF b(1), of u t] b(2) unfolding same by auto
    then have "log_lines (log_push overhead ?b u t) = drop (length dropped) (drop n (map ?p ms) @ [?p (u, t)])"
      using n by (metis append_eq_conv_conj)
    also have "\<dots> = drop (length dropped + min n (length ms)) (map ?p (ms @ [(u, t)]))"
      by (cases "n \<le> length ms") (auto simp: min_def)
    finally show ?thesis
      using log_push_result [OF b(1), of u t] b log_push_bounds m by auto
  qed
qed

text \<open>The lines held are the longest suffix of the history that fits the budget.\<close>

lemma cost_drop_pos: "0 < overhead \<Longrightarrow> k < length ls \<Longrightarrow> 0 < cost overhead (drop k ls)"
  by (simp add: Cons_nth_drop_Suc [symmetric] line_cost_def)

lemma push_all_longest:
  assumes "0 < overhead"
  shows "\<exists>n \<le> length ms. log_lines (push_all overhead (log_new mb mlb) ms) =
        drop n (map (\<lambda>(u, t). pushed_line overhead (log_new mb mlb) u t) ms)
     \<and> (\<forall>k < n. mb < cost overhead (drop k (map (\<lambda>(u, t). pushed_line overhead (log_new mb mlb) u t) ms)))"
proof (induction ms rule: rev_induct)
  case Nil
  then show ?case by (simp add: push_all_def) (simp add: log_new_def)
next
  case (snoc m ms)
  obtain u t where m: "m = (u, t)" by (cases m)
  let ?b = "push_all overhead (log_new mb mlb) ms"
  let ?p = "\<lambda>(u, t). pushed_line overhead (log_new mb mlb) u t"
  let ?h = "map ?p ms" and ?x = "?p (u, t)"
  have b: "wf_log overhead ?b" "max_bytes ?b = mb" "max_line_bytes ?b = mlb"
    using push_all_result [of overhead mb mlb ms] by auto
  have same: "pushed_line overhead ?b u t = ?x" using b by (simp add: pushed_line_def log_new_def)
  obtain n where n: "n \<le> length ms" "log_lines ?b = drop n ?h" "\<forall>k < n. mb < cost overhead (drop k ?h)"
    using snoc.IH by blast
  show ?case
  proof (cases "mb = 0")
    case True
    then have "log_lines (log_push overhead ?b u t) = []" using b by (simp add: log_push_def wf_log_def)
    moreover have "0 < cost overhead (drop k (?h @ [?x]))" if "k < Suc (length ms)" for k
      by (rule cost_drop_pos [OF assms]) (use that in simp)
    ultimately show ?thesis using True by (intro exI [of _ "Suc (length ms)"]) (auto simp: m)
  next
    case False
    then obtain dropped where d: "log_lines ?b @ [?x] = dropped @ log_lines (log_push overhead ?b u t)"
      "dropped \<noteq> [] \<longrightarrow> mb < cost overhead (last dropped # log_lines (log_push overhead ?b u t))"
      using log_push_result [OF b(1), of u t] b(2) unfolding same by auto
    let ?new = "log_lines (log_push overhead ?b u t)"
    have from_n: "drop n (?h @ [?x]) = dropped @ ?new" using n(1,2) d(1) by simp
    have "mb < cost overhead (drop k (?h @ [?x]))" if k: "k < n + length dropped" for k
    proof (cases "k < n")
      case True
      then show ?thesis using n(1,3) by (simp add: trans_less_add1)
    next
      case False
      have "drop k (?h @ [?x]) = drop (k - n) (drop n (?h @ [?x]))"
        using False by (simp only: drop_drop) simp
      then have "drop k (?h @ [?x]) = drop (k - n) (dropped @ ?new)" by (simp only: from_n)
      moreover have "drop (k - n) dropped \<noteq> []" using False k by simp
      then have "drop (k - n) dropped = butlast (drop (k - n) dropped) @ [last dropped]"
        by (metis append_butlast_last_id last_drop drop_eq_Nil not_le)
      ultimately have "cost overhead (last dropped # ?new) \<le> cost overhead (drop k (?h @ [?x]))"
        using False k by (metis append_assoc append_Cons append_Nil cost_simps(3) drop_append drop_eq_Nil
            diff_is_0_eq' le_add2 less_imp_le nat_less_le add_less_imp_less_left le_add_diff_inverse not_less drop0)
      with d(2) k False show ?thesis by (cases dropped) auto
    qed
    moreover have "?new = drop (n + length dropped) (?h @ [?x])"
      using from_n by (metis add.commute append_eq_conv_conj drop_drop)
    moreover have "n + length dropped \<le> Suc (length ms)"
      using arg_cong [OF from_n, of length] n(1) by simp
    ultimately show ?thesis by (intro exI [of _ "n + length dropped"]) (auto simp: m)
  qed
qed

lemma cost_pushed_line:
  "cost overhead [pushed_line overhead buf unit t] \<le> max_bytes buf \<longleftrightarrow>
     length (canonical unit) + overhead \<le> max_bytes buf"
  using length_truncate [of t "min (max_line_bytes buf) (max_bytes buf - (length (canonical unit) + overhead))"]
  by (auto simp: pushed_line_def line_cost_def)

lemma push_survives:
  assumes "wf_log overhead buf" "max_bytes buf \<noteq> 0"
  shows "log_lines (log_push overhead buf unit t) \<noteq> [] \<longleftrightarrow> length (canonical unit) + overhead \<le> max_bytes buf"
proof -
  let ?l = "pushed_line overhead buf unit t" and ?b = "log_push overhead buf unit t"
  obtain dropped where d: "log_lines buf @ [?l] = dropped @ log_lines ?b"
    "dropped \<noteq> [] \<longrightarrow> max_bytes buf < cost overhead (last dropped # log_lines ?b)"
    using log_push_result [OF assms(1), of unit t] assms(2) by blast
  have wf: "cost overhead (log_lines ?b) \<le> max_bytes buf"
    using log_push_result [OF assms(1), of unit t] log_push_bounds [of overhead buf unit t]
    by (simp add: wf_log_def)
  show ?thesis
  proof (cases "log_lines ?b = []")
    case True
    then have "dropped = log_lines buf @ [?l]" using d(1) by simp
    then have "max_bytes buf < cost overhead [?l]" using d(2) True by simp
    then show ?thesis using True cost_pushed_line [of overhead buf unit t] by simp
  next
    case False
    then have "last (log_lines ?b) = ?l" using d(1) by (metis last_append last_snoc)
    then have "log_lines ?b = butlast (log_lines ?b) @ [?l]" using False by (metis append_butlast_last_id)
    then have "cost overhead [?l] \<le> cost overhead (log_lines ?b)"
      by (metis cost_simps(3) le_add2)
    then show ?thesis using False wf cost_pushed_line [of overhead buf unit t] by simp
  qed
qed

section \<open>Properties\<close>

text \<open>
  Property C33. After any sequence of pushed lines, each cut at a character boundary to what the line
  bound and the budget leave, the ring holds the longest suffix of the history that fits the budget,
  where every line is charged its text, the name of its unit and the fixed overhead; the byte count is
  exactly that charge, and no stored line is longer than the line bound.
\<close>

theorem log_holds_newest:
  assumes "0 < overhead"
    and "history = map (\<lambda>(u, t). \<lparr>line_unit = u, line_text = truncate t (min mlb (mb - (length (canonical u) + overhead)))\<rparr>) ms"
    and "\<And>ls. charge ls = sum_list (map (\<lambda>l. length (line_text l) + length (canonical (line_unit l)) + overhead) ls)"
  shows "\<exists>n \<le> length history. log_lines (push_all overhead (log_new mb mlb) ms) = drop n history
    \<and> charge (drop n history) \<le> mb
    \<and> (\<forall>k < n. mb < charge (drop k history))
    \<and> accounted_bytes (push_all overhead (log_new mb mlb) ms) = charge (drop n history)
    \<and> list_all (\<lambda>l. length (line_text l) \<le> mlb) (drop n history)"
proof -
  have h: "history = map (\<lambda>(u, t). pushed_line overhead (log_new mb mlb) u t) ms"
    unfolding assms(2) by (simp add: pushed_line_def log_new_def)
  have c: "charge = cost overhead" by (simp add: assms(3) cost_def line_cost_def fun_eq_iff)
  obtain n where "n \<le> length history" "log_lines (push_all overhead (log_new mb mlb) ms) = drop n history"
    "\<forall>k < n. mb < cost overhead (drop k history)"
    using push_all_longest [OF assms(1), of ms mb mlb] unfolding h by auto
  then show ?thesis
    using push_all_result [of overhead mb mlb ms] unfolding c
    by (intro exI [of _ n]) (auto simp: wf_log_def accounted_bytes_def)
qed

theorem log_holds_newest_witness:
  "map line_text (log_lines (push_all 112 (log_new 200 16)
      [(UnitName ''a.service'' Service, ''old''), (UnitName ''a.service'' Service, ''new'')])) = [''new'']"
proof -
  let ?u = "UnitName ''a.service'' Service"
  let ?h = "[\<lparr>line_unit = ?u, line_text = ''old''\<rparr>, \<lparr>line_unit = ?u, line_text = ''new''\<rparr>]"
  define charge :: "LogLine list \<Rightarrow> nat" where
    "charge = (\<lambda>ls. sum_list (map (\<lambda>l. length (line_text l) + length (canonical (line_unit l)) + 112) ls))"
  have h: "?h = map (\<lambda>(u, t). \<lparr>line_unit = u, line_text = truncate t (min 16 (200 - (length (canonical u) + 112)))\<rparr>)
      [(?u, ''old''), (?u, ''new'')]" by (simp add: truncate_def)
  have c: "charge ls = sum_list (map (\<lambda>l. length (line_text l) + length (canonical (line_unit l)) + 112) ls)" for ls
    by (simp add: charge_def)
  obtain n where n: "n \<le> length ?h" "log_lines (push_all 112 (log_new 200 16) [(?u, ''old''), (?u, ''new'')]) = drop n ?h"
    "charge (drop n ?h) \<le> 200" "\<forall>k < n. 200 < charge (drop k ?h)"
    using log_holds_newest [OF _ h c] by auto
  have "n \<noteq> 0" using n(3) by (intro notI) (simp add: charge_def)
  moreover have "n \<noteq> 2" using n(4) [rule_format, of 1] by (intro notI) (simp add: charge_def)
  ultimately have "n = 1" using n(1) by simp
  then show ?thesis using n(2) by simp
qed

text \<open>
  A pushed line is kept exactly when its unit name and the fixed overhead fit the
  budget; when they do not, the push empties the whole ring, the new line included.
\<close>

theorem pushed_line_survives_iff:
  assumes "mb \<noteq> 0"
  shows "log_lines (push_all overhead (log_new mb mlb) (ms @ [(u, t)])) \<noteq> [] \<longleftrightarrow>
    length (canonical u) + overhead \<le> mb"
  using push_survives [of overhead "push_all overhead (log_new mb mlb) ms" u t]
    push_all_result [of overhead mb mlb ms] assms
  by simp

theorem pushed_line_survives_iff_witness:
  "log_lines (push_all 112 (log_new 64 16) ([] @ [(UnitName ''a.service'' Service, ''hello'')])) = []"
  using pushed_line_survives_iff [of 64 112 16 "[]" "UnitName ''a.service'' Service" "''hello''"] by simp

end
