(* ===== verification/Status_Render.thy ===== *)
theory Status_Render
  imports Reload_Props Log_Buffer
begin

text \<open>
  What \<open>rctl list\<close>, \<open>rctl status\<close> and \<open>rctl log\<close> print (the rendering functions of
  \<open>rinit/src/boot.rs\<close>). Texts are their UTF-8 bytes. The resource counters come from \<open>/proc\<close> and the
  control groups: they are an argument, and so is the decimal rendering of a byte or time count, a
  floating-point format of the standard library.
\<close>

section \<open>Pieces\<close>

record ResourceUsage =
  memory_bytes :: "nat option"
  cpu_usec :: "nat option"
  tasks :: "nat option"

definition no_usage :: ResourceUsage where
  "no_usage = \<lparr>memory_bytes = None, cpu_usec = None, tasks = None\<rparr>"

text \<open>\<open>memory_text\<close> and \<open>cpu_text\<close> of a known count.\<close>

record UsageFormat =
  memory_format :: "nat \<Rightarrow> string"
  cpu_format :: "nat \<Rightarrow> string"

definition memory_text :: "UsageFormat \<Rightarrow> nat option \<Rightarrow> string" where
  "memory_text F bytes = (case bytes of None \<Rightarrow> ''-''
     | Some n \<Rightarrow> if n < 1024 then show_nat n @ '' B'' else memory_format F n)"

definition cpu_text :: "UsageFormat \<Rightarrow> nat option \<Rightarrow> string" where
  "cpu_text F usec = (case usec of None \<Rightarrow> ''-'' | Some n \<Rightarrow> cpu_format F n)"

definition show_int :: "int \<Rightarrow> string" where
  "show_int i = (if i < 0 then ''-'' else []) @ show_nat (nat \<bar>i\<bar>)"

definition or_dash :: "('a \<Rightarrow> string) \<Rightarrow> 'a option \<Rightarrow> string" where
  "or_dash f x = (case x of None \<Rightarrow> ''-'' | Some a \<Rightarrow> f a)"

fun join :: "string \<Rightarrow> string list \<Rightarrow> string" where
  "join sep [] = []"
| "join sep [x] = x"
| "join sep (x # y # xs) = x @ sep @ join sep (y # xs)"

fun service_kind_text :: "ServiceKind \<Rightarrow> string" where
  "service_kind_text Simple = ''simple''"
| "service_kind_text Oneshot = ''oneshot''"
| "service_kind_text Notify = ''notify''"
| "service_kind_text Forking = ''forking''"

definition unit_type_text :: "UnitRuntime \<Rightarrow> string" where
  "unit_type_text rt = (if is_target (rt_config rt) then ''target''
     else ''service ('' @ service_kind_text (service_kind (rt_config rt)) @ '')'')"

definition state_text :: "UnitRuntime \<Rightarrow> string" where
  "state_text rt = state_as_str (rt_state rt)
     @ (case rt_pid rt of None \<Rightarrow> [] | Some p \<Rightarrow> '' (pid '' @ show_int p @ '')'')"

fun policy_text :: "RestartPolicy \<Rightarrow> string" where
  "policy_text No = ''no''"
| "policy_text Always = ''always''"
| "policy_text OnSuccess = ''on-success''"
| "policy_text OnFailure = ''on-failure''"
| "policy_text OnAbnormal = ''on-abnormal''"

definition restart_text :: "UnitRuntime \<Rightarrow> string" where
  "restart_text rt = policy_text (restart (rt_config rt)) @ '' ('' @ show_nat (restart_sec (rt_config rt)) @ ''s)''"

definition user_text :: "UnitRuntime \<Rightarrow> string" where
  "user_text rt = (if cfg_user (rt_config rt) = [] then ''root'' else cfg_user (rt_config rt))"

definition exec_text :: "UnitRuntime \<Rightarrow> string" where
  "exec_text rt = (if argv (exec_start (rt_config rt)) = [] then ''-''
     else join '' '' (argv (exec_start (rt_config rt))))"

definition outcome_text :: "ExitOutcome option \<Rightarrow> string option" where
  "outcome_text o' = map_option (\<lambda>x. case x of
      Success \<Rightarrow> ''success'' | Failure c \<Rightarrow> ''exit '' @ show_int c | Signalled s \<Rightarrow> ''signal '' @ show_int s
    | TimedOut \<Rightarrow> ''timeout'') o'"

definition target_text :: "string \<Rightarrow> UnitManager \<Rightarrow> UnitName \<Rightarrow> string" where
  "target_text none m u = (case manager_target_of m u of
      Some Started \<Rightarrow> ''started'' | Some Stopped \<Rightarrow> ''stopped'' | None \<Rightarrow> none)"

section \<open>JSON\<close>

definition hex_digit :: "nat \<Rightarrow> char" where
  "hex_digit n = ''0123456789abcdef'' ! n"

definition json_char :: "char \<Rightarrow> string" where
  "json_char c =
     (if c = CHR 0x22 then [CHR 0x5C, CHR 0x22]
      else if c = CHR 0x5C then [CHR 0x5C, CHR 0x5C]
      else if c = CHR 0x0A then [CHR 0x5C, CHR ''n'']
      else if c = CHR 0x0D then [CHR 0x5C, CHR ''r'']
      else if c = CHR 0x09 then [CHR 0x5C, CHR ''t'']
      else if byte c < 32 then [CHR 0x5C, CHR ''u'', CHR ''0'', CHR ''0'', hex_digit (byte c div 16), hex_digit (byte c mod 16)]
      else [c])"

definition json_string :: "string \<Rightarrow> string" where
  "json_string s = [CHR 0x22] @ concat (map json_char s) @ [CHR 0x22]"

definition json_opt :: "string option \<Rightarrow> string" where
  "json_opt x = (case x of None \<Rightarrow> ''null'' | Some s \<Rightarrow> json_string s)"

definition json_bool :: "bool option \<Rightarrow> string" where
  "json_bool x = (case x of None \<Rightarrow> ''null'' | Some b \<Rightarrow> if b then ''true'' else ''false'')"

definition json_num :: "nat option \<Rightarrow> string" where
  "json_num x = (case x of None \<Rightarrow> ''null'' | Some n \<Rightarrow> show_nat n)"

definition json_pid :: "pid option \<Rightarrow> string" where
  "json_pid x = (case x of None \<Rightarrow> ''null'' | Some p \<Rightarrow> show_int p)"

text \<open>An object from its fields; the values are rendered already.\<close>

definition json_object :: "(string \<times> string) list \<Rightarrow> string" where
  "json_object fs = ''{'' @ join '','' (map (\<lambda>(k, v). [CHR 0x22] @ k @ [CHR 0x22, CHR 0x3A] @ v) fs) @ ''}''"

section \<open>One unit\<close>

definition line :: "string \<Rightarrow> string \<Rightarrow> string" where
  "line label v = label @ v @ [newline]"

definition opt_line :: "string \<Rightarrow> string option \<Rightarrow> string" where
  "opt_line label v = (case v of None \<Rightarrow> [] | Some s \<Rightarrow> line label s)"

definition bool_text :: "bool option \<Rightarrow> string option" where
  "bool_text b = map_option (\<lambda>x. if x then ''true'' else ''false'') b"

definition describe_unit :: "UnitManager \<Rightarrow> UnitName \<Rightarrow> string option" where
  "describe_unit m u = (if \<not> exists_unit m u then None else map_option (\<lambda>rt.
     line ''unit: '' (canonical u)
   @ (if description (rt_config rt) = [] then [] else line ''description: '' (description (rt_config rt)))
   @ line ''state: '' (state_text rt)
   @ line ''target: '' (target_text ''none'' m u)
   @ line ''restarts: '' (show_nat (consecutive_restarts (rt_backoff rt)))
   @ opt_line ''status: '' (rt_status rt)
   @ opt_line ''healthy: '' (bool_text (healthy rt))) (unit_at m u))"

definition render_plain :: "UsageFormat \<Rightarrow> UnitRuntime \<Rightarrow> string \<Rightarrow> ResourceUsage \<Rightarrow> string" where
  "render_plain F rt target us =
     line ''unit: '' (canonical (cfg_name (rt_config rt)))
   @ (if description (rt_config rt) = [] then [] else line ''description: '' (description (rt_config rt)))
   @ line ''type: '' (unit_type_text rt) @ line ''state: '' (state_text rt) @ line ''target: '' target
   @ line ''restarts: '' (show_nat (consecutive_restarts (rt_backoff rt)))
   @ line ''memory: '' (memory_text F (memory_bytes us)) @ line ''cpu: '' (cpu_text F (cpu_usec us))
   @ opt_line ''tasks: '' (map_option show_nat (tasks us))
   @ line ''restart-policy: '' (restart_text rt) @ line ''user: '' (user_text rt)
   @ line ''exec-start: '' (exec_text rt)
   @ opt_line ''status: '' (rt_status rt) @ opt_line ''healthy: '' (bool_text (healthy rt))
   @ opt_line ''last-exit: '' (outcome_text (last_outcome rt))"

text \<open>The bullet and the frame of the card, in UTF-8.\<close>

definition bullet :: string where "bullet = [CHR 0xE2, CHR 0x97, CHR 0x8F]"
definition box :: "char \<Rightarrow> char \<Rightarrow> string" where "box a b = [CHR 0xE2, a, b]"

definition render_systemd :: "UsageFormat \<Rightarrow> UnitRuntime \<Rightarrow> string \<Rightarrow> ResourceUsage \<Rightarrow> string" where
  "render_systemd F rt target us =
     bullet @ '' '' @ canonical (cfg_name (rt_config rt)) @ '' - ''
   @ (if description (rt_config rt) = [] then canonical (cfg_name (rt_config rt)) else description (rt_config rt)) @ [newline]
   @ line ''     Type: '' (unit_type_text rt) @ line ''   Active: '' (state_text rt) @ line ''   Target: '' target
   @ line '' Main PID: '' (or_dash show_int (rt_pid rt))
   @ line ''   Memory: '' (memory_text F (memory_bytes us)) @ line ''      CPU: '' (cpu_text F (cpu_usec us))
   @ opt_line ''    Tasks: '' (map_option show_nat (tasks us))
   @ line '' Restarts: '' (show_nat (consecutive_restarts (rt_backoff rt)))
   @ line ''  Restart: '' (restart_text rt) @ line ''     User: '' (user_text rt) @ line ''  Command: '' (exec_text rt)
   @ opt_line ''   Status: '' (rt_status rt) @ opt_line ''   Health: '' (bool_text (healthy rt))
   @ opt_line '' Last exit: '' (outcome_text (last_outcome rt))"

definition short_row :: "UsageFormat \<Rightarrow> string \<Rightarrow> string \<Rightarrow> pid option \<Rightarrow> string \<Rightarrow> nat option \<Rightarrow> nat option \<Rightarrow> string" where
  "short_row F name st p target memory cpu =
     name @ ''  '' @ st @ ''  pid='' @ or_dash show_int p @ ''  target='' @ target
     @ ''  mem='' @ memory_text F memory @ ''  cpu='' @ cpu_text F cpu"

definition render_short :: "UsageFormat \<Rightarrow> UnitRuntime \<Rightarrow> string \<Rightarrow> ResourceUsage \<Rightarrow> string" where
  "render_short F rt target us = short_row F (canonical (cfg_name (rt_config rt))) (state_as_str (rt_state rt))
     (rt_pid rt) target (memory_bytes us) (cpu_usec us)"

definition render_json :: "UnitRuntime \<Rightarrow> string \<Rightarrow> ResourceUsage \<Rightarrow> string" where
  "render_json rt target us = json_object
     [(''unit'', json_string (canonical (cfg_name (rt_config rt)))),
      (''description'', json_string (description (rt_config rt))),
      (''type'', json_string (unit_type_text rt)), (''state'', json_string (state_text rt)),
      (''pid'', json_pid (rt_pid rt)), (''target'', json_string target),
      (''restarts'', show_nat (consecutive_restarts (rt_backoff rt))),
      (''memory_bytes'', json_num (memory_bytes us)), (''cpu_usec'', json_num (cpu_usec us)),
      (''tasks'', json_num (tasks us)), (''restart_policy'', json_string (restart_text rt)),
      (''user'', json_string (user_text rt)), (''exec_start'', json_string (exec_text rt)),
      (''status'', json_opt (rt_status rt)), (''healthy'', json_bool (healthy rt)),
      (''last_exit'', json_opt (outcome_text (last_outcome rt)))]"

text \<open>The characters of a text: a byte that starts one, with the continuation bytes behind it.\<close>

definition continuation :: "char \<Rightarrow> bool" where
  "continuation c \<longleftrightarrow> byte c div 64 = 2"

definition char_count :: "string \<Rightarrow> nat" where
  "char_count s = length (filter (\<lambda>c. \<not> continuation c) s)"

fun take_chars :: "nat \<Rightarrow> string \<Rightarrow> string" where
  "take_chars n [] = []"
| "take_chars n (c # s) = (if continuation c then c # take_chars n s
     else case n of 0 \<Rightarrow> [] | Suc k \<Rightarrow> c # take_chars k s)"

definition pad :: "nat \<Rightarrow> string \<Rightarrow> string" where
  "pad width s = s @ replicate (width - char_count s) (CHR '' '')"

definition fit :: "string \<Rightarrow> nat \<Rightarrow> string" where
  "fit v width = pad width (take_chars width v)"

definition card_row :: "string \<Rightarrow> string" where
  "card_row v = box (CHR 0x94) (CHR 0x82) @ '' '' @ fit v 62 @ '' '' @ box (CHR 0x94) (CHR 0x82) @ [newline]"

definition render_card :: "UsageFormat \<Rightarrow> UnitRuntime \<Rightarrow> string \<Rightarrow> ResourceUsage \<Rightarrow> string" where
  "render_card F rt target us =
     (let name = canonical (cfg_name (rt_config rt)); bar = box (CHR 0x94) (CHR 0x80) in
      box (CHR 0x95) (CHR 0xAD) @ bar @ '' '' @ name @ '' '' @ concat (replicate (62 - length name) bar)
        @ box (CHR 0x95) (CHR 0xAE) @ [newline]
    @ card_row (if description (rt_config rt) = [] then ''-'' else description (rt_config rt))
    @ card_row (bullet @ '' '' @ state_text rt)
    @ card_row (''target: '' @ target @ ''   restarts: '' @ show_nat (consecutive_restarts (rt_backoff rt))
        @ ''   tasks: '' @ or_dash show_nat (tasks us))
    @ card_row (''memory: '' @ memory_text F (memory_bytes us) @ ''   cpu: '' @ cpu_text F (cpu_usec us))
    @ card_row (''restart: '' @ restart_text rt @ ''   user: '' @ user_text rt)
    @ box (CHR 0x95) (CHR 0xB0) @ concat (replicate 64 bar) @ box (CHR 0x95) (CHR 0xAF) @ [newline])"

definition describe_unit_formatted :: "UsageFormat \<Rightarrow> ResourceUsage \<Rightarrow> UnitManager \<Rightarrow> UnitName \<Rightarrow> StatusFormat
    \<Rightarrow> string option" where
  "describe_unit_formatted F us m u fmt = (if \<not> exists_unit m u then None else map_option (\<lambda>rt.
     let target = target_text ''none'' m u in
     case fmt of
       SfPlain \<Rightarrow> render_plain F rt target us | SfSystemd \<Rightarrow> render_systemd F rt target us
     | SfShort \<Rightarrow> render_short F rt target us | SfJson \<Rightarrow> render_json rt target us
     | SfCard \<Rightarrow> render_card F rt target us) (unit_at m u))"

section \<open>All units\<close>

record UnitListEntry =
  le_name :: string
  le_kind :: string
  le_state :: string
  le_pid :: "pid option"
  le_target :: string
  le_memory :: "nat option"
  le_cpu :: "nat option"
  le_tasks :: "nat option"

definition unit_entry :: "UnitManager \<Rightarrow> (UnitName \<Rightarrow> ResourceUsage) \<Rightarrow> UnitRuntime \<Rightarrow> UnitListEntry" where
  "unit_entry m usage rt = (let u = cfg_name (rt_config rt) in
     \<lparr>le_name = canonical u, le_kind = (if is_target (rt_config rt) then ''target'' else ''service''),
      le_state = state_as_str (rt_state rt), le_pid = rt_pid rt, le_target = target_text ''-'' m u,
      le_memory = memory_bytes (usage u), le_cpu = cpu_usec (usage u), le_tasks = tasks (usage u)\<rparr>)"

definition template_entry :: "string \<Rightarrow> UnitListEntry" where
  "template_entry n = \<lparr>le_name = n, le_kind = ''template'', le_state = ''template'', le_pid = None,
     le_target = ''-'', le_memory = None, le_cpu = None, le_tasks = None\<rparr>"

definition list_entries_with_usage :: "UnitManager \<Rightarrow> (UnitName \<Rightarrow> ResourceUsage) \<Rightarrow> UnitListEntry list" where
  "list_entries_with_usage m usage = sort_key le_name
     (map (unit_entry m usage \<circ> snd) (filter (\<lambda>(_, rt). \<not> retired rt) (m_units m))
      @ map (template_entry \<circ> fst) (templates m))"

definition list_entry_json :: "UnitListEntry \<Rightarrow> string" where
  "list_entry_json e = json_object
     [(''unit'', json_string (le_name e)), (''type'', json_string (le_kind e)), (''state'', json_string (le_state e)),
      (''pid'', json_pid (le_pid e)), (''target'', json_string (le_target e)),
      (''memory_bytes'', json_num (le_memory e)), (''cpu_usec'', json_num (le_cpu e)), (''tasks'', json_num (le_tasks e))]"

definition list_headers :: "string list" where
  "list_headers = [''UNIT'', ''TYPE'', ''STATE'', ''PID'', ''TARGET'', ''MEM'', ''CPU'']"

definition list_row :: "UsageFormat \<Rightarrow> UnitListEntry \<Rightarrow> string list" where
  "list_row F e = [le_name e, le_kind e, le_state e, or_dash show_int (le_pid e), le_target e,
     memory_text F (le_memory e), cpu_text F (le_cpu e)]"

definition widen :: "nat list \<Rightarrow> string list \<Rightarrow> nat list" where
  "widen ws row = map (\<lambda>(w, v). max w (char_count v)) (zip ws row)"

definition table_line :: "nat list \<Rightarrow> string list \<Rightarrow> string" where
  "table_line ws row = join ''  '' (map (\<lambda>(v, w). pad w v) (zip row ws))"

definition render_list_table :: "UsageFormat \<Rightarrow> UnitListEntry list \<Rightarrow> string" where
  "render_list_table F es =
     (let rows = map (list_row F) es; ws = foldl widen (map length list_headers) rows;
          body = join [newline] (map (table_line ws) rows)
      in if body = [] then table_line ws list_headers else table_line ws list_headers @ [newline] @ body)"

definition render_list_entries :: "UsageFormat \<Rightarrow> ListFormat \<Rightarrow> UnitListEntry list \<Rightarrow> string" where
  "render_list_entries F fmt es = (case fmt of
      LfPlain \<Rightarrow> []
    | LfShort \<Rightarrow> join [newline] (map (\<lambda>e. short_row F (le_name e) (le_state e) (le_pid e) (le_target e)
                                              (le_memory e) (le_cpu e)) es)
    | LfJson \<Rightarrow> ''['' @ join '','' (map list_entry_json es) @ '']''
    | LfTable \<Rightarrow> render_list_table F es)"

definition render_list :: "UsageFormat \<Rightarrow> (UnitName \<Rightarrow> ResourceUsage) \<Rightarrow> UnitManager \<Rightarrow> ListFormat \<Rightarrow> string" where
  "render_list F usage m fmt = (if fmt = LfPlain then join [newline] (summary m)
     else render_list_entries F fmt (list_entries_with_usage m usage))"

section \<open>Logs\<close>

text \<open>From the newest line back, as long as the budget holds; the flag says whether a line was left out.\<close>

fun select_logs :: "nat \<Rightarrow> nat \<Rightarrow> string list \<Rightarrow> string list \<times> bool" where
  "select_logs budget used [] = ([], False)"
| "select_logs budget used (t # ts) =
     (if budget < sat_add u64_max used (sat_add u64_max (length t) 1) then ([], True)
      else let (sel, omitted) = select_logs budget (sat_add u64_max used (sat_add u64_max (length t) 1)) ts
           in (t # sel, omitted))"

definition OMITTED :: string where
  "OMITTED = ''[older log lines omitted: response size limit]'' @ [newline]"

definition logs_tail :: "LogBuffer \<Rightarrow> UnitName option \<Rightarrow> nat \<Rightarrow> LogLine list" where
  "logs_tail b u n = (case u of None \<Rightarrow> log_tail b n | Some v \<Rightarrow> tail_for b v n)"

definition log_text :: "LogLine \<Rightarrow> string" where
  "log_text l = canonical (line_unit l) @ '': '' @ line_text l"

definition render_logs_with_budget :: "LogBuffer \<Rightarrow> UnitName option \<Rightarrow> nat \<Rightarrow> nat \<Rightarrow> string" where
  "render_logs_with_budget b u n budget =
     (let (sel, omitted) = select_logs budget 0 (rev (map log_text (logs_tail b u n)))
      in (if omitted then OMITTED else []) @ join [newline] (rev sel))"

definition render_logs :: "LogBuffer \<Rightarrow> UnitName option \<Rightarrow> nat \<Rightarrow> string" where
  "render_logs b u n = render_logs_with_budget b u n (MAX_FRAME_BYTES - 4096 - 1)"

section \<open>A JSON string reads back\<close>

text \<open>The reader of a JSON string: the text behind the opening quote up to the closing one.\<close>

definition unhex :: "char \<Rightarrow> nat option" where
  "unhex c = (if is_ascii_digit c then Some (byte c - 48)
     else if 97 \<le> byte c \<and> byte c \<le> 102 then Some (byte c - 87) else None)"

fun read_chars :: "string \<Rightarrow> (string \<times> string) option" where
  "read_chars [] = None"
| "read_chars (c # s) =
     (if c = CHR 0x22 then Some ([], s)
      else if c = CHR 0x5C then
        (case s of
           CHR ''u'' # a # b # x # y # t \<Rightarrow>
             (case (unhex a, unhex b, unhex x, unhex y) of
                (Some 0, Some 0, Some i, Some j) \<Rightarrow>
                  (if 16 * i + j < 128 then map_option (apfst (Cons (char_of (16 * i + j)))) (read_chars t) else None)
              | _ \<Rightarrow> None)
         | CHR ''n'' # t \<Rightarrow> map_option (apfst (Cons (CHR 0x0A))) (read_chars t)
         | CHR ''r'' # t \<Rightarrow> map_option (apfst (Cons (CHR 0x0D))) (read_chars t)
         | CHR ''t'' # t \<Rightarrow> map_option (apfst (Cons (CHR 0x09))) (read_chars t)
         | CHR 0x22 # t \<Rightarrow> map_option (apfst (Cons (CHR 0x22))) (read_chars t)
         | CHR 0x5C # t \<Rightarrow> map_option (apfst (Cons (CHR 0x5C))) (read_chars t)
         | _ \<Rightarrow> None)
      else if byte c < 32 then None
      else map_option (apfst (Cons c)) (read_chars s))"

definition read_json_string :: "string \<Rightarrow> (string \<times> string) option" where
  "read_json_string s = (case s of CHR 0x22 # t \<Rightarrow> read_chars t | _ \<Rightarrow> None)"

lemma unhex_digit: "n < 16 \<Longrightarrow> unhex (hex_digit n) = Some n"
proof -
  have "\<forall>k \<in> set [0..<16]. unhex (hex_digit k) = Some k" by code_simp
  moreover assume "n < 16"
  ultimately show ?thesis by auto
qed

lemma read_control:
  assumes "byte c < 32"
  shows "read_chars ([CHR 0x5C, CHR ''u'', CHR ''0'', CHR ''0'', hex_digit (byte c div 16), hex_digit (byte c mod 16)] @ t)
    = map_option (apfst (Cons c)) (read_chars t)"
proof -
  have "unhex (hex_digit (byte c div 16)) = Some (byte c div 16)" "unhex (hex_digit (byte c mod 16)) = Some (byte c mod 16)"
    using assms by (auto intro!: unhex_digit)
  moreover have "unhex (CHR ''0'') = Some 0" by code_simp
  moreover have "16 * (byte c div 16) + byte c mod 16 = byte c" by simp
  ultimately show ?thesis using assms by (simp add: byte_def)
qed

lemma read_json_char: "read_chars (json_char c @ t) = map_option (apfst (Cons c)) (read_chars t)"
proof (cases "byte c < 32 \<and> c \<notin> {CHR 0x22, CHR 0x5C, CHR 0x0A, CHR 0x0D, CHR 0x09}")
  case True
  then show ?thesis using read_control by (simp add: json_char_def)
next
  case False
  then show ?thesis by (auto simp: json_char_def)
qed

text \<open>
  No value can break out of its JSON field: reading a rendered string gives back exactly
  the value and leaves exactly the text behind it, whatever bytes the value holds, control characters,
  quotes and backslashes included.
\<close>
theorem json_string_reads_back: "read_json_string (json_string s @ rest) = Some (s, rest)"
proof -
  have "read_chars (concat (map json_char s) @ [CHR 0x22] @ rest) = Some (s, rest)"
    by (induction s) (simp_all add: read_json_char del: append.simps(2), simp_all)
  then show ?thesis by (simp add: read_json_string_def json_string_def)
qed

section \<open>Logs keep the newest lines\<close>

definition log_cost :: "string list \<Rightarrow> nat" where
  "log_cost ts = sum_list (map (\<lambda>t. Suc (length t)) ts)"

lemma log_cost_simps [simp]: "log_cost [] = 0" "log_cost (t # ts) = Suc (length t) + log_cost ts" "log_cost (as @ bs) = log_cost as + log_cost bs"
  "log_cost (rev ts) = log_cost ts"
  by (simp_all add: log_cost_def sum_list_rev rev_map flip: rev_map)

lemma over_budget:
  "budget < u64_max \<Longrightarrow> budget < sat_add u64_max used (sat_add u64_max n 1) \<longleftrightarrow> budget < used + Suc n"
  by (auto simp: sat_add_def min_def)

lemma select_logs_spec:
  assumes "budget < u64_max" "used \<le> budget" "select_logs budget used ts = (sel, omitted)"
  shows "\<exists>older. ts = sel @ older \<and> used + log_cost sel \<le> budget
    \<and> (if omitted then older \<noteq> [] \<and> budget < used + log_cost (sel @ [hd older]) else older = [])"
  using assms(2,3)
proof (induction ts arbitrary: used sel omitted)
  case (Cons t ts)
  show ?case
  proof (cases "budget < used + Suc (length t)")
    case True
    with Cons.prems(2) have "sel = []" "omitted"
      by (simp_all only: select_logs.simps over_budget [OF assms(1)] if_True prod.inject simp_thms)
    with True Cons.prems(1) show ?thesis by simp
  next
    case False
    have exact: "sat_add u64_max used (sat_add u64_max (length t) 1) = used + Suc (length t)"
      using False assms(1) by (auto simp: sat_add_def min_def)
    with False Cons.prems obtain sel' where sel: "select_logs budget (used + Suc (length t)) ts = (sel', omitted)"
      "sel = t # sel'" by (auto split: prod.splits)
    from Cons.IH [OF _ sel(1)] False show ?thesis by (auto simp: sel(2) add.assoc)
  qed
qed simp

text \<open>
  A log reply fits the frame and keeps the newest lines: what is rendered is an unbroken
  run of lines up to the newest, within the budget; when something was left out, the reply says so, and
  one line more would not have fitted.
\<close>
theorem render_logs_newest:
  "\<exists>older sel. map log_text (logs_tail b u n) = older @ sel
     \<and> render_logs b u n = (if older = [] then [] else OMITTED) @ join [newline] sel
     \<and> log_cost sel \<le> MAX_FRAME_BYTES - 4097
     \<and> (older = [] \<or> MAX_FRAME_BYTES - 4097 < log_cost (last older # sel))"
proof -
  let ?ts = "map log_text (logs_tail b u n)" and ?budget = "MAX_FRAME_BYTES - 4096 - 1"
  obtain sel omitted where s: "select_logs ?budget 0 (rev ?ts) = (sel, omitted)" by fastforce
  have "?budget < u64_max" by (simp add: MAX_FRAME_BYTES_def u64_max_value)
  from select_logs_spec [OF this _ s, unfolded add_0] obtain older where o: "rev ?ts = sel @ older" "log_cost sel \<le> ?budget"
    "if omitted then older \<noteq> [] \<and> ?budget < log_cost (sel @ [hd older]) else older = []" by blast
  have b: "MAX_FRAME_BYTES - 4097 = ?budget" by linarith
  show ?thesis
    unfolding b
  proof (intro exI conjI)
    show "?ts = rev older @ rev sel" using arg_cong [OF o(1), of rev] by simp
    show "render_logs b u n = (if rev older = [] then [] else OMITTED) @ join [newline] (rev sel)"
      using s o(3) by (auto simp: render_logs_def render_logs_with_budget_def split: if_splits)
    show "log_cost (rev sel) \<le> ?budget" using o(2) by simp
    show "rev older = [] \<or> ?budget < log_cost (last (rev older) # rev sel)"
      using o(3) by (cases omitted) (simp_all add: last_rev)
  qed
qed

end
