(* ===== verification/Control_Handlers.thy ===== *)
theory Control_Handlers
  imports Status_Render
begin

text \<open>
  Control requests as the supervisor carries them out (\<open>handle_control\<close> and the \<open>control_\<close> functions
  of \<open>rinit/src/boot.rs\<close>). What a request may read of the machine, the unit directory, the log ring
  and the resource counters, is the record \<open>Env\<close>.
\<close>

record Env =
  env_dir :: UnitDir
  env_logs :: LogBuffer
  env_usage :: "UnitName \<Rightarrow> ResourceUsage"
  env_format :: UsageFormat

text \<open>Messages that carry an error of another component keep the error itself.\<close>

datatype ControlText =
  Say string | NotInstantiated UnitName InstantiateError | CannotStop UnitName RuntimeError
| ReloadRejected ReloadError

datatype ControlAction = Reply ReplyStatus ControlText | StartJob ControlStart

definition request_mutates_boot :: "Request \<Rightarrow> bool" where
  "request_mutates_boot r = (case r of
      Start _ \<Rightarrow> True | Stop _ \<Rightarrow> True | Restart _ \<Rightarrow> True | ResetFailed _ \<Rightarrow> True | Reload \<Rightarrow> True | _ \<Rightarrow> False)"

definition no_such_unit :: "UnitName \<Rightarrow> ControlAction" where
  "no_such_unit u = Reply RNoSuchUnit (Say (''no such unit: '' @ canonical u))"

section \<open>Requests that change something\<close>

text \<open>An instance of a template is made by the first request that names it.\<close>

definition ensure_startable :: "UnitName \<Rightarrow> UnitManager \<Rightarrow> ControlAction + UnitManager" where
  "ensure_startable u m =
     (if exists_unit m u then Inr m
      else if manager_is_template m u
      then Inl (Reply RError (Say (canonical u @ '' is a template; start an instance, e.g. '' @ name_prefix u
             @ ''@<name>.service'')))
      else case instantiate u m of Inl why \<Rightarrow> Inl (Reply RNoSuchUnit (NotInstantiated u why)) | Inr m1 \<Rightarrow> Inr m1)"

definition control_start :: "Kernel \<Rightarrow> UnitName \<Rightarrow> UnitManager \<Rightarrow> trace \<Rightarrow> ControlAction \<times> UnitManager \<times> trace" where
  "control_start K u m tr = (case ensure_startable u m of
      Inl reply \<Rightarrow> (reply, m, tr)
    | Inr m1 \<Rightarrow>
        (case control_new K u m1 tr of
           (Inr job, m2, tr1) \<Rightarrow> (StartJob job, m2, tr1)
         | (Inl e, m2, tr1) \<Rightarrow>
             (Reply RError (Say (''cannot resolve dependencies for '' @ canonical u @ '': '' @ e)), m2, tr1)))"

definition was_up :: "UnitState \<Rightarrow> bool" where
  "was_up s \<longleftrightarrow> s \<noteq> Inactive \<and> \<not> failed_state s"

definition control_stop :: "Kernel \<Rightarrow> UnitName \<Rightarrow> UnitManager \<Rightarrow> trace \<Rightarrow> ControlAction \<times> UnitManager \<times> trace" where
  "control_stop K u m tr =
     (if \<not> exists_unit m u then (no_such_unit u, m, tr)
      else case unit_at m u of
        None \<Rightarrow> (no_such_unit u, m, tr)
      | Some rt \<Rightarrow>
          (case request_stop K u UserStop m tr of
             (None, m1, tr1) \<Rightarrow> (Reply ROk (Say (canonical u @ '' is already stopping'')), m1, tr1)
           | (Some NoEffect, m1, tr1) \<Rightarrow>
               (Reply ROk (Say (if was_up (rt_state rt) then ''stopped '' @ canonical u
                                else canonical u @ '' is already stopped'')), m1, tr1)
           | (Some effect, m1, tr1) \<Rightarrow>
               (case apply_effect K u (Some effect) m1 tr1 of
                  (None, m2, tr2) \<Rightarrow> (Reply ROk (Say (''stopped '' @ canonical u)), m2, tr2)
                | (Some e, m2, tr2) \<Rightarrow> (Reply RError (CannotStop u e), m2, tr2))))"

definition control_restart :: "Kernel \<Rightarrow> UnitName \<Rightarrow> UnitManager \<Rightarrow> trace \<Rightarrow> ControlAction \<times> UnitManager \<times> trace" where
  "control_restart K u m tr =
     (if \<not> exists_unit m u then (no_such_unit u, m, tr)
      else case restart_unit K u m tr of
        (PlanStopping, m1, tr1) \<Rightarrow> (Reply ROk (Say (''restarting '' @ canonical u)), m1, tr1)
      | (PlanStart, m1, tr1) \<Rightarrow> control_start K u m1 tr1
      | (PlanNotApplicable, m1, tr1) \<Rightarrow>
          (Reply RConflict (Say (canonical u @ '' has no process to restart'')), m1, tr1))"

definition control_reset :: "UnitName \<Rightarrow> UnitManager \<Rightarrow> ControlAction \<times> UnitManager" where
  "control_reset u m = (if \<not> exists_unit m u then (no_such_unit u, m)
     else (Reply ROk (Say (canonical u @ '': cleared'')), reset_failed u m))"

definition control_reload :: "Kernel \<Rightarrow> UnitDir \<Rightarrow> Config \<Rightarrow> Activated \<Rightarrow> StartCoordinator \<Rightarrow> World
    \<Rightarrow> ControlAction \<times> Activated \<times> StartCoordinator \<times> World" where
  "control_reload K D cfg act co w = (case reload K D cfg act co w of
      (Inr report, act1, co1, w1) \<Rightarrow>
        (Reply ROk (Say (join [newline] (report_lines report @ [report_summary report]))), act1, co1, w1)
    | (Inl e, act1, co1, w1) \<Rightarrow> (Reply RError (ReloadRejected e), act1, co1, w1))"

section \<open>Requests that only read\<close>

definition with_log_block :: "string \<Rightarrow> string \<Rightarrow> string" where
  "with_log_block txt logs = (if logs = [] then txt else txt @ ''log:'' @ [newline] @ logs @ [newline])"

definition pop_brace :: "string \<Rightarrow> string" where
  "pop_brace txt = (if ends_with_char (CHR 0x7D) txt then butlast txt else txt)"

text \<open>The log becomes one more field of the object, unless the frame would be too long.\<close>

definition with_json_log :: "string \<Rightarrow> string \<Rightarrow> string" where
  "with_json_log txt logs =
     (if logs = [] then txt
      else let escaped = json_string logs in
        if MAX_FRAME_BYTES < sat_add u64_max (sat_add u64_max (length txt) (length escaped)) 32
        then pop_brace txt @ '','' @ [CHR 0x22] @ ''log_omitted'' @ [CHR 0x22, CHR 0x3A, CHR 0x22]
               @ ''response size limit'' @ [CHR 0x22, CHR 0x7D]
        else pop_brace txt @ '','' @ [CHR 0x22] @ ''log'' @ [CHR 0x22, CHR 0x3A] @ escaped @ [CHR 0x7D])"

definition status_reply :: "Env \<Rightarrow> UnitManager \<Rightarrow> UnitName \<Rightarrow> nat \<Rightarrow> ControlAction" where
  "status_reply E m u tail = (case describe_unit m u of
      None \<Rightarrow> no_such_unit u
    | Some txt \<Rightarrow> Reply ROk (Say (if 0 < tail then with_log_block txt (render_logs (env_logs E) (Some u) tail) else txt)))"

definition status_formatted_reply :: "Env \<Rightarrow> UnitManager \<Rightarrow> UnitName \<Rightarrow> nat \<Rightarrow> StatusFormat \<Rightarrow> ControlAction" where
  "status_formatted_reply E m u tail fmt =
     (case describe_unit_formatted (env_format E) (env_usage E u) m u fmt of
        None \<Rightarrow> no_such_unit u
      | Some txt \<Rightarrow> Reply ROk (Say (
          if tail = 0 then txt
          else let logs = render_logs (env_logs E) (Some u) tail in
            if fmt = SfJson then with_json_log txt logs else with_log_block txt logs)))"

definition status_all_reply :: "UnitManager \<Rightarrow> StatusFormat \<Rightarrow> ControlAction" where
  "status_all_reply m fmt = Reply ROk (Say (
     if fmt = SfJson then ''['' @ join '','' (map json_string (summary m)) @ '']''
     else join [newline] (summary m)))"

section \<open>Dispatch\<close>

definition on_manager :: "(UnitManager \<Rightarrow> trace \<Rightarrow> ControlAction \<times> UnitManager \<times> trace) \<Rightarrow> Activated
    \<Rightarrow> StartCoordinator \<Rightarrow> World \<Rightarrow> ControlAction \<times> Activated \<times> StartCoordinator \<times> World" where
  "on_manager f act co w = (let (a, w1) = on_man f w in (a, act, co, w1))"

definition handle_control :: "Kernel \<Rightarrow> Env \<Rightarrow> Config \<Rightarrow> Request \<Rightarrow> Activated \<Rightarrow> StartCoordinator \<Rightarrow> World
    \<Rightarrow> ControlAction \<times> Activated \<times> StartCoordinator \<times> World" where
  "handle_control K E cfg r act co w = (let m = w_man w in
     case r of
       List \<Rightarrow> (Reply ROk (Say (join [newline] (summary m))), act, co, w)
     | Status None _ \<Rightarrow> (Reply ROk (Say (join [newline] (summary m))), act, co, w)
     | ListFormatted fmt \<Rightarrow> (Reply ROk (Say (render_list (env_format E) (env_usage E) m fmt)), act, co, w)
     | Status (Some u) tail \<Rightarrow> (status_reply E m u tail, act, co, w)
     | StatusFormatted (Some u) tail fmt \<Rightarrow> (status_formatted_reply E m u tail fmt, act, co, w)
     | StatusFormatted None _ fmt \<Rightarrow> (status_all_reply m fmt, act, co, w)
     | Start u \<Rightarrow> on_manager (control_start K u) act co w
     | Stop u \<Rightarrow> on_manager (control_stop K u) act co w
     | Restart u \<Rightarrow> on_manager (control_restart K u) act co w
     | ResetFailed u \<Rightarrow> on_manager (\<lambda>m tr. let (a, m1) = control_reset u m in (a, m1, tr)) act co w
     | Log u tail \<Rightarrow> (Reply ROk (Say (render_logs (env_logs E) u tail)), act, co, w)
     | Reload \<Rightarrow> control_reload K (env_dir E) cfg act co w
     | Reboot \<Rightarrow> (Reply ROk (Say ''reboot requested''), act, co, w)
     | Poweroff \<Rightarrow> (Reply ROk (Say ''poweroff requested''), act, co, w))"

section \<open>A status object stays an object\<close>

lemma ends_with_brace [simp]: "ends_with_char (CHR 0x7D) (xs @ [CHR 0x7D])"
  by (simp add: ends_with_char_def)

lemma json_object_snoc:
  assumes "fs \<noteq> []"
  shows "pop_brace (json_object fs) @ '','' @ [CHR 0x22] @ k @ [CHR 0x22, CHR 0x3A] @ v @ [CHR 0x7D] = json_object (fs @ [(k, v)])"
proof -
  have join_snoc: "xs \<noteq> [] \<Longrightarrow> join sep (xs @ [x]) = join sep xs @ sep @ x" for sep x and xs :: "string list"
    by (induction sep xs rule: join.induct) auto
  have "pop_brace (json_object fs) = butlast (json_object fs)"
    using ends_with_brace [of "''{'' @ join '','' (map (\<lambda>(k, v). [CHR 0x22] @ k @ [CHR 0x22, CHR 0x3A] @ v) fs)"]
    by (simp add: pop_brace_def json_object_def)
  then show ?thesis using assms by (simp add: json_object_def join_snoc butlast_append)
qed

text \<open>
  The log never breaks the JSON of a status reply: the reply is the status object with one
  more field, the whole log as a string or the note that it was left out, and it is left out exactly
  when object and log would not fit a frame; a reply that carries the log fits the frame whole.
\<close>
theorem json_log_is_a_field:
  assumes "logs \<noteq> []" "txt = render_json rt target us"
  shows "\<exists>fs. txt = json_object fs \<and> with_json_log txt logs =
      (if length txt + length (json_string logs) + 32 \<le> MAX_FRAME_BYTES
       then json_object (fs @ [(''log'', json_string logs)])
       else json_object (fs @ [(''log_omitted'', json_string ''response size limit'')]))
    \<and> (length txt + length (json_string logs) + 32 \<le> MAX_FRAME_BYTES
       \<longrightarrow> length (with_json_log txt logs) < MAX_FRAME_BYTES)"
proof -
  obtain fs where fs: "txt = json_object fs" "fs \<noteq> []" using assms(2) by (simp add: render_json_def)
  have fits: "MAX_FRAME_BYTES < sat_add u64_max (sat_add u64_max a b) 32 \<longleftrightarrow> \<not> a + b + 32 \<le> MAX_FRAME_BYTES" for a b
    by (auto simp: sat_add_def min_def MAX_FRAME_BYTES_def u64_max_value)
  have omitted: "json_string ''response size limit'' = [CHR 0x22] @ ''response size limit'' @ [CHR 0x22]" by code_simp
  have eq: "with_json_log txt logs =
      (if length txt + length (json_string logs) + 32 \<le> MAX_FRAME_BYTES
       then json_object (fs @ [(''log'', json_string logs)])
       else json_object (fs @ [(''log_omitted'', json_string ''response size limit'')]))"
    using assms(1) json_object_snoc [OF fs(2), symmetric] fs(1)
    by (simp add: with_json_log_def Let_def fits omitted)
  have "length (json_object (fs @ [(''log'', json_string logs)])) < length txt + length (json_string logs) + 32"
    using arg_cong [OF json_object_snoc [OF fs(2), of "''log''" "json_string logs"], of length] fs(1)
    by (simp add: pop_brace_def split: if_splits)
  with eq fs(1) show ?thesis by (intro exI [of _ fs]) auto
qed

theorem json_log_is_a_field_witness:
  "\<exists>fs. with_json_log (render_json (runtime_new (new_config web)) ''none'' no_usage) ''up''
     = json_object (fs @ [(''log'', json_string ''up'')])"
proof -
  let ?txt = "render_json (runtime_new (new_config web)) ''none'' no_usage"
  have "length ?txt + length (json_string ''up'') + 32 \<le> 700"
    by (simp add: render_json_def runtime_new_def unit_type_text_def state_text_def restart_text_def user_text_def
        exec_text_def outcome_text_def consecutive_restarts_def backoff_new_def no_usage_def new_config_def
        is_target_def json_pid_def json_num_def json_opt_def json_bool_def state_as_str_def)
      code_simp
  then have "length ?txt + length (json_string ''up'') + 32 \<le> MAX_FRAME_BYTES" by (simp add: MAX_FRAME_BYTES_def)
  with json_log_is_a_field [OF _ refl, of "''up''" "runtime_new (new_config web)" "''none''" no_usage]
  show ?thesis by auto
qed

section \<open>What a request keeps\<close>

lemma sound_on_manager:
  "(\<And>m tr. sound_state m tr \<Longrightarrow> sound_state (fst (snd (f m tr))) (snd (snd (f m tr)))) \<Longrightarrow> sound_world w
   \<Longrightarrow> sound_world (snd (snd (snd (on_manager f act co w))))"
  by (simp add: on_manager_def case_prod_beta kept.world_on_man)

lemma sound_control_new: "sound_state m tr \<Longrightarrow> sound_state (fst (snd (control_new K u m tr))) (snd (snd (control_new K u m tr)))"
  using sup.world_control_new [of "\<lparr>w_man = m, w_hub = h, w_aux = [], w_tr = tr\<rparr>" K u for h]
  by (simp add: world_good_def on_man_def case_prod_beta)

lemma sound_control_start: "sound_state m tr \<Longrightarrow> sound_state (fst (snd (control_start K u m tr))) (snd (snd (control_start K u m tr)))"
proof -
  assume s: "sound_state m tr"
  have "sound_state m1 tr" if "ensure_startable u m = Inr m1" for m1
    using that s by (auto simp: ensure_startable_def sound_state_def wf_instantiate split: if_splits sum.splits)
  with s sound_control_new show ?thesis
    by (auto simp: control_start_def case_prod_beta split: sum.split prod.split)
qed

lemma sound_control_stop: "sound_state m tr \<Longrightarrow> sound_state (fst (snd (control_stop K u m tr))) (snd (snd (control_stop K u m tr)))"
proof -
  assume s: "sound_state m tr"
  obtain e m1 tr1 where r: "request_stop K u UserStop m tr = (e, m1, tr1)" by (metis prod_cases3)
  then have s1: "sound_state m1 tr1" using sup.good_request [OF s, where t = Stopped and src = UserStop and K = K and u = u] by (simp add: request_stop_def)
  have "sound_state (fst (snd (apply_effect K u e m1 tr1))) (snd (snd (apply_effect K u e m1 tr1)))"
    using s1 sup.good_stop_unit [OF s1, of K u] by (simp add: apply_effect_def split: option.split Effect.split)
  with s s1 show ?thesis
  proof (cases e)
    case (Some a)
    with \<open>sound_state (fst (snd (apply_effect K u e m1 tr1))) _\<close> s s1 show ?thesis
      by (cases a) (simp_all add: control_stop_def r case_prod_beta split: option.split)
  qed (simp add: control_stop_def r split: option.split)
qed

lemma sound_control_restart:
  "sound_state m tr \<Longrightarrow> sound_state (fst (snd (control_restart K u m tr))) (snd (snd (control_restart K u m tr)))"
proof -
  assume s: "sound_state m tr"
  obtain p m1 tr1 where r: "restart_unit K u m tr = (p, m1, tr1)" by (metis prod_cases3)
  have "sound_state m1 tr1"
    using s restart_unit_inv [of True m tr K u] r by (simp add: sound_state_def)
  with s sound_control_start [of m1 tr1 K u] show ?thesis by (cases p) (simp_all add: control_restart_def r)
qed

lemma starts_ok_reconcile_socket: "starts_ok (fst (reconcile_socket K c m act tr)) = starts_ok m"
  by (auto simp: reconcile_socket_def listen_as_held_def clear_listener_def set_listener_def case_prod_beta Let_def
      split: option.split)

lemma sound_update_unit:
  assumes "sound_world w" "config_for (cfg_name c) c"
  shows "sound_world (snd (snd (update_unit K flows c rep act w)))"
proof -
  have "harmless (w_tr (drop_notify_socket K c w)) = harmless (w_tr w)"
    by (simp add: drop_notify_socket_def case_prod_beta Let_def)
  moreover have "harmless (snd (snd (reconcile_socket K c m act tr))) = harmless tr" for m tr
    using harmless_act_bind [of K "cfg_name c" _ act tr]
    by (auto simp: reconcile_socket_def case_prod_beta Let_def split: option.split)
  moreover have "wf_manager (fst (reconcile_socket K c m act tr)) = wf_manager m" for m tr
    by (simp add: units_ok_def starts_ok_reconcile_socket)
  ultimately show ?thesis
    using assms by (simp add: world_good_def sound_state_def update_unit_def case_prod_beta Let_def
        wf_add_with_in_flight)
qed

lemma sound_update_units:
  "sound_world w \<Longrightarrow> \<forall>c \<in> set cs. config_for (cfg_name c) c \<Longrightarrow> sound_world (snd (snd (update_units K flows cs rep act w)))"
  by (induction cs arbitrary: rep act w) (auto simp: case_prod_beta Let_def sound_update_unit)

lemma sound_start_added: "sound_world w \<Longrightarrow> sound_world (snd (snd (start_added K plan us rep co w)))"
  by (induction us arbitrary: rep co w) (auto simp: case_prod_beta Let_def sup.world_start_async)

lemma sound_apply_plan:
  assumes "sound_world w" "plan_ok plan"
  shows "sound_world (snd (snd (snd (apply_plan K plan act co w))))"
proof -
  let ?m = "w_man w" and ?w1 = "w\<lparr>w_man := fst (prune_retired (w_man w))\<rparr>"
  define G where "G = remove_gone K plan (manager_names (fst (prune_retired ?m)))
    (report_default\<lparr>rr_pruned := snd (prune_retired ?m)\<rparr>) act ?w1"
  have g: "fst G = None" "sound_world (snd (snd (snd G)))"
    unfolding G_def using remove_gone_fine [OF sound_prune [OF assms(1)]] by blast+
  have set_frame: "sound_world (v\<lparr>w_man := set_shutdown_order o' (set_templates ts (w_man v))\<rparr>) = sound_world v" for v o' ts
    by (simp add: world_good_def sound_state_def set_shutdown_order_def set_templates_def units_ok_def)
  from g assms(2) show ?thesis
    by (simp add: apply_plan_def case_prod_beta Let_def set_frame sound_start_added sound_update_units plan_ok_def
        flip: G_def)
qed

lemma sound_control_reload: "sound_world w \<Longrightarrow> sound_world (snd (snd (snd (control_reload K D cfg act co w))))"
  using sound_apply_plan [of w] plan_boot_ok
  by (auto simp: control_reload_def reload_def case_prod_beta split: sum.split option.split)

lemma sound_handle_control: "sound_world w \<Longrightarrow> sound_world (snd (snd (snd (handle_control K E cfg r act co w))))"
proof -
  assume w: "sound_world w"
  note manager = sound_on_manager [OF sound_control_start w] sound_on_manager [OF sound_control_stop w]
    sound_on_manager [OF sound_control_restart w]
  have "sound_world (snd (snd (snd (on_manager (\<lambda>m tr. let (a, m1) = control_reset u m in (a, m1, tr)) act co w))))" for u
    by (rule sound_on_manager [OF _ w]) (simp add: control_reset_def sound_state_def wf_reset_failed)
  with w manager sound_control_reload [OF w] show ?thesis
    by (cases r) (auto simp: handle_control_def Let_def split: option.split)
qed

end
