(* ===== verification/Hw_Watchdog.thy ===== *)
theory Hw_Watchdog
  imports Os
begin

text \<open>
  The hardware watchdog: the device protocol (\<open>rinit-runtime/src/syscall/watchdog.rs\<close>) and when the
  supervisor feeds it (\<open>rinit/src/watchdog.rs\<close>). Opening the device arms it; the byte \<open>V\<close> before a
  close tells the driver that the close is deliberate.
\<close>

section \<open>The device\<close>

definition DEFAULT_DEVICE :: string where "DEFAULT_DEVICE = ''/dev/watchdog''"
definition FEED :: char where "FEED = CHR ''0''"
definition MAGIC_CLOSE :: char where "MAGIC_CLOSE = CHR ''V''"

record WdDevice =
  wd_path :: string
  wd_armed :: bool

definition wd_open :: "Kernel \<Rightarrow> string \<Rightarrow> trace \<Rightarrow> (int + WdDevice) \<times> trace" where
  "wd_open K path tr =
     (case k_wd_open K tr path of Some e \<Rightarrow> Inl e | None \<Rightarrow> Inr \<lparr>wd_path = path, wd_armed = True\<rparr>,
      WdOpen path # tr)"

text \<open>The timeout the driver reports; a driver that answers with nothing positive is refused.\<close>

definition wd_timeout :: "Kernel \<Rightarrow> trace \<Rightarrow> (int + nat) \<times> trace" where
  "wd_timeout K tr =
     (case k_wd_get_timeout K tr of Inl e \<Rightarrow> Inl e | Inr n \<Rightarrow> if 0 < n then Inr (nat n) else Inl EINVAL,
      WdGetTimeout # tr)"

definition wd_set_timeout :: "Kernel \<Rightarrow> nat \<Rightarrow> trace \<Rightarrow> (int + nat) \<times> trace" where
  "wd_set_timeout K secs tr =
     (let asked = int (min secs (2 ^ 31 - 1)); tr1 = WdSetTimeout asked # tr in
      case k_wd_set_timeout K tr asked of
        Inl e \<Rightarrow> (Inl e, tr1)
      | Inr n \<Rightarrow> if 0 < n then (Inr (nat n), tr1) else wd_timeout K tr1)"

definition wd_write :: "Kernel \<Rightarrow> char \<Rightarrow> trace \<Rightarrow> int option \<times> trace" where
  "wd_write K c tr = (k_wd_write K tr c, WdWrite c # tr)"

definition wd_feed :: "Kernel \<Rightarrow> trace \<Rightarrow> int option \<times> trace" where
  "wd_feed K tr = wd_write K FEED tr"

definition magic_close :: "Kernel \<Rightarrow> WdDevice \<Rightarrow> trace \<Rightarrow> int option \<times> WdDevice \<times> trace" where
  "magic_close K d tr =
     (if \<not> wd_armed d then (None, d, tr)
      else case wd_write K MAGIC_CLOSE tr of
        (None, tr1) \<Rightarrow> (None, d\<lparr>wd_armed := False\<rparr>, tr1)
      | (Some e, tr1) \<Rightarrow> (Some e, d, tr1))"

text \<open>The destructor tries once more; \<open>disarm\<close> consumes the device, so it runs there too.\<close>

definition wd_drop :: "Kernel \<Rightarrow> WdDevice \<Rightarrow> trace \<Rightarrow> WdDevice \<times> trace" where
  "wd_drop K d tr = snd (magic_close K d tr)"

definition wd_disarm :: "Kernel \<Rightarrow> WdDevice \<Rightarrow> trace \<Rightarrow> int option \<times> trace" where
  "wd_disarm K d tr = (let (r, d1, tr1) = magic_close K d tr in (r, snd (wd_drop K d1 tr1)))"

section \<open>The boot's watchdog\<close>

record Watchdog =
  wg_dev :: "WdDevice option"
  wg_interval :: duration
  wg_next :: instant

definition resolve_device :: "bool \<Rightarrow> string option \<Rightarrow> string option" where
  "resolve_device dev_mode device = (case device of
      Some p \<Rightarrow> Some p | None \<Rightarrow> if dev_mode then None else Some DEFAULT_DEVICE)"

definition feed_interval :: "nat \<Rightarrow> duration" where
  "feed_interval secs = max (from_millis (sat_mul u64_max secs 1000 div 2)) (from_millis 1)"

definition watchdog_disabled :: "Kernel \<Rightarrow> trace \<Rightarrow> Watchdog \<times> trace" where
  "watchdog_disabled K tr =
     (let (now, tr1) = read_clock K tr in (\<lparr>wg_dev = None, wg_interval = 0, wg_next = now\<rparr>, tr1))"

text \<open>The timeout the feeds go by: what the driver settled on, what it reports, or what was asked.\<close>

definition effective_timeout :: "Kernel \<Rightarrow> nat \<Rightarrow> trace \<Rightarrow> nat \<times> trace" where
  "effective_timeout K secs tr = (case wd_set_timeout K secs tr of
      (Inr actual, tr1) \<Rightarrow> (actual, tr1)
    | (Inl e, tr1) \<Rightarrow> (case wd_timeout K tr1 of
          (Inr actual, tr2) \<Rightarrow> (actual, tr2) | (Inl e', tr2) \<Rightarrow> (secs, tr2)))"

definition watchdog_prepare :: "Kernel \<Rightarrow> bool \<Rightarrow> string option \<Rightarrow> nat \<Rightarrow> trace \<Rightarrow> Watchdog \<times> trace" where
  "watchdog_prepare K dev_mode device secs tr = (case resolve_device dev_mode device of
      None \<Rightarrow> watchdog_disabled K tr
    | Some path \<Rightarrow>
        (case wd_open K path tr of
           (Inl e, tr1) \<Rightarrow> watchdog_disabled K tr1
         | (Inr d, tr1) \<Rightarrow>
             (let (secs', tr2) = effective_timeout K secs tr1; (now, tr3) = read_clock K tr2
              in (\<lparr>wg_dev = Some d, wg_interval = feed_interval secs', wg_next = now\<rparr>, tr3))))"

definition feed_if_due :: "Kernel \<Rightarrow> Watchdog \<Rightarrow> trace \<Rightarrow> Watchdog \<times> trace" where
  "feed_if_due K wd tr =
     (if wg_dev wd = None then (wd, tr)
      else let (now, tr1) = read_clock K tr in
        if now < wg_next wd then (wd, tr1)
        else (wd\<lparr>wg_next := now + wg_interval wd\<rparr>, snd (wd_feed K tr1)))"

definition next_feed_in :: "Kernel \<Rightarrow> Watchdog \<Rightarrow> trace \<Rightarrow> duration \<times> trace" where
  "next_feed_in K wd tr =
     (if wg_dev wd = None then (from_secs 3600, tr)
      else let (now, tr1) = read_clock K tr in (wg_next wd - now, tr1))"

definition watchdog_disarm :: "Kernel \<Rightarrow> Watchdog \<Rightarrow> trace \<Rightarrow> trace" where
  "watchdog_disarm K wd tr = (case wg_dev wd of None \<Rightarrow> tr | Some d \<Rightarrow> snd (wd_disarm K d tr))"

section \<open>Cadence\<close>

lemma from_millis_mono: "a \<le> b \<Longrightarrow> from_millis a \<le> from_millis b"
  by (simp add: from_millis_def)

lemma feed_interval_half:
  assumes "0 < secs" shows "2 * feed_interval secs \<le> from_secs secs" "0 < feed_interval secs"
proof -
  have "sat_mul u64_max secs 1000 \<le> secs * 1000" by (simp add: sat_mul_def)
  then have "2 * from_millis (sat_mul u64_max secs 1000 div 2) \<le> from_millis (secs * 1000)"
    by (simp add: from_millis_def)
  moreover have "2 * from_millis 1 \<le> from_millis (secs * 1000)" using assms by (simp add: from_millis_def)
  ultimately show "2 * feed_interval secs \<le> from_secs secs"
    by (simp add: feed_interval_def from_millis_def from_secs_def max_def)
  show "0 < feed_interval secs" by (simp add: feed_interval_def from_millis_def less_max_iff_disj)
qed

lemma effective_timeout_positive: "0 < secs \<Longrightarrow> 0 < fst (effective_timeout K secs tr)"
  by (auto simp: effective_timeout_def wd_set_timeout_def wd_timeout_def Let_def split: sum.split prod.split if_splits)

text \<open>
  The supervisor at work: a round asks the watchdog once, at the first trace of a pair, and before it
  waits it asks how long it may wait, at the second. Between two rounds anything may happen. A feed is
  a write that the driver took.
\<close>

fun feeding :: "Kernel \<Rightarrow> (trace \<times> trace) list \<Rightarrow> Watchdog \<Rightarrow> instant list" where
  "feeding K [] wd = []"
| "feeding K ((tr, _) # rounds) wd =
     (let (wd1, tr1) = feed_if_due K wd tr; ts = feeding K rounds wd1
      in if hd tr1 = WdWrite FEED \<and> tr1 \<noteq> tr \<and> k_wd_write K (tl tr1) FEED = None then k_now K tr # ts else ts)"

text \<open>
  Rounds on time: the work of a round takes at most \<open>work\<close>, and it begins at most \<open>slack\<close> after the
  end of the wait that the round before asked for.
\<close>

fun punctual :: "Kernel \<Rightarrow> duration \<Rightarrow> duration \<Rightarrow> instant \<Rightarrow> instant \<Rightarrow> (trace \<times> trace) list \<Rightarrow> Watchdog \<Rightarrow> bool" where
  "punctual K work slack since latest [] wd = True"
| "punctual K work slack since latest ((tr, tr') # rounds) wd =
     (let wd1 = fst (feed_if_due K wd tr) in
      since \<le> k_now K tr \<and> k_now K tr \<le> latest \<and> k_now K tr \<le> k_now K tr' \<and> k_now K tr' \<le> k_now K tr + work
      \<and> punctual K work slack (k_now K tr') (k_now K tr' + fst (next_feed_in K wd1 tr') + slack) rounds wd1)"

lemma feed_if_due_enabled:
  assumes "wg_dev wd \<noteq> None"
  shows "feed_if_due K wd tr = (if k_now K tr < wg_next wd then (wd, Now # tr)
     else (wd\<lparr>wg_next := k_now K tr + wg_interval wd\<rparr>, WdWrite FEED # Now # tr))"
  using assms by (simp add: feed_if_due_def read_clock_def wd_feed_def wd_write_def)

lemma next_feed_enabled: "wg_dev wd \<noteq> None \<Longrightarrow> fst (next_feed_in K wd tr) = wg_next wd - k_now K tr"
  by (auto simp: next_feed_in_def read_clock_def)

text \<open>When the last round asked the watchdog.\<close>

definition last_round :: "Kernel \<Rightarrow> instant \<Rightarrow> (trace \<times> trace) list \<Rightarrow> instant" where
  "last_round K t rounds = last (t # map (\<lambda>(tr, _). k_now K tr) rounds)"

lemma last_round_simps [simp]:
  "last_round K t [] = t" "last_round K t ((tr, tr') # rounds) = last_round K (k_now K tr) rounds"
  by (simp_all add: last_round_def)

lemma feeding_gaps:
  assumes "wg_dev wd \<noteq> None" "wg_next wd = fed + wg_interval wd \<or> wg_next wd = fed" "fed \<le> since"
    and "p \<le> fed + wg_interval wd"
    and "latest \<le> fed + wg_interval wd + work + slack"
    and "\<And>t. k_wd_write K t FEED = None" "punctual K work slack since latest rounds wd"
  shows "successively (\<lambda>a b. b \<le> a + wg_interval wd + work + slack) (fed # feeding K rounds wd @ [last_round K p rounds])"
  using assms
proof (induction rounds arbitrary: wd fed since latest p)
  case (Cons round rounds)
  obtain tr tr' where round: "round = (tr, tr')" by fastforce
  define t where "t = k_now K tr"
  define t' where "t' = k_now K tr'"
  show ?case
  proof (cases "t < wg_next wd")
    case True
    then have wd1: "feed_if_due K wd tr = (wd, Now # tr)" using Cons.prems(1) by (simp add: feed_if_due_enabled t_def)
    have t: "since \<le> t" "t \<le> t'" "t' \<le> t + work"
      and rest: "punctual K work slack t' (t' + (wg_next wd - t') + slack) rounds wd"
      using Cons.prems(7) by (simp_all add: round wd1 t_def t'_def next_feed_enabled Cons.prems(1))
    have "t' + (wg_next wd - t') + slack \<le> fed + wg_interval wd + work + slack" "fed \<le> t'" "t \<le> fed + wg_interval wd"
      using t True Cons.prems(2,3) by linarith+
    from Cons.IH [OF Cons.prems(1,2) this(2,3,1) Cons.prems(6) rest] show ?thesis by (simp add: round wd1 t_def)
  next
    case False
    let ?wd = "wd\<lparr>wg_next := t + wg_interval wd\<rparr>"
    have wd1: "feed_if_due K wd tr = (?wd, WdWrite FEED # Now # tr)"
      using False Cons.prems(1) by (simp add: feed_if_due_enabled t_def)
    have t: "since \<le> t" "t \<le> latest" "t \<le> t'" "t' \<le> t + work"
      and rest: "punctual K work slack t' (t' + (wg_next ?wd - t') + slack) rounds ?wd"
      using Cons.prems(7) by (simp_all add: round wd1 t_def t'_def next_feed_enabled Cons.prems(1))
    have "t' + (wg_next ?wd - t') + slack \<le> t + wg_interval ?wd + work + slack" using t by simp
    from Cons.IH [OF _ _ t(3) _ this Cons.prems(6) rest, of t] Cons.prems(1)
    have "successively (\<lambda>a b. b \<le> a + wg_interval wd + work + slack) (t # feeding K rounds ?wd @ [last_round K t rounds])"
      by simp
    moreover have "t \<le> fed + wg_interval wd + work + slack" using t(2) Cons.prems(5) by linarith
    ultimately show ?thesis by (simp add: round wd1 Cons.prems(6) t_def)
  qed
qed simp



text \<open>A deliberate end always tries the magic close, twice if the first write is refused.\<close>

lemma watchdog_disarm_closes:
  "wg_dev wd = Some d \<Longrightarrow> wd_armed d \<Longrightarrow> watchdog_disarm K wd tr =
     (if k_wd_write K tr MAGIC_CLOSE = None then WdWrite MAGIC_CLOSE # tr
      else WdWrite MAGIC_CLOSE # WdWrite MAGIC_CLOSE # tr)"
  by (auto simp: watchdog_disarm_def wd_disarm_def wd_drop_def magic_close_def wd_write_def split: option.split)

end
