(* ===== verification/Supervise.thy ===== *)
theory Supervise
  imports Control_Handlers Hw_Watchdog
begin

text \<open>
  The supervised main loop (\<open>supervise\<close>, \<open>stop_and_reap\<close> and \<open>next_deadline\<close> of
  \<open>rinit/src/boot.rs\<close>). A round works off what is due and then waits for one event; which of the
  ready events is taken is the choice of the async runtime, so a round is a function of the children
  reaped, the clients that hung up and the event. The log file is written by the log component and is
  not part of this state.
\<close>

definition HOUSEKEEPING_POLL :: duration where "HOUSEKEEPING_POLL = from_secs 1"
definition FAST_STOP_SECS :: nat where "FAST_STOP_SECS = 2"
definition FAST_SHUTDOWN_BUDGET :: duration where "FAST_SHUTDOWN_BUDGET = from_secs 5"

datatype ShutdownAction = ActReboot | ActPowerOff

record Supervisor =
  sv_world :: World
  sv_starts :: StartCoordinator
  sv_boot :: "Boot option"
  sv_act :: Activated
  sv_ready :: "UnitName list"
  sv_last :: "(UnitName \<times> instant) list"
  sv_pending :: "UnitName list"
  sv_watchdog :: Watchdog
  sv_fast :: bool
  sv_action :: ShutdownAction
  sv_replies :: "(client \<times> ReplyStatus \<times> ControlText) list"

abbreviation sv_man :: "Supervisor \<Rightarrow> UnitManager" where
  "sv_man sv \<equiv> w_man (sv_world sv)"

definition next_deadline :: "Kernel \<Rightarrow> UnitManager \<Rightarrow> trace \<Rightarrow> duration \<times> trace" where
  "next_deadline K m tr =
     (let (d, tr1) = next_deadline_in K m tr
      in (case d of None \<Rightarrow> from_secs 3600 | Some t \<Rightarrow> max t (from_millis 1), tr1))"

section \<open>What is due\<close>

fun begin_each :: "Kernel \<Rightarrow> UnitName list \<Rightarrow> StartCoordinator \<Rightarrow> World \<Rightarrow> StartCoordinator \<times> World" where
  "begin_each K [] co w = (co, w)"
| "begin_each K (u # us) co w = (let (_, co1, w1) = coord_begin K u co w in begin_each K us co1 w1)"

fun stop_idle :: "Kernel \<Rightarrow> UnitName list \<Rightarrow> StartCoordinator \<Rightarrow> World \<Rightarrow> StartCoordinator \<times> World" where
  "stop_idle K [] co w = (co, w)"
| "stop_idle K (u # us) co w =
     (let (co1, w1) = coord_cancel K u co w;
          (effect, w2) = on_man (request_stop K u UserStop) w1;
          (_, w3) = on_man (apply_effect K u effect) w2
      in stop_idle K us co1 w3)"

definition timers_round :: "Kernel \<Rightarrow> StartCoordinator \<Rightarrow> World \<Rightarrow> StartCoordinator \<times> World" where
  "timers_round K co w =
     (let (us, w1) = on_man (due_restarts K) w; (co1, w2) = begin_each K us co w1;
          (us2, w3) = on_man (due_queued_starts K) w2; (co2, w4) = begin_each K us2 co1 w3;
          (_, w5) = on_man (due_start_timeouts K) w4;
          (_, w6) = on_man (due_kills K) w5;
          (_, w7) = on_man (due_health_probes K) w6;
          (_, w8) = on_man (due_probe_timeouts K) w7;
          (idle_us, w9) = on_man (due_idle_units K) w8
      in stop_idle K idle_us co2 w9)"

definition boot_round :: "Kernel \<Rightarrow> UnitName list \<Rightarrow> Boot option \<Rightarrow> StartCoordinator \<Rightarrow> World
    \<Rightarrow> Boot option \<times> StartCoordinator \<times> World" where
  "boot_round K spawned boot co w = (case boot of
      None \<Rightarrow> (None, co, w)
    | Some b \<Rightarrow>
        (let (b1, co1, w1) = boot_advance K spawned b co w
         in if b_complete b1 then (None, co1, w1\<lparr>w_man := finish_boot (w_man w1)\<rparr>) else (Some b1, co1, w1)))"

text \<open>Everything between two waits; \<open>evs\<close> are the children reaped, \<open>closed\<close> the clients that left.\<close>

definition supervise_round :: "Kernel \<Rightarrow> ChildExit list \<Rightarrow> (client \<Rightarrow> bool) \<Rightarrow> Supervisor \<Rightarrow> duration \<times> Supervisor" where
  "supervise_round K evs closed sv =
     (let (_, w1) = coord_reap K evs (sv_starts sv) (sv_world sv);
          (spawned, co1, w2) = coord_advance K closed (sv_starts sv) w1;
          (boot1, co2, w3) = boot_round K spawned (sv_boot sv) co1 w2;
          (last1, co3, w4) = (if boot1 = None \<and> sv_pending sv \<noteq> []
                              then start_sockets K (sv_pending sv) (sv_last sv) co2 w3
                              else (sv_last sv, co2, w3));
          pending1 = (if boot1 = None then [] else sv_pending sv);
          (act1, tr5) = sync_socket_activation K (w_man w4) (co_flows co3) last1 (boot1 \<noteq> None) pending1
                          (sv_act sv) (w_tr w4);
          (wd1, tr6) = feed_if_due K (sv_watchdog sv) tr5;
          (co4, w7) = timers_round K co3 (w4\<lparr>w_tr := tr6\<rparr>);
          (d, w8) = on_tr (next_deadline K (w_man w7)) w7;
          (f, w9) = on_tr (next_feed_in K wd1) w8;
          wait = min (min (min d f) (next_wait co4)) (socket_refresh_wait (w_man w9) act1)
      in (min wait HOUSEKEEPING_POLL,
          sv\<lparr>sv_world := w9, sv_starts := co4, sv_boot := boot1, sv_act := act1, sv_last := last1,
             sv_pending := pending1, sv_watchdog := wd1\<rparr>))"

section \<open>Events\<close>

datatype LoopEvent =
  SigChild | SigTerm | SigInt | SigPwr | Notified UnitName NotifyMessage | Requested Env Request client
| Connected | Elapsed

datatype Verdict = Stay Supervisor | Leave Supervisor

definition requested_action :: "Request \<Rightarrow> ShutdownAction option" where
  "requested_action r = (case r of Reboot \<Rightarrow> Some ActReboot | Poweroff \<Rightarrow> Some ActPowerOff | _ \<Rightarrow> None)"

definition send_reply :: "client \<Rightarrow> ReplyStatus \<Rightarrow> ControlText \<Rightarrow> Supervisor \<Rightarrow> Supervisor" where
  "send_reply c st t sv = sv\<lparr>sv_replies := sv_replies sv @ [(c, st, t)]\<rparr>"

text \<open>A stop abandons the start in flight before it is carried out.\<close>

definition cancel_before_stop :: "Kernel \<Rightarrow> Request \<Rightarrow> StartCoordinator \<Rightarrow> World \<Rightarrow> StartCoordinator \<times> World" where
  "cancel_before_stop K r co w = (case r of Stop u \<Rightarrow> coord_cancel K u co w | _ \<Rightarrow> (co, w))"

definition answer_request :: "Kernel \<Rightarrow> Config \<Rightarrow> Env \<Rightarrow> Request \<Rightarrow> client \<Rightarrow> Supervisor \<Rightarrow> Supervisor" where
  "answer_request K cfg E r c sv =
     (if sv_boot sv \<noteq> None \<and> request_mutates_boot r
      then send_reply c RConflict (Say ''boot is still in progress; retry after boot completes'') sv
      else
        let (co1, w1) = cancel_before_stop K r (sv_starts sv) (sv_world sv);
            (a, act2, co2, w2) = handle_control K E cfg r (sv_act sv) co1 w1
        in (case a of
              Reply st t \<Rightarrow>
                (let (co3, w3) = (if r = Reload then after_reload K co2 w2 else (co2, w2))
                 in send_reply c st t (sv\<lparr>sv_world := w3, sv_starts := co3, sv_act := act2\<rparr>))
            | StartJob job \<Rightarrow>
                sv\<lparr>sv_world := w2, sv_act := act2,
                   sv_starts := co2\<lparr>co_controls := co_controls co2 @ [job\<lparr>cs_reply := Some c\<rparr>]\<rparr>\<rparr>))"

text \<open>A connection reported by a watcher.\<close>

definition on_connection :: "Kernel \<Rightarrow> UnitName \<Rightarrow> Supervisor \<Rightarrow> Supervisor" where
  "on_connection K u sv =
     (if \<not> exists_unit (sv_man sv) u \<or> path_of (sv_act sv) u = None then sv
      else if sv_boot sv \<noteq> None then sv\<lparr>sv_pending := set_insert u (sv_pending sv)\<rparr>
      else
        let (last1, co1, w1) = try_start_socket K u (sv_last sv) (sv_starts sv) (sv_world sv)
        in sv\<lparr>sv_last := last1, sv_starts := co1, sv_world := w1\<rparr>)"

definition on_event :: "Kernel \<Rightarrow> Config \<Rightarrow> LoopEvent \<Rightarrow> Supervisor \<Rightarrow> Verdict" where
  "on_event K cfg e sv = (case e of
      SigChild \<Rightarrow> Stay sv
    | SigTerm \<Rightarrow> Leave sv
    | SigInt \<Rightarrow> Leave sv
    | SigPwr \<Rightarrow> Leave (sv\<lparr>sv_fast := True\<rparr>)
    | Notified u msg \<Rightarrow> Stay (sv\<lparr>sv_world := snd (on_man (on_notify K u msg) (sv_world sv))\<rparr>)
    | Requested E r c \<Rightarrow>
        (case requested_action r of
           None \<Rightarrow> Stay (answer_request K cfg E r c sv)
         | Some a \<Rightarrow> Leave (answer_request K cfg E r c (sv\<lparr>sv_action := a\<rparr>)))
    | Connected \<Rightarrow>
        (case sv_ready sv of
           [] \<Rightarrow> Stay sv
         | u # us \<Rightarrow> Stay (on_connection K u (sv\<lparr>sv_ready := us\<rparr>)))
    | Elapsed \<Rightarrow> Stay sv)"

section \<open>Shutdown\<close>

fun stop_all :: "Kernel \<Rightarrow> UnitName list \<Rightarrow> World \<Rightarrow> World" where
  "stop_all K [] w = w"
| "stop_all K (u # us) w =
     (let (effect, w1) = on_man (request_stop K u ShutdownStop) w;
          (_, w2) = on_man (apply_effect K u effect) w1
      in stop_all K us w2)"

text \<open>From the end of the loop to the wait for the processes.\<close>

definition begin_shutdown :: "Kernel \<Rightarrow> Supervisor \<Rightarrow> Supervisor" where
  "begin_shutdown K sv =
     (let (co1, w1) = coord_shutdown K (sv_starts sv) (sv_world sv);
          m1 = (if sv_fast sv then compress_stop_timeouts FAST_STOP_SECS (w_man w1) else w_man w1);
          w2 = stop_all K (shutdown_order m1) (w1\<lparr>w_man := m1\<rparr>);
          (hub, tr) = disarm_all K (w_hub w2) (w_tr w2)
      in sv\<lparr>sv_starts := co1, sv_world := w2\<lparr>w_hub := hub, w_tr := tr\<rparr>\<rparr>)"

definition late :: "Kernel \<Rightarrow> instant option \<Rightarrow> trace \<Rightarrow> bool \<times> trace" where
  "late K give_up tr = (case give_up of
      None \<Rightarrow> (False, tr) | Some at \<Rightarrow> (let (now, tr1) = read_clock K tr in (at \<le> now, tr1)))"

text \<open>The loop, one list of reaped children per round; \<open>None\<close> when the rounds are used up and it still waits.\<close>

fun reap_rounds :: "Kernel \<Rightarrow> instant option \<Rightarrow> ChildExit list list \<Rightarrow> Watchdog \<Rightarrow> UnitManager \<Rightarrow> trace
    \<Rightarrow> (Watchdog \<times> UnitManager \<times> trace) option" where
  "reap_rounds K give_up [] wd m tr = None"
| "reap_rounds K give_up (evs # rounds) wd m tr =
     (let (wd1, tr1) = feed_if_due K wd tr;
          (_, m1, tr2) = reap_into_manager K evs m tr1
      in if running_count m1 = 0 then Some (wd1, m1, tr2)
         else
           let (killed, m2, tr3) = due_kills K m1 tr2; (over, tr4) = late K give_up tr3
           in if over then Some (wd1, m2, tr4)
              else
                let (wait, tr5) = next_kill_in K m2 tr4
                in if wait = None \<and> killed = [] then Some (wd1, m2, tr5)
                   else reap_rounds K give_up rounds wd1 m2 tr5)"

definition stop_and_reap :: "Kernel \<Rightarrow> duration option \<Rightarrow> ChildExit list list \<Rightarrow> Watchdog \<Rightarrow> UnitManager \<Rightarrow> trace
    \<Rightarrow> (Watchdog \<times> UnitManager \<times> trace) option" where
  "stop_and_reap K budget rounds wd m tr = (case budget of
      None \<Rightarrow> reap_rounds K None rounds wd m tr
    | Some d \<Rightarrow> (let (at, tr1) = after_duration K d tr in reap_rounds K (Some at) rounds wd m tr1))"

definition shutdown_budget :: "Supervisor \<Rightarrow> duration option" where
  "shutdown_budget sv = (if sv_fast sv then Some FAST_SHUTDOWN_BUDGET else None)"

definition finish_shutdown :: "Kernel \<Rightarrow> ChildExit list list \<Rightarrow> Supervisor \<Rightarrow> Supervisor option" where
  "finish_shutdown K rounds sv =
     map_option (\<lambda>(wd, m, tr). sv\<lparr>sv_watchdog := wd, sv_world := (sv_world sv)\<lparr>w_man := m, w_tr := tr\<rparr>\<rparr>)
       (stop_and_reap K (shutdown_budget sv) rounds (sv_watchdog sv) (sv_man sv) (w_tr (sv_world sv)))"

section \<open>The loop\<close>

text \<open>What a watcher does while the loop waits; a turn it cannot take changes nothing.\<close>

datatype WatchTurn = TakePermit UnitName | ReportReady UnitName

definition watch_turn :: "Supervisor \<Rightarrow> WatchTurn \<Rightarrow> Supervisor" where
  "watch_turn sv t = (case t of
      TakePermit u \<Rightarrow> (case watch_take u (sv_act sv) of None \<Rightarrow> sv | Some act \<Rightarrow> sv\<lparr>sv_act := act\<rparr>)
    | ReportReady u \<Rightarrow> (case watch_report u (sv_act sv) of
          None \<Rightarrow> sv | Some act \<Rightarrow> sv\<lparr>sv_act := act, sv_ready := sv_ready sv @ [u]\<rparr>))"

text \<open>One pass of the loop: the children reaped at its top, the clients gone, the watchers, the event.\<close>

record LoopTurn =
  tu_reaped :: "ChildExit list"
  tu_closed :: "client \<Rightarrow> bool"
  tu_watch :: "WatchTurn list"
  tu_event :: LoopEvent

definition supervise_turn :: "Kernel \<Rightarrow> Config \<Rightarrow> LoopTurn \<Rightarrow> Supervisor \<Rightarrow> Verdict" where
  "supervise_turn K cfg t sv =
     (let sv1 = snd (supervise_round K (tu_reaped t) (tu_closed t) sv)
      in on_event K cfg (tu_event t) (foldl watch_turn sv1 (tu_watch t)))"

text \<open>\<open>None\<close> while the loop has not been left.\<close>

fun supervise_loop :: "Kernel \<Rightarrow> Config \<Rightarrow> LoopTurn list \<Rightarrow> Supervisor \<Rightarrow> Supervisor option" where
  "supervise_loop K cfg [] sv = None"
| "supervise_loop K cfg (t # ts) sv = (case supervise_turn K cfg t sv of
      Stay sv1 \<Rightarrow> supervise_loop K cfg ts sv1
    | Leave sv1 \<Rightarrow> Some sv1)"

definition supervise :: "Kernel \<Rightarrow> Config \<Rightarrow> LoopTurn list \<Rightarrow> ChildExit list list \<Rightarrow> Supervisor
    \<Rightarrow> (ShutdownAction \<times> Supervisor) option" where
  "supervise K cfg turns rounds sv = (case supervise_loop K cfg turns sv of
      None \<Rightarrow> None
    | Some sv1 \<Rightarrow> map_option (\<lambda>sv2. (sv_action sv2, sv2)) (finish_shutdown K rounds (begin_shutdown K sv1)))"

section \<open>The start of the loop\<close>

definition supervise_start :: "Kernel \<Rightarrow> Config \<Rightarrow> BootPlan \<Rightarrow> Cgroup \<Rightarrow> NotifyHub \<Rightarrow> instant \<Rightarrow> trace \<Rightarrow> Supervisor" where
  "supervise_start K cfg plan cg hub started tr =
     (let (m, act, tr1) = prepare_units K plan cg activation_disabled tr;
          (wd, tr2) = watchdog_prepare K (skip_mounts cfg) (watchdog_device cfg) (watchdog_timeout_sec cfg) tr1
      in \<lparr>sv_world = \<lparr>w_man = m, w_hub = hub, w_aux = [], w_tr = tr2\<rparr>, sv_starts = coordinator_default,
          sv_boot = Some (boot_new plan started), sv_act = act, sv_ready = [], sv_last = [], sv_pending = [],
          sv_watchdog = wd, sv_fast = False, sv_action = ActReboot, sv_replies = []\<rparr>)"

end
