(* ===== verification/Supervise_Props.thy ===== *)
theory Supervise_Props
  imports Supervise
begin

text \<open>
  What the supervisor keeps through every round and every event: the locale \<open>round_client\<close> lists the
  calls of a round; a predicate on the manager that survives each of them survives the whole loop. The
  consistency of the manager and the ownership of the listening sockets are the two instances.
\<close>

section \<open>Rounds\<close>

definition boot_ok :: "Boot \<Rightarrow> bool" where
  "boot_ok b \<longleftrightarrow> plan_ok (b_plan b) \<and> (\<forall>u \<in> set (b_targets b). unit_type u = Target)"

lemma level_targets_ok: "plan_ok plan \<Longrightarrow> u \<in> set (level_targets plan l) \<Longrightarrow> unit_type u = Target"
  by (auto simp: level_targets_def plan_ok_def config_for_def is_target_def dest: config_of_SomeD split: option.splits)

lemma boot_ok_begin_level: "boot_ok b \<Longrightarrow> boot_ok (fst (begin_level K l b co w))"
  by (auto simp: boot_ok_def begin_level_def case_prod_beta Let_def dest: level_targets_ok)

lemma boot_ok_settle: "boot_ok b \<Longrightarrow> boot_ok (fst (snd (settle_pending K flows b w)))"
  by (simp add: boot_ok_def)

lemma boot_ok_record: "boot_ok (fst (record_spawned K us b tr)) = boot_ok b"
  by (induction us arbitrary: b tr) (simp_all add: Let_def case_prod_beta boot_ok_def)

lemma boot_ok_new: "plan_ok plan \<Longrightarrow> boot_ok (boot_new plan t)"
  by (simp add: boot_ok_def boot_new_def)

lemma supervise_round_parts:
  obtains outs w1 spawned co1 w2 boot1 co2 w3 acts1 co3 w4 act1 tr5 wd1 tr6 co4 w7 d w8 n w9 p where
    "coord_reap K evs (sv_starts sv) (sv_world sv) = (outs, w1)"
    "coord_advance K closed (sv_starts sv) w1 = (spawned, co1, w2)"
    "boot_round K spawned (sv_boot sv) co1 w2 = (boot1, co2, w3)"
    "(if boot1 = None \<and> sv_pending sv \<noteq> []
      then start_sockets K (sv_pending sv) (sv_last sv) co2 w3 else (sv_last sv, co2, w3)) = (acts1, co3, w4)"
    "sync_socket_activation K (w_man w4) (co_flows co3) acts1 (boot1 \<noteq> None) p (sv_act sv) (w_tr w4) = (act1, tr5)"
    "feed_if_due K (sv_watchdog sv) tr5 = (wd1, tr6)"
    "timers_round K co3 (w4\<lparr>w_tr := tr6\<rparr>) = (co4, w7)"
    "on_tr (next_deadline K (w_man w7)) w7 = (d, w8)" "on_tr (next_feed_in K wd1) w8 = (n, w9)"
    "snd (supervise_round K evs closed sv) = sv\<lparr>sv_world := w9, sv_starts := co4, sv_boot := boot1,
      sv_act := act1, sv_last := acts1, sv_pending := p, sv_watchdog := wd1\<rparr>"
proof -
  obtain outs w1 where e1: "coord_reap K evs (sv_starts sv) (sv_world sv) = (outs, w1)" by fastforce
  obtain spawned co1 w2 where e2: "coord_advance K closed (sv_starts sv) w1 = (spawned, co1, w2)" by (metis prod_cases3)
  obtain boot1 co2 w3 where e3: "boot_round K spawned (sv_boot sv) co1 w2 = (boot1, co2, w3)" by (metis prod_cases3)
  obtain acts1 co3 w4 where e4: "(if boot1 = None \<and> sv_pending sv \<noteq> []
      then start_sockets K (sv_pending sv) (sv_last sv) co2 w3 else (sv_last sv, co2, w3)) = (acts1, co3, w4)"
    by (metis prod_cases3)
  define p where "p = (if boot1 = None then [] else sv_pending sv)"
  obtain act1 tr5 where e5: "sync_socket_activation K (w_man w4) (co_flows co3) acts1 (boot1 \<noteq> None) p (sv_act sv) (w_tr w4)
      = (act1, tr5)" by fastforce
  obtain wd1 tr6 where e6: "feed_if_due K (sv_watchdog sv) tr5 = (wd1, tr6)" by fastforce
  obtain co4 w7 where e7: "timers_round K co3 (w4\<lparr>w_tr := tr6\<rparr>) = (co4, w7)" by fastforce
  obtain d w8 where e8: "on_tr (next_deadline K (w_man w7)) w7 = (d, w8)" by fastforce
  obtain n w9 where e9: "on_tr (next_feed_in K wd1) w8 = (n, w9)" by fastforce
  have "snd (supervise_round K evs closed sv) = sv\<lparr>sv_world := w9, sv_starts := co4, sv_boot := boot1,
      sv_act := act1, sv_last := acts1, sv_pending := p, sv_watchdog := wd1\<rparr>"
    using e5 unfolding p_def by (simp add: supervise_round_def e1 e2 e3 e4 e6 e7 e8 e9)
  from that [OF e1 e2 e3 e4 e5 e6 e7 e8 e9 this] show thesis .
qed

locale round_client = start_client +
  assumes good_restarts: "good m tr \<Longrightarrow> good (fst (snd (due_restarts K m tr))) (snd (snd (due_restarts K m tr)))"
    and good_queued: "good m tr \<Longrightarrow> good (fst (snd (due_queued_starts K m tr))) (snd (snd (due_queued_starts K m tr)))"
    and good_start_timeouts: "good m tr \<Longrightarrow> good (fst (snd (due_start_timeouts K m tr))) (snd (snd (due_start_timeouts K m tr)))"
    and good_kills: "good m tr \<Longrightarrow> good (fst (snd (due_kills K m tr))) (snd (snd (due_kills K m tr)))"
    and good_probes: "good m tr \<Longrightarrow> good (fst (snd (due_health_probes K m tr))) (snd (snd (due_health_probes K m tr)))"
    and good_probe_timeouts: "good m tr \<Longrightarrow> good (fst (snd (due_probe_timeouts K m tr))) (snd (snd (due_probe_timeouts K m tr)))"
    and good_idle: "good m tr \<Longrightarrow> good (fst (snd (due_idle_units K m tr))) (snd (snd (due_idle_units K m tr)))"
    and good_note: "good m tr \<Longrightarrow> good (fst (note_connection K u m tr)) (snd (note_connection K u m tr))"
    and good_reach: "unit_type u = Target \<Longrightarrow> good m tr \<Longrightarrow>
      good (fst (snd (reach_target K u m tr))) (snd (snd (reach_target K u m tr)))"
    and good_finish: "good m tr \<Longrightarrow> good (finish_boot m) tr"
begin

lemma world_begin_each: "world_good good w \<Longrightarrow> world_good good (snd (begin_each K us co w))"
  by (induction us arbitrary: co w) (auto simp: case_prod_beta Let_def world_coord_small(1))

lemma world_request_stop: "world_good good w \<Longrightarrow> world_good good (snd (on_man (request_stop K u src) w))"
  by (rule world_on_man) (simp_all add: request_stop_def good_request)

lemma world_apply_effect: "world_good good w \<Longrightarrow> world_good good (snd (on_man (apply_effect K u e) w))"
  by (rule world_on_man) (auto simp: apply_effect_def good_stop_unit split: option.split Effect.split)

lemma world_stop_idle: "world_good good w \<Longrightarrow> world_good good (snd (stop_idle K us co w))"
  by (induction us arbitrary: co w)
    (simp_all add: case_prod_beta Let_def world_apply_effect world_request_stop world_coord_small(3))

lemmas world_due =
  world_on_man [OF good_restarts] world_on_man [OF good_queued] world_on_man [OF good_start_timeouts]
  world_on_man [OF good_kills] world_on_man [OF good_probes] world_on_man [OF good_probe_timeouts]
  world_on_man [OF good_idle]

lemma world_timers_round: "world_good good w \<Longrightarrow> world_good good (snd (timers_round K co w))"
  by (simp add: timers_round_def case_prod_beta Let_def world_due world_begin_each world_stop_idle)

lemma good_record: "good m tr \<Longrightarrow> good m (snd (record_spawned K us b tr))"
  by (induction us arbitrary: b tr)
    (simp_all add: Let_def case_prod_beta uptime_ms_def read_text_def good_call split: option.split sum.split)

lemma world_begin_entry: "world_good good w \<Longrightarrow> world_good good (snd (snd (begin_entry K u co w)))"
  by (simp add: begin_entry_def case_prod_beta Let_def world_request_start world_coord_small(2) start_sources split: option.split)

lemma world_begin_entries: "world_good good w \<Longrightarrow> world_good good (snd (snd (begin_entries K us p co w)))"
  by (induction us arbitrary: p co w) (simp_all add: case_prod_beta Let_def world_begin_entry)

lemma world_begin_level: "world_good good w \<Longrightarrow> world_good good (snd (snd (begin_level K l b co w)))"
  by (simp add: begin_level_def case_prod_beta Let_def world_begin_entries)

lemma world_settle_each: "world_good good w \<Longrightarrow> world_good good (snd (settle_each K plan flows us w))"
proof (induction us arbitrary: w)
  case (Cons u us)
  have "world_good good (snd (settle_one K plan u w))"
    using Cons.prems by (simp add: settle_one_def Let_def world_fail_unit split: option.split UnitState.split)
  with Cons show ?case by (simp add: case_prod_beta Let_def)
qed simp

lemma world_reach: "unit_type u = Target \<Longrightarrow> world_good good w \<Longrightarrow> world_good good (snd (on_man (reach_target K u) w))"
  by (rule world_on_man [OF good_reach])

lemma world_settle_targets:
  "world_good good w \<Longrightarrow> \<forall>u \<in> set us. unit_type u = Target \<Longrightarrow> world_good good (settle_targets K us w)"
  by (induction us arbitrary: w) (simp_all add: world_reach)

lemma world_current_level:
  assumes "current_level K b co w = Some (b1, co1, w1)" "world_good good w" "boot_ok b"
  shows "world_good good w1 \<and> boot_ok b1"
  using assms world_begin_level [OF assms(2), of "bp_levels (b_plan b) ! b_level b" b co]
    boot_ok_begin_level [OF assms(3), of K "bp_levels (b_plan b) ! b_level b" co w]
  by (auto simp: current_level_def split: if_splits)

lemma world_boot_loop:
  "world_good good w \<Longrightarrow> boot_ok b \<Longrightarrow>
     world_good good (snd (snd (boot_loop K b co w))) \<and> boot_ok (fst (boot_loop K b co w))"
proof (induction "boot_left b" arbitrary: b co w rule: less_induct)
  case less
  show ?case
  proof (cases "current_level K b co w")
    case None
    then show ?thesis
      using less.prems by (subst (1 2) boot_loop.simps) (simp add: boot_finish_def world_clock boot_ok_def)
  next
    case (Some t)
    obtain b1 co1 w1 where t: "current_level K b co w = Some (b1, co1, w1)" using Some by (cases t) auto
    obtain settled b2 w2 where s: "settle_pending K (co_flows co1) b1 w1 = (settled, b2, w2)" by (metis prod_cases3)
    have g1: "world_good good w1" "boot_ok b1" using world_current_level [OF t less.prems] by auto
    have g2: "world_good good w2" "boot_ok b2"
      using world_settle_each [OF g1(1)] boot_ok_settle [OF g1(2), of K "co_flows co1" w1] s
      by (auto simp: settle_pending_def case_prod_beta Let_def)
    have g3: "boot_ok (next_level b2)" using g2(2) by (simp add: boot_ok_def next_level_def)
    have "world_good good (settle_targets K (b_targets b2) w2)"
      using g2 by (simp add: world_settle_targets boot_ok_def)
    from less.hyps [OF boot_left_descends [OF t s] this g3] g2 show ?thesis
      by (subst (1 2) boot_loop.simps) (simp add: t s split: bool.split)
  qed
qed

lemma world_boot_advance:
  assumes "world_good good w" "boot_ok b"
  shows "world_good good (snd (snd (boot_advance K us b co w))) \<and> boot_ok (fst (boot_advance K us b co w))"
proof -
  have "world_good good (w\<lparr>w_tr := snd (record_spawned K us b (w_tr w))\<rparr>)"
    using assms(1) by (simp add: world_good_def good_record)
  then show ?thesis
    using assms(2) world_boot_loop boot_ok_record [of K us b "w_tr w"]
    by (simp add: boot_advance_def case_prod_beta Let_def)
qed

lemma world_boot_round:
  assumes "world_good good w" "pred_option boot_ok boot"
  shows "world_good good (snd (snd (boot_round K us boot co w)))
    \<and> pred_option boot_ok (fst (boot_round K us boot co w))"
proof (cases boot)
  case (Some b)
  have "world_good good (v\<lparr>w_man := finish_boot (w_man v)\<rparr>)" if "world_good good v" for v
    using that by (simp add: world_good_def good_finish)
  with Some assms world_boot_advance [OF assms(1), of b us co] show ?thesis
    by (simp add: boot_round_def case_prod_beta Let_def)
qed (use assms in \<open>simp add: boot_round_def\<close>)

lemma good_since: "good m tr \<Longrightarrow> good m (snd (since K acts u tr))"
  by (simp add: since_def read_clock_def good_call split: option.split)

lemma world_try_start_socket: "world_good good w \<Longrightarrow> world_good good (snd (snd (try_start_socket K u acts co w)))"
proof -
  assume w: "world_good good w"
  then have "world_good good (snd (on_man (\<lambda>m tr. ((), note_connection K u m tr)) w))"
    by (rule world_on_man [rotated]) (simp add: good_note)
  from world_on_tr [OF good_since this] show ?thesis
    by (auto simp: try_start_socket_def case_prod_beta Let_def split: option.split
        intro!: world_clock world_start_async)
qed

lemma world_start_sockets: "world_good good w \<Longrightarrow> world_good good (snd (snd (start_sockets K us acts co w)))"
  by (induction us arbitrary: acts co w) (simp_all add: case_prod_beta Let_def world_try_start_socket)

lemma good_sync_one: "good m' tr \<Longrightarrow> good m' (snd (sync_one K m flows acts ba p u act tr))"
  by (simp add: sync_one_def Let_def case_prod_beta good_since split: option.split)

lemma good_sync: "good m' tr \<Longrightarrow> good m' (snd (sync_socket_activation K m flows acts ba p act tr))"
proof -
  have "good m' tr \<Longrightarrow> good m' (snd (sync_each K m flows acts ba p us act tr))" for us tr act
    by (induction us arbitrary: act tr) (simp_all add: case_prod_beta Let_def good_sync_one)
  then show "good m' tr \<Longrightarrow> ?thesis" by (simp add: sync_socket_activation_def)
qed

lemma good_feed: "good m tr \<Longrightarrow> good m (snd (feed_if_due K wd tr))"
  by (simp add: feed_if_due_def read_clock_def wd_feed_def wd_write_def Let_def good_call)

lemma world_waits:
  "world_good good w \<Longrightarrow> world_good good (snd (on_tr (next_deadline K m) w))"
  "world_good good w \<Longrightarrow> world_good good (snd (on_tr (next_feed_in K wd) w))"
  by (auto intro!: world_on_tr simp: next_deadline_def next_deadline_in_def next_feed_in_def read_clock_def
      case_prod_beta Let_def good_call)

lemma world_sync_feed:
  "world_good good w \<Longrightarrow> world_good good (w\<lparr>w_tr := snd (feed_if_due K wd
     (snd (sync_socket_activation K m flows acts ba p act (w_tr w))))\<rparr>)"
  by (simp add: world_good_def good_sync good_feed)

lemma world_pending_sockets:
  "world_good good w \<Longrightarrow> world_good good (snd (snd (if c then start_sockets K us acts co w else (acts', co', w))))"
  by (simp add: world_start_sockets)

lemma world_supervise_round:
  assumes "world_good good (sv_world sv)" "pred_option boot_ok (sv_boot sv)"
  shows "world_good good (sv_world (snd (supervise_round K evs closed sv)))
    \<and> pred_option boot_ok (sv_boot (snd (supervise_round K evs closed sv)))"
proof -
  obtain outs w1 spawned co1 w2 boot1 co2 w3 acts1 co3 w4 act1 tr5 wd1 tr6 co4 w7 d w8 n w9 p where
    e: "coord_reap K evs (sv_starts sv) (sv_world sv) = (outs, w1)"
      "coord_advance K closed (sv_starts sv) w1 = (spawned, co1, w2)"
      "boot_round K spawned (sv_boot sv) co1 w2 = (boot1, co2, w3)"
      "(if boot1 = None \<and> sv_pending sv \<noteq> []
        then start_sockets K (sv_pending sv) (sv_last sv) co2 w3 else (sv_last sv, co2, w3)) = (acts1, co3, w4)"
      "sync_socket_activation K (w_man w4) (co_flows co3) acts1 (boot1 \<noteq> None) p (sv_act sv) (w_tr w4) = (act1, tr5)"
      "feed_if_due K (sv_watchdog sv) tr5 = (wd1, tr6)"
      "timers_round K co3 (w4\<lparr>w_tr := tr6\<rparr>) = (co4, w7)"
      "on_tr (next_deadline K (w_man w7)) w7 = (d, w8)" "on_tr (next_feed_in K wd1) w8 = (n, w9)"
    and r: "snd (supervise_round K evs closed sv) = sv\<lparr>sv_world := w9, sv_starts := co4, sv_boot := boot1,
      sv_act := act1, sv_last := acts1, sv_pending := p, sv_watchdog := wd1\<rparr>"
    by (rule supervise_round_parts)
  have w2: "world_good good w2"
    using world_coord_advance [OF world_coord_reap [OF assms(1)], of closed "sv_starts sv" evs "sv_starts sv"] e(1) e(2)
    by simp
  have w3: "world_good good w3" "pred_option boot_ok boot1"
    using world_boot_round [OF w2 assms(2), of spawned co1] e(3) by simp_all
  have w4: "world_good good w4" using world_start_sockets [OF w3(1), of "sv_pending sv" "sv_last sv" co2] w3(1) e(4)
    by (auto split: if_splits)
  have "world_good good (w4\<lparr>w_tr := tr6\<rparr>)"
    using world_sync_feed [OF w4, of "sv_watchdog sv" "w_man w4" "co_flows co3" acts1 "boot1 \<noteq> None" p "sv_act sv"] e(5) e(6) by simp
  from world_timers_round [OF this, of co3] e(7) have "world_good good w7" by simp
  from world_waits(2) [OF world_waits(1) [OF this, of "w_man w7"], of wd1] have "world_good good w9"
    using e(8) e(9) by simp
  with r w3(2) show ?thesis by simp
qed

lemma world_stop_all: "world_good good w \<Longrightarrow> world_good good (stop_all K us w)"
  by (induction us arbitrary: w) (simp_all add: case_prod_beta Let_def world_apply_effect world_request_stop)

end

interpretation loop: round_client K sound_state for K
proof unfold_locales
  fix u m tr
  assume "unit_type u = Target" "sound_state m tr"
  then show "sound_state (fst (snd (reach_target K u m tr))) (snd (snd (reach_target K u m tr)))"
    using reach_target_inv [of True m tr u K] wf_manager_at [of True m u]
    by (auto simp: sound_state_def unit_ok_def config_for_def is_target_def)
qed (simp_all add: sound_state_def timers_inv [where late = True] due_queued_starts_inv [where late = True]
    note_connection_inv [where late = True] finish_boot_def)

section \<open>The listening sockets\<close>

lemma listen_frame [simp]:
  "listen_fds (upd_unit u f m) = listen_fds m" "listen_fds (invalidate_graph m) = listen_fds m"
  by (simp_all add: upd_unit_def invalidate_graph_def)

lemma listen_with_unit [simp]: "listen_fds (fst (with_unit_rt u f m tr)) = listen_fds m"
  by (simp add: with_unit_rt_def case_prod_beta split: option.split)

lemma listen_stop_unit [simp]: "listen_fds (fst (stop_unit K u m tr)) = listen_fds m"
  by (simp add: stop_unit_def)

lemma listen_instantiate: "instantiate u m = Inr m' \<Longrightarrow> listen_fds m' = listen_fds m"
  by (auto simp: instantiate_def split: option.splits sum.splits)

lemma listen_request_parts [simp]:
  "listen_fds (forget_spent_target u m) = listen_fds m" "listen_fds (apply_none_transition u m) = listen_fds m"
  "listen_fds (queue_behind_stop u t src e m) = listen_fds m"
  by (simp_all add: forget_spent_target_def apply_none_transition_def queue_behind_stop_def
      split: option.split JobTarget.split)

lemma listen_request [simp]: "listen_fds (fst (snd (request K u t src m tr))) = listen_fds m"
  by (auto simp: request_def ensure_unit_def case_prod_beta Let_def listen_instantiate split: option.split sum.split)

lemma listen_stop_each [simp]: "listen_fds (fst (snd (stop_each K vs m tr))) = listen_fds m"
  by (induction vs arbitrary: m tr) (simp_all add: case_prod_beta Let_def request_stop_def)

lemma listen_fail_dependents: "listen_fds (fst (fail_dependents ds (m, vis, failed, queue))) = listen_fds m"
  by (induction ds arbitrary: m vis failed queue) (simp_all add: Let_def split: option.split)

lemma listen_fail_loop [simp]: "listen_fds (snd (fail_loop m vis failed queue)) = listen_fds m"
proof (induction m vis failed queue rule: fail_loop.induct)
  case (2 m vis failed current queue)
  then show ?case
    using listen_fail_dependents [of "requires_dependents m current" m vis failed queue]
    by (subst fail_loop.simps(2)) (auto split: prod.split)
qed (simp add: fail_loop.simps)

lemma listen_fail_start [simp]: "listen_fds (fst (snd (fail_start K u m tr))) = listen_fds m"
  by (simp add: fail_start_def Let_def case_prod_beta)

lemma listen_begin_spawn [simp]: "listen_fds (fst (snd (begin_spawn_unit K u ex out lf m tr))) = listen_fds m"
  by (simp add: begin_spawn_unit_def case_prod_beta Let_def split: option.split sum.split)

lemma listen_start_order [simp]: "listen_fds (snd (start_order m u)) = listen_fds m"
  by (auto simp: start_order_def cached_graph_def Let_def split: sum.split option.split prod.split)

lemma listen_run_sweep [simp]: "listen_fds (fst (snd (run_sweep f m tr))) = listen_fds m"
  by (simp add: run_sweep_def case_prod_beta Let_def)

lemma listen_release [simp]: "listen_fds (fst (snd (release_queued K qs m tr))) = listen_fds m"
  by (induction qs arbitrary: m tr) (auto simp: case_prod_beta Let_def)

lemma listen_reach_target [simp]: "listen_fds (fst (snd (reach_target K u m tr))) = listen_fds m"
  by (simp add: reach_target_def case_prod_beta Let_def split: option.split)

lemma listen_schedule_restart [simp]: "listen_fds (fst (snd (schedule_restart K u now m tr))) = listen_fds m"
  by (simp add: schedule_restart_def case_prod_beta Let_def split: option.split)

lemma listen_after_exit [simp]: "listen_fds (fst (snd (after_exit K u now outcome rt s m tr))) = listen_fds m"
  by (simp add: after_exit_def rest_after_exit_def case_prod_beta Let_def split: Outcome.split)

lemma listen_main_exit [simp]: "listen_fds (fst (snd (main_exit K u p outcome rt m tr))) = listen_fds m"
  by (simp add: main_exit_def case_prod_beta Let_def split: sum.split)

lemma listen_child_exit [simp]: "listen_fds (fst (snd (on_child_exit K p outcome m tr))) = listen_fds m"
  by (simp add: on_child_exit_def exec_stop_exit_def mark_daemon_started_def case_prod_beta Let_def
      split: option.split sum.split)

lemma listen_reap [simp]: "listen_fds (fst (snd (reap_into_manager K evs m tr))) = listen_fds m"
  by (induction evs arbitrary: m tr) (simp_all add: case_prod_beta Let_def)

interpretation listens: round_client K "\<lambda>m tr. listen_fds m = L" for K L
  by unfold_locales
    (simp_all add: stop_conflicts_def cap_start_deadline_def adopt_pending_config_def clear_start_limit_def
      due_restarts_def due_queued_starts_def due_start_timeouts_def due_kills_def due_health_probes_def
      due_probe_timeouts_def due_idle_units_def note_connection_def finish_boot_def case_prod_beta Let_def
      split: option.split)

text \<open>Every descriptor the manager would hand to a service is the socket rinit holds for that unit.\<close>

definition listeners_held :: "UnitManager \<Rightarrow> Activated \<Rightarrow> bool" where
  "listeners_held m act \<longleftrightarrow> (\<forall>u f. listener_fd m u = Some f \<longrightarrow> held_fd act u = Some f)"

lemma held_rearm [simp]: "held_fd (rearm v act) u = held_fd act u"
  by (simp add: held_fd_def rearm_def map_of_modify option.map_comp comp_def split: option.split)

lemma held_watch:
  "watch_report v act = Some act' \<Longrightarrow> held_fd act' u = held_fd act u"
  "watch_take v act = Some act' \<Longrightarrow> held_fd act' u = held_fd act u"
  by (auto simp: watch_report_def watch_take_def held_fd_def map_of_modify option.map_comp comp_def split: option.splits if_splits)

lemma sync_keeps:
  "held_fd (fst (sync_socket_activation K m flows acts ba p act tr)) u = held_fd act u
   \<and> wf_activated (fst (sync_socket_activation K m flows acts ba p act tr)) = wf_activated act"
proof -
  have one: "fst (sync_one K m flows acts ba p v act tr) \<in> {act, rearm v act}" for v act tr
    by (simp add: sync_one_def Let_def case_prod_beta split: option.split)
  have "held_fd (fst (sync_each K m flows acts ba p us act tr)) u = held_fd act u
     \<and> wf_activated (fst (sync_each K m flows acts ba p us act tr)) = wf_activated act" for us act tr
  proof (induction us arbitrary: act tr)
    case (Cons v us)
    show ?case using Cons one [of v act tr] by (auto simp: case_prod_beta Let_def)
  qed simp
  then show ?thesis by (simp add: sync_socket_activation_def)
qed

lemma round_act:
  "\<exists>m flows acts ba p tr. sv_act (snd (supervise_round K evs closed sv))
     = fst (sync_socket_activation K m flows acts ba p (sv_act sv) tr)"
proof (rule supervise_round_parts [of K evs sv closed], goal_cases)
  case (1 outs w1 spawned co1 w2 boot1 co2 w3 acts1 co3 w4 act1 tr5 wd1 tr6 co4 w7 d w8 n w9 p)
  have "sv_act (snd (supervise_round K evs closed sv))
      = fst (sync_socket_activation K (w_man w4) (co_flows co3) acts1 (boot1 \<noteq> None) p (sv_act sv) (w_tr w4))"
    unfolding 1(10) 1(5) by simp
  then show ?case by blast
qed

section \<open>Reloads and sockets\<close>

lemma listen_retire [simp]: "listen_fds (fst (retire K u m tr)) = listen_fds m"
  by (simp add: retire_def Let_def split: option.split)

lemma listeners_hide:
  "listeners_held (w_man w) act \<Longrightarrow> listeners_held (w_man (snd (hide_unit K u act w))) (fst (hide_unit K u act w))"
  by (auto simp: listeners_held_def hide_unit_def case_prod_beta Let_def listener_fd_def clear_listener_def
      held_fd_def act_remove_def path_of_def split: option.splits if_splits)

lemma listen_stop_gone [simp]: "listen_fds (w_man (snd (snd (stop_gone K u rep w)))) = listen_fds (w_man w)"
  by (simp add: stop_gone_def on_man_def request_stop_def apply_effect_def case_prod_beta Let_def
      split: option.split Effect.split)

lemma act_hide: "wf_activated act \<Longrightarrow> wf_activated (fst (hide_unit K u act w))"
  by (simp add: hide_unit_def case_prod_beta Let_def wf_act_remove)

lemma remove_gone_sockets:
  assumes "listeners_held (w_man w) act" "wf_activated act"
  shows "listeners_held (w_man (snd (snd (snd (remove_gone K plan us rep act w))))) (fst (snd (snd (remove_gone K plan us rep act w))))
    \<and> wf_activated (fst (snd (snd (remove_gone K plan us rep act w))))"
  using assms
proof (induction us arbitrary: rep act w)
  case (Cons u us)
  have "listeners_held (w_man (snd (snd (stop_gone K u rep w)))) act"
    using Cons.prems(1) by (simp add: listeners_held_def listener_fd_def)
  then show ?case
    using Cons by (auto simp: case_prod_beta Let_def listeners_hide act_hide split: option.split prod.split)
qed simp

lemma held_act_bind: "u \<noteq> v \<Longrightarrow> held_fd (fst (snd (act_bind K v path act tr))) u = held_fd act u"
  by (auto simp: act_bind_def held_fd_def split: option.splits sum.splits prod.splits)

lemma held_after_bind: "fst (act_bind K u path act tr) = None \<Longrightarrow> held_fd (fst (snd (act_bind K u path act tr))) u \<noteq> None"
  by (auto simp: act_bind_def held_fd_def path_of_def split: option.splits sum.splits prod.splits if_splits)

lemma listeners_follow:
  assumes "listeners_held m act" "\<And>v. v \<noteq> u \<Longrightarrow> held_fd act' v = held_fd act v"
  shows "listeners_held (case held_fd act' u of None \<Rightarrow> clear_listener u m | Some f \<Rightarrow> set_listener u f m) act'"
  using assms by (auto simp: listeners_held_def listener_fd_def clear_listener_def set_listener_def split: option.split)

lemma listen_as_held_follow:
  "held_fd act u \<noteq> None \<Longrightarrow>
     listen_as_held u act m = (case held_fd act u of None \<Rightarrow> clear_listener u m | Some f \<Rightarrow> set_listener u f m)"
  by (auto simp: listen_as_held_def)

lemma reconcile_sockets:
  assumes "listeners_held m act" "wf_activated act"
  shows "listeners_held (fst (reconcile_socket K c m act tr)) (fst (snd (reconcile_socket K c m act tr)))
    \<and> wf_activated (fst (snd (reconcile_socket K c m act tr)))"
proof (cases "socket_activate c")
  case None
  then show ?thesis
    using assms listeners_follow [OF assms(1), of "cfg_name c" "fst (act_remove (cfg_name c) act tr)"] wf_act_remove [OF assms(2), of "cfg_name c" tr]
    by (auto simp: reconcile_socket_def case_prod_beta Let_def act_remove_def held_fd_def path_of_def split: option.split)
next
  case (Some path)
  let ?u = "cfg_name c" and ?B = "act_bind K (cfg_name c) path act tr"
  show ?thesis
  proof (cases "case path_of act ?u of None \<Rightarrow> False | Some p \<Rightarrow> path_eq p path")
    case True
    then have "held_fd act ?u \<noteq> None" by (auto simp: path_of_def held_fd_def split: option.splits)
    then show ?thesis
      using True Some assms listeners_follow [OF assms(1), of ?u act]
      by (auto simp: reconcile_socket_def Let_def listen_as_held_follow split: option.split)
  next
    case False
    have r: "reconcile_socket K c m act tr =
        (case held_fd (fst (snd ?B)) ?u of None \<Rightarrow> clear_listener ?u m | Some f \<Rightarrow> set_listener ?u f m, snd ?B)"
      using False Some held_after_bind [of K ?u path act tr]
      by (cases ?B) (auto simp: reconcile_socket_def Let_def listen_as_held_def split: option.splits)
    show ?thesis
      using listeners_follow [OF assms(1), of ?u "fst (snd ?B)"] held_act_bind wf_act_bind [OF assms(2)] by (simp add: r)
  qed
qed

lemma listen_add [simp]: "listen_fds (fst (add_with_in_flight c fl m)) = listen_fds m"
  by (simp add: add_with_in_flight_def Let_def split: option.split)

lemma update_units_sockets:
  assumes "listeners_held (w_man w) act" "wf_activated act"
  shows "listeners_held (w_man (snd (snd (update_units K flows cs rep act w)))) (fst (snd (update_units K flows cs rep act w)))
    \<and> wf_activated (fst (snd (update_units K flows cs rep act w)))"
  using assms
proof (induction cs arbitrary: rep act w)
  case (Cons c cs)
  have "listeners_held (fst (add_with_in_flight c (is_starting flows (cfg_name c)) (w_man w))) act"
    using Cons.prems(1) by (simp add: listeners_held_def listener_fd_def)
  from reconcile_sockets [OF this Cons.prems(2)] Cons.IH show ?case
    by (simp add: update_unit_def case_prod_beta Let_def)
qed simp

lemma listen_start_added [simp]: "listen_fds (w_man (snd (snd (start_added K plan us rep co w)))) = listen_fds (w_man w)"
proof (induction us arbitrary: rep co w)
  case (Cons u us)
  have "listen_fds (w_man (snd (snd (start_async K u co w)))) = listen_fds (w_man w)"
    using listens.world_start_async [of "listen_fds (w_man w)" w K u co] by (simp add: world_good_def)
  with Cons show ?case by (simp add: case_prod_beta Let_def)
qed simp

lemma apply_plan_sockets:
  assumes "listeners_held (w_man w) act" "wf_activated act" "sound_world w"
  shows "listeners_held (w_man (snd (snd (snd (apply_plan K plan act co w))))) (fst (snd (apply_plan K plan act co w)))
    \<and> wf_activated (fst (snd (apply_plan K plan act co w)))"
proof -
  let ?m = "w_man w"
  define G where "G = remove_gone K plan (manager_names (fst (prune_retired ?m)))
    (report_default\<lparr>rr_pruned := snd (prune_retired ?m)\<rparr>) act (w\<lparr>w_man := fst (prune_retired ?m)\<rparr>)"
  have "listen_fds (fst (prune_retired ?m)) = listen_fds ?m" by (simp add: prune_retired_def Let_def)
  then have "listeners_held (fst (prune_retired ?m)) act" using assms(1) by (simp add: listeners_held_def listener_fd_def)
  with assms(2) have g: "listeners_held (w_man (snd (snd (snd G)))) (fst (snd (snd G)))" "wf_activated (fst (snd (snd G)))"
    unfolding G_def using remove_gone_sockets [of "w\<lparr>w_man := fst (prune_retired ?m)\<rparr>" act] by simp_all
  have "fst G = None" unfolding G_def using remove_gone_fine [OF sound_prune [OF assms(3)]] by blast
  with update_units_sockets [OF g] show ?thesis
    by (simp add: apply_plan_def case_prod_beta Let_def listeners_held_def listener_fd_def set_shutdown_order_def
        set_templates_def flip: G_def)
qed

section \<open>The loop\<close>

definition sv_inv :: "Supervisor \<Rightarrow> bool" where
  "sv_inv sv \<longleftrightarrow> sound_world (sv_world sv) \<and> pred_option boot_ok (sv_boot sv)
     \<and> wf_activated (sv_act sv) \<and> listeners_held (sv_man sv) (sv_act sv)"

lemma listeners_cong:
  "listen_fds m' = listen_fds m \<Longrightarrow> (\<And>u. held_fd act' u = held_fd act u) \<Longrightarrow> listeners_held m' act' = listeners_held m act"
  by (simp add: listeners_held_def listener_fd_def)

lemma round_inv:
  assumes "sv_inv sv" shows "sv_inv (snd (supervise_round K evs closed sv))"
proof -
  obtain m flows acts ba p tr where act: "sv_act (snd (supervise_round K evs closed sv))
      = fst (sync_socket_activation K m flows acts ba p (sv_act sv) tr)" using round_act by blast
  have "listen_fds (sv_man (snd (supervise_round K evs closed sv))) = listen_fds (sv_man sv)"
    using listens.world_supervise_round [of "listen_fds (sv_man sv)" sv K evs closed] assms
    by (simp add: world_good_def sv_inv_def)
  from listeners_cong [OF this, of "sv_act (snd (supervise_round K evs closed sv))" "sv_act sv"]
  show ?thesis
    using assms loop.world_supervise_round [of sv K evs closed] by (simp add: sv_inv_def act sync_keeps)
qed

lemma listen_control_new [simp]: "listen_fds (fst (snd (control_new K u m tr))) = listen_fds m"
  using listens.world_control_new [of "listen_fds m" "\<lparr>w_man = m, w_hub = h, w_aux = [], w_tr = tr\<rparr>" K u for h]
  by (simp add: world_good_def on_man_def case_prod_beta)

lemma listen_control_start [simp]: "listen_fds (fst (snd (control_start K u m tr))) = listen_fds m"
proof (cases "ensure_startable u m")
  case (Inr m1)
  have "listen_fds m1 = listen_fds m"
    using Inr by (auto simp: ensure_startable_def listen_instantiate split: if_splits sum.splits)
  with listen_control_new [of K u m1 tr] show ?thesis
    by (auto simp: control_start_def Inr split: sum.splits prod.splits simp del: listen_control_new)
qed (simp add: control_start_def)

lemma listen_apply_effect [simp]: "listen_fds (fst (snd (apply_effect K u e m tr))) = listen_fds m"
  by (simp add: apply_effect_def split: option.split Effect.split)

lemma listen_control_stop [simp]: "listen_fds (fst (snd (control_stop K u m tr))) = listen_fds m"
proof -
  obtain e m1 tr1 where r: "request_stop K u UserStop m tr = (e, m1, tr1)" by (metis prod_cases3)
  then have "listen_fds m1 = listen_fds m" using listen_request [of K u Stopped UserStop m tr] by (simp add: request_stop_def)
  then show ?thesis
  proof (cases e)
    case (Some a)
    with \<open>listen_fds m1 = listen_fds m\<close> show ?thesis
      by (cases a) (simp_all add: control_stop_def r case_prod_beta split: option.split)
  qed (simp add: control_stop_def r split: option.split)
qed

lemma listen_control_restart [simp]: "listen_fds (fst (snd (control_restart K u m tr))) = listen_fds m"
proof -
  obtain p m1 tr1 where r: "restart_unit K u m tr = (p, m1, tr1)" by (metis prod_cases3)
  have "listen_fds (fst (snd (restart_unit K u m tr))) = listen_fds m"
    by (simp add: restart_unit_def case_prod_beta Let_def split: option.split)
  with r show ?thesis by (cases p) (simp_all add: control_restart_def)
qed

lemma handle_control_sockets:
  assumes "listeners_held (w_man w) act" "wf_activated act" "sound_world w"
  shows "listeners_held (w_man (snd (snd (snd (handle_control K E cfg r act co w))))) (fst (snd (handle_control K E cfg r act co w)))
    \<and> wf_activated (fst (snd (handle_control K E cfg r act co w)))"
proof (cases "r = Reload")
  case True
  then show ?thesis
    using assms apply_plan_sockets [OF assms]
    by (auto simp: handle_control_def control_reload_def reload_def case_prod_beta Let_def split: sum.split option.split)
next
  case False
  have "listen_fds (w_man (snd (snd (snd (handle_control K E cfg r act co w))))) = listen_fds (w_man w)
      \<and> fst (snd (handle_control K E cfg r act co w)) = act"
    using False
    by (cases r) (auto simp: handle_control_def on_manager_def on_man_def control_reset_def reset_failed_def
        case_prod_beta Let_def split: option.split)
  with assms show ?thesis by (simp add: listeners_held_def listener_fd_def)
qed

lemma listen_coord [simp]:
  "listen_fds (w_man (snd (coord_cancel K u co w))) = listen_fds (w_man w)"
  "listen_fds (w_man (snd (after_reload K co w))) = listen_fds (w_man w)"
  "listen_fds (w_man (snd (snd (try_start_socket K u acts co w)))) = listen_fds (w_man w)"
  using listens.world_coord_small(3,4) [of "listen_fds (w_man w)" w] listens.world_try_start_socket [of "listen_fds (w_man w)" w]
  by (simp_all add: world_good_def)

lemma answer_inv:
  assumes "sv_inv sv" shows "sv_inv (answer_request K cfg E r c sv)"
proof -
  obtain co1 w1 where c: "cancel_before_stop K r (sv_starts sv) (sv_world sv) = (co1, w1)" by fastforce
  obtain a act2 co2 w2 where h: "handle_control K E cfg r (sv_act sv) co1 w1 = (a, act2, co2, w2)" by (metis prod_cases4)
  have "sound_world (snd (cancel_before_stop K r (sv_starts sv) (sv_world sv)))
      \<and> listen_fds (w_man (snd (cancel_before_stop K r (sv_starts sv) (sv_world sv)))) = listen_fds (sv_man sv)"
    using assms by (cases r) (simp_all add: cancel_before_stop_def sv_inv_def sup.world_coord_small(3))
  then have w1: "sound_world w1" "listen_fds (w_man w1) = listen_fds (sv_man sv)" by (simp_all add: c)
  have lh: "listeners_held (w_man w1) (sv_act sv)" using assms w1(2) by (simp add: sv_inv_def listeners_held_def listener_fd_def)
  have w2: "sound_world w2" "listeners_held (w_man w2) act2" "wf_activated act2"
    using sound_handle_control [OF w1(1), of K E cfg r "sv_act sv" co1] handle_control_sockets [OF lh _ w1(1), of K E cfg r co1] assms h
    by (simp_all add: sv_inv_def)
  obtain co3 w3 where e: "(if r = Reload then after_reload K co2 w2 else (co2, w2)) = (co3, w3)" by fastforce
  have "sound_world w3 \<and> listen_fds (w_man w3) = listen_fds (w_man w2)"
    using e w2(1) sup.world_coord_small(4) [OF w2(1), of K co2] listen_coord(2) [of K co2 w2]
    by (cases "r = Reload") (simp_all del: listen_coord)
  then have w3: "sound_world w3" "listeners_held (w_man w3) act2"
    using w2(2) by (simp_all add: listeners_held_def listener_fd_def)
  show ?thesis
    using assms w2 w3 by (cases a) (simp_all add: answer_request_def c h e send_reply_def sv_inv_def)
qed

lemma connection_inv: "sv_inv sv \<Longrightarrow> sv_inv (on_connection K u sv)"
  using loop.world_try_start_socket [of "sv_world sv" K u "sv_last sv" "sv_starts sv"]
  by (auto simp: on_connection_def sv_inv_def case_prod_beta Let_def listeners_held_def listener_fd_def)

lemma notify_inv:
  assumes "sv_inv sv"
  shows "sv_inv (sv\<lparr>sv_world := snd (on_man (on_notify K u msg) (sv_world sv))\<rparr>)"
proof -
  have "listen_fds (fst (snd (on_notify K u msg m tr))) = listen_fds m" for m tr
    by (simp add: on_notify_def case_prod_beta Let_def split: option.split sum.split)
  moreover have "wf_manager (fst (snd (on_notify K u msg (sv_man sv) (w_tr (sv_world sv)))))
      \<and> harmless (snd (snd (on_notify K u msg (sv_man sv) (w_tr (sv_world sv)))))"
    using assms by (intro on_notify_inv) (auto simp: sv_inv_def dest: sound_worldD)
  ultimately show ?thesis
    using assms by (simp add: sv_inv_def on_man_def case_prod_beta Let_def world_good_def sound_state_def
        listeners_held_def listener_fd_def)
qed

fun state_of :: "Verdict \<Rightarrow> Supervisor" where
  "state_of (Stay sv) = sv"
| "state_of (Leave sv) = sv"

lemma sv_inv_frame [simp]:
  "sv_inv (sv\<lparr>sv_fast := b\<rparr>) = sv_inv sv" "sv_inv (sv\<lparr>sv_action := a\<rparr>) = sv_inv sv"
  "sv_inv (sv\<lparr>sv_ready := q\<rparr>) = sv_inv sv"
  by (simp_all add: sv_inv_def)

lemma event_inv:
  assumes "sv_inv sv" shows "sv_inv (state_of (on_event K cfg e sv))"
proof (cases e)
  case (Notified u msg)
  then show ?thesis using notify_inv assms by (simp add: on_event_def)
next
  case (Requested E r c)
  then show ?thesis using assms by (simp add: on_event_def answer_inv split: option.split)
next
  case Connected
  then show ?thesis using assms by (simp add: on_event_def connection_inv split: list.split)
qed (use assms in \<open>simp_all add: on_event_def\<close>)

section \<open>Before the loop\<close>

lemma add_units_inv:
  "wf_manager m \<Longrightarrow> \<forall>c \<in> set cs. config_for (cfg_name c) c \<Longrightarrow> wf_manager (add_units cs m) \<and> listen_fds (add_units cs m) = listen_fds m"
  by (induction cs arbitrary: m) (auto simp: add_unit_def wf_add_with_in_flight)

lemma bind_unit_inv:
  assumes "wf_manager m" "harmless tr" "wf_activated act" "listeners_held m act" "bind_unit K c m act tr = (m', act', tr')"
  shows "wf_manager m' \<and> harmless tr' \<and> wf_activated act' \<and> listeners_held m' act'"
proof (cases "socket_activate c")
  case (Some path)
  let ?u = "cfg_name c" and ?B = "act_bind K (cfg_name c) path act tr"
  have tr1: "harmless (snd (snd ?B))" using assms(2) by simp
  show ?thesis
  proof (cases "fst ?B")
    case None
    with assms(5) Some have m': "m' = (case held_fd (fst (snd ?B)) ?u of None \<Rightarrow> clear_listener ?u m | Some f \<Rightarrow> set_listener ?u f m)"
      "act' = fst (snd ?B)" "tr' = snd (snd ?B)"
      using held_after_bind [OF None] by (cases ?B; auto simp: bind_unit_def split: option.splits)+
    from listeners_follow [OF assms(4), of ?u "fst (snd ?B)"] held_act_bind wf_act_bind [OF assms(3)] tr1 assms(1)
    show ?thesis
      by (auto simp: m' clear_listener_def set_listener_def units_ok_def split: option.split)
  next
    case (Some e)
    with assms(5) \<open>socket_activate c = Some path\<close> act_bind_failed [OF Some]
    have m': "m' = fst (snd (fail_start K ?u m (snd (snd ?B))))" "tr' = snd (snd (fail_start K ?u m (snd (snd ?B))))" "act' = act"
      by (cases ?B; auto simp: bind_unit_def case_prod_beta Let_def)+
    show ?thesis
      using fail_start_inv [OF assms(1) tr1] assms(3,4) by (simp add: m' listeners_held_def listener_fd_def)
  qed
qed (use assms in \<open>simp add: bind_unit_def\<close>)

lemma bind_units_inv:
  assumes "wf_manager m" "harmless tr" "wf_activated act" "listeners_held m act" "bind_units K cs m act tr = (m', act', tr')"
  shows "wf_manager m' \<and> harmless tr' \<and> wf_activated act' \<and> listeners_held m' act'"
  using assms
proof (induction cs arbitrary: m act tr)
  case (Cons c cs)
  obtain m1 act1 tr1 where b: "bind_unit K c m act tr = (m1, act1, tr1)" by (metis prod_cases3)
  with Cons.prems(5) have "bind_units K cs m1 act1 tr1 = (m', act', tr')" by simp
  with Cons.IH [of m1 tr1 act1] bind_unit_inv [OF Cons.prems(1-4) b] show ?case by blast
qed simp

lemma harmless_watchdog_prepare:
  "harmless tr \<Longrightarrow> harmless (snd (watchdog_prepare K dev device secs tr))"
  by (simp add: watchdog_prepare_def watchdog_disabled_def wd_open_def effective_timeout_def wd_set_timeout_def
      wd_timeout_def read_clock_def harmless_def case_prod_beta Let_def split: option.split sum.split)

lemma supervise_start_inv:
  assumes "plan_ok plan" "harmless tr"
  shows "sv_inv (supervise_start K cfg plan cg hub started tr)"
proof -
  define m0 where "m0 = set_cgroup cg (begin_boot (fst (manager_new K tr)))"
  define m1 where "m1 = set_templates (bp_templates plan) (add_units (bp_configs plan) m0)"
  have m0: "wf_manager m0" "listen_fds m0 = []"
    by (simp_all add: m0_def manager_new_def set_cgroup_def begin_boot_def case_prod_beta Let_def units_ok_def
        starts_ok_def target_of_def empty_queue_def)
  have m1: "wf_manager m1" "listen_fds m1 = []"
    using add_units_inv [OF m0(1), of "bp_configs plan"] assms(1) m0(2)
    by (auto simp: m1_def plan_ok_def set_templates_def units_ok_def)
  have tr1: "harmless (snd (manager_new K tr))"
    using assms(2) by (simp add: manager_new_def case_prod_beta Let_def read_clock_def)
  obtain m2 act tr2 where b: "bind_units K (bp_configs plan) m1 activation_disabled (snd (manager_new K tr)) = (m2, act, tr2)"
    by (metis prod_cases3)
  have lh: "listeners_held m1 activation_disabled" using m1(2) by (simp add: listeners_held_def listener_fd_def)
  note inv = bind_units_inv [OF m1(1) tr1 wf_activation_disabled lh b]
  obtain wd tr3 where w: "watchdog_prepare K (skip_mounts cfg) (watchdog_device cfg) (watchdog_timeout_sec cfg) tr2 = (wd, tr3)"
    by fastforce
  have "harmless tr3" using harmless_watchdog_prepare [of tr2 K "skip_mounts cfg"] inv w by (metis snd_conv)
  moreover have "supervise_start K cfg plan cg hub started tr =
     \<lparr>sv_world = \<lparr>w_man = set_shutdown_order (concat (bp_levels plan)) m2, w_hub = hub, w_aux = [], w_tr = tr3\<rparr>,
      sv_starts = coordinator_default, sv_boot = Some (boot_new plan started), sv_act = act, sv_ready = [],
      sv_last = [], sv_pending = [], sv_watchdog = wd, sv_fast = False, sv_action = ActReboot, sv_replies = []\<rparr>"
    using b w by (simp add: supervise_start_def prepare_units_def m1_def m0_def case_prod_beta Let_def)
  ultimately show ?thesis
    using inv boot_ok_new [OF assms(1)]
    by (simp add: sv_inv_def world_good_def sound_state_def set_shutdown_order_def units_ok_def listeners_held_def listener_fd_def)
qed

end
