(* ===== verification/Supervise_Safety.thy ===== *)
theory Supervise_Safety
  imports Supervise_Props
begin

text \<open>
  What holds of the whole supervisor: in every state its loop can reach, whatever the kernel answers and
  in whatever order events arrive; while the boot is in progress; and when it shuts down.
\<close>

section \<open>Every state of the loop\<close>

inductive supervised :: "Kernel \<Rightarrow> Config \<Rightarrow> Supervisor \<Rightarrow> bool" for K cfg where
  "plan_boot D (unit_dir cfg) (default_target cfg) = Inr plan \<Longrightarrow> harmless tr \<Longrightarrow>
     supervised K cfg (supervise_start K cfg plan cg hub started tr)"
| "supervised K cfg sv \<Longrightarrow> supervised K cfg (snd (supervise_round K evs closed sv))"
| "supervised K cfg sv \<Longrightarrow> watch_report u (sv_act sv) = Some act \<Longrightarrow>
     supervised K cfg (sv\<lparr>sv_act := act, sv_ready := sv_ready sv @ [u]\<rparr>)"
| "supervised K cfg sv \<Longrightarrow> watch_take u (sv_act sv) = Some act \<Longrightarrow> supervised K cfg (sv\<lparr>sv_act := act\<rparr>)"
| "supervised K cfg sv \<Longrightarrow> supervised K cfg (state_of (on_event K cfg e sv))"

lemma supervised_inv: "supervised K cfg sv \<Longrightarrow> sv_inv sv"
proof (induction rule: supervised.induct)
  case (1 D plan tr cg hub started)
  then show ?case using plan_boot_ok supervise_start_inv by blast
next
  case (3 sv u act)
  then show ?case
    using wf_watch(1) [OF 3(2)] listeners_cong [of "sv_man sv" "sv_man sv" act "sv_act sv"] held_watch(1) [OF 3(2)]
    by (simp add: sv_inv_def)
next
  case (4 sv u act)
  then show ?case
    using wf_watch(2) [OF 4(2)] listeners_cong [of "sv_man sv" "sv_man sv" act "sv_act sv"] held_watch(2) [OF 4(2)]
    by (simp add: sv_inv_def)
qed (simp_all add: round_inv event_inv)

text \<open>Every state in which the loop is left is one of these.\<close>

lemma supervised_watch: "supervised K cfg sv \<Longrightarrow> supervised K cfg (foldl watch_turn sv ts)"
proof (induction ts arbitrary: sv)
  case (Cons t ts)
  have "supervised K cfg (watch_turn sv t)"
    using Cons.prems by (auto simp: watch_turn_def split: WatchTurn.split option.split intro: supervised.intros(3,4))
  then show ?case by (simp add: Cons.IH)
qed simp

lemma supervised_turn:
  assumes "supervised K cfg sv" shows "supervised K cfg (state_of (supervise_turn K cfg t sv))"
  unfolding supervise_turn_def Let_def by (intro supervised.intros(5) supervised_watch supervised.intros(2) assms)

lemma supervise_loop_supervised:
  "supervised K cfg sv \<Longrightarrow> supervise_loop K cfg ts sv = Some sv' \<Longrightarrow> supervised K cfg sv'"
proof (induction ts arbitrary: sv)
  case (Cons t ts)
  from supervised_turn [OF Cons.prems(1), of t] Cons.IH Cons.prems(2) show ?case
    by (auto split: Verdict.splits)
qed simp

text \<open>
  Property C4. The supervisor keeps its house in order: in every state its loop can reach from a boot,
  through rounds, events, reports of the socket watchers and reloads in any order and for every kernel,
  a unit with a process is a service that is neither failed nor waiting for a restart, a unit without
  one is not starting and, unless it is a target, not active; no \<open>kill\<close> call named process 1, group 0
  or everything; no two units hold a socket at the same path; and a descriptor the manager would pass
  to a service is the one rinit holds for that unit.
\<close>
theorem supervisor_keeps_order:
  assumes "supervised K cfg sv"
  shows "(\<forall>u rt. unit_at (sv_man sv) u = Some rt \<longrightarrow>
        (rt_pid rt \<noteq> None \<longrightarrow> unit_type u = Service \<and> rt_state rt \<noteq> RestartWait \<and> (\<forall>r. rt_state rt \<noteq> Failed r))
        \<and> (rt_pid rt = None \<longrightarrow> rt_state rt \<noteq> Starting \<and> (rt_state rt = Active \<longrightarrow> unit_type u = Target)))
    \<and> (\<forall>p s. Kill p s \<in> set (w_tr (sv_world sv)) \<longrightarrow> p \<notin> {1, - 1, 0})
    \<and> (\<forall>u v p q. path_of (sv_act sv) u = Some p \<longrightarrow> path_of (sv_act sv) v = Some q \<longrightarrow> path_eq p q \<longrightarrow> u = v)
    \<and> (\<forall>u f. listener_fd (sv_man sv) u = Some f \<longrightarrow> held_fd (sv_act sv) u = Some f)"
proof -
  note inv = supervised_inv [OF assms, unfolded sv_inv_def]
  have "consistent True (unit_type u) (rt_state rt) (rt_pid rt)" if "unit_at (sv_man sv) u = Some rt" for u rt
    using wf_manager_at [OF sound_worldD(1) that] inv by (simp add: unit_ok_def)
  then have units: "(rt_pid rt \<noteq> None \<longrightarrow> unit_type u = Service \<and> rt_state rt \<noteq> RestartWait \<and> (\<forall>r. rt_state rt \<noteq> Failed r))
        \<and> (rt_pid rt = None \<longrightarrow> rt_state rt \<noteq> Starting \<and> (rt_state rt = Active \<longrightarrow> unit_type u = Target))"
    if "unit_at (sv_man sv) u = Some rt" for u rt
    using that by (fastforce simp: consistent_def split: if_splits)
  have "harmless (w_tr (sv_world sv))" using inv sound_worldD(2) by blast
  then have "p \<notin> {1, - 1, 0}" if "Kill p s \<in> set (w_tr (sv_world sv))" for p s
    using that by (fastforce simp: harmless_def)
  with units show ?thesis using inv by (simp add: wf_activated_def listeners_held_def)
qed

section \<open>During the boot\<close>

lemma reading_replies:
  "\<exists>st t. status_reply E m u tail = Reply st t" "\<exists>st t. status_formatted_reply E m u tail fmt = Reply st t"
  "\<exists>st t. status_all_reply m fmt = Reply st t"
  by (simp_all add: status_reply_def status_formatted_reply_def status_all_reply_def no_such_unit_def
      split: option.split StatusFormat.split)

text \<open>
  Property C8. The boot schedule runs alone: while it is in progress no request of a client, of any
  kind, and no connection to a socket changes a unit, a start, a socket or the schedule; a request to
  start, stop or restart a unit, to reset its failure or to reload is answered with a conflict.
\<close>
theorem boot_runs_alone:
  assumes "sv_boot sv \<noteq> None" "e = Requested E r c \<or> e = Connected" "sv' = state_of (on_event K cfg e sv)"
  shows "sv_world sv' = sv_world sv \<and> sv_starts sv' = sv_starts sv \<and> sv_act sv' = sv_act sv \<and> sv_boot sv' = sv_boot sv
    \<and> (e = Requested E r c \<longrightarrow> r \<in> {Start u, Request.Stop u, Restart u, ResetFailed u, Reload} \<longrightarrow>
         on_event K cfg e sv = Stay sv' \<and> (\<exists>t. sv_replies sv' = sv_replies sv @ [(c, RConflict, t)]))"
proof (cases "e = Connected")
  case True
  with assms show ?thesis by (auto simp: on_event_def on_connection_def split: list.split)
next
  case False
  with assms(2) have e: "e = Requested E r c" by blast
  show ?thesis
  proof (cases "request_mutates_boot r")
    case True
    then have "requested_action r = None" by (auto simp: requested_action_def request_mutates_boot_def split: Request.splits)
    with True e assms(1,3) show ?thesis by (simp add: on_event_def answer_request_def send_reply_def)
  next
    case False
    have "\<exists>st t. handle_control K E cfg r act co w = (Reply st t, act, co, w)" for act co w
      using False
      by (cases r) (auto simp: handle_control_def request_mutates_boot_def Let_def reading_replies split: option.split)
    then obtain st t where h: "handle_control K E cfg r (sv_act sv) (sv_starts sv) (sv_world sv)
        = (Reply st t, sv_act sv, sv_starts sv, sv_world sv)" by blast
    have c: "cancel_before_stop K r (sv_starts sv) (sv_world sv) = (sv_starts sv, sv_world sv)" "r \<noteq> Reload"
      using False by (auto simp: cancel_before_stop_def request_mutates_boot_def split: Request.splits)
    show ?thesis
      using e assms(1,3) c h False
      by (auto simp: on_event_def answer_request_def send_reply_def request_mutates_boot_def split: option.split)
  qed
qed

section \<open>Shutdown\<close>

lemma feed_grows: "set tr \<subseteq> set (snd (feed_if_due K wd tr))"
  by (auto simp: feed_if_due_def read_clock_def wd_feed_def wd_write_def Let_def)

lemma due_kills_grows: "set tr \<subseteq> set (snd (snd (due_kills K m tr)))"
proof -
  have "set tr \<subseteq> set (snd (snd (sweep (kill_step K (m_cgroup m) (k_now K tr)) (m_units m) ([], Now # tr))))"
    by (rule sweep_state_inv [where P = "\<lambda>s. set tr \<subseteq> set (snd s)"]) (use kill_step_grows in \<open>blast | auto\<close>)+
  then show ?thesis by (simp add: due_kills_def run_sweep_def read_clock_def case_prod_beta Let_def)
qed

lemma due_kills_disarms:
  assumes "\<And>v rt t. (v, rt) \<in> set (m_units m) \<Longrightarrow> kill_at rt = Some t \<Longrightarrow> t \<le> k_now K tr"
    and "(u, rt) \<in> set (m_units (fst (snd (due_kills K m tr))))"
  shows "kill_at rt = None"
proof -
  from assms(2) obtain r s where "(u, r) \<in> set (m_units m)" "rt = fst (kill_step K (m_cgroup m) (k_now K tr) u r s)"
    by (auto simp: due_kills_def run_sweep_def read_clock_def case_prod_beta Let_def dest!: sweep_value)
  with assms(1) [of u r] show ?thesis
    by (cases "kill_at r") (auto simp: kill_step_def passed_def case_prod_beta Let_def split: option.splits if_splits)
qed

lemma sweep_idle: "(\<And>k v s. (k, v) \<in> set xs \<Longrightarrow> f k v s = (v, s)) \<Longrightarrow> sweep f xs s = (xs, s)"
proof (induction xs arbitrary: s)
  case (Cons x xs)
  then show ?case by (cases x) simp
qed simp

text \<open>With no deadline left, nothing is killed and the loop has nothing to wait for.\<close>

lemma no_deadline_left:
  assumes "\<And>u rt. (u, rt) \<in> set (m_units m) \<Longrightarrow> kill_at rt = None"
  shows "due_kills K m tr = ([], m, Now # tr)" "fst (next_kill_in K m tr) = None"
proof -
  have "sweep (kill_step K (m_cgroup m) (k_now K tr)) (m_units m) ([], Now # tr) = (m_units m, [], Now # tr)"
    by (rule sweep_idle) (simp add: kill_step_def passed_def assms)
  then show "due_kills K m tr = ([], m, Now # tr)" by (simp add: due_kills_def run_sweep_def read_clock_def)
  have "concat (map (\<lambda>(_, rt). opt_list (kill_at rt)) (m_units m)) = []"
    using assms by (auto simp: opt_list_def)
  then show "fst (next_kill_in K m tr) = None"
    by (simp add: next_kill_in_def read_clock_def del: concat_eq_Nil_conv)
qed

lemma quiet_round_ends:
  assumes "\<And>u rt. (u, rt) \<in> set (m_units m) \<Longrightarrow> kill_at rt = None"
  shows "reap_rounds K give_up ([] # rounds) wd m tr \<noteq> None"
  using no_deadline_left [OF assms] by (auto simp: case_prod_beta Let_def)

text \<open>
  Property C7. Shutdown never waits for a process that cannot be killed: once every stop timeout has
  expired, the wait ends within two rounds even if no child is ever reaped again, and once the budget of
  a power failure is spent it ends in one, whatever timeouts are left.
\<close>
theorem shutdown_never_hangs:
  assumes "\<And>tr'. set tr \<subseteq> set tr' \<Longrightarrow> T \<le> k_now K tr'"
  shows "((\<forall>u rt t. (u, rt) \<in> set (m_units m) \<longrightarrow> kill_at rt = Some t \<longrightarrow> t \<le> T) \<longrightarrow>
        reap_rounds K give_up [[], []] wd m tr \<noteq> None)
    \<and> (\<forall>at. give_up = Some at \<longrightarrow> at \<le> T \<longrightarrow> reap_rounds K give_up [[]] wd m tr \<noteq> None)"
proof (intro conjI impI allI)
  obtain wd1 tr1 where f: "feed_if_due K wd tr = (wd1, tr1)" by fastforce
  obtain killed m2 tr2 where d: "due_kills K m tr1 = (killed, m2, tr2)" by (metis prod_cases3)
  have grow: "set tr \<subseteq> set tr1" "set tr \<subseteq> set tr2"
    using feed_grows [of tr K wd] due_kills_grows [of tr1 K m] f d by auto
  {
    assume due: "\<forall>u rt t. (u, rt) \<in> set (m_units m) \<longrightarrow> kill_at rt = Some t \<longrightarrow> t \<le> T"
    then have "kill_at rt = None" if "(u, rt) \<in> set (m_units m2)" for u rt
      using due_kills_disarms [of m K tr1 u rt] that d assms [OF grow(1)] by fastforce
    then have "reap_rounds K give_up [[]] wd1 m2 tr' \<noteq> None" for tr' by (rule quiet_round_ends)
    with f d show "reap_rounds K give_up [[], []] wd m tr \<noteq> None"
      by (auto simp: case_prod_beta Let_def simp del: reap_rounds.simps simp: reap_rounds.simps(2) [of K give_up "[]" "[[]]"])
  next
    fix at assume "give_up = Some at" "at \<le> T"
    with f d assms [OF grow(2)] show "reap_rounds K give_up [[]] wd m tr \<noteq> None"
      by (auto simp: late_def read_clock_def)
  }
qed

text \<open>Witnesses.\<close>

abbreviation no_watchdog :: Watchdog where
  "no_watchdog \<equiv> fst (watchdog_disabled calm_kernel [])"

definition demo_started :: "BootPlan \<Rightarrow> Supervisor" where
  "demo_started plan = supervise_start calm_kernel demo_config plan cgroup_disabled (hub_new None) 0 [Now]"

text \<open>One pass of the loop after the start: a child is reaped and \<open>SIGCHLD\<close> taken.\<close>

theorem supervisor_keeps_order_witness:
  "\<exists>plan. plan_boot (demo_dir ''[Unit]'') ''/units'' ''boot.target'' = Inr plan
    \<and> (let sv = state_of (supervise_turn calm_kernel demo_config
           \<lparr>tu_reaped = [Exited 7 0], tu_closed = (\<lambda>_. False), tu_watch = [], tu_event = SigChild\<rparr> (demo_started plan))
       in \<forall>u f. listener_fd (sv_man sv) u = Some f \<longrightarrow> held_fd (sv_act sv) u = Some f)"
proof -
  obtain plan where p: "plan_boot (demo_dir ''[Unit]'') ''/units'' ''boot.target'' = Inr plan" using demo_plan by blast
  have "supervised calm_kernel demo_config (demo_started plan)"
    unfolding demo_started_def
    by (rule supervised.intros(1) [where D = "demo_dir ''[Unit]''"]) (use p in \<open>simp_all add: demo_config_def harmless_def\<close>)
  from supervisor_keeps_order [OF supervised_turn [OF this]] p show ?thesis by (auto simp: Let_def)
qed

theorem boot_runs_alone_witness:
  "\<exists>plan E sv'. on_event calm_kernel demo_config (Requested E (Restart web) 4) (demo_started plan) = Stay sv'
     \<and> sv_boot (demo_started plan) \<noteq> None \<and> sv_world sv' = sv_world (demo_started plan)
     \<and> (\<exists>t. sv_replies sv' = [(4, RConflict, t)])"
proof -
  fix plan E
  have b: "sv_boot (demo_started plan) \<noteq> None" "sv_replies (demo_started plan) = []"
    by (simp_all add: demo_started_def supervise_start_def case_prod_beta Let_def)
  from boot_runs_alone [OF b(1) disjI1 [OF refl] refl,
      where E = E and r = "Restart web" and c = 4 and K = calm_kernel and cfg = demo_config and u = web] b
  show ?thesis by fastforce
qed

definition stuck :: UnitManager where
  "stuck = (w_man fresh_world)\<lparr>m_units :=
     [(web, (runtime_new (new_config web))\<lparr>rt_state := Deactivating, rt_pid := Some 7, kill_at := Some 5\<rparr>)]\<rparr>"

theorem shutdown_never_hangs_witness:
  "reap_rounds (calm_kernel\<lparr>k_now := \<lambda>_. 9\<rparr>) None [[], []] no_watchdog stuck [] \<noteq> None"
proof -
  have "\<And>tr'. set [] \<subseteq> set tr' \<Longrightarrow> 9 \<le> k_now (calm_kernel\<lparr>k_now := \<lambda>_. 9\<rparr>) tr'" by simp
  from shutdown_never_hangs [OF this, of _ stuck None no_watchdog] show ?thesis
    by (simp add: stuck_def del: reap_rounds.simps)
qed

end
