(* ===== verification/Mounts.thy ===== *)
theory Mounts
  imports Notify_Msg Cgroup_Ops
begin

unbundle bit_operations_syntax

text \<open>
  Mounting and unmounting (\<open>rinit-runtime/src/mounts.rs\<close> and \<open>fstab.rs\<close>): the fixed first wave, the
  second wave out of \<open>/etc/fstab\<close>, and the unmount pass of a shutdown. \<open>MountOps\<close> is a trait in the
  code; here it is a record of answers that may depend on all earlier calls, and every operation
  returns the trace of the calls it made, newest first.
\<close>

section \<open>The operations\<close>

datatype MountCall =
  MkdirP string | MountTmpfs string string | MountProc string | MountSysfs string
| MountDevtmpfs string | MountCgroup2 string
| MountFs string string string "64 word" "string option" | Umount2 string int

type_synonym mount_trace = "MountCall list"

text \<open>\<open>None\<close> is \<open>Ok(())\<close>, otherwise the errno.\<close>

record MountOps = mo_call :: "mount_trace \<Rightarrow> MountCall \<Rightarrow> int option"

definition do_call :: "MountOps \<Rightarrow> MountCall \<Rightarrow> mount_trace \<Rightarrow> int option \<times> mount_trace" where
  "do_call M c tr = (mo_call M tr c, c # tr)"

definition MNT_DETACH :: int where "MNT_DETACH = 2"

section \<open>The first wave\<close>

datatype MountWarning = MountFailed string int | LineWarning nat string string | CannotCreate string int
| CannotMount string string string int

record MountReport =
  mr_mounted :: "string list"
  mr_warnings :: "MountWarning list"

text \<open>A step that stops the sequence: \<open>fatal(&mut report, target, ..)?\<close>.\<close>

definition fatal :: "MountOps \<Rightarrow> string \<Rightarrow> MountCall \<Rightarrow> MountReport \<times> mount_trace
    \<Rightarrow> (int + MountReport) \<times> mount_trace" where
  "fatal M target c s = (case do_call M c (snd s) of
      (None, tr) \<Rightarrow> (Inr ((fst s)\<lparr>mr_mounted := mr_mounted (fst s) @ [target]\<rparr>), tr)
    | (Some e, tr) \<Rightarrow> (Inl e, tr))"

fun fatal_all :: "MountOps \<Rightarrow> (string \<times> MountCall) list \<Rightarrow> MountReport \<times> mount_trace
    \<Rightarrow> (int + MountReport) \<times> mount_trace" where
  "fatal_all M [] s = (Inr (fst s), snd s)"
| "fatal_all M ((target, c) # rest) s = (case fatal M target c s of
      (Inl e, tr) \<Rightarrow> (Inl e, tr)
    | (Inr report, tr) \<Rightarrow> fatal_all M rest (report, tr))"

definition degradable :: "MountOps \<Rightarrow> string \<Rightarrow> MountCall \<Rightarrow> MountReport \<times> mount_trace
    \<Rightarrow> MountReport \<times> mount_trace" where
  "degradable M target c s = (case do_call M c (snd s) of
      (None, tr) \<Rightarrow> ((fst s)\<lparr>mr_mounted := mr_mounted (fst s) @ [target]\<rparr>, tr)
    | (Some e, tr) \<Rightarrow> ((fst s)\<lparr>mr_warnings := mr_warnings (fst s) @ [MountFailed target e]\<rparr>, tr))"

definition FATAL_MOUNTS :: "(string \<times> MountCall) list" where
  "FATAL_MOUNTS = [(''/run'', MountTmpfs ''/run'' ''0755''), (''/proc'', MountProc ''/proc''),
     (''/sys'', MountSysfs ''/sys''), (''/dev'', MountDevtmpfs ''/dev'')]"

definition first_wave_mounts_with :: "MountOps \<Rightarrow> mount_trace \<Rightarrow> (int + MountReport) \<times> mount_trace" where
  "first_wave_mounts_with M tr =
     (case fatal_all M FATAL_MOUNTS (\<lparr>mr_mounted = [], mr_warnings = []\<rparr>, tr) of
        (Inl e, tr1) \<Rightarrow> (Inl e, tr1)
      | (Inr report, tr1) \<Rightarrow>
          (let s = degradable M ''/tmp'' (MountTmpfs ''/tmp'' ''1777'') (report, tr1);
               (report', tr') = degradable M CGROUP_ROOT (MountCgroup2 CGROUP_ROOT) s
           in (Inr report', tr')))"

section \<open>Escaped fields\<close>

definition escape_code :: "char \<Rightarrow> char \<Rightarrow> char \<Rightarrow> char option" where
  "escape_code a b c =
     (if [a, b, c] = ''040'' then Some (CHR '' '') else if [a, b, c] = ''011'' then Some (CHR 0x09)
      else if [a, b, c] = ''012'' then Some (CHR 0x0A) else if [a, b, c] = ''134'' then Some (CHR 0x5C)
      else None)"

fun unescape_bytes :: "string \<Rightarrow> string" where
  "unescape_bytes [] = []"
| "unescape_bytes (x # a # b # c # s) =
     (case if x = CHR 0x5C then escape_code a b c else None of
        Some d \<Rightarrow> d # unescape_bytes s
      | None \<Rightarrow> x # unescape_bytes (a # b # c # s))"
| "unescape_bytes (x # s) = x # unescape_bytes s"

definition unescape_mount_field :: "string \<Rightarrow> string" where
  "unescape_mount_field f =
     (if CHR 0x5C \<notin> set f then f
      else if utf8_valid (unescape_bytes f) then unescape_bytes f else f)"

section \<open>Unmounting\<close>

text \<open>The second field of each line of \<open>/proc/mounts\<close>.\<close>

definition mount_points :: "string \<Rightarrow> string list" where
  "mount_points text = List.map_filter (\<lambda>l. case split_whitespace l of
      _ # p # _ \<Rightarrow> Some (unescape_mount_field p) | _ \<Rightarrow> None) (str_lines text)"

definition unmount_order :: "string \<Rightarrow> string list" where
  "unmount_order proc_mounts = rev (filter (\<lambda>p. p \<noteq> ''/'') (mount_points proc_mounts))"

record UnmountReport =
  ur_unmounted :: "string list"
  ur_warnings :: "(string \<times> int) list"

text \<open>One point: a plain unmount, a lazy one when that fails, then a warning.\<close>

definition unmount_point :: "MountOps \<Rightarrow> string \<Rightarrow> UnmountReport \<times> mount_trace
    \<Rightarrow> UnmountReport \<times> mount_trace" where
  "unmount_point M p s = (case do_call M (Umount2 p 0) (snd s) of
      (None, tr) \<Rightarrow> ((fst s)\<lparr>ur_unmounted := ur_unmounted (fst s) @ [p]\<rparr>, tr)
    | (Some e, tr) \<Rightarrow>
        (case do_call M (Umount2 p MNT_DETACH) tr of
           (None, tr') \<Rightarrow> ((fst s)\<lparr>ur_unmounted := ur_unmounted (fst s) @ [p]\<rparr>, tr')
         | (Some _, tr') \<Rightarrow>
             (if e = EINVAL \<or> e = ENOENT then fst s
              else (fst s)\<lparr>ur_warnings := ur_warnings (fst s) @ [(p, e)]\<rparr>, tr')))"

definition unmount_filesystems_with :: "MountOps \<Rightarrow> string option \<Rightarrow> mount_trace
    \<Rightarrow> UnmountReport \<times> mount_trace" where
  "unmount_filesystems_with M contents tr =
     (let start = (\<lparr>ur_unmounted = [], ur_warnings = []\<rparr>, tr) in
      case contents of
        None \<Rightarrow> start
      | Some c \<Rightarrow> foldl (\<lambda>s p. unmount_point M p s) start (unmount_order c))"

section \<open>The second wave\<close>

record Entry =
  en_device :: string
  en_mountpoint :: string
  en_fstype :: string
  en_options :: string

definition ms :: "nat \<Rightarrow> 64 word" where "ms n = push_bit n 1"

text \<open>The options with an \<open>MS_*\<close> bit: whether they set or clear it, and its number.\<close>

definition FLAG_OPTIONS :: "(string \<times> bool \<times> nat) list" where
  "FLAG_OPTIONS = [(''ro'', True, 0), (''rw'', False, 0), (''sync'', True, 4), (''async'', False, 4),
     (''dirsync'', True, 7), (''noatime'', True, 10), (''atime'', False, 10), (''nodiratime'', True, 11),
     (''diratime'', False, 11), (''relatime'', True, 21), (''norelatime'', False, 21),
     (''strictatime'', True, 24), (''nostrictatime'', False, 24), (''suid'', False, 1), (''nosuid'', True, 1),
     (''dev'', False, 2), (''nodev'', True, 2), (''exec'', False, 3), (''noexec'', True, 3)]"

definition USER_OPTIONS :: "string list" where
  "USER_OPTIONS = [''defaults'', ''auto'', ''noauto'', ''nofail'', ''user'', ''users'', ''owner'', ''group'', ''_netdev'']"

definition user_option :: "string \<Rightarrow> bool" where
  "user_option opt \<longleftrightarrow> opt \<in> set USER_OPTIONS \<or> take 2 opt = ''x-'' \<or> take 8 opt = ''comment=''"

definition split_options :: "string \<Rightarrow> string list" where
  "split_options opts = filter (\<lambda>opt. opt \<noteq> []) (map trim (split_char (CHR '','') opts))"

definition apply_option :: "64 word \<times> string list \<Rightarrow> string \<Rightarrow> 64 word \<times> string list" where
  "apply_option fd opt = (case map_of FLAG_OPTIONS opt of
      Some (True, n) \<Rightarrow> (fst fd OR ms n, snd fd)
    | Some (False, n) \<Rightarrow> (fst fd AND NOT (ms n), snd fd)
    | None \<Rightarrow> if user_option opt then fd else (fst fd, snd fd @ [opt]))"

fun join_commas :: "string list \<Rightarrow> string" where
  "join_commas [] = []"
| "join_commas [s] = s"
| "join_commas (s # ss) = s @ '','' @ join_commas ss"

definition flags_and_data :: "Entry \<Rightarrow> 64 word \<times> string option" where
  "flags_and_data e =
     (let (flags, data) = foldl apply_option (0, []) (split_options (en_options e))
      in (flags, if data = [] then None else Some (join_commas data)))"

definition read_entry :: "string \<Rightarrow> (string \<times> string \<times> string \<times> string) option" where
  "read_entry line = (case split_whitespace line of
      d # m # t # opts # _ \<Rightarrow> Some (unescape_mount_field d, unescape_mount_field m,
        unescape_mount_field t, unescape_mount_field opts)
    | _ \<Rightarrow> None)"

text \<open>One line: an entry, a warning, or nothing.\<close>

definition fstab_line :: "nat \<Rightarrow> string \<Rightarrow> Entry option \<times> MountWarning list" where
  "fstab_line n raw =
     (let line = trim raw in
      if line = [] \<or> starts_with_char (CHR ''#'') line then (None, [])
      else case read_entry line of
        None \<Rightarrow> (None, [LineWarning n ''expected at least four fields'' line])
      | Some (d, m, t, opts) \<Rightarrow>
          if t \<noteq> ''swap'' \<and> \<not> starts_with_char (CHR ''/'') m
          then (None, [LineWarning n ''not absolute'' m])
          else if list_ex (\<lambda>opt. trim opt = ''noauto'') (split_char (CHR '','') opts) then (None, [])
          else (Some \<lparr>en_device = d, en_mountpoint = m, en_fstype = t, en_options = opts\<rparr>, []))"

definition fstab_parse :: "string \<Rightarrow> Entry list \<times> MountWarning list" where
  "fstab_parse text =
     (let rs = map (\<lambda>(i, l). fstab_line (i + 1) l) (enumerate 0 (str_lines text))
      in (List.map_filter fst rs, concat (map snd rs)))"

definition fstab_enabled :: "string \<Rightarrow> bool" where
  "fstab_enabled cmdline \<longleftrightarrow> ''nofstab'' \<notin> set (split_whitespace cmdline)"

definition mount_entry :: "MountOps \<Rightarrow> string option \<Rightarrow> Entry \<Rightarrow> MountReport \<times> mount_trace
    \<Rightarrow> MountReport \<times> mount_trace" where
  "mount_entry M current e s =
     (if en_fstype e = ''swap'' then s
      else if (case current of None \<Rightarrow> False | Some c \<Rightarrow> en_mountpoint e \<in> set (mount_points c)) then s
      else (case do_call M (MkdirP (en_mountpoint e)) (snd s) of
          (Some err, tr) \<Rightarrow>
            ((fst s)\<lparr>mr_warnings := mr_warnings (fst s) @ [CannotCreate (en_mountpoint e) err]\<rparr>, tr)
        | (None, tr) \<Rightarrow>
            (let (flags, data) = flags_and_data e in
             case do_call M (MountFs (en_device e) (en_mountpoint e) (en_fstype e) flags data) tr of
               (Some err, tr') \<Rightarrow>
                 ((fst s)\<lparr>mr_warnings := mr_warnings (fst s)
                    @ [CannotMount (en_device e) (en_mountpoint e) (en_fstype e) err]\<rparr>, tr')
             | (None, tr') \<Rightarrow>
                 ((fst s)\<lparr>mr_mounted := mr_mounted (fst s) @ [en_mountpoint e]\<rparr>, tr'))))"

definition mount_with_mounted :: "MountOps \<Rightarrow> string \<Rightarrow> string option \<Rightarrow> mount_trace
    \<Rightarrow> MountReport \<times> mount_trace" where
  "mount_with_mounted M text current tr =
     (let (entries, warns) = fstab_parse text
      in foldl (\<lambda>s e. mount_entry M current e s) (\<lparr>mr_mounted = [], mr_warnings = warns\<rparr>, tr) entries)"


definition mount_with :: "MountOps \<Rightarrow> string \<Rightarrow> mount_trace \<Rightarrow> MountReport \<times> mount_trace" where
  "mount_with M text tr = mount_with_mounted M text None tr"

text \<open>What the second wave reads: \<open>metadata\<close> of the table, its text, and \<open>/proc/mounts\<close> decoded lossily.\<close>

record FstabFiles =
  ff_metadata :: "int + bool \<times> nat"
  ff_text :: "int + string"
  ff_mounts :: "string option"

definition MAX_FSTAB_BYTES :: nat where "MAX_FSTAB_BYTES = 1024 * 1024"

definition run_with :: "MountOps \<Rightarrow> FstabFiles \<Rightarrow> mount_trace \<Rightarrow> (int + MountReport) \<times> mount_trace" where
  "run_with M F tr = (case ff_metadata F of
      Inl e \<Rightarrow> if e = ENOENT then (Inr \<lparr>mr_mounted = [], mr_warnings = []\<rparr>, tr) else (Inl e, tr)
    | Inr (is_file, len) \<Rightarrow>
        if \<not> is_file \<or> MAX_FSTAB_BYTES < len then (Inl EINVAL, tr)
        else (case ff_text F of
            Inl e \<Rightarrow> (Inl e, tr)
          | Inr text \<Rightarrow> (let (report, tr') = mount_with_mounted M text (ff_mounts F) tr in (Inr report, tr'))))"

section \<open>A pass over a list that never stops\<close>

text \<open>
  The unmount pass and the second wave share one contract: a step per element, each making known calls
  whatever the kernel answers. The pass then makes the calls of all its elements, in order.
\<close>

locale best_effort =
  fixes visit :: "'e \<Rightarrow> 'r \<times> 't list \<Rightarrow> 'r \<times> 't list"
    and attempt :: "'t \<Rightarrow> 'p option"
    and due :: "'e \<Rightarrow> 'p list"
  assumes visit_attempts:
    "\<exists>made. snd (visit e s) = made @ snd s \<and> List.map_filter attempt (rev made) = due e"
begin

lemma pass_attempts:
  "\<exists>made. snd (foldl (\<lambda>s e. visit e s) s es) = made @ snd s
     \<and> List.map_filter attempt (rev made) = concat (map due es)"
proof (induction es arbitrary: s)
  case Nil
  then show ?case by (simp add: List.map_filter_simps)
next
  case (Cons e es)
  obtain m1 where m1: "snd (visit e s) = m1 @ snd s" "List.map_filter attempt (rev m1) = due e"
    using visit_attempts by blast
  obtain m2 where m2: "snd (foldl (\<lambda>s e. visit e s) (visit e s) es) = m2 @ snd (visit e s)"
      "List.map_filter attempt (rev m2) = concat (map due es)"
    using Cons.IH by blast
  have "List.map_filter attempt (rev (m2 @ m1)) = due e @ concat (map due es)"
    using m1(2) m2(2) by (simp add: List.map_filter_def)
  then show ?case using m1(1) m2(1) by (intro exI [of _ "m2 @ m1"]) simp
qed

end

definition plain_umount :: "MountCall \<Rightarrow> string option" where
  "plain_umount c = (case c of Umount2 p f \<Rightarrow> if f = 0 then Some p else None | _ \<Rightarrow> None)"

definition mkdir_of :: "MountCall \<Rightarrow> string option" where
  "mkdir_of c = (case c of MkdirP p \<Rightarrow> Some p | _ \<Rightarrow> None)"

definition wanted :: "string option \<Rightarrow> Entry \<Rightarrow> string list" where
  "wanted current e =
     (if en_fstype e = ''swap'' \<or> (case current of None \<Rightarrow> False | Some c \<Rightarrow> en_mountpoint e \<in> set (mount_points c))
      then [] else [en_mountpoint e])"

lemma unmount_point_calls:
  "\<exists>made. snd (unmount_point M p s) = made @ snd s \<and> List.map_filter plain_umount (rev made) = [p]"
proof -
  have "snd (unmount_point M p s) = [Umount2 p 0] @ snd s
      \<or> snd (unmount_point M p s) = [Umount2 p MNT_DETACH, Umount2 p 0] @ snd s"
    by (auto simp: unmount_point_def do_call_def split: option.splits)
  moreover have "List.map_filter plain_umount (rev [Umount2 p 0]) = [p]"
    "List.map_filter plain_umount (rev [Umount2 p MNT_DETACH, Umount2 p 0]) = [p]"
    by (simp_all add: plain_umount_def MNT_DETACH_def List.map_filter_simps)
  ultimately show ?thesis by blast
qed

lemma mount_entry_calls:
  "\<exists>made. snd (mount_entry M current e s) = made @ snd s
     \<and> List.map_filter mkdir_of (rev made) = wanted current e"
proof (cases "wanted current e = []")
  case True
  then have "snd (mount_entry M current e s) = [] @ snd s"
    by (auto simp: wanted_def mount_entry_def split: if_splits)
  then show ?thesis using True by (intro exI [of _ "[]"]) (simp add: List.map_filter_simps)
next
  case False
  let ?m = "MkdirP (en_mountpoint e)"
  obtain flags data where fd: "flags_and_data e = (flags, data)" by fastforce
  let ?f = "MountFs (en_device e) (en_mountpoint e) (en_fstype e) flags data"
  have "snd (mount_entry M current e s) = [?m] @ snd s \<or> snd (mount_entry M current e s) = [?f, ?m] @ snd s"
    using False by (auto simp: wanted_def mount_entry_def do_call_def fd split: option.splits if_splits)
  moreover have "List.map_filter mkdir_of (rev [?m]) = wanted current e"
    "List.map_filter mkdir_of (rev [?f, ?m]) = wanted current e"
    using False by (simp_all add: wanted_def mkdir_of_def List.map_filter_simps split: if_splits)
  ultimately show ?thesis by blast
qed

interpretation um: best_effort "unmount_point M" plain_umount "\<lambda>p. [p]" for M
  by unfold_locales (rule unmount_point_calls)

interpretation fs: best_effort "mount_entry M current" mkdir_of "wanted current" for M current
  by unfold_locales (rule mount_entry_calls)


section \<open>Mount options\<close>

text \<open>What the options say of flag bit \<open>n\<close>, in order, and what is left for the filesystem.\<close>

definition bit_settings :: "nat \<Rightarrow> string list \<Rightarrow> bool list" where
  "bit_settings n opts = List.map_filter (\<lambda>opt. case map_of FLAG_OPTIONS opt of
      Some (b, k) \<Rightarrow> if k = n then Some b else None | None \<Rightarrow> None) opts"

definition fs_options :: "string list \<Rightarrow> string list" where
  "fs_options opts = filter (\<lambda>opt. map_of FLAG_OPTIONS opt = None \<and> \<not> user_option opt) opts"

lemma flag_bit_small: "map_of FLAG_OPTIONS opt = Some (b, k) \<Longrightarrow> k < 64"
  by (drule map_of_SomeD) (auto simp: FLAG_OPTIONS_def)

lemma bit_ms: "bit (ms k) n \<longleftrightarrow> n = k \<and> k < 64"
  by (auto simp: ms_def bit_simps)

lemma apply_options_bits:
  "bit (fst (foldl apply_option (w, d) opts)) n
     \<longleftrightarrow> (if bit_settings n opts = [] then bit w n else last (bit_settings n opts))"
proof (induction opts arbitrary: w d)
  case Nil
  then show ?case by (simp add: bit_settings_def List.map_filter_simps)
next
  case (Cons opt opts)
  obtain w' d' where step: "apply_option (w, d) opt = (w', d')" by fastforce
  have one: "bit w' n = (case map_of FLAG_OPTIONS opt of
      Some (b, k) \<Rightarrow> if k = n then b else bit w n | None \<Rightarrow> bit w n)"
    using step flag_bit_small [of opt] bit_imp_le_length [of w n]
    by (auto simp: apply_option_def bit_simps bit_ms split: option.splits bool.splits if_splits)
  show ?case using Cons.IH [of w' d'] one
    by (auto simp: step bit_settings_def List.map_filter_simps split: option.splits if_splits)
qed

lemma apply_options_data: "snd (foldl apply_option (w, d) opts) = d @ fs_options opts"
proof (induction opts arbitrary: w d)
  case Nil
  then show ?case by (simp add: fs_options_def)
next
  case (Cons opt opts)
  then show ?case
    by (cases "apply_option (w, d) opt")
      (auto simp: apply_option_def fs_options_def split: option.splits bool.splits if_splits)
qed

text \<open>
  The option field decides the mount exactly: each \<open>MS_*\<close> bit is set when the last option
  that names it sets it, and clear when that option clears it or none names it; the data string is the
  other options in their order, without the ones that only concern the mounting program, and there is
  none when nothing is left. A flag is thus never passed as data, where the kernel would ignore it.
\<close>
theorem mount_options_exact:
  "(bit (fst (flags_and_data e)) n
      \<longleftrightarrow> bit_settings n (split_options (en_options e)) \<noteq> [] \<and> last (bit_settings n (split_options (en_options e))))
   \<and> snd (flags_and_data e)
      = (if fs_options (split_options (en_options e)) = [] then None
         else Some (join_commas (fs_options (split_options (en_options e)))))"
  by (simp add: flags_and_data_def case_prod_beta Let_def apply_options_bits apply_options_data)

section \<open>Escapes\<close>

text \<open>How the kernel writes a path into \<open>/proc/mounts\<close>.\<close>

fun mangle :: "string \<Rightarrow> string" where
  "mangle [] = []"
| "mangle (c # s) =
     (if c = CHR '' '' then CHR 0x5C # ''040'' @ mangle s else if c = CHR 0x09 then CHR 0x5C # ''011'' @ mangle s
      else if c = CHR 0x0A then CHR 0x5C # ''012'' @ mangle s else if c = CHR 0x5C then CHR 0x5C # ''134'' @ mangle s
      else c # mangle s)"

lemma unescape_plain: "x \<noteq> CHR 0x5C \<Longrightarrow> unescape_bytes (x # s) = x # unescape_bytes s"
  by (cases "(x # s)" rule: unescape_bytes.cases) auto

lemma unescape_mangle: "unescape_bytes (mangle s) = s"
  by (induction s) (auto simp: escape_code_def unescape_plain)

lemma mangle_id: "CHR 0x5C \<notin> set (mangle s) \<Longrightarrow> mangle s = s"
  by (induction s) (auto split: if_splits)

text \<open>
  Every valid path survives the trip through \<open>/proc/mounts\<close>: decoding what the kernel
  writes for it gives the path back, whatever blanks, line breaks and backslashes it contains.
\<close>
theorem mount_field_round_trip:
  assumes "utf8_valid s"
  shows "unescape_mount_field (mangle s) = s"
  using assms by (auto simp: unescape_mount_field_def unescape_mangle dest: mangle_id)

theorem mount_field_round_trip_witness: "unescape_mount_field (mangle (''/mnt/a b'' @ [CHR 0x5C] @ ''c'')) = ''/mnt/a b'' @ [CHR 0x5C] @ ''c''"
  by (rule mount_field_round_trip) code_simp

section \<open>The unmount pass\<close>

fun umounted :: "MountOps \<Rightarrow> string \<Rightarrow> mount_trace \<Rightarrow> bool" where
  "umounted M p [] = False"
| "umounted M p (c # tr) =
     (mo_call M tr c = None \<and> (case c of Umount2 q _ \<Rightarrow> q = p | _ \<Rightarrow> False) \<or> umounted M p tr)"

lemma unmount_point_sound:
  assumes "\<forall>p. p \<in> set (ur_unmounted (fst s)) \<longleftrightarrow> umounted M p (snd s)"
  shows "\<forall>p. p \<in> set (ur_unmounted (fst (unmount_point M q s))) \<longleftrightarrow> umounted M p (snd (unmount_point M q s))"
  using assms by (auto simp: unmount_point_def do_call_def split: option.splits)

lemma unmount_fold_sound:
  "(\<forall>p. p \<in> set (ur_unmounted (fst s)) \<longleftrightarrow> umounted M p (snd s))
   \<Longrightarrow> \<forall>p. p \<in> set (ur_unmounted (fst (foldl (\<lambda>s p. unmount_point M p s) s ps)))
        \<longleftrightarrow> umounted M p (snd (foldl (\<lambda>s p. unmount_point M p s) s ps))"
proof (induction ps arbitrary: s)
  case (Cons q ps)
  from Cons.IH [OF unmount_point_sound [OF Cons.prems]] show ?case by simp
qed simp

lemma unmount_fold_targets:
  "Umount2 q f \<in> set (snd (foldl (\<lambda>s p. unmount_point M p s) s ps)) \<Longrightarrow> Umount2 q f \<in> set (snd s) \<or> q \<in> set ps"
proof (induction ps arbitrary: s)
  case (Cons p ps)
  have "Umount2 q f \<in> set (snd (unmount_point M p s)) \<Longrightarrow> Umount2 q f \<in> set (snd s) \<or> q = p"
    by (auto simp: unmount_point_def do_call_def split: option.splits)
  with Cons.IH [of "unmount_point M p s"] Cons.prems show ?case by auto
qed simp

text \<open>
  The unmount pass of a shutdown, whatever the kernel answers: every mount point but the
  root is tried once plainly, in reverse order of the table, so that a refusal never keeps a later one
  from being tried; the root is never unmounted; and a point is reported unmounted exactly when one of
  the calls for it succeeded.
\<close>
theorem unmount_pass:
  "let (report, calls) = unmount_filesystems_with M (Some table) [] in
     List.map_filter plain_umount (rev calls) = rev (filter (\<lambda>p. p \<noteq> ''/'') (mount_points table))
   \<and> Umount2 ''/'' f \<notin> set calls
   \<and> (p \<in> set (ur_unmounted report) \<longleftrightarrow> umounted M p calls)"
proof -
  let ?s = "(\<lparr>ur_unmounted = [], ur_warnings = []\<rparr>, []) :: UnmountReport \<times> mount_trace"
  let ?r = "foldl (\<lambda>s p. unmount_point M p s) ?s (unmount_order table)"
  have r: "unmount_filesystems_with M (Some table) [] = ?r"
    by (simp add: unmount_filesystems_with_def)
  have tried: "List.map_filter plain_umount (rev (snd ?r)) = unmount_order table"
    using um.pass_attempts [of M ?s "unmount_order table"] by auto
  have root: "Umount2 ''/'' f \<notin> set (snd ?r)"
    using unmount_fold_targets [of "''/''" f M ?s "unmount_order table"] by (auto simp: unmount_order_def)
  have sound: "p \<in> set (ur_unmounted (fst ?r)) \<longleftrightarrow> umounted M p (snd ?r)"
    using unmount_fold_sound [of ?s M "unmount_order table"] by simp
  show ?thesis unfolding r using tried root sound by (simp add: case_prod_beta unmount_order_def)
qed

section \<open>The two waves\<close>

text \<open>
  The second wave, whatever the kernel answers: the mount points of all entries that are
  neither swap nor already mounted are created in the order of the file; a refused one is a warning and
  never stops the entries after it.
\<close>
theorem second_wave_attempts_all:
  "List.map_filter mkdir_of (rev (snd (mount_with_mounted M text current [])))
     = concat (map (wanted current) (fst (fstab_parse text)))"
  using fs.pass_attempts [of M current "(\<lparr>mr_mounted = [], mr_warnings = snd (fstab_parse text)\<rparr>, [])"
      "fst (fstab_parse text)"]
  by (auto simp: mount_with_mounted_def case_prod_beta Let_def)

text \<open>
  The first wave: a refused early mount ends it with that errno, and nothing after it is tried; when
  the four succeed, both optional mounts are tried and the wave succeeds whatever they answer.
\<close>

definition FIRST_WAVE :: "MountCall list" where
  "FIRST_WAVE = map snd FATAL_MOUNTS @ [MountTmpfs ''/tmp'' ''1777'', MountCgroup2 CGROUP_ROOT]"

text \<open>The answer of the kernel to call \<open>k\<close> of a sequence of which all earlier calls were made.\<close>

definition answer :: "MountOps \<Rightarrow> MountCall list \<Rightarrow> mount_trace \<Rightarrow> nat \<Rightarrow> int option" where
  "answer M cs tr k = mo_call M (rev (take k cs) @ tr) (cs ! k)"

lemma answer_Cons: "answer M (c # cs) tr 0 = mo_call M tr c" "answer M (c # cs) tr (Suc k) = answer M cs (c # tr) k"
  by (simp_all add: answer_def)

lemma fatal_all_refused:
  "k < length cs \<Longrightarrow> \<forall>j<k. answer M (map snd cs) tr j = None \<Longrightarrow> answer M (map snd cs) tr k = Some e
   \<Longrightarrow> fatal_all M cs (report, tr) = (Inl e, rev (map snd (take (Suc k) cs)) @ tr)"
proof (induction cs arbitrary: report tr k)
  case (Cons tc cs)
  obtain t c where tc: "tc = (t, c)" by fastforce
  show ?case
  proof (cases k)
    case 0
    then show ?thesis using Cons.prems by (simp add: tc fatal_def do_call_def answer_Cons)
  next
    case (Suc k')
    have "mo_call M tr c = None" using Cons.prems(2) Suc tc by (force simp: answer_Cons)
    moreover have "\<forall>j<k'. answer M (map snd cs) (c # tr) j = None"
      using Cons.prems(2) Suc tc by (metis Suc_less_eq answer_Cons(2) list.simps(9) snd_conv)
    ultimately show ?thesis
      using Cons.prems Suc Cons.IH [of k' "c # tr"] by (simp add: tc fatal_def do_call_def answer_Cons)
  qed
qed simp

lemma fatal_all_granted:
  "\<forall>j<length cs. answer M (map snd cs) tr j = None
   \<Longrightarrow> fatal_all M cs (report, tr)
      = (Inr (report\<lparr>mr_mounted := mr_mounted report @ map fst cs\<rparr>), rev (map snd cs) @ tr)"
proof (induction cs arbitrary: report tr)
  case (Cons tc cs)
  obtain t c where tc: "tc = (t, c)" by fastforce
  have "mo_call M tr c = None" using Cons.prems tc by (force simp: answer_Cons)
  moreover have "\<forall>j<length cs. answer M (map snd cs) (c # tr) j = None"
    using Cons.prems tc by (metis Suc_less_eq answer_Cons(2) length_Cons list.simps(9) snd_conv)
  ultimately show ?case using Cons.IH [of "c # tr"] by (simp add: tc fatal_def do_call_def)
qed simp

lemma answer_prefix: "k < length cs \<Longrightarrow> answer M (cs @ ds) tr k = answer M cs tr k"
  by (simp add: answer_def nth_append)

text \<open>
  The first wave, by the first refusal among its four indispensable mounts: refused at
  \<open>k < 4\<close>, the wave ends with that errno having made exactly the calls up to it; with none refused it
  makes all six calls in order and succeeds, whatever the answers to \<open>/tmp\<close> and the control groups.
\<close>
theorem first_wave_aborts_at_refusal:
  assumes granted: "\<forall>j<k. answer M FIRST_WAVE [] j = None" and k: "k \<le> 4"
  shows "if k = 4 then (\<exists>report. first_wave_mounts_with M [] = (Inr report, rev FIRST_WAVE))
         else answer M FIRST_WAVE [] k = Some e
           \<longrightarrow> first_wave_mounts_with M [] = (Inl e, rev (take (Suc k) FIRST_WAVE))"
proof -
  let ?s = "(\<lparr>mr_mounted = [], mr_warnings = []\<rparr>, [])"
  have len: "length FATAL_MOUNTS = 4" by (simp add: FATAL_MOUNTS_def)
  have ans: "answer M FIRST_WAVE [] j = answer M (map snd FATAL_MOUNTS) [] j" if "j < 4" for j
    using that len by (simp add: FIRST_WAVE_def answer_prefix)
  show ?thesis
  proof (cases "k = 4")
    case True
    then have "\<forall>j<length FATAL_MOUNTS. answer M (map snd FATAL_MOUNTS) [] j = None"
      using granted ans len by simp
    from fatal_all_granted [OF this] True show ?thesis
      by (simp add: first_wave_mounts_with_def degradable_def do_call_def FIRST_WAVE_def Let_def split: option.splits)
  next
    case False
    then have lt: "k < length FATAL_MOUNTS" using k len by simp
    have prior: "\<forall>j<k. answer M (map snd FATAL_MOUNTS) [] j = None" using granted ans k by simp
    have "first_wave_mounts_with M [] = (Inl e, rev (take (Suc k) FIRST_WAVE))"
      if "answer M FIRST_WAVE [] k = Some e"
      using fatal_all_refused [OF lt prior] that ans lt len
      by (simp add: first_wave_mounts_with_def FIRST_WAVE_def take_map)
    then show ?thesis using False by simp
  qed
qed

definition no_proc :: MountOps where
  "no_proc = \<lparr>mo_call = (\<lambda>_ c. if c = MountProc ''/proc'' then Some 1 else None)\<rparr>"

theorem first_wave_aborts_at_refusal_witness:
  "first_wave_mounts_with no_proc [] = (Inl 1, [MountProc ''/proc'', MountTmpfs ''/run'' ''0755''])"
proof -
  have "\<forall>j<1. answer no_proc FIRST_WAVE [] j = None" by (simp add: answer_def FIRST_WAVE_def FATAL_MOUNTS_def no_proc_def)
  moreover have "answer no_proc FIRST_WAVE [] 1 = Some 1" by (simp add: answer_def FIRST_WAVE_def FATAL_MOUNTS_def no_proc_def)
  ultimately show ?thesis
    using first_wave_aborts_at_refusal [of 1 no_proc 1] by (simp add: FIRST_WAVE_def FATAL_MOUNTS_def)
qed

end
