(* ===== verification/Rctl_Cli.thy ===== *)
theory Rctl_Cli
  imports Control_Protocol
begin

text \<open>
  The command line of \<open>rctl\<close> (\<open>rctl/src/parse.rs\<close>): every subcommand and option, the errors as
  values, and what a command line becomes on the wire.
\<close>

section \<open>Results\<close>

definition DEFAULT_LOG_FILE :: string where "DEFAULT_LOG_FILE = ''/var/log/rinit/log''"
definition DEFAULT_STATUS_TAIL :: nat where "DEFAULT_STATUS_TAIL = 10"

record FileLog =
  fl_path :: string
  fl_unit :: "UnitName option"
  fl_tail :: nat

datatype Parsed = PHelp | PVersion | PRequest Request | PFileLog FileLog

datatype CliError =
  NoCommand | UnknownCommand string | NeedsUnit | ExtraArgument string | UnexpectedArgument string
| BadUnit CoreError | TailNeedsCount | BadTail string | FormatNeedsValue | UnknownListFormat string
| UnknownStatusFormat string | FileNeedsPath | UnknownOption string

section \<open>Arguments\<close>

definition parse_tail :: "string \<Rightarrow> CliError + nat" where
  "parse_tail v = ok_or (BadTail v) (parse_uint u32_max v)"

definition parse_unit :: "string \<Rightarrow> CliError + UnitName" where
  "parse_unit v = map_sum BadUnit id (parse_unit_name v)"

definition ensure_no_arguments :: "string list \<Rightarrow> CliError + unit" where
  "ensure_no_arguments rest = (case rest of [] \<Rightarrow> Inr () | extra # _ \<Rightarrow> Inl (UnexpectedArgument extra))"

fun required_unit :: "string list \<Rightarrow> CliError + UnitName" where
  "required_unit [] = Inl NeedsUnit"
| "required_unit [u] = parse_unit u"
| "required_unit (_ # extra # _) = Inl (ExtraArgument extra)"

definition parse_list_format :: "string \<Rightarrow> CliError + ListFormat" where
  "parse_list_format v = ok_or (UnknownListFormat v) (list_format_parse v)"

definition parse_status_format :: "string \<Rightarrow> CliError + StatusFormat" where
  "parse_status_format v = ok_or (UnknownStatusFormat v) (status_format_parse v)"

text \<open>A positional argument: the first is the unit, a second one is an error.\<close>

definition take_unit :: "UnitName option \<Rightarrow> string \<Rightarrow> CliError + UnitName option" where
  "take_unit u a =
     (if starts_with_char (CHR ''-'') a then Inl (UnknownOption a)
      else if u = None then rbind (parse_unit a) (\<lambda>n. Inr (Some n))
      else Inl (ExtraArgument a))"

text \<open>
  The loop of an option parser: a step sees the argument and what follows it, and says whether it
  used the next argument as its value.
\<close>

fun run_args :: "(string \<Rightarrow> string list \<Rightarrow> 's \<Rightarrow> 'e + 's \<times> bool) \<Rightarrow> string list \<Rightarrow> 's \<Rightarrow> 'e + 's" where
  "run_args step [] s = Inr s"
| "run_args step (a # rest) s =
     rbind (step a rest s) (\<lambda>(s', used). run_args step (if used then tl rest else rest) s')"

text \<open>The value of an option that takes the next argument.\<close>

definition next_value :: "CliError \<Rightarrow> string list \<Rightarrow> (string \<Rightarrow> CliError + 'v) \<Rightarrow> CliError + 'v" where
  "next_value e rest p = (case rest of [] \<Rightarrow> Inl e | v # _ \<Rightarrow> p v)"

record LogArgs =
  la_unit :: "UnitName option"
  la_tail :: nat
  la_file :: "string option"

definition log_step :: "string \<Rightarrow> string list \<Rightarrow> LogArgs \<Rightarrow> CliError + LogArgs \<times> bool" where
  "log_step a rest s = (case strip_prefix ''--tail='' a of
      Some v \<Rightarrow> rbind (parse_tail v) (\<lambda>t. Inr (s\<lparr>la_tail := t\<rparr>, False))
    | None \<Rightarrow>
        if a = ''--tail''
        then rbind (next_value TailNeedsCount rest parse_tail) (\<lambda>t. Inr (s\<lparr>la_tail := t\<rparr>, True))
        else (case strip_prefix ''--file='' a of
            Some v \<Rightarrow> if v = [] then Inl FileNeedsPath else Inr (s\<lparr>la_file := Some v\<rparr>, False)
          | None \<Rightarrow>
              if a = ''--file'' then Inr (s\<lparr>la_file := Some DEFAULT_LOG_FILE\<rparr>, False)
              else rbind (take_unit (la_unit s) a) (\<lambda>u. Inr (s\<lparr>la_unit := u\<rparr>, False))))"

definition parse_log :: "string list \<Rightarrow> CliError + Parsed" where
  "parse_log rest =
     rbind (run_args log_step rest \<lparr>la_unit = None, la_tail = 0, la_file = None\<rparr>) (\<lambda>s.
       Inr (case la_file s of
          Some path \<Rightarrow> PFileLog \<lparr>fl_path = path, fl_unit = la_unit s, fl_tail = la_tail s\<rparr>
        | None \<Rightarrow> PRequest (Log (la_unit s) (la_tail s))))"

definition list_step :: "string \<Rightarrow> string list \<Rightarrow> ListFormat \<Rightarrow> CliError + ListFormat \<times> bool" where
  "list_step a rest f = (case strip_prefix ''--format='' a of
      Some v \<Rightarrow> rbind (parse_list_format v) (\<lambda>f'. Inr (f', False))
    | None \<Rightarrow>
        if a = ''--format''
        then rbind (next_value FormatNeedsValue rest parse_list_format) (\<lambda>f'. Inr (f', True))
        else if a = ''--table'' then Inr (LfTable, False)
        else if a = ''--plain'' then Inr (LfPlain, False)
        else if a = ''--short'' then Inr (LfShort, False)
        else if a = ''--json'' then Inr (LfJson, False)
        else Inl (UnexpectedArgument a))"

definition parse_list :: "string list \<Rightarrow> CliError + ListFormat" where
  "parse_list rest = run_args list_step rest LfTable"

record StatusArgs =
  sa_unit :: "UnitName option"
  sa_tail :: "nat option"
  sa_format :: StatusFormat

definition status_step :: "string \<Rightarrow> string list \<Rightarrow> StatusArgs \<Rightarrow> CliError + StatusArgs \<times> bool" where
  "status_step a rest s = (case strip_prefix ''--tail='' a of
      Some v \<Rightarrow> rbind (parse_tail v) (\<lambda>t. Inr (s\<lparr>sa_tail := Some t\<rparr>, False))
    | None \<Rightarrow>
        if a = ''--tail''
        then rbind (next_value TailNeedsCount rest parse_tail) (\<lambda>t. Inr (s\<lparr>sa_tail := Some t\<rparr>, True))
        else (case strip_prefix ''--format='' a of
            Some v \<Rightarrow> rbind (parse_status_format v) (\<lambda>f. Inr (s\<lparr>sa_format := f\<rparr>, False))
          | None \<Rightarrow>
              if a = ''--format''
              then rbind (next_value FormatNeedsValue rest parse_status_format)
                     (\<lambda>f. Inr (s\<lparr>sa_format := f\<rparr>, True))
              else if a = ''--json'' then Inr (s\<lparr>sa_format := SfJson\<rparr>, False)
              else if a = ''--plain'' then Inr (s\<lparr>sa_format := SfPlain\<rparr>, False)
              else if a = ''--short'' then Inr (s\<lparr>sa_format := SfShort\<rparr>, False)
              else if a = ''--card'' then Inr (s\<lparr>sa_format := SfCard\<rparr>, False)
              else rbind (take_unit (sa_unit s) a) (\<lambda>u. Inr (s\<lparr>sa_unit := u\<rparr>, False))))"

definition parse_status :: "string list \<Rightarrow> CliError + UnitName option \<times> nat \<times> StatusFormat" where
  "parse_status rest =
     rbind (run_args status_step rest \<lparr>sa_unit = None, sa_tail = None, sa_format = SfSystemd\<rparr>) (\<lambda>s.
       Inr (sa_unit s,
            case sa_tail s of Some n \<Rightarrow> n
            | None \<Rightarrow> if sa_unit s \<noteq> None \<and> sa_format s = SfSystemd then DEFAULT_STATUS_TAIL else 0,
            sa_format s))"

definition command_line :: "string list \<Rightarrow> CliError + Parsed" where
  "command_line args = (case args of
      [] \<Rightarrow> Inl NoCommand
    | c # rest \<Rightarrow>
        if c = ''-h'' \<or> c = ''--help'' then Inr PHelp
        else if c = ''-V'' \<or> c = ''--version'' then Inr PVersion
        else if c = ''list'' then rbind (parse_list rest) (\<lambda>f. Inr (PRequest (ListFormatted f)))
        else if c = ''status''
        then rbind (parse_status rest) (\<lambda>(u, t, f). Inr (PRequest (StatusFormatted u t f)))
        else if c = ''log'' then parse_log rest
        else if c = ''start'' then rbind (required_unit rest) (\<lambda>u. Inr (PRequest (Start u)))
        else if c = ''stop'' then rbind (required_unit rest) (\<lambda>u. Inr (PRequest (Stop u)))
        else if c = ''restart'' then rbind (required_unit rest) (\<lambda>u. Inr (PRequest (Restart u)))
        else if c = ''reset-failed'' then rbind (required_unit rest) (\<lambda>u. Inr (PRequest (ResetFailed u)))
        else if c = ''reload'' then rbind (ensure_no_arguments rest) (\<lambda>_. Inr (PRequest Reload))
        else if c = ''reboot'' then rbind (ensure_no_arguments rest) (\<lambda>_. Inr (PRequest Reboot))
        else if c = ''poweroff'' then rbind (ensure_no_arguments rest) (\<lambda>_. Inr (PRequest Poweroff))
        else Inl (UnknownCommand c))"

section \<open>What a command line can ask for\<close>

lemma parse_unit_wf: "parse_unit a = Inr u \<Longrightarrow> wf_unit_name u"
  by (cases "parse_unit_name a") (auto simp: parse_unit_def dest: parse_unit_name_wf)

lemma parse_tail_le: "parse_tail v = Inr n \<Longrightarrow> n \<le> u32_max"
  by (auto simp: parse_tail_def ok_or_Inr_iff dest: parse_uint_le)

lemma take_unit_wf: "take_unit u a = Inr u' \<Longrightarrow> pred_option wf_unit_name u'"
  by (auto simp: take_unit_def rbind_Inr_iff dest: parse_unit_wf split: if_splits)

lemma required_unit_wf: "required_unit rest = Inr u \<Longrightarrow> wf_unit_name u"
  by (cases rest rule: required_unit.cases) (auto dest: parse_unit_wf)

lemma run_args_inv:
  assumes "run_args step args s = Inr s'" "P s"
    "\<And>a rest s s' used. step a rest s = Inr (s', used) \<Longrightarrow> P s \<Longrightarrow> P s'"
  shows "P s'"
  using assms
proof (induction step args s rule: run_args.induct)
  case (2 step a rest s)
  from "2.prems"(1) obtain s1 used where s1: "step a rest s = Inr (s1, used)"
    "run_args step (if used then tl rest else rest) s1 = Inr s'"
    by (auto simp: rbind_Inr_iff)
  have "P s1" by (rule "2.prems"(3) [OF s1(1) "2.prems"(2)])
  then show ?case by (rule "2.IH" [OF s1(1) refl s1(2)]) (rule "2.prems"(3))
qed simp

lemma next_value_Inr: "next_value e rest p = Inr x \<Longrightarrow> \<exists>v. p v = Inr x"
  by (auto simp: next_value_def split: list.splits)

definition wf_log_args :: "LogArgs \<Rightarrow> bool" where
  "wf_log_args s \<longleftrightarrow> pred_option wf_unit_name (la_unit s) \<and> la_tail s \<le> u32_max"

definition wf_status_args :: "StatusArgs \<Rightarrow> bool" where
  "wf_status_args s \<longleftrightarrow> pred_option wf_unit_name (sa_unit s) \<and> pred_option (\<lambda>n. n \<le> u32_max) (sa_tail s)"

lemma log_step_wf: "log_step a rest s = Inr (s', used) \<Longrightarrow> wf_log_args s \<Longrightarrow> wf_log_args s'"
  by (auto simp: log_step_def wf_log_args_def rbind_Inr_iff split: option.split_asm if_split_asm
      dest: parse_tail_le take_unit_wf dest!: next_value_Inr)

lemma status_step_wf: "status_step a rest s = Inr (s', used) \<Longrightarrow> wf_status_args s \<Longrightarrow> wf_status_args s'"
  by (auto simp: status_step_def wf_status_args_def rbind_Inr_iff split: option.split_asm if_split_asm
      dest: parse_tail_le take_unit_wf dest!: next_value_Inr)

lemma parse_log_wf: "parse_log rest = Inr (PRequest r) \<Longrightarrow> wf_request r"
proof -
  assume "parse_log rest = Inr (PRequest r)"
  then obtain s where s: "run_args log_step rest \<lparr>la_unit = None, la_tail = 0, la_file = None\<rparr> = Inr s"
    "r = Log (la_unit s) (la_tail s)"
    by (auto simp: parse_log_def rbind_Inr_iff split: option.splits)
  from run_args_inv [where P = wf_log_args, OF s(1) _ log_step_wf] have "wf_log_args s"
    by (simp add: wf_log_args_def)
  then show ?thesis by (simp add: s(2) wf_request_def wf_log_args_def)
qed

lemma parse_status_wf:
  assumes "parse_status rest = Inr (u, t, f)"
  shows "pred_option wf_unit_name u \<and> t \<le> u32_max"
proof -
  obtain s where s: "run_args status_step rest \<lparr>sa_unit = None, sa_tail = None, sa_format = SfSystemd\<rparr> = Inr s"
    "u = sa_unit s" "t = (case sa_tail s of Some n \<Rightarrow> n
      | None \<Rightarrow> if sa_unit s \<noteq> None \<and> sa_format s = SfSystemd then DEFAULT_STATUS_TAIL else 0)"
    using assms by (auto simp: parse_status_def rbind_Inr_iff)
  from run_args_inv [where P = wf_status_args, OF s(1) _ status_step_wf] have "wf_status_args s"
    by (simp add: wf_status_args_def)
  then show ?thesis
    by (auto simp: s(2,3) wf_status_args_def DEFAULT_STATUS_TAIL_def u32_max_value split: option.split)
qed

text \<open>
  Whatever is typed, a request that \<open>rctl\<close> sends is valid: its unit names are canonical
  and its counts fit 32 bits, so the receiver decodes exactly the request that was typed.
\<close>

theorem command_line_sends_valid:
  assumes "command_line args = Inr (PRequest r)"
  shows "wf_request r \<and> decode_request (encode_request r) = Inr r"
proof -
  obtain c rest where a: "args = c # rest" using assms by (cases args) (auto simp: command_line_def)
  have "wf_request r"
    using assms unfolding a command_line_def
    by (auto simp: rbind_Inr_iff wf_request_def [of "ListFormatted _"] wf_request_def [of "StatusFormatted _ _ _"]
        wf_request_def [of "Start _"] wf_request_def [of "Stop _"] wf_request_def [of "Restart _"]
        wf_request_def [of "ResetFailed _"] wf_request_def [of Reload] wf_request_def [of Reboot]
        wf_request_def [of Poweroff] split: if_split_asm
        dest: parse_log_wf parse_status_wf required_unit_wf)
  then show ?thesis by (simp add: decode_encode_request)
qed

theorem command_line_sends_valid_witness:
  "decode_request (encode_request (Stop (UnitName ''web.service'' Service))) =
     Inr (Stop (UnitName ''web.service'' Service))"
proof -
  have "command_line [''stop'', ''web''] = Inr (PRequest (Stop (UnitName ''web.service'' Service)))"
    by code_simp
  from command_line_sends_valid [OF this] show ?thesis by blast
qed

section \<open>Every request can be typed\<close>

definition list_format_word :: "ListFormat \<Rightarrow> string" where
  "list_format_word f = (case f of LfTable \<Rightarrow> ''table'' | LfPlain \<Rightarrow> ''plain'' | LfShort \<Rightarrow> ''short'' | LfJson \<Rightarrow> ''json'')"

definition status_format_word :: "StatusFormat \<Rightarrow> string" where
  "status_format_word f = (case f of SfSystemd \<Rightarrow> ''systemd'' | SfPlain \<Rightarrow> ''plain'' | SfShort \<Rightarrow> ''short''
     | SfJson \<Rightarrow> ''json'' | SfCard \<Rightarrow> ''card'')"

definition tail_option :: "nat \<Rightarrow> string" where
  "tail_option t = ''--tail='' @ show_nat t"

definition format_option :: "string \<Rightarrow> string" where
  "format_option w = ''--format='' @ w"

definition unit_words :: "UnitName option \<Rightarrow> string list" where
  "unit_words u = (case u of None \<Rightarrow> [] | Some n \<Rightarrow> [canonical n])"

text \<open>
  A command line for a request. The two requests without a format are what older clients send; the
  parser always asks for a format.
\<close>

definition typed :: "Request \<Rightarrow> string list option" where
  "typed r = (case r of
      List \<Rightarrow> None
    | Status _ _ \<Rightarrow> None
    | ListFormatted f \<Rightarrow> Some [''list'', format_option (list_format_word f)]
    | StatusFormatted u t f \<Rightarrow>
        Some ([''status'', tail_option t, format_option (status_format_word f)] @ unit_words u)
    | Start u \<Rightarrow> Some [''start'', canonical u]
    | Stop u \<Rightarrow> Some [''stop'', canonical u]
    | Restart u \<Rightarrow> Some [''restart'', canonical u]
    | ResetFailed u \<Rightarrow> Some [''reset-failed'', canonical u]
    | Log u t \<Rightarrow> Some ([''log'', tail_option t] @ unit_words u)
    | Reload \<Rightarrow> Some [''reload'']
    | Reboot \<Rightarrow> Some [''reboot'']
    | Poweroff \<Rightarrow> Some [''poweroff''])"

text \<open>A unit whose name starts with a dash reads as an option where options are allowed.\<close>

definition plain_name :: "Request \<Rightarrow> bool" where
  "plain_name r \<longleftrightarrow> (case r of
      StatusFormatted (Some u) _ _ \<Rightarrow> \<not> starts_with_char (CHR ''-'') (canonical u)
    | Log (Some u) _ \<Rightarrow> \<not> starts_with_char (CHR ''-'') (canonical u)
    | _ \<Rightarrow> True)"

lemma parse_unit_canonical: "wf_unit_name u \<Longrightarrow> parse_unit (canonical u) = Inr u"
  by (simp add: parse_unit_def wf_unit_name_iff_parse)

lemma parse_tail_show: "t \<le> u32_max \<Longrightarrow> parse_tail (show_nat t) = Inr t"
  by (simp add: parse_tail_def parse_uint_show_nat)

lemma format_words [simp]:
  "parse_list_format (list_format_word f) = Inr f" "parse_status_format (status_format_word g) = Inr g"
  by (cases f; simp add: parse_list_format_def list_format_word_def list_format_parse_def)
     (cases g; simp add: parse_status_format_def status_format_word_def status_format_parse_def)

lemma take_unit_canonical:
  "wf_unit_name u \<Longrightarrow> \<not> starts_with_char (CHR ''-'') (canonical u) \<Longrightarrow> take_unit None (canonical u) = Inr (Some u)"
  by (simp add: take_unit_def parse_unit_canonical)

lemma no_prefix:
  "\<not> starts_with_char (CHR ''-'') a \<Longrightarrow> strip_prefix (CHR ''-'' # p) a = None"
  "\<not> starts_with_char (CHR ''-'') a \<Longrightarrow> a \<noteq> CHR ''-'' # p"
  by (cases a; simp add: strip_prefix_def starts_with_char_def)+

lemma strip_prefix_here: "strip_prefix p (p @ v) = Some v"
  by (simp add: strip_prefix_Some_iff)

lemma tail_steps [simp]:
  assumes "t \<le> u32_max"
  shows "log_step (tail_option t) rest s = Inr (s\<lparr>la_tail := t\<rparr>, False)"
    "status_step (tail_option t) rest st = Inr (st\<lparr>sa_tail := Some t\<rparr>, False)"
  using parse_tail_show [OF assms] strip_prefix_here [of "''--tail=''" "show_nat t"]
  by (simp_all add: log_step_def status_step_def tail_option_def)

lemma format_steps [simp]:
  "list_step (format_option (list_format_word f)) rest f0 = Inr (f, False)"
  "status_step (format_option (status_format_word g)) rest st = Inr (st\<lparr>sa_format := g\<rparr>, False)"
proof -
  show "list_step (format_option (list_format_word f)) rest f0 = Inr (f, False)"
    using strip_prefix_here [of "''--format=''" "list_format_word f"]
    by (simp add: list_step_def format_option_def)
  have "strip_prefix ''--tail='' (format_option w) = None" "format_option w \<noteq> ''--tail''" for w
    by (simp_all add: strip_prefix_def format_option_def)
  moreover have "strip_prefix ''--format='' (format_option w) = Some w" for w
    unfolding format_option_def by (rule strip_prefix_here)
  ultimately show "status_step (format_option (status_format_word g)) rest st = Inr (st\<lparr>sa_format := g\<rparr>, False)"
    by (simp add: status_step_def)
qed

lemma unit_argument:
  assumes "wf_unit_name u" "\<not> starts_with_char (CHR ''-'') (canonical u)"
  shows "la_unit s = None \<Longrightarrow> log_step (canonical u) rest s = Inr (s\<lparr>la_unit := Some u\<rparr>, False)"
    "sa_unit st = None \<Longrightarrow> status_step (canonical u) rest st = Inr (st\<lparr>sa_unit := Some u\<rparr>, False)"
  using take_unit_canonical [OF assms] by (simp_all add: log_step_def status_step_def no_prefix [OF assms(2)])

text \<open>
  Every request with a format can be typed: the command line written for it is parsed
  back to exactly that request, for every unit name, count and format, as long as a unit's name does
  not look like an option.
\<close>

theorem typed_request_round_trip:
  assumes "wf_request r" "plain_name r" "typed r = Some args"
  shows "command_line args = Inr (PRequest r)"
proof (cases r)
  case (StatusFormatted u t f)
  have "parse_status ([tail_option t, format_option (status_format_word f)] @ unit_words u) = Inr (u, t, f)"
    using assms(1,2) StatusFormatted
    by (cases u) (simp_all add: parse_status_def unit_words_def wf_request_def plain_name_def unit_argument)
  then show ?thesis using assms(3) StatusFormatted by (auto simp: typed_def command_line_def)
next
  case (Log u t)
  have "parse_log ([tail_option t] @ unit_words u) = Inr (PRequest (Log u t))"
    using assms(1,2) Log
    by (cases u) (simp_all add: parse_log_def unit_words_def wf_request_def plain_name_def unit_argument)
  then show ?thesis using assms(3) Log by (auto simp: typed_def command_line_def)
next
  case (ListFormatted f)
  have "parse_list [format_option (list_format_word f)] = Inr f" by (simp add: parse_list_def)
  then show ?thesis using assms(3) ListFormatted by (auto simp: typed_def command_line_def)
qed (use assms parse_unit_canonical in \<open>auto simp: typed_def command_line_def wf_request_def
      ensure_no_arguments_def\<close>)

theorem typed_request_round_trip_witness:
  "command_line [''log'', tail_option 20, ''web.service''] =
     Inr (PRequest (Log (Some (UnitName ''web.service'' Service)) 20))"
proof -
  let ?r = "Log (Some (UnitName ''web.service'' Service)) 20"
  have "wf_unit_name (UnitName ''web.service'' Service)" unfolding wf_unit_name_iff_parse by code_simp
  then have "wf_request ?r" by (simp add: wf_request_def u32_max_value)
  moreover have "plain_name ?r" by (simp add: plain_name_def starts_with_char_def)
  ultimately show ?thesis
    using typed_request_round_trip [of ?r "[''log'', tail_option 20, ''web.service'']"]
    by (simp add: typed_def unit_words_def)
qed

end
