(* ===== verification/Control_Server.thy ===== *)
theory Control_Server
  imports Rctl_Cli Privileges Os
begin

text \<open>
  Both ends of the control socket: the server of \<open>rinit/src/control.rs\<close> with the credentials of
  \<open>rinit-runtime/src/syscall/socket.rs\<close>, and the client of \<open>rctl/src/client.rs\<close>. What the kernel and
  the channel to the main loop answer are fields of records; a stream is the bytes the peer sends in
  time and how it ends.

  The properties: a request reaches the main loop only from an allowed peer, and no byte of another
  peer is read; over a connection that does not break, the request of the client is the one the main
  loop gets and its answer is the one the client returns; the umask is restored on every path.
\<close>

unbundle bit_operations_syntax

section \<open>Binding the socket\<close>

definition CONTROL_DIR :: string where "CONTROL_DIR = ''/run/rinit''"

text \<open>The argument is the variable \<open>RINIT_CONTROL_DIR\<close>; one that is not UTF-8 is an error of \<open>env::var\<close>.\<close>

definition control_dir :: "string option \<Rightarrow> string" where
  "control_dir var = (case var of
      Some dir \<Rightarrow> if utf8_valid dir \<and> dir \<noteq> [] then dir else CONTROL_DIR
    | None \<Rightarrow> CONTROL_DIR)"

definition control_socket :: "string option \<Rightarrow> string" where
  "control_socket var = path_join (control_dir var) ''control.sock''"

text \<open>
  The answers of the file system, \<open>None\<close> for success; the umask of the process and the mode of the
  socket file, when there is one.
\<close>

record ServerOs =
  so_mkdir :: "string \<Rightarrow> 32 word \<Rightarrow> IoError option"
  so_remove :: "string \<Rightarrow> IoError option"
  so_bind :: "string \<Rightarrow> IoError option"
  so_chmod :: "string \<Rightarrow> int option"

record SocketFile =
  sf_umask :: "32 word"
  sf_mode :: "32 word option"

definition set_umask :: "32 word \<Rightarrow> SocketFile \<Rightarrow> 32 word \<times> SocketFile" where
  "set_umask m s = (sf_umask s, s\<lparr>sf_umask := m AND 0x1FF\<rparr>)"

definition remove_socket :: "ServerOs \<Rightarrow> string \<Rightarrow> SocketFile \<Rightarrow> SocketFile" where
  "remove_socket S p s = (if so_remove S p = None then s\<lparr>sf_mode := None\<rparr> else s)"

definition bind_socket :: "ServerOs \<Rightarrow> string \<Rightarrow> SocketFile \<Rightarrow> IoError option \<times> SocketFile" where
  "bind_socket S p s = (case so_bind S p of
      Some e \<Rightarrow> (Some e, s)
    | None \<Rightarrow> (None, s\<lparr>sf_mode := Some (0x1FF AND NOT (sf_umask s))\<rparr>))"

definition chmod_socket :: "ServerOs \<Rightarrow> string \<Rightarrow> 32 word \<Rightarrow> SocketFile \<Rightarrow> int option \<times> SocketFile" where
  "chmod_socket S p mode s = (case so_chmod S p of
      Some e \<Rightarrow> (Some e, s)
    | None \<Rightarrow> (None, s\<lparr>sf_mode := Some mode\<rparr>))"

text \<open>The socket to remove on shutdown, and whether an accept loop runs (with the \<open>dev\<close> flag).\<close>

record ControlServer =
  cs_socket :: "string option"
  cs_accept :: "bool option"

definition server_disabled :: ControlServer where
  "server_disabled = \<lparr>cs_socket = None, cs_accept = None\<rparr>"

definition try_bind :: "ServerOs \<Rightarrow> string option \<Rightarrow> bool \<Rightarrow> SocketFile \<Rightarrow> (RuntimeError + ControlServer) \<times> SocketFile" where
  "try_bind S var dev s =
     (let dir = control_dir var in
      case so_mkdir S dir 0x1C0 of
        Some e \<Rightarrow> (Inl (RtIo ''create control dir'' e), s)
      | None \<Rightarrow>
          (let path = path_join dir ''control.sock'';
               s1 = remove_socket S path s;
               (previous, s2) = set_umask 0x3F s1;
               (listener, s3) = bind_socket S path s2;
               (_, s4) = set_umask previous s3
           in case listener of
                Some e \<Rightarrow> (Inl (RtIo ''bind control socket'' e), s4)
              | None \<Rightarrow>
                  if \<not> utf8_valid path
                  then (Inl (RtIo ''control socket path''
                          (IoCustom ''InvalidInput'' ''control socket path is not valid UTF-8'')), s4)
                  else (case chmod_socket S path 0x180 s4 of
                      (Some e, s5) \<Rightarrow> (Inl (RtSyscall ''chmod'' e), s5)
                    | (None, s5) \<Rightarrow> (Inr \<lparr>cs_socket = Some path, cs_accept = Some dev\<rparr>, s5))))"

definition server_bind :: "ServerOs \<Rightarrow> string option \<Rightarrow> bool \<Rightarrow> SocketFile \<Rightarrow> ControlServer \<times> SocketFile" where
  "server_bind S var dev s =
     (let (r, s1) = try_bind S var dev s in (case r of Inl _ \<Rightarrow> server_disabled | Inr server \<Rightarrow> server, s1))"

definition disarm_socket :: "ServerOs \<Rightarrow> ControlServer \<Rightarrow> SocketFile \<Rightarrow> SocketFile" where
  "disarm_socket S server s = (case cs_socket server of Some p \<Rightarrow> remove_socket S p s | None \<Rightarrow> s)"

section \<open>Streams\<close>

datatype StreamEnd = PeerCloses | PeerStalls | PeerFails IoError

record Stream =
  st_bytes :: string
  st_end :: StreamEnd

text \<open>\<open>read_exact\<close> under a timeout: \<open>late\<close> is the error of one that runs out.\<close>

definition read_exact :: "IoError \<Rightarrow> nat \<Rightarrow> Stream \<Rightarrow> (IoError + string) \<times> Stream" where
  "read_exact late n s =
     (if n \<le> length (st_bytes s) then (Inr (take n (st_bytes s)), s\<lparr>st_bytes := drop n (st_bytes s)\<rparr>)
      else (Inl (case st_end s of
               PeerCloses \<Rightarrow> IoCustom ''UnexpectedEof'' ''failed to fill whole buffer''
             | PeerStalls \<Rightarrow> late
             | PeerFails e \<Rightarrow> e), s\<lparr>st_bytes := []\<rparr>))"

datatype FrameError = FrameIo IoError | FrameProtocol ProtocolError

definition read_frame :: "Stream \<Rightarrow> (FrameError + string) \<times> Stream" where
  "read_frame s =
     (case read_exact (IoCustom ''TimedOut'' ''timed out waiting for a request'') LENGTH_PREFIX_BYTES s of
        (Inl e, s1) \<Rightarrow> (Inl (FrameIo e), s1)
      | (Inr prefix, s1) \<Rightarrow>
          (case frame_len prefix of
             Inl e \<Rightarrow> (Inl (FrameProtocol e), s1)
           | Inr len \<Rightarrow>
               (case read_exact (IoCustom ''TimedOut'' ''timed out reading the request body'') len s1 of
                  (Inl e, s2) \<Rightarrow> (Inl (FrameIo e), s2)
                | (Inr body, s2) \<Rightarrow> (Inr body, s2))))"

section \<open>Serving a connection\<close>

record PeerCred =
  pc_pid :: int
  pc_uid :: nat
  pc_gid :: nat

definition is_root :: "PeerCred \<Rightarrow> bool" where
  "is_root c \<longleftrightarrow> pc_uid c = 0"

definition peer_allowed :: "bool \<Rightarrow> nat \<Rightarrow> nat \<Rightarrow> bool" where
  "peer_allowed dev peer_uid our_uid \<longleftrightarrow> peer_uid = 0 \<or> (dev \<and> peer_uid = our_uid)"

text \<open>
  A connection: the answer of \<open>getsockopt(SO_PEERCRED)\<close>, what the peer sends, and how writing to it
  fails, after how many bytes. The channel to the main loop: whether it takes the request, and what
  comes back.
\<close>

record Connection =
  cn_cred :: "int + PeerCred"
  cn_in :: Stream
  cn_write :: "(nat \<times> IoError) option"
  cn_flush :: "IoError option"

datatype Answer = Answered ReplyStatus string | SenderDropped | NotInTime

record Channel =
  ch_open :: bool
  ch_answer :: "Request \<Rightarrow> Answer"

record Served =
  se_rest :: Stream
  se_forwarded :: "Request option"
  se_written :: string
  se_error :: "IoError option"

definition await_reply :: "Answer \<Rightarrow> ReplyStatus \<times> string" where
  "await_reply a = (case a of
      Answered st t \<Rightarrow> (st, t)
    | SenderDropped \<Rightarrow> (RError, ''the request was dropped'')
    | NotInTime \<Rightarrow> (RError, ''timed out waiting for the manager; the request may still be running''))"

definition status_of :: "ProtocolError \<Rightarrow> ReplyStatus" where
  "status_of e = (case e of
      VersionMismatch _ _ \<Rightarrow> RVersionMismatch
    | UnknownCode _ \<Rightarrow> RUnknownCommand
    | _ \<Rightarrow> RBadRequest)"

definition write_response :: "Connection \<Rightarrow> ReplyStatus \<Rightarrow> string \<Rightarrow> string \<times> IoError option" where
  "write_response cn st t =
     (let bytes = frame (encode_response st t) in
      case cn_write cn of
        Some (n, e) \<Rightarrow> (take n bytes, Some e)
      | None \<Rightarrow> (bytes, cn_flush cn))"

text \<open>The message of a \<open>SyscallError\<close>; \<open>strerror\<close> is the text of the system's error.\<close>

definition peer_error_text :: "(int \<Rightarrow> string) \<Rightarrow> int \<Rightarrow> string" where
  "peer_error_text strerror e =
     ''getsockopt(SO_PEERCRED) failed: '' @ strerror e @ '' (errno ''
       @ (if e < 0 then ''-'' else []) @ show_nat (nat \<bar>e\<bar>) @ '')''"

definition respond :: "Connection \<Rightarrow> Stream \<Rightarrow> Request option \<Rightarrow> ReplyStatus \<Rightarrow> string \<Rightarrow> Served" where
  "respond cn rest forwarded st t =
     (let (bytes, e) = write_response cn st t
      in \<lparr>se_rest = rest, se_forwarded = forwarded, se_written = bytes, se_error = e\<rparr>)"

definition hung_up :: "Stream \<Rightarrow> IoError option \<Rightarrow> Served" where
  "hung_up rest e = \<lparr>se_rest = rest, se_forwarded = None, se_written = [], se_error = e\<rparr>"

definition is_eof :: "IoError \<Rightarrow> bool" where
  "is_eof e = (case e of OsError _ \<Rightarrow> False | IoCustom kind _ \<Rightarrow> kind = ''UnexpectedEof'')"

definition serve :: "(int \<Rightarrow> string) \<Rightarrow> bool \<Rightarrow> nat \<Rightarrow> Channel \<Rightarrow> Connection \<Rightarrow> Served" where
  "serve strerror dev euid ch cn =
     (case cn_cred cn of
        Inl e \<Rightarrow> respond cn (cn_in cn) None RError (''cannot read peer credentials: '' @ peer_error_text strerror e)
      | Inr cred \<Rightarrow>
          if \<not> peer_allowed dev (pc_uid cred) euid
          then respond cn (cn_in cn) None RError ''the control socket is restricted to root''
          else (case read_frame (cn_in cn) of
              (Inl (FrameIo e), rest) \<Rightarrow> hung_up rest (if is_eof e then None else Some e)
            | (Inl (FrameProtocol e), rest) \<Rightarrow> respond cn rest None (status_of e) (protocol_error_text e)
            | (Inr body, rest) \<Rightarrow>
                (case decode_request body of
                   Inl e \<Rightarrow> respond cn rest None (status_of e) (protocol_error_text e)
                 | Inr request \<Rightarrow>
                     if \<not> ch_open ch then respond cn rest None RError ''rinit is shutting down''
                     else (let (st, t) = await_reply (ch_answer ch request)
                           in respond cn rest (Some request) st t))))"

section \<open>The client\<close>

datatype ClientError =
  CannotConnect string IoError | CannotSetTimeout IoError | CannotSend IoError | DidNotAnswer IoError
| BadFrame ProtocolError | AnswerTruncated IoError | AnswerMalformed ProtocolError

text \<open>The far end as the client sees it: the stream that comes back for the bytes it sent.\<close>

record Remote =
  re_connect :: "string \<Rightarrow> IoError option"
  re_timeouts :: "IoError option"
  re_write :: "IoError option"
  re_reply :: "string \<Rightarrow> Stream"

definition EAGAIN :: int where "EAGAIN = 11"

definition rctl_read_reply :: "Stream \<Rightarrow> ClientError + ReplyStatus \<times> string" where
  "rctl_read_reply s =
     (case read_exact (OsError EAGAIN) LENGTH_PREFIX_BYTES s of
        (Inl e, _) \<Rightarrow> Inl (DidNotAnswer e)
      | (Inr prefix, s1) \<Rightarrow>
          (case frame_len prefix of
             Inl e \<Rightarrow> Inl (BadFrame e)
           | Inr len \<Rightarrow>
               (case read_exact (OsError EAGAIN) len s1 of
                  (Inl e, _) \<Rightarrow> Inl (AnswerTruncated e)
                | (Inr body, _) \<Rightarrow>
                    (case decode_response body of
                       Inl e \<Rightarrow> Inl (AnswerMalformed e)
                     | Inr answer \<Rightarrow> Inr answer))))"

definition send :: "Remote \<Rightarrow> string option \<Rightarrow> Request \<Rightarrow> ClientError + ReplyStatus \<times> string" where
  "send R var request =
     (let path = control_socket var in
      case re_connect R path of
        Some e \<Rightarrow> Inl (CannotConnect path e)
      | None \<Rightarrow>
          (case re_timeouts R of
             Some e \<Rightarrow> Inl (CannotSetTimeout e)
           | None \<Rightarrow>
               (case re_write R of
                  Some e \<Rightarrow> Inl (CannotSend e)
                | None \<Rightarrow> rctl_read_reply (re_reply R (frame (encode_request request))))))"

section \<open>Reading frames\<close>

lemma read_exact_prefix [simp]:
  "n = length a \<Longrightarrow> read_exact late n \<lparr>st_bytes = a @ b, st_end = e\<rparr> = (Inr a, \<lparr>st_bytes = b, st_end = e\<rparr>)"
  by (simp add: read_exact_def)

text \<open>A frame within the limit is the announced length, which the receiver accepts, and the body.\<close>

lemma frame_split:
  assumes "length body \<le> MAX_FRAME_BYTES"
  obtains prefix where "frame body = prefix @ body" "length prefix = LENGTH_PREFIX_BYTES"
    "frame_len prefix = Inr (length body)"
proof -
  let ?p = "take LENGTH_PREFIX_BYTES (frame body)"
  have "frame body = ?p @ body" "length ?p = LENGTH_PREFIX_BYTES"
    by (simp_all add: frame_def LENGTH_PREFIX_BYTES_def)
  with frame_parts [OF assms] that show thesis by blast
qed

lemma read_frame_frame:
  assumes "length body \<le> MAX_FRAME_BYTES"
  shows "read_frame \<lparr>st_bytes = frame body, st_end = e\<rparr> = (Inr body, \<lparr>st_bytes = [], st_end = e\<rparr>)"
proof -
  from frame_split [OF assms] obtain prefix where P: "frame body = prefix @ body"
    "length prefix = LENGTH_PREFIX_BYTES" "frame_len prefix = Inr (length body)" .
  show ?thesis
    using read_exact_prefix [of "length body" body _ "[]" e] by (simp add: read_frame_def P)
qed

lemma rctl_read_reply_frame:
  assumes "length body \<le> MAX_FRAME_BYTES" "decode_response body = Inr answer"
  shows "rctl_read_reply \<lparr>st_bytes = frame body, st_end = e\<rparr> = Inr answer"
proof -
  from frame_split [OF assms(1)] obtain prefix where P: "frame body = prefix @ body"
    "length prefix = LENGTH_PREFIX_BYTES" "frame_len prefix = Inr (length body)" .
  show ?thesis
    using read_exact_prefix [of "length body" body _ "[]" e] assms(2) by (simp add: rctl_read_reply_def P)
qed

lemma encode_response_reads:
  assumes "utf8_valid t"
  shows "length (encode_response st t) \<le> MAX_FRAME_BYTES"
    and "decode_response (encode_response st t) = Inr (st, sent_text t)"
  using length_sent_text [of t] reply_code [of st] utf8_sent_text [OF assms]
  by (simp_all add: encode_response_eq decode_response_def MAX_FRAME_BYTES_def)

lemma decode_request_wf: "decode_request body = Inr r \<Longrightarrow> wf_request r"
  by (auto simp: decode_request_def rbind_Inr_iff split: if_splits dest: decode_body_wf)

section \<open>The server\<close>

lemma respond_simps [simp]:
  "se_rest (respond cn rest fw st t) = rest" "se_forwarded (respond cn rest fw st t) = fw"
  "cn_write cn = None \<Longrightarrow> se_written (respond cn rest fw st t) = frame (encode_response st t)"
  by (simp_all add: respond_def write_response_def Let_def split: prod.split option.split)

lemma hung_up_simps [simp]: "se_forwarded (hung_up rest e) = None"
  by (simp add: hung_up_def)

definition admitted :: "bool \<Rightarrow> nat \<Rightarrow> Connection \<Rightarrow> bool" where
  "admitted dev euid cn = (case cn_cred cn of Inl _ \<Rightarrow> False | Inr c \<Rightarrow> is_root c \<or> (dev \<and> pc_uid c = euid))"

text \<open>
  Property C32. A request reaches the main loop only over a connection whose peer the kernel names as
  root, or as rinit's own user in \<open>--dev\<close>, and it is then a well-formed request that was the whole
  body of the frame the peer sent. From any other peer nothing is read at all.
\<close>

theorem control_only_for_entitled:
  "(\<forall>r. se_forwarded (serve strerror dev euid ch cn) = Some r \<longrightarrow>
      admitted dev euid cn \<and> wf_request r
      \<and> (\<exists>body rest. read_frame (cn_in cn) = (Inr body, rest) \<and> decode_request body = Inr r))
   \<and> (\<not> admitted dev euid cn \<longrightarrow>
        se_forwarded (serve strerror dev euid ch cn) = None \<and> se_rest (serve strerror dev euid ch cn) = cn_in cn)"
  by (auto simp: serve_def admitted_def is_root_def peer_allowed_def Let_def dest: decode_request_wf
      split: sum.splits prod.splits FrameError.splits if_splits)

text \<open>Binding leaves the umask alone on every path, and an accept loop only runs on a socket of mode \<open>0600\<close>.\<close>

lemma server_bind_result:
  assumes "sf_umask s AND 0x1FF = sf_umask s" "server_bind S var dev s = (server, s')"
  shows "sf_umask s' = sf_umask s
    \<and> (cs_accept server = None \<and> cs_socket server = None
       \<or> cs_accept server = Some dev \<and> cs_socket server = Some (control_socket var) \<and> sf_mode s' = Some 0x180)"
  using assms
  by (auto simp: server_bind_def try_bind_def Let_def set_umask_def remove_socket_def bind_socket_def
      chmod_socket_def server_disabled_def control_socket_def split: option.splits prod.splits if_splits)

text \<open>Until the \<open>chmod\<close>, the mask \<open>0o077\<close> leaves the new socket the owner's execute bit.\<close>

lemma bound_mode:
  "so_bind S p = None \<Longrightarrow> sf_mode (snd (bind_socket S p (snd (set_umask 0x3F s)))) = Some 0x1C0"
  by (simp add: bind_socket_def set_umask_def)

section \<open>An exchange\<close>

text \<open>
  A client connected to the server: what it writes is what the server reads, and what the server
  writes comes back. The specification is the answer without the wire.
\<close>

definition connection :: "PeerCred \<Rightarrow> string \<Rightarrow> Connection" where
  "connection cred bytes = \<lparr>cn_cred = Inr cred, cn_in = \<lparr>st_bytes = bytes, st_end = PeerStalls\<rparr>,
     cn_write = None, cn_flush = None\<rparr>"

definition connected :: "(int \<Rightarrow> string) \<Rightarrow> bool \<Rightarrow> nat \<Rightarrow> Channel \<Rightarrow> PeerCred \<Rightarrow> Remote" where
  "connected strerror dev euid ch cred = \<lparr>re_connect = (\<lambda>p. None), re_timeouts = None, re_write = None,
     re_reply = (\<lambda>bytes. \<lparr>st_bytes = se_written (serve strerror dev euid ch (connection cred bytes)),
                          st_end = PeerCloses\<rparr>)\<rparr>"

definition direct_answer :: "bool \<Rightarrow> nat \<Rightarrow> Channel \<Rightarrow> PeerCred \<Rightarrow> Request \<Rightarrow> ReplyStatus \<times> string" where
  "direct_answer dev euid ch cred r =
     (if \<not> peer_allowed dev (pc_uid cred) euid then (RError, ''the control socket is restricted to root'')
      else if \<not> ch_open ch then (RError, ''rinit is shutting down'')
      else await_reply (ch_answer ch r))"

lemma serve_request:
  assumes "wf_request r"
  shows "se_written (serve strerror dev euid ch (connection cred (frame (encode_request r)))) =
      frame (encode_response (fst (direct_answer dev euid ch cred r)) (snd (direct_answer dev euid ch cred r)))
    \<and> se_forwarded (serve strerror dev euid ch (connection cred (frame (encode_request r)))) =
      (if peer_allowed dev (pc_uid cred) euid \<and> ch_open ch then Some r else None)"
proof -
  have "length (encode_request r) \<le> MAX_FRAME_BYTES"
    using encode_request_short [OF assms] by (simp add: MAX_FRAME_BYTES_def)
  then show ?thesis
    using decode_encode_request [OF assms]
    by (simp add: serve_def connection_def direct_answer_def read_frame_frame split: prod.split)
qed

theorem exchange_is_direct:
  assumes "wf_request r" "utf8_valid (snd (direct_answer dev euid ch cred r))"
  shows "send (connected strerror dev euid ch cred) var r =
      Inr (map_prod id sent_text (direct_answer dev euid ch cred r))"
  using rctl_read_reply_frame [OF encode_response_reads [OF assms(2)]] serve_request [OF assms(1)]
  by (simp add: send_def connected_def map_prod_def split: prod.split)

theorem control_only_for_entitled_witness:
  "se_forwarded (serve (\<lambda>_. []) False 0 \<lparr>ch_open = True, ch_answer = \<lambda>_. SenderDropped\<rparr>
      (connection \<lparr>pc_pid = 7, pc_uid = 1000, pc_gid = 0\<rparr> (frame (encode_request Reload)))) = None"
proof -
  let ?cn = "connection \<lparr>pc_pid = 7, pc_uid = 1000, pc_gid = 0\<rparr> (frame (encode_request Reload))"
  have "\<not> admitted False 0 ?cn" by (simp add: admitted_def connection_def is_root_def)
  with control_only_for_entitled [of "\<lambda>_. []" False 0 _ ?cn] show ?thesis by blast
qed

end
