(* ===== verification/Log_File.thy ===== *)
theory Log_File
  imports Supervise_Safety
begin

text \<open>
  Capturing and persisting service output (\<open>rinit/src/logs.rs\<close>): the pump that cuts a pipe into lines,
  the bounded queue in front of the log file, and the file with its rotation. The file system is a map
  from paths to contents, changed as POSIX says by each call that succeeds; the record \<open>LogFs\<close> decides
  which calls fail, and may do so differently at every call. The handle the code holds always names the
  current path: it is closed before a new file is created there.
\<close>

section \<open>The file system\<close>

record LogFs =
  ls_create_dir :: "nat \<Rightarrow> string \<Rightarrow> int option"
  ls_open :: "nat \<Rightarrow> string \<Rightarrow> int option"
  ls_metadata :: "nat \<Rightarrow> string \<Rightarrow> int option"
  ls_write :: "nat \<Rightarrow> string \<Rightarrow> (nat \<times> int) option"
  ls_set_len :: "nat \<Rightarrow> string \<Rightarrow> int option"
  ls_remove :: "nat \<Rightarrow> string \<Rightarrow> int option"
  ls_rename :: "nat \<Rightarrow> string \<Rightarrow> string \<Rightarrow> int option"
  ls_now :: "nat \<Rightarrow> instant"

record Fs =
  fs_disk :: "string \<Rightarrow> string option"
  fs_calls :: nat
  fs_warnings :: "int list"

definition content :: "Fs \<Rightarrow> string \<Rightarrow> string" where
  "content s p = (case fs_disk s p of None \<Rightarrow> [] | Some t \<Rightarrow> t)"

definition tick :: "Fs \<Rightarrow> Fs" where
  "tick s = s\<lparr>fs_calls := Suc (fs_calls s)\<rparr>"

definition put_file :: "string \<Rightarrow> string \<Rightarrow> Fs \<Rightarrow> Fs" where
  "put_file p t s = s\<lparr>fs_disk := (fs_disk s)(p \<mapsto> t)\<rparr>"

text \<open>\<open>OpenOptions::new().create(true).append(true).open\<close>\<close>

definition fs_open :: "LogFs \<Rightarrow> string \<Rightarrow> Fs \<Rightarrow> int option \<times> Fs" where
  "fs_open F p s = (case ls_open F (fs_calls s) p of
      Some e \<Rightarrow> (Some e, tick s) | None \<Rightarrow> (None, tick (put_file p (content s p) s)))"

text \<open>\<open>file.metadata().map(|meta| meta.len()).unwrap_or(0)\<close>\<close>

definition fs_len :: "LogFs \<Rightarrow> string \<Rightarrow> Fs \<Rightarrow> nat \<times> Fs" where
  "fs_len F p s = (if ls_metadata F (fs_calls s) p = None then length (content s p) else 0, tick s)"

text \<open>A failed \<open>write_all\<close> may have written the first bytes.\<close>

definition fs_write :: "LogFs \<Rightarrow> string \<Rightarrow> string \<Rightarrow> Fs \<Rightarrow> int option \<times> Fs" where
  "fs_write F p t s = (case ls_write F (fs_calls s) t of
      Some (n, e) \<Rightarrow> (Some e, tick (put_file p (content s p @ take n t) s))
    | None \<Rightarrow> (None, tick (put_file p (content s p @ t) s)))"

definition fs_set_len0 :: "LogFs \<Rightarrow> string \<Rightarrow> Fs \<Rightarrow> int option \<times> Fs" where
  "fs_set_len0 F p s = (case ls_set_len F (fs_calls s) p of
      Some e \<Rightarrow> (Some e, tick s) | None \<Rightarrow> (None, tick (put_file p [] s)))"

definition fs_remove :: "LogFs \<Rightarrow> string \<Rightarrow> Fs \<Rightarrow> int option \<times> Fs" where
  "fs_remove F p s = (case ls_remove F (fs_calls s) p of
      Some e \<Rightarrow> (Some e, tick s)
    | None \<Rightarrow> if fs_disk s p = None then (Some ENOENT, tick s)
              else (None, tick (s\<lparr>fs_disk := (fs_disk s)(p := None)\<rparr>)))"

definition fs_rename :: "LogFs \<Rightarrow> string \<Rightarrow> string \<Rightarrow> Fs \<Rightarrow> int option \<times> Fs" where
  "fs_rename F p q s = (case ls_rename F (fs_calls s) p q of
      Some e \<Rightarrow> (Some e, tick s)
    | None \<Rightarrow> if fs_disk s p = None then (Some ENOENT, tick s)
              else (None, tick (s\<lparr>fs_disk := (fs_disk s)(p := None, q := fs_disk s p)\<rparr>)))"

section \<open>The log file\<close>

record LogFile =
  lg_open :: bool
  lg_path :: string
  lg_written :: nat
  lg_max :: nat
  lg_keep :: nat
  lg_warned :: bool

definition logfile_open :: "LogFs \<Rightarrow> string \<Rightarrow> nat \<Rightarrow> nat \<Rightarrow> Fs \<Rightarrow> (int + LogFile) \<times> Fs" where
  "logfile_open F path mx keep s =
     (let (dir, s1) = (case path_parent path of
            Some d \<Rightarrow> if d \<noteq> [] then (ls_create_dir F (fs_calls s) d, tick s) else (None, s)
          | None \<Rightarrow> (None, s))
      in case dir of
           Some e \<Rightarrow> (Inl e, s1)
         | None \<Rightarrow>
             (case fs_open F path s1 of
                (Some e, s2) \<Rightarrow> (Inl e, s2)
              | (None, s2) \<Rightarrow>
                  let (n, s3) = fs_len F path s2
                  in (Inr \<lparr>lg_open = True, lg_path = path, lg_written = n, lg_max = max mx 1, lg_keep = keep,
                           lg_warned = False\<rparr>, s3)))"

definition warn :: "int \<Rightarrow> LogFile \<Rightarrow> Fs \<Rightarrow> LogFile \<times> Fs" where
  "warn e lf s = (if lg_warned lf then (lf, s)
     else (lf\<lparr>lg_warned := True\<rparr>, s\<lparr>fs_warnings := fs_warnings s @ [e]\<rparr>))"

definition rotated_path :: "LogFile \<Rightarrow> nat \<Rightarrow> string" where
  "rotated_path lf i = lg_path lf @ ''.'' @ show_nat i"

definition reopen :: "LogFs \<Rightarrow> LogFile \<Rightarrow> Fs \<Rightarrow> bool \<times> LogFile \<times> Fs" where
  "reopen F lf s = (case fs_open F (lg_path lf) s of
      (None, s1) \<Rightarrow> (let (n, s2) = fs_len F (lg_path lf) s1 in (True, lf\<lparr>lg_written := n, lg_open := True\<rparr>, s2))
    | (Some e, s1) \<Rightarrow> (False, warn e (lf\<lparr>lg_open := False\<rparr>) s1))"

definition TRUNCATED :: string where
  "TRUNCATED = ''log truncated: the previous contents were dropped'' @ [newline]"

definition truncate_file :: "LogFs \<Rightarrow> nat \<Rightarrow> LogFile \<Rightarrow> Fs \<Rightarrow> bool \<times> LogFile \<times> Fs" where
  "truncate_file F room lf s =
     (let (ok, lf1, s1) = (if lg_open lf then (True, lf, s) else reopen F lf s)
      in if \<not> ok then (False, lf1, s1)
         else
           let fits = sat_add u64_max (length TRUNCATED) room \<le> lg_max lf1;
               (r, s2) = (case fs_set_len0 F (lg_path lf1) s1 of
                   (Some e, s2) \<Rightarrow> (Some e, s2)
                 | (None, s2) \<Rightarrow> if fits then fs_write F (lg_path lf1) TRUNCATED s2 else (None, s2))
           in (case r of
                 None \<Rightarrow> (True, lf1\<lparr>lg_written := (if fits then length TRUNCATED else 0), lg_warned := False\<rparr>, s2)
               | Some e \<Rightarrow> (False, warn e lf1 s2)))"

definition missing :: "int option \<Rightarrow> bool" where
  "missing r \<longleftrightarrow> r = None \<or> r = Some ENOENT"

text \<open>A file that is not there needs no work; any other error is reported and the rotation goes on.\<close>

definition tolerate :: "int option \<Rightarrow> LogFile \<Rightarrow> Fs \<Rightarrow> LogFile \<times> Fs" where
  "tolerate r lf s = (if missing r then (lf, s) else warn (the r) lf s)"

text \<open>Shift \<open>path.i\<close> to \<open>path.(i+1)\<close>, from the oldest kept one down.\<close>

fun shift_rotated :: "LogFs \<Rightarrow> nat \<Rightarrow> LogFile \<Rightarrow> Fs \<Rightarrow> LogFile \<times> Fs" where
  "shift_rotated F 0 lf s = (lf, s)"
| "shift_rotated F (Suc i) lf s =
     (let (r, s1) = fs_rename F (rotated_path lf (Suc i)) (rotated_path lf (Suc (Suc i))) s;
          (lf2, s2) = tolerate r lf s1
      in shift_rotated F i lf2 s2)"

definition make_space :: "LogFs \<Rightarrow> LogFile \<Rightarrow> Fs \<Rightarrow> LogFile \<times> Fs" where
  "make_space F lf s =
     (let (r, s1) = fs_remove F (rotated_path lf (lg_keep lf)) s; (lf2, s2) = tolerate r lf s1
      in shift_rotated F (lg_keep lf2 - 1) lf2 s2)"

definition start_new :: "LogFs \<Rightarrow> LogFile \<Rightarrow> Fs \<Rightarrow> bool \<times> LogFile \<times> Fs" where
  "start_new F lf s =
     (let (ok, lf1, s1) = reopen F (lf\<lparr>lg_open := False\<rparr>) s
      in (ok, if ok then lf1\<lparr>lg_written := 0\<rparr> else lf1, s1))"

definition rotate_log :: "LogFs \<Rightarrow> nat \<Rightarrow> LogFile \<Rightarrow> Fs \<Rightarrow> bool \<times> LogFile \<times> Fs" where
  "rotate_log F room lf s =
     (if lg_keep lf = 0 then truncate_file F room lf s
      else
        let (lf1, s1) = make_space F lf s;
            (r, s2) = fs_rename F (lg_path lf1) (rotated_path lf1 1) s1
        in if missing r then start_new F lf1 s2
           else let (lf2, s3) = warn (the r) lf1 s2 in truncate_file F room lf2 s3)"

section \<open>Appending\<close>

text \<open>One turn of the loop, up to the write: an open file with room in it.\<close>

definition prepared :: "LogFs \<Rightarrow> nat \<Rightarrow> LogFile \<Rightarrow> Fs \<Rightarrow> bool \<times> LogFile \<times> Fs" where
  "prepared F room lf s =
     (let (ok, lf1, s1) = (if lg_open lf then (True, lf, s) else reopen F lf s)
      in if \<not> ok then (False, lf1, s1)
         else
           let (ok2, lf2, s2) = (if lg_max lf1 \<le> lg_written lf1 then rotate_log F room lf1 s1 else (True, lf1, s1))
           in (ok2 \<and> lg_open lf2, lf2, s2))"

text \<open>The loop over one record; \<open>rest\<close> is what is left of it.\<close>

partial_function (option) append_record :: "LogFs \<Rightarrow> string \<Rightarrow> LogFile \<Rightarrow> Fs \<Rightarrow> (bool \<times> LogFile \<times> Fs) option" where
  "append_record F rest lf s =
     (if rest = [] then Some (True, lf, s)
      else
        let (ok, lf2, s2) = prepared F (length rest) lf s
        in if \<not> ok then Some (False, lf2, s2)
           else
             let n = min (lg_max lf2 - lg_written lf2) (length rest);
                 (r, s3) = fs_write F (lg_path lf2) (take n rest) s2
             in (case r of
                   None \<Rightarrow> append_record F (drop n rest)
                     (lf2\<lparr>lg_written := sat_add u64_max (lg_written lf2) n, lg_warned := False\<rparr>) s3
                 | Some e \<Rightarrow> Some (False, warn e lf2 s3)))"

fun split_inclusive_aux :: "string \<Rightarrow> string \<Rightarrow> string list" where
  "split_inclusive_aux acc [] = (if acc = [] then [] else [rev acc])"
| "split_inclusive_aux acc (c # t) =
     (if c = newline then rev (c # acc) # split_inclusive_aux [] t else split_inclusive_aux (c # acc) t)"

definition split_inclusive :: "string \<Rightarrow> string list" where
  "split_inclusive t = split_inclusive_aux [] t"

fun append_records :: "LogFs \<Rightarrow> string list \<Rightarrow> LogFile \<Rightarrow> Fs \<Rightarrow> (LogFile \<times> Fs) option" where
  "append_records F [] lf s = Some (lf, s)"
| "append_records F (r # rs) lf s =
     (case append_record F r lf s of
        None \<Rightarrow> None
      | Some (ok, lf1, s1) \<Rightarrow> if ok then append_records F rs lf1 s1 else Some (lf1, s1))"

definition append_text :: "LogFs \<Rightarrow> string \<Rightarrow> LogFile \<Rightarrow> Fs \<Rightarrow> (LogFile \<times> Fs) option" where
  "append_text F t lf s = append_records F (split_inclusive t) lf s"

section \<open>The queue\<close>

definition LOG_QUEUE_MAX_LINES :: nat where "LOG_QUEUE_MAX_LINES = 4096"
definition LOG_QUEUE_MAX_BYTES :: nat where "LOG_QUEUE_MAX_BYTES = 256 * 1024"
definition LOG_DRAIN_MAX_LINES :: nat where "LOG_DRAIN_MAX_LINES = 256"
definition LOG_DRAIN_MAX_BYTES :: nat where "LOG_DRAIN_MAX_BYTES = 32 * 1024"

record QueueState =
  qs_lines :: "string list"
  qs_bytes :: nat
  qs_dropped :: nat

record FileQueue =
  fq_state :: QueueState
  fq_writer :: LogFile
  fq_max_batch :: nat

definition queue_new :: "LogFile \<Rightarrow> FileQueue" where
  "queue_new lf = \<lparr>fq_state = \<lparr>qs_lines = [], qs_bytes = 0, qs_dropped = 0\<rparr>, fq_writer = lf,
     fq_max_batch = max (min (lg_max lf) LOG_DRAIN_MAX_BYTES) 1\<rparr>"

fun shed :: "string list \<Rightarrow> nat \<Rightarrow> nat \<Rightarrow> string list \<times> nat \<times> nat" where
  "shed [] b d = ([], b, d)"
| "shed (l # ls) b d =
     (if LOG_QUEUE_MAX_LINES < length (l # ls) \<or> LOG_QUEUE_MAX_BYTES < b then shed ls (b - length l) (Suc d)
      else (l # ls, b, d))"

definition enqueue :: "string \<Rightarrow> QueueState \<Rightarrow> QueueState" where
  "enqueue t q =
     (let (ls, b, d) = shed (qs_lines q @ [t]) (sat_add u64_max (qs_bytes q) (length t)) (qs_dropped q)
      in q\<lparr>qs_lines := ls, qs_bytes := b, qs_dropped := d\<rparr>)"

text \<open>The batch, what stays, and the byte count of what stays.\<close>

fun take_batch :: "nat \<Rightarrow> string list \<Rightarrow> nat \<Rightarrow> string list \<Rightarrow> nat \<Rightarrow> string list \<times> string list \<times> nat" where
  "take_batch mx batch b [] left = (batch, [], left)"
| "take_batch mx batch b (l # ls) left =
     (if LOG_DRAIN_MAX_LINES \<le> length batch \<or> batch \<noteq> [] \<and> mx < b + length l then (batch, l # ls, left)
      else take_batch mx (batch @ [l]) (b + length l) ls (left - length l))"

definition dropped_note :: "nat \<Rightarrow> string" where
  "dropped_note d = (if 0 < d
     then ''rinit: warning: dropped '' @ show_nat d @ '' queued log line(s)'' @ [newline] else [])"

definition drain :: "LogFs \<Rightarrow> FileQueue \<Rightarrow> Fs \<Rightarrow> (nat \<times> FileQueue \<times> Fs) option" where
  "drain F fq s =
     (let q = fq_state fq;
          (batch, ls, b) = take_batch (fq_max_batch fq) [] 0 (qs_lines q) (qs_bytes q);
          fq1 = fq\<lparr>fq_state := \<lparr>qs_lines = ls, qs_bytes = b, qs_dropped = 0\<rparr>\<rparr>;
          t = dropped_note (qs_dropped q) @ concat batch
      in if t = [] then Some (length batch, fq1, s)
         else map_option (\<lambda>(lf, s1). (length batch, fq1\<lparr>fq_writer := lf\<rparr>, s1)) (append_text F t (fq_writer fq) s))"

fun flush_rounds :: "LogFs \<Rightarrow> nat \<Rightarrow> instant \<Rightarrow> FileQueue \<Rightarrow> Fs \<Rightarrow> (FileQueue \<times> Fs) option" where
  "flush_rounds F 0 until fq s = Some (fq, s)"
| "flush_rounds F (Suc n) until fq s =
     (if until \<le> ls_now F (fs_calls s) then Some (fq, tick s)
      else (case drain F fq (tick s) of
              None \<Rightarrow> None
            | Some (k, fq1, s1) \<Rightarrow> if k = 0 then Some (fq1, s1) else flush_rounds F n until fq1 s1))"

definition flush_file :: "LogFs \<Rightarrow> FileQueue \<Rightarrow> Fs \<Rightarrow> (FileQueue \<times> Fs) option" where
  "flush_file F fq s = flush_rounds F 64 (ls_now F (fs_calls s) + from_millis 50) fq (tick s)"

section \<open>Capturing\<close>

definition MAX_PENDING_LINE :: nat where "MAX_PENDING_LINE = 64 * 1024"

record ServiceLogs =
  sl_buffer :: LogBuffer
  sl_file :: "FileQueue option"

definition logs_new :: ServiceLogs where
  "logs_new = \<lparr>sl_buffer = with_defaults, sl_file = None\<rparr>"

definition persist_to :: "LogFs \<Rightarrow> string \<Rightarrow> nat \<Rightarrow> nat \<Rightarrow> ServiceLogs \<Rightarrow> Fs \<Rightarrow> ServiceLogs \<times> Fs" where
  "persist_to F path mx keep sl s = (case logfile_open F path mx keep s of
      (Inl e, s1) \<Rightarrow> (sl, s1)
    | (Inr lf, s1) \<Rightarrow> (sl\<lparr>sl_file := Some (queue_new lf)\<rparr>, s1))"

definition drain_file :: "LogFs \<Rightarrow> ServiceLogs \<Rightarrow> Fs \<Rightarrow> (ServiceLogs \<times> Fs) option" where
  "drain_file F sl s = (case sl_file sl of
      None \<Rightarrow> Some (sl, s)
    | Some fq \<Rightarrow> map_option (\<lambda>(_, fq1, s1). (sl\<lparr>sl_file := Some fq1\<rparr>, s1)) (drain F fq s))"

definition push_captured :: "nat \<Rightarrow> UnitName \<Rightarrow> string \<Rightarrow> ServiceLogs \<Rightarrow> ServiceLogs" where
  "push_captured overhead u t sl =
     (let sl1 = sl\<lparr>sl_buffer := log_push overhead (sl_buffer sl) u t\<rparr>
      in case sl_file sl1 of
           None \<Rightarrow> sl1
         | Some fq \<Rightarrow> sl1\<lparr>sl_file :=
             Some (fq\<lparr>fq_state := enqueue (canonical u @ '': '' @ t @ [newline]) (fq_state fq)\<rparr>)\<rparr>)"

definition trim_line :: "string \<Rightarrow> string" where
  "trim_line t = rev (dropWhile (\<lambda>c. c = newline \<or> c = CHR 0x0D) (rev t))"

definition cap_pending :: "string \<Rightarrow> string" where
  "cap_pending p = (if length p \<le> MAX_PENDING_LINE then p
     else take (floor_boundary p MAX_PENDING_LINE) p @ ''[truncated]'' @ [newline])"

text \<open>The position after the last line feed: \<open>rfind\<close>, plus one.\<close>

definition complete_len :: "string \<Rightarrow> nat" where
  "complete_len p = length (dropWhile (\<lambda>c. c \<noteq> newline) (rev p))"

text \<open>One successful read: the lines it completes and what stays pending.\<close>

definition pump_chunk :: "string \<Rightarrow> string \<Rightarrow> string list \<times> string" where
  "pump_chunk chunk pending =
     (let p = pending @ from_utf8_lossy chunk; n = complete_len p
      in (map trim_line (split_inclusive (take n p)), cap_pending (drop n p)))"

text \<open>All reads until the end of file, and the partial line that is left.\<close>

fun pump :: "string list \<Rightarrow> string \<Rightarrow> string list" where
  "pump [] pending = (if pending = [] then [] else [trim_line pending])"
| "pump (chunk # chunks) pending =
     (let (ls, p) = pump_chunk chunk pending in ls @ pump chunks p)"

end
