(* ===== verification/Log_File_Props.thy ===== *)
theory Log_File_Props
  imports Log_File
begin

text \<open>What the log path keeps: lines whatever the chunks, the newest of them within the bounds.\<close>

section \<open>Lines\<close>

lemma split_inclusive_simps:
  "split_inclusive [] = []"
  "newline \<notin> set a \<Longrightarrow> split_inclusive (a @ newline # t) = (a @ [newline]) # split_inclusive t"
  "newline \<notin> set a \<Longrightarrow> split_inclusive a = (if a = [] then [] else [a])"
proof -
  show "split_inclusive [] = []" by (simp add: split_inclusive_def)
  assume a: "newline \<notin> set a"
  have "newline \<notin> set xs \<Longrightarrow> split_inclusive_aux ys (xs @ newline # t) = (rev ys @ xs @ [newline]) # split_inclusive t" for xs ys
    by (induction xs arbitrary: ys) (auto simp: split_inclusive_def)
  from this [OF a, of "[]"] show "split_inclusive (a @ newline # t) = (a @ [newline]) # split_inclusive t"
    by (simp add: split_inclusive_def)
  have "newline \<notin> set xs \<Longrightarrow> split_inclusive_aux ys xs = (if ys = [] \<and> xs = [] then [] else [rev ys @ xs])" for xs ys
    by (induction xs arbitrary: ys) auto
  from this [OF a, of "[]"] show "split_inclusive a = (if a = [] then [] else [a])" by (simp add: split_inclusive_def)
qed

lemma concat_split_inclusive: "concat (split_inclusive t) = t"
proof -
  have "concat (split_inclusive_aux acc t) = rev acc @ t" for acc t by (induction t arbitrary: acc) auto
  then show ?thesis by (simp add: split_inclusive_def)
qed

text \<open>Cutting after a line feed cuts between lines.\<close>

lemma split_inclusive_cut: "split_inclusive (a @ newline # t) = split_inclusive (a @ [newline]) @ split_inclusive t"
proof (induction a rule: measure_induct_rule [of length])
  case (less a)
  show ?case
  proof (cases "newline \<in> set a")
    case True
    then obtain x y where a: "a = x @ newline # y" "newline \<notin> set x" by (meson split_list_first)
    with less [of y] show ?thesis by (simp add: split_inclusive_simps(2))
  next
    case False
    then show ?thesis
      using split_inclusive_simps(2) [OF False, of "[]"] by (simp add: split_inclusive_simps)
  qed
qed

lemma complete_len_cut:
  obtains "newline \<notin> set p" "complete_len p = 0"
  | a b where "p = a @ newline # b" "newline \<notin> set b" "complete_len p = Suc (length a)"
proof (cases "newline \<in> set p")
  case True
  then obtain a b where p: "p = a @ newline # b" "newline \<notin> set b" by (meson split_list_last)
  have "dropWhile (\<lambda>c. c \<noteq> newline) (rev b @ newline # rev a) = newline # rev a"
    using p(2) by (subst dropWhile_append2) auto
  with p that(2) show ?thesis by (simp add: complete_len_def)
next
  case False
  then have "dropWhile (\<lambda>c. c \<noteq> newline) (rev p) = []" by (auto simp: dropWhile_eq_Nil_conv)
  with False that(1) show ?thesis by (simp add: complete_len_def)
qed

lemma complete_split:
  "newline \<notin> set (drop (complete_len p) p)"
  "split_inclusive (p @ t) = split_inclusive (take (complete_len p) p) @ split_inclusive (drop (complete_len p) p @ t)"
  by (cases rule: complete_len_cut [of p]; use split_inclusive_cut [of _ "_ @ t"] in \<open>auto simp: split_inclusive_simps(1)\<close>)+

lemma next_chunk_of_valid:
  assumes "utf8_valid s" "s \<noteq> []"
  shows "snd (next_chunk s) \<and> utf8_valid (drop (fst (next_chunk s)) s)"
proof -
  obtain a r where s: "s = a # r" using assms(2) by (cases s) auto
  show ?thesis
    using assms(1) unfolding s
    by (cases r; cases "tl r"; cases "tl (tl r)") (auto simp: next_chunk_def split: if_splits)
qed

lemma lossy_id: "utf8_valid s \<Longrightarrow> from_utf8_lossy s = s"
proof (induction s rule: from_utf8_lossy.induct)
  case (1 s)
  then show ?case
    using next_chunk_of_valid [of s] by (cases "s = []") (simp_all add: from_utf8_lossy.simps [of s] from_utf8_lossy.simps [of "[]"])
qed

lemma short_rest:
  assumes "newline \<notin> set b" "\<And>l. l \<in> set (split_inclusive (b @ t)) \<Longrightarrow> length l \<le> n"
  shows "length b \<le> n"
proof (cases "newline \<in> set t")
  case True
  then obtain x y where t: "t = x @ newline # y" "newline \<notin> set x" by (meson split_list_first)
  with assms(1) have "split_inclusive (b @ t) = (b @ x @ [newline]) # split_inclusive y"
    using split_inclusive_simps(2) [of "b @ x" y] by simp
  with assms(2) [of "b @ x @ [newline]"] show ?thesis by simp
next
  case False
  with assms show ?thesis
    using split_inclusive_simps(3) [of "b @ t"] assms(2) [of "b @ t"] by (cases "b = []") auto
qed

lemma pump_lines:
  assumes "list_all utf8_valid chunks" "newline \<notin> set pending"
    and "\<And>l. l \<in> set (split_inclusive (pending @ concat chunks)) \<Longrightarrow> length l \<le> MAX_PENDING_LINE"
  shows "pump chunks pending = map trim_line (split_inclusive (pending @ concat chunks))"
  using assms
proof (induction chunks arbitrary: pending)
  case Nil
  then show ?case by (simp add: split_inclusive_simps(3))
next
  case (Cons c cs)
  define p where "p = pending @ c"
  define b where "b = drop (complete_len p) p"
  have b: "newline \<notin> set b" unfolding b_def by (rule complete_split)
  have lines: "split_inclusive (pending @ concat (c # cs))
      = split_inclusive (take (complete_len p) p) @ split_inclusive (b @ concat cs)"
    using complete_split(2) [of p "concat cs"] by (simp add: p_def b_def)
  then have short: "length l \<le> MAX_PENDING_LINE" if "l \<in> set (split_inclusive (b @ concat cs))" for l
    using Cons.prems(3) [of l] that by simp
  have "cap_pending b = b" using short_rest [of b "concat cs", OF b short] by (simp add: cap_pending_def)
  moreover have "from_utf8_lossy c = c" using Cons.prems(1) by (simp add: lossy_id)
  ultimately have "pump (c # cs) pending = map trim_line (split_inclusive (take (complete_len p) p)) @ pump cs b"
    by (simp add: pump_chunk_def Let_def p_def [symmetric] b_def [symmetric])
  also have "pump cs b = map trim_line (split_inclusive (b @ concat cs))"
    using Cons.prems(1) b short by (intro Cons.IH) auto
  finally show ?case unfolding lines by simp
qed

text \<open>
  Property C36. How the kernel cuts a pipe into reads does not matter: for reads that end between
  characters and lines within the bound, the lines captured are those of the whole output, in order.
\<close>
theorem pump_reads_whole_lines:
  assumes "list_all utf8_valid chunks"
    and "\<And>l. l \<in> set (split_inclusive (concat chunks)) \<Longrightarrow> length l \<le> MAX_PENDING_LINE"
  shows "pump chunks [] = map trim_line (split_inclusive (concat chunks))"
  using pump_lines [of chunks "[]"] assms by simp

theorem pump_reads_whole_lines_witness:
  "pump [''ab'', ''c'' @ [newline] @ ''d''] [] = [''abc'', ''d'']"
proof -
  have v: "list_all utf8_valid [''ab'', ''c'' @ [newline] @ ''d'']" by code_simp
  have s: "split_inclusive (concat [''ab'', ''c'' @ [newline] @ ''d'']) = [''abc'' @ [newline], ''d'']" by code_simp
  have "length l \<le> MAX_PENDING_LINE" if "l \<in> set (split_inclusive (concat [''ab'', ''c'' @ [newline] @ ''d'']))" for l
    using that unfolding s by (auto simp: MAX_PENDING_LINE_def)
  from pump_reads_whole_lines [OF v this] show ?thesis unfolding s by (simp add: trim_line_def)
qed

section \<open>The queue\<close>

definition wf_queue :: "QueueState \<Rightarrow> bool" where
  "wf_queue q \<longleftrightarrow> qs_bytes q = sum_list (map length (qs_lines q))
     \<and> length (qs_lines q) \<le> LOG_QUEUE_MAX_LINES \<and> qs_bytes q \<le> LOG_QUEUE_MAX_BYTES"

lemma shed_result:
  assumes "shed ls (sum_list (map length ls)) d = (ls', b', d')"
  shows "\<exists>old. ls = old @ ls' \<and> d' = d + length old \<and> b' = sum_list (map length ls')
    \<and> length ls' \<le> LOG_QUEUE_MAX_LINES \<and> b' \<le> LOG_QUEUE_MAX_BYTES
    \<and> (old = [] \<or> LOG_QUEUE_MAX_LINES \<le> length ls' \<or> LOG_QUEUE_MAX_BYTES < length (last old) + b')"
  using assms
proof (induction ls arbitrary: d)
  case (Cons l ls)
  show ?case
  proof (cases "LOG_QUEUE_MAX_LINES < length (l # ls) \<or> LOG_QUEUE_MAX_BYTES < sum_list (map length (l # ls))")
    case True
    then have "shed ls (sum_list (map length ls)) (Suc d) = (ls', b', d')" using Cons.prems by auto
    from Cons.IH [OF this] obtain old where o: "ls = old @ ls'" "d' = Suc d + length old" "b' = sum_list (map length ls')"
      "length ls' \<le> LOG_QUEUE_MAX_LINES" "b' \<le> LOG_QUEUE_MAX_BYTES"
      "old = [] \<or> LOG_QUEUE_MAX_LINES \<le> length ls' \<or> LOG_QUEUE_MAX_BYTES < length (last old) + b'" by auto
    then show ?thesis using True by (intro exI [of _ "l # old"]) (cases old; auto)
  next
    case False
    then show ?thesis using Cons.prems by (intro exI [of _ "[]"]) auto
  qed
qed simp

lemma enqueue_result:
  assumes "wf_queue q" "length t \<le> u64_max - LOG_QUEUE_MAX_BYTES"
  shows "\<exists>old. qs_lines q @ [t] = old @ qs_lines (enqueue t q) \<and> qs_dropped (enqueue t q) = qs_dropped q + length old
    \<and> wf_queue (enqueue t q)"
proof -
  have "LOG_QUEUE_MAX_BYTES \<le> u64_max" by (simp add: LOG_QUEUE_MAX_BYTES_def u64_max_value)
  then have "sat_add u64_max (qs_bytes q) (length t) = sum_list (map length (qs_lines q @ [t]))"
    using assms by (intro trans [OF sat_add_exact]) (auto simp: wf_queue_def)
  moreover obtain ls b d where s: "shed (qs_lines q @ [t]) (sum_list (map length (qs_lines q @ [t]))) (qs_dropped q) = (ls, b, d)"
    by (metis prod_cases3)
  ultimately have "enqueue t q = q\<lparr>qs_lines := ls, qs_bytes := b, qs_dropped := d\<rparr>" by (simp add: enqueue_def)
  with shed_result [OF s] show ?thesis by (auto simp: wf_queue_def)
qed

text \<open>
  The queue in front of the log file is bounded and honest: whatever is logged, it holds
  the newest lines in order, within both limits, and the number of lines it let go is counted.
\<close>
theorem log_queue_keeps_newest:
  assumes "wf_queue q" "\<And>t. t \<in> set ts \<Longrightarrow> length t \<le> u64_max - LOG_QUEUE_MAX_BYTES"
  shows "\<exists>old. qs_lines q @ ts = old @ qs_lines (fold enqueue ts q)
    \<and> qs_dropped (fold enqueue ts q) = qs_dropped q + length old
    \<and> length (qs_lines (fold enqueue ts q)) \<le> LOG_QUEUE_MAX_LINES
    \<and> sum_list (map length (qs_lines (fold enqueue ts q))) \<le> LOG_QUEUE_MAX_BYTES"
proof -
  have "\<exists>old. qs_lines q @ ts = old @ qs_lines (fold enqueue ts q)
    \<and> qs_dropped (fold enqueue ts q) = qs_dropped q + length old \<and> wf_queue (fold enqueue ts q)"
    using assms
  proof (induction ts arbitrary: q)
    case (Cons t ts)
    from enqueue_result [OF Cons.prems(1)] Cons.prems(2) obtain old where
      o: "qs_lines q @ [t] = old @ qs_lines (enqueue t q)" "qs_dropped (enqueue t q) = qs_dropped q + length old"
      "wf_queue (enqueue t q)" by auto
    from Cons.IH [OF o(3)] Cons.prems(2) obtain old' where
      o': "qs_lines (enqueue t q) @ ts = old' @ qs_lines (fold enqueue ts (enqueue t q))"
      "qs_dropped (fold enqueue ts (enqueue t q)) = qs_dropped (enqueue t q) + length old'"
      "wf_queue (fold enqueue ts (enqueue t q))" by auto
    have "qs_lines q @ t # ts = (old @ old') @ qs_lines (fold enqueue ts (enqueue t q))"
      using arg_cong [OF o(1), of "\<lambda>x. x @ ts"] o'(1) by simp
    with o o' show ?case by (intro exI [of _ "old @ old'"]) simp
  qed simp
  then show ?thesis by (auto simp: wf_queue_def)
qed

theorem log_queue_keeps_newest_witness:
  "qs_dropped (fold enqueue [''a'', ''b''] (fq_state (queue_new (LogFile.make True ''/l'' 0 9 0 False)))) \<le> 2"
proof -
  let ?q = "fq_state (queue_new (LogFile.make True ''/l'' 0 9 0 False))"
  have w: "wf_queue ?q" by (simp add: queue_new_def wf_queue_def)
  have "\<And>t. t \<in> set [''a'', ''b''] \<Longrightarrow> length t \<le> u64_max - LOG_QUEUE_MAX_BYTES"
    by (auto simp: u64_max_value LOG_QUEUE_MAX_BYTES_def)
  from log_queue_keeps_newest [OF w this] obtain old where
    o: "qs_lines ?q @ [''a'', ''b''] = old @ qs_lines (fold enqueue [''a'', ''b''] ?q)"
    "qs_dropped (fold enqueue [''a'', ''b''] ?q) = qs_dropped ?q + length old" by blast
  have "length old \<le> 2" using arg_cong [OF o(1), of length] by (simp add: queue_new_def del: fold_simps)
  with o(2) show ?thesis by (simp add: queue_new_def del: fold_simps)
qed

end
