(* ===== verification/Log_Rotation.thy ===== *)
theory Log_Rotation
  imports Log_File_Props
begin

text \<open>
  The log file: every append returns, the files stay within their bound, and, as long as nothing fails,
  together they hold the newest bytes of the log.
\<close>

section \<open>Appending returns\<close>

lemma warn_fields [simp]:
  "lg_open (fst (warn e lf s)) = lg_open lf" "lg_path (fst (warn e lf s)) = lg_path lf"
  "lg_written (fst (warn e lf s)) = lg_written lf" "lg_max (fst (warn e lf s)) = lg_max lf"
  "lg_keep (fst (warn e lf s)) = lg_keep lf" "fs_disk (snd (warn e lf s)) = fs_disk s"
  by (simp_all add: warn_def)

lemma reopen_fields [simp]:
  "lg_path (fst (snd (reopen F lf s))) = lg_path lf" "lg_max (fst (snd (reopen F lf s))) = lg_max lf"
  "lg_keep (fst (snd (reopen F lf s))) = lg_keep lf"
  by (simp_all add: reopen_def case_prod_beta split: option.split)

lemma truncate_fields [simp]:
  "lg_path (fst (snd (truncate_file F n lf s))) = lg_path lf" "lg_max (fst (snd (truncate_file F n lf s))) = lg_max lf"
  "lg_keep (fst (snd (truncate_file F n lf s))) = lg_keep lf"
  by (simp_all add: truncate_file_def case_prod_beta Let_def split: option.split)

lemma tolerate_fields [simp]:
  "lg_open (fst (tolerate r lf s)) = lg_open lf" "lg_path (fst (tolerate r lf s)) = lg_path lf"
  "lg_max (fst (tolerate r lf s)) = lg_max lf" "lg_keep (fst (tolerate r lf s)) = lg_keep lf"
  "lg_written (fst (tolerate r lf s)) = lg_written lf" "fs_disk (snd (tolerate r lf s)) = fs_disk s"
  by (simp_all add: tolerate_def)

lemma shift_fields [simp]:
  "lg_open (fst (shift_rotated F n lf s)) = lg_open lf" "lg_path (fst (shift_rotated F n lf s)) = lg_path lf"
  "lg_max (fst (shift_rotated F n lf s)) = lg_max lf" "lg_keep (fst (shift_rotated F n lf s)) = lg_keep lf"
  "lg_written (fst (shift_rotated F n lf s)) = lg_written lf"
  by (induction n arbitrary: lf s) (simp_all add: case_prod_beta Let_def)

lemma make_space_fields [simp]:
  "lg_open (fst (make_space F lf s)) = lg_open lf" "lg_path (fst (make_space F lf s)) = lg_path lf"
  "lg_max (fst (make_space F lf s)) = lg_max lf" "lg_keep (fst (make_space F lf s)) = lg_keep lf"
  "lg_written (fst (make_space F lf s)) = lg_written lf"
  by (simp_all add: make_space_def case_prod_beta Let_def)

lemma start_new_fields [simp]:
  "lg_path (fst (snd (start_new F lf s))) = lg_path lf" "lg_max (fst (snd (start_new F lf s))) = lg_max lf"
  "lg_keep (fst (snd (start_new F lf s))) = lg_keep lf"
  by (simp_all add: start_new_def case_prod_beta Let_def)

lemma rotate_log_fields [simp]:
  "lg_path (fst (snd (rotate_log F n lf s))) = lg_path lf" "lg_max (fst (snd (rotate_log F n lf s))) = lg_max lf"
  "lg_keep (fst (snd (rotate_log F n lf s))) = lg_keep lf"
  by (simp_all add: rotate_log_def case_prod_beta Let_def)

lemma truncate_room:
  assumes "fst (truncate_file F n lf s)" "0 < lg_max lf" "0 < n" "lg_max lf \<le> u64_max"
  shows "lg_written (fst (snd (truncate_file F n lf s))) < lg_max lf"
proof -
  have "length TRUNCATED < u64_max" by (simp add: TRUNCATED_def u64_max_value)
  then have "length TRUNCATED < lg_max lf" if "sat_add u64_max (length TRUNCATED) n \<le> lg_max lf"
    using that assms(3,4) by (auto simp: sat_add_def min_def split: if_splits)
  with assms show ?thesis
    by (auto simp: truncate_file_def case_prod_beta Let_def split: if_splits option.splits)
qed

lemma rotate_log_room:
  assumes "fst (rotate_log F n lf s)" "0 < lg_max lf" "0 < n" "lg_max lf \<le> u64_max"
  shows "lg_written (fst (snd (rotate_log F n lf s))) < lg_max lf"
proof -
  obtain lf1 s1 where m: "make_space F lf s = (lf1, s1)" by fastforce
  obtain r s2 where r: "fs_rename F (lg_path lf1) (rotated_path lf1 (Suc 0)) s1 = (r, s2)" by fastforce
  obtain lf2 s3 where w: "warn (the r) lf1 s2 = (lf2, s3)" by fastforce
  have "lg_max lf2 = lg_max lf" using make_space_fields(3) [of F lf s] warn_fields(4) [of "the r" lf1 s2] m w by simp
  with assms truncate_room [of F n lf2 s3] truncate_room [of F n lf s] show ?thesis
    by (auto simp: rotate_log_def start_new_def m r w case_prod_beta Let_def split: if_splits)
qed

lemma prepared_fields [simp]:
  "lg_path (fst (snd (prepared F n lf s))) = lg_path lf" "lg_max (fst (snd (prepared F n lf s))) = lg_max lf"
  "lg_keep (fst (snd (prepared F n lf s))) = lg_keep lf"
  by (simp_all add: prepared_def case_prod_beta Let_def)

lemma prepared_room:
  assumes "fst (prepared F n lf s)" "0 < lg_max lf" "0 < n" "lg_max lf \<le> u64_max"
  shows "lg_open (fst (snd (prepared F n lf s)))" "lg_written (fst (snd (prepared F n lf s))) < lg_max lf"
proof -
  obtain ok lf1 s1 where o: "(if lg_open lf then (True, lf, s) else reopen F lf s) = (ok, lf1, s1)" by (metis prod_cases3)
  then have m: "lg_max lf1 = lg_max lf" using reopen_fields(2) [of F lf s] by (cases "lg_open lf") auto
  obtain ok2 lf2 s2 where r: "(if lg_max lf1 \<le> lg_written lf1 then rotate_log F n lf1 s1 else (True, lf1, s1)) = (ok2, lf2, s2)"
    by (metis prod_cases3)
  have p: "prepared F n lf s = (if \<not> ok then (False, lf1, s1) else (ok2 \<and> lg_open lf2, lf2, s2))"
    by (simp add: prepared_def o r)
  with assms(1) show "lg_open (fst (snd (prepared F n lf s)))" by (auto split: if_splits)
  from p assms r m rotate_log_room [of F n lf1 s1] show "lg_written (fst (snd (prepared F n lf s))) < lg_max lf"
    by (cases "lg_max lf1 \<le> lg_written lf1") (auto split: if_splits)
qed

text \<open>
  An append is a sequence of turns, so what every turn keeps the whole append keeps; and it returns,
  because a turn that goes on has written something.
\<close>

lemma append_induct:
  assumes max: "0 < lg_max lf" "lg_max lf \<le> u64_max"
    and prep: "\<And>rest lf s. I rest lf s \<Longrightarrow> rest \<noteq> [] \<Longrightarrow> lg_max lf \<le> u64_max \<Longrightarrow> 0 < lg_max lf \<Longrightarrow>
       I rest (fst (snd (prepared F (length rest) lf s))) (snd (snd (prepared F (length rest) lf s)))"
    and wrote: "\<And>lf s t rest. I (t @ rest) lf s \<Longrightarrow> lg_open lf \<Longrightarrow> lg_written lf + length t \<le> lg_max lf \<Longrightarrow>
       lg_max lf \<le> u64_max \<Longrightarrow> fst (fs_write F (lg_path lf) t s) = None \<Longrightarrow>
       I rest (lf\<lparr>lg_written := lg_written lf + length t, lg_warned := False\<rparr>) (snd (fs_write F (lg_path lf) t s))"
    and failed: "\<And>lf s t rest e. I (t @ rest) lf s \<Longrightarrow> lg_open lf \<Longrightarrow> lg_written lf + length t \<le> lg_max lf \<Longrightarrow>
       fst (fs_write F (lg_path lf) t s) = Some e \<Longrightarrow>
       I (t @ rest) (fst (warn e lf (snd (fs_write F (lg_path lf) t s)))) (snd (warn e lf (snd (fs_write F (lg_path lf) t s))))"
    and "I rest lf s"
  shows "\<exists>ok lf' s' left. append_record F rest lf s = Some (ok, lf', s') \<and> I left lf' s' \<and> (ok \<longrightarrow> left = [])
    \<and> ((\<forall>n lf s. fst (prepared F n lf s)) \<and> (\<forall>p t s. fst (fs_write F p t s) = None) \<longrightarrow> ok)
    \<and> lg_path lf' = lg_path lf \<and> lg_max lf' = lg_max lf \<and> lg_keep lf' = lg_keep lf"
  using max \<open>I rest lf s\<close>
proof (induction rest arbitrary: lf s rule: measure_induct_rule [of length])
  case (less rest)
  show ?case
  proof (cases "rest = []")
    case True
    with less.prems show ?thesis by (auto simp: append_record.simps)
  next
    case False
    obtain ok lf2 s2 where p: "prepared F (length rest) lf s = (ok, lf2, s2)" by (metis prod_cases3)
    have f: "lg_path lf2 = lg_path lf" "lg_max lf2 = lg_max lf" "lg_keep lf2 = lg_keep lf"
      using prepared_fields [of F "length rest" lf s] p by simp_all
    have i2: "I rest lf2 s2" using prep [OF less.prems(3) False] p less.prems by simp
    show ?thesis
    proof (cases ok)
      case no: False
      then have "\<not> (\<forall>n lf s. fst (prepared F n lf s))" using p by (metis fst_conv)
      moreover have "append_record F rest lf s = Some (False, lf2, s2)"
        using no p False by (simp add: append_record.simps [of F rest])
      ultimately show ?thesis
        using f i2 by (intro exI [of _ False] exI [of _ lf2] exI [of _ s2] exI [of _ rest]) blast
    next
      case True
      then have o: "lg_open lf2" "lg_written lf2 < lg_max lf2"
        using prepared_room [of F "length rest" lf s] p False less.prems f by auto
      define n where "n = min (lg_max lf2 - lg_written lf2) (length rest)"
      have n: "0 < n" "n \<le> length rest" "lg_written lf2 + n \<le> lg_max lf2" using o False by (auto simp: n_def)
      then have len: "length (take n rest) = n" by simp
      have i3: "I (take n rest @ drop n rest) lf2 s2" using i2 by simp
      obtain r s3 where w: "fs_write F (lg_path lf2) (take n rest) s2 = (r, s3)" by fastforce
      show ?thesis
      proof (cases r)
        case None
        let ?lf = "lf2\<lparr>lg_written := lg_written lf2 + n, lg_warned := False\<rparr>"
        have "sat_add u64_max (lg_written lf2) n = lg_written lf2 + n"
          using n less.prems f by (intro sat_add_exact) simp
        then have step: "append_record F rest lf s = append_record F (drop n rest) ?lf s3"
          using p True False w None by (simp add: append_record.simps [of F rest] n_def [symmetric] Let_def)
        have "I (drop n rest) ?lf s3" using wrote [OF i3 o(1)] w None n less.prems f len by simp
        with less.IH [of "drop n rest" ?lf s3] n less.prems f show ?thesis by (simp add: step)
      next
        case (Some e)
        then have a: "append_record F rest lf s = Some (False, warn e lf2 s3)"
          using p True False w by (simp add: append_record.simps [of F rest] n_def [symmetric] Let_def)
        have "\<not> (\<forall>p t s. fst (fs_write F p t s) = None)" using w Some by (metis fst_conv option.distinct(1))
        moreover have "I rest (fst (warn e lf2 s3)) (snd (warn e lf2 s3))"
          using failed [OF i3 o(1), of e] w Some n len by simp
        ultimately show ?thesis
          using a f by (intro exI [of _ False] exI [of _ "fst (warn e lf2 s3)"] exI [of _ "snd (warn e lf2 s3)"] exI [of _ rest])
            simp
      qed
    qed
  qed
qed

section \<open>The files stay within the bound\<close>

text \<open>The current file is number 0, \<open>path.i\<close> is number \<open>i\<close>.\<close>

definition log_name :: "LogFile \<Rightarrow> nat \<Rightarrow> string" where
  "log_name lf i = (if i = 0 then lg_path lf else rotated_path lf i)"

lemma log_name_eq [simp]: "log_name lf i = log_name lf j \<longleftrightarrow> i = j"
proof -
  have "show_nat a = show_nat b \<longleftrightarrow> a = b" for a b by (metis dec_value_show_nat)
  then show ?thesis by (auto simp: log_name_def rotated_path_def)
qed

lemma log_name_path: "lg_path lf = log_name lf 0" "0 < i \<Longrightarrow> rotated_path lf i = log_name lf i"
  by (simp_all add: log_name_def)

lemma log_name_cong: "lg_path lf' = lg_path lf \<Longrightarrow> log_name lf' = log_name lf"
  by (rule ext) (simp add: log_name_def rotated_path_def)

lemma content_tick [simp]: "content (tick s) = content s"
  by (simp add: content_def [abs_def] tick_def)

lemma content_put [simp]: "content (put_file p t s) = (content s)(p := t)"
  by (rule ext) (simp add: content_def put_file_def)

lemma content_warn [simp]: "content (snd (warn e lf s)) = content s" "content (snd (tolerate r lf s)) = content s"
  by (rule ext, simp add: content_def)+

lemma content_reopen [simp]: "content (snd (snd (reopen F lf s))) = content s"
  by (auto simp: reopen_def fs_open_def fs_len_def split: option.split)

lemma content_rename:
  "content (snd (fs_rename F p q s)) r = (if fst (fs_rename F p q s) \<noteq> None then content s r
     else if r = q then content s p else if r = p then [] else content s r)"
  by (auto simp: fs_rename_def content_def tick_def split: option.splits)

lemma content_remove:
  "content (snd (fs_remove F p s)) q = (if fst (fs_remove F p s) = None \<and> q = p then [] else content s q)"
  by (auto simp: fs_remove_def content_def tick_def split: option.splits)

text \<open>
  What the bound rests on: lengths are read correctly, a failed write has written nothing, and a
  missing file is only reported for a file that is not there.
\<close>

definition honest :: "LogFs \<Rightarrow> bool" where
  "honest F \<longleftrightarrow> (\<forall>n p. ls_metadata F n p = None) \<and> (\<forall>n t k e. ls_write F n t = Some (k, e) \<longrightarrow> k = 0)
     \<and> (\<forall>n p q. ls_rename F n p q \<noteq> Some ENOENT)"

definition bounded :: "LogFile \<Rightarrow> Fs \<Rightarrow> bool" where
  "bounded lf s \<longleftrightarrow> (\<forall>i. length (content s (log_name lf i)) \<le> lg_max lf)
     \<and> (lg_open lf \<longrightarrow> length (content s (lg_path lf)) \<le> lg_written lf)"

lemma honest_write: "honest F \<Longrightarrow> ls_write F n t = Some (k, e) \<Longrightarrow> k = 0"
  unfolding honest_def by blast

lemma content_write:
  "honest F \<Longrightarrow> content (snd (fs_write F p t s)) =
     (content s)(p := content s p @ (if fst (fs_write F p t s) = None then t else []))"
  by (auto simp: fs_write_def split: option.split dest: honest_write)

lemma content_set_len:
  "content (snd (fs_set_len0 F p s)) = (if fst (fs_set_len0 F p s) = None then (content s)(p := []) else content s)"
  by (auto simp: fs_set_len0_def split: option.split)

lemma bounded_cong:
  "content s' = content s \<Longrightarrow> lg_path lf' = lg_path lf \<Longrightarrow> lg_max lf' = lg_max lf \<Longrightarrow>
     (lg_open lf' \<Longrightarrow> lg_open lf \<and> lg_written lf' = lg_written lf \<or> lg_written lf' = length (content s (lg_path lf))) \<Longrightarrow>
     bounded lf s \<Longrightarrow> bounded lf' s'"
  by (auto simp: bounded_def log_name_cong [of lf' lf])

lemma bounded_warn: "bounded lf s \<Longrightarrow> bounded (fst (warn e lf s)) (snd (warn e lf s))"
  by (erule bounded_cong [rotated -1]) simp_all

lemma bounded_reopen: "honest F \<Longrightarrow> bounded lf s \<Longrightarrow> bounded (fst (snd (reopen F lf s))) (snd (snd (reopen F lf s)))"
  by (rule bounded_cong [OF content_reopen])
    (auto simp: reopen_def fs_open_def fs_len_def honest_def split: option.splits)

lemma bounded_emptied:
  assumes "bounded lf s" "lg_path lf' = lg_path lf" "lg_max lf' = lg_max lf"
    "content s' = (content s)(lg_path lf := t)" "length t \<le> lg_max lf" "lg_open lf' \<Longrightarrow> length t \<le> lg_written lf'"
  shows "bounded lf' s'"
  using assms by (auto simp: bounded_def log_name_cong [of lf' lf])

lemma bounded_truncate:
  assumes "honest F" "bounded lf s"
  shows "bounded (fst (snd (truncate_file F n lf s))) (snd (snd (truncate_file F n lf s)))"
proof -
  obtain ok lf1 s1 where o: "(if lg_open lf then (True, lf, s) else reopen F lf s) = (ok, lf1, s1)" by (metis prod_cases3)
  then have b1: "bounded lf1 s1" using bounded_reopen [OF assms] assms(2) by (cases "lg_open lf") auto
  define fits where "fits \<longleftrightarrow> sat_add u64_max (length TRUNCATED) n \<le> lg_max lf1"
  obtain r s2 where t: "fs_set_len0 F (lg_path lf1) s1 = (r, s2)" by fastforce
  obtain r3 s3 where w: "fs_write F (lg_path lf1) TRUNCATED s2 = (r3, s3)" by fastforce
  note e2 = content_set_len [of F "lg_path lf1" s1, unfolded t, simplified]
  note e3 = content_write [OF assms(1), of "lg_path lf1" TRUNCATED s2, unfolded w, simplified]
  have "length TRUNCATED < u64_max" by (simp add: TRUNCATED_def u64_max_value)
  then have len: "length TRUNCATED \<le> lg_max lf1" if fits
    using that by (auto simp: fits_def sat_add_def)
  show ?thesis
  proof (cases "ok \<and> r = None")
    case True
    note emptied = bounded_emptied [OF b1, where s' = s2 and t = "[]"] bounded_emptied [OF b1, where s' = s3]
    show ?thesis
      using True o t w e2 e3 len emptied b1 bounded_warn
      by (cases r3) (auto simp: truncate_file_def fits_def [symmetric] Let_def intro!: emptied)
  next
    case False
    then show ?thesis
      using o t e2 b1 bounded_warn [of lf1 s2] bounded_cong [of s2 s1 lf1 lf1]
      by (auto simp: truncate_file_def fits_def [symmetric] Let_def)
  qed
qed

lemma small_rename:
  "\<forall>i. length (content s (log_name lf i)) \<le> m \<Longrightarrow>
     \<forall>i. length (content (snd (fs_rename F (log_name lf j) (log_name lf k) s)) (log_name lf i)) \<le> m"
  by (simp add: content_rename)

lemma shift_keeps:
  "\<forall>i. length (content s (log_name lf i)) \<le> m \<Longrightarrow>
     (\<forall>i. length (content (snd (shift_rotated F n lf s)) (log_name lf i)) \<le> m)
     \<and> content (snd (shift_rotated F n lf s)) (lg_path lf) = content s (lg_path lf)"
proof (induction n arbitrary: lf s)
  case (Suc n)
  obtain r s1 where r: "fs_rename F (log_name lf (Suc n)) (log_name lf (Suc (Suc n))) s = (r, s1)" by fastforce
  obtain lf2 s2 where t: "tolerate r lf s1 = (lf2, s2)" by fastforce
  have c: "content s2 = content s1" "lg_path lf2 = lg_path lf" using content_warn(2) [of r lf s1] tolerate_fields(2) [of r lf s1] t by simp_all
  have "\<forall>i. length (content s1 (log_name lf i)) \<le> m" using small_rename [OF Suc.prems, of F "Suc n" "Suc (Suc n)"] r by simp
  moreover have "content s1 (lg_path lf) = content s (lg_path lf)"
    using content_rename [of F "log_name lf (Suc n)" "log_name lf (Suc (Suc n))" s "lg_path lf"] r by (simp add: log_name_path(1))
  ultimately show ?case
    using Suc.IH [of s2 lf2] c r t by (simp add: log_name_path(2) log_name_cong [of lf2 lf])
qed simp

lemma make_space_keeps:
  assumes "\<forall>i. length (content s (log_name lf i)) \<le> m" "0 < lg_keep lf"
  shows "(\<forall>i. length (content (snd (make_space F lf s)) (log_name lf i)) \<le> m)
     \<and> content (snd (make_space F lf s)) (lg_path lf) = content s (lg_path lf)"
proof -
  obtain r s1 where r: "fs_remove F (log_name lf (lg_keep lf)) s = (r, s1)" by fastforce
  obtain lf2 s2 where t: "tolerate r lf s1 = (lf2, s2)" by fastforce
  have c: "content s2 = content s1" "lg_path lf2 = lg_path lf" "lg_keep lf2 = lg_keep lf"
    using content_warn(2) [of r lf s1] tolerate_fields [of r lf s1] t by simp_all
  have "\<forall>i. length (content s1 (log_name lf i)) \<le> m" "content s1 (lg_path lf) = content s (lg_path lf)"
    using content_remove [of F "log_name lf (lg_keep lf)" s] r assms by (auto simp: log_name_path(1))
  with shift_keeps [of s2 lf2 m F "lg_keep lf - 1"] c r t assms(2) show ?thesis
    by (simp add: make_space_def log_name_path(2) log_name_cong [of lf2 lf])
qed

lemma rename_missing:
  assumes "honest F" "missing (fst (fs_rename F p q s))" "p \<noteq> q"
  shows "content (snd (fs_rename F p q s)) p = []"
proof -
  have "ls_rename F (fs_calls s) p q \<noteq> Some ENOENT" using assms(1) unfolding honest_def by blast
  with assms(2,3) show ?thesis
    by (auto simp: fs_rename_def missing_def content_def tick_def split: option.splits if_splits)
qed

lemma bounded_rotate:
  assumes "honest F" "bounded lf s"
  shows "bounded (fst (snd (rotate_log F n lf s))) (snd (snd (rotate_log F n lf s)))"
proof (cases "lg_keep lf = 0")
  case True
  then show ?thesis using bounded_truncate [OF assms] by (simp add: rotate_log_def)
next
  case False
  obtain lf1 s1 where m: "make_space F lf s = (lf1, s1)" by fastforce
  have f: "lg_path lf1 = lg_path lf" "lg_max lf1 = lg_max lf" "lg_open lf1 = lg_open lf" "lg_written lf1 = lg_written lf"
    using make_space_fields [of F lf s] m by simp_all
  have s1: "\<forall>i. length (content s1 (log_name lf1 i)) \<le> lg_max lf" "content s1 (lg_path lf) = content s (lg_path lf)"
    using make_space_keeps [of s lf "lg_max lf" F] assms(2) False m f by (auto simp: bounded_def log_name_cong [of lf1 lf])
  obtain r s2 where r: "fs_rename F (log_name lf1 0) (log_name lf1 (Suc 0)) s1 = (r, s2)" by fastforce
  have s2: "\<forall>i. length (content s2 (log_name lf1 i)) \<le> lg_max lf" using small_rename [OF s1(1), of F 0 "Suc 0"] r by simp
  have r': "fs_rename F (lg_path lf1) (rotated_path lf1 (Suc 0)) s1 = (r, s2)" using r by (simp add: log_name_def)
  show ?thesis
  proof (cases "missing r")
    case True
    have "content s2 (lg_path lf1) = []"
      using rename_missing [OF assms(1), of "log_name lf1 0" "log_name lf1 (Suc 0)" s1] r True by (simp add: log_name_path(1))
    with s2 f have b: "bounded (lf1\<lparr>lg_open := False\<rparr>) s2" "length (content s2 (lg_path lf1)) = 0"
      by (auto simp: bounded_def log_name_cong [of "lf1\<lparr>lg_open := False\<rparr>" lf1])
    obtain ok lf3 s3 where o: "reopen F (lf1\<lparr>lg_open := False\<rparr>) s2 = (ok, lf3, s3)" by (metis prod_cases3)
    have e: "content s3 = content s2" "lg_path lf3 = lg_path lf1"
      using content_reopen [of F "lf1\<lparr>lg_open := False\<rparr>" s2] reopen_fields(1) [of F "lf1\<lparr>lg_open := False\<rparr>" s2] o by simp_all
    have "bounded lf3 s3" using bounded_reopen [OF assms(1) b(1)] o by simp
    then have "bounded (lf3\<lparr>lg_written := 0\<rparr>) s3" using b(2) e by (auto simp: bounded_def log_name_cong [of "lf3\<lparr>lg_written := 0\<rparr>" lf3])
    with \<open>bounded lf3 s3\<close> True False show ?thesis by (simp add: rotate_log_def start_new_def m r' o Let_def)
  next
    case no: False
    then have "r \<noteq> None" by (simp add: missing_def)
    then have "content s2 (lg_path lf) = content s (lg_path lf)"
      using content_rename [of F "log_name lf1 0" "log_name lf1 (Suc 0)" s1 "lg_path lf"] r s1(2) by simp
    with s2 f assms(2) have "bounded lf1 s2" by (simp add: bounded_def)
    from bounded_truncate [OF assms(1) bounded_warn [OF this]] show ?thesis
      using no False by (simp add: rotate_log_def m r' case_prod_beta Let_def)
  qed
qed

lemma bounded_prepared:
  assumes "honest F" "bounded lf s"
  shows "bounded (fst (snd (prepared F n lf s))) (snd (snd (prepared F n lf s)))"
proof -
  obtain ok lf1 s1 where o: "(if lg_open lf then (True, lf, s) else reopen F lf s) = (ok, lf1, s1)" by (metis prod_cases3)
  then have "bounded lf1 s1" using bounded_reopen [OF assms] assms(2) by (cases "lg_open lf") auto
  with bounded_rotate [OF assms(1) this, of n] show ?thesis by (simp add: prepared_def o case_prod_beta Let_def)
qed

lemma append_record_bounded:
  assumes "honest F" "bounded lf s" "0 < lg_max lf" "lg_max lf \<le> u64_max"
  shows "\<exists>ok lf' s'. append_record F t lf s = Some (ok, lf', s') \<and> bounded lf' s'
    \<and> lg_path lf' = lg_path lf \<and> lg_max lf' = lg_max lf \<and> lg_keep lf' = lg_keep lf"
proof -
  have wrote: "bounded (lf\<lparr>lg_written := lg_written lf + length t, lg_warned := False\<rparr>) (snd (fs_write F (lg_path lf) t s))"
    if "bounded lf s" "lg_open lf" "lg_written lf + length t \<le> lg_max lf" "fst (fs_write F (lg_path lf) t s) = None" for lf s t
    by (rule bounded_emptied [OF that(1), where t = "content s (lg_path lf) @ t"])
      (use that content_write [OF assms(1), of "lg_path lf" t s] in \<open>auto simp: bounded_def\<close>)
  have failed: "bounded (fst (warn e lf (snd (fs_write F (lg_path lf) t s)))) (snd (warn e lf (snd (fs_write F (lg_path lf) t s))))"
    if "bounded lf s" "fst (fs_write F (lg_path lf) t s) = Some e" for lf s t e
    by (rule bounded_warn) (use that content_write [OF assms(1), of "lg_path lf" t s] in \<open>simp add: bounded_def\<close>)
  show ?thesis
    using append_induct [of lf "\<lambda>_. bounded" F t s] assms bounded_prepared wrote failed by blast
qed

lemma append_text_bounded:
  assumes "honest F" "bounded lf s" "0 < lg_max lf" "lg_max lf \<le> u64_max"
  shows "\<exists>lf' s'. append_text F t lf s = Some (lf', s') \<and> bounded lf' s'
    \<and> lg_path lf' = lg_path lf \<and> lg_max lf' = lg_max lf \<and> lg_keep lf' = lg_keep lf"
proof -
  have "\<exists>lf' s'. append_records F rs lf s = Some (lf', s') \<and> bounded lf' s'
    \<and> lg_path lf' = lg_path lf \<and> lg_max lf' = lg_max lf \<and> lg_keep lf' = lg_keep lf" for rs
    using assms(2-)
  proof (induction rs arbitrary: lf s)
    case (Cons r rs)
    from append_record_bounded [OF assms(1) Cons.prems, of r] obtain ok lf1 s1 where
      a: "append_record F r lf s = Some (ok, lf1, s1)" "bounded lf1 s1" "lg_path lf1 = lg_path lf"
      "lg_max lf1 = lg_max lf" "lg_keep lf1 = lg_keep lf" by blast
    with Cons.IH [of lf1 s1] Cons.prems show ?case by (cases ok) auto
  qed simp
  then show ?thesis by (simp add: append_text_def)
qed

text \<open>
  Property C37. Persisting the log is bounded in time and space, on a file system on which the length of
  a file can always be read, a write that fails has written nothing, and a rename does not report a file
  missing that is there, whichever other calls fail: when no file of the log is longer than the
  configured size and the writer has counted at least what its file holds, a pass of the supervisor over
  the queue returns, no file of the log is longer than that size afterwards, and the same holds for the
  next pass.
\<close>
theorem log_files_stay_bounded:
  assumes "\<And>n p. ls_metadata F n p = None" "\<And>n t k e. ls_write F n t = Some (k, e) \<Longrightarrow> k = 0"
    "\<And>n p q. ls_rename F n p q \<noteq> Some ENOENT"
    and "bounded (fq_writer fq) s" "0 < lg_max (fq_writer fq)" "lg_max (fq_writer fq) \<le> u64_max"
  shows "\<exists>k fq' s'. drain F fq s = Some (k, fq', s')
    \<and> (\<forall>i. length (content s' (log_name (fq_writer fq) i)) \<le> lg_max (fq_writer fq)) \<and> bounded (fq_writer fq') s'"
proof -
  have "honest F" using assms(1-3) unfolding honest_def by blast
  note append_bounded = append_text_bounded [OF this assms(4-6)]
  obtain batch ls b where t: "take_batch (fq_max_batch fq) [] 0 (qs_lines (fq_state fq)) (qs_bytes (fq_state fq)) = (batch, ls, b)"
    by (metis prod_cases3)
  let ?t = "dropped_note (qs_dropped (fq_state fq)) @ concat batch"
  from append_bounded [of ?t] obtain lf' s' where
    a: "append_text F ?t (fq_writer fq) s = Some (lf', s')" "bounded lf' s'" "lg_path lf' = lg_path (fq_writer fq)"
    "lg_max lf' = lg_max (fq_writer fq)" by blast
  show ?thesis
  proof (cases "?t = []")
    case True
    with t assms(4) show ?thesis by (auto simp: drain_def bounded_def Let_def)
  next
    case False
    with t a show ?thesis by (auto simp: drain_def bounded_def Let_def log_name_cong [of lf' "fq_writer fq"])
  qed
qed

section \<open>Rotation keeps the newest bytes\<close>

definition faultless :: "LogFs \<Rightarrow> bool" where
  "faultless F \<longleftrightarrow> (\<forall>n p q t. ls_open F n p = None \<and> ls_metadata F n p = None \<and> ls_write F n t = None
     \<and> ls_set_len F n p = None \<and> ls_remove F n p = None \<and> ls_rename F n p q = None)"

text \<open>What is on disk, from the oldest rotated file to the current one.\<close>

definition on_disk :: "LogFile \<Rightarrow> Fs \<Rightarrow> string" where
  "on_disk lf s = concat (map (\<lambda>i. content s (log_name lf i)) (rev [0..<Suc (lg_keep lf)]))"

text \<open>Rotated files are full, and the ones that do not exist yet are the oldest.\<close>

definition tidy :: "LogFile \<Rightarrow> Fs \<Rightarrow> bool" where
  "tidy lf s \<longleftrightarrow> lg_open lf \<and> lg_written lf = length (content s (log_name lf 0)) \<and> lg_written lf \<le> lg_max lf
     \<and> (\<exists>m \<le> lg_keep lf. (\<forall>i. 0 < i \<longrightarrow> i \<le> m \<longrightarrow> length (content s (log_name lf i)) = lg_max lf)
          \<and> (\<forall>i. m < i \<longrightarrow> i \<le> lg_keep lf \<longrightarrow> content s (log_name lf i) = []))"

lemma faultless_rename:
  assumes "faultless F" "content s q = []" "p \<noteq> q"
  shows "content (snd (fs_rename F p q s)) = (content s)(q := content s p, p := [])"
    "missing (fst (fs_rename F p q s))"
  using assms by (auto simp: fs_rename_def faultless_def content_def tick_def missing_def fun_eq_iff)

lemma faultless_remove: "faultless F \<Longrightarrow> content (snd (fs_remove F p s)) = (content s)(p := [])"
  by (auto simp: fs_remove_def faultless_def content_def tick_def fun_eq_iff)

lemma shift_moves:
  "faultless F \<Longrightarrow> content s (log_name lf (Suc n)) = [] \<Longrightarrow>
     content (snd (shift_rotated F n lf s)) (log_name lf i) =
       (if i = 1 then [] else if 1 < i \<and> i \<le> Suc n then content s (log_name lf (i - 1)) else content s (log_name lf i))"
proof (induction n arbitrary: lf s)
  case 0
  then show ?case by auto
next
  case (Suc n)
  obtain r s1 where r: "fs_rename F (log_name lf (Suc n)) (log_name lf (Suc (Suc n))) s = (r, s1)" by fastforce
  obtain lf2 s2 where t: "tolerate r lf s1 = (lf2, s2)" by fastforce
  have c: "content s2 = content s1" "lg_path lf2 = lg_path lf"
    using content_warn(2) [of r lf s1] tolerate_fields(2) [of r lf s1] t by simp_all
  have s1: "content s1 = (content s)(log_name lf (Suc (Suc n)) := content s (log_name lf (Suc n)), log_name lf (Suc n) := [])"
    using faultless_rename(1) [OF Suc.prems, of "log_name lf (Suc n)"] r by simp
  have "content (snd (shift_rotated F n lf2 s2)) (log_name lf i) =
       (if i = 1 then [] else if 1 < i \<and> i \<le> Suc n then content s1 (log_name lf (i - 1)) else content s1 (log_name lf i))"
    using Suc.IH [of s2 lf2] Suc.prems(1) c s1 by (simp add: log_name_cong [of lf2 lf])
  moreover have "shift_rotated F (Suc n) lf s = shift_rotated F n lf2 s2" using r t by (simp add: log_name_path(2))
  ultimately show ?case using s1 by (auto simp: le_Suc_eq)
qed

lemma make_space_moves:
  assumes "faultless F" "0 < lg_keep lf"
  shows "content (snd (make_space F lf s)) (log_name lf i) =
     (if i = 1 then [] else if 1 < i \<and> i \<le> lg_keep lf then content s (log_name lf (i - 1)) else content s (log_name lf i))"
proof -
  obtain r s1 where r: "fs_remove F (log_name lf (lg_keep lf)) s = (r, s1)" by fastforce
  obtain lf2 s2 where t: "tolerate r lf s1 = (lf2, s2)" by fastforce
  have c: "content s2 = content s1" "lg_path lf2 = lg_path lf" "lg_keep lf2 = lg_keep lf"
    using content_warn(2) [of r lf s1] tolerate_fields [of r lf s1] t by simp_all
  have s1: "content s1 = (content s)(log_name lf (lg_keep lf) := [])" using faultless_remove [OF assms(1)] r by (metis snd_conv)
  have "content (snd (shift_rotated F (lg_keep lf - 1) lf2 s2)) (log_name lf i) =
     (if i = 1 then [] else if 1 < i \<and> i \<le> lg_keep lf then content s1 (log_name lf (i - 1)) else content s1 (log_name lf i))"
    using shift_moves [OF assms(1), of s2 lf2 "lg_keep lf - 1" i] c s1 assms(2) by (simp add: log_name_cong [of lf2 lf])
  moreover have "make_space F lf s = shift_rotated F (lg_keep lf - 1) lf2 s2"
    using r t c assms(2) by (simp add: make_space_def log_name_path(2))
  ultimately show ?thesis using s1 assms(2) by auto
qed

lemma rotate_moves:
  assumes "faultless F" "0 < lg_keep lf" "rotate_log F n lf s = (ok, lf', s')"
  shows "ok" "lg_open lf'" "lg_written lf' = 0"
    "content s' (log_name lf i) = (if i = 0 then [] else if i \<le> lg_keep lf then content s (log_name lf (i - 1)) else content s (log_name lf i))"
proof -
  obtain lf1 s1 where m: "make_space F lf s = (lf1, s1)" by fastforce
  have f: "lg_path lf1 = lg_path lf" "lg_keep lf1 = lg_keep lf" using make_space_fields [of F lf s] m by simp_all
  note s1 = make_space_moves [OF assms(1,2), of s, unfolded m snd_conv]
  obtain r s2 where r: "fs_rename F (log_name lf 0) (log_name lf 1) s1 = (r, s2)" by fastforce
  have s2: "content s2 = (content s1)(log_name lf 1 := content s1 (log_name lf 0), log_name lf 0 := [])" "missing r"
    using faultless_rename [OF assms(1), of s1 "log_name lf 1" "log_name lf 0"] s1 [of 1] r by simp_all
  have "rotate_log F n lf s = start_new F lf1 s2"
    using r s2(2) m f assms(2) by (simp add: rotate_log_def log_name_def rotated_path_def)
  moreover have "fst (reopen F (lf1\<lparr>lg_open := False\<rparr>) s2)" "lg_open (fst (snd (reopen F (lf1\<lparr>lg_open := False\<rparr>) s2)))"
    using assms(1) by (simp_all add: reopen_def fs_open_def faultless_def case_prod_beta)
  ultimately have p: "ok" "lg_open lf'" "lg_written lf' = 0" "content s' = content s2"
    using assms(3) content_reopen [of F "lf1\<lparr>lg_open := False\<rparr>" s2] by (auto simp: start_new_def case_prod_beta Let_def)
  show "ok" "lg_open lf'" "lg_written lf' = 0" using p by simp_all
  show "content s' (log_name lf i) = (if i = 0 then [] else if i \<le> lg_keep lf then content s (log_name lf (i - 1)) else content s (log_name lf i))"
    using s1 [of 0] s1 [of i] assms(2) by (auto simp: p(4) s2(1))
qed

lemma newest_first_Suc: "concat (map f (rev [0..<Suc n])) = f n @ concat (map f (rev [0..<n]))"
  by simp

lemma newest_first_shift:
  "f' 0 = [] \<Longrightarrow> (\<And>i. i < n \<Longrightarrow> f' (Suc i) = f i) \<Longrightarrow> concat (map f' (rev [0..<Suc n])) = concat (map f (rev [0..<n]))"
  by (induction n) (simp_all add: newest_first_Suc del: upt_Suc)

lemma newest_first_full: "(\<And>i. i < n \<Longrightarrow> length (f i) = k) \<Longrightarrow> length (concat (map f (rev [0..<n]))) = n * k"
  by (induction n) simp_all

lemma newest_first_le: "(\<And>i. i < n \<Longrightarrow> length (f i) \<le> k) \<Longrightarrow> length (concat (map f (rev [0..<n]))) \<le> n * k"
  by (induction n) (simp_all add: add_mono)

lemma newest_first_append:
  "f' 0 = f 0 @ t \<Longrightarrow> (\<And>i. 0 < i \<Longrightarrow> f' i = f i) \<Longrightarrow> concat (map f' (rev [0..<Suc n])) = concat (map f (rev [0..<Suc n])) @ t"
proof (induction n)
  case (Suc n)
  then show ?case unfolding newest_first_Suc [of _ "Suc n"] by simp
qed simp

lemma tidy_rotate:
  assumes "faultless F" "0 < lg_keep lf" "tidy lf s" "lg_max lf \<le> lg_written lf" "rotate_log F n lf s = (ok, lf', s')"
  shows "tidy lf' s'" "\<exists>old. on_disk lf s = old @ on_disk lf' s' \<and> (old = [] \<or> length (on_disk lf' s') = lg_keep lf * lg_max lf)"
proof -
  let ?f = "\<lambda>i. content s (log_name lf i)" and ?g = "\<lambda>i. content s' (log_name lf i)"
  have k: "lg_path lf' = lg_path lf" "lg_keep lf' = lg_keep lf" "lg_max lf' = lg_max lf"
    using rotate_log_fields [of F n lf s] assms(5) by simp_all
  note moved = rotate_moves [OF assms(1,2,5)]
  from assms(3) obtain m where m: "m \<le> lg_keep lf" "\<And>i. 0 < i \<Longrightarrow> i \<le> m \<Longrightarrow> length (?f i) = lg_max lf"
    "\<And>i. m < i \<Longrightarrow> i \<le> lg_keep lf \<Longrightarrow> ?f i = []" unfolding tidy_def by blast
  have z: "length (?f 0) = lg_max lf" using assms(3,4) by (simp add: tidy_def)
  have full: "length (?g i) = lg_max lf" if "0 < i" "i \<le> min (Suc m) (lg_keep lf)" for i
    using that moved(4) [of i] z m(2) [of "i - 1"] by (cases "i = 1") auto
  have empty: "?g i = []" if "min (Suc m) (lg_keep lf) < i" "i \<le> lg_keep lf" for i
    using that moved(4) [of i] m(3) [of "i - 1"] by auto
  show "tidy lf' s'"
    unfolding tidy_def log_name_cong [OF k(1)] k
    using moved(2,3) moved(4) [of 0] full empty by (auto intro!: exI [of _ "min (Suc m) (lg_keep lf)"])
  have d: "on_disk lf' s' = concat (map ?f (rev [0..<lg_keep lf]))"
    unfolding on_disk_def log_name_cong [OF k(1)] k(2) by (rule newest_first_shift) (use moved(4) in auto)
  have "?f (lg_keep lf) = [] \<or> length (on_disk lf' s') = lg_keep lf * lg_max lf"
  proof (cases "m < lg_keep lf")
    case True
    then show ?thesis using m(3) [of "lg_keep lf"] by simp
  next
    case False
    then have "length (?f i) = lg_max lf" if "i < lg_keep lf" for i using that z m(1,2) by (cases "i = 0") auto
    then have "length (concat (map ?f (rev [0..<lg_keep lf]))) = lg_keep lf * lg_max lf" by (rule newest_first_full)
    then show ?thesis unfolding d by blast
  qed
  moreover have "on_disk lf s = ?f (lg_keep lf) @ on_disk lf' s'"
    unfolding d unfolding on_disk_def by (rule newest_first_Suc)
  ultimately show "\<exists>old. on_disk lf s = old @ on_disk lf' s' \<and> (old = [] \<or> length (on_disk lf' s') = lg_keep lf * lg_max lf)"
    by blast
qed

text \<open>\<open>rest\<close> of the text \<open>T\<close> is still to be written, and what is on disk is the end of the part before it.\<close>

definition recorded :: "nat \<Rightarrow> nat \<Rightarrow> string \<Rightarrow> string \<Rightarrow> LogFile \<Rightarrow> Fs \<Rightarrow> bool" where
  "recorded keep mx T rest lf s \<longleftrightarrow> tidy lf s \<and> lg_keep lf = keep \<and> lg_max lf = mx
     \<and> (\<exists>old. T = old @ on_disk lf s @ rest \<and> (old = [] \<or> keep * mx \<le> length (on_disk lf s)))"

lemma recorded_prepared:
  assumes "faultless F" "0 < keep" "recorded keep mx T rest lf s"
  shows "recorded keep mx T rest (fst (snd (prepared F n lf s))) (snd (snd (prepared F n lf s)))"
proof (cases "lg_max lf \<le> lg_written lf")
  case True
  obtain ok lf' s' where r: "rotate_log F n lf s = (ok, lf', s')" by (metis prod_cases3)
  from assms(3) have t: "tidy lf s" "lg_keep lf = keep" "lg_max lf = mx" by (simp_all add: recorded_def)
  from assms(3) obtain old where old: "T = old @ on_disk lf s @ rest" "old = [] \<or> keep * mx \<le> length (on_disk lf s)"
    unfolding recorded_def by blast
  from tidy_rotate [OF assms(1) _ t(1) True r] assms(2) t obtain old' where
    new: "tidy lf' s'" "on_disk lf s = old' @ on_disk lf' s'" "old' = [] \<or> length (on_disk lf' s') = keep * mx" by auto
  have "recorded keep mx T rest lf' s'"
    unfolding recorded_def
  proof (intro conjI exI [of _ "old @ old'"])
    show "lg_keep lf' = keep" "lg_max lf' = mx" using rotate_log_fields [of F n lf s] r t by simp_all
    show "old @ old' = [] \<or> keep * mx \<le> length (on_disk lf' s')" using old(2) new(2,3) by auto
  qed (use old new in simp_all)
  then show ?thesis using t(1) True r rotate_moves(1,2) [OF assms(1) _ r] by (simp add: prepared_def tidy_def Let_def)
next
  case False
  moreover from assms(3) have "lg_open lf" by (simp add: recorded_def tidy_def)
  ultimately show ?thesis using assms(3) by (simp add: prepared_def Let_def)
qed

lemma recorded_wrote:
  assumes "faultless F" "recorded keep mx T (t @ rest) lf s" "lg_written lf + length t \<le> lg_max lf"
  shows "recorded keep mx T rest (lf\<lparr>lg_written := lg_written lf + length t, lg_warned := False\<rparr>) (snd (fs_write F (lg_path lf) t s))"
proof -
  let ?lf = "lf\<lparr>lg_written := lg_written lf + length t, lg_warned := False\<rparr>" and ?s = "snd (fs_write F (lg_path lf) t s)"
  have c: "content ?s = (content s)(log_name lf 0 := content s (log_name lf 0) @ t)"
    using assms(1) by (simp add: fs_write_def faultless_def log_name_path(1))
  have n: "log_name ?lf = log_name lf" by (rule log_name_cong) simp
  have d: "on_disk ?lf ?s = on_disk lf s @ t"
    unfolding on_disk_def n using newest_first_append [of "\<lambda>i. content ?s (log_name lf i)" "\<lambda>i. content s (log_name lf i)" t "lg_keep lf"]
    by (simp add: c)
  from assms(2) have "tidy lf s" by (simp add: recorded_def)
  then have "tidy ?lf ?s" unfolding tidy_def n c using assms(3) by simp
  moreover from assms(2) obtain old where "T = old @ on_disk lf s @ t @ rest" "old = [] \<or> keep * mx \<le> length (on_disk lf s)"
    unfolding recorded_def by auto
  ultimately show ?thesis using assms(2) unfolding recorded_def d by auto
qed

lemma faultless_runs:
  assumes "faultless F"
  shows "fst (fs_write F p t s) = None" "fst (reopen F lf s)" "lg_open (fst (snd (reopen F lf s)))"
    "fst (truncate_file F n lf s)" "lg_open (fst (snd (truncate_file F n lf s)))"
  using assms
  by (simp_all add: fs_write_def fs_set_len0_def reopen_def fs_open_def truncate_file_def faultless_def case_prod_beta Let_def)

lemma faultless_prepared: "faultless F \<Longrightarrow> fst (prepared F n lf s)"
proof -
  assume F: "faultless F"
  have "fst (rotate_log F n lf s) \<and> lg_open (fst (snd (rotate_log F n lf s)))" for lf s
  proof (cases "lg_keep lf = 0")
    case True
    then show ?thesis using faultless_runs [OF F] by (simp add: rotate_log_def)
  next
    case False
    obtain ok lf' s' where r: "rotate_log F n lf s = (ok, lf', s')" by (metis prod_cases3)
    from False rotate_moves(1,2) [OF F _ r] show ?thesis unfolding r by simp
  qed
  then show ?thesis using faultless_runs [OF F] by (simp add: prepared_def case_prod_beta Let_def)
qed

lemma append_record_recorded:
  assumes "faultless F" "0 < keep" "0 < mx" "mx \<le> u64_max" "recorded keep mx T t lf s"
  shows "\<exists>lf' s'. append_record F t lf s = Some (True, lf', s') \<and> recorded keep mx T [] lf' s'"
proof -
  have m: "lg_max lf = mx" using assms(5) by (simp add: recorded_def)
  have "\<exists>ok lf' s' left. append_record F t lf s = Some (ok, lf', s') \<and> recorded keep mx T left lf' s' \<and> (ok \<longrightarrow> left = [])
    \<and> ((\<forall>n lf s. fst (prepared F n lf s)) \<and> (\<forall>p t s. fst (fs_write F p t s) = None) \<longrightarrow> ok)
    \<and> lg_path lf' = lg_path lf \<and> lg_max lf' = lg_max lf \<and> lg_keep lf' = lg_keep lf"
    by (rule append_induct) (use assms m recorded_prepared recorded_wrote faultless_runs(1) in \<open>auto\<close>)
  moreover have "(\<forall>n lf s. fst (prepared F n lf s)) \<and> (\<forall>p t s. fst (fs_write F p t s) = None)"
    using faultless_prepared [OF assms(1)] faultless_runs(1) [OF assms(1)] by simp
  ultimately show ?thesis by metis
qed

fun append_texts :: "LogFs \<Rightarrow> string list \<Rightarrow> LogFile \<Rightarrow> Fs \<Rightarrow> (LogFile \<times> Fs) option" where
  "append_texts F [] lf s = Some (lf, s)"
| "append_texts F (t # ts) lf s = (case append_text F t lf s of None \<Rightarrow> None | Some (lf1, s1) \<Rightarrow> append_texts F ts lf1 s1)"

lemma recorded_more: "recorded keep mx T [] lf s \<Longrightarrow> recorded keep mx (T @ t) t lf s"
  by (auto simp: recorded_def)

lemma append_text_recorded:
  assumes "faultless F" "0 < keep" "0 < mx" "mx \<le> u64_max" "recorded keep mx T [] lf s"
  shows "\<exists>lf' s'. append_text F t lf s = Some (lf', s') \<and> recorded keep mx (T @ t) [] lf' s'"
proof -
  have "\<exists>lf' s'. append_records F rs lf s = Some (lf', s') \<and> recorded keep mx (T @ concat rs) [] lf' s'" for rs
    using assms(5)
  proof (induction rs arbitrary: T lf s)
    case (Cons r rs)
    from append_record_recorded [OF assms(1-4) recorded_more [OF Cons.prems, of r]] obtain lf1 s1 where
      a: "append_record F r lf s = Some (True, lf1, s1)" "recorded keep mx (T @ r) [] lf1 s1" by blast
    from Cons.IH [OF a(2)] a(1) show ?case by simp
  qed simp
  from this [of "split_inclusive t"] show ?thesis by (simp add: append_text_def concat_split_inclusive)
qed

lemma fresh_recorded:
  assumes "faultless F" "fs_disk s = Map.empty" "0 < mx" "logfile_open F path mx keep s = (Inr lf, s1)"
  shows "recorded keep mx [] [] lf s1"
proof -
  have c: "content s = (\<lambda>_. [])" using assms(2) by (simp add: content_def fun_eq_iff)
  have "lg_open lf" "lg_written lf = 0" "lg_keep lf = keep" "lg_max lf = mx" "content s1 = (\<lambda>_. [])"
    using assms(1,3,4) c
    by (auto simp: logfile_open_def fs_open_def fs_len_def faultless_def case_prod_beta Let_def fun_eq_iff
        split: option.splits if_splits sum.splits prod.splits)
  then show ?thesis by (auto simp: recorded_def tidy_def on_disk_def)
qed

text \<open>
  Rotation loses only the oldest bytes: as long as the disk works, a log file opened on an
  empty directory returns from every append, and what is on disk, read from the oldest rotated file to
  the current one, is exactly the end of everything appended. Nothing is missing until the kept files
  are full: then at least \<open>keep\<close> full files are held, and never more than one beyond.
\<close>
theorem rotation_keeps_newest:
  assumes "faultless F" "0 < keep" "0 < mx" "mx \<le> u64_max" "fs_disk s = Map.empty"
    and "logfile_open F path mx keep s = (Inr lf, s1)"
  shows "\<exists>lf' s' old. append_texts F ts lf s1 = Some (lf', s') \<and> concat ts = old @ on_disk lf' s'
    \<and> (old = [] \<or> keep * mx \<le> length (on_disk lf' s')) \<and> length (on_disk lf' s') \<le> Suc keep * mx"
proof -
  have "\<exists>lf' s'. append_texts F ts lf s = Some (lf', s') \<and> recorded keep mx (T @ concat ts) [] lf' s'"
    if "recorded keep mx T [] lf s" for T lf s
    using that
  proof (induction ts arbitrary: T lf s)
    case (Cons t ts)
    from append_text_recorded [OF assms(1-4) Cons.prems, of t] obtain lf1 s1 where
      a: "append_text F t lf s = Some (lf1, s1)" "recorded keep mx (T @ t) [] lf1 s1" by blast
    from Cons.IH [OF a(2)] a(1) show ?case by simp
  qed simp
  from this [OF fresh_recorded [OF assms(1,5,3,6)]] obtain lf' s' where
    r: "append_texts F ts lf s1 = Some (lf', s')" "recorded keep mx (concat ts) [] lf' s'" by auto
  then obtain m where k: "lg_keep lf' = keep" "lg_max lf' = mx" and m: "m \<le> keep"
    "\<And>i. 0 < i \<Longrightarrow> i \<le> m \<Longrightarrow> length (content s' (log_name lf' i)) = mx"
    "\<And>i. m < i \<Longrightarrow> i \<le> keep \<Longrightarrow> content s' (log_name lf' i) = []" "length (content s' (log_name lf' 0)) \<le> mx"
    unfolding recorded_def tidy_def by auto
  have "length (content s' (log_name lf' i)) \<le> mx" if "i < Suc keep" for i
    using m(2) [of i] m(3) [of i] m(4) that by (cases "i = 0"; cases "i \<le> m") auto
  from newest_first_le [of "Suc keep" "\<lambda>i. content s' (log_name lf' i)" mx, OF this]
  have "length (on_disk lf' s') \<le> Suc keep * mx" unfolding on_disk_def k(1) .
  with r show ?thesis by (auto simp: recorded_def)
qed

section \<open>Witnesses\<close>

definition sound_fs :: LogFs where
  "sound_fs = \<lparr>ls_create_dir = \<lambda>_ _. None, ls_open = \<lambda>_ _. None, ls_metadata = \<lambda>_ _. None, ls_write = \<lambda>_ _. None,
     ls_set_len = \<lambda>_ _. None, ls_remove = \<lambda>_ _. None, ls_rename = \<lambda>_ _ _. None, ls_now = \<lambda>n. n\<rparr>"

abbreviation empty_fs :: Fs where
  "empty_fs \<equiv> \<lparr>fs_disk = Map.empty, fs_calls = 0, fs_warnings = []\<rparr>"

theorem rotation_keeps_newest_witness:
  "\<exists>lf s1 lf' s' old. logfile_open sound_fs ''r'' 4 2 empty_fs = (Inr lf, s1)
     \<and> append_texts sound_fs [''abcdefgh'', ''ijklmnop''] lf s1 = Some (lf', s')
     \<and> ''abcdefghijklmnop'' = old @ on_disk lf' s' \<and> length (on_disk lf' s') \<le> 12"
proof -
  have f: "faultless sound_fs" by (simp add: faultless_def sound_fs_def)
  have "path_parent ''r'' = Some []" by code_simp
  then obtain lf s1 where o: "logfile_open sound_fs ''r'' 4 2 empty_fs = (Inr lf, s1)"
    by (simp add: logfile_open_def sound_fs_def fs_open_def fs_len_def)
  have "(4::nat) \<le> u64_max" by (simp add: u64_max_value)
  from rotation_keeps_newest [OF f _ _ this _ o, of "[''abcdefgh'', ''ijklmnop'']"] o show ?thesis by fastforce
qed

theorem log_files_stay_bounded_witness:
  "\<exists>k fq' s'. drain (sound_fs\<lparr>ls_write := \<lambda>_ _. Some (0, 28)\<rparr>)
      ((queue_new (LogFile.make True ''/l'' 0 9 0 False))\<lparr>fq_state := enqueue ''a'' \<lparr>qs_lines = [], qs_bytes = 0, qs_dropped = 0\<rparr>\<rparr>)
      empty_fs = Some (k, fq', s')"
proof -
  let ?F = "sound_fs\<lparr>ls_write := \<lambda>_ _. Some (0, 28)\<rparr>"
  let ?fq = "(queue_new (LogFile.make True ''/l'' 0 9 0 False))\<lparr>fq_state := enqueue ''a'' \<lparr>qs_lines = [], qs_bytes = 0, qs_dropped = 0\<rparr>\<rparr>"
  have b: "bounded (fq_writer ?fq) empty_fs" "0 < lg_max (fq_writer ?fq)" "lg_max (fq_writer ?fq) \<le> u64_max"
    by (simp_all add: bounded_def queue_new_def LogFile.make_def content_def u64_max_value)
  have "\<exists>k fq' s'. drain ?F ?fq empty_fs = Some (k, fq', s')
    \<and> (\<forall>i. length (content s' (log_name (fq_writer ?fq) i)) \<le> lg_max (fq_writer ?fq)) \<and> bounded (fq_writer fq') s'"
    by (rule log_files_stay_bounded [OF _ _ _ b]) (simp_all add: sound_fs_def)
  then show ?thesis by blast
qed

end
