(* ===== verification/Word_Bytes.thy ===== *)
theory Word_Bytes
  imports "HOL-Library.Word"
begin

unbundle bit_operations_syntax

text \<open>\<open>word_le_bytes\<close>, \<open>word_be_bytes\<close> and their inverses for machine words of any number of bytes.\<close>

type_synonym octet = "8 word"

definition word_le_bytes :: "nat \<Rightarrow> 'a::len word \<Rightarrow> octet list" where
  "word_le_bytes n w = map (\<lambda>i. ucast (drop_bit (8 * i) w)) [0..<n]"

fun word_of_le_bytes :: "octet list \<Rightarrow> 'a::len word" where
  "word_of_le_bytes [] = 0"
| "word_of_le_bytes (b # bs) = ucast b OR push_bit 8 (word_of_le_bytes bs)"

definition word_be_bytes :: "nat \<Rightarrow> 'a::len word \<Rightarrow> octet list" where
  "word_be_bytes n w = rev (word_le_bytes n w)"

definition word_of_be_bytes :: "octet list \<Rightarrow> 'a::len word" where
  "word_of_be_bytes bs = word_of_le_bytes (rev bs)"

lemma length_bytes [simp]: "length (word_le_bytes n w) = n" "length (word_be_bytes n w) = n"
  by (simp_all add: word_le_bytes_def word_be_bytes_def)

lemma word_le_bytes_Suc: "word_le_bytes (Suc n) w = ucast w # word_le_bytes n (drop_bit 8 w)"
  unfolding word_le_bytes_def upt_conv_Cons [OF zero_less_Suc]
  by (simp add: map_Suc_upt [symmetric] o_def drop_bit_drop_bit add.commute [of 8] del: upt_Suc)

lemma low_byte: "ucast (ucast (w :: 'a::len word) :: octet) = take_bit 8 w"
  by (rule bit_eqI) (auto simp: bit_simps)

lemma from_to_le: "word_of_le_bytes (word_le_bytes n w) = take_bit (8 * n) w"
proof (induction n arbitrary: w)
  case (Suc n)
  have "take_bit 8 w OR push_bit 8 (take_bit (8 * n) (drop_bit 8 w)) = take_bit (8 * Suc n) w"
    by (rule bit_eqI) (auto simp: bit_simps)
  then show ?case by (simp add: word_le_bytes_Suc Suc low_byte)
qed (simp add: word_le_bytes_def)

lemma from_to_bytes:
  assumes "LENGTH('a::len) \<le> 8 * n"
  shows "word_of_le_bytes (word_le_bytes n (w :: 'a word)) = w" "word_of_be_bytes (word_be_bytes n w) = w"
  using assms by (simp_all add: word_of_be_bytes_def word_be_bytes_def from_to_le take_bit_word_eq_self)

end
