(* ===== verification/Child_Exec.thy ===== *)
theory Child_Exec
  imports Os Word_Bytes
begin

unbundle bit_operations_syntax

text \<open>
  The child between \<open>fork\<close> and \<open>exec\<close> and the report it sends
  (\<open>rinit-runtime/src/syscall/process.rs\<close>, \<open>cred.rs\<close>, the join of \<open>syscall/cgroup.rs\<close>). The child is a
  sequence of system calls; \<open>ChildOs\<close> gives the answer to each, an error number or a result, and may let
  it depend on every call before. A trace lists the calls with their answers, newest first. The parent
  reads the report over a list of turns: what \<open>poll\<close> and \<open>read\<close> do in each iteration of its loop.
\<close>

section \<open>Calls of the child\<close>

record CapData =
  cap_effective :: "32 word"
  cap_permitted :: "32 word"
  cap_inheritable :: "32 word"

datatype ChildCall =
  CClose fd | CSigDefault int | CUnmask | CSetsid
| CSetFd fd int | CDup2 fd fd | CGetFl fd | CSetFl fd int
| COpen string int | CHangup fd | CSetCtty fd | CChdir string | CWrite fd string
| CNoNewPrivs | CKeepCaps | CCapget | CCapset "CapData list" | CBoundDrop nat
| CSetgid nat | CSetgroups "nat list" | CSetuid nat | CAmbientClear | CAmbientRaise nat
| CBlockPipe | CReport fd "octet list" | CRestoreMask
| CExecve string "string list" "string list" | CExit int

type_synonym answer = "int + int"
type_synonym child_trace = "(ChildCall \<times> answer) list"

record ChildOs =
  co_call :: "child_trace \<Rightarrow> ChildCall \<Rightarrow> answer"
  co_caps :: "child_trace \<Rightarrow> CapData \<times> CapData"
  co_pid :: pid

definition child_call :: "ChildOs \<Rightarrow> ChildCall \<Rightarrow> child_trace \<Rightarrow> answer \<times> child_trace" where
  "child_call C c tr = (let r = co_call C tr c in (r, (c, r) # tr))"

text \<open>Calls whose answer the code does not look at.\<close>

fun ignore_all :: "ChildOs \<Rightarrow> ChildCall list \<Rightarrow> child_trace \<Rightarrow> child_trace" where
  "ignore_all C [] tr = tr"
| "ignore_all C (c # cs) tr = ignore_all C cs (snd (child_call C c tr))"

section \<open>Steps and reports\<close>

datatype ChildStep =
  AtChdir | AtSetsid | AtDup2 | AtExec | AtNoNewPrivs | AtSetGroup | AtSetGroups | AtSetUser
| AtKeepCapabilities | AtSetInheritable | AtSetBoundingSet | AtRaiseAmbient | AtJoinCgroup | AtOpenTty
| AtSetControllingTerminal

fun step_code :: "ChildStep \<Rightarrow> octet" where
  "step_code AtChdir = 0"
| "step_code AtSetsid = 1"
| "step_code AtDup2 = 2"
| "step_code AtExec = 3"
| "step_code AtNoNewPrivs = 4"
| "step_code AtSetGroup = 5"
| "step_code AtSetGroups = 6"
| "step_code AtSetUser = 7"
| "step_code AtKeepCapabilities = 8"
| "step_code AtSetInheritable = 9"
| "step_code AtSetBoundingSet = 10"
| "step_code AtRaiseAmbient = 11"
| "step_code AtJoinCgroup = 12"
| "step_code AtOpenTty = 13"
| "step_code AtSetControllingTerminal = 14"

fun step_op :: "ChildStep \<Rightarrow> string" where
  "step_op AtChdir = ''chdir''"
| "step_op AtSetsid = ''setsid''"
| "step_op AtDup2 = ''dup2''"
| "step_op AtExec = ''execve''"
| "step_op AtNoNewPrivs = ''prctl(PR_SET_NO_NEW_PRIVS)''"
| "step_op AtSetGroup = ''setgid''"
| "step_op AtSetGroups = ''setgroups''"
| "step_op AtSetUser = ''setuid''"
| "step_op AtKeepCapabilities = ''prctl(PR_SET_KEEPCAPS)''"
| "step_op AtSetInheritable = ''capset''"
| "step_op AtSetBoundingSet = ''prctl(PR_CAPBSET_DROP)''"
| "step_op AtRaiseAmbient = ''prctl(PR_CAP_AMBIENT)''"
| "step_op AtJoinCgroup = ''cgroup.procs''"
| "step_op AtOpenTty = ''open(TTYPath)''"
| "step_op AtSetControllingTerminal = ''ioctl(TIOCSCTTY)''"

fun from_step :: "SandboxStep \<Rightarrow> ChildStep" where
  "from_step NoNewPrivs = AtNoNewPrivs"
| "from_step KeepCapabilities = AtKeepCapabilities"
| "from_step SetInheritable = AtSetInheritable"
| "from_step SetBoundingSet = AtSetBoundingSet"
| "from_step SetGroup = AtSetGroup"
| "from_step SetGroups = AtSetGroups"
| "from_step SetUser = AtSetUser"
| "from_step RaiseAmbient = AtRaiseAmbient"

definition from_code :: "octet \<Rightarrow> ChildStep option" where
  "from_code c = (if c = 0 then Some AtChdir else if c = 1 then Some AtSetsid else if c = 2 then Some AtDup2
     else if c = 3 then Some AtExec else if c = 4 then Some AtNoNewPrivs else if c = 5 then Some AtSetGroup
     else if c = 6 then Some AtSetGroups else if c = 7 then Some AtSetUser
     else if c = 8 then Some AtKeepCapabilities else if c = 9 then Some AtSetInheritable
     else if c = 10 then Some AtSetBoundingSet else if c = 11 then Some AtRaiseAmbient
     else if c = 12 then Some AtJoinCgroup else if c = 13 then Some AtOpenTty
     else if c = 14 then Some AtSetControllingTerminal else None)"

definition READY_BYTE :: octet where "READY_BYTE = 0xff"
definition REPORT_LEN :: nat where "REPORT_LEN = 8"

text \<open>\<open>u64::from(step as u8) | (u64::from(errno as u32) << 8)\<close>, in little-endian bytes.\<close>

definition report_bytes :: "ChildStep \<Rightarrow> int \<Rightarrow> octet list" where
  "report_bytes st e =
     word_le_bytes 8 (ucast (step_code st) OR push_bit 8 (ucast (word_of_int e :: 32 word)) :: 64 word)"

definition decode_report :: "octet list \<Rightarrow> (ChildStep \<times> int) option" where
  "decode_report buf =
     (let report = word_of_le_bytes buf :: 64 word;
          code = ucast (report AND 0xff) :: octet;
          errno = sint (ucast (drop_bit 8 report AND 0xffffffff) :: 32 word)
      in map_option (\<lambda>st. (st, errno)) (from_code code))"

definition write_report :: "ChildOs \<Rightarrow> fd \<Rightarrow> octet list \<Rightarrow> child_trace \<Rightarrow> child_trace" where
  "write_report C w bs tr = ignore_all C [CBlockPipe, CReport w bs, CRestoreMask] tr"

datatype ChildEnd = Executed | Died ChildStep int

definition die_reporting :: "ChildOs \<Rightarrow> fd \<Rightarrow> ChildStep \<Rightarrow> int \<Rightarrow> child_trace \<Rightarrow> ChildEnd \<times> child_trace" where
  "die_reporting C w st e tr =
     (Died st e, ignore_all C [CExit 127] (write_report C w (report_bytes st e) tr))"

section \<open>Stages\<close>

text \<open>
  A stage of the child either goes on or ends with the step that failed and its error number; the
  child is a sequence of stages.
\<close>

type_synonym stage = "child_trace \<Rightarrow> (ChildStep \<times> int) option \<times> child_trace"

definition attempt :: "ChildOs \<Rightarrow> ChildStep \<Rightarrow> ChildCall \<Rightarrow> stage" where
  "attempt C st c tr = (case child_call C c tr of
      (Inl e, tr1) \<Rightarrow> (Some (st, e), tr1) | (Inr _, tr1) \<Rightarrow> (None, tr1))"

fun in_order :: "stage list \<Rightarrow> stage" where
  "in_order [] tr = (None, tr)"
| "in_order (s # ss) tr = (case s tr of
      (Some d, tr1) \<Rightarrow> (Some d, tr1) | (None, tr1) \<Rightarrow> in_order ss tr1)"

definition stages_if :: "bool \<Rightarrow> stage list \<Rightarrow> stage list" where
  "stages_if b ss = (if b then ss else [])"

definition SIGSTOP :: int where "SIGSTOP = 19"
definition LISTEN_FD :: fd where "LISTEN_FD = 3"
definition O_WRONLY :: int where "O_WRONLY = 1"
definition O_RDWR :: int where "O_RDWR = 2"
definition O_NOCTTY :: int where "O_NOCTTY = 0x100"
definition O_NONBLOCK :: int where "O_NONBLOCK = 0x800"
definition EIO :: int where "EIO = 5"

definition reset_child_signals :: "ChildOs \<Rightarrow> child_trace \<Rightarrow> child_trace" where
  "reset_child_signals C tr = ignore_all C
     (map CSigDefault (filter (\<lambda>n. n \<noteq> SIGKILL \<and> n \<noteq> SIGSTOP) [1..64]) @ [CUnmask]) tr"

text \<open>\<open>fcntl(fd, F_GETFL)\<close> and \<open>fcntl(fd, F_SETFL, flags & !O_NONBLOCK)\<close>\<close>

definition clear_nonblock :: "ChildOs \<Rightarrow> ChildStep \<Rightarrow> fd \<Rightarrow> stage" where
  "clear_nonblock C st fd tr = (case child_call C (CGetFl fd) tr of
      (Inl e, tr1) \<Rightarrow> (Some (st, e), tr1)
    | (Inr flags, tr1) \<Rightarrow> attempt C st (CSetFl fd (flags AND NOT O_NONBLOCK)) tr1)"

definition pass_listener :: "ChildOs \<Rightarrow> fd \<Rightarrow> stage list" where
  "pass_listener C fd =
     [attempt C AtDup2 (if fd = LISTEN_FD then CSetFd fd 0 else CDup2 fd LISTEN_FD), clear_nonblock C AtDup2 LISTEN_FD]"

definition redirect_output :: "ChildOs \<Rightarrow> fd \<Rightarrow> stage list" where
  "redirect_output C fd = map (\<lambda>t. attempt C AtDup2 (CDup2 fd t)) [1, 2]"

text \<open>The terminal is opened without waiting for a carrier and made blocking once it is in place.\<close>

definition setup_tty :: "ChildOs \<Rightarrow> string \<Rightarrow> bool \<Rightarrow> stage" where
  "setup_tty C path reset tr =
     (case child_call C (COpen path (O_RDWR OR O_NOCTTY OR O_NONBLOCK)) tr of
        (Inl e, tr1) \<Rightarrow> (Some (AtOpenTty, e), tr1)
      | (Inr fd, tr1) \<Rightarrow>
          let tr2 = (if reset then ignore_all C [CHangup fd] tr1 else tr1);
              (r, tr3) = in_order
                ([attempt C AtSetControllingTerminal (CSetCtty fd)]
                 @ map (\<lambda>t. attempt C AtDup2 (CDup2 fd t)) [0, 1, 2]
                 @ [clear_nonblock C AtOpenTty fd]) tr2
          in (r, if r = None \<and> 2 < fd then ignore_all C [CClose fd] tr3 else tr3))"

section \<open>Process ids as text\<close>

text \<open>Digits from the last one on, into at most that many slots.\<close>

fun digits_back :: "nat \<Rightarrow> nat \<Rightarrow> string" where
  "digits_back 0 v = []"
| "digits_back (Suc slots) v =
     char_of (48 + v mod 10) # (if v div 10 = 0 then [] else digits_back slots (v div 10))"

definition write_listen_pid :: "pid \<Rightarrow> string" where
  "write_listen_pid p = ''LISTEN_PID='' @ rev (digits_back 20 (nat p))"

definition PID_TEXT_MAX :: nat where "PID_TEXT_MAX = 11"

definition decimal :: "pid \<Rightarrow> string" where
  "decimal p = rev (digits_back PID_TEXT_MAX (nat \<bar>p\<bar>))"

definition join_from_child :: "ChildOs \<Rightarrow> string \<Rightarrow> pid \<Rightarrow> child_trace \<Rightarrow> int option \<times> child_trace" where
  "join_from_child C procs p tr =
     (let t = decimal p
      in case child_call C (COpen procs O_WRONLY) tr of
           (Inl e, tr1) \<Rightarrow> (Some e, tr1)
         | (Inr fd, tr1) \<Rightarrow>
             let (r, tr2) = child_call C (CWrite fd t) tr1;
                 errno = (case r of Inl e \<Rightarrow> Some e | Inr n \<Rightarrow> if n \<noteq> int (length t) then Some EIO else None)
             in (errno, ignore_all C [CClose fd] tr2))"

section \<open>Credentials\<close>

type_synonym cred_op = "child_trace \<Rightarrow> int option \<times> child_trace"

definition cred_call :: "ChildOs \<Rightarrow> ChildCall \<Rightarrow> cred_op" where
  "cred_call C c tr = (case child_call C c tr of (Inl e, tr1) \<Rightarrow> (Some e, tr1) | (Inr _, tr1) \<Rightarrow> (None, tr1))"

definition MAX_CAPABILITY :: nat where "MAX_CAPABILITY = 63"

text \<open>\<open>EINVAL\<close> is the kernel's answer past its last capability and ends the loop.\<close>

fun drop_bounding :: "ChildOs \<Rightarrow> nat list \<Rightarrow> nat list \<Rightarrow> cred_op" where
  "drop_bounding C keep [] tr = (None, tr)"
| "drop_bounding C keep (c # cs) tr =
     (if c \<in> set keep then drop_bounding C keep cs tr
      else case child_call C (CBoundDrop c) tr of
             (Inr _, tr1) \<Rightarrow> drop_bounding C keep cs tr1
           | (Inl e, tr1) \<Rightarrow> (if e = EINVAL then None else Some e, tr1))"

definition set_bounding_set :: "ChildOs \<Rightarrow> nat list \<Rightarrow> cred_op" where
  "set_bounding_set C keep = drop_bounding C keep [0..<Suc MAX_CAPABILITY]"

fun add_inheritable :: "nat list \<Rightarrow> CapData list \<Rightarrow> CapData list option" where
  "add_inheritable [] data = Some data"
| "add_inheritable (c # cs) data =
     (let i = c div 32; bit = push_bit (c mod 32) 1
      in if i < length data
         then add_inheritable cs (data[i := (data ! i)\<lparr>cap_inheritable := cap_inheritable (data ! i) OR bit\<rparr>])
         else None)"

definition set_inheritable :: "ChildOs \<Rightarrow> nat list \<Rightarrow> cred_op" where
  "set_inheritable C caps tr = (case child_call C CCapget tr of
      (Inl e, tr1) \<Rightarrow> (Some e, tr1)
    | (Inr _, tr1) \<Rightarrow>
        (case add_inheritable caps [fst (co_caps C tr), snd (co_caps C tr)] of
           None \<Rightarrow> (Some EINVAL, tr1)
         | Some data \<Rightarrow> cred_call C (CCapset data) tr1))"

fun raise_each :: "ChildOs \<Rightarrow> nat list \<Rightarrow> cred_op" where
  "raise_each C [] tr = (None, tr)"
| "raise_each C (c # cs) tr = (case cred_call C (CAmbientRaise c) tr of
      (Some e, tr1) \<Rightarrow> (Some e, tr1) | (None, tr1) \<Rightarrow> raise_each C cs tr1)"

definition set_ambient :: "ChildOs \<Rightarrow> nat list \<Rightarrow> cred_op" where
  "set_ambient C caps = (if caps = [] then cred_call C CAmbientClear else raise_each C caps)"

definition or_empty :: "nat list option \<Rightarrow> nat list" where
  "or_empty x = (case x of None \<Rightarrow> [] | Some l \<Rightarrow> l)"

fun sandbox_op :: "ChildOs \<Rightarrow> Sandbox \<Rightarrow> SandboxStep \<Rightarrow> cred_op" where
  "sandbox_op C sb NoNewPrivs = cred_call C CNoNewPrivs"
| "sandbox_op C sb KeepCapabilities = cred_call C CKeepCaps"
| "sandbox_op C sb SetInheritable = set_inheritable C (or_empty (sb_ambient sb))"
| "sandbox_op C sb SetBoundingSet = set_bounding_set C (or_empty (sb_bounding_set sb))"
| "sandbox_op C sb SetGroup = cred_call C (CSetgid (sb_gid sb))"
| "sandbox_op C sb SetGroups = cred_call C (CSetgroups (or_empty (sb_groups sb)))"
| "sandbox_op C sb SetUser = cred_call C (CSetuid (sb_uid sb))"
| "sandbox_op C sb RaiseAmbient = set_ambient C (or_empty (sb_ambient sb))"

definition reporting :: "ChildStep \<Rightarrow> cred_op \<Rightarrow> stage" where
  "reporting st op tr = apfst (map_option (Pair st)) (op tr)"

section \<open>The child\<close>

record ChildSetup =
  cs_path :: string
  cs_argv :: "string list"
  cs_envp :: "string list"
  cs_new_session :: bool
  cs_listen_fd :: "fd option"
  cs_stdio :: "fd option"
  cs_cwd :: "string option"
  cs_sandbox :: Sandbox
  cs_steps :: "SandboxStep list"
  cs_procs :: "string option"
  cs_tty :: "(string \<times> bool) option"

text \<open>The environment: a child that is handed a socket gets a \<open>LISTEN_PID\<close> of its own.\<close>

definition child_env :: "fd option \<Rightarrow> string list \<Rightarrow> pid \<Rightarrow> string list" where
  "child_env listen env p =
     filter (\<lambda>v. listen = None \<or> take 11 v \<noteq> ''LISTEN_PID='') env
     @ (if listen = None then [] else [write_listen_pid p])"

definition opt_stages :: "'a option \<Rightarrow> ('a \<Rightarrow> stage list) \<Rightarrow> stage list" where
  "opt_stages x f = (case x of None \<Rightarrow> [] | Some a \<Rightarrow> f a)"

definition child_stages :: "ChildOs \<Rightarrow> ChildSetup \<Rightarrow> stage list" where
  "child_stages C s =
     stages_if (cs_new_session s) [attempt C AtSetsid CSetsid]
     @ opt_stages (cs_listen_fd s) (pass_listener C)
     @ opt_stages (cs_stdio s) (redirect_output C)
     @ opt_stages (cs_tty s) (\<lambda>(path, reset). [setup_tty C path reset])
     @ opt_stages (cs_cwd s) (\<lambda>d. [attempt C AtChdir (CChdir d)])
     @ opt_stages (cs_procs s) (\<lambda>p. [reporting AtJoinCgroup (join_from_child C p (co_pid C))])
     @ map (\<lambda>st. reporting (from_step st) (sandbox_op C (cs_sandbox s) st)) (cs_steps s)"

definition child_exec :: "ChildOs \<Rightarrow> ChildSetup \<Rightarrow> fd \<Rightarrow> fd \<Rightarrow> ChildEnd \<times> child_trace" where
  "child_exec C s rd w =
     (let tr0 = reset_child_signals C (ignore_all C [CClose rd] [])
      in case in_order (child_stages C s) tr0 of
           (Some (st, e), tr1) \<Rightarrow> die_reporting C w st e tr1
         | (None, tr1) \<Rightarrow>
             let tr2 = write_report C w [READY_BYTE] tr1
             in (case child_call C
                   (CExecve (cs_path s) (cs_argv s) (child_env (cs_listen_fd s) (cs_envp s) (co_pid C))) tr2 of
                   (Inr _, tr3) \<Rightarrow> (Executed, tr3)
                 | (Inl e, tr3) \<Rightarrow> die_reporting C w AtExec e tr3))"

text \<open>\<open>spawn_sandboxed_begin\<close>: what the parent prepares for the child of a request.\<close>

definition child_setup :: "SpawnRequest \<Rightarrow> Sandbox \<Rightarrow> ChildSetup" where
  "child_setup rq sb = \<lparr>cs_path = hd (sp_argv rq), cs_argv = sp_argv rq, cs_envp = sp_env rq,
     cs_new_session = True, cs_listen_fd = sp_listen_fd rq, cs_stdio = sp_output rq, cs_cwd = sp_cwd rq,
     cs_sandbox = sb, cs_steps = steps sb, cs_procs = sp_procs rq, cs_tty = sp_tty rq\<rparr>"

section \<open>The parent\<close>

datatype Turn =
  Cancelled | Late | PollInterrupted | PollFailed int | Nothing | ReadInterrupted | ReadFailed int | Got nat

definition ECANCELED :: int where "ECANCELED = 125"
definition ETIMEDOUT :: int where "ETIMEDOUT = 110"

text \<open>
  \<open>read_until\<close>: one turn per iteration. A read returns between one byte and what is asked for while
  there are bytes, and nothing at the end of the pipe. The result is \<open>None\<close> while it is still waiting.
\<close>

fun read_until :: "nat \<Rightarrow> octet list \<Rightarrow> octet list \<Rightarrow> Turn list
    \<Rightarrow> ((string \<times> int) + octet list \<times> octet list \<times> Turn list) option" where
  "read_until want got pipe [] = (if want \<le> length got then Some (Inr (got, pipe, [])) else None)"
| "read_until want got pipe (t # ts) =
     (if want \<le> length got then Some (Inr (got, pipe, t # ts))
      else case t of
             Cancelled \<Rightarrow> Some (Inl (''child report'', ECANCELED))
           | Late \<Rightarrow> Some (Inl (''child report'', ETIMEDOUT))
           | PollInterrupted \<Rightarrow> read_until want got pipe ts
           | PollFailed e \<Rightarrow> Some (Inl (''poll'', e))
           | Nothing \<Rightarrow> read_until want got pipe ts
           | ReadInterrupted \<Rightarrow> read_until want got pipe ts
           | ReadFailed e \<Rightarrow> Some (Inl (''read'', e))
           | Got n \<Rightarrow>
               if pipe = [] then Some (Inr (got, [], ts))
               else let k = min (max n 1) (want - length got)
                    in read_until want (got @ take k pipe) (drop k pipe) ts)"

datatype ChildReport = ReportExec | ReportFailed ChildStep int | DiedBeforeExec

definition failed_or_died :: "octet list \<Rightarrow> ChildReport" where
  "failed_or_died buf = (case decode_report buf of
      Some (st, e) \<Rightarrow> if length buf = REPORT_LEN then ReportFailed st e else DiedBeforeExec
    | None \<Rightarrow> DiedBeforeExec)"

definition read_report :: "octet list \<Rightarrow> Turn list \<Rightarrow> ((string \<times> int) + ChildReport) option" where
  "read_report pipe ts = (case read_until 1 [] pipe ts of
      None \<Rightarrow> None
    | Some (Inl e) \<Rightarrow> Some (Inl e)
    | Some (Inr (first, pipe1, ts1)) \<Rightarrow>
        if first = [] then Some (Inr DiedBeforeExec)
        else if first = [READY_BYTE] then
          (case read_until REPORT_LEN [] pipe1 ts1 of
             None \<Rightarrow> None
           | Some (Inl e) \<Rightarrow> Some (Inl e)
           | Some (Inr (buf, _, _)) \<Rightarrow> Some (Inr (if buf = [] then ReportExec else failed_or_died buf)))
        else
          (case read_until (REPORT_LEN - 1) [] pipe1 ts1 of
             None \<Rightarrow> None
           | Some (Inl e) \<Rightarrow> Some (Inl e)
           | Some (Inr (buf, _, _)) \<Rightarrow> Some (Inr (failed_or_died (first @ buf)))))"

text \<open>
  Taking a child back: each entry is the answer of a \<open>waitpid\<close> and whether the second that is allowed
  has passed. The result lists the signals sent; it is \<open>None\<close> while the loop goes on.
\<close>

datatype WaitAnswer = Reaped | NoChild | Alive | WaitFailed

fun reap_loop :: "(WaitAnswer \<times> bool) list \<Rightarrow> bool" where
  "reap_loop [] = False"
| "reap_loop ((a, late) # as) \<longleftrightarrow> a = Reaped \<or> a = NoChild \<or> late \<or> reap_loop as"

definition reap_failed_spawn :: "WaitAnswer \<Rightarrow> (WaitAnswer \<times> bool) list \<Rightarrow> int list option" where
  "reap_failed_spawn first as =
     (if first = Reaped \<or> first = NoChild then Some []
      else let sent = (if first = Alive then [SIGKILL] else [])
           in if reap_loop as then Some sent else None)"

definition kill_unreaped_child :: "WaitAnswer \<Rightarrow> int list" where
  "kill_unreaped_child a = (if a = Alive then [SIGKILL] else [])"

definition wait_blocking :: "pid \<Rightarrow> octet list \<Rightarrow> Turn list \<Rightarrow> WaitAnswer \<Rightarrow> (WaitAnswer \<times> bool) list
    \<Rightarrow> (((string \<times> int) + pid) \<times> int list) option" where
  "wait_blocking p pipe ts first as =
     (case read_report pipe ts of
        None \<Rightarrow> None
      | Some (Inr ReportExec) \<Rightarrow> Some (Inr p, [])
      | Some (Inr (ReportFailed st e)) \<Rightarrow>
          map_option (Pair (Inl (step_op st, e))) (reap_failed_spawn first as)
      | Some (Inr DiedBeforeExec) \<Rightarrow>
          map_option (Pair (Inl (''child setup (process died before exec)'', EIO))) (reap_failed_spawn first as)
      | Some (Inl err) \<Rightarrow> map_option (Pair (Inl err)) (reap_failed_spawn first as))"

section \<open>The fast path\<close>

text \<open>
  \<open>posix_spawn_full\<close>: a unit that needs nothing between \<open>fork\<close> and \<open>exec\<close>. Each library call answers an
  error number, 0 for success.
\<close>

datatype LibcCall =
  AttrInit | SetSigDefault | SetSigMask | SetFlags bool | ActionsInit | AddChdir string | AddDup2 fd fd
| PosixSpawn string "string list" "string list" bool | ActionsDestroy | AttrDestroy

record Libc =
  lc_call :: "(LibcCall \<times> int) list \<Rightarrow> LibcCall \<Rightarrow> int"
  lc_pid :: "(LibcCall \<times> int) list \<Rightarrow> pid"

type_synonym libc_trace = "(LibcCall \<times> int) list"

fun libc_all :: "Libc \<Rightarrow> LibcCall list \<Rightarrow> libc_trace \<Rightarrow> libc_trace" where
  "libc_all L [] tr = tr"
| "libc_all L (c # cs) tr = libc_all L cs ((c, lc_call L tr c) # tr)"

text \<open>Calls in order; the first one that fails is named after the structures are torn down.\<close>

fun checked :: "Libc \<Rightarrow> LibcCall list \<Rightarrow> (string \<times> LibcCall) list \<Rightarrow> libc_trace \<Rightarrow> (string \<times> int) option \<times> libc_trace" where
  "checked L teardown [] tr = (None, tr)"
| "checked L teardown ((op, c) # cs) tr =
     (let rc = lc_call L tr c; tr1 = (c, rc) # tr
      in if rc \<noteq> 0 then (Some (op, rc), libc_all L teardown tr1) else checked L teardown cs tr1)"

definition spawn_attrs :: "Libc \<Rightarrow> bool \<Rightarrow> libc_trace \<Rightarrow> (string \<times> int) option \<times> libc_trace" where
  "spawn_attrs L new_session tr =
     (case checked L [] [(''posix_spawnattr_init'', AttrInit)] tr of
        (Some e, tr1) \<Rightarrow> (Some e, tr1)
      | (None, tr1) \<Rightarrow> checked L [AttrDestroy]
          [(''posix_spawnattr_setsigdefault'', SetSigDefault), (''posix_spawnattr_setsigmask'', SetSigMask),
           (''posix_spawnattr_setflags'', SetFlags new_session)] tr1)"

definition spawn_actions :: "Libc \<Rightarrow> string option \<Rightarrow> fd option \<Rightarrow> libc_trace \<Rightarrow> (string \<times> int) option \<times> libc_trace" where
  "spawn_actions L cwd stdio tr =
     (if cwd = None \<and> stdio = None then (None, tr)
      else case checked L [AttrDestroy] [(''posix_spawn_file_actions_init'', ActionsInit)] tr of
             (Some e, tr1) \<Rightarrow> (Some e, tr1)
           | (None, tr1) \<Rightarrow> checked L [ActionsDestroy, AttrDestroy]
               ((case cwd of None \<Rightarrow> [] | Some d \<Rightarrow> [(''posix_spawn_file_actions_addchdir_np'', AddChdir d)])
                @ (case stdio of None \<Rightarrow> []
                   | Some f \<Rightarrow> map (\<lambda>t. (''posix_spawn_file_actions_adddup2'', AddDup2 f t)) [1, 2])) tr1)"

definition posix_spawn_full :: "Libc \<Rightarrow> string \<Rightarrow> string list \<Rightarrow> string list \<Rightarrow> bool \<Rightarrow> fd option \<Rightarrow> fd option
    \<Rightarrow> string option \<Rightarrow> libc_trace \<Rightarrow> ((string \<times> int) + pid) \<times> libc_trace" where
  "posix_spawn_full L path args envp new_session listen stdio cwd tr =
     (if listen \<noteq> None then (Inl (''posix_spawn'', EINVAL), tr)
      else case spawn_attrs L new_session tr of
             (Some e, tr1) \<Rightarrow> (Inl e, tr1)
           | (None, tr1) \<Rightarrow>
               (case spawn_actions L cwd stdio tr1 of
                  (Some e, tr2) \<Rightarrow> (Inl e, tr2)
                | (None, tr2) \<Rightarrow>
                    let acts = cwd \<noteq> None \<or> stdio \<noteq> None;
                        c = PosixSpawn path args envp acts;
                        rc = lc_call L tr2 c;
                        tr3 = libc_all L ((if acts then [ActionsDestroy] else []) @ [AttrDestroy]) ((c, rc) # tr2)
                    in (if rc = 0 then Inr (lc_pid L tr2) else Inl (''posix_spawn'', rc), tr3)))"

definition posix_spawn :: "Libc \<Rightarrow> string \<Rightarrow> string list \<Rightarrow> string list \<Rightarrow> libc_trace \<Rightarrow> ((string \<times> int) + pid) \<times> libc_trace" where
  "posix_spawn L path args envp = posix_spawn_full L path args envp False None None None"

end
