(* ===== verification/Rinit_Main.thy ===== *)
theory Rinit_Main
  imports Supervise_Safety Mounts Control_Server Log_Rotation Child_Exec
begin

text \<open>
  The program \<open>rinit\<close> from its arguments to its end: \<open>main\<close> of \<open>rinit/src/main.rs\<close>, the set-up and the
  last steps of \<open>rinit/src/boot.rs\<close> (\<open>run\<close>, \<open>shutdown_now\<close>), the resets of
  \<open>rinit-runtime/src/syscall/reboot.rs\<close> and the bring-up path of \<open>rinit/src/service.rs\<close>. The main loop
  runs on lists of inputs: what arrives in each turn, and what is reaped while it shuts down.

  The properties: the last steps unmount, flush and reset in this order whatever is refused; and how
  process 1 can end, an exit for a short list of reasons, a reset when the set-up fails, the shutdown
  of the machine otherwise.
\<close>

section \<open>The last steps\<close>

definition RB_AUTOBOOT :: "32 word" where "RB_AUTOBOOT = 0x01234567"
definition RB_POWER_OFF :: "32 word" where "RB_POWER_OFF = 0x4321fedc"

text \<open>
  The calls after the services are gone and their answers, \<open>None\<close> for success; opening the trigger may
  answer differently once \<open>/proc\<close> is unmounted.
\<close>

datatype FinalCall =
  OpenTrigger | Unmounting MountCall | SyncAll | RebootCall "32 word" | WriteTrigger char | FlushTrigger

record FinalOs =
  fo_open :: "FinalCall list \<Rightarrow> int option"
  fo_table :: "string option"
  fo_mounts :: MountOps
  fo_reboot :: "32 word \<Rightarrow> int option"
  fo_write :: "char \<Rightarrow> int option"

definition reboot_command :: "ShutdownAction \<Rightarrow> 32 word" where
  "reboot_command a = (case a of ActReboot \<Rightarrow> RB_AUTOBOOT | ActPowerOff \<Rightarrow> RB_POWER_OFF)"

definition trigger_byte :: "ShutdownAction \<Rightarrow> char" where
  "trigger_byte a = (case a of ActReboot \<Rightarrow> CHR ''b'' | ActPowerOff \<Rightarrow> CHR ''o'')"

definition trigger_write :: "FinalOs \<Rightarrow> char \<Rightarrow> FinalCall list" where
  "trigger_write Z c = WriteTrigger c # (if fo_write Z c = None then [FlushTrigger] else [])"

text \<open>The trigger is opened first, because the unmount pass takes \<open>/proc\<close> away; the watchdog is not touched.\<close>

definition shutdown_now :: "FinalOs \<Rightarrow> ShutdownAction \<Rightarrow> FinalCall list" where
  "shutdown_now Z a =
     (let held = (fo_open Z [] = None);
          (report, umounts) = unmount_filesystems_with (fo_mounts Z) (fo_table Z) [];
          down = OpenTrigger # map Unmounting (rev umounts) @ [SyncAll, RebootCall (reboot_command a)]
      in case fo_reboot Z (reboot_command a) of
           None \<Rightarrow> down
         | Some e \<Rightarrow>
             if held then down @ trigger_write Z (trigger_byte a)
             else down @ OpenTrigger # (if fo_open Z down = None then trigger_write Z (trigger_byte a) else []))"

definition reboot_now :: "FinalOs \<Rightarrow> FinalCall list" where
  "reboot_now Z = shutdown_now Z ActReboot"

section \<open>The bring-up service\<close>

record ServiceSet = ss_pids :: "pid list"

definition service_set_new :: ServiceSet where
  "service_set_new = \<lparr>ss_pids = []\<rparr>"

definition spawn_service :: "Libc \<Rightarrow> string list \<Rightarrow> libc_trace \<Rightarrow> (RuntimeError + pid) \<times> libc_trace" where
  "spawn_service L args tr = (case prepare args SERVICE_ENV None of
      Inl e \<Rightarrow> (Inl e, tr)
    | Inr (a, env, _) \<Rightarrow>
        (case a of
           [] \<Rightarrow> (Inl (RtIo ''service argv'' (IoCustom ''InvalidInput'' ''empty command'')), tr)
         | path # _ \<Rightarrow>
             (case posix_spawn L path a env tr of
                (Inl (what, e), tr1) \<Rightarrow> (Inl (RtSyscall what e), tr1)
              | (Inr p, tr1) \<Rightarrow> (Inr p, tr1))))"

definition set_spawn :: "Libc \<Rightarrow> string list \<Rightarrow> ServiceSet \<Rightarrow> libc_trace \<Rightarrow> (RuntimeError + ServiceSet) \<times> libc_trace" where
  "set_spawn L args ss tr = (case spawn_service L args tr of
      (Inl e, tr1) \<Rightarrow> (Inl e, tr1)
    | (Inr p, tr1) \<Rightarrow> (Inr (ss\<lparr>ss_pids := ss_pids ss @ [p]\<rparr>), tr1))"

definition set_forget :: "pid \<Rightarrow> ServiceSet \<Rightarrow> ServiceSet" where
  "set_forget p ss = ss\<lparr>ss_pids := filter (\<lambda>q. q \<noteq> p) (ss_pids ss)\<rparr>"

definition exit_pid :: "ChildExit \<Rightarrow> pid" where
  "exit_pid e = (case e of Exited p _ \<Rightarrow> p | Signaled p _ \<Rightarrow> p)"

definition reap_and_log :: "ChildExit list \<Rightarrow> ServiceSet \<Rightarrow> nat \<times> ServiceSet" where
  "reap_and_log reaped ss = (length reaped, foldl (\<lambda>s e. set_forget (exit_pid e) s) ss reaped)"

fun term_each :: "Kernel \<Rightarrow> pid list \<Rightarrow> trace \<Rightarrow> trace" where
  "term_each K [] tr = tr"
| "term_each K (p # ps) tr = term_each K ps (snd (kill K p SIGTERM tr))"

text \<open>\<open>shutdown\<close>: the last argument is what is reaped after the grace period.\<close>

definition set_shutdown :: "Kernel \<Rightarrow> ChildExit list \<Rightarrow> ServiceSet \<Rightarrow> trace \<Rightarrow> ServiceSet \<times> trace" where
  "set_shutdown K reaped ss tr = (let tr1 = term_each K (ss_pids ss) tr in (snd (reap_and_log reaped ss), tr1))"

datatype BringUpSignal = ChildSignal "ChildExit list" | StopSignal "ChildExit list"

text \<open>\<open>None\<close> while the loop still waits for a signal.\<close>

fun bring_up_loop :: "Kernel \<Rightarrow> BringUpSignal list \<Rightarrow> ServiceSet \<Rightarrow> trace \<Rightarrow> (ServiceSet \<times> trace) option" where
  "bring_up_loop K [] ss tr = None"
| "bring_up_loop K (ChildSignal reaped # sigs) ss tr = bring_up_loop K sigs (snd (reap_and_log reaped ss)) tr"
| "bring_up_loop K (StopSignal reaped # sigs) ss tr = Some (set_shutdown K reaped ss tr)"

section \<open>The set-up\<close>

text \<open>\<open>SIGWINCH\<close>, \<open>SIGHUP\<close>, \<open>SIGUSR1\<close>, \<open>SIGUSR2\<close>, \<open>SIGQUIT\<close> and \<open>SIGPIPE\<close>.\<close>

definition IGNORED_SIGNALS :: "int list" where
  "IGNORED_SIGNALS = [28, 1, 10, 12, 3, 13]"

datatype RunError =
  MountRefused int | FstabRefused int | JoinFailed string string | SignalsRefused int | PlanRefused PlanError | SpawnRefused RuntimeError

text \<open>What the main loop works on besides its own state.\<close>

record Setup =
  su_super :: Supervisor
  su_control :: ControlServer
  su_socket :: SocketFile
  su_logs :: ServiceLogs
  su_fs :: Fs

text \<open>
  The machine around the program. \<open>ou_turns\<close> is what each turn of the main loop meets, with the lines
  captured from the services before it; \<open>ou_mount_join\<close> and \<open>ou_fstab_join\<close> say that a blocking task
  ended without a result, why, and after how many of its calls.
\<close>

record Outside =
  ou_mounts :: MountOps
  ou_fstab :: "string \<Rightarrow> FstabFiles"
  ou_cmdline :: "string option"
  ou_kernel :: Kernel
  ou_ignore :: "int \<Rightarrow> int option"
  ou_signals :: "int option"
  ou_dir :: UnitDir
  ou_notify_env :: "string option"
  ou_control_env :: "string option"
  ou_server :: ServerOs
  ou_socket :: SocketFile
  ou_logfs :: LogFs
  ou_fs :: Fs
  ou_turns :: "(LoopTurn \<times> (UnitName \<times> string) list) list"
  ou_rounds :: "ChildExit list list"
  ou_overhead :: nat
  ou_mount_join :: "(string \<times> nat) option"
  ou_fstab_join :: "(string \<times> nat) option"
  ou_libc :: Libc
  ou_bring_up :: "BringUpSignal list"
  ou_final :: FinalOs
  ou_runtime :: "int option"

definition cut_short :: "nat \<Rightarrow> mount_trace \<Rightarrow> mount_trace \<Rightarrow> mount_trace" where
  "cut_short n tr tr1 = drop (length tr1 - (length tr + n)) tr1"

definition joined :: "(string \<times> nat) option \<Rightarrow> mount_trace \<Rightarrow> (RunError + 'a) \<times> mount_trace \<Rightarrow> (RunError + 'a) \<times> mount_trace" where
  "joined j tr result = (case j of
      None \<Rightarrow> result
    | Some (detail, n) \<Rightarrow> (Inl (JoinFailed ''mount'' detail), cut_short n tr (snd result)))"

definition report_mounts :: "(string \<times> nat) option \<Rightarrow> MountOps \<Rightarrow> mount_trace \<Rightarrow> (RunError + MountReport) \<times> mount_trace" where
  "report_mounts j M tr =
     joined j tr (let (r, tr1) = first_wave_mounts_with M tr in (map_sum MountRefused id r, tr1))"

text \<open>No second wave without a path, or with \<open>nofstab\<close> on the command line; an unreadable one is empty.\<close>

definition report_fstab :: "(string \<times> nat) option \<Rightarrow> MountOps \<Rightarrow> (string \<Rightarrow> FstabFiles) \<Rightarrow> string option \<Rightarrow> string option
    \<Rightarrow> mount_trace \<Rightarrow> (RunError + MountReport option) \<times> mount_trace" where
  "report_fstab j M files cmdline path tr = (case path of
      None \<Rightarrow> (Inr None, tr)
    | Some p \<Rightarrow> joined j tr
        (if \<not> fstab_enabled (case cmdline of Some c \<Rightarrow> c | None \<Rightarrow> []) then (Inr None, tr)
         else (let (r, tr1) = run_with M (files p) tr in (map_sum FstabRefused Some r, tr1))))"

definition mount_all :: "Outside \<Rightarrow> Config \<Rightarrow> RunError option \<times> mount_trace" where
  "mount_all X cfg =
     (if skip_mounts cfg then (None, [])
      else case report_mounts (ou_mount_join X) (ou_mounts X) [] of
          (Inl e, mtr) \<Rightarrow> (Some e, mtr)
        | (Inr _, mtr) \<Rightarrow>
            (case report_fstab (ou_fstab_join X) (ou_mounts X) (ou_fstab X) (ou_cmdline X) (fstab cfg) mtr of
               (Inl e, mtr1) \<Rightarrow> (Some e, mtr1) | (Inr _, mtr1) \<Rightarrow> (None, mtr1)))"

text \<open>Up to the signal handlers: the time of the start, the mounts, the hierarchy, the ignored signals.\<close>

definition run_early :: "Outside \<Rightarrow> Config \<Rightarrow> RunError + instant \<times> Cgroup \<times> int list \<times> trace" where
  "run_early X cfg =
     (let (started, tr1) = read_clock (ou_kernel X) [] in
      case fst (mount_all X cfg) of
        Some e \<Rightarrow> Inl e
      | None \<Rightarrow>
          (let (cg, tr2) = cgroup_prepare (ou_kernel X) (skip_mounts cfg) (cgroup_root cfg) tr1;
               refused = filter (\<lambda>s. ou_ignore X s \<noteq> None) IGNORED_SIGNALS
           in case ou_signals X of
                Some e \<Rightarrow> Inl (SignalsRefused e)
              | None \<Rightarrow> Inr (started, cg, refused, tr2)))"

text \<open>\<open>announce_plan\<close>: the directory is read and resolved on the blocking pool.\<close>

definition announce_plan :: "UnitDir \<Rightarrow> Config \<Rightarrow> RunError + BootPlan" where
  "announce_plan D cfg = (case ud_join D of
      Some detail \<Rightarrow> Inl (JoinFailed ''unit plan'' detail)
    | None \<Rightarrow> map_sum PlanRefused id (plan_boot D (unit_dir cfg) (default_target cfg)))"

definition run_setup :: "Outside \<Rightarrow> Config \<Rightarrow> RunError + Setup" where
  "run_setup X cfg = rbind (run_early X cfg) (\<lambda>(started, cg, refused, tr).
     let (logs, fs) = (case log_file cfg of
           None \<Rightarrow> (logs_new, ou_fs X)
         | Some path \<Rightarrow> persist_to (ou_logfs X) path (log_max_bytes cfg) (log_keep cfg) logs_new (ou_fs X))
     in rbind (announce_plan (ou_dir X) cfg) (\<lambda>plan.
          let (control, file) = server_bind (ou_server X) (ou_control_env X) (skip_mounts cfg) (ou_socket X)
          in Inr \<lparr>su_super = supervise_start (ou_kernel X) cfg plan cg (hub_new (ou_notify_env X)) started tr,
                  su_control = control, su_socket = file, su_logs = logs, su_fs = fs\<rparr>))"

text \<open>
  The loop over the whole set-up: in each turn one batch of the captured lines is written to the log
  file; then, once it is left, the shutdown of the services. \<open>None\<close> while it still runs.
\<close>

fun main_loop :: "Outside \<Rightarrow> Config \<Rightarrow> (LoopTurn \<times> (UnitName \<times> string) list) list \<Rightarrow> Setup \<Rightarrow> Setup option" where
  "main_loop X cfg [] su = None"
| "main_loop X cfg ((t, captured) # turns) su =
     (case drain_file (ou_logfs X) (foldl (\<lambda>l (u, line). push_captured (ou_overhead X) u line l) (su_logs su) captured)
         (su_fs su) of
        None \<Rightarrow> None
      | Some (logs, fs) \<Rightarrow>
          (case supervise_turn (ou_kernel X) cfg t (su_super su) of
             Stay sv \<Rightarrow> main_loop X cfg turns (su\<lparr>su_super := sv, su_logs := logs, su_fs := fs\<rparr>)
           | Leave sv \<Rightarrow> Some (su\<lparr>su_super := sv, su_logs := logs, su_fs := fs\<rparr>)))"

definition run_loop :: "Outside \<Rightarrow> Config \<Rightarrow> Setup \<Rightarrow> (ShutdownAction \<times> Setup) option" where
  "run_loop X cfg su = (case main_loop X cfg (ou_turns X) su of
      None \<Rightarrow> None
    | Some su1 \<Rightarrow>
        map_option (\<lambda>sv. (sv_action sv, su1\<lparr>su_super := sv\<rparr>))
          (finish_shutdown (ou_kernel X) (ou_rounds X) (begin_shutdown (ou_kernel X) (su_super su1))))"

text \<open>After the loop: the log queue is flushed, the sockets are removed.\<close>

definition wind_down :: "Outside \<Rightarrow> Setup \<Rightarrow> Setup option" where
  "wind_down X su =
     (case (case sl_file (su_logs su) of
              None \<Rightarrow> Some (su_logs su, su_fs su)
            | Some fq \<Rightarrow> map_option (\<lambda>(fq1, fs). ((su_logs su)\<lparr>sl_file := Some fq1\<rparr>, fs))
                           (flush_file (ou_logfs X) fq (su_fs su))) of
        None \<Rightarrow> None
      | Some (logs, fs) \<Rightarrow>
          let sv = su_super su; w = sv_world sv in
          Some (su\<lparr>su_logs := logs, su_fs := fs,
                   su_super := sv\<lparr>sv_world := w\<lparr>w_tr := act_disarm (sv_act sv) (w_tr w)\<rparr>\<rparr>,
                   su_socket := disarm_socket (ou_server X) (su_control su) (su_socket su)\<rparr>))"

section \<open>The program\<close>

datatype RunEnd = RunReturned | RunFailed RunError | RunDown "FinalCall list" | RunGoesOn

text \<open>In \<open>--dev\<close> the watchdog is disarmed and the program returns.\<close>

definition after_loop :: "Outside \<Rightarrow> Config \<Rightarrow> ShutdownAction \<Rightarrow> Setup \<Rightarrow> RunEnd \<times> trace" where
  "after_loop X cfg a su =
     (let sv = su_super su; tr = w_tr (sv_world sv) in
      if skip_mounts cfg then (RunReturned, watchdog_disarm (ou_kernel X) (sv_watchdog sv) tr)
      else (RunDown (shutdown_now (ou_final X) a), tr))"

definition bring_up :: "Outside \<Rightarrow> Config \<Rightarrow> trace \<Rightarrow> RunEnd" where
  "bring_up X cfg tr = (case set_spawn (ou_libc X) (service_argv cfg) service_set_new [] of
      (Inl e, _) \<Rightarrow> RunFailed (SpawnRefused e)
    | (Inr ss, _) \<Rightarrow>
        (case bring_up_loop (ou_kernel X) (ou_bring_up X) ss tr of None \<Rightarrow> RunGoesOn | Some _ \<Rightarrow> RunReturned))"

definition boot_run :: "Outside \<Rightarrow> Config \<Rightarrow> RunEnd" where
  "boot_run X cfg =
     (if service_argv cfg \<noteq> []
      then (case run_early X cfg of Inl e \<Rightarrow> RunFailed e | Inr (_, _, _, tr) \<Rightarrow> bring_up X cfg tr)
      else case run_setup X cfg of
          Inl e \<Rightarrow> RunFailed e
        | Inr su \<Rightarrow>
            (case run_loop X cfg su of
               None \<Rightarrow> RunGoesOn
             | Some (a, su1) \<Rightarrow>
                 (case wind_down X su1 of None \<Rightarrow> RunGoesOn | Some su2 \<Rightarrow> fst (after_loop X cfg a su2))))"

datatype MainEnd = MainExit nat | MainDown "FinalCall list" | MainGoesOn

definition rinit_main :: "Outside \<Rightarrow> bool \<Rightarrow> string option \<Rightarrow> string list \<Rightarrow> MainEnd" where
  "rinit_main X pid1 env args = (case parse_args env args of
      Inl e \<Rightarrow> MainExit 2
    | Inr cfg \<Rightarrow>
        if show_help cfg then MainExit 0
        else if show_version cfg then MainExit 0
        else if ou_runtime X \<noteq> None then MainExit 1
        else case boot_run X cfg of
            RunReturned \<Rightarrow> MainExit 0
          | RunFailed e \<Rightarrow> if pid1 then MainDown (reboot_now (ou_final X)) else MainExit 1
          | RunDown calls \<Rightarrow> MainDown calls
          | RunGoesOn \<Rightarrow> MainGoesOn)"

section \<open>The machine goes down in order\<close>

text \<open>
  Property C35. The last steps of a shutdown, whatever the kernel answers: the emergency trigger is opened
  first, then every mount point of the mount table but the root is unmounted in reverse order, nothing
  if the table cannot be read, then the disks are flushed, then the machine is told to reboot or power
  off, and only if that is refused is the trigger written, with the byte of the same action. The
  watchdog is left as it is.
\<close>

theorem shutdown_in_order:
  "\<exists>umounts post. shutdown_now Z a = OpenTrigger # map Unmounting umounts @ [SyncAll, RebootCall (reboot_command a)] @ post
    \<and> (\<forall>table. fo_table Z = Some table \<longrightarrow>
         List.map_filter plain_umount umounts = rev (filter (\<lambda>p. p \<noteq> ''/'') (mount_points table)))
    \<and> (fo_table Z = None \<longrightarrow> umounts = [])
    \<and> Umount2 ''/'' f \<notin> set umounts
    \<and> (fo_reboot Z (reboot_command a) = None \<longrightarrow> post = [])
    \<and> (fo_reboot Z (reboot_command a) \<noteq> None \<and> fo_open Z [] = None \<longrightarrow> WriteTrigger (trigger_byte a) \<in> set post)
    \<and> (\<forall>c. WriteTrigger c \<in> set post \<longrightarrow> c = trigger_byte a)"
proof -
  obtain report umounts where u: "unmount_filesystems_with (fo_mounts Z) (fo_table Z) [] = (report, umounts)" by fastforce
  define down where "down = OpenTrigger # map Unmounting (rev umounts) @ [SyncAll, RebootCall (reboot_command a)]"
  define post where "post = (if fo_reboot Z (reboot_command a) = None then []
     else if fo_open Z [] = None then trigger_write Z (trigger_byte a)
     else OpenTrigger # (if fo_open Z down = None then trigger_write Z (trigger_byte a) else []))"
  have "shutdown_now Z a = down @ post"
    by (auto simp: shutdown_now_def u post_def down_def [symmetric] Let_def split: option.split)
  moreover have "List.map_filter plain_umount (rev umounts) = rev (filter (\<lambda>p. p \<noteq> ''/'') (mount_points table))"
    if "fo_table Z = Some table" for table
    using unmount_pass [of "fo_mounts Z" "table"] u that by simp
  moreover have "Umount2 ''/'' f \<notin> set umounts"
  proof (cases "fo_table Z")
    case None
    then show ?thesis using u by (auto simp: unmount_filesystems_with_def)
  next
    case (Some t)
    then show ?thesis using unmount_pass [of "fo_mounts Z" t f] u by simp
  qed
  moreover have "umounts = []" if "fo_table Z = None" using u that by (auto simp: unmount_filesystems_with_def)
  ultimately show ?thesis
    by (intro exI [of _ "rev umounts"] exI [of _ post]) (auto simp: down_def post_def trigger_write_def split: if_splits)
qed

section \<open>Process 1\<close>

lemma harmless_enable_controllers [simp]: "harmless (enable_controllers K d tr) = harmless tr"
  by (simp add: enable_controllers_def case_prod_beta Let_def split: sum.split option.split)

lemma harmless_cgroup_prepare [simp]: "harmless (snd (cgroup_prepare K skip root tr)) = harmless tr"
  by (simp add: cgroup_prepare_def case_prod_beta Let_def)

lemma first_wave_complete:
  assumes "first_wave_mounts_with M tr = (Inr report, tr')"
  shows "{''/run'', ''/proc'', ''/sys'', ''/dev''} \<subseteq> set (mr_mounted report)"
  using assms
  by (auto simp: first_wave_mounts_with_def FATAL_MOUNTS_def fatal_def degradable_def case_prod_beta Let_def
      split: option.splits sum.splits prod.splits)

text \<open>A finished set-up leaves the loop in a state of the relation \<open>supervised\<close>, on a mounted system.\<close>

lemma run_setup_supervised:
  assumes "run_setup X cfg = Inr su"
  shows "supervised (ou_kernel X) cfg (su_super su)"
proof -
  let ?K = "ou_kernel X"
  from assms obtain started cg refused tr plan where
    e: "run_early X cfg = Inr (started, cg, refused, tr)"
    and p: "plan_boot (ou_dir X) (unit_dir cfg) (default_target cfg) = Inr plan"
    and s: "su_super su = supervise_start ?K cfg plan cg (hub_new (ou_notify_env X)) started tr"
    by (auto simp: run_setup_def announce_plan_def rbind_Inr_iff map_sum_Inr_iff case_prod_beta Let_def split: option.splits)
  have "harmless (snd (cgroup_prepare ?K (skip_mounts cfg) (cgroup_root cfg) (snd (read_clock ?K []))))"
    unfolding harmless_cgroup_prepare by (simp add: read_clock_def harmless_def)
  with e have "harmless tr"
    by (auto simp: run_early_def case_prod_beta Let_def split: option.splits)
  with p show ?thesis unfolding s by (rule supervised.intros(1))
qed

lemma run_setup_mounted:
  assumes "run_setup X cfg = Inr su" "\<not> skip_mounts cfg"
  shows "\<exists>report mtr. first_wave_mounts_with (ou_mounts X) [] = (Inr report, mtr)
    \<and> {''/run'', ''/proc'', ''/sys'', ''/dev''} \<subseteq> set (mr_mounted report)"
proof -
  from assms(1) have "fst (mount_all X cfg) = None"
    by (auto simp: run_setup_def run_early_def rbind_Inr_iff case_prod_beta Let_def split: option.splits)
  with assms(2) obtain report mtr where "first_wave_mounts_with (ou_mounts X) [] = (Inr report, mtr)"
    by (cases "first_wave_mounts_with (ou_mounts X) []"; cases "fst (first_wave_mounts_with (ou_mounts X) [])")
      (auto simp: mount_all_def report_mounts_def joined_def split: option.splits)
  with first_wave_complete show ?thesis by blast
qed

lemma main_loop_supervise:
  "main_loop X cfg turns su = Some su' \<Longrightarrow> supervise_loop (ou_kernel X) cfg (map fst turns) (su_super su) = Some (su_super su')"
proof (induction turns arbitrary: su)
  case (Cons turn turns)
  obtain t c where t: "turn = (t, c)" by fastforce
  with Cons.prems obtain logs fs where d: "drain_file (ou_logfs X)
      (foldl (\<lambda>l (u, line). push_captured (ou_overhead X) u line l) (su_logs su) c) (su_fs su) = Some (logs, fs)"
    by (auto split: option.splits)
  show ?case
  proof (cases "supervise_turn (ou_kernel X) cfg t (su_super su)")
    case (Stay sv)
    with Cons.prems t d have "main_loop X cfg turns (su\<lparr>su_super := sv, su_logs := logs, su_fs := fs\<rparr>) = Some su'" by simp
    from Cons.IH [OF this] Stay t show ?thesis by simp
  next
    case (Leave sv)
    with Cons.prems t d show ?thesis by auto
  qed
qed simp

lemma begin_shutdown_action [simp]: "sv_action (begin_shutdown K sv) = sv_action sv"
  by (simp add: begin_shutdown_def case_prod_beta Let_def)

lemma run_loop_end:
  assumes "run_loop X cfg su = Some (a, su')" "supervised (ou_kernel X) cfg (su_super su)"
  shows "\<exists>sv. supervise_loop (ou_kernel X) cfg (map fst (ou_turns X)) (su_super su) = Some sv
    \<and> supervised (ou_kernel X) cfg sv \<and> a = sv_action sv"
proof -
  from assms(1) obtain su1 sv where l: "main_loop X cfg (ou_turns X) su = Some su1"
    and f: "finish_shutdown (ou_kernel X) (ou_rounds X) (begin_shutdown (ou_kernel X) (su_super su1)) = Some sv" "a = sv_action sv"
    by (auto simp: run_loop_def split: option.splits)
  from f have "a = sv_action (su_super su1)" by (auto simp: finish_shutdown_def)
  with main_loop_supervise [OF l] supervise_loop_supervised [OF assms(2)] show ?thesis by blast
qed

text \<open>The set-up of a machine that is not a test: the early file systems are there, the supervisor is sound.\<close>

definition booted :: "Outside \<Rightarrow> Config \<Rightarrow> Setup \<Rightarrow> bool" where
  "booted X cfg su \<longleftrightarrow> run_setup X cfg = Inr su \<and> supervised (ou_kernel X) cfg (su_super su)
     \<and> (skip_mounts cfg \<or> (\<exists>report mtr. first_wave_mounts_with (ou_mounts X) [] = (Inr report, mtr)
          \<and> {''/run'', ''/proc'', ''/sys'', ''/dev''} \<subseteq> set (mr_mounted report)))"

lemma run_setup_booted: "run_setup X cfg = Inr su \<Longrightarrow> booted X cfg su"
  using run_setup_supervised run_setup_mounted by (fastforce simp: booted_def)

definition boot_fails :: "Outside \<Rightarrow> Config \<Rightarrow> bool" where
  "boot_fails X cfg \<longleftrightarrow> (if service_argv cfg = [] then \<exists>e. run_setup X cfg = Inl e
     else (\<exists>e. run_early X cfg = Inl e) \<or> (\<exists>e. fst (set_spawn (ou_libc X) (service_argv cfg) service_set_new []) = Inl e))"

lemma boot_run_ends:
  "case boot_run X cfg of
      RunReturned \<Rightarrow> skip_mounts cfg \<or> service_argv cfg \<noteq> []
    | RunFailed e \<Rightarrow> boot_fails X cfg
    | RunDown calls \<Rightarrow> (\<exists>su sv. booted X cfg su \<and> \<not> skip_mounts cfg
        \<and> supervise_loop (ou_kernel X) cfg (map fst (ou_turns X)) (su_super su) = Some sv
        \<and> supervised (ou_kernel X) cfg sv \<and> calls = shutdown_now (ou_final X) (sv_action sv))
    | RunGoesOn \<Rightarrow> service_argv cfg \<noteq> []
        \<or> (\<exists>su. booted X cfg su \<and> (\<forall>a su1. run_loop X cfg su = Some (a, su1) \<longrightarrow> wind_down X su1 = None))"
proof (cases "service_argv cfg = []")
  case True
  show ?thesis
  proof (cases "run_setup X cfg")
    case (Inl e)
    with True show ?thesis by (simp add: boot_run_def boot_fails_def)
  next
    case (Inr su)
    note u = run_setup_booted [OF Inr]
    show ?thesis
    proof (cases "run_loop X cfg su")
      case None
      with True Inr u show ?thesis by (auto simp: boot_run_def)
    next
      case (Some r)
      obtain a su1 where r: "r = (a, su1)" by fastforce
      obtain sv where "supervise_loop (ou_kernel X) cfg (map fst (ou_turns X)) (su_super su) = Some sv"
        "supervised (ou_kernel X) cfg sv" "a = sv_action sv"
        using run_loop_end [OF Some [unfolded r]] u by (auto simp: booted_def)
      with True Inr u Some r show ?thesis
        by (auto simp: boot_run_def after_loop_def Let_def split: option.split)
    qed
  qed
next
  case False
  then show ?thesis
    by (auto simp: boot_run_def bring_up_def boot_fails_def split: sum.splits option.splits prod.splits)
qed

text \<open>
  Property C23. How process 1 ends. It exits only for bad arguments (status 2), for the help or the
  version (0), when its runtime cannot be built (1), or when it was started with \<open>--dev\<close> or with a
  bring-up service (0). When the set-up, from the early mounts to the unit directory, or the bring-up
  service fails, the machine is reset. Otherwise the four early file systems are mounted, the main loop
  runs from a state that satisfies the supervisor's invariants, and its only end is the shutdown of the
  machine, with the action of the state in which the loop was left, again one that satisfies the
  invariants; the program goes on only while the loop, the shutdown of the services or the last write
  of the log has not ended.
\<close>

theorem pid1_boots_or_resets:
  "case rinit_main X True env args of
      MainExit n \<Rightarrow>
        (\<exists>e. parse_args env args = Inl e) \<and> n = 2
        \<or> (\<exists>cfg. parse_args env args = Inr cfg
            \<and> (n = 0 \<and> (show_help cfg \<or> show_version cfg \<or> skip_mounts cfg \<or> service_argv cfg \<noteq> [])
               \<or> n = 1 \<and> ou_runtime X \<noteq> None))
    | MainDown calls \<Rightarrow>
        (\<exists>cfg. parse_args env args = Inr cfg
          \<and> (boot_fails X cfg \<and> calls = shutdown_now (ou_final X) ActReboot
             \<or> (\<exists>su sv. booted X cfg su \<and> \<not> skip_mounts cfg
                  \<and> supervise_loop (ou_kernel X) cfg (map fst (ou_turns X)) (su_super su) = Some sv
                  \<and> supervised (ou_kernel X) cfg sv \<and> calls = shutdown_now (ou_final X) (sv_action sv))))
    | MainGoesOn \<Rightarrow>
        (\<exists>cfg. parse_args env args = Inr cfg \<and> (service_argv cfg \<noteq> []
          \<or> (\<exists>su. booted X cfg su \<and> (\<forall>a su1. run_loop X cfg su = Some (a, su1) \<longrightarrow> wind_down X su1 = None))))"
proof (cases "parse_args env args")
  case (Inr cfg)
  from boot_run_ends [where X = X and cfg = cfg] Inr show ?thesis
    by (auto simp: rinit_main_def reboot_now_def split: RunEnd.splits)
qed (simp add: rinit_main_def)

definition calm_server :: ServerOs where
  "calm_server = \<lparr>so_mkdir = \<lambda>_ _. None, so_remove = \<lambda>_. None, so_bind = \<lambda>_. None, so_chmod = \<lambda>_. None\<rparr>"

text \<open>A machine that goes down: \<open>/run\<close> and \<open>/data\<close> are mounted, and every call succeeds.\<close>

definition calm_end :: FinalOs where
  "calm_end = \<lparr>fo_open = \<lambda>_. None, fo_table = Some (''r / x'' @ [newline] @ ''t /run x'' @ [newline] @ ''d /data x''),
     fo_mounts = no_proc, fo_reboot = \<lambda>_. None, fo_write = \<lambda>_. None\<rparr>"

text \<open>A machine on which \<open>/proc\<close> cannot be mounted.\<close>

definition no_proc_machine :: Outside where
  "no_proc_machine = \<lparr>ou_mounts = no_proc, ou_fstab = \<lambda>_. \<lparr>ff_metadata = Inl ENOENT, ff_text = Inl ENOENT, ff_mounts = None\<rparr>,
     ou_cmdline = None, ou_kernel = calm_kernel, ou_ignore = \<lambda>_. None, ou_signals = None, ou_dir = demo_dir ''[Unit]'',
     ou_notify_env = None, ou_control_env = None, ou_server = calm_server,
     ou_socket = \<lparr>sf_umask = 0x12, sf_mode = None\<rparr>, ou_logfs = sound_fs, ou_fs = empty_fs,
     ou_turns = [], ou_rounds = [], ou_overhead = 112, ou_mount_join = None, ou_fstab_join = None,
     ou_libc = \<lparr>lc_call = \<lambda>_ _. 0, lc_pid = \<lambda>_. 5\<rparr>, ou_bring_up = [], ou_final = calm_end, ou_runtime = None\<rparr>"

theorem pid1_boots_or_resets_witness:
  "rinit_main no_proc_machine True None [] = MainDown (shutdown_now calm_end ActReboot)"
proof -
  obtain cfg where c: "parse_args None [] = Inr cfg" "\<not> show_help cfg" "\<not> show_version cfg" "\<not> skip_mounts cfg"
    "service_argv cfg = []" by (simp add: parse_args_def parse_with_default_def config_default_def service_argv_from_env_def)
  have "first_wave_mounts_with no_proc [] = (Inl 1, [MountProc ''/proc'', MountTmpfs ''/run'' ''0755''])"
    by (simp add: first_wave_mounts_with_def FATAL_MOUNTS_def fatal_def do_call_def no_proc_def)
  then have "run_setup no_proc_machine cfg = Inl (MountRefused 1)"
    using c(4) by (simp add: run_setup_def run_early_def mount_all_def report_mounts_def joined_def no_proc_machine_def read_clock_def)
  then have "\<not> booted no_proc_machine cfg su" for su by (simp add: booted_def)
  with pid1_boots_or_resets [where X = no_proc_machine and env = None and args = "[]"] c show ?thesis
    by (auto simp: no_proc_machine_def split: MainEnd.splits)
qed

theorem shutdown_in_order_witness:
  "\<exists>umounts. shutdown_now calm_end ActReboot =
     OpenTrigger # map Unmounting umounts @ [SyncAll, RebootCall (reboot_command ActReboot)]
     \<and> List.map_filter plain_umount umounts = [''/data'', ''/run'']"
proof -
  have "rev (filter (\<lambda>p. p \<noteq> ''/'') (mount_points (''r / x'' @ [newline] @ ''t /run x'' @ [newline] @ ''d /data x'')))
      = [''/data'', ''/run'']" by code_simp
  then show ?thesis using shutdown_in_order [of calm_end ActReboot 0] by (auto simp: calm_end_def)
qed

end
