(* ===== verification/File_Log.thy ===== *)
theory File_Log
  imports Log_Rotation Rctl_Cli Rinit_Args
begin

text \<open>
  The reader of the persisted log, \<open>rctl log --file\<close> (\<open>rctl/src/file_log.rs\<close>), and what it shows of
  the files that the writer of \<open>Log_File\<close> leaves. What is at a path and how output fails are arguments.

  The properties: with every file readable, the output is the last \<open>tail\<close> lines of the unit over all
  files, oldest first; on the files of the writer, it is the end of everything that was logged.
\<close>

section \<open>Definitions\<close>

text \<open>
  What \<open>metadata\<close>, \<open>open\<close> and reading find at a path; a file may fail to read on after the given bytes.
  The sink answers a write and the flush from what it has taken so far.
\<close>

datatype Node =
  NoFile | StatFails IoError | NotRegular | OpenFails IoError | Readable string "IoError option"

record Sink =
  sk_write :: "string \<Rightarrow> string \<Rightarrow> IoError option"
  sk_flush :: "string \<Rightarrow> IoError option"

datatype FileLogError = CannotRead string IoError | PlainIo IoError

definition log_paths :: "string \<Rightarrow> string list" where
  "log_paths path = map (\<lambda>i. path @ ''.'' @ show_nat i) (rev [1..<Suc MAX_LOG_KEEP]) @ [path]"

text \<open>The line without its ending, and the filter on the prefix of the unit.\<close>

definition line_content :: "string \<Rightarrow> string" where
  "line_content l =
     (let c = (case strip_suffix [newline] l of Some t \<Rightarrow> t | None \<Rightarrow> l)
      in case strip_suffix [CHR 0x0D] c of Some t \<Rightarrow> t | None \<Rightarrow> c)"

definition unit_prefix :: "FileLog \<Rightarrow> string option" where
  "unit_prefix lg = map_option (\<lambda>u. canonical u @ '': '') (fl_unit lg)"

definition line_matches :: "FileLog \<Rightarrow> string \<Rightarrow> bool" where
  "line_matches lg l = (case unit_prefix lg of
      None \<Rightarrow> True | Some p \<Rightarrow> take (length p) (line_content l) = p)"

record Reader =
  rd_selected :: "string list option"
  rd_found :: bool
  rd_out :: string

text \<open>One \<open>read_line\<close> that returned the line \<open>l\<close>.\<close>

definition take_line :: "Sink \<Rightarrow> FileLog \<Rightarrow> string \<Rightarrow> Reader \<Rightarrow> IoError option \<times> Reader" where
  "take_line K lg l r =
     (if \<not> utf8_valid l then (Some (IoCustom ''InvalidData'' ''stream did not contain valid UTF-8''), r)
      else if \<not> line_matches lg l then (None, r)
      else case rd_selected r of
          Some q \<Rightarrow> (None, r\<lparr>rd_selected := Some (if fl_tail lg < length (q @ [l]) then tl (q @ [l]) else q @ [l])\<rparr>)
        | None \<Rightarrow> (case sk_write K (rd_out r) l of
              Some e \<Rightarrow> (Some e, r)
            | None \<Rightarrow> (None, r\<lparr>rd_out := rd_out r @ l\<rparr>)))"

fun take_lines :: "Sink \<Rightarrow> FileLog \<Rightarrow> string list \<Rightarrow> Reader \<Rightarrow> IoError option \<times> Reader" where
  "take_lines K lg [] r = (None, r)"
| "take_lines K lg (l # ls) r = (case take_line K lg l r of
      (Some e, r1) \<Rightarrow> (Some e, r1) | (None, r1) \<Rightarrow> take_lines K lg ls r1)"

text \<open>A file that fails to read on yields its complete lines first.\<close>

definition read_file :: "Sink \<Rightarrow> FileLog \<Rightarrow> string \<Rightarrow> IoError option \<Rightarrow> Reader \<Rightarrow> IoError option \<times> Reader" where
  "read_file K lg bytes fails r =
     (case fails of
        None \<Rightarrow> take_lines K lg (split_inclusive bytes) r
      | Some e \<Rightarrow> (case take_lines K lg (filter (ends_with_char newline) (split_inclusive bytes)) r of
            (Some e1, r1) \<Rightarrow> (Some e1, r1) | (None, r1) \<Rightarrow> (Some e, r1)))"

fun read_paths :: "(string \<Rightarrow> Node) \<Rightarrow> Sink \<Rightarrow> FileLog \<Rightarrow> string list \<Rightarrow> Reader \<Rightarrow> FileLogError option \<times> Reader" where
  "read_paths D K lg [] r = (None, r)"
| "read_paths D K lg (p # ps) r = (case D p of
      NoFile \<Rightarrow> read_paths D K lg ps r
    | StatFails e \<Rightarrow> (Some (CannotRead p e), r)
    | NotRegular \<Rightarrow>
        if p = fl_path lg then (Some (CannotRead p (IoCustom ''InvalidInput'' ''not a regular file'')), r)
        else read_paths D K lg ps r
    | OpenFails e \<Rightarrow> (Some (CannotRead p e), r)
    | Readable bytes fails \<Rightarrow>
        (case read_file K lg bytes fails (r\<lparr>rd_found := True\<rparr>) of
           (Some e, r1) \<Rightarrow> (Some (PlainIo e), r1)
         | (None, r1) \<Rightarrow> read_paths D K lg ps r1))"

fun write_lines :: "Sink \<Rightarrow> string list \<Rightarrow> string \<Rightarrow> IoError option \<times> string" where
  "write_lines K [] out = (None, out)"
| "write_lines K (l # ls) out = (case sk_write K out l of
      Some e \<Rightarrow> (Some e, out) | None \<Rightarrow> write_lines K ls (out @ l))"

definition write_log :: "(string \<Rightarrow> Node) \<Rightarrow> Sink \<Rightarrow> FileLog \<Rightarrow> FileLogError option \<times> string" where
  "write_log D K lg =
     (let start = \<lparr>rd_selected = (if fl_tail lg = 0 then None else Some []), rd_found = False, rd_out = []\<rparr>
      in case read_paths D K lg (log_paths (fl_path lg)) start of
           (Some e, r) \<Rightarrow> (Some e, rd_out r)
         | (None, r) \<Rightarrow>
             if \<not> rd_found r
             then (Some (CannotRead (fl_path lg) (IoCustom ''NotFound'' ''no such file'')), rd_out r)
             else (case write_lines K (case rd_selected r of Some q \<Rightarrow> q | None \<Rightarrow> []) (rd_out r) of
                 (Some e, out) \<Rightarrow> (Some (PlainIo e), out)
               | (None, out) \<Rightarrow> (map_option PlainIo (sk_flush K out), out)))"

text \<open>\<open>run\<close>: a closed pipe is a success; the kind of a wrapped error is kept.\<close>

definition EPIPE :: int where "EPIPE = 32"

definition is_broken_pipe :: "IoError \<Rightarrow> bool" where
  "is_broken_pipe e = (case e of OsError n \<Rightarrow> n = EPIPE | IoCustom kind _ \<Rightarrow> kind = ''BrokenPipe'')"

definition file_log_run :: "(string \<Rightarrow> Node) \<Rightarrow> Sink \<Rightarrow> FileLog \<Rightarrow> nat \<times> FileLogError option \<times> string" where
  "file_log_run D K lg = (case write_log D K lg of
      (None, out) \<Rightarrow> (0, None, out)
    | (Some e, out) \<Rightarrow>
        if is_broken_pipe (case e of CannotRead _ x \<Rightarrow> x | PlainIo x \<Rightarrow> x) then (0, None, out) else (1, Some e, out))"

section \<open>What is selected\<close>

definition open_sink :: "Sink \<Rightarrow> bool" where
  "open_sink K \<longleftrightarrow> (\<forall>out l. sk_write K out l = None) \<and> (\<forall>out. sk_flush K out = None)"

definition last_lines :: "nat \<Rightarrow> string list \<Rightarrow> string list" where
  "last_lines n xs = (if n = 0 then xs else drop (length xs - n) xs)"

text \<open>The lines at a path, and whether reading it goes through.\<close>

definition node_lines :: "Node \<Rightarrow> string list" where
  "node_lines x = (case x of Readable b _ \<Rightarrow> split_inclusive b | _ \<Rightarrow> [])"

definition node_reads :: "bool \<Rightarrow> Node \<Rightarrow> bool" where
  "node_reads current x = (case x of
      NoFile \<Rightarrow> True | NotRegular \<Rightarrow> \<not> current
    | Readable b fails \<Rightarrow> fails = None \<and> list_all utf8_valid (split_inclusive b) | _ \<Rightarrow> False)"

definition is_readable :: "Node \<Rightarrow> bool" where
  "is_readable x = (case x of Readable _ _ \<Rightarrow> True | _ \<Rightarrow> False)"

text \<open>The state of the reader after the matching lines \<open>xs\<close>.\<close>

definition holding :: "FileLog \<Rightarrow> string list \<Rightarrow> Reader \<Rightarrow> bool" where
  "holding lg xs r \<longleftrightarrow>
     (if fl_tail lg = 0 then rd_selected r = None \<and> rd_out r = concat xs
      else rd_selected r = Some (last_lines (fl_tail lg) xs) \<and> rd_out r = [])"

lemma last_lines_snoc:
  "0 < n \<Longrightarrow> last_lines n (xs @ [x]) =
     (if n < length (last_lines n xs @ [x]) then tl (last_lines n xs @ [x]) else last_lines n xs @ [x])"
proof -
  assume n: "0 < n"
  show ?thesis
  proof (cases "length xs < n")
    case True
    then show ?thesis by (simp add: last_lines_def)
  next
    case False
    with n have "drop (length xs - n) xs \<noteq> []" by simp
    with False n show ?thesis
      by (simp add: last_lines_def Suc_diff_le drop_Suc tl_drop [symmetric])
  qed
qed

lemma take_line_holding:
  assumes "open_sink K" "utf8_valid l" "holding lg xs r"
  shows "\<exists>r'. take_line K lg l r = (None, r') \<and> holding lg (xs @ filter (line_matches lg) [l]) r'
    \<and> rd_found r' = rd_found r"
  using assms last_lines_snoc [of "fl_tail lg" xs l]
  by (auto simp: take_line_def holding_def open_sink_def split: if_splits)

lemma take_lines_holding:
  assumes "open_sink K" "list_all utf8_valid ls" "holding lg xs r"
  shows "\<exists>r'. take_lines K lg ls r = (None, r') \<and> holding lg (xs @ filter (line_matches lg) ls) r'
    \<and> rd_found r' = rd_found r"
  using assms(2,3)
proof (induction ls arbitrary: xs r)
  case (Cons l ls)
  from Cons.prems take_line_holding [OF assms(1), of l lg xs r] obtain r1 where
    a: "take_line K lg l r = (None, r1)" "holding lg (xs @ filter (line_matches lg) [l]) r1" "rd_found r1 = rd_found r"
    by auto
  from Cons.IH [OF _ a(2)] Cons.prems a show ?case by (cases "line_matches lg l") auto
qed simp

lemma read_paths_holding:
  assumes "open_sink K" "\<forall>p\<in>set ps. node_reads (p = fl_path lg) (D p)" "holding lg xs r"
  shows "\<exists>r'. read_paths D K lg ps r = (None, r')
    \<and> holding lg (xs @ filter (line_matches lg) (concat (map (node_lines \<circ> D) ps))) r'
    \<and> rd_found r' = (rd_found r \<or> (\<exists>p\<in>set ps. is_readable (D p)))"
  using assms(2,3)
proof (induction ps arbitrary: xs r)
  case (Cons p ps)
  show ?case
  proof (cases "D p")
    case (Readable b fails)
    with Cons.prems have u: "fails = None" "list_all utf8_valid (split_inclusive b)" by (simp_all add: node_reads_def)
    from Cons.prems(2) have "holding lg xs (r\<lparr>rd_found := True\<rparr>)" by (simp add: holding_def)
    from take_lines_holding [OF assms(1) u(2) this] obtain r1 where
      a: "take_lines K lg (split_inclusive b) (r\<lparr>rd_found := True\<rparr>) = (None, r1)"
      "holding lg (xs @ filter (line_matches lg) (split_inclusive b)) r1" "rd_found r1" by auto
    from Cons.IH [OF _ a(2)] Cons.prems(1) a Readable u show ?thesis
      by (auto simp: read_file_def node_lines_def is_readable_def)
  qed (use Cons.IH [OF _ Cons.prems(2)] Cons.prems(1) in \<open>auto simp: node_reads_def node_lines_def is_readable_def\<close>)
qed simp

lemma write_lines_open: "open_sink K \<Longrightarrow> write_lines K ls out = (None, out @ concat ls)"
  by (induction ls arbitrary: out) (simp_all add: open_sink_def)

text \<open>
  With every file readable and output that is taken, the reader writes the last \<open>tail\<close> lines (all of
  them for 0) that carry the unit's prefix, over all files from the oldest, with their line endings.
\<close>

theorem write_log_selects:
  assumes "open_sink K" "\<forall>p\<in>set (log_paths (fl_path lg)). node_reads (p = fl_path lg) (D p)"
    and "\<exists>p\<in>set (log_paths (fl_path lg)). is_readable (D p)"
  shows "write_log D K lg = (None, concat (last_lines (fl_tail lg)
    (filter (line_matches lg) (concat (map (node_lines \<circ> D) (log_paths (fl_path lg)))))))"
proof -
  let ?r = "\<lparr>rd_selected = (if fl_tail lg = 0 then None else Some []), rd_found = False, rd_out = []\<rparr>"
  have "holding lg [] ?r" by (simp add: holding_def last_lines_def)
  from read_paths_holding [OF assms(1,2) this] assms(3) obtain r' where
    a: "read_paths D K lg (log_paths (fl_path lg)) ?r = (None, r')" "rd_found r'"
    "holding lg (filter (line_matches lg) (concat (map (node_lines \<circ> D) (log_paths (fl_path lg))))) r'" by auto
  have "sk_flush K out = None" for out using assms(1) by (simp add: open_sink_def)
  with a show ?thesis
    using write_lines_open [OF assms(1)]
    by (cases "fl_tail lg = 0") (simp_all add: write_log_def holding_def last_lines_def)
qed

section \<open>The writer touches only its own files\<close>

definition own :: "LogFile \<Rightarrow> string \<Rightarrow> bool" where
  "own lf p \<longleftrightarrow> (\<exists>i\<le>lg_keep lf. p = log_name lf i)"

lemma own_cong: "lg_path lf' = lg_path lf \<Longrightarrow> lg_keep lf' = lg_keep lf \<Longrightarrow> own lf' = own lf"
  by (rule ext) (simp add: own_def log_name_cong [of lf' lf])

lemma not_own: "\<not> own lf p \<Longrightarrow> i \<le> lg_keep lf \<Longrightarrow> p \<noteq> log_name lf i"
  by (auto simp: own_def)

lemma frame_write: "p \<noteq> q \<Longrightarrow> content (snd (fs_write F q t s)) p = content s p"
  by (simp add: fs_write_def split: option.split)

lemma frame_set_len: "p \<noteq> q \<Longrightarrow> content (snd (fs_set_len0 F q s)) p = content s p"
  by (simp add: content_set_len)

lemma frame_truncate: "\<not> own lf p \<Longrightarrow> content (snd (snd (truncate_file F n lf s))) p = content s p"
proof -
  assume p: "\<not> own lf p"
  obtain ok lf1 s1 where o: "(if lg_open lf then (True, lf, s) else reopen F lf s) = (ok, lf1, s1)" by (metis prod_cases3)
  then have 1: "content s1 = content s" "lg_path lf1 = lg_path lf"
    using content_reopen [of F lf s] reopen_fields(1) [of F lf s] by (cases "lg_open lf"; simp)+
  with not_own [OF p, of 0] have q: "p \<noteq> lg_path lf1" by (simp add: log_name_path(1))
  show ?thesis
    using q by (auto simp: truncate_file_def o frame_write frame_set_len 1(1) Let_def case_prod_beta split: option.split)
qed

lemma frame_shift:
  "\<not> own lf p \<Longrightarrow> n < lg_keep lf \<Longrightarrow> content (snd (shift_rotated F n lf s)) p = content s p"
proof (induction n arbitrary: lf s)
  case (Suc n)
  obtain r s1 where r: "fs_rename F (log_name lf (Suc n)) (log_name lf (Suc (Suc n))) s = (r, s1)" by fastforce
  obtain lf2 s2 where t: "tolerate r lf s1 = (lf2, s2)" by fastforce
  have c: "content s2 = content s1" "lg_path lf2 = lg_path lf" "lg_keep lf2 = lg_keep lf"
    using content_warn(2) [of r lf s1] tolerate_fields [of r lf s1] t by simp_all
  have "content s1 p = content s p"
    using content_rename [of F "log_name lf (Suc n)" "log_name lf (Suc (Suc n))" s p] r
      not_own [OF Suc.prems(1), of "Suc n"] not_own [OF Suc.prems(1), of "Suc (Suc n)"] Suc.prems(2) by simp
  then show ?case
    using Suc.IH [of lf2 s2] Suc.prems c r t by (simp add: log_name_path(2) own_cong [of lf2 lf])
qed simp

lemma frame_make_space:
  "\<not> own lf p \<Longrightarrow> 0 < lg_keep lf \<Longrightarrow> content (snd (make_space F lf s)) p = content s p"
proof -
  assume p: "\<not> own lf p" and k: "0 < lg_keep lf"
  obtain r s1 where r: "fs_remove F (log_name lf (lg_keep lf)) s = (r, s1)" by fastforce
  obtain lf2 s2 where t: "tolerate r lf s1 = (lf2, s2)" by fastforce
  have c: "content s2 = content s1" "lg_path lf2 = lg_path lf" "lg_keep lf2 = lg_keep lf"
    using content_warn(2) [of r lf s1] tolerate_fields [of r lf s1] t by simp_all
  have "content s1 p = content s p"
    using content_remove [of F "log_name lf (lg_keep lf)" s p] r not_own [OF p, of "lg_keep lf"] by simp
  then show ?thesis
    using frame_shift [of lf2 p "lg_keep lf - 1" F s2] p k c r t
    by (simp add: make_space_def log_name_path(2) own_cong [of lf2 lf])
qed

lemma frame_rotate: "\<not> own lf p \<Longrightarrow> content (snd (snd (rotate_log F n lf s))) p = content s p"
proof (cases "lg_keep lf = 0")
  case True
  then show "\<not> own lf p \<Longrightarrow> ?thesis" by (simp add: rotate_log_def frame_truncate)
next
  case False
  assume p: "\<not> own lf p"
  obtain lf1 s1 where m: "make_space F lf s = (lf1, s1)" by fastforce
  have f: "lg_path lf1 = lg_path lf" "lg_keep lf1 = lg_keep lf" using make_space_fields [of F lf s] m by simp_all
  have s1: "content s1 p = content s p" using frame_make_space [OF p, of F s] False m by simp
  obtain r s2 where r: "fs_rename F (lg_path lf1) (rotated_path lf1 (Suc 0)) s1 = (r, s2)" by fastforce
  have "content s2 p = content s p"
    using content_rename [of F "log_name lf1 0" "log_name lf1 (Suc 0)" s1 p] r s1 f False
      not_own [OF p, of 0] not_own [OF p, of "Suc 0"] by (simp add: log_name_def rotated_path_def)
  moreover have "\<not> own (fst (warn e lf1 s2)) p" for e using p f by (simp add: own_cong [of "fst (warn e lf1 s2)" lf])
  ultimately show ?thesis
    using False frame_truncate by (simp add: rotate_log_def start_new_def m r Let_def case_prod_beta)
qed

lemma frame_prepared: "\<not> own lf p \<Longrightarrow> content (snd (snd (prepared F n lf s))) p = content s p"
proof -
  assume p: "\<not> own lf p"
  obtain ok lf1 s1 where o: "(if lg_open lf then (True, lf, s) else reopen F lf s) = (ok, lf1, s1)" by (metis prod_cases3)
  then have "content s1 = content s" "lg_path lf1 = lg_path lf" "lg_keep lf1 = lg_keep lf"
    using content_reopen [of F lf s] reopen_fields [of F lf s] by (cases "lg_open lf"; simp)+
  with frame_rotate [of lf1 p F n s1] p show ?thesis
    by (simp add: prepared_def o own_cong [of lf1 lf] case_prod_beta Let_def)
qed

lemma frame_append_record:
  assumes "0 < lg_max lf" "lg_max lf \<le> u64_max" "append_record F t lf s = Some (ok, lf', s')"
  shows "lg_path lf' = lg_path lf \<and> lg_max lf' = lg_max lf \<and> lg_keep lf' = lg_keep lf
    \<and> (\<forall>p. \<not> own lf p \<longrightarrow> content s' p = content s p)"
proof -
  let ?I = "\<lambda>(_ :: string) l x. lg_path l = lg_path lf \<and> lg_keep l = lg_keep lf \<and> (\<forall>p. \<not> own lf p \<longrightarrow> content x p = content s p)"
  have path: "\<not> own lf p \<Longrightarrow> p \<noteq> lg_path lf" for p using not_own [of lf p 0] by (simp add: log_name_path(1))
  have prep: "content (snd (snd (prepared F n l x))) p = content x p"
    if "\<not> own lf p" "lg_path l = lg_path lf" "lg_keep l = lg_keep lf" for n l x p
    using frame_prepared [of l p F n x] own_cong [of l lf] that by simp
  have "\<exists>ok lf' s' left. append_record F t lf s = Some (ok, lf', s') \<and> ?I left lf' s' \<and> (ok \<longrightarrow> left = [])
    \<and> ((\<forall>n lf s. fst (prepared F n lf s)) \<and> (\<forall>p t s. fst (fs_write F p t s) = None) \<longrightarrow> ok)
    \<and> lg_path lf' = lg_path lf \<and> lg_max lf' = lg_max lf \<and> lg_keep lf' = lg_keep lf"
    by (rule append_induct [where I = ?I, OF assms(1,2)])
      (simp_all add: prep frame_write path)
  then show ?thesis using assms(3) by auto
qed

lemma frame_append_texts:
  assumes "0 < lg_max lf" "lg_max lf \<le> u64_max" "append_texts F ts lf s = Some (lf', s')"
  shows "lg_path lf' = lg_path lf \<and> lg_keep lf' = lg_keep lf \<and> (\<forall>p. \<not> own lf p \<longrightarrow> content s' p = content s p)"
proof -
  have records: "lg_path lf' = lg_path lf \<and> lg_max lf' = lg_max lf \<and> lg_keep lf' = lg_keep lf
      \<and> (\<forall>p. \<not> own lf p \<longrightarrow> content s' p = content s p)"
    if "0 < lg_max lf" "lg_max lf \<le> u64_max" "append_records F rs lf s = Some (lf', s')" for rs lf s lf' s'
    using that
  proof (induction rs arbitrary: lf s)
    case (Cons r rs)
    from Cons.prems(3) obtain ok lf1 s1 where a: "append_record F r lf s = Some (ok, lf1, s1)"
      "if ok then append_records F rs lf1 s1 = Some (lf', s') else (lf1, s1) = (lf', s')"
      by (auto split: option.splits if_splits prod.splits)
    note f = frame_append_record [OF Cons.prems(1,2) a(1)]
    then show ?case using Cons.IH [of lf1 s1] Cons.prems a(2) by (cases ok) (auto simp: own_cong [of lf1 lf])
  qed simp
  show ?thesis
    using assms
  proof (induction ts arbitrary: lf s)
    case (Cons t ts)
    from Cons.prems(3) obtain lf1 s1 where a: "append_records F (split_inclusive t) lf s = Some (lf1, s1)"
      "append_texts F ts lf1 s1 = Some (lf', s')" by (auto simp: append_text_def split: option.splits prod.splits)
    note f = records [OF Cons.prems(1,2) a(1)]
    then show ?case using Cons.IH [OF _ _ a(2)] Cons.prems by (auto simp: own_cong [of lf1 lf])
  qed simp
qed

section \<open>What \<open>rctl log --file\<close> shows of the writer's files\<close>

definition disk_nodes :: "Fs \<Rightarrow> string \<Rightarrow> Node" where
  "disk_nodes s p = (case fs_disk s p of None \<Rightarrow> NoFile | Some t \<Rightarrow> Readable t None)"

lemma split_inclusive_empty [simp]: "split_inclusive [] = []"
  by (simp add: split_inclusive_def)

lemma node_lines_disk: "node_lines (disk_nodes s p) = split_inclusive (content s p)"
  by (simp add: disk_nodes_def node_lines_def content_def split: option.split)

lemma lines_ascii: "list_all is_ascii t \<Longrightarrow> list_all utf8_valid (split_inclusive t)"
proof -
  assume "list_all is_ascii t"
  then have "list_all is_ascii (concat (split_inclusive t))" by (simp add: concat_split_inclusive)
  then have "\<forall>l\<in>set (split_inclusive t). list_all is_ascii l" by (simp add: list_all_iff)
  then show ?thesis by (auto simp: list_all_iff intro: utf8_valid_ascii)
qed

lemma log_paths_names:
  assumes "lg_path lf = path"
  shows "log_paths path = map (log_name lf) (rev [0..<Suc MAX_LOG_KEEP])"
proof -
  have "rev [0..<Suc MAX_LOG_KEEP] = rev [1..<Suc MAX_LOG_KEEP] @ [0]"
    by (subst upt_conv_Cons) simp_all
  moreover have "map (log_name lf) (rev [1..<Suc MAX_LOG_KEEP]) = map (\<lambda>i. path @ ''.'' @ show_nat i) (rev [1..<Suc MAX_LOG_KEEP])"
    by (rule map_cong) (use assms in \<open>auto simp: log_name_def rotated_path_def\<close>)
  ultimately show ?thesis using assms by (simp add: log_paths_def log_name_def)
qed

lemma log_paths_on_disk:
  assumes "lg_keep lf \<le> MAX_LOG_KEEP" "\<forall>p. \<not> own lf p \<longrightarrow> content s p = []"
  shows "concat (map (content s) (log_paths (lg_path lf))) = on_disk lf s"
proof -
  have "[0..<Suc MAX_LOG_KEEP] = [0..<Suc (lg_keep lf)] @ [Suc (lg_keep lf)..<Suc MAX_LOG_KEEP]"
    using assms(1) upt_add_eq_append [of 0 "Suc (lg_keep lf)" "MAX_LOG_KEEP - lg_keep lf"] by simp
  moreover have "content s (log_name lf i) = []" if "i \<in> set [Suc (lg_keep lf)..<Suc MAX_LOG_KEEP]" for i
    using that assms(2) by (auto simp: own_def)
  then have "concat (map (content s \<circ> log_name lf) (rev [Suc (lg_keep lf)..<Suc MAX_LOG_KEEP])) = []" by auto
  ultimately show ?thesis
    by (simp add: log_paths_names [OF refl] on_disk_def comp_def del: upt_Suc)
qed

lemma shown_all:
  assumes "open_sink K" "concat (map (content s) (log_paths path)) = d" "d \<noteq> []" "list_all is_ascii d"
  shows "write_log (disk_nodes s) K \<lparr>fl_path = path, fl_unit = None, fl_tail = 0\<rparr> = (None, d)"
proof -
  let ?lg = "\<lparr>fl_path = path, fl_unit = None, fl_tail = 0\<rparr>"
  have "list_all is_ascii (content s p)" if "p \<in> set (log_paths path)" for p
    using that assms(2,4) by (auto simp: list_all_iff)
  then have r: "\<forall>p\<in>set (log_paths (fl_path ?lg)). node_reads (p = fl_path ?lg) (disk_nodes s p)"
    using lines_ascii by (force simp: node_reads_def disk_nodes_def content_def split: option.split)
  from assms(2,3) obtain p where "p \<in> set (log_paths path)" "content s p \<noteq> []" by auto
  then have f: "\<exists>p\<in>set (log_paths (fl_path ?lg)). is_readable (disk_nodes s p)"
    by (auto simp: is_readable_def disk_nodes_def content_def split: option.splits)
  have "concat (concat (map (\<lambda>p. split_inclusive (content s p)) ps)) = concat (map (content s) ps)" for ps
    by (induction ps) (simp_all add: concat_split_inclusive)
  with write_log_selects [OF assms(1) r f] assms(2) show ?thesis
    by (simp add: last_lines_def line_matches_def unit_prefix_def node_lines_disk comp_def)
qed

text \<open>
  Property C38. Writer and reader agree over rotation: as long as the disk works, at least one rotated file
  is kept and what is logged is ASCII text, every append to a log file opened on an empty directory
  returns, and \<open>rctl log --file\<close> then prints exactly the end of everything that was logged. Nothing is missing until the kept files are full; then at
  least \<open>keep\<close> full files are shown, and never more than one beyond.
\<close>

theorem rctl_log_shows_newest:
  assumes "faultless F" "0 < keep" "keep \<le> MAX_LOG_KEEP" "0 < mx" "mx \<le> u64_max" "fs_disk s = Map.empty"
    and "logfile_open F path mx keep s = (Inr lf, s1)" "open_sink K"
    and "concat ts \<noteq> []" "list_all is_ascii (concat ts)"
  shows "\<exists>lf' s' old shown. append_texts F ts lf s1 = Some (lf', s')
    \<and> write_log (disk_nodes s') K \<lparr>fl_path = path, fl_unit = None, fl_tail = 0\<rparr> = (None, shown)
    \<and> concat ts = old @ shown \<and> (old = [] \<or> keep * mx \<le> length shown) \<and> length shown \<le> Suc keep * mx"
proof -
  from rotation_keeps_newest [OF assms(1,2,4-7), of ts] obtain lf' s' old where
    a: "append_texts F ts lf s1 = Some (lf', s')" "concat ts = old @ on_disk lf' s'"
    "old = [] \<or> keep * mx \<le> length (on_disk lf' s')" "length (on_disk lf' s') \<le> Suc keep * mx" by blast
  have lf: "lg_path lf = path" "lg_keep lf = keep" "lg_max lf = mx" "content s1 = (\<lambda>_. [])"
    using assms(1,4,6,7)
    by (auto simp: logfile_open_def fs_open_def fs_len_def faultless_def content_def tick_def put_file_def
        case_prod_beta Let_def fun_eq_iff split: option.splits if_splits sum.splits prod.splits)
  from frame_append_texts [OF _ _ a(1)] assms(4,5) lf have f: "lg_path lf' = path" "lg_keep lf' = keep"
    "\<forall>p. \<not> own lf' p \<longrightarrow> content s' p = []" by (auto simp: own_cong [of lf' lf])
  have "concat (map (content s') (log_paths path)) = on_disk lf' s'"
    using log_paths_on_disk [of lf' s'] f assms(3) by simp
  moreover have "on_disk lf' s' \<noteq> []" using a(2,3) assms(2,4,9) by auto
  moreover have "list_all is_ascii (on_disk lf' s')" using a(2) assms(10) by simp
  ultimately have "write_log (disk_nodes s') K \<lparr>fl_path = path, fl_unit = None, fl_tail = 0\<rparr> = (None, on_disk lf' s')"
    by (rule shown_all [OF assms(8)])
  with a show ?thesis by blast
qed

definition all_taken :: Sink where
  "all_taken = \<lparr>sk_write = \<lambda>_ _. None, sk_flush = \<lambda>_. None\<rparr>"

theorem rctl_log_shows_newest_witness:
  "\<exists>lf s1 lf' s' old shown. logfile_open sound_fs ''r'' 4 2 empty_fs = (Inr lf, s1)
     \<and> append_texts sound_fs [''abcdefgh'', ''ijklmnop''] lf s1 = Some (lf', s')
     \<and> write_log (disk_nodes s') all_taken \<lparr>fl_path = ''r'', fl_unit = None, fl_tail = 0\<rparr> = (None, shown)
     \<and> ''abcdefghijklmnop'' = old @ shown \<and> length shown \<le> 12"
proof -
  have f: "faultless sound_fs" by (simp add: faultless_def sound_fs_def)
  have "path_parent ''r'' = Some []" by code_simp
  then obtain lf s1 where o: "logfile_open sound_fs ''r'' 4 2 empty_fs = (Inr lf, s1)"
    by (simp add: logfile_open_def sound_fs_def fs_open_def fs_len_def)
  have m: "(4::nat) \<le> u64_max" "(2::nat) \<le> MAX_LOG_KEEP" by (simp_all add: u64_max_value MAX_LOG_KEEP_def)
  have k: "open_sink all_taken" by (simp add: open_sink_def all_taken_def)
  have a: "list_all is_ascii (concat [''abcdefgh'', ''ijklmnop''])" by code_simp
  from rctl_log_shows_newest [OF f _ m(2) _ m(1) _ o k _ a] o show ?thesis by fastforce
qed

lemma read_paths_missing:
  "\<forall>p\<in>set ps. D p = NoFile \<Longrightarrow> read_paths D K lg (ps @ qs) r = read_paths D K lg qs r"
  by (induction ps) simp_all

lemma cut_character_files:
  "\<exists>lf s1 lf' s'. logfile_open sound_fs ''r'' 3 1 empty_fs = (Inr lf, s1)
     \<and> append_texts sound_fs [[CHR ''a'', CHR ''b'', CHR 0xC3, CHR 0xA9, newline]] lf s1 = Some (lf', s')
     \<and> fs_disk s' = [''r.1'' \<mapsto> [CHR ''a'', CHR ''b'', CHR 0xC3], ''r'' \<mapsto> [CHR 0xA9, newline]]"
proof -
  have p: "path_parent ''r'' = Some []" by code_simp
  have l: "split_inclusive [CHR ''a'', CHR ''b'', CHR 0xC3, CHR 0xA9, newline] = [[CHR ''a'', CHR ''b'', CHR 0xC3, CHR 0xA9, newline]]"
    by code_simp
  have n: "show_nat 1 = ''1''" "show_nat (Suc 0) = ''1''" by code_simp+
  show ?thesis
    by (simp add: logfile_open_def p l append_text_def append_record.simps prepared_def rotate_log_def make_space_def
        start_new_def reopen_def fs_open_def fs_len_def fs_write_def fs_remove_def fs_rename_def sound_fs_def
        content_def tick_def put_file_def tolerate_def missing_def rotated_path_def n sat_add_def u64_max_value
        fun_eq_iff Let_def)
qed

text \<open>
  Only for ASCII: the writer cuts a line at the size limit wherever it falls, and a rotated file that
  ends inside a character stops the reader with an error before the newer files are looked at.
\<close>

theorem split_character_stops_reader:
  "\<exists>lf s1 lf' s'. logfile_open sound_fs ''r'' 3 1 empty_fs = (Inr lf, s1)
     \<and> utf8_valid ([CHR ''a'', CHR ''b'', CHR 0xC3, CHR 0xA9, newline])
     \<and> append_texts sound_fs [[CHR ''a'', CHR ''b'', CHR 0xC3, CHR 0xA9, newline]] lf s1 = Some (lf', s')
     \<and> write_log (disk_nodes s') all_taken \<lparr>fl_path = ''r'', fl_unit = None, fl_tail = 0\<rparr> =
         (Some (PlainIo (IoCustom ''InvalidData'' ''stream did not contain valid UTF-8'')), [])"
proof -
  define cut where "cut = [CHR ''a'', CHR ''b'', CHR 0xC3]"
  have v: "utf8_valid [CHR ''a'', CHR ''b'', CHR 0xC3, CHR 0xA9, newline]" "\<not> utf8_valid cut" "split_inclusive cut = [cut]"
    unfolding cut_def by code_simp+
  have "log_paths ''r'' = map (\<lambda>i. ''r.'' @ show_nat i) (rev [2..<Suc MAX_LOG_KEEP]) @ [''r.1'', ''r'']"
    "\<forall>p\<in>set (map (\<lambda>i. ''r.'' @ show_nat i) (rev [2..<Suc MAX_LOG_KEEP])). p \<noteq> ''r.1'' \<and> p \<noteq> ''r''" by code_simp+
  then obtain old where old: "log_paths ''r'' = old @ [''r.1'', ''r'']" "\<forall>p\<in>set old. p \<noteq> ''r.1'' \<and> p \<noteq> ''r''" by blast
  have "write_log (disk_nodes s') all_taken \<lparr>fl_path = ''r'', fl_unit = None, fl_tail = 0\<rparr> =
      (Some (PlainIo (IoCustom ''InvalidData'' ''stream did not contain valid UTF-8'')), [])"
    if d: "fs_disk s' = [''r.1'' \<mapsto> cut, ''r'' \<mapsto> [CHR 0xA9, newline]]" for s'
  proof -
    have "\<forall>p\<in>set old. disk_nodes s' p = NoFile" using old(2) by (simp add: disk_nodes_def d)
    note skip = read_paths_missing [OF this]
    have "disk_nodes s' ''r.1'' = Readable cut None" by (simp add: disk_nodes_def d)
    then show ?thesis
      using v(2,3) by (simp add: write_log_def old(1) skip read_file_def take_line_def)
  qed
  with cut_character_files [folded cut_def] v(1) show ?thesis by blast
qed

end
