(* ===== verification/Rctl_Main.thy ===== *)
theory Rctl_Main
  imports Control_Server File_Log
begin

text \<open>
  The program \<open>rctl\<close> (\<open>rctl/src/main.rs\<close>) over its command line, its client and its log reader. The
  version comes from the build; standard output is a sink and standard error the message printed there.

  The property: a command line that asks for a request is carried to the main loop of rinit and the
  answer back to the terminal and the exit code, the wire adding and losing nothing.
\<close>

section \<open>Definitions\<close>

definition USAGE :: string where
  "USAGE = concat (map (\<lambda>l. l @ [newline])
     [''Usage: rctl <COMMAND> [ARGS]'',
      [],
      ''Control the rinit PID 1 service manager.'',
      [],
      ''Commands:'',
      ''  list [--format FMT]     List all known units (default: table)'',
      ''  status [UNIT] [--tail N] [--format FMT]'',
      ''                            Show unit status (default: systemd, latest 10 logs)'',
      ''  start <UNIT>            Start a unit'',
      ''  stop <UNIT>             Stop a unit'',
      ''  restart <UNIT>          Restart a unit'',
      ''  reset-failed <UNIT>     Clear a unit's failed/start-limit state'',
      ''  log [UNIT] [--tail N] [--file[=PATH]]'',
      ''                          Show buffered log, or read the persisted file'',
      ''  reload                  Re-read the unit directory and apply the difference'',
      ''  reboot                  Stop services and reboot'',
      ''  poweroff                Stop services and power off'',
      [],
      ''Options:'',
      ''  -h, --help              Show this help and exit'',
      ''  -V, --version           Show version and exit'',
      ''  --format=FMT            list: table|plain|short|json'',
      ''                          status: systemd|plain|short|json|card'',
      ''  --json                  alias for --format=json'',
      ''  --plain                 alias for --format=plain (stable key: value)'',
      ''  --short                 alias for --format=short'',
      ''  --card                  status alias for --format=card'',
      ''  --table                 list alias for --format=table'',
      ''  --tail N                limit status/log to N recent lines'',
      ''                          (status defaults to 10; 0 disables status logs)'',
      ''  --file[=PATH]           log reads the persisted file instead of the ring'',
      ''                          (default: /var/log/rinit/log)'',
      [],
      ''Exit codes:'',
      ''  0 success   1 error   2 usage   3 no such unit   4 operation conflict''])"

datatype RctlMessage =
  ArgumentNotUtf8 string | BadUsage CliError | CannotWrite IoError | ServerSaid string
| ClientFailed ClientError | FileLogFailed FileLogError

record RctlRun =
  rr_exit :: nat
  rr_out :: string
  rr_err :: "RctlMessage option"

fun collect_args :: "string list \<Rightarrow> string + string list" where
  "collect_args [] = Inr []"
| "collect_args (a # rest) =
     (if \<not> utf8_valid a then Inl a else rbind (collect_args rest) (\<lambda>as. Inr (a # as)))"

text \<open>\<open>emit\<close>: whether writing counts as done, what was printed and what was reported.\<close>

definition emit :: "Sink \<Rightarrow> string \<Rightarrow> bool \<times> string \<times> RctlMessage option" where
  "emit K t = (case sk_write K [] t of
      None \<Rightarrow> (True, t, None)
    | Some e \<Rightarrow> if is_broken_pipe e then (True, [], None) else (False, [], Some (CannotWrite e)))"

definition emit_run :: "Sink \<Rightarrow> string \<Rightarrow> RctlRun" where
  "emit_run K t = (let (ok, out, err) = emit K t
     in \<lparr>rr_exit = (if ok then 0 else 1), rr_out = out, rr_err = err\<rparr>)"

definition rctl_main :: "string \<Rightarrow> (string \<Rightarrow> Node) \<Rightarrow> Sink \<Rightarrow> Remote \<Rightarrow> string option \<Rightarrow> string list \<Rightarrow> RctlRun" where
  "rctl_main version D K R var os_args =
     (case collect_args os_args of
        Inl a \<Rightarrow> \<lparr>rr_exit = 2, rr_out = [], rr_err = Some (ArgumentNotUtf8 a)\<rparr>
      | Inr args \<Rightarrow>
          (case command_line args of
             Inl e \<Rightarrow> \<lparr>rr_exit = 2, rr_out = [], rr_err = Some (BadUsage e)\<rparr>
           | Inr PHelp \<Rightarrow> emit_run K USAGE
           | Inr PVersion \<Rightarrow> emit_run K (''rctl '' @ version @ [newline])
           | Inr (PFileLog lg) \<Rightarrow>
               (let (code, e, out) = file_log_run D K lg
                in \<lparr>rr_exit = code, rr_out = out, rr_err = map_option FileLogFailed e\<rparr>)
           | Inr (PRequest r) \<Rightarrow>
               (case send R var r of
                  Inl e \<Rightarrow> \<lparr>rr_exit = 1, rr_out = [], rr_err = Some (ClientFailed e)\<rparr>
                | Inr (st, t) \<Rightarrow>
                    if st \<noteq> ROk then \<lparr>rr_exit = exit_code st, rr_out = [], rr_err = Some (ServerSaid t)\<rparr>
                    else if t = [] then \<lparr>rr_exit = exit_code ROk, rr_out = [], rr_err = None\<rparr>
                    else (let (ok, out, err) = emit K (t @ [newline])
                          in \<lparr>rr_exit = (if ok then exit_code ROk else 1), rr_out = out, rr_err = err\<rparr>))))"

section \<open>A command from the terminal to the main loop and back\<close>

lemma collect_args_utf8: "list_all utf8_valid args \<Longrightarrow> collect_args args = Inr args"
  by (induction args) simp_all

text \<open>What the terminal shows of an answer.\<close>

definition terminal :: "ReplyStatus \<times> string \<Rightarrow> RctlRun" where
  "terminal answer = (let (st, t) = answer in
     \<lparr>rr_exit = exit_code st, rr_out = (if st = ROk \<and> t \<noteq> [] then t @ [newline] else []),
      rr_err = (if st = ROk then None else Some (ServerSaid t))\<rparr>)"

text \<open>
  Property C31. A command line that asks for a request reaches rinit as that request: over a connection
  that holds, the main loop is handed exactly it, or nothing when the peer is not entitled or rinit is
  going down, and \<open>rctl\<close> prints the answer, cut only at the frame limit, and exits with its code.
\<close>

theorem rctl_carries_request:
  assumes "list_all utf8_valid args" "command_line args = Inr (PRequest r)"
    and "utf8_valid (snd (direct_answer dev euid ch cred r))" "open_sink K"
  shows "rctl_main version D K (connected strerror dev euid ch cred) var args =
      terminal (map_prod id sent_text (direct_answer dev euid ch cred r))
    \<and> se_forwarded (serve strerror dev euid ch (connection cred (frame (encode_request r)))) =
      (if peer_allowed dev (pc_uid cred) euid \<and> ch_open ch then Some r else None)"
proof -
  have wf: "wf_request r" using command_line_sends_valid [OF assms(2)] by blast
  obtain st t where a: "direct_answer dev euid ch cred r = (st, t)" by fastforce
  from exchange_is_direct [OF wf assms(3)] a
  have "send (connected strerror dev euid ch cred) var r = Inr (st, sent_text t)" by simp
  moreover have "sk_write K out l = None" for out l using assms(4) by (simp add: open_sink_def)
  ultimately have "rctl_main version D K (connected strerror dev euid ch cred) var args =
      terminal (map_prod id sent_text (direct_answer dev euid ch cred r))"
    using collect_args_utf8 [OF assms(1)] assms(2) a
    by (simp add: rctl_main_def terminal_def emit_def Let_def)
  then show ?thesis using serve_request [OF wf] by blast
qed

definition quiet_loop :: Channel where
  "quiet_loop = \<lparr>ch_open = True, ch_answer = \<lambda>r. Answered RConflict (request_describe r)\<rparr>"

theorem rctl_carries_request_witness:
  "rctl_main ''1'' (\<lambda>_. NoFile) all_taken (connected (\<lambda>_. []) False 0 quiet_loop \<lparr>pc_pid = 7, pc_uid = 0, pc_gid = 0\<rparr>)
     None [''stop'', ''web''] = \<lparr>rr_exit = 4, rr_out = [], rr_err = Some (ServerSaid ''stop web.service'')\<rparr>"
proof -
  let ?r = "Request.Stop (UnitName ''web.service'' Service)" and ?c = "\<lparr>pc_pid = 7, pc_uid = 0, pc_gid = 0\<rparr>"
  have c: "command_line [''stop'', ''web''] = Inr (PRequest ?r)" by code_simp
  have d: "direct_answer False 0 quiet_loop ?c ?r = (RConflict, ''stop web.service'')" by code_simp
  have u: "list_all utf8_valid [''stop'', ''web'']" "utf8_valid ''stop web.service''" by code_simp+
  have k: "open_sink all_taken" by (simp add: open_sink_def all_taken_def)
  from u(2) d have v: "utf8_valid (snd (direct_answer False 0 quiet_loop ?c ?r))" by (simp only: snd_conv)
  have "sent_text ''stop web.service'' = ''stop web.service''" by (simp add: sent_text_def MAX_FRAME_BYTES_def)
  with rctl_carries_request [OF u(1) c v k] d show ?thesis by (simp add: terminal_def exit_code_def)
qed

end
