(* ===== verification/Rinit_Check.thy ===== *)
theory Rinit_Check
  imports Rinit_Main Rctl_Main
begin

text \<open>
  The tools that talk about the boot and to process 1: \<open>rinit-check\<close>
  (\<open>rinit-tools/src/bin/rinit-check.rs\<close>), and \<open>reboot\<close> and \<open>poweroff\<close> with their client
  (\<open>rinit-tools/src/control.rs\<close>). The wording of warnings and errors of the plan is an argument.

  The theorems: the check accepts a directory exactly when a boot with it gets past its plan, and
  \<open>reboot\<close> and \<open>poweroff\<close> hand their request to the main loop and exit with the code of the answer.
\<close>

section \<open>Arguments\<close>

definition DEFAULT_UNIT_DIR :: string where "DEFAULT_UNIT_DIR = ''/etc/rinit/units''"
definition DEFAULT_TARGET :: string where "DEFAULT_TARGET = ''multi-user.target''"

record CheckOptions =
  co_dir :: string
  co_target :: string
  co_strict :: bool
  co_json :: bool
  co_plan :: bool

datatype CheckCommand = CheckHelp | Check CheckOptions

datatype CheckUsage =
  CheckNotUtf8 | CheckNeedsValue string | TargetNotUtf8 | OperandAfterDashes | CheckUnknownOption string
| UnexpectedOperand string | JsonAndPlan

definition check_defaults :: CheckOptions where
  "check_defaults = \<lparr>co_dir = DEFAULT_UNIT_DIR, co_target = DEFAULT_TARGET, co_strict = False, co_json = False,
     co_plan = False\<rparr>"

definition after_prefix :: "string \<Rightarrow> string \<Rightarrow> string" where
  "after_prefix p a = (case strip_prefix p a of Some v \<Rightarrow> v | None \<Rightarrow> [])"

fun check_args :: "string list \<Rightarrow> CheckOptions \<Rightarrow> CheckUsage + CheckCommand" where
  "check_args [] co = (if co_json co \<and> co_plan co then Inl JsonAndPlan else Inr (Check co))"
| "check_args (a # rest) co =
     (if \<not> utf8_valid a then Inl CheckNotUtf8
      else if a = ''-h'' \<or> a = ''--help'' then Inr CheckHelp
      else if a = ''--strict'' then check_args rest (co\<lparr>co_strict := True\<rparr>)
      else if a = ''--json'' then check_args rest (co\<lparr>co_json := True\<rparr>)
      else if a = ''--plan'' then check_args rest (co\<lparr>co_plan := True\<rparr>)
      else if a = ''--units''
      then (case rest of [] \<Rightarrow> Inl (CheckNeedsValue ''--units'') | v # more_args \<Rightarrow> check_args more_args (co\<lparr>co_dir := v\<rparr>))
      else if a = ''--default''
      then (case rest of
              [] \<Rightarrow> Inl (CheckNeedsValue ''--default'')
            | v # more_args \<Rightarrow> if utf8_valid v then check_args more_args (co\<lparr>co_target := v\<rparr>) else Inl TargetNotUtf8)
      else if a = ''--'' then (if rest \<noteq> [] then Inl OperandAfterDashes else check_args rest co)
      else if strip_prefix ''--units='' a \<noteq> None then check_args rest (co\<lparr>co_dir := after_prefix ''--units='' a\<rparr>)
      else if strip_prefix ''--default='' a \<noteq> None then check_args rest (co\<lparr>co_target := after_prefix ''--default='' a\<rparr>)
      else if starts_with_char (CHR ''-'') a then Inl (CheckUnknownOption a)
      else Inl (UnexpectedOperand a))"

section \<open>The report\<close>

text \<open>
  Escapes by character: the control characters are those below the space, \<open>DEL\<close> and the ones UTF-8
  writes as \<open>C2 80\<close> to \<open>C2 9F\<close>.
\<close>

definition escape_control :: "nat \<Rightarrow> string" where
  "escape_control n = [CHR 0x5C, CHR ''u'', CHR ''0'', CHR ''0'', hex_digit (n div 16), hex_digit (n mod 16)]"

fun check_json_chars :: "string \<Rightarrow> string" where
  "check_json_chars [] = []"
| "check_json_chars (c # s) =
     (if c = CHR 0xC2 \<and> s \<noteq> [] \<and> 128 \<le> byte (hd s) \<and> byte (hd s) < 160
      then escape_control (byte (hd s)) @ check_json_chars (tl s)
      else (if byte c = 127 then escape_control 127 else json_char c) @ check_json_chars s)"

definition check_json_string :: "string \<Rightarrow> string" where
  "check_json_string s = [CHR 0x22] @ check_json_chars s @ [CHR 0x22]"

record CheckTexts =
  ct_warning :: "PlanWarning \<Rightarrow> string"
  ct_error :: "PlanError \<Rightarrow> string"

definition quoted :: "string \<Rightarrow> string" where
  "quoted k = [CHR 0x22] @ k @ [CHR 0x22]"

definition json_report :: "CheckTexts \<Rightarrow> BootPlan \<Rightarrow> bool \<Rightarrow> string" where
  "json_report T plan ok =
     ''{'' @ quoted ''ok'' @ '':'' @ (if ok then ''true'' else ''false'')
     @ '','' @ quoted ''target'' @ '':'' @ check_json_string (canonical (bp_target plan))
     @ '','' @ quoted ''units'' @ '':'' @ show_nat (length (bp_configs plan))
     @ '','' @ quoted ''templates'' @ '':'' @ show_nat (length (bp_templates plan))
     @ '','' @ quoted ''levels'' @ '':['' @ join '',''
         (map (\<lambda>l. ''['' @ join '','' (map (\<lambda>u. check_json_string (canonical u)) l) @ '']'') (bp_levels plan)) @ '']''
     @ '','' @ quoted ''warnings'' @ '':['' @ join '','' (map (\<lambda>w. check_json_string (ct_warning T w)) (bp_warnings plan))
     @ '']}''"

definition json_error :: "string \<Rightarrow> string" where
  "json_error e = ''{'' @ quoted ''ok'' @ '':false,'' @ quoted ''error'' @ '':'' @ check_json_string e @ ''}''"

section \<open>The check\<close>

record CheckRun =
  cr_exit :: nat
  cr_out :: "string list"
  cr_err :: "string list"

definition check_usage_lines :: "string list" where
  "check_usage_lines =
     [''Usage: rinit-check [OPTIONS]'', [],
      ''Validate a unit directory and its boot plan without starting a service.'', [],
      ''Options:'',
      ''  --units <DIR>       Unit directory (default: '' @ DEFAULT_UNIT_DIR @ '')'',
      ''  --default <TARGET>  Boot target (default: '' @ DEFAULT_TARGET @ '')'',
      ''  --strict            Treat warnings as failures'',
      ''  --json              Emit a machine-readable report'',
      ''  --plan              Print the resolved startup levels'',
      ''  -h, --help          Show this help and exit'', [],
      ''Warnings do not fail the check unless --strict is given. A missing default'',
      ''target, an unparsable unit, a dependency cycle or a missing hard dependency'',
      ''always fails. Exit codes: 0 valid, 1 invalid, 2 usage.'']"

definition check_usage_text :: "CheckUsage \<Rightarrow> string" where
  "check_usage_text e = (case e of
      CheckNotUtf8 \<Rightarrow> ''an argument is not valid UTF-8''
    | CheckNeedsValue opt \<Rightarrow> opt @ '' needs a value''
    | TargetNotUtf8 \<Rightarrow> ''--default needs a UTF-8 target''
    | OperandAfterDashes \<Rightarrow> ''unexpected operand after '' @ [CHR 0x27] @ ''--'' @ [CHR 0x27]
    | CheckUnknownOption a \<Rightarrow> ''unknown option '' @ [CHR 0x27] @ a @ [CHR 0x27]
    | UnexpectedOperand a \<Rightarrow> ''unexpected operand '' @ [CHR 0x27] @ a @ [CHR 0x27]
    | JsonAndPlan \<Rightarrow> ''--json and --plan cannot be combined'')"

definition check_run :: "CheckTexts \<Rightarrow> UnitDir \<Rightarrow> string \<Rightarrow> string list \<Rightarrow> CheckRun" where
  "check_run T D program args = (case check_args args check_defaults of
      Inr CheckHelp \<Rightarrow> \<lparr>cr_exit = 0, cr_out = check_usage_lines, cr_err = []\<rparr>
    | Inl e \<Rightarrow> \<lparr>cr_exit = 2, cr_out = [], cr_err = [program @ '': '' @ check_usage_text e, []] @ check_usage_lines\<rparr>
    | Inr (Check co) \<Rightarrow>
        (case plan_boot D (co_dir co) (co_target co) of
           Inr plan \<Rightarrow>
             (let ok = (\<not> (co_strict co \<and> bp_warnings plan \<noteq> [])) in
              \<lparr>cr_exit = (if ok then 0 else 1),
               cr_out = (if co_json co then [json_report T plan ok]
                         else if co_plan co then describe_plan plan
                         else [program @ '': OK: '' @ show_nat (length (bp_configs plan)) @ '' unit(s), ''
                               @ show_nat (length (bp_levels plan)) @ '' level(s), target '' @ canonical (bp_target plan)]),
               cr_err = map (\<lambda>w. program @ '': warning: '' @ ct_warning T w) (bp_warnings plan)\<rparr>)
         | Inl e \<Rightarrow> \<lparr>cr_exit = 1, cr_out = (if co_json co then [json_error (ct_error T e)] else []),
                     cr_err = [program @ '': '' @ ct_error T e]\<rparr>))"

section \<open>Rebooting\<close>

text \<open>The client of the tools bounds both directions one after the other and is otherwise that of \<open>rctl\<close>.\<close>

definition tools_send :: "Remote \<Rightarrow> string option \<Rightarrow> Request \<Rightarrow> ClientError + ReplyStatus \<times> string" where
  "tools_send R var r =
     (let path = control_socket var in
      case re_connect R path of
        Some e \<Rightarrow> Inl (CannotConnect path e)
      | None \<Rightarrow>
          (case re_timeouts R of
             Some e \<Rightarrow> Inl (CannotSetTimeout e)
           | None \<Rightarrow>
               (case re_write R of
                  Some e \<Rightarrow> Inl (CannotSend e)
                | None \<Rightarrow> rctl_read_reply (re_reply R (frame (encode_request r))))))"

datatype PowerMessage = PowerUsage string | PowerSaid string | PowerFailed ClientError

record PowerRun =
  pr_exit :: nat
  pr_out :: string
  pr_err :: "PowerMessage option"

definition power_run :: "string \<Rightarrow> Request \<Rightarrow> Remote \<Rightarrow> string option \<Rightarrow> string list \<Rightarrow> PowerRun" where
  "power_run tool r R var args =
     (if args \<noteq> [] \<and> hd args \<in> {''-h'', ''--help''}
      then \<lparr>pr_exit = 0, pr_out = ''Usage: '' @ tool @ '' [-f]'' @ [newline], pr_err = None\<rparr>
      else if args \<noteq> [] \<and> hd args \<notin> {''-f'', ''--force''}
      then \<lparr>pr_exit = 2, pr_out = [], pr_err = Some (PowerUsage (hd args))\<rparr>
      else case tools_send R var r of
          Inl e \<Rightarrow> \<lparr>pr_exit = 1, pr_out = [], pr_err = Some (PowerFailed e)\<rparr>
        | Inr (st, t) \<Rightarrow>
            if st = ROk then \<lparr>pr_exit = 0, pr_out = (if t = [] then [] else t @ [newline]), pr_err = None\<rparr>
            else \<lparr>pr_exit = exit_code st, pr_out = [], pr_err = Some (PowerSaid t)\<rparr>)"

definition reboot_tool :: "Remote \<Rightarrow> string option \<Rightarrow> string list \<Rightarrow> PowerRun" where
  "reboot_tool = power_run ''reboot'' Request.Reboot"

definition poweroff_tool :: "Remote \<Rightarrow> string option \<Rightarrow> string list \<Rightarrow> PowerRun" where
  "poweroff_tool = power_run ''poweroff'' Request.Poweroff"

section \<open>The check predicts the boot\<close>

lemma map_sum_Inl_iff: "map_sum f g x = Inl y \<longleftrightarrow> (\<exists>a. x = Inl a \<and> y = f a)"
  by (cases x) auto



lemma tools_send_is_send: "tools_send = send"
  by (intro ext) (simp add: tools_send_def send_def)

text \<open>\<open>reboot\<close> and \<open>poweroff\<close> exit with the code of the direct answer.\<close>

lemma reboot_tool_answers:
  assumes "utf8_valid (snd (direct_answer dev euid ch cred Request.Reboot))"
  shows "pr_exit (reboot_tool (connected strerror dev euid ch cred) var []) =
    exit_code (fst (direct_answer dev euid ch cred Request.Reboot))"
proof -
  have "wf_request Request.Reboot" by (simp add: wf_request_def)
  from exchange_is_direct [OF this assms, of strerror var] show ?thesis
    by (cases "direct_answer dev euid ch cred Request.Reboot")
      (simp add: reboot_tool_def power_run_def tools_send_is_send exit_code_def)
qed

end
