(* ===== verification/Child_Exec_Props.thy ===== *)
theory Child_Exec_Props
  imports Child_Exec "HOL-Library.Sublist"
begin

text \<open>
  What a service is when it is executed. A child may be killed between any two calls; when the parent
  concludes from the bytes it finds in the pipe that the service runs, every call that confines it has
  been answered with success.
\<close>

section \<open>What calls do to the credentials\<close>

record Creds =
  cr_uid :: nat
  cr_gid :: nat
  cr_groups :: "nat list"
  cr_nnp :: bool
  cr_bound :: "nat set"
  cr_ambient :: "nat set"

text \<open>The kernel clears the ambient set when the user changes from root to another one.\<close>

fun takes_effect :: "ChildCall \<Rightarrow> Creds \<Rightarrow> Creds" where
  "takes_effect CNoNewPrivs c = c\<lparr>cr_nnp := True\<rparr>"
| "takes_effect (CBoundDrop n) c = c\<lparr>cr_bound := cr_bound c - {n}\<rparr>"
| "takes_effect (CSetgid g) c = c\<lparr>cr_gid := g\<rparr>"
| "takes_effect (CSetgroups gs) c = c\<lparr>cr_groups := gs\<rparr>"
| "takes_effect (CSetuid u) c = c\<lparr>cr_uid := u, cr_ambient := (if cr_uid c = 0 \<and> u \<noteq> 0 then {} else cr_ambient c)\<rparr>"
| "takes_effect CAmbientClear c = c\<lparr>cr_ambient := {}\<rparr>"
| "takes_effect (CAmbientRaise n) c = c\<lparr>cr_ambient := insert n (cr_ambient c)\<rparr>"
| "takes_effect _ c = c"

fun creds_of :: "Creds \<Rightarrow> child_trace \<Rightarrow> Creds" where
  "creds_of c0 [] = c0"
| "creds_of c0 ((c, Inr _) # tr) = takes_effect c (creds_of c0 tr)"
| "creds_of c0 ((c, Inl _) # tr) = creds_of c0 tr"

definition confined :: "Sandbox \<Rightarrow> Creds \<Rightarrow> Creds \<Rightarrow> bool" where
  "confined sb c0 c \<longleftrightarrow>
     cr_uid c = (if sb_uid sb = 0 then cr_uid c0 else sb_uid sb)
   \<and> cr_gid c = (if sb_gid sb = 0 then cr_gid c0 else sb_gid sb)
   \<and> cr_groups c = (case sb_groups sb of None \<Rightarrow> cr_groups c0 | Some gs \<Rightarrow> gs)
   \<and> cr_nnp c = (cr_nnp c0 \<or> sb_no_new_privileges sb)
   \<and> cr_bound c = (case sb_bounding_set sb of None \<Rightarrow> cr_bound c0 | Some keep \<Rightarrow> cr_bound c0 \<inter> set keep)
   \<and> cr_ambient c = (if sb_ambient sb = Some [] then {}
        else (if sb_uid sb \<noteq> 0 \<and> cr_uid c0 = 0 then {} else cr_ambient c0) \<union> set (or_empty (sb_ambient sb)))"

section \<open>The report pipe\<close>

text \<open>
  The bytes in the pipe after the calls of a trace. A write of so few bytes is atomic; it reaches the
  pipe only while the descriptor still names it.
\<close>

definition releases :: "fd \<Rightarrow> ChildCall \<times> answer \<Rightarrow> bool" where
  "releases w x \<longleftrightarrow> (case x of (CClose f, _) \<Rightarrow> f = w | (CDup2 _ t, Inr _) \<Rightarrow> t = w | _ \<Rightarrow> False)"

fun pipe_bytes :: "fd \<Rightarrow> child_trace \<Rightarrow> octet list" where
  "pipe_bytes w [] = []"
| "pipe_bytes w ((c, r) # tr) =
     (case c of
        CReport f bs \<Rightarrow> if f = w \<and> isl r = False \<and> \<not> list_ex (releases w) tr then pipe_bytes w tr @ bs else pipe_bytes w tr
      | _ \<Rightarrow> pipe_bytes w tr)"

section \<open>Traces of the stages\<close>

definition emits :: "(ChildCall \<Rightarrow> bool) \<Rightarrow> (child_trace \<Rightarrow> 'a \<times> child_trace) \<Rightarrow> bool" where
  "emits P f \<longleftrightarrow> (\<forall>tr. \<exists>ext. snd (f tr) = ext @ tr \<and> (\<forall>x \<in> set ext. P (fst x)))"

definition quiet :: "ChildCall \<Rightarrow> bool" where
  "quiet c \<longleftrightarrow> (\<forall>f bs. c \<noteq> CReport f bs)"

definition plain :: "ChildCall \<Rightarrow> bool" where
  "plain c \<longleftrightarrow> quiet c \<and> (\<forall>x. takes_effect c x = x)"

named_theorems emitting

lemma emitsE:
  assumes "emits P f" "f tr = (r, tr')"
  obtains ext where "tr' = ext @ tr" "\<And>x. x \<in> set ext \<Longrightarrow> P (fst x)"
  using assms unfolding emits_def by (metis snd_conv)

lemma emitsI: "(\<And>tr. \<exists>ext. snd (f tr) = ext @ tr \<and> (\<forall>x \<in> set ext. P (fst x))) \<Longrightarrow> emits P f"
  by (simp add: emits_def)

lemma emits_mono: "emits P f \<Longrightarrow> (\<And>c. P c \<Longrightarrow> Q c) \<Longrightarrow> emits Q f"
  unfolding emits_def by meson

lemma emits_call [emitting]: "P c \<Longrightarrow> emits P (child_call C c)"
  by (rule emitsI) (simp add: child_call_def Let_def)

lemma ignore_all_trace: "\<exists>ext. ignore_all C cs tr = ext @ tr \<and> map fst ext = List.rev cs"
proof (induction cs arbitrary: tr)
  case (Cons c cs)
  from Cons.IH [of "(c, co_call C tr c) # tr"] show ?case by (auto simp: child_call_def Let_def)
qed simp

lemma emits_ignore [emitting]: "list_all P cs \<Longrightarrow> emits P (\<lambda>tr. (x, ignore_all C cs tr))"
proof (rule emitsI)
  fix tr assume P: "list_all P cs"
  obtain ext where e: "ignore_all C cs tr = ext @ tr" "map fst ext = List.rev cs" using ignore_all_trace by blast
  then have "fst ` set ext = set cs" by (metis image_set set_rev)
  with P have "\<forall>x \<in> set ext. P (fst x)" by (auto simp: list_all_iff)
  with e show "\<exists>ext. snd (x, ignore_all C cs tr) = ext @ tr \<and> (\<forall>x \<in> set ext. P (fst x))" by auto
qed

text \<open>Sequencing: what two parts emit, the second may depend on the result of the first.\<close>

lemma emits_bind:
  assumes "emits P f" "\<And>r tr tr1. f tr = (r, tr1) \<Longrightarrow> emits P (g r)"
  shows "emits P (\<lambda>tr. case f tr of (r, tr1) \<Rightarrow> g r tr1)"
proof (rule emitsI)
  fix tr
  obtain r tr1 where f: "f tr = (r, tr1)" by fastforce
  obtain r' tr2 where g: "g r tr1 = (r', tr2)" by fastforce
  from emitsE [OF assms(1) f] obtain e1 where e1: "tr1 = e1 @ tr" "\<And>x. x \<in> set e1 \<Longrightarrow> P (fst x)" by blast
  from emitsE [OF assms(2) [OF f] g] obtain e2 where e2: "tr2 = e2 @ tr1" "\<And>x. x \<in> set e2 \<Longrightarrow> P (fst x)" by blast
  have "snd (case f tr of (r, tr1) \<Rightarrow> g r tr1) = (e2 @ e1) @ tr" using f g e1 e2 by simp
  moreover have "\<forall>x \<in> set (e2 @ e1). P (fst x)" using e1 e2 by auto
  ultimately show "\<exists>ext. snd (case f tr of (r, tr1) \<Rightarrow> g r tr1) = ext @ tr \<and> (\<forall>x \<in> set ext. P (fst x))" by blast
qed

lemma emits_return [emitting]: "emits P (Pair x)"
  by (rule emitsI) simp

lemma emits_attempt [emitting]: "P c \<Longrightarrow> emits P (attempt C st c)"
  by (rule emitsI) (auto simp: attempt_def child_call_def Let_def split: sum.splits)

lemma emits_cred_call [emitting]: "P c \<Longrightarrow> emits P (cred_call C c)"
  by (rule emitsI) (auto simp: cred_call_def child_call_def Let_def split: sum.splits)

lemma emits_in_order [emitting]: "list_all (emits P) ss \<Longrightarrow> emits P (in_order ss)"
proof (induction ss)
  case Nil
  then show ?case by (simp add: emits_def)
next
  case (Cons s ss)
  have eq: "in_order (s # ss) = (\<lambda>tr. case s tr of (r, tr1) \<Rightarrow> (case r of Some d \<Rightarrow> Pair (Some d) | None \<Rightarrow> in_order ss) tr1)"
    by (auto split: prod.splits option.splits)
  have "emits P (case r of Some d \<Rightarrow> Pair (Some d) | None \<Rightarrow> in_order ss)" for r :: "(ChildStep \<times> int) option"
    using Cons by (cases r) (auto intro: emitting)
  moreover have "emits P s" using Cons.prems by simp
  ultimately show ?case unfolding eq by (intro emits_bind)
qed

lemma emits_clear_nonblock [emitting]:
  assumes "\<And>f. P (CGetFl f)" "\<And>f x. P (CSetFl f x)"
  shows "emits P (clear_nonblock C st fd)"
proof -
  have "clear_nonblock C st fd = (\<lambda>tr. case child_call C (CGetFl fd) tr of (r, tr1) \<Rightarrow>
      (case r of Inl e \<Rightarrow> Pair (Some (st, e)) | Inr x \<Rightarrow> attempt C st (CSetFl fd (x AND NOT O_NONBLOCK))) tr1)"
    by (auto simp: clear_nonblock_def fun_eq_iff split: prod.splits sum.splits)
  then show ?thesis using assms by (auto intro!: emits_bind emitting split: sum.split)
qed

lemma emits_reporting [emitting]: "emits P op \<Longrightarrow> emits P (reporting st op)"
  by (simp add: emits_def reporting_def)

lemma emits_setup_tty [emitting]:
  assumes "\<And>p f. P (COpen p f)" "\<And>f. P (CHangup f)" "\<And>f. P (CSetCtty f)"
    and "\<And>f t. t \<in> {0, 1, 2} \<Longrightarrow> P (CDup2 f t)" "\<And>f. P (CGetFl f)" "\<And>f x. P (CSetFl f x)"
    and shuts: "\<And>tr p fl f. co_call C tr (COpen p fl) = Inr f \<Longrightarrow> P (CClose f)"
  shows "emits P (setup_tty C path reset)"
proof -
  define ss where "ss fd = [attempt C AtSetControllingTerminal (CSetCtty fd)]
    @ map (\<lambda>t. attempt C AtDup2 (CDup2 fd t)) [0, 1, 2] @ [clear_nonblock C AtOpenTty fd]" for fd
  define shut where "shut r fd = (\<lambda>tr3. (r, ignore_all C (if r = None \<and> 2 < fd then [CClose fd] else []) tr3))"
    for r :: "(ChildStep \<times> int) option" and fd
  define rest where "rest fd = (\<lambda>tr2. case in_order (ss fd) tr2 of (r, tr3) \<Rightarrow> shut r fd tr3)" for fd
  define opened where "opened fd = (\<lambda>tr1. case ((), ignore_all C (if reset then [CHangup fd] else []) tr1) of
    (u, tr2) \<Rightarrow> (\<lambda>u. rest fd) u tr2)" for fd
  have eq: "setup_tty C path reset = (\<lambda>tr. case child_call C (COpen path (O_RDWR OR O_NOCTTY OR O_NONBLOCK)) tr of
      (r, tr1) \<Rightarrow> (case r of Inl e \<Rightarrow> Pair (Some (AtOpenTty, e)) | Inr fd \<Rightarrow> opened fd) tr1)"
    by (rule ext) (auto simp: setup_tty_def opened_def rest_def shut_def ss_def Let_def split: prod.splits sum.splits)
  have "emits P (in_order (ss fd))" for fd using assms by (auto simp: ss_def simp del: in_order.simps intro!: emitting)
  moreover have "emits P (shut r fd)" if "P (CClose fd)" for r fd
    using that by (auto simp: shut_def simp del: ignore_all.simps intro!: emitting)
  ultimately have "emits P (rest fd)" if "P (CClose fd)" for fd unfolding rest_def using that by (blast intro: emits_bind)
  moreover have "emits P (\<lambda>tr1. ((), ignore_all C (if reset then [CHangup fd] else []) tr1))" for fd
    using assms by (intro emits_ignore) simp
  ultimately have o: "emits P (opened fd)" if "P (CClose fd)" for fd unfolding opened_def using that
    by - (rule emits_bind, auto)
  show ?thesis unfolding eq
  proof (rule emits_bind)
    fix r tr tr1 assume "child_call C (COpen path (O_RDWR OR O_NOCTTY OR O_NONBLOCK)) tr = (r, tr1)"
    then have "co_call C tr (COpen path (O_RDWR OR O_NOCTTY OR O_NONBLOCK)) = r" by (simp add: child_call_def Let_def)
    then show "emits P (case r of Inl e \<Rightarrow> Pair (Some (AtOpenTty, e)) | Inr fd \<Rightarrow> opened fd)"
      using o shuts by (cases r) (auto intro: emitting)
  qed (use assms in \<open>auto intro: emitting\<close>)
qed

lemma emits_join [emitting]:
  assumes "\<And>p f. P (COpen p f)" "\<And>f t. P (CWrite f t)"
    and shuts: "\<And>tr p fl f. co_call C tr (COpen p fl) = Inr f \<Longrightarrow> P (CClose f)"
  shows "emits P (join_from_child C procs p)"
proof (rule emitsI)
  fix tr
  show "\<exists>ext. snd (join_from_child C procs p tr) = ext @ tr \<and> (\<forall>x \<in> set ext. P (fst x))"
  proof (cases "co_call C tr (COpen procs O_WRONLY)")
    case (Inr fd)
    with shuts have "P (CClose fd)" by blast
    with Inr assms show ?thesis by (auto simp: join_from_child_def child_call_def Let_def)
  qed (use assms in \<open>auto simp: join_from_child_def child_call_def Let_def\<close>)
qed

lemma plainI [simp]:
  "plain (CClose f)" "plain (CSigDefault n)" "plain CUnmask" "plain CSetsid" "plain (CSetFd f n)" "plain (CDup2 f t)"
  "plain (CGetFl f)" "plain (CSetFl f n)" "plain (COpen p n)" "plain (CHangup f)" "plain (CSetCtty f)"
  "plain (CChdir d)" "plain (CWrite f txt)" "plain CKeepCaps" "plain CCapget" "plain (CCapset data)"
  "plain CBlockPipe" "plain CRestoreMask" "plain (CExecve p as es)" "plain (CExit n)"
  by (simp_all add: plain_def quiet_def)

lemma quietI [simp]:
  "plain c \<Longrightarrow> quiet c" "quiet CNoNewPrivs" "quiet (CBoundDrop n)" "quiet (CSetgid g)" "quiet (CSetgroups gs)"
  "quiet (CSetuid u)" "quiet CAmbientClear" "quiet (CAmbientRaise n)"
  by (simp_all add: plain_def quiet_def)

text \<open>Everything up to the sandbox steps is plain.\<close>

definition early_stages :: "ChildOs \<Rightarrow> ChildSetup \<Rightarrow> stage list" where
  "early_stages C s =
     stages_if (cs_new_session s) [attempt C AtSetsid CSetsid]
     @ opt_stages (cs_listen_fd s) (pass_listener C)
     @ opt_stages (cs_stdio s) (redirect_output C)
     @ opt_stages (cs_tty s) (\<lambda>(path, reset). [setup_tty C path reset])
     @ opt_stages (cs_cwd s) (\<lambda>d. [attempt C AtChdir (CChdir d)])
     @ opt_stages (cs_procs s) (\<lambda>p. [reporting AtJoinCgroup (join_from_child C p (co_pid C))])"

definition sandbox_stages :: "ChildOs \<Rightarrow> Sandbox \<Rightarrow> SandboxStep list \<Rightarrow> stage list" where
  "sandbox_stages C sb sts = map (\<lambda>st. reporting (from_step st) (sandbox_op C sb st)) sts"

lemma child_stages_split: "child_stages C s = early_stages C s @ sandbox_stages C (cs_sandbox s) (cs_steps s)"
  by (simp add: child_stages_def early_stages_def sandbox_stages_def)

lemma early_plain: "emits plain (in_order (early_stages C s))"
  unfolding early_stages_def stages_if_def opt_stages_def pass_listener_def redirect_output_def
  by (rule emits_in_order) (auto intro!: emitting split: option.splits)

lemma emits_drop_bounding [emitting]: "(\<And>n. P (CBoundDrop n)) \<Longrightarrow> emits P (drop_bounding C keep cs)"
proof (induction cs)
  case (Cons c cs)
  have "drop_bounding C keep (c # cs) = (if c \<in> set keep then drop_bounding C keep cs
      else (\<lambda>tr. case child_call C (CBoundDrop c) tr of (r, tr1) \<Rightarrow>
        (case r of Inr _ \<Rightarrow> drop_bounding C keep cs | Inl e \<Rightarrow> Pair (if e = EINVAL then None else Some e)) tr1))"
    by (auto simp: fun_eq_iff split: prod.splits sum.splits)
  with Cons show ?case by (auto intro!: emits_bind emits_return emits_call split: sum.split)
qed (simp add: emits_def)

lemma emits_raise_each [emitting]: "(\<And>n. P (CAmbientRaise n)) \<Longrightarrow> emits P (raise_each C cs)"
proof (induction cs)
  case (Cons c cs)
  have "raise_each C (c # cs) = (\<lambda>tr. case cred_call C (CAmbientRaise c) tr of (r, tr1) \<Rightarrow>
        (case r of None \<Rightarrow> raise_each C cs | Some e \<Rightarrow> Pair (Some e)) tr1)"
    by (auto simp: fun_eq_iff split: prod.splits option.splits)
  with Cons show ?case by (auto intro!: emits_bind emits_return emits_cred_call split: option.split)
qed (simp add: emits_def)

lemma emits_set_inheritable [emitting]:
  assumes "P CCapget" "\<And>d. P (CCapset d)"
  shows "emits P (set_inheritable C caps)"
proof (rule emitsI)
  fix tr
  show "\<exists>ext. snd (set_inheritable C caps tr) = ext @ tr \<and> (\<forall>x \<in> set ext. P (fst x))"
    using assms by (auto simp: set_inheritable_def child_call_def cred_call_def Let_def split: sum.splits option.splits)
qed

lemma emits_sandbox_op [emitting]: "emits quiet (sandbox_op C sb st)"
  by (cases st) (auto simp: set_bounding_set_def set_ambient_def intro!: emitting)

lemma sandbox_quiet: "emits quiet (in_order (sandbox_stages C sb sts))"
  by (rule emits_in_order) (auto simp: sandbox_stages_def list_all_iff intro!: emitting)

section \<open>Effect of the sandbox steps\<close>

lemma creds_harmless:
  "(\<And>x y. x \<in> set ext \<Longrightarrow> takes_effect (fst x) y = y) \<Longrightarrow> creds_of c0 (ext @ tr) = creds_of c0 tr"
proof (induction ext)
  case (Cons x ext)
  obtain c r where x: "x = (c, r)" by fastforce
  have "takes_effect c y = y" for y using Cons.prems [of x] x by simp
  with Cons x show ?case by (cases r) auto
qed simp

lemma creds_plain: "(\<And>x. x \<in> set ext \<Longrightarrow> plain (fst x)) \<Longrightarrow> creds_of c0 (ext @ tr) = creds_of c0 tr"
  by (rule creds_harmless) (auto simp: plain_def)

lemma creds_emits: "emits plain f \<Longrightarrow> f tr = (r, tr') \<Longrightarrow> creds_of c0 tr' = creds_of c0 tr"
  by (erule (1) emitsE) (simp add: creds_plain)

lemma pipe_quiet: "(\<And>x. x \<in> set ext \<Longrightarrow> quiet (fst x)) \<Longrightarrow> pipe_bytes w (ext @ tr) = pipe_bytes w tr"
proof (induction ext)
  case (Cons x ext)
  obtain c r where x: "x = (c, r)" by fastforce
  have "quiet c" using Cons.prems [of x] x by simp
  with Cons x show ?case by (auto simp: quiet_def split: ChildCall.split)
qed simp

lemma in_order_append: "in_order (ss @ ts) tr =
    (case in_order ss tr of (Some d, tr1) \<Rightarrow> (Some d, tr1) | (None, tr1) \<Rightarrow> in_order ts tr1)"
  by (induction ss arbitrary: tr) (auto split: prod.splits option.splits)

lemma in_order_appendE:
  assumes "in_order (ss @ ts) tr = (None, tr')"
  obtains tr1 where "in_order ss tr = (None, tr1)" "in_order ts tr1 = (None, tr')"
  using assms by (auto simp: in_order_append split: prod.splits option.splits)

lemma cred_call_ok: "cred_call C c tr = (None, tr') \<Longrightarrow> creds_of c0 tr' = takes_effect c (creds_of c0 tr)"
  by (auto simp: cred_call_def child_call_def Let_def split: sum.splits prod.splits)

text \<open>The kernel knows the capabilities below \<open>n\<close>: only for others it answers \<open>EINVAL\<close>.\<close>

definition knows_caps :: "ChildOs \<Rightarrow> nat \<Rightarrow> bool" where
  "knows_caps C n \<longleftrightarrow> (\<forall>tr c. co_call C tr (CBoundDrop c) = Inl EINVAL \<longrightarrow> n \<le> c)"

lemma drop_bounding_ok:
  assumes "drop_bounding C keep cs tr = (None, tr')" "knows_caps C n" "sorted cs"
  shows "\<exists>D. creds_of c0 tr' = (creds_of c0 tr)\<lparr>cr_bound := cr_bound (creds_of c0 tr) - D\<rparr>
    \<and> D \<inter> set keep = {} \<and> {c \<in> set cs. c < n} - set keep \<subseteq> D"
  using assms
proof (induction cs arbitrary: tr)
  case Nil
  then show ?case by (intro exI [of _ "{}"]) simp
next
  case (Cons c cs)
  show ?case
  proof (cases "c \<in> set keep")
    case True
    then have "drop_bounding C keep cs tr = (None, tr')" using Cons.prems by simp
    from Cons.IH [OF this] Cons.prems obtain D where
      "creds_of c0 tr' = (creds_of c0 tr)\<lparr>cr_bound := cr_bound (creds_of c0 tr) - D\<rparr>"
      "D \<inter> set keep = {}" "{c \<in> set cs. c < n} - set keep \<subseteq> D" by auto
    with True show ?thesis by (intro exI [of _ D]) auto
  next
    case False
    show ?thesis
    proof (cases "co_call C tr (CBoundDrop c)")
      case (Inr v)
      then have "drop_bounding C keep cs ((CBoundDrop c, Inr v) # tr) = (None, tr')"
        using Cons.prems(1) False by (simp add: child_call_def Let_def)
      from Cons.IH [OF this] Cons.prems obtain D where
        "creds_of c0 tr' = (creds_of c0 tr)\<lparr>cr_bound := cr_bound (creds_of c0 tr) - {c} - D\<rparr>"
        "D \<inter> set keep = {}" "{c \<in> set cs. c < n} - set keep \<subseteq> D" by auto
      with False show ?thesis by (intro exI [of _ "insert c D"]) (auto simp: set_diff_eq)
    next
      case (Inl e)
      with Cons.prems(1) False have e: "e = EINVAL" "tr' = (CBoundDrop c, Inl e) # tr"
        by (auto simp: child_call_def Let_def split: if_splits)
      then have "n \<le> c" using Inl Cons.prems(2) by (auto simp: knows_caps_def)
      then have "{x \<in> set (c # cs). x < n} = {}" using Cons.prems(3) by auto
      with e show ?thesis by (intro exI [of _ "{}"]) auto
    qed
  qed
qed

lemma set_bounding_set_ok:
  assumes "set_bounding_set C keep tr = (None, tr')" "knows_caps C n" "n \<le> 64" "cr_bound (creds_of c0 tr) \<subseteq> {..<n}"
  shows "creds_of c0 tr' = (creds_of c0 tr)\<lparr>cr_bound := cr_bound (creds_of c0 tr) \<inter> set keep\<rparr>"
proof -
  let ?b = "cr_bound (creds_of c0 tr)"
  have "drop_bounding C keep [0..<Suc MAX_CAPABILITY] tr = (None, tr')" using assms(1) by (simp add: set_bounding_set_def)
  from drop_bounding_ok [OF this assms(2) sorted_upt] obtain D where
    D: "creds_of c0 tr' = (creds_of c0 tr)\<lparr>cr_bound := ?b - D\<rparr>" "D \<inter> set keep = {}"
      "{c \<in> set [0..<Suc MAX_CAPABILITY]. c < n} - set keep \<subseteq> D" by blast
  have "?b - D = ?b \<inter> set keep"
  proof (intro equalityI subsetI)
    fix x assume x: "x \<in> ?b - D"
    then have "x < n" using assms(4) by auto
    then have "x \<in> {c \<in> set [0..<Suc MAX_CAPABILITY]. c < n}" using assms(3) by (auto simp: MAX_CAPABILITY_def)
    with x D(3) show "x \<in> ?b \<inter> set keep" by blast
  qed (use D(2) in auto)
  with D(1) show ?thesis by simp
qed

lemma raise_each_ok: "raise_each C cs tr = (None, tr') \<Longrightarrow>
    creds_of c0 tr' = (creds_of c0 tr)\<lparr>cr_ambient := cr_ambient (creds_of c0 tr) \<union> set cs\<rparr>"
proof (induction cs arbitrary: tr)
  case (Cons c cs)
  then obtain tr1 where c: "cred_call C (CAmbientRaise c) tr = (None, tr1)" and r: "raise_each C cs tr1 = (None, tr')"
    by (auto split: prod.splits option.splits)
  show ?case using Cons.IH [OF r] cred_call_ok [OF c, of c0] by simp
qed simp

lemma set_ambient_ok: "set_ambient C cs tr = (None, tr') \<Longrightarrow> creds_of c0 tr' = (creds_of c0 tr)\<lparr>cr_ambient :=
    if cs = [] then {} else cr_ambient (creds_of c0 tr) \<union> set cs\<rparr>"
  by (auto simp: set_ambient_def raise_each_ok dest: cred_call_ok [of _ _ _ _ c0] split: if_splits)

lemma stage_ok:
  "in_order (sandbox_stages C sb [st]) tr = (None, tr') \<Longrightarrow> sandbox_op C sb st tr = (None, tr')"
  by (cases "sandbox_op C sb st tr") (auto simp: sandbox_stages_def reporting_def split: option.splits)

lemma sandbox_stages_append: "sandbox_stages C sb (xs @ ys) = sandbox_stages C sb xs @ sandbox_stages C sb ys"
  by (simp add: sandbox_stages_def)

text \<open>A step that is not asked for changes nothing.\<close>

lemma optional_stage:
  assumes "in_order (sandbox_stages C sb (if b then [st] else [])) tr = (None, tr')"
    and "\<And>tr tr'. sandbox_op C sb st tr = (None, tr') \<Longrightarrow> Q (creds_of c0 tr) \<Longrightarrow> creds_of c0 tr' = f (creds_of c0 tr)"
    and "Q (creds_of c0 tr)"
  shows "creds_of c0 tr' = (if b then f (creds_of c0 tr) else creds_of c0 tr)"
proof (cases b)
  case True
  with assms(1) stage_ok have "sandbox_op C sb st tr = (None, tr')" by simp
  with True assms(2,3) show ?thesis by simp
next
  case False
  with assms(1) show ?thesis by (simp add: sandbox_stages_def)
qed

lemma plain_stages:
  assumes "in_order (sandbox_stages C sb (if b then [KeepCapabilities, SetInheritable] else [])) tr = (None, tr')"
  shows "creds_of c0 tr' = creds_of c0 tr"
proof -
  have "emits plain (in_order (sandbox_stages C sb (if b then [KeepCapabilities, SetInheritable] else [])))"
    by (rule emits_in_order) (auto simp: sandbox_stages_def intro!: emitting)
  from creds_emits [OF this assms] show ?thesis .
qed

lemma sandbox_confines:
  assumes run: "in_order (sandbox_stages C sb (steps sb)) tr = (None, tr')"
    and "knows_caps C n" "n \<le> 64" "cr_bound (creds_of c0 tr) \<subseteq> {..<n}"
  shows "confined sb (creds_of c0 tr) (creds_of c0 tr')"
proof -
  let ?c = "creds_of c0"
  obtain t1 t2 t3 t4 t5 t6 where
      1: "in_order (sandbox_stages C sb (if sb_no_new_privileges sb then [NoNewPrivs] else [])) tr = (None, t1)"
    and 2: "in_order (sandbox_stages C sb (if sb_ambient sb \<noteq> None then [KeepCapabilities, SetInheritable] else [])) t1 = (None, t2)"
    and 3: "in_order (sandbox_stages C sb (if sb_bounding_set sb \<noteq> None then [SetBoundingSet] else [])) t2 = (None, t3)"
    and 4: "in_order (sandbox_stages C sb (if sb_gid sb \<noteq> 0 then [SetGroup] else [])) t3 = (None, t4)"
    and 5: "in_order (sandbox_stages C sb (if sb_groups sb \<noteq> None then [SetGroups] else [])) t4 = (None, t5)"
    and 6: "in_order (sandbox_stages C sb (if sb_uid sb \<noteq> 0 then [SetUser] else [])) t5 = (None, t6)"
    and 7: "in_order (sandbox_stages C sb (if sb_ambient sb \<noteq> None then [RaiseAmbient] else [])) t6 = (None, tr')"
    using run unfolding steps_def sandbox_stages_append by (elim in_order_appendE) blast
  have c1: "?c t1 = (if sb_no_new_privileges sb then (?c tr)\<lparr>cr_nnp := True\<rparr> else ?c tr)"
    by (rule optional_stage [OF 1, where Q = "\<lambda>_. True"]) (auto dest: cred_call_ok [of _ _ _ _ c0])
  have c2: "?c t2 = ?c t1" by (rule plain_stages [OF 2])
  have b2: "cr_bound (?c t2) \<subseteq> {..<n}" using assms(4) c1 c2 by simp
  have c3: "?c t3 = (if sb_bounding_set sb \<noteq> None
      then (?c t2)\<lparr>cr_bound := cr_bound (?c t2) \<inter> set (or_empty (sb_bounding_set sb))\<rparr> else ?c t2)"
    by (rule optional_stage [OF 3, where Q = "\<lambda>c. cr_bound c \<subseteq> {..<n}"])
      (use b2 set_bounding_set_ok [OF _ assms(2,3)] in auto)
  have c4: "?c t4 = (if sb_gid sb \<noteq> 0 then (?c t3)\<lparr>cr_gid := sb_gid sb\<rparr> else ?c t3)"
    by (rule optional_stage [OF 4, where Q = "\<lambda>_. True"]) (auto dest: cred_call_ok [of _ _ _ _ c0])
  have c5: "?c t5 = (if sb_groups sb \<noteq> None then (?c t4)\<lparr>cr_groups := or_empty (sb_groups sb)\<rparr> else ?c t4)"
    by (rule optional_stage [OF 5, where Q = "\<lambda>_. True"]) (auto dest: cred_call_ok [of _ _ _ _ c0])
  have c6: "?c t6 = (if sb_uid sb \<noteq> 0 then takes_effect (CSetuid (sb_uid sb)) (?c t5) else ?c t5)"
    by (rule optional_stage [OF 6, where Q = "\<lambda>_. True"])
      (auto dest: cred_call_ok [of _ _ _ _ c0] simp del: takes_effect.simps)
  have c7: "?c tr' = (if sb_ambient sb \<noteq> None then (?c t6)\<lparr>cr_ambient :=
      if or_empty (sb_ambient sb) = [] then {} else cr_ambient (?c t6) \<union> set (or_empty (sb_ambient sb))\<rparr> else ?c t6)"
    by (rule optional_stage [OF 7, where Q = "\<lambda>_. True"]) (auto dest: set_ambient_ok [of _ _ _ _ c0])
  show ?thesis unfolding confined_def
  proof (intro conjI)
    show "cr_ambient (?c tr') = (if sb_ambient sb = Some [] then {}
        else (if sb_uid sb \<noteq> 0 \<and> cr_uid (?c tr) = 0 then {} else cr_ambient (?c tr)) \<union> set (or_empty (sb_ambient sb)))"
      unfolding c7 c6 c5 c4 c3 c2 c1 by (cases "sb_ambient sb") (simp_all add: or_empty_def)
  qed (simp_all add: c7 c6 c5 c4 c3 c2 c1 or_empty_def split: option.split)
qed

section \<open>What the parent reads\<close>

lemma read_until_sound:
  assumes "read_until want got pipe ts = Some (Inr (got', pipe', ts'))" "length got \<le> want"
  shows "got' @ pipe' = got @ pipe \<and> length got' \<le> want \<and> (length got' < want \<longrightarrow> pipe' = [])"
  using assms
proof (induction want got pipe ts rule: read_until.induct)
  case (2 want got pipe t ts)
  show ?case
  proof (cases "want \<le> length got")
    case False
    show ?thesis
    proof (cases t)
      case (Got n)
      define k where "k = min (max n 1) (want - length got)"
      show ?thesis
      proof (cases "pipe = []")
        case False
        have "read_until want (got @ take k pipe) (drop k pipe) ts = Some (Inr (got', pipe', ts'))"
          using 2(5) Got False \<open>\<not> want \<le> length got\<close> by (simp add: k_def Let_def)
        moreover have "length (got @ take k pipe) \<le> want" using 2(6) by (simp add: k_def)
        ultimately show ?thesis using 2(4) [OF \<open>\<not> want \<le> length got\<close> Got False k_def] by simp
      qed (use 2(5,6) Got False in auto)
    qed (use 2 False in auto)
  qed (use 2 in auto)
qed (auto split: if_splits)

lemma first_byte: "report_bytes st e = step_code st # tl (report_bytes st e)"
proof -
  have "ucast (ucast (step_code st) OR push_bit 8 x :: 64 word) = step_code st" for x
    by (rule bit_eqI) (auto simp: bit_simps)
  then show ?thesis by (simp add: report_bytes_def word_le_bytes_Suc numeral_eq_Suc)
qed

lemma step_code_not_ready: "step_code st \<noteq> READY_BYTE"
  by (cases st) (simp_all add: READY_BYTE_def)

lemma exec_verdict: "read_report pipe ts = Some (Inr ReportExec) \<Longrightarrow> pipe = [READY_BYTE]"
proof -
  assume r: "read_report pipe ts = Some (Inr ReportExec)"
  have nf: "failed_or_died buf \<noteq> ReportExec" for buf by (auto simp: failed_or_died_def split: option.splits)
  from r obtain f p1 t1 where u: "read_until 1 [] pipe ts = Some (Inr (f, p1, t1))" and f: "f = [READY_BYTE]"
    and b: "\<exists>p2 t2. read_until REPORT_LEN [] p1 t1 = Some (Inr ([], p2, t2))"
    using nf by (auto simp: read_report_def split: option.splits sum.splits prod.splits if_splits)
  from read_until_sound [OF u] f have "pipe = READY_BYTE # p1" by simp
  moreover from b obtain p2 t2 where "read_until REPORT_LEN [] p1 t1 = Some (Inr ([], p2, t2))" by blast
  from read_until_sound [OF this] have "p1 = []" by (auto simp: REPORT_LEN_def)
  ultimately show ?thesis by simp
qed

lemma pipe_prefix: "suffix tr' tr \<Longrightarrow> prefix (pipe_bytes w tr') (pipe_bytes w tr)"
proof (induction tr)
  case (Cons x tr)
  obtain c r where x: "x = (c, r)" by fastforce
  have step: "prefix (pipe_bytes w tr) (pipe_bytes w (x # tr))" using x by (auto split: ChildCall.split)
  show ?case
  proof (cases "tr' = x # tr")
    case False
    then have "suffix tr' tr" using Cons.prems by (simp add: suffix_Cons)
    with Cons.IH step show ?thesis using prefix_order.trans by blast
  qed simp
qed simp

section \<open>The stages leave their calls in the trace\<close>

lemma emits_suffix: "emits P f \<Longrightarrow> f tr = (r, tr') \<Longrightarrow> suffix tr tr'"
  by (erule (1) emitsE) (simp add: suffix_def)

lemma in_order_member:
  assumes "in_order ss tr = (None, tr')" "st \<in> set ss" "list_all (emits (\<lambda>_. True)) ss"
  shows "\<exists>ta tb. st ta = (None, tb) \<and> suffix tb tr'"
  using assms
proof (induction ss arbitrary: tr)
  case (Cons s ss)
  then obtain tr1 where 1: "s tr = (None, tr1)" and 2: "in_order ss tr1 = (None, tr')"
    by (auto split: prod.splits option.splits)
  have "suffix tr1 tr'" using Cons.prems(3) 2 by (intro emits_suffix [OF emits_in_order]) auto
  with 1 2 Cons show ?case by auto
qed simp

definition set_up :: "ChildSetup \<Rightarrow> pid \<Rightarrow> child_trace \<Rightarrow> bool" where
  "set_up s p tr \<longleftrightarrow>
     (cs_new_session s \<longrightarrow> (\<exists>r. (CSetsid, Inr r) \<in> set tr))
   \<and> (\<forall>d. cs_cwd s = Some d \<longrightarrow> (\<exists>r. (CChdir d, Inr r) \<in> set tr))
   \<and> (\<forall>f. cs_procs s = Some f \<longrightarrow> (\<exists>fd. (COpen f O_WRONLY, Inr fd) \<in> set tr
        \<and> (CWrite fd (decimal p), Inr (int (length (decimal p)))) \<in> set tr))"

lemma attempt_ok: "attempt C st c ta = (None, tb) \<Longrightarrow> \<exists>r. (c, Inr r) \<in> set tb"
  by (auto simp: attempt_def child_call_def Let_def split: sum.splits)

lemma join_ok:
  assumes "reporting AtJoinCgroup (join_from_child C f p) ta = (None, tb)"
  shows "\<exists>fd. (COpen f O_WRONLY, Inr fd) \<in> set tb \<and> (CWrite fd (decimal p), Inr (int (length (decimal p)))) \<in> set tb"
  using assms by (cases "join_from_child C f p ta")
    (auto simp: reporting_def join_from_child_def child_call_def Let_def split: sum.splits if_splits)

lemma early_sets_up:
  assumes "in_order (early_stages C s) tr = (None, tr')"
  shows "set_up s (co_pid C) tr'"
proof -
  have e: "list_all (emits (\<lambda>_. True)) (early_stages C s)"
    unfolding early_stages_def stages_if_def opt_stages_def pass_listener_def redirect_output_def
    by (auto intro!: emitting split: option.splits)
  have m: "\<exists>ta tb. st ta = (None, tb) \<and> set tb \<subseteq> set tr'" if "st \<in> set (early_stages C s)" for st
    using in_order_member [OF assms that e] set_mono_suffix by blast
  show ?thesis unfolding set_up_def
  proof (intro conjI allI impI)
    assume "cs_new_session s"
    then have "attempt C AtSetsid CSetsid \<in> set (early_stages C s)" by (simp add: early_stages_def stages_if_def)
    from m [OF this] attempt_ok show "\<exists>r. (CSetsid, Inr r) \<in> set tr'" by blast
  next
    fix d assume "cs_cwd s = Some d"
    then have "attempt C AtChdir (CChdir d) \<in> set (early_stages C s)" by (simp add: early_stages_def opt_stages_def)
    from m [OF this] attempt_ok show "\<exists>r. (CChdir d, Inr r) \<in> set tr'" by blast
  next
    fix f assume "cs_procs s = Some f"
    then have "reporting AtJoinCgroup (join_from_child C f (co_pid C)) \<in> set (early_stages C s)"
      by (simp add: early_stages_def opt_stages_def)
    from m [OF this] join_ok show "\<exists>fd. (COpen f O_WRONLY, Inr fd) \<in> set tr'
        \<and> (CWrite fd (decimal (co_pid C)), Inr (int (length (decimal (co_pid C))))) \<in> set tr'" by blast
  qed
qed

section \<open>The whole child\<close>

lemma write_report_trace:
  "\<exists>a b c. write_report C w bs tr = (CRestoreMask, a) # (CReport w bs, b) # (CBlockPipe, c) # tr"
  by (simp add: write_report_def child_call_def Let_def)

lemma die_trace:
  assumes "die_reporting C w st e tr = (v, tr')"
  shows "\<exists>a b c d. tr' = (CExit 127, d) # (CRestoreMask, a) # (CReport w (report_bytes st e), b) # (CBlockPipe, c) # tr"
  using assms write_report_trace [of C w "report_bytes st e" tr] by (auto simp: die_reporting_def child_call_def Let_def)

definition first_calls :: "ChildOs \<Rightarrow> fd \<Rightarrow> child_trace" where
  "first_calls C rd = reset_child_signals C (ignore_all C [CClose rd] [])"

lemma first_calls_plain: "x \<in> set (first_calls C rd) \<Longrightarrow> plain (fst x)"
proof -
  assume x: "x \<in> set (first_calls C rd)"
  define cs where "cs = map CSigDefault (filter (\<lambda>n. n \<noteq> SIGKILL \<and> n \<noteq> SIGSTOP) [1..64]) @ [CUnmask]"
  have "emits plain (\<lambda>tr. ((), ignore_all C cs tr))" "emits plain (\<lambda>tr. ((), ignore_all C [CClose rd] tr))"
    by (rule emits_ignore, simp add: cs_def list_all_iff)+
  then obtain e1 e2 where "ignore_all C cs (ignore_all C [CClose rd] []) = e1 @ ignore_all C [CClose rd] []"
      "\<forall>x \<in> set e1. plain (fst x)" "ignore_all C [CClose rd] [] = e2 @ []" "\<forall>x \<in> set e2. plain (fst x)"
    unfolding emits_def by (metis snd_conv)
  with x show ?thesis by (auto simp: first_calls_def reset_child_signals_def cs_def [symmetric])
qed

lemma child_exec_cases:
  assumes "child_exec C s rd w = (v, tr)"
  obtains (failed) st e tr1 where "in_order (child_stages C s) (first_calls C rd) = (Some (st, e), tr1)"
      "die_reporting C w st e tr1 = (v, tr)"
    | (executed) tr1 x where "in_order (child_stages C s) (first_calls C rd) = (None, tr1)" "v = Executed"
      "tr = (CExecve (cs_path s) (cs_argv s) (child_env (cs_listen_fd s) (cs_envp s) (co_pid C)), Inr x)
        # write_report C w [READY_BYTE] tr1"
    | (refused) tr1 e where "in_order (child_stages C s) (first_calls C rd) = (None, tr1)"
      "die_reporting C w AtExec e ((CExecve (cs_path s) (cs_argv s) (child_env (cs_listen_fd s) (cs_envp s) (co_pid C)), Inl e)
        # write_report C w [READY_BYTE] tr1) = (v, tr)"
  using assms unfolding child_exec_def first_calls_def [symmetric] Let_def child_call_def
  by (auto split: prod.splits option.splits sum.splits)

lemma stages_quiet:
  assumes "in_order (child_stages C s) (first_calls C rd) = (r, tr1)" "x \<in> set tr1"
  shows "quiet (fst x)"
proof -
  have "list_all (emits quiet) (early_stages C s)"
    unfolding early_stages_def stages_if_def opt_stages_def pass_listener_def redirect_output_def
    by (auto intro!: emitting split: option.splits)
  moreover have "list_all (emits quiet) (sandbox_stages C (cs_sandbox s) (cs_steps s))"
    by (auto simp: sandbox_stages_def list_all_iff intro!: emitting)
  ultimately have "emits quiet (in_order (child_stages C s))" by (auto simp: child_stages_split intro!: emits_in_order)
  from emitsE [OF this assms(1)] obtain ext where "tr1 = ext @ first_calls C rd" "\<And>x. x \<in> set ext \<Longrightarrow> quiet (fst x)" by blast
  with assms(2) first_calls_plain [of x C rd] show ?thesis using quietI(1) by fastforce
qed

lemma stages_pipe:
  assumes "in_order (child_stages C s) (first_calls C rd) = (r, tr1)" "suffix tr' tr1"
  shows "pipe_bytes w tr' = []"
proof -
  have "quiet (fst x)" if "x \<in> set tr'" for x using stages_quiet [OF assms(1)] that set_mono_suffix [OF assms(2)] by blast
  from pipe_quiet [of tr' w "[]", OF this] show ?thesis by simp
qed

lemma stages_confine:
  assumes "in_order (child_stages C s) (first_calls C rd) = (None, tr1)" "cs_steps s = steps (cs_sandbox s)"
    and "knows_caps C n" "n \<le> 64" "cr_bound c0 \<subseteq> {..<n}"
  shows "confined (cs_sandbox s) c0 (creds_of c0 tr1)" "set_up s (co_pid C) tr1"
proof -
  from assms(1) obtain t where
    e: "in_order (early_stages C s) (first_calls C rd) = (None, t)" and
    b: "in_order (sandbox_stages C (cs_sandbox s) (steps (cs_sandbox s))) t = (None, tr1)"
    unfolding child_stages_split assms(2) by (rule in_order_appendE)
  have "creds_of c0 t = creds_of c0 (first_calls C rd)" using creds_emits [OF early_plain e] .
  also have "\<dots> = c0" using creds_plain [of "first_calls C rd" c0 "[]"] first_calls_plain by simp
  finally have t: "creds_of c0 t = c0" .
  from sandbox_confines [OF b assms(3,4), of c0] assms(5) t show "confined (cs_sandbox s) c0 (creds_of c0 tr1)" by simp
  have "set t \<subseteq> set tr1" using emits_suffix [OF sandbox_quiet b] set_mono_suffix by blast
  with early_sets_up [OF e] show "set_up s (co_pid C) tr1" by (auto simp: set_up_def subset_eq) blast+
qed

lemma harmless_end:
  assumes "suffix tr' (E @ tr1)" "\<not> suffix tr' tr1" "\<And>x y. x \<in> set E \<Longrightarrow> takes_effect (fst x) y = y"
  obtains ext where "tr' = ext @ tr1" "\<And>x y. x \<in> set ext \<Longrightarrow> takes_effect (fst x) y = y"
  using assms by (auto simp: suffix_append) (meson set_mono_suffix subsetD)

text \<open>Once the marker is written, nothing the child still does changes what it is.\<close>

lemma marked_trace:
  assumes "child_exec C s rd w = (v, tr)" "suffix tr' tr" "pipe_bytes w tr' = [READY_BYTE]"
  obtains tr1 ext where "in_order (child_stages C s) (first_calls C rd) = (None, tr1)" "tr' = ext @ tr1"
    "\<And>x y. x \<in> set ext \<Longrightarrow> takes_effect (fst x) y = y"
  using assms(1)
proof (cases rule: child_exec_cases)
  case (failed st e tr1)
  from die_trace [OF failed(2)] obtain a b c d where
    tr: "tr = (CExit 127, d) # (CRestoreMask, a) # (CReport w (report_bytes st e), b) # (CBlockPipe, c) # tr1" by blast
  have "pipe_bytes w tr = [] \<or> pipe_bytes w tr = report_bytes st e"
    using tr stages_pipe [OF failed(1) suffix_order.refl] by simp
  with pipe_prefix [OF assms(2), of w] assms(3) first_byte [of st e] step_code_not_ready [of st]
  have False by (metis append_is_Nil_conv list.distinct(1) list.sel(1) prefix_Cons prefix_Nil)
  then show ?thesis ..
next
  case (executed tr1 x)
  obtain a b c where wr: "write_report C w [READY_BYTE] tr1 = (CRestoreMask, a) # (CReport w [READY_BYTE], b) # (CBlockPipe, c) # tr1"
    using write_report_trace by blast
  have E: "suffix tr' ([(CExecve (cs_path s) (cs_argv s) (child_env (cs_listen_fd s) (cs_envp s) (co_pid C)), Inr x),
      (CRestoreMask, a), (CReport w [READY_BYTE], b), (CBlockPipe, c)] @ tr1)"
    using assms(2) unfolding executed(3) wr by simp
  have "\<not> suffix tr' tr1" using stages_pipe [OF executed(1), of tr' w] assms(3) by auto
  with E show ?thesis by (rule harmless_end) (use that [OF executed(1)] in auto)
next
  case (refused tr1 e)
  obtain a b c where wr: "write_report C w [READY_BYTE] tr1 = (CRestoreMask, a) # (CReport w [READY_BYTE], b) # (CBlockPipe, c) # tr1"
    using write_report_trace by blast
  from die_trace [OF refused(2)] obtain a' b' c' d' where
    tr: "tr = (CExit 127, d') # (CRestoreMask, a') # (CReport w (report_bytes AtExec e), b') # (CBlockPipe, c')
      # (CExecve (cs_path s) (cs_argv s) (child_env (cs_listen_fd s) (cs_envp s) (co_pid C)), Inl e)
      # (CRestoreMask, a) # (CReport w [READY_BYTE], b) # (CBlockPipe, c) # tr1" unfolding wr by blast
  have E: "suffix tr' ([(CExit 127, d'), (CRestoreMask, a'), (CReport w (report_bytes AtExec e), b'), (CBlockPipe, c'),
      (CExecve (cs_path s) (cs_argv s) (child_env (cs_listen_fd s) (cs_envp s) (co_pid C)), Inl e),
      (CRestoreMask, a), (CReport w [READY_BYTE], b), (CBlockPipe, c)] @ tr1)" using assms(2) unfolding tr by simp
  have "\<not> suffix tr' tr1" using stages_pipe [OF refused(1), of tr' w] assms(3) by auto
  with E show ?thesis by (rule harmless_end) (use that [OF refused(1)] in auto)
qed

text \<open>
  Property C3. A service is never taken for started before it is confined: wherever the child is when
  it stops - at \<open>execve\<close> or killed on the way - if the parent reads from the pipe that it was executed,
  then the child has its own session, is in the working directory and the control group of its unit, and
  has exactly the user, groups, privilege flag, bounding set and ambient capabilities the unit asks for.
\<close>
theorem started_means_confined:
  assumes "child_exec C (child_setup rq sb) rd w = (v, tr)" "suffix tr' tr"
    and "read_report (pipe_bytes w tr') ts = Some (Inr ReportExec)"
    and "knows_caps C n" "n \<le> 64" "cr_bound c0 \<subseteq> {..<n}"
  shows "confined sb c0 (creds_of c0 tr') \<and> set_up (child_setup rq sb) (co_pid C) tr'"
proof -
  from marked_trace [OF assms(1,2) exec_verdict [OF assms(3)]] obtain tr1 ext where
    ok: "in_order (child_stages C (child_setup rq sb)) (first_calls C rd) = (None, tr1)" "tr' = ext @ tr1"
    and h: "\<And>x y. x \<in> set ext \<Longrightarrow> takes_effect (fst x) y = y" by blast
  have s: "cs_steps (child_setup rq sb) = steps (cs_sandbox (child_setup rq sb))" "cs_sandbox (child_setup rq sb) = sb"
    by (simp_all add: child_setup_def)
  note c = stages_confine [OF ok(1) s(1) assms(4-6)]
  have "creds_of c0 tr' = creds_of c0 tr1" unfolding ok(2) by (rule creds_harmless [OF h])
  moreover have "set_up (child_setup rq sb) (co_pid C) tr'" using c(2) unfolding ok(2) set_up_def by auto
  ultimately show ?thesis using c(1) unfolding s(2) by simp
qed

section \<open>The verdict is the child's end\<close>

definition harmless_turn :: "Turn \<Rightarrow> bool" where
  "harmless_turn t \<longleftrightarrow> (case t of PollInterrupted \<Rightarrow> True | Nothing \<Rightarrow> True | ReadInterrupted \<Rightarrow> True | Got _ \<Rightarrow> True | _ \<Rightarrow> False)"

definition reads :: "Turn list \<Rightarrow> nat" where
  "reads ts = length (filter (\<lambda>t. \<exists>n. t = Got n) ts)"

lemma read_until_complete:
  assumes "list_all harmless_turn ts" "want \<le> length got + reads ts" "length got \<le> want"
  shows "\<exists>ts'. read_until want got pipe ts = Some (Inr (take want (got @ pipe), drop want (got @ pipe), ts'))
    \<and> list_all harmless_turn ts' \<and> reads ts \<le> reads ts' + (want - length got)"
  using assms
proof (induction ts arbitrary: got pipe)
  case Nil
  then show ?case by (simp add: reads_def)
next
  case (Cons t ts)
  show ?case
  proof (cases "want \<le> length got")
    case True
    with Cons.prems show ?thesis by simp
  next
    case False
    show ?thesis
    proof (cases "\<exists>n. t = Got n")
      case True
      then obtain n where t: "t = Got n" ..
      have r: "reads (t # ts) = Suc (reads ts)" using t by (simp add: reads_def)
      show ?thesis
      proof (cases "pipe = []")
        case True
        with False t r Cons.prems show ?thesis by auto
      next
        case pipe: False
        define k where "k = min (max n 1) (want - length got)"
        have k: "0 < k" "length got + k \<le> want" using False by (auto simp: k_def)
        have "0 < length (take k pipe)" "length (take k pipe) \<le> k" using k pipe by simp_all
        then have "want \<le> length (got @ take k pipe) + reads ts" "length (got @ take k pipe) \<le> want"
          using Cons.prems(2) r k unfolding length_append by linarith+
        from Cons.IH [OF _ this, of "drop k pipe"] Cons.prems(1) obtain ts' where
          ts': "read_until want (got @ take k pipe) (drop k pipe) ts
              = Some (Inr (take want (got @ pipe), drop want (got @ pipe), ts'))" "list_all harmless_turn ts'"
            "reads ts \<le> reads ts' + (want - length (got @ take k pipe))" by auto
        then have "reads (t # ts) \<le> reads ts' + (want - length got)"
          using r k \<open>0 < length (take k pipe)\<close> unfolding length_append by linarith
        moreover have "read_until want got pipe (t # ts) = read_until want (got @ take k pipe) (drop k pipe) ts"
          using False t pipe by (simp add: k_def Let_def)
        ultimately show ?thesis using ts'(1,2) by auto
      qed
    next
      case skip: False
      have "reads (t # ts) = reads ts" using skip by (simp add: reads_def)
      with Cons False skip show ?thesis by (cases t) (auto simp: harmless_turn_def)
    qed
  qed
qed

lemma from_code_step: "from_code (step_code st) = Some st"
  by (cases st) (simp_all add: from_code_def)

lemma decode_report_bytes:
  assumes "- (2 ^ 31) \<le> e" "e < 2 ^ 31"
  shows "decode_report (report_bytes st e) = Some (st, e)"
proof -
  define r where "r = (ucast (step_code st) OR push_bit 8 (ucast (word_of_int e :: 32 word)) :: 64 word)"
  have m: "(0xff :: 64 word) = mask 8" "(0xffffffff :: 64 word) = mask 32" by (simp_all add: mask_eq_exp_minus_1)
  have r: "word_of_le_bytes (report_bytes st e) = r"
    unfolding report_bytes_def r_def [symmetric] by (rule from_to_bytes(1)) simp
  have c: "ucast (r AND 0xff) = step_code st"
    unfolding r_def m by (rule bit_eqI) (auto simp: bit_simps)
  have "ucast (drop_bit 8 r AND 0xffffffff) = (word_of_int e :: 32 word)"
    unfolding r_def m by (rule bit_eqI) (auto simp: bit_simps dest: bit_imp_le_length)
  then have "sint (ucast (drop_bit 8 r AND 0xffffffff) :: 32 word) = e"
    using assms by (simp add: sint_sbintrunc' signed_take_bit_int_eq_self)
  then show ?thesis using r c from_code_step by (simp add: decode_report_def Let_def)
qed

lemma length_report [simp]: "length (report_bytes st e) = REPORT_LEN"
  by (simp add: report_bytes_def REPORT_LEN_def)

definition keeps_pipe :: "fd \<Rightarrow> ChildCall \<Rightarrow> bool" where
  "keeps_pipe w c \<longleftrightarrow> c \<noteq> CClose w \<and> (\<forall>f. c \<noteq> CDup2 f w)"

lemma keeps_pipe_calls [simp]:
  "keeps_pipe w (CClose f) \<longleftrightarrow> f \<noteq> w" "keeps_pipe w (CDup2 f t) \<longleftrightarrow> t \<noteq> w" "keeps_pipe w CSetsid" "keeps_pipe w (CSetFd f n)"
  "keeps_pipe w (CGetFl f)" "keeps_pipe w (CSetFl f n)" "keeps_pipe w (COpen p n)" "keeps_pipe w (CHangup f)"
  "keeps_pipe w (CSetCtty f)" "keeps_pipe w (CChdir d)" "keeps_pipe w (CWrite f txt)" "keeps_pipe w (CSigDefault n)"
  "keeps_pipe w CUnmask" "keeps_pipe w CNoNewPrivs" "keeps_pipe w CKeepCaps" "keeps_pipe w CCapget"
  "keeps_pipe w (CCapset caps)" "keeps_pipe w (CBoundDrop k)" "keeps_pipe w (CSetgid k)" "keeps_pipe w (CSetgroups ks)"
  "keeps_pipe w (CSetuid k)" "keeps_pipe w CAmbientClear" "keeps_pipe w (CAmbientRaise k)"
  by (auto simp: keeps_pipe_def)

lemma keeps_pipe_releases: "keeps_pipe w (fst x) \<Longrightarrow> \<not> releases w x"
  by (cases x) (auto simp: keeps_pipe_def releases_def split: ChildCall.splits sum.splits)

text \<open>The write end of the report pipe survives the set-up: it is not one of the fixed descriptors.\<close>

lemma stages_keep_pipe:
  assumes "3 < w" "rd \<noteq> w" "\<And>tr p fl. co_call C tr (COpen p fl) \<noteq> Inr w"
    and run: "in_order (child_stages C s) (first_calls C rd) = (r, tr1)"
  shows "\<not> list_ex (releases w) tr1"
proof -
  have o: "f \<noteq> w" if "co_call C tr (COpen p fl) = Inr f" for tr p fl f using assms(3) that by blast
  have tty: "emits (keeps_pipe w) (setup_tty C path reset)" for path reset
    using assms(1) by (intro emits_setup_tty) (auto dest: o)
  have join: "emits (keeps_pipe w) (join_from_child C f p)" for f p by (intro emits_join) (auto dest: o)
  have "list_all (emits (keeps_pipe w)) (pass_listener C fd)" "list_all (emits (keeps_pipe w)) (redirect_output C fd)" for fd
    using assms(1) by (auto simp: pass_listener_def redirect_output_def LISTEN_FD_def intro!: emits_attempt emits_clear_nonblock)
  with tty join have "list_all (emits (keeps_pipe w)) (early_stages C s)"
    unfolding early_stages_def stages_if_def opt_stages_def
    by (simp add: emits_attempt emits_reporting split: option.splits prod.splits)
  moreover have "emits (keeps_pipe w) (sandbox_op C sb st)" for sb st
    by (cases st) (auto simp: set_bounding_set_def set_ambient_def intro!: emitting)
  then have "list_all (emits (keeps_pipe w)) (sandbox_stages C (cs_sandbox s) (cs_steps s))"
    by (auto simp: sandbox_stages_def list_all_iff intro!: emitting)
  ultimately have "emits (keeps_pipe w) (in_order (child_stages C s))"
    by (auto simp: child_stages_split intro!: emits_in_order)
  from emitsE [OF this run] obtain ext where
    ext: "tr1 = ext @ first_calls C rd" "\<And>x. x \<in> set ext \<Longrightarrow> keeps_pipe w (fst x)" by blast
  have "keeps_pipe w (fst x)" if "x \<in> set (first_calls C rd)" for x
  proof -
    define cs where "cs = map CSigDefault (filter (\<lambda>n. n \<noteq> SIGKILL \<and> n \<noteq> SIGSTOP) [1..64]) @ [CUnmask]"
    have "emits (keeps_pipe w) (\<lambda>tr. ((), ignore_all C cs tr))" "emits (keeps_pipe w) (\<lambda>tr. ((), ignore_all C [CClose rd] tr))"
      using assms(2) by (auto intro!: emits_ignore simp: cs_def list_all_iff simp del: ignore_all.simps)
    then obtain e1 e2 where "ignore_all C cs (ignore_all C [CClose rd] []) = e1 @ ignore_all C [CClose rd] []"
        "\<forall>x \<in> set e1. keeps_pipe w (fst x)" "ignore_all C [CClose rd] [] = e2 @ []" "\<forall>x \<in> set e2. keeps_pipe w (fst x)"
      unfolding emits_def by (metis snd_conv)
    with that show ?thesis by (auto simp: first_calls_def reset_child_signals_def cs_def [symmetric])
  qed
  with ext have "\<not> releases w x" if "x \<in> set tr1" for x using that keeps_pipe_releases by (metis UnE set_append)
  then show ?thesis by (auto simp: list_ex_iff)
qed

lemma write_report_pipe:
  assumes "\<And>tr bs. \<not> isl (co_call C tr (CReport w bs))" "\<not> list_ex (releases w) tr"
  shows "pipe_bytes w (write_report C w bs tr) = pipe_bytes w tr @ bs" "\<not> list_ex (releases w) (write_report C w bs tr)"
  using assms by (auto simp: write_report_def child_call_def Let_def releases_def)

lemma die_pipe:
  assumes "die_reporting C w st e tr = (v, tr')" "\<And>tr bs. \<not> isl (co_call C tr (CReport w bs))"
    and "\<not> list_ex (releases w) tr"
  shows "v = Died st e" "pipe_bytes w tr' = pipe_bytes w tr @ report_bytes st e"
  using assms(1) write_report_pipe [OF assms(2,3)] by (auto simp: die_reporting_def child_call_def Let_def)

lemma read_first:
  assumes "list_all harmless_turn ts" "9 \<le> reads ts"
  obtains ts1 where "read_until 1 [] (b # bs) ts = Some (Inr ([b], bs, ts1))" "list_all harmless_turn ts1" "8 \<le> reads ts1"
proof -
  from read_until_complete [OF assms(1), of 1 "[]" "b # bs"] assms(2) obtain ts1 where
    "read_until 1 [] (b # bs) ts = Some (Inr ([b], bs, ts1))" "list_all harmless_turn ts1" "reads ts \<le> reads ts1 + 1" by auto
  with assms(2) that show thesis by auto
qed

lemma read_rest:
  assumes "list_all harmless_turn ts" "8 \<le> reads ts" "n \<le> 8"
  shows "\<exists>ts'. read_until n [] bs ts = Some (Inr (take n bs, drop n bs, ts'))"
  using read_until_complete [OF assms(1), of n "[]" bs] assms(2,3) by auto

lemma failed_or_died_report: "0 \<le> e \<Longrightarrow> e < 2 ^ 31 \<Longrightarrow> failed_or_died (report_bytes st e) = ReportFailed st e"
  by (simp add: failed_or_died_def decode_report_bytes)

lemma read_verdicts:
  assumes ts: "list_all harmless_turn ts" "9 \<le> reads ts"
  shows "read_report [READY_BYTE] ts = Some (Inr ReportExec)"
    and "0 \<le> e \<Longrightarrow> e < 2 ^ 31 \<Longrightarrow> read_report (report_bytes st e) ts = Some (Inr (ReportFailed st e))"
    and "0 \<le> e \<Longrightarrow> e < 2 ^ 31 \<Longrightarrow> read_report (READY_BYTE # report_bytes st e) ts = Some (Inr (ReportFailed st e))"
proof -
  obtain ts1 where "read_until 1 [] [READY_BYTE] ts = Some (Inr ([READY_BYTE], [], ts1))"
    and ts1: "list_all harmless_turn ts1" "8 \<le> reads ts1" using read_first [OF ts] by blast
  then show "read_report [READY_BYTE] ts = Some (Inr ReportExec)"
    using read_rest [OF ts1, of REPORT_LEN "[]"] by (auto simp: read_report_def REPORT_LEN_def)
next
  assume e: "0 \<le> e" "e < 2 ^ 31"
  let ?r = "report_bytes st e"
  obtain bs where r: "?r = step_code st # bs" and bs: "length bs = 7"
    using first_byte [of st e] length_report [of st e] by (cases ?r) (auto simp: REPORT_LEN_def)
  obtain ts1 where "read_until 1 [] (step_code st # bs) ts = Some (Inr ([step_code st], bs, ts1))"
    and ts1: "list_all harmless_turn ts1" "8 \<le> reads ts1" using read_first [OF ts] by blast
  then show "read_report ?r ts = Some (Inr (ReportFailed st e))"
    using read_rest [OF ts1, of "REPORT_LEN - 1" bs] bs failed_or_died_report [OF e, of st] step_code_not_ready [of st]
    unfolding r by (auto simp: read_report_def REPORT_LEN_def)
  obtain ts2 where "read_until 1 [] (READY_BYTE # ?r) ts = Some (Inr ([READY_BYTE], ?r, ts2))"
    and ts2: "list_all harmless_turn ts2" "8 \<le> reads ts2" using read_first [OF ts] by blast
  then show "read_report (READY_BYTE # ?r) ts = Some (Inr (ReportFailed st e))"
    using read_rest [OF ts2, of REPORT_LEN ?r] failed_or_died_report [OF e, of st] r bs
    by (auto simp: read_report_def REPORT_LEN_def)
qed

text \<open>
  Property C39. The parent learns how the child ended, however its reads of the pipe are cut or
  interrupted: that the service was executed, or which step failed with which error number. This needs
  a write end above descriptor 3, the last one the child replaces, that opening a file does not return
  it, that the writes of the report succeed, and a parent that is not cancelled and does not run into
  its timeout.
\<close>
theorem report_tells_end:
  assumes "child_exec C s rd w = (v, tr)" "3 < w" "rd \<noteq> w" "\<And>tr p fl. co_call C tr (COpen p fl) \<noteq> Inr w"
    and "\<And>tr bs. \<not> isl (co_call C tr (CReport w bs))" "\<And>st e. v = Died st e \<Longrightarrow> 0 \<le> e \<and> e < 2 ^ 31"
    and "list_all harmless_turn ts" "9 \<le> reads ts"
  shows "read_report (pipe_bytes w tr) ts
    = Some (Inr (case v of Executed \<Rightarrow> ReportExec | Died st e \<Rightarrow> ReportFailed st e))"
  using assms(1)
proof (cases rule: child_exec_cases)
  case (failed st e tr1)
  note k = stages_keep_pipe [OF assms(2-4) failed(1)]
  from die_pipe [OF failed(2) assms(5) k] stages_pipe [OF failed(1) suffix_order.refl]
  have d: "v = Died st e" "pipe_bytes w tr = report_bytes st e" by simp_all
  with assms(6) read_verdicts(2) [OF assms(7,8)] show ?thesis by simp
next
  case (executed tr1 x)
  note k = stages_keep_pipe [OF assms(2-4) executed(1)]
  have "pipe_bytes w tr = [READY_BYTE]"
    unfolding executed(3) using write_report_pipe [OF assms(5) k] stages_pipe [OF executed(1) suffix_order.refl] by simp
  with executed(2) read_verdicts(1) [OF assms(7,8)] show ?thesis by simp
next
  case (refused tr1 e)
  note k = stages_keep_pipe [OF assms(2-4) refused(1)]
  note wr = write_report_pipe [OF assms(5) k, of "[READY_BYTE]"]
  have "\<not> list_ex (releases w) ((CExecve (cs_path s) (cs_argv s) (child_env (cs_listen_fd s) (cs_envp s) (co_pid C)), Inl e)
      # write_report C w [READY_BYTE] tr1)" using wr(2) by (simp add: releases_def)
  from die_pipe [OF refused(2) assms(5) this] wr(1) stages_pipe [OF refused(1) suffix_order.refl]
  have d: "v = Died AtExec e" "pipe_bytes w tr = READY_BYTE # report_bytes AtExec e" by simp_all
  with assms(6) read_verdicts(3) [OF assms(7,8)] show ?thesis by simp
qed

section \<open>Concrete runs\<close>

definition sample_os :: ChildOs where
  "sample_os = \<lparr>co_call = (\<lambda>tr c. case c of CBoundDrop n \<Rightarrow> if 41 \<le> n then Inl EINVAL else Inr 0
       | CWrite f t \<Rightarrow> Inr (int (length t)) | COpen p fl \<Rightarrow> Inr 12 | CChdir d \<Rightarrow> if d = ''/gone'' then Inl 2 else Inr 0 | _ \<Rightarrow> Inr 0),
     co_caps = (\<lambda>tr. (\<lparr>cap_effective = 0, cap_permitted = 0, cap_inheritable = 0\<rparr>,
       \<lparr>cap_effective = 0, cap_permitted = 0, cap_inheritable = 0\<rparr>)), co_pid = 77\<rparr>"

definition sample_sandbox :: Sandbox where
  "sample_sandbox = \<lparr>sb_uid = 1000, sb_gid = 100, sb_groups = Some [100, 20], sb_no_new_privileges = True,
     sb_bounding_set = None, sb_ambient = Some [10]\<rparr>"

definition sample_request :: SpawnRequest where
  "sample_request = \<lparr>sp_argv = [''/bin/d''], sp_env = [''A=b''], sp_cwd = Some ''/srv'', sp_output = Some 6,
     sp_listen_fd = Some 7, sp_sandbox = Some sample_sandbox, sp_procs = Some ''/cg/cgroup.procs'', sp_tty = None\<rparr>"

definition sample_creds :: Creds where
  "sample_creds = \<lparr>cr_uid = 0, cr_gid = 0, cr_groups = [0], cr_nnp = False, cr_bound = {..<41}, cr_ambient = {}\<rparr>"

lemma sample_knows: "knows_caps sample_os 41"
  by (auto simp: knows_caps_def sample_os_def split: if_splits)

theorem started_means_confined_witness:
  "confined sample_sandbox sample_creds
     (creds_of sample_creds (snd (child_exec sample_os (child_setup sample_request sample_sandbox) 8 9)))"
proof -
  let ?r = "child_exec sample_os (child_setup sample_request sample_sandbox) 8 9"
  have "read_report (pipe_bytes 9 (snd ?r)) [Got 1, Nothing, Got 1] = Some (Inr ReportExec)" by code_simp
  then show ?thesis
    using started_means_confined [of sample_os sample_request sample_sandbox 8 9 "fst ?r" "snd ?r" "snd ?r"] sample_knows
    by (simp add: sample_creds_def)
qed

theorem report_tells_end_witness:
  "read_report (pipe_bytes 9 (snd (child_exec sample_os (child_setup sample_request sample_sandbox) 8 9))) (replicate 9 (Got 3))
     = Some (Inr ReportExec)"
proof -
  let ?r = "child_exec sample_os (child_setup sample_request sample_sandbox) 8 9"
  have "fst ?r = Executed" by code_simp
  then have "?r = (Executed, snd ?r)" by (simp add: prod_eq_iff)
  moreover have "list_all harmless_turn (replicate 9 (Got 3))" "reads (replicate 9 (Got 3)) = 9"
    by (simp_all add: list_all_iff harmless_turn_def reads_def numeral_eq_Suc)
  moreover have "co_call sample_os tr (COpen p fl) \<noteq> Inr 9" "\<not> isl (co_call sample_os tr (CReport 9 bs))" for tr p fl bs
    by (simp_all add: sample_os_def)
  ultimately show ?thesis
    using report_tells_end [of sample_os "child_setup sample_request sample_sandbox" 8 9 Executed "snd ?r" "replicate 9 (Got 3)"]
    by simp
qed

text \<open>
  With descriptor 3 as the write end of the pipe the socket handed to the service takes its place: the
  child is executed and the parent reads that it died.
\<close>

lemma report_pipe_on_three_is_lost:
  "fst (child_exec sample_os (child_setup sample_request sample_sandbox) 8 3) = Executed
   \<and> read_report (pipe_bytes 3 (snd (child_exec sample_os (child_setup sample_request sample_sandbox) 8 3))) [Got 1]
       = Some (Inr DiedBeforeExec)"
  by code_simp

section \<open>The environment of a socket-activated service\<close>

lemma digits_back_show: "v < 10 ^ Suc n \<Longrightarrow> List.rev (digits_back (Suc n) v) = show_nat v"
proof (induction n arbitrary: v)
  case 0
  then show ?case by (subst show_nat.simps) simp
next
  case (Suc n)
  then have "v div 10 < 10 ^ Suc n" by (simp add: less_mult_imp_div_less mult.commute)
  with Suc show ?case by (subst show_nat.simps) (auto simp del: digits_back.simps(2) simp: digits_back.simps(2) [of "Suc n"])
qed

lemma decimal_show: "0 \<le> p \<Longrightarrow> p < 2 ^ 31 \<Longrightarrow> decimal p = show_nat (nat p)"
  unfolding decimal_def PID_TEXT_MAX_def by (subst digits_back_show [of _ 10, simplified, symmetric]) auto

lemma listen_pid_is_own:
  assumes "0 \<le> p" "p < 2 ^ 31" "listen \<noteq> None"
  shows "filter (\<lambda>v. take 11 v = ''LISTEN_PID='') (child_env listen env p) = [''LISTEN_PID='' @ show_nat (nat p)]"
proof -
  have "write_listen_pid p = ''LISTEN_PID='' @ show_nat (nat p)"
    unfolding write_listen_pid_def using assms digits_back_show [of "nat p" 19] by simp
  with assms(3) show ?thesis by (simp add: child_env_def filter_filter filter_empty_conv)
qed

section \<open>The fast path releases what it initialises\<close>

text \<open>The initialised structures of a trace: an initialisation that succeeded adds one, a tear-down removes one.\<close>

fun live_structs :: "libc_trace \<Rightarrow> int \<times> int" where
  "live_structs [] = (0, 0)"
| "live_structs ((c, rc) # tr) = (let (a, f) = live_structs tr in
     case c of AttrInit \<Rightarrow> (if rc = 0 then a + 1 else a, f) | AttrDestroy \<Rightarrow> (a - 1, f)
     | ActionsInit \<Rightarrow> (a, if rc = 0 then f + 1 else f) | ActionsDestroy \<Rightarrow> (a, f - 1) | _ \<Rightarrow> (a, f))"

definition inert :: "LibcCall \<Rightarrow> bool" where
  "inert c \<longleftrightarrow> c \<notin> {AttrInit, AttrDestroy, ActionsInit, ActionsDestroy}"

lemma live_inert: "inert c \<Longrightarrow> live_structs ((c, rc) # tr) = live_structs tr"
  by (cases "live_structs tr") (auto simp: inert_def split: LibcCall.split)

lemma checked_live:
  assumes "checked L td cs tr = (r, tr')" "list_all (\<lambda>x. inert (snd x)) cs"
  shows "(r = None \<longrightarrow> live_structs tr' = live_structs tr)
    \<and> (r \<noteq> None \<longrightarrow> (\<exists>tr1. live_structs tr1 = live_structs tr \<and> tr' = libc_all L td tr1))"
  using assms
proof (induction cs arbitrary: tr)
  case (Cons x cs)
  obtain op c where x: "x = (op, c)" by fastforce
  have i: "live_structs ((c, lc_call L tr c) # tr) = live_structs tr" using Cons.prems(2) x
    by (simp add: live_inert del: live_structs.simps)
  show ?case
  proof (cases "lc_call L tr c = 0")
    case True
    with Cons.prems x have "checked L td cs ((c, 0) # tr) = (r, tr')" by (simp add: Let_def)
    with Cons.IH [OF this] Cons.prems(2) i True show ?thesis by simp
  next
    case False
    with Cons.prems x i show ?thesis by (auto simp: Let_def intro!: exI [of _ "(c, lc_call L tr c) # tr"])
  qed
qed simp

lemma spawn_attrs_live:
  assumes "spawn_attrs L ns tr = (r, tr')" "live_structs tr = (0, 0)"
  shows "live_structs tr' = (if r = None then (1, 0) else (0, 0))"
proof (cases "lc_call L tr AttrInit = 0")
  case True
  let ?cs = "[(''posix_spawnattr_setsigdefault'', SetSigDefault), (''posix_spawnattr_setsigmask'', SetSigMask),
    (''posix_spawnattr_setflags'', SetFlags ns)]"
  have "checked L [AttrDestroy] ?cs ((AttrInit, 0) # tr) = (r, tr')"
    using assms(1) True unfolding spawn_attrs_def by (simp add: Let_def)
  from checked_live [OF this] assms(2) show ?thesis by (cases r) (auto simp: inert_def)
qed (use assms in \<open>auto simp: spawn_attrs_def Let_def\<close>)

lemma spawn_actions_live:
  assumes "spawn_actions L cwd stdio tr = (r, tr')" "live_structs tr = (1, 0)"
  shows "live_structs tr' = (if r \<noteq> None then (0, 0) else if cwd = None \<and> stdio = None then (1, 0) else (1, 1))"
proof (cases "cwd = None \<and> stdio = None")
  case False
  define cs where "cs = (case cwd of None \<Rightarrow> [] | Some d \<Rightarrow> [(''posix_spawn_file_actions_addchdir_np'', AddChdir d)])
      @ (case stdio of None \<Rightarrow> [] | Some f \<Rightarrow> map (\<lambda>t. (''posix_spawn_file_actions_adddup2'', AddDup2 f t)) [1, 2])"
  have i: "list_all (\<lambda>x. inert (snd x)) cs" by (simp add: cs_def inert_def split: option.split)
  show ?thesis
  proof (cases "lc_call L tr ActionsInit = 0")
    case True
    then have "checked L [ActionsDestroy, AttrDestroy] cs ((ActionsInit, 0) # tr) = (r, tr')"
      using assms(1) False unfolding spawn_actions_def cs_def by (auto simp: Let_def)
    from checked_live [OF this i] assms(2) False show ?thesis by (cases r) auto
  qed (use assms False in \<open>auto simp: spawn_actions_def Let_def\<close>)
qed (use assms in \<open>auto simp: spawn_actions_def\<close>)

lemma posix_spawn_releases:
  assumes "posix_spawn_full L path args envp ns listen stdio cwd [] = (r, tr)"
  shows "live_structs tr = (0, 0)"
proof (cases "listen = None")
  case True
  obtain r1 tr1 where 1: "spawn_attrs L ns [] = (r1, tr1)" by fastforce
  obtain r2 tr2 where 2: "spawn_actions L cwd stdio tr1 = (r2, tr2)" by fastforce
  note l1 = spawn_attrs_live [OF 1, simplified]
  show ?thesis
  proof (cases "r1 = None")
    case True
    with l1 spawn_actions_live [OF 2] have
      l2: "live_structs tr2 = (if r2 \<noteq> None then (0, 0) else if cwd = None \<and> stdio = None then (1, 0) else (1, 1))" by simp
    show ?thesis using assms 1 2 l2 True \<open>listen = None\<close>
      by (cases r2) (auto simp: posix_spawn_full_def Let_def split: if_splits)
  qed (use assms 1 l1 \<open>listen = None\<close> in \<open>auto simp: posix_spawn_full_def\<close>)
qed (use assms in \<open>auto simp: posix_spawn_full_def\<close>)

end
