(* ===== verification/Crypt_Hash.thy ===== *)
theory Crypt_Hash
  imports Rust_Str Word_Bytes
begin

unbundle bit_operations_syntax

text \<open>
  The hash functions of \<open>rlogin\<close> (\<open>rinit-tools/src/bin/rlogin/crypt.rs\<close>): SHA-512, SHA-256 and MD5 with
  their streaming interface. The three \<open>update\<close> methods are the same text up to the block size and the
  compression function, which are arguments here. The tables are written in pairs.
\<close>

section \<open>Streaming\<close>

record 's HashContext =
  hc_state :: 's
  hc_buffer :: "octet list"
  hc_length :: nat

definition hash_new :: "'s \<Rightarrow> 's HashContext" where
  "hash_new s = \<lparr>hc_state = s, hc_buffer = [], hc_length = 0\<rparr>"

text \<open>\<open>while data.len() >= B\<close>: whole blocks are compressed, what is left is returned.\<close>

function compress_blocks :: "('s \<Rightarrow> octet list \<Rightarrow> 's) \<Rightarrow> nat \<Rightarrow> 's \<Rightarrow> octet list \<Rightarrow> 's \<times> octet list" where
  "compress_blocks f B s data =
     (if 0 < B \<and> B \<le> length data then compress_blocks f B (f s (take B data)) (drop B data) else (s, data))"
  by pat_completeness auto
termination by (relation "measure (\<lambda>(f, B, s, data). length data)") auto

declare compress_blocks.simps [simp del]

definition fill_buffer :: "('s \<Rightarrow> octet list \<Rightarrow> 's) \<Rightarrow> nat \<Rightarrow> octet list \<Rightarrow> 's HashContext \<Rightarrow> 's HashContext \<times> octet list" where
  "fill_buffer f B data h =
     (if hc_buffer h = [] then (h, data)
      else
        let n = min (length data) (B - length (hc_buffer h));
            buf = hc_buffer h @ take n data
        in (if length buf = B then h\<lparr>hc_state := f (hc_state h) buf, hc_buffer := []\<rparr> else h\<lparr>hc_buffer := buf\<rparr>,
            drop n data))"

definition hash_update :: "('s \<Rightarrow> octet list \<Rightarrow> 's) \<Rightarrow> nat \<Rightarrow> octet list \<Rightarrow> 's HashContext \<Rightarrow> 's HashContext" where
  "hash_update f B data h =
     (let (h1, data1) = fill_buffer f B data (h\<lparr>hc_length := hc_length h + length data\<rparr>);
          (s, rest) = compress_blocks f B (hc_state h1) data1;
          h2 = h1\<lparr>hc_state := s\<rparr>
      in if rest \<noteq> [] then h2\<lparr>hc_buffer := rest\<rparr> else h2)"

text \<open>The padding of \<open>finalize\<close>: \<open>n\<close> bytes are buffered and \<open>L\<close> bytes of length follow.\<close>

definition padding :: "nat \<Rightarrow> nat \<Rightarrow> nat \<Rightarrow> octet list \<Rightarrow> octet list" where
  "padding B L n len =
     (let remainder = (n + 1) mod B;
          zeros = (if remainder \<le> B - L then B - L - remainder else (2 * B - L) - remainder)
      in 0x80 # replicate zeros 0 @ len)"

section \<open>SHA-512\<close>

definition rotate_right :: "nat \<Rightarrow> 'a::len word \<Rightarrow> 'a word" where
  "rotate_right n w = drop_bit n w OR push_bit (LENGTH('a) - n) w"

definition SHA512_K :: "64 word list" where
  "SHA512_K = concat [
     [0x428a2f98d728ae22, 0x7137449123ef65cd], [0xb5c0fbcfec4d3b2f, 0xe9b5dba58189dbbc],
     [0x3956c25bf348b538, 0x59f111f1b605d019], [0x923f82a4af194f9b, 0xab1c5ed5da6d8118],
     [0xd807aa98a3030242, 0x12835b0145706fbe], [0x243185be4ee4b28c, 0x550c7dc3d5ffb4e2],
     [0x72be5d74f27b896f, 0x80deb1fe3b1696b1], [0x9bdc06a725c71235, 0xc19bf174cf692694],
     [0xe49b69c19ef14ad2, 0xefbe4786384f25e3], [0x0fc19dc68b8cd5b5, 0x240ca1cc77ac9c65],
     [0x2de92c6f592b0275, 0x4a7484aa6ea6e483], [0x5cb0a9dcbd41fbd4, 0x76f988da831153b5],
     [0x983e5152ee66dfab, 0xa831c66d2db43210], [0xb00327c898fb213f, 0xbf597fc7beef0ee4],
     [0xc6e00bf33da88fc2, 0xd5a79147930aa725], [0x06ca6351e003826f, 0x142929670a0e6e70],
     [0x27b70a8546d22ffc, 0x2e1b21385c26c926], [0x4d2c6dfc5ac42aed, 0x53380d139d95b3df],
     [0x650a73548baf63de, 0x766a0abb3c77b2a8], [0x81c2c92e47edaee6, 0x92722c851482353b],
     [0xa2bfe8a14cf10364, 0xa81a664bbc423001], [0xc24b8b70d0f89791, 0xc76c51a30654be30],
     [0xd192e819d6ef5218, 0xd69906245565a910], [0xf40e35855771202a, 0x106aa07032bbd1b8],
     [0x19a4c116b8d2d0c8, 0x1e376c085141ab53], [0x2748774cdf8eeb99, 0x34b0bcb5e19b48a8],
     [0x391c0cb3c5c95a63, 0x4ed8aa4ae3418acb], [0x5b9cca4f7763e373, 0x682e6ff3d6b2b8a3],
     [0x748f82ee5defb2fc, 0x78a5636f43172f60], [0x84c87814a1f0ab72, 0x8cc702081a6439ec],
     [0x90befffa23631e28, 0xa4506cebde82bde9], [0xbef9a3f7b2c67915, 0xc67178f2e372532b],
     [0xca273eceea26619c, 0xd186b8c721c0c207], [0xeada7dd6cde0eb1e, 0xf57d4f7fee6ed178],
     [0x06f067aa72176fba, 0x0a637dc5a2c898a6], [0x113f9804bef90dae, 0x1b710b35131c471b],
     [0x28db77f523047d84, 0x32caab7b40c72493], [0x3c9ebe0a15c9bebc, 0x431d67c49c100d4c],
     [0x4cc5d4becb3e42b6, 0x597f299cfc657e2a], [0x5fcb6fab3ad6faec, 0x6c44198c4a475817]]"

definition SHA512_H0 :: "64 word list" where
  "SHA512_H0 = concat [
     [0x6a09e667f3bcc908, 0xbb67ae8584caa73b], [0x3c6ef372fe94f82b, 0xa54ff53a5f1d36f1],
     [0x510e527fade682d1, 0x9b05688c2b3e6c1f], [0x1f83d9abfb41bd6b, 0x5be0cd19137e2179]]"

text \<open>The block as big-endian words, then the rest of the schedule.\<close>

fun be_words :: "nat \<Rightarrow> nat \<Rightarrow> octet list \<Rightarrow> 'a::len word list" where
  "be_words n 0 bs = []"
| "be_words n (Suc k) bs = word_of_be_bytes (take n bs) # be_words n k (drop n bs)"

definition schedule512_step :: "64 word list \<Rightarrow> nat \<Rightarrow> 64 word list" where
  "schedule512_step w i =
     (let x = w ! (i - 15); y = w ! (i - 2);
          s0 = rotate_right 1 x XOR rotate_right 8 x XOR drop_bit 7 x;
          s1 = rotate_right 19 y XOR rotate_right 61 y XOR drop_bit 6 y
      in w @ [w ! (i - 16) + s0 + w ! (i - 7) + s1])"

definition schedule512 :: "octet list \<Rightarrow> 64 word list" where
  "schedule512 block = foldl schedule512_step (be_words 8 16 block) [16..<80]"

text \<open>One round on the eight working variables; both widths share its shape.\<close>

definition choice :: "'a::len word \<Rightarrow> 'a word \<Rightarrow> 'a word \<Rightarrow> 'a word" where
  "choice e f g = (e AND f) XOR (NOT e AND g)"

definition majority :: "'a::len word \<Rightarrow> 'a word \<Rightarrow> 'a word \<Rightarrow> 'a word" where
  "majority a b c = (a AND b) XOR (a AND c) XOR (b AND c)"

fun sha_round :: "nat list \<Rightarrow> nat list \<Rightarrow> 'a::len word list \<Rightarrow> 'a word \<times> 'a word \<Rightarrow> 'a word list" where
  "sha_round [p, q, r] [u, v, t] [a, b, c, d, e, f, g, h] (k, w) =
     (let sigma1 = rotate_right p e XOR rotate_right q e XOR rotate_right r e;
          temp1 = h + sigma1 + choice e f g + k + w;
          sigma0 = rotate_right u a XOR rotate_right v a XOR rotate_right t a;
          temp2 = sigma0 + majority a b c
      in [temp1 + temp2, a, b, c, d + temp1, e, f, g])"
| "sha_round _ _ st _ = st"

definition compress512 :: "64 word list \<Rightarrow> octet list \<Rightarrow> 64 word list" where
  "compress512 st block =
     map2 (+) st (foldl (sha_round [14, 18, 41] [28, 34, 39]) st (zip SHA512_K (schedule512 block)))"

definition sha512_new :: "64 word list HashContext" where
  "sha512_new = hash_new SHA512_H0"

definition sha512_update :: "octet list \<Rightarrow> 64 word list HashContext \<Rightarrow> 64 word list HashContext" where
  "sha512_update = hash_update compress512 128"

definition sha512_finalize :: "64 word list HashContext \<Rightarrow> octet list" where
  "sha512_finalize h =
     (let bits = word_of_nat (hc_length h * 8) :: 128 word;
          h1 = sha512_update (padding 128 16 (length (hc_buffer h)) (word_be_bytes 16 bits)) h
      in concat (map (word_be_bytes 8) (hc_state h1)))"

section \<open>SHA-256\<close>

definition SHA256_K :: "32 word list" where
  "SHA256_K = concat [
     [0x428a2f98, 0x71374491], [0xb5c0fbcf, 0xe9b5dba5], [0x3956c25b, 0x59f111f1], [0x923f82a4, 0xab1c5ed5],
     [0xd807aa98, 0x12835b01], [0x243185be, 0x550c7dc3], [0x72be5d74, 0x80deb1fe], [0x9bdc06a7, 0xc19bf174],
     [0xe49b69c1, 0xefbe4786], [0x0fc19dc6, 0x240ca1cc], [0x2de92c6f, 0x4a7484aa], [0x5cb0a9dc, 0x76f988da],
     [0x983e5152, 0xa831c66d], [0xb00327c8, 0xbf597fc7], [0xc6e00bf3, 0xd5a79147], [0x06ca6351, 0x14292967],
     [0x27b70a85, 0x2e1b2138], [0x4d2c6dfc, 0x53380d13], [0x650a7354, 0x766a0abb], [0x81c2c92e, 0x92722c85],
     [0xa2bfe8a1, 0xa81a664b], [0xc24b8b70, 0xc76c51a3], [0xd192e819, 0xd6990624], [0xf40e3585, 0x106aa070],
     [0x19a4c116, 0x1e376c08], [0x2748774c, 0x34b0bcb5], [0x391c0cb3, 0x4ed8aa4a], [0x5b9cca4f, 0x682e6ff3],
     [0x748f82ee, 0x78a5636f], [0x84c87814, 0x8cc70208], [0x90befffa, 0xa4506ceb], [0xbef9a3f7, 0xc67178f2]]"

definition SHA256_H :: "32 word list" where
  "SHA256_H = concat [
     [0x6a09e667, 0xbb67ae85], [0x3c6ef372, 0xa54ff53a], [0x510e527f, 0x9b05688c], [0x1f83d9ab, 0x5be0cd19]]"

definition schedule256_step :: "32 word list \<Rightarrow> nat \<Rightarrow> 32 word list" where
  "schedule256_step w i =
     (let x = w ! (i - 15); y = w ! (i - 2);
          s0 = rotate_right 7 x XOR rotate_right 18 x XOR drop_bit 3 x;
          s1 = rotate_right 17 y XOR rotate_right 19 y XOR drop_bit 10 y
      in w @ [w ! (i - 16) + s0 + w ! (i - 7) + s1])"

definition schedule256 :: "octet list \<Rightarrow> 32 word list" where
  "schedule256 block = foldl schedule256_step (be_words 4 16 block) [16..<64]"

definition compress256 :: "32 word list \<Rightarrow> octet list \<Rightarrow> 32 word list" where
  "compress256 st block =
     map2 (+) st (foldl (sha_round [6, 11, 25] [2, 13, 22]) st (zip SHA256_K (schedule256 block)))"

definition sha256_new :: "32 word list HashContext" where
  "sha256_new = hash_new SHA256_H"

definition sha256_update :: "octet list \<Rightarrow> 32 word list HashContext \<Rightarrow> 32 word list HashContext" where
  "sha256_update = hash_update compress256 64"

text \<open>The bit length is cut to 64 bits.\<close>

definition sha256_finalize :: "32 word list HashContext \<Rightarrow> octet list" where
  "sha256_finalize h =
     (let bits = word_of_nat (hc_length h * 8) :: 64 word;
          h1 = sha256_update (padding 64 8 (length (hc_buffer h)) (word_be_bytes 8 bits)) h
      in concat (map (word_be_bytes 4) (hc_state h1)))"

section \<open>MD5\<close>

definition MD5_K :: "32 word list" where
  "MD5_K = concat [
     [0xd76aa478, 0xe8c7b756], [0x242070db, 0xc1bdceee], [0xf57c0faf, 0x4787c62a], [0xa8304613, 0xfd469501],
     [0x698098d8, 0x8b44f7af], [0xffff5bb1, 0x895cd7be], [0x6b901122, 0xfd987193], [0xa679438e, 0x49b40821],
     [0xf61e2562, 0xc040b340], [0x265e5a51, 0xe9b6c7aa], [0xd62f105d, 0x02441453], [0xd8a1e681, 0xe7d3fbc8],
     [0x21e1cde6, 0xc33707d6], [0xf4d50d87, 0x455a14ed], [0xa9e3e905, 0xfcefa3f8], [0x676f02d9, 0x8d2a4c8a],
     [0xfffa3942, 0x8771f681], [0x6d9d6122, 0xfde5380c], [0xa4beea44, 0x4bdecfa9], [0xf6bb4b60, 0xbebfbc70],
     [0x289b7ec6, 0xeaa127fa], [0xd4ef3085, 0x04881d05], [0xd9d4d039, 0xe6db99e5], [0x1fa27cf8, 0xc4ac5665],
     [0xf4292244, 0x432aff97], [0xab9423a7, 0xfc93a039], [0x655b59c3, 0x8f0ccc92], [0xffeff47d, 0x85845dd1],
     [0x6fa87e4f, 0xfe2ce6e0], [0xa3014314, 0x4e0811a1], [0xf7537e82, 0xbd3af235], [0x2ad7d2bb, 0xeb86d391]]"

definition MD5_S :: "nat list" where
  "MD5_S = concat (map (concat \<circ> replicate 4) [[7, 12, 17, 22], [5, 9, 14, 20], [4, 11, 16, 23], [6, 10, 15, 21]])"

fun le_words :: "nat \<Rightarrow> nat \<Rightarrow> octet list \<Rightarrow> 'a::len word list" where
  "le_words n 0 bs = []"
| "le_words n (Suc k) bs = word_of_le_bytes (take n bs) # le_words n k (drop n bs)"

definition rotate_left :: "nat \<Rightarrow> 'a::len word \<Rightarrow> 'a word" where
  "rotate_left n w = push_bit n w OR drop_bit (LENGTH('a) - n) w"

definition md5_mix :: "nat \<Rightarrow> 32 word \<Rightarrow> 32 word \<Rightarrow> 32 word \<Rightarrow> 32 word \<times> nat" where
  "md5_mix i b c d =
     (if i \<le> 15 then ((b AND c) OR (NOT b AND d), i)
      else if i \<le> 31 then ((d AND b) OR (NOT d AND c), (5 * i + 1) mod 16)
      else if i \<le> 47 then (b XOR c XOR d, (3 * i + 5) mod 16)
      else (c XOR (b OR NOT d), (7 * i) mod 16))"

fun md5_round :: "32 word list \<Rightarrow> 32 word list \<Rightarrow> nat \<Rightarrow> 32 word list" where
  "md5_round ws [a, b, c, d] i =
     (let (x, j) = md5_mix i b c d;
          next = b + rotate_left (MD5_S ! i) (a + x + MD5_K ! i + ws ! j)
      in [d, next, b, c])"
| "md5_round ws st i = st"

definition compress_md5 :: "32 word list \<Rightarrow> octet list \<Rightarrow> 32 word list" where
  "compress_md5 st block = map2 (+) st (foldl (md5_round (le_words 4 16 block)) st [0..<64])"

definition md5_new :: "32 word list HashContext" where
  "md5_new = hash_new (concat [[0x67452301, 0xefcdab89], [0x98badcfe, 0x10325476]])"

definition md5_update :: "octet list \<Rightarrow> 32 word list HashContext \<Rightarrow> 32 word list HashContext" where
  "md5_update = hash_update compress_md5 64"

definition md5_finalize :: "32 word list HashContext \<Rightarrow> octet list" where
  "md5_finalize h =
     (let bits = word_of_nat (hc_length h * 8) :: 64 word;
          h1 = md5_update (padding 64 8 (length (hc_buffer h)) (word_le_bytes 8 bits)) h
      in concat (map (word_le_bytes 4) (hc_state h1)))"

end
