(* ===== verification/Crypt_Stream.thy ===== *)
theory Crypt_Stream
  imports Crypt_Hash
begin

text \<open>
  Feeding a hash in pieces is hashing the whole. The locale \<open>streaming_hash\<close> is what the crypt
  constructions rely on: the digest after any sequence of updates is that of the concatenation. The
  three hash functions interpret it, with the padded message of the standards as their digest.
\<close>

section \<open>Blocks\<close>

lemma compress_blocks_short [simp]: "length data < B \<Longrightarrow> compress_blocks f B s data = (s, data)"
  by (subst compress_blocks.simps) simp

lemma compress_blocks_step:
  "0 < B \<Longrightarrow> B \<le> length data \<Longrightarrow> compress_blocks f B s data = compress_blocks f B (f s (take B data)) (drop B data)"
  by (subst compress_blocks.simps) simp

lemma compress_blocks_rest: "0 < B \<Longrightarrow> length (snd (compress_blocks f B s data)) = length data mod B"
proof (induction f B s data rule: compress_blocks.induct)
  case (1 f B s data)
  show ?case
  proof (cases "B \<le> length data")
    case True
    with 1 show ?thesis by (simp add: compress_blocks_step le_mod_geq)
  qed simp
qed

lemma compress_blocks_append:
  "0 < B \<Longrightarrow> compress_blocks f B s (xs @ ys) = (case compress_blocks f B s xs of (t, r) \<Rightarrow> compress_blocks f B t (r @ ys))"
proof (induction f B s xs rule: compress_blocks.induct)
  case (1 f B s xs)
  show ?case
  proof (cases "B \<le> length xs")
    case True
    with 1 show ?thesis by (simp add: compress_blocks_step)
  qed simp
qed

section \<open>Updates\<close>

definition absorbed :: "('s \<Rightarrow> octet list \<Rightarrow> 's) \<Rightarrow> nat \<Rightarrow> 's \<Rightarrow> octet list \<Rightarrow> 's HashContext \<Rightarrow> bool" where
  "absorbed f B s xs h \<longleftrightarrow> hc_length h = length xs \<and> compress_blocks f B s xs = (hc_state h, hc_buffer h)"

lemma absorbed_new: "0 < B \<Longrightarrow> absorbed f B s [] (hash_new s)"
  by (simp add: absorbed_def hash_new_def)

lemma absorbed_buffer: "0 < B \<Longrightarrow> absorbed f B s xs h \<Longrightarrow> length (hc_buffer h) = length xs mod B"
  using compress_blocks_rest [of B f s xs] by (simp add: absorbed_def)

lemma absorbed_update:
  assumes B: "0 < B" and h: "absorbed f B s xs h"
  shows "absorbed f B s (xs @ data) (hash_update f B data h)"
proof -
  let ?b = "hc_buffer h" and ?t = "hc_state h"
  have short: "length ?b < B" using absorbed_buffer [OF assms] B by simp
  have all: "compress_blocks f B s (xs @ data) = compress_blocks f B ?t (?b @ data)"
    unfolding compress_blocks_append [OF B, of f s xs data] using h by (simp add: absorbed_def)
  have len: "hc_length h + length data = length (xs @ data)" using h by (simp add: absorbed_def)
  consider "?b = []" | "?b \<noteq> []" "length ?b + length data < B" | "?b \<noteq> []" "B \<le> length ?b + length data" by linarith
  then show ?thesis
  proof cases
    case 1
    obtain t r where "compress_blocks f B ?t data = (t, r)" by fastforce
    with 1 all len show ?thesis by (auto simp: absorbed_def hash_update_def fill_buffer_def Let_def)
  next
    case 2
    then have "min (length data) (B - length ?b) = length data" by simp
    with 2 all len B show ?thesis by (auto simp: absorbed_def hash_update_def fill_buffer_def Let_def)
  next
    case 3
    let ?n = "B - length ?b"
    have n: "min (length data) ?n = ?n" "length (?b @ take ?n data) = B" using 3 short by simp_all
    have "compress_blocks f B ?t (?b @ data) = compress_blocks f B (f ?t (?b @ take ?n data)) (drop ?n data)"
      using B 3 short by (simp add: compress_blocks_step)
    moreover obtain t r where "compress_blocks f B (f ?t (?b @ take ?n data)) (drop ?n data) = (t, r)" by fastforce
    ultimately show ?thesis using 3(1) n all len
      by (auto simp: absorbed_def hash_update_def fill_buffer_def Let_def)
  qed
qed

lemma absorbed_fold: "0 < B \<Longrightarrow> absorbed f B s xs h \<Longrightarrow> absorbed f B s (xs @ concat parts) (fold (hash_update f B) parts h)"
proof (induction parts arbitrary: xs h)
  case (Cons p parts)
  from Cons.IH [OF Cons.prems(1) absorbed_update [OF Cons.prems, of p]] show ?case by simp
qed simp

section \<open>Padding\<close>

text \<open>A one bit, then zeros up to the end of a block, where the length is.\<close>

definition padded :: "nat \<Rightarrow> nat \<Rightarrow> octet list \<Rightarrow> octet list \<Rightarrow> octet list" where
  "padded B L len msg = msg @ 0x80 # replicate ((B - (length msg + 1 + L) mod B) mod B) 0 @ len"

lemma padding_zeros:
  fixes r :: nat
  assumes "r < B" "0 < L" "L < B"
  shows "(if r \<le> B - L then B - L - r else (2 * B - L) - r) = (B - (r + L) mod B) mod B"
proof -
  consider "r + L < B" | "r + L = B" | "B < r + L" by linarith
  then show ?thesis
  proof cases
    case 3
    then have "(r + L) mod B = r + L - B" using assms by (simp add: le_mod_geq)
    with 3 assms show ?thesis by auto
  qed (use assms in auto)
qed

lemma padding_is_padded:
  assumes "0 < L" "L < B"
  shows "msg @ padding B L (length msg mod B) len = padded B L len msg"
proof -
  have r: "(length msg mod B + 1) mod B < B" using assms by simp
  have "((length msg mod B + 1) mod B + L) mod B = (length msg + 1 + L) mod B"
    by (metis mod_add_left_eq)
  then show ?thesis unfolding padding_def padded_def Let_def padding_zeros [OF r assms] by simp
qed

lemma padded_whole_blocks: "0 < L \<Longrightarrow> L < B \<Longrightarrow> length len = L \<Longrightarrow> B dvd length (padded B L len msg)"
proof -
  assume a: "0 < L" "L < B" "length len = L"
  define n where "n = length msg + 1 + L"
  have "(n + (B - n mod B) mod B) mod B = (n mod B + (B - n mod B)) mod B" by (simp only: mod_add_left_eq mod_add_right_eq)
  also have "\<dots> = 0" using a mod_less_divisor [of B n] by simp
  finally have "(n + (B - n mod B) mod B) mod B = 0" .
  moreover have "length (padded B L len msg) = n + (B - n mod B) mod B" using a by (simp add: padded_def n_def)
  ultimately show ?thesis by (simp only: mod_0_imp_dvd)
qed

section \<open>The interface\<close>

locale streaming_hash =
  fixes new :: 'c and update :: "octet list \<Rightarrow> 'c \<Rightarrow> 'c" and finalize :: "'c \<Rightarrow> octet list"
    and digest :: "octet list \<Rightarrow> octet list" and size :: nat
  assumes streams: "finalize (fold update parts new) = digest (concat parts)"
    and digest_length: "length (digest msg) = size"
    and size_pos: "0 < size"
begin

lemma one_update: "finalize (update a new) = digest a"
  using streams [of "[a]"] by simp

lemma three_updates: "finalize (update c (update b (update a new))) = digest (a @ b @ c)"
  using streams [of "[a, b, c]"] by simp

lemma same_update: "finalize ((update a ^^ n) new) = digest (concat (replicate n a))"
proof -
  have "fold update (replicate n a) c = (update a ^^ n) c" for c
    by (induction n arbitrary: c) (simp_all add: funpow_swap1)
  with streams [of "replicate n a"] show ?thesis by simp
qed

lemma digest_nonempty: "digest msg \<noteq> []"
  using digest_length size_pos by (metis length_0_conv less_numeral_extra(3))

end

definition block_digest :: "('s \<Rightarrow> octet list \<Rightarrow> 's) \<Rightarrow> nat \<Rightarrow> nat \<Rightarrow> ('s \<Rightarrow> octet list) \<Rightarrow> (nat \<Rightarrow> octet list) \<Rightarrow> 's
    \<Rightarrow> octet list \<Rightarrow> octet list" where
  "block_digest f B L out len s msg = out (fst (compress_blocks f B s (padded B L (len (length msg)) msg)))"

lemma streams_by_absorption:
  assumes "0 < L" "L < B"
    and "\<And>h. finalize h = out (hc_state (hash_update f B (padding B L (length (hc_buffer h)) (len (hc_length h))) h))"
  shows "finalize (fold (hash_update f B) parts (hash_new s)) = block_digest f B L out len s (concat parts)"
proof -
  let ?h = "fold (hash_update f B) parts (hash_new s)" and ?m = "concat parts"
  have B: "0 < B" using assms by simp
  have a: "absorbed f B s ?m ?h" using absorbed_fold [OF B absorbed_new [OF B]] by simp
  have p: "?m @ padding B L (length (hc_buffer ?h)) (len (hc_length ?h)) = padded B L (len (length ?m)) ?m"
    using padding_is_padded [OF assms(1,2)] absorbed_buffer [OF B a] a by (simp add: absorbed_def)
  show ?thesis using absorbed_update [OF B a, of "padding B L (length (hc_buffer ?h)) (len (hc_length ?h))"]
    unfolding assms(3) p block_digest_def absorbed_def by simp
qed

section \<open>The three hash functions\<close>

definition digest512 :: "octet list \<Rightarrow> octet list" where
  "digest512 = block_digest compress512 128 16 (\<lambda>st. concat (map (word_be_bytes 8) st))
     (\<lambda>n. word_be_bytes 16 (word_of_nat (n * 8) :: 128 word)) SHA512_H0"

definition digest256 :: "octet list \<Rightarrow> octet list" where
  "digest256 = block_digest compress256 64 8 (\<lambda>st. concat (map (word_be_bytes 4) st))
     (\<lambda>n. word_be_bytes 8 (word_of_nat (n * 8) :: 64 word)) SHA256_H"

definition digest_md5 :: "octet list \<Rightarrow> octet list" where
  "digest_md5 = block_digest compress_md5 64 8 (\<lambda>st. concat (map (word_le_bytes 4) st))
     (\<lambda>n. word_le_bytes 8 (word_of_nat (n * 8) :: 64 word)) (concat [[0x67452301, 0xefcdab89], [0x98badcfe, 0x10325476]])"

text \<open>A compression keeps the number of words of the state.\<close>

lemma sha_round_length: "length st = 8 \<Longrightarrow> length ps = 3 \<Longrightarrow> length qs = 3 \<Longrightarrow> length (sha_round ps qs st kw) = 8"
  by (induction ps qs st kw rule: sha_round.induct) (simp_all add: Let_def)

lemma sha_rounds_length:
  "length st = 8 \<Longrightarrow> length ps = 3 \<Longrightarrow> length qs = 3 \<Longrightarrow> length (foldl (sha_round ps qs) st kws) = 8"
  by (induction kws arbitrary: st) (simp_all add: sha_round_length)

lemma md5_round_length: "length st = 4 \<Longrightarrow> length (md5_round ws st i) = 4"
  by (induction ws st i rule: md5_round.induct) (simp_all add: Let_def split: prod.split)

lemma md5_rounds_length: "length st = 4 \<Longrightarrow> length (foldl (md5_round ws) st is) = 4"
  by (induction "is" arbitrary: st) (simp_all add: md5_round_length)

lemma compress_length:
  "length st = 8 \<Longrightarrow> length (compress512 st b) = 8" "length st' = 8 \<Longrightarrow> length (compress256 st' b) = 8"
  "length st'' = 4 \<Longrightarrow> length (compress_md5 st'' b) = 4"
  by (simp_all add: compress512_def compress256_def compress_md5_def sha_rounds_length md5_rounds_length)

lemma compress_blocks_length:
  assumes "\<And>st b. length st = n \<Longrightarrow> length (f st b) = n" "length s = n"
  shows "length (fst (compress_blocks f B s data)) = n"
  using assms(2)
proof (induction data arbitrary: s rule: length_induct)
  case (1 data)
  show ?case
  proof (cases "0 < B \<and> B \<le> length data")
    case True
    then have "length (drop B data) < length data" "length (f s (take B data)) = n" using 1 assms(1) by auto
    with 1 True show ?thesis by (simp add: compress_blocks_step)
  next
    case False
    then have "compress_blocks f B s data = (s, data)" by (subst compress_blocks.simps) auto
    with 1 show ?thesis by simp
  qed
qed

lemma digest_lengths: "length (digest512 m) = 64" "length (digest256 m) = 32" "length (digest_md5 m) = 16"
proof -
  have *: "length (concat (map f st)) = length st * k" if "\<And>w. length (f w) = k" for f :: "'a::len word \<Rightarrow> octet list" and st k
    using that by (induction st) simp_all
  show "length (digest512 m) = 64" "length (digest256 m) = 32" "length (digest_md5 m) = 16"
    unfolding digest512_def digest256_def digest_md5_def block_digest_def
    by (simp_all add: * [OF length_bytes(1)] * [OF length_bytes(2)] compress_blocks_length compress_length SHA512_H0_def SHA256_H_def)
qed

interpretation sha512: streaming_hash sha512_new sha512_update sha512_finalize digest512 64
proof
  fix parts
  show "sha512_finalize (fold sha512_update parts sha512_new) = digest512 (concat parts)"
    unfolding sha512_update_def sha512_new_def digest512_def
    by (rule streams_by_absorption) (simp_all add: sha512_finalize_def sha512_update_def Let_def)
qed (simp_all add: digest_lengths)

interpretation sha256: streaming_hash sha256_new sha256_update sha256_finalize digest256 32
proof
  fix parts
  show "sha256_finalize (fold sha256_update parts sha256_new) = digest256 (concat parts)"
    unfolding sha256_update_def sha256_new_def digest256_def
    by (rule streams_by_absorption) (simp_all add: sha256_finalize_def sha256_update_def Let_def)
qed (simp_all add: digest_lengths)

interpretation md5: streaming_hash md5_new md5_update md5_finalize digest_md5 16
proof
  fix parts
  show "md5_finalize (fold md5_update parts md5_new) = digest_md5 (concat parts)"
    unfolding md5_update_def md5_new_def digest_md5_def
    by (rule streams_by_absorption) (simp_all add: md5_finalize_def md5_update_def Let_def)
qed (simp_all add: digest_lengths)

text \<open>The round constants of SHA-256 are the upper halves of the first ones of SHA-512.\<close>

lemma sha_tables_agree: "SHA256_K = map (\<lambda>k. ucast (drop_bit 32 k)) (take 64 SHA512_K)"
  by (simp add: SHA256_K_def SHA512_K_def)

end
