(* ===== verification/Sha_Crypt.thy ===== *)
theory Sha_Crypt
  imports Crypt_Stream
begin

unbundle bit_operations_syntax

text \<open>
  The crypt constructions of \<open>rlogin\<close> (\<open>crypt.rs\<close>): the \<open>$6$\<close>, \<open>$5$\<close> and \<open>$1$\<close> formats and the comparison.
  \<open>sha256_crypt\<close> and \<open>sha512_crypt\<close> are the same text up to the hash, its size and the encoding; the hash
  is an argument of the steps here.
\<close>

definition octets :: "string \<Rightarrow> octet list" where
  "octets s = map (\<lambda>c. word_of_nat (byte c)) s"

section \<open>Encoding\<close>

definition B64 :: string where
  "B64 = ''./0123456789ABCDEFGHIJKLMNOPQRSTUVWXYZabcdefghijklmnopqrstuvwxyz''"

fun b64_digits :: "nat \<Rightarrow> 32 word \<Rightarrow> string" where
  "b64_digits 0 v = []"
| "b64_digits (Suc n) v = B64 ! unat (v AND 0x3f) # b64_digits n (drop_bit 6 v)"

definition b64_from_24bit :: "octet \<Rightarrow> octet \<Rightarrow> octet \<Rightarrow> nat \<Rightarrow> string" where
  "b64_from_24bit b2 b1 b0 count = b64_digits count (push_bit 16 (ucast b2) OR push_bit 8 (ucast b1) OR ucast b0)"

text \<open>The loops walk the hash in steps of a third; they end when the walk is back at its start.\<close>

partial_function (option) encode512_from :: "octet list \<Rightarrow> string \<Rightarrow> nat \<Rightarrow> string option" where
  "encode512_from hash acc i =
     (let j = (if 63 \<le> i + 21 then i + 21 - 63 else i + 21);
          k = (if 63 \<le> i + 42 then i + 42 - 63 else i + 42);
          out = acc @ b64_from_24bit (hash ! i) (hash ! j) (hash ! k) 4
      in if j = 20 then Some out else encode512_from hash out (j + 1))"

definition encode_sha512 :: "octet list \<Rightarrow> string option" where
  "encode_sha512 hash = map_option (\<lambda>t. t @ b64_from_24bit 0 0 (hash ! 63) 2) (encode512_from hash [] 0)"

partial_function (option) encode256_from :: "octet list \<Rightarrow> string \<Rightarrow> nat \<Rightarrow> string option" where
  "encode256_from hash acc i =
     (let j = (if 30 \<le> i + 10 then i + 10 - 30 else i + 10);
          k = (if 30 \<le> i + 20 then i + 20 - 30 else i + 20);
          out = acc @ b64_from_24bit (hash ! i) (hash ! j) (hash ! k) 4
      in if k = 29 then Some out else encode256_from hash out (k + 1))"

definition encode_sha256 :: "octet list \<Rightarrow> string option" where
  "encode_sha256 hash = map_option (\<lambda>t. t @ b64_from_24bit 0 (hash ! 31) (hash ! 30) 3) (encode256_from hash [] 0)"

declare encode512_from.simps [code] encode256_from.simps [code]

definition encode_md5 :: "octet list \<Rightarrow> string" where
  "encode_md5 r =
     (let encoded = r @ [r ! 5]
      in concat (map (\<lambda>i. b64_from_24bit (encoded ! i) (encoded ! (i + 6)) (encoded ! (i + 12)) 4) [0..<5])
         @ b64_from_24bit 0 0 (r ! 11) 2)"

section \<open>Steps of the construction\<close>

text \<open>\<open>repeat_to_len\<close>; a digest is never empty.\<close>

function repeat_from :: "octet list \<Rightarrow> nat \<Rightarrow> octet list \<Rightarrow> octet list" where
  "repeat_from bytes n out =
     (if length out < n \<and> bytes \<noteq> [] then repeat_from bytes n (out @ take (n - length out) bytes) else out)"
  by pat_completeness auto
termination by (relation "measure (\<lambda>(bytes, n, out). n - length out)") (auto simp: diff_less_mono2 min_def neq_Nil_conv)

definition repeat_to_len :: "octet list \<Rightarrow> nat \<Rightarrow> octet list" where
  "repeat_to_len bytes n = repeat_from bytes n []"

function feed_count :: "(octet list \<Rightarrow> 'c \<Rightarrow> 'c) \<Rightarrow> nat \<Rightarrow> octet list \<Rightarrow> nat \<Rightarrow> 'c \<Rightarrow> 'c" where
  "feed_count update sz alt n c =
     (if 0 < sz \<and> sz < n then feed_count update sz alt (n - sz) (update alt c) else update (take n alt) c)"
  by pat_completeness auto
termination by (relation "measure (\<lambda>(update, sz, alt, n, c). n)") auto

function feed_bits :: "(octet list \<Rightarrow> 'c \<Rightarrow> 'c) \<Rightarrow> octet list \<Rightarrow> octet list \<Rightarrow> nat \<Rightarrow> 'c \<Rightarrow> 'c" where
  "feed_bits update odd_part even_part bits c =
     (if bits \<noteq> 0 then feed_bits update odd_part even_part (bits div 2) (update (if odd bits then odd_part else even_part) c)
      else c)"
  by pat_completeness auto
termination by (relation "measure (\<lambda>(update, a, b, bits, c). bits)") auto

declare repeat_from.simps [simp del] feed_count.simps [simp del] feed_bits.simps [simp del]

definition one_round :: "'c \<Rightarrow> (octet list \<Rightarrow> 'c \<Rightarrow> 'c) \<Rightarrow> ('c \<Rightarrow> octet list) \<Rightarrow> octet list \<Rightarrow> octet list \<Rightarrow> octet list
    \<Rightarrow> nat \<Rightarrow> octet list" where
  "one_round new update finalize p s alt i =
     (let c1 = update (if odd i then p else alt) new;
          c2 = (if i mod 3 \<noteq> 0 then update s c1 else c1);
          c3 = (if i mod 7 \<noteq> 0 then update p c2 else c2)
      in finalize (update (if odd i then alt else p) c3))"

definition sha_crypt_hash :: "'c \<Rightarrow> (octet list \<Rightarrow> 'c \<Rightarrow> 'c) \<Rightarrow> ('c \<Rightarrow> octet list) \<Rightarrow> nat \<Rightarrow> octet list \<Rightarrow> octet list
    \<Rightarrow> nat \<Rightarrow> octet list" where
  "sha_crypt_hash new update finalize sz key salt rounds =
     (let context = update salt (update key new);
          alternate = finalize (update key (update salt (update key new)));
          c1 = feed_count update sz alternate (length key) context;
          alt = finalize (feed_bits update alternate key (length key) c1);
          p = repeat_to_len (finalize ((update key ^^ length key) new)) (length key);
          s = repeat_to_len (finalize ((update salt ^^ (16 + unat (alt ! 0))) new)) (length salt)
      in foldl (one_round new update finalize p s) alt [0..<rounds])"

section \<open>Settings\<close>

record Setting =
  st_explicit :: bool
  st_rounds :: nat
  st_salt :: string

definition upto_dollar :: "string \<Rightarrow> string" where
  "upto_dollar s = takeWhile (\<lambda>c. c \<noteq> CHR ''$'') s"

definition parse_salt :: "bool \<Rightarrow> nat \<Rightarrow> string \<Rightarrow> Setting" where
  "parse_salt explicit n rest = \<lparr>st_explicit = explicit, st_rounds = n, st_salt = take 16 (upto_dollar rest)\<rparr>"

definition parse_setting :: "string \<Rightarrow> string \<Rightarrow> Setting option" where
  "parse_setting prefix setting = (case strip_prefix prefix setting of
      None \<Rightarrow> None
    | Some rest \<Rightarrow>
        (case strip_prefix ''rounds='' rest of
           None \<Rightarrow> Some (parse_salt False 5000 rest)
         | Some value \<Rightarrow>
             (case split_once (CHR ''$'') value of
                None \<Rightarrow> None
              | Some (digits, rest1) \<Rightarrow>
                  (case parse_uint u32_max digits of
                     None \<Rightarrow> None
                   | Some n \<Rightarrow> Some (parse_salt True (min (max n 1000) 999999999) rest1)))))"

definition setting_text :: "string \<Rightarrow> Setting \<Rightarrow> string" where
  "setting_text prefix st = prefix @ (if st_explicit st then ''rounds='' @ show_nat (st_rounds st) @ ''$'' else [])
     @ st_salt st @ ''$''"

definition sha512_crypt :: "string \<Rightarrow> string \<Rightarrow> string option" where
  "sha512_crypt password setting = (case parse_setting ''$6$'' setting of
      None \<Rightarrow> None
    | Some st \<Rightarrow>
        if utf8_valid (st_salt st)
        then map_option (\<lambda>t. setting_text ''$6$'' st @ t)
          (encode_sha512 (sha_crypt_hash sha512_new sha512_update sha512_finalize 64 (octets password)
             (octets (st_salt st)) (st_rounds st)))
        else None)"

definition sha256_crypt :: "string \<Rightarrow> string \<Rightarrow> string option" where
  "sha256_crypt password setting = (case parse_setting ''$5$'' setting of
      None \<Rightarrow> None
    | Some st \<Rightarrow>
        if utf8_valid (st_salt st)
        then map_option (\<lambda>t. setting_text ''$5$'' st @ t)
          (encode_sha256 (sha_crypt_hash sha256_new sha256_update sha256_finalize 32 (octets password)
             (octets (st_salt st)) (st_rounds st)))
        else None)"

section \<open>MD5\<close>

function feed_md5 :: "octet list \<Rightarrow> nat \<Rightarrow> 32 word list HashContext \<Rightarrow> 32 word list HashContext" where
  "feed_md5 result n c = (if 0 < n then feed_md5 result (n - min n 16) (md5_update (take (min n 16) result) c) else c)"
  by pat_completeness auto
termination by (relation "measure (\<lambda>(result, n, c). n)") auto

declare feed_md5.simps [simp del]

definition md5_crypt_hash :: "octet list \<Rightarrow> octet list \<Rightarrow> octet list" where
  "md5_crypt_hash key salt =
     (let context = md5_update salt (md5_update (octets ''$1$'') (md5_update key md5_new));
          first = md5_finalize (md5_update key (md5_update salt (md5_update key md5_new)));
          c1 = feed_md5 first (length key) context;
          result = md5_finalize (feed_bits md5_update [0] (take 1 key) (length key) c1)
      in foldl (one_round md5_new md5_update md5_finalize key salt) result [0..<1000])"

definition md5_crypt :: "string \<Rightarrow> string \<Rightarrow> string option" where
  "md5_crypt password setting = (case strip_prefix ''$1$'' setting of
      None \<Rightarrow> None
    | Some rest \<Rightarrow>
        let n = min (length (upto_dollar rest)) 8; salt = take n rest
        in if is_char_boundary rest n
           then Some (''$1$'' @ salt @ ''$'' @ encode_md5 (md5_crypt_hash (octets password) (octets salt)))
           else None)"

section \<open>Comparison\<close>

definition starts_with :: "string \<Rightarrow> string \<Rightarrow> bool" where
  "starts_with p s \<longleftrightarrow> strip_prefix p s \<noteq> None"

definition difference :: "octet list \<Rightarrow> octet list \<Rightarrow> octet" where
  "difference xs ys = foldl (\<lambda>d (a, b). d OR (a XOR b)) 0 (zip xs ys)"

definition verify :: "string \<Rightarrow> string \<Rightarrow> bool" where
  "verify password hash =
     (case (if starts_with ''$6$'' hash then sha512_crypt password hash
            else if starts_with ''$5$'' hash then sha256_crypt password hash
            else if starts_with ''$1$'' hash then md5_crypt password hash
            else None) of
        None \<Rightarrow> False
      | Some computed \<Rightarrow>
          length computed = length hash \<and> difference (octets computed) (octets hash) = 0)"

end
