(* ===== verification/Sha_Crypt_Props.thy ===== *)
theory Sha_Crypt_Props
  imports Sha_Crypt
begin

unbundle bit_operations_syntax

text \<open>
  A stored hash accepts exactly the passwords with the same digest. The construction is stated once more
  over one-shot digests of whole messages; inside the locale \<open>streaming_hash\<close> the code is shown to compute
  it, the encodings are shown to lose nothing, and the setting in a stored hash to be the one it was made
  with.
\<close>

section \<open>The construction over whole messages\<close>

definition cycled :: "nat \<Rightarrow> 'a list \<Rightarrow> 'a list" where
  "cycled n xs = take n (concat (replicate n xs))"

fun bit_string :: "octet list \<Rightarrow> octet list \<Rightarrow> nat \<Rightarrow> octet list" where
  "bit_string a b n = (if n = 0 then [] else (if odd n then a else b) @ bit_string a b (n div 2))"

declare bit_string.simps [simp del]

definition round_spec :: "(octet list \<Rightarrow> octet list) \<Rightarrow> octet list \<Rightarrow> octet list \<Rightarrow> octet list \<Rightarrow> nat \<Rightarrow> octet list" where
  "round_spec digest p s alt i = digest ((if odd i then p else alt) @ (if i mod 3 \<noteq> 0 then s else [])
     @ (if i mod 7 \<noteq> 0 then p else []) @ (if odd i then alt else p))"

definition sha_crypt_spec :: "(octet list \<Rightarrow> octet list) \<Rightarrow> octet list \<Rightarrow> octet list \<Rightarrow> nat \<Rightarrow> octet list" where
  "sha_crypt_spec digest key salt rounds =
     (let alternate = digest (key @ salt @ key);
          alt = digest (key @ salt @ cycled (length key) alternate @ bit_string alternate key (length key));
          p = cycled (length key) (digest (concat (replicate (length key) key)));
          s = cycled (length salt) (digest (concat (replicate (16 + unat (alt ! 0)) salt)))
      in foldl (round_spec digest p s) alt [0..<rounds])"

definition md5_crypt_spec :: "octet list \<Rightarrow> octet list \<Rightarrow> octet list" where
  "md5_crypt_spec key salt =
     (let first = digest_md5 (key @ salt @ key);
          result = digest_md5 (key @ octets ''$1$'' @ salt @ cycled (length key) first
            @ bit_string [0] (take 1 key) (length key))
      in foldl (round_spec digest_md5 key salt) result [0..<1000])"

section \<open>Cycling\<close>

lemma length_concat_replicate: "length (concat (replicate n xs)) = n * length xs"
  by (induction n) simp_all

lemma take_replicate_le:
  assumes "xs \<noteq> []" "k \<le> a" "a \<le> b"
  shows "take k (concat (replicate b xs)) = take k (concat (replicate a xs))"
proof -
  have "replicate b xs = replicate a xs @ replicate (b - a) xs" using assms(3) by (simp add: replicate_add [symmetric])
  moreover have "k \<le> length (concat (replicate a xs))"
    using assms(1,2) mult_le_mono [of k a 1 "length xs"] by (cases xs) (simp_all add: length_concat_replicate)
  ultimately show ?thesis by simp
qed

lemma cycled_short: "n \<le> length xs \<Longrightarrow> cycled n xs = take n xs"
  by (cases n) (simp_all add: cycled_def)

lemma cycled_long:
  assumes "length xs < n" "xs \<noteq> []"
  shows "cycled n xs = xs @ cycled (n - length xs) xs"
proof -
  obtain m where n: "n = Suc m" using assms(1) by (cases n) auto
  have "n - length xs \<le> m" using n assms(2) by (cases xs) auto
  then have "take (n - length xs) (concat (replicate m xs)) = cycled (n - length xs) xs"
    unfolding cycled_def by (intro take_replicate_le assms) simp_all
  moreover have "cycled n xs = xs @ take (n - length xs) (concat (replicate m xs))"
    using n assms(1) by (simp add: cycled_def)
  ultimately show ?thesis by simp
qed

lemma repeat_from_cycled: "bytes \<noteq> [] \<Longrightarrow> length out \<le> n \<Longrightarrow> repeat_from bytes n out = out @ cycled (n - length out) bytes"
proof (induction bytes n out rule: repeat_from.induct)
  case (1 bytes n out)
  show ?case
  proof (cases "length out < n")
    case True
    let ?t = "take (n - length out) bytes"
    have "repeat_from bytes n out = repeat_from bytes n (out @ ?t)"
      using True 1(2) by (subst repeat_from.simps) simp
    also have "\<dots> = (out @ ?t) @ cycled (n - length (out @ ?t)) bytes" using True 1 by simp
    finally have "repeat_from bytes n out = out @ (?t @ cycled (n - length (out @ ?t)) bytes)" by simp
    moreover have "?t @ cycled (n - length (out @ ?t)) bytes = cycled (n - length out) bytes"
    proof (cases "n - length out \<le> length bytes")
      case True
      then show ?thesis by (simp add: cycled_short)
    next
      case False
      then show ?thesis using cycled_long [of bytes "n - length out"] 1(2) by simp
    qed
    ultimately show ?thesis by simp
  qed (use 1 in \<open>auto simp: repeat_from.simps [of bytes n out] cycled_def\<close>)
qed

lemma repeat_to_len_cycled: "bytes \<noteq> [] \<Longrightarrow> repeat_to_len bytes n = cycled n bytes"
  by (simp add: repeat_to_len_def repeat_from_cycled)

section \<open>The code computes it\<close>

context streaming_hash
begin

definition holds :: "'c \<Rightarrow> octet list \<Rightarrow> bool" where
  "holds c m \<longleftrightarrow> (\<exists>parts. c = fold update parts new \<and> concat parts = m)"

lemma holds_new: "holds new []"
  unfolding holds_def by (rule exI [of _ "[]"]) simp

lemma holds_update:
  assumes "holds c m"
  shows "holds (update x c) (m @ x)"
proof -
  from assms obtain parts where "c = fold update parts new" "concat parts = m" by (auto simp: holds_def)
  then show ?thesis unfolding holds_def by (intro exI [of _ "parts @ [x]"]) simp
qed

lemma holds_maybe: "holds c m \<Longrightarrow> holds (if b then update x c else c) (m @ (if b then x else []))"
  by (simp add: holds_update)

lemma holds_finalize: "holds c m \<Longrightarrow> finalize c = digest m"
  using streams by (auto simp: holds_def)

lemma holds_feed_count: "length alt = size \<Longrightarrow> holds c m \<Longrightarrow> holds (feed_count update size alt n c) (m @ cycled n alt)"
proof (induction n arbitrary: c m rule: less_induct)
  case (less n)
  show ?case
  proof (cases "size < n")
    case True
    have "alt \<noteq> []" using less.prems(1) size_pos by auto
    with True less.prems(1) have "cycled n alt = alt @ cycled (n - size) alt" using cycled_long by blast
    moreover have "holds (feed_count update size alt (n - size) (update alt c)) ((m @ alt) @ cycled (n - size) alt)"
      using less.IH [OF _ less.prems(1) holds_update [OF less.prems(2)], of "n - size"] True size_pos by simp
    ultimately show ?thesis using True size_pos by (subst feed_count.simps) simp
  next
    case False
    then show ?thesis using holds_update [OF less.prems(2)] less.prems(1) by (subst feed_count.simps) (simp add: cycled_short)
  qed
qed

lemma holds_feed_bits: "holds c m \<Longrightarrow> holds (feed_bits update a b n c) (m @ bit_string a b n)"
proof (induction n arbitrary: c m rule: less_induct)
  case (less n)
  show ?case
  proof (cases "n = 0")
    case False
    then have "holds (feed_bits update a b (n div 2) (update (if odd n then a else b) c))
        ((m @ (if odd n then a else b)) @ bit_string a b (n div 2))"
      using less.IH [OF _ holds_update [OF less.prems], of "n div 2"] by simp
    with False show ?thesis by (subst feed_bits.simps, subst bit_string.simps) simp
  qed (use less.prems in \<open>simp add: feed_bits.simps [of _ _ _ 0] bit_string.simps [of _ _ 0]\<close>)
qed

lemma one_round_spec: "one_round new update finalize p s alt i = round_spec digest p s alt i"
proof -
  have "holds (update (if odd i then p else alt) new) (if odd i then p else alt)"
    using holds_update [OF holds_new, of "if odd i then p else alt"] by simp
  from holds_finalize [OF holds_update [OF holds_maybe [OF holds_maybe [OF this, of "i mod 3 \<noteq> 0" s], of "i mod 7 \<noteq> 0" p],
        of "if odd i then alt else p"]]
  show ?thesis unfolding one_round_def round_spec_def Let_def by simp
qed

lemma rounds_spec: "foldl (one_round new update finalize p s) alt is = foldl (round_spec digest p s) alt is"
  by (induction "is" arbitrary: alt) (simp_all add: one_round_spec)

lemma sha_crypt_hash_spec: "sha_crypt_hash new update finalize size key salt n = sha_crypt_spec digest key salt n"
proof -
  have h: "holds (update salt (update key new)) (key @ salt)" using holds_update [OF holds_update [OF holds_new, of key], of salt] by simp
  have "length (digest (key @ salt @ key)) = size" by (rule digest_length)
  from holds_finalize [OF holds_feed_bits [OF holds_feed_count [OF this h]]]
  have "finalize (feed_bits update (digest (key @ salt @ key)) key (length key)
      (feed_count update size (digest (key @ salt @ key)) (length key) (update salt (update key new))))
    = digest (key @ salt @ cycled (length key) (digest (key @ salt @ key)) @ bit_string (digest (key @ salt @ key)) key (length key))"
    by simp
  then show ?thesis
    by (simp add: sha_crypt_hash_def sha_crypt_spec_def Let_def three_updates same_update rounds_spec
        repeat_to_len_cycled digest_nonempty)
qed

lemma sha_crypt_spec_length: "length (sha_crypt_spec digest key salt n) = size"
proof -
  have "length (foldl (round_spec digest p s) alt is) = size" if "length alt = size" for p s alt "is"
    using that by (induction "is" arbitrary: alt) (simp_all add: round_spec_def digest_length)
  then show ?thesis by (simp add: sha_crypt_spec_def Let_def digest_length)
qed

end

lemma holds_feed_md5: "length r = 16 \<Longrightarrow> md5.holds c m \<Longrightarrow> md5.holds (feed_md5 r n c) (m @ cycled n r)"
proof (induction n arbitrary: c m rule: less_induct)
  case (less n)
  show ?case
  proof (cases "n = 0")
    case False
    have step: "md5.holds (feed_md5 r (n - min n 16) (md5_update (take (min n 16) r) c))
        ((m @ take (min n 16) r) @ cycled (n - min n 16) r)"
      using less.IH [OF _ less.prems(1) md5.holds_update [OF less.prems(2)], of "n - min n 16"] False by simp
    have "take (min n 16) r @ cycled (n - min n 16) r = cycled n r"
    proof (cases "n \<le> 16")
      case True
      then show ?thesis using less.prems(1) by (simp add: cycled_short)
    next
      case n: False
      then have "cycled n r = r @ cycled (n - 16) r" using cycled_long [of r n] less.prems(1) by fastforce
      with n less.prems(1) show ?thesis by simp
    qed
    with step False show ?thesis by (subst feed_md5.simps) simp
  qed (use less.prems in \<open>simp add: feed_md5.simps [of _ 0] cycled_def\<close>)
qed

lemma md5_crypt_hash_spec: "md5_crypt_hash key salt = md5_crypt_spec key salt"
proof -
  have h: "md5.holds (md5_update salt (md5_update (octets ''$1$'') (md5_update key md5_new))) (key @ octets ''$1$'' @ salt)"
    using md5.holds_update [OF md5.holds_update [OF md5.holds_update [OF md5.holds_new, of key], of "octets ''$1$''"], of salt] by simp
  have "length (digest_md5 (key @ salt @ key)) = 16" by (rule md5.digest_length)
  from md5.holds_finalize [OF md5.holds_feed_bits [OF holds_feed_md5 [OF this h]]]
  show ?thesis by (simp add: md5_crypt_hash_def md5_crypt_spec_def Let_def md5.three_updates md5.rounds_spec)
qed

section \<open>Encodings lose nothing\<close>

lemma B64_nth: "i < 64 \<Longrightarrow> j < 64 \<Longrightarrow> B64 ! i = B64 ! j \<longleftrightarrow> i = j"
proof -
  assume "i < 64" "j < 64"
  moreover have "distinct B64" "length B64 = 64" by code_simp+
  ultimately show ?thesis using nth_eq_iff_index_eq by metis
qed

lemma six_bits: "unat (v AND 0x3f :: 32 word) < 64" "v AND 0x3f = take_bit 6 (v :: 32 word)"
proof -
  have m: "(0x3f :: 32 word) = mask 6" by (simp add: mask_eq_exp_minus_1)
  show "v AND 0x3f = take_bit 6 v" unfolding m by (simp add: take_bit_eq_mask)
  then have "unat (v AND 0x3f) = take_bit 6 (unat v)" by (simp only: unsigned_take_bit_eq)
  then have "unat (v AND 0x3f) = unat v mod 64" by (simp add: take_bit_eq_mod)
  then show "unat (v AND 0x3f) < 64" by simp
qed

lemma b64_digits_inj: "b64_digits n v = b64_digits n w \<Longrightarrow> take_bit (6 * n) v = take_bit (6 * n) w"
proof (induction n arbitrary: v w)
  case (Suc n)
  then have "unat (v AND 0x3f) = unat (w AND 0x3f)" using B64_nth six_bits(1) by simp
  then have "v AND 0x3f = w AND 0x3f" by (simp only: word_unat_eq_iff)
  then have 6: "take_bit 6 v = take_bit 6 w" by (simp add: six_bits(2))
  have r: "take_bit (6 * n) (drop_bit 6 v) = take_bit (6 * n) (drop_bit 6 w)"
    using Suc.IH [of "drop_bit 6 v" "drop_bit 6 w"] Suc.prems by (simp only: b64_digits.simps list.inject)
  have split: "take_bit (6 * Suc n) x = take_bit 6 x OR push_bit 6 (take_bit (6 * n) (drop_bit 6 x))" for x :: "32 word"
    by (rule bit_eqI) (auto simp: bit_simps)
  show ?case unfolding split 6 r ..
qed simp

lemma length_b64 [simp]: "length (b64_from_24bit a b c n) = n"
proof -
  have "length (b64_digits n v) = n" for v by (induction n arbitrary: v) simp_all
  then show ?thesis by (simp add: b64_from_24bit_def)
qed

lemma octet_high_bit: "8 \<le> k \<Longrightarrow> \<not> bit (w :: octet) k"
  by (auto dest: bit_imp_le_length)

lemma b64_inj:
  assumes "b64_from_24bit a b c n = b64_from_24bit a' b' c' n" "n \<in> {2, 3, 4}"
    and "n = 2 \<Longrightarrow> a = 0 \<and> a' = 0 \<and> b = 0 \<and> b' = 0" "n = 3 \<Longrightarrow> a = 0 \<and> a' = 0"
  shows "a = a' \<and> b = b' \<and> c = c'"
proof -
  define x where "x = (push_bit 16 (ucast a) OR push_bit 8 (ucast b) OR ucast c :: 32 word)"
  define y where "y = (push_bit 16 (ucast a') OR push_bit 8 (ucast b') OR ucast c' :: 32 word)"
  have t: "take_bit (6 * n) x = take_bit (6 * n) y"
    using b64_digits_inj assms(1) unfolding b64_from_24bit_def x_def y_def by blast
  have bits: "bit x i = bit y i" if "i < 6 * n" for i using t that by (metis bit_take_bit_iff)
  have c: "c = c'"
  proof (rule bit_eqI)
    fix i assume "possible_bit TYPE(8 word) i"
    then have i: "i < 8" by simp
    with bits [of i] assms(2) show "bit c i = bit c' i" by (auto simp: x_def y_def bit_simps)
  qed
  have b: "b = b'"
  proof (cases "n = 2")
    case False
    show ?thesis
    proof (rule bit_eqI)
      fix i assume "possible_bit TYPE(8 word) i"
      then have i: "i < 8" by simp
      with bits [of "8 + i"] assms(2) False show "bit b i = bit b' i"
        by (auto simp: x_def y_def bit_simps octet_high_bit)
    qed
  qed (use assms(3) in simp)
  have "a = a'"
  proof (cases "n = 4")
    case True
    show ?thesis
    proof (rule bit_eqI)
      fix i assume "possible_bit TYPE(8 word) i"
      then have i: "i < 8" by simp
      with bits [of "16 + i"] True show "bit a i = bit a' i"
        by (auto simp: x_def y_def bit_simps octet_high_bit)
    qed
  qed (use assms in auto)
  with b c show ?thesis by simp
qed

text \<open>The triples in the order of the loops.\<close>

definition groups512 :: "(nat \<times> nat \<times> nat) list" where
  "groups512 = map (\<lambda>m. (22 * m mod 63, (22 * m + 21) mod 63, (22 * m + 42) mod 63)) [0..<21]"

definition groups256 :: "(nat \<times> nat \<times> nat) list" where
  "groups256 = map (\<lambda>m. (21 * m mod 30, (21 * m + 10) mod 30, (21 * m + 20) mod 30)) [0..<10]"

definition group_text :: "octet list \<Rightarrow> nat \<times> nat \<times> nat \<Rightarrow> string" where
  "group_text h g = (case g of (i, j, k) \<Rightarrow> b64_from_24bit (h ! i) (h ! j) (h ! k) 4)"

lemma encode_sha512_groups:
  "encode_sha512 h = Some (concat (map (group_text h) groups512) @ b64_from_24bit 0 0 (h ! 63) 2)"
proof -
  have g: "groups512 = [(0, 21, 42), (22, 43, 1), (44, 2, 23), (3, 24, 45), (25, 46, 4), (47, 5, 26), (6, 27, 48),
      (28, 49, 7), (50, 8, 29), (9, 30, 51), (31, 52, 10), (53, 11, 32), (12, 33, 54), (34, 55, 13), (56, 14, 35),
      (15, 36, 57), (37, 58, 16), (59, 17, 38), (18, 39, 60), (40, 61, 19), (62, 20, 41)]" by code_simp
  show ?thesis unfolding encode_sha512_def g by (simp add: encode512_from.simps group_text_def Let_def)
qed

lemma encode_sha256_groups:
  "encode_sha256 h = Some (concat (map (group_text h) groups256) @ b64_from_24bit 0 (h ! 31) (h ! 30) 3)"
proof -
  have g: "groups256 = [(0, 10, 20), (21, 1, 11), (12, 22, 2), (3, 13, 23), (24, 4, 14), (15, 25, 5), (6, 16, 26),
      (27, 7, 17), (18, 28, 8), (9, 19, 29)]" by code_simp
  show ?thesis unfolding encode_sha256_def g by (simp add: encode256_from.simps group_text_def Let_def)
qed

lemma concat_same_length:
  assumes "concat (map f xs) = concat (map g xs)" "\<And>x. length (f x) = length (g x)" "x \<in> set xs"
  shows "f x = g x"
  using assms by (induction xs) auto

lemma group_text_inj: "group_text h (i, j, k) = group_text h' (i, j, k) \<Longrightarrow> h ! i = h' ! i \<and> h ! j = h' ! j \<and> h ! k = h' ! k"
  unfolding group_text_def using b64_inj [of _ _ _ 4] by simp

lemma groups_cover:
  "i < 63 \<Longrightarrow> \<exists>g \<in> set groups512. i \<in> {fst g, fst (snd g), snd (snd g)}"
  "i < 30 \<Longrightarrow> \<exists>g \<in> set groups256. i \<in> {fst g, fst (snd g), snd (snd g)}"
proof -
  have "list_all (\<lambda>i. list_ex (\<lambda>g. i \<in> {fst g, fst (snd g), snd (snd g)}) groups512) [0..<63]"
    "list_all (\<lambda>i. list_ex (\<lambda>g. i \<in> {fst g, fst (snd g), snd (snd g)}) groups256) [0..<30]" by code_simp+
  then show "i < 63 \<Longrightarrow> \<exists>g \<in> set groups512. i \<in> {fst g, fst (snd g), snd (snd g)}"
    "i < 30 \<Longrightarrow> \<exists>g \<in> set groups256. i \<in> {fst g, fst (snd g), snd (snd g)}"
    by (simp_all add: list_all_iff list_ex_iff)
qed

lemma groups_determine:
  assumes "concat (map (group_text h) gs) = concat (map (group_text h') gs)"
    and "\<exists>g \<in> set gs. i \<in> {fst g, fst (snd g), snd (snd g)}"
  shows "h ! i = h' ! i"
proof -
  from assms(2) obtain a b c where g: "(a, b, c) \<in> set gs" "i \<in> {a, b, c}" by force
  have "group_text h (a, b, c) = group_text h' (a, b, c)"
    by (rule concat_same_length [OF assms(1) _ g(1)]) (simp add: group_text_def split: prod.split)
  from group_text_inj [OF this] g(2) show ?thesis by auto
qed

lemma encode_sha512_inj:
  assumes "encode_sha512 h = encode_sha512 h'" "length h = 64" "length h' = 64"
  shows "h = h'"
proof -
  have e: "concat (map (group_text h) groups512) = concat (map (group_text h') groups512)"
    "b64_from_24bit 0 0 (h ! 63) 2 = b64_from_24bit 0 0 (h' ! 63) 2"
    using assms(1) unfolding encode_sha512_groups by (auto simp: append_eq_append_conv)
  show ?thesis
  proof (rule nth_equalityI)
    fix i assume "i < length h"
    then consider "i < 63" | "i = 63" using assms(2) by linarith
    then show "h ! i = h' ! i"
      using groups_determine [OF e(1) groups_cover(1)] b64_inj [OF e(2)] by cases auto
  qed (use assms in simp)
qed

lemma encode_sha256_inj:
  assumes "encode_sha256 h = encode_sha256 h'" "length h = 32" "length h' = 32"
  shows "h = h'"
proof -
  have e: "concat (map (group_text h) groups256) = concat (map (group_text h') groups256)"
    "b64_from_24bit 0 (h ! 31) (h ! 30) 3 = b64_from_24bit 0 (h' ! 31) (h' ! 30) 3"
    using assms(1) unfolding encode_sha256_groups by (auto simp: append_eq_append_conv)
  show ?thesis
  proof (rule nth_equalityI)
    fix i assume "i < length h"
    then consider "i < 30" | "i = 30" | "i = 31" using assms(2) by linarith
    then show "h ! i = h' ! i"
      using groups_determine [OF e(1) groups_cover(2)] b64_inj [OF e(2)] by cases auto
  qed (use assms in simp)
qed

section \<open>Settings\<close>

lemma length_octets [simp]: "length (octets s) = length s"
  by (simp add: octets_def)

lemma octets_inject [simp]: "octets s = octets t \<longleftrightarrow> s = t"
proof -
  have "inj (\<lambda>c. word_of_nat (byte c) :: octet)"
  proof (rule injI)
    fix c d assume "(word_of_nat (byte c) :: octet) = word_of_nat (byte d)"
    then have "unat (word_of_nat (byte c) :: octet) = unat (word_of_nat (byte d) :: octet)" by simp
    then show "c = d" using byte_less [of c] byte_less [of d] by (simp add: unat_of_nat)
  qed
  then show ?thesis unfolding octets_def by (simp add: inj_map_eq_map)
qed

lemma takeWhile_dollar: "takeWhile (\<lambda>c. c \<noteq> d) (take n (takeWhile (\<lambda>c. c \<noteq> d) s) @ d # t) = take n (takeWhile (\<lambda>c. c \<noteq> d) s)"
  by (subst takeWhile_append2) (auto dest: in_set_takeD set_takeWhileD)

lemma salt_reparses: "take 16 (upto_dollar (take 16 (upto_dollar s) @ CHR ''$'' # t)) = take 16 (upto_dollar s)"
  unfolding upto_dollar_def takeWhile_dollar by simp

lemma strip_rounds:
  assumes "strip_prefix ''rounds='' s = None"
  shows "strip_prefix ''rounds='' (take 16 (upto_dollar s) @ CHR ''$'' # t) = None"
proof (rule ccontr)
  assume "strip_prefix ''rounds='' (take 16 (upto_dollar s) @ CHR ''$'' # t) \<noteq> None"
  then obtain u where u: "take 16 (upto_dollar s) @ CHR ''$'' # t = ''rounds='' @ u" by (auto simp: strip_prefix_Some_iff)
  have "length (take 16 (upto_dollar s)) \<ge> 7"
  proof (rule ccontr)
    assume "\<not> length (take 16 (upto_dollar s)) \<ge> 7"
    then have l: "length (take 16 (upto_dollar s)) < length ''rounds=''" by simp
    have "(''rounds='' @ u) ! length (take 16 (upto_dollar s)) = CHR ''$''" unfolding u [symmetric] by (rule nth_append_length)
    then have "CHR ''$'' \<in> set ''rounds=''" using l by (metis nth_append nth_mem)
    then show False by simp
  qed
  then have "take 7 (take 16 (upto_dollar s)) = ''rounds=''"
    using arg_cong [OF u, of "take 7"] by simp
  then have "take 7 (upto_dollar s) = ''rounds=''" by (simp add: min_def)
  moreover obtain v where "s = upto_dollar s @ v" unfolding upto_dollar_def by (metis takeWhile_dropWhile_id)
  ultimately have "take 7 s = ''rounds=''" using \<open>length (take 16 (upto_dollar s)) \<ge> 7\<close>
    by (metis append.right_neutral diff_is_0_eq le_trans length_take min.cobounded1 take_0 take_append)
  with assms show False by (simp add: strip_prefix_def numeral_eq_Suc)
qed

text \<open>The setting is read back from the hash that was made with it.\<close>

lemma setting_round_trip:
  assumes "parse_setting prefix setting = Some st"
  shows "parse_setting prefix (setting_text prefix st @ t) = Some st"
proof -
  from assms obtain rest where r: "strip_prefix prefix setting = Some rest" by (auto simp: parse_setting_def split: option.splits)
  show ?thesis
  proof (cases "strip_prefix ''rounds='' rest")
    case None
    then have st: "st = parse_salt False 5000 rest" using assms r by (simp add: parse_setting_def)
    have "strip_prefix prefix (setting_text prefix st @ t) = Some (take 16 (upto_dollar rest) @ CHR ''$'' # t)"
      by (simp add: strip_prefix_Some_iff setting_text_def st parse_salt_def)
    with strip_rounds [OF None] show ?thesis by (simp add: parse_setting_def parse_salt_def st salt_reparses)
  next
    case (Some v)
    with assms r obtain digits rest1 n where
      st: "st = parse_salt True (min (max n 1000) 999999999) rest1" "parse_uint u32_max digits = Some n"
      by (auto simp: parse_setting_def split: option.splits)
    define k where "k = min (max n 1000) 999999999"
    have k: "k \<le> u32_max" "min (max k 1000) 999999999 = k" by (auto simp: k_def u32_max_value)
    have "CHR ''$'' \<notin> set (show_nat k)" 
      using show_nat_digits [of k] by (auto simp: list_all_iff is_ascii_digit_def byte_def)
    then have "split_once (CHR ''$'') (show_nat k @ CHR ''$'' # take 16 (upto_dollar rest1) @ CHR ''$'' # t)
        = Some (show_nat k, take 16 (upto_dollar rest1) @ CHR ''$'' # t)" by simp
    moreover have "setting_text prefix st @ t = prefix @ ''rounds='' @ show_nat k @ CHR ''$'' # take 16 (upto_dollar rest1) @ CHR ''$'' # t"
      by (simp add: setting_text_def st parse_salt_def k_def)
    ultimately have "parse_setting prefix (setting_text prefix st @ t)
        = Some (parse_salt True (min (max k 1000) 999999999) (take 16 (upto_dollar rest1) @ CHR ''$'' # t))"
      using k(1) by (simp add: parse_setting_def strip_prefix_def parse_uint_show_nat)
    then show ?thesis unfolding k(2) by (simp add: st parse_salt_def salt_reparses k_def)
  qed
qed

section \<open>Verification\<close>

lemma xor_zero_iff: "a XOR b = 0 \<longleftrightarrow> a = (b :: octet)"
  by (auto simp: bit_eq_iff bit_simps)

lemma difference_zero: "length xs = length ys \<Longrightarrow> difference xs ys = 0 \<longleftrightarrow> xs = ys"
proof -
  have acc: "foldl (\<lambda>d (a, b). d OR (a XOR b)) d (zip xs ys) = 0 \<longleftrightarrow> d = 0 \<and> xs = ys" if "length xs = length ys" for d :: octet and xs ys
    using that by (induction xs ys arbitrary: d rule: list_induct2) (auto simp: or_eq_0_iff xor_zero_iff)
  assume "length xs = length ys"
  then show ?thesis by (simp add: difference_def acc)
qed

lemma verify_iff:
  "verify password hash \<longleftrightarrow> (if starts_with ''$6$'' hash then sha512_crypt password hash
     else if starts_with ''$5$'' hash then sha256_crypt password hash
     else if starts_with ''$1$'' hash then md5_crypt password hash else None) = Some hash"
proof -
  have "(length c = length hash \<and> difference (octets c) (octets hash) = 0) \<longleftrightarrow> c = hash" for c
    using difference_zero [of "octets c" "octets hash"] by auto
  then show ?thesis unfolding verify_def by (simp split: option.split)
qed

lemma sha512_crypt_spec:
  "sha512_crypt password setting = (case parse_setting ''$6$'' setting of None \<Rightarrow> None
     | Some st \<Rightarrow> if utf8_valid (st_salt st) then map_option (\<lambda>t. setting_text ''$6$'' st @ t)
         (encode_sha512 (sha_crypt_spec digest512 (octets password) (octets (st_salt st)) (st_rounds st))) else None)"
  unfolding sha512_crypt_def sha512.sha_crypt_hash_spec ..

lemma sha256_crypt_spec:
  "sha256_crypt password setting = (case parse_setting ''$5$'' setting of None \<Rightarrow> None
     | Some st \<Rightarrow> if utf8_valid (st_salt st) then map_option (\<lambda>t. setting_text ''$5$'' st @ t)
         (encode_sha256 (sha_crypt_spec digest256 (octets password) (octets (st_salt st)) (st_rounds st))) else None)"
  unfolding sha256_crypt_def sha256.sha_crypt_hash_spec ..

text \<open>
  Property C11. A hash stored for a password accepts exactly the passwords with the same digest: for a
  hash that \<open>sha512_crypt\<close> made, \<open>verify\<close> compares the SHA-512-crypt digests of the two passwords under the
  setting in it, computed over whole messages as the algorithm is documented. So the password itself is
  accepted, neither streaming nor encoding confuses two digests, and the comparison misses no byte.
\<close>
theorem verify_compares_digests:
  assumes "parse_setting ''$6$'' setting = Some st" "sha512_crypt chosen setting = Some hash"
  shows "verify password hash \<longleftrightarrow>
    sha_crypt_spec digest512 (octets password) (octets (st_salt st)) (st_rounds st)
      = sha_crypt_spec digest512 (octets chosen) (octets (st_salt st)) (st_rounds st)"
proof -
  let ?d = "\<lambda>p. sha_crypt_spec digest512 (octets p) (octets (st_salt st)) (st_rounds st)"
  obtain t where t: "encode_sha512 (?d chosen) = Some t" and h: "hash = setting_text ''$6$'' st @ t" and u: "utf8_valid (st_salt st)"
    using assms by (auto simp: sha512_crypt_spec split: if_splits)
  have p: "starts_with ''$6$'' hash" by (simp add: h starts_with_def setting_text_def strip_prefix_def)
  have "sha512_crypt password hash = map_option (\<lambda>t. setting_text ''$6$'' st @ t) (encode_sha512 (?d password))"
    using setting_round_trip [OF assms(1), of t] u by (simp add: sha512_crypt_spec h)
  then have "verify password hash \<longleftrightarrow> encode_sha512 (?d password) = encode_sha512 (?d chosen)"
    using p t by (auto simp: verify_iff h)
  also have "\<dots> \<longleftrightarrow> ?d password = ?d chosen" using encode_sha512_inj [of "?d password" "?d chosen"]
    by (auto simp: sha512.sha_crypt_spec_length)
  finally show ?thesis .
qed

theorem verify_compares_digests_witness:
  "\<exists>hash. sha512_crypt ''toor'' ''$6$rinit$'' = Some hash \<and> verify ''toor'' hash"
proof -
  have p: "parse_setting ''$6$'' ''$6$rinit$'' = Some \<lparr>st_explicit = False, st_rounds = 5000, st_salt = ''rinit''\<rparr>" by code_simp
  have "utf8_valid ''rinit''" by code_simp
  then obtain hash where h: "sha512_crypt ''toor'' ''$6$rinit$'' = Some hash"
    unfolding sha512_crypt_spec p by (simp add: encode_sha512_groups del: utf8_valid.simps)
  from verify_compares_digests [OF p h] h show ?thesis by blast
qed

text \<open>The same for SHA-256, and what the MD5 format computes.\<close>

lemma verify_compares_digests256:
  assumes "parse_setting ''$5$'' setting = Some st" "sha256_crypt chosen setting = Some hash"
  shows "verify password hash \<longleftrightarrow>
    sha_crypt_spec digest256 (octets password) (octets (st_salt st)) (st_rounds st)
      = sha_crypt_spec digest256 (octets chosen) (octets (st_salt st)) (st_rounds st)"
proof -
  let ?d = "\<lambda>p. sha_crypt_spec digest256 (octets p) (octets (st_salt st)) (st_rounds st)"
  obtain t where t: "encode_sha256 (?d chosen) = Some t" and h: "hash = setting_text ''$5$'' st @ t" and u: "utf8_valid (st_salt st)"
    using assms by (auto simp: sha256_crypt_spec split: if_splits)
  have p: "starts_with ''$5$'' hash" "\<not> starts_with ''$6$'' hash"
    by (simp_all add: h starts_with_def setting_text_def strip_prefix_def)
  have "sha256_crypt password hash = map_option (\<lambda>t. setting_text ''$5$'' st @ t) (encode_sha256 (?d password))"
    using setting_round_trip [OF assms(1), of t] u by (simp add: sha256_crypt_spec h)
  then have "verify password hash \<longleftrightarrow> encode_sha256 (?d password) = encode_sha256 (?d chosen)"
    using p t by (auto simp: verify_iff h)
  also have "\<dots> \<longleftrightarrow> ?d password = ?d chosen" using encode_sha256_inj [of "?d password" "?d chosen"]
    by (auto simp: sha256.sha_crypt_spec_length)
  finally show ?thesis .
qed

lemma md5_crypt_spec:
  "strip_prefix ''$1$'' setting = Some rest \<Longrightarrow> is_char_boundary rest (min (length (upto_dollar rest)) 8) \<Longrightarrow>
   md5_crypt password setting = Some (''$1$'' @ take 8 (upto_dollar rest) @ ''$''
     @ encode_md5 (md5_crypt_spec (octets password) (octets (take 8 (upto_dollar rest)))))"
proof -
  have "take (min (length (upto_dollar rest)) 8) rest = take 8 (upto_dollar rest)"
    by (metis min.commute takeWhile_eq_take take_take upto_dollar_def)
  then show "strip_prefix ''$1$'' setting = Some rest \<Longrightarrow> is_char_boundary rest (min (length (upto_dollar rest)) 8) \<Longrightarrow>
    ?thesis" by (simp add: md5_crypt_def Let_def md5_crypt_hash_spec)
qed

end
