(* ===== verification/Login.thy ===== *)
theory Login
  imports Sha_Crypt
begin

text \<open>
  \<open>rlogin\<close> (\<open>rinit-tools/src/bin/rlogin/main.rs\<close>): who may log in, and as whom the shell runs. The record
  \<open>LoginOs\<close> answers for the terminal, the files of \<open>/etc\<close> and the kernel; each answer may depend on
  everything done before. A run takes the arguments and returns its exit status or the shell it became.
\<close>

section \<open>The user databases\<close>

record LoginUser =
  lu_name :: string
  lu_uid :: nat
  lu_gid :: nat
  lu_home :: string
  lu_shell :: string
  lu_password :: string

definition or_default :: "string \<Rightarrow> string \<Rightarrow> string" where
  "or_default d s = (if s = [] then d else s)"

fun field_or :: "string \<Rightarrow> nat \<Rightarrow> string list \<Rightarrow> string" where
  "field_or d n fs = (if n < length fs then fs ! n else d)"

definition passwd_user :: "string \<Rightarrow> string \<Rightarrow> LoginUser option" where
  "passwd_user name line =
     (case split_char (CHR '':'') line of
        f # password # u # g # tail \<Rightarrow>
          if f \<noteq> name then None
          else (case (parse_uint u32_max u, parse_uint u32_max g) of
                  (Some uid, Some gid) \<Rightarrow> Some \<lparr>lu_name = f, lu_uid = uid, lu_gid = gid,
                    lu_home = or_default ''/'' (field_or ''/'' 1 tail),
                    lu_shell = or_default ''/bin/sh'' (field_or ''/bin/sh'' 2 tail), lu_password = password\<rparr>
                | _ \<Rightarrow> None)
      | _ \<Rightarrow> None)"

fun first_some :: "('a \<Rightarrow> 'b option) \<Rightarrow> 'a list \<Rightarrow> 'b option" where
  "first_some f [] = None"
| "first_some f (x # xs) = (case f x of Some y \<Rightarrow> Some y | None \<Rightarrow> first_some f xs)"

definition parse_passwd :: "string \<Rightarrow> string \<Rightarrow> LoginUser option" where
  "parse_passwd t name = first_some (passwd_user name) (str_lines t)"

definition shadow_fields :: "string \<Rightarrow> string \<Rightarrow> string list option" where
  "shadow_fields t name = first_some
     (\<lambda>line. let fs = split_char (CHR '':'') line in if hd fs = name then Some fs else None) (str_lines t)"

definition parse_shadow_hash :: "string \<Rightarrow> string \<Rightarrow> string option" where
  "parse_shadow_hash t name = (case shadow_fields t name of
      None \<Rightarrow> None | Some fs \<Rightarrow> if 1 < length fs then Some (fs ! 1) else None)"

text \<open>A date field: absent or empty is \<open>None\<close>; one that is not a number is an error.\<close>

definition date_field :: "string list \<Rightarrow> nat \<Rightarrow> (unit + nat option)" where
  "date_field fs i = (if i < length fs \<and> fs ! i \<noteq> []
     then (case parse_uint u64_max (fs ! i) of None \<Rightarrow> Inl () | Some n \<Rightarrow> Inr (Some n)) else Inr None)"

definition too_old :: "nat option \<Rightarrow> nat option \<Rightarrow> nat \<Rightarrow> bool" where
  "too_old changed max_age today = (case (changed, max_age) of
      (Some c, Some m) \<Rightarrow> 0 < m \<and> sat_add u64_max c m \<le> today | _ \<Rightarrow> False)"

definition shadow_login_denied :: "string \<Rightarrow> string \<Rightarrow> nat \<Rightarrow> bool" where
  "shadow_login_denied t name today = (case shadow_fields t name of
      None \<Rightarrow> False
    | Some fs \<Rightarrow>
        (case date_field fs 2 of
           Inl _ \<Rightarrow> True
         | Inr changed \<Rightarrow>
             (case date_field fs 4 of
                Inl _ \<Rightarrow> True
              | Inr max_age \<Rightarrow>
                  if too_old changed max_age today then True
                  else (case date_field fs 7 of
                          Inl _ \<Rightarrow> True | Inr None \<Rightarrow> False | Inr (Some expire) \<Rightarrow> expire \<le> today))))"

definition password_hash_from :: "string \<Rightarrow> string option \<Rightarrow> string \<Rightarrow> string option" where
  "password_hash_from field shadow name =
     (if field \<noteq> ''x'' \<and> field \<noteq> [] then Some field
      else case shadow of None \<Rightarrow> None | Some t \<Rightarrow> parse_shadow_hash t name)"

definition locked :: "string \<Rightarrow> bool" where
  "locked hash \<longleftrightarrow> starts_with ''!'' hash \<or> starts_with ''*'' hash"

definition verify_hash :: "string \<Rightarrow> string \<Rightarrow> bool" where
  "verify_hash password hash =
     (if hash = [] then True
      else if locked hash then False
      else if \<not> (starts_with ''$6$'' hash \<or> starts_with ''$5$'' hash \<or> starts_with ''$1$'' hash) then False
      else verify password hash)"

section \<open>The system\<close>

datatype LoginCall =
  LReadFile string | LToday | LPrompt string | LReadLine | LEchoOff | LEchoOn | LTtyName
| LIncorrect | LSleep nat | LPrint string | LUtmp string | LIgnoreSignals | LDefaultSignals
| LFchown nat nat | LFchmod nat | LInitgroups string nat | LSetgid nat | LSetuid nat | LGetIds | LUmask nat
| LIsDir string | LExec string string string "(string \<times> string) list" bool

type_synonym login_trace = "LoginCall list"

record LoginOs =
  lo_file :: "login_trace \<Rightarrow> string \<Rightarrow> string option"
  lo_today :: "login_trace \<Rightarrow> nat"
  lo_line :: "login_trace \<Rightarrow> string option"
  lo_is_tty :: "login_trace \<Rightarrow> bool"
  lo_tty_name :: "login_trace \<Rightarrow> string option"
  lo_euid :: "login_trace \<Rightarrow> nat"
  lo_call :: "login_trace \<Rightarrow> LoginCall \<Rightarrow> bool"
  lo_ids :: "login_trace \<Rightarrow> nat \<times> nat \<times> nat \<times> nat"
  lo_is_dir :: "login_trace \<Rightarrow> string \<Rightarrow> bool"
  lo_term :: "string option"

definition read_raw_line :: "LoginOs \<Rightarrow> login_trace \<Rightarrow> string option \<times> login_trace" where
  "read_raw_line L tr =
     (map_option (\<lambda>t. rev (dropWhile (\<lambda>c. c = CHR 0x0A \<or> c = CHR 0x0D) (rev t))) (lo_line L tr), LReadLine # tr)"

text \<open>The prompt is written and flushed first; when the flush fails nothing is read.\<close>

definition read_line :: "LoginOs \<Rightarrow> string \<Rightarrow> login_trace \<Rightarrow> string option \<times> login_trace" where
  "read_line L prompt tr =
     (if \<not> lo_call L tr (LPrompt prompt) then (None, LPrompt prompt # tr)
      else read_raw_line L (LPrompt prompt # tr))"

text \<open>The echo is off while the password is typed and on again afterwards, whatever the read returns.\<close>

definition read_password :: "LoginOs \<Rightarrow> string \<Rightarrow> login_trace \<Rightarrow> string option \<times> login_trace" where
  "read_password L prompt tr =
     (if \<not> lo_call L tr (LPrompt prompt) then (None, LPrompt prompt # tr)
      else
        let tr1 = LPrompt prompt # tr; hidden = lo_is_tty L tr1;
            (r, tr2) = read_raw_line L (if hidden then LEchoOff # tr1 else tr1)
        in (r, if hidden then LEchoOn # tr2 else tr2))"

definition password_hash :: "LoginOs \<Rightarrow> LoginUser \<Rightarrow> login_trace \<Rightarrow> string option \<times> login_trace" where
  "password_hash L user tr =
     (let shadow = lo_file L tr ''/etc/shadow''; tr1 = LReadFile ''/etc/shadow'' # tr
      in case shadow of
           None \<Rightarrow> (password_hash_from (lu_password user) None (lu_name user), tr1)
         | Some t \<Rightarrow>
             if shadow_login_denied t (lu_name user) (lo_today L tr1) then (None, LToday # tr1)
             else (password_hash_from (lu_password user) (Some t) (lu_name user), LToday # tr1))"

text \<open>\<open>None\<close> is a failed read of the terminal.\<close>

definition authenticate :: "LoginOs \<Rightarrow> LoginUser \<Rightarrow> bool \<Rightarrow> login_trace \<Rightarrow> bool option \<times> login_trace" where
  "authenticate L user force tr =
     (if force then (Some (lo_euid L tr = 0), tr)
      else case password_hash L user tr of
             (None, tr1) \<Rightarrow> (Some False, tr1)
           | (Some hash, tr1) \<Rightarrow>
               if hash = [] then (Some True, tr1)
               else if locked hash then (Some False, tr1)
               else (case read_password L ''Password: '' tr1 of
                       (None, tr2) \<Rightarrow> (None, tr2)
                     | (Some password, tr2) \<Rightarrow> (Some (verify_hash password hash), tr2)))"

definition short_tty :: "string \<Rightarrow> string" where
  "short_tty name = (case strip_prefix ''/dev/'' name of None \<Rightarrow> name | Some t \<Rightarrow> t)"

fun securetty_lines :: "string \<Rightarrow> bool \<Rightarrow> string list \<Rightarrow> bool" where
  "securetty_lines short listed [] = (\<not> listed)"
| "securetty_lines short listed (l # ls) =
     (let line = trim (hd (split_char (CHR ''#'') l))
      in if line = [] then securetty_lines short listed ls
         else if line = short \<or> line = ''/dev/'' @ short then True
         else securetty_lines short True ls)"

definition securetty_allows :: "string \<Rightarrow> string option \<Rightarrow> bool" where
  "securetty_allows short t = (case t of None \<Rightarrow> True | Some s \<Rightarrow> securetty_lines short False (str_lines s))"

definition secure_tty :: "LoginOs \<Rightarrow> login_trace \<Rightarrow> bool \<times> login_trace" where
  "secure_tty L tr = (case lo_tty_name L tr of
      None \<Rightarrow> (True, LTtyName # tr)
    | Some name \<Rightarrow>
        (securetty_allows (short_tty name) (lo_file L (LTtyName # tr) ''/etc/securetty''),
         LReadFile ''/etc/securetty'' # LTtyName # tr))"

definition nologin_text :: "LoginUser \<Rightarrow> string option \<Rightarrow> bool" where
  "nologin_text user t \<longleftrightarrow> lu_uid user \<noteq> 0 \<and> t \<noteq> None"

definition nologin :: "LoginOs \<Rightarrow> LoginUser \<Rightarrow> login_trace \<Rightarrow> bool \<times> login_trace" where
  "nologin L user tr =
     (let t = lo_file L tr ''/etc/nologin''; tr1 = LReadFile ''/etc/nologin'' # tr
      in if nologin_text user t
         then (True, LPrint (or_default ''System closed for routine maintenance'' (the t)) # tr1)
         else (False, tr1))"

section \<open>Becoming the user\<close>

text \<open>Calls in order; the first one that must succeed and does not ends the login.\<close>

fun must_all :: "LoginOs \<Rightarrow> (LoginCall \<times> bool) list \<Rightarrow> login_trace \<Rightarrow> bool \<times> login_trace" where
  "must_all L [] tr = (True, tr)"
| "must_all L ((c, must) # cs) tr =
     (if must \<and> \<not> lo_call L tr c then (False, c # tr) else must_all L cs (c # tr))"

definition change_identity :: "LoginOs \<Rightarrow> LoginUser \<Rightarrow> login_trace \<Rightarrow> bool \<times> login_trace" where
  "change_identity L user tr =
     (if CHR 0x00 \<in> set (lu_name user) then (False, tr)
      else case must_all L
          [(LFchown (lu_uid user) (lu_gid user), True), (LFchmod 0x180, True),
           (LInitgroups (lu_name user) (lu_gid user), lu_uid user \<noteq> 0),
           (LSetgid (lu_gid user), True), (LSetuid (lu_uid user), True)] tr of
             (False, tr1) \<Rightarrow> (False, tr1)
           | (True, tr1) \<Rightarrow>
               (case lo_ids L tr1 of
                  (uid, euid, gid, egid) \<Rightarrow>
                    if uid \<noteq> lu_uid user \<or> euid \<noteq> lu_uid user \<or> gid \<noteq> lu_gid user \<or> egid \<noteq> lu_gid user
                    then (False, LGetIds # tr1)
                    else (True, LUmask 0x12 # LGetIds # tr1)))"

definition shell_home :: "LoginOs \<Rightarrow> LoginUser \<Rightarrow> login_trace \<Rightarrow> string" where
  "shell_home L user tr = (if lo_is_dir L tr (lu_home user) then lu_home user else ''/'')"

definition shell_environment :: "LoginUser \<Rightarrow> string \<Rightarrow> bool \<Rightarrow> string option \<Rightarrow> string option \<Rightarrow> (string \<times> string) list" where
  "shell_environment user home preserve host trm =
     (case trm of Some t \<Rightarrow> if preserve then [] else [(''TERM'', t)] | None \<Rightarrow> [])
     @ [(''HOME'', home), (''SHELL'', or_default ''/bin/sh'' (lu_shell user)), (''USER'', lu_name user),
        (''LOGNAME'', lu_name user),
        (''PATH'', ''/usr/local/sbin:/usr/local/bin:/usr/sbin:/usr/bin:/sbin:/bin'')]
     @ (case host of Some h \<Rightarrow> [(''REMOTE'', h)] | None \<Rightarrow> [])"

text \<open>The last component of a path, \<open>sh\<close> when there is none.\<close>

definition file_name_or_sh :: "string \<Rightarrow> string" where
  "file_name_or_sh p =
     (let parts = filter (\<lambda>c. c \<noteq> [] \<and> c \<noteq> ''.'') (split_char (CHR ''/'') p)
      in if parts = [] \<or> last parts = ''..'' then ''sh'' else last parts)"

definition start_shell :: "LoginOs \<Rightarrow> LoginUser \<Rightarrow> bool \<Rightarrow> string option \<Rightarrow> login_trace \<Rightarrow> bool \<times> login_trace" where
  "start_shell L user preserve host tr =
     (let shell = or_default ''/bin/sh'' (lu_shell user);
          dir = shell_home L user tr; tr1 = LIsDir (lu_home user) # tr;
          env = shell_environment user (shell_home L user tr1) preserve host (lo_term L);
          tr2 = LIsDir (lu_home user) # tr1;
          c = LExec shell (''-'' @ file_name_or_sh shell) dir env (\<not> preserve)
      in (lo_call L tr2 c, c # tr2))"

section \<open>Arguments\<close>

record Arguments =
  la_username :: string
  la_host :: "string option"
  la_preserve :: bool
  la_force_user :: "string option"

fun login_args :: "Arguments \<Rightarrow> bool \<Rightarrow> string list \<Rightarrow> string + Arguments" where
  "login_args a opts [] = Inr a"
| "login_args a opts (x # xs) =
     (if opts \<and> x = ''--'' then login_args a False xs
      else if opts \<and> x = ''-p'' then login_args (a\<lparr>la_preserve := True\<rparr>) opts xs
      else if opts \<and> x = ''-f'' then
        (case xs of [] \<Rightarrow> Inl ''-f needs a user''
         | v # ys \<Rightarrow> login_args (a\<lparr>la_username := v, la_force_user := Some v\<rparr>) opts ys)
      else if opts \<and> x = ''-h'' then
        (case xs of [] \<Rightarrow> Inl ''-h needs a host'' | v # ys \<Rightarrow> login_args (a\<lparr>la_host := Some v\<rparr>) opts ys)
      else if opts \<and> starts_with ''-'' x then Inl (''unknown option '' @ [CHR 0x27] @ x @ [CHR 0x27])
      else if la_username a \<noteq> [] then Inl ''too many arguments''
      else login_args (a\<lparr>la_username := x\<rparr>) False xs)"

definition login_parse_args :: "string list \<Rightarrow> string + Arguments" where
  "login_parse_args args =
     login_args \<lparr>la_username = [], la_host = None, la_preserve = False, la_force_user = None\<rparr> True args"

section \<open>The login loop\<close>

datatype LoginEnd = LoginExit nat | LoginShell LoginUser

text \<open>One attempt for a name: \<open>None\<close> when the terminal fails.\<close>

definition attempt_login :: "LoginOs \<Rightarrow> string \<Rightarrow> string option \<Rightarrow> string \<Rightarrow> login_trace \<Rightarrow> LoginUser option option \<times> login_trace" where
  "attempt_login L passwd force_user name tr =
     (case parse_passwd passwd name of
        None \<Rightarrow> (Some None, snd (read_password L ''Password: '' tr))
      | Some user \<Rightarrow>
          let (allowed, tr1) = (if lu_uid user = 0 then secure_tty L tr else (True, tr))
          in if \<not> allowed then (Some None, tr1)
             else (case authenticate L user (force_user = Some name) tr1 of
                     (None, tr2) \<Rightarrow> (None, tr2)
                   | (Some ok, tr2) \<Rightarrow> (Some (if ok then Some user else None), tr2)))"

text \<open>\<open>left\<close> counts the failures that are still allowed, three at the start.\<close>

fun login_loop :: "LoginOs \<Rightarrow> string \<Rightarrow> string option \<Rightarrow> nat \<Rightarrow> string \<Rightarrow> login_trace \<Rightarrow> LoginUser option \<times> login_trace" where
  "login_loop L passwd force_user 0 name tr = (None, tr)"
| "login_loop L passwd force_user (Suc left) name tr =
     (case (if name = [] then read_line L ''login: '' tr else (Some name, tr)) of
        (None, tr1) \<Rightarrow> (None, tr1)
      | (Some name1, tr1) \<Rightarrow>
          if name1 = [] then login_loop L passwd force_user left [] tr1
          else (case attempt_login L passwd force_user name1 tr1 of
                  (None, tr2) \<Rightarrow> (None, tr2)
                | (Some (Some user), tr2) \<Rightarrow> (Some user, tr2)
                | (Some None, tr2) \<Rightarrow> login_loop L passwd force_user left [] (LSleep 2 # LIncorrect # tr2)))"

definition login_run :: "LoginOs \<Rightarrow> string list \<Rightarrow> LoginEnd \<times> login_trace" where
  "login_run L args =
     (if ''--help'' \<in> set args then (LoginExit 0, [])
      else case login_parse_args args of
             Inl e \<Rightarrow> (LoginExit 2, [])
           | Inr a \<Rightarrow>
               (case lo_file L [LIgnoreSignals] ''/etc/passwd'' of
                  None \<Rightarrow> (LoginExit 1, [LReadFile ''/etc/passwd'', LIgnoreSignals])
                | Some passwd \<Rightarrow>
                    (case login_loop L passwd (la_force_user a) 3 (la_username a)
                        [LReadFile ''/etc/passwd'', LIgnoreSignals] of
                       (None, tr1) \<Rightarrow> (LoginExit 1, tr1)
                     | (Some user, tr1) \<Rightarrow>
                         let (closed, tr2) = nologin L user tr1
                         in if closed then (LoginExit 1, tr2)
                            else
                              let tr3 = (if lo_tty_name L tr2 = None then LTtyName # tr2 else LUtmp (lu_name user) # LTtyName # tr2);
                                  (ok, tr4) = change_identity L user tr3
                              in if \<not> ok then (LoginExit 1, tr4)
                                 else
                                   let (started, tr5) =
                                     start_shell L user (la_preserve a) (la_host a) (LDefaultSignals # tr4)
                                   in (if started then LoginShell user else LoginExit 1, tr5))))"

end
