(* ===== verification/Login_Props.thy ===== *)
theory Login_Props
  imports Login "HOL-Library.Sublist"
begin

text \<open>
  A shell is started only for a user of the database who is entitled to it, with that user's ids; and
  a run asks for at most three passwords.
\<close>

section \<open>Attempts\<close>

text \<open>What makes a login legitimate at a moment of the run: forced by the superuser, or a hash from a
  record that is not expired, which is empty or answered by a password read from the terminal.\<close>

definition entitled :: "LoginOs \<Rightarrow> string option \<Rightarrow> LoginUser \<Rightarrow> login_trace \<Rightarrow> bool" where
  "entitled L force_user user tr \<longleftrightarrow>
     force_user = Some (lu_name user) \<and> lo_euid L tr = 0
   \<or> (\<exists>hash t1. password_hash L user tr = (Some hash, t1)
        \<and> (\<forall>t. lo_file L tr ''/etc/shadow'' = Some t \<longrightarrow>
             \<not> shadow_login_denied t (lu_name user) (lo_today L (LReadFile ''/etc/shadow'' # tr)))
        \<and> (hash = [] \<or> \<not> locked hash
             \<and> (\<exists>pw t2. read_password L ''Password: '' t1 = (Some pw, t2) \<and> verify pw hash)))"

lemma parse_passwd_name: "parse_passwd t name = Some user \<Longrightarrow> lu_name user = name"
proof -
  have "first_some (passwd_user name) ls = Some user \<Longrightarrow> lu_name user = name" for ls
    by (induction ls) (auto simp: passwd_user_def split: option.splits list.splits if_splits)
  then show "parse_passwd t name = Some user \<Longrightarrow> lu_name user = name" by (simp add: parse_passwd_def)
qed

lemma authenticate_entitled:
  assumes "authenticate L user (force_user = Some (lu_name user)) tr = (Some True, tr')"
  shows "entitled L force_user user tr"
proof (cases "force_user = Some (lu_name user)")
  case True
  with assms show ?thesis by (auto simp: authenticate_def entitled_def)
next
  case False
  obtain h t1 where h: "password_hash L user tr = (h, t1)" by fastforce
  with assms False obtain hash where hash: "h = Some hash" by (cases h) (auto simp: authenticate_def)
  have d: "\<not> shadow_login_denied t (lu_name user) (lo_today L (LReadFile ''/etc/shadow'' # tr))"
    if "lo_file L tr ''/etc/shadow'' = Some t" for t using h hash that by (auto simp: password_hash_def Let_def split: if_splits)
  have "hash = [] \<or> \<not> locked hash \<and> (\<exists>pw t2. read_password L ''Password: '' t1 = (Some pw, t2) \<and> verify pw hash)"
    using assms False h hash by (auto simp: authenticate_def verify_hash_def split: if_splits prod.splits option.splits)
  with h hash d show ?thesis unfolding entitled_def by blast
qed

lemma attempt_login_ok:
  assumes "attempt_login L passwd force_user name tr = (Some (Some user), tr')"
  shows "\<exists>t0. parse_passwd passwd (lu_name user) = Some user \<and> entitled L force_user user t0
    \<and> (lu_uid user = 0 \<longrightarrow> fst (secure_tty L tr))"
proof -
  from assms obtain u where u: "parse_passwd passwd name = Some u"
    by (auto simp: attempt_login_def Let_def split: option.splits)
  let ?p = "if lu_uid u = 0 then secure_tty L tr else (True, tr)"
  have a: "fst ?p" using assms u by (auto simp: attempt_login_def Let_def split: prod.splits if_splits)
  from assms u a have "user = u" "\<exists>t. authenticate L u (force_user = Some name) (snd ?p) = (Some True, t)"
    by (auto simp: attempt_login_def Let_def split: prod.splits option.splits if_splits)
  with u a parse_passwd_name [OF u] authenticate_entitled show ?thesis by (auto split: if_splits) blast+
qed

lemma login_loop_ok:
  assumes "login_loop L passwd force_user left name tr = (Some user, tr')"
  shows "\<exists>t0 t1. parse_passwd passwd (lu_name user) = Some user \<and> entitled L force_user user t0
    \<and> (lu_uid user = 0 \<longrightarrow> fst (secure_tty L t1))"
  using assms
proof (induction L passwd force_user left name tr rule: login_loop.induct)
  case (2 L passwd force_user left name tr)
  obtain n1 tr1 where n: "(if name = [] then read_line L ''login: '' tr else (Some name, tr)) = (n1, tr1)" by fastforce
  with 2(3) obtain name1 where n1: "n1 = Some name1" by (cases n1) auto
  show ?case
  proof (cases "name1 = []")
    case True
    with 2(1) [OF n [symmetric] n1] 2(3) n n1 show ?thesis by simp
  next
    case False
    obtain r tr2 where r: "attempt_login L passwd force_user name1 tr1 = (r, tr2)" by fastforce
    from 2(3) n n1 False r consider "r = Some (Some user)"
      | "r = Some None" "login_loop L passwd force_user left [] (LSleep 2 # LIncorrect # tr2) = (Some user, tr')"
      by (auto split: option.splits)
    then show ?thesis
    proof cases
      case 1
      with attempt_login_ok r show ?thesis by blast
    next
      case 2
      then show ?thesis using "2.IH"(2) [OF n [symmetric] n1 False r [symmetric]] by simp
    qed
  qed
qed simp

section \<open>Becoming the user\<close>

lemma must_all_ok: "must_all L cs tr = (True, tr') \<Longrightarrow> tr' = List.rev (map fst cs) @ tr"
proof (induction cs arbitrary: tr)
  case (Cons x cs)
  then show ?case by (cases x) (auto split: if_splits)
qed simp

lemma change_identity_ok:
  assumes "change_identity L user tr = (True, tr')"
  shows "\<exists>t. lo_ids L t = (lu_uid user, lu_uid user, lu_gid user, lu_gid user)
    \<and> tr' = [LUmask 0x12, LGetIds, LSetuid (lu_uid user), LSetgid (lu_gid user), LInitgroups (lu_name user) (lu_gid user),
        LFchmod 0x180, LFchown (lu_uid user) (lu_gid user)] @ tr"
proof -
  define cs where "cs = [(LFchown (lu_uid user) (lu_gid user), True), (LFchmod 0x180, True),
    (LInitgroups (lu_name user) (lu_gid user), lu_uid user \<noteq> 0), (LSetgid (lu_gid user), True), (LSetuid (lu_uid user), True)]"
  obtain ok t where m: "must_all L cs tr = (ok, t)" by fastforce
  from assms m have ok: "ok" by (auto simp: change_identity_def cs_def split: if_splits bool.splits)
  then have t: "t = List.rev (map fst cs) @ tr" using m must_all_ok [of L cs tr t] by simp
  from assms m ok have "lo_ids L t = (lu_uid user, lu_uid user, lu_gid user, lu_gid user)" "tr' = LUmask 0x12 # LGetIds # t"
    unfolding change_identity_def cs_def [symmetric] by (auto split: if_splits prod.splits)
  with t show ?thesis by (auto simp: cs_def)
qed

text \<open>
  Property C10. \<open>rlogin\<close> starts a shell only for someone entitled to it. Whenever a run ends in a shell,
  the user is an entry of the password file; the login was forced by the superuser, or a hash from an
  account that is not expired was empty or not locked and matched by a password read from the terminal;
  root came from a terminal that is allowed; another user was not shut out by \<open>/etc/nologin\<close>; the
  groups, the group and the user were changed in this order, the kernel reports the ids of the user, and
  executing the shell is the last thing done.
\<close>
theorem shell_only_for_entitled:
  assumes "login_run L args = (LoginShell user, tr)"
  shows "\<exists>a passwd t0 t1 t2 t3 shell arg0 dir env clear rest.
      login_parse_args args = Inr a \<and> lo_file L [LIgnoreSignals] ''/etc/passwd'' = Some passwd
    \<and> parse_passwd passwd (lu_name user) = Some user \<and> entitled L (la_force_user a) user t0
    \<and> (lu_uid user = 0 \<longrightarrow> fst (secure_tty L t1)) \<and> (lu_uid user \<noteq> 0 \<longrightarrow> lo_file L t2 ''/etc/nologin'' = None)
    \<and> lo_ids L t3 = (lu_uid user, lu_uid user, lu_gid user, lu_gid user)
    \<and> tr = [LExec shell arg0 dir env clear, LIsDir (lu_home user), LIsDir (lu_home user), LDefaultSignals, LUmask 0x12, LGetIds,
        LSetuid (lu_uid user), LSetgid (lu_gid user), LInitgroups (lu_name user) (lu_gid user)] @ rest"
proof -
  from assms obtain a where a: "login_parse_args args = Inr a" by (auto simp: login_run_def split: if_splits sum.splits)
  with assms obtain passwd where p: "lo_file L [LIgnoreSignals] ''/etc/passwd'' = Some passwd"
    by (auto simp: login_run_def split: if_splits option.splits)
  obtain r tr1 where l: "login_loop L passwd (la_force_user a) 3 (la_username a) [LReadFile ''/etc/passwd'', LIgnoreSignals] = (r, tr1)"
    by fastforce
  from assms a p l obtain u where u: "r = Some u" by (cases r) (auto simp: login_run_def split: if_splits)
  obtain closed tr2 where n: "nologin L u tr1 = (closed, tr2)" by fastforce
  define tr3 where "tr3 = (if lo_tty_name L tr2 = None then LTtyName # tr2 else LUtmp (lu_name u) # LTtyName # tr2)"
  obtain ok tr4 where i: "change_identity L u tr3 = (ok, tr4)" by fastforce
  obtain st tr5 where s: "start_shell L u (la_preserve a) (la_host a) (LDefaultSignals # tr4) = (st, tr5)" by fastforce
  from assms a p l u n i s have e: "\<not> closed" "ok" "user = u" "tr = tr5"
    by (auto simp: login_run_def tr3_def Let_def split: if_splits)
  from login_loop_ok [OF l [unfolded u]] obtain t0 t1 where
    lo: "parse_passwd passwd (lu_name u) = Some u" "entitled L (la_force_user a) u t0" "lu_uid u = 0 \<longrightarrow> fst (secure_tty L t1)" by (elim exE conjE) metis
  have nl: "lu_uid u \<noteq> 0 \<longrightarrow> lo_file L tr1 ''/etc/nologin'' = None"
    using n e(1) by (auto simp: nologin_def nologin_text_def Let_def split: if_splits)
  from change_identity_ok [OF i [unfolded e(2)[THEN eqTrueI]]] obtain t3 where
    ci: "lo_ids L t3 = (lu_uid u, lu_uid u, lu_gid u, lu_gid u)" and
    tr4: "tr4 = [LUmask 0x12, LGetIds, LSetuid (lu_uid u), LSetgid (lu_gid u), LInitgroups (lu_name u) (lu_gid u),
        LFchmod 0x180, LFchown (lu_uid u) (lu_gid u)] @ tr3" by blast
  obtain shell arg0 dir env clear where "tr5 = [LExec shell arg0 dir env clear, LIsDir (lu_home u), LIsDir (lu_home u), LDefaultSignals] @ tr4"
    using s by (auto simp: start_shell_def Let_def)
  with tr4 have "tr5 = [LExec shell arg0 dir env clear, LIsDir (lu_home u), LIsDir (lu_home u), LDefaultSignals, LUmask 0x12, LGetIds,
        LSetuid (lu_uid u), LSetgid (lu_gid u), LInitgroups (lu_name u) (lu_gid u)] @ ([LFchmod 0x180, LFchown (lu_uid u) (lu_gid u)] @ tr3)"
    by simp
  with a p lo nl ci e(3,4) show ?thesis by metis
qed

definition sample_login :: LoginOs where
  "sample_login = \<lparr>lo_file = (\<lambda>tr p. if p = ''/etc/passwd'' then Some ''ann::7:5::/:/sh''
       else if p = ''/etc/shadow'' then Some ''ann:'' else None),
     lo_today = (\<lambda>tr. 9), lo_line = (\<lambda>tr. None), lo_is_tty = (\<lambda>tr. True), lo_tty_name = (\<lambda>tr. None),
     lo_euid = (\<lambda>tr. 0), lo_call = (\<lambda>tr c. True), lo_ids = (\<lambda>tr. (7, 7, 5, 5)), lo_is_dir = (\<lambda>tr d. True), lo_term = None\<rparr>"

definition sample_user :: LoginUser where
  "sample_user = \<lparr>lu_name = ''ann'', lu_uid = 7, lu_gid = 5, lu_home = ''/'', lu_shell = ''/sh'', lu_password = []\<rparr>"

lemma sample_parses:
  "parse_passwd ''ann::7:5::/:/sh'' ''ann'' = Some sample_user"
  "shadow_login_denied ''ann:'' ''ann'' 9 = False" "password_hash_from [] (Some ''ann:'') ''ann'' = Some []"
proof -
  have n: "parse_uint u32_max ''7'' = Some 7" "parse_uint u32_max ''5'' = Some 5"
    by (simp_all add: parse_uint_def dec_value_def u32_max_value byte_def is_ascii_digit_def)
  have l: "str_lines ''ann::7:5::/:/sh'' = [''ann::7:5::/:/sh'']" "str_lines ''ann:'' = [''ann:'']"
    "split_char (CHR '':'') ''ann::7:5::/:/sh'' = [''ann'', [], ''7'', ''5'', [], ''/'', ''/sh'']"
    "split_char (CHR '':'') ''ann:'' = [''ann'', []]" by code_simp+
  show "parse_passwd ''ann::7:5::/:/sh'' ''ann'' = Some sample_user"
    by (simp add: parse_passwd_def l passwd_user_def n sample_user_def or_default_def)
  show "shadow_login_denied ''ann:'' ''ann'' 9 = False" "password_hash_from [] (Some ''ann:'') ''ann'' = Some []"
    by (simp_all add: shadow_login_denied_def shadow_fields_def l date_field_def too_old_def password_hash_from_def parse_shadow_hash_def)
qed

theorem shell_only_for_entitled_witness:
  "\<exists>t0. fst (login_run sample_login [''ann'']) = LoginShell sample_user \<and> entitled sample_login None sample_user t0"
proof -
  let ?r = "login_run sample_login [''ann'']"
  have a: "login_parse_args [''ann''] = Inr \<lparr>la_username = ''ann'', la_host = None, la_preserve = False, la_force_user = None\<rparr>" by code_simp
  have "fst ?r = LoginShell sample_user"
    by (simp add: login_run_def a sample_login_def attempt_login_def sample_parses numeral_3_eq_3 authenticate_def password_hash_def)
      (simp add: sample_user_def sample_parses nologin_def nologin_text_def change_identity_def start_shell_def Let_def)
  then have r: "?r = (LoginShell sample_user, snd ?r)" by (metis prod.collapse)
  from shell_only_for_entitled [OF r] a show ?thesis using r by (metis Arguments.select_convs(4) Inr_inject fst_conv)
qed

section \<open>The number of attempts\<close>

abbreviation prompts :: "login_trace \<Rightarrow> nat" where
  "prompts tr \<equiv> count_list tr LReadLine"

definition tidy_tty :: "login_trace \<Rightarrow> bool" where
  "tidy_tty tr \<longleftrightarrow> count_list tr LEchoOff = count_list tr LEchoOn \<and> count_list tr (LSleep 2) = count_list tr LIncorrect"

lemma read_password_counts:
  assumes "read_password L p tr = (r, tr')" "tidy_tty tr"
  shows "tidy_tty tr' \<and> prompts tr' \<le> prompts tr + 1 \<and> count_list tr' LIncorrect = count_list tr LIncorrect"
  using assms by (auto simp: read_password_def read_raw_line_def tidy_tty_def Let_def split: if_splits)

lemma password_hash_counts:
  assumes "password_hash L user tr = (r, tr')" "tidy_tty tr"
  shows "tidy_tty tr' \<and> prompts tr' = prompts tr \<and> count_list tr' LIncorrect = count_list tr LIncorrect"
  using assms by (auto simp: password_hash_def tidy_tty_def Let_def split: option.splits if_splits)

lemma authenticate_counts:
  assumes "authenticate L user force tr = (r, tr')" "tidy_tty tr"
  shows "tidy_tty tr' \<and> prompts tr' \<le> prompts tr + 1 \<and> count_list tr' LIncorrect = count_list tr LIncorrect"
proof (cases force)
  case False
  obtain h t1 where h: "password_hash L user tr = (h, t1)" by fastforce
  obtain p t2 where p: "read_password L ''Password: '' t1 = (p, t2)" by fastforce
  note c1 = password_hash_counts [OF h assms(2)]
  note c2 = read_password_counts [OF p c1 [THEN conjunct1]]
  show ?thesis using assms(1) False h p c1 c2
    by (auto simp: authenticate_def split: option.splits if_splits)
qed (use assms in \<open>auto simp: authenticate_def\<close>)

lemma secure_tty_counts:
  "tidy_tty tr \<Longrightarrow> tidy_tty (snd (secure_tty L tr)) \<and> prompts (snd (secure_tty L tr)) = prompts tr
     \<and> count_list (snd (secure_tty L tr)) LIncorrect = count_list tr LIncorrect"
  by (auto simp: secure_tty_def tidy_tty_def split: option.splits)

lemma attempt_login_counts:
  assumes "attempt_login L passwd force_user name tr = (r, tr')" "tidy_tty tr"
  shows "tidy_tty tr' \<and> prompts tr' \<le> prompts tr + 1 \<and> count_list tr' LIncorrect = count_list tr LIncorrect"
proof (cases "parse_passwd passwd name")
  case None
  obtain p t where "read_password L ''Password: '' tr = (p, t)" by fastforce
  with read_password_counts [OF this assms(2)] assms(1) None show ?thesis by (auto simp: attempt_login_def)
next
  case (Some user)
  obtain ok tr1 where p: "(if lu_uid user = 0 then secure_tty L tr else (True, tr)) = (ok, tr1)" by fastforce
  have c1: "tidy_tty tr1 \<and> prompts tr1 = prompts tr \<and> count_list tr1 LIncorrect = count_list tr LIncorrect"
    using p secure_tty_counts [OF assms(2), of L] assms(2) by (auto split: if_splits)
  obtain v tr2 where v: "authenticate L user (force_user = Some name) tr1 = (v, tr2)" by fastforce
  note c2 = authenticate_counts [OF v c1 [THEN conjunct1]]
  show ?thesis using assms(1) Some p v c1 c2
    by (auto simp: attempt_login_def Let_def split: option.splits if_splits)
qed

lemma login_loop_counts:
  assumes "login_loop L passwd force_user left name tr = (r, tr')" "tidy_tty tr"
  shows "tidy_tty tr' \<and> prompts tr' \<le> prompts tr + 2 * left \<and> count_list tr' LIncorrect \<le> count_list tr LIncorrect + left"
  using assms
proof (induction left arbitrary: name tr)
  case (Suc left)
  obtain n1 tr1 where n: "(if name = [] then read_line L ''login: '' tr else (Some name, tr)) = (n1, tr1)" by fastforce
  have c1: "tidy_tty tr1" "prompts tr1 \<le> prompts tr + 1" "count_list tr1 LIncorrect = count_list tr LIncorrect"
    using n Suc.prems(2) by (auto simp: read_line_def read_raw_line_def tidy_tty_def split: if_splits)
  show ?case
  proof (cases n1)
    case None
    with Suc.prems n c1 show ?thesis by simp
  next
    case (Some name1)
    show ?thesis
    proof (cases "name1 = []")
      case True
      with Suc.prems(1) n Some have "login_loop L passwd force_user left [] tr1 = (r, tr')" by simp
      from Suc.IH [OF this c1(1)] c1 show ?thesis by simp
    next
      case False
      obtain v tr2 where v: "attempt_login L passwd force_user name1 tr1 = (v, tr2)" by fastforce
      note c2 = attempt_login_counts [OF v c1(1)]
      let ?t = "LSleep 2 # LIncorrect # tr2"
      have t: "tidy_tty ?t" "prompts ?t = prompts tr2" "count_list ?t LIncorrect = Suc (count_list tr2 LIncorrect)"
        using c2 by (simp_all add: tidy_tty_def)
      from Suc.prems(1) n Some False v consider "tr' = tr2" | "login_loop L passwd force_user left [] ?t = (r, tr')"
        by (auto split: option.splits)
      then show ?thesis
      proof cases
        case 1
        with c1 c2 show ?thesis by simp
      next
        case 2
        from Suc.IH [OF this t(1)] t c1 c2 show ?thesis by simp
      qed
    qed
  qed
qed simp

text \<open>What follows the loop neither reads nor refuses.\<close>

definition silent :: "login_trace \<Rightarrow> bool" where
  "silent ext \<longleftrightarrow> set ext \<inter> {LIncorrect, LReadLine, LSleep 2, LEchoOff, LEchoOn} = {}"

lemma nologin_adds: "nologin L u tr = (r, tr') \<Longrightarrow> \<exists>ext. tr' = ext @ tr \<and> silent ext"
  by (auto simp: nologin_def Let_def silent_def split: if_splits)

lemma must_all_adds: "must_all L cs tr = (r, tr') \<Longrightarrow> silent (map fst cs) \<Longrightarrow> \<exists>ext. tr' = ext @ tr \<and> silent ext"
proof (induction cs arbitrary: tr)
  case (Cons x cs)
  obtain c b where x: "x = (c, b)" by fastforce
  have s: "silent [c]" "silent (map fst cs)" using Cons.prems(2) x by (auto simp: silent_def)
  show ?case
  proof (cases "b \<and> \<not> lo_call L tr c")
    case True
    with Cons.prems(1) x s show ?thesis by (intro exI [of _ "[c]"]) auto
  next
    case False
    then have "must_all L cs (c # tr) = (r, tr')" using Cons.prems(1) x by auto
    from Cons.IH [OF this s(2)] obtain ext where "tr' = ext @ c # tr" "silent ext" by blast
    with s(1) show ?thesis by (intro exI [of _ "ext @ [c]"]) (auto simp: silent_def)
  qed
qed (auto simp: silent_def)

lemma change_identity_adds:
  assumes "change_identity L u tr = (r, tr')"
  shows "\<exists>ext. tr' = ext @ tr \<and> silent ext"
proof (cases "CHR 0x00 \<in> set (lu_name u)")
  case True
  with assms show ?thesis by (auto simp: change_identity_def silent_def)
next
  case False
  define cs where "cs = [(LFchown (lu_uid u) (lu_gid u), True), (LFchmod 0x180, True),
    (LInitgroups (lu_name u) (lu_gid u), lu_uid u \<noteq> 0), (LSetgid (lu_gid u), True), (LSetuid (lu_uid u), True)]"
  obtain ok t where m: "must_all L cs tr = (ok, t)" by fastforce
  have "silent (map fst cs)" by (simp add: cs_def silent_def)
  from must_all_adds [OF m this] obtain ext where e: "t = ext @ tr" "silent ext" by blast
  have "tr' \<in> {t, LGetIds # t, LUmask 0x12 # LGetIds # t}"
    using assms False m unfolding change_identity_def cs_def [symmetric] by (auto split: prod.splits if_splits bool.splits)
  with e show ?thesis by (auto simp: silent_def)
qed

lemma start_shell_adds: "start_shell L u p h tr = (r, tr') \<Longrightarrow> \<exists>ext. tr' = ext @ tr \<and> silent ext"
  by (auto simp: start_shell_def Let_def silent_def)

text \<open>
  Property C40. A run of \<open>rlogin\<close> is bounded and leaves the terminal as it was: whoever types, it reads at
  most six lines and refuses at most three logins, waits two seconds after every refusal, and turns the
  echo on again as often as it turned it off.
\<close>
theorem login_attempts_bounded:
  "count_list (snd (login_run L args)) LIncorrect \<le> 3 \<and> count_list (snd (login_run L args)) LReadLine \<le> 6
   \<and> count_list (snd (login_run L args)) (LSleep 2) = count_list (snd (login_run L args)) LIncorrect
   \<and> count_list (snd (login_run L args)) LEchoOff = count_list (snd (login_run L args)) LEchoOn"
proof (cases "''--help'' \<in> set args")
  case False
  show ?thesis
  proof (cases "login_parse_args args")
    case (Inr a)
    show ?thesis
    proof (cases "lo_file L [LIgnoreSignals] ''/etc/passwd''")
      case (Some passwd)
      let ?t0 = "[LReadFile ''/etc/passwd'', LIgnoreSignals]"
      obtain r tr1 where l: "login_loop L passwd (la_force_user a) 3 (la_username a) ?t0 = (r, tr1)" by fastforce
      have c: "tidy_tty tr1" "prompts tr1 \<le> 6" "count_list tr1 LIncorrect \<le> 3"
        using login_loop_counts [OF l] by (simp_all add: tidy_tty_def)
      have "\<exists>ext. snd (login_run L args) = ext @ tr1 \<and> set ext \<inter> {LIncorrect, LReadLine, LSleep 2, LEchoOff, LEchoOn} = {}"
      proof (cases r)
        case None
        with False Inr Some l show ?thesis by (auto simp: login_run_def)
      next
        case (Some u)
        obtain closed tr2 where n: "nologin L u tr1 = (closed, tr2)" by fastforce
        define tr3 where "tr3 = (if lo_tty_name L tr2 = None then LTtyName # tr2 else LUtmp (lu_name u) # LTtyName # tr2)"
        obtain ok tr4 where i: "change_identity L u tr3 = (ok, tr4)" by fastforce
        obtain st tr5 where s: "start_shell L u (la_preserve a) (la_host a) (LDefaultSignals # tr4) = (st, tr5)" by fastforce
        obtain e1 e2 e3 where e: "tr2 = e1 @ tr1" "silent e1" "tr4 = e2 @ tr3" "silent e2" "tr5 = e3 @ LDefaultSignals # tr4" "silent e3"
          using nologin_adds [OF n] change_identity_adds [OF i] start_shell_adds [OF s] by metis
        then have "\<exists>ext. t = ext @ tr1 \<and> silent ext" if "t \<in> {tr2, tr4, tr5}" for t
          using that by (auto simp: tr3_def silent_def intro: exI [of _ "_ @ _"])
        moreover have "snd (login_run L args) \<in> {tr2, tr4, tr5}"
          using False Inr \<open>lo_file L [LIgnoreSignals] ''/etc/passwd'' = Some passwd\<close> l Some n i s
          by (auto simp: login_run_def tr3_def Let_def split: if_splits)
        ultimately show ?thesis by (auto simp: silent_def)
      qed
      with c show ?thesis by (auto simp: tidy_tty_def count_list_0_iff)
    qed (use False Inr in \<open>simp add: login_run_def\<close>)
  qed (use False in \<open>simp add: login_run_def\<close>)
qed (simp add: login_run_def)

end
