(* ===== verification/Rate_Limit.thy ===== *)
theory Rate_Limit
  imports BTree_Map "HOL-Library.Product_Lexorder"
begin

text \<open>
  The per-call-site rate limiter of \<open>rinit-core/src/ratelimit.rs\<close>. The \<open>BTreeMap\<close> of sites is
  an association list in key order; \<open>put\<close> is its \<open>insert\<close>. Counters are 32-bit: the one that can
  grow without bound saturates in the source and here.

  The properties: a flood at one call site never changes what happens at another; what is
  suppressed is counted and reported exactly once; and in any stretch of time shorter than the
  window a call site prints at most twice its burst.
\<close>

section \<open>Definitions\<close>

type_synonym Key = "string \<times> nat"

datatype Decision = Print | Suppress | PrintAfterSuppressing nat

record Site =
  window_start_ms :: nat
  printed :: nat
  suppressed :: nat

record Limiter =
  window_ms :: nat
  burst :: nat
  sites :: "(Key \<times> Site) list"

definition limiter_new :: "nat \<Rightarrow> nat \<Rightarrow> Limiter" where
  "limiter_new w b = \<lparr>window_ms = w, burst = b, sites = []\<rparr>"

definition site_count :: "Limiter \<Rightarrow> nat" where
  "site_count l = length (sites l)"

text \<open>The body of \<open>admit\<close> on the entry it found or inserted.\<close>

definition admit_site :: "nat \<Rightarrow> nat \<Rightarrow> Site \<Rightarrow> nat \<Rightarrow> Site \<times> Decision" where
  "admit_site w b site now =
     (if w \<le> now - window_start_ms site then
        (\<lparr>window_start_ms = now, printed = 1, suppressed = 0\<rparr>,
         if 0 < suppressed site then PrintAfterSuppressing (suppressed site) else Print)
      else if printed site < b then (site\<lparr>printed := printed site + 1\<rparr>, Print)
      else (site\<lparr>suppressed := sat_add u32_max (suppressed site) 1\<rparr>, Suppress))"

definition fresh_site :: "nat \<Rightarrow> Site" where
  "fresh_site now = \<lparr>window_start_ms = now, printed = 0, suppressed = 0\<rparr>"

definition admit :: "Limiter \<Rightarrow> Key \<Rightarrow> nat \<Rightarrow> Limiter \<times> Decision" where
  "admit l key now =
     (let site = (case map_of (sites l) key of Some s \<Rightarrow> s | None \<Rightarrow> fresh_site now);
          (site', d) = admit_site (window_ms l) (burst l) site now
      in (l\<lparr>sites := put key site' (sites l)\<rparr>, d))"

definition pending :: "Limiter \<Rightarrow> (Key \<times> nat) list" where
  "pending l = map (\<lambda>(k, s). (k, suppressed s)) (filter (\<lambda>(k, s). 0 < suppressed s) (sites l))"

section \<open>Sequences of messages\<close>

fun admit_all :: "Limiter \<Rightarrow> (Key \<times> nat) list \<Rightarrow> Limiter \<times> (Key \<times> Decision) list" where
  "admit_all l [] = (l, [])"
| "admit_all l ((k, t) # ms) =
     (let (l1, d) = admit l k t; (l2, ds) = admit_all l1 ms in (l2, (k, d) # ds))"

fun site_all :: "nat \<Rightarrow> nat \<Rightarrow> Site option \<Rightarrow> nat list \<Rightarrow> Site option \<times> Decision list" where
  "site_all w b s [] = (s, [])"
| "site_all w b s (t # ts) =
     (let (s1, d) = admit_site w b (case s of Some x \<Rightarrow> x | None \<Rightarrow> fresh_site t) t;
          (s2, ds) = site_all w b (Some s1) ts
      in (s2, d # ds))"

definition times_of :: "Key \<Rightarrow> (Key \<times> nat) list \<Rightarrow> nat list" where
  "times_of k ms = map snd (filter (\<lambda>m. fst m = k) ms)"

definition decisions_of :: "Key \<Rightarrow> (Key \<times> Decision) list \<Rightarrow> Decision list" where
  "decisions_of k ds = map snd (filter (\<lambda>d. fst d = k) ds)"

lemma admit_frame:
  "admit l k t = (l', d) \<Longrightarrow> window_ms l' = window_ms l \<and> burst l' = burst l
     \<and> map_of (sites l') = (map_of (sites l))(k \<mapsto>
         fst (admit_site (window_ms l) (burst l) (case map_of (sites l) k of Some s \<Rightarrow> s | None \<Rightarrow> fresh_site t) t))
     \<and> d = snd (admit_site (window_ms l) (burst l) (case map_of (sites l) k of Some s \<Rightarrow> s | None \<Rightarrow> fresh_site t) t)"
  by (auto simp: admit_def Let_def split_beta)

lemma admit_all_site:
  "map_of (sites (fst (admit_all l ms))) k =
     fst (site_all (window_ms l) (burst l) (map_of (sites l) k) (times_of k ms))
   \<and> decisions_of k (snd (admit_all l ms)) =
     snd (site_all (window_ms l) (burst l) (map_of (sites l) k) (times_of k ms))"
proof (induction ms arbitrary: l)
  case (Cons m ms)
  obtain k' t where m: "m = (k', t)" by (cases m)
  obtain l' d where a: "admit l k' t = (l', d)" by (cases "admit l k' t")
  show ?case
    using admit_frame [OF a] Cons.IH [of l'] a
    by (cases "k' = k") (auto simp: m times_of_def decisions_of_def split: prod.splits)
qed (simp add: times_of_def decisions_of_def)

section \<open>Counting\<close>

fun reported :: "Decision \<Rightarrow> nat" where
  "reported (PrintAfterSuppressing n) = n"
| "reported d = 0"

definition dropped :: "Decision list \<Rightarrow> nat" where
  "dropped ds = length (filter (\<lambda>d. d = Suppress) ds)"

definition prints :: "Decision list \<Rightarrow> nat" where
  "prints ds = length (filter (\<lambda>d. d \<noteq> Suppress) ds)"

definition backlog :: "Site option \<Rightarrow> nat" where
  "backlog s = (case s of Some x \<Rightarrow> suppressed x | None \<Rightarrow> 0)"

lemma site_all_conserves:
  "backlog s + length ts \<le> u32_max \<Longrightarrow>
     backlog s + dropped (snd (site_all w b s ts)) =
     sum_list (map reported (snd (site_all w b s ts))) + backlog (fst (site_all w b s ts))"
proof (induction ts arbitrary: s)
  case (Cons t ts)
  let ?s = "case s of Some x \<Rightarrow> x | None \<Rightarrow> fresh_site t"
  obtain s1 d where a: "admit_site w b ?s t = (s1, d)" by (cases "admit_site w b ?s t")
  have bs: "suppressed ?s = backlog s" by (simp add: backlog_def fresh_site_def split: option.splits)
  have "backlog s + (if d = Suppress then 1 else 0) = reported d + suppressed s1"
    using a Cons.prems bs
    by (auto simp: admit_site_def sat_add_def split: if_splits)
  moreover have "backlog (Some s1) + length ts \<le> u32_max"
    using a Cons.prems bs by (auto simp: admit_site_def sat_add_def backlog_def split: if_splits)
  ultimately show ?case
    using Cons.IH [of "Some s1"] by (auto simp: a Let_def split_beta dropped_def backlog_def)
qed (simp add: dropped_def)

definition pending_of :: "Key \<Rightarrow> Limiter \<Rightarrow> nat" where
  "pending_of k l = sum_list (map snd (filter (\<lambda>p. fst p = k) (pending l)))"

lemma pending_of_backlog:
  "distinct (map fst (sites l)) \<Longrightarrow> pending_of k l = backlog (map_of (sites l) k)"
proof -
  have "distinct (map fst xs) \<Longrightarrow>
      sum_list (map snd (filter (\<lambda>p. fst p = k)
        (map (\<lambda>(k, s). (k, suppressed s)) (filter (\<lambda>(k, s). 0 < suppressed s) xs)))) =
      backlog (map_of xs k)" for xs :: "(Key \<times> Site) list"
  proof (induction xs)
    case (Cons x xs)
    moreover have "filter (\<lambda>p. fst p = k)
        (map (\<lambda>(k, s). (k, suppressed s)) (filter (\<lambda>(k, s). 0 < suppressed s) xs)) = []"
      if "k \<notin> fst ` set xs"
      using that by (force simp: filter_empty_conv)
    ultimately show ?case by (cases x) (auto simp: backlog_def)
  qed (simp add: backlog_def)
  then show "distinct (map fst (sites l)) \<Longrightarrow> pending_of k l = backlog (map_of (sites l) k)"
    by (simp add: pending_of_def pending_def)
qed

lemma admit_all_sorted:
  "sorted_wrt (<) (map fst (sites l)) \<Longrightarrow> sorted_wrt (<) (map fst (sites (fst (admit_all l ms))))"
proof (induction ms arbitrary: l)
  case (Cons m ms)
  obtain k t where m: "m = (k, t)" by (cases m)
  have "sorted_wrt (<) (map fst (sites (fst (admit l k t))))"
    using Cons.prems by (simp add: admit_def Let_def split_beta sorted_put)
  with Cons.IH show ?case by (simp add: m Let_def split_beta)
qed simp

section \<open>The rate\<close>

definition wf_site :: "nat \<Rightarrow> Site option \<Rightarrow> bool" where
  "wf_site b s \<longleftrightarrow> (case s of Some x \<Rightarrow> printed x \<le> max 1 b | None \<Rightarrow> True)"

lemma wf_site_admit: "wf_site b (Some s) \<Longrightarrow> wf_site b (Some (fst (admit_site w b s t)))"
  by (auto simp: wf_site_def admit_site_def)

lemma wf_site_all: "wf_site b s \<Longrightarrow> wf_site b (fst (site_all w b s ts))"
proof (induction ts arbitrary: s)
  case (Cons t ts)
  have "wf_site b (Some (case s of Some x \<Rightarrow> x | None \<Rightarrow> fresh_site t))"
    using Cons.prems by (auto simp: wf_site_def fresh_site_def split: option.splits)
  then show ?case using Cons.IH wf_site_admit by (simp add: Let_def split_beta)
qed simp

lemma prints_in_window:
  "0 < w \<Longrightarrow> \<forall>t \<in> set ts. t < window_start_ms s + w \<Longrightarrow>
     prints (snd (site_all w b (Some s) ts)) + printed s \<le> max (printed s) b"
proof (induction ts arbitrary: s)
  case (Cons t ts)
  then have t: "\<not> w \<le> t - window_start_ms s" by auto
  show ?case
  proof (cases "printed s < b")
    case True
    then have "admit_site w b s t = (s\<lparr>printed := printed s + 1\<rparr>, Print)" using t by (simp add: admit_site_def)
    then show ?thesis
      using Cons.IH [of "s\<lparr>printed := printed s + 1\<rparr>"] Cons.prems True by (simp add: Let_def split_beta prints_def)
  next
    case False
    let ?s = "s\<lparr>suppressed := sat_add u32_max (suppressed s) 1\<rparr>"
    have "admit_site w b s t = (?s, Suppress)" using False t by (simp add: admit_site_def)
    then show ?thesis
      using Cons.IH [of ?s] Cons.prems False by (simp add: Let_def split_beta prints_def)
  qed
qed (simp add: prints_def)

text \<open>In a span shorter than the window at most one new window opens.\<close>

lemma prints_in_span:
  "0 < w \<Longrightarrow> sorted ts \<Longrightarrow> \<forall>t \<in> set ts. t0 \<le> t \<and> t < t0 + w \<Longrightarrow>
     prints (snd (site_all w b (Some s) ts)) + printed s \<le> max (printed s) b + max 1 b"
proof (induction ts arbitrary: s)
  case (Cons t ts)
  show ?case
  proof (cases "w \<le> t - window_start_ms s")
    case True
    let ?n = "\<lparr>window_start_ms = t, printed = 1, suppressed = 0\<rparr> :: Site"
    obtain d where d: "admit_site w b s t = (?n, d)" "d \<noteq> Suppress"
      using True by (auto simp: admit_site_def)
    have "\<forall>t' \<in> set ts. t' < t + w" using Cons.prems(2,3) by fastforce
    then have "prints (snd (site_all w b (Some ?n) ts)) + 1 \<le> max 1 b"
      using prints_in_window [of w ts ?n b] Cons.prems(1) by simp
    then show ?thesis using d by (simp add: Let_def split_beta prints_def)
  next
    case old: False
    show ?thesis
    proof (cases "printed s < b")
      case True
      then have "admit_site w b s t = (s\<lparr>printed := printed s + 1\<rparr>, Print)" using old by (simp add: admit_site_def)
      then show ?thesis
        using Cons.IH [of "s\<lparr>printed := printed s + 1\<rparr>"] Cons.prems True
        by (simp add: Let_def split_beta prints_def)
    next
      case False
      let ?s = "s\<lparr>suppressed := sat_add u32_max (suppressed s) 1\<rparr>"
      have "admit_site w b s t = (?s, Suppress)" using False old by (simp add: admit_site_def)
      then show ?thesis
        using Cons.IH [of ?s] Cons.prems False by (simp add: Let_def split_beta prints_def)
    qed
  qed
qed (simp add: prints_def)

lemma site_all_split:
  "snd (site_all w b s (ts @ us)) =
     snd (site_all w b s ts) @ snd (site_all w b (fst (site_all w b s ts)) us)"
  by (induction ts arbitrary: s) (simp_all add: Let_def split_beta)

lemma prints_bounded:
  assumes "wf_site b s" "sorted ts" "\<forall>t \<in> set ts. t0 \<le> t \<and> t < t0 + w"
  shows "prints (snd (site_all w b s ts)) \<le> 2 * max 1 b"
proof (cases ts)
  case (Cons t us)
  then have w: "0 < w" using assms(3) by auto
  let ?s = "case s of Some x \<Rightarrow> x | None \<Rightarrow> fresh_site t"
  have "printed ?s \<le> max 1 b"
    using assms(1) by (auto simp: wf_site_def fresh_site_def split: option.splits)
  moreover have "site_all w b s ts = site_all w b (Some ?s) ts" by (simp add: Cons)
  ultimately show ?thesis using prints_in_span [OF w assms(2,3), of b ?s] by auto
qed (simp add: prints_def)

section \<open>Properties\<close>

text \<open>
  Call sites are independent: the decisions made for one call site are those of a
  limiter that only ever saw the messages of that call site, so a flood elsewhere neither hides
  nor delays them.
\<close>

theorem call_sites_independent:
  "decisions_of k (snd (admit_all (limiter_new w b) ms)) =
     map snd (snd (admit_all (limiter_new w b) (filter (\<lambda>m. fst m = k) ms)))"
proof -
  have only: "map snd ds = decisions_of k ds" if "\<forall>d \<in> set ds. fst d = k" for ds :: "(Key \<times> Decision) list"
    using that by (simp add: decisions_of_def filter_id_conv [THEN iffD2])
  have keys: "map fst (snd (admit_all l ms')) = map fst ms'" for l ms'
    by (induction ms' arbitrary: l) (auto simp: Let_def split_beta)
  let ?ds = "snd (admit_all (limiter_new w b) (filter (\<lambda>m. fst m = k) ms))"
  have eq: "fst ` set ?ds = fst ` set (filter (\<lambda>m. fst m = k) ms)"
    using arg_cong [OF keys [of "limiter_new w b" "filter (\<lambda>m. fst m = k) ms"], of set] by simp
  have "\<forall>d \<in> set ?ds. fst d = k"
  proof
    fix d
    assume "d \<in> set ?ds"
    then have "fst d \<in> fst ` set (filter (\<lambda>m. fst m = k) ms)" unfolding eq [symmetric] by (rule imageI)
    then show "fst d = k" by auto
  qed
  from only [OF this] show ?thesis
    by (simp add: admit_all_site times_of_def)
qed

text \<open>
  No suppressed message is lost from the count: for every call site the number of
  messages suppressed is the sum of the counts already reported and of the count still pending,
  as long as the messages do not exceed a 32-bit count.
\<close>

theorem suppressed_accounted:
  assumes "length ms \<le> u32_max"
  shows "dropped (decisions_of k (snd (admit_all (limiter_new w b) ms))) =
    sum_list (map reported (decisions_of k (snd (admit_all (limiter_new w b) ms))))
    + pending_of k (fst (admit_all (limiter_new w b) ms))"
proof -
  let ?l = "limiter_new w b"
  have "distinct (map fst (sites (fst (admit_all ?l ms))))"
    using admit_all_sorted [of ?l ms] by (simp add: limiter_new_def strict_sorted_iff)
  then have "pending_of k (fst (admit_all ?l ms)) = backlog (fst (site_all w b None (times_of k ms)))"
    using admit_all_site [of ?l ms k] by (simp add: pending_of_backlog limiter_new_def)
  moreover have "length (times_of k ms) \<le> u32_max"
    using assms length_filter_le [of "\<lambda>m. fst m = k" ms] unfolding times_of_def
    by (metis length_map order_trans)
  ultimately show ?thesis
    using site_all_conserves [of None "times_of k ms" w b] admit_all_site [of ?l ms k]
    by (simp add: backlog_def limiter_new_def)
qed

theorem suppressed_accounted_witness:
  "dropped (decisions_of (''a'', 1) (snd (admit_all (limiter_new 10 1)
      [((''a'', 1), 0), ((''a'', 1), 1), ((''a'', 1), 2), ((''a'', 1), 12)]))) = 2"
proof -
  let ?ms = "[((''a'', 1::nat), 0::nat), ((''a'', 1), 1), ((''a'', 1), 2), ((''a'', 1), 12)]"
  have "length ?ms \<le> u32_max" by (simp add: u32_max_def)
  from suppressed_accounted [OF this, of "(''a'', 1)" 10 1]
  have "dropped (decisions_of (''a'', 1) (snd (admit_all (limiter_new 10 1) ?ms))) =
    sum_list (map reported (decisions_of (''a'', 1) (snd (admit_all (limiter_new 10 1) ?ms))))
    + pending_of (''a'', 1) (fst (admit_all (limiter_new 10 1) ?ms))" .
  also have "\<dots> = 2"
    by (simp add: admit_def admit_site_def fresh_site_def limiter_new_def decisions_of_def
        pending_of_def pending_def sat_add_def u32_max_def)
  finally show ?thesis .
qed

text \<open>
  The console is bounded: whatever happened before, the messages of one call site
  that fall within a span shorter than the window are printed at most twice the burst (and at
  most twice when the burst is zero).
\<close>

theorem prints_per_span_bounded:
  assumes "sorted (times_of k ms')" "\<forall>t \<in> set (times_of k ms'). t0 \<le> t \<and> t < t0 + w"
  shows "prints (decisions_of k (snd (admit_all (fst (admit_all (limiter_new w b) ms)) ms'))) \<le> 2 * max 1 b"
proof -
  let ?l = "fst (admit_all (limiter_new w b) ms)"
  have "window_ms (fst (admit_all l xs)) = window_ms l \<and> burst (fst (admit_all l xs)) = burst l" for l xs
    by (induction xs arbitrary: l) (auto simp: Let_def split_beta admit_def)
  then have wb: "window_ms ?l = w" "burst ?l = b" by (auto simp: limiter_new_def)
  have "wf_site b (map_of (sites ?l) k)"
    using admit_all_site [of "limiter_new w b" ms k] wf_site_all [of b None w "times_of k ms"]
    by (simp add: limiter_new_def wf_site_def)
  from prints_bounded [OF this assms] show ?thesis
    using admit_all_site [of ?l ms' k] wb by simp
qed

theorem prints_per_span_bounded_witness:
  "prints (decisions_of (''a'', 1) (snd (admit_all (fst (admit_all (limiter_new 10 1) [((''a'', 1), 0)]))
      [((''a'', 1), 5), ((''a'', 1), 11), ((''a'', 1), 12)]))) \<le> 2 * max 1 1"
proof (rule prints_per_span_bounded [where ?t0.0 = 5])
  show "sorted (times_of (''a'', 1) [((''a'', 1), 5), ((''a'', 1), 11), ((''a'', 1), 12)])"
    "\<forall>t \<in> set (times_of (''a'', 1) [((''a'', 1), 5), ((''a'', 1), 11), ((''a'', 1), 12)]). 5 \<le> t \<and> t < 5 + 10"
    by (simp_all add: times_of_def)
qed

end
